(* ===== verification/Prelude.thy ===== *)
theory Prelude
  imports Main "HOL-Library.Word" "HOL-Library.Code_Target_Numeral"
begin

text \<open>
  The shared vocabulary of the development: Rust strings as UTF-8 byte lists with the parts of
  \<^verbatim>\<open>core::str\<close> the sources call, machine integers, JSON values, and the
  generic lemmas the component theories share.

  A Rust \<^verbatim>\<open>&str\<close> or \<^verbatim>\<open>String\<close> is a \<open>string\<close>, that is a list of
  bytes; \<open>length\<close> is Rust's \<^verbatim>\<open>len()\<close> (bytes, not code points), and an offset is
  a byte offset.
\<close>

section \<open>Rule collections and type names\<close>

named_theorems str_simps "equations of the string operations on concrete shapes"
named_theorems str_dest "what a successful string operation says about its input"

type_synonym rstr = string
type_synonym u8 = "8 word"
type_synonym u16 = "16 word"
type_synonym u32 = "32 word"
type_synonym u64 = "64 word"

definition REF_PREFIX :: rstr where "REF_PREFIX = ''secret://''"
definition USIZE_MAX :: nat where "USIZE_MAX = 2 ^ 64 - 1"

text \<open>A fallible Rust function returns \<^verbatim>\<open>Result<T, E>\<close>: \<open>Inl\<close> is
  \<^verbatim>\<open>Err\<close>, \<open>Inr\<close> is \<^verbatim>\<open>Ok\<close>.\<close>

abbreviation Err :: "'e \<Rightarrow> 'e + 'a" where "Err \<equiv> Inl"
abbreviation Ok :: "'a \<Rightarrow> 'e + 'a" where "Ok \<equiv> Inr"

section \<open>Bytes\<close>

definition code :: "char \<Rightarrow> nat" where
  "code c = of_char c"

lemma code_less_256 [simp]: "code c < 256"
  by (simp add: code_def of_char_of nat_of_char_less_256)

definition is_ascii_digit :: "char \<Rightarrow> bool" where
  "is_ascii_digit c \<longleftrightarrow> 48 \<le> code c \<and> code c \<le> 57"

definition is_ascii_upper :: "char \<Rightarrow> bool" where
  "is_ascii_upper c \<longleftrightarrow> 65 \<le> code c \<and> code c \<le> 90"

definition is_ascii_lower :: "char \<Rightarrow> bool" where
  "is_ascii_lower c \<longleftrightarrow> 97 \<le> code c \<and> code c \<le> 122"

definition is_ascii_alphanumeric :: "char \<Rightarrow> bool" where
  "is_ascii_alphanumeric c \<longleftrightarrow> is_ascii_digit c \<or> is_ascii_upper c \<or> is_ascii_lower c"

definition is_ascii :: "char \<Rightarrow> bool" where
  "is_ascii c \<longleftrightarrow> code c < 128"

definition ascii_lower :: "char \<Rightarrow> char" where
  "ascii_lower c = (if is_ascii_upper c then char_of (code c + 32) else c)"

definition to_ascii_lowercase :: "rstr \<Rightarrow> rstr" where
  "to_ascii_lowercase s = map ascii_lower s"

lemma length_to_ascii_lowercase [simp]: "length (to_ascii_lowercase s) = length s"
  by (simp add: to_ascii_lowercase_def)

lemma code_char_of [simp]: "n < 256 \<Longrightarrow> code (char_of n) = n"
  by (simp add: code_def of_char_of)

lemma ascii_lower_not_upper: "\<not> is_ascii_upper (ascii_lower c)"
  by (auto simp: ascii_lower_def is_ascii_upper_def)

lemma ascii_lower_idem [simp]: "ascii_lower (ascii_lower c) = ascii_lower c"
  using ascii_lower_not_upper [of c] by (simp add: ascii_lower_def [of "ascii_lower c"])

lemma to_ascii_lowercase_idem [simp]:
  "to_ascii_lowercase (to_ascii_lowercase s) = to_ascii_lowercase s"
  by (simp add: to_ascii_lowercase_def)

section \<open>Substrings\<close>

text \<open>\<^verbatim>\<open>str::starts_with\<close>, \<^verbatim>\<open>ends_with\<close>, \<^verbatim>\<open>strip_prefix\<close>,
  \<^verbatim>\<open>contains\<close>, \<^verbatim>\<open>find\<close> and \<^verbatim>\<open>match_indices\<close>.\<close>

fun starts_with :: "rstr \<Rightarrow> rstr \<Rightarrow> bool" where
  "starts_with s [] = True"
| "starts_with [] (p # ps) = False"
| "starts_with (c # cs) (p # ps) = (c = p \<and> starts_with cs ps)"

definition ends_with :: "rstr \<Rightarrow> rstr \<Rightarrow> bool" where
  "ends_with s p = starts_with (rev s) (rev p)"

definition strip_prefix :: "rstr \<Rightarrow> rstr \<Rightarrow> rstr option" where
  "strip_prefix s p = (if starts_with s p then Some (drop (length p) s) else None)"

fun str_contains :: "rstr \<Rightarrow> rstr \<Rightarrow> bool" where
  "str_contains [] n = (n = [])"
| "str_contains (c # cs) n = (starts_with (c # cs) n \<or> str_contains cs n)"

fun find_char :: "char \<Rightarrow> rstr \<Rightarrow> nat option" where
  "find_char x [] = None"
| "find_char x (c # cs) = (if c = x then Some 0 else map_option Suc (find_char x cs))"

text \<open>Non-overlapping matches from the left, with their byte offsets: after a match the search
  goes on behind it. The needles of the sources are never empty; the guard keeps the recursion
  going one byte at a time for an empty one.\<close>

function match_indices_from :: "nat \<Rightarrow> rstr \<Rightarrow> rstr \<Rightarrow> nat list" where
  "match_indices_from i [] n = []"
| "match_indices_from i (c # cs) n =
     (if n \<noteq> [] \<and> starts_with (c # cs) n
      then i # match_indices_from (i + length n) (drop (length n) (c # cs)) n
      else match_indices_from (Suc i) cs n)"
  by pat_completeness auto
termination
  by (relation "measure (\<lambda>(i, h, n). length h)") auto

definition match_indices :: "rstr \<Rightarrow> rstr \<Rightarrow> nat list" where
  "match_indices h n = match_indices_from 0 h n"

lemma starts_with_iff: "starts_with s p \<longleftrightarrow> (\<exists>t. s = p @ t)"
  by (induction s p rule: starts_with.induct) auto

lemma starts_with_append [simp]: "starts_with (p @ t) p"
  by (auto simp: starts_with_iff)

lemma ends_with_iff: "ends_with s p \<longleftrightarrow> (\<exists>t. s = t @ p)"
  unfolding ends_with_def starts_with_iff
  by (metis rev_append rev_rev_ident)

lemma strip_prefix_Some_iff [str_dest]: "strip_prefix s p = Some t \<longleftrightarrow> s = p @ t"
  by (auto simp: strip_prefix_def starts_with_iff)

lemma strip_prefix_None_iff: "strip_prefix s p = None \<longleftrightarrow> \<not> starts_with s p"
  by (simp add: strip_prefix_def)

lemma str_contains_iff: "str_contains s n \<longleftrightarrow> (\<exists>u v. s = u @ n @ v)"
proof (induction s)
  case Nil
  then show ?case by auto
next
  case (Cons c cs)
  show ?case
  proof
    assume "str_contains (c # cs) n"
    then consider t where "c # cs = n @ t" | u v where "cs = u @ n @ v"
      using Cons.IH by (auto simp: starts_with_iff)
    then show "\<exists>u v. c # cs = u @ n @ v"
      by (metis append_Cons append_Nil)
  next
    assume "\<exists>u v. c # cs = u @ n @ v"
    then obtain u v where uv: "c # cs = u @ n @ v" by blast
    show "str_contains (c # cs) n"
    proof (cases u)
      case Nil
      with uv have "starts_with (c # cs) n" by (simp add: starts_with_iff)
      then show ?thesis by simp
    next
      case (Cons d ds)
      with uv have "cs = ds @ n @ v" by simp
      then show ?thesis using Cons.IH by auto
    qed
  qed
qed

lemma str_contains_trans:
  "str_contains a b \<Longrightarrow> str_contains b c \<Longrightarrow> str_contains a c"
  unfolding str_contains_iff by (metis append_assoc)

lemma find_char_None_iff: "find_char x s = None \<longleftrightarrow> x \<notin> set s"
  by (induction s) auto

lemma find_char_Some [str_dest]:
  "find_char x s = Some i \<Longrightarrow> i < length s \<and> s ! i = x \<and> x \<notin> set (take i s)"
  by (induction s arbitrary: i) (auto split: if_splits)

lemma match_indices_from_sound:
  "j \<in> set (match_indices_from i h n) \<Longrightarrow>
     i \<le> j \<and> (\<exists>u v. h = u @ n @ v \<and> length u = j - i) \<and> n \<noteq> []"
proof (induction i h n rule: match_indices_from.induct)
  case (1 i n)
  then show ?case by simp
next
  case (2 i c cs n)
  show ?case
  proof (cases "n \<noteq> [] \<and> starts_with (c # cs) n")
    case True
    then obtain t where t: "c # cs = n @ t" by (auto simp: starts_with_iff)
    from "2.prems" True consider "j = i"
      | "j \<in> set (match_indices_from (i + length n) (drop (length n) (c # cs)) n)"
      by auto
    then show ?thesis
    proof cases
      case 1
      with t True show ?thesis by (metis append_Nil diff_self_eq_0 le_refl list.size(3))
    next
      case 2
      with "2.IH"(1) [OF True] obtain u v where
        uv: "drop (length n) (c # cs) = u @ n @ v" "length u = j - (i + length n)"
        and le: "i + length n \<le> j"
        by blast
      from t uv(1) have "c # cs = (n @ u) @ n @ v" by simp
      moreover from uv(2) le have "length (n @ u) = j - i" by simp
      ultimately show ?thesis using le True by (metis add_leD1)
    qed
  next
    case False
    with "2.prems" have "j \<in> set (match_indices_from (Suc i) cs n)"
      by (subst (asm) match_indices_from.simps) (simp only: if_False)
    with "2.IH"(2) [OF False] obtain u v where
      uv: "cs = u @ n @ v" "length u = j - Suc i" and le: "Suc i \<le> j" "n \<noteq> []"
      by blast
    have "c # cs = (c # u) @ n @ v" using uv(1) by simp
    moreover have "length (c # u) = j - i" using uv(2) le(1) by simp
    ultimately show ?thesis using le by (metis Suc_leD)
  qed
qed

lemma match_indices_sound:
  "j \<in> set (match_indices h n) \<Longrightarrow> \<exists>u v. h = u @ n @ v \<and> length u = j"
  unfolding match_indices_def using match_indices_from_sound [of j 0 h n] by simp

section \<open>Trimming\<close>

text \<open>
  \<^verbatim>\<open>str::trim\<close> removes code points with the Unicode property White\_Space. In UTF-8 these
  are the byte sequences below, and on a valid UTF-8 string a sequence at the front (at the
  back) is exactly a whitespace code point there.
\<close>

definition ws_seqs :: "rstr list" where
  "ws_seqs = [
     [CHR 0x09], [CHR 0x0A], [CHR 0x0B], [CHR 0x0C], [CHR 0x0D], [CHR 0x20],
     [CHR 0xC2, CHR 0x85], [CHR 0xC2, CHR 0xA0], [CHR 0xE1, CHR 0x9A, CHR 0x80],
     [CHR 0xE2, CHR 0x80, CHR 0x80], [CHR 0xE2, CHR 0x80, CHR 0x81],
     [CHR 0xE2, CHR 0x80, CHR 0x82], [CHR 0xE2, CHR 0x80, CHR 0x83],
     [CHR 0xE2, CHR 0x80, CHR 0x84], [CHR 0xE2, CHR 0x80, CHR 0x85],
     [CHR 0xE2, CHR 0x80, CHR 0x86], [CHR 0xE2, CHR 0x80, CHR 0x87],
     [CHR 0xE2, CHR 0x80, CHR 0x88], [CHR 0xE2, CHR 0x80, CHR 0x89],
     [CHR 0xE2, CHR 0x80, CHR 0x8A], [CHR 0xE2, CHR 0x80, CHR 0xA8],
     [CHR 0xE2, CHR 0x80, CHR 0xA9], [CHR 0xE2, CHR 0x80, CHR 0xAF],
     [CHR 0xE2, CHR 0x81, CHR 0x9F], [CHR 0xE3, CHR 0x80, CHR 0x80]]"

function trim_start :: "rstr \<Rightarrow> rstr" where
  "trim_start s =
     (case find (\<lambda>w. starts_with s w) ws_seqs of
        None \<Rightarrow> s
      | Some w \<Rightarrow> (if length w = 0 \<or> length s < length w then s else trim_start (drop (length w) s)))"
  by pat_completeness auto
termination
  by (relation "measure length") (auto intro: diff_less simp: not_less)

declare trim_start.simps [simp del]

function trim_end_rev :: "rstr \<Rightarrow> rstr" where
  "trim_end_rev r =
     (case find (\<lambda>w. starts_with r (rev w)) ws_seqs of
        None \<Rightarrow> r
      | Some w \<Rightarrow> (if length w = 0 \<or> length r < length w then r else trim_end_rev (drop (length w) r)))"
  by pat_completeness auto
termination
  by (relation "measure length") (auto intro: diff_less simp: not_less)

declare trim_end_rev.simps [simp del]

definition trim_end :: "rstr \<Rightarrow> rstr" where
  "trim_end s = rev (trim_end_rev (rev s))"

definition trim :: "rstr \<Rightarrow> rstr" where
  "trim s = trim_end (trim_start s)"

lemma trim_start_suffix: "\<exists>u. s = u @ trim_start s"
proof (induction s rule: trim_start.induct)
  case (1 s)
  show ?case
  proof (cases "find (\<lambda>w. starts_with s w) ws_seqs")
    case None
    then show ?thesis by (subst trim_start.simps) simp
  next
    case (Some w)
    show ?thesis
    proof (cases "length w = 0 \<or> length s < length w")
      case True
      with Some show ?thesis by (subst trim_start.simps) simp
    next
      case False
      with 1 Some obtain u where u: "drop (length w) s = u @ trim_start (drop (length w) s)"
        by blast
      have eq: "trim_start s = trim_start (drop (length w) s)"
        using Some False by (subst trim_start.simps) simp
      have "s = (take (length w) s @ u) @ trim_start s"
        using u eq by (metis append.assoc append_take_drop_id)
      then show ?thesis by blast
    qed
  qed
qed

lemma trim_end_rev_suffix: "\<exists>u. r = u @ trim_end_rev r"
proof (induction r rule: trim_end_rev.induct)
  case (1 r)
  show ?case
  proof (cases "find (\<lambda>w. starts_with r (rev w)) ws_seqs")
    case None
    then show ?thesis by (subst trim_end_rev.simps) simp
  next
    case (Some w)
    show ?thesis
    proof (cases "length w = 0 \<or> length r < length w")
      case True
      with Some show ?thesis by (subst trim_end_rev.simps) simp
    next
      case False
      with 1 Some obtain u where u: "drop (length w) r = u @ trim_end_rev (drop (length w) r)"
        by blast
      have eq: "trim_end_rev r = trim_end_rev (drop (length w) r)"
        using Some False by (subst trim_end_rev.simps) simp
      have "r = (take (length w) r @ u) @ trim_end_rev r"
        using u eq by (metis append.assoc append_take_drop_id)
      then show ?thesis by blast
    qed
  qed
qed

lemma trim_sub: "\<exists>u v. s = u @ trim s @ v"
proof -
  obtain u where u: "s = u @ trim_start s" using trim_start_suffix by blast
  obtain w where w: "rev (trim_start s) = w @ trim_end_rev (rev (trim_start s))"
    using trim_end_rev_suffix by blast
  then have "trim_start s = trim s @ rev w"
    by (metis rev_append rev_rev_ident trim_def trim_end_def)
  with u show ?thesis by metis
qed

lemma trim_start_keeps: "c \<in> set s \<Longrightarrow> \<forall>w \<in> set ws_seqs. c \<notin> set w \<Longrightarrow> c \<in> set (trim_start s)"
proof (induction s rule: trim_start.induct)
  case (1 s)
  show ?case
  proof (cases "find (\<lambda>w. starts_with s w) ws_seqs")
    case None
    then show ?thesis using 1(2) by (subst trim_start.simps) simp
  next
    case (Some w)
    then have w: "w \<in> set ws_seqs" "starts_with s w" by (auto simp: find_Some_iff)
    then obtain t where t: "s = w @ t" using starts_with_iff by blast
    then have "c \<in> set (drop (length w) s)" using 1(2,3) w(1) by auto
    with 1 Some show ?thesis by (subst trim_start.simps) auto
  qed
qed

lemma trim_end_rev_keeps: "c \<in> set s \<Longrightarrow> \<forall>w \<in> set ws_seqs. c \<notin> set w \<Longrightarrow> c \<in> set (trim_end_rev s)"
proof (induction s rule: trim_end_rev.induct)
  case (1 s)
  show ?case
  proof (cases "find (\<lambda>w. starts_with s (rev w)) ws_seqs")
    case None
    then show ?thesis using 1(2) by (subst trim_end_rev.simps) simp
  next
    case (Some w)
    then have w: "w \<in> set ws_seqs" "starts_with s (rev w)" by (auto simp: find_Some_iff)
    then obtain t where t: "s = rev w @ t" using starts_with_iff by blast
    then have "c \<in> set (drop (length w) s)" using 1(2,3) w(1) by auto
    with 1 Some show ?thesis by (subst trim_end_rev.simps) auto
  qed
qed

lemma trim_keeps: "c \<in> set s \<Longrightarrow> \<forall>w \<in> set ws_seqs. c \<notin> set w \<Longrightarrow> c \<in> set (trim s)"
  by (simp add: trim_def trim_end_def trim_end_rev_keeps trim_start_keeps)

lemma to_ascii_lowercase_mem:
  "\<not> is_ascii_upper c \<Longrightarrow> \<not> is_ascii_lower c \<Longrightarrow> c \<in> set (to_ascii_lowercase s) \<longleftrightarrow> c \<in> set s"
proof -
  assume c: "\<not> is_ascii_upper c" "\<not> is_ascii_lower c"
  have "ascii_lower x = c \<longleftrightarrow> x = c" for x
    using c by (auto simp: ascii_lower_def is_ascii_upper_def is_ascii_lower_def split: if_splits)
  then have "c \<in> ascii_lower ` set s \<longleftrightarrow> c \<in> set s" by (metis image_iff)
  then show ?thesis by (simp add: to_ascii_lowercase_def)
qed

lemma length_trim: "length (trim s) \<le> length s"
  using trim_sub [of s] by (metis le_add1 le_add2 le_trans length_append)

section \<open>Splitting\<close>

function split_whitespace_from :: "rstr \<Rightarrow> rstr \<Rightarrow> rstr list" where
  "split_whitespace_from acc s =
     (case s of
        [] \<Rightarrow> if acc = [] then [] else [rev acc]
      | c # cs \<Rightarrow>
          (case find (\<lambda>w. starts_with s w) ws_seqs of
             None \<Rightarrow> split_whitespace_from (c # acc) cs
           | Some w \<Rightarrow>
               (if acc = [] then [] else [rev acc]) @
               split_whitespace_from [] (drop (max 1 (length w)) s)))"
  by pat_completeness auto
termination
  by (relation "measure (\<lambda>(acc, s). length s)") auto

declare split_whitespace_from.simps [simp del]

definition split_whitespace :: "rstr \<Rightarrow> rstr list" where
  "split_whitespace s = split_whitespace_from [] s"

definition graph_char :: "char \<Rightarrow> bool" where
  "graph_char c \<longleftrightarrow> 0x21 \<le> code c \<and> code c \<le> 0x7E"

lemma ws_seqs_heads: "list_all (\<lambda>w. w \<noteq> [] \<and> \<not> graph_char (hd w)) ws_seqs"
  by (simp add: ws_seqs_def graph_char_def code_def)

lemma graph_char_not_ws:
  assumes "graph_char c" shows "find (\<lambda>w. starts_with (c # cs) w) ws_seqs = None"
proof -
  have "\<not> starts_with (c # cs) w" if "w \<in> set ws_seqs" for w
    using ws_seqs_heads that assms by (cases w) (auto simp: list_all_iff)
  then show ?thesis by (auto simp: find_None_iff)
qed

lemma split_whitespace_word:
  assumes "list_all graph_char w"
  shows "split_whitespace_from acc (w @ s) = split_whitespace_from (rev w @ acc) s"
  using assms
proof (induction w arbitrary: acc)
  case (Cons c w)
  then show ?case
    by (simp add: split_whitespace_from.simps [of acc "c # w @ s"] graph_char_not_ws)
qed simp

lemma split_whitespace_space:
  "split_whitespace_from acc (CHR '' '' # s) = (if acc = [] then [] else [rev acc]) @ split_whitespace s"
proof -
  have "find (\<lambda>w. starts_with (CHR '' '' # s) w) ws_seqs = Some '' ''"
    by (simp add: ws_seqs_def)
  then show ?thesis by (simp add: split_whitespace_from.simps [of acc] split_whitespace_def)
qed

text \<open>A line of words with single spaces between them splits into the words.\<close>

lemma split_whitespace_words:
  assumes "list_all (\<lambda>w. w \<noteq> [] \<and> list_all graph_char w) (w # ws)"
  shows "split_whitespace (w @ concat (map (\<lambda>v. CHR '' '' # v) ws)) = w # ws"
  using assms
proof (induction ws arbitrary: w)
  case Nil
  then show ?case using split_whitespace_word [of w "[]" "[]"]
    by (simp add: split_whitespace_def split_whitespace_from.simps [of "rev w"])
next
  case (Cons v ws)
  then show ?case
    using split_whitespace_word [of w "[]"] by (simp add: split_whitespace_def [of "w @ _"] split_whitespace_space)
qed

fun split_once :: "char \<Rightarrow> rstr \<Rightarrow> (rstr \<times> rstr) option" where
  "split_once x [] = None"
| "split_once x (c # cs) =
     (if c = x then Some ([], cs) else map_option (\<lambda>(a, b). (c # a, b)) (split_once x cs))"

definition rsplit_once :: "char \<Rightarrow> rstr \<Rightarrow> (rstr \<times> rstr) option" where
  "rsplit_once x s = map_option (\<lambda>(a, b). (rev b, rev a)) (split_once x (rev s))"

fun split_char :: "char \<Rightarrow> rstr \<Rightarrow> rstr list" where
  "split_char x [] = [[]]"
| "split_char x (c # cs) =
     (if c = x then [] # split_char x cs
      else (case split_char x cs of [] \<Rightarrow> [[c]] | p # ps \<Rightarrow> (c # p) # ps))"

lemma split_once_Some [str_dest]:
  "split_once x s = Some (a, b) \<longleftrightarrow> s = a @ x # b \<and> x \<notin> set a"
proof (induction s arbitrary: a b)
  case Nil
  then show ?case by simp
next
  case (Cons c cs)
  show ?case
  proof (cases "c = x")
    case True
    then show ?thesis by (cases a) auto
  next
    case False
    show ?thesis
    proof (cases a)
      case Nil
      with False show ?thesis by auto
    next
      case (Cons d ds)
      have "split_once x (c # cs) = Some (a, b) \<longleftrightarrow> d = c \<and> split_once x cs = Some (ds, b)"
        using False Cons by auto
      then show ?thesis using Cons.IH [of ds b] False Cons by auto
    qed
  qed
qed

lemma split_once_None_iff: "split_once x s = None \<longleftrightarrow> x \<notin> set s"
  by (induction s) auto

lemma rsplit_once_Some [str_dest]:
  "rsplit_once x s = Some (a, b) \<longleftrightarrow> s = a @ x # b \<and> x \<notin> set b"
proof -
  have "rsplit_once x s = Some (a, b) \<longleftrightarrow> split_once x (rev s) = Some (rev b, rev a)"
    unfolding rsplit_once_def by (cases "split_once x (rev s)") (auto simp: rev_swap)
  also have "\<dots> \<longleftrightarrow> rev s = rev b @ x # rev a \<and> x \<notin> set b"
    by (simp add: split_once_Some)
  also have "\<dots> \<longleftrightarrow> s = a @ x # b \<and> x \<notin> set b"
    by (metis append.assoc append_Cons append_Nil rev.simps(2) rev_append rev_rev_ident)
  finally show ?thesis .
qed

lemma rsplit_once_None_iff: "rsplit_once x s = None \<longleftrightarrow> x \<notin> set s"
  by (simp add: rsplit_once_def split_once_None_iff)

lemma split_char_nonempty [simp]: "split_char x s \<noteq> []"
  by (cases s) (auto split: list.splits)

section \<open>Numbers as text\<close>

function show_nat :: "nat \<Rightarrow> rstr" where
  "show_nat n = (if n < 10 then [char_of (48 + n)] else show_nat (n div 10) @ [char_of (48 + n mod 10)])"
  by pat_completeness auto
termination
  by (relation "measure id") auto

declare show_nat.simps [simp del]

definition digit_val :: "char \<Rightarrow> nat" where
  "digit_val c = code c - 48"

definition digits_value :: "rstr \<Rightarrow> nat" where
  "digits_value s = foldl (\<lambda>acc c. 10 * acc + digit_val c) 0 s"

text \<open>\<^verbatim>\<open>str::parse::<uN>()\<close>: an optional \<open>+\<close>, at least one ASCII digit, nothing else,
  and a value that fits.\<close>

definition parse_uint :: "nat \<Rightarrow> rstr \<Rightarrow> nat option" where
  "parse_uint bits s =
     (let d = (case s of c # cs \<Rightarrow> (if c = CHR ''+'' then cs else s) | [] \<Rightarrow> s)
      in if d \<noteq> [] \<and> list_all is_ascii_digit d \<and> digits_value d < 2 ^ bits
         then Some (digits_value d) else None)"

lemma parse_uint_bound [str_dest]: "parse_uint b s = Some n \<Longrightarrow> n < 2 ^ b"
  by (auto simp: parse_uint_def Let_def split: if_splits list.splits)

lemma digits_value_append: "digits_value (a @ [c]) = 10 * digits_value a + digit_val c"
  by (simp add: digits_value_def)

lemma is_ascii_digit_show: "n < (10::nat) \<Longrightarrow> is_ascii_digit (char_of (48 + n))"
  by (simp add: is_ascii_digit_def)

lemma show_nat_digits: "list_all is_ascii_digit (show_nat n)"
proof (induction n rule: show_nat.induct)
  case (1 n)
  then show ?case
    by (subst show_nat.simps) (auto simp: is_ascii_digit_show)
qed

lemma show_nat_nonempty [simp]: "show_nat n \<noteq> []"
  by (subst show_nat.simps) simp

lemma digits_value_show_nat [simp]: "digits_value (show_nat n) = n"
proof (induction n rule: show_nat.induct)
  case (1 n)
  show ?case
  proof (cases "n < 10")
    case True
    then show ?thesis
      by (subst show_nat.simps) (simp add: digits_value_def digit_val_def)
  next
    case False
    with 1 have "digits_value (show_nat (n div 10)) = n div 10" by simp
    with False show ?thesis
      by (subst show_nat.simps) (simp add: digits_value_append digit_val_def)
  qed
qed

lemma show_nat_hd_digit: "is_ascii_digit (hd (show_nat n))"
  using show_nat_digits [of n] by (cases "show_nat n") auto

lemma parse_uint_show_nat: "n < 2 ^ b \<Longrightarrow> parse_uint b (show_nat n) = Some n"
proof -
  assume n: "n < 2 ^ b"
  have "hd (show_nat n) \<noteq> CHR ''+''"
    using show_nat_hd_digit [of n] by (auto simp: is_ascii_digit_def code_def)
  then have "(case show_nat n of c # cs \<Rightarrow> (if c = CHR ''+'' then cs else show_nat n) | [] \<Rightarrow> show_nat n)
      = show_nat n"
    by (cases "show_nat n") auto
  with n show ?thesis
    by (simp add: parse_uint_def Let_def show_nat_digits)
qed

section \<open>JSON values\<close>

text \<open>\<^verbatim>\<open>serde_json::Value\<close>. A number is an integer or, kept by its bits, a float; an object is its
  entries in map order, each key once.\<close>

datatype json =
    JNull
  | JBool bool
  | JInt int
  | JFloat u64
  | JStr rstr
  | JArr "json list"
  | JObj "(rstr \<times> json) list"

fun json_get :: "json \<Rightarrow> rstr \<Rightarrow> json option" where
  "json_get (JObj kvs) k = map_of kvs k"
| "json_get _ k = None"

fun json_as_str :: "json \<Rightarrow> rstr option" where
  "json_as_str (JStr s) = Some s"
| "json_as_str _ = None"

section \<open>Lists\<close>

text \<open>\<^verbatim>\<open>iter().enumerate()\<close> with an early return: the first index from \<open>i\<close> on whose element
  satisfies the test.\<close>

fun first_index_from :: "nat \<Rightarrow> ('a \<Rightarrow> bool) \<Rightarrow> 'a list \<Rightarrow> (nat \<times> 'a) option" where
  "first_index_from i p [] = None"
| "first_index_from i p (x # xs) = (if p x then Some (i, x) else first_index_from (Suc i) p xs)"

lemma first_index_from_None: "first_index_from i p xs = None \<longleftrightarrow> (\<forall>x \<in> set xs. \<not> p x)"
  by (induction xs arbitrary: i) auto

lemma first_index_from_Some:
  "first_index_from i p xs = Some (k, x) \<longleftrightarrow>
     i \<le> k \<and> k - i < length xs \<and> x = xs ! (k - i) \<and> p x \<and> (\<forall>y \<in> set (take (k - i) xs). \<not> p y)"
proof (induction xs arbitrary: i)
  case Nil
  then show ?case by simp
next
  case (Cons a as)
  show ?case
  proof (cases "p a")
    case True
    then show ?thesis by (cases "k - i") auto
  next
    case False
    show ?thesis
    proof (cases "k \<le> i")
      case True
      with False Cons show ?thesis by auto
    next
      case gt: False
      then obtain m where m: "k - i = Suc m" "k - Suc i = m" by (metis Suc_diff_Suc not_le diff_Suc_Suc)
      then show ?thesis using False gt Cons [of "Suc i"] by auto
    qed
  qed
qed

lemma first_index_from_in:
  "first_index_from i p xs = Some (k, x) \<Longrightarrow> x \<in> set xs \<and> p x"
  by (induction xs arbitrary: i) (auto split: if_splits)

text \<open>A string between single quotes, as messages print it.\<close>

definition quoted :: "rstr \<Rightarrow> rstr" where
  "quoted s = [CHR 0x27] @ s @ [CHR 0x27]"

section \<open>UTF-8\<close>

definition byte_in :: "rstr \<Rightarrow> nat \<Rightarrow> nat \<Rightarrow> nat \<Rightarrow> bool" where
  "byte_in s k lo hi \<longleftrightarrow> k < length s \<and> lo \<le> code (s ! k) \<and> code (s ! k) \<le> hi"

text \<open>The length of the well-formed sequence at the head of a non-empty byte string.\<close>

definition utf8_len :: "rstr \<Rightarrow> nat option" where
  "utf8_len s =
     (if byte_in s 0 0 0x7F then Some 1
      else if byte_in s 0 0xC2 0xDF \<and> byte_in s 1 0x80 0xBF then Some 2
      else if (byte_in s 0 0xE0 0xE0 \<and> byte_in s 1 0xA0 0xBF \<or> byte_in s 0 0xE1 0xEC \<and> byte_in s 1 0x80 0xBF \<or>
               byte_in s 0 0xED 0xED \<and> byte_in s 1 0x80 0x9F \<or> byte_in s 0 0xEE 0xEF \<and> byte_in s 1 0x80 0xBF) \<and>
              byte_in s 2 0x80 0xBF then Some 3
      else if (byte_in s 0 0xF0 0xF0 \<and> byte_in s 1 0x90 0xBF \<or> byte_in s 0 0xF1 0xF3 \<and> byte_in s 1 0x80 0xBF \<or>
               byte_in s 0 0xF4 0xF4 \<and> byte_in s 1 0x80 0x8F) \<and>
              byte_in s 2 0x80 0xBF \<and> byte_in s 3 0x80 0xBF then Some 4
      else None)"

lemma utf8_len_bounds: "utf8_len s = Some n \<Longrightarrow> 0 < n \<and> n \<le> length s"
  by (auto simp: utf8_len_def byte_in_def Suc_le_eq split: if_splits)

function utf8_valid :: "rstr \<Rightarrow> bool" where
  "utf8_valid s =
     (if s = [] then True
      else case utf8_len s of None \<Rightarrow> False | Some n \<Rightarrow> utf8_valid (drop n s))"
  by pat_completeness auto
termination
  by (relation "measure length") (auto dest!: utf8_len_bounds)

declare utf8_valid.simps [simp del]

lemma utf8_valid_ascii: "list_all is_ascii s \<Longrightarrow> utf8_valid s"
proof (induction s)
  case Nil
  then show ?case by (subst utf8_valid.simps) simp
next
  case (Cons c s)
  then have "utf8_len (c # s) = Some 1" by (auto simp: utf8_len_def byte_in_def is_ascii_def)
  with Cons show ?case by (subst utf8_valid.simps) simp
qed

section \<open>Fallible steps and iterators\<close>

text \<open>The \<^verbatim>\<open>?\<close> operator, \<^verbatim>\<open>Iterator::find_map\<close> and a loop whose body may return early with an error.\<close>

definition and_then :: "'e + 'a \<Rightarrow> ('a \<Rightarrow> 'e + 'b) \<Rightarrow> 'e + 'b" where
  "and_then r f = (case r of Inl e \<Rightarrow> Inl e | Inr x \<Rightarrow> f x)"

lemma and_then_simps [simp]: "and_then (Inl e) f = Inl e" "and_then (Inr x) f = f x"
  by (simp_all add: and_then_def)

lemma and_then_Ok_iff: "and_then r f = Inr y \<longleftrightarrow> (\<exists>x. r = Inr x \<and> f x = Inr y)"
  by (cases r) auto

definition guard_err :: "bool \<Rightarrow> 'e \<Rightarrow> 'e + unit" where
  "guard_err bad e = (if bad then Inl e else Inr ())"

lemma guard_err_Ok_iff [simp]: "guard_err b e = Inr u \<longleftrightarrow> \<not> b"
  by (simp add: guard_err_def)

fun find_map :: "('a \<Rightarrow> 'b option) \<Rightarrow> 'a list \<Rightarrow> 'b option" where
  "find_map f [] = None"
| "find_map f (x # xs) = (case f x of Some y \<Rightarrow> Some y | None \<Rightarrow> find_map f xs)"

lemma find_map_cong [fundef_cong]:
  "xs = ys \<Longrightarrow> (\<And>x. x \<in> set ys \<Longrightarrow> f x = g x) \<Longrightarrow> find_map f xs = find_map g ys"
  by (induction ys arbitrary: xs) (auto split: option.splits)

lemma find_map_None_iff: "find_map f xs = None \<longleftrightarrow> (\<forall>x \<in> set xs. f x = None)"
  by (induction xs) (auto split: option.splits)

fun try_fold :: "('a \<Rightarrow> 's \<Rightarrow> 'e + 's) \<Rightarrow> 'a list \<Rightarrow> 's \<Rightarrow> 'e + 's" where
  "try_fold f [] s = Inr s"
| "try_fold f (x # xs) s = and_then (f x s) (try_fold f xs)"

lemma try_fold_cong [fundef_cong]:
  "xs = ys \<Longrightarrow> s = t \<Longrightarrow> (\<And>x s. x \<in> set ys \<Longrightarrow> f x s = g x s) \<Longrightarrow> try_fold f xs s = try_fold g ys t"
proof (induction ys arbitrary: xs s t)
  case (Cons y ys)
  then have "f y t = g y t" and "\<And>s. try_fold f ys s = try_fold g ys s" by auto
  with Cons.prems show ?case by (cases "g y t") auto
qed simp

lemma map_filter_append: "List.map_filter f (xs @ ys) = List.map_filter f xs @ List.map_filter f ys"
  by (simp add: List.map_filter_def)

end
