(* ===== verification/Egress_Allowlist.thy ===== *)
theory Egress_Allowlist
  imports Prelude
begin

text \<open>
  \<^verbatim>\<open>workers/web-common/src/allowlist.rs\<close>, \<^verbatim>\<open>workers/egress-proxy/src/request_line.rs\<close> and the CONNECT
  request of \<^verbatim>\<open>workers/web-common/src/proxy_connect.rs\<close>: the endpoint allowlist, the target of a CONNECT
  request line, and the client's request. Unicode lowercasing (\<^verbatim>\<open>str::to_lowercase\<close>) is the parameter
  \<open>lower\<close>; the \<^verbatim>\<open>Debug\<close> rendering of a string in an error message is the parameter \<open>dbg\<close>.
\<close>

section \<open>Allowlist rules\<close>

datatype HostMatch = Exact rstr | Suffix rstr

record Rule =
  rule_matcher :: HostMatch
  rule_port :: "u16 option"

record HostAllowlist =
  rules :: "Rule list"

fun host_matches :: "HostMatch \<Rightarrow> rstr \<Rightarrow> bool" where
  "host_matches (Exact x) host \<longleftrightarrow> host = x"
| "host_matches (Suffix d) host \<longleftrightarrow> host = d \<or> ends_with host (CHR ''.'' # d)"

definition parse_host :: "(rstr \<Rightarrow> rstr) \<Rightarrow> rstr \<Rightarrow> HostMatch option" where
  "parse_host lower token =
     (let e = lower (trim token) in
      if e = [] then None
      else case strip_prefix e ''.'' of
             Some domain \<Rightarrow> if domain = [] then None else Some (Suffix domain)
           | None \<Rightarrow> Some (Exact e))"

definition parse_port :: "rstr \<Rightarrow> u16 option" where
  "parse_port s = map_option of_nat (parse_uint 16 s)"

definition split_tail_port :: "rstr \<Rightarrow> rstr \<times> u16 option" where
  "split_tail_port e =
     (case rsplit_once CHR '':'' e of
        Some (host, port_str) \<Rightarrow>
          if CHR '':'' \<notin> set host then
            (case parse_port port_str of Some port \<Rightarrow> (host, Some port) | None \<Rightarrow> (e, None))
          else (e, None)
      | None \<Rightarrow> (e, None))"

definition split_host_port :: "rstr \<Rightarrow> rstr \<times> u16 option" where
  "split_host_port entry =
     (let e = trim entry in
      case strip_prefix e ''['' of
        Some rest \<Rightarrow>
          (case split_once CHR '']'' rest of
             Some (host, after) \<Rightarrow>
               (host, (case strip_prefix after '':'' of None \<Rightarrow> None | Some p \<Rightarrow> parse_port p))
           | None \<Rightarrow> split_tail_port e)
      | None \<Rightarrow> split_tail_port e)"

definition from_env_json :: "(rstr \<Rightarrow> rstr) \<Rightarrow> (rstr \<Rightarrow> 'e + rstr list) \<Rightarrow> rstr \<Rightarrow> 'e + HostAllowlist" where
  "from_env_json lower from_json raw =
     (case from_json raw of
        Err e \<Rightarrow> Err e
      | Ok entries \<Rightarrow>
          Ok \<lparr>rules = List.map_filter
                (\<lambda>entry. map_option (\<lambda>m. \<lparr>rule_matcher = m, rule_port = None\<rparr>) (parse_host lower entry)) entries\<rparr>)"

definition endpoint_rule :: "(rstr \<Rightarrow> rstr) \<Rightarrow> rstr \<Rightarrow> Rule option" where
  "endpoint_rule lower entry =
     (case split_host_port entry of
        (host, port) \<Rightarrow> map_option (\<lambda>m. \<lparr>rule_matcher = m, rule_port = port\<rparr>) (parse_host lower host))"

definition from_endpoints :: "(rstr \<Rightarrow> rstr) \<Rightarrow> rstr list \<Rightarrow> HostAllowlist" where
  "from_endpoints lower entries = \<lparr>rules = List.map_filter (endpoint_rule lower) entries\<rparr>"

definition is_allowed :: "(rstr \<Rightarrow> rstr) \<Rightarrow> HostAllowlist \<Rightarrow> rstr \<Rightarrow> bool" where
  "is_allowed lower al host = list_ex (\<lambda>r. host_matches (rule_matcher r) (lower (trim host))) (rules al)"

definition is_allowed_endpoint :: "(rstr \<Rightarrow> rstr) \<Rightarrow> HostAllowlist \<Rightarrow> rstr \<Rightarrow> u16 \<Rightarrow> bool" where
  "is_allowed_endpoint lower al host port =
     list_ex (\<lambda>r. host_matches (rule_matcher r) (lower (trim host)) \<and>
                  (case rule_port r of None \<Rightarrow> True | Some p \<Rightarrow> p = port)) (rules al)"

fun port_scoped_from :: "rstr \<Rightarrow> Rule list \<Rightarrow> bool \<Rightarrow> bool" where
  "port_scoped_from h [] matched = matched"
| "port_scoped_from h (r # rs) matched =
     (if host_matches (rule_matcher r) h
      then (if rule_port r = None then False else port_scoped_from h rs True)
      else port_scoped_from h rs matched)"

definition is_port_scoped :: "(rstr \<Rightarrow> rstr) \<Rightarrow> HostAllowlist \<Rightarrow> rstr \<Rightarrow> bool" where
  "is_port_scoped lower al host = port_scoped_from (lower (trim host)) (rules al) False"

section \<open>The CONNECT request line\<close>

datatype ConnectError =
    NotConnect rstr | MissingAuthority | MissingVersion | Unterminated | MissingPortAfterBracket
  | MissingPort | EmptyHost | BadPort rstr

fun show_connect_error :: "(rstr \<Rightarrow> rstr) \<Rightarrow> ConnectError \<Rightarrow> rstr" where
  "show_connect_error dbg (NotConnect m) = ''not a CONNECT request: '' @ dbg m"
| "show_connect_error dbg MissingAuthority = ''missing authority''"
| "show_connect_error dbg MissingVersion = ''missing HTTP version''"
| "show_connect_error dbg Unterminated = ''unterminated [''"
| "show_connect_error dbg MissingPortAfterBracket = ''missing :port after ]''"
| "show_connect_error dbg MissingPort = ''missing :port''"
| "show_connect_error dbg EmptyHost = ''empty host''"
| "show_connect_error dbg (BadPort p) = ''bad port '' @ dbg p"

definition trim_end_crlf :: "rstr \<Rightarrow> rstr" where
  "trim_end_crlf s = rev (dropWhile (\<lambda>c. c = CHR 0x0D \<or> c = CHR 0x0A) (rev s))"

definition authority_parts :: "rstr \<Rightarrow> ConnectError + (rstr \<times> rstr)" where
  "authority_parts authority =
     (case strip_prefix authority ''['' of
        Some rest \<Rightarrow>
          (case find_char CHR '']'' rest of
             None \<Rightarrow> Err Unterminated
           | Some close \<Rightarrow>
               (case strip_prefix (drop (close + 1) rest) '':'' of
                  None \<Rightarrow> Err MissingPortAfterBracket
                | Some port \<Rightarrow> Ok (take close rest, port)))
      | None \<Rightarrow>
          (case rsplit_once CHR '':'' authority of
             None \<Rightarrow> Err MissingPort
           | Some (h, p) \<Rightarrow> Ok (h, p)))"

definition split_authority :: "rstr \<Rightarrow> ConnectError + (rstr \<times> u16)" where
  "split_authority authority =
     (case authority_parts authority of
        Err e \<Rightarrow> Err e
      | Ok (host, port_str) \<Rightarrow>
          if host = [] then Err EmptyHost
          else case parse_port port_str of
                 None \<Rightarrow> Err (BadPort port_str)
               | Some port \<Rightarrow> Ok (host, port))"

definition parse_connect :: "rstr \<Rightarrow> ConnectError + (rstr \<times> u16)" where
  "parse_connect line =
     (case split_char CHR '' '' (trim_end_crlf line) of
        [] \<Rightarrow> Err (NotConnect [])
      | method # parts \<Rightarrow>
          if method \<noteq> ''CONNECT'' then Err (NotConnect method)
          else (case parts of
                  [] \<Rightarrow> Err MissingAuthority
                | [authority] \<Rightarrow> Err MissingVersion
                | authority # _ # _ \<Rightarrow> split_authority authority))"

text \<open>The client side of the same exchange, \<^verbatim>\<open>build_connect_request\<close>.\<close>

definition CRLF :: rstr where "CRLF = [CHR 0x0D, CHR 0x0A]"

definition build_connect_request :: "rstr \<Rightarrow> u16 \<Rightarrow> rstr" where
  "build_connect_request host port =
     ''CONNECT '' @ host @ '':'' @ show_nat (unat port) @ '' HTTP/1.1'' @ CRLF @
     ''Host: '' @ host @ '':'' @ show_nat (unat port) @ CRLF @ CRLF"

section \<open>What the rules grant\<close>

lemma ends_with_Cons_iff: "ends_with host (CHR ''.'' # d) \<longleftrightarrow> (\<exists>sub. host = sub @ ''.'' @ d)"
  by (simp add: ends_with_iff)

lemma parse_port_show [simp]: "parse_port (show_nat (unat p)) = Some p"
  using unsigned_less [of p, where ?'a = nat] by (simp add: parse_port_def parse_uint_show_nat)

lemma set_map_filter_iff: "y \<in> set (List.map_filter f xs) \<longleftrightarrow> (\<exists>x \<in> set xs. f x = Some y)"
  by (force simp: List.map_filter_def)

lemma port_ok_iff: "(case scope of None \<Rightarrow> True | Some p \<Rightarrow> p = port) \<longleftrightarrow> scope = None \<or> scope = Some port"
  by (cases scope) auto

lemma is_allowed_endpoint_iff:
  "is_allowed_endpoint lower (from_endpoints lower entries) host port \<longleftrightarrow>
     (\<exists>entry \<in> set entries. \<exists>r. endpoint_rule lower entry = Some r \<and>
        host_matches (rule_matcher r) (lower (trim host)) \<and> (rule_port r = None \<or> rule_port r = Some port))"
  unfolding is_allowed_endpoint_def from_endpoints_def list_ex_iff port_ok_iff
  by (auto simp: Bex_def set_map_filter_iff)

lemma is_port_scoped_iff:
  "is_port_scoped lower al host \<longleftrightarrow>
     (\<exists>r \<in> set (rules al). host_matches (rule_matcher r) (lower (trim host))) \<and>
     (\<forall>r \<in> set (rules al). host_matches (rule_matcher r) (lower (trim host)) \<longrightarrow> rule_port r \<noteq> None)"
proof -
  have "port_scoped_from h rs m \<longleftrightarrow>
      (m \<or> (\<exists>r \<in> set rs. host_matches (rule_matcher r) h)) \<and>
      (\<forall>r \<in> set rs. host_matches (rule_matcher r) h \<longrightarrow> rule_port r \<noteq> None)" for h rs m
    by (induction rs arbitrary: m) auto
  then show ?thesis by (simp add: is_port_scoped_def)
qed

text \<open>An entry \<open>host:port\<close> over a plain name is split at its colon.\<close>

lemma rsplit_once_plain:
  "x \<notin> set b \<Longrightarrow> rsplit_once x (a @ x # b) = Some (a, b)"
proof -
  assume "x \<notin> set b"
  then have "split_once x (rev b @ x # rev a) = Some (rev b, rev a)"
  proof -
    have "x \<notin> set u \<Longrightarrow> split_once x (u @ x # v) = Some (u, v)" for u v
      by (induction u) auto
    with \<open>x \<notin> set b\<close> show ?thesis by simp
  qed
  then show ?thesis by (simp add: rsplit_once_def)
qed

lemma show_nat_no_char: "\<not> is_ascii_digit c \<Longrightarrow> c \<notin> set (show_nat n)"
  using show_nat_digits [of n] by (auto simp: list_all_iff)

lemma split_host_port_plain:
  assumes "CHR '':'' \<notin> set h" and "h = [] \<or> hd h \<noteq> CHR ''[''"
    and "trim (h @ '':'' @ show_nat (unat port)) = h @ '':'' @ show_nat (unat port)"
  shows "split_host_port (h @ '':'' @ show_nat (unat port)) = (h, Some port)"
proof -
  have colon: "CHR '':'' \<notin> set (show_nat (unat port))"
    by (rule show_nat_no_char) (simp add: is_ascii_digit_def code_def)
  have "\<not> starts_with (h @ '':'' @ show_nat (unat port)) ''[''"
    using assms(2) by (cases h) auto
  then have "strip_prefix (h @ '':'' @ show_nat (unat port)) ''['' = None"
    by (simp only: strip_prefix_None_iff not_False_eq_True)
  then show ?thesis
    unfolding split_host_port_def Let_def assms(3)
    using assms(1) rsplit_once_plain [OF colon, of h] by (simp add: split_tail_port_def)
qed

text \<open>Malformed ports: outside brackets the whole entry stays the host token, colon included.\<close>

lemma split_tail_port_colon:
  "split_tail_port e = (host, None) \<Longrightarrow> host = e"
  by (auto simp: split_tail_port_def split: option.splits prod.splits if_splits)

section \<open>The request line\<close>

lemma trim_end_crlf_append: "s \<noteq> [] \<Longrightarrow> last s \<notin> {CHR 0x0D, CHR 0x0A} \<Longrightarrow> trim_end_crlf (s @ CRLF) = s"
proof -
  assume a: "s \<noteq> []" "last s \<notin> {CHR 0x0D, CHR 0x0A}"
  then obtain t c where s: "s = t @ [c]" by (metis append_butlast_last_id)
  with a show ?thesis by (simp add: trim_end_crlf_def CRLF_def)
qed

lemma split_char_append: "x \<notin> set a \<Longrightarrow> split_char x (a @ x # b) = a # split_char x b"
  by (induction a) auto

lemma split_authority_plain:
  assumes "host \<noteq> []" and "hd host \<noteq> CHR ''[''"
  shows "split_authority (host @ '':'' @ show_nat (unat port)) = Ok (host, port)"
proof -
  have colon: "CHR '':'' \<notin> set (show_nat (unat port))"
    by (rule show_nat_no_char) (simp add: is_ascii_digit_def code_def)
  have "\<not> starts_with (host @ '':'' @ show_nat (unat port)) ''[''"
    using assms by (cases host) auto
  then have "strip_prefix (host @ '':'' @ show_nat (unat port)) ''['' = None"
    by (simp only: strip_prefix_None_iff not_False_eq_True)
  then show ?thesis
    using assms(1) rsplit_once_plain [OF colon, of host] by (simp add: split_authority_def authority_parts_def)
qed

lemma find_char_append: "x \<notin> set a \<Longrightarrow> find_char x (a @ x # b) = Some (length a)"
  by (induction a) auto

lemma split_authority_bracketed:
  assumes "host \<noteq> []" and "CHR '']'' \<notin> set host"
  shows "split_authority (''['' @ host @ '']:'' @ show_nat (unat port)) = Ok (host, port)"
proof -
  have "strip_prefix (''['' @ host @ '']:'' @ show_nat (unat port)) ''['' = Some (host @ '']:'' @ show_nat (unat port))"
    by (simp only: strip_prefix_Some_iff)
  moreover have "strip_prefix ('':'' @ show_nat (unat port)) '':'' = Some (show_nat (unat port))"
    by (simp only: strip_prefix_Some_iff)
  ultimately show ?thesis
    using assms find_char_append [OF assms(2), of "'':'' @ show_nat (unat port)"]
    by (simp add: split_authority_def authority_parts_def)
qed

lemma parse_connect_request:
  assumes "CHR '' '' \<notin> set authority"
  shows "parse_connect (''CONNECT '' @ authority @ '' HTTP/1.1'' @ CRLF) = split_authority authority"
proof -
  let ?s = "''CONNECT '' @ authority @ '' HTTP/1.1''"
  have "trim_end_crlf (?s @ CRLF) = ?s" by (rule trim_end_crlf_append) simp_all
  moreover have "split_char CHR '' '' ?s = [''CONNECT'', authority, ''HTTP/1.1'']"
    using split_char_append [of "CHR '' ''" "''CONNECT''" "authority @ '' HTTP/1.1''"]
      split_char_append [OF assms, of "''HTTP/1.1''"] by simp
  ultimately show ?thesis by (simp add: parse_connect_def)
qed

end
