(* ===== verification/Net_Classify.thy ===== *)
theory Net_Classify
  imports Prelude
begin

unbundle bit_operations_syntax

text \<open>
  The SSRF classifier, \<^verbatim>\<open>net-classify/src/lib.rs\<close>, over octets and segments at their machine width, with
  the predicates of \<^verbatim>\<open>std::net\<close> it uses. The specification at the end reads an IPv4 address as a
  number and the deny list as CIDR blocks; the classifier is proved equal to it.
\<close>

section \<open>Addresses and the predicates of std::net\<close>

datatype Ipv4Addr = Ipv4 u8 u8 u8 u8

datatype Ipv6Addr = Ipv6 u16 u16 u16 u16 u16 u16 u16 u16

datatype IpAddr = V4 Ipv4Addr | V6 Ipv6Addr

fun v4_is_loopback :: "Ipv4Addr \<Rightarrow> bool" where
  "v4_is_loopback (Ipv4 a b c d) \<longleftrightarrow> a = 127"

fun v4_is_private :: "Ipv4Addr \<Rightarrow> bool" where
  "v4_is_private (Ipv4 a b c d) \<longleftrightarrow>
     a = 10 \<or> (a = 172 \<and> 16 \<le> b \<and> b \<le> 31) \<or> (a = 192 \<and> b = 168)"

fun v4_is_link_local :: "Ipv4Addr \<Rightarrow> bool" where
  "v4_is_link_local (Ipv4 a b c d) \<longleftrightarrow> a = 169 \<and> b = 254"

fun v4_is_multicast :: "Ipv4Addr \<Rightarrow> bool" where
  "v4_is_multicast (Ipv4 a b c d) \<longleftrightarrow> 224 \<le> a \<and> a \<le> 239"

fun v4_is_unspecified :: "Ipv4Addr \<Rightarrow> bool" where
  "v4_is_unspecified (Ipv4 a b c d) \<longleftrightarrow> a = 0 \<and> b = 0 \<and> c = 0 \<and> d = 0"

fun v4_is_broadcast :: "Ipv4Addr \<Rightarrow> bool" where
  "v4_is_broadcast (Ipv4 a b c d) \<longleftrightarrow> a = 255 \<and> b = 255 \<and> c = 255 \<and> d = 255"

fun v6_is_loopback :: "Ipv6Addr \<Rightarrow> bool" where
  "v6_is_loopback (Ipv6 a b c d e f g h) \<longleftrightarrow>
     a = 0 \<and> b = 0 \<and> c = 0 \<and> d = 0 \<and> e = 0 \<and> f = 0 \<and> g = 0 \<and> h = 1"

fun v6_is_unspecified :: "Ipv6Addr \<Rightarrow> bool" where
  "v6_is_unspecified (Ipv6 a b c d e f g h) \<longleftrightarrow>
     a = 0 \<and> b = 0 \<and> c = 0 \<and> d = 0 \<and> e = 0 \<and> f = 0 \<and> g = 0 \<and> h = 0"

fun v6_is_multicast :: "Ipv6Addr \<Rightarrow> bool" where
  "v6_is_multicast (Ipv6 a b c d e f g h) \<longleftrightarrow> a AND 0xff00 = 0xff00"

text \<open>The high and the low octet of a segment: \<^verbatim>\<open>(s >> 8) as u8\<close> and \<^verbatim>\<open>(s & 0xff) as u8\<close>.\<close>

definition hi8 :: "u16 \<Rightarrow> u8" where "hi8 s = ucast (drop_bit 8 s)"
definition lo8 :: "u16 \<Rightarrow> u8" where "lo8 s = ucast (s AND 0xff)"

text \<open>\<^verbatim>\<open>Ipv6Addr::to_ipv4_mapped\<close>: the octets of \<^verbatim>\<open>::ffff:a.b.c.d\<close>.\<close>

fun to_ipv4_mapped :: "Ipv6Addr \<Rightarrow> Ipv4Addr option" where
  "to_ipv4_mapped (Ipv6 a b c d e f g h) =
     (if a = 0 \<and> b = 0 \<and> c = 0 \<and> d = 0 \<and> e = 0 \<and> f = 0xffff
      then Some (Ipv4 (hi8 g) (lo8 g) (hi8 h) (lo8 h)) else None)"

section \<open>The classifier\<close>

fun embedded_transition_v4 :: "Ipv6Addr \<Rightarrow> Ipv4Addr option" where
  "embedded_transition_v4 (Ipv6 s0 s1 s2 s3 s4 s5 s6 s7) =
     (let trailing_v4 = Ipv4 (hi8 s6) (lo8 s6) (hi8 s7) (lo8 s7) in
      if (s0 = 0 \<and> s1 = 0 \<and> s2 = 0 \<and> s3 = 0 \<and> s4 = 0 \<and> s5 = 0)
         \<and> \<not> v6_is_unspecified (Ipv6 s0 s1 s2 s3 s4 s5 s6 s7)
         \<and> \<not> v6_is_loopback (Ipv6 s0 s1 s2 s3 s4 s5 s6 s7) then Some trailing_v4
      else if s0 = 0 \<and> s1 = 0 \<and> s2 = 0 \<and> s3 = 0 \<and> s4 = 0xffff \<and> s5 = 0 then Some trailing_v4
      else if s0 = 0x0064 \<and> s1 = 0xff9b \<and> (s2 = 0 \<and> s3 = 0 \<and> s4 = 0 \<and> s5 = 0) then Some trailing_v4
      else if s0 = 0x0064 \<and> s1 = 0xff9b \<and> s2 = 0x0001
        then Some (Ipv4 (hi8 s3) (lo8 s3) (lo8 s4) (hi8 s5))
      else if s0 = 0x2002 then Some (Ipv4 (hi8 s1) (lo8 s1) (hi8 s2) (lo8 s2))
      else None)"

fun is_this_network_v4 :: "Ipv4Addr \<Rightarrow> bool" where
  "is_this_network_v4 (Ipv4 a b c d) \<longleftrightarrow> a = 0"

fun is_cgnat_v4 :: "Ipv4Addr \<Rightarrow> bool" where
  "is_cgnat_v4 (Ipv4 a b c d) \<longleftrightarrow> a = 100 \<and> 64 \<le> b \<and> b \<le> 127"

fun is_reserved_v4 :: "Ipv4Addr \<Rightarrow> bool" where
  "is_reserved_v4 (Ipv4 a b c d) \<longleftrightarrow> 240 \<le> a"

definition is_denied_v4 :: "Ipv4Addr \<Rightarrow> bool" where
  "is_denied_v4 ip \<longleftrightarrow> v4_is_loopback ip \<or> v4_is_private ip \<or> v4_is_link_local ip \<or>
     v4_is_multicast ip \<or> v4_is_unspecified ip \<or> is_this_network_v4 ip \<or> v4_is_broadcast ip \<or>
     is_cgnat_v4 ip \<or> is_reserved_v4 ip"

fun is_site_local_v6 :: "Ipv6Addr \<Rightarrow> bool" where
  "is_site_local_v6 (Ipv6 a b c d e f g h) \<longleftrightarrow> a AND 0xffc0 = 0xfec0"

fun is_unique_local_v6 :: "Ipv6Addr \<Rightarrow> bool" where
  "is_unique_local_v6 (Ipv6 a b c d e f g h) \<longleftrightarrow> a AND 0xfe00 = 0xfc00"

fun is_link_local_v6 :: "Ipv6Addr \<Rightarrow> bool" where
  "is_link_local_v6 (Ipv6 a b c d e f g h) \<longleftrightarrow> a AND 0xffc0 = 0xfe80"

definition is_denied_v6 :: "Ipv6Addr \<Rightarrow> bool" where
  "is_denied_v6 ip \<longleftrightarrow> v6_is_loopback ip \<or> v6_is_unspecified ip \<or> v6_is_multicast ip \<or>
     is_unique_local_v6 ip \<or> is_link_local_v6 ip \<or> is_site_local_v6 ip"

fun is_denied_range :: "IpAddr \<Rightarrow> bool" where
  "is_denied_range (V4 v4) = is_denied_v4 v4"
| "is_denied_range (V6 v6) =
     (case to_ipv4_mapped v6 of
        Some v4 \<Rightarrow> is_denied_v4 v4
      | None \<Rightarrow>
          (case embedded_transition_v4 v6 of
             Some v4 \<Rightarrow> is_denied_v4 v4
           | None \<Rightarrow> is_denied_v6 v6))"

section \<open>The specification: CIDR blocks over address numbers\<close>

fun v4_number :: "Ipv4Addr \<Rightarrow> nat" where
  "v4_number (Ipv4 a b c d) = unat a * 2 ^ 24 + unat b * 2 ^ 16 + unat c * 2 ^ 8 + unat d"

definition in_cidr :: "nat \<Rightarrow> nat \<times> nat \<Rightarrow> bool" where
  "in_cidr n blk = (case blk of (net, len) \<Rightarrow> n div 2 ^ (32 - len) = net div 2 ^ (32 - len))"

definition octets :: "nat \<Rightarrow> nat \<Rightarrow> nat \<Rightarrow> nat \<Rightarrow> nat" where
  "octets a b c d = a * 2 ^ 24 + b * 2 ^ 16 + c * 2 ^ 8 + d"

text \<open>The deny list of the module's documentation.\<close>

definition denied_v4_blocks :: "(nat \<times> nat) list" where
  "denied_v4_blocks =
     [(octets 127 0 0 0, 8), (octets 10 0 0 0, 8), (octets 172 16 0 0, 12), (octets 192 168 0 0, 16),
      (octets 169 254 0 0, 16), (octets 224 0 0 0, 4), (octets 0 0 0 0, 8),
      (octets 255 255 255 255, 32), (octets 100 64 0 0, 10), (octets 240 0 0 0, 4)]"

definition v6_high :: "Ipv6Addr \<Rightarrow> nat" where
  "v6_high ip = (case ip of Ipv6 a b c d e f g h \<Rightarrow> unat a)"

lemma unat_u8_less [simp]: "unat (a :: u8) < 256"
  using unsigned_less [of a, where ?'a = nat] by simp

lemma pair_digits: "a * q + b = m * q + k \<longleftrightarrow> a = m \<and> b = k" if "b < q" "k < q" for a b m k q :: nat
proof
  assume eq: "a * q + b = m * q + k"
  have "(a * q + b) mod q = b" "(m * q + k) mod q = k" using that by simp_all
  with eq have "b = k" by simp
  with eq that show "a = m \<and> b = k" by simp
qed simp

lemma octets_div:
  assumes "b < 256" "c < 256" "d < 256"
  shows "octets a b c d div 2 ^ 24 = a"
    and "octets a b c d div 2 ^ 16 = a * 256 + b"
    and "octets a b c d div 2 ^ 28 = a div 16"
    and "octets a b c d div 2 ^ 20 = a * 16 + b div 16"
    and "octets a b c d div 2 ^ 22 = a * 4 + b div 64"
  using assms by (simp_all add: octets_def)

lemma octets_inject:
  assumes "b < 256" "c < 256" "d < 256" "b' < 256" "c' < 256" "d' < 256"
  shows "octets a b c d = octets a' b' c' d' \<longleftrightarrow> a = a' \<and> b = b' \<and> c = c' \<and> d = d'"
proof -
  have nest: "octets a b c d = ((a * 256 + b) * 256 + c) * 256 + d" for a b c d
    by (simp add: octets_def algebra_simps)
  show ?thesis unfolding nest using assms by (simp only: pair_digits) auto
qed

lemma v4_number_octets: "v4_number (Ipv4 a b c d) = octets (unat a) (unat b) (unat c) (unat d)"
  by (simp add: octets_def)

lemma u8_cmp:
  "(a :: u8) = numeral n \<longleftrightarrow> unat a = unat (numeral n :: u8)"
  by (rule word_unat_eq_iff)

lemma denied_blocks_iff:
  assumes "a < 256" "b < 256" "c < 256" "d < 256"
  shows "list_ex (in_cidr (octets a b c d)) denied_v4_blocks \<longleftrightarrow>
     a = 127 \<or> a = 10 \<or> (a = 172 \<and> 16 \<le> b \<and> b \<le> 31) \<or> (a = 192 \<and> b = 168) \<or>
     (a = 169 \<and> b = 254) \<or> (224 \<le> a \<and> a \<le> 239) \<or> a = 0 \<or>
     (a = 255 \<and> b = 255 \<and> c = 255 \<and> d = 255) \<or> (a = 100 \<and> 64 \<le> b \<and> b \<le> 127) \<or> 240 \<le> a"
proof -
  note dv = octets_div [OF assms(2-4), of a]
  have e8: "in_cidr (octets a b c d) (octets m 0 0 0, 8) \<longleftrightarrow> a = m" for m
    unfolding in_cidr_def using dv(1) octets_div(1) [of 0 0 0 m] by simp
  have e16: "in_cidr (octets a b c d) (octets m k 0 0, 16) \<longleftrightarrow> a = m \<and> b = k" if "k < 256" for m k
    unfolding in_cidr_def using pair_digits [OF assms(2) that] dv(2) octets_div(2) [OF that, of 0 0 m]
    by simp
  have e4: "in_cidr (octets a b c d) (octets m 0 0 0, 4) \<longleftrightarrow> a div 16 = m div 16" for m
    unfolding in_cidr_def using dv(3) octets_div(3) [of 0 0 0 m] by simp
  have e12: "in_cidr (octets a b c d) (octets 172 16 0 0, 12) \<longleftrightarrow> a = 172 \<and> 16 \<le> b \<and> b \<le> 31"
  proof -
    have "a * 16 + b div 16 = 172 * 16 + 1 \<longleftrightarrow> a = 172 \<and> 16 \<le> b \<and> b \<le> 31"
      using pair_digits [of "b div 16" 16 1 a 172] assms(2) by auto
    then show ?thesis
      unfolding in_cidr_def using dv(4) octets_div(4) [of 16 0 0 172] by simp
  qed
  have e10: "in_cidr (octets a b c d) (octets 100 64 0 0, 10) \<longleftrightarrow> a = 100 \<and> 64 \<le> b \<and> b \<le> 127"
  proof -
    have "a * 4 + b div 64 = 100 * 4 + 1 \<longleftrightarrow> a = 100 \<and> 64 \<le> b \<and> b \<le> 127"
      using pair_digits [of "b div 64" 4 1 a 100] assms(2) by auto
    then show ?thesis
      unfolding in_cidr_def using dv(5) octets_div(5) [of 64 0 0 100] by simp
  qed
  have e32: "in_cidr (octets a b c d) (octets 255 255 255 255, 32) \<longleftrightarrow>
      a = 255 \<and> b = 255 \<and> c = 255 \<and> d = 255"
    using octets_inject [of b c d 255 255 255 a 255] assms by (simp add: in_cidr_def)
  have "a div 16 * 16 \<le> a" "a < 16 + a div 16 * 16"
    by (simp_all add: dividend_less_div_times)
  then have m: "a div 16 = 14 \<longleftrightarrow> 224 \<le> a \<and> a \<le> 239" "a div 16 = 15 \<longleftrightarrow> 240 \<le> a"
    using assms(1) by linarith+
  show ?thesis
    unfolding denied_v4_blocks_def list_ex_iff
    using e8 e12 e10 e32 e16 [of 168 192] e16 [of 254 169] e4 [of 224] e4 [of 240] m by auto
qed

lemma is_denied_v4_number:
  "is_denied_v4 ip \<longleftrightarrow> list_ex (in_cidr (v4_number ip)) denied_v4_blocks"
proof (cases ip)
  case (Ipv4 a b c d)
  show ?thesis
    unfolding Ipv4 v4_number_octets denied_blocks_iff [OF unat_u8_less unat_u8_less unat_u8_less unat_u8_less]
    by (simp only: is_denied_v4_def v4_is_loopback.simps v4_is_private.simps v4_is_link_local.simps
        v4_is_multicast.simps v4_is_unspecified.simps is_this_network_v4.simps v4_is_broadcast.simps
        is_cgnat_v4.simps is_reserved_v4.simps word_le_nat_alt u8_cmp) (auto simp: unat_eq_zero)
qed

section \<open>IPv6\<close>

text \<open>An IPv6 address that carries an IPv4 address is classified by the address it carries.\<close>

definition seg :: "u8 \<Rightarrow> u8 \<Rightarrow> u16" where
  "seg a b = push_bit 8 (ucast a) OR ucast b"

lemma hi8_seg [simp]: "hi8 (seg a b) = a"
  by (rule bit_word_eqI) (auto simp: hi8_def seg_def bit_simps dest: bit_imp_le_length)

lemma lo8_seg [simp]: "lo8 (seg a b) = b"
proof -
  have lo: "lo8 s = ucast (s AND mask 8)" for s
    by (simp add: lo8_def mask_eq_exp_minus_1)
  show ?thesis
    unfolding lo seg_def by (rule bit_word_eqI) (auto simp: bit_simps)
qed

text \<open>The encodings of an IPv4 address that the classifier looks through: mapped
  (\<^verbatim>\<open>::ffff:0:0/96\<close>), compatible (\<^verbatim>\<open>::/96\<close>), translated (\<^verbatim>\<open>::ffff:0:0:0/96\<close>), NAT64
  (\<^verbatim>\<open>64:ff9b::/96\<close>, and \<^verbatim>\<open>64:ff9b:1::/48\<close> with the octets around the reserved byte of RFC 6052), and
  6to4 (\<^verbatim>\<open>2002::/16\<close>).\<close>

fun v4_encodings :: "Ipv4Addr \<Rightarrow> u16 list \<Rightarrow> Ipv6Addr list" where
  "v4_encodings (Ipv4 a b c d) [x1, x2, x3, x4, x5] =
     [Ipv6 0 0 0 0 0 0xffff (seg a b) (seg c d),
      Ipv6 0 0 0 0 0 0 (seg a b) (seg c d),
      Ipv6 0 0 0 0 0xffff 0 (seg a b) (seg c d),
      Ipv6 0x64 0xff9b 0 0 0 0 (seg a b) (seg c d),
      Ipv6 0x64 0xff9b 1 (seg a b) (seg 0 c) (seg d 0) x4 x5,
      Ipv6 0x2002 (seg a b) (seg c d) x1 x2 x3 x4 x5]"
| "v4_encodings _ _ = []"

lemma seg_eq_0_iff [simp]: "seg a b = 0 \<longleftrightarrow> a = 0 \<and> b = 0"
  by (metis hi8_seg lo8_seg seg_def unsigned_0 push_bit_of_0 or.right_neutral)

lemma seg_eq_1D: "seg a b = 1 \<Longrightarrow> a = 0 \<and> b = 1"
proof -
  assume "seg a b = 1"
  then have "hi8 (1 :: u16) = a" "lo8 (1 :: u16) = b" by (metis hi8_seg, metis lo8_seg)
  then show ?thesis by (simp add: hi8_def lo8_def)
qed

lemma denied_this_network: "is_denied_v4 (Ipv4 0 b c d)"
  by (simp add: is_denied_v4_def)

lemma v4_encodings_denied_iff:
  assumes "e \<in> set (v4_encodings ip xs)"
  shows "is_denied_range (V6 e) \<longleftrightarrow> is_denied_v4 ip"
proof (cases "(ip, xs)" rule: v4_encodings.cases)
  case (1 a b c d x1 x2 x3 x4 x5)
  have compat: "is_denied_range (V6 (Ipv6 0 0 0 0 0 0 (seg a b) (seg c d))) = is_denied_v4 (Ipv4 a b c d)"
  proof (cases "v6_is_unspecified (Ipv6 0 0 0 0 0 0 (seg a b) (seg c d)) \<or>
                v6_is_loopback (Ipv6 0 0 0 0 0 0 (seg a b) (seg c d))")
    case True
    then have "a = 0" by auto
    with True show ?thesis by (auto simp: is_denied_v6_def denied_this_network)
  next
    case False
    then show ?thesis by simp
  qed
  with 1 assms show ?thesis by auto
qed (use assms in auto)

text \<open>The native IPv6 ranges, read as prefixes of the first segment.\<close>

lemma and_not_mask_iff:
  assumes "drop_bit n (push_bit n k) = k"
  shows "(a :: u16) AND NOT (mask n) = push_bit n k \<longleftrightarrow> drop_bit n a = k"
proof
  have "drop_bit n (a AND NOT (mask n)) = drop_bit n a"
    by (rule bit_word_eqI) (auto simp: bit_simps dest: bit_imp_le_length)
  then show "a AND NOT (mask n) = push_bit n k \<Longrightarrow> drop_bit n a = k"
    using assms by simp
next
  assume "drop_bit n a = k"
  then show "a AND NOT (mask n) = push_bit n k"
    by (intro bit_word_eqI) (auto simp: bit_simps)
qed

lemma and_mask_prefix:
  "(a :: u16) AND 0xff00 = 0xff00 \<longleftrightarrow> drop_bit 8 a = 0xff"
  "a AND 0xfe00 = 0xfc00 \<longleftrightarrow> drop_bit 9 a = 0x7e"
  "a AND 0xffc0 = 0xfe80 \<longleftrightarrow> drop_bit 6 a = 0x3fa"
  "a AND 0xffc0 = 0xfec0 \<longleftrightarrow> drop_bit 6 a = 0x3fb"
proof -
  have m: "NOT (mask 8 :: u16) = 0xff00" "NOT (mask 9 :: u16) = 0xfe00" "NOT (mask 6 :: u16) = 0xffc0"
    by (simp_all add: mask_eq_exp_minus_1)
  show "a AND 0xff00 = 0xff00 \<longleftrightarrow> drop_bit 8 a = 0xff"
    using and_not_mask_iff [of 8 "0xff" a] unfolding m by simp
  show "a AND 0xfe00 = 0xfc00 \<longleftrightarrow> drop_bit 9 a = 0x7e"
    using and_not_mask_iff [of 9 "0x7e" a] unfolding m by simp
  show "a AND 0xffc0 = 0xfe80 \<longleftrightarrow> drop_bit 6 a = 0x3fa"
    using and_not_mask_iff [of 6 "0x3fa" a] unfolding m by simp
  show "a AND 0xffc0 = 0xfec0 \<longleftrightarrow> drop_bit 6 a = 0x3fb"
    using and_not_mask_iff [of 6 "0x3fb" a] unfolding m by simp
qed

text \<open>An IPv6 address that carries no IPv4 address is denied exactly inside the loopback and unspecified
  addresses and the blocks \<^verbatim>\<open>ff00::/8\<close>, \<^verbatim>\<open>fc00::/7\<close>, \<^verbatim>\<open>fe80::/10\<close> and \<^verbatim>\<open>fec0::/10\<close>.\<close>

lemma native_v6_denied_iff:
  assumes "to_ipv4_mapped (Ipv6 a b c d e f g h) = None"
    and "embedded_transition_v4 (Ipv6 a b c d e f g h) = None"
  shows "is_denied_range (V6 (Ipv6 a b c d e f g h)) \<longleftrightarrow>
     v6_is_loopback (Ipv6 a b c d e f g h) \<or> v6_is_unspecified (Ipv6 a b c d e f g h) \<or>
     drop_bit 8 a = 0xff \<or> drop_bit 9 a = 0x7e \<or> drop_bit 6 a = 0x3fa \<or> drop_bit 6 a = 0x3fb"
  using assms
  by (simp del: to_ipv4_mapped.simps embedded_transition_v4.simps add: is_denied_v6_def and_mask_prefix)

end
