(* ===== verification/Ip_Text.thy ===== *)
theory Ip_Text
  imports Net_Classify
begin

text \<open>
  The textual form of addresses as \<^verbatim>\<open>std::net\<close> reads and prints it (\<^verbatim>\<open>str::parse::<IpAddr>\<close> and
  \<^verbatim>\<open>Display\<close>): the proxy decides by it whether a CONNECT target is an address literal. The reader
  works on a cursor, here the remaining text, and restores it when an attempt fails.
\<close>

definition to_digit :: "nat \<Rightarrow> char \<Rightarrow> nat option" where
  "to_digit radix c =
     (let n = code c;
          v = (if 48 \<le> n \<and> n \<le> 57 then n - 48
               else if 97 \<le> n \<and> n \<le> 122 then n - 87
               else if 65 \<le> n \<and> n \<le> 90 then n - 55 else 36)
      in if v < radix then Some v else None)"

fun take_digits :: "nat \<Rightarrow> rstr \<Rightarrow> nat list \<times> rstr" where
  "take_digits radix [] = ([], [])"
| "take_digits radix (c # cs) =
     (case to_digit radix c of
        None \<Rightarrow> ([], c # cs)
      | Some d \<Rightarrow> (case take_digits radix cs of (ds, rest) \<Rightarrow> (d # ds, rest)))"

definition digits_nat :: "nat \<Rightarrow> nat list \<Rightarrow> nat" where
  "digits_nat radix ds = foldl (\<lambda>n d. n * radix + d) 0 ds"

definition read_number :: "nat \<Rightarrow> nat \<Rightarrow> bool \<Rightarrow> nat \<Rightarrow> rstr \<Rightarrow> (nat \<times> rstr) option" where
  "read_number radix max_digits allow_zero_prefix bits s =
     (case take_digits radix s of
        (ds, rest) \<Rightarrow>
          if ds = [] \<or> length ds > max_digits then None
          else if \<not> allow_zero_prefix \<and> hd s = CHR ''0'' \<and> length ds > 1 then None
          else if digits_nat radix ds < 2 ^ bits then Some (digits_nat radix ds, rest) else None)"

definition read_given_char :: "char \<Rightarrow> rstr \<Rightarrow> rstr option" where
  "read_given_char c s = (case s of [] \<Rightarrow> None | x # xs \<Rightarrow> if x = c then Some xs else None)"

text \<open>\<^verbatim>\<open>read_separator\<close>: from the second item on, the separator comes first.\<close>

definition read_separator :: "char \<Rightarrow> nat \<Rightarrow> (rstr \<Rightarrow> ('a \<times> rstr) option) \<Rightarrow> rstr \<Rightarrow> ('a \<times> rstr) option" where
  "read_separator sep i inner s =
     (if i > 0 then (case read_given_char sep s of None \<Rightarrow> None | Some s' \<Rightarrow> inner s') else inner s)"

fun read_octets :: "nat \<Rightarrow> nat \<Rightarrow> rstr \<Rightarrow> (u8 list \<times> rstr) option" where
  "read_octets i 0 s = Some ([], s)"
| "read_octets i (Suc n) s =
     (case read_separator CHR ''.'' i (read_number 10 3 False 8) s of
        None \<Rightarrow> None
      | Some (o1, s1) \<Rightarrow>
          (case read_octets (i + 1) n s1 of
             None \<Rightarrow> None
           | Some (os, s2) \<Rightarrow> Some (of_nat o1 # os, s2)))"

fun v4_of_list :: "u8 list \<Rightarrow> Ipv4Addr" where
  "v4_of_list [a, b, c, d] = Ipv4 a b c d"
| "v4_of_list _ = Ipv4 0 0 0 0"

definition read_ipv4_addr :: "rstr \<Rightarrow> (Ipv4Addr \<times> rstr) option" where
  "read_ipv4_addr s = (case read_octets 0 4 s of None \<Rightarrow> None | Some (os, rest) \<Rightarrow> Some (v4_of_list os, rest))"

definition be16 :: "u8 \<Rightarrow> u8 \<Rightarrow> u16" where
  "be16 a b = ucast a * 256 + ucast b"

text \<open>\<^verbatim>\<open>read_groups\<close>: the groups read before the first that fails, and whether they end in a dotted quad;
  \<open>left\<close> is \<^verbatim>\<open>limit - i\<close>.\<close>

fun read_groups :: "nat \<Rightarrow> nat \<Rightarrow> rstr \<Rightarrow> u16 list \<times> bool \<times> rstr" where
  "read_groups i 0 s = ([], False, s)"
| "read_groups i (Suc left) s =
     (case (if left > 0 then read_separator CHR '':'' i read_ipv4_addr s else None) of
        Some (Ipv4 a b c d, s') \<Rightarrow> ([be16 a b, be16 c d], True, s')
      | None \<Rightarrow>
          (case read_separator CHR '':'' i (read_number 16 4 True 16) s of
             None \<Rightarrow> ([], False, s)
           | Some (g, s') \<Rightarrow>
               (case read_groups (i + 1) left s' of (gs, v4, s'') \<Rightarrow> (of_nat g # gs, v4, s''))))"

fun v6_of_list :: "u16 list \<Rightarrow> Ipv6Addr" where
  "v6_of_list [a, b, c, d, e, f, g, h] = Ipv6 a b c d e f g h"
| "v6_of_list _ = Ipv6 0 0 0 0 0 0 0 0"

definition read_ipv6_addr :: "rstr \<Rightarrow> (Ipv6Addr \<times> rstr) option" where
  "read_ipv6_addr s =
     (case read_groups 0 8 s of
        (head, head_ipv4, s1) \<Rightarrow>
          if length head = 8 then Some (v6_of_list head, s1)
          else if head_ipv4 then None
          else (case read_given_char CHR '':'' s1 of
                 None \<Rightarrow> None
               | Some s2 \<Rightarrow>
                   (case read_given_char CHR '':'' s2 of
                      None \<Rightarrow> None
                    | Some s3 \<Rightarrow>
                        (case read_groups 0 (8 - (length head + 1)) s3 of
                           (tail, _, s4) \<Rightarrow>
                             Some (v6_of_list (head @ replicate (8 - (length head + length tail)) 0 @ tail), s4)))))"

definition parse_ip :: "rstr \<Rightarrow> IpAddr option" where
  "parse_ip s =
     (case (case read_ipv4_addr s of
              Some (a, rest) \<Rightarrow> Some (V4 a, rest)
            | None \<Rightarrow> (case read_ipv6_addr s of Some (a, rest) \<Rightarrow> Some (V6 a, rest) | None \<Rightarrow> None)) of
        Some (ip, []) \<Rightarrow> Some ip
      | _ \<Rightarrow> None)"

section \<open>Printing\<close>

fun show_v4 :: "Ipv4Addr \<Rightarrow> rstr" where
  "show_v4 (Ipv4 a b c d) =
     show_nat (unat a) @ ''.'' @ show_nat (unat b) @ ''.'' @ show_nat (unat c) @ ''.'' @ show_nat (unat d)"

definition lower_hex_digit :: "nat \<Rightarrow> char" where
  "lower_hex_digit n = (if n < 10 then char_of (48 + n) else char_of (87 + n))"

function show_hex :: "nat \<Rightarrow> rstr" where
  "show_hex n = (if n < 16 then [lower_hex_digit n] else show_hex (n div 16) @ [lower_hex_digit (n mod 16)])"
  by pat_completeness auto
termination by (relation "measure id") auto

declare show_hex.simps [simp del]

fun join_colon :: "u16 list \<Rightarrow> rstr" where
  "join_colon [] = []"
| "join_colon [g] = show_hex (unat g)"
| "join_colon (g # h # gs) = show_hex (unat g) @ '':'' @ join_colon (h # gs)"

fun v6_segments :: "Ipv6Addr \<Rightarrow> u16 list" where
  "v6_segments (Ipv6 a b c d e f g h) = [a, b, c, d, e, f, g, h]"

text \<open>The first longest run of zero segments, as \<open>(start, len)\<close>.\<close>

fun zero_run :: "nat \<Rightarrow> u16 list \<Rightarrow> nat \<times> nat \<Rightarrow> nat \<times> nat \<Rightarrow> nat \<times> nat" where
  "zero_run i [] current longest = longest"
| "zero_run i (s # ss) (cs, cl) (ls, ll) =
     (if s = 0 then
        (let cs' = (if cl = 0 then i else cs); cl' = cl + 1 in
         zero_run (i + 1) ss (cs', cl') (if cl' > ll then (cs', cl') else (ls, ll)))
      else zero_run (i + 1) ss (0, 0) (ls, ll))"

definition show_v6 :: "Ipv6Addr \<Rightarrow> rstr" where
  "show_v6 ip =
     (case to_ipv4_mapped ip of
        Some v4 \<Rightarrow> ''::ffff:'' @ show_v4 v4
      | None \<Rightarrow>
          (let segs = v6_segments ip in
           case zero_run 0 segs (0, 0) (0, 0) of
             (start, len) \<Rightarrow>
               if len > 1 then join_colon (take start segs) @ ''::'' @ join_colon (drop (start + len) segs)
               else join_colon segs))"

fun show_ip :: "IpAddr \<Rightarrow> rstr" where
  "show_ip (V4 a) = show_v4 a"
| "show_ip (V6 a) = show_v6 a"

section \<open>Reading back a printed IPv4 address\<close>

lemma to_digit_dec: "n < 10 \<Longrightarrow> to_digit 10 (char_of (48 + n)) = Some n"
  by (auto simp: to_digit_def)

lemma take_digits_dec:
  assumes "list_all is_ascii_digit ds" and "rest = [] \<or> to_digit 10 (hd rest) = None"
  shows "take_digits 10 (ds @ rest) = (map digit_val ds, rest)"
  using assms(1)
proof (induction ds)
  case Nil
  with assms(2) show ?case by (cases rest) auto
next
  case (Cons c cs)
  then have "to_digit 10 c = Some (digit_val c)" by (auto simp: to_digit_def Let_def is_ascii_digit_def digit_val_def)
  with Cons show ?case by simp
qed

lemma digits_nat_dec: "digits_nat 10 (map digit_val ds) = digits_value ds"
proof -
  have "foldl (\<lambda>n d. n * 10 + d) a (map digit_val ds) = foldl (\<lambda>n c. 10 * n + digit_val c) a ds" for a
    by (induction ds arbitrary: a) (auto simp: mult.commute)
  then show ?thesis by (simp add: digits_nat_def digits_value_def)
qed

lemma show_nat_length_256: "n < 256 \<Longrightarrow> length (show_nat n) \<le> 3"
  by (simp add: show_nat.simps)

lemma show_nat_no_zero_prefix: "0 < n \<Longrightarrow> hd (show_nat n) \<noteq> CHR ''0''"
proof (induction n rule: show_nat.induct)
  case (1 n)
  show ?case
  proof (cases "n < 10")
    case True
    have "code (char_of (48 + n)) \<noteq> code CHR ''0''" using True 1(2) by (simp add: code_def)
    then have "char_of (48 + n) \<noteq> CHR ''0''" by metis
    with True show ?thesis by (subst show_nat.simps) simp
  next
    case False
    with 1 show ?thesis by (subst show_nat.simps) auto
  qed
qed

lemma read_number_show_nat:
  assumes "n < 256" and "rest = [] \<or> to_digit 10 (hd rest) = None"
  shows "read_number 10 3 False 8 (show_nat n @ rest) = Some (n, rest)"
proof -
  have "length (show_nat n) \<le> 1" if "hd (show_nat n) = CHR ''0''"
    using show_nat_no_zero_prefix [of n] that by (cases "n = 0") (auto simp: show_nat.simps [of 0])
  then show ?thesis
    using take_digits_dec [OF show_nat_digits assms(2), of n] assms(1) show_nat_length_256 [OF assms(1)]
    by (auto simp: read_number_def digits_nat_dec)
qed

lemma read_ipv4_show: "read_ipv4_addr (show_v4 ip) = Some (ip, [])"
proof (cases ip)
  case (Ipv4 a b c d)
  have dot: "to_digit 10 (hd (CHR ''.'' # s)) = None" for s by (simp add: to_digit_def code_def)
  have num: "read_number 10 3 False 8 (show_nat (unat x) @ CHR ''.'' # s) = Some (unat x, CHR ''.'' # s)" for x :: u8 and s
    using read_number_show_nat [of "unat x" "CHR ''.'' # s"] dot by simp
  have last: "read_number 10 3 False 8 (show_nat (unat x)) = Some (unat x, [])" for x :: u8
    using read_number_show_nat [of "unat x" "[]"] by simp
  have four: "(4::nat) = Suc (Suc (Suc (Suc 0)))" by simp
  show ?thesis
    unfolding Ipv4 read_ipv4_addr_def four
    by (simp add: read_separator_def read_given_char_def num last)
qed

lemma parse_ip_show_v4: "parse_ip (show_ip (V4 ip)) = Some (V4 ip)"
  by (simp add: parse_ip_def read_ipv4_show)

end
