(* ===== verification/Leak_Fingerprint.thy ===== *)
theory Leak_Fingerprint
  imports Prelude
begin

text \<open>
  \<^verbatim>\<open>leak-scan/src/fingerprint.rs\<close>: what the scanner keeps of a secret. A fingerprint is the length, a
  64-bit polynomial hash with wrapping arithmetic, and the SHA-256 digest. SHA-256 is code of the
  \<^verbatim>\<open>sha2\<close> crate and a parameter \<open>sha\<close> throughout.
\<close>

definition MIN_SECRET_LEN :: nat where "MIN_SECRET_LEN = 8"
definition MAX_SECRET_LEN :: nat where "MAX_SECRET_LEN = 16 * 1024"
definition RABIN_BASE :: u64 where "RABIN_BASE = 257"

type_synonym digest = "u8 list"

record SecretFingerprint =
  fp_len :: nat
  fp64 :: u64
  fp_sha256 :: digest

fun pow_loop :: "nat \<Rightarrow> u64 \<Rightarrow> u64" where
  "pow_loop 0 p = p"
| "pow_loop (Suc n) p = pow_loop n (p * RABIN_BASE)"

definition pow_base :: "nat \<Rightarrow> u64" where
  "pow_base len = pow_loop (len - 1) 1"

definition hex_digit :: "nat \<Rightarrow> char" where
  "hex_digit n = (if n < 10 then char_of (48 + n) else char_of (87 + n))"

definition hex2 :: "u8 \<Rightarrow> rstr" where
  "hex2 b = [hex_digit (unat b div 16), hex_digit (unat b mod 16)]"

definition sha256_hex :: "digest \<Rightarrow> rstr" where
  "sha256_hex bytes = concat (map hex2 bytes)"

definition poly :: "u8 list \<Rightarrow> u64" where
  "poly bytes = foldl (\<lambda>h b. h * RABIN_BASE + ucast b) 0 bytes"

definition fingerprint_value :: "(u8 list \<Rightarrow> digest) \<Rightarrow> u8 list \<Rightarrow> SecretFingerprint option" where
  "fingerprint_value sha value =
     (if length value < MIN_SECRET_LEN \<or> length value > MAX_SECRET_LEN then None
      else Some \<lparr>fp_len = length value, fp64 = poly value, fp_sha256 = sha value\<rparr>)"

section \<open>The rolling step\<close>

lemma pow_loop_eq: "pow_loop n p = p * RABIN_BASE ^ n"
  by (induction n arbitrary: p) (simp_all add: mult.assoc)

lemma pow_base_eq: "pow_base len = RABIN_BASE ^ (len - 1)"
  by (simp add: pow_base_def pow_loop_eq)

lemma poly_Nil [simp]: "poly [] = 0"
  by (simp add: poly_def)

lemma poly_snoc [simp]: "poly (w @ [b]) = poly w * RABIN_BASE + ucast b"
  by (simp add: poly_def)

lemma poly_Cons: "poly (x # w) = ucast x * RABIN_BASE ^ length w + poly w"
proof (induction w rule: rev_induct)
  case Nil
  then show ?case by (simp add: poly_def)
next
  case (snoc b w)
  have "poly (x # w @ [b]) = poly (x # w) * RABIN_BASE + ucast b"
    using poly_snoc [of "x # w" b] by simp
  with snoc show ?case by (simp add: algebra_simps)
qed

text \<open>Dropping the oldest byte of a window and appending a new one, in wrapping 64-bit arithmetic.\<close>

lemma poly_roll:
  "poly (w @ [b]) = (poly (x # w) - ucast x * pow_base (Suc (length w))) * RABIN_BASE + ucast b"
  by (simp add: poly_Cons pow_base_eq)

end
