(* ===== verification/Egress_Pins.thy ===== *)
theory Egress_Pins
  imports Ip_Text Leak_Fingerprint "HOL-Library.AList"
begin

unbundle bit_operations_syntax

text \<open>
  \<^verbatim>\<open>workers/egress-proxy/src/pins.rs\<close> and \<^verbatim>\<open>leaf_cache.rs\<close>: certificate pinning of the re-originated TLS
  session and the bounded cache of issued leaves. What \<^verbatim>\<open>rustls\<close>, \<^verbatim>\<open>webpki\<close>, \<^verbatim>\<open>x509_cert\<close>, \<^verbatim>\<open>base64\<close>, \<^verbatim>\<open>sha2\<close>
  and \<^verbatim>\<open>serde_json\<close> compute is a parameter: certificate validation is \<open>webpki\<close>, the paths it builds for
  a chain are \<open>paths\<close>, and a path check passes when some path passes it. A decoded JSON object is the
  list of its entries in the iteration order of the \<^verbatim>\<open>HashMap\<close>.
\<close>

definition PIN_MISMATCH_MARKER :: rstr where
  "PIN_MISMATCH_MARKER = ''certificate pin mismatch''"

datatype PinError =
    PinJson rstr | PinValue rstr | EmptyPinList rstr | PinX509 rstr | PinVerifier rstr | PinExtraCa rstr

fun show_pin_error :: "(rstr \<Rightarrow> rstr) \<Rightarrow> PinError \<Rightarrow> rstr" where
  "show_pin_error dbg (PinJson s) = ''pins JSON: '' @ s"
| "show_pin_error dbg (PinValue s) = ''pin value: '' @ s"
| "show_pin_error dbg (EmptyPinList host) = ''host '' @ dbg host @
     '' has an empty pin list (omit the host to leave it unpinned, or add at least one sha256/<base64> pin)''"
| "show_pin_error dbg (PinX509 s) = ''certificate SPKI: '' @ s"
| "show_pin_error dbg (PinVerifier s) = ''webpki verifier: '' @ s"
| "show_pin_error dbg (PinExtraCa s) = ''upstream extra CA: '' @ s"

record PinSet =
  pin_map :: "(rstr \<times> digest list) list"

record cert =
  cert_der :: "u8 list"

record VerifiedPath =
  path_intermediates :: "cert list"
  path_anchor_spki :: "u8 list"

datatype ServerName = DnsName rstr | IpAddress IpAddr | OtherName

section \<open>Parsing pins\<close>

definition parse_pin :: "(rstr \<Rightarrow> rstr) \<Rightarrow> (rstr \<Rightarrow> rstr + u8 list) \<Rightarrow> rstr \<Rightarrow> PinError + digest" where
  "parse_pin dbg b64_decode s =
     (case strip_prefix s ''sha256/'' of
        None \<Rightarrow> Err (PinValue (''missing `sha256/` prefix: '' @ dbg s))
      | Some b64 \<Rightarrow>
          (case b64_decode b64 of
             Err e \<Rightarrow> Err (PinValue (''base64: '' @ e))
           | Ok bytes \<Rightarrow>
               if length bytes = 32 then Ok bytes
               else Err (PinValue (''expected 32 bytes, got '' @ show_nat (length bytes)))))"

fun parse_pins :: "(rstr \<Rightarrow> rstr) \<Rightarrow> (rstr \<Rightarrow> rstr + u8 list) \<Rightarrow> rstr list \<Rightarrow> digest list \<Rightarrow> PinError + digest list" where
  "parse_pins dbg b64 [] pins = Ok pins"
| "parse_pins dbg b64 (s # ss) pins =
     (case parse_pin dbg b64 s of Err e \<Rightarrow> Err e | Ok p \<Rightarrow> parse_pins dbg b64 ss (List.insert p pins))"

fun pin_entries ::
    "(rstr \<Rightarrow> rstr) \<Rightarrow> (rstr \<Rightarrow> rstr + u8 list) \<Rightarrow> (rstr \<times> rstr list) list \<Rightarrow> (rstr \<times> digest list) list \<Rightarrow>
     PinError + (rstr \<times> digest list) list" where
  "pin_entries dbg b64 [] m = Ok m"
| "pin_entries dbg b64 ((host, pin_strs) # raw) m =
     (if pin_strs = [] then Err (EmptyPinList host)
      else case parse_pins dbg b64 pin_strs [] of
             Err e \<Rightarrow> Err e
           | Ok pins \<Rightarrow> pin_entries dbg b64 raw (AList.update (to_ascii_lowercase host) pins m))"

definition PinSet_parse ::
    "(rstr \<Rightarrow> rstr) \<Rightarrow> (rstr \<Rightarrow> rstr + u8 list) \<Rightarrow> (rstr \<Rightarrow> rstr + (rstr \<times> rstr list) list) \<Rightarrow> rstr \<Rightarrow> PinError + PinSet" where
  "PinSet_parse dbg b64 from_json json =
     (case from_json json of
        Err e \<Rightarrow> Err (PinJson e)
      | Ok raw \<Rightarrow> (case pin_entries dbg b64 raw [] of Err e \<Rightarrow> Err e | Ok m \<Rightarrow> Ok \<lparr>pin_map = m\<rparr>))"

definition PinSet_is_empty :: "PinSet \<Rightarrow> bool" where
  "PinSet_is_empty ps \<longleftrightarrow> pin_map ps = []"

definition pins_for :: "PinSet \<Rightarrow> rstr \<Rightarrow> digest list option" where
  "pins_for ps host = map_of (pin_map ps) (to_ascii_lowercase host)"

section \<open>The verifier\<close>

fun server_name_host :: "ServerName \<Rightarrow> rstr" where
  "server_name_host (DnsName d) = to_ascii_lowercase d"
| "server_name_host (IpAddress ip) = show_ip ip"
| "server_name_host OtherName = []"

fun be_bytes :: "nat \<Rightarrow> nat \<Rightarrow> u8 list" where
  "be_bytes 0 n = []"
| "be_bytes (Suc w) n = be_bytes w (n div 256) @ [of_nat (n mod 256)]"

text \<open>\<^verbatim>\<open>len.to_be_bytes()\<close> of an eight-byte \<^verbatim>\<open>usize\<close>, without its leading zeros but with at least one byte.\<close>

definition der_sequence :: "u8 list \<Rightarrow> u8 list" where
  "der_sequence inner =
     (let len = length inner in
      0x30 # (if len < 128 then [of_nat len]
              else let bytes = be_bytes 8 len;
                       first = (if list_all (\<lambda>b. b = 0) bytes then length bytes - 1 else length (takeWhile (\<lambda>b. b = 0) bytes))
                   in (0x80 OR of_nat (length bytes - first)) # drop first bytes) @ inner)"

definition anchor_spki_sha256 :: "(u8 list \<Rightarrow> digest) \<Rightarrow> u8 list \<Rightarrow> digest" where
  "anchor_spki_sha256 sha anchor = sha (der_sequence anchor)"

text \<open>\<open>spki\<close> extracts the DER of the public key of a certificate, when it parses.\<close>

definition spki_sha256 :: "(u8 list \<Rightarrow> digest) \<Rightarrow> (u8 list \<Rightarrow> rstr + u8 list) \<Rightarrow> u8 list \<Rightarrow> PinError + digest" where
  "spki_sha256 sha spki der = (case spki der of Err e \<Rightarrow> Err (PinX509 e) | Ok d \<Rightarrow> Ok (sha d))"

definition spki_pinned :: "(u8 list \<Rightarrow> digest) \<Rightarrow> (u8 list \<Rightarrow> rstr + u8 list) \<Rightarrow> digest list \<Rightarrow> cert \<Rightarrow> bool" where
  "spki_pinned sha spki pins c =
     (case spki_sha256 sha spki (cert_der c) of Err e \<Rightarrow> False | Ok h \<Rightarrow> h \<in> set pins)"

definition verified_path_has_pin ::
    "(u8 list \<Rightarrow> digest) \<Rightarrow> (u8 list \<Rightarrow> rstr + u8 list) \<Rightarrow> digest list \<Rightarrow> cert \<Rightarrow> VerifiedPath \<Rightarrow> bool" where
  "verified_path_has_pin sha spki pins leaf path =
     (if spki_pinned sha spki pins leaf then True
      else if list_ex (spki_pinned sha spki pins) (path_intermediates path) then True
      else anchor_spki_sha256 sha (path_anchor_spki path) \<in> set pins)"

text \<open>\<open>webpki\<close> is the standard validation (\<open>None\<close>: valid), \<open>leaf_ok\<close> whether the leaf parses as an end
  entity, \<open>paths\<close> the validated paths webpki builds for the chain.\<close>

definition verify_server_cert ::
    "(u8 list \<Rightarrow> digest) \<Rightarrow> (u8 list \<Rightarrow> rstr + u8 list) \<Rightarrow> (cert \<Rightarrow> cert list \<Rightarrow> ServerName \<Rightarrow> rstr option) \<Rightarrow>
     (cert \<Rightarrow> bool) \<Rightarrow> (cert \<Rightarrow> cert list \<Rightarrow> VerifiedPath list) \<Rightarrow> PinSet \<Rightarrow>
     cert \<Rightarrow> cert list \<Rightarrow> ServerName \<Rightarrow> rstr + unit" where
  "verify_server_cert sha spki webpki leaf_ok paths pins end_entity intermediates server_name =
     (case webpki end_entity intermediates server_name of
        Some e \<Rightarrow> Err e
      | None \<Rightarrow>
          (case pins_for pins (server_name_host server_name) of
             None \<Rightarrow> Ok ()
           | Some hashes \<Rightarrow>
               if \<not> leaf_ok end_entity then Err PIN_MISMATCH_MARKER
               else if list_ex (verified_path_has_pin sha spki hashes end_entity) (paths end_entity intermediates)
               then Ok () else Err PIN_MISMATCH_MARKER))"

section \<open>The upstream configuration\<close>

text \<open>Roots are certificates; a PEM file is the sequence of its certificates or parse errors, and
  \<open>add\<close> is the root store's check of one.\<close>

fun add_extra_ca_loop ::
    "(cert list \<Rightarrow> cert \<Rightarrow> rstr + cert list) \<Rightarrow> (rstr + cert) list \<Rightarrow> cert list \<Rightarrow> nat \<Rightarrow> PinError + (cert list \<times> nat)" where
  "add_extra_ca_loop add [] roots added = Ok (roots, added)"
| "add_extra_ca_loop add (d # ds) roots added =
     (case d of
        Err e \<Rightarrow> Err (PinExtraCa (''parse: '' @ e))
      | Ok der \<Rightarrow>
          (case add roots der of
             Err e \<Rightarrow> Err (PinExtraCa (''add: '' @ e))
           | Ok roots' \<Rightarrow> add_extra_ca_loop add ds roots' (added + 1)))"

definition add_extra_ca_pem ::
    "(cert list \<Rightarrow> cert \<Rightarrow> rstr + cert list) \<Rightarrow> cert list \<Rightarrow> (rstr + cert) list \<Rightarrow> PinError + cert list" where
  "add_extra_ca_pem add roots pem =
     (case add_extra_ca_loop add pem roots 0 of
        Err e \<Rightarrow> Err e
      | Ok (roots', added) \<Rightarrow>
          if added = 0 then Err (PinExtraCa ''PEM contained no certificates'') else Ok roots')"

datatype UpstreamConfig = WebpkiRoots "cert list" | Pinning "cert list" PinSet

text \<open>\<open>extra_ca\<close> is \<open>None\<close> when no path is set, otherwise what reading the file returned; \<open>verifier_ok\<close> is
  the outcome of building the inner verifier over the roots.\<close>

definition build_upstream_client_config ::
    "(cert list \<Rightarrow> cert \<Rightarrow> rstr + cert list) \<Rightarrow> (rstr \<Rightarrow> PinError + PinSet) \<Rightarrow> (cert list \<Rightarrow> rstr option) \<Rightarrow>
     cert list \<Rightarrow> rstr option \<Rightarrow> (rstr + (rstr + cert) list) option \<Rightarrow> PinError + UpstreamConfig" where
  "build_upstream_client_config add parse verifier_err webpki_roots pins_env extra_ca =
     (case (case extra_ca of
              None \<Rightarrow> Ok webpki_roots
            | Some (Err e) \<Rightarrow> Err (PinExtraCa (''read '' @ e))
            | Some (Ok pem) \<Rightarrow> add_extra_ca_pem add webpki_roots pem) of
        Err e \<Rightarrow> Err e
      | Ok roots \<Rightarrow>
          (case (case map_option trim pins_env of
                   None \<Rightarrow> Ok \<lparr>pin_map = []\<rparr>
                 | Some json \<Rightarrow> if json = [] then Ok \<lparr>pin_map = []\<rparr> else parse json) of
             Err e \<Rightarrow> Err e
           | Ok pins \<Rightarrow>
               if PinSet_is_empty pins then Ok (WebpkiRoots roots)
               else case verifier_err roots of
                      Some e \<Rightarrow> Err (PinVerifier e)
                    | None \<Rightarrow> Ok (Pinning roots pins)))"

section \<open>The leaf cache\<close>

definition MAX_CACHED_LEAVES :: nat where "MAX_CACHED_LEAVES = 256"

record 'cfg LeafCache =
  leaf_map :: "(rstr \<times> 'cfg) list"

text \<open>\<open>issue\<close> signs a leaf for a host, \<open>build\<close> makes the server configuration from it.\<close>

definition get_or_issue ::
    "(rstr \<Rightarrow> rstr + 'leaf) \<Rightarrow> ('leaf \<Rightarrow> rstr + 'cfg) \<Rightarrow> 'cfg LeafCache \<Rightarrow> rstr \<Rightarrow> 'cfg LeafCache \<times> (rstr + 'cfg)" where
  "get_or_issue issue build cache host =
     (case map_of (leaf_map cache) host of
        Some cfg \<Rightarrow> (cache, Ok cfg)
      | None \<Rightarrow>
          (let m = (if length (leaf_map cache) \<ge> MAX_CACHED_LEAVES then [] else leaf_map cache) in
           case issue host of
             Err e \<Rightarrow> (\<lparr>leaf_map = m\<rparr>, Err (''issue leaf for '' @ host @ '': '' @ e))
           | Ok leaf \<Rightarrow>
               (case build leaf of
                  Err e \<Rightarrow> (\<lparr>leaf_map = m\<rparr>, Err (''build server config for '' @ host @ '': '' @ e))
                | Ok cfg \<Rightarrow> (\<lparr>leaf_map = AList.update host cfg m\<rparr>, Ok cfg))))"

definition leaf_cache_ok :: "'cfg LeafCache \<Rightarrow> bool" where
  "leaf_cache_ok c \<longleftrightarrow> distinct (map fst (leaf_map c)) \<and> length (leaf_map c) \<le> MAX_CACHED_LEAVES"

section \<open>Lemmas\<close>

lemma length_update_fresh: "map_of m k = None \<Longrightarrow> length (AList.update k v m) = Suc (length m)"
  by (induction m) (auto split: if_splits)

lemma get_or_issue_ok:
  assumes "leaf_cache_ok c" and "get_or_issue issue build c host = (c', r)"
  shows "leaf_cache_ok c'" and "r = Ok cfg \<Longrightarrow> map_of (leaf_map c') host = Some cfg"
proof -
  have fresh: "map_of (leaf_map c) host = None \<Longrightarrow>
      length (AList.update host v (leaf_map c)) = Suc (length (leaf_map c))" for v
    by (rule length_update_fresh)
  have one: "length (AList.update host v []) = 1" for v :: 'b by simp
  show "leaf_cache_ok c'"
    using assms fresh
    by (auto simp: leaf_cache_ok_def get_or_issue_def Let_def distinct_update MAX_CACHED_LEAVES_def
        split: option.splits if_splits sum.splits)
  show "r = Ok cfg \<Longrightarrow> map_of (leaf_map c') host = Some cfg"
    using assms(2)
    by (auto simp: get_or_issue_def Let_def update_conv' split: option.splits if_splits sum.splits)
qed

lemma parse_pins_32:
  "parse_pins dbg b64 ss acc = Ok pins \<Longrightarrow> \<forall>p \<in> set acc. length p = 32 \<Longrightarrow> p \<in> set pins \<Longrightarrow> length p = 32"
proof (induction ss arbitrary: acc)
  case (Cons s ss)
  then obtain d where d: "parse_pin dbg b64 s = Ok d" "parse_pins dbg b64 ss (List.insert d acc) = Ok pins"
    by (auto split: sum.splits)
  then have "length d = 32" by (auto simp: parse_pin_def split: option.splits sum.splits if_splits)
  with Cons d show ?case by auto
qed simp

lemma parse_pins_nonempty: "parse_pins dbg b64 ss acc = Ok pins \<Longrightarrow> set acc \<subseteq> set pins \<and> (ss \<noteq> [] \<longrightarrow> pins \<noteq> [])"
proof (induction ss arbitrary: acc)
  case (Cons s ss)
  then obtain d where d: "parse_pins dbg b64 ss (List.insert d acc) = Ok pins"
    by (auto split: sum.splits)
  with Cons.IH [OF d] show ?case by auto
qed simp

lemma pin_entries_sat:
  assumes "pin_entries dbg b64 raw m = Ok m'"
    and "\<forall>(h, ps) \<in> set m. ps \<noteq> [] \<and> (\<forall>p \<in> set ps. length p = 32)"
  shows "\<forall>(h, ps) \<in> set m'. ps \<noteq> [] \<and> (\<forall>p \<in> set ps. length p = 32)"
  using assms
proof (induction raw arbitrary: m)
  case Nil
  then show ?case by simp
next
  case (Cons e raw)
  obtain host strs where e: "e = (host, strs)" by (cases e)
  with Cons.prems(1) obtain pins where p: "strs \<noteq> []" "parse_pins dbg b64 strs [] = Ok pins"
    "pin_entries dbg b64 raw (AList.update (to_ascii_lowercase host) pins m) = Ok m'"
    by (auto split: if_splits sum.splits)
  have new: "pins \<noteq> [] \<and> (\<forall>p \<in> set pins. length p = 32)"
    using parse_pins_32 [OF p(2)] parse_pins_nonempty [OF p(2)] p(1) by auto
  have upd: "set (AList.update k v m) \<subseteq> insert (k, v) (set m)" for k v
    by (induction m) auto
  then have "\<forall>(h, ps) \<in> set (AList.update (to_ascii_lowercase host) pins m). ps \<noteq> [] \<and> (\<forall>p \<in> set ps. length p = 32)"
    using Cons.prems(2) new by blast
  with Cons.IH p(3) show ?case by blast
qed

end
