(* ===== verification/Leak_Matcher.thy ===== *)
theory Leak_Matcher
  imports Leak_Fingerprint "HOL-Library.Multiset"
begin

text \<open>
  \<^verbatim>\<open>leak-scan/src/matcher.rs\<close>: the streaming scanner. A \<open>RollingMatcher\<close> keeps the last \<open>cap\<close> bytes in a
  ring and one rolling hash per distinct secret length, updated per byte; a hash match is
  confirmed with SHA-256. The iteration order of the source's \<^verbatim>\<open>HashMap\<close> is unspecified: \<open>order\<close>, a
  parameter that arranges the distinct lengths, stands for it.

  The specification \<open>leak_at\<close> looks at the whole stream at once. The invariant \<open>rm_inv\<close> relates a
  matcher to the bytes fed so far, and the matcher is proved to stop exactly at the first byte
  that completes a leak, whatever the chunking.

  The positions \<open>fed\<close> and \<open>i\<close> are naturals: the source's \<^verbatim>\<open>u64\<close> would wrap after \<open>2 ^ 64\<close> bytes of one
  connection.
\<close>

section \<open>The matcher\<close>

record LeakHit =
  hit_sha256_hex :: rstr
  hit_offset :: nat

record LenGroup =
  g_len :: nat
  g_pow :: u64
  g_cur :: u64
  g_primed :: bool
  g_targets :: "u64 \<rightharpoonup> digest list"

record RollingMatcher =
  rm_groups :: "LenGroup list"
  rm_ring :: "u8 list"
  rm_cap :: nat
  rm_fed :: nat

definition add_target :: "(u64 \<rightharpoonup> digest list) \<Rightarrow> SecretFingerprint \<Rightarrow> (u64 \<rightharpoonup> digest list)" where
  "add_target t p =
     t(fp64 p \<mapsto> (case t (fp64 p) of None \<Rightarrow> [] | Some ds \<Rightarrow> ds) @ [fp_sha256 p])"

definition add_pattern ::
    "(nat \<rightharpoonup> (u64 \<rightharpoonup> digest list)) \<Rightarrow> SecretFingerprint \<Rightarrow> (nat \<rightharpoonup> (u64 \<rightharpoonup> digest list))" where
  "add_pattern m p =
     m(fp_len p \<mapsto> add_target (case m (fp_len p) of None \<Rightarrow> Map.empty | Some t \<Rightarrow> t) p)"

definition by_len :: "SecretFingerprint list \<Rightarrow> (nat \<rightharpoonup> (u64 \<rightharpoonup> digest list))" where
  "by_len ps = foldl add_pattern Map.empty ps"

definition len_group :: "(nat \<rightharpoonup> (u64 \<rightharpoonup> digest list)) \<Rightarrow> nat \<Rightarrow> LenGroup" where
  "len_group m len =
     \<lparr>g_len = len, g_pow = pow_base len, g_cur = 0, g_primed = False,
      g_targets = (case m len of None \<Rightarrow> Map.empty | Some t \<Rightarrow> t)\<rparr>"

definition RollingMatcher_new :: "(nat list \<Rightarrow> nat list) \<Rightarrow> SecretFingerprint list \<Rightarrow> RollingMatcher" where
  "RollingMatcher_new order patterns =
     (let ps = filter (\<lambda>p. fp_len p > 0) patterns;
          m = by_len ps;
          lens = order (remdups (map fp_len ps));
          max_len = fold max lens 0;
          cap = max (min (max_len + 1) USIZE_MAX) 1
      in \<lparr>rm_groups = map (len_group m) lens, rm_ring = replicate cap 0, rm_cap = cap, rm_fed = 0\<rparr>)"

definition read_window :: "u8 list \<Rightarrow> nat \<Rightarrow> nat \<Rightarrow> nat \<Rightarrow> u8 list" where
  "read_window ring cap i len = map (\<lambda>k. ring ! ((i + 1 - len + k) mod cap)) [0..<len]"

definition window_poly :: "u8 list \<Rightarrow> nat \<Rightarrow> nat \<Rightarrow> nat \<Rightarrow> u64" where
  "window_poly ring cap i len = poly (read_window ring cap i len)"

definition feed_group ::
    "(u8 list \<Rightarrow> digest) \<Rightarrow> u8 list \<Rightarrow> nat \<Rightarrow> nat \<Rightarrow> u8 \<Rightarrow> LenGroup \<Rightarrow> LenGroup \<times> LeakHit option" where
  "feed_group sha ring cap i b g =
     (let l = g_len g in
      if i + 1 < l then (g, None)
      else
        let cur = (if \<not> g_primed g then window_poly ring cap i l
                   else (g_cur g - ucast (ring ! ((i - l) mod cap)) * g_pow g) * RABIN_BASE + ucast b);
            g' = g\<lparr>g_cur := cur, g_primed := True\<rparr>
        in (case g_targets g cur of
              None \<Rightarrow> (g', None)
            | Some shas \<Rightarrow>
                (let digest = sha (read_window ring cap i l) in
                 if digest \<in> set shas
                 then (g', Some \<lparr>hit_sha256_hex = sha256_hex digest, hit_offset = i + 1 - l\<rparr>)
                 else (g', None))))"

fun feed_groups ::
    "(u8 list \<Rightarrow> digest) \<Rightarrow> u8 list \<Rightarrow> nat \<Rightarrow> nat \<Rightarrow> u8 \<Rightarrow> LenGroup list \<Rightarrow> LenGroup list \<times> LeakHit option" where
  "feed_groups sha ring cap i b [] = ([], None)"
| "feed_groups sha ring cap i b (g # gs) =
     (case feed_group sha ring cap i b g of
        (g', Some hit) \<Rightarrow> (g' # gs, Some hit)
      | (g', None) \<Rightarrow>
          (case feed_groups sha ring cap i b gs of (gs', r) \<Rightarrow> (g' # gs', r)))"

fun feed_bytes :: "(u8 list \<Rightarrow> digest) \<Rightarrow> RollingMatcher \<Rightarrow> u8 list \<Rightarrow> RollingMatcher \<times> LeakHit option" where
  "feed_bytes sha m [] = (m, None)"
| "feed_bytes sha m (b # bs) =
     (let i = rm_fed m;
          ring = (rm_ring m)[i mod rm_cap m := b]
      in case feed_groups sha ring (rm_cap m) i b (rm_groups m) of
           (gs, Some hit) \<Rightarrow> (m\<lparr>rm_ring := ring, rm_groups := gs\<rparr>, Some hit)
         | (gs, None) \<Rightarrow> feed_bytes sha (m\<lparr>rm_ring := ring, rm_groups := gs, rm_fed := i + 1\<rparr>) bs)"

definition feed :: "(u8 list \<Rightarrow> digest) \<Rightarrow> RollingMatcher \<Rightarrow> u8 list \<Rightarrow> RollingMatcher \<times> LeakHit option" where
  "feed sha m chunk =
     (if rm_groups m = [] then (m\<lparr>rm_fed := (rm_fed m + length chunk) mod 2 ^ 64\<rparr>, None)
      else feed_bytes sha m chunk)"

section \<open>The specification\<close>

definition leak_at :: "(u8 list \<Rightarrow> digest) \<Rightarrow> SecretFingerprint list \<Rightarrow> u8 list \<Rightarrow> nat \<Rightarrow> nat \<Rightarrow> bool" where
  "leak_at sha patterns stream off len \<longleftrightarrow>
     0 < len \<and> off + len \<le> length stream \<and>
     (\<exists>p \<in> set patterns. fp_len p = len \<and> fp64 p = poly (take len (drop off stream)) \<and>
                          fp_sha256 p = sha (take len (drop off stream)))"

definition leaks :: "(u8 list \<Rightarrow> digest) \<Rightarrow> SecretFingerprint list \<Rightarrow> u8 list \<Rightarrow> bool" where
  "leaks sha patterns stream \<longleftrightarrow> (\<exists>off len. leak_at sha patterns stream off len)"

text \<open>\<open>HashMap::into_iter\<close> visits every key once.\<close>

definition iteration_order :: "(nat list \<Rightarrow> nat list) \<Rightarrow> bool" where
  "iteration_order order \<longleftrightarrow> (\<forall>ls. mset (order ls) = mset ls)"

section \<open>The ring\<close>

definition ring_ok :: "u8 list \<Rightarrow> nat \<Rightarrow> u8 list \<Rightarrow> bool" where
  "ring_ok ring cap hist \<longleftrightarrow> length ring = cap \<and> 0 < cap \<and>
     (\<forall>j < length hist. length hist \<le> j + cap \<longrightarrow> ring ! (j mod cap) = hist ! j)"

lemma mod_neq_if_close: "j < n \<Longrightarrow> n < j + cap \<Longrightarrow> j mod cap \<noteq> n mod (cap :: nat)"
proof
  assume jn: "j < n" "n < j + cap" and eq: "j mod cap = n mod cap"
  then have "cap dvd n - j" by (metis eq jn(1) less_imp_le mod_eq_dvd_iff_nat)
  moreover have "0 < n - j" "n - j < cap" using jn by auto
  ultimately show False by (meson dvd_imp_le not_le)
qed

lemma ring_ok_init: "0 < cap \<Longrightarrow> ring_ok (replicate cap 0) cap []"
  by (simp add: ring_ok_def)

lemma ring_ok_snoc:
  assumes "ring_ok ring cap hist"
  shows "ring_ok (ring[length hist mod cap := b]) cap (hist @ [b])"
proof -
  have "ring[length hist mod cap := b] ! (j mod cap) = (hist @ [b]) ! j"
    if "j < length hist + 1" "length hist + 1 \<le> j + cap" for j
  proof (cases "j = length hist")
    case True
    then show ?thesis using assms by (simp add: ring_ok_def)
  next
    case False
    then have "j mod cap \<noteq> length hist mod cap"
      using that by (intro mod_neq_if_close) auto
    then show ?thesis using assms that False by (auto simp: ring_ok_def nth_append)
  qed
  then show ?thesis using assms by (simp add: ring_ok_def)
qed

definition last_n :: "nat \<Rightarrow> 'a list \<Rightarrow> 'a list" where
  "last_n l xs = drop (length xs - l) xs"

lemma read_window_last:
  assumes "ring_ok ring cap hist" "l \<le> cap" "l \<le> length hist" "length hist = Suc i"
  shows "read_window ring cap i l = last_n l hist"
proof (rule nth_equalityI)
  show "length (read_window ring cap i l) = length (last_n l hist)"
    using assms by (simp add: read_window_def last_n_def)
next
  fix k assume "k < length (read_window ring cap i l)"
  then have k: "k < l" by (simp add: read_window_def)
  let ?j = "Suc i - l + k"
  have "?j < length hist" "length hist \<le> ?j + cap" using assms k by auto
  then have "ring ! (?j mod cap) = hist ! ?j" using assms(1) by (simp add: ring_ok_def)
  then show "read_window ring cap i l ! k = last_n l hist ! k"
    using k assms by (simp add: read_window_def last_n_def)
qed

section \<open>One length group\<close>

definition group_ok :: "SecretFingerprint list \<Rightarrow> u8 list \<Rightarrow> LenGroup \<Rightarrow> bool" where
  "group_ok ps hist g \<longleftrightarrow> 0 < g_len g \<and> g_pow g = pow_base (g_len g) \<and>
     (\<forall>c d. (\<exists>ds. g_targets g c = Some ds \<and> d \<in> set ds) \<longleftrightarrow>
            (\<exists>p \<in> set ps. fp_len p = g_len g \<and> fp64 p = c \<and> fp_sha256 p = d)) \<and>
     (g_primed g \<longleftrightarrow> g_len g \<le> length hist) \<and>
     (g_primed g \<longrightarrow> g_cur g = poly (last_n (g_len g) hist))"

text \<open>The hash the source computes for the window that ends at the new byte, primed or rolled.\<close>

lemma group_cur:
  assumes ring: "ring_ok ring cap (hist @ [b])" and g: "group_ok ps hist g"
    and len: "g_len g < cap" "g_len g \<le> Suc (length hist)"
  shows "(if \<not> g_primed g then window_poly ring cap (length hist) (g_len g)
          else (g_cur g - ucast (ring ! ((length hist - g_len g) mod cap)) * g_pow g) * RABIN_BASE + ucast b)
         = poly (last_n (g_len g) (hist @ [b]))"
proof (cases "g_primed g")
  case False
  then show ?thesis
    using read_window_last [OF ring, of "g_len g" "length hist"] len by (simp add: window_poly_def)
next
  case True
  let ?l = "g_len g" and ?n = "length hist"
  from True g have le: "?l \<le> ?n" and pos: "0 < ?l" by (auto simp: group_ok_def)
  have "last_n ?l hist = hist ! (?n - ?l) # drop (Suc (?n - ?l)) hist"
    unfolding last_n_def using le pos by (simp add: Cons_nth_drop_Suc)
  moreover have lastb: "last_n ?l (hist @ [b]) = drop (Suc (?n - ?l)) hist @ [b]"
    unfolding last_n_def using le pos by (simp add: Suc_diff_le)
  moreover have "ring ! ((?n - ?l) mod cap) = hist ! (?n - ?l)"
  proof -
    have "?n - ?l < length (hist @ [b])" "length (hist @ [b]) \<le> ?n - ?l + cap"
      using le len by auto
    then have "ring ! ((?n - ?l) mod cap) = (hist @ [b]) ! (?n - ?l)"
      using ring by (simp add: ring_ok_def)
    moreover have "?n - ?l < ?n" using le pos by (intro diff_less) auto
    ultimately show ?thesis by (simp add: nth_append)
  qed
  moreover have "Suc (length (drop (Suc (?n - ?l)) hist)) = ?l" using le pos by simp
  moreover have "g_cur g = poly (last_n ?l hist)" "g_pow g = pow_base ?l"
    using g True by (auto simp: group_ok_def)
  ultimately show ?thesis
    using True poly_roll [of "drop (Suc (?n - ?l)) hist" b "hist ! (?n - ?l)"] by simp
qed

lemma leak_at_last:
  "g_len g \<le> length s \<Longrightarrow> leak_at sha ps s (length s - g_len g) (g_len g) \<longleftrightarrow>
     0 < g_len g \<and> (\<exists>p \<in> set ps. fp_len p = g_len g \<and> fp64 p = poly (last_n (g_len g) s) \<and>
        fp_sha256 p = sha (last_n (g_len g) s))"
  by (simp add: leak_at_def last_n_def)

lemma leak_at_too_long: "length s < len \<Longrightarrow> \<not> leak_at sha ps s off len"
  by (simp add: leak_at_def)

lemma feed_group_correct:
  assumes ring: "ring_ok ring cap (hist @ [b])" and g: "group_ok ps hist g" and cap: "g_len g < cap"
    and step: "feed_group sha ring cap (length hist) b g = (g', r)"
  shows "group_ok ps (hist @ [b]) g'" and "g_len g' = g_len g"
    and "r = (if leak_at sha ps (hist @ [b]) (length (hist @ [b]) - g_len g) (g_len g)
              then Some \<lparr>hit_sha256_hex = sha256_hex (sha (last_n (g_len g) (hist @ [b]))),
                         hit_offset = length (hist @ [b]) - g_len g\<rparr>
              else None)"
proof -
  let ?s = "hist @ [b]" and ?l = "g_len g"
  have "group_ok ps ?s g' \<and> g_len g' = ?l \<and>
      r = (if leak_at sha ps ?s (length ?s - ?l) ?l
           then Some \<lparr>hit_sha256_hex = sha256_hex (sha (last_n ?l ?s)), hit_offset = length ?s - ?l\<rparr>
           else None)"
  proof (cases "length hist + 1 < ?l")
    case True
    then have "g' = g" "r = None" using step by (auto simp: feed_group_def)
    then show ?thesis using g True leak_at_too_long [of ?s ?l sha ps "length ?s - ?l"]
      by (auto simp: group_ok_def)
  next
    case False
    then have le: "?l \<le> Suc (length hist)" by simp
    have w: "read_window ring cap (length hist) ?l = last_n ?l ?s"
      using read_window_last [OF ring, of ?l "length hist"] cap le by simp
    let ?c = "poly (last_n ?l ?s)"
    have tg: "(\<exists>ds. g_targets g ?c = Some ds \<and> sha (last_n ?l ?s) \<in> set ds) \<longleftrightarrow>
        leak_at sha ps ?s (length ?s - ?l) ?l"
      using g le leak_at_last [of g ?s sha ps] by (simp add: group_ok_def)
    have fg: "feed_group sha ring cap (length hist) b g =
       (g\<lparr>g_cur := ?c, g_primed := True\<rparr>,
        if (\<exists>ds. g_targets g ?c = Some ds \<and> sha (last_n ?l ?s) \<in> set ds)
        then Some \<lparr>hit_sha256_hex = sha256_hex (sha (last_n ?l ?s)), hit_offset = length ?s - ?l\<rparr>
        else None)"
      using False group_cur [OF ring g cap le] w
      by (auto simp: feed_group_def Let_def split: option.splits)
    have "group_ok ps ?s (g\<lparr>g_cur := ?c, g_primed := True\<rparr>)"
      using g le by (auto simp: group_ok_def)
    then show ?thesis using step fg tg by auto
  qed
  then show "group_ok ps ?s g'" "g_len g' = ?l"
    "r = (if leak_at sha ps ?s (length ?s - ?l) ?l
          then Some \<lparr>hit_sha256_hex = sha256_hex (sha (last_n ?l ?s)), hit_offset = length ?s - ?l\<rparr>
          else None)"
    by blast+
qed

section \<open>All groups\<close>

text \<open>A leak that ends with the last byte of the stream.\<close>

definition completes :: "(u8 list \<Rightarrow> digest) \<Rightarrow> SecretFingerprint list \<Rightarrow> u8 list \<Rightarrow> bool" where
  "completes sha ps s \<longleftrightarrow> (\<exists>len. leak_at sha ps s (length s - len) len)"

definition hit_for :: "(u8 list \<Rightarrow> digest) \<Rightarrow> SecretFingerprint list \<Rightarrow> u8 list \<Rightarrow> LeakHit \<Rightarrow> bool" where
  "hit_for sha ps s h \<longleftrightarrow>
     (\<exists>len. leak_at sha ps s (length s - len) len \<and> hit_offset h = length s - len \<and>
            hit_sha256_hex h = sha256_hex (sha (last_n len s)))"

lemma feed_groups_correct:
  assumes ring: "ring_ok ring cap (hist @ [b])"
    and gs: "\<forall>g \<in> set gs. group_ok ps hist g \<and> g_len g < cap"
    and step: "feed_groups sha ring cap (length hist) b gs = (gs', r)"
  shows "map g_len gs' = map g_len gs"
    and "r = None \<Longrightarrow> (\<forall>g \<in> set gs'. group_ok ps (hist @ [b]) g) \<and>
           (\<forall>g \<in> set gs. \<not> leak_at sha ps (hist @ [b]) (length (hist @ [b]) - g_len g) (g_len g))"
    and "r = Some h \<Longrightarrow> hit_for sha ps (hist @ [b]) h"
proof -
  have "map g_len gs' = map g_len gs \<and>
    (r = None \<longrightarrow> (\<forall>g \<in> set gs'. group_ok ps (hist @ [b]) g) \<and>
       (\<forall>g \<in> set gs. \<not> leak_at sha ps (hist @ [b]) (length (hist @ [b]) - g_len g) (g_len g))) \<and>
    (\<forall>h. r = Some h \<longrightarrow> hit_for sha ps (hist @ [b]) h)"
    using gs step
  proof (induction gs arbitrary: gs' r)
    case Nil
    then show ?case by simp
  next
    case (Cons g gs)
    obtain g1 r1 where fg: "feed_group sha ring cap (length hist) b g = (g1, r1)" by fastforce
    have gok: "group_ok ps hist g" "g_len g < cap" using Cons.prems(1) by auto
    note fc = feed_group_correct [OF ring gok fg]
    show ?case
    proof (cases r1)
      case None
      obtain gs1 r2 where rest: "feed_groups sha ring cap (length hist) b gs = (gs1, r2)" by fastforce
      with fg None Cons.prems(2) have eq: "gs' = g1 # gs1" "r = r2" by auto
      from Cons.IH [OF _ rest] Cons.prems(1) have
        IH: "map g_len gs1 = map g_len gs"
          "r2 = None \<longrightarrow> (\<forall>g \<in> set gs1. group_ok ps (hist @ [b]) g) \<and>
             (\<forall>g \<in> set gs. \<not> leak_at sha ps (hist @ [b]) (length (hist @ [b]) - g_len g) (g_len g))"
          "\<forall>h. r2 = Some h \<longrightarrow> hit_for sha ps (hist @ [b]) h"
        by simp_all
      have "\<not> leak_at sha ps (hist @ [b]) (length (hist @ [b]) - g_len g) (g_len g)"
        using fc(3) None by (simp split: if_splits)
      then show ?thesis using eq IH fc(1,2) by simp
    next
      case (Some h1)
      with fg Cons.prems(2) have eq: "gs' = g1 # gs" "r = Some h1" by auto
      have "hit_for sha ps (hist @ [b]) h1"
        using fc(3) Some unfolding hit_for_def by (intro exI [of _ "g_len g"]) (simp split: if_splits)
      then show ?thesis using eq fc(2) by simp
    qed
  qed
  then show "map g_len gs' = map g_len gs"
    and "r = None \<Longrightarrow> (\<forall>g \<in> set gs'. group_ok ps (hist @ [b]) g) \<and>
           (\<forall>g \<in> set gs. \<not> leak_at sha ps (hist @ [b]) (length (hist @ [b]) - g_len g) (g_len g))"
    and "r = Some h \<Longrightarrow> hit_for sha ps (hist @ [b]) h"
    by blast+
qed

section \<open>The matcher invariant\<close>

definition rm_inv :: "SecretFingerprint list \<Rightarrow> RollingMatcher \<Rightarrow> u8 list \<Rightarrow> bool" where
  "rm_inv ps m hist \<longleftrightarrow> rm_fed m = length hist \<and> ring_ok (rm_ring m) (rm_cap m) hist \<and>
     (\<forall>g \<in> set (rm_groups m). group_ok ps hist g \<and> g_len g < rm_cap m) \<and>
     g_len ` set (rm_groups m) = {fp_len p | p. p \<in> set ps \<and> 0 < fp_len p}"

lemma feed_bytes_correct:
  assumes "rm_inv ps m hist" and "feed_bytes sha m bs = (m', r)"
  shows "case r of
      None \<Rightarrow> rm_inv ps m' (hist @ bs) \<and> (\<forall>k < length bs. \<not> completes sha ps (hist @ take (Suc k) bs))
    | Some h \<Rightarrow> (\<exists>k < length bs. hit_for sha ps (hist @ take (Suc k) bs) h \<and>
                    (\<forall>j < k. \<not> completes sha ps (hist @ take (Suc j) bs)))"
  using assms
proof (induction bs arbitrary: m hist)
  case Nil
  then show ?case by simp
next
  case (Cons b bs)
  let ?ring = "(rm_ring m)[length hist mod rm_cap m := b]" and ?s = "hist @ [b]"
  from Cons.prems(1) have fed: "rm_fed m = length hist" and rok: "ring_ok (rm_ring m) (rm_cap m) hist"
    and gok: "\<forall>g \<in> set (rm_groups m). group_ok ps hist g \<and> g_len g < rm_cap m"
    and lens: "g_len ` set (rm_groups m) = {fp_len p | p. p \<in> set ps \<and> 0 < fp_len p}"
    by (auto simp: rm_inv_def)
  obtain gs1 r1 where fgs: "feed_groups sha ?ring (rm_cap m) (length hist) b (rm_groups m) = (gs1, r1)"
    by fastforce
  note ring' = ring_ok_snoc [OF rok, of b]
  note fc = feed_groups_correct [OF ring' gok fgs]
  show ?case
  proof (cases r1)
    case (Some h)
    with fgs fed Cons.prems(2) have "r = Some h" by (auto simp: Let_def)
    then show ?thesis using fc(3) Some by (auto intro!: exI [of _ 0])
  next
    case None
    let ?m1 = "m\<lparr>rm_ring := ?ring, rm_groups := gs1, rm_fed := Suc (length hist)\<rparr>"
    have rest: "feed_bytes sha ?m1 bs = (m', r)"
      using fgs fed None Cons.prems(2) by (simp add: Let_def)
    have lens1: "g_len ` set gs1 = g_len ` set (rm_groups m)"
      using fc(1) by (metis image_set)
    have inv1: "rm_inv ps ?m1 ?s"
    proof -
      have "\<forall>g \<in> set gs1. g_len g < rm_cap m"
        using gok lens1 by (metis (no_types, lifting) image_iff)
      then show ?thesis using fc(2) [OF None] ring' lens lens1 by (simp add: rm_inv_def)
    qed
    have nc: "\<not> completes sha ps ?s"
    proof
      assume "completes sha ps ?s"
      then obtain len where l: "leak_at sha ps ?s (length ?s - len) len" by (auto simp: completes_def)
      then have "len \<in> g_len ` set (rm_groups m)" unfolding lens by (auto simp: leak_at_def)
      then show False using fc(2) [OF None] l by auto
    qed
    have shift: "hist @ take (Suc (Suc k)) (b # bs) = ?s @ take (Suc k) bs" for k by simp
    note IH = Cons.IH [OF inv1 rest]
    show ?thesis
    proof (cases r)
      case None
      have "\<not> completes sha ps (hist @ take (Suc k) (b # bs))" if "k < length (b # bs)" for k
        using that nc IH None by (cases k) auto
      then show ?thesis using IH None by simp
    next
      case (Some h)
      with IH obtain k where k: "k < length bs" "hit_for sha ps (?s @ take (Suc k) bs) h"
        "\<forall>j < k. \<not> completes sha ps (?s @ take (Suc j) bs)" by auto
      have "\<not> completes sha ps (hist @ take (Suc j) (b # bs))" if "j < Suc k" for j
        using that nc k(3) by (cases j) auto
      then show ?thesis using Some k by (auto intro!: exI [of _ "Suc k"])
    qed
  qed
qed

section \<open>A new matcher\<close>

lemma add_target_mem:
  "(\<exists>ds. add_target t p c = Some ds \<and> d \<in> set ds) \<longleftrightarrow>
     (\<exists>ds. t c = Some ds \<and> d \<in> set ds) \<or> (c = fp64 p \<and> d = fp_sha256 p)"
  by (cases "t (fp64 p)") (auto simp: add_target_def)

definition targets_of :: "(nat \<rightharpoonup> (u64 \<rightharpoonup> digest list)) \<Rightarrow> nat \<Rightarrow> (u64 \<rightharpoonup> digest list)" where
  "targets_of m l = (case m l of None \<Rightarrow> Map.empty | Some t \<Rightarrow> t)"

lemma by_len_targets:
  "(\<exists>ds. targets_of (by_len ps) l c = Some ds \<and> d \<in> set ds) \<longleftrightarrow>
     (\<exists>p \<in> set ps. fp_len p = l \<and> fp64 p = c \<and> fp_sha256 p = d)"
proof (induction ps rule: rev_induct)
  case Nil
  then show ?case by (simp add: by_len_def targets_of_def)
next
  case (snoc p ps)
  have step: "targets_of (by_len (ps @ [p])) l =
      (if l = fp_len p then add_target (targets_of (by_len ps) l) p else targets_of (by_len ps) l)"
    by (simp add: by_len_def add_pattern_def targets_of_def)
  show ?case
  proof (cases "l = fp_len p")
    case True
    then show ?thesis using snoc step add_target_mem [of "targets_of (by_len ps) l" p c d] by auto
  next
    case False
    then show ?thesis using snoc step by auto
  qed
qed

lemma fold_max_ge: "x \<in> set xs \<Longrightarrow> x \<le> fold max xs (a :: nat)" "a \<le> fold max xs a"
proof -
  have ge: "a \<le> fold max xs a" for xs and a :: nat
    by (induction xs arbitrary: a) (simp, metis fold_simps(2) max.bounded_iff)
  show "a \<le> fold max xs a" by (rule ge)
  show "x \<in> set xs \<Longrightarrow> x \<le> fold max xs a"
    by (induction xs arbitrary: a) (auto, metis ge max.bounded_iff)
qed

lemma fold_max_less: "\<forall>x \<in> set xs. x < n \<Longrightarrow> a < n \<Longrightarrow> fold max xs (a :: nat) < n"
  by (induction xs arbitrary: a) auto

lemma RollingMatcher_new_inv:
  assumes "iteration_order order" and small: "\<forall>p \<in> set ps. fp_len p < USIZE_MAX"
  shows "rm_inv ps (RollingMatcher_new order ps) []"
proof -
  let ?ps = "filter (\<lambda>p. fp_len p > 0) ps"
  let ?lens = "order (remdups (map fp_len ?ps))"
  let ?cap = "max (min (fold max ?lens 0 + 1) USIZE_MAX) 1"
  have "mset ?lens = mset (remdups (map fp_len ?ps))" using assms(1) by (simp add: iteration_order_def)
  then have set_lens: "set ?lens = {fp_len p | p. p \<in> set ps \<and> 0 < fp_len p}"
    by (subst set_mset_mset [symmetric]) auto
  have cap: "l < ?cap" if "l \<in> set ?lens" for l
  proof -
    have "l \<le> fold max ?lens 0" using that by (rule fold_max_ge)
    moreover have "l < USIZE_MAX" using that set_lens small by auto
    ultimately show ?thesis by simp
  qed
  have grp: "group_ok ps [] (len_group (by_len ?ps) l)" if "l \<in> set ?lens" for l
  proof -
    have "0 < l" using that set_lens by auto
    then have "(\<exists>ds. targets_of (by_len ?ps) l c = Some ds \<and> d \<in> set ds) \<longleftrightarrow>
        (\<exists>p \<in> set ps. fp_len p = l \<and> fp64 p = c \<and> fp_sha256 p = d)" for c d
      unfolding by_len_targets by auto
    with \<open>0 < l\<close> show ?thesis
      by (simp add: group_ok_def len_group_def targets_of_def)
  qed
  have new: "RollingMatcher_new order ps = \<lparr>rm_groups = map (len_group (by_len ?ps)) ?lens,
      rm_ring = replicate ?cap 0, rm_cap = ?cap, rm_fed = 0\<rparr>"
    by (simp add: RollingMatcher_new_def Let_def)
  have glen: "g_len (len_group mm l) = l" for mm l by (simp add: len_group_def)
  show ?thesis
    unfolding rm_inv_def new using cap grp set_lens
    by (auto simp: glen ring_ok_init image_image)
qed

section \<open>Streams\<close>

lemma leaks_iff_completes: "leaks sha ps s \<longleftrightarrow> (\<exists>k \<le> length s. completes sha ps (take k s))"
proof
  assume "leaks sha ps s"
  then obtain off len where l: "leak_at sha ps s off len" by (auto simp: leaks_def)
  then have "leak_at sha ps (take (off + len) s) (length (take (off + len) s) - len) len"
    by (simp add: leak_at_def drop_take min_absorb2)
  moreover have "off + len \<le> length s" using l by (simp add: leak_at_def)
  ultimately show "\<exists>k \<le> length s. completes sha ps (take k s)" unfolding completes_def by blast
next
  assume "\<exists>k \<le> length s. completes sha ps (take k s)"
  then obtain k len where k: "k \<le> length s" "leak_at sha ps (take k s) (k - len) len"
    by (auto simp: completes_def min_absorb2)
  then have le: "k - len + len \<le> k" "0 < len" by (auto simp: leak_at_def min_absorb2)
  then have "take len (drop (k - len) (take k s)) = take len (drop (k - len) s)"
    by (simp add: drop_take)
  moreover have "k - len + len \<le> length s" using le k(1) by simp
  ultimately have "leak_at sha ps s (k - len) len" using k(2) le(2) by (simp add: leak_at_def)
  then show "leaks sha ps s" by (auto simp: leaks_def)
qed

lemma completes_Nil [simp]: "\<not> completes sha ps []"
  by (auto simp: completes_def leak_at_def)

lemma hit_for_completes: "hit_for sha ps s h \<Longrightarrow> completes sha ps s"
  by (auto simp: hit_for_def completes_def)

lemma leaks_append_bytes:
  "\<not> leaks sha ps hist \<Longrightarrow>
     leaks sha ps (hist @ bs) \<longleftrightarrow> (\<exists>k < length bs. completes sha ps (hist @ take (Suc k) bs))"
proof -
  assume no: "\<not> leaks sha ps hist"
  have "(\<exists>k \<le> length (hist @ bs). completes sha ps (take k (hist @ bs))) \<longleftrightarrow>
        (\<exists>k < length bs. completes sha ps (hist @ take (Suc k) bs))"
  proof
    assume "\<exists>k \<le> length (hist @ bs). completes sha ps (take k (hist @ bs))"
    then obtain k where k: "k \<le> length (hist @ bs)" "completes sha ps (take k (hist @ bs))" by blast
    have gt: "length hist < k"
    proof (rule ccontr)
      assume "\<not> length hist < k"
      then have "k \<le> length hist" "take k (hist @ bs) = take k hist" by auto
      with k(2) no show False by (metis leaks_iff_completes)
    qed
    then obtain j where "k = length hist + Suc j" by (metis less_iff_Suc_add add_Suc_right)
    with k have "j < length bs" "completes sha ps (hist @ take (Suc j) bs)" by auto
    then show "\<exists>k < length bs. completes sha ps (hist @ take (Suc k) bs)" by blast
  next
    assume "\<exists>k < length bs. completes sha ps (hist @ take (Suc k) bs)"
    then obtain k where "k < length bs" "completes sha ps (take (length hist + Suc k) (hist @ bs))" by auto
    then show "\<exists>k \<le> length (hist @ bs). completes sha ps (take k (hist @ bs))"
      by (intro exI [of _ "length hist + Suc k"]) simp
  qed
  then show ?thesis by (simp add: leaks_iff_completes)
qed

lemma no_groups_no_leaks: "rm_inv ps m hist \<Longrightarrow> rm_groups m = [] \<Longrightarrow> \<not> leaks sha ps s"
  by (fastforce simp: rm_inv_def leaks_def leak_at_def)

text \<open>Feeding more bytes to a matcher that has seen a clean history.\<close>

lemma feed_None_iff:
  assumes inv: "rm_inv ps m hist" and clean: "\<not> leaks sha ps hist" and f: "feed sha m bs = (m', r)"
  shows "r = None \<longleftrightarrow> \<not> leaks sha ps (hist @ bs)"
    and "r = None \<Longrightarrow> rm_groups m \<noteq> [] \<Longrightarrow> rm_inv ps m' (hist @ bs)"
    and "r = Some h \<Longrightarrow> \<exists>k < length bs. hit_for sha ps (hist @ take (Suc k) bs) h \<and>
           \<not> leaks sha ps (hist @ take k bs)"
proof -
  have "(r = None \<longleftrightarrow> \<not> leaks sha ps (hist @ bs)) \<and>
    (r = None \<longrightarrow> rm_groups m \<noteq> [] \<longrightarrow> rm_inv ps m' (hist @ bs)) \<and>
    (\<forall>h. r = Some h \<longrightarrow> (\<exists>k < length bs. hit_for sha ps (hist @ take (Suc k) bs) h \<and>
           \<not> leaks sha ps (hist @ take k bs)))"
  proof (cases "rm_groups m = []")
    case True
    then show ?thesis using f no_groups_no_leaks [OF inv True] by (simp add: feed_def)
  next
    case False
    then have fb: "feed_bytes sha m bs = (m', r)" using f by (simp add: feed_def)
    note fc = feed_bytes_correct [OF inv fb]
    show ?thesis
    proof (cases r)
      case None
      then show ?thesis using fc leaks_append_bytes [OF clean, of bs] by auto
    next
      case (Some h)
      with fc obtain k where k: "k < length bs" "hit_for sha ps (hist @ take (Suc k) bs) h"
        "\<forall>j < k. \<not> completes sha ps (hist @ take (Suc j) bs)" by auto
      have "\<not> leaks sha ps (hist @ take k bs)"
        using leaks_append_bytes [OF clean, of "take k bs"] k(3) by (auto simp: min_def)
      moreover have "leaks sha ps (hist @ bs)"
        using leaks_append_bytes [OF clean, of bs] k(1,2) hit_for_completes by blast
      ultimately show ?thesis using Some k by auto
    qed
  qed
  then show "r = None \<longleftrightarrow> \<not> leaks sha ps (hist @ bs)"
    and "r = None \<Longrightarrow> rm_groups m \<noteq> [] \<Longrightarrow> rm_inv ps m' (hist @ bs)"
    and "r = Some h \<Longrightarrow> \<exists>k < length bs. hit_for sha ps (hist @ take (Suc k) bs) h \<and>
           \<not> leaks sha ps (hist @ take k bs)"
    by blast+
qed

end
