(* ===== verification/Egress_Relay.thy ===== *)
theory Egress_Relay
  imports Leak_Matcher
begin

text \<open>
  \<^verbatim>\<open>workers/egress-proxy/src/mitm/relay.rs\<close>: the two directions of an intercepted tunnel, each read, scanned
  and written on by \<^verbatim>\<open>pump\<close>, driven together by \<^verbatim>\<open>scan_relay\<close>. The interleaving chosen by
  \<^verbatim>\<open>tokio::select!\<close> is the order of a list of I/O events: what a read returned and how the write that
  follows it went. The scanner is an interface, the locale \<open>stream_scanner\<close>: the relay's lemmas are
  proved from its laws, and the laws are discharged for the rolling matcher.
\<close>

datatype Direction = Request | Response

fun direction_str :: "Direction \<Rightarrow> rstr" where
  "direction_str Request = ''request''"
| "direction_str Response = ''response''"

record LeakReport =
  lr_sha256_hex :: rstr
  lr_offset :: nat
  lr_direction :: Direction

datatype ReadOutcome = ReadErr rstr | ReadBytes "u8 list"

text \<open>A failing \<^verbatim>\<open>write_all\<close> may have written a prefix of the buffer.\<close>

datatype WriteOutcome = WriteAll | WriteFail nat rstr

type_synonym relay_event = "Direction \<times> ReadOutcome \<times> WriteOutcome"
type_synonym relay_result = "rstr + LeakReport option"

record 'm PumpState =
  pump_matcher :: 'm
  pump_written :: "u8 list"
  pump_done :: bool

definition pump_start :: "'m \<Rightarrow> 'm PumpState" where
  "pump_start m = \<lparr>pump_matcher = m, pump_written = [], pump_done = False\<rparr>"

text \<open>One iteration of the loop of \<^verbatim>\<open>pump\<close>; \<open>None\<close> is another iteration.\<close>

definition pump_step ::
    "('m \<Rightarrow> u8 list \<Rightarrow> 'm \<times> LeakHit option) \<Rightarrow> Direction \<Rightarrow> 'm PumpState \<Rightarrow> ReadOutcome \<Rightarrow> WriteOutcome \<Rightarrow>
     'm PumpState \<times> relay_result option" where
  "pump_step feedf dir st r w =
     (case r of
        ReadErr e \<Rightarrow> (st, Some (Err (''relay '' @ direction_str dir @ '' read: '' @ e)))
      | ReadBytes buf \<Rightarrow>
          if buf = [] then (st\<lparr>pump_done := True\<rparr>, Some (Ok None))
          else (case feedf (pump_matcher st) buf of
                  (m, Some hit) \<Rightarrow>
                    (st\<lparr>pump_matcher := m\<rparr>,
                     Some (Ok (Some \<lparr>lr_sha256_hex = hit_sha256_hex hit, lr_offset = hit_offset hit, lr_direction = dir\<rparr>)))
                | (m, None) \<Rightarrow>
                    (case w of
                       WriteAll \<Rightarrow> (st\<lparr>pump_matcher := m, pump_written := pump_written st @ buf\<rparr>, None)
                     | WriteFail n e \<Rightarrow>
                         (st\<lparr>pump_matcher := m, pump_written := pump_written st @ take n buf\<rparr>,
                          Some (Err (''relay '' @ direction_str dir @ '' write: '' @ e))))))"

text \<open>The select loop. The result is \<open>None\<close> while both futures are pending on I/O that has not happened.\<close>

fun relay_loop ::
    "('m \<Rightarrow> u8 list \<Rightarrow> 'm \<times> LeakHit option) \<Rightarrow> 'm PumpState \<Rightarrow> 'm PumpState \<Rightarrow> relay_event list \<Rightarrow>
     'm PumpState \<times> 'm PumpState \<times> relay_result option" where
  "relay_loop feedf req resp [] =
     (req, resp, if pump_done req \<and> pump_done resp then Some (Ok None) else None)"
| "relay_loop feedf req resp ((dir, r, w) # evs) =
     (if pump_done req \<and> pump_done resp then (req, resp, Some (Ok None))
      else if pump_done (case dir of Request \<Rightarrow> req | Response \<Rightarrow> resp) then relay_loop feedf req resp evs
      else (case pump_step feedf dir (case dir of Request \<Rightarrow> req | Response \<Rightarrow> resp) r w of
              (st, res) \<Rightarrow>
                (let req' = (case dir of Request \<Rightarrow> st | Response \<Rightarrow> req);
                     resp' = (case dir of Request \<Rightarrow> resp | Response \<Rightarrow> st)
                 in case res of
                      None \<Rightarrow> relay_loop feedf req' resp' evs
                    | Some (Ok None) \<Rightarrow> relay_loop feedf req' resp' evs
                    | Some out \<Rightarrow> (req', resp', Some out))))"

definition scan_relay ::
    "(u8 list \<Rightarrow> digest) \<Rightarrow> (nat list \<Rightarrow> nat list) \<Rightarrow> SecretFingerprint list \<Rightarrow> relay_event list \<Rightarrow>
     RollingMatcher PumpState \<times> RollingMatcher PumpState \<times> relay_result option" where
  "scan_relay sha order patterns evs =
     relay_loop (feed sha) (pump_start (RollingMatcher_new order patterns))
       (pump_start (RollingMatcher_new order patterns)) evs"

text \<open>What one direction delivers up to its end of stream.\<close>

fun stream_of :: "Direction \<Rightarrow> relay_event list \<Rightarrow> u8 list" where
  "stream_of d [] = []"
| "stream_of d ((d', r, w) # evs) =
     (if d' \<noteq> d then stream_of d evs
      else case r of
             ReadErr e \<Rightarrow> []
           | ReadBytes buf \<Rightarrow> if buf = [] then [] else buf @ stream_of d evs)"

section \<open>The scanner interface\<close>

locale stream_scanner =
  fixes feedf :: "'m \<Rightarrow> u8 list \<Rightarrow> 'm \<times> LeakHit option"
    and tracks :: "'m \<Rightarrow> u8 list \<Rightarrow> bool"
    and bad :: "u8 list \<Rightarrow> bool"
  assumes feed_clean: "tracks m h \<Longrightarrow> \<not> bad h \<Longrightarrow> feedf m bs = (m', None) \<Longrightarrow> tracks m' (h @ bs) \<and> \<not> bad (h @ bs)"
    and feed_hit: "tracks m h \<Longrightarrow> \<not> bad h \<Longrightarrow> feedf m bs = (m', Some hit) \<Longrightarrow> bad (h @ bs)"
    and bad_append: "bad s \<Longrightarrow> bad (s @ t)"
begin

definition pump_ok :: "'m PumpState \<Rightarrow> bool" where
  "pump_ok st \<longleftrightarrow> tracks (pump_matcher st) (pump_written st) \<and> \<not> bad (pump_written st)"

lemma pump_step_clean:
  assumes "pump_ok st" and "pump_step feedf dir st r w = (st', res)"
  shows "\<not> bad (pump_written st')"
    and "res = None \<or> res = Some (Ok None) \<Longrightarrow> pump_ok st'"
proof -
  have *: "\<not> bad (pump_written st') \<and> (res = None \<or> res = Some (Ok None) \<longrightarrow> pump_ok st')"
  proof (cases "\<exists>buf. r = ReadBytes buf \<and> buf \<noteq> []")
    case False
    then show ?thesis
      using assms by (cases r) (auto simp: pump_step_def pump_ok_def)
  next
    case True
    then obtain buf where r: "r = ReadBytes buf" "buf \<noteq> []" by blast
    obtain m hit where f: "feedf (pump_matcher st) buf = (m, hit)" by fastforce
    show ?thesis
    proof (cases hit)
      case (Some h)
      then show ?thesis using assms r f by (auto simp: pump_step_def pump_ok_def)
    next
      case None
      have c: "tracks m (pump_written st @ buf) \<and> \<not> bad (pump_written st @ buf)"
        using assms(1) f None feed_clean [of "pump_matcher st" "pump_written st" buf m] by (simp add: pump_ok_def)
      then have "\<not> bad (pump_written st @ take n buf)" for n
        using bad_append [of "pump_written st @ take n buf" "drop n buf"] by auto
      then show ?thesis
        using assms(2) r f None c by (auto simp: pump_step_def pump_ok_def split: WriteOutcome.splits)
    qed
  qed
  then show "\<not> bad (pump_written st')" and "res = None \<or> res = Some (Ok None) \<Longrightarrow> pump_ok st'" by auto
qed

lemma relay_writes_clean:
  assumes "pump_ok req" and "pump_ok resp" and "relay_loop feedf req resp evs = (req', resp', out)"
  shows "\<not> bad (pump_written req') \<and> \<not> bad (pump_written resp')"
  using assms
proof (induction evs arbitrary: req resp)
  case Nil
  then show ?case by (auto simp: pump_ok_def)
next
  case (Cons ev evs)
  obtain dir r w where ev: "ev = (dir, r, w)" by (cases ev)
  let ?st = "case dir of Request \<Rightarrow> req | Response \<Rightarrow> resp"
  obtain st res where p: "pump_step feedf dir ?st r w = (st, res)" by fastforce
  have ok: "pump_ok ?st" using Cons.prems by (cases dir) auto
  note step = pump_step_clean [OF ok p]
  show ?case
  proof (cases "pump_done req \<and> pump_done resp \<or> pump_done ?st")
    case True
    then show ?thesis using Cons ev by (auto simp: pump_ok_def split: if_splits)
  next
    case False
    show ?thesis
    proof (cases "res = None \<or> res = Some (Ok None)")
      case True
      then have "relay_loop feedf (case dir of Request \<Rightarrow> st | Response \<Rightarrow> req)
          (case dir of Request \<Rightarrow> resp | Response \<Rightarrow> st) evs = (req', resp', out)"
        using Cons.prems(3) False ev p by (auto simp: Let_def)
      then show ?thesis
        using Cons.IH Cons.prems(1,2) step(2) [OF True] by (cases dir) auto
    next
      case stop: False
      then have "req' = (case dir of Request \<Rightarrow> st | Response \<Rightarrow> req)" "resp' = (case dir of Request \<Rightarrow> resp | Response \<Rightarrow> st)"
        using Cons.prems(3) False ev p by (auto simp: Let_def split: option.splits sum.splits)
      then show ?thesis using Cons.prems(1,2) step(1) by (cases dir) (auto simp: pump_ok_def)
    qed
  qed
qed

text \<open>A relay that ends cleanly wrote everything it read.\<close>

lemma pump_step_written:
  assumes "pump_step feedf dir st r w = (st', res)" and "res = None \<or> res = Some (Ok None)"
  shows "pump_written st' @ (if pump_done st' then [] else stream_of dir evs) =
         pump_written st @ stream_of dir ((dir, r, w) # evs) \<or> pump_done st"
proof (cases "\<exists>buf. r = ReadBytes buf \<and> buf \<noteq> []")
  case False
  then show ?thesis using assms by (cases r) (auto simp: pump_step_def)
next
  case True
  then obtain buf where r: "r = ReadBytes buf" "buf \<noteq> []" by blast
  obtain m hit where f: "feedf (pump_matcher st) buf = (m, hit)" by fastforce
  show ?thesis
    using assms r f by (cases hit) (auto simp: pump_step_def split: WriteOutcome.splits)
qed

lemma relay_clean_end:
  assumes "relay_loop feedf req resp evs = (req', resp', Some (Ok None))"
  shows "pump_written req' = pump_written req @ (if pump_done req then [] else stream_of Request evs) \<and>
         pump_written resp' = pump_written resp @ (if pump_done resp then [] else stream_of Response evs)"
  using assms
proof (induction evs arbitrary: req resp)
  case Nil
  then show ?case by (auto split: if_splits)
next
  case (Cons ev evs)
  obtain dir r w where ev: "ev = (dir, r, w)" by (cases ev)
  let ?st = "case dir of Request \<Rightarrow> req | Response \<Rightarrow> resp"
  obtain st res where p: "pump_step feedf dir ?st r w = (st, res)" by fastforce
  show ?case
  proof (cases "pump_done req \<and> pump_done resp \<or> pump_done ?st")
    case True
    show ?thesis
    proof (cases "pump_done req \<and> pump_done resp")
      case True
      then show ?thesis using Cons.prems ev by auto
    next
      case False
      with True have "relay_loop feedf req resp evs = (req', resp', Some (Ok None))"
        using Cons.prems ev by auto
      then show ?thesis using Cons.IH [of req resp] True False ev by (cases dir) auto
    qed
  next
    case False
    have cont: "res = None \<or> res = Some (Ok None)"
      using Cons.prems False ev p by (auto simp: Let_def split: option.splits sum.splits)
    then have "relay_loop feedf (case dir of Request \<Rightarrow> st | Response \<Rightarrow> req)
        (case dir of Request \<Rightarrow> resp | Response \<Rightarrow> st) evs = (req', resp', Some (Ok None))"
      using Cons.prems False ev p by (auto simp: Let_def)
    then show ?thesis
      using Cons.IH pump_step_written [OF p cont, of evs] False ev by (cases dir) auto
  qed
qed

text \<open>A reported leak is one: the stream read in the reported direction is bad.\<close>

lemma pump_step_report:
  assumes "pump_ok st" and "pump_step feedf dir st r w = (st', Some (Ok (Some rep)))"
  shows "lr_direction rep = dir \<and> bad (pump_written st @ stream_of dir ((dir, r, w) # evs))"
proof -
  obtain buf where r: "r = ReadBytes buf" "buf \<noteq> []"
    using assms(2) by (cases r) (auto simp: pump_step_def split: if_splits)
  obtain m hit where f: "feedf (pump_matcher st) buf = (m, hit)" by fastforce
  show ?thesis
  proof (cases hit)
    case None
    then show ?thesis using assms(2) r f by (simp add: pump_step_def split: WriteOutcome.splits)
  next
    case (Some h)
    then have "bad (pump_written st @ buf)"
      using assms(1) f feed_hit [of "pump_matcher st" "pump_written st" buf m h] by (simp add: pump_ok_def)
    then have "bad ((pump_written st @ buf) @ stream_of dir evs)" by (rule bad_append)
    then show ?thesis using assms(2) r f Some by (auto simp: pump_step_def)
  qed
qed

lemma relay_report_bad:
  assumes "pump_ok req" and "pump_ok resp" and "relay_loop feedf req resp evs = (req', resp', Some (Ok (Some rep)))"
    and "d = lr_direction rep" and "s = (case d of Request \<Rightarrow> req | Response \<Rightarrow> resp)"
  shows "bad (pump_written s @ (if pump_done s then [] else stream_of d evs))"
  using assms
proof (induction evs arbitrary: req resp s)
  case Nil
  then show ?case by (auto split: if_splits)
next
  case (Cons ev evs)
  obtain dir r w where ev: "ev = (dir, r, w)" by (cases ev)
  let ?st = "case dir of Request \<Rightarrow> req | Response \<Rightarrow> resp"
  obtain st res where p: "pump_step feedf dir ?st r w = (st, res)" by fastforce
  have ok: "pump_ok ?st" using Cons.prems by (cases dir) auto
  have nd: "\<not> (pump_done req \<and> pump_done resp)" using Cons.prems(3) ev by auto
  show ?case
  proof (cases "pump_done ?st")
    case True
    then have "relay_loop feedf req resp evs = (req', resp', Some (Ok (Some rep)))"
      using Cons.prems(3) ev nd by auto
    then have "bad (pump_written s @ (if pump_done s then [] else stream_of d evs))"
      using Cons.IH [of req resp s] Cons.prems by blast
    moreover have "pump_done s \<or> dir \<noteq> d" using True Cons.prems(5) by blast
    ultimately show ?thesis using ev by auto
  next
    case False
    show ?thesis
    proof (cases "res = None \<or> res = Some (Ok None)")
      case True
      let ?req = "case dir of Request \<Rightarrow> st | Response \<Rightarrow> req"
      let ?resp = "case dir of Request \<Rightarrow> resp | Response \<Rightarrow> st"
      have "relay_loop feedf ?req ?resp evs = (req', resp', Some (Ok (Some rep)))"
        using Cons.prems(3) nd False True ev p by (auto simp: Let_def)
      moreover have "pump_ok ?req" "pump_ok ?resp"
        using Cons.prems(1,2) pump_step_clean(2) [OF ok p True] by (cases dir; simp)+
      ultimately have "bad (pump_written (case d of Request \<Rightarrow> ?req | Response \<Rightarrow> ?resp) @
          (if pump_done (case d of Request \<Rightarrow> ?req | Response \<Rightarrow> ?resp) then [] else stream_of d evs))"
        using Cons.IH Cons.prems(4) by blast
      then show ?thesis
        using pump_step_written [OF p True, of evs] False Cons.prems(5) ev by (cases dir; cases d) auto
    next
      case stop: False
      then have res: "res = Some (Ok (Some rep))"
        using Cons.prems(3) nd False ev p by (auto simp: Let_def split: option.splits sum.splits)
      have "lr_direction rep = dir \<and> bad (pump_written ?st @ stream_of dir ((dir, r, w) # evs))"
        using pump_step_report [OF ok, of dir r w st rep evs] p res by simp
      then show ?thesis using False Cons.prems(4,5) ev by auto
    qed
  qed
qed

end

section \<open>The rolling matcher is a stream scanner\<close>

text \<open>A matcher without groups ignores its input; it is right when no pattern has a positive length.\<close>

definition matcher_tracks :: "SecretFingerprint list \<Rightarrow> RollingMatcher \<Rightarrow> u8 list \<Rightarrow> bool" where
  "matcher_tracks ps m hist \<longleftrightarrow>
     (if rm_groups m = [] then \<forall>p \<in> set ps. fp_len p = 0 else rm_inv ps m hist)"

lemma feed_bytes_groups: "feed_bytes sha m bs = (m', r) \<Longrightarrow> rm_groups m \<noteq> [] \<Longrightarrow> rm_groups m' \<noteq> []"
proof (induction bs arbitrary: m)
  case Nil
  then show ?case by simp
next
  case (Cons b bs)
  have len: "length (fst (feed_groups sha ring cap i b gs)) = length gs" for ring cap i gs
    by (induction gs) (auto split: prod.splits option.splits)
  obtain gs r1 where fg: "feed_groups sha ((rm_ring m)[rm_fed m mod rm_cap m := b]) (rm_cap m) (rm_fed m) b (rm_groups m) = (gs, r1)"
    by fastforce
  then have "gs \<noteq> []"
    using len [of "(rm_ring m)[rm_fed m mod rm_cap m := b]" "rm_cap m" "rm_fed m" "rm_groups m"] Cons.prems(2) by auto
  then show ?case using Cons fg by (cases r1) (auto simp: Let_def)
qed

lemma matcher_tracks_empty:
  "(\<forall>p \<in> set ps. fp_len p = 0) \<Longrightarrow> \<not> leaks sha ps s"
  by (fastforce simp: leaks_def leak_at_def)

lemma leaks_append: "leaks sha ps s \<Longrightarrow> leaks sha ps (s @ t)"
proof -
  assume "leaks sha ps s"
  then obtain off len where l: "leak_at sha ps s off len" by (auto simp: leaks_def)
  then have "off + len \<le> length s" by (simp add: leak_at_def)
  then have "take len (drop off (s @ t)) = take len (drop off s)" by simp
  with l have "leak_at sha ps (s @ t) off len" by (simp add: leak_at_def)
  then show ?thesis by (auto simp: leaks_def)
qed

lemma matcher_tracks_feed:
  assumes t: "matcher_tracks ps m h" and c: "\<not> leaks sha ps h" and f: "feed sha m bs = (m', r)"
  shows "r = None \<Longrightarrow> matcher_tracks ps m' (h @ bs) \<and> \<not> leaks sha ps (h @ bs)"
    and "r \<noteq> None \<Longrightarrow> leaks sha ps (h @ bs)"
proof -
  have "(r = None \<longrightarrow> matcher_tracks ps m' (h @ bs) \<and> \<not> leaks sha ps (h @ bs)) \<and>
        (r \<noteq> None \<longrightarrow> leaks sha ps (h @ bs))"
  proof (cases "rm_groups m = []")
    case True
    then show ?thesis using t f by (auto simp: matcher_tracks_def feed_def matcher_tracks_empty)
  next
    case False
    then have inv: "rm_inv ps m h" using t by (simp add: matcher_tracks_def)
    have "rm_groups m' \<noteq> []" using f False feed_bytes_groups by (simp add: feed_def)
    then show ?thesis using feed_None_iff(1,2) [OF inv c f] False by (auto simp: matcher_tracks_def)
  qed
  then show "r = None \<Longrightarrow> matcher_tracks ps m' (h @ bs) \<and> \<not> leaks sha ps (h @ bs)"
    and "r \<noteq> None \<Longrightarrow> leaks sha ps (h @ bs)" by blast+
qed

interpretation rolling: stream_scanner "feed sha" "matcher_tracks ps" "leaks sha ps" for sha ps
proof
  fix m h bs m' hit
  show "matcher_tracks ps m h \<Longrightarrow> \<not> leaks sha ps h \<Longrightarrow> feed sha m bs = (m', None) \<Longrightarrow>
      matcher_tracks ps m' (h @ bs) \<and> \<not> leaks sha ps (h @ bs)"
    using matcher_tracks_feed(1) by blast
  show "matcher_tracks ps m h \<Longrightarrow> \<not> leaks sha ps h \<Longrightarrow> feed sha m bs = (m', Some hit) \<Longrightarrow> leaks sha ps (h @ bs)"
    using matcher_tracks_feed(2) by blast
next
  fix s t
  show "leaks sha ps s \<Longrightarrow> leaks sha ps (s @ t)" by (rule leaks_append)
qed

lemma RollingMatcher_new_tracks:
  assumes "iteration_order order" and "\<forall>p \<in> set ps. fp_len p < USIZE_MAX"
  shows "rolling.pump_ok ps sha (pump_start (RollingMatcher_new order ps))"
proof -
  have inv: "rm_inv ps (RollingMatcher_new order ps) []" by (rule RollingMatcher_new_inv [OF assms])
  then have "matcher_tracks ps (RollingMatcher_new order ps) []"
    by (fastforce simp: matcher_tracks_def rm_inv_def)
  moreover have "\<not> leaks sha ps []" by (auto simp: leaks_def leak_at_def)
  ultimately show ?thesis by (simp add: rolling.pump_ok_def pump_start_def)
qed

end
