(* ===== verification/Utf8.thy ===== *)
theory Utf8
  imports Prelude
begin

text \<open>
  Rust's view of a string as code points: \<^verbatim>\<open>chars\<close>, \<^verbatim>\<open>is_char_boundary\<close> and the two ways the sources cut a
  string to a byte budget without splitting a code point. On a valid string the two cuts agree, and
  the parts of a string cut at a boundary are valid.
\<close>

definition is_cont :: "char \<Rightarrow> bool" where
  "is_cont c \<longleftrightarrow> 0x80 \<le> code c \<and> code c \<le> 0xBF"

definition char_len :: "char \<Rightarrow> nat" where
  "char_len c = (if code c < 0x80 then 1 else if code c < 0xE0 then 2 else if code c < 0xF0 then 3 else 4)"

lemma char_len_pos [simp]: "0 < char_len c"
  by (simp add: char_len_def)

function chars :: "rstr \<Rightarrow> rstr list" where
  "chars [] = []"
| "chars (c # cs) = take (char_len c) (c # cs) # chars (drop (char_len c) (c # cs))"
  by pat_completeness auto
termination
  by (relation "measure length") auto

declare chars.simps(2) [simp del]

lemma concat_chars [simp]: "concat (chars s) = s"
  by (induction s rule: chars.induct) (simp_all add: chars.simps(2))

definition is_char_boundary :: "rstr \<Rightarrow> nat \<Rightarrow> bool" where
  "is_char_boundary s i \<longleftrightarrow>
     (if i = 0 then True else if i \<ge> length s then i = length s else \<not> is_cont (s ! i))"

text \<open>The loop that steps back from a byte index to a boundary, and the one that takes whole code points while
  they fit.\<close>

fun floor_from :: "rstr \<Rightarrow> nat \<Rightarrow> nat" where
  "floor_from s 0 = 0"
| "floor_from s (Suc i) = (if is_char_boundary s (Suc i) then Suc i else floor_from s i)"

definition floor_char_boundary :: "rstr \<Rightarrow> nat \<Rightarrow> nat" where
  "floor_char_boundary s index = floor_from s (min index (length s))"

function take_chars :: "nat \<Rightarrow> rstr \<Rightarrow> nat" where
  "take_chars r [] = 0"
| "take_chars r (c # cs) =
     (if char_len c \<le> r then char_len c + take_chars (r - char_len c) (drop (char_len c) (c # cs)) else 0)"
  by pat_completeness auto
termination
  by (relation "measure (\<lambda>(r, s). length s)") auto

declare take_chars.simps(2) [simp del]

section \<open>Boundaries\<close>

lemma floor_from_boundary: "is_char_boundary s (floor_from s i)"
  by (induction i) (auto simp: is_char_boundary_def [of s 0])

lemma floor_from_le: "floor_from s i \<le> i"
  by (induction i) auto

lemma floor_from_greatest: "is_char_boundary s j \<Longrightarrow> j \<le> i \<Longrightarrow> j \<le> floor_from s i"
  by (induction i) (auto simp: le_Suc_eq)

lemma floor_char_boundary_boundary [simp]: "is_char_boundary s (floor_char_boundary s i)"
  by (simp add: floor_char_boundary_def floor_from_boundary)

lemma floor_char_boundary_le: "floor_char_boundary s i \<le> i" "floor_char_boundary s i \<le> length s"
  using floor_from_le [of s "min i (length s)"] by (simp_all add: floor_char_boundary_def)

lemma boundary_le_length: "is_char_boundary s i \<Longrightarrow> i \<le> length s"
  by (auto simp: is_char_boundary_def split: if_splits)

lemma floor_char_boundary_greatest:
  "is_char_boundary s j \<Longrightarrow> j \<le> i \<Longrightarrow> j \<le> floor_char_boundary s i"
  by (simp add: floor_char_boundary_def floor_from_greatest boundary_le_length)

lemma floor_char_boundary_mono: "i \<le> j \<Longrightarrow> floor_char_boundary s i \<le> floor_char_boundary s j"
  using floor_char_boundary_le(1) [of s i] by (intro floor_char_boundary_greatest) auto

section \<open>Valid strings\<close>

lemma utf8_len_cases:
  assumes "utf8_len s = Some n"
  obtains (one) "n = 1" "byte_in s 0 0 0x7F"
    | (two) "n = 2" "byte_in s 0 0xC2 0xDF" "byte_in s 1 0x80 0xBF"
    | (three) "n = 3" "byte_in s 0 0xE0 0xEF" "byte_in s 1 0x80 0xBF" "byte_in s 2 0x80 0xBF"
    | (four) "n = 4" "byte_in s 0 0xF0 0xF4" "byte_in s 1 0x80 0xBF" "byte_in s 2 0x80 0xBF" "byte_in s 3 0x80 0xBF"
proof -
  let ?P1 = "byte_in s 0 0 0x7F" and ?P2 = "byte_in s 0 0xC2 0xDF \<and> byte_in s 1 0x80 0xBF"
  let ?P3 = "(byte_in s 0 0xE0 0xE0 \<and> byte_in s 1 0xA0 0xBF \<or> byte_in s 0 0xE1 0xEC \<and> byte_in s 1 0x80 0xBF \<or>
               byte_in s 0 0xED 0xED \<and> byte_in s 1 0x80 0x9F \<or> byte_in s 0 0xEE 0xEF \<and> byte_in s 1 0x80 0xBF) \<and>
              byte_in s 2 0x80 0xBF"
  let ?P4 = "(byte_in s 0 0xF0 0xF0 \<and> byte_in s 1 0x90 0xBF \<or> byte_in s 0 0xF1 0xF3 \<and> byte_in s 1 0x80 0xBF \<or>
               byte_in s 0 0xF4 0xF4 \<and> byte_in s 1 0x80 0x8F) \<and>
              byte_in s 2 0x80 0xBF \<and> byte_in s 3 0x80 0xBF"
  have "(if ?P1 then Some 1 else if ?P2 then Some 2 else if ?P3 then Some 3 else if ?P4 then Some 4 else None) = Some n"
    using assms unfolding utf8_len_def .
  then consider "n = 1" ?P1 | "n = 2" ?P2 | "n = 3" ?P3 | "n = 4" ?P4
    by (simp only: split: if_splits) blast+
  then show thesis
  proof cases
    case 1
    then show thesis by (rule one)
  next
    case 2
    then show thesis using two by blast
  next
    case 3
    have "byte_in s 0 0xE0 0xEF" "byte_in s 1 0x80 0xBF" using 3(2) by (auto simp: byte_in_def)
    with 3 three show thesis by blast
  next
    case 4
    have "byte_in s 0 0xF0 0xF4" "byte_in s 1 0x80 0xBF" using 4(2) by (auto simp: byte_in_def)
    with 4 four show thesis by blast
  qed
qed

lemma utf8_len_shape:
  assumes "utf8_len s = Some n"
  shows "char_len (s ! 0) = n" "\<not> is_cont (s ! 0)" "0 < i \<Longrightarrow> i < n \<Longrightarrow> is_cont (s ! i)"
proof -
  from assms show "char_len (s ! 0) = n"
    by (cases rule: utf8_len_cases) (simp_all add: byte_in_def char_len_def)
  from assms show "\<not> is_cont (s ! 0)"
    by (cases rule: utf8_len_cases) (simp_all add: byte_in_def is_cont_def)
  assume i: "0 < i" "i < n"
  from assms show "is_cont (s ! i)"
  proof (cases rule: utf8_len_cases)
    case one
    then show ?thesis using i by simp
  next
    case two
    then have "i = 1" using i by simp
    then show ?thesis using two by (simp add: byte_in_def is_cont_def)
  next
    case three
    then have "i = 1 \<or> i = 2" using i by auto
    then show ?thesis using three by (auto simp: byte_in_def is_cont_def)
  next
    case four
    then have "i = 1 \<or> i = 2 \<or> i = 3" using i by auto
    then show ?thesis using four by (auto simp: byte_in_def is_cont_def)
  qed
qed

text \<open>Only the bytes of the first code point matter.\<close>

lemma utf8_len_agree:
  assumes "utf8_len s = Some n" and "n \<le> length t" and same: "\<And>k. k < n \<Longrightarrow> t ! k = s ! k"
  shows "utf8_len t = Some n"
proof -
  have b: "byte_in t k lo hi = byte_in s k lo hi" if "k < n" for k lo hi
    using that assms(2) utf8_len_bounds [OF assms(1)] same by (simp add: byte_in_def)
  have b0: "byte_in t 0 lo hi = byte_in s 0 lo hi" for lo hi
    using b [of 0] utf8_len_bounds [OF assms(1)] by simp
  from assms(1) show ?thesis
  proof (cases rule: utf8_len_cases)
    case one
    then show ?thesis by (simp add: utf8_len_def b0)
  next
    case two
    then have "\<not> byte_in s 0 0 0x7F" by (auto simp: byte_in_def)
    then show ?thesis using two b [of 1] by (simp add: utf8_len_def b0)
  next
    case three
    then have "\<not> byte_in s 0 0 0x7F" "\<not> byte_in s 0 0xC2 0xDF" "\<not> byte_in s 0 0xF0 0xF0"
      "\<not> byte_in s 0 0xF1 0xF3" "\<not> byte_in s 0 0xF4 0xF4"
      by (auto simp: byte_in_def)
    then show ?thesis using three assms(1) b [of 1] b [of 2] by (auto simp: utf8_len_def b0 split: if_splits)
  next
    case four
    then have "\<not> byte_in s 0 0 0x7F" "\<not> byte_in s 0 0xC2 0xDF" "\<not> byte_in s 0 0xE0 0xE0"
      "\<not> byte_in s 0 0xE1 0xEC" "\<not> byte_in s 0 0xED 0xED" "\<not> byte_in s 0 0xEE 0xEF"
      by (auto simp: byte_in_def)
    then show ?thesis using four assms(1) b [of 1] b [of 2] b [of 3] by (simp add: utf8_len_def b0)
  qed
qed

lemma utf8_valid_Nil [simp]: "utf8_valid []"
  by (subst utf8_valid.simps) simp

lemma utf8_valid_Cons:
  "utf8_valid (c # cs) \<longleftrightarrow> utf8_len (c # cs) = Some (char_len c) \<and> utf8_valid (drop (char_len c) (c # cs))"
proof (cases "utf8_len (c # cs)")
  case None
  then show ?thesis by (subst utf8_valid.simps) simp
next
  case (Some n)
  with utf8_len_shape(1) [OF Some] show ?thesis by (subst utf8_valid.simps) simp
qed

lemma utf8_valid_head:
  assumes "utf8_valid (c # cs)"
  shows "char_len c \<le> length (c # cs)" "0 < i \<Longrightarrow> i < char_len c \<Longrightarrow> is_cont ((c # cs) ! i)" "\<not> is_cont c"
proof -
  have l: "utf8_len (c # cs) = Some (char_len c)" using assms utf8_valid_Cons by blast
  show "char_len c \<le> length (c # cs)" using utf8_len_bounds [OF l] by simp
  show "\<not> is_cont c" using utf8_len_shape(2) [OF l] by simp
  show "0 < i \<Longrightarrow> i < char_len c \<Longrightarrow> is_cont ((c # cs) ! i)" by (rule utf8_len_shape(3) [OF l])
qed

text \<open>A boundary behind the first code point is a boundary of the rest.\<close>

lemma boundary_drop:
  assumes "utf8_valid (c # cs)" and "is_char_boundary (c # cs) i" and "i \<noteq> 0"
  shows "char_len c \<le> i" "is_char_boundary (drop (char_len c) (c # cs)) (i - char_len c)"
proof -
  note h = utf8_valid_head [OF assms(1)]
  show le: "char_len c \<le> i"
  proof (rule ccontr)
    assume "\<not> char_len c \<le> i"
    then have "i < char_len c" "i < length (c # cs)" using h(1) by auto
    then show False using h(2) [of i] assms(2,3) by (auto simp: is_char_boundary_def)
  qed
  show "is_char_boundary (drop (char_len c) (c # cs)) (i - char_len c)"
    using assms(2,3) le h(1) by (auto simp: is_char_boundary_def split: if_splits)
qed

lemma boundary_undrop:
  assumes "utf8_valid (c # cs)" and "is_char_boundary (drop (char_len c) (c # cs)) j"
  shows "is_char_boundary (c # cs) (char_len c + j)"
proof (cases "j = 0")
  case False
  then show ?thesis using assms(2) utf8_valid_head(1) [OF assms(1)] by (auto simp: is_char_boundary_def split: if_splits)
next
  case True
  have "\<not> is_cont ((c # cs) ! char_len c)" if "char_len c < length (c # cs)"
  proof -
    have d: "drop (char_len c) (c # cs) = (c # cs) ! char_len c # drop (Suc (char_len c)) (c # cs)"
      using that by (rule Cons_nth_drop_Suc [symmetric])
    have "utf8_valid (drop (char_len c) (c # cs))" using assms(1) utf8_valid_Cons by blast
    then show ?thesis unfolding d by (rule utf8_valid_head(3))
  qed
  then show ?thesis using True utf8_valid_head(1) [OF assms(1)] by (auto simp: is_char_boundary_def)
qed

lemma take_chars_eq: "utf8_valid s \<Longrightarrow> take_chars r s = floor_char_boundary s r"
proof (induction r s rule: take_chars.induct)
  case (1 r)
  then show ?case using floor_char_boundary_le(2) [of "[]" r] by simp
next
  case (2 r c cs)
  let ?s = "c # cs" and ?n = "char_len c"
  let ?t = "drop ?n ?s"
  have v: "utf8_valid ?t" using "2.prems" utf8_valid_Cons by blast
  let ?f = "floor_char_boundary ?s r"
  show ?case
  proof (cases "?n \<le> r")
    case True
    have eq: "take_chars r ?s = ?n + floor_char_boundary ?t (r - ?n)"
      using "2.IH" [OF True v] True by (subst take_chars.simps) simp
    have "is_char_boundary ?s (?n + floor_char_boundary ?t (r - ?n))"
      by (rule boundary_undrop [OF "2.prems"]) simp
    moreover have "?n + floor_char_boundary ?t (r - ?n) \<le> r"
      using floor_char_boundary_le(1) [of ?t "r - ?n"] True by simp
    ultimately have ge: "?n + floor_char_boundary ?t (r - ?n) \<le> ?f" by (rule floor_char_boundary_greatest)
    then have "?f \<noteq> 0" using char_len_pos [of c] by linarith
    then have "?n \<le> ?f" "is_char_boundary ?t (?f - ?n)"
      using boundary_drop [OF "2.prems"] floor_char_boundary_boundary by blast+
    moreover have "?f - ?n \<le> r - ?n" using floor_char_boundary_le(1) [of ?s r] by simp
    ultimately have "?f \<le> ?n + floor_char_boundary ?t (r - ?n)"
      using floor_char_boundary_greatest [of ?t "?f - ?n" "r - ?n"] by simp
    with ge eq show ?thesis by simp
  next
    case False
    then have "?f = 0"
      using boundary_drop(1) [OF "2.prems", of ?f] floor_char_boundary_le(1) [of ?s r] by force
    with False show ?thesis by (subst take_chars.simps) simp
  qed
qed

lemma utf8_valid_append: "utf8_valid s \<Longrightarrow> utf8_valid t \<Longrightarrow> utf8_valid (s @ t)"
proof (induction s rule: chars.induct)
  case 1
  then show ?case by simp
next
  case (2 c cs)
  note h = utf8_valid_head [OF "2.prems"(1)]
  have l: "utf8_len (c # cs) = Some (char_len c)" using "2.prems"(1) utf8_valid_Cons by blast
  have "utf8_len ((c # cs) @ t) = Some (char_len c)"
    by (rule utf8_len_agree [OF l]) (use h(1) in \<open>auto simp: nth_append simp del: append_Cons\<close>)
  then have "utf8_len (c # cs @ t) = Some (char_len c)" by simp
  moreover have "utf8_valid (drop (char_len c) (c # cs) @ t)"
    using 2 by (simp add: utf8_valid_Cons [of c cs])
  moreover have "drop (char_len c) (c # cs @ t) = drop (char_len c) (c # cs) @ t"
    using h(1) drop_append [of "char_len c" "c # cs" t] by simp
  ultimately show ?case using utf8_valid_Cons [of c "cs @ t"] by simp
qed

lemma utf8_valid_cut:
  "utf8_valid s \<Longrightarrow> is_char_boundary s i \<Longrightarrow> utf8_valid (take i s) \<and> utf8_valid (drop i s)"
proof (induction s arbitrary: i rule: chars.induct)
  case 1
  then show ?case by simp
next
  case (2 c cs)
  show ?case
  proof (cases "i = 0")
    case True
    with "2.prems" show ?thesis by simp
  next
    case False
    let ?n = "char_len c"
    note b = boundary_drop [OF "2.prems" False]
    have v: "utf8_valid (drop ?n (c # cs))" and l: "utf8_len (c # cs) = Some ?n"
      using "2.prems"(1) by (simp_all add: utf8_valid_Cons)
    have IH: "utf8_valid (take (i - ?n) (drop ?n (c # cs)))" "utf8_valid (drop (i - ?n) (drop ?n (c # cs)))"
      using "2.IH" [OF v b(2)] by auto
    have one: "utf8_valid (take ?n (c # cs))"
    proof -
      obtain m where m: "?n = Suc m" using char_len_pos [of c] by (metis Suc_pred)
      have "utf8_len (take ?n (c # cs)) = Some ?n"
        by (rule utf8_len_agree [OF l]) (use utf8_len_bounds [OF l] in auto)
      then show ?thesis by (simp add: m utf8_valid_Cons)
    qed
    have "take i (c # cs) = take ?n (c # cs) @ take (i - ?n) (drop ?n (c # cs))"
      using b(1) by (metis le_add_diff_inverse take_add)
    moreover have "drop i (c # cs) = drop (i - ?n) (drop ?n (c # cs))" using b(1) by simp
    ultimately show ?thesis using one IH utf8_valid_append by metis
  qed
qed

section \<open>Lossy decoding\<close>

text \<open>\<^verbatim>\<open>String::from_utf8_lossy\<close>: each maximal part of an ill-formed sequence becomes U+FFFD.\<close>

definition bad_len :: "rstr \<Rightarrow> nat" where
  "bad_len s =
     (if byte_in s 0 0xE0 0xE0 \<and> byte_in s 1 0xA0 0xBF \<or> byte_in s 0 0xE1 0xEC \<and> byte_in s 1 0x80 0xBF \<or>
         byte_in s 0 0xED 0xED \<and> byte_in s 1 0x80 0x9F \<or> byte_in s 0 0xEE 0xEF \<and> byte_in s 1 0x80 0xBF then 2
      else if byte_in s 0 0xF0 0xF0 \<and> byte_in s 1 0x90 0xBF \<or> byte_in s 0 0xF1 0xF3 \<and> byte_in s 1 0x80 0xBF \<or>
              byte_in s 0 0xF4 0xF4 \<and> byte_in s 1 0x80 0x8F then (if byte_in s 2 0x80 0xBF then 3 else 2)
      else 1)"

lemma bad_len_pos [simp]: "0 < bad_len s"
  by (simp add: bad_len_def)

function from_utf8_lossy :: "rstr \<Rightarrow> rstr" where
  "from_utf8_lossy s =
     (if s = [] then []
      else case utf8_len s of
             Some n \<Rightarrow> take n s @ from_utf8_lossy (drop n s)
           | None \<Rightarrow> [CHR 0xEF, CHR 0xBF, CHR 0xBD] @ from_utf8_lossy (drop (bad_len s) s))"
  by pat_completeness auto
termination
  by (relation "measure length") (auto dest!: utf8_len_bounds)

declare from_utf8_lossy.simps [simp del]

lemma from_utf8_lossy_valid: "utf8_valid s \<Longrightarrow> from_utf8_lossy s = s"
proof (induction s rule: chars.induct)
  case 1
  then show ?case by (subst from_utf8_lossy.simps) simp
next
  case (2 c cs)
  then have "utf8_len (c # cs) = Some (char_len c)" "from_utf8_lossy (drop (char_len c) (c # cs)) = drop (char_len c) (c # cs)"
    using utf8_valid_Cons by blast+
  then show ?case by (subst from_utf8_lossy.simps) (simp del: take_Cons' drop_Cons')
qed

end
