(* ===== verification/Leak_Wire.thy ===== *)
theory Leak_Wire
  imports Leak_Fingerprint Utf8
begin

text \<open>
  \<^verbatim>\<open>leak-scan/src/wire.rs\<close>: the provisioning file \<^verbatim>\<open>secret_hashes.json\<close> that carries fingerprints from
  the core to the proxy. The JSON text layer (\<^verbatim>\<open>serde_json::to_string\<close>, \<^verbatim>\<open>from_str\<close>) is a pair of
  parameters \<open>to_json\<close>, \<open>from_json\<close>; the hexadecimal layer and the slicing are modelled, including the
  panic of a string slice off a character boundary.
\<close>

record WireFp =
  wire_len :: nat
  wire_fp64 :: rstr
  wire_sha256 :: rstr

record HashesFile =
  hf_version :: u32
  hf_secrets :: "WireFp list"

definition WIRE_VERSION :: u32 where "WIRE_VERSION = 1"

datatype panic = SliceNotCharBoundary

section \<open>Hexadecimal digits\<close>

definition hex_val :: "char \<Rightarrow> nat option" where
  "hex_val c =
     (if 48 \<le> code c \<and> code c \<le> 57 then Some (code c - 48)
      else if 97 \<le> code c \<and> code c \<le> 102 then Some (code c - 87)
      else if 65 \<le> code c \<and> code c \<le> 70 then Some (code c - 55)
      else None)"

fun hex_value :: "nat \<Rightarrow> rstr \<Rightarrow> nat option" where
  "hex_value acc [] = Some acc"
| "hex_value acc (c # cs) = (case hex_val c of None \<Rightarrow> None | Some d \<Rightarrow> hex_value (16 * acc + d) cs)"

text \<open>\<^verbatim>\<open>from_str_radix(s, 16)\<close> of an unsigned type of the given width: one leading plus is accepted.\<close>

definition from_str_radix16 :: "nat \<Rightarrow> rstr \<Rightarrow> nat option" where
  "from_str_radix16 bits s =
     (if s = [] \<or> s = ''+'' \<or> s = ''-'' then None
      else case hex_value 0 (if hd s = CHR ''+'' then tl s else s) of
             None \<Rightarrow> None
           | Some n \<Rightarrow> if n < 2 ^ bits then Some n else None)"

fun hex_pad :: "nat \<Rightarrow> nat \<Rightarrow> rstr" where
  "hex_pad 0 n = []"
| "hex_pad (Suc w) n = hex_pad w (n div 16) @ [hex_digit (n mod 16)]"

definition hex16 :: "u64 \<Rightarrow> rstr" where
  "hex16 x = hex_pad 16 (unat x)"

definition hex32 :: "digest \<Rightarrow> rstr" where
  "hex32 bytes = foldl (\<lambda>s b. s @ hex2 b) [] bytes"

function dehex_from :: "rstr \<Rightarrow> nat \<Rightarrow> digest \<Rightarrow> panic + digest option" where
  "dehex_from s i out =
     (if i \<ge> 32 then Ok (Some out)
      else if \<not> (is_char_boundary s (i * 2) \<and> is_char_boundary s (i * 2 + 2)) then Err SliceNotCharBoundary
      else case from_str_radix16 8 (take 2 (drop (i * 2) s)) of
             None \<Rightarrow> Ok None
           | Some b \<Rightarrow> dehex_from s (i + 1) (out @ [of_nat b]))"
  by pat_completeness auto
termination by (relation "measure (\<lambda>(s, i, out). 32 - i)") auto

declare dehex_from.simps [simp del]

definition dehex32 :: "rstr \<Rightarrow> panic + digest option" where
  "dehex32 s = (if length s \<noteq> 64 then Ok None else dehex_from s 0 [])"

section \<open>The file\<close>

definition wire_of :: "SecretFingerprint \<Rightarrow> WireFp" where
  "wire_of f = \<lparr>wire_len = fp_len f, wire_fp64 = hex16 (fp64 f), wire_sha256 = hex32 (fp_sha256 f)\<rparr>"

definition hashes_file :: "SecretFingerprint list \<Rightarrow> HashesFile" where
  "hashes_file fps = \<lparr>hf_version = WIRE_VERSION, hf_secrets = map wire_of fps\<rparr>"

definition serialize_hashes :: "(HashesFile \<Rightarrow> rstr) \<Rightarrow> SecretFingerprint list \<Rightarrow> rstr" where
  "serialize_hashes to_json fps = to_json (hashes_file fps)"

definition decode_one :: "WireFp \<Rightarrow> panic + SecretFingerprint option" where
  "decode_one w =
     (if wire_len w < MIN_SECRET_LEN \<or> wire_len w > MAX_SECRET_LEN then Ok None
      else case from_str_radix16 64 (wire_fp64 w) of
             None \<Rightarrow> Ok None
           | Some h \<Rightarrow>
             (case dehex32 (wire_sha256 w) of
                Err p \<Rightarrow> Err p
              | Ok None \<Rightarrow> Ok None
              | Ok (Some d) \<Rightarrow> Ok (Some \<lparr>fp_len = wire_len w, fp64 = of_nat h, fp_sha256 = d\<rparr>)))"

fun decode_all :: "WireFp list \<Rightarrow> panic + SecretFingerprint list" where
  "decode_all [] = Ok []"
| "decode_all (w # ws) =
     (case decode_one w of
        Err p \<Rightarrow> Err p
      | Ok r \<Rightarrow> (case decode_all ws of
          Err p \<Rightarrow> Err p
        | Ok fps \<Rightarrow> Ok (case r of None \<Rightarrow> fps | Some f \<Rightarrow> f # fps)))"

definition parse_hashes :: "(rstr \<Rightarrow> HashesFile option) \<Rightarrow> rstr \<Rightarrow> panic + SecretFingerprint list" where
  "parse_hashes from_json s =
     (case from_json s of
        None \<Rightarrow> Ok []
      | Some f \<Rightarrow> if hf_version f \<noteq> WIRE_VERSION then Ok [] else decode_all (hf_secrets f))"

section \<open>Round trips of the hexadecimal layer\<close>

lemma hex_val_digit [simp]: "n < 16 \<Longrightarrow> hex_val (hex_digit n) = Some n"
  by (auto simp: hex_val_def hex_digit_def)

lemma hex_digit_plain: "n < 16 \<Longrightarrow> hex_digit n \<noteq> CHR ''+'' \<and> code (hex_digit n) < 128"
proof -
  assume "n < 16"
  moreover from this have "code (hex_digit n) \<ge> 48 \<and> code (hex_digit n) < 128" by (auto simp: hex_digit_def)
  moreover have "code CHR ''+'' = 43" by (simp add: code_def)
  ultimately show ?thesis by auto
qed

lemma hex_value_append:
  "hex_value acc (xs @ ys) = (case hex_value acc xs of None \<Rightarrow> None | Some a \<Rightarrow> hex_value a ys)"
  by (induction xs arbitrary: acc) (auto split: option.splits)

lemma hex_value_pad: "hex_value acc (hex_pad w n) = Some (16 ^ w * acc + n mod 16 ^ w)"
proof (induction w arbitrary: n)
  case 0
  then show ?case by simp
next
  case (Suc w)
  have "n mod (16 * 16 ^ w) = 16 * (n div 16 mod 16 ^ w) + n mod 16"
    by (rule mod_mult2_eq)
  with Suc show ?case by (simp add: hex_value_append algebra_simps)
qed

lemma length_hex_pad [simp]: "length (hex_pad w n) = w"
  by (induction w arbitrary: n) auto

lemma hex_pad_plain: "c \<in> set (hex_pad w n) \<Longrightarrow> c \<noteq> CHR ''+'' \<and> code c < 128"
  by (induction w arbitrary: n) (auto simp: hex_digit_plain)

lemma from_str_radix16_pad:
  assumes "2 \<le> w" and "n < 2 ^ bits" and "n < 16 ^ w"
  shows "from_str_radix16 bits (hex_pad w n) = Some n"
proof -
  have ne: "hex_pad w n \<noteq> []" using assms(1) by (metis length_hex_pad list.size(3) not_numeral_le_zero)
  then have "hd (hex_pad w n) \<noteq> CHR ''+''" using hex_pad_plain [of "hd (hex_pad w n)" w n] by simp
  moreover have "length (hex_pad w n) \<noteq> 1" using assms(1) by simp
  then have "hex_pad w n \<noteq> [c]" for c by (metis length_Cons list.size(3) One_nat_def)
  ultimately show ?thesis using ne assms hex_value_pad [of 0 w n] by (simp add: from_str_radix16_def)
qed

lemma hex2_pad: "hex2 b = hex_pad 2 (unat b)"
proof -
  have "unat b < 256" using unsigned_less [of b, where ?'a = nat] by simp
  then have "unat b div 16 < 16" by simp
  then show ?thesis by (simp add: hex2_def numeral_2_eq_2)
qed

lemma hex32_concat: "hex32 bytes = concat (map hex2 bytes)"
proof -
  have "foldl (\<lambda>s b. s @ hex2 b) acc bytes = acc @ concat (map hex2 bytes)" for acc
    by (induction bytes arbitrary: acc) auto
  then show ?thesis by (simp add: hex32_def)
qed

lemma length_hex2 [simp]: "length (hex2 b) = 2"
  by (simp add: hex2_def)

lemma length_hex32 [simp]: "length (hex32 bytes) = 2 * length bytes"
  unfolding hex32_concat by (induction bytes) auto

lemma hex32_slice: "i < length bytes \<Longrightarrow> take 2 (drop (i * 2) (hex32 bytes)) = hex2 (bytes ! i)"
  unfolding hex32_concat
proof (induction bytes arbitrary: i)
  case Nil
  then show ?case by simp
next
  case (Cons b bytes)
  then show ?case by (cases i) simp_all
qed

lemma hex32_boundary: "i \<le> length (hex32 bytes) \<Longrightarrow> is_char_boundary (hex32 bytes) i"
proof -
  assume i: "i \<le> length (hex32 bytes)"
  have "code c < 128" if "c \<in> set (hex32 bytes)" for c
    using that hex_pad_plain by (auto simp: hex32_concat hex2_pad)
  then have "i < length (hex32 bytes) \<Longrightarrow> \<not> is_cont (hex32 bytes ! i)"
    by (metis is_cont_def not_le nth_mem)
  with i show ?thesis by (auto simp: is_char_boundary_def)
qed

lemma from_str_radix16_hex2: "from_str_radix16 8 (hex2 b) = Some (unat b)"
  using unsigned_less [of b, where ?'a = nat] by (simp add: hex2_pad from_str_radix16_pad)

lemma dehex_from_hex32:
  assumes "length bytes = 32" and "i \<le> 32" and "out = take i bytes"
  shows "dehex_from (hex32 bytes) i out = Ok (Some bytes)"
  using assms
proof (induction "32 - i" arbitrary: i out)
  case 0
  then show ?case by (subst dehex_from.simps) simp
next
  case (Suc n)
  then have i: "i < 32" by simp
  have "dehex_from (hex32 bytes) i out = dehex_from (hex32 bytes) (i + 1) (out @ [bytes ! i])"
    using i Suc.prems(1)
    by (subst dehex_from.simps) (simp add: hex32_boundary hex32_slice from_str_radix16_hex2)
  also have "\<dots> = Ok (Some bytes)"
    using i Suc by (intro Suc.hyps) (auto simp: take_Suc_conv_app_nth)
  finally show ?case .
qed

lemma decode_one_wire_of:
  assumes "MIN_SECRET_LEN \<le> fp_len f" "fp_len f \<le> MAX_SECRET_LEN" "length (fp_sha256 f) = 32"
  shows "decode_one (wire_of f) = Ok (Some f)"
proof -
  have "unat (fp64 f) < 2 ^ 64" using unsigned_less [of "fp64 f", where ?'a = nat] by simp
  then have "from_str_radix16 64 (hex16 (fp64 f)) = Some (unat (fp64 f))"
    unfolding hex16_def by (intro from_str_radix16_pad) auto
  moreover have "dehex32 (hex32 (fp_sha256 f)) = Ok (Some (fp_sha256 f))"
    using assms(3) dehex_from_hex32 [of "fp_sha256 f" 0 "[]"] by (simp add: dehex32_def)
  ultimately show ?thesis using assms by (simp add: decode_one_def wire_of_def)
qed

definition fp_valid :: "SecretFingerprint \<Rightarrow> bool" where
  "fp_valid f \<longleftrightarrow> MIN_SECRET_LEN \<le> fp_len f \<and> fp_len f \<le> MAX_SECRET_LEN \<and> length (fp_sha256 f) = 32"

lemma decode_all_wire_of: "list_all fp_valid fps \<Longrightarrow> decode_all (map wire_of fps) = Ok fps"
  by (induction fps) (auto simp: fp_valid_def decode_one_wire_of)

lemma decode_all_len:
  "decode_all ws = Ok fps \<Longrightarrow> f \<in> set fps \<Longrightarrow> MIN_SECRET_LEN \<le> fp_len f \<and> fp_len f \<le> MAX_SECRET_LEN"
proof (induction ws arbitrary: fps)
  case Nil
  then show ?case by simp
next
  case (Cons w ws)
  have one: "decode_one w = Ok (Some g) \<Longrightarrow> MIN_SECRET_LEN \<le> fp_len g \<and> fp_len g \<le> MAX_SECRET_LEN" for g
    by (auto simp: decode_one_def split: if_splits option.splits sum.splits)
  from Cons show ?case
    by (auto split: sum.splits option.splits dest: one)
qed

end
