(* ===== verification/Egress_Proxy.thy ===== *)
theory Egress_Proxy
  imports Egress_Allowlist Egress_Pins Egress_Relay Leak_Wire
begin

text \<open>
  \<^verbatim>\<open>workers/egress-proxy/src/proxy.rs\<close>, \<^verbatim>\<open>report.rs\<close> and \<^verbatim>\<open>mitm.rs\<close>: one connection of the egress proxy from the
  request head to the end of its tunnel. A connection's outcome is the sequence of its observable
  events: decisions reported, replies to the client, addresses dialled, and what was relayed. What
  the operating system, the resolver and the TLS library answer is the record \<open>ConnEnv\<close>.
\<close>

section \<open>Decisions\<close>

datatype EgressVerdict = Allowed | BlockedAllowlist | BlockedSsrf | BlockedCredentialLeak | BlockedTlsPin

record LeakDecision =
  ld_sha256 :: rstr
  ld_offset :: nat
  ld_direction :: rstr

record Decision =
  d_worker :: rstr
  d_host :: rstr
  d_port :: u16
  d_resolved_ip :: "rstr option"
  d_verdict :: EgressVerdict
  d_reason :: rstr
  d_tls_intercepted :: bool
  d_leak :: "LeakDecision option"

datatype Target = Dial IpAddr | Block EgressVerdict rstr

definition decide ::
    "(rstr \<Rightarrow> rstr) \<Rightarrow> (rstr \<Rightarrow> u16 \<Rightarrow> rstr + IpAddr list) \<Rightarrow> HostAllowlist \<Rightarrow> rstr \<Rightarrow> u16 \<Rightarrow> Target" where
  "decide lower resolve allow host port =
     (if \<not> is_allowed_endpoint lower allow host port
      then Block BlockedAllowlist (host @ '':'' @ show_nat (unat port) @ '' not on allowlist'')
      else case parse_ip host of
             Some literal \<Rightarrow> Dial literal
           | None \<Rightarrow>
               (case resolve host port of
                  Err e \<Rightarrow> Block BlockedSsrf (''resolve failed: '' @ e)
                | Ok ips \<Rightarrow>
                    if ips = [] then Block BlockedSsrf (host @ '' resolved to nothing'')
                    else (case find (\<lambda>ip. \<not> is_denied_range ip) ips of
                            Some ip \<Rightarrow> Dial ip
                          | None \<Rightarrow> Block BlockedSsrf (host @ '' resolves only to denied ranges''))))"

definition allowed_reason :: "(rstr \<Rightarrow> rstr) \<Rightarrow> HostAllowlist \<Rightarrow> rstr \<Rightarrow> rstr" where
  "allowed_reason lower allow host =
     (if is_port_scoped lower allow host then ''ok'' else ''allowed:host-only-entry'')"

definition blocked :: "rstr \<Rightarrow> rstr \<Rightarrow> u16 \<Rightarrow> EgressVerdict \<Rightarrow> rstr \<Rightarrow> Decision" where
  "blocked worker host port verdict reason =
     \<lparr>d_worker = worker, d_host = host, d_port = port, d_resolved_ip = None, d_verdict = verdict,
      d_reason = reason, d_tls_intercepted = False, d_leak = None\<rparr>"

definition classify_mitm_error :: "rstr \<Rightarrow> EgressVerdict \<times> rstr" where
  "classify_mitm_error err =
     (if str_contains err PIN_MISMATCH_MARKER then (BlockedTlsPin, ''pin_mismatch'')
      else (Allowed, ''mitm_failed: '' @ err))"

section \<open>The request head\<close>

definition MAX_REQUEST_HEAD_BYTES :: nat where "MAX_REQUEST_HEAD_BYTES = 8 * 1024"

fun take_line :: "rstr \<Rightarrow> rstr \<times> rstr" where
  "take_line [] = ([], [])"
| "take_line (c # cs) =
     (if c = CHR 0x0A then ([c], cs) else (case take_line cs of (l, rest) \<Rightarrow> (c # l, rest)))"

text \<open>\<^verbatim>\<open>BufRead::read_line\<close>: up to and including the newline, or to the end; \<open>None\<close> if not UTF-8.\<close>

definition read_line :: "rstr \<Rightarrow> (rstr \<times> rstr) option" where
  "read_line s = (case take_line s of (l, rest) \<Rightarrow> if utf8_valid l then Some (l, rest) else None)"

lemma take_line_append: "take_line s = (l, rest) \<Longrightarrow> s = l @ rest"
  by (induction s arbitrary: l rest) (auto split: if_splits prod.splits)

function drain_headers :: "rstr \<Rightarrow> bool" where
  "drain_headers s =
     (case read_line s of
        None \<Rightarrow> False
      | Some (header, rest) \<Rightarrow>
          if header = [] \<or> header = CRLF \<or> header = [CHR 0x0A] then True else drain_headers rest)"
  by pat_completeness auto
termination
  by (relation "measure length")
    (auto simp: read_line_def split: prod.splits if_splits dest!: take_line_append)

declare drain_headers.simps [simp del]

text \<open>The bytes the client sends, up to its end of stream; \<open>None\<close> is a failing read.\<close>

definition read_request_line :: "rstr option \<Rightarrow> rstr option" where
  "read_request_line client =
     (case client of
        None \<Rightarrow> None
      | Some input \<Rightarrow>
          (case read_line (take MAX_REQUEST_HEAD_BYTES input) of
             None \<Rightarrow> None
           | Some (line, rest) \<Rightarrow> if drain_headers rest then Some line else None))"

section \<open>Interception\<close>

definition looks_like_tls :: "u8 \<Rightarrow> bool" where
  "looks_like_tls first_byte \<longleftrightarrow> first_byte = 0x16"

record ('leaf, 'cfg) ConnEnv =
  env_client :: "rstr option"
  env_resolve :: "rstr \<Rightarrow> u16 \<Rightarrow> rstr + IpAddr list"
  env_connect :: "IpAddr \<Rightarrow> u16 \<Rightarrow> rstr option"
  env_write_200 :: bool
  env_peek :: "u8 option"
  env_runtime :: "rstr option"
  env_client_setup :: "rstr option"
  env_hashes :: "rstr option"
  env_issue :: "rstr \<Rightarrow> rstr + 'leaf"
  env_build :: "'leaf \<Rightarrow> rstr + 'cfg"
  env_accept :: "'cfg \<Rightarrow> rstr option"
  env_dial_origin :: "IpAddr \<Rightarrow> u16 \<Rightarrow> rstr option"
  env_server_name :: "rstr \<Rightarrow> rstr + ServerName"
  env_handshake :: "ServerName \<Rightarrow> rstr option"
  env_copy :: "rstr option"
  env_relay :: "relay_event list"

text \<open>The library functions used: Unicode lowercasing, \<^verbatim>\<open>Debug\<close> of a string, SHA-256, the hash map's
  iteration order, and the JSON reader of the fingerprint file.\<close>

record Lib =
  lib_lower :: "rstr \<Rightarrow> rstr"
  lib_dbg :: "rstr \<Rightarrow> rstr"
  lib_sha :: "u8 list \<Rightarrow> digest"
  lib_order :: "nat list \<Rightarrow> nat list"
  lib_hashes_json :: "rstr \<Rightarrow> HashesFile option"

datatype ProxyEvent =
    Reported Decision | Replied rstr | Dialled IpAddr u16 | Tunnelled
  | Copied | Relayed "u8 list" "u8 list" | Panicked panic

record 'cfg MitmCtx =
  mitm_leaf_cache :: "'cfg LeafCache"
  mitm_secret_hashes_path :: bool
  mitm_disable :: bool

definition upstream_server_name ::
    "(rstr \<Rightarrow> rstr) \<Rightarrow> (rstr \<Rightarrow> rstr + ServerName) \<Rightarrow> rstr \<Rightarrow> rstr + ServerName" where
  "upstream_server_name dbg try_from host =
     (let unbracketed = rev (dropWhile (\<lambda>c. c = CHR '']'') (rev (dropWhile (\<lambda>c. c = CHR ''['') host))) in
      case parse_ip unbracketed of
        Some ip \<Rightarrow> Ok (IpAddress ip)
      | None \<Rightarrow>
          (case try_from host of
             Err e \<Rightarrow> Err (''invalid SNI '' @ dbg host @ '': '' @ e)
           | Ok name \<Rightarrow> Ok name))"

text \<open>\<^verbatim>\<open>load_patterns\<close>; the file is read when a path is configured.\<close>

definition load_patterns :: "Lib \<Rightarrow> bool \<Rightarrow> rstr option \<Rightarrow> panic + SecretFingerprint list" where
  "load_patterns lib path contents =
     (if \<not> path then Ok []
      else case contents of
             Some s \<Rightarrow> parse_hashes (lib_hashes_json lib) s
           | None \<Rightarrow> Ok [])"

text \<open>The TLS legs in order: the leaf, the worker's handshake, the origin's connection, its name and its
  handshake. The result is \<open>Ok ()\<close> when the relay can start.\<close>

definition intercept_legs ::
    "Lib \<Rightarrow> ('leaf, 'cfg) ConnEnv \<Rightarrow> IpAddr \<Rightarrow> u16 \<Rightarrow> rstr \<Rightarrow> 'cfg LeafCache \<Rightarrow>
     'cfg LeafCache \<times> ProxyEvent list \<times> (rstr + unit)" where
  "intercept_legs lib env ip port host cache =
     (case get_or_issue (env_issue env) (env_build env) cache host of
        (cache', Err e) \<Rightarrow> (cache', [], Err e)
      | (cache', Ok cfg) \<Rightarrow>
          (case env_accept env cfg of
             Some e \<Rightarrow> (cache', [], Err (''worker TLS handshake: '' @ e))
           | None \<Rightarrow>
               (case env_dial_origin env ip port of
                  Some e \<Rightarrow> (cache', [Dialled ip port], Err (''dial origin '' @ e))
                | None \<Rightarrow>
                    (case upstream_server_name (lib_dbg lib) (env_server_name env) host of
                       Err e \<Rightarrow> (cache', [Dialled ip port], Err e)
                     | Ok sni \<Rightarrow>
                         (case env_handshake env sni of
                            Some e \<Rightarrow> (cache', [Dialled ip port], Err (''origin TLS handshake: '' @ e))
                          | None \<Rightarrow> (cache', [Dialled ip port], Ok ()))))))"

text \<open>A relay still waiting for I/O has no result yet (\<open>None\<close>).\<close>

definition intercept ::
    "Lib \<Rightarrow> ('leaf, 'cfg) ConnEnv \<Rightarrow> IpAddr \<Rightarrow> u16 \<Rightarrow> rstr \<Rightarrow> 'cfg LeafCache \<Rightarrow> SecretFingerprint list \<Rightarrow>
     'cfg LeafCache \<times> ProxyEvent list \<times> relay_result option" where
  "intercept lib env ip port host cache patterns =
     (case intercept_legs lib env ip port host cache of
        (cache', evs, Err e) \<Rightarrow> (cache', evs, Some (Err e))
      | (cache', evs, Ok _) \<Rightarrow>
          if patterns = [] then
            (cache', evs @ [Copied],
             Some (case env_copy env of Some e \<Rightarrow> Err (''tunnel copy: '' @ e) | None \<Rightarrow> Ok None))
          else (case scan_relay (lib_sha lib) (lib_order lib) patterns (env_relay env) of
                  (req, resp, out) \<Rightarrow>
                    (cache', evs @ [Relayed (pump_written req) (pump_written resp)], out)))"

definition mitm_decision ::
    "rstr \<Rightarrow> rstr \<Rightarrow> u16 \<Rightarrow> IpAddr \<Rightarrow> EgressVerdict \<Rightarrow> rstr \<Rightarrow> LeakDecision option \<Rightarrow> Decision" where
  "mitm_decision worker host port ip verdict reason leak =
     \<lparr>d_worker = worker, d_host = host, d_port = port, d_resolved_ip = Some (show_ip ip), d_verdict = verdict,
      d_reason = reason, d_tls_intercepted = True, d_leak = leak\<rparr>"

definition mitm_outcome :: "rstr \<Rightarrow> rstr \<Rightarrow> u16 \<Rightarrow> IpAddr \<Rightarrow> relay_result \<Rightarrow> ProxyEvent list" where
  "mitm_outcome worker host port ip res =
     (case res of
        Ok None \<Rightarrow> []
      | Ok (Some report) \<Rightarrow>
          [Reported (mitm_decision worker host port ip BlockedCredentialLeak
             (''credential leak in '' @ direction_str (lr_direction report))
             (Some \<lparr>ld_sha256 = lr_sha256_hex report, ld_offset = lr_offset report,
                     ld_direction = direction_str (lr_direction report)\<rparr>))]
      | Err e \<Rightarrow>
          (case classify_mitm_error e of
             (verdict, reason) \<Rightarrow> [Reported (mitm_decision worker host port ip verdict reason None)]))"

definition run_mitm ::
    "Lib \<Rightarrow> ('leaf, 'cfg) ConnEnv \<Rightarrow> IpAddr \<Rightarrow> u16 \<Rightarrow> rstr \<Rightarrow> 'cfg MitmCtx \<Rightarrow> rstr \<Rightarrow>
     'cfg MitmCtx \<times> ProxyEvent list" where
  "run_mitm lib env ip port host mitm worker =
     (case env_runtime env of
        Some e \<Rightarrow> (mitm, [Reported (mitm_decision worker host port ip Allowed (''mitm_runtime_failed: '' @ e) None)])
      | None \<Rightarrow>
          (case load_patterns lib (mitm_secret_hashes_path mitm) (env_hashes env) of
             Err p \<Rightarrow> (mitm, [Panicked p])
           | Ok patterns \<Rightarrow>
               (case env_client_setup env of
                  Some e \<Rightarrow> (mitm, mitm_outcome worker host port ip (Err e))
                | None \<Rightarrow>
                    (case intercept lib env ip port host (mitm_leaf_cache mitm) patterns of
                       (cache, evs, out) \<Rightarrow>
                         (mitm\<lparr>mitm_leaf_cache := cache\<rparr>,
                          evs @ (case out of None \<Rightarrow> [] | Some res \<Rightarrow> mitm_outcome worker host port ip res))))))"

section \<open>One connection\<close>

definition allowed_decision :: "rstr \<Rightarrow> rstr \<Rightarrow> u16 \<Rightarrow> IpAddr \<Rightarrow> rstr \<Rightarrow> bool \<Rightarrow> Decision" where
  "allowed_decision worker host port ip reason tls =
     \<lparr>d_worker = worker, d_host = host, d_port = port, d_resolved_ip = Some (show_ip ip), d_verdict = Allowed,
      d_reason = reason, d_tls_intercepted = tls, d_leak = None\<rparr>"

definition serve_dial ::
    "Lib \<Rightarrow> ('leaf, 'cfg) ConnEnv \<Rightarrow> rstr \<Rightarrow> HostAllowlist \<Rightarrow> 'cfg MitmCtx \<Rightarrow> rstr \<Rightarrow> u16 \<Rightarrow> IpAddr \<Rightarrow>
     'cfg MitmCtx \<times> ProxyEvent list" where
  "serve_dial lib env worker allow mitm host port ip =
     (case env_connect env ip port of
        Some e \<Rightarrow>
          (mitm, [Dialled ip port, Reported (allowed_decision worker host port ip (''connect_failed: '' @ e) False),
                  Replied (''HTTP/1.1 502 Bad Gateway'' @ CRLF @ CRLF)])
      | None \<Rightarrow>
          if \<not> env_write_200 env then
            (mitm, [Dialled ip port,
                    Reported (allowed_decision worker host port ip ''allowed_but_200_write_failed'' False)])
          else
            let ok200 = [Dialled ip port, Replied (''HTTP/1.1 200 Connection Established'' @ CRLF @ CRLF)];
                is_tls = (\<not> mitm_disable mitm \<and>
                          (case env_peek env of None \<Rightarrow> False | Some b \<Rightarrow> looks_like_tls b));
                reason = allowed_reason (lib_lower lib) allow host
            in if is_tls then
                 (case run_mitm lib env ip port host mitm worker of
                    (mitm', evs) \<Rightarrow>
                      (mitm', ok200 @ [Reported (allowed_decision worker host port ip reason True)] @ evs))
               else (mitm, ok200 @ [Reported (allowed_decision worker host port ip reason False), Tunnelled]))"

definition handle_conn ::
    "Lib \<Rightarrow> ('leaf, 'cfg) ConnEnv \<Rightarrow> rstr \<Rightarrow> HostAllowlist \<Rightarrow> 'cfg MitmCtx \<Rightarrow> 'cfg MitmCtx \<times> ProxyEvent list" where
  "handle_conn lib env worker allow mitm =
     (case read_request_line (env_client env) of
        None \<Rightarrow> (mitm, [Reported (blocked worker [] 0 BlockedAllowlist ''unreadable request'')])
      | Some line \<Rightarrow>
          (case parse_connect line of
             Err e \<Rightarrow>
               (mitm, [Reported (blocked worker [] 0 BlockedAllowlist (''parse: '' @ show_connect_error (lib_dbg lib) e)),
                       Replied (''HTTP/1.1 400 Bad Request'' @ CRLF @ CRLF)])
           | Ok (host, port) \<Rightarrow>
               (case decide (lib_lower lib) (env_resolve env) allow host port of
                  Block verdict reason \<Rightarrow>
                    (mitm, [Reported (blocked worker host port verdict reason),
                            Replied (''HTTP/1.1 403 Forbidden'' @ CRLF @ CRLF)])
                | Dial ip \<Rightarrow> serve_dial lib env worker allow mitm host port ip)))"

text \<open>\<^verbatim>\<open>main\<close> serves connections one after another with one leaf cache; a panicking handler ends the
  process.\<close>

definition panicked :: "ProxyEvent list \<Rightarrow> bool" where
  "panicked evs = list_ex (\<lambda>e. case e of Panicked p \<Rightarrow> True | _ \<Rightarrow> False) evs"

fun serve_all ::
    "Lib \<Rightarrow> rstr \<Rightarrow> HostAllowlist \<Rightarrow> ('leaf, 'cfg) ConnEnv list \<Rightarrow> 'cfg MitmCtx \<Rightarrow> 'cfg MitmCtx \<times> ProxyEvent list" where
  "serve_all lib worker allow [] mitm = (mitm, [])"
| "serve_all lib worker allow (env # envs) mitm =
     (case handle_conn lib env worker allow mitm of
        (mitm', evs) \<Rightarrow>
          if panicked evs then (mitm', evs)
          else (case serve_all lib worker allow envs mitm' of (mitm'', evs') \<Rightarrow> (mitm'', evs @ evs')))"

section \<open>What is dialled\<close>

lemma decide_Dial_iff:
  "decide lower resolve allow host port = Dial ip \<longleftrightarrow>
     is_allowed_endpoint lower allow host port \<and>
     (parse_ip host = Some ip \<or>
      parse_ip host = None \<and>
      (\<exists>ips. resolve host port = Ok ips \<and> find (\<lambda>ip. \<not> is_denied_range ip) ips = Some ip))"
  by (auto simp: decide_def split: option.splits sum.splits if_splits)

lemma find_Some_props: "find P xs = Some x \<Longrightarrow> x \<in> set xs \<and> P x"
  by (induction xs) (auto split: if_splits)

lemma decide_Dial_safe:
  assumes "decide lower resolve allow host port = Dial ip"
  shows "is_allowed_endpoint lower allow host port \<and>
    (parse_ip host = Some ip \<or>
     parse_ip host = None \<and> \<not> is_denied_range ip \<and> (\<exists>ips. resolve host port = Ok ips \<and> ip \<in> set ips))"
  using assms find_Some_props unfolding decide_Dial_iff by fast

lemma mitm_outcome_no_dial: "Dialled i p \<notin> set (mitm_outcome worker host port ip res)"
  by (auto simp: mitm_outcome_def split: sum.splits option.splits prod.splits)

lemma intercept_legs_dials:
  "intercept_legs lib env ip port host cache = (cache', evs, r) \<Longrightarrow> set evs \<subseteq> {Dialled ip port}"
  by (auto simp: intercept_legs_def split: prod.splits sum.splits option.splits)

lemma intercept_cases:
  assumes "intercept lib env ip port host cache ps = (c, evs, out)"
  obtains (bare) es where "set es \<subseteq> {Dialled ip port}" "evs = es"
    | (copied) es where "set es \<subseteq> {Dialled ip port}" "evs = es @ [Copied]"
    | (relayed) es req resp r where "set es \<subseteq> {Dialled ip port}" "ps \<noteq> []"
        "scan_relay (lib_sha lib) (lib_order lib) ps (env_relay env) = (req, resp, r)"
        "evs = es @ [Relayed (pump_written req) (pump_written resp)]"
proof -
  obtain c' es res where legs: "intercept_legs lib env ip port host cache = (c', es, res)" by (metis prod_cases3)
  note sub = intercept_legs_dials [OF legs]
  show thesis
  proof (cases res)
    case (Inl e)
    then show thesis using assms legs bare [OF sub] by (simp add: intercept_def)
  next
    case (Inr u)
    obtain req resp r where sr: "scan_relay (lib_sha lib) (lib_order lib) ps (env_relay env) = (req, resp, r)"
      by (metis prod_cases3)
    show thesis
      using assms legs Inr copied [OF sub] relayed [OF sub _ sr] sr
      by (cases "ps = []") (simp_all add: intercept_def)
  qed
qed

lemma run_mitm_cases:
  assumes "run_mitm lib env ip port host mitm worker = (m, evs)"
  obtains (failed) d where "evs = [Reported d]"
    | (panic) p where "evs = [Panicked p]"
    | (refused) e where "evs = mitm_outcome worker host port ip (Err e)"
    | (ran) ps c es out tl where "load_patterns lib (mitm_secret_hashes_path mitm) (env_hashes env) = Ok ps"
        "intercept lib env ip port host (mitm_leaf_cache mitm) ps = (c, es, out)" "evs = es @ tl"
        "tl = [] \<or> (\<exists>res. tl = mitm_outcome worker host port ip res)"
proof (cases "env_runtime env")
  case (Some e)
  then have "\<exists>d. evs = [Reported d]" using assms by (auto simp: run_mitm_def)
  then show thesis using failed by blast
next
  case rt: None
  show thesis
  proof (cases "load_patterns lib (mitm_secret_hashes_path mitm) (env_hashes env)")
    case (Inl p)
    then have "evs = [Panicked p]" using assms rt by (auto simp: run_mitm_def)
    then show thesis by (rule panic)
  next
    case ps: (Inr ps)
    obtain c es out where i: "intercept lib env ip port host (mitm_leaf_cache mitm) ps = (c, es, out)"
      by (metis prod_cases3)
    show thesis
    proof (cases "env_client_setup env")
      case (Some e)
      then have "evs = mitm_outcome worker host port ip (Err e)" using assms rt ps by (auto simp: run_mitm_def)
      then show thesis by (rule refused)
    next
      case None
      then have "evs = es @ (case out of None \<Rightarrow> [] | Some res \<Rightarrow> mitm_outcome worker host port ip res)"
        using assms rt ps i by (auto simp: run_mitm_def)
      then show thesis by (rule ran [OF ps i]) (cases out, auto)
    qed
  qed
qed

lemma run_mitm_dials:
  assumes "run_mitm lib env ip port host mitm worker = (m, evs)" and "Dialled i p \<in> set evs"
  shows "i = ip \<and> p = port"
  using assms(1)
proof (cases rule: run_mitm_cases)
  case (ran ps c es out tl)
  then have "Dialled i p \<in> set es" using assms(2) mitm_outcome_no_dial by auto
  with ran(2) show ?thesis by (cases rule: intercept_cases) auto
qed (use assms(2) mitm_outcome_no_dial in auto)

lemma serve_dial_dials:
  assumes "serve_dial lib env worker allow mitm host port ip = (m, evs)" and "Dialled i p \<in> set evs"
  shows "i = ip \<and> p = port"
proof -
  obtain m' es where r: "run_mitm lib env ip port host mitm worker = (m', es)" by fastforce
  have "Dialled i p \<in> set es \<or> i = ip \<and> p = port"
    using assms r by (auto simp: serve_dial_def Let_def split: option.splits if_splits)
  then show ?thesis using run_mitm_dials [OF r] by blast
qed

text \<open>A connection dials only what \<open>decide\<close> chose for its request line.\<close>

lemma handle_conn_dials:
  assumes "handle_conn lib env worker allow mitm = (m, evs)" and "Dialled i p \<in> set evs"
  shows "\<exists>line host. read_request_line (env_client env) = Some line \<and> parse_connect line = Ok (host, p) \<and>
    decide (lib_lower lib) (env_resolve env) allow host p = Dial i"
  using assms serve_dial_dials
  by (fastforce simp: handle_conn_def split: option.splits sum.splits prod.splits Target.splits)

section \<open>What is reported\<close>

fun is_report :: "ProxyEvent \<Rightarrow> bool" where
  "is_report (Reported d) = True"
| "is_report _ = False"

definition reports :: "ProxyEvent list \<Rightarrow> Decision list" where
  "reports evs = List.map_filter (\<lambda>e. case e of Reported d \<Rightarrow> Some d | _ \<Rightarrow> None) evs"

lemma reports_Nil [simp]: "reports [] = []"
  by (simp add: reports_def)

lemma reports_Cons [simp]:
  "reports (Reported d # evs) = d # reports evs" "reports (Replied r # evs) = reports evs"
  "reports (Dialled i p # evs) = reports evs" "reports (Tunnelled # evs) = reports evs"
  "reports (Copied # evs) = reports evs" "reports (Relayed u d' # evs) = reports evs"
  "reports (Panicked q # evs) = reports evs"
  by (simp_all add: reports_def)

lemma reports_append [simp]: "reports (a @ b) = reports a @ reports b"
  by (simp add: reports_def List.map_filter_def)

lemma reports_mitm_outcome: "length (reports (mitm_outcome worker host port ip res)) \<le> 1"
  by (auto simp: mitm_outcome_def split: sum.splits option.splits prod.splits)

lemma reports_dial_only: "set evs \<subseteq> {Dialled ip port} \<Longrightarrow> reports evs = []"
  by (induction evs) auto

lemma reports_intercept: "intercept lib env ip port host cache ps = (c, evs, out) \<Longrightarrow> reports evs = []"
  by (erule intercept_cases) (simp_all add: reports_dial_only)

lemma reports_run_mitm:
  assumes "run_mitm lib env ip port host mitm worker = (m, evs)"
  shows "length (reports evs) \<le> 1"
  using assms
proof (cases rule: run_mitm_cases)
  case (ran ps c es out tl)
  then show ?thesis using reports_intercept [OF ran(2)] reports_mitm_outcome [of worker host port ip] by auto
qed (use reports_mitm_outcome in auto)

section \<open>What is relayed\<close>

lemma mitm_outcome_no_relay: "Relayed u d \<notin> set (mitm_outcome worker host port ip res)"
  by (auto simp: mitm_outcome_def split: sum.splits option.splits prod.splits)

lemma run_mitm_relayed:
  assumes "run_mitm lib env ip port host mitm worker = (m, evs)" and "Relayed up down \<in> set evs"
  shows "\<exists>ps req resp r. load_patterns lib (mitm_secret_hashes_path mitm) (env_hashes env) = Ok ps \<and> ps \<noteq> [] \<and>
    scan_relay (lib_sha lib) (lib_order lib) ps (env_relay env) = (req, resp, r) \<and>
    up = pump_written req \<and> down = pump_written resp"
  using assms(1)
proof (cases rule: run_mitm_cases)
  case (ran ps c es out tl)
  then have r: "Relayed up down \<in> set es" using assms(2) mitm_outcome_no_relay by auto
  from ran(2) show ?thesis
  proof (cases rule: intercept_cases)
    case (relayed ds req resp r)
    then have "up = pump_written req \<and> down = pump_written resp" using \<open>Relayed up down \<in> set es\<close> by auto
    with relayed ran(1) show ?thesis by blast
  qed (use r in auto)
qed (use assms(2) mitm_outcome_no_relay in auto)

lemma handle_conn_relayed:
  assumes "handle_conn lib env worker allow mitm = (m, evs)" and "Relayed up down \<in> set evs"
  shows "\<exists>ps req resp r. load_patterns lib (mitm_secret_hashes_path mitm) (env_hashes env) = Ok ps \<and> ps \<noteq> [] \<and>
    scan_relay (lib_sha lib) (lib_order lib) ps (env_relay env) = (req, resp, r) \<and>
    up = pump_written req \<and> down = pump_written resp"
proof -
  obtain host port ip where s: "serve_dial lib env worker allow mitm host port ip = (m, evs)"
    using assms by (auto simp: handle_conn_def split: option.splits sum.splits prod.splits Target.splits)
  obtain m' es where r: "run_mitm lib env ip port host mitm worker = (m', es)" by fastforce
  have "Relayed up down \<in> set es"
    using assms(2) s r by (auto simp: serve_dial_def Let_def split: option.splits if_splits)
  from run_mitm_relayed [OF r this] show ?thesis .
qed

text \<open>A scanned relay never passes on a stream with a known secret in it.\<close>

lemma scan_relay_clean:
  assumes "iteration_order order" and "\<forall>p \<in> set ps. fp_len p < USIZE_MAX"
    and "scan_relay sha order ps evs = (req, resp, out)"
  shows "\<not> leaks sha ps (pump_written req) \<and> \<not> leaks sha ps (pump_written resp)"
  using rolling.relay_writes_clean [OF RollingMatcher_new_tracks [OF assms(1,2)] RollingMatcher_new_tracks [OF assms(1,2)]]
    assms(3) unfolding scan_relay_def by blast

lemma load_patterns_len:
  "load_patterns lib path contents = Ok ps \<Longrightarrow> p \<in> set ps \<Longrightarrow> fp_len p < USIZE_MAX"
proof -
  assume a: "load_patterns lib path contents = Ok ps" "p \<in> set ps"
  then obtain ws where "decode_all ws = Ok ps"
    by (auto simp: load_patterns_def parse_hashes_def split: if_splits option.splits)
  then have "fp_len p \<le> MAX_SECRET_LEN" using decode_all_len a(2) by blast
  then show ?thesis by (simp add: MAX_SECRET_LEN_def USIZE_MAX_def)
qed

section \<open>The request of the workers' client\<close>

lemma take_line_LF: "CHR 0x0A \<notin> set a \<Longrightarrow> take_line (a @ CHR 0x0A # b) = (a @ [CHR 0x0A], b)"
  by (induction a) auto

lemma read_line_LF:
  "list_all is_ascii a \<Longrightarrow> CHR 0x0A \<notin> set a \<Longrightarrow> read_line (a @ CHR 0x0A # b) = Some (a @ [CHR 0x0A], b)"
  by (simp add: read_line_def take_line_LF utf8_valid_ascii is_ascii_def code_def)

lemma show_nat_plain: "list_all (\<lambda>c. is_ascii c \<and> c \<noteq> CHR 0x0A \<and> c \<noteq> CHR '' '') (show_nat n)"
proof -
  have "is_ascii c \<and> c \<noteq> CHR 0x0A \<and> c \<noteq> CHR '' ''" if "is_ascii_digit c" for c
    using that by (auto simp: is_ascii_def is_ascii_digit_def code_def)
  then show ?thesis using show_nat_digits [of n] by (simp add: list_all_iff)
qed

definition host_plain :: "rstr \<Rightarrow> bool" where
  "host_plain host \<longleftrightarrow> list_all (\<lambda>c. is_ascii c \<and> c \<noteq> CHR 0x0A \<and> c \<noteq> CHR '' '') host"

lemma request_round_trip:
  assumes h: "host_plain host" and size: "length (build_connect_request host port) \<le> MAX_REQUEST_HEAD_BYTES"
  shows "\<exists>line. read_request_line (Some (build_connect_request host port)) = Some line \<and>
    parse_connect line = split_authority (host @ '':'' @ show_nat (unat port))"
proof -
  let ?auth = "host @ '':'' @ show_nat (unat port)"
  let ?l1 = "''CONNECT '' @ ?auth @ '' HTTP/1.1'' @ [CHR 0x0D]"
  let ?l2 = "''Host: '' @ ?auth @ [CHR 0x0D]"
  have auth: "list_all (\<lambda>c. is_ascii c \<and> c \<noteq> CHR 0x0A \<and> c \<noteq> CHR '' '') ?auth"
    using h show_nat_plain [of "unat port"] by (simp add: host_plain_def is_ascii_def code_def)
  have req: "build_connect_request host port = ?l1 @ CHR 0x0A # ?l2 @ CHR 0x0A # CRLF"
    by (simp add: build_connect_request_def CRLF_def)
  have l1: "list_all is_ascii ?l1" "CHR 0x0A \<notin> set ?l1" and l2: "list_all is_ascii ?l2" "CHR 0x0A \<notin> set ?l2"
    using auth by (auto simp: list_all_iff is_ascii_def code_def)
  have end_blank: "drain_headers CRLF"
    using read_line_LF [of "[CHR 0x0D]" "[]"]
    by (subst drain_headers.simps) (simp add: CRLF_def is_ascii_def code_def)
  have "drain_headers (?l2 @ CHR 0x0A # CRLF)"
    using read_line_LF [OF l2, of CRLF] end_blank by (subst drain_headers.simps) simp
  then have "read_request_line (Some (build_connect_request host port)) = Some (?l1 @ [CHR 0x0A])"
    using read_line_LF [OF l1, of "?l2 @ CHR 0x0A # CRLF"] size by (simp add: read_request_line_def req)
  moreover have "?l1 @ [CHR 0x0A] = ''CONNECT '' @ ?auth @ '' HTTP/1.1'' @ CRLF" by (simp add: CRLF_def)
  moreover have "CHR '' '' \<notin> set ?auth" using auth by (auto simp: list_all_iff)
  ultimately show ?thesis using parse_connect_request by metis
qed

end
