(* ===== verification/Leak_Redact.thy ===== *)
theory Leak_Redact
  imports Leak_Matcher "HOL-Library.Product_Lexorder"
begin

text \<open>
  \<^verbatim>\<open>leak-scan/src/redact.rs\<close>: replacing every occurrence of a known secret in a buffer. The spans found
  per length are sorted, overlapping spans are merged into runs, and each run becomes one marker
  naming the digests it covers. Proved: the hits are exactly the leaks of the specification
  \<open>leak_at\<close>, and erasing the markers from the output leaves exactly the bytes that no hit covers.
\<close>

type_synonym span = "nat \<times> nat \<times> digest"

record RedactHit =
  rh_sha256_hex :: rstr
  rh_offset :: nat
  rh_len :: nat

record RedactOutcome =
  ro_bytes :: "u8 list"
  ro_hits :: "RedactHit list"

record Run =
  run_start :: nat
  run_end :: nat
  run_spans :: "span list"

definition str_bytes :: "rstr \<Rightarrow> u8 list" where
  "str_bytes s = map (\<lambda>c. of_nat (code c)) s"

fun join_plus :: "rstr list \<Rightarrow> rstr" where
  "join_plus [] = []"
| "join_plus [x] = x"
| "join_plus (x # y # xs) = x @ ''+'' @ join_plus (y # xs)"

definition push_marker :: "u8 list \<Rightarrow> rstr list \<Rightarrow> u8 list" where
  "push_marker out hexes = out @ str_bytes (''[redacted:'' @ join_plus (map (take 8) hexes) @ '']'')"

section \<open>Scanning one length\<close>

function scan_len ::
    "(u8 list \<Rightarrow> digest) \<Rightarrow> u8 list \<Rightarrow> (u64 \<rightharpoonup> digest list) \<Rightarrow> nat \<Rightarrow> u64 \<Rightarrow> u64 \<Rightarrow> nat \<Rightarrow> span list" where
  "scan_len sha input targets len pow cur i =
     (let here = (case targets cur of
                    Some shas \<Rightarrow>
                      (let digest = sha (take len (drop i input)) in
                       if digest \<in> set shas then [(i, len, digest)] else [])
                  | None \<Rightarrow> [])
      in if i + len \<ge> length input then here
         else here @ scan_len sha input targets len pow
                ((cur - ucast (input ! i) * pow) * RABIN_BASE + ucast (input ! (i + len))) (i + 1))"
  by pat_completeness auto
termination
  by (relation "measure (\<lambda>(sha, input, t, len, pow, cur, i). length input - (i + len))") auto

declare scan_len.simps [simp del]

definition raw_spans ::
    "(u8 list \<Rightarrow> digest) \<Rightarrow> (nat list \<Rightarrow> nat list) \<Rightarrow> u8 list \<Rightarrow> SecretFingerprint list \<Rightarrow> span list" where
  "raw_spans sha order input patterns =
     (let ps = filter (\<lambda>p. fp_len p > 0 \<and> fp_len p \<le> length input) patterns;
          m = by_len ps
      in concat (map (\<lambda>len. scan_len sha input (targets_of m len) len (pow_base len) (poly (take len input)) 0)
           (order (remdups (map fp_len ps)))))"

section \<open>Merging and rendering\<close>

definition span_key :: "span \<Rightarrow> nat \<times> int" where
  "span_key sp = (fst sp, - int (fst (snd sp)))"

definition add_span :: "Run list \<Rightarrow> span \<Rightarrow> Run list" where
  "add_span runs sp =
     (case sp of (off, len, sha) \<Rightarrow>
        (if runs \<noteq> [] \<and> off < run_end (last runs)
         then butlast runs @ [(last runs)\<lparr>run_end := max (run_end (last runs)) (off + len),
                                run_spans := run_spans (last runs) @ [(off, len, sha)]\<rparr>]
         else runs @ [\<lparr>run_start = off, run_end = off + len, run_spans = [(off, len, sha)]\<rparr>]))"

definition merge_runs :: "span list \<Rightarrow> Run list" where
  "merge_runs spans = foldl add_span [] spans"

definition run_hits :: "Run \<Rightarrow> RedactHit list" where
  "run_hits r = map (\<lambda>(off, len, sha). \<lparr>rh_sha256_hex = sha256_hex sha, rh_offset = off, rh_len = len\<rparr>) (run_spans r)"

text \<open>The digests of a run, each once, in span order (\<^verbatim>\<open>seen\<close> and \<^verbatim>\<open>marker_hexes\<close>).\<close>

fun marker_hexes :: "span list \<Rightarrow> digest list \<Rightarrow> rstr list" where
  "marker_hexes [] seen = []"
| "marker_hexes ((off, len, sha) # sps) seen =
     (if sha \<notin> set seen then sha256_hex sha # marker_hexes sps (seen @ [sha]) else marker_hexes sps seen)"

definition emit_run :: "u8 list \<Rightarrow> u8 list \<times> RedactHit list \<times> nat \<Rightarrow> Run \<Rightarrow> u8 list \<times> RedactHit list \<times> nat" where
  "emit_run input st run =
     (case st of (bytes, hits, cursor) \<Rightarrow>
        (push_marker (bytes @ take (run_start run - cursor) (drop cursor input)) (marker_hexes (run_spans run) []),
         hits @ run_hits run, run_end run))"

definition redact ::
    "(u8 list \<Rightarrow> digest) \<Rightarrow> (nat list \<Rightarrow> nat list) \<Rightarrow> u8 list \<Rightarrow> SecretFingerprint list \<Rightarrow> RedactOutcome" where
  "redact sha order input patterns =
     (let runs = merge_runs (sort_key span_key (raw_spans sha order input patterns)) in
      if runs = [] then \<lparr>ro_bytes = input, ro_hits = []\<rparr>
      else (case foldl (emit_run input) ([], [], 0) runs of
              (bytes, hits, cursor) \<Rightarrow> \<lparr>ro_bytes = bytes @ drop cursor input, ro_hits = hits\<rparr>))"

section \<open>The spans are the leaks\<close>

lemma scan_len_set:
  assumes "cur = poly (take len (drop i input))" and "i + len \<le> length input" and "0 < len"
  shows "set (scan_len sha input targets len (pow_base len) cur i) =
    {(j, len, sha (take len (drop j input))) | j. i \<le> j \<and> j + len \<le> length input \<and>
       (\<exists>ds. targets (poly (take len (drop j input))) = Some ds \<and> sha (take len (drop j input)) \<in> set ds)}"
  using assms
proof (induction "length input - (i + len)" arbitrary: i cur rule: less_induct)
  case less
  let ?w = "\<lambda>j. take len (drop j input)"
  let ?hit = "\<lambda>j. \<exists>ds. targets (poly (?w j)) = Some ds \<and> sha (?w j) \<in> set ds"
  let ?here = "case targets cur of Some shas \<Rightarrow> (let digest = sha (?w i) in if digest \<in> set shas then [(i, len, digest)] else []) | None \<Rightarrow> []"
  have here: "set ?here = {(j, len, sha (?w j)) | j. j = i \<and> ?hit j}"
  proof (cases "targets cur")
    case None
    then show ?thesis using less.prems(1) by auto
  next
    case (Some ds)
    then show ?thesis using less.prems(1) by (auto simp: Let_def)
  qed
  show ?case
  proof (cases "i + len \<ge> length input")
    case True
    then have eq: "scan_len sha input targets len (pow_base len) cur i = ?here"
      by (subst scan_len.simps) (simp add: Let_def)
    have "i \<le> j \<and> j + len \<le> length input \<longleftrightarrow> j = i" for j using True less.prems(2) by auto
    then show ?thesis unfolding eq here by blast
  next
    case False
    let ?cur = "(cur - ucast (input ! i) * pow_base len) * RABIN_BASE + ucast (input ! (i + len))"
    have eq: "scan_len sha input targets len (pow_base len) cur i =
        ?here @ scan_len sha input targets len (pow_base len) ?cur (i + 1)"
      using False by (subst scan_len.simps) (simp add: Let_def)
    have wi: "?w i = input ! i # take (len - 1) (drop (i + 1) input)"
      using False less.prems(3) by (simp add: take_Cons' Cons_nth_drop_Suc [symmetric])
    have wi1: "?w (i + 1) = take (len - 1) (drop (i + 1) input) @ [input ! (i + len)]"
      using False less.prems(3) take_Suc_conv_app_nth [of "len - 1" "drop (i + 1) input"] by simp
    have "Suc (length (take (len - 1) (drop (i + 1) input))) = len"
      using False less.prems(3) by simp
    then have cur: "?cur = poly (?w (i + 1))"
      unfolding wi1 using less.prems(1) wi
        poly_roll [of "take (len - 1) (drop (i + 1) input)" "input ! (i + len)" "input ! i"] by simp
    have IH: "set (scan_len sha input targets len (pow_base len) ?cur (i + 1)) =
        {(j, len, sha (?w j)) | j. i + 1 \<le> j \<and> j + len \<le> length input \<and> ?hit j}"
      using False less.prems(3) by (intro less.hyps cur) auto
    have "i \<le> j \<and> j + len \<le> length input \<longleftrightarrow> j = i \<or> (i + 1 \<le> j \<and> j + len \<le> length input)" for j
      using False by auto
    then show ?thesis unfolding eq set_append here IH by blast
  qed
qed

lemma raw_spans_set:
  assumes "iteration_order order"
  shows "set (raw_spans sha order input ps) =
    {(off, len, sha (take len (drop off input))) | off len. leak_at sha ps input off len}"
proof -
  let ?ps = "filter (\<lambda>p. fp_len p > 0 \<and> fp_len p \<le> length input) ps"
  have lens: "set (order (remdups (map fp_len ?ps))) = fp_len ` set ?ps"
    using assms by (subst set_mset_mset [symmetric]) (simp add: iteration_order_def)
  have scan: "set (scan_len sha input (targets_of (by_len ?ps) len) len (pow_base len) (poly (take len input)) 0) =
      {(off, len, sha (take len (drop off input))) | off. leak_at sha ps input off len}"
    if "len \<in> fp_len ` set ?ps" for len
  proof -
    have l: "0 < len" "len \<le> length input" using that by auto
    have "set (scan_len sha input (targets_of (by_len ?ps) len) len (pow_base len) (poly (take len input)) 0) =
      {(j, len, sha (take len (drop j input))) | j. 0 \<le> j \<and> j + len \<le> length input \<and>
       (\<exists>ds. targets_of (by_len ?ps) len (poly (take len (drop j input))) = Some ds \<and>
             sha (take len (drop j input)) \<in> set ds)}"
      using l by (intro scan_len_set) auto
    also have "\<dots> = {(off, len, sha (take len (drop off input))) | off. leak_at sha ps input off len}"
      unfolding by_len_targets leak_at_def using l by fastforce
    finally show ?thesis .
  qed
  have "set (raw_spans sha order input ps) =
      (\<Union>len \<in> fp_len ` set ?ps. {(off, len, sha (take len (drop off input))) | off. leak_at sha ps input off len})"
    unfolding raw_spans_def Let_def set_concat set_map lens using scan by simp
  also have "\<dots> = {(off, len, sha (take len (drop off input))) | off len. leak_at sha ps input off len}"
    by (fastforce simp: leak_at_def)
  finally show ?thesis .
qed

section \<open>Runs\<close>

definition span_cover :: "span list \<Rightarrow> nat set" where
  "span_cover sps = (\<Union>(off, len, sha) \<in> set sps. {off..<off + len})"

fun runs_ok :: "nat \<Rightarrow> nat \<Rightarrow> Run list \<Rightarrow> bool" where
  "runs_ok lo hi [] \<longleftrightarrow> lo \<le> hi"
| "runs_ok lo hi (r # rs) \<longleftrightarrow> lo \<le> run_start r \<and> run_start r < run_end r \<and> runs_ok (run_end r) hi rs"

lemma runs_ok_append: "runs_ok lo hi (rs @ [r]) \<longleftrightarrow>
    runs_ok lo (run_start r) rs \<and> run_start r < run_end r \<and> run_end r \<le> hi"
  by (induction rs arbitrary: lo) auto

lemma runs_ok_mono: "runs_ok lo hi rs \<Longrightarrow> hi \<le> hi' \<Longrightarrow> runs_ok lo hi' rs"
  by (induction rs arbitrary: lo) auto

definition runs_cover :: "Run list \<Rightarrow> nat set" where
  "runs_cover rs = (\<Union>r \<in> set rs. {run_start r..<run_end r})"

text \<open>After the spans with start at most the next one: the runs are disjoint and ascending, start no
  later than the last span, and cover exactly what the spans cover.\<close>

definition merge_inv :: "span list \<Rightarrow> Run list \<Rightarrow> bool" where
  "merge_inv sps rs \<longleftrightarrow>
     concat (map run_spans rs) = sps \<and> runs_cover rs = span_cover sps \<and>
     runs_ok 0 (if rs = [] then 0 else run_end (last rs)) rs \<and>
     (rs \<noteq> [] \<longrightarrow> run_start (last rs) \<le> fst (last sps) \<and> sps \<noteq> []) \<and> (rs = [] \<longrightarrow> sps = [])"

lemma span_cover_snoc: "span_cover (sps @ [(off, len, sha)]) = span_cover sps \<union> {off..<off + len}"
  by (auto simp: span_cover_def)

lemma merge_step:
  assumes inv: "merge_inv sps rs" and len: "0 < len" and asc: "sps \<noteq> [] \<Longrightarrow> fst (last sps) \<le> off"
  shows "merge_inv (sps @ [(off, len, sha)]) (add_span rs (off, len, sha))"
proof (cases "rs \<noteq> [] \<and> off < run_end (last rs)")
  case True
  then obtain rs0 r where rs: "rs = rs0 @ [r]" by (metis append_butlast_last_id)
  let ?r = "r\<lparr>run_end := max (run_end r) (off + len), run_spans := run_spans r @ [(off, len, sha)]\<rparr>"
  have as: "add_span rs (off, len, sha) = rs0 @ [?r]" using True rs by (simp add: add_span_def)
  have st: "run_start r \<le> off" using inv rs asc by (auto simp: merge_inv_def)
  have ok: "runs_ok 0 (run_start r) rs0" "run_start r < run_end r"
    using inv rs by (auto simp: merge_inv_def runs_ok_append)
  have "runs_cover (rs0 @ [?r]) = runs_cover rs \<union> {off..<off + len}"
    using st True rs by (auto simp: runs_cover_def)
  then show ?thesis
    using inv rs as st ok by (auto simp: merge_inv_def span_cover_snoc runs_ok_append)
next
  case False
  let ?r = "\<lparr>run_start = off, run_end = off + len, run_spans = [(off, len, sha)]\<rparr>"
  have as: "add_span rs (off, len, sha) = rs @ [?r]" using False by (auto simp: add_span_def)
  have "runs_ok 0 off rs"
    using inv False runs_ok_mono [of 0 "if rs = [] then 0 else run_end (last rs)" rs off]
    by (auto simp: merge_inv_def)
  moreover have "runs_cover (rs @ [?r]) = runs_cover rs \<union> {off..<off + len}"
    by (auto simp: runs_cover_def)
  ultimately show ?thesis
    using inv as len by (auto simp: merge_inv_def span_cover_snoc runs_ok_append)
qed

lemma merge_runs_inv:
  "sorted (map fst sps) \<Longrightarrow> \<forall>sp \<in> set sps. 0 < fst (snd sp) \<Longrightarrow> merge_inv sps (merge_runs sps)"
proof (induction sps rule: rev_induct)
  case Nil
  then show ?case by (simp add: merge_runs_def merge_inv_def runs_cover_def span_cover_def)
next
  case (snoc sp sps)
  obtain off len sha where sp: "sp = (off, len, sha)" by (cases sp)
  have "sps \<noteq> [] \<Longrightarrow> fst (last sps) \<le> off"
    using snoc.prems(1) sp by (auto simp: sorted_append)
  with snoc sp show ?case
    using merge_step [of sps "merge_runs sps" len off sha] by (auto simp: merge_runs_def sorted_append)
qed

section \<open>Rendering\<close>

fun weave :: "(Run \<Rightarrow> u8 list) \<Rightarrow> u8 list \<Rightarrow> nat \<Rightarrow> Run list \<Rightarrow> u8 list" where
  "weave mark input cursor [] = drop cursor input"
| "weave mark input cursor (r # rs) =
     take (run_start r - cursor) (drop cursor input) @ mark r @ weave mark input (run_end r) rs"

definition run_mark :: "Run \<Rightarrow> u8 list" where
  "run_mark r = push_marker [] (marker_hexes (run_spans r) [])"

lemma emit_runs_weave:
  "(case foldl (emit_run input) (bytes, hits, cursor) rs of (b, h, c) \<Rightarrow> (b @ drop c input, h)) =
     (bytes @ weave run_mark input cursor rs, hits @ concat (map run_hits rs))"
proof (induction rs arbitrary: bytes hits cursor)
  case Nil
  then show ?case by simp
next
  case (Cons r rs)
  then show ?case by (simp add: emit_run_def push_marker_def run_mark_def)
qed

lemma nths_drop_take:
  "a \<le> b \<Longrightarrow> nths xs {a..<b} = take (b - a) (drop a xs)"
proof (induction xs arbitrary: a b)
  case Nil
  then show ?case by simp
next
  case (Cons x xs)
  show ?case
  proof (cases a)
    case 0
    show ?thesis
    proof (cases b)
      case 0
      with \<open>a = 0\<close> show ?thesis by simp
    next
      case (Suc b')
      have "{j. Suc j \<in> {0..<Suc b'}} = {0..<b'}" by auto
      then show ?thesis using \<open>a = 0\<close> Suc Cons.IH [of 0 b'] by (simp add: nths_Cons)
    qed
  next
    case (Suc a')
    then obtain b' where b: "b = Suc b'" using Cons.prems by (cases b) auto
    have "{j. Suc j \<in> {Suc a'..<Suc b'}} = {a'..<b'}" by auto
    then show ?thesis using Suc b Cons by (simp add: nths_Cons)
  qed
qed

lemma nths_Un_split:
  "(\<forall>a \<in> A. \<forall>b \<in> B. a < b) \<Longrightarrow> nths xs (A \<union> B) = nths xs A @ nths xs (B :: nat set)"
proof (induction xs arbitrary: A B)
  case Nil
  then show ?case by simp
next
  case (Cons x xs)
  let ?d = "\<lambda>S. {j. Suc j \<in> S}"
  have un: "?d (A \<union> B) = ?d A \<union> ?d B" by auto
  have IH: "nths xs (?d A \<union> ?d B) = nths xs (?d A) @ nths xs (?d B)"
    using Cons.prems by (intro Cons.IH) auto
  have A0: "A = {}" if "0 \<in> B" using Cons.prems that by fastforce
  show ?case
  proof (cases "0 \<in> B")
    case True
    then show ?thesis using A0 by simp
  next
    case False
    have "nths (x # xs) (A \<union> B) = (if 0 \<in> A then [x] else []) @ nths xs (?d A) @ nths xs (?d B)"
      unfolding nths_Cons [of x xs "A \<union> B"] un IH using False by simp
    moreover have "nths (x # xs) A = (if 0 \<in> A then [x] else []) @ nths xs (?d A)" by (rule nths_Cons)
    moreover have "nths (x # xs) B = nths xs (?d B)" using nths_Cons [of x xs B] False by simp
    ultimately show ?thesis by (simp only: append_assoc)
  qed
qed

lemma runs_ok_le_hi: "runs_ok lo hi rs \<Longrightarrow> lo \<le> hi"
  by (induction rs arbitrary: lo) force+

lemma runs_cover_Cons: "runs_cover (r # rs) = {run_start r..<run_end r} \<union> runs_cover rs"
  by (simp add: runs_cover_def)

lemma runs_ok_cover: "runs_ok lo hi rs \<Longrightarrow> runs_cover rs \<subseteq> {lo..<hi}"
proof (induction rs arbitrary: lo)
  case Nil
  then show ?case by (simp add: runs_cover_def)
next
  case (Cons r rs)
  then have "runs_cover rs \<subseteq> {run_end r..<hi}" "run_end r \<le> hi" by (auto dest: runs_ok_le_hi)
  moreover have "lo \<le> run_start r" "run_start r < run_end r" using Cons.prems by auto
  ultimately show ?case by (fastforce simp: runs_cover_Cons)
qed

text \<open>Erasing the markers keeps exactly the bytes outside the runs.\<close>

lemma weave_erase:
  "runs_ok lo (length input) rs \<Longrightarrow>
     weave (\<lambda>_. []) input lo rs = nths input ({lo..<length input} - runs_cover rs)"
proof (induction rs arbitrary: lo)
  case Nil
  then show ?case using nths_drop_take [of lo "length input" input] by (simp add: runs_cover_def)
next
  case (Cons r rs)
  have ok: "lo \<le> run_start r" "run_start r < run_end r" "runs_ok (run_end r) (length input) rs"
    using Cons.prems by auto
  have "{lo..<length input} - runs_cover (r # rs) =
      {lo..<run_start r} \<union> ({run_end r..<length input} - runs_cover rs)"
    using ok(1,2) runs_ok_cover [OF ok(3)] runs_ok_le_hi [OF ok(3)] by (auto simp: runs_cover_Cons)
  moreover have "nths input ({lo..<run_start r} \<union> ({run_end r..<length input} - runs_cover rs)) =
      nths input {lo..<run_start r} @ nths input ({run_end r..<length input} - runs_cover rs)"
    using ok by (intro nths_Un_split) auto
  ultimately show ?case using Cons.IH [OF ok(3)] nths_drop_take [OF ok(1), of input] by simp
qed

section \<open>The redacted output\<close>

definition leak_cover :: "(u8 list \<Rightarrow> digest) \<Rightarrow> SecretFingerprint list \<Rightarrow> u8 list \<Rightarrow> nat set" where
  "leak_cover sha ps input = {k. \<exists>off len. leak_at sha ps input off len \<and> off \<le> k \<and> k < off + len}"

definition redact_runs ::
    "(u8 list \<Rightarrow> digest) \<Rightarrow> (nat list \<Rightarrow> nat list) \<Rightarrow> u8 list \<Rightarrow> SecretFingerprint list \<Rightarrow> Run list" where
  "redact_runs sha order input ps = merge_runs (sort_key span_key (raw_spans sha order input ps))"

lemma sort_span_key_sorted: "sorted (map fst (sort_key span_key sps))"
proof -
  have "sorted (map span_key (sort_key span_key sps))" by simp
  then have "sorted_wrt (\<lambda>a b. span_key a \<le> span_key b) (sort_key span_key sps)"
    by (simp add: sorted_map)
  then have "sorted_wrt (\<lambda>a b. fst a \<le> fst b) (sort_key span_key sps)"
    by (rule sorted_wrt_mono_rel [rotated]) (auto simp: span_key_def less_eq_prod_def)
  then show ?thesis by (simp add: sorted_map)
qed

lemma leak_at_bounds: "leak_at sha ps input off len \<Longrightarrow> 0 < len \<and> off + len \<le> length input"
  by (auto simp: leak_at_def)

lemma redact_runs_inv:
  assumes "iteration_order order"
  shows "merge_inv (sort_key span_key (raw_spans sha order input ps)) (redact_runs sha order input ps)"
  unfolding redact_runs_def
  using raw_spans_set [OF assms, of sha input ps] leak_at_bounds
  by (intro merge_runs_inv sort_span_key_sorted) fastforce

lemma redact_runs_cover:
  assumes "iteration_order order"
  shows "runs_cover (redact_runs sha order input ps) = leak_cover sha ps input"
proof -
  have "runs_cover (redact_runs sha order input ps) = span_cover (raw_spans sha order input ps)"
    using redact_runs_inv [OF assms, of sha input ps] by (simp add: merge_inv_def span_cover_def)
  also have "\<dots> = leak_cover sha ps input"
    unfolding span_cover_def raw_spans_set [OF assms] leak_cover_def by force
  finally show ?thesis .
qed

lemma runs_ok_le: "runs_ok lo hi rs \<Longrightarrow> rs \<noteq> [] \<Longrightarrow> run_end (last rs) - 1 \<in> runs_cover rs \<and> 0 < run_end (last rs)"
  by (induction rs arbitrary: lo) (auto simp: runs_cover_def split: if_splits)

lemma redact_runs_ok:
  assumes "iteration_order order"
  shows "runs_ok 0 (length input) (redact_runs sha order input ps)"
proof (cases "redact_runs sha order input ps = []")
  case False
  let ?rs = "redact_runs sha order input ps"
  have ok: "runs_ok 0 (run_end (last ?rs)) ?rs"
    using redact_runs_inv [OF assms, of sha input ps] False by (simp add: merge_inv_def)
  have "run_end (last ?rs) - 1 \<in> leak_cover sha ps input"
    using runs_ok_le [OF ok False] redact_runs_cover [OF assms] by simp
  then have "run_end (last ?rs) \<le> length input"
    using leak_at_bounds by (fastforce simp: leak_cover_def)
  with ok show ?thesis by (rule runs_ok_mono)
qed simp

lemma redact_weave:
  "redact sha order input ps =
     \<lparr>ro_bytes = weave run_mark input 0 (redact_runs sha order input ps),
      ro_hits = concat (map run_hits (redact_runs sha order input ps))\<rparr>"
  using emit_runs_weave [of input "[]" "[]" 0 "redact_runs sha order input ps"]
  by (auto simp: redact_def redact_runs_def Let_def split: prod.splits)

lemma redact_hits_set:
  assumes "iteration_order order"
  shows "set (ro_hits (redact sha order input ps)) =
    {\<lparr>rh_sha256_hex = sha256_hex (sha (take len (drop off input))), rh_offset = off, rh_len = len\<rparr> | off len.
       leak_at sha ps input off len}"
proof -
  let ?h = "\<lambda>(off, len, d). \<lparr>rh_sha256_hex = sha256_hex d, rh_offset = off, rh_len = len\<rparr>"
  have "concat (map run_hits rs) = map ?h (concat (map run_spans rs))" for rs
    by (simp add: run_hits_def [abs_def] map_concat comp_def)
  then have eq: "set (ro_hits (redact sha order input ps)) = ?h ` set (raw_spans sha order input ps)"
    using redact_runs_inv [OF assms, of sha input ps] by (simp add: redact_weave merge_inv_def)
  have "?h ` set (raw_spans sha order input ps) = {\<lparr>rh_sha256_hex = sha256_hex (sha (take len (drop off input))), rh_offset = off, rh_len = len\<rparr> | off len.
       leak_at sha ps input off len}" unfolding raw_spans_set [OF assms] by force
  with eq show ?thesis by simp
qed

lemma redact_erased:
  assumes "iteration_order order"
  shows "weave (\<lambda>_. []) input 0 (redact_runs sha order input ps) =
    nths input ({0..<length input} - leak_cover sha ps input)"
  using weave_erase [OF redact_runs_ok [OF assms]] redact_runs_cover [OF assms] by simp

end
