(* ===== verification/Egress_Spec.thy ===== *)
theory Egress_Spec
  imports Egress_Proxy Leak_Redact
begin

text \<open>
  The properties of the egress boundary: what the proxy dials, what it relays and reports, and the
  contracts of its parts. The concrete library and environment of the first section are the inputs at
  which the properties with hypotheses are instantiated.
\<close>

section \<open>A concrete connection\<close>

definition demo_lib :: Lib where
  "demo_lib = \<lparr>lib_lower = to_ascii_lowercase, lib_dbg = (\<lambda>s. s), lib_sha = (\<lambda>bs. bs), lib_order = (\<lambda>ls. ls),
     lib_hashes_json = (\<lambda>s. Some \<lparr>hf_version = 1, hf_secrets = []\<rparr>)\<rparr>"

definition demo_request :: rstr where
  "demo_request = build_connect_request ''api.example.com'' 443"

definition demo_allow :: HostAllowlist where
  "demo_allow = from_endpoints to_ascii_lowercase [''api.example.com:443'']"

definition demo_env :: "(unit, unit) ConnEnv" where
  "demo_env = \<lparr>env_client = Some demo_request,
     env_resolve = (\<lambda>h p. Ok [V4 (Ipv4 127 0 0 1), V4 (Ipv4 93 184 216 34)]),
     env_connect = (\<lambda>i p. None), env_write_200 = True, env_peek = Some 0x16, env_runtime = None,
     env_client_setup = None, env_hashes = None, env_issue = (\<lambda>h. Ok ()), env_build = (\<lambda>l. Ok ()),
     env_accept = (\<lambda>c. None), env_dial_origin = (\<lambda>i p. None), env_server_name = (\<lambda>h. Ok (DnsName h)),
     env_handshake = (\<lambda>n. None), env_copy = None, env_relay = []\<rparr>"

definition demo_mitm :: "unit MitmCtx" where
  "demo_mitm = \<lparr>mitm_leaf_cache = \<lparr>leaf_map = []\<rparr>, mitm_secret_hashes_path = True, mitm_disable = False\<rparr>"


lemma demo_dials:
  "Dialled (V4 (Ipv4 93 184 216 34)) 443 \<in> set (snd (handle_conn demo_lib demo_env ''w'' demo_allow demo_mitm))"
  by code_simp

section \<open>What the proxy dials\<close>

text \<open>C2. Every address the proxy dials, for the reachability probe or for the intercepted session, belongs to
  the endpoint of the request line: that endpoint is on the allowlist, port included, and either it is an
  address literal the operator listed, or it is a name and the address is one of its resolved addresses
  and outside every denied range.\<close>

theorem proxy_dials_vetted:
  assumes "handle_conn lib env worker allow mitm = (m, evs)" and "Dialled ip port \<in> set evs"
  shows "\<exists>line host. read_request_line (env_client env) = Some line \<and> parse_connect line = Ok (host, port) \<and>
    is_allowed_endpoint (lib_lower lib) allow host port \<and>
    (parse_ip host = Some ip \<or>
     parse_ip host = None \<and> \<not> is_denied_range ip \<and>
     (\<exists>ips. env_resolve env host port = Ok ips \<and> ip \<in> set ips))"
  using handle_conn_dials [OF assms] decide_Dial_safe by blast

theorem proxy_dials_vetted_witness:
  "\<exists>line host. read_request_line (env_client demo_env) = Some line \<and> parse_connect line = Ok (host, 443) \<and>
    is_allowed_endpoint (lib_lower demo_lib) demo_allow host 443 \<and>
    (parse_ip host = Some (V4 (Ipv4 93 184 216 34)) \<or>
     parse_ip host = None \<and> \<not> is_denied_range (V4 (Ipv4 93 184 216 34)) \<and>
     (\<exists>ips. env_resolve demo_env host 443 = Ok ips \<and> V4 (Ipv4 93 184 216 34) \<in> set ips))"
  using proxy_dials_vetted [OF surjective_pairing demo_dials] .

text \<open>The IPv4 part of the SSRF filter is exactly the documented list of CIDR blocks: the tests on octets
  accept an address if and only if its number lies in one of the blocks.\<close>

theorem denied_v4_is_block_list:
  "is_denied_range (V4 ip) \<longleftrightarrow> list_ex (in_cidr (v4_number ip)) denied_v4_blocks"
  using is_denied_v4_number by simp

text \<open>An IPv4 address cannot be smuggled past the filter inside an IPv6 address: each of the six encodings
  the classifier knows (mapped, compatible, SIIT, both NAT64 prefixes, 6to4) is denied exactly when the
  address itself is.\<close>

theorem embedded_v4_denied_iff:
  "e \<in> set (v4_encodings ip [x1, x2, x3, x4, x5]) \<Longrightarrow> is_denied_range (V6 e) \<longleftrightarrow> is_denied_range (V4 ip)"
  using v4_encodings_denied_iff by simp

theorem embedded_v4_denied_iff_witness:
  "is_denied_range (V6 (Ipv6 0x2002 (seg 10 0) (seg 0 1) 0 0 0 0 0)) \<longleftrightarrow> is_denied_range (V4 (Ipv4 10 0 0 1))"
  by (rule embedded_v4_denied_iff [of _ _ 0 0 0 0 0]) simp

text \<open>What the proxy does with the allowlist, the literal test, the resolver and the filter, in one
  equation for each outcome: an endpoint off the allowlist is refused before any resolution, a literal
  is dialled as written, a name is refused when resolution fails, is empty, or yields only denied
  addresses, and otherwise the first address that is not denied is pinned.\<close>

theorem decide_outcomes:
  "decide lower resolve allow host port =
     (if \<not> is_allowed_endpoint lower allow host port
      then Block BlockedAllowlist (host @ '':'' @ show_nat (unat port) @ '' not on allowlist'')
      else case (parse_ip host, resolve host port) of
             (Some ip, _) \<Rightarrow> Dial ip
           | (None, Err e) \<Rightarrow> Block BlockedSsrf (''resolve failed: '' @ e)
           | (None, Ok []) \<Rightarrow> Block BlockedSsrf (host @ '' resolved to nothing'')
           | (None, Ok (ip # ips)) \<Rightarrow>
               (case filter (\<lambda>ip. \<not> is_denied_range ip) (ip # ips) of
                  [] \<Rightarrow> Block BlockedSsrf (host @ '' resolves only to denied ranges'')
                | pinned # _ \<Rightarrow> Dial pinned))"
proof -
  have find_filter: "find P xs = (case filter P xs of [] \<Rightarrow> None | x # _ \<Rightarrow> Some x)" for P :: "IpAddr \<Rightarrow> bool" and xs
    by (induction xs) auto
  show ?thesis
    by (auto simp: decide_def find_filter split: option.splits sum.splits list.splits)
qed

section \<open>What the proxy relays\<close>

text \<open>C3. On an intercepted connection with fingerprints loaded, whatever the interleaving of the two
  directions, the chunking of the reads and the failures of the writes, the bytes passed on in either
  direction never contain a span whose length, rolling hash and digest are those of a secret.\<close>

theorem proxy_relays_no_secret:
  assumes "iteration_order (lib_order lib)" and "handle_conn lib env worker allow mitm = (m, evs)"
    and "Relayed up down \<in> set evs"
  shows "\<exists>ps. load_patterns lib (mitm_secret_hashes_path mitm) (env_hashes env) = Ok ps \<and> ps \<noteq> [] \<and>
    \<not> leaks (lib_sha lib) ps up \<and> \<not> leaks (lib_sha lib) ps down"
proof -
  obtain ps req resp r where *: "load_patterns lib (mitm_secret_hashes_path mitm) (env_hashes env) = Ok ps" "ps \<noteq> []"
    "scan_relay (lib_sha lib) (lib_order lib) ps (env_relay env) = (req, resp, r)"
    "up = pump_written req" "down = pump_written resp"
    using handle_conn_relayed [OF assms(2,3)] by blast
  have "\<forall>p \<in> set ps. fp_len p < USIZE_MAX" using load_patterns_len [OF *(1)] by blast
  from scan_relay_clean [OF assms(1) this *(3)] * show ?thesis by blast
qed

definition demo_secret :: "u8 list" where
  "demo_secret = [1, 2, 3, 4, 5, 6, 7, 8]"

text \<open>A digest of 32 bytes in place of SHA-256.\<close>

definition demo_sha :: "u8 list \<Rightarrow> digest" where
  "demo_sha bs = take 32 (bs @ replicate 32 0)"

definition demo_fp :: SecretFingerprint where
  "demo_fp = \<lparr>fp_len = 8, fp64 = poly demo_secret, fp_sha256 = demo_sha demo_secret\<rparr>"

definition demo_lib_scan :: Lib where
  "demo_lib_scan = demo_lib\<lparr>lib_sha := demo_sha, lib_hashes_json := (\<lambda>s. Some (hashes_file [demo_fp]))\<rparr>"

text \<open>The secret split over two reads of the request direction.\<close>

definition demo_env_scan :: "(unit, unit) ConnEnv" where
  "demo_env_scan = demo_env\<lparr>env_hashes := Some ''{}'',
     env_relay := [(Request, ReadBytes [0, 1, 2, 3], WriteAll), (Response, ReadBytes [9, 9], WriteAll),
                   (Request, ReadBytes [4, 5, 6, 7, 8, 0], WriteAll)]\<rparr>"

lemma demo_relayed:
  "Relayed [0, 1, 2, 3] [9, 9] \<in> set (snd (handle_conn demo_lib_scan demo_env_scan ''w'' demo_allow demo_mitm))"
  by code_simp

theorem proxy_relays_no_secret_witness:
  "\<exists>ps. load_patterns demo_lib_scan (mitm_secret_hashes_path demo_mitm) (env_hashes demo_env_scan) = Ok ps \<and> ps \<noteq> [] \<and>
    \<not> leaks (lib_sha demo_lib_scan) ps [0, 1, 2, 3] \<and> \<not> leaks (lib_sha demo_lib_scan) ps [9, 9]"
proof (rule proxy_relays_no_secret [OF _ surjective_pairing demo_relayed])
  show "iteration_order (lib_order demo_lib_scan)"
    by (simp add: iteration_order_def demo_lib_scan_def demo_lib_def)
qed

text \<open>The relay is exact in both directions of the verdict: when it ends without a report, each side
  received everything the other sent and neither stream contains a secret; when it reports a leak, the
  stream of the reported direction does contain one.\<close>

theorem relay_verdict_exact:
  assumes "iteration_order order" and "\<forall>p \<in> set ps. fp_len p < USIZE_MAX"
    and "scan_relay sha order ps evs = (req, resp, Some (Ok out))"
  shows "case out of
     None \<Rightarrow> pump_written req = stream_of Request evs \<and> pump_written resp = stream_of Response evs \<and>
       \<not> leaks sha ps (stream_of Request evs) \<and> \<not> leaks sha ps (stream_of Response evs)
   | Some report \<Rightarrow> leaks sha ps (stream_of (lr_direction report) evs)"
proof -
  note ok = RollingMatcher_new_tracks [OF assms(1,2), of sha]
  have loop: "relay_loop (feed sha) (pump_start (RollingMatcher_new order ps)) (pump_start (RollingMatcher_new order ps)) evs
      = (req, resp, Some (Ok out))"
    using assms(3) by (simp add: scan_relay_def)
  have start: "pump_written (pump_start m) = []" "\<not> pump_done (pump_start m)" for m :: RollingMatcher
    by (simp_all add: pump_start_def)
  show ?thesis
  proof (cases out)
    case None
    then have "pump_written req = stream_of Request evs \<and> pump_written resp = stream_of Response evs"
      using rolling.relay_clean_end [of sha _ _ evs req resp] loop by (simp add: start)
    then show ?thesis using scan_relay_clean [OF assms] None by simp
  next
    case (Some report)
    have "bad = leaks sha ps \<Longrightarrow> bad (pump_written (pump_start (RollingMatcher_new order ps)) @
        (if pump_done (pump_start (RollingMatcher_new order ps)) then [] else stream_of (lr_direction report) evs))" for bad
      using rolling.relay_report_bad [OF ok ok, of evs req resp report, OF _ refl refl] loop Some
      by (cases "lr_direction report") simp_all
    then show ?thesis using Some by (simp add: start)
  qed
qed

theorem relay_verdict_exact_witness:
  "\<not> leaks demo_sha [demo_fp] [7, 7]"
proof -
  let ?evs = "[(Request, ReadBytes [7, 7], WriteAll), (Response, ReadBytes [], WriteAll), (Request, ReadBytes [], WriteAll)]"
  have run: "snd (snd (scan_relay demo_sha (\<lambda>ls. ls) [demo_fp] ?evs)) = Some (Ok None)" by code_simp
  obtain req resp where "scan_relay demo_sha (\<lambda>ls. ls) [demo_fp] ?evs = (req, resp, Some (Ok None))"
    using run by (metis surjective_pairing)
  from relay_verdict_exact [OF _ _ this] show ?thesis
    by (simp add: iteration_order_def demo_fp_def USIZE_MAX_def)
qed

section \<open>What the proxy reports\<close>

text \<open>A connection reports at least one decision and at most two; the first says whether the target was
  dialled: it is an allowing decision exactly when something was dialled.\<close>

theorem proxy_reports:
  assumes "handle_conn lib env worker allow mitm = (m, evs)"
  shows "1 \<le> length (reports evs) \<and> length (reports evs) \<le> 2 \<and>
    (d_verdict (hd (reports evs)) = Allowed \<longleftrightarrow> (\<exists>ip port. Dialled ip port \<in> set evs))"
proof (cases "\<exists>host port ip. serve_dial lib env worker allow mitm host port ip = (m, evs) \<and>
    decide (lib_lower lib) (env_resolve env) allow host port = Dial ip")
  case True
  then obtain host port ip where s: "serve_dial lib env worker allow mitm host port ip = (m, evs)" by blast
  obtain m' es where r: "run_mitm lib env ip port host mitm worker = (m', es)" by fastforce
  have "Dialled ip port \<in> set evs"
    using s r by (auto simp: serve_dial_def Let_def split: option.splits if_splits)
  moreover have "1 \<le> length (reports evs) \<and> length (reports evs) \<le> 2 \<and> d_verdict (hd (reports evs)) = Allowed"
    using s r reports_run_mitm [OF r]
    by (auto simp: serve_dial_def Let_def allowed_decision_def split: option.splits if_splits)
  ultimately show ?thesis by blast
next
  case False
  have dec: "\<exists>v r. decide lower resolve allow h p = Block v r \<and> v \<noteq> Allowed \<or> (\<exists>ip. decide lower resolve allow h p = Dial ip)"
    for lower resolve h p
    by (auto simp: decide_def split: option.splits sum.splits)
  have "\<exists>d. reports evs = [d] \<and> d_verdict d \<noteq> Allowed \<and> (\<forall>ip port. Dialled ip port \<notin> set evs)"
  proof (cases "read_request_line (env_client env)")
    case None
    then show ?thesis using assms by (auto simp: handle_conn_def blocked_def)
  next
    case (Some line)
    show ?thesis
    proof (cases "parse_connect line")
      case (Inl e)
      then show ?thesis using Some assms by (auto simp: handle_conn_def blocked_def)
    next
      case (Inr hp)
      obtain host port where hp: "hp = (host, port)" by (cases hp)
      have "\<exists>v r. decide (lib_lower lib) (env_resolve env) allow host port = Block v r \<and> v \<noteq> Allowed"
        using dec [of "lib_lower lib" "env_resolve env" host port] False assms Some Inr hp
        by (auto simp: handle_conn_def)
      then show ?thesis using Some Inr hp assms by (auto simp: handle_conn_def blocked_def)
    qed
  qed
  then show ?thesis by auto
qed

theorem proxy_reports_witness:
  "1 \<le> length (reports (snd (handle_conn demo_lib demo_env ''w'' demo_allow demo_mitm))) \<and>
   d_verdict (hd (reports (snd (handle_conn demo_lib demo_env ''w'' demo_allow demo_mitm)))) = Allowed"
  using proxy_reports [OF surjective_pairing, of demo_lib demo_env "''w''" demo_allow demo_mitm] demo_dials by blast

text \<open>Unless interception is switched off for the worker, a flow whose first byte is a TLS handshake is
  never tunnelled unseen.\<close>

theorem tls_never_tunnelled:
  assumes "handle_conn lib env worker allow mitm = (m, evs)" and "\<not> mitm_disable mitm" and "env_peek env = Some 0x16"
  shows "Tunnelled \<notin> set evs"
proof
  assume t: "Tunnelled \<in> set evs"
  then obtain host port ip where s: "serve_dial lib env worker allow mitm host port ip = (m, evs)"
    using assms(1) by (auto simp: handle_conn_def split: option.splits sum.splits prod.splits Target.splits)
  obtain m' es where r: "run_mitm lib env ip port host mitm worker = (m', es)" by fastforce
  have in_es: "Tunnelled \<in> set es"
    using t s r assms(2,3) by (auto simp: serve_dial_def Let_def looks_like_tls_def split: option.splits if_splits)
  have no_out: "Tunnelled \<notin> set (mitm_outcome worker host port ip res)" for res
    by (auto simp: mitm_outcome_def split: sum.splits option.splits prod.splits)
  have no_int: "Tunnelled \<notin> set xs" if "intercept lib env ip port host cache ps = (c, xs, out)" for cache ps c xs out
    using that by (cases rule: intercept_cases) auto
  from r show False
  proof (cases rule: run_mitm_cases)
    case (ran ps c es' out tl)
    then show ?thesis using in_es no_out no_int by auto
  qed (use in_es no_out in auto)
qed

theorem tls_never_tunnelled_witness:
  "Tunnelled \<notin> set (snd (handle_conn demo_lib demo_env ''w'' demo_allow demo_mitm))"
  by (rule tls_never_tunnelled [OF surjective_pairing]) (simp_all add: demo_mitm_def demo_env_def)

section \<open>The allowlist and the request line\<close>

text \<open>A request made by the workers' client is read back by the proxy as the same endpoint: for any plain
  host name, and for a bracketed IPv6 literal without its brackets, whatever the port.\<close>

theorem connect_request_round_trip:
  assumes "host_plain host" and "host \<noteq> []" and "CHR '']'' \<notin> set host" and "hd host \<noteq> CHR ''[''"
    and "length (build_connect_request (''['' @ host @ '']'') port) \<le> MAX_REQUEST_HEAD_BYTES"
  shows "map_option parse_connect (read_request_line (Some (build_connect_request host port))) = Some (Ok (host, port)) \<and>
    map_option parse_connect (read_request_line (Some (build_connect_request (''['' @ host @ '']'') port))) = Some (Ok (host, port))"
proof -
  have br: "host_plain (''['' @ host @ '']'')" using assms(1) by (simp add: host_plain_def is_ascii_def code_def)
  have len: "length (build_connect_request host port) \<le> MAX_REQUEST_HEAD_BYTES"
    using assms(5) by (simp add: build_connect_request_def)
  show ?thesis
    using request_round_trip [OF assms(1) len] request_round_trip [OF br assms(5)]
      split_authority_plain [OF assms(2,4), of port] split_authority_bracketed [OF assms(2,3), of port] by auto
qed

theorem connect_request_round_trip_witness:
  "map_option parse_connect (read_request_line (Some (build_connect_request ''[::1]'' 8080))) = Some (Ok (''::1'', 8080))"
proof -
  have "map_option parse_connect (read_request_line (Some (build_connect_request (''['' @ ''::1'' @ '']'') 8080))) = Some (Ok (''::1'', 8080))"
    by (rule conjunct2 [OF connect_request_round_trip]) code_simp+
  then show ?thesis by simp
qed

text \<open>A port-scoped entry grants exactly its endpoint: over a plain lower-case name the allowlist of the one
  entry \<open>name:port\<close> accepts a host and port if and only if the host, trimmed and lowercased, is the name and
  the port is the port.\<close>

theorem port_scoped_entry_exact:
  assumes "CHR '':'' \<notin> set name" and "name \<noteq> []" and "hd name \<notin> {CHR ''['', CHR ''.''}"
    and "trim (name @ '':'' @ show_nat (unat p)) = name @ '':'' @ show_nat (unat p)"
    and "trim name = name" and "lower name = name"
  shows "is_allowed_endpoint lower (from_endpoints lower [name @ '':'' @ show_nat (unat p)]) host port \<longleftrightarrow>
    lower (trim host) = name \<and> port = p"
proof -
  have sp: "split_host_port (name @ '':'' @ show_nat (unat p)) = (name, Some p)"
    using assms(1-4) by (intro split_host_port_plain) auto
  have "\<not> starts_with name ''.''" using assms(2,3) by (cases name) auto
  then have "parse_host lower name = Some (Exact name)"
    using assms(2,5,6) strip_prefix_None_iff [of name "''.''"] by (simp add: parse_host_def Let_def)
  then have "endpoint_rule lower (name @ '':'' @ show_nat (unat p)) = Some \<lparr>rule_matcher = Exact name, rule_port = Some p\<rparr>"
    unfolding endpoint_rule_def sp by simp
  then show ?thesis by (auto simp: is_allowed_endpoint_iff)
qed

theorem port_scoped_entry_exact_witness:
  "is_allowed_endpoint to_ascii_lowercase (from_endpoints to_ascii_lowercase [''api.example.com'' @ '':'' @ show_nat (unat (443 :: u16))])
     ''API.example.com '' 443 \<longleftrightarrow> to_ascii_lowercase (trim ''API.example.com '') = ''api.example.com'' \<and> (443 :: u16) = 443"
  by (rule port_scoped_entry_exact) code_simp+

text \<open>Outside brackets a malformed port never widens a grant: when what follows the last colon of an
  entry is not a port number, the entry grants no host without a colon.\<close>

theorem malformed_port_grants_nothing:
  assumes "\<not> starts_with (trim entry) ''[''" and "rsplit_once CHR '':'' (trim entry) = Some (h, bad)" and "parse_port bad = None"
    and lower_colon: "\<And>s. CHR '':'' \<in> set (lower s) \<longleftrightarrow> CHR '':'' \<in> set s" and "CHR '':'' \<notin> set host"
  shows "\<not> is_allowed_endpoint lower (from_endpoints lower [entry]) host port"
proof -
  have sp: "split_host_port entry = (trim entry, None)"
    using assms(1-3) strip_prefix_None_iff [of "trim entry" "''[''"]
    by (auto simp: split_host_port_def Let_def split_tail_port_def)
  have "CHR '':'' \<in> set (trim entry)" using assms(2) by (auto simp: rsplit_once_Some)
  then have colon: "CHR '':'' \<in> set (lower (trim (trim entry)))"
    unfolding lower_colon by (rule trim_keeps) (simp add: ws_seqs_def)
  have "CHR '':'' \<notin> set (lower (trim host))"
    unfolding lower_colon using trim_sub [of host] assms(5) by (metis Un_iff set_append)
  moreover have "CHR '':'' \<in> set x" if "host_matches m x" "parse_host lower (trim entry) = Some m" for m x
    using that colon by (auto simp: parse_host_def Let_def ends_with_iff strip_prefix_Some_iff split: if_splits option.splits)
  ultimately show ?thesis by (auto simp: is_allowed_endpoint_iff endpoint_rule_def sp)
qed

theorem malformed_port_grants_nothing_witness:
  "\<not> is_allowed_endpoint to_ascii_lowercase (from_endpoints to_ascii_lowercase [''api.example.com:99999'']) ''api.example.com'' 443"
proof (rule malformed_port_grants_nothing [of _ "''api.example.com''" "''99999''"])
  show "CHR '':'' \<in> set (to_ascii_lowercase s) \<longleftrightarrow> CHR '':'' \<in> set s" for s
    by (rule to_ascii_lowercase_mem) code_simp+
qed code_simp+

text \<open>Inside brackets it does: an IPv6 entry with an unusable port, such as \<^verbatim>\<open>[::1]:99999\<close>, becomes a
  port-unconstrained grant of the address.\<close>

theorem bracketed_malformed_port_widens:
  "is_allowed_endpoint to_ascii_lowercase (from_endpoints to_ascii_lowercase [''[::1]:99999'']) ''::1'' port"
proof -
  have "from_endpoints to_ascii_lowercase [''[::1]:99999''] = \<lparr>rules = [\<lparr>rule_matcher = Exact ''::1'', rule_port = None\<rparr>]\<rparr>"
    by code_simp
  moreover have "to_ascii_lowercase (trim ''::1'') = ''::1''" by code_simp
  ultimately show ?thesis by (simp add: is_allowed_endpoint_def)
qed

section \<open>Pins and leaves\<close>

text \<open>Pinning only strengthens validation: a chain the verifier accepts passed webpki, and when the host has
  pins, a validated path carries a pinned key in its leaf, one of its intermediates or its anchor.\<close>

theorem pinning_strengthens:
  assumes "verify_server_cert sha spki webpki leaf_ok paths pins ee ints name = Ok ()"
  shows "webpki ee ints name = None \<and>
    (case pins_for pins (server_name_host name) of
       None \<Rightarrow> True
     | Some hashes \<Rightarrow> \<exists>path \<in> set (paths ee ints).
         spki_pinned sha spki hashes ee \<or> (\<exists>c \<in> set (path_intermediates path). spki_pinned sha spki hashes c) \<or>
         sha (der_sequence (path_anchor_spki path)) \<in> set hashes)"
  using assms
  by (auto simp: verify_server_cert_def verified_path_has_pin_def anchor_spki_sha256_def list_ex_iff
      split: option.splits if_splits)

definition demo_pins :: PinSet where
  "demo_pins = \<lparr>pin_map = [(''a.example'', [[7]])]\<rparr>"

theorem pinning_strengthens_witness:
  "\<exists>path \<in> set [\<lparr>path_intermediates = [], path_anchor_spki = [5]\<rparr>].
     spki_pinned (\<lambda>b. b) Ok [[7]] \<lparr>cert_der = [7]\<rparr> \<or>
     (\<exists>c \<in> set (path_intermediates path). spki_pinned (\<lambda>b. b) Ok [[7]] c) \<or>
     der_sequence (path_anchor_spki path) \<in> set [[7]]"
proof -
  have "verify_server_cert (\<lambda>b. b) Ok (\<lambda>_ _ _. None) (\<lambda>_. True) (\<lambda>_ _. [\<lparr>path_intermediates = [], path_anchor_spki = [5]\<rparr>])
      demo_pins \<lparr>cert_der = [7]\<rparr> [] (DnsName ''A.example'') = Ok ()" by code_simp
  note p = pinning_strengthens [OF this]
  have "pins_for demo_pins (server_name_host (DnsName ''A.example'')) = Some [[7]]" by code_simp
  with p show ?thesis by simp
qed

lemma handle_conn_cache:
  assumes "leaf_cache_ok (mitm_leaf_cache mitm)" and "handle_conn lib env worker allow mitm = (m, evs)"
  shows "leaf_cache_ok (mitm_leaf_cache m)"
proof -
  have legs: "leaf_cache_ok c'" if "intercept_legs lib env ip port host (mitm_leaf_cache mitm) = (c', es, r)" for ip port host c' es r
  proof -
    obtain c1 r1 where g: "get_or_issue (env_issue env) (env_build env) (mitm_leaf_cache mitm) host = (c1, r1)" by fastforce
    have "c' = c1" using that g by (auto simp: intercept_legs_def split: sum.splits option.splits)
    then show ?thesis using get_or_issue_ok(1) [OF assms(1) g] by simp
  qed
  have int: "leaf_cache_ok c" if "intercept lib env ip port host (mitm_leaf_cache mitm) ps = (c, es, out)" for ip port host ps c es out
  proof -
    obtain c' es' r where l: "intercept_legs lib env ip port host (mitm_leaf_cache mitm) = (c', es', r)" by (metis prod_cases3)
    have "c = c'" using that l by (auto simp: intercept_def split: sum.splits if_splits prod.splits)
    then show ?thesis using legs [OF l] by simp
  qed
  have run: "leaf_cache_ok (mitm_leaf_cache m')" if "run_mitm lib env ip port host mitm worker = (m', es)" for ip port host m' es
    using that assms(1) int by (auto simp: run_mitm_def split: option.splits sum.splits prod.splits)
  have "leaf_cache_ok (mitm_leaf_cache m')" if "serve_dial lib env worker allow mitm host port ip = (m', es)" for host port ip m' es
    using that assms(1) run by (auto simp: serve_dial_def Let_def split: option.splits if_splits prod.splits)
  then show ?thesis
    using assms by (auto simp: handle_conn_def split: option.splits sum.splits prod.splits Target.splits)
qed

text \<open>Serving any number of connections keeps the leaf cache within its bound, one entry per host.\<close>

theorem leaf_cache_bounded:
  assumes "leaf_cache_ok (mitm_leaf_cache mitm)"
  shows "leaf_cache_ok (mitm_leaf_cache (fst (serve_all lib worker allow envs mitm)))"
  using assms
proof (induction envs arbitrary: mitm)
  case (Cons env envs)
  obtain m evs where h: "handle_conn lib env worker allow mitm = (m, evs)" by fastforce
  show ?case using Cons.IH [OF handle_conn_cache [OF Cons.prems h]] handle_conn_cache [OF Cons.prems h] h
    by (auto split: prod.splits)
qed simp

theorem leaf_cache_bounded_witness:
  "leaf_cache_ok (mitm_leaf_cache (fst (serve_all demo_lib ''w'' demo_allow [demo_env, demo_env_scan] demo_mitm)))"
  by (rule leaf_cache_bounded) (simp add: leaf_cache_ok_def demo_mitm_def)

section \<open>The scanner library\<close>

text \<open>C21. The streaming matcher agrees with the definition of a leak: fed a stream in one piece, a fresh matcher
  stays silent exactly when no span of the stream is a secret, and a hit names the place where the first
  one ends.\<close>

theorem matcher_exact:
  assumes "iteration_order order" and "\<forall>p \<in> set ps. fp_len p < USIZE_MAX"
    and "feed sha (RollingMatcher_new order ps) bs = (m, r)"
  shows "(r = None \<longleftrightarrow> \<not> leaks sha ps bs) \<and>
    (\<forall>h. r = Some h \<longrightarrow> (\<exists>k < length bs. hit_for sha ps (take (Suc k) bs) h \<and> \<not> leaks sha ps (take k bs)))"
proof -
  have inv: "rm_inv ps (RollingMatcher_new order ps) []" by (rule RollingMatcher_new_inv [OF assms(1,2)])
  have clean: "\<not> leaks sha ps []" by (auto simp: leaks_def leak_at_def)
  show ?thesis using feed_None_iff(1,3) [OF inv clean assms(3)] by simp
qed

theorem matcher_exact_witness:
  "leaks demo_sha [demo_fp] [0, 1, 2, 3, 4, 5, 6, 7, 8, 9]"
proof -
  have "snd (feed demo_sha (RollingMatcher_new (\<lambda>ls. ls) [demo_fp]) [0, 1, 2, 3, 4, 5, 6, 7, 8, 9]) \<noteq> None" by code_simp
  moreover have "\<forall>p \<in> set [demo_fp]. fp_len p < USIZE_MAX" by (simp add: demo_fp_def USIZE_MAX_def)
  ultimately show ?thesis
    using matcher_exact [OF _ _ surjective_pairing, of "\<lambda>ls. ls" "[demo_fp]" demo_sha "[0, 1, 2, 3, 4, 5, 6, 7, 8, 9]"]
    by (simp add: iteration_order_def)
qed

text \<open>C24. Redaction replaces exactly the secrets: its hits are all the spans that are secrets and no other, the
  output is the input with one marker per merged run of hits, and removing the markers leaves exactly
  the bytes no secret covers, in order.\<close>

theorem redact_exact:
  assumes "iteration_order order"
  shows "set (ro_hits (redact sha order input ps)) =
      {\<lparr>rh_sha256_hex = sha256_hex (sha (take len (drop off input))), rh_offset = off, rh_len = len\<rparr> | off len.
         leak_at sha ps input off len} \<and>
    (\<exists>runs. ro_bytes (redact sha order input ps) = weave run_mark input 0 runs \<and>
       runs_ok 0 (length input) runs \<and> runs_cover runs = leak_cover sha ps input \<and>
       weave (\<lambda>_. []) input 0 runs = nths input ({0..<length input} - leak_cover sha ps input))"
proof (intro conjI exI)
  show "ro_bytes (redact sha order input ps) = weave run_mark input 0 (redact_runs sha order input ps)"
    by (simp add: redact_weave)
qed (rule redact_hits_set [OF assms] redact_runs_ok [OF assms] redact_runs_cover [OF assms] redact_erased [OF assms])+

theorem redact_exact_witness:
  "(\<exists>runs. ro_bytes (redact demo_sha (\<lambda>ls. ls) [0, 1, 2, 3, 4, 5, 6, 7, 8, 9] [demo_fp]) =
     weave run_mark [0, 1, 2, 3, 4, 5, 6, 7, 8, 9] 0 runs) \<and>
   map rh_offset (ro_hits (redact demo_sha (\<lambda>ls. ls) [0, 1, 2, 3, 4, 5, 6, 7, 8, 9] [demo_fp])) = [1]"
proof
  show "\<exists>runs. ro_bytes (redact demo_sha (\<lambda>ls. ls) [0, 1, 2, 3, 4, 5, 6, 7, 8, 9] [demo_fp]) =
     weave run_mark [0, 1, 2, 3, 4, 5, 6, 7, 8, 9] 0 runs"
    using redact_exact [of "\<lambda>ls. ls" demo_sha "[0, 1, 2, 3, 4, 5, 6, 7, 8, 9]" "[demo_fp]"]
    by (auto simp: iteration_order_def)
qed code_simp

text \<open>The provisioning file carries fingerprints faithfully: when the JSON layer reads back the file it
  wrote, parsing a serialized list of valid fingerprints returns that list.\<close>

theorem hashes_round_trip:
  assumes "from_json (to_json (hashes_file fps)) = Some (hashes_file fps)" and "list_all fp_valid fps"
  shows "parse_hashes from_json (serialize_hashes to_json fps) = Ok fps"
  using assms decode_all_wire_of [OF assms(2)] by (simp add: parse_hashes_def serialize_hashes_def hashes_file_def)

theorem hashes_round_trip_witness:
  "parse_hashes (\<lambda>s. Some (hashes_file [demo_fp])) (serialize_hashes (\<lambda>f. ''{}'') [demo_fp]) = Ok [demo_fp]"
  by (rule hashes_round_trip) (simp_all add: fp_valid_def demo_fp_def MIN_SECRET_LEN_def MAX_SECRET_LEN_def demo_sha_def)

text \<open>A digest of 64 bytes whose second character is not ASCII makes the parser slice inside a character
  and panic, although a malformed entry is meant to be skipped.\<close>

theorem parse_hashes_can_panic:
  "parse_hashes (\<lambda>s. Some \<lparr>hf_version = 1, hf_secrets = [\<lparr>wire_len = 8, wire_fp64 = ''0'',
      wire_sha256 = [CHR ''0'', CHR 0xC3, CHR 0xA9] @ replicate 61 (CHR ''0'')\<rparr>]\<rparr>) text = Err SliceNotCharBoundary"
proof -
  have "decode_one \<lparr>wire_len = 8, wire_fp64 = ''0'', wire_sha256 = [CHR ''0'', CHR 0xC3, CHR 0xA9] @ replicate 61 (CHR ''0'')\<rparr>
      = Err SliceNotCharBoundary" by code_simp
  then show ?thesis by (simp add: parse_hashes_def WIRE_VERSION_def)
qed

end
