(* ===== verification/Plan_Types.thy ===== *)
theory Plan_Types
  imports Prelude
begin

text \<open>
  The plan data of \<^verbatim>\<open>core/src/cassandra/types.rs\<close>: data classes with their total order, plans and
  their steps, the methods of \<^verbatim>\<open>impl Plan\<close>, and reviewer verdicts. \<open>DataClass\<close> is made a
  linear order by its rank, so that the library's lemmas on \<open>\<le>\<close>, \<open>max\<close> and sorting apply to it.
\<close>

section \<open>Data classes\<close>

datatype DataClass = Public | Personal | ClinicalConfidential | Secret

fun rank :: "DataClass \<Rightarrow> nat" where
  "rank Public = 0"
| "rank Personal = 1"
| "rank ClinicalConfidential = 2"
| "rank Secret = 3"

fun as_pascal_str :: "DataClass \<Rightarrow> rstr" where
  "as_pascal_str Public = ''Public''"
| "as_pascal_str Personal = ''Personal''"
| "as_pascal_str ClinicalConfidential = ''ClinicalConfidential''"
| "as_pascal_str Secret = ''Secret''"

lemma rank_inject [simp]: "rank a = rank b \<longleftrightarrow> a = b"
  by (cases a; cases b) simp_all

lemma rank_le_3: "rank c \<le> 3"
  by (cases c) simp_all

lemma as_pascal_str_inject [simp]: "as_pascal_str a = as_pascal_str b \<longleftrightarrow> a = b"
  by (cases a; cases b) simp_all

instantiation DataClass :: linorder
begin

definition less_eq_DataClass :: "DataClass \<Rightarrow> DataClass \<Rightarrow> bool" where
  "less_eq_DataClass a b \<longleftrightarrow> rank a \<le> rank b"

definition less_DataClass :: "DataClass \<Rightarrow> DataClass \<Rightarrow> bool" where
  "less_DataClass a b \<longleftrightarrow> rank a < rank b"

instance
  by standard (auto simp: less_eq_DataClass_def less_DataClass_def)

end

lemmas DataClass_order = less_eq_DataClass_def less_DataClass_def

lemma Public_least [simp]: "Public \<le> c"
  by (simp add: less_eq_DataClass_def)

lemma Secret_greatest [simp]: "c \<le> Secret"
  by (cases c) (simp_all add: less_eq_DataClass_def)

datatype Severity = Low | Medium | High

section \<open>Plans\<close>

definition DECISION_TERMINAL :: rstr where
  "DECISION_TERMINAL = ''task_complete''"

record PlannedStep =
  step_tool :: rstr
  step_method :: rstr
  step_parameters :: json
  step_returns :: rstr
  step_done_when :: rstr
  step_classification :: DataClass

record RefusedReason =
  refused_principle :: u8
  refused_reason :: rstr

record L3Param =
  l3_param_name :: rstr
  l3_param_description :: rstr

record L3TemplateStep =
  l3_step_tool :: rstr
  l3_step_method :: rstr
  l3_step_parameters :: json

record L3SkillCandidate =
  l3_name :: rstr
  l3_description :: rstr
  l3_parameters :: "L3Param list"
  l3_steps :: "L3TemplateStep list"

record PythonSkillCandidate =
  py_name :: rstr
  py_description :: rstr
  py_code :: rstr

record InvokeDirective =
  invoke_name :: rstr
  invoke_args :: "(rstr \<times> rstr) list"
  invoke_params :: json

datatype MalformedInvoke = HasSteps | Terminal | HasL3Skill

record Plan =
  plan_context :: rstr
  plan_decision :: rstr
  plan_rationale :: rstr
  plan_steps :: "PlannedStep list"
  plan_result :: "json option"
  plan_data_ceiling :: "DataClass option"
  plan_refused :: "RefusedReason option"
  plan_floor_request :: "DataClass option"
  plan_l1_insight :: "rstr option"
  plan_l3_skill :: "L3SkillCandidate option"
  plan_invoke_skill :: "InvokeDirective option"
  plan_python_skill :: "PythonSkillCandidate option"

definition is_terminal :: "Plan \<Rightarrow> bool" where
  "is_terminal p \<longleftrightarrow>
     plan_decision p = DECISION_TERMINAL \<and> plan_steps p = [] \<and> plan_result p \<noteq> None"

definition is_refused :: "Plan \<Rightarrow> bool" where
  "is_refused p \<longleftrightarrow> plan_refused p \<noteq> None"

definition completion_insight :: "Plan \<Rightarrow> rstr option" where
  "completion_insight p = (if is_terminal p then plan_l1_insight p else None)"

definition completion_skill :: "Plan \<Rightarrow> L3SkillCandidate option" where
  "completion_skill p = (if is_terminal p then plan_l3_skill p else None)"

definition completion_python_skill :: "Plan \<Rightarrow> PythonSkillCandidate option" where
  "completion_python_skill p = (if is_terminal p then plan_python_skill p else None)"

text \<open>\<^verbatim>\<open>validate_invoke\<close> panics (\<^verbatim>\<open>expect\<close>) when the plan carries no directive: the outer
  \<open>None\<close>. Its callers branch on the presence of the directive first.\<close>

definition validate_invoke :: "Plan \<Rightarrow> (MalformedInvoke + InvokeDirective) option" where
  "validate_invoke p =
     (case plan_invoke_skill p of
        None \<Rightarrow> None
      | Some dir \<Rightarrow>
          Some (if plan_steps p \<noteq> [] then Err HasSteps
                else if plan_decision p = DECISION_TERMINAL then Err Terminal
                else if plan_l3_skill p \<noteq> None then Err HasL3Skill
                else Ok dir))"

lemma validate_invoke_no_panic: "plan_invoke_skill p \<noteq> None \<longleftrightarrow> validate_invoke p \<noteq> None"
  by (auto simp: validate_invoke_def split: option.splits)

lemma validate_invoke_OkD:
  "validate_invoke p = Some (Ok d) \<Longrightarrow>
     plan_invoke_skill p = Some d \<and> plan_steps p = [] \<and> \<not> is_terminal p \<and> plan_l3_skill p = None"
  by (auto simp: validate_invoke_def is_terminal_def split: option.splits if_splits)

section \<open>Verdicts\<close>

datatype Verdict =
    Approve
  | Advisory rstr
  | Escalate rstr Severity
  | Block rstr
  | ConstitutionalBlock u8 rstr

end
