(* ===== verification/Data_Policy.thy ===== *)
theory Data_Policy
  imports Plan_Types
begin

text \<open>
  CASSANDRA's deterministic stage and the review chain: \<^verbatim>\<open>core/src/cassandra/data_ceiling.rs\<close>,
  \<^verbatim>\<open>deterministic.rs\<close> and \<^verbatim>\<open>review.rs\<close>. A plan's data ceiling is resolved against the task's
  classification floor, the resolved plan is screened against the invariants I0 to I3, and a
  chain of stages gives the verdict of its first stage that does not approve.
\<close>

section \<open>Resolving the ceiling\<close>

datatype DataCeilingSource = Declared | FloorResolved

fun ceiling_source_str :: "DataCeilingSource \<Rightarrow> rstr" where
  "ceiling_source_str Declared = ''declared''"
| "ceiling_source_str FloorResolved = ''floor_resolved''"

record ResolvedCeiling =
  rc_ceiling :: DataClass
  rc_source :: DataCeilingSource

fun resolve_data_ceiling :: "DataClass option \<Rightarrow> DataClass \<Rightarrow> ResolvedCeiling" where
  "resolve_data_ceiling (Some c) floor = \<lparr>rc_ceiling = c, rc_source = Declared\<rparr>"
| "resolve_data_ceiling None floor = \<lparr>rc_ceiling = floor, rc_source = FloorResolved\<rparr>"

section \<open>The classification screen\<close>

datatype ClassificationViolation =
    CeilingUnresolved
  | CeilingBelowFloor DataClass DataClass
  | StepClassificationBelowFloor nat DataClass DataClass
  | StepClassificationAboveCeiling nat DataClass DataClass

fun reason_tag :: "ClassificationViolation \<Rightarrow> rstr" where
  "reason_tag (CeilingBelowFloor _ _) = ''ceiling_below_floor''"
| "reason_tag (StepClassificationBelowFloor _ _ _) = ''step_classification_below_floor''"
| "reason_tag (StepClassificationAboveCeiling _ _ _) = ''step_classification_above_ceiling''"
| "reason_tag CeilingUnresolved = ''ceiling_unresolved''"

text \<open>The em dash of the message texts, in UTF-8.\<close>

definition em_dash :: rstr where
  "em_dash = [CHR 0xE2, CHR 0x80, CHR 0x94]"

fun format_reason :: "ClassificationViolation \<Rightarrow> rstr" where
  "format_reason (CeilingBelowFloor ceiling floor) =
     ''data-classification: '' @ reason_tag (CeilingBelowFloor ceiling floor) @ '' '' @ em_dash
     @ '' plan.data_ceiling='' @ as_pascal_str ceiling
     @ '' is below task.classification_floor='' @ as_pascal_str floor"
| "format_reason (StepClassificationBelowFloor i cls floor) =
     ''data-classification: '' @ reason_tag (StepClassificationBelowFloor i cls floor) @ '' '' @ em_dash
     @ '' step '' @ show_nat i @ '' classified as '' @ as_pascal_str cls
     @ '' but task.classification_floor='' @ as_pascal_str floor"
| "format_reason (StepClassificationAboveCeiling i cls ceiling) =
     ''data-classification: '' @ reason_tag (StepClassificationAboveCeiling i cls ceiling) @ '' '' @ em_dash
     @ '' step '' @ show_nat i @ '' classified as '' @ as_pascal_str cls
     @ '' but plan.data_ceiling='' @ as_pascal_str ceiling"
| "format_reason CeilingUnresolved =
     ''data-classification: '' @ reason_tag CeilingUnresolved @ '' '' @ em_dash
     @ '' plan.data_ceiling was never resolved against task.classification_floor; this is a daemon wiring defect, not a bad plan''"

definition screen_plan_for_classification_violations ::
    "Plan \<Rightarrow> DataClass \<Rightarrow> ClassificationViolation option" where
  "screen_plan_for_classification_violations plan floor =
     (case plan_data_ceiling plan of
        None \<Rightarrow> Some CeilingUnresolved
      | Some ceiling \<Rightarrow>
          (if rank ceiling < rank floor then Some (CeilingBelowFloor ceiling floor)
           else case first_index_from 0 (\<lambda>s. rank (step_classification s) < rank floor) (plan_steps plan) of
             Some (i, s) \<Rightarrow> Some (StepClassificationBelowFloor i (step_classification s) floor)
           | None \<Rightarrow>
               (case first_index_from 0 (\<lambda>s. rank (step_classification s) > rank ceiling) (plan_steps plan) of
                  Some (i, s) \<Rightarrow> Some (StepClassificationAboveCeiling i (step_classification s) ceiling)
                | None \<Rightarrow> None)))"

section \<open>Review stages\<close>

record ReviewStageContext =
  rv_task_id :: int
  rv_instruction :: rstr
  rv_classification_floor :: DataClass
  rv_plan_count :: nat

text \<open>\<^verbatim>\<open>trait ReviewStage\<close>: a name and a review. The reviews of the sources suspend (\<^verbatim>\<open>async\<close>) but
  read only their arguments.\<close>

record ReviewStage =
  stage_name :: rstr
  stage_review :: "Plan \<Rightarrow> ReviewStageContext \<Rightarrow> Verdict"

fun chain_review :: "ReviewStage list \<Rightarrow> Plan \<Rightarrow> ReviewStageContext \<Rightarrow> Verdict" where
  "chain_review [] plan ctx = Approve"
| "chain_review (stage # stages) plan ctx =
     (let v = stage_review stage plan ctx in if v \<noteq> Approve then v else chain_review stages plan ctx)"

definition ChainReviewStage :: "ReviewStage list \<Rightarrow> ReviewStage" where
  "ChainReviewStage stages = \<lparr>stage_name = ''chain'', stage_review = chain_review stages\<rparr>"

definition DeterministicPolicy :: ReviewStage where
  "DeterministicPolicy =
     \<lparr>stage_name = ''stage-0'',
      stage_review = (\<lambda>plan ctx.
        case screen_plan_for_classification_violations plan (rv_classification_floor ctx) of
          Some violation \<Rightarrow> Block (format_reason violation)
        | None \<Rightarrow> Approve)\<rparr>"

definition NoopReviewStage :: ReviewStage where
  "NoopReviewStage = \<lparr>stage_name = ''noop'', stage_review = (\<lambda>_ _. Approve)\<rparr>"

section \<open>What the screen decides\<close>

text \<open>The declarative reading of I0 to I3.\<close>

definition classified_ok :: "Plan \<Rightarrow> DataClass \<Rightarrow> bool" where
  "classified_ok plan floor \<longleftrightarrow>
     (\<exists>c. plan_data_ceiling plan = Some c \<and> floor \<le> c \<and>
          (\<forall>s \<in> set (plan_steps plan). floor \<le> step_classification s \<and> step_classification s \<le> c))"

lemma screen_None_iff:
  "screen_plan_for_classification_violations plan floor = None \<longleftrightarrow> classified_ok plan floor"
  by (cases "plan_data_ceiling plan";
      auto simp: screen_plan_for_classification_violations_def classified_ok_def
        DataClass_order first_index_from_None not_less split: option.splits
        dest!: first_index_from_in; meson leD)

lemma DeterministicPolicy_verdict:
  "stage_review DeterministicPolicy plan ctx =
     (case screen_plan_for_classification_violations plan (rv_classification_floor ctx) of
        Some v \<Rightarrow> Block (format_reason v) | None \<Rightarrow> Approve)"
  by (simp add: DeterministicPolicy_def)

lemma chain_review_Approve_iff:
  "chain_review stages plan ctx = Approve \<longleftrightarrow>
     (\<forall>st \<in> set stages. stage_review st plan ctx = Approve)"
  by (induction stages) (auto simp: Let_def)

lemma chain_review_first:
  "chain_review stages plan ctx = v \<Longrightarrow> v \<noteq> Approve \<Longrightarrow>
     \<exists>pre st post. stages = pre @ st # post \<and> stage_review st plan ctx = v \<and>
       (\<forall>s \<in> set pre. stage_review s plan ctx = Approve)"
proof (induction stages)
  case Nil
  then show ?case by simp
next
  case (Cons st stages)
  show ?case
  proof (cases "stage_review st plan ctx = Approve")
    case True
    with Cons obtain pre st' post where
      "stages = pre @ st' # post" "stage_review st' plan ctx = v"
      "\<forall>s \<in> set pre. stage_review s plan ctx = Approve"
      by auto
    with True show ?thesis
      by (intro exI [of _ "st # pre"] exI [of _ st'] exI [of _ post]) simp
  next
    case False
    with Cons.prems show ?thesis
      by (intro exI [of _ "[]"] exI [of _ st] exI [of _ stages]) (simp add: Let_def)
  qed
qed

lemma chain_review_append:
  "chain_review (as @ bs) plan ctx =
     (if chain_review as plan ctx = Approve then chain_review bs plan ctx else chain_review as plan ctx)"
  by (induction as) (auto simp: Let_def)

end
