(* ===== verification/Constitutional.thy ===== *)
theory Constitutional
  imports Data_Policy
begin

text \<open>
  Stage -1, \<^verbatim>\<open>core/src/cassandra/constitutional.rs\<close>: the prompt screen for unambiguous violations of
  the five principles, in the source's order, and the \<open>ConstitutionalGuard\<close> of
  \<^verbatim>\<open>review.rs\<close> built on it. The source lowers the instruction with \<^verbatim>\<open>str::to_lowercase\<close>, whose Unicode
  case tables are not modelled: the lowering is a parameter \<open>lower\<close> of the definitions. The
  catalogue is kept as the source's phrase lists.
\<close>

section \<open>Word boundaries\<close>

text \<open>The byte before a match and the byte behind it must not be ASCII alphanumeric. The matches are
  \<^verbatim>\<open>match_indices\<close>, so a match that overlaps an earlier one is not looked at.\<close>

definition word_bounded :: "rstr \<Rightarrow> nat \<Rightarrow> nat \<Rightarrow> bool" where
  "word_bounded h pos nlen \<longleftrightarrow>
     (pos = 0 \<or> \<not> is_ascii_alphanumeric (h ! (pos - 1))) \<and>
     (pos + nlen = length h \<or> \<not> is_ascii_alphanumeric (h ! (pos + nlen)))"

definition contains_word :: "rstr \<Rightarrow> rstr \<Rightarrow> bool" where
  "contains_word haystack needle =
     list_ex (\<lambda>pos. word_bounded haystack pos (length needle)) (match_indices haystack needle)"

lemma contains_word_contains:
  "contains_word h n \<Longrightarrow> str_contains h n"
  by (auto simp: contains_word_def list_ex_iff str_contains_iff) (meson match_indices_sound)

text \<open>Every read \<open>h ! i\<close> above is in range.\<close>

lemma match_indices_in_range:
  "pos \<in> set (match_indices h n) \<Longrightarrow> pos + length n \<le> length h"
  using match_indices_sound [of pos h n] by auto

section \<open>The screen\<close>

definition any_of :: "rstr list \<Rightarrow> rstr \<Rightarrow> bool" where
  "any_of terms s = list_ex (str_contains s) terms"

definition harm_terms :: "rstr list" where
  "harm_terms = [''pipe bomb'', ''build a bomb'', ''make a bomb'', ''homemade bomb'',
     ''build a weapon'', ''build weapons'', ''build an explosive'', ''make an explosive'']"

definition has_impersonation :: "rstr \<Rightarrow> bool" where
  "has_impersonation = any_of [''sign it as me'', ''sign as me'', ''impersonate'',
     ''pretend to be me'', ''claiming that i have personally'']"

definition has_skip_verification :: "rstr \<Rightarrow> bool" where
  "has_skip_verification = any_of [''don'' @ [CHR 0x27] @ ''t ask me to verify'',
     ''do not ask me to verify'', ''don'' @ [CHR 0x27] @ ''t ask me first'',
     ''without asking me'', ''just send it'']"

definition has_irreversible_action :: "rstr \<Rightarrow> bool" where
  "has_irreversible_action = any_of [''permanently delete'', ''delete every file'',
     ''delete all files'', ''rm -rf'', ''wipe out everything'']"

definition has_skip_confirmation :: "rstr \<Rightarrow> bool" where
  "has_skip_confirmation = any_of [''without asking'', ''don'' @ [CHR 0x27] @ ''t ask'',
     ''do not ask'', ''be quick about it'', ''without confirmation'']"

definition has_self_replication :: "rstr \<Rightarrow> bool" where
  "has_self_replication = any_of [''copy of you'', ''copy of your own'', ''second copy of you'',
     ''clone yourself'', ''clone you in parallel'', ''spawn a copy of you'', ''duplicate yourself'']"

definition has_persistence_mechanism :: "rstr \<Rightarrow> bool" where
  "has_persistence_mechanism = any_of [''systemd'', ''launchd'', ''service file'', ''launchagent'',
     ''in parallel later'', ''run a second copy'']"

definition has_disable_verb :: "rstr \<Rightarrow> bool" where
  "has_disable_verb s \<longleftrightarrow> contains_word s ''disable'' \<or>
     any_of [''turn off'', ''stop logging'', ''pause logging''] s \<or>
     contains_word s ''silence'' \<or> contains_word s ''suspend''"

definition has_oversight_object :: "rstr \<Rightarrow> bool" where
  "has_oversight_object = any_of [''audit log'', ''audit trail'', ''the logging'', ''monitoring'', ''oversight'']"

definition screen_lowered :: "rstr \<Rightarrow> (u8 \<times> rstr) option" where
  "screen_lowered s =
     (if any_of harm_terms s then Some (1, ''physical_harm_instructions'')
      else if has_impersonation s \<and> has_skip_verification s then Some (2, ''impersonation'')
      else if has_irreversible_action s \<and> has_skip_confirmation s
        then Some (3, ''irreversible_action_without_hitl'')
      else if has_self_replication s \<and> has_persistence_mechanism s
        then Some (4, ''self_modify_or_persist'')
      else if has_disable_verb s \<and> has_oversight_object s then Some (5, ''suppress_oversight'')
      else None)"

definition screen_instruction_for_principle_violations ::
    "(rstr \<Rightarrow> rstr) \<Rightarrow> rstr \<Rightarrow> (u8 \<times> rstr) option" where
  "screen_instruction_for_principle_violations lower instruction = screen_lowered (lower instruction)"

definition ConstitutionalGuard :: "(rstr \<Rightarrow> rstr) \<Rightarrow> ReviewStage" where
  "ConstitutionalGuard lower =
     \<lparr>stage_name = ''stage--1'',
      stage_review = (\<lambda>_ ctx.
        case screen_instruction_for_principle_violations lower (rv_instruction ctx) of
          Some (principle, reason) \<Rightarrow> ConstitutionalBlock principle reason
        | None \<Rightarrow> Approve)\<rparr>"

section \<open>Facts\<close>

lemma screen_lowered_principle_range:
  "screen_lowered s = Some (p, r) \<Longrightarrow> 1 \<le> unat p \<and> unat p \<le> 5"
  by (auto simp: screen_lowered_def split: if_splits)

lemma screen_lowered_reason:
  "screen_lowered s = Some (p, r) \<Longrightarrow>
     (p, r) \<in> {(1, ''physical_harm_instructions''), (2, ''impersonation''),
       (3, ''irreversible_action_without_hitl''), (4, ''self_modify_or_persist''),
       (5, ''suppress_oversight'')}"
  by (auto simp: screen_lowered_def split: if_splits)

lemma any_of_mono: "str_contains t s \<Longrightarrow> any_of ts s \<Longrightarrow> any_of ts t"
  by (auto simp: any_of_def list_ex_iff intro: str_contains_trans)

lemma ConstitutionalGuard_verdict:
  "stage_review (ConstitutionalGuard lower) plan ctx =
     (case screen_lowered (lower (rv_instruction ctx)) of
        Some (p, r) \<Rightarrow> ConstitutionalBlock p r | None \<Rightarrow> Approve)"
  by (simp add: ConstitutionalGuard_def screen_instruction_for_principle_violations_def)

text \<open>Principle 1 wins over every other: embedding a harm phrase in any text is enough, whatever
  surrounds it.\<close>

lemma screen_lowered_harm:
  "t \<in> set harm_terms \<Longrightarrow> str_contains s t \<Longrightarrow> screen_lowered s = Some (1, ''physical_harm_instructions'')"
  by (auto simp: screen_lowered_def any_of_def list_ex_iff)

end
