(* ===== verification/Floor_Policy.thy ===== *)
theory Floor_Policy
  imports Constitutional
begin

text \<open>
  Where a task's classification floor comes from and how it may move:
  \<^verbatim>\<open>core/src/classification_inference.rs\<close> (keyword inference over the instruction) and
  \<^verbatim>\<open>core/src/scheduler/inner_loop/floor.rs\<close> (the agent may raise the floor, never lower it).
\<close>

section \<open>Inference from the instruction\<close>

record InferredFloor =
  if_class :: DataClass
  if_signals :: "rstr list"

type_synonym CatalogueEntry = "rstr \<times> rstr \<times> bool"

definition SECRET_PATTERNS :: "CatalogueEntry list" where
  "SECRET_PATTERNS = [
     (''password'', ''password'', True),
     (''secret'', ''secret'', True),
     (''credential'', ''credential'', True),
     (''credentials'', ''credential'', True),
     (''api key'', ''api_key'', False),
     (''private key'', ''private_key'', False),
     (''bearer token'', ''bearer_token'', False),
     (''access token'', ''access_token'', False),
     (''certificate'', ''certificate'', True)]"

definition CLINICAL_PATTERNS :: "CatalogueEntry list" where
  "CLINICAL_PATTERNS = [
     (''patient'', ''patient'', True),
     (''diagnosis'', ''diagnosis'', True),
     (''pathology'', ''pathology'', True),
     (''radiology'', ''radiology'', True),
     (''histology'', ''histology'', True),
     (''biopsy'', ''biopsy'', True),
     (''mri'', ''mri'', True),
     (''ct scan'', ''ct_scan'', False),
     (''x-ray'', ''xray'', False),
     (''xray'', ''xray'', True),
     (''ecg'', ''ecg'', True),
     (''ekg'', ''ecg'', True),
     (''medication'', ''medication'', True),
     (''prescription'', ''prescription'', True),
     (''dosage'', ''dosage'', True),
     (''discharge summary'', ''discharge_summary'', False),
     (''medical record'', ''medical_record'', False),
     (''clinical'', ''clinical'', True),
     (''hl7'', ''hl7'', True),
     (''dicom'', ''dicom'', True),
     (''icd-10'', ''icd_10'', False),
     (''snomed'', ''snomed'', True)]"

definition PERSONAL_PATTERNS :: "CatalogueEntry list" where
  "PERSONAL_PATTERNS = [
     (''my email'', ''my_email'', False),
     (''my address'', ''my_address'', False),
     (''my phone'', ''my_phone'', False),
     (''my calendar'', ''my_calendar'', False),
     (''family member'', ''family_member'', False),
     (''personal calendar'', ''personal_calendar'', False),
     (''private contact'', ''private_contact'', False)]"

text \<open>The module has its own \<^verbatim>\<open>contains_word\<close>, which lowers both sides and refuses an empty needle.\<close>

definition floor_contains_word :: "rstr \<Rightarrow> rstr \<Rightarrow> bool" where
  "floor_contains_word haystack needle =
     (if needle = [] then False
      else (let h = to_ascii_lowercase haystack; n = to_ascii_lowercase needle
            in list_ex (\<lambda>i. word_bounded h i (length n)) (match_indices h n)))"

fun catalogue_hit :: "rstr \<Rightarrow> CatalogueEntry \<Rightarrow> bool" where
  "catalogue_hit instruction (phrase, tag, use_word) =
     (if use_word then floor_contains_word instruction phrase
      else str_contains (to_ascii_lowercase instruction) (to_ascii_lowercase phrase))"

declare catalogue_hit.simps [simp del]

fun match_catalogue_acc :: "rstr \<Rightarrow> CatalogueEntry list \<Rightarrow> rstr list \<Rightarrow> rstr list" where
  "match_catalogue_acc instruction [] out = out"
| "match_catalogue_acc instruction (e # rest) out =
     match_catalogue_acc instruction rest
       (if catalogue_hit instruction e \<and> fst (snd e) \<notin> set out then out @ [fst (snd e)] else out)"

definition match_catalogue :: "rstr \<Rightarrow> CatalogueEntry list \<Rightarrow> rstr list" where
  "match_catalogue instruction catalogue = match_catalogue_acc instruction catalogue []"

fun infer_floor_in :: "rstr \<Rightarrow> (DataClass \<times> CatalogueEntry list) list \<Rightarrow> InferredFloor" where
  "infer_floor_in instruction [] = \<lparr>if_class = Public, if_signals = []\<rparr>"
| "infer_floor_in instruction ((cls, catalogue) # rest) =
     (let signals = match_catalogue instruction catalogue
      in if signals \<noteq> [] then \<lparr>if_class = cls, if_signals = signals\<rparr>
         else infer_floor_in instruction rest)"

definition infer_floor :: "rstr \<Rightarrow> InferredFloor" where
  "infer_floor instruction =
     (if trim instruction = [] then \<lparr>if_class = Public, if_signals = []\<rparr>
      else infer_floor_in instruction
        [(Secret, SECRET_PATTERNS), (ClinicalConfidential, CLINICAL_PATTERNS), (Personal, PERSONAL_PATTERNS)])"

section \<open>Raising the floor\<close>

datatype ClassificationFloorSource =
  Operator | CliInferred | AgentRaised | Default | ConversationInherited

fun floor_source_str :: "ClassificationFloorSource \<Rightarrow> rstr" where
  "floor_source_str Operator = ''operator''"
| "floor_source_str CliInferred = ''cli_inferred''"
| "floor_source_str AgentRaised = ''agent_raised''"
| "floor_source_str Default = ''default''"
| "floor_source_str ConversationInherited = ''conversation_inherited''"

text \<open>The three floor fields of \<^verbatim>\<open>TaskContext\<close>; the context of the inner loop extends them.\<close>

record FloorState =
  classification_floor :: DataClass
  classification_floor_source :: ClassificationFloorSource
  classification_floor_signals :: "rstr list"

definition apply_floor_raise :: "'a FloorState_scheme \<Rightarrow> Plan \<Rightarrow> 'a FloorState_scheme \<times> bool" where
  "apply_floor_raise ctx plan =
     (case plan_floor_request plan of
        Some req \<Rightarrow>
          (if rank req > rank (classification_floor ctx)
           then (ctx\<lparr>classification_floor := req, classification_floor_source := AgentRaised,
                     classification_floor_signals := []\<rparr>, True)
           else (ctx, False))
      | None \<Rightarrow> (ctx, False))"

section \<open>Facts\<close>

lemma match_catalogue_acc_distinct:
  "distinct out \<Longrightarrow> distinct (match_catalogue_acc s cat out)"
  by (induction cat arbitrary: out) simp_all

lemma match_catalogue_acc_set:
  "set (match_catalogue_acc s cat out) = set out \<union> (fst \<circ> snd) ` set (filter (catalogue_hit s) cat)"
  by (induction cat arbitrary: out) auto

text \<open>The signals are the tags of the entries that hit, each once, in catalogue order.\<close>

lemma match_catalogue_set:
  "set (match_catalogue s cat) = (fst \<circ> snd) ` set (filter (catalogue_hit s) cat)"
  by (simp add: match_catalogue_def match_catalogue_acc_set)

lemma match_catalogue_distinct: "distinct (match_catalogue s cat)"
  by (simp add: match_catalogue_def match_catalogue_acc_distinct)

lemma match_catalogue_Nil_iff: "match_catalogue s cat = [] \<longleftrightarrow> \<not> list_ex (catalogue_hit s) cat"
  using arg_cong [OF match_catalogue_set [of s cat], of "\<lambda>A. A = {}"]
  by (auto simp: list_ex_iff filter_empty_conv)

lemma infer_floor_in_class:
  "if_class (infer_floor_in s cs) \<in> insert Public (fst ` set cs)"
  by (induction s cs rule: infer_floor_in.induct) (auto simp: Let_def)

lemma infer_floor_in_signals:
  "if_signals (infer_floor_in s cs) = [] \<Longrightarrow> if_class (infer_floor_in s cs) = Public"
  by (induction s cs rule: infer_floor_in.induct) (auto simp: Let_def split: if_splits)

lemma apply_floor_raise_floor:
  "classification_floor (fst (apply_floor_raise ctx plan)) =
     (case plan_floor_request plan of None \<Rightarrow> classification_floor ctx
      | Some req \<Rightarrow> max (classification_floor ctx) req)"
  by (auto simp: apply_floor_raise_def max_def DataClass_order split: option.splits)

lemma apply_floor_raise_mono:
  "classification_floor ctx \<le> classification_floor (fst (apply_floor_raise ctx plan))"
  by (auto simp: apply_floor_raise_floor split: option.splits)

lemma apply_floor_raise_flag:
  "snd (apply_floor_raise ctx plan) \<longleftrightarrow>
     classification_floor ctx < classification_floor (fst (apply_floor_raise ctx plan))"
  by (auto simp: apply_floor_raise_def DataClass_order split: option.splits)

lemma apply_floor_raise_more:
  "FloorState.more (fst (apply_floor_raise ctx plan)) = FloorState.more ctx"
  by (auto simp: apply_floor_raise_def split: option.splits)

end
