(* ===== verification/Skill_Template.thy ===== *)
theory Skill_Template
  imports Plan_Types "HOL-Library.Char_ord" "HOL-Library.List_Lexorder"
begin

text \<open>
  Skill templates: \<^verbatim>\<open>core/src/memory/l3_crystallise.rs\<close> (validation), \<^verbatim>\<open>l3_approval.rs\<close> (the approval gate) and
  \<^verbatim>\<open>l3_invoke/pure.rs\<close> (arguments and substitution). A template's string parameters carry placeholders
  \<^verbatim>\<open>{{name}}\<close>; an invocation substitutes them in one pass. Ordered sets of strings (\<^verbatim>\<open>BTreeSet\<close>) are sorted
  lists without repetition. \<^verbatim>\<open>serde_json::to_string\<close> is the parameter \<open>json_text\<close>.
\<close>

section \<open>Identifiers\<close>

definition is_snake_ident :: "rstr \<Rightarrow> bool" where
  "is_snake_ident s =
     (case s of
        [] \<Rightarrow> False
      | c # cs \<Rightarrow> is_ascii_lower c \<and> list_all (\<lambda>c. is_ascii_lower c \<or> is_ascii_digit c \<or> c = CHR ''_'') cs)"

definition is_tool_ident :: "rstr \<Rightarrow> bool" where
  "is_tool_ident s =
     (case s of
        [] \<Rightarrow> False
      | c # cs \<Rightarrow> (is_ascii_lower c \<or> is_ascii_digit c) \<and>
          list_all (\<lambda>c. is_ascii_lower c \<or> is_ascii_digit c \<or> c = CHR ''_'' \<or> c = CHR ''.'' \<or> c = CHR ''-'') cs)"

section \<open>Placeholders\<close>

text \<open>The inner search loop: the text before the next \<^verbatim>\<open>}}\<close> and what follows it.\<close>

fun until_close :: "rstr \<Rightarrow> (rstr \<times> rstr) option" where
  "until_close (a # b # cs) =
     (if a = CHR ''}'' \<and> b = CHR ''}'' then Some ([], cs)
      else map_option (\<lambda>(name, rest). (a # name, rest)) (until_close (b # cs)))"
| "until_close _ = None"

lemma until_close_append: "until_close s = Some (name, rest) \<Longrightarrow> s = name @ ''}}'' @ rest"
proof (induction s arbitrary: name rest rule: until_close.induct)
  case (1 a b cs)
  then show ?case by (cases "a = CHR ''}'' \<and> b = CHR ''}''") auto
qed simp_all

lemma until_close_shorter: "until_close s = Some (name, rest) \<Longrightarrow> length rest < length s"
  using until_close_append by fastforce

datatype L3Error = Validation rstr

definition insert_sorted_set :: "rstr \<Rightarrow> rstr list \<Rightarrow> rstr list" where
  "insert_sorted_set x xs = (if x \<in> set xs then xs else insort x xs)"

function scan_placeholders :: "rstr \<Rightarrow> rstr list \<Rightarrow> L3Error + rstr list" where
  "scan_placeholders (a # b # cs) out =
     (if a = CHR ''{'' \<and> b = CHR ''{'' then
        (case until_close cs of
           None \<Rightarrow> Err (Validation (''unterminated placeholder '' @ quoted ''{{''))
         | Some (ident, rest) \<Rightarrow>
             if \<not> is_snake_ident ident
             then Err (Validation (''malformed placeholder name '' @ quoted ident))
             else scan_placeholders rest (insert_sorted_set ident out))
      else scan_placeholders (b # cs) out)"
| "scan_placeholders [a] out = Ok out"
| "scan_placeholders [] out = Ok out"
  by pat_completeness auto
termination
  by (relation "measure (\<lambda>(s, out). length s)") (auto dest: until_close_shorter)

fun collect_placeholders :: "json \<Rightarrow> rstr list \<Rightarrow> L3Error + rstr list" where
  "collect_placeholders (JStr s) out = scan_placeholders s out"
| "collect_placeholders (JArr a) out = try_fold collect_placeholders a out"
| "collect_placeholders (JObj m) out = try_fold (\<lambda>kv. collect_placeholders (snd kv)) m out"
| "collect_placeholders _ out = Ok out"

section \<open>Validation\<close>

definition L3_MAX_NAME_BYTES :: nat where "L3_MAX_NAME_BYTES = 64"
definition L3_MAX_DESC_BYTES :: nat where "L3_MAX_DESC_BYTES = 512"
definition L3_MAX_PARAM_DESC_BYTES :: nat where "L3_MAX_PARAM_DESC_BYTES = 256"
definition L3_MAX_PARAMS :: nat where "L3_MAX_PARAMS = 16"
definition L3_MAX_STEPS :: nat where "L3_MAX_STEPS = 32"
definition L3_MAX_IDENT_BYTES :: nat where "L3_MAX_IDENT_BYTES = 64"
definition L3_MAX_TEMPLATE_BYTES :: nat where "L3_MAX_TEMPLATE_BYTES = 4096"
definition RESERVED_TAG_OPEN :: rstr where "RESERVED_TAG_OPEN = ''<skills>''"
definition RESERVED_TAG_CLOSE :: rstr where "RESERVED_TAG_CLOSE = ''</skills>''"

definition has_newline :: "rstr \<Rightarrow> bool" where
  "has_newline s \<longleftrightarrow> CHR 0x0A \<in> set s \<or> CHR 0x0D \<in> set s"

definition has_control :: "rstr \<Rightarrow> bool" where
  "has_control s \<longleftrightarrow> list_ex (\<lambda>b. code b < 0x20) s"

definition has_reserved_tag :: "rstr \<Rightarrow> bool" where
  "has_reserved_tag s \<longleftrightarrow> str_contains s RESERVED_TAG_OPEN \<or> str_contains s RESERVED_TAG_CLOSE"

definition check_name :: "rstr \<Rightarrow> L3Error + rstr" where
  "check_name raw =
     (let name = trim raw in
      if name = [] then Err (Validation ''name is empty after trim'')
      else if length name > L3_MAX_NAME_BYTES
        then Err (Validation (''name exceeds 64 bytes ('' @ show_nat (length name) @ '')''))
      else if \<not> is_snake_ident name
        then Err (Validation (''name '' @ quoted name @ '' is not snake_case ([a-z][a-z0-9_]*)''))
      else Ok name)"

definition check_description :: "rstr \<Rightarrow> L3Error + rstr" where
  "check_description raw =
     (if has_newline raw then Err (Validation ''description contains newline'')
      else let description = trim raw in
      if description = [] then Err (Validation ''description is empty after trim'')
      else if has_control description then Err (Validation ''description contains control character'')
      else if has_reserved_tag description
        then Err (Validation ''description contains reserved tag substring'')
      else if length description > L3_MAX_DESC_BYTES
        then Err (Validation (''description exceeds 512 bytes ('' @ show_nat (length description) @ '')''))
      else Ok description)"

definition check_param_description :: "rstr \<Rightarrow> rstr \<Rightarrow> L3Error + rstr" where
  "check_param_description pn raw =
     (let pd = trim raw; head = ''parameter '' @ quoted pn in
      if pd = [] then Err (Validation (head @ '' has empty description''))
      else if has_newline pd then Err (Validation (head @ '' description contains newline''))
      else if has_control pd then Err (Validation (head @ '' description contains control character''))
      else if has_reserved_tag pd then Err (Validation (head @ '' description contains reserved tag substring''))
      else if length pd > L3_MAX_PARAM_DESC_BYTES
        then Err (Validation (head @ '' description exceeds 256 bytes''))
      else Ok pd)"

text \<open>The loop over the declared parameters: the declared names (a \<^verbatim>\<open>BTreeSet\<close>) and the normalised ones.\<close>

fun check_params :: "L3Param list \<Rightarrow> rstr list \<Rightarrow> L3Param list \<Rightarrow> L3Error + (rstr list \<times> L3Param list)" where
  "check_params [] declared norm = Ok (declared, norm)"
| "check_params (p # ps) declared norm =
     (let pn = trim (l3_param_name p) in
      if \<not> is_snake_ident pn then Err (Validation (''parameter name '' @ quoted pn @ '' is not snake_case''))
      else if pn \<in> set declared then Err (Validation (''duplicate parameter '' @ quoted pn))
      else and_then (check_param_description pn (l3_param_description p)) (\<lambda>pd.
        check_params ps (insert_sorted_set pn declared)
          (norm @ [\<lparr>l3_param_name = pn, l3_param_description = pd\<rparr>])))"

definition is_object :: "json \<Rightarrow> bool" where
  "is_object v = (case v of JObj m \<Rightarrow> True | _ \<Rightarrow> False)"

fun check_steps ::
    "L3TemplateStep list \<Rightarrow> rstr list \<Rightarrow> L3TemplateStep list \<Rightarrow> L3Error + (rstr list \<times> L3TemplateStep list)" where
  "check_steps [] referenced norm = Ok (referenced, norm)"
| "check_steps (s # ss) referenced norm =
     (let tool = trim (l3_step_tool s); method = trim (l3_step_method s) in
      if length tool > L3_MAX_IDENT_BYTES \<or> \<not> is_tool_ident tool
        then Err (Validation (''step tool '' @ quoted tool @ '' is invalid''))
      else if length method > L3_MAX_IDENT_BYTES \<or> \<not> is_tool_ident method
        then Err (Validation (''step method '' @ quoted method @ '' is invalid''))
      else if \<not> is_object (l3_step_parameters s)
        then Err (Validation ''step parameters must be a JSON object'')
      else and_then (collect_placeholders (l3_step_parameters s) referenced) (\<lambda>referenced'.
        check_steps ss referenced'
          (norm @ [\<lparr>l3_step_tool = tool, l3_step_method = method, l3_step_parameters = l3_step_parameters s\<rparr>])))"

text \<open>The derived JSON form of a candidate, its keys sorted, as \<^verbatim>\<open>canonical_json\<close> renders it.\<close>

fun sort_value_keys :: "json \<Rightarrow> json" where
  "sort_value_keys (JObj m) = JObj (map (\<lambda>(k, v). (k, sort_value_keys v)) (sort_key fst m))"
| "sort_value_keys (JArr a) = JArr (map sort_value_keys a)"
| "sort_value_keys v = v"

definition l3_to_json :: "L3SkillCandidate \<Rightarrow> json" where
  "l3_to_json c = JObj
     [(''name'', JStr (l3_name c)), (''description'', JStr (l3_description c)),
      (''parameters'', JArr (map (\<lambda>p. JObj [(''name'', JStr (l3_param_name p)),
                                            (''description'', JStr (l3_param_description p))]) (l3_parameters c))),
      (''steps'', JArr (map (\<lambda>s. JObj [(''tool'', JStr (l3_step_tool s)), (''method'', JStr (l3_step_method s)),
                                       (''parameters'', l3_step_parameters s)]) (l3_steps c)))]"

definition canonical_json :: "(json \<Rightarrow> rstr) \<Rightarrow> L3SkillCandidate \<Rightarrow> rstr" where
  "canonical_json json_text c = json_text (sort_value_keys (l3_to_json c))"

definition check_references :: "rstr list \<Rightarrow> rstr list \<Rightarrow> L3Error + unit" where
  "check_references referenced declared =
     (case find (\<lambda>r. r \<notin> set declared) referenced of
        Some r \<Rightarrow> Err (Validation (''undeclared placeholder '' @ quoted r))
      | None \<Rightarrow>
          (case find (\<lambda>d. d \<notin> set referenced) declared of
             Some d \<Rightarrow> Err (Validation (''unused parameter '' @ quoted d))
           | None \<Rightarrow> Ok ()))"

definition validate_l3_skill :: "(json \<Rightarrow> rstr) \<Rightarrow> L3SkillCandidate \<Rightarrow> L3Error + L3SkillCandidate" where
  "validate_l3_skill json_text c =
     and_then (check_name (l3_name c)) (\<lambda>name.
     and_then (check_description (l3_description c)) (\<lambda>description.
     and_then (guard_err (length (l3_parameters c) > L3_MAX_PARAMS)
       (Validation (''too many parameters ('' @ show_nat (length (l3_parameters c)) @ '' > 16)''))) (\<lambda>_.
     and_then (check_params (l3_parameters c) [] []) (\<lambda>(declared, norm_params).
     and_then (guard_err (l3_steps c = []) (Validation ''skill must have at least one step'')) (\<lambda>_.
     and_then (guard_err (length (l3_steps c) > L3_MAX_STEPS)
       (Validation (''too many steps ('' @ show_nat (length (l3_steps c)) @ '' > 32)''))) (\<lambda>_.
     and_then (check_steps (l3_steps c) [] []) (\<lambda>(referenced, norm_steps).
     and_then (check_references referenced declared) (\<lambda>_.
       let normalised = \<lparr>l3_name = name, l3_description = description, l3_parameters = norm_params,
                         l3_steps = norm_steps\<rparr>;
           canonical = canonical_json json_text normalised
       in if length canonical > L3_MAX_TEMPLATE_BYTES
          then Err (Validation (''template exceeds 4096 bytes ('' @ show_nat (length canonical) @ '')''))
          else Ok normalised))))))))"

section \<open>The approval gate\<close>

datatype SkillTrust = Untrusted | UserApproved | Pinned

fun trust_str :: "SkillTrust \<Rightarrow> rstr" where
  "trust_str Untrusted = ''untrusted''"
| "trust_str UserApproved = ''user_approved''"
| "trust_str Pinned = ''pinned''"

definition from_metadata_str :: "rstr \<Rightarrow> SkillTrust" where
  "from_metadata_str s =
     (if s = ''user_approved'' then UserApproved else if s = ''pinned'' then Pinned else Untrusted)"

fun scan_secret_refs :: "json \<Rightarrow> rstr list" where
  "scan_secret_refs (JStr s) = (if starts_with s REF_PREFIX then [s] else [])"
| "scan_secret_refs (JArr a) = concat (map scan_secret_refs a)"
| "scan_secret_refs (JObj m) = concat (map (\<lambda>kv. scan_secret_refs (snd kv)) m)"
| "scan_secret_refs _ = []"

datatype RejectReason =
    StructuralInvalid rstr | SecretRefPresent nat rstr | UnknownTool rstr | NoRegistrySnapshot | CodeSecretRef nat rstr

fun show_reject_reason :: "RejectReason \<Rightarrow> rstr" where
  "show_reject_reason (StructuralInvalid m) = ''structural validation failed: '' @ m"
| "show_reject_reason (SecretRefPresent step found) =
     ''step '' @ show_nat step @ '' embeds a secret reference '' @ quoted found @
     '' (skills must not carry baked-in secrets)''"
| "show_reject_reason (UnknownTool tool) = ''tool '' @ quoted tool @ '' is not registered by the running daemon''"
| "show_reject_reason NoRegistrySnapshot =
     ''no registry.loaded snapshot found; start the daemon once so the tool registry is recorded''"
| "show_reject_reason (CodeSecretRef offset found) =
     ''code embeds a secret reference '' @ quoted found @ '' at byte offset '' @ show_nat offset @
     '' (skills must not carry baked-in secrets)''"

datatype ApprovalDecision = ApproveSkill | RejectSkill "RejectReason list"

fun show_l3_error :: "L3Error \<Rightarrow> rstr" where
  "show_l3_error (Validation m) = ''L3 skill validation failed: '' @ m"

definition secret_ref_reasons :: "L3TemplateStep list \<Rightarrow> RejectReason list" where
  "secret_ref_reasons steps =
     concat (map (\<lambda>(i, s). map (SecretRefPresent i) (scan_secret_refs (l3_step_parameters s))) (enumerate 0 steps))"

fun unknown_tool_reasons :: "rstr list \<Rightarrow> L3TemplateStep list \<Rightarrow> rstr list \<Rightarrow> RejectReason list" where
  "unknown_tool_reasons known [] seen = []"
| "unknown_tool_reasons known (s # ss) seen =
     (if l3_step_tool s \<notin> set known \<and> l3_step_tool s \<notin> set seen
      then UnknownTool (l3_step_tool s) # unknown_tool_reasons known ss (l3_step_tool s # seen)
      else unknown_tool_reasons known ss seen)"

definition evaluate_approval :: "(json \<Rightarrow> rstr) \<Rightarrow> L3SkillCandidate \<Rightarrow> rstr list \<Rightarrow> ApprovalDecision" where
  "evaluate_approval json_text template known_tools =
     (case validate_l3_skill json_text template of
        Err e \<Rightarrow> RejectSkill [StructuralInvalid (show_l3_error e)]
      | Ok norm \<Rightarrow>
          (let reasons = secret_ref_reasons (l3_steps norm) @ unknown_tool_reasons known_tools (l3_steps norm) [] in
           if reasons = [] then ApproveSkill else RejectSkill reasons))"

end
