(* ===== verification/Skill_Invoke.thy ===== *)
theory Skill_Invoke
  imports Skill_Template Leak_Fingerprint Data_Policy
begin

text \<open>
  Invoking a skill: \<^verbatim>\<open>core/src/memory/l3_invoke/pure.rs\<close> and \<^verbatim>\<open>agent.rs\<close>, their Python counterparts in
  \<^verbatim>\<open>l3py_invoke\<close>, \<^verbatim>\<open>l3py_approval.rs\<close> and \<^verbatim>\<open>l3py_crystallise.rs\<close>, and the lookup of a pinned skill among the rows the
  database returns. Decoding a JSON value into a candidate (\<^verbatim>\<open>serde_json::from_value\<close>) and SHA-256 are
  parameters.
\<close>

section \<open>Arguments\<close>

definition L3_ARG_MAX_VALUE_BYTES :: nat where "L3_ARG_MAX_VALUE_BYTES = 1024"

datatype InvokeError =
    MalformedArg rstr | BadArgName rstr | DuplicateArg rstr | MissingArgs rstr | UnknownArgs rstr
  | BadArgValue rstr | ArgValueTooLong rstr nat nat | UnsubstitutedPlaceholder rstr

fun show_invoke_error :: "InvokeError \<Rightarrow> rstr" where
  "show_invoke_error (MalformedArg a) = ''argument '' @ quoted a @ '' is not of the form name=value''"
| "show_invoke_error (BadArgName a) = ''argument name '' @ quoted a @ '' is not snake_case''"
| "show_invoke_error (DuplicateArg a) = ''duplicate argument '' @ quoted a"
| "show_invoke_error (MissingArgs a) = ''missing value for declared parameter(s): '' @ a"
| "show_invoke_error (UnknownArgs a) = ''unknown argument(s) not declared by the skill: '' @ a"
| "show_invoke_error (BadArgValue n) = ''argument '' @ quoted n @
     '' value contains a newline, control character, or '' @ quoted ''{{'' @ '' / '' @ quoted ''}}'' @ '' sequence''"
| "show_invoke_error (ArgValueTooLong n mx got) =
     ''argument '' @ quoted n @ '' value exceeds '' @ show_nat mx @ '' bytes ('' @ show_nat got @ '')''"
| "show_invoke_error (UnsubstitutedPlaceholder n) =
     ''placeholder '' @ quoted (''{{'' @ n @ ''}}'') @ '' survived substitution (internal error)''"

text \<open>A \<^verbatim>\<open>BTreeMap<String, String>\<close> of arguments: an association list with one entry per name.\<close>

type_synonym args = "(rstr \<times> rstr) list"

fun parse_args_from :: "rstr list \<Rightarrow> args \<Rightarrow> InvokeError + args" where
  "parse_args_from [] m = Ok m"
| "parse_args_from (tok # toks) m =
     (case split_once CHR ''='' tok of
        None \<Rightarrow> Err (MalformedArg tok)
      | Some (name, value) \<Rightarrow>
          if \<not> is_snake_ident name then Err (BadArgName name)
          else if map_of m name \<noteq> None then Err (DuplicateArg name)
          else parse_args_from toks (insort_key fst (name, value) m))"

definition parse_args :: "rstr list \<Rightarrow> InvokeError + args" where
  "parse_args tokens = parse_args_from tokens []"

section \<open>Substitution\<close>

function interpolate :: "args \<Rightarrow> rstr \<Rightarrow> rstr" where
  "interpolate args [] = []"
| "interpolate args [c] = [c]"
| "interpolate args (c # d # cs) =
     (if c = CHR ''{'' \<and> d = CHR ''{'' then
        (case until_close cs of
           Some (name, rest) \<Rightarrow>
             (case map_of args name of
                Some v \<Rightarrow> v @ interpolate args rest
              | None \<Rightarrow> c # interpolate args (d # cs))
         | None \<Rightarrow> c # interpolate args (d # cs))
      else c # interpolate args (d # cs))"
  by pat_completeness auto
termination
  by (relation "measure (\<lambda>(args, s). length s)") (auto dest: until_close_shorter)

fun interpolate_value :: "args \<Rightarrow> json \<Rightarrow> json" where
  "interpolate_value args (JStr s) = JStr (interpolate args s)"
| "interpolate_value args (JArr a) = JArr (map (interpolate_value args) a)"
| "interpolate_value args (JObj m) = JObj (map (\<lambda>kv. (fst kv, interpolate_value args (snd kv))) m)"
| "interpolate_value args v = v"

fun str_placeholder :: "rstr \<Rightarrow> rstr option" where
  "str_placeholder (a # b # cs) =
     (if a = CHR ''{'' \<and> b = CHR ''{'' then
        (case until_close cs of Some (name, rest) \<Rightarrow> Some name | None \<Rightarrow> str_placeholder (b # cs))
      else str_placeholder (b # cs))"
| "str_placeholder _ = None"

fun has_placeholder :: "json \<Rightarrow> rstr option" where
  "has_placeholder (JStr s) = str_placeholder s"
| "has_placeholder (JArr a) = find_map has_placeholder a"
| "has_placeholder (JObj m) = find_map (\<lambda>kv. has_placeholder (snd kv)) m"
| "has_placeholder _ = None"

definition btree_set :: "rstr list \<Rightarrow> rstr list" where
  "btree_set xs = sort (remdups xs)"

fun join_comma :: "rstr list \<Rightarrow> rstr" where
  "join_comma [] = []"
| "join_comma [x] = x"
| "join_comma (x # y # xs) = x @ '', '' @ join_comma (y # xs)"

definition check_arg_value :: "rstr \<times> rstr \<Rightarrow> InvokeError option" where
  "check_arg_value nv =
     (case nv of (name, value) \<Rightarrow>
        if length value > L3_ARG_MAX_VALUE_BYTES
          then Some (ArgValueTooLong name L3_ARG_MAX_VALUE_BYTES (length value))
        else if has_control value \<or> str_contains value ''{{'' \<or> str_contains value ''}}''
          then Some (BadArgValue name)
        else None)"

fun substitute_steps :: "args \<Rightarrow> L3TemplateStep list \<Rightarrow> InvokeError + L3TemplateStep list" where
  "substitute_steps args [] = Ok []"
| "substitute_steps args (s # ss) =
     (let parameters = interpolate_value args (l3_step_parameters s) in
      case has_placeholder parameters of
        Some name \<Rightarrow> Err (UnsubstitutedPlaceholder name)
      | None \<Rightarrow> and_then (substitute_steps args ss) (\<lambda>out. Ok (s\<lparr>l3_step_parameters := parameters\<rparr> # out)))"

definition substitute_template :: "L3SkillCandidate \<Rightarrow> args \<Rightarrow> InvokeError + L3TemplateStep list" where
  "substitute_template template args =
     (let declared = btree_set (map l3_param_name (l3_parameters template));
          supplied = btree_set (map fst args);
          missing = filter (\<lambda>d. d \<notin> set supplied) declared;
          unknown = filter (\<lambda>s. s \<notin> set declared) supplied
      in if missing \<noteq> [] then Err (MissingArgs (join_comma missing))
         else if unknown \<noteq> [] then Err (UnknownArgs (join_comma unknown))
         else case find_map check_arg_value args of
                Some e \<Rightarrow> Err e
              | None \<Rightarrow> substitute_steps args (l3_steps template))"

section \<open>Gates\<close>

definition is_runnable :: "SkillTrust \<Rightarrow> bool" where
  "is_runnable trust \<longleftrightarrow> trust = UserApproved \<or> trust = Pinned"

definition is_autonomously_invocable :: "SkillTrust \<Rightarrow> bool" where
  "is_autonomously_invocable trust \<longleftrightarrow> trust = Pinned"

definition planned_step_from_l3_with_class :: "L3TemplateStep \<Rightarrow> DataClass \<Rightarrow> PlannedStep" where
  "planned_step_from_l3_with_class s c =
     \<lparr>step_tool = l3_step_tool s, step_method = l3_step_method s, step_parameters = l3_step_parameters s,
      step_returns = [], step_done_when = [], step_classification = c\<rparr>"

definition planned_step_from_l3 :: "L3TemplateStep \<Rightarrow> PlannedStep" where
  "planned_step_from_l3 s = planned_step_from_l3_with_class s Secret"

text \<open>A refusal is its list of reasons (\<^verbatim>\<open>InvokeRefusal\<close>).\<close>

definition prepare_invocation ::
    "(json \<Rightarrow> rstr) \<Rightarrow> L3SkillCandidate \<Rightarrow> SkillTrust \<Rightarrow> args \<Rightarrow> rstr list \<Rightarrow> rstr list + L3TemplateStep list" where
  "prepare_invocation json_text template stored_trust args live_tools =
     (if \<not> is_runnable stored_trust
      then Err [''skill trust '' @ quoted (trust_str stored_trust) @ '' is not runnable (only user_approved / pinned)'']
      else case evaluate_approval json_text template live_tools of
             RejectSkill reasons \<Rightarrow> Err (map show_reject_reason reasons)
           | ApproveSkill \<Rightarrow>
               (case substitute_template template args of
                  Err e \<Rightarrow> Err [show_invoke_error e]
                | Ok steps \<Rightarrow> Ok steps))"

definition expand_for_agent ::
    "(json \<Rightarrow> rstr) \<Rightarrow> L3SkillCandidate \<Rightarrow> SkillTrust \<Rightarrow> args \<Rightarrow> rstr list \<Rightarrow> DataClass \<Rightarrow> rstr list + PlannedStep list" where
  "expand_for_agent json_text template stored_trust args live_tools data_ceiling =
     (if \<not> is_autonomously_invocable stored_trust
      then Err [''skill trust '' @ quoted (trust_str stored_trust) @
                '' is not autonomously invocable (agent may invoke only pinned skills)'']
      else and_then (prepare_invocation json_text template stored_trust args live_tools)
             (\<lambda>concrete. Ok (map (\<lambda>s. planned_step_from_l3_with_class s data_ceiling) concrete)))"

section \<open>Python skills\<close>

definition PY_CODE_CAP :: nat where "PY_CODE_CAP = 64 * 1024"
definition HOST_PARAMS_HARD_MAX :: nat where "HOST_PARAMS_HARD_MAX = 16 * 1024 * 1024"
definition PY_EXEC_TOOL :: rstr where "PY_EXEC_TOOL = ''python-exec''"
definition PY_EXEC_METHOD :: rstr where "PY_EXEC_METHOD = ''python.exec''"

definition code_bad_byte :: "char \<Rightarrow> bool" where
  "code_bad_byte b \<longleftrightarrow> (code b < 0x20 \<and> code b \<noteq> 9 \<and> code b \<noteq> 10) \<or> code b = 0x7f"

definition hex2_char :: "char \<Rightarrow> rstr" where
  "hex2_char b = hex2 (of_nat (code b))"

text \<open>The name and description rules are those of templates; \<^verbatim>\<open>PyError::Validation\<close> is the same wrapper.\<close>

definition validate_python_skill :: "PythonSkillCandidate \<Rightarrow> L3Error + PythonSkillCandidate" where
  "validate_python_skill c =
     and_then (check_name (py_name c)) (\<lambda>name.
     and_then (check_description (py_description c)) (\<lambda>description.
     and_then (guard_err (py_code c = []) (Validation ''code is empty'')) (\<lambda>_.
     and_then (guard_err (length (py_code c) > PY_CODE_CAP)
       (Validation (''code exceeds 65536 bytes ('' @ show_nat (length (py_code c)) @ '')''))) (\<lambda>_.
     case find code_bad_byte (py_code c) of
       Some b \<Rightarrow> Err (Validation (''code contains a disallowed control byte 0x'' @ hex2_char b @
                                  '' (only tab and newline are permitted)''))
     | None \<Rightarrow>
         if str_contains (py_code c) REF_PREFIX
         then Err (Validation (''code contains a '' @ quoted REF_PREFIX @
                              '' secret reference (skills must not carry baked-in secrets)''))
         else Ok \<lparr>py_name = name, py_description = description, py_code = py_code c\<rparr>))))"

definition py_canonical_json :: "(json \<Rightarrow> rstr) \<Rightarrow> PythonSkillCandidate \<Rightarrow> rstr" where
  "py_canonical_json json_text c =
     json_text (JObj [(''code'', JStr (py_code c)), (''description'', JStr (py_description c)), (''name'', JStr (py_name c))])"

definition compute_python_sha256 :: "(json \<Rightarrow> rstr) \<Rightarrow> (rstr \<Rightarrow> rstr) \<Rightarrow> PythonSkillCandidate \<Rightarrow> rstr" where
  "compute_python_sha256 json_text sha_hex c = sha_hex (py_canonical_json json_text c)"

text \<open>The end of a reference in code: the first white space or quote.\<close>

fun ref_end :: "rstr \<Rightarrow> rstr" where
  "ref_end [] = []"
| "ref_end (c # cs) =
     (if c = CHR 0x27 \<or> c = CHR 0x22 \<or> list_ex (\<lambda>w. starts_with (c # cs) w) ws_seqs then []
      else c # ref_end cs)"

fun find_refs :: "nat \<Rightarrow> nat \<Rightarrow> rstr \<Rightarrow> RejectReason list" where
  "find_refs skip offset [] = []"
| "find_refs skip offset (c # cs) =
     (if skip > 0 then find_refs (skip - 1) (offset + 1) cs
      else if starts_with (c # cs) REF_PREFIX
      then CodeSecretRef offset (ref_end (c # cs)) # find_refs (length REF_PREFIX - 1) (offset + 1) cs
      else find_refs 0 (offset + 1) cs)"

definition scan_code_secret_refs :: "rstr \<Rightarrow> RejectReason list" where
  "scan_code_secret_refs c = find_refs 0 0 c"

definition show_py_error :: "L3Error \<Rightarrow> rstr" where
  "show_py_error e = (case e of Validation m \<Rightarrow> ''python skill validation failed: '' @ m)"

definition evaluate_python_approval :: "PythonSkillCandidate \<Rightarrow> ApprovalDecision" where
  "evaluate_python_approval candidate =
     (case validate_python_skill candidate of
        Err e \<Rightarrow> RejectSkill [StructuralInvalid (show_py_error e)]
      | Ok norm \<Rightarrow>
          (let reasons = scan_code_secret_refs (py_code norm) in
           if reasons = [] then ApproveSkill else RejectSkill reasons))"

definition prepare_python_invocation ::
    "(json \<Rightarrow> rstr) \<Rightarrow> (rstr \<Rightarrow> rstr) \<Rightarrow> PythonSkillCandidate \<Rightarrow> SkillTrust \<Rightarrow> rstr \<Rightarrow> rstr list + rstr" where
  "prepare_python_invocation json_text sha_hex candidate stored_trust stored_sha256 =
     (if \<not> is_runnable stored_trust
      then Err [''skill is not runnable (trust='' @ quoted (trust_str stored_trust) @ ''; requires user_approved or pinned)'']
      else case evaluate_python_approval candidate of
             RejectSkill reasons \<Rightarrow> Err (map show_reject_reason reasons)
           | ApproveSkill \<Rightarrow>
               (let recomputed = compute_python_sha256 json_text sha_hex candidate in
                if recomputed \<noteq> stored_sha256
                then Err [''body sha256 drift: stored='' @ stored_sha256 @ '' recomputed='' @ recomputed @
                          '' (the approved code is not the code on disk; refusing)'']
                else Ok (py_code candidate)))"

datatype PyParamError = NotObject | BadKey rstr | TooLarge nat nat

fun show_py_param_error :: "PyParamError \<Rightarrow> rstr" where
  "show_py_param_error NotObject = ''params must be a JSON object''"
| "show_py_param_error (BadKey k) = ''params name '' @ quoted k @ '' is not snake_case''"
| "show_py_param_error (TooLarge got mx) =
     ''params serialize to '' @ show_nat got @ '' bytes; cap is '' @ show_nat mx"

definition validate_python_params :: "(json \<Rightarrow> rstr) \<Rightarrow> json \<Rightarrow> nat \<Rightarrow> PyParamError + json" where
  "validate_python_params json_text params max_bytes =
     (case params of
        JNull \<Rightarrow> Ok params
      | JObj m \<Rightarrow>
          (case find (\<lambda>k. \<not> is_snake_ident k) (map fst m) of
             Some k \<Rightarrow> Err (BadKey k)
           | None \<Rightarrow>
               if length (json_text params) > max_bytes then Err (TooLarge (length (json_text params)) max_bytes)
               else Ok params)
      | _ \<Rightarrow> Err NotObject)"

definition params_is_empty :: "json \<Rightarrow> bool" where
  "params_is_empty params = (case params of JNull \<Rightarrow> True | JObj m \<Rightarrow> m = [] | _ \<Rightarrow> False)"

definition python_exec_step :: "rstr \<Rightarrow> json \<Rightarrow> L3TemplateStep" where
  "python_exec_step c params =
     \<lparr>l3_step_tool = PY_EXEC_TOOL, l3_step_method = PY_EXEC_METHOD,
      l3_step_parameters = JObj ((''code'', JStr c) # (if params_is_empty params then [] else [(''params'', params)]))\<rparr>"

definition expand_python_for_agent ::
    "(json \<Rightarrow> rstr) \<Rightarrow> (rstr \<Rightarrow> rstr) \<Rightarrow> PythonSkillCandidate \<Rightarrow> SkillTrust \<Rightarrow> rstr \<Rightarrow> DataClass \<Rightarrow> json \<Rightarrow>
     rstr list + PlannedStep list" where
  "expand_python_for_agent json_text sha_hex candidate stored_trust stored_sha256 data_ceiling params =
     (if stored_trust \<noteq> Pinned
      then Err [''skill is not autonomously invocable (trust='' @ quoted (trust_str stored_trust) @ ''; requires pinned)'']
      else and_then (prepare_python_invocation json_text sha_hex candidate stored_trust stored_sha256) (\<lambda>c.
        case validate_python_params json_text params HOST_PARAMS_HARD_MAX of
          Err e \<Rightarrow> Err [show_py_param_error e]
        | Ok p \<Rightarrow> Ok [planned_step_from_l3_with_class (python_exec_step c p) data_ceiling]))"

section \<open>Pinned rows\<close>

text \<open>A row of the skill layer: its id and its metadata. The database query returns at most 64 rows, the
  argument \<open>rows\<close>.\<close>

type_synonym skill_row = "int \<times> json"

record PinnedSkill =
  ps_memory_id :: int
  ps_template :: L3SkillCandidate
  ps_body_sha256 :: rstr

record PinnedPythonSkill =
  pp_memory_id :: int
  pp_candidate :: PythonSkillCandidate
  pp_body_sha256 :: rstr

definition meta_str :: "json \<Rightarrow> rstr \<Rightarrow> rstr option" where
  "meta_str meta k = (case json_get meta k of None \<Rightarrow> None | Some v \<Rightarrow> json_as_str v)"

definition str_or_empty :: "rstr option \<Rightarrow> rstr" where
  "str_or_empty s = (case s of None \<Rightarrow> [] | Some x \<Rightarrow> x)"

definition pinned_template_row :: "(json \<Rightarrow> L3SkillCandidate option) \<Rightarrow> rstr \<Rightarrow> skill_row \<Rightarrow> PinnedSkill option" where
  "pinned_template_row decode name row =
     (case row of (rid, meta) \<Rightarrow>
        if \<not> is_autonomously_invocable (from_metadata_str (str_or_empty (meta_str meta ''trust''))) then None
        else case (case json_get meta ''template'' of None \<Rightarrow> None | Some t \<Rightarrow> decode t) of
               None \<Rightarrow> None
             | Some template \<Rightarrow>
                 if l3_name template \<noteq> name then None
                 else Some \<lparr>ps_memory_id = rid, ps_template = template,
                            ps_body_sha256 = str_or_empty (meta_str meta ''body_sha256'')\<rparr>)"

definition load_pinned_skill_by_name ::
    "(json \<Rightarrow> L3SkillCandidate option) \<Rightarrow> skill_row list \<Rightarrow> rstr \<Rightarrow> PinnedSkill option" where
  "load_pinned_skill_by_name decode rows name = find_map (pinned_template_row decode name) rows"

definition pinned_python_row :: "(json \<Rightarrow> PythonSkillCandidate option) \<Rightarrow> rstr \<Rightarrow> skill_row \<Rightarrow> PinnedPythonSkill option" where
  "pinned_python_row decode name row =
     (case row of (rid, meta) \<Rightarrow>
        if meta_str meta ''kind'' \<noteq> Some ''python'' then None
        else if \<not> is_autonomously_invocable (from_metadata_str (str_or_empty (meta_str meta ''trust''))) then None
        else case (case json_get meta ''python'' of None \<Rightarrow> None | Some t \<Rightarrow> decode t) of
               None \<Rightarrow> None
             | Some candidate \<Rightarrow>
                 if py_name candidate \<noteq> name then None
                 else Some \<lparr>pp_memory_id = rid, pp_candidate = candidate,
                            pp_body_sha256 = str_or_empty (meta_str meta ''body_sha256'')\<rparr>)"

definition load_pinned_python_skill_by_name ::
    "(json \<Rightarrow> PythonSkillCandidate option) \<Rightarrow> skill_row list \<Rightarrow> rstr \<Rightarrow> PinnedPythonSkill option" where
  "load_pinned_python_skill_by_name decode rows name = find_map (pinned_python_row decode name) rows"

section \<open>What an approved template is\<close>

lemma secret_ref_reasons_Nil_iff:
  "secret_ref_reasons steps = [] \<longleftrightarrow> (\<forall>s \<in> set steps. scan_secret_refs (l3_step_parameters s) = [])"
proof -
  have "concat (map (\<lambda>(i, s). map (SecretRefPresent i) (g s)) (enumerate n steps)) = [] \<longleftrightarrow>
      (\<forall>s \<in> set steps. g s = [])" for g :: "L3TemplateStep \<Rightarrow> rstr list" and n
    by (induction steps arbitrary: n) simp_all
  then show ?thesis unfolding secret_ref_reasons_def .
qed

lemma unknown_tool_reasons_Nil_iff:
  "set seen \<inter> set known = {} \<Longrightarrow> unknown_tool_reasons known steps seen = [] \<longleftrightarrow>
     (\<forall>s \<in> set steps. l3_step_tool s \<in> set known \<or> l3_step_tool s \<in> set seen)"
  by (induction known steps seen rule: unknown_tool_reasons.induct) auto

lemma evaluate_approval_iff:
  "evaluate_approval json_text t known = ApproveSkill \<longleftrightarrow>
     (\<exists>norm. validate_l3_skill json_text t = Ok norm \<and>
        (\<forall>s \<in> set (l3_steps norm). scan_secret_refs (l3_step_parameters s) = [] \<and> l3_step_tool s \<in> set known))"
proof (cases "validate_l3_skill json_text t")
  case (Inr norm)
  then show ?thesis
    using unknown_tool_reasons_Nil_iff [of "[]" known "l3_steps norm"]
    by (auto simp: evaluate_approval_def Let_def secret_ref_reasons_Nil_iff)
qed (simp add: evaluate_approval_def)

lemma check_steps_Ok:
  "check_steps ss refs norm = Ok (refs', norm') \<Longrightarrow>
     norm' = norm @ map (\<lambda>s. s\<lparr>l3_step_tool := trim (l3_step_tool s), l3_step_method := trim (l3_step_method s)\<rparr>) ss \<and>
     (\<forall>s \<in> set ss. is_tool_ident (trim (l3_step_tool s)) \<and> is_tool_ident (trim (l3_step_method s)) \<and>
        is_object (l3_step_parameters s))"
proof (induction ss arbitrary: refs norm)
  case (Cons s ss)
  let ?n = "s\<lparr>l3_step_tool := trim (l3_step_tool s), l3_step_method := trim (l3_step_method s)\<rparr>"
  have n: "\<lparr>l3_step_tool = trim (l3_step_tool s), l3_step_method = trim (l3_step_method s),
      l3_step_parameters = l3_step_parameters s\<rparr> = ?n" by (cases s) simp
  obtain refs1 where "check_steps ss refs1 (norm @ [?n]) = Ok (refs', norm')"
      "is_tool_ident (trim (l3_step_tool s))" "is_tool_ident (trim (l3_step_method s))" "is_object (l3_step_parameters s)"
    using Cons.prems by (auto simp: Let_def and_then_Ok_iff n split: if_splits)
  with Cons.IH [OF this(1)] show ?case by simp
qed simp

lemma validate_l3_skill_steps:
  "validate_l3_skill json_text c = Ok norm \<Longrightarrow>
     l3_steps norm = map (\<lambda>s. s\<lparr>l3_step_tool := trim (l3_step_tool s), l3_step_method := trim (l3_step_method s)\<rparr>) (l3_steps c)
     \<and> l3_steps c \<noteq> [] \<and> length (l3_steps c) \<le> L3_MAX_STEPS"
  by (auto simp: validate_l3_skill_def Let_def and_then_Ok_iff split: if_splits prod.splits dest!: check_steps_Ok)

section \<open>Substitution\<close>

text \<open>A substitution is a single pass: literal text is copied, a placeholder is replaced by its value, and
  the value is not scanned again.\<close>

lemma interpolate_literal: "CHR ''{'' \<notin> set lit \<Longrightarrow> interpolate args (lit @ s) = lit @ interpolate args s"
proof (induction lit)
  case (Cons c lit)
  then have "interpolate args (c # lit @ s) = c # interpolate args (lit @ s)"
    by (cases "lit @ s") auto
  with Cons show ?case by simp
qed simp

lemma until_close_name: "CHR ''}'' \<notin> set name \<Longrightarrow> until_close (name @ ''}}'' @ rest) = Some (name, rest)"
proof (induction name)
  case (Cons c name)
  obtain d ds where d: "name @ ''}}'' @ rest = d # ds" by (cases "name @ ''}}'' @ rest") auto
  have "until_close (c # name @ ''}}'' @ rest) = map_option (\<lambda>(n, r). (c # n, r)) (until_close (name @ ''}}'' @ rest))"
    unfolding d using Cons.prems by auto
  with Cons show ?case by simp
qed simp

lemma interpolate_placeholder:
  assumes "CHR ''{'' \<notin> set lit" and "CHR ''}'' \<notin> set name" and "map_of args name = Some v"
  shows "interpolate args (lit @ ''{{'' @ name @ ''}}'' @ rest) = lit @ v @ interpolate args rest"
  using interpolate_literal [OF assms(1)] until_close_name [OF assms(2), of rest] assms(3) by simp

lemma substitute_steps_Ok:
  "substitute_steps args ss = Ok out \<Longrightarrow>
     out = map (\<lambda>s. s\<lparr>l3_step_parameters := interpolate_value args (l3_step_parameters s)\<rparr>) ss \<and>
     (\<forall>s \<in> set out. has_placeholder (l3_step_parameters s) = None)"
  by (induction ss arbitrary: out) (auto simp: Let_def and_then_Ok_iff split: option.splits)

lemma find_map_arg_None:
  "find_map check_arg_value args = None \<longleftrightarrow>
     (\<forall>(n, v) \<in> set args. length v \<le> L3_ARG_MAX_VALUE_BYTES \<and> \<not> has_control v \<and>
        \<not> str_contains v ''{{'' \<and> \<not> str_contains v ''}}'')"
  by (auto simp: find_map_None_iff check_arg_value_def split: if_splits)

lemma filter_btree_Nil_iff: "filter (\<lambda>x. x \<notin> set (btree_set b)) (btree_set a) = [] \<longleftrightarrow> set a \<subseteq> set b"
  by (auto simp: btree_set_def filter_empty_conv)

lemma substitute_template_Ok:
  "substitute_template t args = Ok out \<Longrightarrow>
     set (map fst args) = set (map l3_param_name (l3_parameters t)) \<and>
     find_map check_arg_value args = None \<and> substitute_steps args (l3_steps t) = Ok out"
  using filter_btree_Nil_iff [of "map fst args" "map l3_param_name (l3_parameters t)"]
    filter_btree_Nil_iff [of "map l3_param_name (l3_parameters t)" "map fst args"]
  by (auto simp: substitute_template_def Let_def split: if_splits option.splits)

section \<open>What an expansion is\<close>

lemma expand_for_agent_Ok:
  assumes "expand_for_agent json_text t trust args tools ceiling = Ok steps"
  shows "trust = Pinned \<and> evaluate_approval json_text t tools = ApproveSkill \<and>
    (\<exists>out. substitute_template t args = Ok out \<and> steps = map (\<lambda>s. planned_step_from_l3_with_class s ceiling) out)"
  using assms
  by (auto simp: expand_for_agent_def is_autonomously_invocable_def prepare_invocation_def and_then_Ok_iff
      split: if_splits ApprovalDecision.splits sum.splits)

lemma expand_python_for_agent_Ok:
  assumes "expand_python_for_agent json_text sha_hex c trust stored ceiling params = Ok steps"
  shows "trust = Pinned \<and> evaluate_python_approval c = ApproveSkill \<and>
    compute_python_sha256 json_text sha_hex c = stored \<and>
    validate_python_params json_text params HOST_PARAMS_HARD_MAX = Ok params \<and>
    steps = [planned_step_from_l3_with_class (python_exec_step (py_code c) params) ceiling]"
proof -
  have "validate_python_params json_text params n = Ok p \<Longrightarrow> p = params" for n p
    by (auto simp: validate_python_params_def split: json.splits option.splits if_splits)
  then show ?thesis
    using assms
    by (auto simp: expand_python_for_agent_def prepare_python_invocation_def and_then_Ok_iff Let_def
        split: if_splits ApprovalDecision.splits sum.splits)
qed

text \<open>Every step of an expansion carries the plan's ceiling, so the classification screen accepts it
  whenever the ceiling is at least the floor.\<close>

lemma expanded_steps_classified:
  assumes "expand_for_agent json_text t trust args tools c = Ok steps \<or>
           expand_python_for_agent json_text sha_hex p trust stored c params = Ok steps"
    and "plan_data_ceiling plan = Some c" and "floor \<le> c"
  shows "classified_ok (plan\<lparr>plan_steps := steps\<rparr>) floor"
  using assms expand_for_agent_Ok expand_python_for_agent_Ok
  by (fastforce simp: classified_ok_def planned_step_from_l3_with_class_def)

lemma load_pinned_skill_pinned:
  "load_pinned_skill_by_name decode rows name = Some p \<Longrightarrow>
     l3_name (ps_template p) = name \<and>
     (\<exists>meta. (ps_memory_id p, meta) \<in> set rows \<and> meta_str meta ''trust'' = Some ''pinned'' \<and>
        (\<exists>t. json_get meta ''template'' = Some t \<and> decode t = Some (ps_template p)))"
proof -
  have find_map_SomeD: "find_map f xs = Some y \<Longrightarrow> \<exists>x \<in> set xs. f x = Some y" for f :: "skill_row \<Rightarrow> PinnedSkill option" and xs y
    by (induction xs) (auto split: option.splits)
  assume "load_pinned_skill_by_name decode rows name = Some p"
  then obtain row where r: "row \<in> set rows" "pinned_template_row decode name row = Some p"
    unfolding load_pinned_skill_by_name_def using find_map_SomeD by blast
  obtain rid meta where row: "row = (rid, meta)" by (cases row)
  have pin: "from_metadata_str x = Pinned \<Longrightarrow> x = ''pinned''" for x by (simp add: from_metadata_str_def split: if_splits)
  have tr: "from_metadata_str (str_or_empty (meta_str meta ''trust'')) = Pinned"
    using r(2) by (simp add: row pinned_template_row_def is_autonomously_invocable_def split: if_splits)
  then have "meta_str meta ''trust'' = Some ''pinned''"
    using pin [of "str_or_empty (meta_str meta ''trust'')"] by (cases "meta_str meta ''trust''") (simp_all add: str_or_empty_def)
  moreover obtain t where "json_get meta ''template'' = Some t" "decode t = Some (ps_template p)"
      "l3_name (ps_template p) = name" "ps_memory_id p = rid"
    using r(2) tr by (cases "json_get meta ''template''")
      (auto simp: row pinned_template_row_def is_autonomously_invocable_def split: if_splits option.splits)
  ultimately show ?thesis using r(1) row by blast
qed

end
