(* ===== verification/Asks.thy ===== *)
theory Asks
  imports Skill_Template Leak_Wire
begin

text \<open>
  Operator approvals: \<^verbatim>\<open>core/src/cassandra/plan_digest.rs\<close> (what an approval binds to),
  \<^verbatim>\<open>core/src/scheduler/asks/pure.rs\<close> (reading a resolved ask, the state a suspended run leaves on its ask) and
  the commands of \<^verbatim>\<open>core/src/channel/ask_message.rs\<close>. Serialisation derived by \<^verbatim>\<open>serde\<close> is written out as
  \<open>json\<close>; its text form, SHA-256 and derived decoding are parameters.
\<close>

section \<open>The canonical form of a plan\<close>

definition CANONICAL_FORM_VERSION :: int where "CANONICAL_FORM_VERSION = 1"

definition json_opt :: "('a \<Rightarrow> json) \<Rightarrow> 'a option \<Rightarrow> json" where
  "json_opt f x = (case x of None \<Rightarrow> JNull | Some v \<Rightarrow> f v)"

definition class_to_json :: "DataClass \<Rightarrow> json" where
  "class_to_json c = JStr (as_pascal_str c)"

definition refused_to_json :: "RefusedReason \<Rightarrow> json" where
  "refused_to_json r = JObj [(''principle'', JInt (uint (refused_principle r))), (''reason'', JStr (refused_reason r))]"

definition invoke_to_json :: "InvokeDirective \<Rightarrow> json" where
  "invoke_to_json d = JObj [(''name'', JStr (invoke_name d)),
     (''args'', JObj (map (\<lambda>(k, v). (k, JStr v)) (invoke_args d))), (''params'', invoke_params d)]"

definition py_to_json :: "PythonSkillCandidate \<Rightarrow> json" where
  "py_to_json c = JObj [(''name'', JStr (py_name c)), (''description'', JStr (py_description c)), (''code'', JStr (py_code c))]"

definition canonical_step :: "PlannedStep \<Rightarrow> json" where
  "canonical_step s = JObj
     [(''tool'', JStr (step_tool s)), (''method'', JStr (step_method s)), (''parameters'', step_parameters s),
      (''classification'', class_to_json (step_classification s))]"

definition canonical_form :: "Plan \<Rightarrow> json" where
  "canonical_form plan = JObj
     [(''v'', JInt CANONICAL_FORM_VERSION), (''decision'', JStr (plan_decision plan)),
      (''steps'', JArr (map canonical_step (plan_steps plan))), (''result'', json_opt id (plan_result plan)),
      (''data_ceiling'', json_opt class_to_json (plan_data_ceiling plan)),
      (''refused'', json_opt refused_to_json (plan_refused plan)),
      (''floor_request'', json_opt class_to_json (plan_floor_request plan)),
      (''l1_insight'', json_opt JStr (plan_l1_insight plan)),
      (''l3_skill'', json_opt l3_to_json (plan_l3_skill plan)),
      (''invoke_skill'', json_opt invoke_to_json (plan_invoke_skill plan)),
      (''python_skill'', json_opt py_to_json (plan_python_skill plan))]"

definition plan_digest :: "(json \<Rightarrow> u8 list) \<Rightarrow> (u8 list \<Rightarrow> digest) \<Rightarrow> Plan \<Rightarrow> rstr" where
  "plan_digest json_bytes sha plan = sha256_hex (sha (json_bytes (canonical_form plan)))"

section \<open>Resolved asks\<close>

record Ask =
  ask_id :: int
  ask_task_id :: int
  ask_kind :: rstr
  ask_body :: rstr
  ask_options :: json
  ask_plan_digest :: "rstr option"
  ask_state :: rstr
  ask_resolution :: "json option"
  ask_resume_state :: "json option"

datatype Choice = ChoiceApprove | ChoiceDeny

datatype AskDecision = AskApproved | AskDenied | NotForThisPlan

definition RESOLUTION_CHOICE_KEY :: rstr where "RESOLUTION_CHOICE_KEY = ''choice''"

fun ask_choice_str :: "Choice \<Rightarrow> rstr" where
  "ask_choice_str ChoiceApprove = ''approve''"
| "ask_choice_str ChoiceDeny = ''deny''"

fun json_as_array :: "json \<Rightarrow> json list option" where
  "json_as_array (JArr a) = Some a"
| "json_as_array _ = None"

definition resolution_choice :: "Ask \<Rightarrow> Choice option" where
  "resolution_choice ask =
     (case ask_resolution ask of
        None \<Rightarrow> None
      | Some r \<Rightarrow>
          (case json_get r RESOLUTION_CHOICE_KEY of
             None \<Rightarrow> None
           | Some v \<Rightarrow>
               (case json_as_str v of
                  None \<Rightarrow> None
                | Some choice \<Rightarrow>
                    (case json_as_array (ask_options ask) of
                       None \<Rightarrow> None
                     | Some offered \<Rightarrow>
                         if \<not> list_ex (\<lambda>o'. json_as_str o' = Some choice) offered then None
                         else if choice = ask_choice_str ChoiceApprove then Some ChoiceApprove
                         else if choice = ask_choice_str ChoiceDeny then Some ChoiceDeny
                         else None))))"

definition ask_decide :: "Ask \<Rightarrow> rstr \<Rightarrow> AskDecision" where
  "ask_decide ask digest =
     (case resolution_choice ask of
        Some ChoiceDeny \<Rightarrow> AskDenied
      | Some ChoiceApprove \<Rightarrow> if ask_plan_digest ask = Some digest then AskApproved else NotForThisPlan
      | None \<Rightarrow> NotForThisPlan)"

definition DEFAULT_ASK_DEADLINE_S :: int where "DEFAULT_ASK_DEADLINE_S = 86400"

text \<open>\<^verbatim>\<open>str::parse::<i64>()\<close>: an optional sign, at least one digit, and a value in range.\<close>

definition parse_i64 :: "rstr \<Rightarrow> int option" where
  "parse_i64 s =
     (let neg = (s \<noteq> [] \<and> hd s = CHR ''-'');
          d = (if s \<noteq> [] \<and> (hd s = CHR ''-'' \<or> hd s = CHR ''+'') then tl s else s);
          v = (if neg then - int (digits_value d) else int (digits_value d))
      in if d \<noteq> [] \<and> list_all is_ascii_digit d \<and> - (2 ^ 63) \<le> v \<and> v < 2 ^ 63 then Some v else None)"

definition ask_deadline_seconds :: "rstr option \<Rightarrow> int" where
  "ask_deadline_seconds raw =
     (case (case raw of None \<Rightarrow> None | Some s \<Rightarrow> parse_i64 (trim s)) of
        Some n \<Rightarrow> if n > 0 then n else DEFAULT_ASK_DEADLINE_S
      | None \<Rightarrow> DEFAULT_ASK_DEADLINE_S)"

section \<open>The suspended run\<close>

datatype StepOutcome = OkStep json | ErrStep rstr rstr

text \<open>A plan record is the inputs of \<^verbatim>\<open>PlanRecord::new\<close>; the renders it derives from them are those of \<^verbatim>\<open>Summary\<close>.\<close>

record PlanRecord =
  pr_plan :: Plan
  pr_outcomes :: "StepOutcome list"

definition PlanRecord_new :: "Plan \<Rightarrow> StepOutcome list \<Rightarrow> PlanRecord" where
  "PlanRecord_new plan outcomes = \<lparr>pr_plan = plan, pr_outcomes = outcomes\<rparr>"

record RestoredRun =
  rr_plans :: "PlanRecord list"
  rr_advisories :: "rstr list"
  rr_blocks :: "rstr list"

text \<open>\<open>enc_plan\<close> and \<open>enc_outs\<close> are the derived serialisations, \<open>dec_plan\<close> and \<open>dec_outs\<close> the derived decoders.\<close>

definition resume_state_from ::
    "(Plan \<Rightarrow> json) \<Rightarrow> (StepOutcome list \<Rightarrow> json) \<Rightarrow> PlanRecord list \<Rightarrow> rstr list \<Rightarrow> rstr list \<Rightarrow> json" where
  "resume_state_from enc_plan enc_outs plans advisories blocks = JObj
     [(''plans'', JArr (map (\<lambda>p. JObj [(''plan'', enc_plan (pr_plan p)), (''outcomes'', enc_outs (pr_outcomes p))]) plans)),
      (''advisories'', JArr (map JStr advisories)), (''blocks'', JArr (map JStr blocks))]"

definition restore_entry ::
    "(json \<Rightarrow> Plan option) \<Rightarrow> (json \<Rightarrow> StepOutcome list option) \<Rightarrow> json \<Rightarrow> PlanRecord option" where
  "restore_entry dec_plan dec_outs e =
     (case json_get e ''plan'' of
        None \<Rightarrow> None
      | Some pj \<Rightarrow>
          (case dec_plan pj of
             None \<Rightarrow> None
           | Some plan \<Rightarrow>
               (case json_get e ''outcomes'' of
                  None \<Rightarrow> None
                | Some oj \<Rightarrow>
                    (case dec_outs oj of None \<Rightarrow> None | Some outs \<Rightarrow> Some (PlanRecord_new plan outs)))))"

fun collect_options :: "'a option list \<Rightarrow> 'a list option" where
  "collect_options [] = Some []"
| "collect_options (x # xs) =
     (case x of None \<Rightarrow> None | Some v \<Rightarrow> map_option ((#) v) (collect_options xs))"

definition string_list :: "json option \<Rightarrow> rstr list" where
  "string_list value =
     (case value of
        Some (JArr a) \<Rightarrow> List.map_filter json_as_str a
      | _ \<Rightarrow> [])"

definition restore_resume_state ::
    "(json \<Rightarrow> Plan option) \<Rightarrow> (json \<Rightarrow> StepOutcome list option) \<Rightarrow> json option \<Rightarrow> RestoredRun" where
  "restore_resume_state dec_plan dec_outs value =
     (case value of
        Some (JObj obj) \<Rightarrow>
          (let plans = (case map_of obj ''plans'' of
                          Some (JArr entries) \<Rightarrow> collect_options (map (restore_entry dec_plan dec_outs) entries)
                        | _ \<Rightarrow> None)
           in \<lparr>rr_plans = (case plans of None \<Rightarrow> [] | Some ps \<Rightarrow> ps),
               rr_advisories = string_list (map_of obj ''advisories''),
               rr_blocks = string_list (map_of obj ''blocks'')\<rparr>)
      | _ \<Rightarrow> \<lparr>rr_plans = [], rr_advisories = [], rr_blocks = []\<rparr>)"

section \<open>Commands\<close>

record AskCommand =
  cmd_choice :: Choice
  cmd_token :: rstr

definition parse_ask_command :: "rstr \<Rightarrow> AskCommand option" where
  "parse_ask_command body =
     (case split_whitespace body of
        [verb, token] \<Rightarrow>
          (let v = to_ascii_lowercase verb in
           if v = ''/approve'' then Some \<lparr>cmd_choice = ChoiceApprove, cmd_token = token\<rparr>
           else if v = ''/deny'' then Some \<lparr>cmd_choice = ChoiceDeny, cmd_token = token\<rparr>
           else None)
      | _ \<Rightarrow> None)"

definition looks_like_ask_command :: "rstr \<Rightarrow> bool" where
  "looks_like_ask_command body =
     list_ex (\<lambda>tok. let t = to_ascii_lowercase (dropWhile (\<lambda>c. c = CHR ''>'' \<or> c = CHR ''|'') tok)
                    in t = ''/approve'' \<or> t = ''/deny'') (split_whitespace body)"

section \<open>What an approval binds to\<close>

text \<open>The plan without its narration.\<close>

definition strip_step :: "PlannedStep \<Rightarrow> PlannedStep" where
  "strip_step s = s\<lparr>step_returns := [], step_done_when := []\<rparr>"

definition strip_narration :: "Plan \<Rightarrow> Plan" where
  "strip_narration p = p\<lparr>plan_context := [], plan_rationale := [], plan_steps := map strip_step (plan_steps p)\<rparr>"

lemma json_opt_inject:
  assumes "\<And>a b. f a = f b \<longleftrightarrow> a = b" and "\<And>a. f a \<noteq> JNull"
  shows "json_opt f x = json_opt f y \<longleftrightarrow> x = y"
proof (cases x)
  case None
  then show ?thesis using assms(2) [symmetric] by (cases y) (auto simp: json_opt_def)
next
  case (Some a)
  then show ?thesis using assms by (cases y) (auto simp: json_opt_def)
qed

lemma class_to_json_inject: "class_to_json a = class_to_json b \<longleftrightarrow> a = b" "class_to_json a \<noteq> JNull"
  by (simp_all add: class_to_json_def)

lemma refused_to_json_inject: "refused_to_json a = refused_to_json b \<longleftrightarrow> a = b" "refused_to_json a \<noteq> JNull"
  by (auto simp: refused_to_json_def word_uint_eq_iff [symmetric] intro: RefusedReason.equality)

lemma map_JStr_inject: "map (\<lambda>(k, v). (k, JStr v)) xs = map (\<lambda>(k, v). (k, JStr v)) ys \<longleftrightarrow> xs = ys"
  by (rule inj_map_eq_map) (auto intro!: injI)

lemma invoke_to_json_inject: "invoke_to_json a = invoke_to_json b \<longleftrightarrow> a = b" "invoke_to_json a \<noteq> JNull"
  by (auto simp: invoke_to_json_def map_JStr_inject intro: InvokeDirective.equality)

lemma py_to_json_inject: "py_to_json a = py_to_json b \<longleftrightarrow> a = b" "py_to_json a \<noteq> JNull"
  by (auto simp: py_to_json_def intro: PythonSkillCandidate.equality)

lemma l3_to_json_inject: "l3_to_json a = l3_to_json b \<longleftrightarrow> a = b" "l3_to_json a \<noteq> JNull"
proof -
  let ?p = "\<lambda>p :: L3Param. JObj [(''name'', JStr (l3_param_name p)), (''description'', JStr (l3_param_description p))]"
  let ?s = "\<lambda>s :: L3TemplateStep. JObj [(''tool'', JStr (l3_step_tool s)), (''method'', JStr (l3_step_method s)),
                     (''parameters'', l3_step_parameters s)]"
  have "map ?p xs = map ?p ys \<longleftrightarrow> xs = ys" for xs ys
    by (rule inj_map_eq_map) (auto intro!: injI intro: L3Param.equality)
  moreover have "map ?s xs = map ?s ys \<longleftrightarrow> xs = ys" for xs ys
    by (rule inj_map_eq_map) (auto intro!: injI intro: L3TemplateStep.equality)
  ultimately show "l3_to_json a = l3_to_json b \<longleftrightarrow> a = b"
    by (auto simp: l3_to_json_def intro: L3SkillCandidate.equality)
  show "l3_to_json a \<noteq> JNull" by (simp add: l3_to_json_def)
qed

lemma canonical_step_inject: "canonical_step a = canonical_step b \<longleftrightarrow> strip_step a = strip_step b"
  by (cases a; cases b) (auto simp: canonical_step_def strip_step_def class_to_json_inject)

lemma map_canonical_step_inject:
  "map canonical_step xs = map canonical_step ys \<longleftrightarrow> map strip_step xs = map strip_step ys"
  by (induction xs ys rule: list_induct2') (auto simp: canonical_step_inject)

lemma result_inject:
  "x \<noteq> Some JNull \<Longrightarrow> y \<noteq> Some JNull \<Longrightarrow> json_opt id x = json_opt id y \<longleftrightarrow> x = y"
  by (cases x; cases y) (auto simp: json_opt_def)

lemmas canonical_injects = json_opt_inject [OF class_to_json_inject] json_opt_inject [OF refused_to_json_inject]
  json_opt_inject [OF l3_to_json_inject] json_opt_inject [OF invoke_to_json_inject]
  json_opt_inject [OF py_to_json_inject]

lemma canonical_form_inject:
  assumes "plan_result p \<noteq> Some JNull" and "plan_result q \<noteq> Some JNull"
  shows "canonical_form p = canonical_form q \<longleftrightarrow> strip_narration p = strip_narration q"
proof -
  have str: "json_opt JStr x = json_opt JStr y \<longleftrightarrow> x = y" for x y
    by (cases x; cases y) (auto simp: json_opt_def)
  have "canonical_form p = canonical_form q \<longleftrightarrow>
      plan_decision p = plan_decision q \<and> map strip_step (plan_steps p) = map strip_step (plan_steps q) \<and>
      plan_result p = plan_result q \<and> plan_data_ceiling p = plan_data_ceiling q \<and> plan_refused p = plan_refused q \<and>
      plan_floor_request p = plan_floor_request q \<and> plan_l1_insight p = plan_l1_insight q \<and>
      plan_l3_skill p = plan_l3_skill q \<and> plan_invoke_skill p = plan_invoke_skill q \<and>
      plan_python_skill p = plan_python_skill q"
    by (simp add: canonical_form_def map_canonical_step_inject canonical_injects str result_inject [OF assms])
  also have "\<dots> \<longleftrightarrow> strip_narration p = strip_narration q" (is "?fields \<longleftrightarrow> ?eq")
  proof
    assume ?fields
    then show ?eq by (intro Plan.equality) (simp_all add: strip_narration_def)
  next
    assume eq: ?eq
    show ?fields
      using arg_cong [OF eq, of plan_decision] arg_cong [OF eq, of plan_steps] arg_cong [OF eq, of plan_result]
        arg_cong [OF eq, of plan_data_ceiling] arg_cong [OF eq, of plan_refused] arg_cong [OF eq, of plan_floor_request]
        arg_cong [OF eq, of plan_l1_insight] arg_cong [OF eq, of plan_l3_skill] arg_cong [OF eq, of plan_invoke_skill]
        arg_cong [OF eq, of plan_python_skill] by (simp add: strip_narration_def)
  qed
  finally show ?thesis .
qed

lemma sha256_hex_inject: "sha256_hex a = sha256_hex b \<longleftrightarrow> a = b"
proof -
  have one: "hex2 x = hex2 y \<Longrightarrow> x = y" for x y
    using from_str_radix16_hex2 [of x] from_str_radix16_hex2 [of y] by (metis option.inject word_unat_eq_iff)
  have "concat (map hex2 a) = concat (map hex2 b) \<Longrightarrow> a = b"
  proof (induction a arbitrary: b)
    case Nil
    then show ?case by (cases b) (auto simp: hex2_def)
  next
    case (Cons x a)
    then obtain y b' where b: "b = y # b'" by (cases b) (auto simp: hex2_def)
    with Cons.prems have "hex2 x = hex2 y" "concat (map hex2 a) = concat (map hex2 b')" by simp_all
    with Cons.IH one b show ?case by blast
  qed
  then show ?thesis by (auto simp: sha256_hex_def)
qed

lemma plan_digest_iff:
  assumes "plan_result p \<noteq> Some JNull" and "plan_result q \<noteq> Some JNull"
    and "sha (json_bytes (canonical_form p)) = sha (json_bytes (canonical_form q)) \<Longrightarrow> canonical_form p = canonical_form q"
  shows "plan_digest json_bytes sha p = plan_digest json_bytes sha q \<longleftrightarrow> strip_narration p = strip_narration q"
  unfolding plan_digest_def sha256_hex_inject using assms canonical_form_inject [OF assms(1,2)] by metis

section \<open>Reading an ask\<close>

lemma ask_decide_Approved_iff:
  "ask_decide ask d = AskApproved \<longleftrightarrow> resolution_choice ask = Some ChoiceApprove \<and> ask_plan_digest ask = Some d"
  by (auto simp: ask_decide_def split: option.splits Choice.splits)

lemma resolution_choice_iff:
  "resolution_choice ask = Some c \<longleftrightarrow>
     (\<exists>r offered. ask_resolution ask = Some r \<and> json_get r RESOLUTION_CHOICE_KEY = Some (JStr (ask_choice_str c)) \<and>
        ask_options ask = JArr offered \<and> JStr (ask_choice_str c) \<in> set offered)"
proof -
  have as_str: "json_as_str v = Some x \<longleftrightarrow> v = JStr x" for v x by (cases v) auto
  have as_arr: "json_as_array v = Some x \<longleftrightarrow> v = JArr x" for v x by (cases v) auto
  show ?thesis
    by (cases c) (auto simp: resolution_choice_def as_str as_arr list_ex_iff split: option.splits if_splits)
qed

lemma ask_deadline_positive: "0 < ask_deadline_seconds raw"
  by (auto simp: ask_deadline_seconds_def DEFAULT_ASK_DEADLINE_S_def split: option.splits)

section \<open>Suspending and resuming\<close>

lemma collect_options_Some: "collect_options (map (\<lambda>x. Some (f x)) xs) = Some (map f xs)"
  by (induction xs) auto

lemma string_list_strings: "string_list (Some (JArr (map JStr xs))) = xs"
  by (induction xs) (simp_all add: string_list_def List.map_filter_def)

lemma resume_round_trip:
  assumes "\<And>p. p \<in> set plans \<Longrightarrow> dec_plan (enc_plan (pr_plan p)) = Some (pr_plan p) \<and>
                               dec_outs (enc_outs (pr_outcomes p)) = Some (pr_outcomes p)"
  shows "restore_resume_state dec_plan dec_outs (Some (resume_state_from enc_plan enc_outs plans advisories blocks)) =
    \<lparr>rr_plans = plans, rr_advisories = advisories, rr_blocks = blocks\<rparr>"
proof -
  let ?e = "\<lambda>p. JObj [(''plan'', enc_plan (pr_plan p)), (''outcomes'', enc_outs (pr_outcomes p))]"
  have "restore_entry dec_plan dec_outs (?e p) = Some p" if "p \<in> set plans" for p
    using assms [OF that] by (simp add: restore_entry_def PlanRecord_new_def)
  then have "map (restore_entry dec_plan dec_outs \<circ> ?e) plans = map (\<lambda>x. Some (id x)) plans" by simp
  then have "collect_options (map (restore_entry dec_plan dec_outs \<circ> ?e) plans) = Some plans"
    using collect_options_Some [of id plans] by (simp only: map_ident list.map_id)
  then show ?thesis
    by (simp add: restore_resume_state_def resume_state_from_def string_list_strings)
qed

end
