(* ===== verification/Llm_Failure.thy ===== *)
theory Llm_Failure
  imports Floor_Policy Skill_Invoke Asks
begin

text \<open>
  The planning call of one turn: \<^verbatim>\<open>core/src/scheduler/inner_loop/llm_failure.rs\<close>, \<^verbatim>\<open>ceiling.rs\<close> and the error type of
  \<^verbatim>\<open>scheduler/agent.rs\<close>. The world outside the scheduler (language model, database, clock, tool workers) is the
  record \<open>World\<close>: each of its answers may depend on how many questions were asked before, the call
  counter of \<open>RunState\<close>, so that a property proved for every \<open>World\<close> holds for every behaviour of
  the outside. Rows written to the audit log and calls made to workers are recorded in a trace.
\<close>

section \<open>Errors of the planner\<close>

datatype AgentError =
    RouterErr rstr bool
  | Decode rstr rstr "rstr option"
  | PromptMissing
  | PromptAssembly rstr

text \<open>\<open>RouterErr msg timed_out\<close>; \<open>Decode detail raw finish_reason\<close>.\<close>

fun show_agent_error :: "AgentError \<Rightarrow> rstr" where
  "show_agent_error (RouterErr e t) = ''router: '' @ e"
| "show_agent_error (Decode detail raw fr) = ''plan decode failed: '' @ detail"
| "show_agent_error PromptMissing = ''agent prompt (agent_planner or agent_notebook) not found in cache''"
| "show_agent_error (PromptAssembly e) = ''prompt assembly: '' @ e"

fun is_request_timeout :: "AgentError \<Rightarrow> bool" where
  "is_request_timeout (RouterErr e t) = t"
| "is_request_timeout _ = False"

fun is_empty_completion :: "AgentError \<Rightarrow> bool" where
  "is_empty_completion (Decode d raw fr) \<longleftrightarrow> trim raw = [] \<and> fr \<noteq> Some ''length''"
| "is_empty_completion _ = False"

fun ran_out_of_tokens :: "AgentError \<Rightarrow> bool" where
  "ran_out_of_tokens (Decode d raw fr) \<longleftrightarrow> fr = Some ''length''"
| "ran_out_of_tokens _ = False"

fun non_plan_answer :: "AgentError \<Rightarrow> rstr option" where
  "non_plan_answer (Decode d raw fr) = (if trim raw \<noteq> [] \<and> fr \<noteq> Some ''length'' then Some raw else None)"
| "non_plan_answer _ = None"

section \<open>Ceilings\<close>

datatype Exhausted = Plans | Time

definition exhausted :: "nat \<Rightarrow> nat \<Rightarrow> nat option \<Rightarrow> nat \<Rightarrow> Exhausted option" where
  "exhausted plan_count max_plans deadline now =
     (if plan_count \<ge> max_plans then Some Plans
      else case deadline of
             Some d \<Rightarrow> if now \<ge> d then Some Time else None
           | None \<Rightarrow> None)"

definition CALL_TIMEOUT_FLOOR :: nat where "CALL_TIMEOUT_FLOOR = 120"

text \<open>Durations in seconds.\<close>

definition call_timeout :: "nat \<Rightarrow> nat option \<Rightarrow> nat \<Rightarrow> nat" where
  "call_timeout configured deadline now =
     (case deadline of
        None \<Rightarrow> configured
      | Some d \<Rightarrow> min configured (max (d - now) CALL_TIMEOUT_FLOOR))"

fun exhausted_detail :: "Exhausted \<Rightarrow> nat \<Rightarrow> bool \<Rightarrow> rstr" where
  "exhausted_detail which max_plans after_synthesis =
     (let head = (case which of
                    Plans \<Rightarrow> ''plan_iteration_cap_exceeded ('' @ show_nat max_plans @ ''>='' @ show_nat max_plans @ '')''
                  | Time \<Rightarrow> ''plan_time_ceiling_exceeded'')
      in if after_synthesis then head @ ''; forced synthesis did not produce a final answer'' else head)"

section \<open>The run state\<close>

record TaskContext = FloorState +
  tc_task_id :: int
  tc_instruction :: rstr
  tc_plans :: "PlanRecord list"
  tc_advisories :: "rstr list"
  tc_blocks :: "rstr list"
  tc_plan_count :: nat
  tc_max_plans :: nat
  tc_deadline :: "nat option"
  tc_resolved_asks :: "Ask list"

record ExecState =
  ex_dispatch_count :: nat
  ex_invoke_used :: bool
  ex_gathered :: bool

datatype LoopEvent =
    EvFormulate Plan DataCeilingSource
  | EvFormulateFailed bool bool AgentError
  | EvInvokeRejected rstr "rstr list"
  | EvInvoked int rstr nat
  | EvVerdict Verdict
  | EvApprovalApplied int rstr
  | EvAskRaised int Plan RestoredRun
  | EvDispatch PlannedStep StepOutcome
  | EvPlanOutcome nat nat bool
  | EvInvokeOutcome int rstr nat nat bool

record RunState =
  rs_ctx :: TaskContext
  rs_exec :: ExecState
  rs_failed_llm :: nat
  rs_clk :: nat
  rs_trace :: "LoopEvent list"

type_synonym formulation = "AgentError + (Plan \<times> nat)"

record World =
  w_observe :: "nat \<Rightarrow> rstr + rstr"
  w_now :: "nat \<Rightarrow> nat"
  w_formulate :: "nat \<Rightarrow> TaskContext \<Rightarrow> bool \<Rightarrow> formulation"
  w_synth_without_thinking :: "nat \<Rightarrow> TaskContext \<Rightarrow> formulation option"
  w_reformat :: "nat \<Rightarrow> TaskContext \<Rightarrow> bool \<Rightarrow> rstr \<Rightarrow> formulation option"
  w_audit :: "nat \<Rightarrow> rstr option"
  w_qualify :: "rstr \<Rightarrow> rstr \<Rightarrow> rstr option"
  w_known_tools :: "rstr list"
  w_skill_rows :: "nat \<Rightarrow> rstr + skill_row list"
  w_raise_ask :: "nat \<Rightarrow> Plan \<Rightarrow> rstr \<Rightarrow> Severity \<Rightarrow> RestoredRun \<Rightarrow> rstr + int"
  w_dispatch :: "nat \<Rightarrow> PlannedStep \<Rightarrow> StepOutcome"
  w_json_text :: "json \<Rightarrow> rstr"
  w_sha_hex :: "rstr \<Rightarrow> rstr"
  w_json_bytes :: "json \<Rightarrow> u8 list"
  w_sha :: "u8 list \<Rightarrow> digest"
  w_decode_template :: "json \<Rightarrow> L3SkillCandidate option"
  w_decode_python :: "json \<Rightarrow> PythonSkillCandidate option"

definition tick :: "RunState \<Rightarrow> RunState" where
  "tick rs = rs\<lparr>rs_clk := rs_clk rs + 1\<rparr>"

definition emit :: "LoopEvent \<Rightarrow> RunState \<Rightarrow> RunState" where
  "emit ev rs = rs\<lparr>rs_trace := rs_trace rs @ [ev]\<rparr>"

section \<open>Failed calls\<close>

definition should_force_synthesis :: "bool \<Rightarrow> bool \<Rightarrow> bool \<Rightarrow> bool" where
  "should_force_synthesis timed_out gathered synth_attempted \<longleftrightarrow> timed_out \<and> gathered \<and> \<not> synth_attempted"

definition MAX_METHOD_CHARS :: nat where "MAX_METHOD_CHARS = 64"
definition OTHER_METHOD :: rstr where "OTHER_METHOD = ''other''"

text \<open>A method of at most 64 ASCII characters; a longer or non-ASCII one fails the character test or the
  length test alike, since a string of ASCII bytes has as many characters as bytes.\<close>

definition displayable_method :: "rstr \<Rightarrow> rstr" where
  "displayable_method method =
     (if method \<noteq> [] \<and> length method \<le> MAX_METHOD_CHARS \<and>
         list_all (\<lambda>c. is_ascii_alphanumeric c \<or> c = CHR ''.'' \<or> c = CHR ''_'' \<or> c = CHR ''-'') method
      then method else OTHER_METHOD)"

record GatheredWork =
  gw_calls :: nat
  gw_succeeded :: nat
  gw_by_method :: "(rstr \<times> nat) list"

text \<open>The counts per method are a \<^verbatim>\<open>BTreeMap\<close>, here an association list sorted by key.\<close>

fun bump :: "rstr \<Rightarrow> (rstr \<times> nat) list \<Rightarrow> (rstr \<times> nat) list" where
  "bump k [] = [(k, 1)]"
| "bump k ((k', n) # m) = (if k = k' then (k', n + 1) # m else if k < k' then (k, 1) # (k', n) # m else (k', n) # bump k m)"

definition is_ok_step :: "StepOutcome \<Rightarrow> bool" where
  "is_ok_step o' = (case o' of OkStep v \<Rightarrow> True | ErrStep c d \<Rightarrow> False)"

definition count_call :: "GatheredWork \<Rightarrow> PlannedStep \<times> StepOutcome \<Rightarrow> GatheredWork" where
  "count_call work so =
     work\<lparr>gw_calls := gw_calls work + 1,
          gw_succeeded := gw_succeeded work + (if is_ok_step (snd so) then 1 else 0),
          gw_by_method := bump (displayable_method (step_method (fst so))) (gw_by_method work)\<rparr>"

definition from_plans :: "PlanRecord list \<Rightarrow> GatheredWork" where
  "from_plans plans =
     foldl count_call \<lparr>gw_calls = 0, gw_succeeded = 0, gw_by_method = []\<rparr>
       (concat (map (\<lambda>r. zip (plan_steps (pr_plan r)) (pr_outcomes r)) plans))"

definition times_sign :: rstr where "times_sign = [CHR 0xC3, CHR 0x97]"

definition plural :: "nat \<Rightarrow> rstr" where
  "plural n = (if n = 1 then [] else ''s'')"

definition timeout_failure_detail :: "GatheredWork \<Rightarrow> rstr \<Rightarrow> rstr" where
  "timeout_failure_detail work router_error =
     (if gw_calls work = 0
      then ''The language model ran out of time before it finished planning, so no tool was called and no answer was produced.''
      else ''The language model ran out of time before it could write an answer, so this task produced none. It had already made ''
           @ show_nat (gw_calls work) @ '' tool call'' @ plural (gw_calls work) @ '' ('' @ show_nat (gw_succeeded work)
           @ '' succeeded): '' @ join_comma (map (\<lambda>(m, n). m @ '' '' @ times_sign @ show_nat n) (gw_by_method work)) @ ''.'')
     @ '' Asking for less at once (fewer items, a narrower question) usually fits; the operator can also raise KASTELLAN_LLM_TIMEOUT_MS (a fast-lane task''
     @ [CHR 0x27] @ ''s time ceiling bounds each call too). [llm: '' @ router_error @ '']''"

definition decode_failure_detail :: "bool \<Rightarrow> rstr \<Rightarrow> rstr" where
  "decode_failure_detail blank decode_error =
     (if blank then ''The language model returned an empty answer, so this task produced none.''
      else ''The language model answered with something that is not a plan, so this task produced none.'')
     @ '' You can ask again. [llm: '' @ decode_error @ '']''"

definition token_cap_failure_detail :: "rstr \<Rightarrow> rstr" where
  "token_cap_failure_detail decode_error =
     ''The language model used its whole reply budget (16384 tokens) without finishing, so this task produced none. Asking for less at once (fewer items, a narrower question) usually fits. [llm: ''
     @ decode_error @ '']''"

definition forced_synthesis_no_answer_detail :: "GatheredWork \<Rightarrow> rstr" where
  "forced_synthesis_no_answer_detail work =
     ''A planning call ran out of time, so the task asked the language model to answer from the ''
     @ show_nat (gw_succeeded work) @ '' tool result'' @ plural (gw_succeeded work)
     @ '' already gathered '' @ em_dash @ '' and it asked for more tools instead of answering. No answer was produced. Asking for less at once usually fits; the operator can also raise KASTELLAN_LLM_TIMEOUT_MS (a fast-lane task''
     @ [CHR 0x27] @ ''s time ceiling bounds each call too). [llm: forced synthesis after a timeout did not produce a final answer]''"

section \<open>One planning turn\<close>

datatype Turn = Planned Plan nat | ForceSynthesis | FailedTurn rstr

record TurnState =
  ts_synth_turn :: bool
  ts_gathered :: bool
  ts_synth_attempted :: bool

text \<open>A failed call is counted and recorded; a failing audit insert is only logged.\<close>

definition sat_u32 :: "nat \<Rightarrow> nat" where
  "sat_u32 n = min n (2 ^ 32 - 1)"

definition note_failure :: "bool \<Rightarrow> bool \<Rightarrow> AgentError \<Rightarrow> World \<Rightarrow> RunState \<Rightarrow> RunState" where
  "note_failure synth suppressed e w rs =
     (let rs1 = rs\<lparr>rs_failed_llm := sat_u32 (rs_failed_llm rs + 1)\<rparr> in
      tick (if w_audit w (rs_clk rs1) = None then emit (EvFormulateFailed synth suppressed e) rs1 else rs1))"

record Attempt =
  at_result :: formulation
  at_retried :: bool
  at_suppressed :: bool
  at_recorded :: bool
  at_reasked :: bool

definition first_attempt :: "formulation \<Rightarrow> Attempt" where
  "first_attempt r = \<lparr>at_result = r, at_retried = False, at_suppressed = False, at_recorded = False, at_reasked = False\<rparr>"

definition attempt :: "World \<Rightarrow> bool \<Rightarrow> RunState \<Rightarrow> RunState \<times> Attempt" where
  "attempt w synth rs =
     (let first = w_formulate w (rs_clk rs) (rs_ctx rs) synth; rs1 = tick rs in
      case first of
        Ok pm \<Rightarrow> (rs1, first_attempt first)
      | Err e \<Rightarrow>
          if synth \<and> is_request_timeout e then
            (let rs2 = note_failure True False e w rs1 in
             case w_synth_without_thinking w (rs_clk rs2) (rs_ctx rs2) of
               Some retry \<Rightarrow> (tick rs2, (first_attempt retry)\<lparr>at_retried := True, at_suppressed := True\<rparr>)
             | None \<Rightarrow> (tick rs2, (first_attempt first)\<lparr>at_recorded := True\<rparr>))
          else if is_empty_completion e then
            (let rs2 = note_failure synth False e w rs1 in
             (tick rs2, (first_attempt (w_formulate w (rs_clk rs2) (rs_ctx rs2) synth))\<lparr>at_retried := True\<rparr>))
          else (case non_plan_answer e of
                  Some reply \<Rightarrow>
                    (let rs2 = note_failure synth False e w rs1 in
                     case w_reformat w (rs_clk rs2) (rs_ctx rs2) synth reply of
                       Some retry \<Rightarrow>
                         (tick rs2, (first_attempt retry)\<lparr>at_retried := True, at_suppressed := True, at_reasked := True\<rparr>)
                     | None \<Rightarrow> (tick rs2, (first_attempt first)\<lparr>at_recorded := True\<rparr>))
                | None \<Rightarrow> (rs1, first_attempt first)))"

definition failure_detail :: "RunState \<Rightarrow> bool \<Rightarrow> AgentError \<Rightarrow> rstr" where
  "failure_detail rs reasked e =
     (let detail = (if is_request_timeout e then timeout_failure_detail (from_plans (tc_plans (rs_ctx rs))) (show_agent_error e)
                    else if ran_out_of_tokens e then token_cap_failure_detail (show_agent_error e)
                    else case e of
                           Decode d raw fr \<Rightarrow> decode_failure_detail (trim raw = []) (show_agent_error e)
                         | _ \<Rightarrow> ''llm: '' @ show_agent_error e)
      in if reasked \<and> non_plan_answer e = None
         then ''The language model'' @ [CHR 0x27] @ ''s first answer was not a plan, so it was asked again. '' @ detail
         else detail)"

definition formulate_turn :: "World \<Rightarrow> TurnState \<Rightarrow> RunState \<Rightarrow> RunState \<times> Turn" where
  "formulate_turn w ts rs =
     (case attempt w (ts_synth_turn ts) rs of
        (rs1, a) \<Rightarrow>
          (case at_result a of
             Ok (plan, retry_count) \<Rightarrow> (rs1, Planned plan (if at_retried a then sat_u32 (retry_count + 1) else retry_count))
           | Err e \<Rightarrow>
               (let rs2 = (if at_recorded a then rs1 else note_failure (ts_synth_turn ts) (at_suppressed a) e w rs1) in
                if should_force_synthesis (is_request_timeout e \<or> ran_out_of_tokens e) (ts_gathered ts) (ts_synth_attempted ts)
                then (rs2, ForceSynthesis)
                else (rs2, FailedTurn (failure_detail rs2 (at_reasked a) e)))))"

section \<open>What a turn leaves alone\<close>

definition same_run :: "RunState \<Rightarrow> RunState \<Rightarrow> bool" where
  "same_run rs rs' \<longleftrightarrow> rs_ctx rs' = rs_ctx rs \<and> rs_exec rs' = rs_exec rs"

definition no_dispatch :: "LoopEvent list \<Rightarrow> bool" where
  "no_dispatch evs = list_all (\<lambda>e. case e of EvDispatch s o' \<Rightarrow> False | _ \<Rightarrow> True) evs"

definition extends :: "RunState \<Rightarrow> RunState \<Rightarrow> LoopEvent list \<Rightarrow> bool" where
  "extends rs rs' evs \<longleftrightarrow> rs_trace rs' = rs_trace rs @ evs"

lemma note_failure_props:
  "same_run rs (note_failure s p e w rs)" "\<exists>evs. extends rs (note_failure s p e w rs) evs \<and> no_dispatch evs"
  by (auto simp: note_failure_def Let_def same_run_def tick_def emit_def extends_def no_dispatch_def)

lemma same_run_trans: "same_run a b \<Longrightarrow> same_run b c \<Longrightarrow> same_run a c"
  by (simp add: same_run_def)

lemma same_run_tick [simp]: "same_run rs (tick rs')  \<longleftrightarrow> same_run rs rs'" "same_run (tick rs) rs' \<longleftrightarrow> same_run rs rs'"
  by (simp_all add: same_run_def tick_def)

lemma trace_tick [simp]: "rs_trace (tick rs) = rs_trace rs"
  by (simp add: tick_def)

definition quiet :: "RunState \<Rightarrow> RunState \<Rightarrow> bool" where
  "quiet rs rs' \<longleftrightarrow> same_run rs rs' \<and> (\<exists>evs. extends rs rs' evs \<and> no_dispatch evs)"

lemma quiet_refl [simp]: "quiet rs rs"
  by (auto simp: quiet_def same_run_def extends_def no_dispatch_def)

lemma quiet_tick [simp]: "quiet rs (tick rs') \<longleftrightarrow> quiet rs rs'" "quiet (tick rs) rs' \<longleftrightarrow> quiet rs rs'"
  by (auto simp: quiet_def extends_def)

lemma quiet_trans: "quiet a b \<Longrightarrow> quiet b c \<Longrightarrow> quiet a c"
  by (force simp: quiet_def same_run_def extends_def no_dispatch_def)

lemma quiet_note_failure: "quiet rs rs' \<Longrightarrow> quiet rs (note_failure s p e w rs')"
  using quiet_trans note_failure_props unfolding quiet_def by blast

end
