(* ===== verification/Inner_Loop.thy ===== *)
theory Inner_Loop
  imports Llm_Failure
begin

text \<open>
  The scheduler's inner loop: \<^verbatim>\<open>core/src/scheduler/inner_loop.rs\<close> (\<^verbatim>\<open>run_to_terminal\<close>), \<^verbatim>\<open>inner_loop/execute.rs\<close>
  (\<^verbatim>\<open>review_and_dispatch\<close>) and \<^verbatim>\<open>inner_loop/invoke_expand.rs\<close>. A turn formulates a plan, raises the floor, resolves
  the ceiling, expands an invoked skill, reviews, and only then dispatches. The phases of
  \<^verbatim>\<open>review_and_dispatch\<close> are one definition each, chained in the order of the code by \<open>bindf\<close>: a phase
  goes on, returns from the function, or raises a database error.
\<close>

section \<open>Outcomes\<close>

datatype Outcome =
    Completed json
  | Failed rstr
  | Cancelled
  | TimedOut
  | Blocked u8 rstr
  | Refused u8 rstr rstr
  | AwaitingOperator int
  | Denied int rstr

fun final_state :: "Outcome \<Rightarrow> rstr option" where
  "final_state (Completed v) = Some ''completed''"
| "final_state (Failed s) = Some ''failed''"
| "final_state Cancelled = Some ''cancelled''"
| "final_state TimedOut = Some ''timed_out''"
| "final_state (Blocked p r) = Some ''blocked''"
| "final_state (Refused p r b) = Some ''refused''"
| "final_state (Denied a r) = Some ''blocked''"
| "final_state (AwaitingOperator a) = None"

fun result_payload :: "Outcome \<Rightarrow> json option" where
  "result_payload (Completed v) = Some v"
| "result_payload (Failed s) = Some (JObj [(''kind'', JStr ''error''), (''detail'', JStr s)])"
| "result_payload (Blocked p r) =
     Some (JObj [(''kind'', JStr ''blocked''), (''principle'', JInt (uint p)), (''reason'', JStr r)])"
| "result_payload (Refused p r b) =
     Some (JObj [(''kind'', JStr ''refused''), (''principle'', JInt (uint p)), (''reason'', JStr r), (''body'', JStr b)])"
| "result_payload (Denied a r) =
     Some (JObj [(''kind'', JStr ''denied''), (''ask_id'', JInt a), (''reason'', JStr r)])"
| "result_payload _ = None"

record FinishedRun =
  fin_outcome :: Outcome
  fin_insight :: "rstr option"
  fin_skill :: "L3SkillCandidate option"
  fin_python_skill :: "PythonSkillCandidate option"

datatype Executed = Finished FinishedRun | Again | Dispatched

definition finished :: "Outcome \<Rightarrow> Executed" where
  "finished o' = Finished \<lparr>fin_outcome = o', fin_insight = None, fin_skill = None, fin_python_skill = None\<rparr>"

datatype StepPolicy = PlanPolicy | SiftReads nat

definition MAX_STEPS_PER_PLAN :: nat where "MAX_STEPS_PER_PLAN = 64"

fun policy_cap :: "StepPolicy \<Rightarrow> nat" where
  "policy_cap PlanPolicy = MAX_STEPS_PER_PLAN"
| "policy_cap (SiftReads cap) = cap"

fun stops_on_error :: "StepPolicy \<Rightarrow> bool" where
  "stops_on_error PlanPolicy = True"
| "stops_on_error (SiftReads cap) = False"

section \<open>Phases\<close>

text \<open>\<open>Raise\<close> is the \<^verbatim>\<open>Db\<close> error that the \<^verbatim>\<open>?\<close> operator passes up.\<close>

datatype 'a Flow = Raise rstr | Return Executed | Go 'a

definition bindf :: "RunState \<times> 'a Flow \<Rightarrow> (RunState \<Rightarrow> 'a \<Rightarrow> RunState \<times> 'b Flow) \<Rightarrow> RunState \<times> 'b Flow" where
  "bindf rf k =
     (case rf of
        (rs, Go x) \<Rightarrow> k rs x
      | (rs, Raise e) \<Rightarrow> (rs, Raise e)
      | (rs, Return x) \<Rightarrow> (rs, Return x))"

definition audit_row :: "World \<Rightarrow> LoopEvent \<Rightarrow> RunState \<Rightarrow> RunState \<times> unit Flow" where
  "audit_row w ev rs =
     (case w_audit w (rs_clk rs) of
        Some e \<Rightarrow> (tick rs, Raise e)
      | None \<Rightarrow> (tick (emit ev rs), Go ()))"

text \<open>The floor raise and the ceiling resolution.\<close>

definition prepare :: "Plan \<Rightarrow> RunState \<Rightarrow> RunState \<times> Plan \<times> ResolvedCeiling" where
  "prepare plan rs =
     (let ctx = fst (apply_floor_raise (rs_ctx rs) plan);
          resolved = resolve_data_ceiling (plan_data_ceiling plan) (classification_floor ctx)
      in (rs\<lparr>rs_ctx := ctx\<rparr>, plan\<lparr>plan_data_ceiling := Some (rc_ceiling resolved)\<rparr>, resolved))"

subsection \<open>Skill invocation\<close>

datatype InvokeExpansion = RefusedInvoke "rstr list" | Expanded "PlannedStep list" int rstr

fun malformed_str :: "MalformedInvoke \<Rightarrow> rstr" where
  "malformed_str HasSteps = ''invoke_skill may not be combined with hand-written steps''"
| "malformed_str Terminal = ''invoke_skill may not appear on a terminal (task_complete) plan''"
| "malformed_str HasL3Skill = ''invoke_skill may not be combined with an l3_skill crystallisation''"

definition refuse_invoke :: "World \<Rightarrow> rstr \<Rightarrow> rstr list \<Rightarrow> RunState \<Rightarrow> RunState \<times> InvokeExpansion Flow" where
  "refuse_invoke w name reasons rs =
     bindf (audit_row w (EvInvokeRejected name reasons) rs) (\<lambda>rs _. (rs, Go (RefusedInvoke reasons)))"

definition accept_invoke ::
    "World \<Rightarrow> rstr \<Rightarrow> int \<Rightarrow> PlannedStep list \<Rightarrow> RunState \<Rightarrow> RunState \<times> InvokeExpansion Flow" where
  "accept_invoke w name mid steps rs =
     bindf (audit_row w (EvInvoked mid name (length steps)) rs) (\<lambda>rs _. (rs, Go (Expanded steps mid name)))"

definition expand_python ::
    "World \<Rightarrow> DataClass \<Rightarrow> InvokeDirective \<Rightarrow> RunState \<Rightarrow> RunState \<times> InvokeExpansion Flow" where
  "expand_python w ceiling d rs =
     (case w_skill_rows w (rs_clk rs) of
        Err e \<Rightarrow> (tick rs, Raise e)
      | Ok rows \<Rightarrow>
          (case load_pinned_python_skill_by_name (w_decode_python w) rows (invoke_name d) of
             None \<Rightarrow> refuse_invoke w (invoke_name d) [''unknown or non-pinned skill: '' @ invoke_name d] (tick rs)
           | Some py \<Rightarrow>
               (case expand_python_for_agent (w_json_text w) (w_sha_hex w) (pp_candidate py) Pinned (pp_body_sha256 py)
                       ceiling (invoke_params d) of
                  Err reasons \<Rightarrow> refuse_invoke w (invoke_name d) reasons (tick rs)
                | Ok steps \<Rightarrow> accept_invoke w (invoke_name d) (pp_memory_id py) steps (tick rs))))"

definition expand_invoke_skill ::
    "World \<Rightarrow> Plan \<Rightarrow> InvokeDirective \<Rightarrow> DataClass \<Rightarrow> RunState \<Rightarrow> RunState \<times> InvokeExpansion Flow" where
  "expand_invoke_skill w plan directive ceiling rs =
     (case validate_invoke plan of
        Some (Err malformed) \<Rightarrow> refuse_invoke w (invoke_name directive) [malformed_str malformed] rs
      | Some (Ok d) \<Rightarrow>
          (case w_skill_rows w (rs_clk rs) of
             Err e \<Rightarrow> (tick rs, Raise e)
           | Ok rows \<Rightarrow>
               (case load_pinned_skill_by_name (w_decode_template w) rows (invoke_name d) of
                  Some pinned \<Rightarrow>
                    (case expand_for_agent (w_json_text w) (ps_template pinned) Pinned (invoke_args d) (w_known_tools w) ceiling of
                       Err reasons \<Rightarrow> refuse_invoke w (invoke_name d) reasons (tick rs)
                     | Ok steps \<Rightarrow> accept_invoke w (invoke_name d) (ps_memory_id pinned) steps (tick rs))
                | None \<Rightarrow> expand_python w ceiling d (tick rs)))
      | None \<Rightarrow> (rs, Go (RefusedInvoke [])))"

text \<open>The plan with its steps after expansion, and the invoked skill if there is one.\<close>

definition push_blocks :: "rstr list \<Rightarrow> RunState \<Rightarrow> RunState" where
  "push_blocks bs rs = rs\<lparr>rs_ctx := (rs_ctx rs)\<lparr>tc_blocks := tc_blocks (rs_ctx rs) @ bs\<rparr>\<rparr>"

definition invoke_phase ::
    "World \<Rightarrow> DataClass \<Rightarrow> Plan \<Rightarrow> RunState \<Rightarrow> RunState \<times> (Plan \<times> (int \<times> rstr) option) Flow" where
  "invoke_phase w ceiling plan rs =
     (case plan_invoke_skill plan of
        None \<Rightarrow> (rs, Go (plan, None))
      | Some directive \<Rightarrow>
          bindf (expand_invoke_skill w plan directive ceiling rs) (\<lambda>rs exp.
            case exp of
              RefusedInvoke reasons \<Rightarrow> (push_blocks (map (\<lambda>r. ''invoke_rejected: '' @ r) reasons) rs, Return Again)
            | Expanded steps mid name \<Rightarrow>
                (rs\<lparr>rs_exec := (rs_exec rs)\<lparr>ex_invoke_used := True\<rparr>\<rparr>, Go (plan\<lparr>plan_steps := steps\<rparr>, Some (mid, name)))))"

definition qualify_plan_methods :: "World \<Rightarrow> PlannedStep list \<Rightarrow> PlannedStep list" where
  "qualify_plan_methods w steps =
     map (\<lambda>s. case w_qualify w (step_tool s) (step_method s) of
                Some qualified \<Rightarrow> s\<lparr>step_method := qualified\<rparr>
              | None \<Rightarrow> s) steps"

subsection \<open>Review\<close>

definition review_context :: "RunState \<Rightarrow> ReviewStageContext" where
  "review_context rs =
     \<lparr>rv_task_id = tc_task_id (rs_ctx rs), rv_instruction = tc_instruction (rs_ctx rs),
      rv_classification_floor = classification_floor (rs_ctx rs), rv_plan_count = tc_plan_count (rs_ctx rs)\<rparr>"

definition approval_for :: "World \<Rightarrow> Plan \<Rightarrow> RunState \<Rightarrow> Ask option" where
  "approval_for w plan rs =
     find (\<lambda>a. ask_decide a (plan_digest (w_json_bytes w) (w_sha w) plan) = AskApproved) (tc_resolved_asks (rs_ctx rs))"

text \<open>What travels with a suspension: the inputs of \<^verbatim>\<open>resume_state_from\<close>.\<close>

definition run_history :: "TaskContext \<Rightarrow> RestoredRun" where
  "run_history ctx = \<lparr>rr_plans = tc_plans ctx, rr_advisories = tc_advisories ctx, rr_blocks = tc_blocks ctx\<rparr>"

text \<open>The row of \<^verbatim>\<open>emit_approval_applied\<close> is best effort: when its insert fails the run goes on.\<close>

definition emit_approval_applied :: "World \<Rightarrow> Ask \<Rightarrow> rstr \<Rightarrow> RunState \<Rightarrow> RunState" where
  "emit_approval_applied w approval digest rs =
     tick (if w_audit w (rs_clk rs) = None then emit (EvApprovalApplied (ask_id approval) digest) rs else rs)"

definition escalate :: "World \<Rightarrow> Plan \<Rightarrow> rstr \<Rightarrow> Severity \<Rightarrow> RunState \<Rightarrow> RunState \<times> unit Flow" where
  "escalate w plan reason sev rs =
     (case approval_for w plan rs of
        Some approval \<Rightarrow> (emit_approval_applied w approval (plan_digest (w_json_bytes w) (w_sha w) plan) rs, Go ())
      | None \<Rightarrow>
          (let history = run_history (rs_ctx rs) in
           case w_raise_ask w (rs_clk rs) plan reason sev history of
             Ok ask \<Rightarrow> (tick (emit (EvAskRaised ask plan history) rs), Return (finished (AwaitingOperator ask)))
           | Err e \<Rightarrow> (tick rs, Return (finished (Failed (''escalation could not be raised: '' @ e))))))"

definition apply_verdict :: "World \<Rightarrow> Plan \<Rightarrow> Verdict \<Rightarrow> RunState \<Rightarrow> RunState \<times> unit Flow" where
  "apply_verdict w plan verdict rs =
     (case verdict of
        ConstitutionalBlock principle reason \<Rightarrow> (rs, Return (finished (Blocked principle reason)))
      | Verdict.Block reason \<Rightarrow>
          if plan_refused plan = None then (push_blocks [reason] rs, Return Again) else (rs, Go ())
      | Escalate reason sev \<Rightarrow>
          if plan_refused plan = None then escalate w plan reason sev rs else (rs, Go ())
      | Advisory c \<Rightarrow>
          if plan_refused plan = None
          then (rs\<lparr>rs_ctx := (rs_ctx rs)\<lparr>tc_advisories := tc_advisories (rs_ctx rs) @ [c]\<rparr>\<rparr>, Go ())
          else (rs, Go ())
      | Approve \<Rightarrow> (rs, Go ()))"

subsection \<open>Plans that end the task\<close>

definition refusal_body :: "Plan \<Rightarrow> rstr" where
  "refusal_body plan =
     (case plan_result plan of
        None \<Rightarrow> []
      | Some v \<Rightarrow> (case json_get v ''body'' of None \<Rightarrow> [] | Some b \<Rightarrow> (case json_as_str b of None \<Rightarrow> [] | Some s \<Rightarrow> s)))"

definition complete :: "bool \<Rightarrow> Plan \<Rightarrow> RunState \<Rightarrow> FinishedRun" where
  "complete synth_turn plan rs =
     (let keep = (ex_dispatch_count (rs_exec rs) \<ge> 1 \<and> \<not> ex_invoke_used (rs_exec rs) \<and> \<not> synth_turn) in
      \<lparr>fin_outcome = Completed (case plan_result plan of Some v \<Rightarrow> v | None \<Rightarrow> JObj [(''kind'', JStr ''text''), (''body'', JStr [])]),
       fin_insight = completion_insight plan,
       fin_skill = (if keep then completion_skill plan else None),
       fin_python_skill = (if keep then completion_python_skill plan else None)\<rparr>)"

definition ending_phase ::
    "Plan \<Rightarrow> bool \<Rightarrow> Exhausted option \<Rightarrow> StepPolicy \<Rightarrow> RunState \<Rightarrow> RunState \<times> unit Flow" where
  "ending_phase plan synth_turn exh policy rs =
     (case plan_refused plan of
        Some r \<Rightarrow> (rs, Return (finished (Refused (refused_principle r) (refused_reason r) (refusal_body plan))))
      | None \<Rightarrow>
          if is_terminal plan then (rs, Return (Finished (complete synth_turn plan rs)))
          else if synth_turn then
            (case exh of
               None \<Rightarrow> (rs, Return (finished (Failed (forced_synthesis_no_answer_detail (from_plans (tc_plans (rs_ctx rs)))))))
             | Some which \<Rightarrow> (rs, Return (finished (Failed (exhausted_detail which (tc_max_plans (rs_ctx rs)) True)))))
          else if length (plan_steps plan) > policy_cap policy then
            (rs, Return (finished (Failed (''plan_step_cap_exceeded ('' @ show_nat (length (plan_steps plan)) @ '' > '' @
               show_nat (policy_cap policy) @ ''); refusing to execute a plan with more than '' @
               show_nat (policy_cap policy) @ '' steps in one iteration''))))
          else (rs, Go ()))"

subsection \<open>Dispatch\<close>

definition sat_inc :: "nat \<Rightarrow> nat" where
  "sat_inc n = sat_u32 (n + 1)"

fun dispatch_loop ::
    "World \<Rightarrow> StepPolicy \<Rightarrow> PlannedStep list \<Rightarrow> StepOutcome list \<Rightarrow> RunState \<Rightarrow> RunState \<times> StepOutcome list Flow" where
  "dispatch_loop w policy [] outcomes rs = (rs, Go outcomes)"
| "dispatch_loop w policy (step # steps) outcomes rs =
     (case w_observe w (rs_clk rs) of
        Err e \<Rightarrow> (tick rs, Raise e)
      | Ok st \<Rightarrow>
          if st = ''cancelled'' then (tick rs, Return (finished Cancelled))
          else
            let rs1 = tick rs;
                outcome = w_dispatch w (rs_clk rs1) step;
                rs2 = tick (emit (EvDispatch step outcome) rs1);
                rs3 = rs2\<lparr>rs_exec := (rs_exec rs2)\<lparr>ex_dispatch_count := sat_inc (ex_dispatch_count (rs_exec rs2))\<rparr>\<rparr>
            in if \<not> is_ok_step outcome \<and> stops_on_error policy then (rs3, Go (outcomes @ [outcome]))
               else dispatch_loop w policy steps (outcomes @ [outcome]) rs3)"

text \<open>The best-effort rows for content the planner's summary withholds, which the code writes after these, are not
  modelled.\<close>

definition record_phase ::
    "World \<Rightarrow> Plan \<Rightarrow> (int \<times> rstr) option \<Rightarrow> StepOutcome list \<Rightarrow> RunState \<Rightarrow> RunState \<times> unit Flow" where
  "record_phase w plan invoked outcomes rs =
     (let total = length (plan_steps plan);
          executed = length outcomes;
          any_err = list_ex (\<lambda>o'. \<not> is_ok_step o') outcomes;
          rs1 = (if list_ex is_ok_step outcomes
                 then rs\<lparr>rs_exec := (rs_exec rs)\<lparr>ex_gathered := True\<rparr>\<rparr> else rs)
      in bindf (audit_row w (EvPlanOutcome executed total any_err) rs1) (\<lambda>rs2 _.
         bindf (case invoked of
                  None \<Rightarrow> (rs2, Go ())
                | Some (mid, name) \<Rightarrow> audit_row w (EvInvokeOutcome mid name executed total any_err) rs2) (\<lambda>rs3 _.
           (rs3\<lparr>rs_ctx := (rs_ctx rs3)\<lparr>tc_plans := tc_plans (rs_ctx rs3) @ [PlanRecord_new plan outcomes]\<rparr>\<rparr>, Return Dispatched))))"

section \<open>One reviewed plan\<close>

definition review_and_dispatch ::
    "World \<Rightarrow> ReviewStage list \<Rightarrow> Plan \<Rightarrow> bool \<Rightarrow> Exhausted option \<Rightarrow> StepPolicy \<Rightarrow> RunState \<Rightarrow> RunState \<times> unit Flow" where
  "review_and_dispatch w stages plan0 synth_turn exh policy rs0 =
     (case prepare plan0 rs0 of
        (rs1, plan1, resolved) \<Rightarrow>
          bindf (audit_row w (EvFormulate plan1 (rc_source resolved)) rs1) (\<lambda>rs2 _.
          bindf (invoke_phase w (rc_ceiling resolved) plan1 rs2) (\<lambda>rs3 (plan2, invoked).
            let plan3 = plan2\<lparr>plan_steps := qualify_plan_methods w (plan_steps plan2)\<rparr>;
                verdict = chain_review stages plan3 (review_context rs3)
            in bindf (audit_row w (EvVerdict verdict) rs3) (\<lambda>rs4 _.
               bindf (apply_verdict w plan3 verdict rs4) (\<lambda>rs5 _.
               bindf (ending_phase plan3 synth_turn exh policy rs5) (\<lambda>rs6 _.
               bindf (dispatch_loop w policy (plan_steps plan3) [] rs6) (\<lambda>rs7 outcomes.
                 record_phase w plan3 invoked outcomes rs7)))))))"

section \<open>What every phase keeps\<close>

text \<open>The task, its bounds and its approvals stay; the floor only rises; results once gathered stay gathered.\<close>

definition frame :: "RunState \<Rightarrow> RunState \<Rightarrow> bool" where
  "frame a b \<longleftrightarrow>
     tc_task_id (rs_ctx b) = tc_task_id (rs_ctx a) \<and> tc_instruction (rs_ctx b) = tc_instruction (rs_ctx a) \<and>
     tc_plan_count (rs_ctx b) = tc_plan_count (rs_ctx a) \<and> tc_max_plans (rs_ctx b) = tc_max_plans (rs_ctx a) \<and>
     tc_deadline (rs_ctx b) = tc_deadline (rs_ctx a) \<and> tc_resolved_asks (rs_ctx b) = tc_resolved_asks (rs_ctx a) \<and>
     classification_floor (rs_ctx a) \<le> classification_floor (rs_ctx b) \<and>
     (ex_gathered (rs_exec a) \<longrightarrow> ex_gathered (rs_exec b))"

definition calm :: "RunState \<Rightarrow> RunState \<Rightarrow> bool" where
  "calm a b \<longleftrightarrow> frame a b \<and> ex_dispatch_count (rs_exec b) = ex_dispatch_count (rs_exec a) \<and> (\<exists>evs. extends a b evs \<and> no_dispatch evs)"

lemma frame_refl [simp]: "frame a a"
  by (simp add: frame_def)

lemma frame_trans: "frame a b \<Longrightarrow> frame b c \<Longrightarrow> frame a c"
  by (auto simp: frame_def)

lemma calm_refl [simp]: "calm a a"
  by (auto simp: calm_def extends_def no_dispatch_def)

lemma calm_trans: "calm a b \<Longrightarrow> calm b c \<Longrightarrow> calm a c"
  unfolding calm_def extends_def no_dispatch_def using frame_trans by (fastforce intro: exI [of _ "_ @ _"])

lemma frame_tick [simp]: "frame a (tick b) \<longleftrightarrow> frame a b"
  by (simp add: frame_def tick_def)

lemma calm_tick [simp]: "calm a (tick b) \<longleftrightarrow> calm a b"
  by (simp add: calm_def extends_def tick_def frame_def)

lemma calm_emit: "calm a b \<Longrightarrow> no_dispatch [ev] \<Longrightarrow> calm a (emit ev b)"
  unfolding calm_def frame_def extends_def no_dispatch_def emit_def by fastforce

lemma calm_audit_row: "audit_row w ev rs = (rs', f) \<Longrightarrow> no_dispatch [ev] \<Longrightarrow> calm rs rs'"
  by (auto simp: audit_row_def calm_emit split: option.splits)

lemma audit_row_not_Return: "audit_row w ev rs = (rs', f) \<Longrightarrow> f \<noteq> Return x"
  by (auto simp: audit_row_def split: option.splits)

text \<open>Only \<open>EvDispatch\<close> is a dispatch.\<close>

lemma no_dispatch_simps [simp]:
  "no_dispatch []" "no_dispatch (a @ b) \<longleftrightarrow> no_dispatch a \<and> no_dispatch b"
  "no_dispatch [EvFormulate p c]" "no_dispatch [EvInvokeRejected n r]" "no_dispatch [EvInvoked m n k]"
  "no_dispatch [EvVerdict v]" "no_dispatch [EvApprovalApplied i d]" "no_dispatch [EvAskRaised i q h]"
  "no_dispatch [EvPlanOutcome j k b']" "no_dispatch [EvInvokeOutcome m n j k b']" "\<not> no_dispatch [EvDispatch s o']"
  by (simp_all add: no_dispatch_def)

lemma bindf_cases:
  assumes "bindf (rs1, f) k = (rs', g)"
  obtains (go) x where "f = Go x" "k rs1 x = (rs', g)"
    | (raise) e where "f = Raise e" "rs' = rs1" "g = Raise e"
    | (return) x where "f = Return x" "rs' = rs1" "g = Return x"
  using assms by (cases f) (auto simp: bindf_def)

lemma calm_bindf:
  assumes "bindf rf k = (rs', g)" and "calm rs (fst rf)"
    and "\<And>x. snd rf = Go x \<Longrightarrow> k (fst rf) x = (rs', g) \<Longrightarrow> calm (fst rf) rs'"
  shows "calm rs rs'"
proof -
  obtain rs1 f where rf: "rf = (rs1, f)" by (cases rf)
  from assms(1) have "bindf (rs1, f) k = (rs', g)" by (simp add: rf)
  then show ?thesis
    using assms(2,3) calm_trans by (cases rule: bindf_cases) (auto simp: rf)
qed

lemma calm_silent:
  "frame a b \<Longrightarrow> ex_dispatch_count (rs_exec b) = ex_dispatch_count (rs_exec a) \<Longrightarrow> rs_trace b = rs_trace a \<Longrightarrow> calm a b"
  by (simp add: calm_def extends_def)

lemma calm_push_blocks: "calm rs (push_blocks bs rs)"
  by (auto simp: calm_def frame_def push_blocks_def extends_def)

lemma calm_refuse_invoke: "refuse_invoke w n r rs = (rs', f) \<Longrightarrow> calm rs rs'"
  unfolding refuse_invoke_def
  by (erule calm_bindf) (auto simp: calm_audit_row [OF surjective_pairing])

lemma calm_accept_invoke: "accept_invoke w n m s rs = (rs', f) \<Longrightarrow> calm rs rs'"
  unfolding accept_invoke_def
  by (erule calm_bindf) (auto simp: calm_audit_row [OF surjective_pairing])

lemma calm_from_tick: "calm (tick rs) rs' \<Longrightarrow> calm rs rs'"
  using calm_trans [of rs "tick rs" rs'] by simp

lemmas calm_invoke_ends = calm_refuse_invoke [THEN calm_from_tick] calm_accept_invoke [THEN calm_from_tick]

lemma calm_expand_python: "expand_python w c d rs = (rs', f) \<Longrightarrow> calm rs rs'"
  by (auto simp: expand_python_def split: sum.splits option.splits dest: calm_invoke_ends)

lemma calm_expand_invoke_skill: "expand_invoke_skill w plan d c rs = (rs', f) \<Longrightarrow> calm rs rs'"
  by (auto simp: expand_invoke_skill_def split: sum.splits option.splits
      dest: calm_invoke_ends calm_refuse_invoke calm_expand_python [THEN calm_from_tick])

lemma calm_invoke_phase: "invoke_phase w c plan rs = (rs', f) \<Longrightarrow> calm rs rs'"
proof (cases "plan_invoke_skill plan")
  case (Some d)
  have used: "calm r (r\<lparr>rs_exec := (rs_exec r)\<lparr>ex_invoke_used := True\<rparr>\<rparr>)" for r :: RunState
    by (rule calm_silent) (simp_all add: frame_def)
  assume "invoke_phase w c plan rs = (rs', f)"
  then show ?thesis
    unfolding invoke_phase_def Some option.case
  proof (rule calm_bindf)
    show "calm rs (fst (expand_invoke_skill w plan d c rs))"
      by (rule calm_expand_invoke_skill [OF surjective_pairing])
  qed (auto simp: calm_push_blocks used split: InvokeExpansion.splits)
qed (simp add: invoke_phase_def)

lemma calm_escalate: "escalate w plan r s rs = (rs', f) \<Longrightarrow> calm rs rs'"
  by (auto simp: escalate_def emit_approval_applied_def Let_def calm_emit split: option.splits sum.splits)

lemma calm_apply_verdict: "apply_verdict w plan v rs = (rs', f) \<Longrightarrow> calm rs rs'"
  by (auto simp: apply_verdict_def calm_push_blocks split: Verdict.splits if_splits dest: calm_escalate)
    (auto simp: calm_def frame_def extends_def)

lemma ending_phase_state: "ending_phase plan st exh policy rs = (rs', f) \<Longrightarrow> rs' = rs"
  by (auto simp: ending_phase_def split: option.splits if_splits)

lemma calm_prepare: "prepare plan rs = (rs', plan', r) \<Longrightarrow> calm rs rs'"
  using apply_floor_raise_mono [of "rs_ctx rs" plan] apply_floor_raise_more [of "rs_ctx rs" plan]
  by (cases "apply_floor_raise (rs_ctx rs) plan")
    (auto simp: prepare_def Let_def calm_def frame_def extends_def apply_floor_raise_def split: option.splits if_splits)

lemma calm_record_phase: "record_phase w plan iv outs rs = (rs', f) \<Longrightarrow> calm rs rs'"
proof -
  assume r: "record_phase w plan iv outs rs = (rs', f)"
  define any_err where "any_err = list_ex (\<lambda>o'. \<not> is_ok_step o') outs"
  define rs1 where "rs1 = (if list_ex is_ok_step outs then rs\<lparr>rs_exec := (rs_exec rs)\<lparr>ex_gathered := True\<rparr>\<rparr> else rs)"
  define inner where "inner r = (case iv of None \<Rightarrow> (r, Go ())
     | Some (mid, name) \<Rightarrow> audit_row w (EvInvokeOutcome mid name (length outs) (length (plan_steps plan)) any_err) r)" for r
  define last where "last r = (r\<lparr>rs_ctx := (rs_ctx r)\<lparr>tc_plans := tc_plans (rs_ctx r) @ [PlanRecord_new plan outs]\<rparr>\<rparr> :: RunState)" for r
  have steps: "calm rs rs1" "\<And>r. calm r (fst (inner r))" "\<And>r. calm r (last r)"
    by (auto simp: rs1_def inner_def last_def frame_def calm_audit_row [OF surjective_pairing]
        intro!: calm_silent split: option.splits)
  from r have "bindf (audit_row w (EvPlanOutcome (length outs) (length (plan_steps plan)) any_err) rs1)
      (\<lambda>rs2 _. bindf (inner rs2) (\<lambda>rs3 _. (last rs3, Return Dispatched))) = (rs', f)"
    unfolding record_phase_def Let_def any_err_def rs1_def inner_def last_def .
  then have "calm rs1 rs'"
  proof (rule calm_bindf)
    show "calm rs1 (fst (audit_row w (EvPlanOutcome (length outs) (length (plan_steps plan)) any_err) rs1))"
      by (rule calm_audit_row [OF surjective_pairing]) simp
  qed (erule calm_bindf, auto simp: steps)
  then show ?thesis using steps(1) calm_trans by blast
qed

lemma record_phase_ends: "record_phase w plan iv outs rs = (rs', f) \<Longrightarrow> f \<noteq> Go x"
  by (auto simp: record_phase_def Let_def bindf_def audit_row_def split: option.splits prod.splits if_splits)

section \<open>What a reviewed plan may do\<close>

text \<open>The verdicts under which a plan may go on: an approval, an advisory, or an escalation that a resolved ask
  covers for this plan's digest. A block never is.\<close>

definition authorised :: "World \<Rightarrow> Ask list \<Rightarrow> Plan \<Rightarrow> Verdict \<Rightarrow> bool" where
  "authorised w asks plan v =
     (case v of
        Approve \<Rightarrow> True
      | Advisory c \<Rightarrow> True
      | Escalate r s \<Rightarrow> list_ex (\<lambda>a. ask_decide a (plan_digest (w_json_bytes w) (w_sha w) plan) = AskApproved) asks
      | _ \<Rightarrow> False)"

definition dispatches :: "PlannedStep list \<Rightarrow> StepOutcome list \<Rightarrow> LoopEvent list" where
  "dispatches steps outs = map (\<lambda>(s, o'). EvDispatch s o') (zip steps outs)"

text \<open>One turn of the trace in which steps may run: its verdict, the row of an applied approval, and then the
  dispatch of a prefix of the very steps that were reviewed, ending at the first failure.\<close>

definition reviewed_turn ::
    "World \<Rightarrow> ReviewStage list \<Rightarrow> Ask list \<Rightarrow> StepPolicy \<Rightarrow> Plan \<Rightarrow> ReviewStageContext \<Rightarrow> LoopEvent list \<Rightarrow> bool" where
  "reviewed_turn w stages asks pol plan ctx evs \<longleftrightarrow>
     (\<exists>pre auth outs post.
        evs = pre @ [EvVerdict (chain_review stages plan ctx)] @ auth @ dispatches (take (length outs) (plan_steps plan)) outs @ post \<and>
        no_dispatch pre \<and> no_dispatch auth \<and> no_dispatch post \<and>
        authorised w asks plan (chain_review stages plan ctx) \<and>
        plan_refused plan = None \<and> \<not> is_terminal plan \<and>
        length outs \<le> length (plan_steps plan) \<and> length (plan_steps plan) \<le> policy_cap pol \<and>
        (stops_on_error pol \<longrightarrow> list_all is_ok_step (butlast outs)))"

lemma no_dispatch_dispatches [simp]:
  "length outs \<le> length steps \<Longrightarrow> no_dispatch (dispatches steps outs) \<longleftrightarrow> outs = []"
  by (cases outs; cases steps) (simp_all add: dispatches_def no_dispatch_def)

lemma dispatches_simps [simp]:
  "dispatches steps [] = []" "dispatches (s # steps) (o' # outs) = EvDispatch s o' # dispatches steps outs"
  by (simp_all add: dispatches_def)

lemma extends_trans: "extends a b xs \<Longrightarrow> extends b c ys \<Longrightarrow> extends a c (xs @ ys)"
  by (simp add: extends_def)

lemma extends_refl [simp]: "extends a a []"
  by (simp add: extends_def)

lemma extends_tick [simp]: "extends (tick a) b evs \<longleftrightarrow> extends a b evs" "extends a (tick b) evs \<longleftrightarrow> extends a b evs"
  by (simp_all add: extends_def)

subsection \<open>The dispatch loop\<close>

lemma sat_u32_add: "sat_u32 (sat_u32 n + k) = sat_u32 (n + k)" "sat_u32 (Suc (sat_u32 n + k)) = sat_u32 (Suc (n + k))"
  by (auto simp: sat_u32_def min_def)

text \<open>The steps that ran, the outcome of each, and the counter, which saturates.\<close>

definition ran :: "StepPolicy \<Rightarrow> PlannedStep list \<Rightarrow> RunState \<Rightarrow> RunState \<Rightarrow> StepOutcome list \<Rightarrow> bool" where
  "ran pol steps rs rs' outs \<longleftrightarrow>
     length outs \<le> length steps \<and> extends rs rs' (dispatches (take (length outs) steps) outs) \<and>
     (stops_on_error pol \<longrightarrow> list_all is_ok_step (butlast outs)) \<and>
     (\<forall>n. ex_dispatch_count (rs_exec rs) = sat_u32 n \<longrightarrow> ex_dispatch_count (rs_exec rs') = sat_u32 (n + length outs))"

lemma ran_Nil: "ex_dispatch_count (rs_exec rs') = ex_dispatch_count (rs_exec rs) \<Longrightarrow> rs_trace rs' = rs_trace rs \<Longrightarrow> ran pol steps rs rs' []"
  by (simp add: ran_def extends_def)

lemma ran_Cons:
  assumes "extends rs rs1 [EvDispatch s o']" and "ex_dispatch_count (rs_exec rs1) = sat_inc (ex_dispatch_count (rs_exec rs))"
    and "ran pol steps rs1 rs' outs" and "is_ok_step o' \<or> \<not> stops_on_error pol \<or> outs = []"
  shows "ran pol (s # steps) rs rs' (o' # outs)"
proof -
  have "ex_dispatch_count (rs_exec rs') = sat_u32 (n + length (o' # outs))" if "ex_dispatch_count (rs_exec rs) = sat_u32 n" for n
    using assms(2,3) that by (auto simp: ran_def sat_inc_def sat_u32_add)
  then show ?thesis using assms(1,3,4) by (auto simp: ran_def extends_def)
qed

lemma dispatch_loop_trace:
  assumes "dispatch_loop w pol steps acc rs = (rs', f)"
  shows "frame rs rs' \<and> (\<exists>outs. ran pol steps rs rs' outs \<and> (\<forall>x. f = Go x \<longrightarrow> x = acc @ outs))"
  using assms
proof (induction w pol steps acc rs rule: dispatch_loop.induct)
  case (1 w pol acc rs)
  then show ?case using ran_Nil [of rs rs] by auto
next
  case (2 w pol step steps acc rs)
  define outcome where "outcome = w_dispatch w (rs_clk (tick rs)) step"
  define rs2 where "rs2 = tick (emit (EvDispatch step outcome) (tick rs))"
  define rs3 where "rs3 = rs2\<lparr>rs_exec := (rs_exec rs2)\<lparr>ex_dispatch_count := sat_inc (ex_dispatch_count (rs_exec rs2))\<rparr>\<rparr>"
  have rs3: "frame rs rs3" "extends rs rs3 [EvDispatch step outcome]"
      "ex_dispatch_count (rs_exec rs3) = sat_inc (ex_dispatch_count (rs_exec rs))"
    by (simp_all add: rs3_def rs2_def frame_def extends_def emit_def tick_def)
  have none: "ran pol (step # steps) rs (tick rs) []" by (rule ran_Nil) (simp_all add: tick_def)
  show ?case
  proof (cases "w_observe w (rs_clk rs)")
    case (Inl e)
    then show ?thesis using 2(2) none by auto
  next
    case (Inr st)
    consider (cancelled) "st = ''cancelled''" | (last) "st \<noteq> ''cancelled''" "\<not> is_ok_step outcome" "stops_on_error pol"
      | (next_step) "st \<noteq> ''cancelled''" "\<not> (\<not> is_ok_step outcome \<and> stops_on_error pol)" by blast
    then show ?thesis
    proof cases
      case cancelled
      then show ?thesis using 2(2) Inr none by auto
    next
      case last
      then have "rs' = rs3 \<and> f = Go (acc @ [outcome])"
        using 2(2) Inr by (simp add: outcome_def rs2_def rs3_def Let_def)
      moreover have "ran pol (step # steps) rs rs3 [outcome]"
        by (rule ran_Cons [OF rs3(2,3)]) (auto intro: ran_Nil)
      ultimately show ?thesis using rs3(1) by auto
    next
      case next_step
      then have "dispatch_loop w pol steps (acc @ [outcome]) rs3 = (rs', f)"
        using 2(2) Inr by (auto simp: outcome_def rs2_def rs3_def Let_def)
      then have "frame rs3 rs' \<and> (\<exists>outs. ran pol steps rs3 rs' outs \<and> (\<forall>x. f = Go x \<longrightarrow> x = (acc @ [outcome]) @ outs))"
        using 2(1) [OF Inr next_step(1) refl outcome_def refl refl] next_step(2) by (auto simp: rs2_def rs3_def outcome_def)
      then obtain outs where outs: "frame rs3 rs'" "ran pol steps rs3 rs' outs" "\<forall>x. f = Go x \<longrightarrow> x = acc @ outcome # outs"
        by auto
      have "ran pol (step # steps) rs rs' (outcome # outs)"
        using next_step(2) by (intro ran_Cons [OF rs3(2,3) outs(2)]) blast
      then show ?thesis using frame_trans [OF rs3(1) outs(1)] outs(3) by blast
    qed
  qed
qed

subsection \<open>The gate\<close>

lemma audit_row_Go: "audit_row w ev rs = (rs', Go u) \<Longrightarrow> rs_ctx rs' = rs_ctx rs \<and> extends rs rs' [ev]"
  by (auto simp: audit_row_def tick_def emit_def extends_def split: option.splits)

lemma ctx_tick [simp]: "rs_ctx (tick rs) = rs_ctx rs"
  by (simp add: tick_def)

lemma ctx_emit [simp]: "rs_ctx (emit ev rs) = rs_ctx rs"
  by (simp add: emit_def)

lemma ctx_audit_row [simp]: "rs_ctx (fst (audit_row w ev rs)) = rs_ctx rs"
  by (simp add: audit_row_def split: option.splits)

lemma ctx_bindf_audit [simp]:
  "rs_ctx (fst (bindf (audit_row w ev rs) k)) =
     (case audit_row w ev rs of (rs1, Go x) \<Rightarrow> rs_ctx (fst (k rs1 x)) | _ \<Rightarrow> rs_ctx rs)"
  by (auto simp: bindf_def audit_row_def split: option.splits)

lemma ctx_expand [simp]: "rs_ctx (fst (expand_invoke_skill w plan d c rs)) = rs_ctx rs"
  by (auto simp: expand_invoke_skill_def expand_python_def refuse_invoke_def accept_invoke_def audit_row_def bindf_def
      split: option.splits sum.splits)

lemma invoke_phase_Go:
  assumes "invoke_phase w c plan rs = (rs', Go (plan', iv))"
  shows "rs_ctx rs' = rs_ctx rs \<and> plan' = plan\<lparr>plan_steps := plan_steps plan'\<rparr> \<and> (iv = None \<longrightarrow> plan' = plan)"
proof (cases "plan_invoke_skill plan")
  case None
  then show ?thesis using assms by (simp add: invoke_phase_def)
next
  case (Some d)
  obtain a b where e: "expand_invoke_skill w plan d c rs = (a, b)" by fastforce
  have "rs_ctx a = rs_ctx rs" using ctx_expand [of w plan d c rs] by (simp add: e)
  then show ?thesis
    using assms Some e by (auto simp: invoke_phase_def bindf_def split: Flow.splits InvokeExpansion.splits)
qed

lemma apply_verdict_Go:
  assumes "apply_verdict w plan v rs = (rs', Go ())" and "plan_refused plan = None"
  shows "authorised w (tc_resolved_asks (rs_ctx rs)) plan v"
  using assms
  by (auto simp: apply_verdict_def authorised_def Let_def escalate_def approval_for_def find_Some_iff list_ex_iff
      split: Verdict.splits if_splits option.splits sum.splits dest: nth_mem)

lemma ending_phase_Go:
  "ending_phase plan st exh pol rs = (rs', Go ()) \<Longrightarrow>
     rs' = rs \<and> plan_refused plan = None \<and> \<not> is_terminal plan \<and> \<not> st \<and> length (plan_steps plan) \<le> policy_cap pol"
  by (auto simp: ending_phase_def split: option.splits if_splits)

lemma audit_bindf_cases:
  assumes "bindf (audit_row w ev rs) k = (rs', g)"
  obtains (early) "no_dispatch [ev] \<Longrightarrow> calm rs rs'" "\<forall>x. g \<noteq> Return x"
    | (go) rs1 where "audit_row w ev rs = (rs1, Go ())" "no_dispatch [ev] \<Longrightarrow> calm rs rs1" "k rs1 () = (rs', g)"
proof -
  obtain rs1 f where a: "audit_row w ev rs = (rs1, f)" by fastforce
  from assms show ?thesis unfolding a
    by (cases rule: bindf_cases) (use early go a calm_audit_row [OF a] audit_row_not_Return [OF a] in auto)
qed

text \<open>The reviewed plan is the formulated one with its ceiling resolved; only its steps may come from a skill.\<close>

definition resolved_plan :: "Plan \<Rightarrow> RunState \<Rightarrow> Plan" where
  "resolved_plan plan0 rs0 = fst (snd (prepare plan0 rs0))"

definition resolved_context :: "Plan \<Rightarrow> RunState \<Rightarrow> ReviewStageContext" where
  "resolved_context plan0 rs0 = review_context (fst (prepare plan0 rs0))"

lemma review_and_dispatch_cases:
  assumes "review_and_dispatch w stages plan0 st exh pol rs0 = (rs', g)"
  obtains (early) "calm rs0 rs'"
    | (reached) plan v rs3 rs4 rs5 rs7 f where
        "plan = (resolved_plan plan0 rs0)\<lparr>plan_steps := plan_steps plan\<rparr>"
        "v = chain_review stages plan (resolved_context plan0 rs0)"
        "calm rs0 rs3" "audit_row w (EvVerdict v) rs3 = (rs4, Go ())"
        "apply_verdict w plan v rs4 = (rs5, Go ())" "ending_phase plan st exh pol rs5 = (rs5, Go ())"
        "dispatch_loop w pol (plan_steps plan) [] rs5 = (rs7, f)" "calm rs7 rs'"
proof -
  obtain rs1 plan1 res where p: "prepare plan0 rs0 = (rs1, plan1, res)" by (metis prod_cases3)
  note c01 = calm_prepare [OF p]
  from assms show ?thesis unfolding review_and_dispatch_def p prod.case
  proof (cases rule: audit_bindf_cases)
    case early
    then show ?thesis using calm_trans [OF c01] that(1) by simp
  next
    case (go rs2)
    note c02 = calm_trans [OF c01 go(2) [OF no_dispatch_simps(3)]] and ctx2 = audit_row_Go [OF go(1)]
    obtain rs3 f3 where i: "invoke_phase w (rc_ceiling res) plan1 rs2 = (rs3, f3)" by fastforce
    note c03 = calm_trans [OF c02 calm_invoke_phase [OF i]]
    from go(3) show ?thesis unfolding i
    proof (cases rule: bindf_cases)
      case (go x)
      obtain plan2 iv where x: "x = (plan2, iv)" by fastforce
      note inv3 = invoke_phase_Go [OF i [unfolded go(1) x]]
      define plan where "plan = plan2\<lparr>plan_steps := qualify_plan_methods w (plan_steps plan2)\<rparr>"
      define v where "v = chain_review stages plan (review_context rs3)"
      have plan: "plan = (resolved_plan plan0 rs0)\<lparr>plan_steps := plan_steps plan\<rparr>"
      proof -
        obtain ss where "plan2 = plan1\<lparr>plan_steps := ss\<rparr>" using inv3 by blast
        then show ?thesis by (simp add: plan_def resolved_plan_def p)
      qed
      have ctx3: "review_context rs3 = resolved_context plan0 rs0"
        using inv3 ctx2 by (simp add: resolved_context_def p review_context_def)
      from go(2) show ?thesis unfolding x prod.case Let_def plan_def [symmetric] v_def [symmetric]
      proof (cases rule: audit_bindf_cases)
        case early
        then show ?thesis using calm_trans [OF c03] that(1) by simp
      next
        case (go rs4)
        note a4 = go(1) and c04 = calm_trans [OF c03 go(2) [OF no_dispatch_simps(6)]]
        obtain rs5 f5 where av: "apply_verdict w plan v rs4 = (rs5, f5)" by fastforce
        note c05 = calm_trans [OF c04 calm_apply_verdict [OF av]]
        from go(3) show ?thesis unfolding av
        proof (cases rule: bindf_cases)
          case (go u)
          obtain rs6 f6 where en: "ending_phase plan st exh pol rs5 = (rs6, f6)" by fastforce
          note e6 = ending_phase_state [OF en]
          from go(2) show ?thesis unfolding en
          proof (cases rule: bindf_cases)
            case (go u')
            obtain rs7 f7 where d: "dispatch_loop w pol (plan_steps plan) [] rs6 = (rs7, f7)" by fastforce
            from go(2) have "calm rs7 rs'" unfolding d
              by (cases rule: bindf_cases) (auto dest: calm_record_phase)
            then show ?thesis
              using that(2) [OF plan _ c03 a4 _ _ d [unfolded e6]] av en e6 go \<open>f5 = Go u\<close> v_def ctx3 by simp
          qed (use c05 e6 that(1) in auto)
        qed (use c05 that(1) in auto)
      qed
    qed (use c03 that(1) in auto)
  qed
qed

lemma calmE:
  assumes "calm a b"
  obtains evs where "frame a b" "extends a b evs" "no_dispatch evs" "ex_dispatch_count (rs_exec b) = ex_dispatch_count (rs_exec a)"
  using assms by (auto simp: calm_def)

definition dispatched :: "LoopEvent list \<Rightarrow> nat" where
  "dispatched evs = length (filter (\<lambda>e. case e of EvDispatch s o' \<Rightarrow> True | _ \<Rightarrow> False) evs)"

lemma dispatched_simps [simp]:
  "dispatched (a @ b) = dispatched a + dispatched b" "no_dispatch e \<Longrightarrow> dispatched e = 0"
  "length outs \<le> length steps \<Longrightarrow> dispatched (dispatches steps outs) = length outs"
  by (auto simp: dispatched_def no_dispatch_def dispatches_def list_all_iff filter_empty_conv split: LoopEvent.splits)
    (induction steps outs rule: list_induct2', auto)

lemma dispatched_verdict [simp]: "dispatched (EvVerdict v # e) = dispatched e"
  by (simp add: dispatched_def)

lemma reviewed_turn_dispatched: "reviewed_turn w stages asks pol plan ctx evs \<Longrightarrow> dispatched evs \<le> policy_cap pol"
  by (auto simp: reviewed_turn_def)

lemma review_and_dispatch_turn:
  assumes "review_and_dispatch w stages plan0 st exh pol rs0 = (rs', g)"
  shows "frame rs0 rs' \<and>
    (\<exists>evs. extends rs0 rs' evs \<and>
      (\<forall>n. ex_dispatch_count (rs_exec rs0) = sat_u32 n \<longrightarrow> ex_dispatch_count (rs_exec rs') = sat_u32 (n + dispatched evs)) \<and>
      (no_dispatch evs \<or>
       (\<not> st \<and> (\<exists>plan. plan = (resolved_plan plan0 rs0)\<lparr>plan_steps := plan_steps plan\<rparr> \<and>
          reviewed_turn w stages (tc_resolved_asks (rs_ctx rs0)) pol plan (resolved_context plan0 rs0) evs))))"
  using assms
proof (cases rule: review_and_dispatch_cases)
  case early
  then obtain evs where "frame rs0 rs'" "extends rs0 rs' evs" "no_dispatch evs"
    "ex_dispatch_count (rs_exec rs') = ex_dispatch_count (rs_exec rs0)" by (rule calmE)
  then show ?thesis by (intro conjI exI [of _ evs]) auto
next
  case (reached plan v rs3 rs4 rs5 rs7 f)
  from reached(3) obtain e1 where
    e1: "frame rs0 rs3" "extends rs0 rs3 e1" "no_dispatch e1" "ex_dispatch_count (rs_exec rs3) = ex_dispatch_count (rs_exec rs0)"
    by (rule calmE)
  from audit_row_Go [OF reached(4)] have a4: "rs_ctx rs4 = rs_ctx rs3" "extends rs3 rs4 [EvVerdict v]" by auto
  note en = ending_phase_Go [OF reached(6)]
  have asks: "tc_resolved_asks (rs_ctx rs4) = tc_resolved_asks (rs_ctx rs0)"
    using e1(1) a4(1) by (simp add: frame_def)
  from apply_verdict_Go [OF reached(5)] en have au: "authorised w (tc_resolved_asks (rs_ctx rs0)) plan v" by (simp add: asks)
  from calm_apply_verdict [OF reached(5)] obtain auth where auth: "extends rs4 rs5 auth" "no_dispatch auth" by (rule calmE)
  from dispatch_loop_trace [OF reached(7)] obtain outs where d: "frame rs5 rs7" "ran pol (plan_steps plan) rs5 rs7 outs"
    by blast
  from reached(8) obtain e2 where
    e2: "frame rs7 rs'" "extends rs7 rs' e2" "no_dispatch e2" "ex_dispatch_count (rs_exec rs') = ex_dispatch_count (rs_exec rs7)"
    by (rule calmE)
  have "calm rs3 rs5"
    using calm_trans [OF calm_audit_row [OF reached(4)] calm_apply_verdict [OF reached(5)]] by simp
  then have c35: "frame rs3 rs5" "ex_dispatch_count (rs_exec rs5) = ex_dispatch_count (rs_exec rs3)" by (simp_all add: calm_def)
  have fr: "frame rs0 rs'" using c35(1) e1(1) d(1) e2(1) frame_trans by blast
  define evs where "evs = e1 @ [EvVerdict v] @ auth @ dispatches (take (length outs) (plan_steps plan)) outs @ e2"
  have "extends rs0 rs' evs"
    using e1(2) a4(2) auth(1) d(2) e2(2) by (simp add: extends_def evs_def ran_def)
  moreover have "reviewed_turn w stages (tc_resolved_asks (rs_ctx rs0)) pol plan (resolved_context plan0 rs0) evs"
    unfolding reviewed_turn_def evs_def using e1(3) e2(3) auth(2) au en d(2) reached(2) unfolding ran_def by blast
  moreover have "dispatched evs = length outs"
    using e1(3) e2(3) auth(2) d(2) by (simp add: evs_def ran_def)
  ultimately show ?thesis
    using fr en reached(1) d(2) e1(4) e2(4) c35(2) unfolding ran_def by (intro conjI exI [of _ evs]) auto
qed

end
