(* ===== verification/Task_Loop.thy ===== *)
theory Task_Loop
  imports Inner_Loop
begin

text \<open>
  The loop of a task, \<^verbatim>\<open>run_to_terminal\<close> of \<^verbatim>\<open>core/src/scheduler/inner_loop.rs\<close>: poll for cancellation, test the ceilings,
  formulate, review and dispatch, again until an outcome. \<open>loop_body\<close> is one round of the Rust loop, and
  \<open>run_loop\<close> iterates it; its termination proof is the proof that a task ends for every behaviour of the
  outside world. Facts on a whole run go through the locale \<open>run_invariant\<close>.
\<close>

section \<open>The loop\<close>

datatype InnerLoopError = AgentErr AgentError | DbErr rstr

record InnerLoopResult =
  ir_outcome :: Outcome
  ir_plan_count :: nat
  ir_dispatch_count :: nat
  ir_failed_llm_calls :: nat
  ir_l1_insight :: "rstr option"
  ir_l3_skill :: "L3SkillCandidate option"
  ir_python_skill :: "PythonSkillCandidate option"

record LoopState =
  ls_run :: RunState
  ls_synth_attempted :: bool
  ls_force_synth :: bool

type_synonym loop_result = "InnerLoopError + InnerLoopResult"

definition finish :: "FinishedRun \<Rightarrow> RunState \<Rightarrow> loop_result" where
  "finish f rs = Ok
     \<lparr>ir_outcome = fin_outcome f, ir_plan_count = tc_plan_count (rs_ctx rs),
      ir_dispatch_count = ex_dispatch_count (rs_exec rs), ir_failed_llm_calls = rs_failed_llm rs,
      ir_l1_insight = fin_insight f, ir_l3_skill = fin_skill f, ir_python_skill = fin_python_skill f\<rparr>"

definition outcome_only :: "Outcome \<Rightarrow> FinishedRun" where
  "outcome_only o' = \<lparr>fin_outcome = o', fin_insight = None, fin_skill = None, fin_python_skill = None\<rparr>"

definition count_plan :: "RunState \<Rightarrow> RunState" where
  "count_plan rs = rs\<lparr>rs_ctx := (rs_ctx rs)\<lparr>tc_plan_count := tc_plan_count (rs_ctx rs) + 1\<rparr>\<rparr>"

definition planned_round ::
    "World \<Rightarrow> ReviewStage list \<Rightarrow> Plan \<Rightarrow> bool \<Rightarrow> Exhausted option \<Rightarrow> RunState \<Rightarrow> RunState \<times> loop_result option" where
  "planned_round w stages plan synth_turn exh rs =
     (case review_and_dispatch w stages plan synth_turn exh PlanPolicy (count_plan rs) of
        (rs', Raise e) \<Rightarrow> (rs', Some (Err (DbErr e)))
      | (rs', Return (Finished f)) \<Rightarrow> (rs', Some (finish f rs'))
      | (rs', _) \<Rightarrow> (rs', None))"

definition loop_body :: "World \<Rightarrow> ReviewStage list \<Rightarrow> LoopState \<Rightarrow> LoopState \<times> loop_result option" where
  "loop_body w stages ls =
     (let rs = ls_run ls in
      case w_observe w (rs_clk rs) of
        Err e \<Rightarrow> (ls, Some (Err (DbErr e)))
      | Ok st \<Rightarrow>
          if st = ''cancelled'' then (ls, Some (finish (outcome_only Cancelled) rs))
          else
            let exh = exhausted (tc_plan_count (rs_ctx rs)) (tc_max_plans (rs_ctx rs)) (tc_deadline (rs_ctx rs)) (w_now w (rs_clk rs));
                gathered = ex_gathered (rs_exec rs);
                synth_turn = (exh \<noteq> None \<or> ls_force_synth ls) \<and> gathered \<and> \<not> ls_synth_attempted ls
            in if exh \<noteq> None \<and> \<not> synth_turn
               then (ls, Some (finish (outcome_only (Failed (exhausted_detail (the exh) (tc_max_plans (rs_ctx rs)) False))) rs))
               else
                 let attempted = (ls_synth_attempted ls \<or> synth_turn) in
                 case formulate_turn w \<lparr>ts_synth_turn = synth_turn, ts_gathered = gathered, ts_synth_attempted = attempted\<rparr> (tick rs) of
                   (rs1, FailedTurn detail) \<Rightarrow>
                     (ls\<lparr>ls_run := rs1, ls_synth_attempted := attempted\<rparr>, Some (finish (outcome_only (Failed detail)) rs1))
                 | (rs1, ForceSynthesis) \<Rightarrow>
                     (ls\<lparr>ls_run := rs1, ls_synth_attempted := attempted, ls_force_synth := True\<rparr>, None)
                 | (rs1, Planned plan retries) \<Rightarrow>
                     (case planned_round w stages plan synth_turn exh rs1 of
                        (rs2, r) \<Rightarrow> (ls\<lparr>ls_run := rs2, ls_synth_attempted := attempted\<rparr>, r)))"

definition remaining :: "LoopState \<Rightarrow> nat" where
  "remaining ls =
     (tc_max_plans (rs_ctx (ls_run ls)) - tc_plan_count (rs_ctx (ls_run ls)))
     + (if ls_synth_attempted ls then 0 else 2) + (if ls_force_synth ls then 0 else 1)"

section \<open>One round\<close>

text \<open>A planning call changes neither the task context nor the counters of the execution.\<close>

lemma quiet_attempt: "attempt w synth rs = (rs', a) \<Longrightarrow> quiet rs rs'"
  by (auto simp: attempt_def Let_def quiet_note_failure split: sum.splits if_splits option.splits)

lemma quiet_formulate_turn: "formulate_turn w ts rs = (rs', t) \<Longrightarrow> quiet rs rs'"
  by (auto simp: formulate_turn_def Let_def split: prod.splits sum.splits if_splits
      dest!: quiet_attempt intro: quiet_note_failure)

lemma formulate_turn_ForceSynthesis:
  "formulate_turn w ts rs = (rs', ForceSynthesis) \<Longrightarrow> ts_gathered ts \<and> \<not> ts_synth_attempted ts"
  by (auto simp: formulate_turn_def Let_def should_force_synthesis_def split: prod.splits sum.splits if_splits)

lemma quiet_calm: "quiet a b \<Longrightarrow> calm a b"
  by (auto simp: quiet_def calm_def same_run_def frame_def)

text \<open>The three ways a round goes: it stops before any call, it plans nothing, or it plans.\<close>

lemma loop_body_cases:
  assumes "loop_body w stages ls = (ls', r)"
  obtains (stopped) "ls' = ls" "r \<noteq> None"
    | (unplanned) rs1 synth where "quiet (ls_run ls) rs1" "ls_run ls' = rs1" "ls_force_synth ls' \<or> r \<noteq> None"
        "r = None \<longrightarrow> \<not> synth \<and> \<not> ls_synth_attempted ls' \<and> \<not> ls_force_synth ls"
        "ls_synth_attempted ls' \<longleftrightarrow> ls_synth_attempted ls \<or> synth"
    | (planned) rs1 plan synth exh where "quiet (ls_run ls) rs1"
        "planned_round w stages plan synth exh rs1 = (ls_run ls', r)" "ls_force_synth ls' = ls_force_synth ls"
        "ls_synth_attempted ls' \<longleftrightarrow> ls_synth_attempted ls \<or> synth"
        "synth \<longrightarrow> \<not> ls_synth_attempted ls \<and> ex_gathered (rs_exec (ls_run ls))"
        "\<not> synth \<longrightarrow> exh = None \<and> tc_plan_count (rs_ctx (ls_run ls)) < tc_max_plans (rs_ctx (ls_run ls))"
proof -
  let ?rs = "ls_run ls"
  define exh where "exh = exhausted (tc_plan_count (rs_ctx ?rs)) (tc_max_plans (rs_ctx ?rs)) (tc_deadline (rs_ctx ?rs)) (w_now w (rs_clk ?rs))"
  define synth where "synth \<longleftrightarrow> (exh \<noteq> None \<or> ls_force_synth ls) \<and> ex_gathered (rs_exec ?rs) \<and> \<not> ls_synth_attempted ls"
  define attempted where "attempted \<longleftrightarrow> ls_synth_attempted ls \<or> synth"
  define ts where "ts = \<lparr>ts_synth_turn = synth, ts_gathered = ex_gathered (rs_exec ?rs), ts_synth_attempted = attempted\<rparr>"
  obtain rs1 t where f: "formulate_turn w ts (tick ?rs) = (rs1, t)" by fastforce
  have q: "quiet ?rs rs1" using quiet_formulate_turn [OF f] by simp
  have left: "tc_plan_count (rs_ctx ?rs) < tc_max_plans (rs_ctx ?rs)" if "exh = None"
    using that by (auto simp: exh_def exhausted_def split: if_splits)
  note body = assms [unfolded loop_body_def Let_def, folded exh_def, folded synth_def, folded attempted_def, folded ts_def, unfolded f]
  show ?thesis
  proof (cases "w_observe w (rs_clk ?rs)")
    case (Inl e)
    then show ?thesis using body stopped by auto
  next
    case (Inr st)
    show ?thesis
    proof (cases "st = ''cancelled'' \<or> (exh \<noteq> None \<and> \<not> synth)")
      case True
      then have "ls' = ls \<and> r \<noteq> None" using body Inr by (auto split: if_splits)
      then show ?thesis using stopped by blast
    next
      case False
      then have ns: "(st = ''cancelled'') = False" "(exh \<noteq> None \<and> \<not> synth) = False" by auto
      note run = body [unfolded Inr sum.case ns if_False prod.case]
      show ?thesis
      proof (cases t)
        case (Planned plan n)
        obtain rs2 r2 where pr: "planned_round w stages plan synth exh rs1 = (rs2, r2)" by fastforce
        then have "ls' = ls\<lparr>ls_run := rs2, ls_synth_attempted := attempted\<rparr>" "r = r2"
          using run [unfolded Planned Turn.case] by simp_all
        moreover have "\<not> synth \<longrightarrow> exh = None \<and> tc_plan_count (rs_ctx ?rs) < tc_max_plans (rs_ctx ?rs)"
          using False left by blast
        moreover have "synth \<longrightarrow> \<not> ls_synth_attempted ls \<and> ex_gathered (rs_exec ?rs)" by (simp add: synth_def)
        ultimately show ?thesis
          using q pr by (intro planned [of rs1 plan synth exh]) (simp_all add: attempted_def)
      next
        case ForceSynthesis
        then have "ls' = ls\<lparr>ls_run := rs1, ls_synth_attempted := attempted, ls_force_synth := True\<rparr>" "r = None"
          using run [unfolded ForceSynthesis Turn.case] by simp_all
        moreover have "ex_gathered (rs_exec ?rs)" "\<not> attempted"
          using formulate_turn_ForceSynthesis [OF f [unfolded ForceSynthesis]] by (simp_all add: ts_def)
        moreover from this have "\<not> synth" "\<not> ls_synth_attempted ls" "\<not> ls_force_synth ls"
          unfolding attempted_def synth_def by blast+
        ultimately show ?thesis
          using q by (intro unplanned [of rs1 synth]) (simp_all add: attempted_def)
      next
        case (FailedTurn d)
        then have "ls' = ls\<lparr>ls_run := rs1, ls_synth_attempted := attempted\<rparr>" "r \<noteq> None"
          using run [unfolded FailedTurn Turn.case] by auto
        then show ?thesis using q by (intro unplanned [of rs1 synth]) (auto simp: attempted_def)
      qed
    qed
  qed
qed

lemma planned_round_review:
  assumes "planned_round w stages plan synth exh rs = (rs', r)"
  obtains g where "review_and_dispatch w stages plan synth exh PlanPolicy (count_plan rs) = (rs', g)"
  using assms unfolding planned_round_def by (auto split: prod.splits Flow.splits Executed.splits)

lemma planned_round_frame:
  assumes "planned_round w stages plan synth exh rs = (rs', r)"
  shows "frame (count_plan rs) rs'"
  using assms review_and_dispatch_turn by (blast elim: planned_round_review)

lemma quiet_same: "quiet a b \<Longrightarrow> rs_ctx b = rs_ctx a \<and> rs_exec b = rs_exec a"
  by (simp add: quiet_def same_run_def)

lemma loop_body_decreases:
  assumes "loop_body w stages ls = (ls', None)"
  shows "remaining ls' < remaining ls"
  using assms
proof (cases rule: loop_body_cases)
  case (unplanned rs1 synth)
  then show ?thesis using quiet_same [OF unplanned(1)] by (simp add: remaining_def)
next
  case (planned rs1 plan synth exh)
  have "tc_plan_count (rs_ctx (ls_run ls')) = tc_plan_count (rs_ctx (ls_run ls)) + 1 \<and>
      tc_max_plans (rs_ctx (ls_run ls')) = tc_max_plans (rs_ctx (ls_run ls))"
    using planned_round_frame [OF planned(2)] quiet_same [OF planned(1)] by (simp add: frame_def count_plan_def)
  then show ?thesis using planned(3-6) by (cases synth) (auto simp: remaining_def)
qed simp

function run_loop :: "World \<Rightarrow> ReviewStage list \<Rightarrow> LoopState \<Rightarrow> LoopState \<times> loop_result" where
  "run_loop w stages ls =
     (case loop_body w stages ls of
        (ls', Some r) \<Rightarrow> (ls', r)
      | (ls', None) \<Rightarrow> run_loop w stages ls')"
  by pat_completeness auto
termination
  by (relation "measure (\<lambda>(w, stages, ls). remaining ls)") (auto dest: loop_body_decreases [OF sym])

declare run_loop.simps [simp del]

lemma run_loop_code [code]:
  "run_loop w stages ls =
     (case snd (loop_body w stages ls) of
        Some r \<Rightarrow> (fst (loop_body w stages ls), r)
      | None \<Rightarrow> run_loop w stages (fst (loop_body w stages ls)))"
  by (subst run_loop.simps) (auto split: prod.splits option.splits)

definition fresh_run :: "TaskContext \<Rightarrow> RunState" where
  "fresh_run ctx = \<lparr>rs_ctx = ctx, rs_exec = \<lparr>ex_dispatch_count = 0, ex_invoke_used = False, ex_gathered = False\<rparr>,
     rs_failed_llm = 0, rs_clk = 0, rs_trace = []\<rparr>"

definition run_to_terminal :: "World \<Rightarrow> ReviewStage list \<Rightarrow> TaskContext \<Rightarrow> RunState \<times> loop_result" where
  "run_to_terminal w stages ctx =
     (case run_loop w stages \<lparr>ls_run = fresh_run ctx, ls_synth_attempted = False, ls_force_synth = False\<rparr> of
        (ls, r) \<Rightarrow> (ls_run ls, r))"

section \<open>Invariants of a run\<close>

text \<open>What every round keeps holds when the run ends.\<close>

locale run_invariant =
  fixes w :: World and stages :: "ReviewStage list" and holds :: "LoopState \<Rightarrow> bool"
  assumes round: "holds ls \<Longrightarrow> loop_body w stages ls = (ls', r) \<Longrightarrow> holds ls'"
begin

lemma run: "holds ls \<Longrightarrow> run_loop w stages ls = (ls', r) \<Longrightarrow> holds ls'"
proof (induction "remaining ls" arbitrary: ls rule: less_induct)
  case less
  obtain ls1 r1 where b: "loop_body w stages ls = (ls1, r1)" by fastforce
  note h1 = round [OF less.prems(1) b]
  show ?case
  proof (cases r1)
    case None
    then have "run_loop w stages ls1 = (ls', r)" using less.prems(2) b by (simp add: run_loop.simps [of w stages ls])
    then show ?thesis using less.hyps [OF loop_body_decreases h1] b None by blast
  next
    case (Some r2)
    then show ?thesis using less.prems(2) b h1 by (simp add: run_loop.simps [of w stages ls])
  qed
qed

lemma whole_run:
  assumes "holds \<lparr>ls_run = fresh_run ctx, ls_synth_attempted = False, ls_force_synth = False\<rparr>"
    and "run_to_terminal w stages ctx = (rs, r)"
  obtains ls where "holds ls" "ls_run ls = rs"
  using assms(2) run [OF assms(1)] by (auto simp: run_to_terminal_def split: prod.splits)

end

text \<open>What every last round gives, under an invariant, the run gives.\<close>

locale run_outcome = run_invariant +
  fixes good :: "LoopState \<Rightarrow> loop_result \<Rightarrow> bool"
  assumes last_round: "holds ls \<Longrightarrow> loop_body w stages ls = (ls', Some r) \<Longrightarrow> good ls' r"
begin

lemma run_result: "holds ls \<Longrightarrow> run_loop w stages ls = (ls', r) \<Longrightarrow> good ls' r"
proof (induction "remaining ls" arbitrary: ls rule: less_induct)
  case less
  obtain ls1 r1 where b: "loop_body w stages ls = (ls1, r1)" by fastforce
  show ?case
  proof (cases r1)
    case None
    then have "run_loop w stages ls1 = (ls', r)" using less.prems(2) b by (simp add: run_loop.simps [of w stages ls])
    then show ?thesis using less.hyps [OF loop_body_decreases round [OF less.prems(1) b]] b None by blast
  next
    case (Some r2)
    then show ?thesis using less.prems b last_round by (simp add: run_loop.simps [of w stages ls])
  qed
qed

lemma whole_run_result:
  assumes "holds \<lparr>ls_run = fresh_run ctx, ls_synth_attempted = False, ls_force_synth = False\<rparr>"
    and "run_to_terminal w stages ctx = (rs, r)"
  obtains ls where "good ls r" "ls_run ls = rs"
  using assms(2) run_result [OF assms(1)] by (auto simp: run_to_terminal_def split: prod.splits)

end

subsection \<open>The number of plans\<close>

definition plans_bounded :: "nat \<Rightarrow> LoopState \<Rightarrow> bool" where
  "plans_bounded n ls \<longleftrightarrow> tc_max_plans (rs_ctx (ls_run ls)) = n \<and>
     tc_plan_count (rs_ctx (ls_run ls)) \<le> n + (if ls_synth_attempted ls then 1 else 0)"

interpretation plans: run_invariant w stages "plans_bounded n" for w stages n
proof
  fix ls ls' r
  assume h: "plans_bounded n ls" and "loop_body w stages ls = (ls', r)"
  from this(2) show "plans_bounded n ls'"
  proof (cases rule: loop_body_cases)
    case (unplanned rs1 synth)
    then show ?thesis using h quiet_same [OF unplanned(1)] by (auto simp: plans_bounded_def split: if_splits)
  next
    case (planned rs1 plan synth exh)
    have "tc_plan_count (rs_ctx (ls_run ls')) = tc_plan_count (rs_ctx (ls_run ls)) + 1 \<and>
        tc_max_plans (rs_ctx (ls_run ls')) = tc_max_plans (rs_ctx (ls_run ls))"
      using planned_round_frame [OF planned(2)] quiet_same [OF planned(1)] by (simp add: frame_def count_plan_def)
    then show ?thesis using planned(3-6) h by (cases synth) (simp_all add: plans_bounded_def)
  qed (use h in simp)
qed

subsection \<open>The trace of a run\<close>

text \<open>The trace of a run under the task's instruction, approvals and first floor: quiet rounds and reviewed
  rounds, each reviewed at a floor no lower than the first.\<close>

inductive disciplined :: "World \<Rightarrow> ReviewStage list \<Rightarrow> TaskContext \<Rightarrow> LoopEvent list \<Rightarrow> bool"
  for w :: World and stages :: "ReviewStage list" and c0 :: TaskContext where
  start: "disciplined w stages c0 []"
| unreviewed: "disciplined w stages c0 evs \<Longrightarrow> no_dispatch e \<Longrightarrow> disciplined w stages c0 (evs @ e)"
| reviewed: "disciplined w stages c0 evs \<Longrightarrow>
     reviewed_turn w stages (tc_resolved_asks c0) PlanPolicy plan ctx e \<Longrightarrow>
     rv_instruction ctx = tc_instruction c0 \<Longrightarrow> rv_task_id ctx = tc_task_id c0 \<Longrightarrow>
     classification_floor c0 \<le> rv_classification_floor ctx \<Longrightarrow> plan_data_ceiling plan \<noteq> None \<Longrightarrow>
     disciplined w stages c0 (evs @ e)"

definition task_kept :: "TaskContext \<Rightarrow> TaskContext \<Rightarrow> bool" where
  "task_kept c0 c \<longleftrightarrow> tc_resolved_asks c = tc_resolved_asks c0 \<and> tc_instruction c = tc_instruction c0 \<and>
     tc_task_id c = tc_task_id c0 \<and> classification_floor c0 \<le> classification_floor c"

definition trace_ok :: "World \<Rightarrow> ReviewStage list \<Rightarrow> TaskContext \<Rightarrow> LoopState \<Rightarrow> bool" where
  "trace_ok w stages c0 ls \<longleftrightarrow>
     disciplined w stages c0 (rs_trace (ls_run ls)) \<and> task_kept c0 (rs_ctx (ls_run ls))"

lemma resolved_context_simps [simp]:
  "rv_instruction (resolved_context plan rs) = tc_instruction (rs_ctx rs)"
  "rv_task_id (resolved_context plan rs) = tc_task_id (rs_ctx rs)"
  "classification_floor (rs_ctx rs) \<le> rv_classification_floor (resolved_context plan rs)"
  using apply_floor_raise_mono [of "rs_ctx rs" plan]
  by (auto simp: resolved_context_def review_context_def prepare_def Let_def apply_floor_raise_def
      split: option.splits if_splits)

lemma resolved_plan_ceiling: "plan_data_ceiling (resolved_plan plan rs) \<noteq> None"
  by (simp add: resolved_plan_def prepare_def Let_def)

interpretation trace: run_invariant w stages "trace_ok w stages c0" for w stages c0
proof
  fix ls ls' r
  assume h: "trace_ok w stages c0 ls" and "loop_body w stages ls = (ls', r)"
  from this(2) show "trace_ok w stages c0 ls'"
  proof (cases rule: loop_body_cases)
    case (unplanned rs1 synth)
    then show ?thesis
      using h disciplined.unreviewed [of w stages c0 "rs_trace (ls_run ls)"] by (auto simp: trace_ok_def quiet_def same_run_def extends_def)
  next
    case (planned rs1 plan synth exh)
    let ?c = "count_plan rs1"
    from planned(1) obtain e1 where e1: "rs_ctx rs1 = rs_ctx (ls_run ls)" "extends (ls_run ls) rs1 e1" "no_dispatch e1"
      by (auto simp: quiet_def same_run_def)
    have kept: "task_kept c0 (rs_ctx ?c)" "rs_trace ?c = rs_trace rs1"
      using h e1(1) by (simp_all add: trace_ok_def task_kept_def count_plan_def)
    have d1: "disciplined w stages c0 (rs_trace ?c)"
      using h e1 disciplined.unreviewed by (simp add: trace_ok_def kept(2) extends_def)
    from planned(2) obtain g where g: "review_and_dispatch w stages plan synth exh PlanPolicy ?c = (ls_run ls', g)"
      by (rule planned_round_review)
    from review_and_dispatch_turn [OF g] obtain evs where evs: "frame ?c (ls_run ls')" "extends ?c (ls_run ls') evs"
        "no_dispatch evs \<or> (\<exists>p. p = (resolved_plan plan ?c)\<lparr>plan_steps := plan_steps p\<rparr> \<and>
           reviewed_turn w stages (tc_resolved_asks (rs_ctx ?c)) PlanPolicy p (resolved_context plan ?c) evs)" by blast
    have "disciplined w stages c0 (rs_trace ?c @ evs)" using evs(3)
    proof
      assume "\<exists>p. p = (resolved_plan plan ?c)\<lparr>plan_steps := plan_steps p\<rparr> \<and>
           reviewed_turn w stages (tc_resolved_asks (rs_ctx ?c)) PlanPolicy p (resolved_context plan ?c) evs"
      then obtain p where p: "p = (resolved_plan plan ?c)\<lparr>plan_steps := plan_steps p\<rparr>"
        "reviewed_turn w stages (tc_resolved_asks (rs_ctx ?c)) PlanPolicy p (resolved_context plan ?c) evs" by blast
      have "plan_data_ceiling p \<noteq> None"
        using resolved_plan_ceiling [of plan ?c] arg_cong [OF p(1), of plan_data_ceiling] by simp
      then show ?thesis
        using disciplined.reviewed [OF d1, of p "resolved_context plan ?c" evs] p(2) kept(1)
          order_trans [OF _ resolved_context_simps(3)] by (simp add: task_kept_def)
    qed (simp add: d1 disciplined.unreviewed)
    moreover have "task_kept c0 (rs_ctx (ls_run ls'))"
      using kept(1) evs(1) by (auto simp: task_kept_def frame_def)
    ultimately show ?thesis using evs(2) by (simp add: trace_ok_def extends_def)
  qed (use h in simp)
qed

subsection \<open>The number of steps\<close>

text \<open>The counter of the result is the number of worker calls (saturating at \<^verbatim>\<open>u32::MAX\<close>), and a plan makes at most 64 of
  them.\<close>

definition steps_counted :: "LoopState \<Rightarrow> bool" where
  "steps_counted ls \<longleftrightarrow>
     ex_dispatch_count (rs_exec (ls_run ls)) = sat_u32 (dispatched (rs_trace (ls_run ls))) \<and>
     dispatched (rs_trace (ls_run ls)) \<le> MAX_STEPS_PER_PLAN * tc_plan_count (rs_ctx (ls_run ls))"

interpretation steps: run_invariant w stages steps_counted for w stages
proof
  fix ls ls' r
  assume h: "steps_counted ls" and "loop_body w stages ls = (ls', r)"
  from this(2) show "steps_counted ls'"
  proof (cases rule: loop_body_cases)
    case (unplanned rs1 synth)
    then show ?thesis using h by (auto simp: steps_counted_def quiet_def same_run_def extends_def)
  next
    case (planned rs1 plan synth exh)
    let ?c = "count_plan rs1"
    have c: "ex_dispatch_count (rs_exec ?c) = sat_u32 (dispatched (rs_trace ?c))"
      "dispatched (rs_trace ?c) + MAX_STEPS_PER_PLAN \<le> MAX_STEPS_PER_PLAN * tc_plan_count (rs_ctx ?c)"
      using planned(1) h by (auto simp: steps_counted_def quiet_def same_run_def extends_def count_plan_def)
    from planned(2) obtain g where g: "review_and_dispatch w stages plan synth exh PlanPolicy ?c = (ls_run ls', g)"
      by (rule planned_round_review)
    from review_and_dispatch_turn [OF g] obtain evs where evs: "frame ?c (ls_run ls')" "extends ?c (ls_run ls') evs"
        "\<forall>n. ex_dispatch_count (rs_exec ?c) = sat_u32 n \<longrightarrow> ex_dispatch_count (rs_exec (ls_run ls')) = sat_u32 (n + dispatched evs)"
        "dispatched evs \<le> MAX_STEPS_PER_PLAN"
      using reviewed_turn_dispatched [where pol = PlanPolicy] by fastforce
    then show ?thesis using c by (auto simp: steps_counted_def extends_def frame_def)
  qed (use h in simp)
qed

subsection \<open>What a dispatch proves\<close>

definition cleared ::
    "World \<Rightarrow> ReviewStage list \<Rightarrow> TaskContext \<Rightarrow> LoopEvent list \<Rightarrow> PlannedStep \<Rightarrow> Plan \<Rightarrow> ReviewStageContext \<Rightarrow> bool" where
  "cleared w stages c0 before s plan ctx \<longleftrightarrow>
     EvVerdict (chain_review stages plan ctx) \<in> set before \<and> s \<in> set (plan_steps plan) \<and>
     authorised w (tc_resolved_asks c0) plan (chain_review stages plan ctx) \<and>
     plan_refused plan = None \<and> \<not> is_terminal plan \<and> plan_data_ceiling plan \<noteq> None \<and>
     length (plan_steps plan) \<le> MAX_STEPS_PER_PLAN \<and>
     rv_instruction ctx = tc_instruction c0 \<and> classification_floor c0 \<le> rv_classification_floor ctx"

lemma append_split_at:
  assumes "x @ y = a @ z # b"
  obtains (left) b' where "x = a @ z # b'" | (right) a' where "a = x @ a'" "y = a' @ z # b"
proof -
  from assms consider c where "x = a @ c" "c @ y = z # b" | c where "x @ c = a" "y = c @ z # b"
    by (auto simp: append_eq_append_conv2)
  then show ?thesis
  proof cases
    case 1
    then show ?thesis using that by (cases c) auto
  qed (use that in auto)
qed

lemma no_dispatch_at: "\<not> no_dispatch (a @ EvDispatch s o' # b)"
  by (simp add: no_dispatch_def)

lemma in_dispatches: "EvDispatch s o' \<in> set (dispatches steps outs) \<Longrightarrow> s \<in> set steps"
  by (auto simp: dispatches_def dest: set_zip_leftD)

lemma reviewed_turn_dispatch:
  assumes "reviewed_turn w stages asks pol plan ctx e" and "e = a @ EvDispatch s o' # b"
  shows "EvVerdict (chain_review stages plan ctx) \<in> set a \<and> s \<in> set (plan_steps plan)"
proof -
  let ?v = "EvVerdict (chain_review stages plan ctx)"
  from assms obtain pre auth outs post where
    e: "pre @ ([?v] @ auth @ dispatches (take (length outs) (plan_steps plan)) outs @ post) = a @ EvDispatch s o' # b"
    and q: "no_dispatch pre" "no_dispatch post" "no_dispatch auth"
    by (auto simp: reviewed_turn_def)
  let ?d = "dispatches (take (length outs) (plan_steps plan)) outs"
  from e obtain a1 where a1: "a = pre @ a1" "[?v] @ (auth @ ?d @ post) = a1 @ EvDispatch s o' # b"
    using q(1) no_dispatch_at by (cases rule: append_split_at) auto
  from a1(2) obtain a2 where a2: "a1 = [?v] @ a2" "auth @ (?d @ post) = a2 @ EvDispatch s o' # b"
    using no_dispatch_at no_dispatch_simps(6) by (cases rule: append_split_at) (metis, auto)
  from a2(2) obtain a3 where a3: "?d @ post = a3 @ EvDispatch s o' # b"
    using q(3) no_dispatch_at by (cases rule: append_split_at) auto
  then have "EvDispatch s o' \<in> set ?d"
    using q(2) no_dispatch_at by (cases rule: append_split_at) auto
  then show ?thesis using a1(1) a2(1) by (auto dest: in_dispatches in_set_takeD)
qed

lemma disciplined_dispatch:
  assumes "disciplined w stages c0 evs" and "evs = a @ EvDispatch s o' # b"
  shows "\<exists>plan ctx. cleared w stages c0 a s plan ctx"
  using assms
proof (induction arbitrary: b rule: disciplined.induct)
  case start
  then show ?case by simp
next
  case (unreviewed evs e)
  from unreviewed.prems show ?case
    using unreviewed.IH unreviewed.hyps(2) no_dispatch_at by (cases rule: append_split_at) auto
next
  case (reviewed evs plan ctx e)
  from reviewed.prems show ?case
  proof (cases rule: append_split_at)
    case (left b')
    then show ?thesis by (rule reviewed.IH)
  next
    case (right a')
    from reviewed_turn_dispatch [OF reviewed.hyps(2) right(2)] reviewed.hyps right(1) have "cleared w stages c0 a s plan ctx"
      by (auto simp: cleared_def reviewed_turn_def)
    then show ?thesis by blast
  qed
qed

lemma run_disciplined:
  assumes "run_to_terminal w stages ctx = (rs, r)"
  shows "disciplined w stages ctx (rs_trace rs) \<and> task_kept ctx (rs_ctx rs)"
proof -
  have "trace_ok w stages ctx \<lparr>ls_run = fresh_run ctx, ls_synth_attempted = False, ls_force_synth = False\<rparr>"
    by (simp add: trace_ok_def fresh_run_def task_kept_def disciplined.start)
  from trace.whole_run [OF this assms] show ?thesis by (auto simp: trace_ok_def)
qed

lemma run_dispatch_cleared:
  "run_to_terminal w stages ctx = (rs, r) \<Longrightarrow> rs_trace rs = a @ EvDispatch s o' # b \<Longrightarrow>
     \<exists>plan rctx. cleared w stages ctx a s plan rctx"
  using disciplined_dispatch [OF _ refl] run_disciplined by metis

subsection \<open>What a run may return\<close>

definition fruit_ok :: "RunState \<Rightarrow> FinishedRun \<Rightarrow> bool" where
  "fruit_ok rs f \<longleftrightarrow>
     (fin_insight f \<noteq> None \<or> fin_skill f \<noteq> None \<or> fin_python_skill f \<noteq> None \<longrightarrow> (\<exists>v. fin_outcome f = Completed v)) \<and>
     (fin_skill f \<noteq> None \<or> fin_python_skill f \<noteq> None \<longrightarrow>
        ex_dispatch_count (rs_exec rs) \<ge> 1 \<and> \<not> ex_invoke_used (rs_exec rs)) \<and>
     (\<forall>a. fin_outcome f = AwaitingOperator a \<longrightarrow> (\<exists>evs plan. rs_trace rs = evs @ [EvAskRaised a plan (run_history (rs_ctx rs))]))"

lemma fruit_ok_finished:
  "(\<forall>a. o' \<noteq> AwaitingOperator a) \<Longrightarrow> finished o' = Finished f \<Longrightarrow> fruit_ok rs f"
  by (auto simp: finished_def fruit_ok_def)

lemma fruit_ok_apply_verdict: "apply_verdict w plan v rs = (rs', Return (Finished f)) \<Longrightarrow> fruit_ok rs' f"
  by (auto simp: apply_verdict_def escalate_def fruit_ok_def finished_def emit_def Let_def
      split: Verdict.splits if_splits option.splits sum.splits)

lemma fruit_ok_ending: "ending_phase plan st exh pol rs = (rs', Return (Finished f)) \<Longrightarrow> fruit_ok rs' f"
  by (auto simp: ending_phase_def complete_def Let_def fruit_ok_def finished_def split: option.splits if_splits)

lemma fruit_ok_dispatch: "dispatch_loop w pol steps acc rs = (rs', Return (Finished f)) \<Longrightarrow> fruit_ok rs' f"
  by (induction w pol steps acc rs rule: dispatch_loop.induct)
    (auto simp: Let_def intro: fruit_ok_finished split: sum.splits if_splits)

lemma record_phase_Return: "record_phase w plan iv outs rs = (rs', Return x) \<Longrightarrow> x = Dispatched"
  by (auto simp: record_phase_def Let_def bindf_def audit_row_def split: option.splits prod.splits if_splits)

lemma invoke_phase_Return: "invoke_phase w c plan rs = (rs', Return x) \<Longrightarrow> x = Again"
  by (auto simp: invoke_phase_def expand_invoke_skill_def expand_python_def refuse_invoke_def accept_invoke_def
      bindf_def audit_row_def split: option.splits sum.splits InvokeExpansion.splits)

lemma bindf_Return:
  assumes "bindf rf k = (rs', Return x)"
  obtains (here) "rf = (rs', Return x)" | (later) rs1 y where "rf = (rs1, Go y)" "k rs1 y = (rs', Return x)"
  using assms by (cases rf; cases "snd rf") (auto simp: bindf_def)

lemma fruit_ok_review:
  assumes "review_and_dispatch w stages plan0 st exh pol rs0 = (rs', Return (Finished f))"
  shows "fruit_ok rs' f"
  using assms unfolding review_and_dispatch_def
  by (auto simp: Let_def split: prod.splits elim!: bindf_Return
      dest: audit_row_not_Return invoke_phase_Return record_phase_Return
      intro: fruit_ok_apply_verdict fruit_ok_ending fruit_ok_dispatch)

text \<open>The last round: the task was stopped between plans, or the review of one plan ended it.\<close>

lemma loop_body_result:
  assumes "loop_body w stages ls = (ls', Some (Ok res))"
  obtains (between) o' where "o' = Cancelled \<or> (\<exists>d. o' = Failed d)" "Ok res = finish (outcome_only o') (ls_run ls')"
    | (within) rs1 plan synth exh f where "quiet (ls_run ls) rs1"
        "review_and_dispatch w stages plan synth exh PlanPolicy (count_plan rs1) = (ls_run ls', Return (Finished f))"
        "Ok res = finish f (ls_run ls')"
proof -
  let ?rs = "ls_run ls"
  define exh where "exh = exhausted (tc_plan_count (rs_ctx ?rs)) (tc_max_plans (rs_ctx ?rs)) (tc_deadline (rs_ctx ?rs)) (w_now w (rs_clk ?rs))"
  define synth where "synth \<longleftrightarrow> (exh \<noteq> None \<or> ls_force_synth ls) \<and> ex_gathered (rs_exec ?rs) \<and> \<not> ls_synth_attempted ls"
  define ts where "ts = \<lparr>ts_synth_turn = synth, ts_gathered = ex_gathered (rs_exec ?rs), ts_synth_attempted = (ls_synth_attempted ls \<or> synth)\<rparr>"
  obtain rs1 t where f: "formulate_turn w ts (tick ?rs) = (rs1, t)" by fastforce
  have q: "quiet ?rs rs1" using quiet_formulate_turn [OF f] by simp
  note body = assms [unfolded loop_body_def Let_def, folded exh_def, folded synth_def, folded ts_def, unfolded f]
  obtain st where st: "w_observe w (rs_clk ?rs) = Ok st" using body by (cases "w_observe w (rs_clk ?rs)") auto
  note body = body [unfolded st sum.case prod.case]
  show ?thesis
  proof (cases "st = ''cancelled'' \<or> (exh \<noteq> None \<and> \<not> synth) \<or> (\<forall>plan n. t \<noteq> Planned plan n)")
    case True
    define ends where "ends rs \<longleftrightarrow> (\<exists>o'. (o' = Cancelled \<or> (\<exists>d. o' = Failed d)) \<and> Ok res = finish (outcome_only o') rs)" for rs
    have endsI: "finish (outcome_only Cancelled) rs = Ok res \<Longrightarrow> ends rs" "finish (outcome_only (Failed d)) rs = Ok res \<Longrightarrow> ends rs" for rs d
      unfolding ends_def by metis+
    from True have "ends (ls_run ls')"
      using body by (auto split: if_splits Turn.splits intro: endsI)
    then show ?thesis using between unfolding ends_def by blast
  next
    case False
    then obtain plan n where t: "t = Planned plan n" and ns: "(st = ''cancelled'') = False" "(exh \<noteq> None \<and> \<not> synth) = False" by blast
    obtain rs2 r2 where pr: "planned_round w stages plan synth exh rs1 = (rs2, r2)" by fastforce
    from body [unfolded t ns if_False Turn.case pr prod.case]
    have "r2 = Some (Ok res)" "ls_run ls' = rs2" by auto
    then show ?thesis
      using pr q within unfolding planned_round_def by (auto split: prod.splits Flow.splits Executed.splits)
  qed
qed

definition result_ok :: "LoopState \<Rightarrow> loop_result \<Rightarrow> bool" where
  "result_ok ls r \<longleftrightarrow> (\<forall>res. r = Ok res \<longrightarrow> (\<exists>f. r = finish f (ls_run ls) \<and> fruit_ok (ls_run ls) f))"

interpretation fruit: run_outcome w stages steps_counted result_ok for w stages
proof
  fix ls ls' r
  assume b: "loop_body w stages ls = (ls', Some r)"
  have "\<exists>f. r = finish f (ls_run ls') \<and> fruit_ok (ls_run ls') f" if r: "r = Ok res" for res
    using b [unfolded r]
  proof (cases rule: loop_body_result)
    case (between o')
    then show ?thesis by (intro exI [of _ "outcome_only o'"]) (auto simp: r fruit_ok_def outcome_only_def)
  next
    case (within rs1 plan synth exh f)
    then show ?thesis using fruit_ok_review r by blast
  qed
  then show "result_ok ls' r" by (simp add: result_ok_def)
qed

subsection \<open>Instructions the constitution forbids\<close>

lemma review_forbidden:
  assumes "review_and_dispatch w (ConstitutionalGuard lower # stages) plan st exh pol rs = (rs', Return (Finished f))"
    and "screen_lowered (lower (tc_instruction (rs_ctx rs))) = Some (p, reason)"
  shows "fin_outcome f = Blocked p reason"
proof -
  obtain rs1 plan1 res where pr: "prepare plan rs = (rs1, plan1, res)" by (metis prod_cases3)
  have i1: "tc_instruction (rs_ctx rs1) = tc_instruction (rs_ctx rs)"
    using calm_prepare [OF pr] by (simp add: calm_def frame_def)
  from assms(1) [unfolded review_and_dispatch_def pr prod.case] obtain rs2 where
    a2: "audit_row w (EvFormulate plan1 (rc_source res)) rs1 = (rs2, Go ())"
    and r2: "bindf (invoke_phase w (rc_ceiling res) plan1 rs2) (\<lambda>rs3 (plan2, invoked).
            let plan3 = plan2\<lparr>plan_steps := qualify_plan_methods w (plan_steps plan2)\<rparr>;
                verdict = chain_review (ConstitutionalGuard lower # stages) plan3 (review_context rs3)
            in bindf (audit_row w (EvVerdict verdict) rs3) (\<lambda>rs4 _.
               bindf (apply_verdict w plan3 verdict rs4) (\<lambda>rs5 _.
               bindf (ending_phase plan3 st exh pol rs5) (\<lambda>rs6 _.
               bindf (dispatch_loop w pol (plan_steps plan3) [] rs6) (\<lambda>rs7 outcomes.
                 record_phase w plan3 invoked outcomes rs7))))) = (rs', Return (Finished f))"
    by (cases rule: audit_bindf_cases) auto
  from r2 obtain rs3 plan2 iv where i3: "invoke_phase w (rc_ceiling res) plan1 rs2 = (rs3, Go (plan2, iv))"
    by (cases rule: bindf_Return) (auto dest: invoke_phase_Return)
  have "tc_instruction (rs_ctx rs3) = tc_instruction (rs_ctx rs)"
    using invoke_phase_Go [OF i3] audit_row_Go [OF a2] i1 by simp
  then have v: "chain_review (ConstitutionalGuard lower # stages) q (review_context rs3) = ConstitutionalBlock p reason" for q
    using assms(2) by (simp add: ConstitutionalGuard_verdict review_context_def)
  show ?thesis
    using r2 unfolding i3 by (auto simp: bindf_def v apply_verdict_def finished_def Let_def
        simp del: chain_review.simps split: prod.splits Flow.splits dest: audit_row_not_Return)
qed

definition forbidden :: "(rstr \<Rightarrow> rstr) \<Rightarrow> u8 \<Rightarrow> rstr \<Rightarrow> LoopState \<Rightarrow> bool" where
  "forbidden lower p reason ls \<longleftrightarrow> screen_lowered (lower (tc_instruction (rs_ctx (ls_run ls)))) = Some (p, reason)"

definition stopped_by :: "u8 \<Rightarrow> rstr \<Rightarrow> loop_result \<Rightarrow> bool" where
  "stopped_by p reason r \<longleftrightarrow>
     (\<forall>res. r = Ok res \<longrightarrow> ir_outcome res = Blocked p reason \<or> ir_outcome res = Cancelled \<or> (\<exists>d. ir_outcome res = Failed d))"

interpretation stopped: run_outcome w "ConstitutionalGuard lower # stages" "forbidden lower p reason" "\<lambda>ls. stopped_by p reason"
  for w lower stages p reason
proof
  fix ls ls' r
  assume h: "forbidden lower p reason ls"
  show "forbidden lower p reason ls'" if b: "loop_body w (ConstitutionalGuard lower # stages) ls = (ls', r)"
    using b
  proof (cases rule: loop_body_cases)
    case (planned rs1 plan synth exh)
    then show ?thesis
      using h planned_round_frame [OF planned(2)] quiet_same [OF planned(1)] by (simp add: forbidden_def frame_def count_plan_def)
  qed (use h in \<open>auto simp: forbidden_def dest: quiet_same\<close>)
next
  fix ls ls' r
  assume h: "forbidden lower p reason ls" and b: "loop_body w (ConstitutionalGuard lower # stages) ls = (ls', Some r)"
  show "stopped_by p reason r"
    unfolding stopped_by_def
  proof (intro allI impI)
    fix res
    assume "r = Ok res"
    with b have "loop_body w (ConstitutionalGuard lower # stages) ls = (ls', Some (Ok res))" by simp
    then show "ir_outcome res = Blocked p reason \<or> ir_outcome res = Cancelled \<or> (\<exists>d. ir_outcome res = Failed d)"
    proof (cases rule: loop_body_result)
      case (within rs1 plan synth exh f)
      have "tc_instruction (rs_ctx (count_plan rs1)) = tc_instruction (rs_ctx (ls_run ls))"
        using quiet_same [OF within(1)] by (simp add: count_plan_def)
      then show ?thesis
        using review_forbidden [OF within(2)] h within(3) by (simp add: forbidden_def finish_def)
    qed (auto simp: finish_def outcome_only_def)
  qed
qed

end
