(* ===== verification/Loop_Spec.thy ===== *)
theory Loop_Spec
  imports Task_Loop
begin

text \<open>
  Properties of plan review and of the scheduler's loop. The demonstration task below (one allowed step, then an
  answer) is the concrete input at which the properties with hypotheses are applied.
\<close>

section \<open>A demonstration task\<close>

definition demo_step :: PlannedStep where
  "demo_step = \<lparr>step_tool = ''web'', step_method = ''web.fetch'', step_parameters = JObj [], step_returns = ''page'',
     step_done_when = ''fetched'', step_classification = Personal\<rparr>"

definition demo_plan :: Plan where
  "demo_plan = \<lparr>plan_context = [], plan_decision = ''act'', plan_rationale = [], plan_steps = [demo_step],
     plan_result = None, plan_data_ceiling = None, plan_refused = None, plan_floor_request = None,
     plan_l1_insight = None, plan_l3_skill = None, plan_invoke_skill = None, plan_python_skill = None\<rparr>"

definition demo_answer :: Plan where
  "demo_answer = demo_plan\<lparr>plan_decision := DECISION_TERMINAL, plan_steps := [], plan_result := Some (JStr ''done''),
     plan_l1_insight := Some ''insight'',
     plan_python_skill := Some \<lparr>py_name = ''n'', py_description = ''d'', py_code = ''c''\<rparr>\<rparr>"

definition demo_ctx :: TaskContext where
  "demo_ctx = \<lparr>classification_floor = Personal, classification_floor_source = Operator, classification_floor_signals = [],
     tc_task_id = 7, tc_instruction = ''hi'', tc_plans = [], tc_advisories = [], tc_blocks = [],
     tc_plan_count = 0, tc_max_plans = 3, tc_deadline = None, tc_resolved_asks = []\<rparr>"

definition demo_world :: World where
  "demo_world = \<lparr>w_observe = (\<lambda>_. Ok ''running''), w_now = (\<lambda>n. n),
     w_formulate = (\<lambda>_ ctx _. Ok (if tc_plan_count ctx = 0 then demo_plan else demo_answer, 0)),
     w_synth_without_thinking = (\<lambda>_ _. None), w_reformat = (\<lambda>_ _ _ _. None), w_audit = (\<lambda>_. None),
     w_qualify = (\<lambda>_ _. None), w_known_tools = [''web''], w_skill_rows = (\<lambda>_. Ok []),
     w_raise_ask = (\<lambda>_ _ _ _ _. Ok 1), w_dispatch = (\<lambda>_ _. OkStep (JStr ''page'')), w_json_text = (\<lambda>_. []),
     w_sha_hex = id, w_json_bytes = (\<lambda>_. []), w_sha = (\<lambda>_. []), w_decode_template = (\<lambda>_. None),
     w_decode_python = (\<lambda>_. None)\<rparr>"

definition demo_chain :: "ReviewStage list" where
  "demo_chain = [ConstitutionalGuard to_ascii_lowercase, DeterministicPolicy]"

definition demo_run :: "RunState \<times> loop_result" where
  "demo_run = run_to_terminal demo_world demo_chain demo_ctx"

lemma demo_run_eq: "run_to_terminal demo_world demo_chain demo_ctx = (fst demo_run, snd demo_run)"
  by (simp add: demo_run_def)

lemma demo_trace:
  "rs_trace (fst demo_run) =
     [EvFormulate (demo_plan\<lparr>plan_data_ceiling := Some Personal\<rparr>) FloorResolved, EvVerdict Approve]
     @ EvDispatch demo_step (OkStep (JStr ''page''))
     # [EvPlanOutcome 1 1 False, EvFormulate (demo_answer\<lparr>plan_data_ceiling := Some Personal\<rparr>) FloorResolved, EvVerdict Approve]"
  by code_simp

definition demo_result :: InnerLoopResult where
  "demo_result = \<lparr>ir_outcome = Completed (JStr ''done''), ir_plan_count = 2, ir_dispatch_count = 1, ir_failed_llm_calls = 0,
     ir_l1_insight = Some ''insight'', ir_l3_skill = None,
     ir_python_skill = Some \<lparr>py_name = ''n'', py_description = ''d'', py_code = ''c''\<rparr>\<rparr>"

lemma demo_result: "snd demo_run = Ok demo_result"
  by code_simp

section \<open>Plan review\<close>

text \<open>C23. The review chain of production (constitutional guard, then deterministic policy) approves a
  plan exactly when the instruction hits no constitutional pattern and the plan's data
  classification is consistent: its ceiling is resolved and not below the floor, and every step is
  classified between the floor and the ceiling.\<close>

theorem production_chain_approves_iff:
  "chain_review [ConstitutionalGuard lower, DeterministicPolicy] plan ctx = Approve \<longleftrightarrow>
     screen_lowered (lower (rv_instruction ctx)) = None \<and>
     classified_ok plan (rv_classification_floor ctx)"
  by (auto simp: chain_review_Approve_iff ConstitutionalGuard_verdict DeterministicPolicy_verdict
      simp flip: screen_None_iff split: option.splits)

lemma production_verdicts:
  "authorised w asks plan (chain_review [ConstitutionalGuard lower, DeterministicPolicy] plan ctx) \<longleftrightarrow>
     screen_lowered (lower (rv_instruction ctx)) = None \<and> classified_ok plan (rv_classification_floor ctx)"
  by (auto simp: authorised_def ConstitutionalGuard_verdict DeterministicPolicy_verdict
      simp flip: screen_None_iff split: option.splits Verdict.splits)

section \<open>Every dispatch is reviewed\<close>

text \<open>C1. Whatever the language model, the database and the workers answer, every call a task makes to a worker is a
  step of a plan that the review chain has judged before the call: the verdict stands in the trace before the
  dispatch, and it is an approval, an advisory, or an escalation that an operator has approved for the digest of that
  plan. The plan is not refused and not terminal, has a resolved ceiling and at most 64 steps, and was reviewed under
  the task's instruction at a floor not below the task's first floor.\<close>

theorem dispatch_is_reviewed:
  assumes "run_to_terminal w stages ctx = (rs, r)" and "rs_trace rs = a @ EvDispatch s o' # b"
  shows "\<exists>plan rctx. EvVerdict (chain_review stages plan rctx) \<in> set a \<and> s \<in> set (plan_steps plan) \<and>
     (case chain_review stages plan rctx of
        Approve \<Rightarrow> True
      | Advisory c \<Rightarrow> True
      | Escalate reason sev \<Rightarrow>
          (\<exists>ask \<in> set (tc_resolved_asks ctx). ask_decide ask (plan_digest (w_json_bytes w) (w_sha w) plan) = AskApproved)
      | _ \<Rightarrow> False) \<and>
     plan_refused plan = None \<and> \<not> is_terminal plan \<and> plan_data_ceiling plan \<noteq> None \<and> length (plan_steps plan) \<le> 64 \<and>
     rv_instruction rctx = tc_instruction ctx \<and> classification_floor ctx \<le> rv_classification_floor rctx"
proof -
  from run_dispatch_cleared [OF assms] obtain plan rctx where c: "cleared w stages ctx a s plan rctx" by blast
  show ?thesis
    by (rule exI [of _ plan], rule exI [of _ rctx])
      (use c in \<open>auto simp: cleared_def authorised_def MAX_STEPS_PER_PLAN_def list_ex_iff split: Verdict.splits\<close>)
qed

theorem dispatch_is_reviewed_witness:
  "\<exists>plan rctx. chain_review demo_chain plan rctx = Approve \<and> demo_step \<in> set (plan_steps plan)"
proof -
  note d = dispatch_is_reviewed [OF demo_run_eq demo_trace]
  show ?thesis using d by auto
qed

text \<open>C9. Under the production chain a task runs a step only if its instruction hits no constitutional pattern, and
  every step it runs is classified at or above the task's first classification floor, although the plan, its ceiling
  and the classification of its steps all come from the model.\<close>

theorem production_dispatch_classified:
  assumes "run_to_terminal w [ConstitutionalGuard lower, DeterministicPolicy] ctx = (rs, r)"
    and "EvDispatch s o' \<in> set (rs_trace rs)"
  shows "screen_lowered (lower (tc_instruction ctx)) = None \<and> classification_floor ctx \<le> step_classification s"
proof -
  from assms(2) obtain a b where "rs_trace rs = a @ EvDispatch s o' # b" by (meson split_list)
  from run_dispatch_cleared [OF assms(1) this] obtain plan rctx where
    c: "cleared w [ConstitutionalGuard lower, DeterministicPolicy] ctx a s plan rctx" by blast
  then show ?thesis
    using production_verdicts order_trans [of "classification_floor ctx" "rv_classification_floor rctx" "step_classification s"]
    by (auto simp: cleared_def classified_ok_def simp del: chain_review.simps)
qed

theorem production_dispatch_classified_witness:
  "screen_lowered (to_ascii_lowercase ''hi'') = None \<and> Personal \<le> step_classification demo_step"
proof -
  have "EvDispatch demo_step (OkStep (JStr ''page'')) \<in> set (rs_trace (fst demo_run))" by (simp add: demo_trace)
  from production_dispatch_classified [OF demo_run_eq [unfolded demo_chain_def] this]
  show ?thesis by (simp add: demo_ctx_def)
qed

section \<open>Bounds and results of a run\<close>

text \<open>C13. A task ends: \<open>run_to_terminal\<close> is total for every outside world, it makes at most one plan more than
  \<^verbatim>\<open>max_plans\<close> (the forced synthesis), at most 64 worker calls per plan, and the reported dispatch count is the number of
  calls in the trace, saturating at the largest 32-bit number.\<close>

theorem run_bounded:
  assumes "run_to_terminal w stages ctx = (rs, r)" and "tc_plan_count ctx \<le> tc_max_plans ctx"
  shows "tc_plan_count (rs_ctx rs) \<le> tc_max_plans ctx + 1 \<and>
     dispatched (rs_trace rs) \<le> 64 * (tc_max_plans ctx + 1) \<and>
     ex_dispatch_count (rs_exec rs) = min (dispatched (rs_trace rs)) (2 ^ 32 - 1)"
proof -
  let ?ls = "\<lparr>ls_run = fresh_run ctx, ls_synth_attempted = False, ls_force_synth = False\<rparr>"
  have "plans_bounded (tc_max_plans ctx) ?ls" using assms(2) by (simp add: plans_bounded_def fresh_run_def)
  from plans.whole_run [OF this assms(1)] obtain ls where "plans_bounded (tc_max_plans ctx) ls" "ls_run ls = rs" by blast
  then have p: "tc_plan_count (rs_ctx rs) \<le> tc_max_plans ctx + 1"
    by (auto simp: plans_bounded_def split: if_splits)
  have "steps_counted ?ls" by (simp add: steps_counted_def fresh_run_def sat_u32_def dispatched_def)
  from steps.whole_run [OF this assms(1)] have s: "ex_dispatch_count (rs_exec rs) = sat_u32 (dispatched (rs_trace rs))"
    "dispatched (rs_trace rs) \<le> MAX_STEPS_PER_PLAN * tc_plan_count (rs_ctx rs)"
    by (auto simp: steps_counted_def)
  have "MAX_STEPS_PER_PLAN * tc_plan_count (rs_ctx rs) \<le> 64 * (tc_max_plans ctx + 1)"
    unfolding MAX_STEPS_PER_PLAN_def by (rule mult_le_mono2 [OF p])
  with s(2) have "dispatched (rs_trace rs) \<le> 64 * (tc_max_plans ctx + 1)" by (rule order_trans)
  with p s(1) show ?thesis unfolding sat_u32_def by blast
qed

theorem run_bounded_witness: "tc_plan_count (rs_ctx (fst demo_run)) \<le> 4"
  using run_bounded [OF demo_run_eq] by (simp add: demo_ctx_def)

text \<open>The task's identity, its instruction and the approvals it resumed with never change in a run, and its
  classification floor never falls.\<close>

theorem run_keeps_task:
  assumes "run_to_terminal w stages ctx = (rs, r)"
  shows "classification_floor ctx \<le> classification_floor (rs_ctx rs) \<and> tc_instruction (rs_ctx rs) = tc_instruction ctx \<and>
     tc_task_id (rs_ctx rs) = tc_task_id ctx \<and> tc_resolved_asks (rs_ctx rs) = tc_resolved_asks ctx"
  using run_disciplined [OF assms] by (simp add: task_kept_def)

theorem run_keeps_task_witness: "Personal \<le> classification_floor (rs_ctx (fst demo_run))"
  using run_keeps_task [OF demo_run_eq] by (simp add: demo_ctx_def)

text \<open>What a task may leave behind: an insight or a skill comes only with a completed task, a skill only if the
  task itself ran at least one step, and a task is suspended for an operator only when the last row of its
  trace is the ask that was raised, with the history of the run as it then is.\<close>

theorem run_fruit:
  assumes "run_to_terminal w stages ctx = (rs, Ok res)"
  shows "(ir_l1_insight res \<noteq> None \<or> ir_l3_skill res \<noteq> None \<or> ir_python_skill res \<noteq> None \<longrightarrow> (\<exists>v. ir_outcome res = Completed v)) \<and>
     (ir_l3_skill res \<noteq> None \<or> ir_python_skill res \<noteq> None \<longrightarrow> dispatched (rs_trace rs) \<ge> 1) \<and>
     (final_state (ir_outcome res) = None \<longrightarrow>
        (\<exists>a plan evs. ir_outcome res = AwaitingOperator a \<and>
           rs_trace rs = evs @ [EvAskRaised a plan (run_history (rs_ctx rs))]))"
proof -
  let ?ls = "\<lparr>ls_run = fresh_run ctx, ls_synth_attempted = False, ls_force_synth = False\<rparr>"
  have start: "steps_counted ?ls" by (simp add: steps_counted_def fresh_run_def sat_u32_def dispatched_def)
  from fruit.whole_run_result [OF start assms] obtain f where f: "Ok res = finish f rs" "fruit_ok rs f"
    by (auto simp: result_ok_def)
  from steps.whole_run [OF start assms] have n: "ex_dispatch_count (rs_exec rs) = sat_u32 (dispatched (rs_trace rs))"
    by (auto simp: steps_counted_def)
  have "dispatched (rs_trace rs) \<ge> 1" if "ex_dispatch_count (rs_exec rs) \<ge> 1" using that by (simp add: n sat_u32_def)
  moreover have "final_state o' = None \<Longrightarrow> \<exists>a. o' = AwaitingOperator a" for o' by (cases o') auto
  moreover have "ir_outcome res = fin_outcome f" "ir_l1_insight res = fin_insight f" "ir_l3_skill res = fin_skill f"
    "ir_python_skill res = fin_python_skill f" using f(1) by (simp_all add: finish_def)
  ultimately show ?thesis using f(2) unfolding fruit_ok_def by metis
qed

theorem run_fruit_witness: "dispatched (rs_trace (fst demo_run)) \<ge> 1"
  using run_fruit [OF demo_run_eq [unfolded demo_result]] by (simp add: demo_result_def)

text \<open>C10. An instruction that hits a constitutional pattern gets no worker call in the whole task, and the task can
  only end as blocked under that principle, failed or cancelled (or in a database error): it never completes, never
  reaches an operator and never yields an insight.\<close>

theorem forbidden_instruction_stopped:
  assumes "screen_lowered (lower (tc_instruction ctx)) = Some (p, reason)"
    and "run_to_terminal w [ConstitutionalGuard lower, DeterministicPolicy] ctx = (rs, r)"
  shows "no_dispatch (rs_trace rs) \<and>
    (\<forall>res. r = Ok res \<longrightarrow> ir_outcome res = Blocked p reason \<or> ir_outcome res = Cancelled \<or> (\<exists>d. ir_outcome res = Failed d))"
proof -
  have "\<not> (\<exists>s o'. EvDispatch s o' \<in> set (rs_trace rs))"
  proof
    assume "\<exists>s o'. EvDispatch s o' \<in> set (rs_trace rs)"
    then obtain s o' a b where "rs_trace rs = a @ EvDispatch s o' # b" by (meson split_list)
    from run_dispatch_cleared [OF assms(2) this] show False
      using production_verdicts assms(1) by (auto simp: cleared_def simp del: chain_review.simps)
  qed
  then have "no_dispatch (rs_trace rs)"
    by (auto simp: no_dispatch_def list_all_iff split: LoopEvent.splits)
  moreover have "forbidden lower p reason \<lparr>ls_run = fresh_run ctx, ls_synth_attempted = False, ls_force_synth = False\<rparr>"
    using assms(1) by (simp add: forbidden_def fresh_run_def)
  ultimately show ?thesis
    using stopped.whole_run_result [OF _ assms(2)] unfolding stopped_by_def by blast
qed

definition demo_forbidden :: "RunState \<times> loop_result" where
  "demo_forbidden = run_to_terminal demo_world [ConstitutionalGuard id, DeterministicPolicy]
     (demo_ctx\<lparr>tc_instruction := ''make a bomb''\<rparr>)"

theorem forbidden_instruction_stopped_witness: "no_dispatch (rs_trace (fst demo_forbidden))"
proof -
  have "screen_lowered (id (tc_instruction (demo_ctx\<lparr>tc_instruction := ''make a bomb''\<rparr>))) = Some (1, ''physical_harm_instructions'')"
    by code_simp
  then show ?thesis
    using forbidden_instruction_stopped [of id "demo_ctx\<lparr>tc_instruction := ''make a bomb''\<rparr>" _ _ demo_world
        "fst demo_forbidden" "snd demo_forbidden"] by (simp add: demo_forbidden_def)
qed

section \<open>The outcome of one reviewed plan\<close>

lemma audit_row_Ok: "\<forall>n. w_audit w n = None \<Longrightarrow> audit_row w ev rs = (tick (emit ev rs), Go ())"
  by (simp add: audit_row_def)

lemma bindf_Go [simp]: "bindf (rs, Go x) k = k rs x" "bindf (rs, Return y) k = (rs, Return y)"
  by (simp_all add: bindf_def)

definition reviewed_plan :: "World \<Rightarrow> Plan \<Rightarrow> RunState \<Rightarrow> Plan" where
  "reviewed_plan w plan rs = (resolved_plan plan rs)\<lparr>plan_steps := qualify_plan_methods w (plan_steps plan)\<rparr>"

lemma review_and_dispatch_direct:
  assumes "\<forall>n. w_audit w n = None" and "plan_invoke_skill plan = None"
  obtains rs4 where "tc_blocks (rs_ctx rs4) = tc_blocks (rs_ctx rs)" "tc_resolved_asks (rs_ctx rs4) = tc_resolved_asks (rs_ctx rs)"
    "rs_exec rs4 = rs_exec rs"
    "\<And>stages st exh pol. v = chain_review stages (reviewed_plan w plan rs) (resolved_context plan rs) \<Longrightarrow>
       review_and_dispatch w stages plan st exh pol rs =
         bindf (apply_verdict w (reviewed_plan w plan rs) v (emit (EvVerdict v) rs4)) (\<lambda>rs5 _.
         bindf (ending_phase (reviewed_plan w plan rs) st exh pol rs5) (\<lambda>rs6 _.
         bindf (dispatch_loop w pol (plan_steps (reviewed_plan w plan rs)) [] rs6) (\<lambda>rs7 outcomes.
           record_phase w (reviewed_plan w plan rs) None outcomes rs7)))"
proof -
  obtain rs1 plan1 res where pr: "prepare plan rs = (rs1, plan1, res)" by (metis prod_cases3)
  let ?rs2 = "tick (emit (EvFormulate plan1 (rc_source res)) rs1)"
  have "plan_invoke_skill plan1 = None" "plan_steps plan1 = plan_steps plan"
    using pr assms(2) by (auto simp: prepare_def Let_def)
  then have "plan1\<lparr>plan_steps := qualify_plan_methods w (plan_steps plan1)\<rparr> = reviewed_plan w plan rs"
    "invoke_phase w (rc_ceiling res) plan1 ?rs2 = (?rs2, Go (plan1, None))"
    by (simp_all add: reviewed_plan_def resolved_plan_def pr invoke_phase_def)
  moreover have "review_context ?rs2 = resolved_context plan rs"
    by (simp add: resolved_context_def pr review_context_def)
  moreover have "tc_blocks (rs_ctx rs1) = tc_blocks (rs_ctx rs)" "tc_resolved_asks (rs_ctx rs1) = tc_resolved_asks (rs_ctx rs)"
    "rs_exec rs1 = rs_exec rs"
    using pr by (auto simp: prepare_def Let_def apply_floor_raise_def split: option.splits if_splits)
  moreover have "tick (emit e r) = emit e (tick r)" "rs_exec (tick r) = rs_exec r" "rs_exec (emit e r) = rs_exec r" for e r
    by (simp_all add: tick_def emit_def)
  moreover have "plan_steps (reviewed_plan w plan rs) = qualify_plan_methods w (plan_steps plan)"
    by (simp add: reviewed_plan_def)
  ultimately show ?thesis
    using \<open>plan_steps plan1 = plan_steps plan\<close>
    by (intro that [of "tick ?rs2"]) (simp_all add: review_and_dispatch_def pr audit_row_Ok [OF assms(1)] Let_def)
qed

text \<open>What the review of a plan without a skill directive does, verdict by verdict, when the audit log accepts
  its rows: a constitutional block ends the task whatever the plan says; otherwise a refused plan ends it as
  refused, an ordinary block puts its reason into the context and asks for another plan, an escalation
  without a fitting approval suspends the task or fails it, and a terminal plan that may go on completes it with
  its result.\<close>

theorem review_verdict_table:
  assumes "\<forall>n. w_audit w n = None" and "plan_invoke_skill plan0 = None"
    and "plan = reviewed_plan w plan0 rs" and "v = chain_review stages plan (resolved_context plan0 rs)"
    and "review_and_dispatch w stages plan0 st exh pol rs = (rs', g)"
  shows "(\<forall>p r. v = ConstitutionalBlock p r \<longrightarrow> g = Return (finished (Blocked p r))) \<and>
    (\<forall>x. (\<forall>p r. v \<noteq> ConstitutionalBlock p r) \<and> plan_refused plan = Some x \<longrightarrow>
       g = Return (finished (Refused (refused_principle x) (refused_reason x) (refusal_body plan)))) \<and>
    (\<forall>r. v = Verdict.Block r \<and> plan_refused plan = None \<longrightarrow>
       g = Return Again \<and> tc_blocks (rs_ctx rs') = tc_blocks (rs_ctx rs) @ [r]) \<and>
    (\<forall>r s. v = Escalate r s \<and> plan_refused plan = None \<and> approval_for w plan rs = None \<longrightarrow>
       (\<exists>a. g = Return (finished (AwaitingOperator a))) \<or> (\<exists>d. g = Return (finished (Failed d)))) \<and>
    (\<forall>res. authorised w (tc_resolved_asks (rs_ctx rs)) plan v \<and> plan_refused plan = None \<and> is_terminal plan \<and>
       plan_result plan = Some res \<longrightarrow> (\<exists>f. g = Return (Finished f) \<and> fin_outcome f = Completed res))"
proof -
  obtain rs4 where rs4: "tc_blocks (rs_ctx rs4) = tc_blocks (rs_ctx rs)" "tc_resolved_asks (rs_ctx rs4) = tc_resolved_asks (rs_ctx rs)"
    and eq: "review_and_dispatch w stages plan0 st exh pol rs =
         bindf (apply_verdict w plan v (emit (EvVerdict v) rs4)) (\<lambda>rs5 _.
         bindf (ending_phase plan st exh pol rs5) (\<lambda>rs6 _.
         bindf (dispatch_loop w pol (plan_steps plan) [] rs6) (\<lambda>rs7 outcomes.
           record_phase w plan None outcomes rs7)))"
    using review_and_dispatch_direct [OF assms(1,2), where v = v and rs = rs] assms(3,4) by metis
  note run = assms(5) [unfolded eq]
  have approve: "approval_for w plan (emit (EvVerdict v) rs4) = approval_for w plan rs"
    by (simp add: approval_for_def rs4)
  show ?thesis
  proof (intro conjI allI impI)
    fix p r assume "v = ConstitutionalBlock p r"
    then show "g = Return (finished (Blocked p r))" using run by (simp add: apply_verdict_def)
  next
    fix x assume "(\<forall>p r. v \<noteq> ConstitutionalBlock p r) \<and> plan_refused plan = Some x"
    then show "g = Return (finished (Refused (refused_principle x) (refused_reason x) (refusal_body plan)))"
      using run by (cases v) (auto simp: apply_verdict_def ending_phase_def)
  next
    fix r assume "v = Verdict.Block r \<and> plan_refused plan = None"
    then show "g = Return Again" "tc_blocks (rs_ctx rs') = tc_blocks (rs_ctx rs) @ [r]"
      using run rs4 by (auto simp: apply_verdict_def push_blocks_def)
  next
    fix r s assume "v = Escalate r s \<and> plan_refused plan = None \<and> approval_for w plan rs = None"
    then show "(\<exists>a. g = Return (finished (AwaitingOperator a))) \<or> (\<exists>d. g = Return (finished (Failed d)))"
      using run approve by (auto simp: apply_verdict_def escalate_def Let_def split: sum.splits)
  next
    fix res
    assume h: "authorised w (tc_resolved_asks (rs_ctx rs)) plan v \<and> plan_refused plan = None \<and> is_terminal plan \<and> plan_result plan = Some res"
    then have "\<exists>rs5. apply_verdict w plan v (emit (EvVerdict v) rs4) = (rs5, Go ())"
      using rs4 by (cases v) (auto simp: apply_verdict_def authorised_def escalate_def approval_for_def list_ex_iff
          find_None_iff split: option.splits)
    then show "\<exists>f. g = Return (Finished f) \<and> fin_outcome f = Completed res"
      using run h by (auto simp: ending_phase_def complete_def Let_def)
  qed
qed

definition demo_low :: Plan where
  "demo_low = demo_plan\<lparr>plan_data_ceiling := Some Public\<rparr>"

lemma demo_low_review:
  "chain_review [DeterministicPolicy] (reviewed_plan demo_world demo_low (fresh_run demo_ctx)) (resolved_context demo_low (fresh_run demo_ctx)) =
     Verdict.Block (format_reason (CeilingBelowFloor Public Personal))"
  by code_simp

theorem review_verdict_table_witness:
  "\<exists>rs'. review_and_dispatch demo_world [DeterministicPolicy] demo_low False None PlanPolicy (fresh_run demo_ctx) = (rs', Return Again) \<and>
     tc_blocks (rs_ctx rs') = [format_reason (CeilingBelowFloor Public Personal)]"
proof -
  let ?p = "reviewed_plan demo_world demo_low (fresh_run demo_ctx)"
  obtain rs' g where r: "review_and_dispatch demo_world [DeterministicPolicy] demo_low False None PlanPolicy (fresh_run demo_ctx) = (rs', g)"
    by fastforce
  have "plan_refused ?p = None" by code_simp
  then show ?thesis
    using review_verdict_table [OF _ _ refl refl r] demo_low_review r
    by (simp add: demo_world_def demo_low_def demo_plan_def fresh_run_def demo_ctx_def del: chain_review.simps)
qed

text \<open>A forced-synthesis turn does not always end the task: when the reviewer blocks its plan (here a plan whose
  ceiling is below the floor), the loop goes on.\<close>

theorem synth_turn_can_loop:
  "snd (review_and_dispatch demo_world [DeterministicPolicy] demo_low True None PlanPolicy (fresh_run demo_ctx)) = Return Again"
  by code_simp

text \<open>On a forced-synthesis turn the model is asked for an answer, and no step of whatever plan it gives instead is run.\<close>

theorem synth_turn_dispatches_nothing:
  "\<exists>evs. rs_trace (fst (review_and_dispatch w stages plan True exh pol rs)) = rs_trace rs @ evs \<and> no_dispatch evs"
  using review_and_dispatch_turn [OF prod.collapse [symmetric, of "review_and_dispatch w stages plan True exh pol rs"]]
  by (auto simp: extends_def)

end
