(* ===== verification/Skill_Spec.thy ===== *)
theory Skill_Spec
  imports Skill_Invoke Asks
begin

text \<open>
  Properties of skills and of operator approvals, with a demonstration template and a demonstration ask.
\<close>

section \<open>Skills\<close>

definition demo_template :: L3SkillCandidate where
  "demo_template = \<lparr>l3_name = ''fetch_page'', l3_description = ''fetch a page'',
     l3_parameters = [\<lparr>l3_param_name = ''page'', l3_param_description = ''which page''\<rparr>],
     l3_steps = [\<lparr>l3_step_tool = ''web'', l3_step_method = ''web.fetch'',
       l3_step_parameters = JObj [(''url'', JStr ''http://h/{{page}}'')]\<rparr>]\<rparr>"

definition demo_expanded :: "PlannedStep list" where
  "demo_expanded = [\<lparr>step_tool = ''web'', step_method = ''web.fetch'', step_parameters = JObj [(''url'', JStr ''http://h/p1'')],
     step_returns = [], step_done_when = [], step_classification = Personal\<rparr>]"

lemma demo_expansion:
  "expand_for_agent (\<lambda>_. []) demo_template Pinned [(''page'', ''p1'')] [''web''] Personal = Ok demo_expanded"
  by code_simp

text \<open>C25. A skill the agent invokes on its own is pinned and passes the approval gate again at the time of the
  call: its template is well formed, every tool it names is registered, no parameter carries a secret reference. The
  arguments are exactly the declared parameters, none longer than 1024 bytes or with a control character or
  a placeholder bracket. The result is one step per template step, at most 32, with the same tool and method, the
  parameters substituted, no placeholder left, and every step classified at the plan's ceiling.\<close>

theorem agent_expansion_sound:
  assumes "expand_for_agent json_text t trust args tools ceiling = Ok steps"
  shows "trust = Pinned \<and> (\<exists>norm. validate_l3_skill json_text t = Ok norm) \<and>
    (\<forall>s \<in> set (l3_steps t). trim (l3_step_tool s) \<in> set tools \<and> scan_secret_refs (l3_step_parameters s) = []) \<and>
    set (map fst args) = set (map l3_param_name (l3_parameters t)) \<and>
    (\<forall>(n, v) \<in> set args. length v \<le> 1024 \<and> \<not> has_control v \<and> \<not> str_contains v ''{{'' \<and> \<not> str_contains v ''}}'') \<and>
    steps = map (\<lambda>s. planned_step_from_l3_with_class
                  (s\<lparr>l3_step_parameters := interpolate_value args (l3_step_parameters s)\<rparr>) ceiling) (l3_steps t) \<and>
    0 < length steps \<and> length steps \<le> 32 \<and>
    (\<forall>s \<in> set steps. has_placeholder (step_parameters s) = None \<and> step_classification s = ceiling)"
proof -
  from expand_for_agent_Ok [OF assms] obtain out where
    e: "trust = Pinned" "evaluate_approval json_text t tools = ApproveSkill" "substitute_template t args = Ok out"
       "steps = map (\<lambda>s. planned_step_from_l3_with_class s ceiling) out" by blast
  from e(2) obtain norm where n: "validate_l3_skill json_text t = Ok norm"
      "\<forall>s \<in> set (l3_steps norm). scan_secret_refs (l3_step_parameters s) = [] \<and> l3_step_tool s \<in> set tools"
    by (auto simp: evaluate_approval_iff)
  note v = validate_l3_skill_steps [OF n(1)] and s = substitute_template_Ok [OF e(3)]
  note o = substitute_steps_Ok [OF conjunct2 [OF conjunct2 [OF s]]]
  have "\<forall>s \<in> set (l3_steps t). trim (l3_step_tool s) \<in> set tools \<and> scan_secret_refs (l3_step_parameters s) = []"
    using n(2) v by simp
  moreover have "\<forall>(n, v) \<in> set args. length v \<le> 1024 \<and> \<not> has_control v \<and> \<not> str_contains v ''{{'' \<and> \<not> str_contains v ''}}''"
    using s by (simp add: find_map_arg_None L3_ARG_MAX_VALUE_BYTES_def)
  moreover have "0 < length steps \<and> length steps \<le> 32"
    using v o e(4) by (simp add: L3_MAX_STEPS_def)
  moreover have "\<forall>s \<in> set steps. has_placeholder (step_parameters s) = None \<and> step_classification s = ceiling"
    using o e(4) by (auto simp: planned_step_from_l3_with_class_def)
  ultimately show ?thesis using e n(1) s o by simp
qed

theorem agent_expansion_sound_witness:
  "length demo_expanded \<le> 32 \<and> list_all (\<lambda>s. has_placeholder (step_parameters s) = None) demo_expanded"
  using agent_expansion_sound [OF demo_expansion] by (simp add: list_all_iff)

text \<open>A Python skill the agent invokes is pinned, its code passes the approval gate again, the digest recomputed
  from it equals the digest stored when it was approved, and the one step that results runs exactly that code with
  the given parameters, classified at the plan's ceiling. The code contains no secret reference.\<close>

theorem python_expansion_sound:
  assumes "expand_python_for_agent json_text sha_hex c trust stored ceiling params = Ok steps"
  shows "trust = Pinned \<and> compute_python_sha256 json_text sha_hex c = stored \<and>
    \<not> str_contains (py_code c) ''secret://'' \<and> length (py_code c) \<le> 65536 \<and>
    (\<exists>s. steps = [s] \<and> step_tool s = ''python-exec'' \<and> json_get (step_parameters s) ''code'' = Some (JStr (py_code c)) \<and>
      step_classification s = ceiling)"
proof -
  note e = expand_python_for_agent_Ok [OF assms]
  then obtain norm where "validate_python_skill c = Ok norm"
    by (auto simp: evaluate_python_approval_def split: sum.splits)
  then have "\<not> str_contains (py_code c) REF_PREFIX" "length (py_code c) \<le> PY_CODE_CAP"
    by (auto simp: validate_python_skill_def and_then_Ok_iff split: option.splits if_splits)
  then show ?thesis
    using e by (auto simp: planned_step_from_l3_with_class_def python_exec_step_def PY_EXEC_TOOL_def REF_PREFIX_def PY_CODE_CAP_def)
qed

definition demo_py :: PythonSkillCandidate where
  "demo_py = \<lparr>py_name = ''n'', py_description = ''d'', py_code = ''print(1)''\<rparr>"

theorem python_expansion_sound_witness:
  "\<exists>s. expand_python_for_agent (\<lambda>_. ''x'') id demo_py Pinned ''x'' Public JNull = Ok [s] \<and>
     json_get (step_parameters s) ''code'' = Some (JStr ''print(1)'')"
proof -
  obtain steps where s: "expand_python_for_agent (\<lambda>_. ''x'') id demo_py Pinned ''x'' Public JNull = Ok steps"
  proof -
    have "isl (expand_python_for_agent (\<lambda>_. ''x'') id demo_py Pinned ''x'' Public JNull) = False" by code_simp
    then show ?thesis using that by (cases "expand_python_for_agent (\<lambda>_. ''x'') id demo_py Pinned ''x'' Public JNull") auto
  qed
  then show ?thesis using python_expansion_sound [OF s] by (auto simp: demo_py_def)
qed

text \<open>Substitution is one pass: literal text is copied, a placeholder becomes the argument's value, and the value is
  not scanned again, so an argument can never introduce another placeholder.\<close>

theorem interpolate_single_pass:
  assumes "CHR ''{'' \<notin> set lit" and "CHR ''}'' \<notin> set name" and "map_of args name = Some v"
  shows "interpolate args (lit @ ''{{'' @ name @ ''}}'' @ rest) = lit @ v @ interpolate args rest"
  using interpolate_placeholder [OF assms] .

theorem interpolate_single_pass_witness:
  "interpolate [(''a'', ''{{b}}''), (''b'', ''x'')] ''u{{a}}'' = ''u{{b}}''"
  using interpolate_single_pass [of "''u''" "''a''" "[(''a'', ''{{b}}''), (''b'', ''x'')]" "''{{b}}''" "[]"] by simp

text \<open>The skill a name resolves to comes from a row whose metadata says exactly \<^verbatim>\<open>pinned\<close>, and bears that
  name; a row with any other or no trust is never chosen.\<close>

theorem pinned_lookup:
  assumes "load_pinned_skill_by_name decode rows name = Some p"
  shows "l3_name (ps_template p) = name \<and>
     (\<exists>meta t. (ps_memory_id p, meta) \<in> set rows \<and> meta_str meta ''trust'' = Some ''pinned'' \<and>
        json_get meta ''template'' = Some t \<and> decode t = Some (ps_template p))"
  using load_pinned_skill_pinned [OF assms] by blast

theorem pinned_lookup_witness:
  "\<exists>p. load_pinned_skill_by_name (\<lambda>_. Some demo_template)
     [(1, JObj [(''trust'', JStr ''user_approved''), (''template'', JNull)]),
      (2, JObj [(''trust'', JStr ''pinned''), (''template'', JNull)])] ''fetch_page'' = Some p \<and> ps_memory_id p = 2 \<and>
     l3_name (ps_template p) = ''fetch_page''"
proof -
  let ?rows = "[(1, JObj [(''trust'', JStr ''user_approved''), (''template'', JNull)]),
      (2, JObj [(''trust'', JStr ''pinned''), (''template'', JNull)])]"
  have eval: "map_option ps_memory_id (load_pinned_skill_by_name (\<lambda>_. Some demo_template) ?rows ''fetch_page'') = Some 2"
    by code_simp
  then obtain p where p: "load_pinned_skill_by_name (\<lambda>_. Some demo_template) ?rows ''fetch_page'' = Some p" "ps_memory_id p = 2"
    by auto
  with pinned_lookup [OF p(1)] show ?thesis by blast
qed

section \<open>Operator approvals\<close>

text \<open>C39. Two plans have the same digest exactly when they differ at most in their narration (context, rationale and the
  free-text fields of their steps), given that SHA-256 does not collide on the two canonical texts and that no result
  is the explicit JSON null: an approval binds everything of a plan that can have an effect.\<close>

theorem digest_binds_plan:
  assumes "plan_result p \<noteq> Some JNull" and "plan_result q \<noteq> Some JNull"
    and "sha (json_bytes (canonical_form p)) = sha (json_bytes (canonical_form q)) \<Longrightarrow> canonical_form p = canonical_form q"
  shows "plan_digest json_bytes sha p = plan_digest json_bytes sha q \<longleftrightarrow> strip_narration p = strip_narration q"
  by (rule plan_digest_iff [OF assms])

definition demo_bytes :: "json \<Rightarrow> u8 list" where
  "demo_bytes v = (case json_get v ''decision'' of Some (JStr s) \<Rightarrow> map (\<lambda>c. of_nat (of_char c)) s | _ \<Rightarrow> [])"

definition demo_plan_a :: "rstr \<Rightarrow> rstr \<Rightarrow> Plan" where
  "demo_plan_a decision rationale = \<lparr>plan_context = [], plan_decision = decision, plan_rationale = rationale, plan_steps = [],
     plan_result = None, plan_data_ceiling = None, plan_refused = None, plan_floor_request = None,
     plan_l1_insight = None, plan_l3_skill = None, plan_invoke_skill = None, plan_python_skill = None\<rparr>"

theorem digest_binds_plan_witness:
  "plan_digest demo_bytes id (demo_plan_a ''act'' ''x'') = plan_digest demo_bytes id (demo_plan_a ''act'' ''y'') \<and>
   plan_digest demo_bytes id (demo_plan_a ''act'' ''x'') \<noteq> plan_digest demo_bytes id (demo_plan_a ''wait'' ''x'')"
proof -
  have "demo_bytes (canonical_form (demo_plan_a ''act'' ''x'')) \<noteq> demo_bytes (canonical_form (demo_plan_a ''wait'' ''x''))"
    by code_simp
  then show ?thesis
    using digest_binds_plan [of "demo_plan_a ''act'' ''x''" "demo_plan_a ''act'' ''y''" id demo_bytes]
      digest_binds_plan [of "demo_plan_a ''act'' ''x''" "demo_plan_a ''wait'' ''x''" id demo_bytes]
    by (simp add: demo_plan_a_def strip_narration_def canonical_form_def)
qed

text \<open>A resolved ask approves a plan exactly when its resolution names the choice \<^verbatim>\<open>approve\<close>, that choice was among the options
  offered, and the digest stored on the ask is the plan's. Anything malformed or absent approves nothing.\<close>

theorem ask_approves_iff:
  "ask_decide ask d = AskApproved \<longleftrightarrow>
     ask_plan_digest ask = Some d \<and>
     (\<exists>r offered. ask_resolution ask = Some r \<and> json_get r ''choice'' = Some (JStr ''approve'') \<and>
        ask_options ask = JArr offered \<and> JStr ''approve'' \<in> set offered)"
  using resolution_choice_iff [of ask ChoiceApprove] by (auto simp: ask_decide_Approved_iff RESOLUTION_CHOICE_KEY_def)

text \<open>A suspended run resumes as it was: restoring the state stored on its ask gives back the plans, advisories and
  blocks, provided the derived serialisation of plans and outcomes round-trips.\<close>

theorem suspended_run_round_trip:
  assumes "\<And>p. p \<in> set plans \<Longrightarrow> dec_plan (enc_plan (pr_plan p)) = Some (pr_plan p) \<and>
                               dec_outs (enc_outs (pr_outcomes p)) = Some (pr_outcomes p)"
  shows "restore_resume_state dec_plan dec_outs (Some (resume_state_from enc_plan enc_outs plans advisories blocks)) =
    \<lparr>rr_plans = plans, rr_advisories = advisories, rr_blocks = blocks\<rparr>"
  by (rule resume_round_trip [OF assms])

definition demo_record :: PlanRecord where
  "demo_record = \<lparr>pr_plan = demo_plan_a ''act'' [], pr_outcomes = []\<rparr>"

theorem suspended_run_round_trip_witness:
  "restore_resume_state (\<lambda>j. Some (demo_plan_a (the (json_as_str j)) [])) (\<lambda>_. Some [])
     (Some (resume_state_from (\<lambda>p. JStr (plan_decision p)) (\<lambda>_. JArr []) [demo_record] [''a''] [])) =
   \<lparr>rr_plans = [demo_record], rr_advisories = [''a''], rr_blocks = []\<rparr>"
  by (rule suspended_run_round_trip) (simp add: demo_record_def demo_plan_a_def)

end
