(* ===== verification/Result_View.thy ===== *)
theory Result_View
  imports Injection_Guard
begin

text \<open>
  \<^verbatim>\<open>core/src/scheduler/inner_loop/result_view.rs\<close>: the planner's view of a tool result. \<open>prune\<close> cuts a value down to limits,
  \<open>render\<close> searches for the limits that meet a byte budget, and \<open>screen_text\<close> is the text of a view that the
  sink screen reads. \<^verbatim>\<open>serde_json\<close>'s printer is the parameter \<open>ser\<close>.
\<close>

section \<open>Constants\<close>

definition LEAF_FLOOR :: nat where "LEAF_FLOOR = 64"
definition DEFAULT_ITEMS :: nat where "DEFAULT_ITEMS = 20"
definition DEFAULT_KEYS :: nat where "DEFAULT_KEYS = 64"
definition ATOMIC_MAX :: nat where "ATOMIC_MAX = 1024"
definition NON_ASCII_ATOMIC_MAX_CHARS :: nat where "NON_ASCII_ATOMIC_MAX_CHARS = 255"
definition KEY_MAX_BYTES :: nat where "KEY_MAX_BYTES = 64"
definition MIN_VIEW_TOTAL :: nat where "MIN_VIEW_TOTAL = 128"

definition ELLIPSIS :: rstr where "ELLIPSIS = [CHR 0xE2, CHR 0x80, CHR 0xA6]"
definition OMITTED_KEYS_KEY :: rstr where "OMITTED_KEYS_KEY = ELLIPSIS @ ''omitted_keys''"
definition DEPTH_MARKER :: rstr where "DEPTH_MARKER = ELLIPSIS @ ''nested too deeply to show''"
definition VIEW_UNAVAILABLE_KEY :: rstr where "VIEW_UNAVAILABLE_KEY = ELLIPSIS @ ''view_unavailable''"
definition VIEW_UNAVAILABLE_TEXT :: rstr where
  "VIEW_UNAVAILABLE_TEXT = ''result too large to summarise within budget''"
definition KEY_SEPARATORS :: "char list" where "KEY_SEPARATORS = ''_.:-@/''"

record PruneLimits =
  pl_leaf :: nat
  pl_items :: nat
  pl_keys :: nat

definition DEFAULT_LIMITS :: PruneLimits where
  "DEFAULT_LIMITS = \<lparr>pl_leaf = USIZE_MAX, pl_items = DEFAULT_ITEMS, pl_keys = DEFAULT_KEYS\<rparr>"

section \<open>Strings and keys\<close>

definition is_identifier_key :: "rstr \<Rightarrow> bool" where
  "is_identifier_key key \<longleftrightarrow>
     key \<noteq> [] \<and> length key \<le> KEY_MAX_BYTES \<and> \<not> starts_with key ''.'' \<and>
     list_all (\<lambda>c. is_ascii_alphanumeric c \<or> c \<in> set KEY_SEPARATORS) key"

text \<open>\<^verbatim>\<open>char::is_whitespace\<close> and \<^verbatim>\<open>char::is_control\<close> on the bytes of one code point.\<close>

definition char_is_whitespace :: "rstr \<Rightarrow> bool" where
  "char_is_whitespace c \<longleftrightarrow> c \<in> set ws_seqs"

definition char_is_control :: "rstr \<Rightarrow> bool" where
  "char_is_control c \<longleftrightarrow>
     (case c of
        [a] \<Rightarrow> code a < 0x20 \<or> code a = 0x7F
      | [a, b] \<Rightarrow> code a = 0xC2 \<and> 0x80 \<le> code b \<and> code b \<le> 0x9F
      | _ \<Rightarrow> False)"

definition is_atomic :: "rstr \<Rightarrow> bool" where
  "is_atomic s =
     (if length s > ATOMIC_MAX \<or> list_ex (\<lambda>c. char_is_whitespace c \<or> char_is_control c) (chars s) then False
      else list_all is_ascii s \<or> str_contains s ''://'' \<or> starts_with s ''/'' \<or>
           length (chars s) \<le> NON_ASCII_ATOMIC_MAX_CHARS)"

definition cut_leaf :: "rstr \<Rightarrow> nat \<Rightarrow> rstr" where
  "cut_leaf s leaf =
     (if length s \<le> leaf \<or> is_atomic s then s
      else (let e = floor_char_boundary s leaf in
            if e + length ELLIPSIS \<ge> length s then s else take e s @ ELLIPSIS))"

definition omitted_items_marker :: "nat \<Rightarrow> rstr" where
  "omitted_items_marker dropped = ELLIPSIS @ show_nat dropped @ '' more items omitted''"

section \<open>Pruning\<close>

text \<open>The loops over an array and over an object's entries; \<open>n\<close> elements are still kept, \<open>out\<close> is the object so far.
  The keys of an object are distinct and in map order, so an insertion appends.\<close>

fun prune_at :: "PruneLimits \<Rightarrow> nat \<Rightarrow> json \<Rightarrow> json"
  and prune_items :: "PruneLimits \<Rightarrow> nat \<Rightarrow> nat \<Rightarrow> json list \<Rightarrow> json list"
  and prune_fields :: "PruneLimits \<Rightarrow> nat \<Rightarrow> (rstr \<times> json) list \<Rightarrow> (rstr \<times> json) list \<Rightarrow> nat \<Rightarrow> (rstr \<times> json) list \<times> nat" where
  "prune_at lim d (JStr s) = (if d \<ge> MAX_WALK_DEPTH then JStr DEPTH_MARKER else JStr (cut_leaf s (pl_leaf lim)))"
| "prune_at lim d (JArr items) =
     (if d \<ge> MAX_WALK_DEPTH then JStr DEPTH_MARKER
      else (let out = prune_items lim (d + 1) (pl_items lim) items;
                dropped = length items - pl_items lim
            in JArr (if dropped > 0 then out @ [JStr (omitted_items_marker dropped)] else out)))"
| "prune_at lim d (JObj kvs) =
     (if d \<ge> MAX_WALK_DEPTH then JStr DEPTH_MARKER
      else (let r = prune_fields lim (d + 1) kvs [] 0
            in JObj (if snd r > 0 then fst r @ [(OMITTED_KEYS_KEY, JInt (int (snd r)))] else fst r)))"
| "prune_at lim d JNull = (if d \<ge> MAX_WALK_DEPTH then JStr DEPTH_MARKER else JNull)"
| "prune_at lim d (JBool b) = (if d \<ge> MAX_WALK_DEPTH then JStr DEPTH_MARKER else JBool b)"
| "prune_at lim d (JInt i) = (if d \<ge> MAX_WALK_DEPTH then JStr DEPTH_MARKER else JInt i)"
| "prune_at lim d (JFloat f) = (if d \<ge> MAX_WALK_DEPTH then JStr DEPTH_MARKER else JFloat f)"
| "prune_items lim d n [] = []"
| "prune_items lim d n (x # xs) = (if n = 0 then [] else prune_at lim d x # prune_items lim d (n - 1) xs)"
| "prune_fields lim d [] out dropped = (out, dropped)"
| "prune_fields lim d (kv # kvs) out dropped =
     (if \<not> is_identifier_key (fst kv) \<or> length out \<ge> pl_keys lim
      then prune_fields lim d kvs out (dropped + 1)
      else prune_fields lim d kvs (out @ [(fst kv, prune_at lim d (snd kv))]) dropped)"

definition prune :: "json \<Rightarrow> PruneLimits \<Rightarrow> json" where
  "prune v lim = prune_at lim 0 v"

fun longest_leaf :: "json \<Rightarrow> nat \<Rightarrow> nat" where
  "longest_leaf (JStr s) d = (if d \<ge> MAX_WALK_DEPTH then 0 else length s)"
| "longest_leaf (JArr items) d =
     (if d \<ge> MAX_WALK_DEPTH then 0 else fold max (map (\<lambda>v. longest_leaf v (d + 1)) items) 0)"
| "longest_leaf (JObj kvs) d =
     (if d \<ge> MAX_WALK_DEPTH then 0 else fold max (map (\<lambda>kv. longest_leaf (snd kv) (d + 1)) kvs) 0)"
| "longest_leaf _ d = 0"

section \<open>Meeting a byte budget\<close>

definition fallback_view :: json where
  "fallback_view = JObj [(VIEW_UNAVAILABLE_KEY, JStr VIEW_UNAVAILABLE_TEXT)]"

definition serialised_len :: "(json \<Rightarrow> rstr) \<Rightarrow> json \<Rightarrow> nat" where
  "serialised_len ser v = length (ser v)"

definition fit :: "(json \<Rightarrow> rstr) \<Rightarrow> json \<Rightarrow> PruneLimits \<Rightarrow> nat \<Rightarrow> json option" where
  "fit ser v lim tot =
     (let pruned = prune v lim in if serialised_len ser pruned \<le> tot then Some pruned else None)"

text \<open>The binary search for the string cap: \<open>fits\<close> is known to fit, \<open>fails\<close> not to.\<close>

function search_cap :: "(json \<Rightarrow> rstr) \<Rightarrow> json \<Rightarrow> PruneLimits \<Rightarrow> nat \<Rightarrow> json \<Rightarrow> nat \<Rightarrow> nat \<Rightarrow> json" where
  "search_cap ser v containers tot best fits fails =
     (if fails > fits + 1
      then (let mid = fits + (fails - fits) div 2 in
            case fit ser v (containers\<lparr>pl_leaf := mid\<rparr>) tot of
              Some found \<Rightarrow> search_cap ser v containers tot found mid fails
            | None \<Rightarrow> search_cap ser v containers tot best fits mid)
      else best)"
  by pat_completeness auto
termination
  by (relation "measure (\<lambda>(ser, v, c, tot, best, fits, fails). fails - fits)") auto

declare search_cap.simps [simp del]

definition best_fit_at :: "(json \<Rightarrow> rstr) \<Rightarrow> json \<Rightarrow> PruneLimits \<Rightarrow> nat \<Rightarrow> nat \<Rightarrow> json option" where
  "best_fit_at ser v containers longest tot =
     (case fit ser v (containers\<lparr>pl_leaf := USIZE_MAX\<rparr>) tot of
        Some found \<Rightarrow> Some found
      | None \<Rightarrow>
          (case fit ser v (containers\<lparr>pl_leaf := LEAF_FLOOR\<rparr>) tot of
             None \<Rightarrow> None
           | Some best \<Rightarrow> Some (search_cap ser v containers tot best LEAF_FLOOR longest)))"

text \<open>The two loops that narrow the containers; each returns the limits it ended with and what it found.\<close>

fun narrow_items :: "(json \<Rightarrow> rstr) \<Rightarrow> json \<Rightarrow> PruneLimits \<Rightarrow> nat \<Rightarrow> nat \<Rightarrow> nat \<Rightarrow> PruneLimits \<times> json option" where
  "narrow_items ser v containers longest tot 0 = (containers, None)"
| "narrow_items ser v containers longest tot (Suc n) =
     (if pl_items containers > 1
      then (let containers = containers\<lparr>pl_items := pl_items containers - 1\<rparr> in
            case best_fit_at ser v containers longest tot of
              Some found \<Rightarrow> (containers, Some found)
            | None \<Rightarrow> narrow_items ser v containers longest tot n)
      else (containers, None))"

fun narrow_keys :: "(json \<Rightarrow> rstr) \<Rightarrow> json \<Rightarrow> PruneLimits \<Rightarrow> nat \<Rightarrow> nat \<Rightarrow> nat \<Rightarrow> json option" where
  "narrow_keys ser v containers longest tot 0 = None"
| "narrow_keys ser v containers longest tot (Suc n) =
     (if pl_keys containers > 1
      then (let containers = containers\<lparr>pl_keys := pl_keys containers - 1\<rparr> in
            case best_fit_at ser v containers longest tot of
              Some found \<Rightarrow> Some found
            | None \<Rightarrow> narrow_keys ser v containers longest tot n)
      else None)"

text \<open>The fuel of each loop is its starting cap, which it lowers by one per round.\<close>

definition render :: "(json \<Rightarrow> rstr) \<Rightarrow> json \<Rightarrow> nat \<Rightarrow> json" where
  "render ser v tot =
     (let longest = longest_leaf v 0 in
      case best_fit_at ser v DEFAULT_LIMITS longest tot of
        Some found \<Rightarrow> found
      | None \<Rightarrow>
          (case narrow_items ser v DEFAULT_LIMITS longest tot (pl_items DEFAULT_LIMITS) of
             (_, Some found) \<Rightarrow> found
           | (containers, None) \<Rightarrow>
               (case narrow_keys ser v containers longest tot (pl_keys containers) of
                  Some found \<Rightarrow> found
                | None \<Rightarrow> fallback_view)))"

section \<open>What the sink screen reads\<close>

definition spaced_key :: "rstr \<Rightarrow> rstr" where
  "spaced_key key = map (\<lambda>c. if c \<in> set KEY_SEPARATORS then CHR '' '' else c) key"

fun split_words :: "char option \<Rightarrow> rstr \<Rightarrow> rstr" where
  "split_words prev [] = []"
| "split_words prev (c # cs) =
     (if is_ascii_upper c \<and> (case prev of Some p \<Rightarrow> is_ascii_lower p \<or> is_ascii_digit p | None \<Rightarrow> False)
      then CHR '' '' # c # split_words (Some c) cs else c # split_words (Some c) cs)"

definition key_readings :: "rstr \<Rightarrow> rstr list" where
  "key_readings key =
     (let spaced = spaced_key key; split = split_words None spaced
      in if split = spaced then [spaced] else [spaced, split])"

fun collect_screen_parts :: "nat \<Rightarrow> json \<Rightarrow> rstr list" where
  "collect_screen_parts d (JStr s) = (if d \<ge> MAX_WALK_DEPTH \<or> s = [] then [] else [s])"
| "collect_screen_parts d (JArr items) =
     (if d \<ge> MAX_WALK_DEPTH then [] else concat (map (collect_screen_parts (d + 1)) items))"
| "collect_screen_parts d (JObj kvs) =
     (if d \<ge> MAX_WALK_DEPTH then []
      else concat (map (\<lambda>kv.
             case snd kv of
               JStr (c # cs) \<Rightarrow> map (\<lambda>words. words @ '' '' @ c # cs) (key_readings (fst kv))
             | item \<Rightarrow> key_readings (fst kv) @ collect_screen_parts (d + 1) (snd kv)) kvs))"
| "collect_screen_parts d _ = []"

fun join_lines :: "rstr list \<Rightarrow> rstr" where
  "join_lines [] = []"
| "join_lines [x] = x"
| "join_lines (x # y # xs) = x @ [CHR 0x0A] @ join_lines (y # xs)"

definition screen_text :: "json \<Rightarrow> rstr" where
  "screen_text view = join_lines (collect_screen_parts 0 view)"

section \<open>The budget is met\<close>

lemma fit_fits: "fit ser v lim tot = Some w \<Longrightarrow> serialised_len ser w \<le> tot \<and> w = prune v lim"
  by (auto simp: fit_def Let_def split: if_splits)

lemma fit_None: "fit ser v lim tot = None \<longleftrightarrow> serialised_len ser (prune v lim) > tot"
  by (auto simp: fit_def Let_def)

text \<open>The search ends at a cap that fits and whose successor does not, unless the successor is the bound it
  started from.\<close>

lemma search_cap_result:
  assumes "fit ser v (c\<lparr>pl_leaf := fits\<rparr>) tot = Some best" and "fits < fails"
  shows "\<exists>k. fits \<le> k \<and> k < fails \<and> fit ser v (c\<lparr>pl_leaf := k\<rparr>) tot = Some (search_cap ser v c tot best fits fails) \<and>
    (k + 1 = fails \<or> fit ser v (c\<lparr>pl_leaf := k + 1\<rparr>) tot = None)"
  using assms
proof (induction ser v c tot best fits fails rule: search_cap.induct)
  case (1 ser v c tot best fits fails)
  show ?case
  proof (cases "fails > fits + 1")
    case False
    with 1 show ?thesis by (subst search_cap.simps) auto
  next
    case True
    let ?mid = "fits + (fails - fits) div 2"
    have mid: "fits < ?mid" "?mid < fails" using True by auto
    show ?thesis
    proof (cases "fit ser v (c\<lparr>pl_leaf := ?mid\<rparr>) tot")
      case None
      then have eq: "search_cap ser v c tot best fits fails = search_cap ser v c tot best fits ?mid"
        using True by (subst search_cap.simps) (simp add: Let_def)
      from "1.IH"(1) [OF True refl None "1.prems"(1) mid(1)] obtain k where
        "fits \<le> k" "k < ?mid" "fit ser v (c\<lparr>pl_leaf := k\<rparr>) tot = Some (search_cap ser v c tot best fits ?mid)"
        "k + 1 = ?mid \<or> fit ser v (c\<lparr>pl_leaf := k + 1\<rparr>) tot = None"
        by blast
      with eq None mid show ?thesis by (intro exI [of _ k]) auto
    next
      case (Some found)
      then have eq: "search_cap ser v c tot best fits fails = search_cap ser v c tot found ?mid fails"
        using True by (subst search_cap.simps) (simp add: Let_def)
      from "1.IH"(2) [OF True refl Some Some mid(2)] obtain k where
        "?mid \<le> k" "k < fails" "fit ser v (c\<lparr>pl_leaf := k\<rparr>) tot = Some (search_cap ser v c tot found ?mid fails)"
        "k + 1 = fails \<or> fit ser v (c\<lparr>pl_leaf := k + 1\<rparr>) tot = None"
        by blast
      with eq mid show ?thesis by (intro exI [of _ k]) auto
    qed
  qed
qed

lemma search_cap_stops: "\<not> fits < fails \<Longrightarrow> search_cap ser v c tot best fits fails = best"
  by (subst search_cap.simps) simp

text \<open>Every view found is the value pruned to the containers' caps and some string cap, and fits.\<close>

definition is_view :: "(json \<Rightarrow> rstr) \<Rightarrow> json \<Rightarrow> nat \<Rightarrow> json \<Rightarrow> bool" where
  "is_view ser v tot w \<longleftrightarrow> serialised_len ser w \<le> tot \<and> (\<exists>lim. w = prune v lim)"

lemma is_view_fit: "fit ser v lim tot = Some w \<Longrightarrow> is_view ser v tot w"
  using fit_fits is_view_def by blast

lemma best_fit_view: "best_fit_at ser v c longest tot = Some w \<Longrightarrow> is_view ser v tot w"
proof -
  assume b: "best_fit_at ser v c longest tot = Some w"
  show ?thesis
  proof (cases "fit ser v (c\<lparr>pl_leaf := USIZE_MAX\<rparr>) tot")
    case (Some x)
    with b is_view_fit show ?thesis by (simp add: best_fit_at_def)
  next
    case None
    then obtain best where best: "fit ser v (c\<lparr>pl_leaf := LEAF_FLOOR\<rparr>) tot = Some best"
      "w = search_cap ser v c tot best LEAF_FLOOR longest"
      using b by (auto simp: best_fit_at_def split: option.splits)
    show ?thesis
    proof (cases "LEAF_FLOOR < longest")
      case True
      with search_cap_result [OF best(1)] best(2) is_view_fit show ?thesis by blast
    next
      case False
      with best is_view_fit show ?thesis by (simp add: search_cap_stops)
    qed
  qed
qed

lemma narrow_items_view: "narrow_items ser v c longest tot n = (c', Some w) \<Longrightarrow> is_view ser v tot w"
  by (induction n arbitrary: c) (auto simp: Let_def split: if_splits option.splits dest: best_fit_view)

lemma narrow_keys_view: "narrow_keys ser v c longest tot n = Some w \<Longrightarrow> is_view ser v tot w"
  by (induction n arbitrary: c) (auto simp: Let_def split: if_splits option.splits dest: best_fit_view)

lemma render_cases: "is_view ser v tot (render ser v tot) \<or> render ser v tot = fallback_view"
  by (auto simp: render_def Let_def split: option.splits prod.splits
      dest: best_fit_view narrow_items_view narrow_keys_view)

text \<open>The fuel of the two loops suffices: they end because the cap has reached one.\<close>

lemma narrow_items_exhausts:
  "narrow_items ser v c longest tot n = (c', None) \<Longrightarrow> pl_items c \<le> n \<Longrightarrow> pl_items c' \<le> 1"
  by (induction n arbitrary: c) (auto simp: Let_def split: if_splits option.splits)

lemma narrow_keys_exhausts:
  "narrow_keys ser v c longest tot n = None \<Longrightarrow> pl_keys c \<le> n \<Longrightarrow> 0 < k \<Longrightarrow> k < pl_keys c \<Longrightarrow>
     best_fit_at ser v (c\<lparr>pl_keys := k\<rparr>) longest tot = None"
proof (induction n arbitrary: c)
  case 0
  then show ?case by simp
next
  case (Suc n)
  let ?c = "c\<lparr>pl_keys := pl_keys c - 1\<rparr>"
  have n: "best_fit_at ser v ?c longest tot = None" "narrow_keys ser v ?c longest tot n = None"
    using Suc.prems by (auto simp: Let_def split: option.splits)
  show ?case
  proof (cases "k = pl_keys c - 1")
    case True
    with n show ?thesis by simp
  next
    case False
    with Suc.IH [OF n(2)] Suc.prems show ?thesis by simp
  qed
qed

section \<open>What a view shows\<close>

text \<open>The keys and the strings of a value, at any depth.\<close>

fun json_keys :: "json \<Rightarrow> rstr set" where
  "json_keys (JArr items) = (\<Union>v \<in> set items. json_keys v)"
| "json_keys (JObj kvs) = (\<Union>kv \<in> set kvs. insert (fst kv) (json_keys (snd kv)))"
| "json_keys _ = {}"

fun json_strings :: "json \<Rightarrow> rstr set" where
  "json_strings (JStr s) = {s}"
| "json_strings (JArr items) = (\<Union>v \<in> set items. json_strings v)"
| "json_strings (JObj kvs) = (\<Union>kv \<in> set kvs. json_strings (snd kv))"
| "json_strings _ = {}"

text \<open>A string of a view is a string of the value, shown whole, or the head of one that is not an identifier,
  or one of the core's own markers.\<close>

definition cut_head :: "rstr \<Rightarrow> rstr \<Rightarrow> bool" where
  "cut_head s t \<longleftrightarrow> \<not> is_atomic s \<and> (\<exists>i. is_char_boundary s i \<and> i + length ELLIPSIS < length s \<and> t = take i s @ ELLIPSIS)"

definition core_marker :: "rstr \<Rightarrow> bool" where
  "core_marker t \<longleftrightarrow> t = DEPTH_MARKER \<or> (\<exists>n > 0. t = omitted_items_marker n)"

definition shown :: "rstr set \<Rightarrow> rstr \<Rightarrow> bool" where
  "shown S t \<longleftrightarrow> t \<in> S \<or> (\<exists>s \<in> S. cut_head s t) \<or> core_marker t"

lemma cut_leaf_shown: "s \<in> S \<Longrightarrow> shown S (cut_leaf s leaf)"
  by (auto simp: cut_leaf_def shown_def cut_head_def Let_def not_le intro!: bexI [of _ s] exI [of _ "floor_char_boundary s leaf"])

lemma shown_mono: "shown S t \<Longrightarrow> S \<subseteq> T \<Longrightarrow> shown T t"
  by (auto simp: shown_def)

lemma shown_depth [simp]: "shown S DEPTH_MARKER"
  by (simp add: shown_def core_marker_def)

lemma shown_omitted [simp]: "0 < n \<Longrightarrow> shown S (omitted_items_marker n)"
  by (auto simp: shown_def core_marker_def)

lemma prune_at_shown:
  "t \<in> json_strings (prune_at lim d v) \<Longrightarrow> shown (json_strings v) t"
  "w \<in> set (prune_items lim d n xs) \<Longrightarrow> t \<in> json_strings w \<Longrightarrow> shown (\<Union>v \<in> set xs. json_strings v) t"
  "prune_fields lim d kvs out dropped = (out', dropped') \<Longrightarrow> kv \<in> set out' \<Longrightarrow> t \<in> json_strings (snd kv) \<Longrightarrow>
     kv \<in> set out \<or> shown (\<Union>kv \<in> set kvs. json_strings (snd kv)) t"
proof (induction lim d v and lim d n xs and lim d kvs out dropped
    arbitrary: t and w t and out' dropped' kv t rule: prune_at_prune_items_prune_fields.induct)
  case (1 lim d s)
  then show ?case by (auto split: if_splits intro: cut_leaf_shown)
next
  case (2 lim d items)
  show ?case
  proof (cases "d \<ge> MAX_WALK_DEPTH")
    case True
    with 2 show ?thesis by simp
  next
    case False
    with "2.prems" consider "0 < length items - pl_items lim" "t = omitted_items_marker (length items - pl_items lim)"
      | w where "w \<in> set (prune_items lim (d + 1) (pl_items lim) items)" "t \<in> json_strings w"
      by (auto simp: Let_def split: if_splits)
    then show ?thesis
    proof cases
      case 2
      with "2.IH" False show ?thesis by simp
    qed simp
  qed
next
  case (3 lim d kvs)
  show ?case
  proof (cases "d \<ge> MAX_WALK_DEPTH")
    case True
    with 3 show ?thesis by simp
  next
    case False
    obtain out' dropped' where p: "prune_fields lim (d + 1) kvs [] 0 = (out', dropped')" by fastforce
    with "3.prems" False obtain kv where "kv \<in> set out'" "t \<in> json_strings (snd kv)"
      by (auto simp: Let_def split: if_splits)
    with "3.IH" [OF False p] show ?thesis by simp
  qed
next
  case (9 lim d n x xs)
  then show ?case by (auto split: if_splits intro: shown_mono)
next
  case (11 lim d kv0 kvs out dropped)
  show ?case
  proof (cases "\<not> is_identifier_key (fst kv0) \<or> length out \<ge> pl_keys lim")
    case True
    with "11.prems"(1) have p: "prune_fields lim d kvs out (dropped + 1) = (out', dropped')" by simp
    from "11.IH"(1) [OF True p "11.prems"(2,3)] show ?thesis by (auto intro: shown_mono)
  next
    case False
    with "11.prems"(1) have p: "prune_fields lim d kvs (out @ [(fst kv0, prune_at lim d (snd kv0))]) dropped = (out', dropped')"
      by simp
    from "11.IH"(3) [OF False p "11.prems"(2,3)] consider "kv \<in> set out" | "kv = (fst kv0, prune_at lim d (snd kv0))"
      | "shown (\<Union>kv \<in> set kvs. json_strings (snd kv)) t" by auto
    then show ?thesis
    proof cases
      case 2
      with "11.prems"(3) "11.IH"(2) [OF False] show ?thesis by (auto intro: shown_mono)
    qed (auto intro: shown_mono)
  qed
qed (auto split: if_splits)

lemma prune_at_keys:
  "k \<in> json_keys (prune_at lim d v) \<Longrightarrow> is_identifier_key k \<or> k = OMITTED_KEYS_KEY"
  "w \<in> set (prune_items lim d n xs) \<Longrightarrow> k \<in> json_keys w \<Longrightarrow> is_identifier_key k \<or> k = OMITTED_KEYS_KEY"
  "prune_fields lim d kvs out dropped = (out', dropped') \<Longrightarrow> kv \<in> set out' \<Longrightarrow> kv \<notin> set out \<Longrightarrow>
     k \<in> insert (fst kv) (json_keys (snd kv)) \<Longrightarrow> is_identifier_key k \<or> k = OMITTED_KEYS_KEY"
proof (induction lim d v and lim d n xs and lim d kvs out dropped
    arbitrary: k and w k and out' dropped' kv k rule: prune_at_prune_items_prune_fields.induct)
  case (2 lim d items)
  then show ?case by (auto simp: Let_def split: if_splits)
next
  case (3 lim d kvs)
  obtain out' dropped' where p: "prune_fields lim (d + 1) kvs [] 0 = (out', dropped')" by fastforce
  with "3.prems" show ?case
    using "3.IH" [OF _ p] by (auto simp: Let_def split: if_splits)
next
  case (11 lim d kv0 kvs out dropped)
  show ?case
  proof (cases "\<not> is_identifier_key (fst kv0) \<or> length out \<ge> pl_keys lim")
    case True
    with "11.prems"(1) have p: "prune_fields lim d kvs out (dropped + 1) = (out', dropped')" by simp
    from "11.IH"(1) [OF True p "11.prems"(2-4)] show ?thesis .
  next
    case False
    with "11.prems"(1) have p: "prune_fields lim d kvs (out @ [(fst kv0, prune_at lim d (snd kv0))]) dropped = (out', dropped')"
      by simp
    show ?thesis
    proof (cases "kv = (fst kv0, prune_at lim d (snd kv0))")
      case True
      with "11.prems"(4) "11.IH"(2) [OF False] False show ?thesis by auto
    next
      case nk: False
      then have "kv \<notin> set (out @ [(fst kv0, prune_at lim d (snd kv0))])" using "11.prems"(3) by simp
      from "11.IH"(3) [OF False p "11.prems"(2) this "11.prems"(4)] show ?thesis .
    qed
  qed
qed (auto split: if_splits)

lemma OMITTED_KEYS_KEY_not_identifier: "\<not> is_identifier_key OMITTED_KEYS_KEY"
  "\<not> is_identifier_key VIEW_UNAVAILABLE_KEY"
  by (simp_all add: is_identifier_key_def OMITTED_KEYS_KEY_def VIEW_UNAVAILABLE_KEY_def ELLIPSIS_def
      is_ascii_alphanumeric_def is_ascii_digit_def is_ascii_upper_def is_ascii_lower_def KEY_SEPARATORS_def code_def)

end
