(* ===== verification/Screened_Head.thy ===== *)
theory Screened_Head
  imports Result_View
begin

text \<open>
  \<^verbatim>\<open>core/src/cassandra/injection_guard/screened_head.rs\<close>: the head of a stashed result that the planner is shown. Proved: its
  text is a prefix of the text the output screen read, up to the one mark the core appends to a cut
  string.
\<close>

definition CUT_MARK :: rstr where "CUT_MARK = [CHR 0xE2, CHR 0x80, CHR 0xA6]"

text \<open>The charge so far is the state. The answer is the kept part and whether the budget ran out.\<close>

definition charge_node :: "json \<Rightarrow> nat \<Rightarrow> nat \<Rightarrow> nat \<times> json option \<times> bool" where
  "charge_node node cap used = (if used < cap then (used + 1, Some node, False) else (used, None, True))"

definition head_string :: "rstr \<Rightarrow> nat \<Rightarrow> nat \<Rightarrow> nat \<times> json option \<times> bool" where
  "head_string s cap used =
     (let sep = (if used > 0 then 1 else 0) in
      if used + sep + length s \<le> cap then (used + sep + length s, Some (JStr s), False)
      else
        (let tk = floor_char_boundary s (cap - (used + sep)) in
         if tk = 0 \<or> is_atomic s then (cap, None, True)
         else (cap, Some (JStr (take tk s @ CUT_MARK)), True)))"

fun head_at :: "nat \<Rightarrow> nat \<Rightarrow> json \<Rightarrow> nat \<Rightarrow> nat \<times> json option \<times> bool"
  and head_items :: "nat \<Rightarrow> nat \<Rightarrow> json list \<Rightarrow> nat \<Rightarrow> nat \<times> json list \<times> bool"
  and head_fields :: "nat \<Rightarrow> nat \<Rightarrow> (rstr \<times> json) list \<Rightarrow> nat \<Rightarrow> nat \<times> (rstr \<times> json) list \<times> bool" where
  "head_at cap d (JStr s) used =
     (if d \<ge> MAX_WALK_DEPTH then charge_node JNull cap used
      else if s \<noteq> [] then head_string s cap used else charge_node (JStr s) cap used)"
| "head_at cap d (JArr items) used =
     (if d \<ge> MAX_WALK_DEPTH then charge_node JNull cap used
      else (case charge_node JNull cap used of
              (used', None, stop) \<Rightarrow> (used', None, stop)
            | (used', Some _, _) \<Rightarrow>
                (case head_items cap (d + 1) items used' of (u, out, stop) \<Rightarrow> (u, Some (JArr out), stop))))"
| "head_at cap d (JObj kvs) used =
     (if d \<ge> MAX_WALK_DEPTH then charge_node JNull cap used
      else (case charge_node JNull cap used of
              (used', None, stop) \<Rightarrow> (used', None, stop)
            | (used', Some _, _) \<Rightarrow>
                (case head_fields cap (d + 1) kvs used' of (u, out, stop) \<Rightarrow> (u, Some (JObj out), stop))))"
| "head_at cap d JNull used = charge_node JNull cap used"
| "head_at cap d (JBool b) used =
     (if d \<ge> MAX_WALK_DEPTH then charge_node JNull cap used else charge_node (JBool b) cap used)"
| "head_at cap d (JInt i) used =
     (if d \<ge> MAX_WALK_DEPTH then charge_node JNull cap used else charge_node (JInt i) cap used)"
| "head_at cap d (JFloat f) used =
     (if d \<ge> MAX_WALK_DEPTH then charge_node JNull cap used else charge_node (JFloat f) cap used)"
| "head_items cap d [] used = (used, [], False)"
| "head_items cap d (x # xs) used =
     (case head_at cap d x used of
        (u, kept, True) \<Rightarrow> (u, (case kept of None \<Rightarrow> [] | Some k \<Rightarrow> [k]), True)
      | (u, kept, False) \<Rightarrow>
          (case head_items cap d xs u of
             (u', out, stop) \<Rightarrow> (u', (case kept of None \<Rightarrow> [] | Some k \<Rightarrow> [k]) @ out, stop)))"
| "head_fields cap d [] used = (used, [], False)"
| "head_fields cap d (kv # kvs) used =
     (if used + length (fst kv) > cap then (used, [], True)
      else
        (case head_at cap d (snd kv) (used + length (fst kv)) of
           (u, kept, True) \<Rightarrow> (u, (case kept of None \<Rightarrow> [] | Some k \<Rightarrow> [(fst kv, k)]), True)
         | (u, kept, False) \<Rightarrow>
             (case head_fields cap d kvs u of
                (u', out, stop) \<Rightarrow> (u', (case kept of None \<Rightarrow> [] | Some k \<Rightarrow> [(fst kv, k)]) @ out, stop))))"

definition screened_head :: "json \<Rightarrow> nat \<Rightarrow> json" where
  "screened_head v cap = (case fst (snd (head_at cap 0 v 0)) of Some h \<Rightarrow> h | None \<Rightarrow> JNull)"

section \<open>The text of a head\<close>

text \<open>Every string of the value is valid UTF-8, as a Rust \<^verbatim>\<open>String\<close> is.\<close>

fun json_utf8 :: "json \<Rightarrow> bool" where
  "json_utf8 (JStr s) = utf8_valid s"
| "json_utf8 (JArr items) = list_all json_utf8 items"
| "json_utf8 (JObj kvs) = list_all (\<lambda>kv. json_utf8 (snd kv)) kvs"
| "json_utf8 _ = True"

definition opt_leaves :: "nat \<Rightarrow> json option \<Rightarrow> rstr list" where
  "opt_leaves d kept = (case kept of None \<Rightarrow> [] | Some k \<Rightarrow> text_leaves d k)"

text \<open>\<open>within out' t\<close>: the text \<open>t\<close> of a head lies in what the screen's walk has emitted, less the final mark.\<close>

definition within :: "rstr \<Rightarrow> rstr \<Rightarrow> bool" where
  "within out' t \<longleftrightarrow> prefix t out' \<or> (\<exists>u. t = u @ CUT_MARK \<and> prefix u out')"

lemma within_grows: "within out t \<Longrightarrow> prefix out out' \<Longrightarrow> within out' t"
  by (auto simp: within_def intro: prefix_order.trans)

text \<open>A head that goes on has the leaves of the value and never outruns the walk; one that stops lies within
  what the walk emits.\<close>

definition tracks :: "nat \<Rightarrow> rstr list \<Rightarrow> rstr list \<Rightarrow> nat \<times> bool \<Rightarrow> rstr \<Rightarrow> (rstr \<times> bool) \<times> bool \<Rightarrow> bool" where
  "tracks cap hl vl us out w \<longleftrightarrow>
     fst us \<le> cap \<and>
     (if snd us then within (fst (fst w)) (joined out hl) \<and> length (joined out hl) \<le> cap + length CUT_MARK
      else hl = vl \<and> \<not> snd w \<and> fst (fst w) = joined out vl \<and> length (joined out vl) \<le> fst us)"

lemma charge_node_tracks:
  assumes "charge_node node cap used = (u, kept, stop)" and "used \<le> cap" and "length out \<le> used"
    and "text_leaves d node = []" and "fst (fst w) = out" and "\<not> snd w"
  shows "tracks cap (opt_leaves d kept) [] (u, stop) out w"
  using assms by (auto simp: charge_node_def tracks_def opt_leaves_def within_def split: if_splits)

lemma head_string_tracks:
  assumes "used \<le> cap" and "length out \<le> used" and "cap \<le> cap'" and "utf8_valid s" and "s \<noteq> []" and "d < MAX_WALK_DEPTH"
  shows "tracks cap (opt_leaves d (fst (snd (head_string s cap used)))) [s]
    (fst (head_string s cap used), snd (snd (head_string s cap used))) out (text_leaf cap' s (out, tr))"
proof -
  define sep where "sep = (if used > 0 then 1 else 0 :: nat)"
  define wsep where "wsep = (if out = [] then 0 else 1 :: nat)"
  have seps: "wsep \<le> sep" using assms(2) by (cases out) (auto simp: sep_def wsep_def)
  show ?thesis
  proof (cases "used + sep + length s \<le> cap")
    case True
    then have h: "head_string s cap used = (used + sep + length s, Some (JStr s), False)"
      by (simp add: head_string_def sep_def)
    have "length out + wsep + length s \<le> cap'" using True seps assms(2,3) by simp
    then have w: "text_leaf cap' s (out, tr) = ((add_text out s, tr), False)"
      using assms(5) by (simp add: text_leaf_def wsep_def add_text_def Let_def)
    have "length (add_text out s) \<le> used + sep + length s"
      using assms(2) seps by (simp add: add_text_def wsep_def split: if_splits)
    then show ?thesis using True assms(5,6) by (simp add: h w tracks_def opt_leaves_def)
  next
    case False
    define tk where "tk = floor_char_boundary s (cap - (used + sep))"
    have h: "head_string s cap used = (if tk = 0 \<or> is_atomic s then (cap, None, True) else (cap, Some (JStr (take tk s @ CUT_MARK)), True))"
      using False by (simp add: head_string_def sep_def tk_def Let_def)
    show ?thesis
    proof (cases "tk = 0 \<or> is_atomic s")
      case True
      have "prefix out (fst (fst (text_leaf cap' s (out, tr))))" using text_leaf_grows [of "(out, tr)" cap' s] by simp
      then show ?thesis using True assms(1,2) by (simp add: h tracks_def opt_leaves_def within_def)
    next
      case cut: False
      have tk: "0 < tk" "tk \<le> cap - (used + sep)" "tk \<le> length s"
        using cut floor_char_boundary_le [of s "cap - (used + sep)"] by (auto simp: tk_def)
      have pre: "prefix (add_text out (take tk s)) (fst (fst (text_leaf cap' s (out, tr))))"
      proof (cases "length out + wsep + length s \<le> cap'")
        case True
        then have w: "text_leaf cap' s (out, tr) = ((add_text out s, tr), False)"
          using assms(5) by (simp add: text_leaf_def wsep_def add_text_def Let_def)
        show ?thesis by (simp add: w add_text_def take_is_prefix)
      next
        case over: False
        let ?r = "cap' - (length out + wsep)"
        have r: "tk \<le> ?r" using tk(1,2) seps assms(2,3) by linarith
        have w: "fst (fst (text_leaf cap' s (out, tr))) =
            out @ (if wsep = 1 \<and> ?r > 0 then [CHR 0x0A] else []) @ take (take_chars ?r s) s"
          using over assms(5) by (simp add: text_leaf_def wsep_def Let_def)
        have "tk \<le> take_chars ?r s"
          unfolding take_chars_eq [OF assms(4)] using r by (intro floor_char_boundary_greatest) (auto simp: tk_def)
        then have p: "prefix (take tk s) (take (take_chars ?r s) s)" 
          by (metis min.absorb1 take_is_prefix take_take)
        show ?thesis unfolding w using p r tk(1) by (auto simp: add_text_def wsep_def)
      qed
      have t: "joined out (opt_leaves d (fst (snd (head_string s cap used)))) = add_text out (take tk s) @ CUT_MARK"
        using cut assms(5,6) by (simp add: h opt_leaves_def add_text_def CUT_MARK_def)
      have "length (add_text out (take tk s)) \<le> cap"
        using tk assms(2) seps by (auto simp: add_text_def wsep_def split: if_splits)
      with pre t show ?thesis using cut assms(1) by (auto simp: h tracks_def within_def)
    qed
  qed
qed

lemma tracks_grow:
  assumes "tracks cap hl vl (u, True) out w" and "prefix (fst (fst w)) (fst (fst w'))"
  shows "tracks cap hl vl' (u, True) out w'"
  using assms within_grows by (auto simp: tracks_def)

lemma tracks_step:
  assumes "tracks cap hl vl (u, False) out w" and "tracks cap hl' vl' us (joined out vl) w'"
  shows "tracks cap (hl @ hl') (vl @ vl') us out w'"
  using assms by (auto simp: tracks_def)

lemma tracks_FalseD:
  "tracks cap hl vl (u, False) out w \<Longrightarrow> hl = vl \<and> \<not> snd w \<and> fst (fst w) = joined out vl \<and> length (joined out vl) \<le> u \<and> u \<le> cap"
  by (simp add: tracks_def)

lemma head_tracks:
  "head_at cap d v used = (u, kept, stop) \<Longrightarrow> cap \<le> cap' \<Longrightarrow> used \<le> cap \<Longrightarrow> length out \<le> used \<Longrightarrow> json_utf8 v \<Longrightarrow>
    tracks cap (opt_leaves d kept) (text_leaves d v) (u, stop) out (text_walk cap' d v (out, tr))"
  "head_items cap d xs used = (u, hs, stop) \<Longrightarrow> cap \<le> cap' \<Longrightarrow> used \<le> cap \<Longrightarrow> length out \<le> used \<Longrightarrow> list_all json_utf8 xs \<Longrightarrow>
    tracks cap (concat (map (text_leaves d) hs)) (concat (map (text_leaves d) xs)) (u, stop) out (text_items cap' d xs (out, tr))"
  "head_fields cap d kvs used = (u, hkvs, stop) \<Longrightarrow> cap \<le> cap' \<Longrightarrow> used \<le> cap \<Longrightarrow> length out \<le> used \<Longrightarrow>
    list_all (\<lambda>kv. json_utf8 (snd kv)) kvs \<Longrightarrow>
    tracks cap (concat (map (\<lambda>kv. text_leaves d (snd kv)) hkvs)) (concat (map (\<lambda>kv. text_leaves d (snd kv)) kvs)) (u, stop) out
      (text_fields cap' d kvs (out, tr))"
proof (induction cap d v used and cap d xs used and cap d kvs used
    arbitrary: u kept stop out tr and u hs stop out tr and u hkvs stop out tr rule: head_at_head_items_head_fields.induct)
  case (1 cap d s used)
  show ?case
  proof (cases "d \<ge> MAX_WALK_DEPTH \<or> s = []")
    case True
    then have "charge_node (if d \<ge> MAX_WALK_DEPTH then JNull else JStr s) cap used = (u, kept, stop)"
      using "1.prems"(1) by (auto split: if_splits)
    then have "tracks cap (opt_leaves d kept) [] (u, stop) out (text_walk cap' d (JStr s) (out, tr))"
      by (rule charge_node_tracks) (use 1 True in \<open>auto simp: text_leaf_def\<close>)
    then show ?thesis using True by simp
  next
    case False
    with 1 head_string_tracks [of used cap out cap' s d tr] show ?thesis by simp
  qed
next
  case (2 cap d items used)
  show ?case
  proof (cases "d \<ge> MAX_WALK_DEPTH \<or> \<not> used < cap")
    case True
    then show ?thesis using 2 text_walk_grows(2) [of "(out, tr)" cap' "d + 1" items]
      by (auto simp: charge_node_def tracks_def opt_leaves_def within_def split: if_splits)
  next
    case False
    then obtain hs where h: "head_items cap (d + 1) items (used + 1) = (u, hs, stop)" "kept = Some (JArr hs)"
      using "2.prems"(1) by (auto simp: charge_node_def split: prod.splits)
    have c: "(used + 1, Some JNull, False) = charge_node JNull cap used" using False by (simp add: charge_node_def)
    have "tracks cap (concat (map (text_leaves (d + 1)) hs)) (concat (map (text_leaves (d + 1)) items)) (u, stop) out (text_items cap' (d + 1) items (out, tr))"
      using False "2.prems" by (intro "2.IH" [OF _ c refl refl h(1)]) auto
    then show ?thesis using False h(2) by (simp add: opt_leaves_def)
  qed
next
  case (3 cap d kvs used)
  show ?case
  proof (cases "d \<ge> MAX_WALK_DEPTH \<or> \<not> used < cap")
    case True
    then show ?thesis using 3 text_walk_grows(3) [of "(out, tr)" cap' "d + 1" kvs]
      by (auto simp: charge_node_def tracks_def opt_leaves_def within_def split: if_splits)
  next
    case False
    then obtain hs where h: "head_fields cap (d + 1) kvs (used + 1) = (u, hs, stop)" "kept = Some (JObj hs)"
      using "3.prems"(1) by (auto simp: charge_node_def split: prod.splits)
    have c: "(used + 1, Some JNull, False) = charge_node JNull cap used" using False by (simp add: charge_node_def)
    have "tracks cap (concat (map (\<lambda>kv. text_leaves (d + 1) (snd kv)) hs)) (concat (map (\<lambda>kv. text_leaves (d + 1) (snd kv)) kvs)) (u, stop) out (text_fields cap' (d + 1) kvs (out, tr))"
      using False "3.prems" by (intro "3.IH" [OF _ c refl refl h(1)]) auto
    then show ?thesis using False h(2) by (simp add: opt_leaves_def)
  qed
next
  case (4 cap d used)
  then show ?case by (auto intro!: charge_node_tracks)
next
  case (5 cap d b used)
  then show ?case by (auto intro!: charge_node_tracks split: if_splits)
next
  case (6 cap d i used)
  then show ?case by (auto intro!: charge_node_tracks split: if_splits)
next
  case (7 cap d f used)
  then show ?case by (auto intro!: charge_node_tracks split: if_splits)
next
  case (8 cap d used)
  then show ?case by (simp add: tracks_def)
next
  case (9 cap d x xs used)
  obtain u1 k1 stop1 where one: "head_at cap d x used = (u1, k1, stop1)" by (metis prod_cases3)
  have t1: "tracks cap (opt_leaves d k1) (text_leaves d x) (u1, stop1) out (text_walk cap' d x (out, tr))"
    using "9.prems" by (intro "9.IH"(1) [OF one]) auto
  have leaves: "concat (map (text_leaves d) (case k1 of None \<Rightarrow> [] | Some k \<Rightarrow> [k])) = opt_leaves d k1"
    by (simp add: opt_leaves_def split: option.splits)
  show ?case
  proof (cases stop1)
    case True
    then have eq: "u = u1" "stop" "hs = (case k1 of None \<Rightarrow> [] | Some k \<Rightarrow> [k])" using "9.prems"(1) one by auto
    have "prefix (fst (fst (text_walk cap' d x (out, tr)))) (fst (fst (text_items cap' d (x # xs) (out, tr))))"
      using text_walk_grows(2) by auto
    with t1 True eq leaves show ?thesis by (auto intro: tracks_grow)
  next
    case False
    obtain hs2 where two: "head_items cap d xs u1 = (u, hs2, stop)" "hs = (case k1 of None \<Rightarrow> [] | Some k \<Rightarrow> [k]) @ hs2"
      using "9.prems"(1) one False by (cases "head_items cap d xs u1") auto
    have t1': "tracks cap (opt_leaves d k1) (text_leaves d x) (u1, False) out (text_walk cap' d x (out, tr))"
      using t1 False by simp
    note f = tracks_FalseD [OF t1']
    have w: "text_items cap' d (x # xs) (out, tr) =
        text_items cap' d xs (joined out (text_leaves d x), snd (fst (text_walk cap' d x (out, tr))))"
      using f by (metis prod.collapse text_items.simps(2))
    have "tracks cap (concat (map (text_leaves d) hs2)) (concat (map (text_leaves d) xs)) (u, stop) (joined out (text_leaves d x))
        (text_items cap' d (x # xs) (out, tr))"
      unfolding w using "9.prems" f one False by (intro "9.IH"(2) [OF one [symmetric] refl _ two(1)]) auto
    from tracks_step [OF t1' this] show ?thesis using two(2) leaves by simp
  qed
next
  case (10 cap d used)
  then show ?case by (simp add: tracks_def)
next
  case (11 cap d kv kvs used)
  show ?case
  proof (cases "used + length (fst kv) > cap")
    case True
    with 11 text_walk_grows(3) [of "(out, tr)" cap' d "kv # kvs"] show ?thesis by (auto simp: tracks_def within_def)
  next
    case fits: False
    let ?used = "used + length (fst kv)"
    obtain u1 k1 stop1 where one: "head_at cap d (snd kv) ?used = (u1, k1, stop1)" by (metis prod_cases3)
    have t1: "tracks cap (opt_leaves d k1) (text_leaves d (snd kv)) (u1, stop1) out (text_walk cap' d (snd kv) (out, tr))"
      using "11.prems" fits by (intro "11.IH"(1) [OF fits one]) auto
    have leaves: "concat (map (\<lambda>kv. text_leaves d (snd kv)) (case k1 of None \<Rightarrow> [] | Some k \<Rightarrow> [(fst kv, k)])) = opt_leaves d k1"
      by (simp add: opt_leaves_def split: option.splits)
    show ?thesis
    proof (cases stop1)
      case True
      then have eq: "u = u1" "stop" "hkvs = (case k1 of None \<Rightarrow> [] | Some k \<Rightarrow> [(fst kv, k)])"
        using "11.prems"(1) one fits by auto
      have "prefix (fst (fst (text_walk cap' d (snd kv) (out, tr)))) (fst (fst (text_fields cap' d (kv # kvs) (out, tr))))"
        using text_walk_grows(3) by auto
      with t1 True eq leaves show ?thesis by (auto intro: tracks_grow)
    next
      case False
      obtain hs2 where two: "head_fields cap d kvs u1 = (u, hs2, stop)"
        "hkvs = (case k1 of None \<Rightarrow> [] | Some k \<Rightarrow> [(fst kv, k)]) @ hs2"
        using "11.prems"(1) one False fits by (cases "head_fields cap d kvs u1") auto
      have t1': "tracks cap (opt_leaves d k1) (text_leaves d (snd kv)) (u1, False) out (text_walk cap' d (snd kv) (out, tr))"
        using t1 False by simp
      note f = tracks_FalseD [OF t1']
      have w: "text_fields cap' d (kv # kvs) (out, tr) =
          text_fields cap' d kvs (joined out (text_leaves d (snd kv)), snd (fst (text_walk cap' d (snd kv) (out, tr))))"
        using f by (metis prod.collapse text_fields.simps(2))
      have "tracks cap (concat (map (\<lambda>kv. text_leaves d (snd kv)) hs2)) (concat (map (\<lambda>kv. text_leaves d (snd kv)) kvs)) (u, stop)
          (joined out (text_leaves d (snd kv))) (text_fields cap' d (kv # kvs) (out, tr))"
        unfolding w using "11.prems" f one False by (intro "11.IH"(2) [OF fits one [symmetric] refl _ two(1)]) auto
      from tracks_step [OF t1' this] show ?thesis using two(2) leaves by simp
    qed
  qed
qed

text \<open>The head's text, read without a cut, lies within the text screened at any larger cap.\<close>

lemma screened_head_text:
  assumes "json_utf8 v" and "byte_cap \<le> cap"
  shows "within (fst (extract_scannable_text v cap)) (joined [] (text_leaves 0 (screened_head v byte_cap)))"
    and "length (joined [] (text_leaves 0 (screened_head v byte_cap))) \<le> byte_cap + length CUT_MARK"
proof -
  obtain u kept stop where h: "head_at byte_cap 0 v 0 = (u, kept, stop)" by (metis prod_cases3)
  have t: "tracks byte_cap (opt_leaves 0 kept) (text_leaves 0 v) (u, stop) [] (text_walk cap 0 v ([], False))"
    using assms by (intro head_tracks(1) [OF h]) auto
  have e: "text_leaves 0 (screened_head v byte_cap) = opt_leaves 0 kept"
    by (simp add: screened_head_def h opt_leaves_def split: option.splits)
  have "within (fst (extract_scannable_text v cap)) (joined [] (opt_leaves 0 kept)) \<and>
      length (joined [] (opt_leaves 0 kept)) \<le> byte_cap + length CUT_MARK"
    using t by (auto simp: tracks_def extract_scannable_text_def within_def split: if_splits)
  then show "within (fst (extract_scannable_text v cap)) (joined [] (text_leaves 0 (screened_head v byte_cap)))"
    and "length (joined [] (text_leaves 0 (screened_head v byte_cap))) \<le> byte_cap + length CUT_MARK"
    unfolding e by blast+
qed

end
