(* ===== verification/Summary.thy ===== *)
theory Summary
  imports Result_View Asks Leak_Redact
begin

text \<open>
  \<^verbatim>\<open>core/src/scheduler/inner_loop/summary.rs\<close> and \<^verbatim>\<open>summary/{sink,call,budget,notebook_view}.rs\<close>: what the planner is shown of the
  plans it has run. Every output, every call and every decision passes the sink screen when the plan
  record is built; the summary then fits them into a byte budget, first by shrinking the outputs to an
  even share, then by dropping the oldest, then by dropping the oldest calls' parameters.

  \<open>lower\<close>, \<open>ser\<close> and \<open>sha\<close> are the parameters of the theories below: lowercasing of a code point, \<^verbatim>\<open>serde_json\<close>'s
  printer and SHA-256.
\<close>

section \<open>Machine arithmetic and objects\<close>

definition sat_add :: "nat \<Rightarrow> nat \<Rightarrow> nat" where
  "sat_add a b = min (a + b) USIZE_MAX"

definition sat_mul :: "nat \<Rightarrow> nat \<Rightarrow> nat" where
  "sat_mul a b = min (a * b) USIZE_MAX"

definition sat_sum :: "nat list \<Rightarrow> nat" where
  "sat_sum xs = foldl sat_add 0 xs"

text \<open>\<^verbatim>\<open>Map::insert\<close> and \<^verbatim>\<open>Map::remove\<close> on the entries in key order.\<close>

fun obj_insert :: "rstr \<Rightarrow> json \<Rightarrow> (rstr \<times> json) list \<Rightarrow> (rstr \<times> json) list" where
  "obj_insert k v [] = [(k, v)]"
| "obj_insert k v ((k', v') # kvs) =
     (if k = k' then (k, v) # kvs
      else if k < k' then (k, v) # (k', v') # kvs
      else (k', v') # obj_insert k v kvs)"

definition obj_remove :: "rstr \<Rightarrow> (rstr \<times> json) list \<Rightarrow> (rstr \<times> json) list" where
  "obj_remove k kvs = filter (\<lambda>kv. fst kv \<noteq> k) kvs"

section \<open>The sink screen\<close>

definition AUDIT_LABEL_MAX_CHARS :: nat where "AUDIT_LABEL_MAX_CHARS = 64"
definition TIER_SINK :: rstr where "TIER_SINK = ''sink''"
definition INJECTION_BLOCKED_KEY :: rstr where "INJECTION_BLOCKED_KEY = ''injection_blocked''"
definition SCORE_KEY :: rstr where "SCORE_KEY = ''score''"
definition REASON_CODES_KEY :: rstr where "REASON_CODES_KEY = ''reason_codes''"
definition AUDIT_ONLY_KEYS :: "rstr list" where "AUDIT_ONLY_KEYS = [SCORE_KEY, REASON_CODES_KEY]"

record SinkBlock =
  sb_score :: nat
  sb_reason_codes :: "rstr list"
  sb_body_sha256 :: rstr
  sb_body_byte_len :: nat

definition clamp_audit_label :: "rstr \<Rightarrow> rstr" where
  "clamp_audit_label s =
     (if length (chars s) \<le> AUDIT_LABEL_MAX_CHARS then s
      else concat (take AUDIT_LABEL_MAX_CHARS (chars s)) @ ELLIPSIS)"

definition sink_screen_with ::
    "(rstr \<Rightarrow> rstr) \<Rightarrow> (u8 list \<Rightarrow> digest) \<Rightarrow> GuardProfile \<Rightarrow> rstr \<Rightarrow> SinkBlock option" where
  "sink_screen_with lower sha profile text =
     (let verdict = screen_with_profile lower text profile in
      if iv_decision verdict = BlockOutput
      then Some \<lparr>sb_score = iv_score verdict, sb_reason_codes = iv_reason_codes verdict,
                 sb_body_sha256 = sha256_hex (sha (str_bytes text)), sb_body_byte_len = length text\<rparr>
      else None)"

definition sink_screen ::
    "(rstr \<Rightarrow> rstr) \<Rightarrow> (u8 list \<Rightarrow> digest) \<Rightarrow> rstr \<Rightarrow> rstr \<Rightarrow> SinkBlock option" where
  "sink_screen lower sha tool text = sink_screen_with lower sha (for_tool tool) text"

definition without_screen_audit_fields :: "json \<Rightarrow> json" where
  "without_screen_audit_fields v =
     (case v of
        JObj kvs \<Rightarrow>
          (if map_of kvs INJECTION_BLOCKED_KEY = Some (JBool True)
           then JObj (foldl (\<lambda>m k. obj_remove k m) kvs AUDIT_ONLY_KEYS) else v)
      | _ \<Rightarrow> v)"

section \<open>One step outcome\<close>

definition STEP_ERR_DETAIL_MAX :: nat where "STEP_ERR_DETAIL_MAX = 200"
definition STEP_OK_SUMMARY_MAX :: nat where "STEP_OK_SUMMARY_MAX = 16 * 1024"
definition BATCH_PER_QUERY_SUMMARY_BYTES :: nat where "BATCH_PER_QUERY_SUMMARY_BYTES = 3 * 1024"
definition STEP_OK_BATCH_SUMMARY_MAX :: nat where "STEP_OK_BATCH_SUMMARY_MAX = 24 * 1024"
definition PLANS_SUMMARY_BUDGET :: nat where "PLANS_SUMMARY_BUDGET = 96 * 1024"
definition MIN_SHRUNK_OUTPUT_BYTES :: nat where "MIN_SHRUNK_OUTPUT_BYTES = 2 * 1024"
definition CALL_PARAMS_CAP :: nat where "CALL_PARAMS_CAP = 1024"
definition WEB_SEARCH_BATCH_METHOD :: rstr where "WEB_SEARCH_BATCH_METHOD = ''web.search_batch''"
definition WITHHELD_REASON :: rstr where "WITHHELD_REASON = ''failed injection screen''"
definition WITHHELD_MARKER :: rstr where "WITHHELD_MARKER = ''[withheld: failed injection screen]''"
definition ELIDED_REASON :: rstr where "ELIDED_REASON = ''summary budget''"
definition ELIDED_OUTPUT_REASON :: rstr where
  "ELIDED_OUTPUT_REASON = ''output retrieved, dropped from this summary for space''"

definition ok_summary_cap :: "rstr \<Rightarrow> json \<Rightarrow> nat" where
  "ok_summary_cap meth v =
     (if meth = WEB_SEARCH_BATCH_METHOD
      then (let n = (case json_get v ''results'' of Some (JArr xs) \<Rightarrow> length xs | _ \<Rightarrow> 0)
            in max STEP_OK_SUMMARY_MAX (min STEP_OK_BATCH_SUMMARY_MAX (n * BATCH_PER_QUERY_SUMMARY_BYTES)))
      else STEP_OK_SUMMARY_MAX)"

record RenderedStep =
  rs_value :: json
  rs_bytes :: nat
  rs_elidable :: bool
  rs_sink_block :: "SinkBlock option"

definition measured :: "(json \<Rightarrow> rstr) \<Rightarrow> json \<Rightarrow> bool \<Rightarrow> SinkBlock option \<Rightarrow> RenderedStep" where
  "measured ser v elidable blk =
     \<lparr>rs_value = v, rs_bytes = serialised_len ser v, rs_elidable = elidable, rs_sink_block = blk\<rparr>"

definition output_step :: "(json \<Rightarrow> rstr) \<Rightarrow> json \<Rightarrow> RenderedStep" where
  "output_step ser view = measured ser (JObj [(''output'', view), (''status'', JStr ''ok'')]) True None"

definition withheld_step :: "(json \<Rightarrow> rstr) \<Rightarrow> SinkBlock \<Rightarrow> RenderedStep" where
  "withheld_step ser b =
     measured ser (JObj [(''status'', JStr ''ok''), (''withheld'', JStr WITHHELD_REASON)]) False (Some b)"

definition err_step :: "(json \<Rightarrow> rstr) \<Rightarrow> rstr \<Rightarrow> rstr \<Rightarrow> SinkBlock option \<Rightarrow> RenderedStep" where
  "err_step ser c detail blk =
     measured ser (JObj [(''code'', JStr c), (''detail'', JStr detail), (''status'', JStr ''err'')]) False blk"

definition elided_outcome :: json where
  "elided_outcome = JObj [(''elided'', JStr ELIDED_OUTPUT_REASON), (''status'', JStr ''ok'')]"

definition elided_step :: "(json \<Rightarrow> rstr) \<Rightarrow> RenderedStep" where
  "elided_step ser = measured ser elided_outcome False None"

definition render_ok ::
    "(rstr \<Rightarrow> rstr) \<Rightarrow> (json \<Rightarrow> rstr) \<Rightarrow> (u8 list \<Rightarrow> digest) \<Rightarrow> rstr \<Rightarrow> json \<Rightarrow> (json \<Rightarrow> nat) \<Rightarrow> RenderedStep" where
  "render_ok lower ser sha tool v cap =
     (let v = without_screen_audit_fields v;
          view = render ser v (cap v)
      in case sink_screen lower sha tool (screen_text view) of
           Some b \<Rightarrow> withheld_step ser b
         | None \<Rightarrow> output_step ser view)"

definition render_step_outcome ::
    "(rstr \<Rightarrow> rstr) \<Rightarrow> (json \<Rightarrow> rstr) \<Rightarrow> (u8 list \<Rightarrow> digest) \<Rightarrow> rstr \<Rightarrow> rstr \<Rightarrow> StepOutcome \<Rightarrow> RenderedStep" where
  "render_step_outcome lower ser sha tool meth outcome =
     (case outcome of
        OkStep v \<Rightarrow> render_ok lower ser sha tool v (ok_summary_cap meth)
      | ErrStep c detail \<Rightarrow>
          (let shown_detail = (if length (chars detail) > STEP_ERR_DETAIL_MAX
                        then concat (take STEP_ERR_DETAIL_MAX (chars detail)) @ ELLIPSIS else detail)
           in case sink_screen lower sha tool shown_detail of
                Some b \<Rightarrow> err_step ser c WITHHELD_MARKER (Some b)
              | None \<Rightarrow> err_step ser c shown_detail None))"

section \<open>Calls and decisions\<close>

definition MODEL_AUTHORED_PROFILE :: GuardProfile where "MODEL_AUTHORED_PROFILE = Strict"
definition CALL_FRAMING_BYTES :: nat where "CALL_FRAMING_BYTES = 8"

record Screened =
  sc_value :: json
  sc_sink_block :: "SinkBlock option"

definition screen_value ::
    "(rstr \<Rightarrow> rstr) \<Rightarrow> (u8 list \<Rightarrow> digest) \<Rightarrow> json \<Rightarrow> rstr list \<Rightarrow> Screened" where
  "screen_value lower sha v also =
     (case find_map (sink_screen_with lower sha MODEL_AUTHORED_PROFILE) (screen_text v # also) of
        Some b \<Rightarrow> \<lparr>sc_value = JStr WITHHELD_MARKER, sc_sink_block = Some b\<rparr>
      | None \<Rightarrow> \<lparr>sc_value = v, sc_sink_block = None\<rparr>)"

definition render_call ::
    "(rstr \<Rightarrow> rstr) \<Rightarrow> (json \<Rightarrow> rstr) \<Rightarrow> (u8 list \<Rightarrow> digest) \<Rightarrow> PlannedStep \<Rightarrow> Screened" where
  "render_call lower ser sha step =
     (let parameters = render ser (step_parameters step) CALL_PARAMS_CAP;
          deepest = screen_text parameters
      in screen_value lower sha
           (JObj [(''method'', JStr (clamp_audit_label (step_method step))), (''parameters'', parameters),
                  (''tool'', JStr (clamp_audit_label (step_tool step)))])
           [deepest])"

definition render_decision :: "(rstr \<Rightarrow> rstr) \<Rightarrow> (u8 list \<Rightarrow> digest) \<Rightarrow> rstr \<Rightarrow> Screened" where
  "render_decision lower sha decision = screen_value lower sha (JStr decision) []"

definition call_cost :: "(json \<Rightarrow> rstr) \<Rightarrow> json \<Rightarrow> nat" where
  "call_cost ser call = sat_add (serialised_len ser call) CALL_FRAMING_BYTES"

definition without_parameters :: "json \<Rightarrow> json option" where
  "without_parameters call =
     (case call of
        JObj kvs \<Rightarrow>
          (if map_of kvs ''parameters'' \<noteq> None
           then Some (JObj (obj_insert ''elided'' (JStr ELIDED_REASON) (obj_remove ''parameters'' kvs)))
           else None)
      | _ \<Rightarrow> None)"

text \<open>The loop over the calls that exist, oldest first; the state is the calls done so far, the running size
  and the number elided. Once the size fits nothing changes any more, which is the source's \<^verbatim>\<open>break\<close>.\<close>

definition budget_call :: "(json \<Rightarrow> rstr) \<Rightarrow> nat \<Rightarrow> json \<Rightarrow> nat \<times> nat \<Rightarrow> json \<times> nat \<times> nat" where
  "budget_call ser budget call st =
     (case st of (sz, elided) \<Rightarrow>
        (if sz \<le> budget then (call, sz, elided)
         else
           (case without_parameters call of
              None \<Rightarrow> (call, sz, elided)
            | Some smaller \<Rightarrow>
                (let before = call_cost ser call; after = call_cost ser smaller in
                 if after < before then (smaller, sz - (before - after), elided + 1) else (call, sz, elided)))))"

fun budget_calls ::
    "(json \<Rightarrow> rstr) \<Rightarrow> nat \<Rightarrow> json option list \<Rightarrow> nat \<times> nat \<Rightarrow> json option list \<times> nat \<times> nat" where
  "budget_calls ser budget [] st = ([], st)"
| "budget_calls ser budget (None # cs) st =
     (None # fst (budget_calls ser budget cs st), snd (budget_calls ser budget cs st))"
| "budget_calls ser budget (Some c # cs) st =
     (let r = budget_call ser budget c st; rest = budget_calls ser budget cs (snd r)
      in (Some (fst r) # fst rest, snd rest))"

fun budget_plans ::
    "(json \<Rightarrow> rstr) \<Rightarrow> nat \<Rightarrow> json option list list \<Rightarrow> nat \<times> nat \<Rightarrow> json option list list \<times> nat \<times> nat" where
  "budget_plans ser budget [] st = ([], st)"
| "budget_plans ser budget (p # ps) st =
     (let r = budget_calls ser budget p st; rest = budget_plans ser budget ps (snd r)
      in (fst r # fst rest, snd rest))"

definition apply_call_budget ::
    "(json \<Rightarrow> rstr) \<Rightarrow> json option list list \<Rightarrow> nat \<Rightarrow> nat \<Rightarrow> json option list list \<times> nat" where
  "apply_call_budget ser calls sz budget =
     (let r = budget_plans ser budget calls (sz, 0) in (fst r, snd (snd r)))"

section \<open>Fitting the outputs\<close>

record Fit =
  fit_elide :: nat
  fit_share :: nat

text \<open>The loop of \<^verbatim>\<open>water_level\<close> over the sizes in increasing order.\<close>

fun water_loop :: "nat list \<Rightarrow> nat \<Rightarrow> nat" where
  "water_loop [] room = USIZE_MAX"
| "water_loop (sz # rest) room =
     (let left = length (sz # rest) in
      if sz > room div left then room div left else water_loop rest (room - sz))"

definition water_level :: "nat list \<Rightarrow> nat \<Rightarrow> nat" where
  "water_level sizes room = water_loop (sort sizes) room"

definition floor_cost :: "nat \<Rightarrow> nat" where
  "floor_cost b = min b MIN_SHRUNK_OUTPUT_BYTES"

fun elide_loop :: "nat list \<Rightarrow> nat \<Rightarrow> nat \<Rightarrow> nat \<Rightarrow> nat \<Rightarrow> nat" where
  "elide_loop [] room marker rest elide = elide"
| "elide_loop (s # ss) room marker rest elide =
     (if sat_add (sat_mul marker elide) rest > room
      then elide_loop ss room marker (rest - floor_cost s) (elide + 1) else elide)"

definition plan_fit :: "nat list \<Rightarrow> nat \<Rightarrow> nat \<Rightarrow> Fit" where
  "plan_fit sizes room marker =
     (if sat_sum sizes \<le> room then \<lparr>fit_elide = 0, fit_share = USIZE_MAX\<rparr>
      else
        (let elide = elide_loop sizes room marker (sat_sum (map floor_cost sizes)) 0;
             kept = drop elide sizes;
             room = room - sat_mul marker elide
         in \<lparr>fit_elide = elide, fit_share = water_level kept room\<rparr>))"

record Fitted =
  ft_elided :: nat
  ft_shrunk :: nat
  ft_blocked :: nat

definition touchable :: "nat \<Rightarrow> RenderedStep \<Rightarrow> bool" where
  "touchable marker_bytes s \<longleftrightarrow> rs_elidable s \<and> rs_bytes s > marker_bytes"

text \<open>One step of the pass; \<open>seen\<close> counts the touchable steps, the current one included.\<close>

definition fit_step ::
    "RenderedStep \<Rightarrow> Fit \<Rightarrow> nat \<Rightarrow> (nat \<Rightarrow> RenderedStep) \<Rightarrow> RenderedStep \<Rightarrow> nat \<times> Fitted \<Rightarrow> RenderedStep \<times> nat \<times> Fitted" where
  "fit_step marker f wrapper shrink step st =
     (case st of (seen, fitted) \<Rightarrow>
        (if \<not> touchable (rs_bytes marker) step then (step, seen, fitted)
         else
           (let seen = seen + 1 in
            if seen \<le> fit_elide f then (marker, seen, fitted\<lparr>ft_elided := ft_elided fitted + 1\<rparr>)
            else if rs_bytes step > fit_share f then
              (let shrunk = shrink (fit_share f - wrapper) in
               if rs_elidable shrunk \<and> rs_bytes shrunk \<le> fit_share f
               then (shrunk, seen, fitted\<lparr>ft_shrunk := ft_shrunk fitted + 1\<rparr>)
               else (marker, seen,
                     fitted\<lparr>ft_blocked := ft_blocked fitted + (if rs_sink_block shrunk \<noteq> None then 1 else 0),
                            ft_elided := ft_elided fitted + 1\<rparr>))
            else (step, seen, fitted))))"

fun fit_steps ::
    "RenderedStep \<Rightarrow> Fit \<Rightarrow> nat \<Rightarrow> (nat \<Rightarrow> nat \<Rightarrow> RenderedStep) \<Rightarrow> nat \<Rightarrow> RenderedStep list \<Rightarrow> nat \<times> Fitted \<Rightarrow>
     RenderedStep list \<times> nat \<times> Fitted" where
  "fit_steps marker f wrapper shrink i [] st = ([], st)"
| "fit_steps marker f wrapper shrink i (s # ss) st =
     (let r = fit_step marker f wrapper (shrink i) s st;
          rest = fit_steps marker f wrapper shrink (i + 1) ss (snd r)
      in (fst r # fst rest, snd rest))"

fun fit_plans ::
    "RenderedStep \<Rightarrow> Fit \<Rightarrow> nat \<Rightarrow> (nat \<Rightarrow> nat \<Rightarrow> nat \<Rightarrow> RenderedStep) \<Rightarrow> nat \<Rightarrow> RenderedStep list list \<Rightarrow> nat \<times> Fitted \<Rightarrow>
     RenderedStep list list \<times> nat \<times> Fitted" where
  "fit_plans marker f wrapper shrink p [] st = ([], st)"
| "fit_plans marker f wrapper shrink p (ss # pss) st =
     (let r = fit_steps marker f wrapper (shrink p) 0 ss st;
          rest = fit_plans marker f wrapper shrink (p + 1) pss (snd r)
      in (fst r # fst rest, snd rest))"

definition no_fitting :: Fitted where
  "no_fitting = \<lparr>ft_elided = 0, ft_shrunk = 0, ft_blocked = 0\<rparr>"

definition apply_summary_budget ::
    "(json \<Rightarrow> rstr) \<Rightarrow> RenderedStep list list \<Rightarrow> nat \<Rightarrow> (nat \<Rightarrow> nat \<Rightarrow> nat \<Rightarrow> RenderedStep) \<Rightarrow>
     RenderedStep list list \<times> Fitted" where
  "apply_summary_budget ser plans budget shrink =
     (if sat_sum (map rs_bytes (concat plans)) \<le> budget then (plans, no_fitting)
      else
        (let marker = elided_step ser;
             sizes = map rs_bytes (filter (touchable (rs_bytes marker)) (concat plans));
             fixed = sat_sum (map rs_bytes (filter (\<lambda>s. \<not> touchable (rs_bytes marker) s) (concat plans)));
             f = plan_fit sizes (budget - fixed) (rs_bytes marker);
             wrapper = rs_bytes (output_step ser JNull) - length ''null'';
             r = fit_plans marker f wrapper shrink 0 plans (0, no_fitting)
         in (fst r, snd (snd r))))"

section \<open>The plan record and the summary\<close>

record ScreenedRecord =
  sr_plan :: Plan
  sr_outcomes :: "StepOutcome list"
  sr_rendered :: "RenderedStep list"
  sr_calls :: "Screened option list"
  sr_decision :: Screened

definition step_tool_and_method :: "Plan \<Rightarrow> nat \<Rightarrow> rstr \<times> rstr" where
  "step_tool_and_method plan i =
     (if i < length (plan_steps plan)
      then (step_tool (plan_steps plan ! i), step_method (plan_steps plan ! i)) else ([], []))"

definition ScreenedRecord_new ::
    "(rstr \<Rightarrow> rstr) \<Rightarrow> (json \<Rightarrow> rstr) \<Rightarrow> (u8 list \<Rightarrow> digest) \<Rightarrow> Plan \<Rightarrow> StepOutcome list \<Rightarrow> ScreenedRecord" where
  "ScreenedRecord_new lower ser sha plan outcomes =
     \<lparr>sr_plan = plan, sr_outcomes = outcomes,
      sr_rendered = map (\<lambda>i. case step_tool_and_method plan i of
                               (tool, meth) \<Rightarrow> render_step_outcome lower ser sha tool meth (outcomes ! i))
                      [0..<length outcomes],
      sr_calls = map (\<lambda>i. if i < length (plan_steps plan)
                          then Some (render_call lower ser sha (plan_steps plan ! i)) else None)
                   [0..<length outcomes],
      sr_decision = render_decision lower sha (plan_decision plan)\<rparr>"

definition shrunk_output ::
    "(rstr \<Rightarrow> rstr) \<Rightarrow> (json \<Rightarrow> rstr) \<Rightarrow> (u8 list \<Rightarrow> digest) \<Rightarrow> ScreenedRecord \<Rightarrow> nat \<Rightarrow> nat \<Rightarrow> RenderedStep" where
  "shrunk_output lower ser sha r i cap =
     (case sr_outcomes r ! i of
        OkStep v \<Rightarrow>
          (let step = render_ok lower ser sha (fst (step_tool_and_method (sr_plan r) i)) v (\<lambda>_. cap) in
           if json_get (rs_value step) ''output'' = Some fallback_view then elided_step ser else step)
      | ErrStep _ _ \<Rightarrow> elided_step ser)"

definition with_call :: "json \<Rightarrow> json option \<Rightarrow> json" where
  "with_call outcome call =
     (case (outcome, call) of
        (JObj kvs, Some c) \<Rightarrow> JObj (obj_insert ''call'' c kvs)
      | _ \<Rightarrow> outcome)"

definition render_plans_summary ::
    "(rstr \<Rightarrow> rstr) \<Rightarrow> (json \<Rightarrow> rstr) \<Rightarrow> (u8 list \<Rightarrow> digest) \<Rightarrow> ScreenedRecord list \<Rightarrow> json list" where
  "render_plans_summary lower ser sha plans =
     (let rendered = map sr_rendered plans;
          calls = map (\<lambda>r. map (map_option sc_value) (sr_calls r)) plans;
          call_bytes = sat_sum (map (\<lambda>c. call_cost ser (the c)) (filter (\<lambda>c. c \<noteq> None) (concat calls)));
          fitted = apply_summary_budget ser rendered (PLANS_SUMMARY_BUDGET - call_bytes)
                     (\<lambda>p i cap. shrunk_output lower ser sha (plans ! p) i cap);
          outcome_bytes = sat_sum (map rs_bytes (concat (fst fitted)));
          budgeted = apply_call_budget ser calls (sat_add outcome_bytes call_bytes) PLANS_SUMMARY_BUDGET
      in map (\<lambda>(r, steps, cs).
              JObj [(''decision'', sc_value (sr_decision r)),
                    (''step_outcomes'', JArr (map (\<lambda>(s, c). with_call (rs_value s) c) (zip steps cs)))])
           (zip plans (zip (fst fitted) (fst budgeted))))"

text \<open>The payloads of the \<^verbatim>\<open>policy / injection.blocked\<close> rows of a record.\<close>

record SinkRow =
  sk_tool :: rstr
  sk_method :: rstr
  sk_task_id :: int
  sk_plan_count :: nat
  sk_step_index :: "nat option"
  sk_part :: rstr
  sk_tier :: rstr
  sk_block :: SinkBlock

definition sink_row :: "Plan \<Rightarrow> int \<Rightarrow> nat \<Rightarrow> rstr \<Rightarrow> nat option \<Rightarrow> SinkBlock \<Rightarrow> SinkRow" where
  "sink_row plan task_id plan_count part step_index b =
     (case (case step_index of None \<Rightarrow> ([], []) | Some i \<Rightarrow> step_tool_and_method plan i) of
        (tool, meth) \<Rightarrow>
          \<lparr>sk_tool = clamp_audit_label tool, sk_method = clamp_audit_label meth, sk_task_id = task_id,
           sk_plan_count = plan_count, sk_step_index = step_index, sk_part = part, sk_tier = TIER_SINK, sk_block = b\<rparr>)"

definition opt_list :: "'a option \<Rightarrow> 'a list" where
  "opt_list x = (case x of None \<Rightarrow> [] | Some y \<Rightarrow> [y])"

definition sink_block_audit_payloads :: "ScreenedRecord \<Rightarrow> int \<Rightarrow> nat \<Rightarrow> SinkRow list" where
  "sink_block_audit_payloads r task_id plan_count =
     (let row = sink_row (sr_plan r) task_id plan_count in
      opt_list (map_option (row ''decision'' None) (sc_sink_block (sr_decision r))) @
      concat (map (\<lambda>(i, step, call).
                opt_list (map_option (row ''call'' (Some i)) (case call of None \<Rightarrow> None | Some c \<Rightarrow> sc_sink_block c)) @
                opt_list (map_option (row ''outcome'' (Some i)) (rs_sink_block step)))
              (enumerate 0 (zip (sr_rendered r) (sr_calls r)))))"

section \<open>The notebook's view\<close>

definition screen_model_text :: "(rstr \<Rightarrow> rstr) \<Rightarrow> (u8 list \<Rightarrow> digest) \<Rightarrow> rstr \<Rightarrow> SinkBlock option" where
  "screen_model_text lower sha text = sink_screen_with lower sha MODEL_AUTHORED_PROFILE text"

text \<open>\<^verbatim>\<open>Value\<close>'s indexing yields \<^verbatim>\<open>null\<close> for an absent key.\<close>

definition sorter_view ::
    "(rstr \<Rightarrow> rstr) \<Rightarrow> (json \<Rightarrow> rstr) \<Rightarrow> (u8 list \<Rightarrow> digest) \<Rightarrow> rstr \<Rightarrow> json \<Rightarrow> nat \<Rightarrow> SinkBlock + json" where
  "sorter_view lower ser sha tool v cap =
     (let rendered = render_ok lower ser sha tool v (\<lambda>_. cap) in
      case rs_sink_block rendered of
        Some b \<Rightarrow> Err b
      | None \<Rightarrow> Ok (case json_get (rs_value rendered) ''output'' of Some x \<Rightarrow> x | None \<Rightarrow> JNull))"

definition last_step_view :: "ScreenedRecord \<Rightarrow> json option" where
  "last_step_view r =
     (if sr_rendered r = [] then None
      else
        (let i = length (sr_rendered r) - 1;
             call = (if i < length (sr_calls r) then map_option sc_value (sr_calls r ! i) else None)
         in Some (with_call (rs_value (sr_rendered r ! i)) call)))"

end
