(* ===== verification/Vault.thy ===== *)
theory Vault
  imports Leak_Redact
begin

text \<open>
  \<^verbatim>\<open>core/src/secrets/{mod,vault,substitute,collect}.rs\<close>: opaque references to secrets. The vault holds plaintexts under
  references \<^verbatim>\<open>secret://<8-hex>\<close> for a limited time; the walker replaces the references in a
  parameter tree by the plaintexts immediately before a worker is called, and a read-only traversal
  collects the same references for the leak scanner.

  \<^verbatim>\<open>Instant::now()\<close> is the \<open>n\<close>-th reading of a clock \<open>clk\<close>, a parameter; SHA-256 is the parameter \<open>sha\<close>.
  The walker is generic in the vault, as the code's trait \<^verbatim>\<open>RedeemFromVault\<close> makes it; the locale
  \<open>redeem_from_vault\<close> states what the walker relies on and is interpreted on the real vault.
\<close>

section \<open>References\<close>

definition DEFAULT_TTL :: nat where "DEFAULT_TTL = 3600 * 1000000000"
definition REF_HEX_LEN :: nat where "REF_HEX_LEN = 8"

definition is_lower_hex :: "char \<Rightarrow> bool" where
  "is_lower_hex c \<longleftrightarrow> is_ascii_digit c \<or> 97 \<le> code c \<and> code c \<le> 102"

definition ref_hash :: "(u8 list \<Rightarrow> digest) \<Rightarrow> rstr \<Rightarrow> rstr" where
  "ref_hash sha r = sha256_hex (sha (str_bytes r))"

definition is_well_formed_ref :: "rstr \<Rightarrow> bool" where
  "is_well_formed_ref s \<longleftrightarrow>
     length s = length REF_PREFIX + REF_HEX_LEN \<and> starts_with s REF_PREFIX \<and>
     list_all is_lower_hex (drop (length REF_PREFIX) s)"

text \<open>The reference minted from four random bytes.\<close>

definition mint_ref :: "u8 list \<Rightarrow> rstr" where
  "mint_ref tail = REF_PREFIX @ concat (map hex2 tail)"

section \<open>The vault\<close>

record Entry =
  plaintext :: "u8 list"
  expires_at :: nat

record Vault =
  v_ttl :: nat
  v_map :: "rstr \<rightharpoonup> Entry"

datatype RedeemResult = Hit "u8 list" | Expired | NotFound

datatype VaultError = Secrets rstr | AuditErr rstr | EmptyPlaintext | RefCollision | MalformedTestRef rstr

definition with_ttl :: "nat \<Rightarrow> Vault" where
  "with_ttl ttl = \<lparr>v_ttl = ttl, v_map = Map.empty\<rparr>"

definition vault_new :: Vault where
  "vault_new = with_ttl DEFAULT_TTL"

definition insert_fresh :: "rstr \<Rightarrow> Entry \<Rightarrow> Vault \<Rightarrow> Vault \<times> (VaultError + rstr)" where
  "insert_fresh r e v =
     (case v_map v r of
        None \<Rightarrow> (v\<lparr>v_map := (v_map v)(r \<mapsto> e)\<rparr>, Ok r)
      | Some _ \<Rightarrow> (v, Err RefCollision))"

text \<open>The row \<^verbatim>\<open>policy / secret.materialized\<close>.\<close>

record MaterializedRow =
  mr_name :: rstr
  mr_ref_hash :: rstr
  mr_ttl_secs :: nat
  mr_actor :: rstr

text \<open>The database answers to the decryption (\<open>got\<close>) and to the audit insert (\<open>audit\<close>, \<open>Some e\<close> a
  failure); \<open>tail\<close> is what \<^verbatim>\<open>OsRng\<close> delivers and \<open>now\<close> the clock when the entry is built. The log holds
  the rows that were written.\<close>

definition materialize ::
    "(u8 list \<Rightarrow> digest) \<Rightarrow> rstr + u8 list \<Rightarrow> rstr option \<Rightarrow> u8 list \<Rightarrow> nat \<Rightarrow> rstr \<Rightarrow> rstr \<Rightarrow>
     Vault \<times> MaterializedRow list \<Rightarrow> (Vault \<times> MaterializedRow list) \<times> (VaultError + rstr)" where
  "materialize sha got audit tail now name actor st =
     (case st of (v, log) \<Rightarrow>
        (case got of
           Inl e \<Rightarrow> (st, Err (Secrets e))
         | Inr p \<Rightarrow>
             (if p = [] then (st, Err EmptyPlaintext)
              else
                (let r = mint_ref tail;
                     row = \<lparr>mr_name = name, mr_ref_hash = ref_hash sha r,
                            mr_ttl_secs = v_ttl v div 1000000000, mr_actor = actor\<rparr>
                 in case audit of
                      Some e \<Rightarrow> (st, Err (AuditErr e))
                    | None \<Rightarrow>
                        (case insert_fresh r \<lparr>plaintext = p, expires_at = now + v_ttl v\<rparr> v of
                           (v', res) \<Rightarrow> ((v', log @ [row]), res))))))"

definition seed_known_ref_for_test ::
    "rstr \<Rightarrow> u8 list \<Rightarrow> nat \<Rightarrow> Vault \<Rightarrow> Vault \<times> (VaultError + rstr)" where
  "seed_known_ref_for_test ref_hex p now v =
     (if \<not> (length ref_hex = REF_HEX_LEN \<and> list_all is_lower_hex ref_hex)
      then (v, Err (MalformedTestRef ref_hex))
      else if p = [] then (v, Err EmptyPlaintext)
      else insert_fresh (REF_PREFIX @ ref_hex) \<lparr>plaintext = p, expires_at = now + v_ttl v\<rparr> v)"

definition redeem :: "nat \<Rightarrow> rstr \<Rightarrow> Vault \<Rightarrow> Vault \<times> RedeemResult" where
  "redeem now r v =
     (case v_map v r of
        None \<Rightarrow> (v, NotFound)
      | Some e \<Rightarrow>
          (if now < expires_at e then (v, Hit (plaintext e))
           else (v\<lparr>v_map := (v_map v)(r := None)\<rparr>, Expired)))"

definition value_fingerprint ::
    "(u8 list \<Rightarrow> digest) \<Rightarrow> nat \<Rightarrow> rstr \<Rightarrow> Vault \<Rightarrow> SecretFingerprint option" where
  "value_fingerprint sha now r v =
     (case v_map v r of
        None \<Rightarrow> None
      | Some e \<Rightarrow> (if now \<ge> expires_at e then None else fingerprint_value sha (plaintext e)))"

section \<open>Walking a parameter tree\<close>

datatype MissingReason = MissingNotFound | MissingExpired

fun missing_reason_str :: "MissingReason \<Rightarrow> rstr" where
  "missing_reason_str MissingNotFound = ''not_found''"
| "missing_reason_str MissingExpired = ''expired''"

datatype SubstituteError = MissingRef rstr MissingReason | PlaintextNotUtf8 rstr

record RedemptionEvent =
  re_ref_hash :: rstr

text \<open>\<^verbatim>\<open>for_each_ref\<close> calls its closure on each reference in document order: the list of these calls.\<close>

fun for_each_ref :: "json \<Rightarrow> rstr list" where
  "for_each_ref (JStr s) = (if is_well_formed_ref s then [s] else [])"
| "for_each_ref (JArr items) = concat (map for_each_ref items)"
| "for_each_ref (JObj kvs) = concat (map (\<lambda>kv. for_each_ref (snd kv)) kvs)"
| "for_each_ref _ = []"

fun collect_step :: "(u8 list \<Rightarrow> digest) \<Rightarrow> rstr list \<Rightarrow> rstr list \<Rightarrow> rstr list" where
  "collect_step sha seen [] = []"
| "collect_step sha seen (r # rs) =
     (if ref_hash sha r \<in> set seen then collect_step sha seen rs
      else r # collect_step sha (ref_hash sha r # seen) rs)"

definition collect_refs_in_params :: "(u8 list \<Rightarrow> digest) \<Rightarrow> json \<Rightarrow> rstr list" where
  "collect_refs_in_params sha v = collect_step sha [] (for_each_ref v)"

text \<open>\<^verbatim>\<open>String::from_utf8\<close>.\<close>

definition bytes_str :: "u8 list \<Rightarrow> rstr" where
  "bytes_str bs = map (\<lambda>b. char_of (unat b)) bs"

definition from_utf8 :: "u8 list \<Rightarrow> rstr option" where
  "from_utf8 bs = (if utf8_valid (bytes_str bs) then Some (bytes_str bs) else None)"

type_synonym 's redeemer = "'s \<Rightarrow> rstr \<Rightarrow> 's \<times> RedeemResult"

text \<open>One node that is a string. The state is the vault's, the events are appended, and the value comes back
  changed or, on an error, as it was.\<close>

definition walk_string ::
    "(u8 list \<Rightarrow> digest) \<Rightarrow> 's redeemer \<Rightarrow> rstr \<Rightarrow> 's \<times> RedemptionEvent list \<Rightarrow>
     ('s \<times> RedemptionEvent list) \<times> json \<times> (SubstituteError + unit)" where
  "walk_string sha rd s st =
     (if \<not> is_well_formed_ref s then (st, JStr s, Ok ())
      else
        (let h = ref_hash sha s in
         case rd (fst st) s of
           (v, Hit pt) \<Rightarrow>
             (case from_utf8 pt of
                None \<Rightarrow> ((v, snd st), JStr s, Err (PlaintextNotUtf8 h))
              | Some t \<Rightarrow> ((v, snd st @ [\<lparr>re_ref_hash = h\<rparr>]), JStr t, Ok ()))
         | (v, Expired) \<Rightarrow> ((v, snd st), JStr s, Err (MissingRef h MissingExpired))
         | (v, NotFound) \<Rightarrow> ((v, snd st), JStr s, Err (MissingRef h MissingNotFound))))"

fun walk ::
    "(u8 list \<Rightarrow> digest) \<Rightarrow> 's redeemer \<Rightarrow> json \<Rightarrow> 's \<times> RedemptionEvent list \<Rightarrow>
     ('s \<times> RedemptionEvent list) \<times> json \<times> (SubstituteError + unit)"
  and walk_items ::
    "(u8 list \<Rightarrow> digest) \<Rightarrow> 's redeemer \<Rightarrow> json list \<Rightarrow> 's \<times> RedemptionEvent list \<Rightarrow>
     ('s \<times> RedemptionEvent list) \<times> json list \<times> (SubstituteError + unit)"
  and walk_fields ::
    "(u8 list \<Rightarrow> digest) \<Rightarrow> 's redeemer \<Rightarrow> (rstr \<times> json) list \<Rightarrow> 's \<times> RedemptionEvent list \<Rightarrow>
     ('s \<times> RedemptionEvent list) \<times> (rstr \<times> json) list \<times> (SubstituteError + unit)" where
  "walk sha rd (JStr s) st = walk_string sha rd s st"
| "walk sha rd (JArr items) st =
     (case walk_items sha rd items st of (st', items', r) \<Rightarrow> (st', JArr items', r))"
| "walk sha rd (JObj kvs) st =
     (case walk_fields sha rd kvs st of (st', kvs', r) \<Rightarrow> (st', JObj kvs', r))"
| "walk sha rd JNull st = (st, JNull, Ok ())"
| "walk sha rd (JBool b) st = (st, JBool b, Ok ())"
| "walk sha rd (JInt i) st = (st, JInt i, Ok ())"
| "walk sha rd (JFloat f) st = (st, JFloat f, Ok ())"
| "walk_items sha rd [] st = (st, [], Ok ())"
| "walk_items sha rd (x # xs) st =
     (case walk sha rd x st of
        (st', x', Inl e) \<Rightarrow> (st', x' # xs, Inl e)
      | (st', x', Inr _) \<Rightarrow> (case walk_items sha rd xs st' of (st'', xs', r) \<Rightarrow> (st'', x' # xs', r)))"
| "walk_fields sha rd [] st = (st, [], Ok ())"
| "walk_fields sha rd ((k, x) # kvs) st =
     (case walk sha rd x st of
        (st', x', Inl e) \<Rightarrow> (st', (k, x') # kvs, Inl e)
      | (st', x', Inr _) \<Rightarrow> (case walk_fields sha rd kvs st' of (st'', kvs', r) \<Rightarrow> (st'', (k, x') # kvs', r)))"

definition substitute_refs_in_params ::
    "(u8 list \<Rightarrow> digest) \<Rightarrow> 's redeemer \<Rightarrow> json \<Rightarrow> 's \<Rightarrow> 's \<times> json \<times> (SubstituteError + RedemptionEvent list)" where
  "substitute_refs_in_params sha rd v s =
     (case walk sha rd v (s, []) of
        ((s', evs), v', Inl e) \<Rightarrow> (s', v', Inl e)
      | ((s', evs), v', Inr _) \<Rightarrow> (s', v', Inr evs))"

text \<open>The real vault as a redeemer: the state pairs the vault with the number of clock readings made so
  far, and each redemption reads the clock once.\<close>

definition vault_redeem :: "(nat \<Rightarrow> nat) \<Rightarrow> (Vault \<times> nat) redeemer" where
  "vault_redeem clk s r = (case redeem (clk (snd s)) r (fst s) of (v', res) \<Rightarrow> ((v', Suc (snd s)), res))"

section \<open>References are recognised as they are minted\<close>

lemma hex_digit_lower: "n < 16 \<Longrightarrow> is_lower_hex (hex_digit n)"
  by (auto simp: hex_digit_def is_lower_hex_def is_ascii_digit_def)

lemma hex2_lower: "list_all is_lower_hex (hex2 b)"
proof -
  have "unat b < 256" using unsigned_less [of b] by simp
  then have "unat b div 16 < 16" by (simp add: less_mult_imp_div_less)
  then show ?thesis by (simp add: hex2_def hex_digit_lower)
qed

lemma mint_ref_well_formed: "length tail = 4 \<Longrightarrow> is_well_formed_ref (mint_ref tail)"
proof -
  assume t: "length tail = 4"
  have "length (concat (map hex2 bs)) = 2 * length bs" for bs
    by (induction bs) (simp_all add: hex2_def)
  moreover have "list_all is_lower_hex (concat (map hex2 bs))" for bs
    by (induction bs) (simp_all add: hex2_lower)
  ultimately show ?thesis using t by (simp add: is_well_formed_ref_def mint_ref_def REF_HEX_LEN_def)
qed

section \<open>Redemption\<close>

lemma insert_fresh_Ok:
  "insert_fresh r e v = (v', Inr r') \<longleftrightarrow> v_map v r = None \<and> r' = r \<and> v' = v\<lparr>v_map := (v_map v)(r \<mapsto> e)\<rparr>"
  by (auto simp: insert_fresh_def split: option.splits)

lemma insert_fresh_Err: "insert_fresh r e v = (v', Inl x) \<Longrightarrow> v' = v \<and> x = RefCollision \<and> v_map v r \<noteq> None"
  by (auto simp: insert_fresh_def split: option.splits)

lemma redeem_cases:
  assumes "redeem now r v = (v', res)"
  obtains (miss) "v_map v r = None" "v' = v" "res = NotFound"
    | (hit) e where "v_map v r = Some e" "now < expires_at e" "v' = v" "res = Hit (plaintext e)"
    | (late) e where "v_map v r = Some e" "expires_at e \<le> now" "v' = v\<lparr>v_map := (v_map v)(r := None)\<rparr>" "res = Expired"
  using assms by (auto simp: redeem_def split: option.splits if_splits)

text \<open>What the vault binds, expired or not.\<close>

definition bound :: "Vault \<Rightarrow> rstr \<rightharpoonup> u8 list" where
  "bound v r = map_option plaintext (v_map v r)"

section \<open>The walker against its specification\<close>

text \<open>The tree with every reference replaced by what it is bound to.\<close>

fun reveal :: "(rstr \<rightharpoonup> u8 list) \<Rightarrow> json \<Rightarrow> json" where
  "reveal \<sigma> (JStr s) =
     (if is_well_formed_ref s then (case \<sigma> s of Some p \<Rightarrow> JStr (bytes_str p) | None \<Rightarrow> JStr s) else JStr s)"
| "reveal \<sigma> (JArr items) = JArr (map (reveal \<sigma>) items)"
| "reveal \<sigma> (JObj kvs) = JObj (map (\<lambda>kv. (fst kv, reveal \<sigma> (snd kv))) kvs)"
| "reveal \<sigma> v = v"

lemma reveal_ignores_unused: "(\<And>r. r \<in> set (for_each_ref v) \<Longrightarrow> \<sigma> r = \<tau> r) \<Longrightarrow> reveal \<sigma> v = reveal \<tau> v"
proof (induction v rule: for_each_ref.induct)
  case (1 s)
  then show ?case by auto
next
  case (2 items)
  then show ?case by auto
next
  case (3 kvs)
  then show ?case by auto
qed auto

definition events :: "(u8 list \<Rightarrow> digest) \<Rightarrow> rstr list \<Rightarrow> RedemptionEvent list" where
  "events sha rs = map (\<lambda>r. \<lparr>re_ref_hash = ref_hash sha r\<rparr>) rs"

lemma events_append [simp]: "events sha [] = []" "events sha (xs @ ys) = events sha xs @ events sha ys"
  by (simp_all add: events_def)

text \<open>The walk is one left-to-right pass over the references of the read-only traversal.\<close>

definition redeem_one ::
    "(u8 list \<Rightarrow> digest) \<Rightarrow> 's redeemer \<Rightarrow> rstr \<Rightarrow> 's \<times> RedemptionEvent list \<Rightarrow>
     ('s \<times> RedemptionEvent list) \<times> (SubstituteError + unit)" where
  "redeem_one sha rd r st = (case walk_string sha rd r st of (st', _, res) \<Rightarrow> (st', res))"

fun redeem_all ::
    "(u8 list \<Rightarrow> digest) \<Rightarrow> 's redeemer \<Rightarrow> rstr list \<Rightarrow> 's \<times> RedemptionEvent list \<Rightarrow>
     ('s \<times> RedemptionEvent list) \<times> (SubstituteError + unit)" where
  "redeem_all sha rd [] st = (st, Ok ())"
| "redeem_all sha rd (r # rs) st =
     (case redeem_one sha rd r st of
        (st', Inl e) \<Rightarrow> (st', Inl e)
      | (st', Inr _) \<Rightarrow> redeem_all sha rd rs st')"

lemma redeem_all_append:
  "redeem_all sha rd (rs @ ss) st =
     (case redeem_all sha rd rs st of (st', Inl e) \<Rightarrow> (st', Inl e) | (st', Inr _) \<Rightarrow> redeem_all sha rd ss st')"
  by (induction rs arbitrary: st) (simp_all split: prod.splits sum.splits)

lemma walk_redeems:
  "walk sha rd v st = (st', v', res) \<Longrightarrow> redeem_all sha rd (for_each_ref v) st = (st', res)"
  "walk_items sha rd xs st = (st', xs', res) \<Longrightarrow> redeem_all sha rd (concat (map for_each_ref xs)) st = (st', res)"
  "walk_fields sha rd kvs st = (st', kvs', res) \<Longrightarrow>
     redeem_all sha rd (concat (map (\<lambda>kv. for_each_ref (snd kv)) kvs)) st = (st', res)"
proof (induction sha rd v st and sha rd xs st and sha rd kvs st
    arbitrary: st' v' res and st' xs' res and st' kvs' res rule: walk_walk_items_walk_fields.induct)
  case (1 sha rd s st)
  then show ?case by (auto simp: redeem_one_def walk_string_def split: sum.splits)
next
  case (9 sha rd x xs st)
  obtain st1 x1 r1 where w: "walk sha rd x st = (st1, x1, r1)" by (metis prod_cases3)
  with "9.IH"(1) [OF w] "9.IH"(2) [OF w [symmetric] refl] "9.prems" show ?case
    by (auto simp: redeem_all_append split: sum.splits prod.splits)
next
  case (11 sha rd k x kvs st)
  obtain st1 x1 r1 where w: "walk sha rd x st = (st1, x1, r1)" by (metis prod_cases3)
  with "11.IH"(1) [OF w] "11.IH"(2) [OF w [symmetric] refl] "11.prems" show ?case
    by (auto simp: redeem_all_append split: sum.splits prod.splits)
qed (auto split: prod.splits)

fun error_ref :: "SubstituteError \<Rightarrow> rstr" where
  "error_ref (MissingRef h _) = h"
| "error_ref (PlaintextNotUtf8 h) = h"

lemma redeem_one_Err:
  "redeem_one sha rd r st = (st', Inl e) \<Longrightarrow> snd st' = snd st \<and> error_ref e = ref_hash sha r"
  by (auto simp: redeem_one_def walk_string_def Let_def split: if_splits prod.splits RedeemResult.splits option.splits)

lemma redeem_one_Ok:
  "redeem_one sha rd r st = (st', Inr u) \<Longrightarrow> is_well_formed_ref r \<Longrightarrow> snd st' = snd st @ events sha [r]"
  by (auto simp: redeem_one_def walk_string_def Let_def events_def
      split: if_splits prod.splits RedeemResult.splits option.splits)

lemma for_each_ref_well_formed: "r \<in> set (for_each_ref v) \<Longrightarrow> is_well_formed_ref r"
  by (induction v rule: for_each_ref.induct) (auto split: if_splits)

text \<open>A failing walk stops at the first reference that cannot be redeemed: the references before it, and no
  others, are reported as redeemed.\<close>

lemma redeem_all_Err:
  assumes "redeem_all sha rd rs st = (st', Inl e)" and "\<forall>r \<in> set rs. is_well_formed_ref r"
  obtains pre r post where "rs = pre @ r # post" "snd st' = snd st @ events sha pre" "error_ref e = ref_hash sha r"
  using assms
proof (induction rs arbitrary: st thesis)
  case Nil
  then show ?case by simp
next
  case (Cons r rs)
  obtain st1 res where one: "redeem_one sha rd r st = (st1, res)" by fastforce
  show ?case
  proof (cases res)
    case (Inl x)
    with one Cons.prems redeem_one_Err [of sha rd r st st1 x] show ?thesis
      by (intro Cons.prems(1) [of "[]" r rs]) auto
  next
    case (Inr u)
    with one Cons.prems(2) have "redeem_all sha rd rs st1 = (st', Inl e)" by simp
    then obtain pre q post where
      "rs = pre @ q # post" "snd st' = snd st1 @ events sha pre" "error_ref e = ref_hash sha q"
      using Cons.IH Cons.prems(3) by (metis list.set_intros(2))
    with Inr one Cons.prems(3) redeem_one_Ok [of sha rd r st st1 u] show ?thesis
      by (intro Cons.prems(1) [of "r # pre" q post]) (auto simp: events_def)
  qed
qed

locale redeem_from_vault =
  fixes rd :: "'s redeemer"
    and content :: "'s \<Rightarrow> rstr \<rightharpoonup> u8 list"
  assumes hit: "rd s r = (s', Hit p) \<Longrightarrow> content s r = Some p \<and> content s' = content s"
    and shrinks: "rd s r = (s', res) \<Longrightarrow> content s' \<subseteq>\<^sub>m content s"
begin

lemma walk_string_Ok:
  assumes "walk_string sha rd s st = (st', v', Inr u)"
  shows "content (fst st') = content (fst st) \<and> snd st' = snd st @ events sha (for_each_ref (JStr s)) \<and>
    v' = reveal (content (fst st)) (JStr s)"
  using assms
  by (auto simp: walk_string_def Let_def events_def from_utf8_def dest: hit
      split: if_splits prod.splits RedeemResult.splits option.splits)

lemma walk_string_shrinks:
  assumes "walk_string sha rd s st = (st', v', r)"
  shows "content (fst st') \<subseteq>\<^sub>m content (fst st)"
  using assms shrinks [of "fst st" s]
  by (auto simp: walk_string_def Let_def split: if_splits prod.splits RedeemResult.splits option.splits)

lemma walk_Ok:
  "walk sha rd v st = (st', v', Inr u) \<Longrightarrow>
     content (fst st') = content (fst st) \<and> snd st' = snd st @ events sha (for_each_ref v) \<and>
     v' = reveal (content (fst st)) v"
  "walk_items sha rd xs st = (st', xs', Inr u) \<Longrightarrow>
     content (fst st') = content (fst st) \<and> snd st' = snd st @ events sha (concat (map for_each_ref xs)) \<and>
     xs' = map (reveal (content (fst st))) xs"
  "walk_fields sha rd kvs st = (st', kvs', Inr u) \<Longrightarrow>
     content (fst st') = content (fst st) \<and>
     snd st' = snd st @ events sha (concat (map (\<lambda>kv. for_each_ref (snd kv)) kvs)) \<and>
     kvs' = map (\<lambda>kv. (fst kv, reveal (content (fst st)) (snd kv))) kvs"
proof (induction sha rd0 \<equiv> rd v st and sha rd0 \<equiv> rd xs st and sha rd0 \<equiv> rd kvs st
    arbitrary: st' v' and st' xs' and st' kvs' rule: walk_walk_items_walk_fields.induct)
  case (1 sha s st)
  then show ?case using walk_string_Ok by simp
next
  case (9 sha x xs st)
  obtain st1 x1 xs2 where
    w: "walk sha rd x st = (st1, x1, Inr u)" "walk_items sha rd xs st1 = (st', xs2, Inr u)"
      "xs' = x1 # xs2"
    using "9.prems" by (auto split: prod.splits sum.splits)
  with "9.hyps"(1) [OF w(1)] "9.hyps"(2) [OF w(1) [symmetric] refl refl w(2)] show ?case by simp
next
  case (11 sha k x kvs st)
  obtain st1 x1 kvs2 where
    w: "walk sha rd x st = (st1, x1, Inr u)" "walk_fields sha rd kvs st1 = (st', kvs2, Inr u)"
      "kvs' = (k, x1) # kvs2"
    using "11.prems" by (auto split: prod.splits sum.splits)
  with "11.hyps"(1) [OF w(1)] "11.hyps"(2) [OF w(1) [symmetric] refl refl w(2)] show ?case by simp
qed (auto split: prod.splits)

lemma redeem_all_bound:
  "redeem_all sha rd rs st = (st', Inr u) \<Longrightarrow> \<forall>r \<in> set rs. is_well_formed_ref r \<Longrightarrow>
     \<forall>r \<in> set rs. \<exists>p. content (fst st) r = Some p \<and> utf8_valid (bytes_str p)"
proof (induction rs arbitrary: st)
  case (Cons r rs)
  obtain st1 v1 where one: "walk_string sha rd r st = (st1, v1, Inr ())" "redeem_all sha rd rs st1 = (st', Inr u)"
    using Cons.prems(1) by (auto simp: redeem_one_def split: prod.splits sum.splits)
  have "\<exists>p. content (fst st) r = Some p \<and> utf8_valid (bytes_str p)"
    using one(1) Cons.prems(2)
    by (auto simp: walk_string_def Let_def from_utf8_def dest: hit
        split: if_splits prod.splits RedeemResult.splits option.splits)
  with Cons.IH [OF one(2)] walk_string_Ok [OF one(1)] Cons.prems(2) show ?case by simp
qed simp

lemma redeem_all_shrinks:
  "redeem_all sha rd rs st = (st', res) \<Longrightarrow> content (fst st') \<subseteq>\<^sub>m content (fst st)"
proof (induction rs arbitrary: st)
  case Nil
  then show ?case by simp
next
  case (Cons r rs)
  obtain st1 v1 res1 where one: "walk_string sha rd r st = (st1, v1, res1)" by (metis prod_cases3)
  with Cons.prems have "res1 = res \<and> st1 = st' \<or> redeem_all sha rd rs st1 = (st', res)"
    by (auto simp: redeem_one_def split: sum.splits)
  with Cons.IH walk_string_shrinks [OF one] show ?case by (blast intro: map_le_trans)
qed

end

text \<open>A redeemer that answers as long as an entry is ready for the number of redemptions still to come.\<close>

locale live_redeemer = redeem_from_vault rd content
  for rd :: "'s redeemer" and content :: "'s \<Rightarrow> rstr \<rightharpoonup> u8 list" +
  fixes ready :: "'s \<Rightarrow> rstr \<Rightarrow> nat \<Rightarrow> bool"
  assumes ready_hit: "ready s r (Suc k) \<Longrightarrow> \<exists>s' p. rd s r = (s', Hit p)"
    and ready_stays: "rd s r = (s', Hit p) \<Longrightarrow> ready s q (Suc k) \<Longrightarrow> ready s' q k"
begin

lemma redeem_one_ready:
  assumes "ready (fst st) r (Suc k)" and "content (fst st) r = Some p" and "utf8_valid (bytes_str p)"
  obtains st' where "redeem_one sha rd r st = (st', Inr ())"
    "\<And>q. is_well_formed_ref r \<Longrightarrow> ready (fst st) q (Suc k) \<Longrightarrow> ready (fst st') q k"
    "content (fst st') = content (fst st)"
proof -
  obtain s' p' where h: "rd (fst st) r = (s', Hit p')" using ready_hit assms(1) by blast
  with hit assms(2) have p: "p' = p" "content s' = content (fst st)" by auto
  show thesis
  proof (cases "is_well_formed_ref r")
    case True
    then show thesis using h p assms(3) ready_stays [OF h]
      by (intro that [of "(s', snd st @ [\<lparr>re_ref_hash = ref_hash sha r\<rparr>])"])
        (auto simp: redeem_one_def walk_string_def from_utf8_def Let_def)
  next
    case False
    then show thesis by (intro that [of st]) (auto simp: redeem_one_def walk_string_def)
  qed
qed

lemma redeem_all_ready:
  assumes "\<forall>r \<in> set rs. is_well_formed_ref r \<and> ready (fst st) r (length rs) \<and>
      (\<exists>p. content (fst st) r = Some p \<and> utf8_valid (bytes_str p))"
  shows "\<exists>st'. redeem_all sha rd rs st = (st', Inr ())"
  using assms
proof (induction rs arbitrary: st)
  case Nil
  then show ?case by simp
next
  case (Cons r rs)
  then obtain p where p: "ready (fst st) r (Suc (length rs))" "content (fst st) r = Some p" "utf8_valid (bytes_str p)"
    by auto
  obtain st1 where st1: "redeem_one sha rd r st = (st1, Inr ())"
    "\<And>q. is_well_formed_ref r \<Longrightarrow> ready (fst st) q (Suc (length rs)) \<Longrightarrow> ready (fst st1) q (length rs)"
    "content (fst st1) = content (fst st)"
    using redeem_one_ready [OF p] by blast
  then have "\<exists>st'. redeem_all sha rd rs st1 = (st', Inr ())" using Cons.prems by (intro Cons.IH) auto
  with st1(1) show ?case by simp
qed

end

definition vault_ready :: "(nat \<Rightarrow> nat) \<Rightarrow> Vault \<times> nat \<Rightarrow> rstr \<Rightarrow> nat \<Rightarrow> bool" where
  "vault_ready clk s r k =
     (case v_map (fst s) r of None \<Rightarrow> False | Some e \<Rightarrow> (\<forall>j < k. clk (snd s + j) < expires_at e))"

interpretation vault: live_redeemer "vault_redeem clk" "\<lambda>s. bound (fst s)" "vault_ready clk" for clk
proof
  fix s r s' p
  assume "vault_redeem clk s r = (s', Hit p)"
  then show "bound (fst s) r = Some p \<and> bound (fst s') = bound (fst s)"
    by (auto simp: vault_redeem_def bound_def split: prod.splits elim!: redeem_cases)
next
  fix s r s' res
  assume "vault_redeem clk s r = (s', res)"
  then show "bound (fst s') \<subseteq>\<^sub>m bound (fst s)"
    by (auto simp: vault_redeem_def bound_def map_le_def split: prod.splits elim!: redeem_cases)
next
  fix s r k
  assume "vault_ready clk s r (Suc k)"
  then show "\<exists>s' p. vault_redeem clk s r = (s', Hit p)"
    by (auto simp: vault_ready_def vault_redeem_def redeem_def split: option.splits)
next
  fix s r s' p q k
  assume "vault_redeem clk s r = (s', Hit p)" and "vault_ready clk s q (Suc k)"
  then show "vault_ready clk s' q k"
    by (fastforce simp: vault_redeem_def vault_ready_def split: prod.splits option.splits elim!: redeem_cases)
qed

section \<open>The life of a vault\<close>

inductive vault_step ::
    "(u8 list \<Rightarrow> digest) \<Rightarrow> Vault \<times> MaterializedRow list \<Rightarrow> Vault \<times> MaterializedRow list \<Rightarrow> bool" for sha where
  step_materialize: "materialize sha got audit tail now name actor st = (st', res) \<Longrightarrow> length tail = 4 \<Longrightarrow> vault_step sha st st'"
| step_redeem: "redeem now r v = (v', res) \<Longrightarrow> vault_step sha (v, log) (v', log)"

inductive_cases vault_stepE: "vault_step sha st st'"

definition vault_inv :: "(u8 list \<Rightarrow> digest) \<Rightarrow> Vault \<times> MaterializedRow list \<Rightarrow> bool" where
  "vault_inv sha st \<longleftrightarrow>
     (\<forall>r e. v_map (fst st) r = Some e \<longrightarrow>
        is_well_formed_ref r \<and> plaintext e \<noteq> [] \<and> ref_hash sha r \<in> mr_ref_hash ` set (snd st))"

lemma materialize_cases:
  assumes "materialize sha got audit tail now name actor (v, log) = (st', res)"
  obtains (refused) x where "st' = (v, log)" "res = Inl x"
    | (clash) row where "st' = (v, log @ [row])" "res = Inl RefCollision" "v_map v (mint_ref tail) \<noteq> None"
    | (minted) p row where "got = Inr p" "p \<noteq> []" "v_map v (mint_ref tail) = None" "res = Inr (mint_ref tail)"
        "mr_ref_hash row = ref_hash sha (mint_ref tail)"
        "st' = (v\<lparr>v_map := (v_map v)(mint_ref tail \<mapsto> \<lparr>plaintext = p, expires_at = now + v_ttl v\<rparr>)\<rparr>, log @ [row])"
proof (cases "got")
  case (Inl e)
  then show thesis using assms by (intro refused [of "Secrets e"]) (auto simp: materialize_def)
next
  case (Inr p)
  show thesis
  proof (cases "p = [] \<or> audit \<noteq> None")
    case True
    then show thesis using assms Inr
      by (intro refused [of "if p = [] then EmptyPlaintext else AuditErr (the audit)"])
        (auto simp: materialize_def Let_def split: if_splits)
  next
    case False
    then show thesis
      using assms Inr clash
        minted [of p "\<lparr>mr_name = name, mr_ref_hash = ref_hash sha (mint_ref tail),
          mr_ttl_secs = v_ttl v div 1000000000, mr_actor = actor\<rparr>"]
      by (cases "v_map v (mint_ref tail)") (auto simp: materialize_def Let_def insert_fresh_def)
  qed
qed

lemma materialize_inv:
  assumes "materialize sha got audit tail now name actor st = (st', res)" and "length tail = 4" and "vault_inv sha st"
  shows "vault_inv sha st'"
proof -
  obtain v log where st: "st = (v, log)" by fastforce
  have m: "materialize sha got audit tail now name actor (v, log) = (st', res)" using assms(1) st by simp
  from m show ?thesis
    by (cases rule: materialize_cases)
      (use assms(2,3) st in \<open>auto simp: vault_inv_def mint_ref_well_formed\<close>)
qed

lemma redeem_inv: "redeem now r v = (v', res) \<Longrightarrow> vault_inv sha (v, log) \<Longrightarrow> vault_inv sha (v', log)"
  by (erule redeem_cases) (auto simp: vault_inv_def)

lemma vault_inv_step: "vault_step sha st st' \<Longrightarrow> vault_inv sha st \<Longrightarrow> vault_inv sha st'"
  by (erule vault_stepE) (auto intro: materialize_inv redeem_inv)

lemma vault_reachable_inv: "(vault_step sha)\<^sup>*\<^sup>* (with_ttl ttl, []) st \<Longrightarrow> vault_inv sha st"
proof (induction rule: rtranclp_induct)
  case base
  show ?case by (simp add: vault_inv_def with_ttl_def)
qed (rule vault_inv_step)

text \<open>No operation re-points a reference: it keeps its entry or loses it.\<close>

lemma vault_step_never_rebinds:
  assumes "vault_step sha st st'" and "v_map (fst st) r = Some e"
  shows "v_map (fst st') r = Some e \<or> v_map (fst st') r = None"
  using assms(1)
proof cases
  case (step_materialize got audit tail now name actor res)
  have m: "materialize sha got audit tail now name actor (fst st, snd st) = (st', res)"
    using step_materialize(1) by simp
  from m show ?thesis by (cases rule: materialize_cases) (use assms(2) in auto)
next
  case (step_redeem now q v v' res log)
  from step_redeem(3) show ?thesis by (cases rule: redeem_cases) (use assms(2) step_redeem in auto)
qed

end
