(* ===== verification/Handoff.thy ===== *)
theory Handoff
  imports Screened_Head Summary Vault
begin

text \<open>
  \<^verbatim>\<open>core/src/handoff.rs\<close>: the per-task, content-addressed cache of oversized tool results. A result larger than
  the cap is stashed and replaced by a placeholder; the planner reads it back in slices. The cache
  keeps at most a byte budget per task and a number of tasks, evicting the oldest.

  \<open>sha\<close> is SHA-256, \<open>ser\<close> and \<open>de\<close> are \<^verbatim>\<open>serde_json\<close>'s printer and parser.
\<close>

definition DEFAULT_RESULT_BYTE_CAP :: nat where "DEFAULT_RESULT_BYTE_CAP = 64 * 1024"
definition SUMMARY_HEAD_BYTES :: nat where "SUMMARY_HEAD_BYTES = 1024"
definition MAX_FETCH_BYTES :: nat where "MAX_FETCH_BYTES = 256 * 1024"
definition PER_TASK_BYTE_BUDGET :: nat where "PER_TASK_BYTE_BUDGET = 64 * 1024 * 1024"
definition MAX_TRACKED_TASKS :: nat where "MAX_TRACKED_TASKS = 4096"

section \<open>References\<close>

definition HandoffRef_of :: "(u8 list \<Rightarrow> digest) \<Rightarrow> u8 list \<Rightarrow> rstr" where
  "HandoffRef_of sha body = ''sha256:'' @ concat (map hex2 (sha body))"

definition HandoffRef_parse :: "rstr \<Rightarrow> rstr option" where
  "HandoffRef_parse s =
     (case strip_prefix s ''sha256:'' of
        None \<Rightarrow> None
      | Some hex \<Rightarrow> (if length hex = 64 \<and> list_all is_lower_hex hex then Some s else None))"

definition build_handoff_placeholder :: "json \<Rightarrow> rstr \<Rightarrow> nat \<Rightarrow> json" where
  "build_handoff_placeholder v r byte_len =
     JObj [(''byte_len'', JInt (int byte_len)), (''handoff_ref'', JStr r),
           (''summary_head'', screened_head v SUMMARY_HEAD_BYTES), (''truncated'', JBool True)]"

definition placeholder_ref :: "json \<Rightarrow> rstr option" where
  "placeholder_ref v =
     (if json_get v ''truncated'' \<noteq> Some (JBool True) then None
      else case json_get v ''handoff_ref'' of
             None \<Rightarrow> None
           | Some j \<Rightarrow> (case json_as_str j of None \<Rightarrow> None | Some s \<Rightarrow> HandoffRef_parse s))"

record Slice =
  sl_bytes :: "u8 list"
  sl_eof :: bool

record StashOutcome =
  so_placeholder :: json
  so_handoff_ref :: rstr
  so_byte_len :: nat

datatype FetchResult = FetchOk json | FetchNotFound rstr | FetchInvalidParams rstr

section \<open>The cache\<close>

record TaskBucket =
  tb_order :: "rstr list"
  tb_map :: "rstr \<rightharpoonup> u8 list"
  tb_total :: nat

record HandoffCache =
  hc_buckets :: "int \<rightharpoonup> TaskBucket"
  hc_order :: "int list"

definition empty_bucket :: TaskBucket where
  "empty_bucket = \<lparr>tb_order = [], tb_map = Map.empty, tb_total = 0\<rparr>"

definition HandoffCache_new :: HandoffCache where
  "HandoffCache_new = \<lparr>hc_buckets = Map.empty, hc_order = []\<rparr>"

text \<open>The loop that evicts a task's oldest bodies, never the last one.\<close>

function evict_bodies :: "TaskBucket \<Rightarrow> TaskBucket" where
  "evict_bodies b =
     (if tb_total b > PER_TASK_BYTE_BUDGET \<and> length (tb_order b) > 1
      then (let oldest = hd (tb_order b); b' = b\<lparr>tb_order := tl (tb_order b)\<rparr> in
            evict_bodies
              (case tb_map b oldest of
                 None \<Rightarrow> b'
               | Some body \<Rightarrow>
                   b'\<lparr>tb_map := (tb_map b)(oldest := None), tb_total := tb_total b - length body\<rparr>))
      else b)"
  by pat_completeness auto
termination
  by (relation "measure (\<lambda>b. length (tb_order b))") (auto split: option.splits)

declare evict_bodies.simps [simp del]

text \<open>The loop that evicts the oldest tasks wholesale.\<close>

function evict_tasks :: "HandoffCache \<Rightarrow> HandoffCache" where
  "evict_tasks c =
     (if length (hc_order c) > MAX_TRACKED_TASKS
      then evict_tasks (c\<lparr>hc_buckets := (hc_buckets c)(hd (hc_order c) := None), hc_order := tl (hc_order c)\<rparr>)
      else c)"
  by pat_completeness auto
termination
  by (relation "measure (\<lambda>c. length (hc_order c))") auto

declare evict_tasks.simps [simp del]

definition put :: "(u8 list \<Rightarrow> digest) \<Rightarrow> int \<Rightarrow> u8 list \<Rightarrow> HandoffCache \<Rightarrow> HandoffCache \<times> rstr" where
  "put sha task_id body c =
     (let r = HandoffRef_of sha body;
          is_new_task = (hc_buckets c task_id = None);
          bucket = (case hc_buckets c task_id of None \<Rightarrow> empty_bucket | Some b \<Rightarrow> b)
      in if tb_map bucket r \<noteq> None then (c, r)
         else
           (let bucket = evict_bodies
                  \<lparr>tb_order = tb_order bucket @ [r], tb_map = (tb_map bucket)(r \<mapsto> body),
                   tb_total = tb_total bucket + length body\<rparr>;
                c = c\<lparr>hc_buckets := (hc_buckets c)(task_id \<mapsto> bucket)\<rparr>
            in (if is_new_task then evict_tasks (c\<lparr>hc_order := hc_order c @ [task_id]\<rparr>) else c, r)))"

definition get_slice :: "int \<Rightarrow> rstr \<Rightarrow> nat \<Rightarrow> nat \<Rightarrow> HandoffCache \<Rightarrow> Slice option" where
  "get_slice task_id r offset len c =
     (case hc_buckets c task_id of
        None \<Rightarrow> None
      | Some bucket \<Rightarrow>
          (case tb_map bucket r of
             None \<Rightarrow> None
           | Some body \<Rightarrow>
               (let start = min offset (length body); e = min (sat_add offset len) (length body)
                in Some \<lparr>sl_bytes = take (e - start) (drop start body), sl_eof = (e \<ge> length body)\<rparr>)))"

definition whole :: "(rstr \<Rightarrow> json option) \<Rightarrow> int \<Rightarrow> rstr \<Rightarrow> HandoffCache \<Rightarrow> json option" where
  "whole de task_id r c =
     (case get_slice task_id r 0 USIZE_MAX c of None \<Rightarrow> None | Some s \<Rightarrow> de (bytes_str (sl_bytes s)))"

definition purge_task :: "int \<Rightarrow> HandoffCache \<Rightarrow> HandoffCache" where
  "purge_task task_id c =
     c\<lparr>hc_buckets := (hc_buckets c)(task_id := None), hc_order := filter (\<lambda>t. t \<noteq> task_id) (hc_order c)\<rparr>"

definition stash_if_oversized ::
    "(u8 list \<Rightarrow> digest) \<Rightarrow> (json \<Rightarrow> rstr) \<Rightarrow> int \<Rightarrow> json \<Rightarrow> nat \<Rightarrow> HandoffCache \<Rightarrow> HandoffCache \<times> StashOutcome option" where
  "stash_if_oversized sha ser task_id v cap c =
     (let body = str_bytes (ser v) in
      if length body \<le> cap then (c, None)
      else (case put sha task_id body c of
              (c', r) \<Rightarrow> (c', Some \<lparr>so_placeholder = build_handoff_placeholder v r (length body),
                                   so_handoff_ref = r, so_byte_len = length body\<rparr>)))"

fun json_as_u64 :: "json \<Rightarrow> nat option" where
  "json_as_u64 (JInt i) = (if 0 \<le> i \<and> i < 2 ^ 64 then Some (nat i) else None)"
| "json_as_u64 _ = None"

definition param_u64 :: "json \<Rightarrow> rstr \<Rightarrow> nat option" where
  "param_u64 params k = (case json_get params k of None \<Rightarrow> None | Some j \<Rightarrow> json_as_u64 j)"

definition fetch :: "int \<Rightarrow> json \<Rightarrow> HandoffCache \<Rightarrow> FetchResult" where
  "fetch task_id params c =
     (case (case json_get params ''handoff_ref'' of None \<Rightarrow> None | Some j \<Rightarrow> json_as_str j) of
        None \<Rightarrow> FetchInvalidParams (''missing '' @ quoted ''handoff_ref'')
      | Some ref_str \<Rightarrow>
          (case HandoffRef_parse ref_str of
             None \<Rightarrow> FetchInvalidParams (''malformed handoff_ref: '' @ ref_str)
           | Some r \<Rightarrow>
               (let offset = (case param_u64 params ''offset'' of Some n \<Rightarrow> n | None \<Rightarrow> 0);
                    len = min (case param_u64 params ''len'' of Some n \<Rightarrow> n | None \<Rightarrow> MAX_FETCH_BYTES) MAX_FETCH_BYTES
                in case get_slice task_id r offset len c of
                     Some s \<Rightarrow> FetchOk (JObj
                       [(''data'', JStr (from_utf8_lossy (bytes_str (sl_bytes s)))), (''encoding'', JStr ''utf8''),
                        (''eof'', JBool (sl_eof s)), (''handoff_ref'', JStr r),
                        (''len'', JInt (int (length (sl_bytes s)))), (''offset'', JInt (int offset))])
                   | None \<Rightarrow> FetchNotFound
                       (''no stashed body for '' @ r @ '' in this task (unknown or evicted)''))))"

section \<open>Invariants\<close>

definition bucket_inv :: "(u8 list \<Rightarrow> digest) \<Rightarrow> TaskBucket \<Rightarrow> bool" where
  "bucket_inv sha b \<longleftrightarrow>
     distinct (tb_order b) \<and> set (tb_order b) = dom (tb_map b) \<and>
     tb_total b = sum_list (map (\<lambda>r. length (the (tb_map b r))) (tb_order b)) \<and>
     (\<forall>r body. tb_map b r = Some body \<longrightarrow> r = HandoffRef_of sha body)"

definition bucket_bounded :: "TaskBucket \<Rightarrow> bool" where
  "bucket_bounded b \<longleftrightarrow> tb_order b \<noteq> [] \<and> (tb_total b \<le> PER_TASK_BYTE_BUDGET \<or> length (tb_order b) = 1)"

definition cache_inv :: "(u8 list \<Rightarrow> digest) \<Rightarrow> HandoffCache \<Rightarrow> bool" where
  "cache_inv sha c \<longleftrightarrow>
     distinct (hc_order c) \<and> set (hc_order c) = dom (hc_buckets c) \<and> length (hc_order c) \<le> MAX_TRACKED_TASKS \<and>
     (\<forall>t b. hc_buckets c t = Some b \<longrightarrow> bucket_inv sha b \<and> bucket_bounded b)"

lemma bucket_inv_drop:
  assumes "bucket_inv sha b" and "tb_order b = r # rs" and "tb_map b r = Some body"
  shows "bucket_inv sha (b\<lparr>tb_order := rs, tb_map := (tb_map b)(r := None), tb_total := tb_total b - length body\<rparr>)"
proof -
  have r: "r \<notin> set rs" using assms(1,2) by (simp add: bucket_inv_def)
  then have "map (\<lambda>q. length (the (((tb_map b)(r := None)) q))) rs = map (\<lambda>q. length (the (tb_map b q))) rs"
    by auto
  then have "sum_list (map (\<lambda>q. length (the (((tb_map b)(r := None)) q))) rs) = sum_list (map (\<lambda>q. length (the (tb_map b q))) rs)"
    by (rule arg_cong)
  moreover have "set rs = dom ((tb_map b)(r := None))" using assms r by (auto simp: bucket_inv_def)
  ultimately show ?thesis using assms by (simp add: bucket_inv_def)
qed

text \<open>Eviction keeps the invariant and the newest body, and ends within the budget or with that body alone.\<close>

lemma evict_bodies_keeps:
  assumes "bucket_inv sha b" and "tb_order b \<noteq> []"
  shows "bucket_inv sha (evict_bodies b) \<and> bucket_bounded (evict_bodies b) \<and>
    last (tb_order (evict_bodies b)) = last (tb_order b) \<and> tb_map (evict_bodies b) \<subseteq>\<^sub>m tb_map b \<and>
    tb_map (evict_bodies b) (last (tb_order b)) = tb_map b (last (tb_order b))"
  using assms
proof (induction b rule: evict_bodies.induct)
  case (1 b)
  show ?case
  proof (cases "tb_total b > PER_TASK_BYTE_BUDGET \<and> length (tb_order b) > 1")
    case False
    then have e: "evict_bodies b = b" by (subst evict_bodies.simps) (rule if_not_P)
    have "length (tb_order b) = 1 \<or> length (tb_order b) > 1" using "1.prems"(2) by (cases "tb_order b") auto
    with False show ?thesis unfolding e using "1.prems" by (auto simp: bucket_bounded_def)
  next
    case True
    then obtain r rs where o: "tb_order b = r # rs" "rs \<noteq> []" by (cases "tb_order b") auto
    have "r \<in> dom (tb_map b)" using "1.prems"(1) o by (auto simp: bucket_inv_def)
    then obtain body where m: "tb_map b r = Some body" by blast
    define b' where "b' = b\<lparr>tb_order := rs, tb_map := (tb_map b)(r := None), tb_total := tb_total b - length body\<rparr>"
    have eq: "evict_bodies b = evict_bodies b'"
      using True o m by (subst evict_bodies.simps) (simp add: Let_def b'_def)
    have inv: "bucket_inv sha b'" unfolding b'_def using bucket_inv_drop "1.prems"(1) o(1) m by blast
    have IH: "bucket_inv sha (evict_bodies b') \<and> bucket_bounded (evict_bodies b') \<and>
        last (tb_order (evict_bodies b')) = last (tb_order b') \<and> tb_map (evict_bodies b') \<subseteq>\<^sub>m tb_map b' \<and>
        tb_map (evict_bodies b') (last (tb_order b')) = tb_map b' (last (tb_order b'))"
    proof -
      have "tb_order b' \<noteq> []" using o by (simp add: b'_def)
      with "1.IH" [OF True refl refl, unfolded o list.sel m option.case, folded b'_def, OF inv] show ?thesis by blast
    qed
    have l: "last (tb_order b') = last (tb_order b)" using o by (simp add: b'_def)
    have "r \<noteq> last rs" using "1.prems"(1) o by (auto simp: bucket_inv_def)
    then have "tb_map b' (last (tb_order b)) = tb_map b (last (tb_order b))" using o by (simp add: b'_def)
    moreover have "tb_map b' \<subseteq>\<^sub>m tb_map b" by (auto simp: b'_def map_le_def)
    ultimately show ?thesis unfolding eq using IH l by (auto intro: map_le_trans)
  qed
qed

text \<open>The wholesale eviction of tasks drops the oldest and nothing else.\<close>

lemma evict_tasks_eq:
  assumes "distinct (hc_order c)" and "set (hc_order c) = dom (hc_buckets c)"
  shows "evict_tasks c =
    (let k = length (hc_order c) - MAX_TRACKED_TASKS
     in c\<lparr>hc_order := drop k (hc_order c), hc_buckets := hc_buckets c |` set (drop k (hc_order c))\<rparr>)"
  using assms
proof (induction c rule: evict_tasks.induct)
  case (1 c)
  show ?case
  proof (cases "length (hc_order c) > MAX_TRACKED_TASKS")
    case False
    then have e: "evict_tasks c = c" by (subst evict_tasks.simps) (rule if_not_P)
    have "hc_buckets c |` dom (hc_buckets c) = hc_buckets c"
      by (rule ext) (auto simp: restrict_map_def domIff)
    with False show ?thesis unfolding e using "1.prems"(2) by (simp add: Let_def)
  next
    case True
    then obtain t ts where o: "hc_order c = t # ts" by (cases "hc_order c") auto
    define c' where "c' = c\<lparr>hc_buckets := (hc_buckets c)(t := None), hc_order := ts\<rparr>"
    have e: "evict_tasks c = evict_tasks c'" using True o by (subst evict_tasks.simps) (simp add: c'_def)
    have "distinct (hc_order c')" "set (hc_order c') = dom (hc_buckets c')" using "1.prems" o by (auto simp: c'_def)
    note IH = "1.IH" [OF True, unfolded o list.sel, folded c'_def, OF this]
    have sel: "hc_order c' = ts" "hc_buckets c' = (hc_buckets c)(t := None)" by (simp_all add: c'_def)
    obtain k where k: "length (hc_order c) - MAX_TRACKED_TASKS = Suc k" "length ts - MAX_TRACKED_TASKS = k"
      using True o by (metis Suc_diff_le diff_Suc_1 length_Cons less_Suc_eq_le)
    have "((hc_buckets c)(t := None)) |` set (drop k ts) = hc_buckets c |` set (drop k ts)"
      using "1.prems"(1) o by (intro ext) (auto simp: restrict_map_def dest: in_set_dropD)
    then show ?thesis unfolding e IH Let_def sel k using o by (simp add: c'_def)
  qed
qed

definition stored :: "HandoffCache \<Rightarrow> int \<Rightarrow> rstr \<rightharpoonup> u8 list" where
  "stored c t = (case hc_buckets c t of None \<Rightarrow> Map.empty | Some b \<Rightarrow> tb_map b)"

text \<open>The bucket a new body goes into.\<close>

definition grown :: "(u8 list \<Rightarrow> digest) \<Rightarrow> TaskBucket \<Rightarrow> u8 list \<Rightarrow> TaskBucket" where
  "grown sha b body = evict_bodies
     \<lparr>tb_order = tb_order b @ [HandoffRef_of sha body], tb_map = (tb_map b)(HandoffRef_of sha body \<mapsto> body),
      tb_total = tb_total b + length body\<rparr>"

lemma grown_inv:
  assumes "bucket_inv sha b" and "tb_map b (HandoffRef_of sha body) = None"
  shows "bucket_inv sha (grown sha b body) \<and> bucket_bounded (grown sha b body) \<and>
    tb_map (grown sha b body) (HandoffRef_of sha body) = Some body"
proof -
  let ?r = "HandoffRef_of sha body"
  let ?b = "\<lparr>tb_order = tb_order b @ [?r], tb_map = (tb_map b)(?r \<mapsto> body), tb_total = tb_total b + length body\<rparr>"
  have "?r \<notin> set (tb_order b)" using assms by (auto simp: bucket_inv_def)
  then have "map (\<lambda>q. length (the (((tb_map b)(?r \<mapsto> body)) q))) (tb_order b) = map (\<lambda>q. length (the (tb_map b q))) (tb_order b)"
    by auto
  then have "sum_list (map (\<lambda>q. length (the (((tb_map b)(?r \<mapsto> body)) q))) (tb_order b)) =
      sum_list (map (\<lambda>q. length (the (tb_map b q))) (tb_order b))" by (rule arg_cong)
  then have "bucket_inv sha ?b" using assms \<open>?r \<notin> set (tb_order b)\<close> by (auto simp: bucket_inv_def)
  from evict_bodies_keeps [OF this] show ?thesis by (simp add: grown_def)
qed

lemma empty_bucket_inv: "bucket_inv sha empty_bucket"
  by (simp add: bucket_inv_def empty_bucket_def)

lemma put_cases:
  assumes "put sha t body c = (c', r)" and "cache_inv sha c"
  obtains (known) "r = HandoffRef_of sha body" "c' = c" "stored c t r \<noteq> None"
    | (more) b where "r = HandoffRef_of sha body" "hc_buckets c t = Some b" "stored c t r = None"
        "c' = c\<lparr>hc_buckets := (hc_buckets c)(t \<mapsto> grown sha b body)\<rparr>"
    | (fresh) "r = HandoffRef_of sha body" "hc_buckets c t = None"
        "c' = (let k = Suc (length (hc_order c)) - MAX_TRACKED_TASKS; order = drop k (hc_order c @ [t])
               in \<lparr>hc_buckets = ((hc_buckets c)(t \<mapsto> grown sha empty_bucket body)) |` set order, hc_order = order\<rparr>)"
proof (cases "hc_buckets c t")
  case (Some b)
  show thesis
  proof (cases "tb_map b (HandoffRef_of sha body)")
    case None
    then have p: "put sha t body c = (c\<lparr>hc_buckets := (hc_buckets c)(t \<mapsto> grown sha b body)\<rparr>, HandoffRef_of sha body)"
      using Some by (simp add: put_def Let_def grown_def)
    show thesis by (rule more) (use p Some None assms(1) in \<open>simp_all add: stored_def\<close>)
  next
    case (Some x)
    with \<open>hc_buckets c t = Some b\<close> have p: "put sha t body c = (c, HandoffRef_of sha body)"
      by (simp add: put_def Let_def)
    show thesis by (rule known) (use p Some \<open>hc_buckets c t = Some b\<close> assms(1) in \<open>simp_all add: stored_def\<close>)
  qed
next
  case None
  let ?c = "c\<lparr>hc_buckets := (hc_buckets c)(t \<mapsto> grown sha empty_bucket body), hc_order := hc_order c @ [t]\<rparr>"
  have "t \<notin> set (hc_order c)" using assms(2) None by (auto simp: cache_inv_def)
  then have "distinct (hc_order ?c)" "set (hc_order ?c) = dom (hc_buckets ?c)"
    using assms(2) by (auto simp: cache_inv_def)
  note e = evict_tasks_eq [OF this]
  have p: "put sha t body c = (evict_tasks ?c, HandoffRef_of sha body)"
    using None by (simp add: put_def Let_def grown_def empty_bucket_def)
  show thesis
  proof (rule fresh)
    show "r = HandoffRef_of sha body" using p assms(1) by simp
    show "hc_buckets c t = None" by (rule None)
    show "c' = (let k = Suc (length (hc_order c)) - MAX_TRACKED_TASKS; order = drop k (hc_order c @ [t])
               in \<lparr>hc_buckets = ((hc_buckets c)(t \<mapsto> grown sha empty_bucket body)) |` set order, hc_order = order\<rparr>)"
      using p assms(1) e by (simp add: Let_def)
  qed
qed

lemma restricted_inv:
  assumes "distinct order" and "set order = dom m" and "length (drop k order) \<le> MAX_TRACKED_TASKS"
    and "\<And>t b. m t = Some b \<Longrightarrow> bucket_inv sha b \<and> bucket_bounded b"
  shows "cache_inv sha \<lparr>hc_buckets = m |` set (drop k order), hc_order = drop k order\<rparr>"
proof -
  have "set (drop k order) = dom (m |` set (drop k order))"
    using set_drop_subset [of k order] assms(2) by (auto simp: dom_restrict)
  moreover have "distinct (drop k order)" using assms(1) by simp
  ultimately show ?thesis using assms(3,4) by (auto simp: cache_inv_def restrict_map_def split: if_splits)
qed

lemma put_inv:
  assumes "put sha t body c = (c', r)" and "cache_inv sha c"
  shows "cache_inv sha c'"
  using assms
proof (cases rule: put_cases)
  case known
  then show ?thesis using assms(2) by simp
next
  case (more b)
  then have "bucket_inv sha (grown sha b body) \<and> bucket_bounded (grown sha b body)"
    using grown_inv assms(2) by (auto simp: cache_inv_def stored_def)
  then show ?thesis using assms(2) more by (auto simp: cache_inv_def)
next
  case fresh
  have g: "bucket_inv sha (grown sha empty_bucket body) \<and> bucket_bounded (grown sha empty_bucket body)"
    using grown_inv [OF empty_bucket_inv] by (simp add: empty_bucket_def)
  have "t \<notin> set (hc_order c)" using assms(2) fresh(2) by (auto simp: cache_inv_def)
  then have "distinct (hc_order c @ [t])" "set (hc_order c @ [t]) = dom ((hc_buckets c)(t \<mapsto> grown sha empty_bucket body))"
    using assms(2) by (auto simp: cache_inv_def)
  moreover have "length (drop (Suc (length (hc_order c)) - MAX_TRACKED_TASKS) (hc_order c @ [t])) \<le> MAX_TRACKED_TASKS"
    unfolding length_drop by simp
  ultimately show ?thesis
    unfolding fresh(3) Let_def by (rule restricted_inv) (use assms(2) g in \<open>auto simp: cache_inv_def split: if_splits\<close>)
qed

text \<open>After a put the body is there; the other tasks keep theirs, unless the table of tasks was full and the
  oldest of them had to go.\<close>

lemma put_stored:
  assumes "put sha t body c = (c', r)" and "cache_inv sha c"
  shows "r = HandoffRef_of sha body" "stored c' t r = (case stored c t r of None \<Rightarrow> Some body | Some b \<Rightarrow> Some b)"
proof -
  show "r = HandoffRef_of sha body" using assms by (cases rule: put_cases) auto
  show "stored c' t r = (case stored c t r of None \<Rightarrow> Some body | Some b \<Rightarrow> Some b)"
    using assms
  proof (cases rule: put_cases)
    case (more b)
    then show ?thesis using grown_inv assms(2) by (auto simp: cache_inv_def stored_def)
  next
    case fresh
    have "t \<in> set (drop (Suc (length (hc_order c)) - MAX_TRACKED_TASKS) (hc_order c @ [t]))"
      by (simp add: MAX_TRACKED_TASKS_def)
    then show ?thesis using fresh grown_inv [OF empty_bucket_inv] by (auto simp: stored_def Let_def empty_bucket_def)
  qed auto
qed

lemma put_isolates:
  assumes "put sha t body c = (c', r)" and "cache_inv sha c" and "u \<noteq> t"
  shows "stored c' u = stored c u \<or>
    hc_buckets c t = None \<and> length (hc_order c) = MAX_TRACKED_TASKS \<and> u = hd (hc_order c) \<and> stored c' u = Map.empty"
  using assms(1,2)
proof (cases rule: put_cases)
  case (more b)
  then show ?thesis using assms(3) by (simp add: stored_def)
next
  case fresh
  let ?k = "Suc (length (hc_order c)) - MAX_TRACKED_TASKS"
  have le: "length (hc_order c) \<le> MAX_TRACKED_TASKS" using assms(2) by (simp add: cache_inv_def)
  show ?thesis
  proof (cases "length (hc_order c) = MAX_TRACKED_TASKS")
    case False
    with le have "?k = 0" by simp
    moreover have "u \<in> set (hc_order c) \<or> hc_buckets c u = None" using assms(2) by (auto simp: cache_inv_def)
    ultimately show ?thesis using fresh assms(3) by (auto simp: stored_def Let_def restrict_map_def)
  next
    case True
    then obtain v vs where o: "hc_order c = v # vs" by (cases "hc_order c") (auto simp: MAX_TRACKED_TASKS_def)
    have "u \<in> set (hc_order c) \<or> hc_buckets c u = None" using assms(2) by (auto simp: cache_inv_def)
    then show ?thesis using True fresh assms(3) o by (auto simp: stored_def Let_def restrict_map_def)
  qed
qed auto

lemma purge_inv: "cache_inv sha c \<Longrightarrow> cache_inv sha (purge_task t c)"
  by (auto simp: cache_inv_def purge_task_def intro: le_trans [OF length_filter_le])

lemma purge_stored: "stored (purge_task t c) u = (if u = t then Map.empty else stored c u)"
  by (simp add: stored_def purge_task_def)

inductive cache_step :: "(u8 list \<Rightarrow> digest) \<Rightarrow> HandoffCache \<Rightarrow> HandoffCache \<Rightarrow> bool" for sha where
  step_put: "put sha t body c = (c', r) \<Longrightarrow> cache_step sha c c'"
| step_purge: "cache_step sha c (purge_task t c)"

lemma cache_step_inv: "cache_step sha c c' \<Longrightarrow> cache_inv sha c \<Longrightarrow> cache_inv sha c'"
  by (induction rule: cache_step.induct) (auto intro: put_inv purge_inv)

lemma reachable_cache_inv: "(cache_step sha)\<^sup>*\<^sup>* HandoffCache_new c \<Longrightarrow> cache_inv sha c"
proof (induction rule: rtranclp_induct)
  case base
  show ?case by (simp add: cache_inv_def HandoffCache_new_def)
qed (rule cache_step_inv)

section \<open>Reading a body back\<close>

text \<open>A reader that asks for pages of \<open>len\<close> bytes until the end is flagged; \<open>n\<close> bounds the number of pages.\<close>

fun read_pages :: "(nat \<Rightarrow> nat \<Rightarrow> Slice option) \<Rightarrow> nat \<Rightarrow> nat \<Rightarrow> nat \<Rightarrow> u8 list option" where
  "read_pages sl len 0 off = None"
| "read_pages sl len (Suc n) off =
     (case sl off len of
        None \<Rightarrow> None
      | Some p \<Rightarrow>
          (if sl_eof p then Some (sl_bytes p)
           else map_option (\<lambda>rest. sl_bytes p @ rest) (read_pages sl len n (off + len))))"

text \<open>The contract of a store that hands out a body page by page.\<close>

locale paged_store =
  fixes lookup :: "'s \<Rightarrow> 'k \<rightharpoonup> u8 list"
    and pg :: "'s \<Rightarrow> 'k \<Rightarrow> nat \<Rightarrow> nat \<Rightarrow> Slice option"
  assumes slice_none: "lookup s k = None \<Longrightarrow> pg s k off len = None"
    and slice_some: "lookup s k = Some b \<Longrightarrow> length b \<le> USIZE_MAX \<Longrightarrow>
      pg s k off len = Some \<lparr>sl_bytes = take len (drop off b), sl_eof = (length b \<le> off + len)\<rparr>"
begin

lemma pages_reassemble:
  assumes "lookup s k = Some b" and "length b \<le> USIZE_MAX" and "0 < len" and "length b \<le> off + n * len" and "0 < n"
  shows "read_pages (pg s k) len n off = Some (drop off b)"
  using assms(4,5)
proof (induction n arbitrary: off)
  case 0
  then show ?case by simp
next
  case (Suc n)
  show ?case
  proof (cases "length b \<le> off + len")
    case True
    then show ?thesis using slice_some [OF assms(1,2)] by simp
  next
    case False
    then have "0 < n" using Suc.prems(1) by (cases n) auto
    then have "read_pages (pg s k) len n (off + len) = Some (drop (off + len) b)"
      using Suc.prems(1) by (intro Suc.IH) (auto simp: algebra_simps)
    moreover have "take len (drop off b) @ drop (off + len) b = drop off b"
      by (metis add.commute append_take_drop_id drop_drop)
    ultimately show ?thesis using False slice_some [OF assms(1,2), of off len] by simp
  qed
qed

lemma unknown_reads_nothing: "lookup s k = None \<Longrightarrow> read_pages (pg s k) len n off = None"
  by (cases n) (simp_all add: slice_none)

end

interpretation handoff: paged_store "\<lambda>c k. stored c (fst k) (snd k)" "\<lambda>c k off len. get_slice (fst k) (snd k) off len c"
proof
  fix c k off len
  assume "stored c (fst k) (snd k) = None"
  then show "get_slice (fst k) (snd k) off len c = None"
    by (auto simp: stored_def get_slice_def split: option.splits)
next
  fix c k b off len
  assume s: "stored c (fst k) (snd k) = Some b" and l: "length b \<le> USIZE_MAX"
  have e: "min (sat_add off len) (length b) = min (off + len) (length b)" using l by (simp add: sat_add_def min_def)
  have "take (min (off + len) (length b) - min off (length b)) (drop (min off (length b)) b) = take len (drop off b)"
    by (cases "off \<le> length b") (auto simp: min_def)
  moreover have "length b \<le> min (off + len) (length b) \<longleftrightarrow> length b \<le> off + len" by auto
  ultimately show "get_slice (fst k) (snd k) off len c =
      Some \<lparr>sl_bytes = take len (drop off b), sl_eof = (length b \<le> off + len)\<rparr>"
  proof -
    assume t: "take (min (off + len) (length b) - min off (length b)) (drop (min off (length b)) b) = take len (drop off b)"
      and f: "length b \<le> min (off + len) (length b) \<longleftrightarrow> length b \<le> off + len"
    from s obtain bucket where "hc_buckets c (fst k) = Some bucket" "tb_map bucket (snd k) = Some b"
      by (auto simp: stored_def split: option.splits)
    then have "get_slice (fst k) (snd k) off len c =
        Some \<lparr>sl_bytes = take (min (off + len) (length b) - min off (length b)) (drop (min off (length b)) b),
              sl_eof = (length b \<le> min (off + len) (length b))\<rparr>"
      by (simp only: get_slice_def option.case Let_def e)
    then show ?thesis unfolding t f .
  qed
qed

section \<open>Placeholders\<close>

lemma hex2_length: "length (hex2 b) = 2"
  by (simp add: hex2_def)

lemma HandoffRef_of_parses:
  assumes "length (sha body) = 32"
  shows "HandoffRef_parse (HandoffRef_of sha body) = Some (HandoffRef_of sha body)"
proof -
  have "length (concat (map hex2 bs)) = 2 * length bs" for bs by (induction bs) (simp_all add: hex2_length)
  moreover have "list_all is_lower_hex (concat (map hex2 bs))" for bs by (induction bs) (simp_all add: hex2_lower)
  ultimately show ?thesis
    using assms by (simp add: HandoffRef_parse_def HandoffRef_of_def strip_prefix_def)
qed

lemma placeholder_names_ref:
  assumes "length (sha body) = 32"
  shows "placeholder_ref (build_handoff_placeholder v (HandoffRef_of sha body) n) = Some (HandoffRef_of sha body)"
  using HandoffRef_of_parses [of sha body, OF assms] by (simp add: placeholder_ref_def build_handoff_placeholder_def)

lemma bytes_str_str_bytes [simp]: "bytes_str (str_bytes s) = s"
proof -
  have "char_of (unat (of_nat (code c) :: u8)) = c" for c
  proof -
    have "unat (of_nat (code c) :: u8) = code c" by (simp add: unat_of_nat code_less_256)
    then show ?thesis by (simp add: code_def)
  qed
  then show ?thesis by (induction s) (simp_all add: bytes_str_def str_bytes_def)
qed

end
