(* ===== verification/Tool_Dispatch.thy ===== *)
theory Tool_Dispatch
  imports Handoff
begin

text \<open>
  \<^verbatim>\<open>core/src/tool_host.rs\<close> (\<open>dispatch_with_sink\<close>) with \<^verbatim>\<open>tool_host/{secret_scrub,post_process,egress_provision,injection_placeholder}.rs\<close>
  and \<^verbatim>\<open>egress/leak_provision.rs\<close>: the one place a worker is called. References are redeemed, the
  egress scanner is told their fingerprints, the worker is called, and what it answers is scrubbed
  and screened before anyone sees it.

  The trace records the audit rows in the order their inserts are attempted and the call to the
  worker. An insert that fails is logged and nothing else, so the rows stand for attempts. The
  worker, the guard model, the sidecar's disk and the clock are the fields of \<open>DispatchEnv\<close>; the
  clock is read where the source reads it, and the number of readings is part of the state.
\<close>

section \<open>Errors of a call\<close>

record RpcError =
  rpc_code :: int
  rpc_message :: rstr
  rpc_data :: "json option"

datatype ClientError =
    ClientIo rstr
  | ClientDecode rstr
  | EarlyExit
  | ResponseTooLarge nat
  | IdMismatch json json
  | Rpc RpcError

datatype ToolHostError =
    SandboxErr rstr
  | IoErr rstr
  | Protocol ClientError
  | SecretRedemptionFailed SubstituteError
  | EgressProvisionFailed rstr

definition show_int :: "int \<Rightarrow> rstr" where
  "show_int i = (if i < 0 then ''-'' @ show_nat (nat (- i)) else show_nat (nat i))"

text \<open>\<open>dbg\<close> is the \<^verbatim>\<open>Debug\<close> printer of \<^verbatim>\<open>serde_json::Value\<close>.\<close>

fun show_client_error :: "(json \<Rightarrow> rstr) \<Rightarrow> ClientError \<Rightarrow> rstr" where
  "show_client_error dbg (ClientIo e) = ''io: '' @ e"
| "show_client_error dbg (ClientDecode e) = ''decode: '' @ e"
| "show_client_error dbg EarlyExit = ''worker exited before responding''"
| "show_client_error dbg (ResponseTooLarge cap) =
     ''worker response exceeded the '' @ show_nat cap @ ''-byte record cap''"
| "show_client_error dbg (IdMismatch expected got) =
     ''response id '' @ dbg got @ '' does not match request id '' @ dbg expected"
| "show_client_error dbg (Rpc e) = ''jsonrpc error '' @ show_int (rpc_code e) @ '': '' @ rpc_message e"

section \<open>The world around a dispatch\<close>

text \<open>The router's errors (\<^verbatim>\<open>llm-router/src/error.rs\<close>); of a transport error, whether it is a timeout and whether it happened
  while connecting.\<close>

datatype GuardRouterError =
    ConfigError rstr
  | TransportError bool bool
  | HttpStatusError nat rstr
  | DecodeResponseError rstr rstr
  | DecodePropsError rstr rstr
  | PolicyDeniedFrontier rstr
  | EmbeddingCountMismatch nat nat
  | BodyTooLarge nat

datatype GuardErrorKind =
  KindTimeout | KindConnect | KindConnectTimeout | KindTransport | KindHttpStatus | KindDecode | KindConfig | KindOther

fun classify_transport :: "bool \<Rightarrow> bool \<Rightarrow> GuardErrorKind" where
  "classify_transport True True = KindConnectTimeout"
| "classify_transport True False = KindTimeout"
| "classify_transport False True = KindConnect"
| "classify_transport False False = KindTransport"

fun classify_router_error :: "GuardRouterError \<Rightarrow> GuardErrorKind" where
  "classify_router_error (TransportError is_timeout is_connect) = classify_transport is_timeout is_connect"
| "classify_router_error (HttpStatusError status body) = KindHttpStatus"
| "classify_router_error (DecodeResponseError source body) = KindDecode"
| "classify_router_error (DecodePropsError source body) = KindDecode"
| "classify_router_error (ConfigError e) = KindConfig"
| "classify_router_error (PolicyDeniedFrontier e) = KindOther"
| "classify_router_error (EmbeddingCountMismatch requested returned) = KindOther"
| "classify_router_error (BodyTooLarge cap) = KindOther"

record GuardTier =
  gt_tau :: f32
  gt_probability :: "rstr \<Rightarrow> GuardRouterError + f32 option"
  gt_ms :: "rstr \<Rightarrow> nat"

record GuardReport =
  gp_outcome :: GuardOutcome
  gp_p :: "f32 option"
  gp_tau :: f32
  gp_ms :: nat
  gp_body_byte_len :: nat
  gp_truncated :: bool
  gp_error_kind :: "GuardErrorKind option"

text \<open>\<open>de_egress\<close> is \<open>None\<close> for a worker without a sidecar; otherwise it says whether writing the sidecar's
  fingerprint file fails. \<open>de_score\<close> and \<open>de_f32\<close> print the scores.\<close>

record DispatchEnv =
  de_sha :: "u8 list \<Rightarrow> digest"
  de_lower :: "rstr \<Rightarrow> rstr"
  de_order :: "nat list \<Rightarrow> nat list"
  de_clk :: "nat \<Rightarrow> nat"
  de_worker :: "rstr \<Rightarrow> json \<Rightarrow> ClientError + json"
  de_guard :: "GuardTier option"
  de_egress :: "rstr option option"
  de_dbg :: "json \<Rightarrow> rstr"
  de_score :: "nat \<Rightarrow> json"
  de_f32 :: "f32 \<Rightarrow> json"

datatype DispatchEvent = Row rstr rstr json | CallWorker rstr json

record DispatchState =
  ds_vault :: Vault
  ds_tick :: nat
  ds_hashes :: "SecretFingerprint list"
  ds_trace :: "DispatchEvent list"

definition log_event :: "DispatchEvent \<Rightarrow> DispatchState \<Rightarrow> DispatchState" where
  "log_event ev st = st\<lparr>ds_trace := ds_trace st @ [ev]\<rparr>"

text \<open>Milliseconds since the reading \<open>t0\<close>, with the reading made for it.\<close>

definition elapsed :: "DispatchEnv \<Rightarrow> nat \<Rightarrow> DispatchState \<Rightarrow> DispatchState \<times> nat" where
  "elapsed env t0 st = (st\<lparr>ds_tick := Suc (ds_tick st)\<rparr>, (de_clk env (ds_tick st) - t0) div 1000000)"

text \<open>\<^verbatim>\<open>json!\<close>: the entries in key order.\<close>

definition jobj :: "(rstr \<times> json) list \<Rightarrow> json" where
  "jobj kvs = JObj (foldl (\<lambda>m kv. obj_insert (fst kv) (snd kv) m) [] kvs)"

section \<open>Fingerprints of the redeemed secrets\<close>

text \<open>Each reference of the request is looked up under a clock reading of its own.\<close>

definition lookups :: "DispatchEnv \<Rightarrow> json \<Rightarrow> DispatchState \<Rightarrow> (rstr \<times> SecretFingerprint option) list" where
  "lookups env req st =
     map (\<lambda>(i, r). (r, value_fingerprint (de_sha env) (de_clk env (ds_tick st + i)) r (ds_vault st)))
       (enumerate 0 (collect_refs_in_params (de_sha env) req))"

definition after_lookups :: "DispatchEnv \<Rightarrow> json \<Rightarrow> DispatchState \<Rightarrow> DispatchState" where
  "after_lookups env req st =
     st\<lparr>ds_tick := ds_tick st + length (collect_refs_in_params (de_sha env) req)\<rparr>"

definition fingerprints_for_dispatch :: "DispatchEnv \<Rightarrow> json \<Rightarrow> DispatchState \<Rightarrow> DispatchState \<times> SecretFingerprint list" where
  "fingerprints_for_dispatch env req st =
     (after_lookups env req st, List.map_filter snd (lookups env req st))"

section \<open>Provisioning the egress scanner\<close>

record ProvisionedSecret =
  ps_ref_hash :: rstr
  ps_fp :: SecretFingerprint

datatype Provision = Noop | Added "ProvisionedSecret list" | ProvisionFailed nat rstr

fun merge_new :: "digest list \<Rightarrow> SecretFingerprint list \<Rightarrow> SecretFingerprint list" where
  "merge_new have_shas [] = []"
| "merge_new have_shas (fp # fps) =
     (if fp_sha256 fp \<in> set have_shas then merge_new have_shas fps
      else fp # merge_new (fp_sha256 fp # have_shas) fps)"

text \<open>\<^verbatim>\<open>merge_secret_hashes\<close> on the fingerprints the file holds; the file is written only when something is new.\<close>

definition merge_secret_hashes ::
    "rstr option \<Rightarrow> SecretFingerprint list \<Rightarrow> SecretFingerprint list \<Rightarrow>
     SecretFingerprint list \<times> (rstr + SecretFingerprint list)" where
  "merge_secret_hashes write_err existing new =
     (let added = merge_new (map fp_sha256 existing) new in
      if added = [] then (existing, Ok [])
      else case write_err of
             Some e \<Rightarrow> (existing, Err e)
           | None \<Rightarrow> (existing @ added, Ok added))"

fun select_provisioned_rows :: "digest list \<Rightarrow> digest list \<Rightarrow> ProvisionedSecret list \<Rightarrow> ProvisionedSecret list" where
  "select_provisioned_rows added_sha seen [] = []"
| "select_provisioned_rows added_sha seen (p # ps) =
     (if fp_sha256 (ps_fp p) \<in> set added_sha \<and> fp_sha256 (ps_fp p) \<notin> set seen
      then p # select_provisioned_rows added_sha (fp_sha256 (ps_fp p) # seen) ps
      else select_provisioned_rows added_sha seen ps)"

definition compute_provision :: "DispatchEnv \<Rightarrow> json \<Rightarrow> DispatchState \<Rightarrow> DispatchState \<times> Provision" where
  "compute_provision env req st =
     (case de_egress env of
        None \<Rightarrow> (st, Noop)
      | Some write_err \<Rightarrow>
          (let pairs = List.map_filter
                 (\<lambda>(r, f). map_option (\<lambda>fp. \<lparr>ps_ref_hash = ref_hash (de_sha env) r, ps_fp = fp\<rparr>) f) (lookups env req st);
               st = after_lookups env req st
           in if pairs = [] then (st, Noop)
              else
                (let fps = map ps_fp pairs in
                 case merge_secret_hashes write_err (ds_hashes st) fps of
                   (hashes, Inr added) \<Rightarrow>
                     (st\<lparr>ds_hashes := hashes\<rparr>, Added (select_provisioned_rows (map fp_sha256 added) [] pairs))
                 | (hashes, Inl e) \<Rightarrow> (st\<lparr>ds_hashes := hashes\<rparr>, ProvisionFailed (length fps) e))))"

definition provision_audit_row :: "rstr \<Rightarrow> rstr \<Rightarrow> SecretFingerprint \<Rightarrow> DispatchEvent" where
  "provision_audit_row worker name fp =
     Row ''egress_proxy'' ''egress.secret_hash.provisioned''
       (jobj [(''worker'', JStr worker), (''name'', JStr name), (''value_sha256'', JStr (sha256_hex (fp_sha256 fp)))])"

definition provision_failed_audit_row :: "rstr \<Rightarrow> nat \<Rightarrow> rstr \<Rightarrow> DispatchEvent" where
  "provision_failed_audit_row worker pending err =
     Row ''egress_proxy'' ''egress.secret_hash.provision_failed''
       (jobj [(''worker'', JStr worker), (''pending'', JInt (int pending)), (''error'', JStr err)])"

definition emit_provision :: "rstr \<Rightarrow> Provision \<Rightarrow> DispatchState \<Rightarrow> DispatchState \<times> (ToolHostError + unit)" where
  "emit_provision tool provision st =
     (case provision of
        Noop \<Rightarrow> (st, Ok ())
      | Added ps \<Rightarrow> (fold (\<lambda>p. log_event (provision_audit_row tool (ps_ref_hash p) (ps_fp p))) ps st, Ok ())
      | ProvisionFailed pending err \<Rightarrow>
          (log_event (provision_failed_audit_row tool pending err) st, Err (EgressProvisionFailed err)))"

section \<open>Scrubbing the answer\<close>

definition scrub_string ::
    "DispatchEnv \<Rightarrow> SecretFingerprint list \<Rightarrow> rstr \<Rightarrow> rstr \<times> RedactHit list" where
  "scrub_string env fps s =
     (let outcome = redact (de_sha env) (de_order env) (str_bytes s) fps in
      if ro_hits outcome = [] then (s, [])
      else ((case from_utf8 (ro_bytes outcome) of
               Some t \<Rightarrow> t
             | None \<Rightarrow> from_utf8_lossy (bytes_str (ro_bytes outcome))), ro_hits outcome))"

fun scrub_value :: "DispatchEnv \<Rightarrow> SecretFingerprint list \<Rightarrow> json \<Rightarrow> json \<times> RedactHit list" where
  "scrub_value env fps (JStr s) = (JStr (fst (scrub_string env fps s)), snd (scrub_string env fps s))"
| "scrub_value env fps (JArr a) =
     (JArr (map (\<lambda>e. fst (scrub_value env fps e)) a), concat (map (\<lambda>e. snd (scrub_value env fps e)) a))"
| "scrub_value env fps (JObj kvs) =
     (JObj (map (\<lambda>kv. (fst kv, fst (scrub_value env fps (snd kv)))) kvs),
      concat (map (\<lambda>kv. snd (scrub_value env fps (snd kv))) kvs))"
| "scrub_value env fps v = (v, [])"

fun scrub_client_error :: "DispatchEnv \<Rightarrow> SecretFingerprint list \<Rightarrow> ClientError \<Rightarrow> ClientError \<times> RedactHit list" where
  "scrub_client_error env fps (Rpc e) =
     (let m = scrub_string env fps (rpc_message e);
          d = map_option (scrub_value env fps) (rpc_data e)
      in (Rpc (e\<lparr>rpc_message := fst m, rpc_data := map_option fst d\<rparr>),
          snd m @ (case d of None \<Rightarrow> [] | Some x \<Rightarrow> snd x)))"
| "scrub_client_error env fps (IdMismatch expected got) =
     (IdMismatch expected (fst (scrub_value env fps got)), snd (scrub_value env fps got))"
| "scrub_client_error env fps e = (e, [])"

definition emit_scrub_audit :: "rstr \<Rightarrow> RedactHit list \<Rightarrow> DispatchState \<Rightarrow> DispatchState" where
  "emit_scrub_audit tool hits st =
     (if hits = [] then st
      else log_event (Row ''policy'' ''secret.output_scrubbed''
             (jobj [(''tool'', JStr tool), (''count'', JInt (int (length hits))),
                    (''hits'', JArr (map (\<lambda>h. jobj [(''sha256_hex'', JStr (rh_sha256_hex h)),
                       (''offset'', JInt (int (rh_offset h))), (''len'', JInt (int (rh_len h)))]) hits))])) st)"

section \<open>Screening the answer\<close>

definition TIER_CATALOGUE :: rstr where "TIER_CATALOGUE = ''catalogue''"
definition TIER_GUARD_MODEL :: rstr where "TIER_GUARD_MODEL = ''guard_model''"
definition FORGED_MARKER_REASON :: rstr where "FORGED_MARKER_REASON = ''forged_withheld_marker''"
definition WITHHELD_NOTE :: rstr where "WITHHELD_NOTE = ''[tool output withheld: failed injection screen]''"

definition injection_blocked_placeholder :: "json \<Rightarrow> rstr list \<Rightarrow> json" where
  "injection_blocked_placeholder score codes =
     jobj [(INJECTION_BLOCKED_KEY, JBool True), (''note'', JStr WITHHELD_NOTE), (SCORE_KEY, score),
           (REASON_CODES_KEY, JArr (map JStr codes))]"

definition carries_withheld_marker :: "json \<Rightarrow> bool" where
  "carries_withheld_marker v \<longleftrightarrow> json_get v INJECTION_BLOCKED_KEY \<noteq> None"

record BlockedMeta =
  bm_tier :: rstr
  bm_verdict :: InjectionVerdict
  bm_body :: rstr
  bm_truncated :: bool

record ScreenOutcome =
  sco_value :: json
  sco_blocked :: "BlockedMeta option"
  sco_guard :: "GuardReport option"

definition adjudicate_document :: "GuardTier \<Rightarrow> rstr \<Rightarrow> bool \<Rightarrow> GuardReport" where
  "adjudicate_document tier body truncated =
     (case (case gt_probability tier body of
              Inr raw \<Rightarrow> (fst (outcome_and_score raw (gt_tau tier)), snd (outcome_and_score raw (gt_tau tier)), None)
            | Inl e \<Rightarrow> (resolve ReadFailed, None, Some (classify_router_error e))) of
        (outcome, p, kind) \<Rightarrow>
          \<lparr>gp_outcome = outcome, gp_p = p, gp_tau = gt_tau tier, gp_ms = gt_ms tier body,
           gp_body_byte_len = length body, gp_truncated = truncated, gp_error_kind = kind\<rparr>)"

definition no_scannable_text :: "GuardTier \<Rightarrow> GuardReport" where
  "no_scannable_text tier =
     \<lparr>gp_outcome = AllowUnadjudicated NoScannableText, gp_p = None, gp_tau = gt_tau tier, gp_ms = 0,
      gp_body_byte_len = 0, gp_truncated = False, gp_error_kind = None\<rparr>"

definition screen_result :: "DispatchEnv \<Rightarrow> rstr \<Rightarrow> json \<Rightarrow> ScreenOutcome" where
  "screen_result env tool v =
     (case extract_scannable_text v SCAN_BYTE_CAP of (body, truncated) \<Rightarrow>
        (let verdict0 = screen_with_profile (de_lower env) body (for_tool tool);
             verdict = (if carries_withheld_marker v
                        then verdict0\<lparr>iv_decision := BlockOutput, iv_reason_codes := iv_reason_codes verdict0 @ [FORGED_MARKER_REASON]\<rparr>
                        else verdict0)
         in if iv_decision verdict = BlockOutput
            then \<lparr>sco_value = injection_blocked_placeholder (de_score env (iv_score verdict)) (iv_reason_codes verdict),
                  sco_blocked = Some \<lparr>bm_tier = TIER_CATALOGUE, bm_verdict = verdict, bm_body = body, bm_truncated = truncated\<rparr>,
                  sco_guard = None\<rparr>
            else
              (case de_guard env of
                 None \<Rightarrow> \<lparr>sco_value = v, sco_blocked = None, sco_guard = None\<rparr>
               | Some tier \<Rightarrow>
                   (if body = [] then \<lparr>sco_value = v, sco_blocked = None, sco_guard = Some (no_scannable_text tier)\<rparr>
                    else
                      (let report = adjudicate_document tier body truncated in
                       if blocks (gp_outcome report)
                       then \<lparr>sco_value = injection_blocked_placeholder
                               (de_f32 env (case gp_p report of Some p \<Rightarrow> p | None \<Rightarrow> f32_one)) [TIER_GUARD_MODEL],
                             sco_blocked = Some \<lparr>bm_tier = TIER_GUARD_MODEL, bm_verdict = verdict, bm_body = body, bm_truncated = truncated\<rparr>,
                             sco_guard = Some report\<rparr>
                       else \<lparr>sco_value = v, sco_blocked = None, sco_guard = Some report\<rparr>)))))"

section \<open>The rows of a finished call\<close>

fun unadjudicated_str :: "Unadjudicated \<Rightarrow> rstr" where
  "unadjudicated_str NotConfigured = ''not_configured''"
| "unadjudicated_str UnmeasuredVerdict = ''unmeasured''"
| "unadjudicated_str RouterError = ''router_error''"
| "unadjudicated_str NoScannableText = ''no_scannable_text''"

fun guard_outcome_str :: "GuardOutcome \<Rightarrow> rstr" where
  "guard_outcome_str GuardBlock = ''flagged''"
| "guard_outcome_str GuardAllow = ''clear''"
| "guard_outcome_str (AllowUnadjudicated reason) = unadjudicated_str reason"

fun error_kind_str :: "GuardErrorKind \<Rightarrow> rstr" where
  "error_kind_str KindTimeout = ''timeout''"
| "error_kind_str KindConnect = ''connect''"
| "error_kind_str KindConnectTimeout = ''connect_timeout''"
| "error_kind_str KindTransport = ''transport''"
| "error_kind_str KindHttpStatus = ''http_status''"
| "error_kind_str KindDecode = ''decode''"
| "error_kind_str KindConfig = ''config''"
| "error_kind_str KindOther = ''other''"

definition opt_json :: "('a \<Rightarrow> json) \<Rightarrow> 'a option \<Rightarrow> json" where
  "opt_json f x = (case x of None \<Rightarrow> JNull | Some y \<Rightarrow> f y)"

definition guard_audit_value :: "DispatchEnv \<Rightarrow> GuardReport \<Rightarrow> json" where
  "guard_audit_value env r =
     jobj [(''state'', JStr (guard_outcome_str (gp_outcome r))), (''p'', opt_json (de_f32 env) (gp_p r)),
           (''tau'', de_f32 env (gp_tau r)), (''ms'', JInt (int (gp_ms r))),
           (''body_byte_len'', JInt (int (gp_body_byte_len r))), (''truncated'', JBool (gp_truncated r)),
           (''error_kind'', opt_json (\<lambda>k. JStr (error_kind_str k)) (gp_error_kind r))]"

definition build_tool_audit_payload :: "json \<Rightarrow> rstr + json \<Rightarrow> json option \<Rightarrow> nat \<Rightarrow> json" where
  "build_tool_audit_payload req outcome guard ms =
     jobj ([(''req'', req), (''ms'', JInt (int ms))] @
       (case outcome of Inr v \<Rightarrow> [(''result'', v)] | Inl text \<Rightarrow> [(''err'', JStr text)]) @
       (case guard of None \<Rightarrow> [] | Some g \<Rightarrow> [(''guard'', g)]))"

definition redeemed_row :: "rstr \<Rightarrow> rstr \<Rightarrow> nat \<Rightarrow> RedemptionEvent \<Rightarrow> DispatchEvent" where
  "redeemed_row tool meth ms ev =
     Row ''policy'' ''secret.redeemed''
       (jobj [(''tool'', JStr tool), (''method'', JStr meth), (''ref_hash'', JStr (re_ref_hash ev)), (''ms'', JInt (int ms))])"

definition blocked_row :: "DispatchEnv \<Rightarrow> rstr \<Rightarrow> rstr \<Rightarrow> BlockedMeta \<Rightarrow> GuardReport option \<Rightarrow> DispatchEvent" where
  "blocked_row env tool meth meta guard =
     Row ''policy'' ''injection.blocked''
       (jobj ([(''tool'', JStr tool), (''method'', JStr meth), (''score'', de_score env (iv_score (bm_verdict meta))),
          (''decision'', JStr ''block''), (''tier'', JStr (bm_tier meta)),
          (''reason_codes'', JArr (map JStr (iv_reason_codes (bm_verdict meta)))),
          (''body_sha256'', JStr (sha256_hex (de_sha env (str_bytes (bm_body meta))))),
          (''body_byte_len'', JInt (int (length (bm_body meta)))), (''body_truncated_at_64kib'', JBool (bm_truncated meta))] @
          (case guard of
             None \<Rightarrow> []
           | Some r \<Rightarrow> [(''p'', opt_json (de_f32 env) (gp_p r)), (''tau'', de_f32 env (gp_tau r))])))"

definition finalize ::
    "DispatchEnv \<Rightarrow> rstr \<Rightarrow> rstr \<Rightarrow> json \<Rightarrow> RedemptionEvent list \<Rightarrow> ClientError + json \<Rightarrow> nat \<Rightarrow>
     DispatchState \<Rightarrow> DispatchState \<times> (ToolHostError + json)" where
  "finalize env tool meth req evs call_result ms st =
     (case fingerprints_for_dispatch env req st of (st1, fps) \<Rightarrow>
        (case (case call_result of
                 Inr v \<Rightarrow>
                   (let r = (if fps \<noteq> [] then scrub_value env fps v else (v, []));
                        outcome = screen_result env tool (fst r)
                    in (emit_scrub_audit tool (snd r) st1, Inr (sco_value outcome), sco_blocked outcome, sco_guard outcome))
               | Inl e \<Rightarrow>
                   (let r = (if fps \<noteq> [] then scrub_client_error env fps e else (e, []))
                    in (emit_scrub_audit tool (snd r) st1, Inl (fst r), None, None))) of
           (st2, final_result, blocked_meta, guard_report) \<Rightarrow>
             (let payload = (case final_result of
                               Inr v \<Rightarrow> build_tool_audit_payload req (Inr v) (map_option (guard_audit_value env) guard_report) ms
                             | Inl e \<Rightarrow> build_tool_audit_payload req (Inl (show_client_error (de_dbg env) e)) None ms);
                  st3 = fold (\<lambda>ev. log_event (redeemed_row tool meth ms ev)) evs st2;
                  st4 = log_event (Row (''tool:'' @ tool) meth payload) st3;
                  st5 = (case blocked_meta of
                           None \<Rightarrow> st4
                         | Some meta \<Rightarrow> log_event (blocked_row env tool meth meta guard_report) st4)
              in (st5, (case final_result of Inr v \<Rightarrow> Ok v | Inl e \<Rightarrow> Err (Protocol e))))))"

section \<open>The dispatch\<close>

definition failed_redemption_row :: "rstr \<Rightarrow> rstr \<Rightarrow> SubstituteError \<Rightarrow> nat \<Rightarrow> DispatchEvent" where
  "failed_redemption_row tool meth e ms =
     (case (case e of
              MissingRef h reason \<Rightarrow> (h, missing_reason_str reason)
            | PlaintextNotUtf8 h \<Rightarrow> (h, ''plaintext_not_utf8'')) of
        (h, reason) \<Rightarrow>
          Row ''policy'' ''secret.redemption_failed''
            (jobj [(''tool'', JStr tool), (''method'', JStr meth), (''ref_hash'', JStr h),
                   (''reason'', JStr reason), (''ms'', JInt (int ms))]))"

definition call_and_finalize ::
    "DispatchEnv \<Rightarrow> rstr \<Rightarrow> rstr \<Rightarrow> json \<Rightarrow> json \<Rightarrow> RedemptionEvent list \<Rightarrow> nat \<Rightarrow>
     DispatchState \<Rightarrow> DispatchState \<times> (ToolHostError + json)" where
  "call_and_finalize env tool meth req params evs started st =
     (let st1 = log_event (CallWorker meth params) st;
          call_result = de_worker env meth params
      in case elapsed env started st1 of
           (st2, ms) \<Rightarrow> finalize env tool meth req evs call_result ms st2)"

definition dispatch_with_sink ::
    "DispatchEnv \<Rightarrow> rstr \<Rightarrow> rstr \<Rightarrow> json \<Rightarrow> DispatchState \<Rightarrow> DispatchState \<times> (ToolHostError + json)" where
  "dispatch_with_sink env tool meth params st =
     (let started = de_clk env (ds_tick st) in
      case substitute_refs_in_params (de_sha env) (vault_redeem (de_clk env)) params (ds_vault st, Suc (ds_tick st)) of
        ((v, n), params', Inl e) \<Rightarrow>
          (case elapsed env started (st\<lparr>ds_vault := v, ds_tick := n\<rparr>) of
             (st1, ms) \<Rightarrow> (log_event (failed_redemption_row tool meth e ms) st1, Err (SecretRedemptionFailed e)))
      | ((v, n), params', Inr evs) \<Rightarrow>
          (case compute_provision env params (st\<lparr>ds_vault := v, ds_tick := n\<rparr>) of
             (st1, provision) \<Rightarrow>
               (case emit_provision tool provision st1 of
                  (st2, Inl e) \<Rightarrow> (st2, Err e)
                | (st2, Inr _) \<Rightarrow> call_and_finalize env tool meth params params' evs started st2)))"

section \<open>Objects\<close>

lemma map_of_obj_insert [simp]: "map_of (obj_insert k v kvs) = (map_of kvs)(k \<mapsto> v)"
  by (induction k v kvs rule: obj_insert.induct) auto

lemma map_of_fold_obj_insert:
  "map_of (foldl (\<lambda>m kv. obj_insert (fst kv) (snd kv) m) acc kvs) = map_of acc ++ map_of (rev kvs)"
  by (induction kvs arbitrary: acc) (auto simp: map_add_def fun_eq_iff split: option.splits)

lemma json_get_jobj: "json_get (jobj kvs) k = map_of (rev kvs) k"
  by (simp add: jobj_def map_of_fold_obj_insert)

lemma payload_fields:
  "json_get (build_tool_audit_payload req outcome guard ms) ''req'' = Some req"
  "json_get (build_tool_audit_payload req (Inr v) guard ms) ''result'' = Some v"
  "json_get (build_tool_audit_payload req (Inl t) guard ms) ''result'' = None"
  by (auto simp: build_tool_audit_payload_def json_get_jobj split: sum.splits option.splits)

section \<open>The calls of a trace\<close>

fun calls :: "DispatchEvent list \<Rightarrow> (rstr \<times> json) list" where
  "calls [] = []"
| "calls (CallWorker m p # evs) = (m, p) # calls evs"
| "calls (Row a act p # evs) = calls evs"

lemma calls_append [simp]: "calls (xs @ ys) = calls xs @ calls ys"
  by (induction xs rule: calls.induct) auto

definition rows_only :: "DispatchState \<Rightarrow> DispatchState \<Rightarrow> bool" where
  "rows_only st st' \<longleftrightarrow> (\<exists>evs. ds_trace st' = ds_trace st @ evs \<and> calls evs = [])"

lemma rows_only_refl [simp]: "rows_only st st"
  by (simp add: rows_only_def)

lemma rows_only_trans: "rows_only a b \<Longrightarrow> rows_only b c \<Longrightarrow> rows_only a c"
  unfolding rows_only_def by (metis append.assoc append_Nil calls_append)

lemma rows_only_log [simp]: "rows_only st (log_event (Row a act p) st)"
  by (simp add: rows_only_def log_event_def)

lemma rows_only_fold:
  "(\<And>x. \<exists>a act p. f x = Row a act p) \<Longrightarrow> rows_only st (fold (\<lambda>x. log_event (f x)) xs st)"
proof (induction xs arbitrary: st)
  case (Cons x xs)
  obtain a act p where "f x = Row a act p" using Cons.prems by blast
  then have "rows_only st (log_event (f x) st)" by simp
  then show ?case using Cons.IH [OF Cons.prems] rows_only_trans by simp
qed simp

lemma rows_only_calls: "rows_only st st' \<Longrightarrow> calls (ds_trace st') = calls (ds_trace st)"
  by (auto simp: rows_only_def)

lemma rows_only_same_trace: "ds_trace st' = ds_trace st \<Longrightarrow> rows_only st st'"
  by (simp add: rows_only_def)

lemma emit_provision_rows: "emit_provision tool p st = (st', r) \<Longrightarrow> rows_only st st'"
  by (auto simp: emit_provision_def provision_audit_row_def provision_failed_audit_row_def
      split: Provision.splits intro!: rows_only_fold)

lemma emit_scrub_rows: "rows_only st (emit_scrub_audit tool hits st)"
  by (simp add: emit_scrub_audit_def)

lemma compute_provision_trace: "compute_provision env req st = (st', p) \<Longrightarrow> ds_trace st' = ds_trace st"
  by (auto simp: compute_provision_def after_lookups_def Let_def split: option.splits if_splits prod.splits sum.splits)

section \<open>What finalize does\<close>

lemma finalize_cases:
  assumes "finalize env tool meth req evs call_result ms st = (st', res)"
  obtains (answer) v w blk where "call_result = Inr v" "res = Inr (sco_value (screen_result env tool w))"
      "w = (if snd (fingerprints_for_dispatch env req st) \<noteq> [] then fst (scrub_value env (snd (fingerprints_for_dispatch env req st)) v) else v)"
      "\<exists>g post. rows_only (fst (fingerprints_for_dispatch env req st)) post \<and>
         st' = blk (log_event (Row (''tool:'' @ tool) meth (build_tool_audit_payload req (Inr (sco_value (screen_result env tool w))) g ms)) post)"
      "\<And>x. rows_only x (blk x)"
    | (failure) e e' where "call_result = Inl e" "res = Inl (Protocol e')"
      "e' = (if snd (fingerprints_for_dispatch env req st) \<noteq> [] then fst (scrub_client_error env (snd (fingerprints_for_dispatch env req st)) e) else e)"
      "\<exists>post. rows_only (fst (fingerprints_for_dispatch env req st)) post \<and>
         st' = log_event (Row (''tool:'' @ tool) meth (build_tool_audit_payload req (Inl (show_client_error (de_dbg env) e')) None ms)) post"
proof -
  obtain st1 fps where f: "fingerprints_for_dispatch env req st = (st1, fps)" by fastforce
  have rr: "rows_only x (fold (\<lambda>ev. log_event (redeemed_row tool meth ms ev)) evs x)" for x
    by (rule rows_only_fold) (simp add: redeemed_row_def)
  show thesis
  proof (cases call_result)
    case (Inl e)
    define r where "r = (if fps \<noteq> [] then scrub_client_error env fps e else (e, []))"
    have st': "st' = log_event (Row (''tool:'' @ tool) meth (build_tool_audit_payload req (Inl (show_client_error (de_dbg env) (fst r))) None ms))
        (fold (\<lambda>ev. log_event (redeemed_row tool meth ms ev)) evs (emit_scrub_audit tool (snd r) st1))"
      and res: "res = Inl (Protocol (fst r))"
      using assms by (simp_all add: finalize_def f Inl r_def [symmetric] Let_def)
    show thesis
    proof (rule failure [of e "fst r"])
      show "\<exists>post. rows_only (fst (fingerprints_for_dispatch env req st)) post \<and>
         st' = log_event (Row (''tool:'' @ tool) meth (build_tool_audit_payload req (Inl (show_client_error (de_dbg env) (fst r))) None ms)) post"
        using st' rows_only_trans [OF emit_scrub_rows rr] unfolding f fst_conv by blast
    qed (use Inl res f in \<open>auto simp: r_def\<close>)
  next
    case (Inr v)
    define r where "r = (if fps \<noteq> [] then scrub_value env fps v else (v, []))"
    define o' where "o' = screen_result env tool (fst r)"
    define blk where "blk = (case sco_blocked o' of None \<Rightarrow> (\<lambda>x. x) | Some meta \<Rightarrow> log_event (blocked_row env tool meth meta (sco_guard o')))"
    have st': "st' = blk (log_event (Row (''tool:'' @ tool) meth (build_tool_audit_payload req (Inr (sco_value o')) (map_option (guard_audit_value env) (sco_guard o')) ms))
        (fold (\<lambda>ev. log_event (redeemed_row tool meth ms ev)) evs (emit_scrub_audit tool (snd r) st1)))"
      and res: "res = Inr (sco_value o')"
      using assms by (auto simp: finalize_def f Inr r_def [symmetric] o'_def [symmetric] Let_def blk_def split: option.splits)
    show thesis
    proof (rule answer [of v "fst r" blk])
      show "\<exists>g post. rows_only (fst (fingerprints_for_dispatch env req st)) post \<and>
         st' = blk (log_event (Row (''tool:'' @ tool) meth (build_tool_audit_payload req (Inr (sco_value (screen_result env tool (fst r)))) g ms)) post)"
        using st' rows_only_trans [OF emit_scrub_rows rr] unfolding f fst_conv o'_def by blast
      show "rows_only x (blk x)" for x by (auto simp: blk_def blocked_row_def split: option.splits)
    qed (use Inr res f in \<open>auto simp: r_def o'_def\<close>)
  qed
qed

lemma fingerprints_trace: "ds_trace (fst (fingerprints_for_dispatch env req st)) = ds_trace st"
  by (simp add: fingerprints_for_dispatch_def after_lookups_def)

lemma finalize_rows: "finalize env tool meth req evs cr ms st = (st', res) \<Longrightarrow> rows_only st st'"
proof -
  assume f: "finalize env tool meth req evs cr ms st = (st', res)"
  have base: "rows_only st (fst (fingerprints_for_dispatch env req st))"
    by (rule rows_only_same_trace) (rule fingerprints_trace)
  from f show ?thesis
    by (cases rule: finalize_cases) (use base in \<open>blast intro: rows_only_trans rows_only_log\<close>)+
qed

section \<open>What is let through\<close>

definition admitted :: "DispatchEnv \<Rightarrow> rstr \<Rightarrow> json \<Rightarrow> bool" where
  "admitted env tool v \<longleftrightarrow>
     (let body = fst (extract_scannable_text v SCAN_BYTE_CAP) in
      \<not> carries_withheld_marker v \<and>
      iv_decision (screen_with_profile (de_lower env) body (for_tool tool)) = AllowOutput \<and>
      (case de_guard env of
         None \<Rightarrow> True
       | Some tier \<Rightarrow> body = [] \<or> \<not> blocks (gp_outcome (adjudicate_document tier body (snd (extract_scannable_text v SCAN_BYTE_CAP))))))"

lemma screen_result_cases:
  "(\<exists>s codes. sco_value (screen_result env tool v) = injection_blocked_placeholder s codes \<and> \<not> admitted env tool v) \<or>
   sco_value (screen_result env tool v) = v \<and> admitted env tool v"
proof -
  obtain body tr where b: "extract_scannable_text v SCAN_BYTE_CAP = (body, tr)" by fastforce
  let ?d = "iv_decision (screen_with_profile (de_lower env) body (for_tool tool))"
  show ?thesis
    by (cases "carries_withheld_marker v"; cases ?d; cases "de_guard env"; cases "body = []")
      (auto simp: screen_result_def admitted_def b Let_def)
qed

text \<open>The model tier can only take away: with no tier configured at least as much is admitted.\<close>

lemma guard_only_escalates: "admitted env tool v \<Longrightarrow> admitted (env\<lparr>de_guard := None\<rparr>) tool v"
  by (simp add: admitted_def Let_def)

lemma scrub_keeps_keys: "json_keys (fst (scrub_value env fps v)) = json_keys v"
  by (induction v rule: json_keys.induct) auto

section \<open>What a dispatch does\<close>

text \<open>A dispatch either stops before the worker is called, or every reference of the request was redeemed
  and the worker is called once, with the request in which exactly the references are replaced.\<close>

lemma substitute_Ok:
  assumes "substitute_refs_in_params sha (vault_redeem clk) params (v, n) = ((v', n'), params', Inr evs)"
  shows "bound v' = bound v" "params' = reveal (bound v) params" "evs = events sha (for_each_ref params)"
    "\<forall>r \<in> set (for_each_ref params). \<exists>p. bound v r = Some p \<and> utf8_valid (bytes_str p)"
proof -
  have w: "walk sha (vault_redeem clk) params ((v, n), []) = (((v', n'), evs), params', Inr ())"
    using assms by (auto simp: substitute_refs_in_params_def split: prod.splits sum.splits)
  show "bound v' = bound v" "params' = reveal (bound v) params" "evs = events sha (for_each_ref params)"
    using vault.walk_Ok(1) [OF w] by simp_all
  show "\<forall>r \<in> set (for_each_ref params). \<exists>p. bound v r = Some p \<and> utf8_valid (bytes_str p)"
    using vault.redeem_all_bound [OF walk_redeems(1) [OF w]] for_each_ref_well_formed by simp
qed

lemma fold_log_vault: "ds_vault (fold (\<lambda>x. log_event (f x)) xs st) = ds_vault st"
  by (induction xs arbitrary: st) (auto simp: log_event_def)

lemma emit_provision_vault: "emit_provision tool p st = (st', r) \<Longrightarrow> ds_vault st' = ds_vault st"
  by (auto simp: emit_provision_def fold_log_vault log_event_def split: Provision.splits)

lemma compute_provision_vault: "compute_provision env req st = (st', p) \<Longrightarrow> ds_vault st' = ds_vault st"
  by (auto simp: compute_provision_def after_lookups_def Let_def split: option.splits if_splits prod.splits sum.splits)

lemma dispatch_cases:
  assumes "dispatch_with_sink env tool meth params st = (st', res)"
  obtains (stopped) e where "res = Inl e" "rows_only st st'"
      "(\<exists>x. e = SecretRedemptionFailed x) \<or> (\<exists>x. e = EgressProvisionFailed x)"
    | (called) st1 st2 ms where "rows_only st st1" "bound (ds_vault st1) = bound (ds_vault st)"
      "\<forall>r \<in> set (for_each_ref params). \<exists>p. bound (ds_vault st) r = Some p \<and> utf8_valid (bytes_str p)"
      "ds_trace st2 = ds_trace st1 @ [CallWorker meth (reveal (bound (ds_vault st)) params)]"
      "finalize env tool meth params (events (de_sha env) (for_each_ref params))
         (de_worker env meth (reveal (bound (ds_vault st)) params)) ms st2 = (st', res)"
proof -
  obtain v n params' r where sub: "substitute_refs_in_params (de_sha env) (vault_redeem (de_clk env)) params
      (ds_vault st, Suc (ds_tick st)) = ((v, n), params', r)" by (metis prod.exhaust)
  show thesis
  proof (cases r)
    case (Inl e)
    then show thesis using assms sub
      by (intro stopped [of "SecretRedemptionFailed e"])
        (auto simp: dispatch_with_sink_def elapsed_def rows_only_def log_event_def failed_redemption_row_def
          split: SubstituteError.splits)
  next
    case (Inr evs)
    note S = substitute_Ok [OF sub [unfolded Inr]]
    obtain sa p where c: "compute_provision env params (st\<lparr>ds_vault := v, ds_tick := n\<rparr>) = (sa, p)" by fastforce
    obtain sb q where e: "emit_provision tool p sa = (sb, q)" by fastforce
    have ra: "rows_only st sa" using compute_provision_trace [OF c] by (intro rows_only_same_trace) simp
    have rb: "rows_only st sb" using ra emit_provision_rows [OF e] rows_only_trans by blast
    show thesis
    proof (cases q)
      case (Inl x)
      then have "\<exists>y. x = EgressProvisionFailed y" using e by (auto simp: emit_provision_def split: Provision.splits)
      then show thesis using assms sub c e Inr Inl rb
        by (intro stopped [of x]) (auto simp: dispatch_with_sink_def)
    next
      case ok: (Inr u)
      have vs: "ds_vault sb = v"
        using emit_provision_vault [OF e] compute_provision_vault [OF c] by simp
      obtain ms where el: "elapsed env (de_clk env (ds_tick st)) (log_event (CallWorker meth params') sb) =
          ((log_event (CallWorker meth params') sb)\<lparr>ds_tick := Suc (ds_tick sb)\<rparr>, ms)"
        by (simp add: elapsed_def log_event_def)
      show thesis
      proof (rule called [of sb "(log_event (CallWorker meth params') sb)\<lparr>ds_tick := Suc (ds_tick sb)\<rparr>" ms])
        show "finalize env tool meth params (events (de_sha env) (for_each_ref params))
           (de_worker env meth (reveal (bound (ds_vault st)) params)) ms
           ((log_event (CallWorker meth params') sb)\<lparr>ds_tick := Suc (ds_tick sb)\<rparr>) = (st', res)"
          using assms sub c e Inr ok el S
          by (simp add: dispatch_with_sink_def call_and_finalize_def Let_def)
      qed (use rb vs S in \<open>auto simp: log_event_def\<close>)
    qed
  qed
qed

end
