(* ===== verification/Worker_Lifecycle.thy ===== *)
theory Worker_Lifecycle
  imports Tool_Dispatch
begin

text \<open>
  \<^verbatim>\<open>core/src/worker_lifecycle/{types,manager,composite,idle_timeout}.rs\<close> with \<^verbatim>\<open>idle_timeout/{liveness,release}.rs\<close>
  and the policy and registry records a spawn reads (\<^verbatim>\<open>sandbox/src/lib.rs\<close>, \<^verbatim>\<open>scheduler/tool_dispatch.rs\<close>).

  A warm worker is kept in a per-tool slot behind a mutex. Whoever holds the slot's lock has taken the
  worker out of the slot; releasing it puts the worker back, or retires it. Instants and durations are
  nanoseconds as \<open>nat\<close>. What a spawn gives back is an argument of the operations that spawn.
\<close>

section \<open>Policies and registry entries\<close>

datatype Profile = WorkerStrict | WorkerNetClient | WorkerBrowserClient | WorkerMlClient | WorkerMatrixClient

datatype Net = DenyNet | NetAllowlist "rstr list" | ProxyEgress

record PersistentStore =
  pst_host_backing :: rstr
  pst_guest_mount :: rstr
  pst_size_mib :: nat

record SandboxPolicy =
  fs_read :: "rstr list"
  fs_write :: "rstr list"
  sp_net :: Net
  cpu_ms :: nat
  mem_mb :: nat
  sp_profile :: Profile
  cpu_quota_pct :: "nat option"
  tasks_max :: "nat option"
  sp_env :: "(rstr \<times> rstr) list"
  proxy_uds :: "rstr option"
  broker_uds :: "rstr option"
  persistent_store :: "PersistentStore option"

definition SandboxPolicy_default :: SandboxPolicy where
  "SandboxPolicy_default =
     \<lparr>fs_read = [], fs_write = [], sp_net = DenyNet, cpu_ms = 1000, mem_mb = 64, sp_profile = WorkerStrict,
      cpu_quota_pct = None, tasks_max = None, sp_env = [], proxy_uds = None, broker_uds = None,
      persistent_store = None\<rparr>"

record IdleTimeoutCaps =
  idle_seconds :: nat
  max_requests :: nat
  max_age_seconds :: nat
  grace_period_seconds :: nat

record Contract =
  stateless :: bool

datatype Lifecycle = SingleUse | IdleTimeout IdleTimeoutCaps Contract

datatype LifecycleValidationError = StatelessRequiredForIdleTimeout

definition idle_timeout :: "IdleTimeoutCaps \<Rightarrow> Contract \<Rightarrow> LifecycleValidationError + Lifecycle" where
  "idle_timeout caps contract =
     (if \<not> stateless contract then Err StatelessRequiredForIdleTimeout else Ok (IdleTimeout caps contract))"

datatype SandboxBackendKind = Bwrap | FirecrackerVm | Seatbelt | Container

datatype BrokerKind = Embed | Search

record BrokerSpec =
  bs_kind :: BrokerKind
  bs_endpoint :: rstr

record ToolEntry =
  te_binary :: rstr
  te_policy :: SandboxPolicy
  te_wall_clock_ms :: "nat option"
  te_lifecycle :: Lifecycle
  te_sandbox_backend :: "SandboxBackendKind option"
  te_container_image :: "rstr option"
  te_lockdown_shim :: "rstr option"
  te_ephemeral_scratch :: bool
  te_broker :: "BrokerSpec option"

definition ENV_WORKER_OUT :: rstr where "ENV_WORKER_OUT = ''KASTELLAN_WORKER_OUT''"

definition apply_workspace_out :: "rstr \<Rightarrow> SandboxPolicy \<Rightarrow> SandboxPolicy" where
  "apply_workspace_out out_dir p =
     p\<lparr>fs_write := fs_write p @ [out_dir], sp_env := sp_env p @ [(ENV_WORKER_OUT, out_dir)]\<rparr>"

section \<open>Which failures retire a worker\<close>

datatype WorkerRetirementCause =
  ExitedBeforeResponding | PipeBroke | Undecodable | CauseIdMismatch | CauseResponseTooLarge

fun from_client_error :: "ClientError \<Rightarrow> WorkerRetirementCause option" where
  "from_client_error (Rpc e) = None"
| "from_client_error EarlyExit = Some ExitedBeforeResponding"
| "from_client_error (ClientIo e) = Some PipeBroke"
| "from_client_error (ClientDecode e) = Some Undecodable"
| "from_client_error (IdMismatch a b) = Some CauseIdMismatch"
| "from_client_error (ResponseTooLarge n) = Some CauseResponseTooLarge"

fun dispatch_indicates_worker_dead :: "ToolHostError + 'a \<Rightarrow> bool" where
  "dispatch_indicates_worker_dead (Inr _) = False"
| "dispatch_indicates_worker_dead (Inl (SandboxErr e)) = False"
| "dispatch_indicates_worker_dead (Inl (IoErr e)) = False"
| "dispatch_indicates_worker_dead (Inl (Protocol e)) = (from_client_error e \<noteq> None)"
| "dispatch_indicates_worker_dead (Inl (SecretRedemptionFailed e)) = False"
| "dispatch_indicates_worker_dead (Inl (EgressProvisionFailed e)) = False"

section \<open>The restart backoff\<close>

definition U64_MAX :: nat where "U64_MAX = 2 ^ 64 - 1"
definition U32_MAX :: nat where "U32_MAX = 2 ^ 32 - 1"

record RestartBackoff =
  rb_base :: nat
  rb_factor_num :: nat
  rb_factor_den :: nat
  rb_cap :: nat

definition secs :: "nat \<Rightarrow> nat" where "secs s = s * 1000000000"

definition RestartBackoff_default :: RestartBackoff where
  "RestartBackoff_default = \<lparr>rb_base = secs 1, rb_factor_num = 2, rb_factor_den = 1, rb_cap = secs 60\<rparr>"

text \<open>\<^verbatim>\<open>Duration::as_millis() as u64\<close>.\<close>

definition as_millis_u64 :: "nat \<Rightarrow> nat" where
  "as_millis_u64 d = (d div 1000000) mod 2 ^ 64"

fun delay_loop :: "RestartBackoff \<Rightarrow> nat \<Rightarrow> nat \<Rightarrow> nat" where
  "delay_loop b 0 delay_ms = min delay_ms (as_millis_u64 (rb_cap b)) * 1000000"
| "delay_loop b (Suc n) delay_ms =
     (let delay_ms = min (delay_ms * max (rb_factor_num b) 1) U64_MAX div max (rb_factor_den b) 1 in
      if delay_ms \<ge> as_millis_u64 (rb_cap b) then rb_cap b else delay_loop b n delay_ms)"

definition next_delay :: "RestartBackoff \<Rightarrow> nat \<Rightarrow> nat" where
  "next_delay b consecutive_restarts = delay_loop b consecutive_restarts (as_millis_u64 (rb_base b))"

definition is_request_capped :: "nat \<Rightarrow> nat \<Rightarrow> bool" where
  "is_request_capped request_count cap \<longleftrightarrow> cap > 0 \<and> request_count \<ge> cap"

definition is_aged_out :: "nat \<Rightarrow> nat \<Rightarrow> bool" where
  "is_aged_out age max_age \<longleftrightarrow> max_age > 0 \<and> age div 1000000000 \<ge> max_age"

section \<open>A slot\<close>

type_synonym worker = nat

record WarmWorker =
  ww_worker :: worker
  ww_spawned_at :: nat
  ww_request_count :: nat
  ww_last_completion :: nat

text \<open>The spawned teardown task: the completion it was started for and the instant its sleep ends.\<close>

record Teardown =
  td_for :: nat
  td_at :: nat

record ToolState =
  ts_warm :: "WarmWorker option"
  ts_next_spawn_allowed_at :: "nat option"
  ts_consecutive_restarts :: nat
  ts_idle_teardown_handle :: "Teardown option"

definition ToolState_fresh :: ToolState where
  "ToolState_fresh = \<lparr>ts_warm = None, ts_next_spawn_allowed_at = None, ts_consecutive_restarts = 0, ts_idle_teardown_handle = None\<rparr>"

record WorkerHandle =
  wh_worker :: worker
  wh_spawned_at :: nat
  wh_request_count_so_far :: nat
  wh_died :: bool

definition report_crash :: "WorkerHandle \<Rightarrow> WorkerHandle" where
  "report_crash h = h\<lparr>wh_died := True\<rparr>"

text \<open>The instant at which an acquirer that finds the slot at \<open>now\<close> goes on.\<close>

definition wake_at :: "nat \<Rightarrow> ToolState \<Rightarrow> nat" where
  "wake_at now st =
     (case ts_next_spawn_allowed_at st of None \<Rightarrow> now | Some allowed_at \<Rightarrow> max now allowed_at)"

definition WIRING_BUG :: rstr where
  "WIRING_BUG = ''IdleTimeoutLifecycle::acquire called on a SingleUse ToolEntry '' @ map char_of [0xE2, 0x80, 0x94 :: nat] @ '' wiring bug''"

text \<open>\<^verbatim>\<open>acquire_impl\<close> once the lock is held and the backoff has been slept off: \<open>now\<close> is the reading for the
  age, \<open>spawned\<close> what \<^verbatim>\<open>spawn_worker_with_optional_broker\<close> answers and \<open>at\<close> the reading after it. The result is the state,
  the worker that was dropped, and the handle.\<close>

definition acquire_impl ::
    "Lifecycle \<Rightarrow> nat \<Rightarrow> ToolHostError + worker \<Rightarrow> nat \<Rightarrow> ToolState \<Rightarrow> ToolState \<times> worker option \<times> (ToolHostError + WorkerHandle)" where
  "acquire_impl lifecycle now spawned at st =
     (case lifecycle of
        SingleUse \<Rightarrow> (st, None, Err (IoErr WIRING_BUG))
      | IdleTimeout caps contract \<Rightarrow>
          (let st1 = st\<lparr>ts_next_spawn_allowed_at := None\<rparr>;
               spawn = (\<lambda>st dropped.
                 (st, dropped,
                  case spawned of
                    Inl e \<Rightarrow> Inl e
                  | Inr w \<Rightarrow> Inr \<lparr>wh_worker = w, wh_spawned_at = at, wh_request_count_so_far = 0, wh_died = False\<rparr>))
           in case ts_warm st1 of
                None \<Rightarrow> spawn st1 None
              | Some existing \<Rightarrow>
                  (let st2 = st1\<lparr>ts_warm := None\<rparr> in
                   if \<not> is_aged_out (now - ww_spawned_at existing) (max_age_seconds caps)
                   then (st2, None,
                         Inr \<lparr>wh_worker = ww_worker existing, wh_spawned_at = ww_spawned_at existing,
                              wh_request_count_so_far = ww_request_count existing, wh_died = False\<rparr>)
                   else spawn st2 (Some (ww_worker existing)))))"

definition abort_idle_teardown_handle :: "ToolState \<Rightarrow> ToolState" where
  "abort_idle_teardown_handle st = st\<lparr>ts_idle_teardown_handle := None\<rparr>"

definition replace_idle_teardown_handle :: "nat \<Rightarrow> nat \<Rightarrow> ToolState \<Rightarrow> ToolState" where
  "replace_idle_teardown_handle for_last_completion idle st =
     (let st = abort_idle_teardown_handle st in
      if idle = 0 then st
      else st\<lparr>ts_idle_teardown_handle := Some \<lparr>td_for = for_last_completion, td_at = for_last_completion + secs idle\<rparr>\<rparr>)"

definition retire_clean :: "ToolState \<Rightarrow> ToolState" where
  "retire_clean st =
     (abort_idle_teardown_handle st)\<lparr>ts_warm := None, ts_consecutive_restarts := 0, ts_next_spawn_allowed_at := None\<rparr>"

text \<open>\<^verbatim>\<open>release_idle_timeout_worker\<close>, run by the handle's destructor; the second component is the worker it drops.\<close>

definition release_idle_timeout_worker ::
    "IdleTimeoutCaps \<Rightarrow> RestartBackoff \<Rightarrow> nat \<Rightarrow> WorkerHandle \<Rightarrow> ToolState \<Rightarrow> ToolState \<times> worker option" where
  "release_idle_timeout_worker caps backoff now h st =
     (if wh_died h
      then (let next_count = min (ts_consecutive_restarts st + 1) U32_MAX;
                delay = next_delay backoff (next_count - 1)
            in ((abort_idle_teardown_handle st)\<lparr>ts_warm := None, ts_consecutive_restarts := next_count,
                  ts_next_spawn_allowed_at := Some (now + delay)\<rparr>, Some (wh_worker h)))
      else
        (let new_count = wh_request_count_so_far h + 1 in
         if is_request_capped new_count (max_requests caps) then (retire_clean st, Some (wh_worker h))
         else if is_aged_out (now - wh_spawned_at h) (max_age_seconds caps) then (retire_clean st, Some (wh_worker h))
         else (replace_idle_teardown_handle now (idle_seconds caps)
                 (st\<lparr>ts_warm := Some \<lparr>ww_worker = wh_worker h, ww_spawned_at = wh_spawned_at h,
                       ww_request_count = new_count, ww_last_completion = now\<rparr>,
                     ts_consecutive_restarts := 0, ts_next_spawn_allowed_at := None\<rparr>), None)))"

text \<open>The body of the teardown task, once its sleep is over and it has the lock.\<close>

definition teardown_fires :: "Teardown \<Rightarrow> ToolState \<Rightarrow> ToolState \<times> worker option" where
  "teardown_fires td st =
     (case ts_warm st of
        None \<Rightarrow> (st, None)
      | Some warm \<Rightarrow>
          (if ww_last_completion warm = td_for td
           then (st\<lparr>ts_warm := None, ts_idle_teardown_handle := None\<rparr>, Some (ww_worker warm))
           else (st, None)))"

text \<open>\<^verbatim>\<open>CompositeLifecycle::acquire\<close>: a single-use worker is spawned and never touches a slot.\<close>

datatype LifecycleHandle = SingleUseHandle worker | IdleTimeoutHandle WorkerHandle

definition acquire ::
    "Lifecycle \<Rightarrow> nat \<Rightarrow> ToolHostError + worker \<Rightarrow> nat \<Rightarrow> ToolState \<Rightarrow> ToolState \<times> worker option \<times> (ToolHostError + LifecycleHandle)" where
  "acquire lifecycle now spawned at st =
     (case lifecycle of
        SingleUse \<Rightarrow> (st, None, case spawned of Inl e \<Rightarrow> Inl e | Inr w \<Rightarrow> Inr (SingleUseHandle w))
      | IdleTimeout caps contract \<Rightarrow>
          (case acquire_impl lifecycle now spawned at st of
             (st', dropped, r) \<Rightarrow> (st', dropped, case r of Inl e \<Rightarrow> Inl e | Inr h \<Rightarrow> Inr (IdleTimeoutHandle h))))"

fun drop_handle :: "IdleTimeoutCaps \<Rightarrow> RestartBackoff \<Rightarrow> nat \<Rightarrow> LifecycleHandle \<Rightarrow> ToolState \<Rightarrow> ToolState \<times> worker option" where
  "drop_handle caps backoff now (SingleUseHandle w) st = (st, Some w)"
| "drop_handle caps backoff now (IdleTimeoutHandle h) st = release_idle_timeout_worker caps backoff now h st"

section \<open>The queue warning\<close>

definition PENDING_ACQUIRES_WARN_THRESHOLD :: nat where "PENDING_ACQUIRES_WARN_THRESHOLD = 5"
definition PENDING_ACQUIRES_WARN_COOLDOWN :: nat where "PENDING_ACQUIRES_WARN_COOLDOWN = secs 30"
definition I64_MIN :: int where "I64_MIN = - (2 ^ 63)"
definition I64_MAX :: int where "I64_MAX = 2 ^ 63 - 1"

definition pending_acquires_should_warn :: "nat \<Rightarrow> bool" where
  "pending_acquires_should_warn depth \<longleftrightarrow> depth \<ge> PENDING_ACQUIRES_WARN_THRESHOLD"

definition saturating_sub_i64 :: "int \<Rightarrow> int \<Rightarrow> int" where
  "saturating_sub_i64 a b = max I64_MIN (min I64_MAX (a - b))"

text \<open>\<^verbatim>\<open>cooldown.as_nanos() as i64\<close> wraps.\<close>

definition debounce_warn :: "int \<Rightarrow> int \<Rightarrow> nat \<Rightarrow> bool" where
  "debounce_warn last_warn now cooldown \<longleftrightarrow>
     saturating_sub_i64 now last_warn \<ge> (int cooldown + 2 ^ 63) mod 2 ^ 64 - 2 ^ 63"

section \<open>The backoff is bounded, and doubles\<close>

lemma as_millis_bound: "as_millis_u64 d * 1000000 \<le> d"
proof -
  have "as_millis_u64 d \<le> d div 1000000" by (simp add: as_millis_u64_def)
  then show ?thesis by (metis div_times_less_eq_dividend le_trans mult_le_mono1)
qed

lemma delay_loop_le_cap: "delay_loop b n d \<le> rb_cap b"
proof (induction n arbitrary: d)
  case 0
  have "min d (as_millis_u64 (rb_cap b)) * 1000000 \<le> as_millis_u64 (rb_cap b) * 1000000" by simp
  with as_millis_bound [of "rb_cap b"] show ?case by simp
qed (simp add: Let_def)

lemma delay_loop_doubles:
  "d < 60000 \<Longrightarrow> delay_loop RestartBackoff_default n d = min (d * 2 ^ n) 60000 * 1000000"
proof (induction n arbitrary: d)
  case 0
  then show ?case by (simp add: RestartBackoff_default_def secs_def as_millis_u64_def)
next
  case (Suc n)
  have cap: "as_millis_u64 (rb_cap RestartBackoff_default) = 60000"
    by (simp add: RestartBackoff_default_def secs_def as_millis_u64_def)
  have step: "min (d * max (rb_factor_num RestartBackoff_default) 1) U64_MAX div max (rb_factor_den RestartBackoff_default) 1 = d * 2"
    using Suc.prems by (simp add: RestartBackoff_default_def U64_MAX_def)
  show ?case
  proof (cases "d * 2 \<ge> 60000")
    case True
    then have "d * 2 * 2 ^ n \<ge> 60000 * 1" by (intro mult_le_mono) simp_all
    then have "min (d * 2 ^ Suc n) 60000 = 60000" by (simp add: mult.assoc)
    with True show ?thesis unfolding delay_loop.simps Let_def step cap by (simp add: RestartBackoff_default_def secs_def)
  next
    case False
    then show ?thesis unfolding delay_loop.simps Let_def step cap using Suc.IH [of "d * 2"] by (simp add: mult.assoc)
  qed
qed

lemma next_delay_default: "next_delay RestartBackoff_default n = min (secs (2 ^ n)) (secs 60)"
proof -
  have "next_delay RestartBackoff_default n = delay_loop RestartBackoff_default n 1000"
    by (simp add: next_delay_def RestartBackoff_default_def secs_def as_millis_u64_def)
  also have "\<dots> = min (1000 * 2 ^ n) 60000 * 1000000" by (rule delay_loop_doubles) simp
  also have "\<dots> = min (secs (2 ^ n)) (secs 60)" by (simp add: secs_def min_def)
  finally show ?thesis .
qed

section \<open>A slot over time\<close>

text \<open>The slot, who holds its lock, the clock, and what has happened to each worker: how often it was handed
  out and whether it was dropped. Workers are numbered in the order they are spawned.\<close>

record SlotRun =
  sr_state :: ToolState
  sr_holder :: "WorkerHandle option"
  sr_now :: nat
  sr_next :: worker
  sr_dropped :: "worker set"
  sr_handed :: "worker \<Rightarrow> nat"

definition slot_start :: SlotRun where
  "slot_start = \<lparr>sr_state = ToolState_fresh, sr_holder = None, sr_now = 0, sr_next = 0, sr_dropped = {}, sr_handed = (\<lambda>_. 0)\<rparr>"

inductive slot_step :: "IdleTimeoutCaps \<Rightarrow> RestartBackoff \<Rightarrow> SlotRun \<Rightarrow> SlotRun \<Rightarrow> bool" for caps backoff where
  step_tick: "sr_now s \<le> t \<Longrightarrow> slot_step caps backoff s (s\<lparr>sr_now := t\<rparr>)"
| step_refused: "sr_holder s = None \<Longrightarrow> wake_at (sr_now s) (sr_state s) \<le> t \<Longrightarrow>
    acquire_impl (IdleTimeout caps c) t (Inl e) t (sr_state s) = (st, d, Inl e') \<Longrightarrow>
    slot_step caps backoff s
      (s\<lparr>sr_state := st, sr_now := t, sr_dropped := sr_dropped s \<union> set_option d\<rparr>)"
| step_acquired: "sr_holder s = None \<Longrightarrow> wake_at (sr_now s) (sr_state s) \<le> t \<Longrightarrow> t \<le> u \<Longrightarrow>
    acquire_impl (IdleTimeout caps c) t (Inr (sr_next s)) u (sr_state s) = (st, d, Inr h) \<Longrightarrow>
    slot_step caps backoff s
      (s\<lparr>sr_state := st, sr_holder := Some h, sr_now := u, sr_next := max (sr_next s) (Suc (wh_worker h)),
         sr_dropped := sr_dropped s \<union> set_option d,
         sr_handed := (sr_handed s)(wh_worker h := Suc (sr_handed s (wh_worker h)))\<rparr>)"
| step_crash: "sr_holder s = Some h \<Longrightarrow> slot_step caps backoff s (s\<lparr>sr_holder := Some (report_crash h)\<rparr>)"
| step_release: "sr_holder s = Some h \<Longrightarrow>
    release_idle_timeout_worker caps backoff (sr_now s) h (sr_state s) = (st, d) \<Longrightarrow>
    slot_step caps backoff s (s\<lparr>sr_state := st, sr_holder := None, sr_dropped := sr_dropped s \<union> set_option d\<rparr>)"
| step_fire: "sr_holder s = None \<Longrightarrow> ts_idle_teardown_handle (sr_state s) = Some td \<Longrightarrow> td_at td \<le> sr_now s \<Longrightarrow>
    teardown_fires td (sr_state s) = (st, d) \<Longrightarrow>
    slot_step caps backoff s (s\<lparr>sr_state := st, sr_dropped := sr_dropped s \<union> set_option d\<rparr>)"

inductive_cases slot_stepE: "slot_step caps backoff s s'"

definition within_cap :: "IdleTimeoutCaps \<Rightarrow> nat \<Rightarrow> bool" where
  "within_cap caps n \<longleftrightarrow> max_requests caps = 0 \<or> n \<le> max_requests caps"

definition warm_inv :: "IdleTimeoutCaps \<Rightarrow> SlotRun \<Rightarrow> WarmWorker \<Rightarrow> bool" where
  "warm_inv caps s w \<longleftrightarrow>
     sr_holder s = None \<and> ww_worker w \<notin> sr_dropped s \<and> ww_worker w < sr_next s \<and>
     sr_handed s (ww_worker w) = ww_request_count w \<and> within_cap caps (Suc (ww_request_count w)) \<and>
     ww_last_completion w \<le> sr_now s \<and>
     ts_next_spawn_allowed_at (sr_state s) = None \<and> ts_consecutive_restarts (sr_state s) = 0 \<and>
     ts_idle_teardown_handle (sr_state s) =
       (if idle_seconds caps = 0 then None
        else Some \<lparr>td_for = ww_last_completion w, td_at = ww_last_completion w + secs (idle_seconds caps)\<rparr>)"

definition holder_inv :: "IdleTimeoutCaps \<Rightarrow> SlotRun \<Rightarrow> WorkerHandle \<Rightarrow> bool" where
  "holder_inv caps s h \<longleftrightarrow>
     ts_warm (sr_state s) = None \<and> wh_worker h \<notin> sr_dropped s \<and> wh_worker h < sr_next s \<and>
     sr_handed s (wh_worker h) = Suc (wh_request_count_so_far h) \<and> within_cap caps (Suc (wh_request_count_so_far h))"

definition slot_inv :: "IdleTimeoutCaps \<Rightarrow> SlotRun \<Rightarrow> bool" where
  "slot_inv caps s \<longleftrightarrow>
     (\<forall>w. ts_warm (sr_state s) = Some w \<longrightarrow> warm_inv caps s w) \<and>
     (\<forall>h. sr_holder s = Some h \<longrightarrow> holder_inv caps s h) \<and>
     (\<forall>w. within_cap caps (sr_handed s w)) \<and> (\<forall>w \<ge> sr_next s. sr_handed s w = 0 \<and> w \<notin> sr_dropped s)"

lemma slot_inv_start: "slot_inv caps slot_start"
  by (simp add: slot_inv_def slot_start_def ToolState_fresh_def within_cap_def)

lemma within_cap_1: "within_cap caps (Suc 0)"
  by (auto simp: within_cap_def)

text \<open>What an acquisition does to a slot.\<close>

lemma acquire_impl_cases:
  assumes "acquire_impl (IdleTimeout caps c) now spawned at st = (st', d, r)"
  obtains (spawned) "ts_warm st = None \<or> (\<exists>w. ts_warm st = Some w \<and> is_aged_out (now - ww_spawned_at w) (max_age_seconds caps))"
      "st' = st\<lparr>ts_warm := None, ts_next_spawn_allowed_at := None\<rparr>" "d = map_option ww_worker (ts_warm st)"
      "r = (case spawned of Inl e \<Rightarrow> Inl e | Inr w \<Rightarrow> Inr \<lparr>wh_worker = w, wh_spawned_at = at, wh_request_count_so_far = 0, wh_died = False\<rparr>)"
    | (warm) w where "ts_warm st = Some w" "\<not> is_aged_out (now - ww_spawned_at w) (max_age_seconds caps)"
      "st' = st\<lparr>ts_warm := None, ts_next_spawn_allowed_at := None\<rparr>" "d = None"
      "r = Inr \<lparr>wh_worker = ww_worker w, wh_spawned_at = ww_spawned_at w, wh_request_count_so_far = ww_request_count w, wh_died = False\<rparr>"
proof (cases "ts_warm st")
  case None
  then have "st\<lparr>ts_next_spawn_allowed_at := None\<rparr> = st\<lparr>ts_warm := None, ts_next_spawn_allowed_at := None\<rparr>" by simp
  with None assms show thesis by (intro spawned) (auto simp: acquire_impl_def Let_def split: sum.splits)
next
  case (Some w)
  with assms show thesis
    by (cases "is_aged_out (now - ww_spawned_at w) (max_age_seconds caps)")
      (rule spawned warm; force simp: acquire_impl_def Let_def split: sum.splits)+
qed

text \<open>What a release does: the worker is dropped, or goes back with a timer of its own.\<close>

lemma release_cases:
  assumes "release_idle_timeout_worker caps backoff now h st = (st', d)"
  obtains (dropped) "d = Some (wh_worker h)" "ts_warm st' = None"
    | (kept) "d = None" "\<not> wh_died h" "\<not> is_request_capped (wh_request_count_so_far h + 1) (max_requests caps)"
        "\<not> is_aged_out (now - wh_spawned_at h) (max_age_seconds caps)"
        "ts_warm st' = Some \<lparr>ww_worker = wh_worker h, ww_spawned_at = wh_spawned_at h,
           ww_request_count = wh_request_count_so_far h + 1, ww_last_completion = now\<rparr>"
        "ts_consecutive_restarts st' = 0" "ts_next_spawn_allowed_at st' = None"
        "ts_idle_teardown_handle st' = (if idle_seconds caps = 0 then None
           else Some \<lparr>td_for = now, td_at = now + secs (idle_seconds caps)\<rparr>)"
  using assms
  by (auto simp: release_idle_timeout_worker_def replace_idle_teardown_handle_def abort_idle_teardown_handle_def
      retire_clean_def Let_def split: if_splits)

lemma uncapped_next: "\<not> is_request_capped (n + 1) (max_requests caps) \<Longrightarrow> within_cap caps (Suc (Suc n))"
  by (auto simp: is_request_capped_def within_cap_def)

lemma slot_inv_step: "slot_step caps backoff s s' \<Longrightarrow> slot_inv caps s \<Longrightarrow> slot_inv caps s'"
proof (induction rule: slot_step.induct)
  case (step_tick s t)
  then show ?case by (fastforce simp: slot_inv_def warm_inv_def holder_inv_def)
next
  case (step_refused s t c e st d e')
  from step_refused(3) show ?case
    by (cases rule: acquire_impl_cases)
      (use step_refused(1,4) in \<open>force simp: slot_inv_def warm_inv_def\<close>)+
next
  case (step_acquired s t u c st d h)
  from step_acquired(4) show ?case
  proof (cases rule: acquire_impl_cases)
    case spawned
    with step_acquired(1,5) show ?thesis by (auto simp: slot_inv_def warm_inv_def holder_inv_def within_cap_1)
  next
    case (warm w)
    with step_acquired(1,5) show ?thesis by (auto simp: slot_inv_def warm_inv_def holder_inv_def)
  qed
next
  case (step_crash s h)
  then show ?case by (auto simp: slot_inv_def warm_inv_def holder_inv_def report_crash_def)
next
  case (step_release s h st d)
  from step_release(2) show ?case
  proof (cases rule: release_cases)
    case dropped
    with step_release(1,3) show ?thesis by (auto simp: slot_inv_def holder_inv_def)
  next
    case kept
    with step_release(1,3) uncapped_next [OF kept(3)] show ?thesis
      by (auto simp: slot_inv_def warm_inv_def holder_inv_def)
  qed
next
  case (step_fire s td st d)
  then show ?case by (auto simp: slot_inv_def warm_inv_def holder_inv_def teardown_fires_def split: option.splits if_splits)
qed

lemma slot_reachable_inv: "(slot_step caps backoff)\<^sup>*\<^sup>* slot_start s \<Longrightarrow> slot_inv caps s"
proof (induction rule: rtranclp_induct)
  case base
  show ?case by (rule slot_inv_start)
qed (rule slot_inv_step)

end
