(* ===== verification/Step_Dispatch.thy ===== *)
theory Step_Dispatch
  imports Worker_Lifecycle
begin

text \<open>
  \<^verbatim>\<open>core/src/scheduler/tool_dispatch.rs\<close> with \<^verbatim>\<open>tool_dispatch/{fetch_screen,method_qualify,result_mapping}.rs\<close> and
  \<^verbatim>\<open>core/src/untrusted_text.rs\<close>: what the inner loop calls for one step of a plan. A read of the handoff cache is
  answered in the core; any other step needs a registered tool, a worker from the lifecycle, the
  dispatch of \<^verbatim>\<open>Tool_Dispatch\<close> and, for a result over the cap, a place in the cache.

  The state is that of the dispatch together with the cache, one lifecycle slot per tool and the
  output directories of the running tasks. The clock is that of the dispatch; acquiring and
  releasing a worker reads it once for each instant the lifecycle can ask for.
\<close>

section \<open>Qualifying a method\<close>

definition qualified_method :: "rstr \<Rightarrow> rstr list \<Rightarrow> rstr option" where
  "qualified_method requested advertised =
     (if requested \<in> set advertised then None
      else if CHR ''.'' \<in> set requested then None
      else case filter (\<lambda>m. ends_with m (''.'' @ requested)) advertised of
             [m] \<Rightarrow> Some m
           | _ \<Rightarrow> None)"

section \<open>Screening a fetched slice\<close>

definition WITHHELD_FETCH :: rstr where
  "WITHHELD_FETCH = ''[fetched content withheld: failed injection screen]''"

fun withhold :: "DispatchEnv \<Rightarrow> json \<Rightarrow> InjectionVerdict \<Rightarrow> json" where
  "withhold env v verdict =
     (let withheld = [(''data'', JStr WITHHELD_FETCH), (INJECTION_BLOCKED_KEY, JBool True),
            (SCORE_KEY, de_score env (iv_score verdict)), (REASON_CODES_KEY, JArr (map JStr (iv_reason_codes verdict)))]
      in case v of
           JObj obj \<Rightarrow> JObj (foldl (\<lambda>m kv. obj_insert (fst kv) (snd kv) m) obj withheld)
         | _ \<Rightarrow> jobj withheld)"

declare withhold.simps [simp del]

definition screen_fetched_data :: "DispatchEnv \<Rightarrow> json \<Rightarrow> json" where
  "screen_fetched_data env v =
     (case (case json_get v ''data'' of None \<Rightarrow> None | Some d \<Rightarrow> json_as_str d) of
        None \<Rightarrow> v
      | Some s \<Rightarrow>
          (let verdict = screen_with_profile (de_lower env) s Strict in
           if iv_decision verdict \<noteq> BlockOutput then v else withhold env v verdict))"

section \<open>Mapping the result\<close>

definition rpc_code_name :: "int \<Rightarrow> rstr" where
  "rpc_code_name c =
     (if c = -32700 then ''PARSE_ERROR''
      else if c = -32600 then ''INVALID_REQUEST''
      else if c = -32601 then ''METHOD_NOT_FOUND''
      else if c = -32602 then ''INVALID_PARAMS''
      else if c = -32603 then ''INTERNAL_ERROR''
      else if c = -32001 then ''POLICY_DENIED''
      else if c = -32002 then ''OPERATION_FAILED''
      else if c = -32004 then ''UPSTREAM_AUTH_FAILED''
      else ''RPC_ERROR'')"

fun map_dispatch_result :: "(json \<Rightarrow> rstr) \<Rightarrow> ToolHostError + json \<Rightarrow> StepOutcome" where
  "map_dispatch_result dbg (Inr v) = OkStep v"
| "map_dispatch_result dbg (Inl (SandboxErr e)) = ErrStep ''SPAWN_FAILED'' e"
| "map_dispatch_result dbg (Inl (IoErr e)) = ErrStep ''IO_ERROR'' e"
| "map_dispatch_result dbg (Inl (Protocol (Rpc rpc))) = ErrStep (rpc_code_name (rpc_code rpc)) (rpc_message rpc)"
| "map_dispatch_result dbg (Inl (Protocol other)) = ErrStep ''PROTOCOL_ERROR'' (show_client_error dbg other)"
| "map_dispatch_result dbg (Inl (SecretRedemptionFailed _)) =
     ErrStep ''POLICY_DENIED'' ''secret redemption failed before worker call''"
| "map_dispatch_result dbg (Inl (EgressProvisionFailed msg)) = ErrStep ''POLICY_DENIED'' msg"

text \<open>The code point a string of \<^verbatim>\<open>chars\<close> encodes.\<close>

fun code_point :: "rstr \<Rightarrow> nat" where
  "code_point [a] = code a"
| "code_point [a, b] = (code a - 0xC0) * 64 + (code b - 0x80)"
| "code_point [a, b, c] = (code a - 0xE0) * 4096 + (code b - 0x80) * 64 + (code c - 0x80)"
| "code_point [a, b, c, d] = (code a - 0xF0) * 262144 + (code b - 0x80) * 4096 + (code c - 0x80) * 64 + (code d - 0x80)"
| "code_point _ = 0"

definition is_neutralised_control :: "nat \<Rightarrow> bool" where
  "is_neutralised_control c \<longleftrightarrow>
     (c < 0x20 \<or> 0x7F \<le> c \<and> c < 0xA0) \<or> c = 0x2028 \<or> c = 0x2029 \<or>
     c = 0x061C \<or> c = 0x200E \<or> c = 0x200F \<or> 0x202A \<le> c \<and> c \<le> 0x202E \<or> 0x2066 \<le> c \<and> c \<le> 0x2069"

definition neutralise_controls :: "rstr \<Rightarrow> rstr" where
  "neutralise_controls s = concat (map (\<lambda>c. if is_neutralised_control (code_point c) then '' '' else c) (chars s))"

fun upstream_auth_failure_detail :: "StepOutcome \<Rightarrow> rstr option" where
  "upstream_auth_failure_detail (ErrStep c detail) =
     (if c = rpc_code_name (-32004)
      then Some (neutralise_controls (concat (take STEP_ERR_DETAIL_MAX (chars detail)))) else None)"
| "upstream_auth_failure_detail (OkStep v) = None"

section \<open>The dispatcher\<close>

record ToolRegistry =
  tr_entries :: "rstr \<rightharpoonup> ToolEntry"
  tr_methods :: "rstr \<rightharpoonup> rstr list"

definition methods_for :: "ToolRegistry \<Rightarrow> rstr \<Rightarrow> rstr list" where
  "methods_for reg name = (case tr_methods reg name of None \<Rightarrow> [] | Some ms \<Rightarrow> ms)"

definition HANDOFF_TOOL :: rstr where "HANDOFF_TOOL = ''handoff''"
definition HANDOFF_METHOD_FETCH :: rstr where "HANDOFF_METHOD_FETCH = ''fetch''"
definition SCHEDULER_AUDIT_ACTOR :: rstr where "SCHEDULER_AUDIT_ACTOR = ''scheduler''"

definition is_handoff_fetch :: "rstr \<Rightarrow> rstr \<Rightarrow> bool" where
  "is_handoff_fetch tool meth \<longleftrightarrow>
     tool = HANDOFF_TOOL \<and>
     (case strip_prefix meth ''handoff.'' of None \<Rightarrow> meth | Some m \<Rightarrow> m) = HANDOFF_METHOD_FETCH"

definition build_scheduler_step_failure_payload :: "rstr \<Rightarrow> rstr \<Rightarrow> json \<Rightarrow> rstr option \<Rightarrow> nat \<Rightarrow> json" where
  "build_scheduler_step_failure_payload tool meth req err ms =
     jobj ([(''tool'', JStr tool), (''method'', JStr meth), (''req'', req)] @
       (case err of None \<Rightarrow> [] | Some e \<Rightarrow> [(''err'', JStr e)]) @ [(''ms'', JInt (int ms))])"

definition wants_workspace_out :: "rstr \<Rightarrow> bool" where
  "wants_workspace_out tool_name \<longleftrightarrow> tool_name = ''mail''"

definition apply_task_out :: "rstr \<Rightarrow> ToolEntry \<Rightarrow> rstr option \<Rightarrow> ToolEntry option" where
  "apply_task_out tool base out_dir =
     (if \<not> wants_workspace_out tool then None
      else case out_dir of
             None \<Rightarrow> None
           | Some dir \<Rightarrow> Some (base\<lparr>te_policy := apply_workspace_out dir (te_policy base)\<rparr>))"

fun show_substitute_error :: "SubstituteError \<Rightarrow> rstr" where
  "show_substitute_error (MissingRef h reason) =
     ''substitute: ref '' @ h @ '' missing from vault (reason: '' @ missing_reason_str reason @ '')''"
| "show_substitute_error (PlaintextNotUtf8 h) = ''substitute: ref '' @ h @ '' plaintext is not valid UTF-8''"

text \<open>\<^verbatim>\<open>SandboxErr\<close> and \<^verbatim>\<open>IoErr\<close> hold the inner error as it is printed.\<close>

fun show_tool_host_error :: "(json \<Rightarrow> rstr) \<Rightarrow> ToolHostError \<Rightarrow> rstr" where
  "show_tool_host_error dbg (SandboxErr e) = ''sandbox: '' @ e"
| "show_tool_host_error dbg (IoErr e) = ''io: '' @ e"
| "show_tool_host_error dbg (Protocol e) = ''protocol: '' @ show_client_error dbg e"
| "show_tool_host_error dbg (SecretRedemptionFailed e) = ''tool_host: secret redemption failed: '' @ show_substitute_error e"
| "show_tool_host_error dbg (EgressProvisionFailed e) = ''tool_host: egress leak-scanner provisioning failed: '' @ e"

record StepEnv =
  se_dispatch :: DispatchEnv
  se_ser :: "json \<Rightarrow> rstr"
  se_registry :: ToolRegistry
  se_backoff :: RestartBackoff
  se_spawn :: "rstr \<Rightarrow> ToolEntry \<Rightarrow> nat \<Rightarrow> ToolHostError + worker"

record StepState =
  ss_dispatch :: DispatchState
  ss_cache :: HandoffCache
  ss_slots :: "rstr \<Rightarrow> ToolState"
  ss_task_out_dirs :: "int \<rightharpoonup> rstr"

definition set_task_out_dir :: "int \<Rightarrow> rstr \<Rightarrow> StepState \<Rightarrow> StepState" where
  "set_task_out_dir task_id out_dir st = st\<lparr>ss_task_out_dirs := (ss_task_out_dirs st)(task_id \<mapsto> out_dir)\<rparr>"

definition dispatcher_purge_task :: "int \<Rightarrow> StepState \<Rightarrow> StepState" where
  "dispatcher_purge_task task_id st =
     st\<lparr>ss_cache := purge_task task_id (ss_cache st), ss_task_out_dirs := (ss_task_out_dirs st)(task_id := None)\<rparr>"

definition stashed :: "(rstr \<Rightarrow> json option) \<Rightarrow> int \<Rightarrow> rstr \<Rightarrow> StepState \<Rightarrow> json option" where
  "stashed de task_id r st = whole de task_id r (ss_cache st)"

definition step_log :: "DispatchEvent \<Rightarrow> StepState \<Rightarrow> StepState" where
  "step_log ev st = st\<lparr>ss_dispatch := log_event ev (ss_dispatch st)\<rparr>"

definition read_clock :: "StepEnv \<Rightarrow> StepState \<Rightarrow> StepState \<times> nat" where
  "read_clock env st =
     (st\<lparr>ss_dispatch := (ss_dispatch st)\<lparr>ds_tick := Suc (ds_tick (ss_dispatch st))\<rparr>\<rparr>,
      de_clk (se_dispatch env) (ds_tick (ss_dispatch st)))"

definition step_elapsed :: "StepEnv \<Rightarrow> nat \<Rightarrow> StepState \<Rightarrow> StepState \<times> nat" where
  "step_elapsed env started st =
     (case elapsed (se_dispatch env) started (ss_dispatch st) of (d, ms) \<Rightarrow> (st\<lparr>ss_dispatch := d\<rparr>, ms))"

definition fetch_row :: "int \<Rightarrow> json \<Rightarrow> rstr \<Rightarrow> nat \<Rightarrow> DispatchEvent" where
  "fetch_row task_id params outcome ms =
     Row ''policy'' ''handoff.fetched''
       (jobj [(''task_id'', JInt task_id), (''handoff_ref'', opt_json id (json_get params ''handoff_ref'')),
          (''offset'', opt_json id (json_get params ''offset'')), (''len'', opt_json id (json_get params ''len'')),
          (''outcome'', JStr outcome), (''ms'', JInt (int ms))])"

definition dispatch_fetch :: "StepEnv \<Rightarrow> int \<Rightarrow> PlannedStep \<Rightarrow> nat \<Rightarrow> StepState \<Rightarrow> StepState \<times> StepOutcome" where
  "dispatch_fetch env task_id step started st =
     (case step_elapsed env started st of (st1, ms) \<Rightarrow>
        (case (case fetch task_id (step_parameters step) (ss_cache st) of
                 FetchOk v \<Rightarrow> (''ok'', OkStep (screen_fetched_data (se_dispatch env) v))
               | FetchNotFound detail \<Rightarrow> (''not_found'', ErrStep ''HANDOFF_NOT_FOUND'' detail)
               | FetchInvalidParams detail \<Rightarrow> (''invalid_params'', ErrStep ''INVALID_PARAMS'' detail)) of
           (label, outcome) \<Rightarrow> (step_log (fetch_row task_id (step_parameters step) label ms) st1, outcome)))"

definition unknown_tool :: "StepEnv \<Rightarrow> PlannedStep \<Rightarrow> nat \<Rightarrow> StepState \<Rightarrow> StepState \<times> StepOutcome" where
  "unknown_tool env step started st =
     (case step_elapsed env started st of (st1, ms) \<Rightarrow>
        (step_log (Row SCHEDULER_AUDIT_ACTOR ''step.unknown_tool''
           (build_scheduler_step_failure_payload (step_tool step) (step_method step) (step_parameters step) None ms)) st1,
         ErrStep ''UNKNOWN_TOOL'' (''tool '' @ [CHR 0x27] @ step_tool step @ [CHR 0x27] @ '' not registered'')))"

definition spawn_failed :: "StepEnv \<Rightarrow> PlannedStep \<Rightarrow> nat \<Rightarrow> ToolHostError \<Rightarrow> StepState \<Rightarrow> StepState \<times> StepOutcome" where
  "spawn_failed env step started e st =
     (let err = show_tool_host_error (de_dbg (se_dispatch env)) e in
      case step_elapsed env started st of (st1, ms) \<Rightarrow>
        (step_log (Row SCHEDULER_AUDIT_ACTOR ''step.spawn_failed''
           (build_scheduler_step_failure_payload (step_tool step) (step_method step) (step_parameters step) (Some err) ms)) st1,
         ErrStep ''SPAWN_FAILED'' err))"

text \<open>The result on its way out: over the cap it is stashed and replaced by its placeholder.\<close>

definition stash_result :: "StepEnv \<Rightarrow> int \<Rightarrow> PlannedStep \<Rightarrow> ToolHostError + json \<Rightarrow> StepState \<Rightarrow> StepState \<times> (ToolHostError + json)" where
  "stash_result env task_id step result st =
     (case result of
        Inl e \<Rightarrow> (st, Inl e)
      | Inr v \<Rightarrow>
          (if task_id > 0
           then (case stash_if_oversized (de_sha (se_dispatch env)) (se_ser env) task_id v DEFAULT_RESULT_BYTE_CAP (ss_cache st) of
                   (c, None) \<Rightarrow> (st\<lparr>ss_cache := c\<rparr>, Inr v)
                 | (c, Some stash) \<Rightarrow>
                     (step_log (Row ''policy'' ''handoff.stashed''
                        (jobj [(''task_id'', JInt task_id), (''tool'', JStr (step_tool step)), (''method'', JStr (step_method step)),
                           (''handoff_ref'', JStr (so_handoff_ref stash)), (''byte_len'', JInt (int (so_byte_len stash)))]))
                        (st\<lparr>ss_cache := c\<rparr>), Inr (so_placeholder stash)))
           else (st, Inr v)))"

fun idle_caps :: "Lifecycle \<Rightarrow> IdleTimeoutCaps" where
  "idle_caps (IdleTimeout caps contract) = caps"
| "idle_caps SingleUse = \<lparr>idle_seconds = 0, max_requests = 0, max_age_seconds = 0, grace_period_seconds = 0\<rparr>"

fun handle_report_crash :: "LifecycleHandle \<Rightarrow> LifecycleHandle" where
  "handle_report_crash (IdleTimeoutHandle h) = IdleTimeoutHandle (report_crash h)"
| "handle_report_crash (SingleUseHandle w) = SingleUseHandle w"

text \<open>From the acquired worker to the outcome: dispatch, tell the lifecycle, stash, map.\<close>

definition dispatch_acquired ::
    "StepEnv \<Rightarrow> int \<Rightarrow> PlannedStep \<Rightarrow> ToolEntry \<Rightarrow> LifecycleHandle \<Rightarrow> StepState \<Rightarrow> StepState \<times> StepOutcome" where
  "dispatch_acquired env task_id step entry handle st =
     (let meth = (case qualified_method (step_method step) (methods_for (se_registry env) (step_tool step)) of
                    None \<Rightarrow> step_method step
                  | Some m \<Rightarrow> m)
      in case dispatch_with_sink (se_dispatch env) (step_tool step) meth (step_parameters step) (ss_dispatch st) of
           (d, result) \<Rightarrow>
             (let handle = (if dispatch_indicates_worker_dead result then handle_report_crash handle else handle) in
              case read_clock env (st\<lparr>ss_dispatch := d\<rparr>) of
                (st1, now) \<Rightarrow>
                  (case drop_handle (idle_caps (te_lifecycle entry)) (se_backoff env) now handle (ss_slots st1 (step_tool step)) of
                     (slot, dropped) \<Rightarrow>
                       (case stash_result env task_id step result
                               (st1\<lparr>ss_slots := (ss_slots st1)(step_tool step := slot)\<rparr>) of
                          (st2, result) \<Rightarrow> (st2, map_dispatch_result (de_dbg (se_dispatch env)) result)))))"

definition dispatch_step :: "StepEnv \<Rightarrow> int \<Rightarrow> PlannedStep \<Rightarrow> StepState \<Rightarrow> StepState \<times> StepOutcome" where
  "dispatch_step env task_id step st =
     (case read_clock env st of
        (st, started) \<Rightarrow>
          (if is_handoff_fetch (step_tool step) (step_method step) then dispatch_fetch env task_id step started st
           else
             case tr_entries (se_registry env) (step_tool step) of
               None \<Rightarrow> unknown_tool env step started st
             | Some entry0 \<Rightarrow>
                 (let entry = (case apply_task_out (step_tool step) entry0 (ss_task_out_dirs st task_id) of
                                 None \<Rightarrow> entry0
                               | Some e \<Rightarrow> e)
                  in case read_clock env st of
                       (st, now) \<Rightarrow>
                         (case read_clock env st of
                            (st, at) \<Rightarrow>
                              (case acquire (te_lifecycle entry) now (se_spawn env (step_tool step) entry now) at
                                      (ss_slots st (step_tool step)) of
                                 (slot, dropped, r) \<Rightarrow>
                                   (let st = st\<lparr>ss_slots := (ss_slots st)(step_tool step := slot)\<rparr> in
                                    case r of
                                      Inl e \<Rightarrow> spawn_failed env step started e st
                                    | Inr handle \<Rightarrow> dispatch_acquired env task_id step entry handle st))))))"

section \<open>Qualification is unambiguous\<close>

lemma qualified_method_Some:
  "qualified_method requested advertised = Some m \<longleftrightarrow>
     requested \<notin> set advertised \<and> CHR ''.'' \<notin> set requested \<and>
     filter (\<lambda>n. ends_with n (''.'' @ requested)) advertised = [m]"
  by (auto simp: qualified_method_def split: list.splits)

section \<open>What a fetch lets through\<close>

lemma json_get_withhold: "json_get (withhold env v verdict) ''data'' = Some (JStr WITHHELD_FETCH)"
  by (cases v)
    (simp_all add: withhold.simps Let_def map_of_fold_obj_insert json_get_jobj
      INJECTION_BLOCKED_KEY_def SCORE_KEY_def REASON_CODES_KEY_def)

definition fetch_cleared :: "DispatchEnv \<Rightarrow> json \<Rightarrow> bool" where
  "fetch_cleared env v \<longleftrightarrow>
     (\<exists>s. json_get v ''data'' = Some (JStr s) \<and>
       (s = WITHHELD_FETCH \<or> iv_decision (screen_with_profile (de_lower env) s Strict) = AllowOutput))"

lemma screen_fetched_cleared:
  assumes "json_get v ''data'' = Some (JStr s)"
  shows "fetch_cleared env (screen_fetched_data env v)"
proof (cases "iv_decision (screen_with_profile (de_lower env) s Strict)")
  case AllowOutput
  then show ?thesis using assms by (auto simp: fetch_cleared_def screen_fetched_data_def Let_def)
next
  case BlockOutput
  then have "screen_fetched_data env v = withhold env v (screen_with_profile (de_lower env) s Strict)"
    using assms by (simp add: screen_fetched_data_def Let_def)
  then show ?thesis unfolding fetch_cleared_def by (metis json_get_withhold)
qed

lemma fetch_has_data: "fetch t params c = FetchOk v \<Longrightarrow> \<exists>s. json_get v ''data'' = Some (JStr s)"
  by (auto simp: fetch_def Let_def split: option.splits if_splits)

section \<open>What a dispatched step returns\<close>

definition screened_answer :: "DispatchEnv \<Rightarrow> rstr \<Rightarrow> json \<Rightarrow> bool" where
  "screened_answer env tool w \<longleftrightarrow>
     (\<exists>score codes. w = injection_blocked_placeholder score codes) \<or> admitted env tool w"

lemma screened_screen_result: "screened_answer env tool (sco_value (screen_result env tool v))"
  using screen_result_cases [of env tool v] by (metis screened_answer_def)

lemma dispatch_screened: "dispatch_with_sink env tool meth params st = (st', Inr w) \<Longrightarrow> screened_answer env tool w"
  by (erule dispatch_cases) (auto elim!: finalize_cases simp: screened_screen_result)

lemma dispatch_calls:
  assumes "dispatch_with_sink env tool meth params st = (st', res)"
  shows "calls (ds_trace st') = calls (ds_trace st) \<or>
    calls (ds_trace st') = calls (ds_trace st) @ [(meth, reveal (bound (ds_vault st)) params)] \<and>
    (\<forall>r \<in> set (for_each_ref params). bound (ds_vault st) r \<noteq> None)"
  using assms
proof (cases rule: dispatch_cases)
  case (stopped e)
  then show ?thesis using rows_only_calls by blast
next
  case (called st1 st2 ms)
  have "calls (ds_trace st') = calls (ds_trace st2)" using finalize_rows [OF called(5)] rows_only_calls by blast
  also have "\<dots> = calls (ds_trace st) @ [(meth, reveal (bound (ds_vault st)) params)]"
    using called(4) rows_only_calls [OF called(1)] by simp
  finally show ?thesis using called(3) by auto
qed

lemma read_clock_calls [simp]:
  "calls (ds_trace (ss_dispatch (fst (read_clock env st)))) = calls (ds_trace (ss_dispatch st))"
  by (simp add: read_clock_def)

lemma step_log_row_calls [simp]:
  "calls (ds_trace (ss_dispatch (step_log (Row a act p) st))) = calls (ds_trace (ss_dispatch st))"
  by (simp add: step_log_def log_event_def)

lemma step_elapsed_calls: "step_elapsed env t st = (st', ms) \<Longrightarrow> calls (ds_trace (ss_dispatch st')) = calls (ds_trace (ss_dispatch st)) \<and> ss_cache st' = ss_cache st"
  by (auto simp: step_elapsed_def elapsed_def)

lemma stash_result_cases:
  assumes "stash_result env t step result st = (st', result')" and "cache_inv (de_sha (se_dispatch env)) (ss_cache st)"
  obtains (error) e where "result = Inl e" "result' = Inl e" "st' = st"
    | (small) w where "result = Inr w" "result' = Inr w" "ss_cache st' = ss_cache st" "ss_dispatch st' = ss_dispatch st"
        "t \<le> 0 \<or> length (se_ser env w) \<le> DEFAULT_RESULT_BYTE_CAP"
    | (big) w b where "result = Inr w" "t > 0" "DEFAULT_RESULT_BYTE_CAP < length (se_ser env w)"
        "result' = Inr (build_handoff_placeholder w (HandoffRef_of (de_sha (se_dispatch env)) (str_bytes (se_ser env w))) (length (se_ser env w)))"
        "stored (ss_cache st') t (HandoffRef_of (de_sha (se_dispatch env)) (str_bytes (se_ser env w))) = Some b"
        "b = str_bytes (se_ser env w) \<or> stored (ss_cache st) t (HandoffRef_of (de_sha (se_dispatch env)) (str_bytes (se_ser env w))) = Some b"
        "cache_inv (de_sha (se_dispatch env)) (ss_cache st')"
        "calls (ds_trace (ss_dispatch st')) = calls (ds_trace (ss_dispatch st))"
proof (cases result)
  case (Inl e)
  then show thesis using assms(1) by (intro error [of e]) (auto simp: stash_result_def)
next
  case (Inr w)
  let ?sha = "de_sha (se_dispatch env)" and ?body = "str_bytes (se_ser env w)"
  show thesis
  proof (cases "t > 0 \<and> DEFAULT_RESULT_BYTE_CAP < length (se_ser env w)")
    case False
    then show thesis using assms(1) Inr
      by (intro small [of w]) (auto simp: stash_result_def stash_if_oversized_def str_bytes_def Let_def split: if_splits)
  next
    case True
    obtain c r where p: "put ?sha t ?body (ss_cache st) = (c, r)" by fastforce
    note s = put_stored [OF p assms(2)] and i = put_inv [OF p assms(2)]
    have r': "result' = Inr (build_handoff_placeholder w r (length (se_ser env w)))"
      and c': "ss_cache st' = c" and k': "calls (ds_trace (ss_dispatch st')) = calls (ds_trace (ss_dispatch st))"
      using assms(1) Inr True p
      by (auto simp: stash_result_def stash_if_oversized_def str_bytes_def Let_def step_log_def log_event_def)
    obtain b where b: "stored c t r = Some b" "b = ?body \<or> stored (ss_cache st) t r = Some b"
      using s(2) by (auto split: option.splits)
    show thesis by (rule big [of w b]) (use Inr True r' c' k' b s(1) i in auto)
  qed
qed

text \<open>How a screened result reaches the loop.\<close>

definition delivered :: "StepEnv \<Rightarrow> int \<Rightarrow> StepState \<Rightarrow> StepState \<Rightarrow> json \<Rightarrow> StepOutcome \<Rightarrow> bool" where
  "delivered env t st st' w outcome \<longleftrightarrow>
     (let body = str_bytes (se_ser env w); r = HandoffRef_of (de_sha (se_dispatch env)) body in
      if t > 0 \<and> DEFAULT_RESULT_BYTE_CAP < length (se_ser env w)
      then outcome = OkStep (build_handoff_placeholder w r (length (se_ser env w))) \<and>
           (\<exists>b. stored (ss_cache st') t r = Some b \<and> (b = body \<or> stored (ss_cache st) t r = Some b))
      else outcome = OkStep w)"

lemma dispatch_acquired_cases:
  assumes "dispatch_acquired env t step entry h st = (st', outcome)"
  obtains d meth result st2 result' where
    "dispatch_with_sink (se_dispatch env) (step_tool step) meth (step_parameters step) (ss_dispatch st) = (d, result)"
    "meth = step_method step \<or> qualified_method (step_method step) (methods_for (se_registry env) (step_tool step)) = Some meth"
    "calls (ds_trace (ss_dispatch st2)) = calls (ds_trace d)" "ss_cache st2 = ss_cache st"
    "stash_result env t step result st2 = (st', result')"
    "outcome = map_dispatch_result (de_dbg (se_dispatch env)) result'"
proof -
  define meth where "meth = (case qualified_method (step_method step) (methods_for (se_registry env) (step_tool step)) of
      None \<Rightarrow> step_method step | Some m \<Rightarrow> m)"
  obtain d result where d: "dispatch_with_sink (se_dispatch env) (step_tool step) meth (step_parameters step) (ss_dispatch st) = (d, result)"
    by fastforce
  define st1 where "st1 = fst (read_clock env (st\<lparr>ss_dispatch := d\<rparr>))"
  obtain now where now: "read_clock env (st\<lparr>ss_dispatch := d\<rparr>) = (st1, now)" by (metis prod.exhaust_sel st1_def)
  have s1: "calls (ds_trace (ss_dispatch st1)) = calls (ds_trace d)" "ss_cache st1 = ss_cache st"
    by (simp_all add: st1_def read_clock_def)
  define handle where "handle = (if dispatch_indicates_worker_dead result then handle_report_crash h else h)"
  obtain slot dropped where dr: "drop_handle (idle_caps (te_lifecycle entry)) (se_backoff env) now handle (ss_slots st1 (step_tool step)) = (slot, dropped)"
    by fastforce
  obtain result' where "stash_result env t step result (st1\<lparr>ss_slots := (ss_slots st1)(step_tool step := slot)\<rparr>) = (st', result')"
    "outcome = map_dispatch_result (de_dbg (se_dispatch env)) result'"
    using assms unfolding dispatch_acquired_def Let_def meth_def [symmetric] d prod.case now handle_def [symmetric] dr
    by (auto split: prod.splits)
  then show thesis using d s1 by (intro that [of meth d result "st1\<lparr>ss_slots := (ss_slots st1)(step_tool step := slot)\<rparr>" result'])
    (auto simp: meth_def split: option.splits)
qed

lemma dispatch_acquired_result:
  assumes "dispatch_acquired env t step entry h st = (st', outcome)" and "cache_inv (de_sha (se_dispatch env)) (ss_cache st)"
  shows "cache_inv (de_sha (se_dispatch env)) (ss_cache st') \<and>
    ((\<exists>c detail. outcome = ErrStep c detail) \<or>
     (\<exists>w. screened_answer (se_dispatch env) (step_tool step) w \<and> delivered env t st st' w outcome))"
  using assms(1)
proof (cases rule: dispatch_acquired_cases)
  case (1 d meth result st2 result')
  have inv: "cache_inv (de_sha (se_dispatch env)) (ss_cache st2)" using assms(2) 1(4) by simp
  from 1(5) inv show ?thesis
  proof (cases rule: stash_result_cases)
    case (error e)
    have "\<exists>c detail. map_dispatch_result dbg (Inl e) = ErrStep c detail" for dbg
      by (cases "(dbg, Inl e :: ToolHostError + json)" rule: map_dispatch_result.cases) auto
    with error 1(6) inv show ?thesis by auto
  next
    case (small w)
    with 1 inv dispatch_screened [of "se_dispatch env" "step_tool step" meth "step_parameters step" "ss_dispatch st" d w]
    show ?thesis by (auto simp: delivered_def Let_def)
  next
    case (big w b)
    with 1 inv dispatch_screened [of "se_dispatch env" "step_tool step" meth "step_parameters step" "ss_dispatch st" d w]
    show ?thesis by (auto simp: delivered_def Let_def)
  qed
qed

lemma dispatch_acquired_calls:
  assumes "dispatch_acquired env t step entry h st = (st', outcome)" and "cache_inv (de_sha (se_dispatch env)) (ss_cache st)"
  shows "calls (ds_trace (ss_dispatch st')) = calls (ds_trace (ss_dispatch st)) \<or>
    (\<exists>meth. calls (ds_trace (ss_dispatch st')) = calls (ds_trace (ss_dispatch st)) @
        [(meth, reveal (bound (ds_vault (ss_dispatch st))) (step_parameters step))] \<and>
      (meth = step_method step \<or> qualified_method (step_method step) (methods_for (se_registry env) (step_tool step)) = Some meth) \<and>
      (\<forall>r \<in> set (for_each_ref (step_parameters step)). bound (ds_vault (ss_dispatch st)) r \<noteq> None))"
  using assms(1)
proof (cases rule: dispatch_acquired_cases)
  case (1 d meth result st2 result')
  have inv: "cache_inv (de_sha (se_dispatch env)) (ss_cache st2)" using assms(2) 1(4) by simp
  from 1(5) inv have "calls (ds_trace (ss_dispatch st')) = calls (ds_trace d)"
    by (cases rule: stash_result_cases) (use 1(3) in auto)
  with dispatch_calls [OF 1(1)] 1(2) show ?thesis by auto
qed

text \<open>A step by its kinds.\<close>

lemma dispatch_step_cases:
  assumes "dispatch_step env t step st = (st', outcome)"
  obtains (fetched) started st1 where "is_handoff_fetch (step_tool step) (step_method step)"
      "dispatch_fetch env t step started st1 = (st', outcome)" "ss_cache st1 = ss_cache st"
      "calls (ds_trace (ss_dispatch st1)) = calls (ds_trace (ss_dispatch st))"
    | (refused) c detail where "\<not> is_handoff_fetch (step_tool step) (step_method step)" "outcome = ErrStep c detail"
      "tr_entries (se_registry env) (step_tool step) = None \<Longrightarrow> c = ''UNKNOWN_TOOL''"
      "calls (ds_trace (ss_dispatch st')) = calls (ds_trace (ss_dispatch st))" "ss_cache st' = ss_cache st"
    | (acquired) entry h st1 where "\<not> is_handoff_fetch (step_tool step) (step_method step)"
      "tr_entries (se_registry env) (step_tool step) \<noteq> None"
      "dispatch_acquired env t step entry h st1 = (st', outcome)" "ss_cache st1 = ss_cache st"
      "calls (ds_trace (ss_dispatch st1)) = calls (ds_trace (ss_dispatch st))"
      "ds_vault (ss_dispatch st1) = ds_vault (ss_dispatch st)"
proof (cases "is_handoff_fetch (step_tool step) (step_method step)")
  case True
  then show thesis using assms by (intro fetched [of "de_clk (se_dispatch env) (ds_tick (ss_dispatch st))"
        "st\<lparr>ss_dispatch := (ss_dispatch st)\<lparr>ds_tick := Suc (ds_tick (ss_dispatch st))\<rparr>\<rparr>"])
      (simp_all add: dispatch_step_def read_clock_def)
next
  case fetch: False
  show thesis
  proof (cases "tr_entries (se_registry env) (step_tool step)")
    case None
    then show thesis using assms fetch
      by (intro refused [of "''UNKNOWN_TOOL''"])
        (auto simp: dispatch_step_def read_clock_def unknown_tool_def step_elapsed_def elapsed_def step_log_def log_event_def)
  next
    case (Some entry0)
    obtain st1 started where c1: "read_clock env st = (st1, started)" by fastforce
    obtain st2 now where c2: "read_clock env st1 = (st2, now)" by fastforce
    obtain st3 at where c3: "read_clock env st2 = (st3, at)" by fastforce
    have s3: "ss_cache st3 = ss_cache st" "calls (ds_trace (ss_dispatch st3)) = calls (ds_trace (ss_dispatch st))"
      "ds_vault (ss_dispatch st3) = ds_vault (ss_dispatch st)"
      using c1 c2 c3 by (auto simp: read_clock_def)
    define entry where "entry = (case apply_task_out (step_tool step) entry0 (ss_task_out_dirs st1 t) of None \<Rightarrow> entry0 | Some e \<Rightarrow> e)"
    obtain slot dropped r where a: "acquire (te_lifecycle entry) now (se_spawn env (step_tool step) entry now) at
        (ss_slots st3 (step_tool step)) = (slot, dropped, r)" by (metis prod.exhaust)
    have s: "(case r of
             Inl e \<Rightarrow> spawn_failed env step started e (st3\<lparr>ss_slots := (ss_slots st3)(step_tool step := slot)\<rparr>)
           | Inr handle \<Rightarrow> dispatch_acquired env t step entry handle (st3\<lparr>ss_slots := (ss_slots st3)(step_tool step := slot)\<rparr>)) = (st', outcome)"
      using assms unfolding dispatch_step_def c1 prod.case Some option.case Let_def if_not_P [OF fetch] entry_def [symmetric] c2 c3 a .
    show thesis
    proof (cases r)
      case (Inl e)
      then show thesis using s fetch Some s3
        by (intro refused [of "''SPAWN_FAILED''"])
          (auto simp: spawn_failed_def step_elapsed_def elapsed_def step_log_def log_event_def Let_def)
    next
      case (Inr h)
      then show thesis using s fetch Some s3
        by (intro acquired [of entry h "st3\<lparr>ss_slots := (ss_slots st3)(step_tool step := slot)\<rparr>"]) auto
    qed
  qed
qed

end
