(* ===== verification/Dispatch_Spec.thy ===== *)
theory Dispatch_Spec
  imports Step_Dispatch
begin

text \<open>
  What a dispatched step promises: when a worker is called and with what, what comes back from it,
  what the audit log records, and the invariants of the vault, the handoff cache and a warm slot.
\<close>

section \<open>A small world\<close>

text \<open>A dispatcher with one tool that answers what \<open>worker\<close> says, a vault with one entry, and a clock that is
  stopped or jumps past the expiry after the second reading.\<close>

definition demo_dispatch_env :: "(rstr \<Rightarrow> json \<Rightarrow> ClientError + json) \<Rightarrow> (nat \<Rightarrow> nat) \<Rightarrow> DispatchEnv" where
  "demo_dispatch_env worker clk =
     \<lparr>de_sha = (\<lambda>bs. bs), de_lower = (\<lambda>s. s), de_order = (\<lambda>ns. ns), de_clk = clk, de_worker = worker, de_guard = None,
      de_egress = Some None, de_dbg = (\<lambda>_. []), de_score = (\<lambda>n. JInt (int n)), de_f32 = (\<lambda>_. JNull)\<rparr>"

definition demo_plaintext :: rstr where "demo_plaintext = ''hunter2hunter2''"
definition demo_ref :: rstr where "demo_ref = ''secret://0a0b0c0d''"

definition demo_vault :: Vault where
  "demo_vault = \<lparr>v_ttl = 5, v_map = [demo_ref \<mapsto> \<lparr>plaintext = str_bytes demo_plaintext, expires_at = 5\<rparr>]\<rparr>"

definition demo_dispatch :: DispatchState where
  "demo_dispatch = \<lparr>ds_vault = demo_vault, ds_tick = 0, ds_hashes = [], ds_trace = []\<rparr>"

definition demo_entry :: ToolEntry where
  "demo_entry = \<lparr>te_binary = ''/bin/tool'', te_policy = SandboxPolicy_default, te_wall_clock_ms = None, te_lifecycle = SingleUse,
     te_sandbox_backend = None, te_container_image = None, te_lockdown_shim = None, te_ephemeral_scratch = False, te_broker = None\<rparr>"

definition demo_step_env :: StepEnv where
  "demo_step_env = \<lparr>se_dispatch = demo_dispatch_env (\<lambda>m p. Inr (JBool True)) (\<lambda>_. 0), se_ser = (\<lambda>_. []),
     se_registry = \<lparr>tr_entries = [''tool'' \<mapsto> demo_entry], tr_methods = [''tool'' \<mapsto> [''tool.run'', ''tool.stop'']]\<rparr>,
     se_backoff = RestartBackoff_default, se_spawn = (\<lambda>_ _ _. Inr 0)\<rparr>"

definition demo_step_state :: StepState where
  "demo_step_state = \<lparr>ss_dispatch = demo_dispatch, ss_cache = HandoffCache_new, ss_slots = (\<lambda>_. ToolState_fresh), ss_task_out_dirs = Map.empty\<rparr>"

definition demo_tool_step :: PlannedStep where
  "demo_tool_step = \<lparr>step_tool = ''tool'', step_method = ''run'', step_parameters = JStr demo_ref, step_returns = [], step_done_when = [],
     step_classification = Public\<rparr>"

lemma demo_cache: "cache_inv sha (ss_cache demo_step_state)"
  by (simp add: demo_step_state_def HandoffCache_new_def cache_inv_def)

section \<open>Calling a worker\<close>

text \<open>C4. A step calls a worker at most once. If it does, the step is not a read of the handoff cache, its tool is
  registered, the method is the planned one or the only advertised one it abbreviates, every
  secret reference of the parameters is bound in the vault, and the parameters sent are the planned ones with
  exactly the references replaced by what they are bound to.\<close>

theorem step_call_sound:
  assumes "dispatch_step env t step st = (st', outcome)"
    and "cache_inv (de_sha (se_dispatch env)) (ss_cache st)"
    and "calls (ds_trace (ss_dispatch st')) \<noteq> calls (ds_trace (ss_dispatch st))"
  shows "\<exists>meth. calls (ds_trace (ss_dispatch st')) =
      calls (ds_trace (ss_dispatch st)) @ [(meth, reveal (bound (ds_vault (ss_dispatch st))) (step_parameters step))] \<and>
    \<not> is_handoff_fetch (step_tool step) (step_method step) \<and> tr_entries (se_registry env) (step_tool step) \<noteq> None \<and>
    (meth = step_method step \<or>
     filter (\<lambda>m. ends_with m (''.'' @ step_method step)) (methods_for (se_registry env) (step_tool step)) = [meth]) \<and>
    (\<forall>r \<in> set (for_each_ref (step_parameters step)). bound (ds_vault (ss_dispatch st)) r \<noteq> None)"
  using assms(1)
proof (cases rule: dispatch_step_cases)
  case (fetched started st1)
  then show ?thesis using assms(3)
    by (auto simp: dispatch_fetch_def fetch_row_def split: prod.splits FetchResult.splits dest!: step_elapsed_calls)
next
  case (refused c detail)
  then show ?thesis using assms(3) by simp
next
  case (acquired entry h st1)
  have "cache_inv (de_sha (se_dispatch env)) (ss_cache st1)" using assms(2) acquired(4) by simp
  with acquired dispatch_acquired_calls [OF acquired(3)] assms(3) show ?thesis by (auto simp: qualified_method_Some)
qed

theorem step_call_sound_witness:
  "\<exists>meth. calls (ds_trace (ss_dispatch (fst (dispatch_step demo_step_env 1 demo_tool_step demo_step_state)))) =
      calls (ds_trace (ss_dispatch demo_step_state)) @
        [(meth, reveal (bound (ds_vault (ss_dispatch demo_step_state))) (step_parameters demo_tool_step))]"
proof -
  have "calls (ds_trace (ss_dispatch (fst (dispatch_step demo_step_env 1 demo_tool_step demo_step_state)))) \<noteq>
      calls (ds_trace (ss_dispatch demo_step_state))" by code_simp
  from step_call_sound [OF prod.collapse [symmetric] demo_cache this] show ?thesis by blast
qed

text \<open>C5. What a step hands back has been screened. A slice read from the handoff cache carries data that passes the
  strict screen, or the withholding note. Any other successful outcome is a withheld placeholder or a value the
  screens of its tool admit; when its text is over the cap and the task is known, the outcome is a placeholder
  whose reference is stored for the task.\<close>

theorem step_outcome_screened:
  assumes "dispatch_step env t step st = (st', OkStep v)" and "cache_inv (de_sha (se_dispatch env)) (ss_cache st)"
  shows "if is_handoff_fetch (step_tool step) (step_method step) then fetch_cleared (se_dispatch env) v
    else \<exists>w. screened_answer (se_dispatch env) (step_tool step) w \<and> delivered env t st st' w (OkStep v)"
  using assms(1)
proof (cases rule: dispatch_step_cases)
  case (fetched started st1)
  then obtain v0 where "fetch t (step_parameters step) (ss_cache st) = FetchOk v0"
    "v = screen_fetched_data (se_dispatch env) v0"
    by (auto simp: dispatch_fetch_def split: prod.splits FetchResult.splits)
  with fetched(1) fetch_has_data screen_fetched_cleared show ?thesis by metis
next
  case (refused c detail)
  then show ?thesis by simp
next
  case (acquired entry h st1)
  have "cache_inv (de_sha (se_dispatch env)) (ss_cache st1)" using assms(2) acquired(4) by simp
  moreover have "delivered env t st1 = delivered env t st" by (simp add: fun_eq_iff delivered_def acquired(4))
  ultimately show ?thesis using dispatch_acquired_result [OF acquired(3)] acquired(1) by simp
qed

theorem step_outcome_screened_witness:
  "\<exists>w. screened_answer (se_dispatch demo_step_env) (step_tool demo_tool_step) w \<and>
     delivered demo_step_env 1 demo_step_state (fst (dispatch_step demo_step_env 1 demo_tool_step demo_step_state)) w (OkStep (JBool True))"
proof -
  have "snd (dispatch_step demo_step_env 1 demo_tool_step demo_step_state) = OkStep (JBool True)" by code_simp
  then have "dispatch_step demo_step_env 1 demo_tool_step demo_step_state =
      (fst (dispatch_step demo_step_env 1 demo_tool_step demo_step_state), OkStep (JBool True))" by (metis prod.collapse)
  moreover have "\<not> is_handoff_fetch (step_tool demo_tool_step) (step_method demo_tool_step)" by code_simp
  ultimately show ?thesis using step_outcome_screened [OF _ demo_cache] by metis
qed

text \<open>The log of a successful call holds one row of the tool whose request is the parameters before substitution and
  whose result is the value handed back, and nothing after the worker's call is another call.\<close>

theorem tool_row_records_call:
  assumes "dispatch_with_sink env tool meth params st = (st', Inr w)"
  shows "\<exists>pre payload post. ds_trace st' = pre @ Row (''tool:'' @ tool) meth payload # post \<and> calls post = [] \<and>
    json_get payload ''req'' = Some params \<and> json_get payload ''result'' = Some w \<and>
    calls pre = calls (ds_trace st) @ [(meth, reveal (bound (ds_vault st)) params)]"
  using assms
proof (cases rule: dispatch_cases)
  case (stopped e)
  then show ?thesis by simp
next
  case (called st1 st2 ms)
  from called(5) show ?thesis
  proof (cases rule: finalize_cases)
    case (answer v x blk)
    then obtain g post where p: "rows_only (fst (fingerprints_for_dispatch env params st2)) post"
      "st' = blk (log_event (Row (''tool:'' @ tool) meth (build_tool_audit_payload params (Inr w) g ms)) post)"
      by auto
    obtain evs where evs: "ds_trace st' = ds_trace post @ Row (''tool:'' @ tool) meth (build_tool_audit_payload params (Inr w) g ms) # evs"
      "calls evs = []"
    proof -
      have "rows_only (log_event (Row (''tool:'' @ tool) meth (build_tool_audit_payload params (Inr w) g ms)) post) st'"
        unfolding p(2) by (rule answer(5))
      then show thesis using that by (auto simp: rows_only_def log_event_def)
    qed
    have "calls (ds_trace post) = calls (ds_trace st2)"
      using rows_only_calls [OF p(1)] fingerprints_trace by simp
    also have "\<dots> = calls (ds_trace st) @ [(meth, reveal (bound (ds_vault st)) params)]"
      using called(4) rows_only_calls [OF called(1)] by simp
    finally show ?thesis using evs payload_fields(1,2) [of params] by metis
  next
    case (failure e e')
    then show ?thesis by simp
  qed
qed

theorem tool_row_records_call_witness:
  "\<exists>pre payload post. ds_trace (fst (dispatch_with_sink (demo_dispatch_env (\<lambda>m p. Inr JNull) (\<lambda>_. 0)) ''tool'' ''run'' (JStr demo_ref) demo_dispatch)) =
      pre @ Row ''tool:tool'' ''run'' payload # post \<and> json_get payload ''req'' = Some (JStr demo_ref)"
proof -
  let ?d = "dispatch_with_sink (demo_dispatch_env (\<lambda>m p. Inr JNull) (\<lambda>_. 0)) ''tool'' ''run'' (JStr demo_ref) demo_dispatch"
  have "snd ?d = Inr JNull" by code_simp
  then have "?d = (fst ?d, Inr JNull)" by (metis prod.collapse)
  from tool_row_records_call [OF this] show ?thesis by auto
qed

section \<open>Secrets\<close>

text \<open>C28. Substitution succeeds when every reference of the parameters is bound to text and stays live for as many
  clock readings as there are references; it then replaces exactly the references and reports them in the order of
  the read-only traversal, leaving the bindings as they are.\<close>

theorem substitution_exact:
  assumes "\<forall>r \<in> set (for_each_ref params). vault_ready clk (v, n) r (length (for_each_ref params)) \<and>
      (\<exists>p. bound v r = Some p \<and> utf8_valid (bytes_str p))"
  shows "\<exists>v' n'. substitute_refs_in_params sha (vault_redeem clk) params (v, n) =
      ((v', n'), reveal (bound v) params, Inr (events sha (for_each_ref params))) \<and> bound v' = bound v"
proof -
  obtain s' evs v1 r where w: "walk sha (vault_redeem clk) params ((v, n), []) = ((s', evs), v1, r)" by (metis prod.exhaust)
  have "\<exists>st'. redeem_all sha (vault_redeem clk) (for_each_ref params) ((v, n), []) = (st', Inr ())"
    by (rule vault.redeem_all_ready) (use assms for_each_ref_well_formed in auto)
  with walk_redeems(1) [OF w] have r: "r = Inr ()" by auto
  obtain v' n' where s': "s' = (v', n')" by fastforce
  have "substitute_refs_in_params sha (vault_redeem clk) params (v, n) = ((v', n'), v1, Inr evs)"
    using w r s' by (simp add: substitute_refs_in_params_def)
  with substitute_Ok [OF this] show ?thesis by blast
qed

theorem substitution_exact_witness:
  "\<exists>v' n'. substitute_refs_in_params (\<lambda>bs. bs) (vault_redeem (\<lambda>_. 0)) (JArr [JStr demo_ref, JNull, JStr demo_ref]) (demo_vault, 0) =
      ((v', n'), reveal (bound demo_vault) (JArr [JStr demo_ref, JNull, JStr demo_ref]),
       Inr (events (\<lambda>bs. bs) [demo_ref, demo_ref])) \<and> bound v' = bound demo_vault"
proof -
  have refs: "for_each_ref (JArr [JStr demo_ref, JNull, JStr demo_ref]) = [demo_ref, demo_ref]" by code_simp
  have "utf8_valid (bytes_str (str_bytes demo_plaintext))" by code_simp
  then show ?thesis using substitution_exact [of "JArr [JStr demo_ref, JNull, JStr demo_ref]" "\<lambda>_. 0" demo_vault 0]
    unfolding refs by (simp add: vault_ready_def demo_vault_def bound_def)
qed

text \<open>C32. In every state the vault reaches, each binding is under a well-formed reference, to a non-empty plaintext, and the
  materialisation of that reference is in the log.\<close>

theorem vault_bindings_audited:
  assumes "(vault_step sha)\<^sup>*\<^sup>* (with_ttl ttl, []) (v, log)" and "bound v r = Some p"
  shows "is_well_formed_ref r \<and> p \<noteq> [] \<and> ref_hash sha r \<in> mr_ref_hash ` set log"
proof -
  obtain e where "v_map v r = Some e" "p = plaintext e" using assms(2) by (auto simp: bound_def)
  with vault_reachable_inv [OF assms(1)] show ?thesis by (auto simp: vault_inv_def)
qed

theorem vault_bindings_audited_witness:
  "is_well_formed_ref ''secret://01020304'' \<and> [7] \<noteq> ([] :: u8 list) \<and>
   ref_hash (\<lambda>bs. bs) ''secret://01020304'' \<in>
     mr_ref_hash ` set (snd (fst (materialize (\<lambda>bs. bs) (Inr [7]) None [1, 2, 3, 4] 0 ''name'' ''actor'' (with_ttl 9, []))))"
proof -
  let ?m = "materialize (\<lambda>bs. bs) (Inr [7]) None [1, 2, 3, 4] 0 ''name'' ''actor'' (with_ttl 9, [])"
  have "(vault_step (\<lambda>bs. bs))\<^sup>*\<^sup>* (with_ttl 9, []) (fst (fst ?m), snd (fst ?m))"
    using step_materialize [of "\<lambda>bs. bs" "Inr [7]" None "[1, 2, 3, 4]" 0 "''name''" "''actor''" "(with_ttl 9, [])" "fst ?m" "snd ?m"]
    by simp
  moreover have "bound (fst (fst ?m)) ''secret://01020304'' = Some [7]" by code_simp
  ultimately show ?thesis by (rule vault_bindings_audited)
qed

lemma collect_step_subset: "set (collect_step sha seen rs) \<subseteq> set rs"
  by (induction sha seen rs rule: collect_step.induct) auto

text \<open>Past expiry no lookup finds a fingerprint, and the two readers of the vault see nothing.\<close>

definition all_expired :: "DispatchEnv \<Rightarrow> json \<Rightarrow> DispatchState \<Rightarrow> bool" where
  "all_expired env req st \<longleftrightarrow>
     (\<forall>r \<in> set (for_each_ref req). \<forall>e. v_map (ds_vault st) r = Some e \<longrightarrow> (\<forall>k \<ge> ds_tick st. expires_at e \<le> de_clk env k))"

lemma expired_lookups:
  assumes "all_expired env req st" and "x \<in> set (lookups env req st)"
  shows "snd x = None"
proof -
  obtain i r where r: "(i, r) \<in> set (enumerate 0 (collect_refs_in_params (de_sha env) req))"
    "x = (r, value_fingerprint (de_sha env) (de_clk env (ds_tick st + i)) r (ds_vault st))"
    using assms(2) by (auto simp: lookups_def)
  from r(1) have "r \<in> set (collect_refs_in_params (de_sha env) req)"
    by (auto simp: enumerate_eq_zip dest: set_zip_rightD)
  then have "r \<in> set (for_each_ref req)" using collect_step_subset by (fastforce simp: collect_refs_in_params_def)
  with assms(1) have "v_map (ds_vault st) r = Some e \<Longrightarrow> expires_at e \<le> de_clk env (ds_tick st + i)" for e
    by (auto simp: all_expired_def)
  then show ?thesis using r(2) by (auto simp: value_fingerprint_def split: option.splits)
qed

lemma map_filter_none: "(\<And>x. x \<in> set xs \<Longrightarrow> f x = None) \<Longrightarrow> List.map_filter f xs = []"
  by (induction xs) (auto simp: map_filter_simps)

lemma expired_fingerprints: "all_expired env req st \<Longrightarrow> fingerprints_for_dispatch env req st = (after_lookups env req st, [])"
  unfolding fingerprints_for_dispatch_def using expired_lookups by (simp add: map_filter_none)

lemma expired_provision: "all_expired env req st \<Longrightarrow> \<exists>k. compute_provision env req st = (st\<lparr>ds_tick := ds_tick st + k\<rparr>, Noop)"
proof (cases "de_egress env")
  case None
  then show ?thesis by (intro exI [of _ 0]) (simp add: compute_provision_def)
next
  case (Some w)
  assume x: "all_expired env req st"
  have "List.map_filter (\<lambda>(r, f). map_option (\<lambda>fp. \<lparr>ps_ref_hash = ref_hash (de_sha env) r, ps_fp = fp\<rparr>) f) (lookups env req st) = []"
    using expired_lookups [OF x] by (intro map_filter_none) auto
  then show ?thesis using Some by (auto simp: compute_provision_def after_lookups_def Let_def)
qed

lemma all_expired_later: "all_expired env req st \<Longrightarrow> ds_vault st' = ds_vault st \<Longrightarrow> ds_tick st \<le> ds_tick st' \<Longrightarrow> all_expired env req st'"
  by (auto simp: all_expired_def)

lemma finalize_unscrubbed:
  assumes "all_expired env req st"
  shows "\<exists>st'. finalize env tool meth req evs (Inr a) ms st = (st', Inr (sco_value (screen_result env tool a))) \<and>
    ds_hashes st' = ds_hashes st \<and> rows_only st st'"
proof -
  obtain st' res where f: "finalize env tool meth req evs (Inr a) ms st = (st', res)" by fastforce
  have "res = Inr (sco_value (screen_result env tool a))"
    using f expired_fingerprints [OF assms] by (auto simp: finalize_def Let_def)
  moreover have "ds_hashes (fold (\<lambda>ev. log_event (redeemed_row tool meth ms ev)) evs x) = ds_hashes x" for x
    by (induction evs arbitrary: x) (auto simp: log_event_def)
  then have "ds_hashes st' = ds_hashes st"
    using f expired_fingerprints [OF assms]
    by (auto simp: finalize_def Let_def emit_scrub_audit_def log_event_def after_lookups_def split: option.splits)
  ultimately show ?thesis using f finalize_rows [OF f] by auto
qed

text \<open>C40. The scrub and the egress provisioning read the vault again after the redemption, so a secret that expires in
  between is not looked for: when every redeemed entry has expired by the first reading after the redemption, the
  worker is called with the plaintexts, the scanner is told nothing, and the worker's answer is handed to the
  screen as it is.\<close>

theorem expired_secret_unscrubbed:
  assumes "substitute_refs_in_params (de_sha env) (vault_redeem (de_clk env)) params (ds_vault st, Suc (ds_tick st)) =
      ((v, n), params', Inr evs)"
    and "\<forall>r \<in> set (for_each_ref params). \<forall>e. v_map v r = Some e \<longrightarrow> (\<forall>k \<ge> n. expires_at e \<le> de_clk env k)"
    and "de_worker env meth params' = Inr a"
  shows "\<exists>st'. dispatch_with_sink env tool meth params st = (st', Inr (sco_value (screen_result env tool a))) \<and>
    ds_hashes st' = ds_hashes st \<and> calls (ds_trace st') = calls (ds_trace st) @ [(meth, params')]"
proof -
  have x: "all_expired env params (st\<lparr>ds_vault := v, ds_tick := n\<rparr>)" using assms(2) by (auto simp: all_expired_def)
  obtain k where c: "compute_provision env params (st\<lparr>ds_vault := v, ds_tick := n\<rparr>) = (st\<lparr>ds_vault := v, ds_tick := n + k\<rparr>, Noop)"
    using expired_provision [OF x] by auto
  define st2 where "st2 = st\<lparr>ds_vault := v, ds_trace := ds_trace st @ [CallWorker meth params'], ds_tick := Suc (n + k)\<rparr>"
  have x2: "all_expired env params st2" by (rule all_expired_later [OF x]) (simp_all add: st2_def)
  define ms where "ms = (de_clk env (n + k) - de_clk env (ds_tick st)) div 1000000"
  have d: "dispatch_with_sink env tool meth params st = finalize env tool meth params evs (Inr a) ms st2"
    using assms(1,3) c
    by (simp add: dispatch_with_sink_def emit_provision_def call_and_finalize_def elapsed_def log_event_def st2_def ms_def Let_def)
  obtain st' where st': "finalize env tool meth params evs (Inr a) ms st2 = (st', Inr (sco_value (screen_result env tool a)))"
    "ds_hashes st' = ds_hashes st2" "rows_only st2 st'"
    using finalize_unscrubbed [OF x2] by blast
  have "calls (ds_trace st2) = calls (ds_trace st) @ [(meth, params')]" "ds_hashes st2 = ds_hashes st"
    by (simp_all add: st2_def)
  then show ?thesis unfolding d using st' rows_only_calls [OF st'(3)] by (metis)
qed

text \<open>The clock passes the expiry between the redemption and the next reading: the answer that echoes the secret
  comes back as it is.\<close>

theorem expired_secret_unscrubbed_witness:
  "\<exists>st'. dispatch_with_sink (demo_dispatch_env (\<lambda>m p. Inr p) (\<lambda>k. if k \<le> 1 then 0 else 10)) ''tool'' ''run'' (JStr demo_ref) demo_dispatch =
     (st', Inr (JStr demo_plaintext)) \<and> ds_hashes st' = []"
proof -
  let ?env = "demo_dispatch_env (\<lambda>m p. Inr p) (\<lambda>k. if k \<le> 1 then 0 else 10)"
  have valid: "utf8_valid (bytes_str (str_bytes demo_plaintext))" and wf: "is_well_formed_ref demo_ref" by code_simp+
  have sub: "substitute_refs_in_params (de_sha ?env) (vault_redeem (de_clk ?env)) (JStr demo_ref) (ds_vault demo_dispatch, Suc (ds_tick demo_dispatch)) =
      ((demo_vault, 2), JStr demo_plaintext, Inr [\<lparr>re_ref_hash = ref_hash (\<lambda>bs. bs) demo_ref\<rparr>])"
    using valid wf
    by (simp add: substitute_refs_in_params_def walk_string_def vault_redeem_def redeem_def demo_dispatch_env_def demo_vault_def
        demo_dispatch_def from_utf8_def Let_def)
  have "sco_value (screen_result ?env ''tool'' (JStr demo_plaintext)) = JStr demo_plaintext" by code_simp
  then show ?thesis using expired_secret_unscrubbed [OF sub, of "''run''" "JStr demo_plaintext" "''tool''"] wf
    by (auto simp: demo_dispatch_env_def demo_vault_def demo_dispatch_def)
qed

text \<open>The scrub rewrites string values and leaves object keys alone: an answer that is not withheld reaches the caller
  with the keys the worker chose, whatever secrets they hold.\<close>

theorem answer_keys_unscrubbed:
  assumes "dispatch_with_sink env tool meth params st = (st', Inr w)"
    and "\<nexists>score codes. w = injection_blocked_placeholder score codes"
  shows "\<exists>a. de_worker env meth (reveal (bound (ds_vault st)) params) = Inr a \<and> json_keys w = json_keys a"
  using assms(1)
proof (cases rule: dispatch_cases)
  case (stopped e)
  then show ?thesis by simp
next
  case (called st1 st2 ms)
  from called(5) show ?thesis
  proof (cases rule: finalize_cases)
    case (answer a x blk)
    then have "w = x" using screen_result_cases [of env tool x] assms(2) by auto
    with answer(1,3) show ?thesis by (auto simp: scrub_keeps_keys)
  next
    case (failure e e')
    then show ?thesis by simp
  qed
qed

theorem answer_keys_unscrubbed_witness:
  "demo_plaintext \<in> json_keys (JObj [(demo_plaintext, JNull)]) \<and>
   snd (dispatch_with_sink (demo_dispatch_env (\<lambda>m p. Inr (JObj [(demo_plaintext, JNull)])) (\<lambda>_. 0)) ''tool'' ''run'' (JStr demo_ref) demo_dispatch) =
     Inr (JObj [(demo_plaintext, JNull)]) \<and>
   (\<exists>a. de_worker (demo_dispatch_env (\<lambda>m p. Inr (JObj [(demo_plaintext, JNull)])) (\<lambda>_. 0)) ''run'' (reveal (bound (ds_vault demo_dispatch)) (JStr demo_ref)) = Inr a \<and>
     json_keys (JObj [(demo_plaintext, JNull)]) = json_keys a)"
proof -
  let ?d = "dispatch_with_sink (demo_dispatch_env (\<lambda>m p. Inr (JObj [(demo_plaintext, JNull)])) (\<lambda>_. 0)) ''tool'' ''run'' (JStr demo_ref) demo_dispatch"
  have s: "snd ?d = Inr (JObj [(demo_plaintext, JNull)])" by code_simp
  then have d: "?d = (fst ?d, Inr (JObj [(demo_plaintext, JNull)]))" by (metis prod.collapse)
  have "\<nexists>score codes. JObj [(demo_plaintext, JNull)] = injection_blocked_placeholder score codes"
    by (simp add: injection_blocked_placeholder_def jobj_def INJECTION_BLOCKED_KEY_def SCORE_KEY_def REASON_CODES_KEY_def)
  from answer_keys_unscrubbed [OF d this] s show ?thesis by simp
qed

section \<open>The handoff cache\<close>

text \<open>C35. In every state the cache reaches by stashing and purging, it tracks at most its number of tasks, each in one
  bucket; a bucket's total is the sum of its bodies, within the budget unless it holds a single body; and every body is
  filed under its own digest.\<close>

theorem handoff_cache_bounded:
  assumes "(cache_step sha)\<^sup>*\<^sup>* HandoffCache_new c"
  shows "length (hc_order c) \<le> MAX_TRACKED_TASKS \<and> set (hc_order c) = dom (hc_buckets c) \<and>
    (\<forall>t b. hc_buckets c t = Some b \<longrightarrow>
       tb_total b = sum_list (map (\<lambda>r. length (the (tb_map b r))) (tb_order b)) \<and>
       (tb_total b \<le> PER_TASK_BYTE_BUDGET \<or> length (tb_order b) = 1) \<and>
       (\<forall>r body. tb_map b r = Some body \<longrightarrow> r = HandoffRef_of sha body))"
  using reachable_cache_inv [OF assms] unfolding cache_inv_def bucket_inv_def bucket_bounded_def by blast

theorem handoff_cache_bounded_witness:
  "length (hc_order (fst (put (\<lambda>bs. bs) 1 [7] HandoffCache_new))) \<le> MAX_TRACKED_TASKS"
proof -
  have "(cache_step (\<lambda>bs. bs))\<^sup>*\<^sup>* HandoffCache_new (fst (put (\<lambda>bs. bs) 1 [7] HandoffCache_new))"
    by (intro r_into_rtranclp step_put [OF prod.collapse [symmetric]])
  from handoff_cache_bounded [OF this] show ?thesis by simp
qed

text \<open>C36. A result over the cap round-trips through the cache: the placeholder names the reference it is stored under, and
  reading the reference page by page, with any page size and enough pages, gives back the whole text of the result. The
  hypotheses are that the digest has its length, that no other body stored for the task has the same digest, and that the text fits
  in memory.\<close>

theorem stash_pages_back:
  assumes "cache_inv sha c" and "stash_if_oversized sha ser t v cap c = (c', Some out)"
    and "length (sha (str_bytes (ser v))) = 32"
    and "\<forall>b. stored c t (HandoffRef_of sha (str_bytes (ser v))) = Some b \<longrightarrow> b = str_bytes (ser v)"
    and "length (ser v) \<le> USIZE_MAX" and "0 < len" and "length (ser v) \<le> n * len"
  shows "placeholder_ref (so_placeholder out) = Some (so_handoff_ref out) \<and>
    map_option bytes_str (read_pages (\<lambda>off l. get_slice t (so_handoff_ref out) off l c') len n 0) = Some (ser v)"
proof -
  let ?body = "str_bytes (ser v)"
  have l: "length ?body = length (ser v)" by (simp add: str_bytes_def)
  obtain r where p: "put sha t ?body c = (c', r)" "so_handoff_ref out = r" and big: "cap < length (ser v)"
    and ph: "so_placeholder out = build_handoff_placeholder v r (length (ser v))"
    using assms(2) by (auto simp: stash_if_oversized_def Let_def l split: if_splits prod.splits)
  note s = put_stored [OF p(1) assms(1)]
  have "stored c' t r = Some ?body" using s assms(4) by (auto split: option.splits)
  moreover have "0 < n" using big assms(7) by (cases n) auto
  ultimately have "read_pages (\<lambda>off l. get_slice t r off l c') len n 0 = Some ?body"
    using handoff.pages_reassemble [of c' "(t, r)" ?body len 0 n] assms(5,6,7) l by simp
  then show ?thesis using ph p(2) s(1) placeholder_names_ref [of sha ?body, OF assms(3)] by simp
qed

theorem stash_pages_back_witness:
  "map_option bytes_str (read_pages (\<lambda>off l. get_slice 1 (so_handoff_ref (the (snd (stash_if_oversized (\<lambda>_. replicate 32 0) (\<lambda>_. ''abcde'') 1 JNull 4 HandoffCache_new)))) off l
      (fst (stash_if_oversized (\<lambda>_. replicate 32 0) (\<lambda>_. ''abcde'') 1 JNull 4 HandoffCache_new))) 2 3 0) = Some ''abcde''"
proof -
  let ?s = "stash_if_oversized (\<lambda>_. replicate 32 0) (\<lambda>_. ''abcde'') 1 JNull 4 HandoffCache_new"
  have "snd ?s \<noteq> None" by (simp add: stash_if_oversized_def str_bytes_def Let_def split: prod.splits)
  then have s: "?s = (fst ?s, Some (the (snd ?s)))" by (metis option.collapse prod.collapse)
  have inv: "cache_inv (\<lambda>_. replicate 32 0) HandoffCache_new" by (simp add: cache_inv_def HandoffCache_new_def)
  show ?thesis
    using stash_pages_back [OF inv s, of 2 3] by (simp add: stored_def HandoffCache_new_def USIZE_MAX_def)
qed

section \<open>Warm workers\<close>

text \<open>C31. However acquisitions, crashes, releases, idle timers and the clock interleave on a slot, no worker is handed out more
  often than its request cap, the worker in use has not been dropped and is not in the slot at the same time, and a
  worker resting in the slot has a teardown pending one idle period after its last completion.\<close>

theorem slot_hands_out_soundly:
  assumes "(slot_step caps backoff)\<^sup>*\<^sup>* slot_start s"
  shows "(\<forall>w. max_requests caps = 0 \<or> sr_handed s w \<le> max_requests caps) \<and>
    (\<forall>h. sr_holder s = Some h \<longrightarrow> wh_worker h \<notin> sr_dropped s \<and> ts_warm (sr_state s) = None) \<and>
    (\<forall>w. ts_warm (sr_state s) = Some w \<and> idle_seconds caps > 0 \<longrightarrow>
       ts_idle_teardown_handle (sr_state s) =
         Some \<lparr>td_for = ww_last_completion w, td_at = ww_last_completion w + secs (idle_seconds caps)\<rparr>)"
  using slot_reachable_inv [OF assms] by (auto simp: slot_inv_def warm_inv_def holder_inv_def within_cap_def)

definition demo_caps :: IdleTimeoutCaps where
  "demo_caps = \<lparr>idle_seconds = 30, max_requests = 2, max_age_seconds = 0, grace_period_seconds = 1\<rparr>"

lemma demo_acquired:
  "slot_step demo_caps RestartBackoff_default slot_start
     (slot_start\<lparr>sr_holder := Some \<lparr>wh_worker = 0, wh_spawned_at = 0, wh_request_count_so_far = 0, wh_died = False\<rparr>,
        sr_next := 1, sr_handed := (\<lambda>_. 0)(0 := 1)\<rparr>)"
proof -
  have "acquire_impl (IdleTimeout demo_caps \<lparr>stateless = True\<rparr>) 0 (Inr (sr_next slot_start)) 0 (sr_state slot_start) =
      (ToolState_fresh, None, Inr \<lparr>wh_worker = 0, wh_spawned_at = 0, wh_request_count_so_far = 0, wh_died = False\<rparr>)"
    by (simp add: acquire_impl_def slot_start_def ToolState_fresh_def)
  from step_acquired [OF _ _ _ this, of RestartBackoff_default] show ?thesis
    by (simp add: slot_start_def wake_at_def ToolState_fresh_def)
qed

theorem slot_hands_out_soundly_witness:
  "max_requests demo_caps = 0 \<or>
   sr_handed (slot_start\<lparr>sr_holder := Some \<lparr>wh_worker = 0, wh_spawned_at = 0, wh_request_count_so_far = 0, wh_died = False\<rparr>,
        sr_next := 1, sr_handed := (\<lambda>_. 0)(0 := 1)\<rparr>) 0 \<le> max_requests demo_caps"
  using slot_hands_out_soundly [OF r_into_rtranclp [of "slot_step demo_caps RestartBackoff_default", OF demo_acquired]] by blast

text \<open>The restart backoff never exceeds its cap, and with the default parameters the delay after the \<open>n\<close>-th restart in
  a row is \<open>2\<^sup>n\<close> seconds up to one minute, for every \<open>n\<close> and without overflow.\<close>

theorem backoff_doubles_to_cap:
  "next_delay b n \<le> rb_cap b \<and> next_delay RestartBackoff_default n = min (secs (2 ^ n)) (secs 60)"
  using delay_loop_le_cap [of b n "as_millis_u64 (rb_base b)"] next_delay_default by (simp add: next_delay_def)

end
