(* ===== verification/Summary_Budget.thy ===== *)
theory Summary_Budget
  imports Summary "HOL-Library.Multiset"
begin

text \<open>
  The planner's summary meets its byte budget. \<open>water_level\<close> returns the largest even share that fits,
  \<open>plan_fit\<close> drops the fewest oldest outputs for the rest to keep the floor, and the pass over the
  steps therefore ends within the budget whenever what may not be cut fits.
\<close>

section \<open>Saturating sums\<close>

lemma foldl_sat_add: "t \<le> USIZE_MAX \<Longrightarrow> foldl sat_add t xs = min (t + sum_list xs) USIZE_MAX"
proof (induction xs arbitrary: t)
  case Nil
  then show ?case by simp
next
  case (Cons x xs)
  have "foldl sat_add (sat_add t x) xs = min (sat_add t x + sum_list xs) USIZE_MAX"
    by (rule Cons.IH) (simp add: sat_add_def)
  moreover have "min (sat_add t x + sum_list xs) USIZE_MAX = min (t + (x + sum_list xs)) USIZE_MAX"
    by (simp add: sat_add_def min_def)
  ultimately show ?case by simp
qed

lemma sat_sum_eq: "sat_sum xs = min (sum_list xs) USIZE_MAX"
  by (simp add: sat_sum_def foldl_sat_add)

section \<open>The even share\<close>

definition capped :: "nat \<Rightarrow> nat list \<Rightarrow> nat" where
  "capped c xs = sum_list (map (min c) xs)"

lemma capped_simps [simp]: "capped c [] = 0" "capped c (x # xs) = min c x + capped c xs"
  by (simp_all add: capped_def)

lemma capped_mono: "c \<le> d \<Longrightarrow> capped c xs \<le> capped d xs"
  by (induction xs) (auto simp: min_def)

lemma capped_all_above: "\<forall>x \<in> set xs. c \<le> x \<Longrightarrow> capped c xs = length xs * c"
  by (induction xs) (auto simp: min_def)

lemma capped_sort: "capped c (sort xs) = capped c xs"
proof -
  have "capped c ys = sum_mset (image_mset (min c) (mset ys))" for ys by (simp add: capped_def sum_mset_sum_list [symmetric])
  then show ?thesis by simp
qed

lemma next_share:
  fixes s room n :: nat
  assumes "s \<le> room div Suc n"
  shows "n * (room div Suc n) \<le> room - s" "s \<le> room"
proof -
  have "Suc n * (room div Suc n) \<le> room" by (simp add: mult.commute div_times_less_eq_dividend del: mult_Suc mult_Suc_right)
  then have "room div Suc n + n * (room div Suc n) \<le> room" by simp
  then show "n * (room div Suc n) \<le> room - s" "s \<le> room" using assms by linarith+
qed

lemma water_loop_ge: "room \<le> USIZE_MAX \<Longrightarrow> room div length xs \<le> water_loop xs room"
proof (induction xs arbitrary: room)
  case Nil
  then show ?case by simp
next
  case (Cons s xs)
  let ?q = "room div Suc (length xs)"
  show ?case
  proof (cases "s > ?q")
    case True
    then show ?thesis by (simp add: Let_def)
  next
    case False
    have n: "length xs * ?q \<le> room - s" using next_share(1) [of s room "length xs"] False by simp
    show ?thesis
    proof (cases "xs = []")
      case True
      with False Cons.prems show ?thesis by (simp add: Let_def)
    next
      case nonempty: False
      have "?q \<le> (room - s) div length xs"
        using n nonempty by (simp add: less_eq_div_iff_mult_less_eq mult.commute)
      also have "\<dots> \<le> water_loop xs (room - s)" using Cons.prems by (intro Cons.IH) simp
      finally show ?thesis using False by (simp add: Let_def)
    qed
  qed
qed

lemma water_loop_fits: "sorted xs \<Longrightarrow> room \<le> USIZE_MAX \<Longrightarrow> capped (water_loop xs room) xs \<le> room"
proof (induction xs arbitrary: room)
  case Nil
  then show ?case by simp
next
  case (Cons s xs)
  let ?q = "room div Suc (length xs)"
  show ?case
  proof (cases "s > ?q")
    case True
    then have "capped ?q (s # xs) = length (s # xs) * ?q"
      using Cons.prems by (intro capped_all_above) auto
    also have "\<dots> \<le> room" by (simp add: mult.commute div_times_less_eq_dividend del: mult_Suc mult_Suc_right)
    finally show ?thesis using True by (simp add: Let_def)
  next
    case False
    then have "capped (water_loop xs (room - s)) xs \<le> room - s" using Cons by simp
    moreover have "s \<le> room" using next_share(2) [of s room "length xs"] False by simp
    ultimately show ?thesis using False by (simp add: Let_def)
  qed
qed

lemma water_loop_largest:
  "sorted xs \<Longrightarrow> room \<le> USIZE_MAX \<Longrightarrow> x \<in> set xs \<Longrightarrow> water_loop xs room < x \<Longrightarrow>
     room < capped (Suc (water_loop xs room)) xs"
proof (induction xs arbitrary: room)
  case Nil
  then show ?case by simp
next
  case (Cons s xs)
  let ?q = "room div Suc (length xs)"
  show ?case
  proof (cases "s > ?q")
    case True
    then have "capped (Suc ?q) (s # xs) = length (s # xs) * Suc ?q"
      using Cons.prems by (intro capped_all_above) auto
    moreover have "room < length (s # xs) * Suc ?q"
      using dividend_less_times_div [of "Suc (length xs)" room] by simp
    ultimately show ?thesis using True by (simp add: Let_def)
  next
    case False
    let ?l = "water_loop xs (room - s)"
    have l: "water_loop (s # xs) room = ?l" using False by (simp add: Let_def)
    have "?q \<le> ?l" using water_loop_ge [of room "s # xs"] Cons.prems(2) l by simp
    with False have s: "s \<le> ?l" by simp
    with Cons.prems l have "x \<in> set xs" by auto
    with Cons l have "room - s < capped (Suc ?l) xs" by simp
    moreover have "s \<le> room" using next_share(2) [of s room "length xs"] False by simp
    ultimately show ?thesis using l s by simp
  qed
qed

lemma water_level_fits: "room \<le> USIZE_MAX \<Longrightarrow> capped (water_level xs room) xs \<le> room"
  using water_loop_fits [of "sort xs" room] by (simp add: water_level_def capped_sort)

lemma water_level_largest:
  "room \<le> USIZE_MAX \<Longrightarrow> x \<in> set xs \<Longrightarrow> water_level xs room < x \<Longrightarrow> room < capped (Suc (water_level xs room)) xs"
  using water_loop_largest [of "sort xs" room x] by (simp add: water_level_def capped_sort)

section \<open>How many are dropped\<close>

abbreviation floors :: "nat list \<Rightarrow> nat" where
  "floors xs \<equiv> sum_list (map floor_cost xs)"

lemma floors_capped: "floors xs = capped MIN_SHRUNK_OUTPUT_BYTES xs"
  by (induction xs) (simp_all add: floor_cost_def min.commute)

lemma elide_loop_result:
  assumes "room < USIZE_MAX"
  shows "\<exists>k \<le> length ss. elide_loop ss room marker (floors ss) elide = elide + k \<and>
    (k = length ss \<or> marker * (elide + k) + floors (drop k ss) \<le> room) \<and>
    (\<forall>j < k. room < marker * (elide + j) + floors (drop j ss))"
proof (induction ss arbitrary: elide)
  case Nil
  then show ?case by simp
next
  case (Cons s ss)
  have over: "room < sat_add (sat_mul marker elide) r \<longleftrightarrow> room < marker * elide + r" for r
    using assms by (auto simp: sat_add_def sat_mul_def)
  show ?case
  proof (cases "room < marker * elide + floors (s # ss)")
    case False
    then show ?thesis using over by (intro exI [of _ 0]) auto
  next
    case True
    from Cons.IH [of "Suc elide"] obtain k where k: "k \<le> length ss"
      "elide_loop ss room marker (floors ss) (Suc elide) = Suc elide + k"
      "k = length ss \<or> marker * (Suc elide + k) + floors (drop k ss) \<le> room"
      "\<forall>j < k. room < marker * (Suc elide + j) + floors (drop j ss)"
      by blast
    have eq: "elide_loop (s # ss) room marker (floors (s # ss)) elide = elide_loop ss room marker (floors ss) (Suc elide)"
      using True over by simp
    have "\<forall>j < Suc k. room < marker * (elide + j) + floors (drop j (s # ss))"
    proof (intro allI impI)
      fix j
      assume "j < Suc k"
      then show "room < marker * (elide + j) + floors (drop j (s # ss))"
        using True k(4) by (cases j) (auto simp: algebra_simps)
    qed
    moreover have "Suc k = length (s # ss) \<or> marker * (elide + Suc k) + floors (drop (Suc k) (s # ss)) \<le> room"
      using k(3) by auto
    ultimately show ?thesis using k(1,2) eq by (intro exI [of _ "Suc k"]) auto
  qed
qed

text \<open>What \<open>plan_fit\<close> returns, for sizes whose sum is a machine integer.\<close>

lemma plan_fit_result:
  assumes "sum_list sizes \<le> USIZE_MAX" and "room < USIZE_MAX" and "f = plan_fit sizes room marker"
  shows "fit_elide f \<le> length sizes"
    and "fit_elide f < length sizes \<Longrightarrow> marker * fit_elide f + capped (fit_share f) (drop (fit_elide f) sizes) \<le> room"
    and "j < fit_elide f \<Longrightarrow> room < marker * j + floors (drop j sizes)"
    and "x \<in> set (drop (fit_elide f) sizes) \<Longrightarrow> fit_share f < x \<Longrightarrow>
      MIN_SHRUNK_OUTPUT_BYTES \<le> fit_share f \<and>
      room < marker * fit_elide f + capped (Suc (fit_share f)) (drop (fit_elide f) sizes)"
proof -
  have le_max: "x \<in> set sizes \<Longrightarrow> x \<le> USIZE_MAX" for x
    using member_le_sum_list [of x sizes] assms(1) by simp
  consider (all) "sum_list sizes \<le> room" "f = \<lparr>fit_elide = 0, fit_share = USIZE_MAX\<rparr>"
    | (some) e where "\<not> sum_list sizes \<le> room" "e = elide_loop sizes room marker (floors sizes) 0"
        "f = \<lparr>fit_elide = e, fit_share = water_level (drop e sizes) (room - sat_mul marker e)\<rparr>"
  proof (cases "sum_list sizes \<le> room")
    case True
    then show thesis using assms by (intro all) (auto simp: plan_fit_def sat_sum_eq)
  next
    case False
    have "floors sizes \<le> sum_list sizes"
      by (induction sizes) (auto simp: floor_cost_def)
    then have "sat_sum (map floor_cost sizes) = floors sizes" using assms(1) by (simp add: sat_sum_eq)
    with False show thesis using assms by (intro some) (auto simp: plan_fit_def sat_sum_eq Let_def min_def)
  qed
  then have "fit_elide f \<le> length sizes \<and>
      (fit_elide f < length sizes \<longrightarrow> marker * fit_elide f + capped (fit_share f) (drop (fit_elide f) sizes) \<le> room) \<and>
      (\<forall>j < fit_elide f. room < marker * j + floors (drop j sizes)) \<and>
      (\<forall>x \<in> set (drop (fit_elide f) sizes). fit_share f < x \<longrightarrow>
         MIN_SHRUNK_OUTPUT_BYTES \<le> fit_share f \<and>
         room < marker * fit_elide f + capped (Suc (fit_share f)) (drop (fit_elide f) sizes))"
  proof cases
    case all
    have "capped USIZE_MAX sizes \<le> sum_list sizes"
      using sum_list_mono [of sizes "min USIZE_MAX" "\<lambda>x. x"] by (simp add: capped_def)
    with all le_max show ?thesis by (auto dest: le_max)
  next
    case some
    obtain k where k: "k \<le> length sizes" "e = k" "k = length sizes \<or> marker * k + floors (drop k sizes) \<le> room"
      "\<forall>j < k. room < marker * j + floors (drop j sizes)"
      using elide_loop_result [OF assms(2), of sizes marker 0] some(2) by auto
    have room: "room - sat_mul marker e \<le> USIZE_MAX" using assms(2) by simp
    have fits: "marker * e \<le> room \<and> floors (drop e sizes) \<le> room - marker * e" if "e < length sizes"
      using k that by auto
    have sat: "sat_mul marker e = marker * e" if "e < length sizes"
      using fits [OF that] assms(2) by (simp add: sat_mul_def)
    have part2: "marker * e + capped (fit_share f) (drop e sizes) \<le> room" if e: "e < length sizes"
    proof -
      have "capped (fit_share f) (drop e sizes) \<le> room - marker * e"
        using water_level_fits [OF room, of "drop e sizes"] sat [OF e] some(3) by simp
      with fits [OF e] show ?thesis by linarith
    qed
    have part4: "MIN_SHRUNK_OUTPUT_BYTES \<le> fit_share f \<and> room < marker * e + capped (Suc (fit_share f)) (drop e sizes)"
      if x: "x \<in> set (drop e sizes)" "fit_share f < x" for x
    proof -
      have e: "e < length sizes" using x(1) by (cases "e < length sizes") auto
      have big: "room - marker * e < capped (Suc (fit_share f)) (drop e sizes)"
        using water_level_largest [OF room x(1)] x(2) some(3) sat [OF e] by simp
      have "\<not> fit_share f < MIN_SHRUNK_OUTPUT_BYTES"
      proof
        assume "fit_share f < MIN_SHRUNK_OUTPUT_BYTES"
        then have "capped (Suc (fit_share f)) (drop e sizes) \<le> floors (drop e sizes)"
          unfolding floors_capped by (intro capped_mono) simp
        with big fits [OF e] show False by simp
      qed
      with big show ?thesis by simp
    qed
    show ?thesis using k part2 part4 some(3) by auto
  qed
  then show "fit_elide f \<le> length sizes"
    and "fit_elide f < length sizes \<Longrightarrow> marker * fit_elide f + capped (fit_share f) (drop (fit_elide f) sizes) \<le> room"
    and "j < fit_elide f \<Longrightarrow> room < marker * j + floors (drop j sizes)"
    and "x \<in> set (drop (fit_elide f) sizes) \<Longrightarrow> fit_share f < x \<Longrightarrow>
      MIN_SHRUNK_OUTPUT_BYTES \<le> fit_share f \<and>
      room < marker * fit_elide f + capped (Suc (fit_share f)) (drop (fit_elide f) sizes)"
    by blast+
qed

section \<open>The pass over the steps\<close>

text \<open>What the touchable steps may cost: the marker for the first ones, then at most the share.\<close>

fun pass_cost :: "Fit \<Rightarrow> nat \<Rightarrow> nat \<Rightarrow> nat list \<Rightarrow> nat" where
  "pass_cost f marker seen [] = 0"
| "pass_cost f marker seen (b # bs) =
     (if Suc seen \<le> fit_elide f then marker else min (fit_share f) b) + pass_cost f marker (Suc seen) bs"

lemma pass_cost_append:
  "pass_cost f marker seen (xs @ ys) = pass_cost f marker seen xs + pass_cost f marker (seen + length xs) ys"
  by (induction xs arbitrary: seen) simp_all

lemma pass_cost_kept: "fit_elide f \<le> seen \<Longrightarrow> pass_cost f marker seen bs = capped (fit_share f) bs"
  by (induction bs arbitrary: seen) auto

lemma pass_cost_eq:
  "seen + k = fit_elide f \<Longrightarrow> k \<le> length bs \<Longrightarrow>
     pass_cost f marker seen bs = marker * k + capped (fit_share f) (drop k bs)"
proof (induction bs arbitrary: seen k)
  case Nil
  then show ?case by simp
next
  case (Cons b bs)
  show ?case
  proof (cases k)
    case 0
    with Cons.prems show ?thesis using pass_cost_kept [of f seen marker "b # bs"] by simp
  next
    case (Suc n)
    with Cons.IH [of "Suc seen" n] Cons.prems show ?thesis by simp
  qed
qed

definition touched :: "nat \<Rightarrow> RenderedStep list \<Rightarrow> nat list" where
  "touched marker ss = map rs_bytes (filter (touchable marker) ss)"

definition untouched :: "nat \<Rightarrow> RenderedStep list \<Rightarrow> nat" where
  "untouched marker ss = sum_list (map rs_bytes (filter (\<lambda>s. \<not> touchable marker s) ss))"

lemma touched_simps [simp]:
  "touched m [] = []" "touched m (s # ss) = (if touchable m s then [rs_bytes s] else []) @ touched m ss"
  "touched m (xs @ ys) = touched m xs @ touched m ys"
  "untouched m [] = 0" "untouched m (s # ss) = (if touchable m s then 0 else rs_bytes s) + untouched m ss"
  "untouched m (xs @ ys) = untouched m xs + untouched m ys"
  by (simp_all add: touched_def untouched_def)

text \<open>A step that is replaced because it exceeds the share does not grow.\<close>

definition kept_ok :: "Fit \<Rightarrow> nat \<Rightarrow> nat \<Rightarrow> nat list \<Rightarrow> bool" where
  "kept_ok f marker seen bs \<longleftrightarrow> marker \<le> fit_share f \<or> (\<forall>x \<in> set (drop (fit_elide f - seen) bs). x \<le> fit_share f)"

lemma kept_ok_append:
  "kept_ok f m seen (xs @ ys) \<longleftrightarrow> kept_ok f m seen xs \<and> kept_ok f m (seen + length xs) ys"
  by (auto simp: kept_ok_def)

lemma fit_step_cost:
  assumes "fit_step marker f wrapper shrink s (seen, fitted) = (s', seen', fitted')"
    and "kept_ok f (rs_bytes marker) seen (touched (rs_bytes marker) [s])"
  shows "seen' = seen + length (touched (rs_bytes marker) [s]) \<and>
    rs_bytes s' \<le> untouched (rs_bytes marker) [s] + pass_cost f (rs_bytes marker) seen (touched (rs_bytes marker) [s])"
  using assms by (auto simp: fit_step_def kept_ok_def Let_def split: if_splits)

lemma fit_steps_cost:
  assumes "fit_steps marker f wrapper shrink i ss (seen, fitted) = (ss', seen', fitted')"
    and "kept_ok f (rs_bytes marker) seen (touched (rs_bytes marker) ss)"
  shows "seen' = seen + length (touched (rs_bytes marker) ss) \<and>
    sum_list (map rs_bytes ss') \<le>
      untouched (rs_bytes marker) ss + pass_cost f (rs_bytes marker) seen (touched (rs_bytes marker) ss)"
  using assms
proof (induction ss arbitrary: i seen fitted ss')
  case Nil
  then show ?case by simp
next
  case (Cons s ss)
  let ?t = "touched (rs_bytes marker)"
  obtain s1 n1 f1 where one: "fit_step marker f wrapper (shrink i) s (seen, fitted) = (s1, n1, f1)"
    by (metis prod_cases3)
  obtain ss1 where rest: "fit_steps marker f wrapper shrink (i + 1) ss (n1, f1) = (ss1, seen', fitted')" "ss' = s1 # ss1"
    using Cons.prems(1) one by (cases "fit_steps marker f wrapper shrink (i + 1) ss (n1, f1)") (auto simp: Let_def)
  have split: "?t (s # ss) = ?t [s] @ ?t ss" by simp
  have ok: "kept_ok f (rs_bytes marker) seen (?t [s])" "kept_ok f (rs_bytes marker) (seen + length (?t [s])) (?t ss)"
    using Cons.prems(2) unfolding split kept_ok_append by blast+
  note c = fit_step_cost [OF one ok(1)]
  have IH: "seen' = n1 + length (?t ss) \<and> sum_list (map rs_bytes ss1) \<le>
      untouched (rs_bytes marker) ss + pass_cost f (rs_bytes marker) n1 (?t ss)"
    using ok(2) c by (intro Cons.IH [OF rest(1)]) simp
  have "pass_cost f (rs_bytes marker) seen (?t (s # ss)) =
      pass_cost f (rs_bytes marker) seen (?t [s]) + pass_cost f (rs_bytes marker) n1 (?t ss)"
    unfolding split pass_cost_append using c by simp
  moreover have "untouched (rs_bytes marker) (s # ss) = untouched (rs_bytes marker) [s] + untouched (rs_bytes marker) ss"
    by simp
  moreover have "length (?t (s # ss)) = length (?t [s]) + length (?t ss)" by simp
  ultimately show ?case using IH c rest(2) by simp
qed

lemma fit_plans_cost:
  assumes "fit_plans marker f wrapper shrink p pss (seen, fitted) = (pss', seen', fitted')"
    and "kept_ok f (rs_bytes marker) seen (touched (rs_bytes marker) (concat pss))"
  shows "seen' = seen + length (touched (rs_bytes marker) (concat pss)) \<and>
    sum_list (map rs_bytes (concat pss')) \<le>
      untouched (rs_bytes marker) (concat pss) + pass_cost f (rs_bytes marker) seen (touched (rs_bytes marker) (concat pss))"
  using assms
proof (induction pss arbitrary: p seen fitted pss')
  case Nil
  then show ?case by simp
next
  case (Cons ss pss)
  let ?t = "touched (rs_bytes marker)"
  obtain s1 n1 f1 where one: "fit_steps marker f wrapper (shrink p) 0 ss (seen, fitted) = (s1, n1, f1)"
    by (metis prod_cases3)
  obtain ps1 where rest: "fit_plans marker f wrapper shrink (p + 1) pss (n1, f1) = (ps1, seen', fitted')" "pss' = s1 # ps1"
    using Cons.prems(1) one by (cases "fit_plans marker f wrapper shrink (p + 1) pss (n1, f1)") (auto simp: Let_def)
  have ok: "kept_ok f (rs_bytes marker) seen (?t ss)" "kept_ok f (rs_bytes marker) (seen + length (?t ss)) (?t (concat pss))"
    using Cons.prems(2) by (auto simp: kept_ok_append)
  note c = fit_steps_cost [OF one ok(1)]
  have IH: "seen' = n1 + length (?t (concat pss)) \<and> sum_list (map rs_bytes (concat ps1)) \<le>
      untouched (rs_bytes marker) (concat pss) + pass_cost f (rs_bytes marker) n1 (?t (concat pss))"
    using ok(2) c by (intro Cons.IH [OF rest(1)]) simp
  show ?case using IH c rest(2) by (simp add: pass_cost_append)
qed

text \<open>The budget is met when what may not be cut fits together with a marker for each output. A share is
  only ever used above the floor, so a marker is never larger than the share it replaces.\<close>

lemma sum_touched: "sum_list (map rs_bytes ss) = sum_list (touched m ss) + untouched m ss"
  by (induction ss) auto

lemma summary_budget_met:
  fixes ser
  defines "m \<equiv> rs_bytes (elided_step ser)"
  assumes "sum_list (map rs_bytes (concat plans)) \<le> USIZE_MAX" and "budget < USIZE_MAX"
    and "m \<le> MIN_SHRUNK_OUTPUT_BYTES"
    and "untouched m (concat plans) + m * length (touched m (concat plans)) \<le> budget"
  shows "sum_list (map rs_bytes (concat (fst (apply_summary_budget ser plans budget shrink)))) \<le> budget"
proof (cases "sum_list (map rs_bytes (concat plans)) \<le> budget")
  case True
  then show ?thesis using assms(2) by (simp add: apply_summary_budget_def sat_sum_eq)
next
  case False
  define sizes where "sizes = touched m (concat plans)"
  define fixed where "fixed = untouched m (concat plans)"
  define f where "f = plan_fit sizes (budget - fixed) m"
  have small: "sum_list sizes \<le> USIZE_MAX" "fixed \<le> USIZE_MAX"
    using assms(2) sum_touched [of "concat plans" m] by (auto simp: sizes_def fixed_def)
  have r: "budget - fixed < USIZE_MAX" using assms(3) by simp
  note pf = plan_fit_result [OF small(1) r f_def]
  obtain ps n ft where fp: "fit_plans (elided_step ser) f (rs_bytes (output_step ser JNull) - length ''null'') shrink 0 plans
      (0, no_fitting) = (ps, n, ft)" by (metis prod_cases3)
  have eq: "fst (apply_summary_budget ser plans budget shrink) = ps"
    using False assms(2) small(2) fp
    by (simp add: apply_summary_budget_def sat_sum_eq Let_def touched_def untouched_def f_def sizes_def fixed_def m_def)
  have "kept_ok f m 0 sizes" using pf(4) assms(4) unfolding kept_ok_def by (metis diff_zero le_trans not_le)
  then have cost: "sum_list (map rs_bytes (concat ps)) \<le> fixed + pass_cost f m 0 sizes"
    using fit_plans_cost [OF fp] by (simp add: sizes_def fixed_def m_def)
  have "pass_cost f m 0 sizes = m * fit_elide f + capped (fit_share f) (drop (fit_elide f) sizes)"
    using pf(1) by (intro pass_cost_eq) auto
  also have "\<dots> \<le> budget - fixed"
    using pf(1,2) assms(5) by (cases "fit_elide f < length sizes") (auto simp: sizes_def fixed_def)
  finally have "pass_cost f m 0 sizes \<le> budget - fixed" .
  with cost assms(5) show ?thesis unfolding eq fixed_def by simp
qed

end
