(* ===== verification/Summary_Screen.thy ===== *)
theory Summary_Screen
  imports Summary
begin

text \<open>
  Everything the planner's summary shows has passed the sink screen: a step's output at the size it is
  shown, an error's detail, a call and its parameters, and the plan's own decision.
\<close>

section \<open>The shapes a step outcome can have\<close>

inductive cleared_step :: "(rstr \<Rightarrow> rstr) \<Rightarrow> (u8 list \<Rightarrow> digest) \<Rightarrow> rstr \<Rightarrow> json \<Rightarrow> bool" for lower sha tool where
  cleared_output: "sink_screen lower sha tool (screen_text view) = None \<Longrightarrow>
    cleared_step lower sha tool (JObj [(''output'', view), (''status'', JStr ''ok'')])"
| cleared_withheld: "cleared_step lower sha tool (JObj [(''status'', JStr ''ok''), (''withheld'', JStr WITHHELD_REASON)])"
| cleared_elided: "cleared_step lower sha tool elided_outcome"
| cleared_error: "d = WITHHELD_MARKER \<or> sink_screen lower sha tool d = None \<Longrightarrow>
    cleared_step lower sha tool (JObj [(''code'', JStr c), (''detail'', JStr d), (''status'', JStr ''err'')])"

lemma render_ok_cleared: "cleared_step lower sha tool (rs_value (render_ok lower ser sha tool v cap))"
  by (auto simp: render_ok_def Let_def withheld_step_def output_step_def measured_def
      intro: cleared_output cleared_withheld split: option.splits)

lemma elided_step_cleared: "cleared_step lower sha tool (rs_value (elided_step ser))"
  by (simp add: elided_step_def measured_def cleared_elided)

lemma render_step_outcome_cleared:
  "cleared_step lower sha tool (rs_value (render_step_outcome lower ser sha tool meth outcome))"
proof (cases outcome)
  case (OkStep v)
  then show ?thesis by (simp add: render_step_outcome_def render_ok_cleared)
next
  case (ErrStep c d)
  then show ?thesis
    by (auto simp: render_step_outcome_def Let_def err_step_def measured_def intro: cleared_error split: option.splits)
qed

lemma shrunk_output_cleared:
  "cleared_step lower sha (fst (step_tool_and_method (sr_plan r) i)) (rs_value (shrunk_output lower ser sha r i cap))"
  by (cases "sr_outcomes r ! i")
    (auto simp: shrunk_output_def Let_def render_ok_cleared elided_step_cleared)

section \<open>Calls and decisions\<close>

definition passes :: "(rstr \<Rightarrow> rstr) \<Rightarrow> (u8 list \<Rightarrow> digest) \<Rightarrow> rstr \<Rightarrow> bool" where
  "passes lower sha text \<longleftrightarrow> sink_screen_with lower sha MODEL_AUTHORED_PROFILE text = None"

inductive cleared_call :: "(rstr \<Rightarrow> rstr) \<Rightarrow> (u8 list \<Rightarrow> digest) \<Rightarrow> json \<Rightarrow> bool" for lower sha where
  call_withheld: "cleared_call lower sha (JStr WITHHELD_MARKER)"
| call_shown: "call = JObj [(''method'', JStr m), (''parameters'', ps), (''tool'', JStr t)] \<Longrightarrow>
    passes lower sha (screen_text call) \<Longrightarrow> passes lower sha (screen_text ps) \<Longrightarrow> cleared_call lower sha call"
| call_elided: "passes lower sha (screen_text (JObj [(''method'', JStr m), (''parameters'', ps), (''tool'', JStr t)])) \<Longrightarrow>
    cleared_call lower sha (JObj [(''elided'', JStr ELIDED_REASON), (''method'', JStr m), (''tool'', JStr t)])"

lemma render_call_cleared: "cleared_call lower sha (sc_value (render_call lower ser sha step))"
proof -
  define ps where "ps = render ser (step_parameters step) CALL_PARAMS_CAP"
  define c where "c = JObj [(''method'', JStr (clamp_audit_label (step_method step))), (''parameters'', ps),
    (''tool'', JStr (clamp_audit_label (step_tool step)))]"
  have r: "render_call lower ser sha step = screen_value lower sha c [screen_text ps]"
    by (simp add: render_call_def ps_def c_def Let_def)
  show ?thesis
  proof (cases "find_map (sink_screen_with lower sha MODEL_AUTHORED_PROFILE) (screen_text c # [screen_text ps])")
    case None
    then have "passes lower sha (screen_text c)" "passes lower sha (screen_text ps)"
      by (auto simp: passes_def find_map_None_iff simp del: find_map.simps)
    then have "cleared_call lower sha c" by (intro call_shown [OF c_def])
    then show ?thesis using None r by (simp add: screen_value_def)
  next
    case (Some b)
    then show ?thesis using r by (simp add: screen_value_def call_withheld)
  qed
qed

lemma without_parameters_cleared:
  assumes "cleared_call lower sha c" and "without_parameters c = Some c'"
  shows "cleared_call lower sha c'"
  using assms
proof cases
  case (call_shown m ps t)
  then have "c' = JObj [(''elided'', JStr ELIDED_REASON), (''method'', JStr m), (''tool'', JStr t)]"
    using assms(2) by (simp add: without_parameters_def obj_remove_def less_list_code less_char_def)
  with call_shown show ?thesis by (auto intro: call_elided)
qed (auto simp: without_parameters_def split: if_splits)

definition cleared_decision :: "(rstr \<Rightarrow> rstr) \<Rightarrow> (u8 list \<Rightarrow> digest) \<Rightarrow> json \<Rightarrow> bool" where
  "cleared_decision lower sha d \<longleftrightarrow> d = JStr WITHHELD_MARKER \<or> passes lower sha (screen_text d)"

lemma render_decision_cleared: "cleared_decision lower sha (sc_value (render_decision lower sha d))"
  by (auto simp: render_decision_def screen_value_def cleared_decision_def passes_def split: option.splits)

section \<open>The budget keeps what is cleared\<close>

lemma fit_steps_all:
  assumes "\<And>j. j < length ss \<Longrightarrow> P (i + j) (ss ! j)" and "\<And>j. P j marker"
    and "\<And>j cap. j < length ss \<Longrightarrow> P (i + j) (shrink (i + j) cap)"
  shows "length (fst (fit_steps marker f w shrink i ss st)) = length ss \<and>
    (\<forall>j < length ss. P (i + j) (fst (fit_steps marker f w shrink i ss st) ! j))"
  using assms
proof (induction ss arbitrary: i st)
  case Nil
  then show ?case by simp
next
  case (Cons s ss)
  have one: "P i (fst (fit_step marker f w (shrink i) s st))"
    using Cons.prems(1) [of 0] Cons.prems(2) [of i] Cons.prems(3) [of 0]
    by (auto simp: fit_step_def Let_def split: prod.splits)
  have rest: "length (fst (fit_steps marker f w shrink (i + 1) ss st')) = length ss \<and>
      (\<forall>j < length ss. P (i + 1 + j) (fst (fit_steps marker f w shrink (i + 1) ss st') ! j))" for st'
  proof (rule Cons.IH)
    show "P (i + 1 + j) (ss ! j)" if "j < length ss" for j using Cons.prems(1) [of "Suc j"] that by simp
    show "P j marker" for j by (rule Cons.prems(2))
    show "P (i + 1 + j) (shrink (i + 1 + j) cap)" if "j < length ss" for j cap
      using Cons.prems(3) [of "Suc j" cap] that by simp
  qed
  have "P (i + j) (fst (fit_steps marker f w shrink i (s # ss) st) ! j)" if "j < length (s # ss)" for j
    using that one rest by (cases j) (auto simp: Let_def)
  then show ?case using rest by (simp add: Let_def)
qed

lemma fit_plans_all:
  assumes "\<And>q j. q < length pss \<Longrightarrow> j < length (pss ! q) \<Longrightarrow> P (p + q) j (pss ! q ! j)" and "\<And>q j. P q j marker"
    and "\<And>q j cap. q < length pss \<Longrightarrow> j < length (pss ! q) \<Longrightarrow> P (p + q) j (shrink (p + q) j cap)"
  shows "length (fst (fit_plans marker f w shrink p pss st)) = length pss \<and>
    (\<forall>q < length pss. length (fst (fit_plans marker f w shrink p pss st) ! q) = length (pss ! q) \<and>
      (\<forall>j < length (pss ! q). P (p + q) j (fst (fit_plans marker f w shrink p pss st) ! q ! j)))"
  using assms
proof (induction pss arbitrary: p st)
  case Nil
  then show ?case by simp
next
  case (Cons ss pss)
  have one: "length (fst (fit_steps marker f w (shrink p) 0 ss st)) = length ss \<and>
      (\<forall>j < length ss. P p (0 + j) (fst (fit_steps marker f w (shrink p) 0 ss st) ! j))"
    using Cons.prems(1) [of 0] Cons.prems(2) Cons.prems(3) [of 0] by (intro fit_steps_all) auto
  have rest: "length (fst (fit_plans marker f w shrink (p + 1) pss st')) = length pss \<and>
    (\<forall>q < length pss. length (fst (fit_plans marker f w shrink (p + 1) pss st') ! q) = length (pss ! q) \<and>
      (\<forall>j < length (pss ! q). P (p + 1 + q) j (fst (fit_plans marker f w shrink (p + 1) pss st') ! q ! j)))" for st'
  proof (rule Cons.IH)
    show "P (p + 1 + q) j (pss ! q ! j)" if "q < length pss" "j < length (pss ! q)" for q j
      using Cons.prems(1) [of "Suc q" j] that by simp
    show "P q j marker" for q j by (rule Cons.prems(2))
    show "P (p + 1 + q) j (shrink (p + 1 + q) j cap)" if "q < length pss" "j < length (pss ! q)" for q j cap
      using Cons.prems(3) [of "Suc q" j cap] that by simp
  qed
  have "length (fst (fit_plans marker f w shrink p (ss # pss) st) ! q) = length ((ss # pss) ! q) \<and>
      (\<forall>j < length ((ss # pss) ! q). P (p + q) j (fst (fit_plans marker f w shrink p (ss # pss) st) ! q ! j))"
    if "q < length (ss # pss)" for q
    using that one rest by (cases q) (auto simp: Let_def)
  then show ?case using rest by (simp add: Let_def)
qed

lemma apply_summary_budget_all:
  assumes "\<And>q j. q < length pss \<Longrightarrow> j < length (pss ! q) \<Longrightarrow> P q j (pss ! q ! j)" and "\<And>q j. P q j (elided_step ser)"
    and "\<And>q j cap. q < length pss \<Longrightarrow> j < length (pss ! q) \<Longrightarrow> P q j (shrink q j cap)"
  shows "length (fst (apply_summary_budget ser pss budget shrink)) = length pss \<and>
    (\<forall>q < length pss. length (fst (apply_summary_budget ser pss budget shrink) ! q) = length (pss ! q) \<and>
      (\<forall>j < length (pss ! q). P q j (fst (apply_summary_budget ser pss budget shrink) ! q ! j)))"
proof (cases "sat_sum (map rs_bytes (concat pss)) \<le> budget")
  case True
  then show ?thesis using assms(1) by (simp add: apply_summary_budget_def)
next
  case False
  then show ?thesis
    using fit_plans_all [of pss P 0 "elided_step ser" shrink] assms by (simp add: apply_summary_budget_def Let_def)
qed

lemma budget_calls_all:
  assumes "\<forall>x \<in> set cs. pred_option P x" and "\<And>c c'. P c \<Longrightarrow> without_parameters c = Some c' \<Longrightarrow> P c'"
  shows "length (fst (budget_calls ser b cs st)) = length cs \<and> (\<forall>x \<in> set (fst (budget_calls ser b cs st)). pred_option P x)"
  using assms(1)
proof (induction ser b cs st rule: budget_calls.induct)
  case (3 ser b c cs st)
  have "P (fst (budget_call ser b c st))"
    using 3(2) assms(2) by (auto simp: budget_call_def Let_def split: prod.splits option.splits)
  with 3 show ?case by (simp add: Let_def)
qed auto

lemma budget_plans_all:
  assumes "\<forall>cs \<in> set ps. \<forall>x \<in> set cs. pred_option P x" and "\<And>c c'. P c \<Longrightarrow> without_parameters c = Some c' \<Longrightarrow> P c'"
  shows "map length (fst (budget_plans ser b ps st)) = map length ps \<and>
    (\<forall>cs \<in> set (fst (budget_plans ser b ps st)). \<forall>x \<in> set cs. pred_option P x)"
  using assms(1)
proof (induction ser b ps st rule: budget_plans.induct)
  case (2 ser b p ps st)
  then show ?case using budget_calls_all [of p P ser b st, OF _ assms(2)] by (simp add: Let_def)
qed simp

section \<open>The whole summary\<close>

definition records ::
    "(rstr \<Rightarrow> rstr) \<Rightarrow> (json \<Rightarrow> rstr) \<Rightarrow> (u8 list \<Rightarrow> digest) \<Rightarrow> (Plan \<times> StepOutcome list) list \<Rightarrow> ScreenedRecord list" where
  "records lower ser sha inputs = map (\<lambda>(plan, outs). ScreenedRecord_new lower ser sha plan outs) inputs"

lemma records_nth:
  "q < length inputs \<Longrightarrow> records lower ser sha inputs ! q = ScreenedRecord_new lower ser sha (fst (inputs ! q)) (snd (inputs ! q))"
  by (simp add: records_def split: prod.splits)

definition cleared_entry :: "(rstr \<Rightarrow> rstr) \<Rightarrow> (u8 list \<Rightarrow> digest) \<Rightarrow> Plan \<Rightarrow> nat \<Rightarrow> json \<Rightarrow> bool" where
  "cleared_entry lower sha plan n entry \<longleftrightarrow>
     (\<exists>d outs. entry = JObj [(''decision'', d), (''step_outcomes'', JArr outs)] \<and> cleared_decision lower sha d \<and>
        length outs = n \<and>
        (\<forall>j < n. \<exists>v c. outs ! j = with_call v c \<and> cleared_step lower sha (fst (step_tool_and_method plan j)) v \<and>
           pred_option (cleared_call lower sha) c))"

lemma record_steps_cleared:
  "j < length outs \<Longrightarrow>
     cleared_step lower sha (fst (step_tool_and_method plan j)) (rs_value (sr_rendered (ScreenedRecord_new lower ser sha plan outs) ! j))"
  by (simp add: ScreenedRecord_new_def render_step_outcome_cleared split: prod.splits)

lemma record_calls_cleared:
  "x \<in> set (map (map_option sc_value) (sr_calls (ScreenedRecord_new lower ser sha plan outs))) \<Longrightarrow>
     pred_option (cleared_call lower sha) x"
  by (auto simp: ScreenedRecord_new_def render_call_cleared split: if_splits)

lemma summary_cleared:
  assumes "q < length inputs"
  shows "q < length (render_plans_summary lower ser sha (records lower ser sha inputs)) \<and>
    cleared_entry lower sha (fst (inputs ! q)) (length (snd (inputs ! q)))
      (render_plans_summary lower ser sha (records lower ser sha inputs) ! q)"
proof -
  define rs where "rs = records lower ser sha inputs"
  define rendered where "rendered = map sr_rendered rs"
  define calls where "calls = map (\<lambda>r. map (map_option sc_value) (sr_calls r)) rs"
  define call_bytes where
    "call_bytes = sat_sum (map (\<lambda>c. call_cost ser (the c)) (filter (\<lambda>c. c \<noteq> None) (concat calls)))"
  define fitted where "fitted = fst (apply_summary_budget ser rendered (PLANS_SUMMARY_BUDGET - call_bytes)
    (\<lambda>p i cap. shrunk_output lower ser sha (rs ! p) i cap))"
  define budgeted where "budgeted = fst (apply_call_budget ser calls
    (sat_add (sat_sum (map rs_bytes (concat fitted))) call_bytes) PLANS_SUMMARY_BUDGET)"
  have len: "length rs = length inputs" by (simp add: rs_def records_def)
  have nth: "rs ! p = ScreenedRecord_new lower ser sha (fst (inputs ! p)) (snd (inputs ! p))" if "p < length inputs" for p
    using that by (simp add: rs_def records_nth)
  let ?P = "\<lambda>p j s. cleared_step lower sha (fst (step_tool_and_method (fst (inputs ! p)) j)) (rs_value s)"
  have fit: "length fitted = length rendered \<and>
      (\<forall>p < length rendered. length (fitted ! p) = length (rendered ! p) \<and> (\<forall>j < length (rendered ! p). ?P p j (fitted ! p ! j)))"
    unfolding fitted_def
  proof (rule apply_summary_budget_all)
    fix p j
    assume p: "p < length rendered" "j < length (rendered ! p)"
    then show "?P p j (rendered ! p ! j)"
      using record_steps_cleared len by (simp add: rendered_def nth) (simp add: ScreenedRecord_new_def)
    show "?P p j (shrunk_output lower ser sha (rs ! p) j cap)" for cap
      using shrunk_output_cleared [of lower sha "rs ! p" j ser cap] p len by (simp add: rendered_def nth) (simp add: ScreenedRecord_new_def)
  qed (rule elided_step_cleared)
  have cl: "\<forall>cs \<in> set calls. \<forall>x \<in> set cs. pred_option (cleared_call lower sha) x"
  proof (intro ballI)
    fix cs x
    assume "cs \<in> set calls" "x \<in> set cs"
    then obtain r where "r \<in> set rs" "x \<in> set (map (map_option sc_value) (sr_calls r))"
      unfolding calls_def by auto
    then obtain p where "p < length inputs" "x \<in> set (map (map_option sc_value) (sr_calls (rs ! p)))"
      using len by (metis in_set_conv_nth)
    then show "pred_option (cleared_call lower sha) x" using record_calls_cleared nth by metis
  qed
  have bud: "map length budgeted = map length calls \<and> (\<forall>cs \<in> set budgeted. \<forall>x \<in> set cs. pred_option (cleared_call lower sha) x)"
    unfolding budgeted_def apply_call_budget_def Let_def fst_conv
    by (rule budget_plans_all [OF cl]) (rule without_parameters_cleared)
  have lenb: "length budgeted = length rs" using arg_cong [OF conjunct1 [OF bud], of length] by (simp add: calls_def)
  have sum: "render_plans_summary lower ser sha rs = map (\<lambda>(r, steps, cs).
              JObj [(''decision'', sc_value (sr_decision r)),
                    (''step_outcomes'', JArr (map (\<lambda>(s, c). with_call (rs_value s) c) (zip steps cs)))])
           (zip rs (zip fitted budgeted))"
    by (simp add: render_plans_summary_def Let_def rendered_def calls_def call_bytes_def fitted_def budgeted_def)
  let ?n = "length (snd (inputs ! q))"
  have lq: "length (fitted ! q) = ?n" "length (budgeted ! q) = ?n"
  proof -
    show "length (fitted ! q) = ?n" using fit assms len by (simp add: rendered_def nth) (simp add: ScreenedRecord_new_def)
    have "map length budgeted ! q = map length calls ! q" using bud by simp
    then show "length (budgeted ! q) = ?n"
      using assms len lenb by (simp add: calls_def nth) (simp add: ScreenedRecord_new_def)
  qed
  let ?outs = "map (\<lambda>(s, c). with_call (rs_value s) c) (zip (fitted ! q) (budgeted ! q))"
  have ent: "render_plans_summary lower ser sha rs ! q =
      JObj [(''decision'', sc_value (sr_decision (rs ! q))), (''step_outcomes'', JArr ?outs)]"
    unfolding sum using assms len lenb fit by (simp add: rendered_def)
  have steps: "\<exists>v c. ?outs ! j = with_call v c \<and> cleared_step lower sha (fst (step_tool_and_method (fst (inputs ! q)) j)) v \<and>
      pred_option (cleared_call lower sha) c" if "j < ?n" for j
  proof (intro exI conjI)
    show "?outs ! j = with_call (rs_value (fitted ! q ! j)) (budgeted ! q ! j)" using that lq by simp
    show "cleared_step lower sha (fst (step_tool_and_method (fst (inputs ! q)) j)) (rs_value (fitted ! q ! j))"
      using fit assms len that lq by (simp add: rendered_def)
    show "pred_option (cleared_call lower sha) (budgeted ! q ! j)"
      using bud assms len lenb that lq by (metis nth_mem)
  qed
  have dec: "cleared_decision lower sha (sc_value (sr_decision (rs ! q)))"
    using assms by (simp add: nth ScreenedRecord_new_def render_decision_cleared)
  have "q < length (render_plans_summary lower ser sha rs)" unfolding sum using assms len lenb fit by (simp add: rendered_def)
  moreover have "cleared_entry lower sha (fst (inputs ! q)) ?n (render_plans_summary lower ser sha rs ! q)"
    unfolding cleared_entry_def ent using dec steps lq by (intro exI [of _ "sc_value (sr_decision (rs ! q))"] exI [of _ ?outs]) auto
  ultimately show ?thesis by (simp add: rs_def)
qed

end
