(* ===== verification/Output_Spec.thy ===== *)
theory Output_Spec
  imports Summary_Budget Summary_Screen Screened_Head
begin

text \<open>
  What reaches the planner of a tool's output: when the injection screen blocks, how a value is cut to a budget, and
  that the digest of earlier steps is screened and fits.
\<close>

section \<open>The injection screen\<close>

text \<open>C37. A text is blocked exactly when one of the rules it hits contributes the threshold by itself, or two
  contributions are counted; the contributions are those of the profile the tool has.\<close>

theorem screen_blocks_exactly:
  "iv_decision (screen_with_profile lower text profile) = BlockOutput \<longleftrightarrow>
     (\<exists>w \<in> set (contributions profile (hit_rules (normalize lower text) CATALOGUE)). BLOCK_THRESHOLD \<le> w) \<or>
     2 \<le> length (contributions profile (hit_rules (normalize lower text) CATALOGUE))"
  by (simp add: screen_blocks_iff Let_def)

text \<open>The head of an oversized value carries no text the screen has not seen: read back, its text is a prefix of the
  text extracted for the screen, apart from the mark of the cut, and it is as long as the cap and that mark at most.\<close>

theorem head_text_screened:
  assumes "json_utf8 v" and "byte_cap \<le> cap"
  shows "within (fst (extract_scannable_text v cap)) (joined [] (text_leaves 0 (screened_head v byte_cap))) \<and>
    length (joined [] (text_leaves 0 (screened_head v byte_cap))) \<le> byte_cap + length CUT_MARK"
  using screened_head_text [OF assms] by blast

theorem head_text_screened_witness:
  "within (fst (extract_scannable_text (JArr [JStr ''abc'', JNull]) 9)) (joined [] (text_leaves 0 (screened_head (JArr [JStr ''abc'', JNull]) 4)))"
proof -
  have "json_utf8 (JArr [JStr ''abc'', JNull])" by code_simp
  from head_text_screened [OF this, of 4 9] show ?thesis by simp
qed

section \<open>Views of a value\<close>

text \<open>The view of a value is the fixed notice, or fits its budget; then every string of it is a string of the value, the
  marked head of one, or a marker of the core, and every key is an identifier or the key that counts omitted ones.\<close>

theorem view_fits_and_shows:
  "render ser v budget = fallback_view \<or>
   serialised_len ser (render ser v budget) \<le> budget \<and>
   (\<forall>t. t \<in> json_strings (render ser v budget) \<longrightarrow> shown (json_strings v) t) \<and>
   (\<forall>k. k \<in> json_keys (render ser v budget) \<longrightarrow> is_identifier_key k \<or> k = OMITTED_KEYS_KEY)"
  using render_cases [of ser v budget] prune_at_shown(1) prune_at_keys(1)
  unfolding is_view_def prune_def by metis

theorem view_fits_and_shows_witness:
  "shown (json_strings (JStr ''ab'')) ''ab''"
proof -
  have "render (\<lambda>_. []) (JStr ''ab'') 10 = JStr ''ab''" by code_simp
  with view_fits_and_shows [of "\<lambda>_. []" "JStr ''ab''" 10] show ?thesis by (simp add: fallback_view_def)
qed

section \<open>The digest of earlier steps\<close>

text \<open>C19. Every plan of a run has its entry in the digest, and every part of the entry has passed the screen of the tool it
  comes from or stands for text that was withheld: the decision, each call, each output and each error detail,
  also after outputs were shrunk or elided to fit.\<close>

theorem digest_is_screened:
  assumes "q < length inputs"
  shows "q < length (render_plans_summary lower ser sha (records lower ser sha inputs)) \<and>
    cleared_entry lower sha (fst (inputs ! q)) (length (snd (inputs ! q)))
      (render_plans_summary lower ser sha (records lower ser sha inputs) ! q)"
  by (rule summary_cleared [OF assms])

definition demo_digest_plan :: Plan where
  "demo_digest_plan = \<lparr>plan_context = [], plan_decision = ''act'', plan_rationale = [],
     plan_steps = [\<lparr>step_tool = ''t'', step_method = ''m'', step_parameters = JNull, step_returns = [], step_done_when = [], step_classification = Public\<rparr>],
     plan_result = None, plan_data_ceiling = None, plan_refused = None, plan_floor_request = None, plan_l1_insight = None,
     plan_l3_skill = None, plan_invoke_skill = None, plan_python_skill = None\<rparr>"

theorem digest_is_screened_witness:
  "cleared_entry (\<lambda>s. s) (\<lambda>bs. bs) demo_digest_plan 1
     (render_plans_summary (\<lambda>s. s) (\<lambda>_. []) (\<lambda>bs. bs) (records (\<lambda>s. s) (\<lambda>_. []) (\<lambda>bs. bs) [(demo_digest_plan, [OkStep (JStr ''x'')])]) ! 0)"
  using digest_is_screened [of 0 "[(demo_digest_plan, [OkStep (JStr ''x'')])]"] by simp

text \<open>C38. The outputs of the digest meet the budget whenever the parts no pass may touch and one marker for each of the
  others do: oldest outputs are elided first, the rest shrunk to a common share.\<close>

theorem digest_meets_budget:
  assumes "sum_list (map rs_bytes (concat plans)) \<le> USIZE_MAX" and "budget < USIZE_MAX"
    and "rs_bytes (elided_step ser) \<le> MIN_SHRUNK_OUTPUT_BYTES"
    and "untouched (rs_bytes (elided_step ser)) (concat plans) +
      rs_bytes (elided_step ser) * length (touched (rs_bytes (elided_step ser)) (concat plans)) \<le> budget"
  shows "sum_list (map rs_bytes (concat (fst (apply_summary_budget ser plans budget shrink)))) \<le> budget"
  by (rule summary_budget_met [OF assms])

definition demo_rendered :: RenderedStep where
  "demo_rendered = \<lparr>rs_value = JNull, rs_bytes = 100, rs_elidable = True, rs_sink_block = None\<rparr>"

theorem digest_meets_budget_witness:
  "sum_list (map rs_bytes (concat (fst (apply_summary_budget (\<lambda>_. ''ab'') [[demo_rendered], [demo_rendered]] 120 (\<lambda>_ _ _. demo_rendered))))) \<le> 120"
  by (rule digest_meets_budget)
    (simp_all add: demo_rendered_def elided_step_def measured_def serialised_len_def USIZE_MAX_def MIN_SHRUNK_OUTPUT_BYTES_def
      untouched_def touched_def touchable_def)

text \<open>The common share is the best one: capped at it the outputs fit the room, and if any output is cut at all, one byte
  more would not.\<close>

theorem share_is_optimal:
  assumes "room \<le> USIZE_MAX"
  shows "capped (water_level xs room) xs \<le> room \<and>
    (\<forall>x. x \<in> set xs \<and> water_level xs room < x \<longrightarrow> room < capped (Suc (water_level xs room)) xs)"
  using water_level_fits [OF assms] water_level_largest [OF assms] by blast

theorem share_is_optimal_witness:
  "capped (water_level [3, 10, 20] 15) [3, 10, 20] \<le> 15 \<and> 15 < capped (Suc (water_level [3, 10, 20] 15)) [3, 10, 20]"
proof -
  have "15 \<le> USIZE_MAX" by (simp add: USIZE_MAX_def)
  moreover have "water_level [3, 10, 20] 15 = 6" by code_simp
  ultimately show ?thesis using share_is_optimal [of 15 "[3, 10, 20]"] by auto
qed

end
