(* ===== verification/Unix_Path.thy ===== *)
theory Unix_Path
  imports Prelude
begin

text \<open>
  What the sources use of \<^verbatim>\<open>std::path\<close> on Unix: the components of a path, its parent and file name, joining,
  and equality, which Rust decides on the components (so \<^verbatim>\<open>/a//b/./\<close> equals \<^verbatim>\<open>/a/b\<close>). A path is its UTF-8
  text; for such a path \<^verbatim>\<open>display\<close> and \<^verbatim>\<open>to_string_lossy\<close> are the identity.
\<close>

datatype Component = RootDir | CurDir | ParentDir | Normal rstr

definition is_absolute :: "rstr \<Rightarrow> bool" where
  "is_absolute p = starts_with p ''/''"

definition seg_component :: "rstr \<Rightarrow> Component option" where
  "seg_component s =
     (if s = [] \<or> s = ''.'' then None else if s = ''..'' then Some ParentDir else Some (Normal s))"

definition components :: "rstr \<Rightarrow> Component list" where
  "components p =
     (if is_absolute p then [RootDir]
      else if hd (split_char CHR ''/'' p) = ''.'' then [CurDir]
      else List.map_filter seg_component [hd (split_char CHR ''/'' p)]) @
     List.map_filter seg_component (tl (split_char CHR ''/'' p))"

definition path_eq :: "rstr \<Rightarrow> rstr \<Rightarrow> bool" where
  "path_eq p q \<longleftrightarrow> components p = components q"

definition file_name :: "rstr \<Rightarrow> rstr option" where
  "file_name p =
     (if components p = [] then None
      else case last (components p) of Normal s \<Rightarrow> Some s | _ \<Rightarrow> None)"

fun join_with :: "rstr \<Rightarrow> rstr list \<Rightarrow> rstr" where
  "join_with sep [] = []"
| "join_with sep [x] = x"
| "join_with sep (x # xs) = x @ sep @ join_with sep xs"

text \<open>The segments after the first one, without the trailing ones that name nothing.\<close>

definition trim_segs :: "rstr list \<Rightarrow> rstr list" where
  "trim_segs ss = rev (dropWhile (\<lambda>s. s = [] \<or> s = ''.'') (rev ss))"

definition path_parent :: "rstr \<Rightarrow> rstr option" where
  "path_parent p =
     (let segs = split_char CHR ''/'' p; rest = trim_segs (tl segs) in
      if rest \<noteq> [] then
        (let up = trim_segs (butlast rest) in
         Some (if up = [] \<and> is_absolute p then ''/'' else join_with ''/'' (hd segs # up)))
      else if is_absolute p \<or> hd segs = [] then None
      else Some [])"

definition path_join :: "rstr \<Rightarrow> rstr \<Rightarrow> rstr" where
  "path_join p q =
     (if is_absolute q then q
      else if p \<noteq> [] \<and> last p \<noteq> CHR ''/'' then p @ ''/'' @ q
      else p @ q)"

lemma path_eq_refl [simp]: "path_eq p p"
  by (simp add: path_eq_def)

lemma is_absolute_iff: "is_absolute p \<longleftrightarrow> (\<exists>q. p = CHR ''/'' # q)"
  by (auto simp: is_absolute_def starts_with_iff)

lemma path_join_absolute: "is_absolute p \<Longrightarrow> is_absolute (path_join p q)"
  by (auto simp: path_join_def is_absolute_iff)

lemma split_char_no_sep: "x \<notin> set s \<Longrightarrow> split_char x s = [s]"
  by (induction s) auto

lemma split_char_at:
  "split_char x (a @ x # b) = split_char x a @ split_char x b"
proof (induction a)
  case Nil
  show ?case by simp
next
  case (Cons c a)
  obtain s ss where S: "split_char x a = s # ss"
    using split_char_nonempty [of x a] by (cases "split_char x a") auto
  show ?case using Cons S by simp
qed

text \<open>Splitting a joined list of separator-free pieces gives the pieces back.\<close>

lemma split_join:
  assumes "ss \<noteq> []" and "list_all (\<lambda>s. x \<notin> set s) ss"
  shows "split_char x (join_with [x] ss) = ss"
  using assms
proof (induction "[x]" ss rule: join_with.induct)
  case (3 s t ts)
  then show ?case by (simp add: split_char_at split_char_no_sep)
qed (auto simp: split_char_no_sep)

lemma join_with_set:
  "c \<in> set (join_with sep ss) \<Longrightarrow> (\<exists>s \<in> set ss. c \<in> set s) \<or> c \<in> set sep"
  by (induction sep ss rule: join_with.induct) auto

section \<open>Joining adds one component\<close>

definition simple_name :: "rstr \<Rightarrow> bool" where
  "simple_name q \<longleftrightarrow> q \<noteq> [] \<and> q \<noteq> ''.'' \<and> q \<noteq> ''..'' \<and> CHR ''/'' \<notin> set q"

lemma map_filter_snoc: "List.map_filter f (xs @ [x]) = List.map_filter f xs @ (case f x of None \<Rightarrow> [] | Some y \<Rightarrow> [y])"
  by (simp add: List.map_filter_def split: option.split)

lemma components_path_join:
  assumes "simple_name q" shows "components (path_join d q) = components d @ [Normal q]"
proof -
  have q: "seg_component q = Some (Normal q)" "split_char CHR ''/'' q = [q]" "\<not> is_absolute q"
    using assms by (auto simp: simple_name_def seg_component_def split_char_no_sep is_absolute_iff)
  show ?thesis
  proof (cases d rule: rev_cases)
    case Nil
    then show ?thesis using q assms
      by (simp add: path_join_def components_def is_absolute_def seg_component_def simple_name_def List.map_filter_def)
  next
    case (snoc d' c)
    show ?thesis
    proof (cases "c = CHR ''/''")
      case True
      have s: "split_char CHR ''/'' (d' @ CHR ''/'' # q) = split_char CHR ''/'' d' @ [q]"
        "split_char CHR ''/'' (d' @ ''/'') = split_char CHR ''/'' d' @ [[]]"
        using q(2) split_char_at [of "CHR ''/''" d' q] split_char_at [of "CHR ''/''" d' "[]"] by simp_all
      have a: "is_absolute (d' @ CHR ''/'' # q) = is_absolute (d' @ ''/'')" by (cases d') (auto simp: is_absolute_iff)
      show ?thesis
        using snoc True q(1,3) s a
        by (simp add: path_join_def components_def map_filter_snoc seg_component_def [of "[]"])
    next
      case False
      have s: "split_char CHR ''/'' (d @ CHR ''/'' # q) = split_char CHR ''/'' d @ [q]"
        using q(2) split_char_at [of "CHR ''/''" d q] by simp
      have a: "is_absolute (d @ CHR ''/'' # q) = is_absolute d" unfolding snoc by (cases d') (auto simp: is_absolute_iff)
      show ?thesis
        using snoc False q(1,3) s a by (simp add: path_join_def components_def map_filter_snoc)
    qed
  qed
qed

section \<open>The parent of a path\<close>

lemma split_char_pieces: "s \<in> set (split_char x p) \<Longrightarrow> x \<notin> set s"
  by (induction p arbitrary: s) (auto split: list.splits if_splits)

lemma trim_segs_subset: "set (trim_segs ss) \<subseteq> set ss"
  using set_dropWhileD by (fastforce simp: trim_segs_def)

lemma ParentDir_in_components:
  "ParentDir \<in> set (components p) \<longleftrightarrow> ''..'' \<in> set (split_char CHR ''/'' p)"
proof -
  obtain s ss where S: "split_char CHR ''/'' p = s # ss"
    using split_char_nonempty [of "CHR ''/''" p] by (cases "split_char CHR ''/'' p") auto
  have m: "ParentDir \<in> set (List.map_filter seg_component xs) \<longleftrightarrow> ''..'' \<in> set xs" for xs
    by (induction xs) (auto simp: List.map_filter_simps seg_component_def split: option.splits if_splits)
  have "is_absolute p \<Longrightarrow> s = []" using S by (auto simp: is_absolute_iff)
  then show ?thesis using S m [of ss] m [of "[s]"] by (auto simp: components_def)
qed

lemma path_parent_wf:
  assumes "is_absolute p" and "ParentDir \<notin> set (components p)" and "path_parent p = Some d"
  shows "is_absolute d \<and> ParentDir \<notin> set (components d)"
proof -
  obtain ss where S: "split_char CHR ''/'' p = [] # ss"
    using assms(1) by (auto simp: is_absolute_iff)
  let ?up = "trim_segs (butlast (trim_segs ss))"
  have up: "set ?up \<subseteq> set ss"
    using trim_segs_subset [of "butlast (trim_segs ss)"] trim_segs_subset [of ss] in_set_butlastD by fast
  have nd: "''..'' \<notin> set ss" using assms(2) S by (simp add: ParentDir_in_components)
  have d: "d = (if ?up = [] then ''/'' else join_with ''/'' ([] # ?up))"
    using assms(1,3) S by (auto simp: path_parent_def Let_def split: if_splits)
  show ?thesis
  proof (cases "?up = []")
    case True
    then show ?thesis using d by (simp add: is_absolute_def ParentDir_in_components)
  next
    case False
    have "split_char CHR ''/'' d = [] # ?up"
      unfolding d using False up split_char_pieces [of _ "CHR ''/''" p] S
      by (simp del: join_with.simps) (intro split_join, auto simp: list_all_iff)
    moreover have "is_absolute d" using False d by (cases ?up) (auto simp: is_absolute_iff)
    ultimately show ?thesis using nd up by (auto simp: ParentDir_in_components)
  qed
qed

end
