(* ===== verification/Sandbox.thy ===== *)
theory Sandbox
  imports Worker_Lifecycle Unix_Path "HOL-Library.AList"
begin

text \<open>
  The Linux half of \<^verbatim>\<open>sandbox/src\<close>: path validation and canonicalisation (\<^verbatim>\<open>lib.rs\<close>), the resource ceilings
  handed to \<^verbatim>\<open>systemd-run\<close> (\<^verbatim>\<open>linux_cgroup.rs\<close>), the \<^verbatim>\<open>bwrap\<close> command line and the spawn under a policy
  (\<^verbatim>\<open>linux_bwrap.rs\<close>), and the choice of a backend.

  The file system and the process table are parameters: \<open>Fs\<close> holds what the calls of one spawn return, each
  at the point where the spawn makes it, and \<open>exec\<close> what starting a command returns. \<open>dbg\<close> is the \<^verbatim>\<open>Debug\<close> rendering of a path in an error message.
\<close>

section \<open>What the operating system answers\<close>

datatype IoKind = IoNotFound | IoAlreadyExists | IoOther

record IoError =
  io_kind :: IoKind
  io_text :: rstr
  io_os :: "int option"

definition io_other :: "rstr \<Rightarrow> IoError" where
  "io_other s = \<lparr>io_kind = IoOther, io_text = s, io_os = None\<rparr>"

record Fs =
  canonicalize :: "rstr \<Rightarrow> IoError + rstr"
  is_file :: "rstr \<Rightarrow> bool"
  create_dir_all :: "rstr \<Rightarrow> IoError + unit"

datatype EnvMode = InheritEnv | ClearedEnv "(rstr \<times> rstr) list"

record Command =
  cmd_argv :: "rstr list"
  cmd_env :: EnvMode
  cmd_dir :: "rstr option"
  cmd_setsid :: bool

record Child =
  child_pid :: nat
  child_cmd :: Command

datatype SandboxError = Backend rstr

fun show_sandbox_error :: "SandboxError \<Rightarrow> rstr" where
  "show_sandbox_error (Backend s) = ''backend error: '' @ s"

section \<open>Paths a jail binds\<close>

definition validate_linux_bind_path :: "(rstr \<Rightarrow> rstr) \<Rightarrow> rstr \<Rightarrow> rstr \<Rightarrow> SandboxError + unit" where
  "validate_linux_bind_path dbg p kind =
     (if \<not> is_absolute p then Err (Backend (kind @ '' paths must be absolute, got '' @ dbg p))
      else if list_ex (\<lambda>c. c = ParentDir) (components p)
      then Err (Backend (kind @ '' paths must not contain '' @ [CHR 0x27] @ ''..'' @ [CHR 0x27] @
                         '' components, got '' @ dbg p))
      else Ok ())"

definition canonicalize_failed :: "(rstr \<Rightarrow> rstr) \<Rightarrow> rstr \<Rightarrow> IoError \<Rightarrow> SandboxError" where
  "canonicalize_failed dbg p e = Backend (''could not canonicalize policy path '' @ dbg p @ '': '' @ io_text e)"

definition canonicalize_one :: "(rstr \<Rightarrow> rstr) \<Rightarrow> Fs \<Rightarrow> rstr \<Rightarrow> SandboxError + rstr" where
  "canonicalize_one dbg fs p =
     (case canonicalize fs p of
        Ok resolved \<Rightarrow> Ok resolved
      | Err e \<Rightarrow>
          if io_kind e = IoNotFound
          then (case (path_parent p, file_name p) of
                  (Some parent, Some name) \<Rightarrow>
                    (case canonicalize fs parent of
                       Ok canon_parent \<Rightarrow> Ok (path_join canon_parent name)
                     | Err pe \<Rightarrow>
                         if io_kind pe = IoNotFound then Ok p else Err (canonicalize_failed dbg p pe))
                | _ \<Rightarrow> Ok p)
          else Err (canonicalize_failed dbg p e))"

section \<open>The cgroup ceilings\<close>

definition DEFAULT_CPU_QUOTA_PCT :: nat where "DEFAULT_CPU_QUOTA_PCT = 200"
definition DEFAULT_TASKS_MAX :: nat where "DEFAULT_TASKS_MAX = 64"

definition build_systemd_run_argv :: "SandboxPolicy \<Rightarrow> rstr list" where
  "build_systemd_run_argv p =
     [''systemd-run'', ''--user'', ''--scope'', ''--quiet'', ''--collect''] @
     (if mem_mb p > 0
      then [''-p'', ''MemoryMax='' @ show_nat (mem_mb p) @ ''M'', ''-p'', ''MemorySwapMax=0''] else []) @
     [''-p'', ''CPUQuota='' @ show_nat (case cpu_quota_pct p of Some q \<Rightarrow> q | None \<Rightarrow> DEFAULT_CPU_QUOTA_PCT) @ ''%''] @
     [''-p'', ''TasksMax='' @ show_nat (case tasks_max p of Some n \<Rightarrow> n | None \<Rightarrow> DEFAULT_TASKS_MAX)] @
     [''--'']"

section \<open>The bubblewrap command line\<close>

definition USERNS_LOCKDOWN_FLAGS :: "rstr list" where
  "USERNS_LOCKDOWN_FLAGS = [''--unshare-user'', ''--disable-userns'']"

definition push_bind :: "rstr list \<Rightarrow> rstr \<Rightarrow> rstr \<Rightarrow> rstr \<Rightarrow> rstr list" where
  "push_bind argv flag src dest = argv @ [flag, src, dest]"

definition share_net_flags :: "SandboxPolicy \<Rightarrow> rstr list" where
  "share_net_flags p =
     (case (sp_net p, proxy_uds p) of
        (NetAllowlist hosts, Some uds) \<Rightarrow> []
      | (ProxyEgress, _) \<Rightarrow> [''--share-net'']
      | (NetAllowlist hosts, None) \<Rightarrow> [''--share-net'']
      | (DenyNet, _) \<Rightarrow> [])"

definition build_argv_with_resolver ::
    "SandboxPolicy \<Rightarrow> rstr \<Rightarrow> rstr list \<Rightarrow> (rstr \<Rightarrow> rstr) \<Rightarrow> rstr list" where
  "build_argv_with_resolver policy program args canon =
     (let argv = [''bwrap'', ''--unshare-all''] @ share_net_flags policy @ USERNS_LOCKDOWN_FLAGS @
                 [''--die-with-parent'', ''--new-session'', ''--as-pid-1'', ''--clearenv''];
          argv = argv @ concat (map (\<lambda>(k, v). [''--setenv'', k, v]) (sp_env policy));
          argv = argv @ [''--proc'', ''/proc''] @ [''--dev'', ''/dev''] @ [''--tmpfs'', ''/tmp''] @
                 [''--ro-bind'', ''/usr'', ''/usr''] @ [''--symlink'', ''usr/bin'', ''/bin''] @
                 [''--symlink'', ''usr/sbin'', ''/sbin''] @ [''--symlink'', ''usr/lib'', ''/lib''] @
                 [''--symlink'', ''usr/lib64'', ''/lib64''] @
                 [''--ro-bind-try'', ''/etc/ld.so.cache'', ''/etc/ld.so.cache''];
          argv = fold (\<lambda>path argv. push_bind argv ''--ro-bind-try'' (canon path) path) (fs_read policy) argv;
          argv = fold (\<lambda>path argv. push_bind argv ''--bind-try'' (canon path) path) (fs_write policy) argv;
          argv = (case proxy_uds policy of None \<Rightarrow> argv | Some uds \<Rightarrow> push_bind argv ''--bind'' (canon uds) uds);
          argv = (case broker_uds policy of None \<Rightarrow> argv | Some uds \<Rightarrow> push_bind argv ''--bind'' (canon uds) uds);
          argv = (case persistent_store policy of
                    None \<Rightarrow> argv
                  | Some ps \<Rightarrow> argv @ [''--bind'', canon (pst_host_backing ps), pst_guest_mount ps])
      in argv @ [''--'', program] @ args)"

definition build_argv :: "SandboxPolicy \<Rightarrow> rstr \<Rightarrow> rstr list \<Rightarrow> rstr list" where
  "build_argv policy program args = build_argv_with_resolver policy program args (\<lambda>p. p)"

section \<open>Spawning under bubblewrap\<close>

text \<open>\<^verbatim>\<open>cmd.spawn()\<close>, with the failure as the backends report it.\<close>

definition start_command :: "(Command \<Rightarrow> IoError + nat) \<Rightarrow> rstr \<Rightarrow> Command \<Rightarrow> SandboxError + Child" where
  "start_command exec what cmd =
     (case exec cmd of
        Err e \<Rightarrow> Err (Backend (what @ '' spawn failed: '' @ io_text e))
      | Ok pid \<Rightarrow> Ok \<lparr>child_pid = pid, child_cmd = cmd\<rparr>)"

lemma start_command_Ok: "start_command exec what cmd = Ok c \<Longrightarrow> child_cmd c = cmd"
  by (auto simp: start_command_def split: sum.splits)

text \<open>The checks of \<^verbatim>\<open>spawn_under_policy\<close> in their order, the store's directory included.\<close>

definition bwrap_validate :: "(rstr \<Rightarrow> rstr) \<Rightarrow> Fs \<Rightarrow> SandboxPolicy \<Rightarrow> SandboxError + unit" where
  "bwrap_validate dbg fs policy =
     and_then (try_fold (\<lambda>p _. validate_linux_bind_path dbg p ''policy'') (fs_read policy @ fs_write policy) ())
       (\<lambda>_. and_then (case proxy_uds policy of
                        None \<Rightarrow> Ok ()
                      | Some uds \<Rightarrow> validate_linux_bind_path dbg uds ''proxy_uds'')
       (\<lambda>_. and_then (case broker_uds policy of
                        None \<Rightarrow> Ok ()
                      | Some uds \<Rightarrow> validate_linux_bind_path dbg uds ''broker_uds'')
       (\<lambda>_. case persistent_store policy of
              None \<Rightarrow> Ok ()
            | Some ps \<Rightarrow>
                and_then (try_fold (\<lambda>p _. validate_linux_bind_path dbg p ''persistent_store'')
                            [pst_host_backing ps, pst_guest_mount ps] ())
                  (\<lambda>_. if is_file fs (pst_host_backing ps)
                       then Err (Backend (''persistent_store host_backing '' @ dbg (pst_host_backing ps) @
                              '' is a file, but the bwrap backend expects a directory (a file is the Firecracker ext4-image form)''))
                       else case create_dir_all fs (pst_host_backing ps) of
                              Err e \<Rightarrow> Err (Backend (''persistent_store host_backing '' @ dbg (pst_host_backing ps) @
                                                     '': '' @ io_text e))
                            | Ok u \<Rightarrow> Ok ()))))"

text \<open>The map of resolved sources. Its keys are paths, so it is keyed by components.\<close>

type_synonym resolved = "(Component list \<times> rstr) list"

definition resolved_insert :: "(rstr \<Rightarrow> rstr) \<Rightarrow> Fs \<Rightarrow> rstr \<Rightarrow> resolved \<Rightarrow> SandboxError + resolved" where
  "resolved_insert dbg fs p m =
     (case canonicalize_one dbg fs p of Err e \<Rightarrow> Err e | Ok r \<Rightarrow> Ok (AList.update (components p) r m))"

definition host_sources :: "SandboxPolicy \<Rightarrow> rstr list" where
  "host_sources policy =
     fs_read policy @ fs_write policy @
     (case proxy_uds policy of None \<Rightarrow> [] | Some uds \<Rightarrow> [uds]) @
     (case broker_uds policy of None \<Rightarrow> [] | Some uds \<Rightarrow> [uds]) @
     (case persistent_store policy of None \<Rightarrow> [] | Some ps \<Rightarrow> [pst_host_backing ps])"

definition bwrap_resolved :: "(rstr \<Rightarrow> rstr) \<Rightarrow> Fs \<Rightarrow> SandboxPolicy \<Rightarrow> SandboxError + resolved" where
  "bwrap_resolved dbg fs policy = try_fold (resolved_insert dbg fs) (host_sources policy) []"

definition resolve_in :: "resolved \<Rightarrow> rstr \<Rightarrow> rstr" where
  "resolve_in m p = (case map_of m (components p) of Some r \<Rightarrow> r | None \<Rightarrow> p)"

definition bwrap_spawn_under_policy ::
    "(rstr \<Rightarrow> rstr) \<Rightarrow> Fs \<Rightarrow> (Command \<Rightarrow> IoError + nat) \<Rightarrow> SandboxPolicy \<Rightarrow> rstr \<Rightarrow> rstr list \<Rightarrow>
     SandboxError + Child" where
  "bwrap_spawn_under_policy dbg fs exec policy program args =
     and_then (bwrap_validate dbg fs policy)
       (\<lambda>_. and_then (bwrap_resolved dbg fs policy)
       (\<lambda>m. let cmd = \<lparr>cmd_argv = build_systemd_run_argv policy @
                                   build_argv_with_resolver policy program args (resolve_in m),
                       cmd_env = InheritEnv, cmd_dir = None, cmd_setsid = False\<rparr> in
            start_command exec ''systemd-run+bwrap'' cmd))"

section \<open>Choosing a backend\<close>

text \<open>The backends of one operating system, as the enum variants the build has. A container backend for an
  image of its own is made on the spot; \<open>container_of\<close> is that constructor.\<close>

record 'b LinuxBackends =
  bk_bwrap :: 'b
  bk_firecracker :: 'b

record 'b MacBackends =
  bk_seatbelt :: 'b
  bk_container :: 'b

datatype 'b SandboxBackends = OnLinux "'b LinuxBackends" | OnMac "'b MacBackends"

text \<open>\<open>None\<close> stands for the combinations the build of that system cannot write.\<close>

fun resolve_backend ::
    "(rstr \<Rightarrow> 'b) \<Rightarrow> 'b SandboxBackends \<Rightarrow> SandboxBackendKind option \<Rightarrow> rstr option \<Rightarrow> 'b option" where
  "resolve_backend container_of (OnLinux b) None img = Some (bk_bwrap b)"
| "resolve_backend container_of (OnMac b) None img = Some (bk_seatbelt b)"
| "resolve_backend container_of (OnLinux b) (Some Bwrap) img = Some (bk_bwrap b)"
| "resolve_backend container_of (OnLinux b) (Some FirecrackerVm) img = Some (bk_firecracker b)"
| "resolve_backend container_of (OnMac b) (Some Seatbelt) img = Some (bk_seatbelt b)"
| "resolve_backend container_of (OnMac b) (Some Container) None = Some (bk_container b)"
| "resolve_backend container_of (OnMac b) (Some Container) (Some tag) = Some (container_of tag)"
| "resolve_backend container_of (OnLinux b) (Some Seatbelt) img = None"
| "resolve_backend container_of (OnLinux b) (Some Container) img = None"
| "resolve_backend container_of (OnMac b) (Some Bwrap) img = None"
| "resolve_backend container_of (OnMac b) (Some FirecrackerVm) img = None"

definition landlock_in_lsm_list :: "rstr \<Rightarrow> bool" where
  "landlock_in_lsm_list contents =
     list_ex (\<lambda>entry. trim entry = ''landlock'') (concat (map (split_char (CHR 0x0A)) (split_char CHR '','' contents)))"

end
