(* ===== verification/Jail_Reading.thy ===== *)
theory Jail_Reading
  imports Sandbox
begin

text \<open>
  A reference reading of the command line a worker is started with, and the jail a policy asks for. The
  reading knows only how many words each option takes, as \<^verbatim>\<open>bwrap(1)\<close> and \<^verbatim>\<open>systemd-run(1)\<close> document them,
  and goes through the words from the left; it is a specification, not a model of those programs. The
  refinement lemma says that reading the command line the code builds gives the jail of the policy: no
  path, variable or argument of the policy can be taken for an option.
\<close>

section \<open>Reading a command line\<close>

datatype JailOp =
    JFlag rstr
  | JSetenv rstr rstr
  | JSpecial rstr rstr
  | JSymlink rstr rstr
  | JMount rstr rstr rstr

definition jail_flags :: "rstr list" where
  "jail_flags = [''--unshare-all'', ''--share-net'', ''--unshare-user'', ''--disable-userns'', ''--die-with-parent'',
     ''--new-session'', ''--as-pid-1'', ''--clearenv'']"

definition special_flags :: "rstr list" where
  "special_flags = [''--proc'', ''--dev'', ''--tmpfs'']"

definition mount_flags :: "rstr list" where
  "mount_flags = [''--ro-bind'', ''--ro-bind-try'', ''--bind'', ''--bind-try'', ''--dev-bind'']"

fun op_words :: "JailOp \<Rightarrow> rstr list" where
  "op_words (JFlag f) = [f]"
| "op_words (JSetenv k v) = [''--setenv'', k, v]"
| "op_words (JSpecial f d) = [f, d]"
| "op_words (JSymlink s d) = [''--symlink'', s, d]"
| "op_words (JMount f s d) = [f, s, d]"

fun op_ok :: "JailOp \<Rightarrow> bool" where
  "op_ok (JFlag f) \<longleftrightarrow> f \<in> set jail_flags"
| "op_ok (JSetenv k v) \<longleftrightarrow> True"
| "op_ok (JSpecial f d) \<longleftrightarrow> f \<in> set special_flags"
| "op_ok (JSymlink s d) \<longleftrightarrow> True"
| "op_ok (JMount f s d) \<longleftrightarrow> f \<in> set mount_flags"

fun read_op :: "rstr list \<Rightarrow> (JailOp \<times> rstr list) option" where
  "read_op [] = None"
| "read_op (w # ws) =
     (if w \<in> set jail_flags then Some (JFlag w, ws)
      else if w \<in> set special_flags then (case ws of d # r \<Rightarrow> Some (JSpecial w d, r) | _ \<Rightarrow> None)
      else (case ws of
              x # y # r \<Rightarrow>
                if w = ''--setenv'' then Some (JSetenv x y, r)
                else if w = ''--symlink'' then Some (JSymlink x y, r)
                else if w \<in> set mount_flags then Some (JMount w x y, r)
                else None
            | _ \<Rightarrow> None))"

lemma read_op_length: "read_op ws = Some (op, r) \<Longrightarrow> length r < length ws"
  by (cases ws) (auto split: if_splits list.splits)

function read_ops :: "rstr list \<Rightarrow> (JailOp list \<times> rstr list) option" where
  "read_ops [] = None"
| "read_ops (w # ws) =
     (if w = ''--'' then Some ([], ws)
      else case read_op (w # ws) of
             None \<Rightarrow> None
           | Some (op, r) \<Rightarrow> map_option (\<lambda>(ops, c). (op # ops, c)) (read_ops r))"
  by pat_completeness auto
termination
  by (relation "measure length") (auto dest: read_op_length simp del: read_op.simps)

declare read_op.simps [simp del] read_ops.simps [simp del]

lemma flag_classes:
  "w \<in> set special_flags \<Longrightarrow> w \<notin> set jail_flags"
  "w \<in> set mount_flags \<Longrightarrow> w \<notin> set jail_flags \<and> w \<notin> set special_flags \<and> w \<noteq> ''--setenv'' \<and> w \<noteq> ''--symlink''"
  "''--setenv'' \<notin> set jail_flags" "''--setenv'' \<notin> set special_flags"
  "''--symlink'' \<notin> set jail_flags" "''--symlink'' \<notin> set special_flags"
  "''--'' \<notin> set jail_flags" "''--'' \<notin> set special_flags" "''--'' \<notin> set mount_flags"
  by (auto simp: jail_flags_def special_flags_def mount_flags_def)

lemma read_op_words:
  assumes "op_ok op" shows "read_op (op_words op @ r) = Some (op, r)"
  using assms by (cases op) (simp_all add: read_op.simps flag_classes)

lemma op_words_head:
  "op_ok op \<Longrightarrow> \<exists>w ws. op_words op = w # ws \<and> w \<noteq> ''--''"
  by (cases op) (auto simp: jail_flags_def special_flags_def mount_flags_def)

lemma read_ops_words:
  assumes "list_all op_ok ops"
  shows "read_ops (concat (map op_words ops) @ ''--'' # c) = Some (ops, c)"
  using assms
proof (induction ops)
  case Nil
  show ?case by (simp add: read_ops.simps)
next
  case (Cons op ops)
  obtain w ws where w: "op_words op = w # ws" "w \<noteq> ''--''"
    using op_words_head Cons.prems by (metis list.pred_inject(2))
  have "read_op (w # ws @ concat (map op_words ops) @ ''--'' # c) = Some (op, concat (map op_words ops) @ ''--'' # c)"
    using read_op_words [of op "concat (map op_words ops) @ ''--'' # c"] Cons.prems w by simp
  then show ?case using Cons w by (simp add: read_ops.simps)
qed

section \<open>The jail\<close>

datatype access = ReadOnly | ReadWrite

text \<open>A mount: how it is accessed, whether its source has to exist, the source on the host and where the
  worker sees it. The mounts keep the order of the command line, later ones covering earlier ones.\<close>

record Mount =
  m_access :: access
  m_required :: bool
  m_src :: rstr
  m_dst :: rstr

record Jail =
  jl_limits :: "rstr list"
  jl_net_private :: bool
  jl_userns_locked :: bool
  jl_env_cleared :: bool
  jl_env :: "(rstr \<times> rstr) list"
  jl_mounts :: "Mount list"
  jl_command :: "rstr list"

fun op_mount :: "JailOp \<Rightarrow> Mount option" where
  "op_mount (JMount f s d) =
     Some \<lparr>m_access = (if f = ''--ro-bind'' \<or> f = ''--ro-bind-try'' then ReadOnly else ReadWrite),
           m_required = (f \<noteq> ''--ro-bind-try'' \<and> f \<noteq> ''--bind-try''), m_src = s, m_dst = d\<rparr>"
| "op_mount _ = None"

fun op_env :: "JailOp \<Rightarrow> (rstr \<times> rstr) option" where
  "op_env (JSetenv k v) = Some (k, v)"
| "op_env _ = None"

definition ops_jail :: "rstr list \<Rightarrow> JailOp list \<Rightarrow> rstr list \<Rightarrow> Jail" where
  "ops_jail limits ops c =
     \<lparr>jl_limits = limits,
      jl_net_private = (JFlag ''--unshare-all'' \<in> set ops \<and> JFlag ''--share-net'' \<notin> set ops),
      jl_userns_locked = (JFlag ''--unshare-user'' \<in> set ops \<and> JFlag ''--disable-userns'' \<in> set ops),
      jl_env_cleared = (JFlag ''--clearenv'' \<in> set ops),
      jl_env = List.map_filter op_env ops,
      jl_mounts = List.map_filter op_mount ops,
      jl_command = c\<rparr>"

text \<open>\<^verbatim>\<open>systemd-run\<close> takes its own options up to the first \<^verbatim>\<open>--\<close>; the command after it is \<^verbatim>\<open>bwrap\<close>.\<close>

fun read_limits :: "rstr list \<Rightarrow> (rstr list \<times> rstr list) option" where
  "read_limits [] = None"
| "read_limits [w] = None"
| "read_limits (w # v # ws) =
     (if w = ''--'' then Some ([], v # ws)
      else if w = ''-p'' then map_option (\<lambda>(ls, c). (v # ls, c)) (read_limits ws)
      else if w \<in> {''--user'', ''--scope'', ''--quiet'', ''--collect''} then read_limits (v # ws)
      else None)"

definition read_jail :: "rstr list \<Rightarrow> Jail option" where
  "read_jail argv =
     (case argv of
        w # ws \<Rightarrow>
          if w \<noteq> ''systemd-run'' then None
          else (case read_limits ws of
                  Some (limits, b # ops) \<Rightarrow>
                    if b \<noteq> ''bwrap'' then None
                    else map_option (\<lambda>(ops, c). ops_jail limits ops c) (read_ops ops)
                | _ \<Rightarrow> None)
      | [] \<Rightarrow> None)"

text \<open>The jail a policy asks for, its host paths resolved by \<open>canon\<close>.\<close>

definition policy_limits :: "SandboxPolicy \<Rightarrow> rstr list" where
  "policy_limits p =
     (if mem_mb p > 0 then [''MemoryMax='' @ show_nat (mem_mb p) @ ''M'', ''MemorySwapMax=0''] else []) @
     [''CPUQuota='' @ show_nat (case cpu_quota_pct p of Some q \<Rightarrow> q | None \<Rightarrow> 200) @ ''%'',
      ''TasksMax='' @ show_nat (case tasks_max p of Some n \<Rightarrow> n | None \<Rightarrow> 64)]"

definition bind_of :: "access \<Rightarrow> bool \<Rightarrow> rstr \<Rightarrow> rstr \<Rightarrow> Mount" where
  "bind_of a req s d = \<lparr>m_access = a, m_required = req, m_src = s, m_dst = d\<rparr>"

definition policy_mounts :: "(rstr \<Rightarrow> rstr) \<Rightarrow> SandboxPolicy \<Rightarrow> Mount list" where
  "policy_mounts canon p =
     [bind_of ReadOnly True ''/usr'' ''/usr'', bind_of ReadOnly False ''/etc/ld.so.cache'' ''/etc/ld.so.cache''] @
     map (\<lambda>q. bind_of ReadOnly False (canon q) q) (fs_read p) @
     map (\<lambda>q. bind_of ReadWrite False (canon q) q) (fs_write p) @
     map (\<lambda>q. bind_of ReadWrite True (canon q) q)
       ((case proxy_uds p of None \<Rightarrow> [] | Some u \<Rightarrow> [u]) @ (case broker_uds p of None \<Rightarrow> [] | Some u \<Rightarrow> [u])) @
     (case persistent_store p of
        None \<Rightarrow> [] | Some ps \<Rightarrow> [bind_of ReadWrite True (canon (pst_host_backing ps)) (pst_guest_mount ps)])"

text \<open>The network is private unless the policy is the proxy's own, or lists hosts without a proxy to route
  them through.\<close>

definition net_private :: "SandboxPolicy \<Rightarrow> bool" where
  "net_private p \<longleftrightarrow> sp_net p \<noteq> ProxyEgress \<and> (proxy_uds p \<noteq> None \<or> sp_net p = DenyNet)"

definition policy_jail :: "(rstr \<Rightarrow> rstr) \<Rightarrow> SandboxPolicy \<Rightarrow> rstr \<Rightarrow> rstr list \<Rightarrow> Jail" where
  "policy_jail canon p program args =
     \<lparr>jl_limits = policy_limits p, jl_net_private = net_private p, jl_userns_locked = True,
      jl_env_cleared = True, jl_env = sp_env p, jl_mounts = policy_mounts canon p,
      jl_command = program # args\<rparr>"

section \<open>The command line refines the jail\<close>

definition policy_ops :: "(rstr \<Rightarrow> rstr) \<Rightarrow> SandboxPolicy \<Rightarrow> JailOp list" where
  "policy_ops canon p =
     map JFlag ([''--unshare-all''] @ share_net_flags p @
       [''--unshare-user'', ''--disable-userns'', ''--die-with-parent'', ''--new-session'', ''--as-pid-1'', ''--clearenv'']) @
     map (\<lambda>(k, v). JSetenv k v) (sp_env p) @
     [JSpecial ''--proc'' ''/proc'', JSpecial ''--dev'' ''/dev'', JSpecial ''--tmpfs'' ''/tmp'',
      JMount ''--ro-bind'' ''/usr'' ''/usr'', JSymlink ''usr/bin'' ''/bin'', JSymlink ''usr/sbin'' ''/sbin'',
      JSymlink ''usr/lib'' ''/lib'', JSymlink ''usr/lib64'' ''/lib64'',
      JMount ''--ro-bind-try'' ''/etc/ld.so.cache'' ''/etc/ld.so.cache''] @
     map (\<lambda>q. JMount ''--ro-bind-try'' (canon q) q) (fs_read p) @
     map (\<lambda>q. JMount ''--bind-try'' (canon q) q) (fs_write p) @
     map (\<lambda>q. JMount ''--bind'' (canon q) q)
       ((case proxy_uds p of None \<Rightarrow> [] | Some u \<Rightarrow> [u]) @ (case broker_uds p of None \<Rightarrow> [] | Some u \<Rightarrow> [u])) @
     (case persistent_store p of
        None \<Rightarrow> [] | Some ps \<Rightarrow> [JMount ''--bind'' (canon (pst_host_backing ps)) (pst_guest_mount ps)])"

lemma share_net_flags_iff: "share_net_flags p = (if net_private p then [] else [''--share-net''])"
  by (auto simp: share_net_flags_def net_private_def split: Net.splits option.splits)

lemma policy_ops_ok: "list_all op_ok (policy_ops canon p)"
  by (auto simp: policy_ops_def list_all_iff share_net_flags_iff jail_flags_def special_flags_def
      mount_flags_def split: if_splits option.splits)

lemma fold_push_bind:
  "fold (\<lambda>path argv. push_bind argv flag (canon path) path) ps argv =
   argv @ concat (map (\<lambda>q. op_words (JMount flag (canon q) q)) ps)"
  by (induction ps arbitrary: argv) (auto simp: push_bind_def)

lemma build_argv_ops:
  "build_argv_with_resolver p program args canon =
   ''bwrap'' # concat (map op_words (policy_ops canon p)) @ ''--'' # program # args"
  unfolding build_argv_with_resolver_def policy_ops_def Let_def fold_push_bind share_net_flags_iff
  by (cases "proxy_uds p"; cases "broker_uds p"; cases "persistent_store p")
     (simp_all add: push_bind_def case_prod_unfold USERNS_LOCKDOWN_FLAGS_def comp_def)

lemma read_limits_systemd:
  "read_limits (tl (build_systemd_run_argv p) @ c # cs) = Some (policy_limits p, c # cs)"
  by (simp add: build_systemd_run_argv_def policy_limits_def DEFAULT_CPU_QUOTA_PCT_def DEFAULT_TASKS_MAX_def
      split: option.split)

lemma map_filter_map_None: "(\<And>x. f (g x) = None) \<Longrightarrow> List.map_filter f (map g xs) = []"
  by (simp add: List.map_filter_def)

lemma map_filter_map_Some: "(\<And>x. f (g x) = Some (h x)) \<Longrightarrow> List.map_filter f (map g xs) = map h xs"
  by (simp add: List.map_filter_def comp_def)

lemma ops_jail_policy: "ops_jail (policy_limits p) (policy_ops canon p) (program # args) = policy_jail canon p program args"
proof -
  have env: "List.map_filter op_env (policy_ops canon p) = sp_env p"
    unfolding policy_ops_def map_filter_append
    by (cases "persistent_store p")
       (simp_all add: map_filter_map_None List.map_filter_simps map_filter_map_Some [of op_env _ "\<lambda>x. x"]
        prod.case_eq_if del: map_append)
  have mounts: "List.map_filter op_mount (policy_ops canon p) = policy_mounts canon p"
    unfolding policy_ops_def policy_mounts_def map_filter_append
    by (cases "persistent_store p")
       (simp_all add: map_filter_map_None List.map_filter_simps bind_of_def
        map_filter_map_Some [of op_mount _ "\<lambda>q. bind_of ReadOnly False (canon q) q"]
        map_filter_map_Some [of op_mount _ "\<lambda>q. bind_of ReadWrite False (canon q) q"]
        map_filter_map_Some [of op_mount _ "\<lambda>q. bind_of ReadWrite True (canon q) q"]
        prod.case_eq_if del: map_append)
  have net: "JFlag ''--share-net'' \<in> set (policy_ops canon p) \<longleftrightarrow> \<not> net_private p"
    by (auto simp: policy_ops_def share_net_flags_iff split: option.splits if_splits)
  have flags: "JFlag f \<in> set (policy_ops canon p)"
    if "f \<in> {''--unshare-all'', ''--unshare-user'', ''--disable-userns'', ''--clearenv''}" for f
    using that by (auto simp: policy_ops_def)
  show ?thesis
    unfolding ops_jail_def policy_jail_def env mounts net by (simp add: flags)
qed

lemma bwrap_refines_jail:
  "read_jail (build_systemd_run_argv p @ build_argv_with_resolver p program args canon) =
   Some (policy_jail canon p program args)"
proof -
  have "build_systemd_run_argv p = ''systemd-run'' # tl (build_systemd_run_argv p)"
    by (simp add: build_systemd_run_argv_def)
  then obtain ws where ws: "build_systemd_run_argv p = ''systemd-run'' # ws" by blast
  show ?thesis
    using read_limits_systemd [of p] unfolding ws
    by (simp add: read_jail_def build_argv_ops read_ops_words policy_ops_ok ops_jail_policy)
qed

section \<open>What a spawn under bubblewrap has checked\<close>

lemma try_fold_checks:
  "try_fold (\<lambda>p _. check p) ps () = Ok () \<Longrightarrow> p \<in> set ps \<Longrightarrow> check p = Ok ()"
  by (induction ps) (auto simp: and_then_Ok_iff)

lemma validate_Ok:
  "validate_linux_bind_path dbg p kind = Ok u \<longleftrightarrow> is_absolute p \<and> ParentDir \<notin> set (components p)"
  by (auto simp: validate_linux_bind_path_def list_ex_iff)

lemma bwrap_validate_Ok:
  assumes "bwrap_validate dbg fs policy = Ok ()" and "p \<in> set (host_sources policy)"
  shows "is_absolute p \<and> ParentDir \<notin> set (components p)"
proof -
  from assms(1) have fold: "try_fold (\<lambda>p _. validate_linux_bind_path dbg p ''policy'') (fs_read policy @ fs_write policy) () = Ok ()"
    and px: "\<And>u. proxy_uds policy = Some u \<Longrightarrow> validate_linux_bind_path dbg u ''proxy_uds'' = Ok ()"
    and bk: "\<And>u. broker_uds policy = Some u \<Longrightarrow> validate_linux_bind_path dbg u ''broker_uds'' = Ok ()"
    and ps: "\<And>s. persistent_store policy = Some s \<Longrightarrow> validate_linux_bind_path dbg (pst_host_backing s) ''persistent_store'' = Ok ()"
    by (auto simp: bwrap_validate_def and_then_Ok_iff split: sum.splits option.splits if_splits)
  show ?thesis
    using assms(2) try_fold_checks [OF fold, of p] px bk ps
    by (auto simp: host_sources_def validate_Ok split: option.splits)
qed

lemma resolved_insert_Ok:
  "resolved_insert dbg fs p m = Ok m' \<longleftrightarrow>
   (\<exists>r. canonicalize_one dbg fs p = Ok r \<and> m' = AList.update (components p) r m)"
  by (auto simp: resolved_insert_def split: sum.splits)

lemma resolved_fold:
  assumes "try_fold (resolved_insert dbg fs) ps m = Ok m'"
  shows "\<And>p. p \<in> set ps \<Longrightarrow> \<exists>q r. q \<in> set ps \<and> path_eq q p \<and> canonicalize_one dbg fs q = Ok r \<and> map_of m' (components p) = Some r"
    and "\<And>k. k \<notin> components ` set ps \<Longrightarrow> map_of m' k = map_of m k"
  using assms
proof (induction ps arbitrary: m)
  case Nil
  { case 1 then show ?case by simp }
  { case 2 then show ?case by simp }
next
  case (Cons p ps)
  { case (1 q)
    then obtain r where r: "canonicalize_one dbg fs p = Ok r"
      and rest: "try_fold (resolved_insert dbg fs) ps (AList.update (components p) r m) = Ok m'"
      by (auto simp: and_then_Ok_iff resolved_insert_Ok)
    show ?case
    proof (cases "components q \<in> components ` set ps")
      case True
      then obtain s where s: "s \<in> set ps" "components s = components q" by auto
      then show ?thesis using Cons.IH(1) [OF s(1) rest] by (auto simp: path_eq_def)
    next
      case False
      then have "components q = components p" using 1 by auto
      then show ?thesis
        using Cons.IH(2) [OF False rest] r by (auto simp: path_eq_def update_conv')
    qed }
  { case (2 k)
    then show ?case using Cons.IH(2)
      by (auto simp: and_then_Ok_iff resolved_insert_Ok update_conv') }
qed

lemma bwrap_spawn_Ok:
  assumes "bwrap_spawn_under_policy dbg fs exec policy program args = Ok c"
  obtains canon where
    "read_jail (cmd_argv (child_cmd c)) = Some (policy_jail canon policy program args)"
    "\<And>p. p \<in> set (host_sources policy) \<Longrightarrow> is_absolute p \<and> ParentDir \<notin> set (components p) \<and>
       (\<exists>q \<in> set (host_sources policy). path_eq q p \<and> canonicalize_one dbg fs q = Ok (canon p))"
proof -
  from assms obtain m where v: "bwrap_validate dbg fs policy = Ok ()" and m: "bwrap_resolved dbg fs policy = Ok m"
    and c: "cmd_argv (child_cmd c) = build_systemd_run_argv policy @
              build_argv_with_resolver policy program args (resolve_in m)"
    by (auto simp: bwrap_spawn_under_policy_def and_then_Ok_iff Let_def dest!: start_command_Ok)
  have "\<exists>q \<in> set (host_sources policy). path_eq q p \<and> canonicalize_one dbg fs q = Ok (resolve_in m p)"
    if "p \<in> set (host_sources policy)" for p
    using resolved_fold(1) [OF m [unfolded bwrap_resolved_def] that] by (auto simp: resolve_in_def)
  with bwrap_validate_Ok [OF v] show thesis
    by (intro that [of "resolve_in m"]) (auto simp: c bwrap_refines_jail)
qed

section \<open>The contract of a backend\<close>

text \<open>
  What the rest of the daemon relies on when it starts a worker: a spawn that succeeds under a policy that
  denies the network, or lists hosts behind a proxy socket, gives a process whose own network reaches
  nothing. \<open>isolated\<close> reads that off the command the backend runs.
\<close>

locale jail_backend =
  fixes spawn_under :: "SandboxPolicy \<Rightarrow> rstr \<Rightarrow> rstr list \<Rightarrow> SandboxError + Child"
    and isolated :: "Command \<Rightarrow> bool"
  assumes net_private_isolated:
    "spawn_under policy program args = Ok c \<Longrightarrow> net_private policy \<Longrightarrow> isolated (child_cmd c)"
begin

lemma forced_isolated:
  assumes "spawn_under policy program args = Ok c" and "sp_net policy = NetAllowlist hosts"
    and "proxy_uds policy = Some uds"
  shows "isolated (child_cmd c)"
  using net_private_isolated [OF assms(1)] assms(2,3) by (simp add: net_private_def)

lemma denied_isolated:
  assumes "spawn_under policy program args = Ok c" and "sp_net policy = DenyNet"
  shows "isolated (child_cmd c)"
  using net_private_isolated [OF assms(1)] assms(2) by (simp add: net_private_def)

end

definition bwrap_isolated :: "Command \<Rightarrow> bool" where
  "bwrap_isolated cmd = (case read_jail (cmd_argv cmd) of Some j \<Rightarrow> jl_net_private j | None \<Rightarrow> False)"

interpretation bwrap: jail_backend "bwrap_spawn_under_policy dbg fs exec" bwrap_isolated for dbg fs exec
proof
  fix policy program args c
  assume "bwrap_spawn_under_policy dbg fs exec policy program args = Ok c" "net_private policy"
  then show "bwrap_isolated (child_cmd c)"
    by (elim bwrap_spawn_Ok) (simp add: bwrap_isolated_def policy_jail_def)
qed

end
