(* ===== verification/Egress_Config.thy ===== *)
theory Egress_Config
  imports Egress_Allowlist Net_Classify Ip_Text Unix_Path "HOL-Library.List_Lexorder" "HOL-Library.Char_ord"
begin

text \<open>
  The operator's egress configuration: certificate pins (\<^verbatim>\<open>core/src/egress/cert_pins.rs\<close>) and extra upstream
  trust anchors (\<^verbatim>\<open>core/src/egress/upstream_ca.rs\<close>), and what of them a worker's proxy is given. A \<^verbatim>\<open>BTreeMap\<close> is
  its entries in ascending key order; reading one from JSON text is the parameter \<open>from_json\<close>, writing one
  the parameter \<open>to_json\<close>.
\<close>

section \<open>Ordered maps\<close>

fun btree_insert :: "rstr \<Rightarrow> 'v \<Rightarrow> (rstr \<times> 'v) list \<Rightarrow> (rstr \<times> 'v) list" where
  "btree_insert k v [] = [(k, v)]"
| "btree_insert k v ((k', v') # m) =
     (if k < k' then (k, v) # (k', v') # m
      else if k = k' then (k, v) # m
      else (k', v') # btree_insert k v m)"

definition btree_set_of :: "rstr list \<Rightarrow> rstr list" where
  "btree_set_of xs = sort (remdups xs)"

lemma map_of_btree_insert [simp]: "map_of (btree_insert k v m) = (map_of m)(k \<mapsto> v)"
  by (induction m) auto

lemma set_btree_insert: "set (btree_insert k v m) \<subseteq> insert (k, v) (set m)"
  by (induction m) (auto split: if_splits)

lemma set_btree_set_of [simp]: "set (btree_set_of xs) = set xs"
  by (simp add: btree_set_of_def)

section \<open>Certificate pins\<close>

datatype CertPinError = CpShape rstr | CpEmptyPinList rstr | CpBadPrefix rstr rstr

definition PIN_PREFIX :: rstr where "PIN_PREFIX = ''sha256/''"

type_synonym CertPinMap = "(rstr \<times> rstr list) list"

definition cert_pin_entry :: "rstr \<times> rstr list \<Rightarrow> CertPinMap \<Rightarrow> CertPinError + CertPinMap" where
  "cert_pin_entry e out =
     (case e of (host, pins) \<Rightarrow>
        if pins = [] then Err (CpEmptyPinList host)
        else case find (\<lambda>pin. \<not> starts_with pin PIN_PREFIX) pins of
               Some pin \<Rightarrow> Err (CpBadPrefix host pin)
             | None \<Rightarrow> Ok (btree_insert (to_ascii_lowercase host) pins out))"

definition parse_cert_pins :: "(rstr \<Rightarrow> rstr + (rstr \<times> rstr list) list) \<Rightarrow> rstr \<Rightarrow> CertPinError + CertPinMap" where
  "parse_cert_pins from_json json =
     (case from_json json of Err e \<Rightarrow> Err (CpShape e) | Ok raw \<Rightarrow> try_fold cert_pin_entry raw [])"

definition host_of_endpoint :: "rstr \<Rightarrow> rstr" where
  "host_of_endpoint endpoint =
     (case strip_prefix endpoint ''['' of
        Some rest \<Rightarrow> (case find_char CHR '']'' rest of Some e \<Rightarrow> take e rest | None \<Rightarrow> endpoint)
      | None \<Rightarrow> (case rsplit_once CHR '':'' endpoint of Some (host, port) \<Rightarrow> host | None \<Rightarrow> endpoint))"

definition allowlist_entry_admits :: "rstr \<Rightarrow> rstr \<Rightarrow> bool" where
  "allowlist_entry_admits entry_host pinned_host =
     (case strip_prefix entry_host ''.'' of
        Some d \<Rightarrow> if d \<noteq> [] then pinned_host = d \<or> ends_with pinned_host (''.'' @ d) else entry_host = pinned_host
      | None \<Rightarrow> entry_host = pinned_host)"

definition selected_pins :: "CertPinMap \<Rightarrow> rstr list \<Rightarrow> CertPinMap" where
  "selected_pins m allowlist =
     (let entries = map (\<lambda>ep. to_ascii_lowercase (host_of_endpoint ep)) allowlist in
      filter (\<lambda>(host, pins). list_ex (\<lambda>e. allowlist_entry_admits e host) entries) m)"

definition select_pins_for_allowlist :: "(CertPinMap \<Rightarrow> rstr) \<Rightarrow> CertPinMap \<Rightarrow> rstr list \<Rightarrow> rstr option" where
  "select_pins_for_allowlist to_json m allowlist =
     (let selected = selected_pins m allowlist in if selected = [] then None else Some (to_json selected))"

section \<open>Extra trust anchors\<close>

datatype UpstreamCaError = UcShape rstr | UcEmptyPath rstr | UcRelativePath rstr rstr | UcNotPrivateOrigin rstr

type_synonym UpstreamCaMap = "(rstr \<times> rstr) list"

definition private_literal_key :: "rstr \<Rightarrow> rstr option" where
  "private_literal_key host =
     (case parse_ip host of None \<Rightarrow> None | Some ip \<Rightarrow> if is_denied_range ip then Some (show_ip ip) else None)"

definition upstream_ca_entry :: "rstr \<times> rstr \<Rightarrow> UpstreamCaMap \<Rightarrow> UpstreamCaError + UpstreamCaMap" where
  "upstream_ca_entry e out =
     (case e of (host, path) \<Rightarrow>
        let trimmed = trim path in
        if trimmed = [] then Err (UcEmptyPath host)
        else if \<not> is_absolute trimmed then Err (UcRelativePath host trimmed)
        else case private_literal_key (trim host) of
               None \<Rightarrow> Err (UcNotPrivateOrigin host)
             | Some key \<Rightarrow> Ok (btree_insert key trimmed out))"

definition parse_upstream_cas :: "(rstr \<Rightarrow> rstr + (rstr \<times> rstr) list) \<Rightarrow> rstr \<Rightarrow> UpstreamCaError + UpstreamCaMap" where
  "parse_upstream_cas from_json json =
     (case from_json json of Err e \<Rightarrow> Err (UcShape e) | Ok raw \<Rightarrow> try_fold upstream_ca_entry raw [])"

datatype UpstreamCaSelectError = MixedAllowlist rstr "rstr list" | MultipleKeyedHosts "rstr list"

definition canonical_allowlist_host :: "rstr \<Rightarrow> rstr" where
  "canonical_allowlist_host endpoint =
     (let host = to_ascii_lowercase (host_of_endpoint endpoint) in
      case parse_ip host of Some ip \<Rightarrow> show_ip ip | None \<Rightarrow> host)"

definition select_ca_for_allowlist :: "UpstreamCaMap \<Rightarrow> rstr list \<Rightarrow> UpstreamCaSelectError + rstr option" where
  "select_ca_for_allowlist m allowlist =
     (let hosts = btree_set_of (map canonical_allowlist_host allowlist) in
      case filter (\<lambda>(host, path). host \<in> set hosts) m of
        [] \<Rightarrow> Ok None
      | [(host, path)] \<Rightarrow>
          (let others = filter (\<lambda>h. h \<noteq> host) hosts in
           if others \<noteq> [] then Err (MixedAllowlist host others) else Ok (Some path))
      | many \<Rightarrow> Err (MultipleKeyedHosts (map fst many)))"

definition PEM_CERT_MARKER :: rstr where "PEM_CERT_MARKER = ''-----BEGIN CERTIFICATE-----''"

datatype UpstreamCaFileError = CaUnreadable rstr rstr rstr | CaNoCertificate rstr rstr rstr

definition check_ca_pem_contents :: "rstr \<Rightarrow> rstr \<Rightarrow> rstr \<Rightarrow> UpstreamCaFileError + nat" where
  "check_ca_pem_contents host path contents =
     (let count = length (match_indices contents PEM_CERT_MARKER) in
      if count = 0 then Err (CaNoCertificate host path PEM_CERT_MARKER) else Ok count)"

section \<open>A pin travels exactly where the proxy may go\<close>

text \<open>An entry of the documented shape \<open>host:port\<close>: the host is printable ASCII without colon or bracket,
  and the port parses.\<close>

definition host_char :: "char \<Rightarrow> bool" where
  "host_char c \<longleftrightarrow> graph_char c \<and> c \<noteq> CHR '':'' \<and> c \<noteq> CHR ''['' \<and> c \<noteq> CHR '']''"

definition endpoint_entry :: "rstr \<Rightarrow> bool" where
  "endpoint_entry e \<longleftrightarrow>
     (case rsplit_once CHR '':'' e of
        None \<Rightarrow> False
      | Some (host, port) \<Rightarrow>
          host \<noteq> [] \<and> host \<noteq> ''.'' \<and> list_all host_char host \<and> list_all graph_char port \<and> port \<noteq> [] \<and>
          parse_port port \<noteq> None)"

lemma ws_seqs_lasts: "list_all (\<lambda>w. w \<noteq> [] \<and> \<not> graph_char (last w)) ws_seqs"
  by (simp add: ws_seqs_def graph_char_def code_def)

lemma trim_start_graph: "graph_char c \<Longrightarrow> trim_start (c # s) = c # s"
  by (simp add: trim_start.simps graph_char_not_ws)

lemma trim_end_rev_graph:
  assumes "graph_char c" shows "trim_end_rev (c # s) = c # s"
proof -
  have "\<not> starts_with (c # s) (rev w)" if "w \<in> set ws_seqs" for w
    using ws_seqs_lasts that assms by (cases w rule: rev_cases) (auto simp: list_all_iff)
  then have "find (\<lambda>w. starts_with (c # s) (rev w)) ws_seqs = None" by (auto simp: find_None_iff)
  then show ?thesis by (simp add: trim_end_rev.simps)
qed

lemma trim_graph:
  assumes "s \<noteq> []" and "graph_char (hd s)" and "graph_char (last s)"
  shows "trim s = s"
proof -
  have "trim_start s = s" using assms(1,2) trim_start_graph by (cases s) auto
  moreover have "trim_end_rev (rev s) = rev s"
    using assms(1,3) trim_end_rev_graph by (cases s rule: rev_cases) auto
  ultimately show ?thesis by (simp add: trim_def trim_end_def)
qed

lemma trim_graphs:
  assumes "list_all graph_char s" shows "trim s = s"
proof (cases "s = []")
  case True
  have "trim [] = []" by code_simp
  with True show ?thesis by simp
next
  case False
  with assms show ?thesis by (intro trim_graph) (auto simp: list_all_iff)
qed

lemma endpoint_entry_cases:
  assumes "endpoint_entry e"
  obtains host port p where "e = host @ CHR '':'' # port" "CHR '':'' \<notin> set port" "host \<noteq> []" "host \<noteq> ''.''"
    "list_all host_char host" "parse_port port = Some p" "host_of_endpoint e = host"
    "split_host_port e = (host, Some p)"
proof -
  from assms obtain host port p where r: "rsplit_once CHR '':'' e = Some (host, port)"
    and h: "host \<noteq> []" "host \<noteq> ''.''" "list_all host_char host" and g: "list_all graph_char port" "port \<noteq> []"
    and p: "parse_port port = Some p"
    unfolding endpoint_entry_def by (auto split: option.splits prod.splits)
  have e: "e = host @ CHR '':'' # port" "CHR '':'' \<notin> set port" using r by (simp_all add: rsplit_once_Some)
  have nb: "strip_prefix e ''['' = None"
    using h(1,3) by (cases host) (auto simp: e strip_prefix_None_iff host_char_def)
  have nc: "CHR '':'' \<notin> set host" using h(3) by (auto simp: list_all_iff host_char_def)
  have "trim e = e"
  proof (rule trim_graph)
    show "e \<noteq> []" by (simp add: e)
    show "graph_char (hd e)" using h(1,3) by (cases host) (auto simp: e host_char_def)
    show "graph_char (last e)" using g by (cases port rule: rev_cases) (auto simp: e)
  qed
  then have "split_host_port e = (host, Some p)"
    using nb nc r p by (simp add: split_host_port_def split_tail_port_def)
  moreover have "host_of_endpoint e = host" using nb r by (simp add: host_of_endpoint_def)
  ultimately show thesis using that e h p by blast
qed

lemma admits_matches:
  assumes "parse_host lower host = Some m" and "lower (trim host) = e"
  shows "host_matches m h \<longleftrightarrow> allowlist_entry_admits e h"
  using assms by (auto simp: parse_host_def allowlist_entry_admits_def Let_def split: if_splits option.splits)

lemma parse_host_entry:
  assumes "lower (trim host) = e" and "e \<noteq> []" and "e \<noteq> ''.''"
  obtains m where "parse_host lower host = Some m"
proof (cases "strip_prefix e ''.''")
  case None
  then show thesis using assms that by (simp add: parse_host_def)
next
  case (Some d)
  then have "d \<noteq> []" using assms(3) by (auto simp: strip_prefix_Some_iff)
  then show thesis using assms that Some by (simp add: parse_host_def)
qed

end
