(* ===== verification/Worker_Spawn.thy ===== *)
theory Worker_Spawn
  imports Jail_Reading Egress_Config Data_Policy
begin

text \<open>
  The spawn path of the daemon, from a registry entry to a running worker: the lockdown variables
  (\<^verbatim>\<open>core/src/tool_host/lockdown_env.rs\<close>, \<^verbatim>\<open>scratch.rs\<close>, \<^verbatim>\<open>spawn_invocation.rs\<close>, \<^verbatim>\<open>tool_host.rs\<close>), the egress proxy as a
  sidecar (\<^verbatim>\<open>core/src/egress/spawn.rs\<close>, \<^verbatim>\<open>net_worker.rs\<close>, \<^verbatim>\<open>sidecar_ready.rs\<close>), the broker sidecar (\<^verbatim>\<open>core/src/broker\<close>)
  and the force-routing chokepoint (\<^verbatim>\<open>core/src/worker_lifecycle/force_route.rs\<close>).

  A backend is a function from a policy, a program and its arguments to a child or an error. What the
  operating system answers is collected in \<open>Host\<close>; what a spawn does to it (processes started and killed,
  directories made and removed) is appended to the events of \<open>SpawnWorld\<close>.
\<close>

section \<open>The operating system and what a spawn does to it\<close>

datatype SpawnEvent =
    Launched Child
  | Killed nat
  | MadeDir rstr
  | RemovedDir rstr
  | RemovedFile rstr
  | WroteSecretHashes rstr

record SpawnWorld =
  w_events :: "SpawnEvent list"
  w_egress_seq :: nat
  w_broker_seq :: nat
  w_scratch_seq :: nat

definition note_event :: "SpawnEvent \<Rightarrow> SpawnWorld \<Rightarrow> SpawnWorld" where
  "note_event e w = w\<lparr>w_events := w_events w @ [e]\<rparr>"

text \<open>What one poll of a starting sidecar sees: whether its files are there, whether it has exited, and how
  long after the poll interval the next poll comes.\<close>

record Poll =
  po_ready :: bool
  po_exited :: "IoError + rstr option"
  po_jitter :: nat

record Host =
  h_dbg :: "rstr \<Rightarrow> rstr"
  h_pid :: nat
  h_macos :: bool
  h_temp_dir :: rstr
  h_private_dir :: "rstr \<Rightarrow> IoError + unit"
  h_create_dir :: "rstr \<Rightarrow> IoError + unit"
  h_exists :: "rstr \<Rightarrow> bool"
  h_polls :: "Child \<Rightarrow> nat \<Rightarrow> Poll"
  h_stderr :: "Child \<Rightarrow> rstr"
  h_client :: "Child \<Rightarrow> IoError + unit"
  h_strings_json :: "rstr list \<Rightarrow> rstr"
  h_pins_json :: "CertPinMap \<Rightarrow> rstr"
  h_url_hostport :: "rstr \<Rightarrow> (rstr \<times> nat option) option"

type_synonym backend = "SandboxPolicy \<Rightarrow> rstr \<Rightarrow> rstr list \<Rightarrow> SandboxError + Child"

section \<open>The lockdown variables\<close>

definition ENV_LANDLOCK_RW :: rstr where "ENV_LANDLOCK_RW = ''KASTELLAN_LANDLOCK_RW''"
definition ENV_LANDLOCK_RO :: rstr where "ENV_LANDLOCK_RO = ''KASTELLAN_LANDLOCK_RO''"
definition ENV_SECCOMP_PROFILE :: rstr where "ENV_SECCOMP_PROFILE = ''KASTELLAN_SECCOMP_PROFILE''"
definition ENV_LANDLOCK_PROFILE :: rstr where "ENV_LANDLOCK_PROFILE = ''KASTELLAN_LANDLOCK_PROFILE''"
definition ENV_CPU_MS :: rstr where "ENV_CPU_MS = ''KASTELLAN_CPU_MS''"

definition has_var :: "rstr \<Rightarrow> (rstr \<times> rstr) list \<Rightarrow> bool" where
  "has_var k env = list_ex (\<lambda>(k', v). k' = k) env"

fun seccomp_profile_name :: "Profile \<Rightarrow> rstr" where
  "seccomp_profile_name WorkerStrict = ''strict''"
| "seccomp_profile_name WorkerNetClient = ''net_client''"
| "seccomp_profile_name WorkerBrowserClient = ''browser_client''"
| "seccomp_profile_name WorkerMlClient = ''ml_client''"
| "seccomp_profile_name WorkerMatrixClient = ''matrix_client''"

definition derive_lockdown_env :: "(rstr list \<Rightarrow> rstr) \<Rightarrow> SandboxPolicy \<Rightarrow> SandboxPolicy" where
  "derive_lockdown_env to_json policy =
     (let env = sp_env policy;
          rw_paths = fs_write policy @ (case persistent_store policy of None \<Rightarrow> [] | Some ps \<Rightarrow> [pst_guest_mount ps])
      in policy\<lparr>sp_env := env @
           (if has_var ENV_LANDLOCK_RW env then [] else [(ENV_LANDLOCK_RW, to_json rw_paths)]) @
           (if has_var ENV_LANDLOCK_RO env then [] else [(ENV_LANDLOCK_RO, to_json (fs_read policy))]) @
           (if has_var ENV_SECCOMP_PROFILE env then []
            else [(ENV_SECCOMP_PROFILE, seccomp_profile_name (sp_profile policy))]) @
           (if \<not> has_var ENV_CPU_MS env \<and> cpu_ms policy > 0 then [(ENV_CPU_MS, show_nat (cpu_ms policy))] else [])\<rparr>)"

definition lockdown_override :: "rstr \<times> rstr \<Rightarrow> bool" where
  "lockdown_override kv =
     (case kv of (k, v) \<Rightarrow>
        if k = ENV_SECCOMP_PROFILE then v = ''none'' \<or> v = []
        else if k = ENV_LANDLOCK_PROFILE then v = ''none''
        else False)"

definition detect_lockdown_overrides :: "SandboxPolicy \<Rightarrow> (rstr \<times> rstr) list" where
  "detect_lockdown_overrides policy = filter lockdown_override (sp_env policy)"

section \<open>Scratch directories and the command of a worker\<close>

definition ENV_WORKER_SCRATCH :: rstr where "ENV_WORKER_SCRATCH = ''KASTELLAN_WORKER_SCRATCH''"

definition scratch_subdir :: "rstr \<Rightarrow> nat \<Rightarrow> nat \<Rightarrow> rstr" where
  "scratch_subdir root pid sq = path_join root (''pyexec-'' @ show_nat pid @ ''-'' @ show_nat sq)"

definition apply_scratch :: "SandboxPolicy \<Rightarrow> rstr \<Rightarrow> SandboxPolicy" where
  "apply_scratch p dir =
     p\<lparr>fs_write := fs_write p @ [dir], sp_env := sp_env p @ [(ENV_WORKER_SCRATCH, dir)]\<rparr>"

definition prepare_ephemeral_scratch ::
    "Host \<Rightarrow> SandboxPolicy \<Rightarrow> bool \<Rightarrow> SpawnWorld \<Rightarrow> (ToolHostError + SandboxPolicy \<times> rstr option) \<times> SpawnWorld" where
  "prepare_ephemeral_scratch h policy ephemeral w =
     (if \<not> ephemeral \<or> \<not> h_macos h then (Ok (policy, None), w)
      else let dir = scratch_subdir (h_temp_dir h) (h_pid h) (w_scratch_seq w);
               w = w\<lparr>w_scratch_seq := w_scratch_seq w + 1\<rparr> in
           case h_create_dir h dir of
             Err e \<Rightarrow> (Err (IoErr (io_text e)), w)
           | Ok u \<Rightarrow> (Ok (apply_scratch policy dir, Some dir), note_event (MadeDir dir) w))"

definition build_program_and_args :: "rstr \<Rightarrow> rstr option \<Rightarrow> rstr list \<Rightarrow> rstr \<times> rstr list" where
  "build_program_and_args binary shim base_args =
     (case shim of Some s \<Rightarrow> (s, binary # base_args) | None \<Rightarrow> (binary, base_args))"

section \<open>Waiting for a sidecar\<close>

definition READY_POLL :: nat where "READY_POLL = 25"
definition READY_TIMEOUT :: nat where "READY_TIMEOUT = 5000"
definition ECHILD :: int where "ECHILD = 10"

datatype SidecarReady = SidecarUp | SidecarExited rstr | SidecarTimedOut | Unpollable IoError

text \<open>Time in milliseconds. A sleep takes at least the interval it is given, so the clock of the next poll is
  at least \<^verbatim>\<open>READY_POLL\<close> later.\<close>

function wait_from :: "(nat \<Rightarrow> Poll) \<Rightarrow> nat \<Rightarrow> nat \<Rightarrow> nat \<Rightarrow> SidecarReady" where
  "wait_from polls deadline i now =
     (if po_ready (polls i) then SidecarUp
      else case po_exited (polls i) of
             Ok (Some status) \<Rightarrow> SidecarExited status
           | Ok None \<Rightarrow>
               if now \<ge> deadline then SidecarTimedOut
               else wait_from polls deadline (i + 1) (now + READY_POLL + po_jitter (polls i))
           | Err e \<Rightarrow> Unpollable e)"
  by pat_completeness auto
termination
  by (relation "measure (\<lambda>(polls, deadline, i, now). deadline - now)") (auto simp: READY_POLL_def)

declare wait_from.simps [simp del]

definition wait_for_sidecar_ready :: "nat \<Rightarrow> (nat \<Rightarrow> Poll) \<Rightarrow> SidecarReady" where
  "wait_for_sidecar_ready timeout polls = wait_from polls timeout 0 0"

definition may_kill_after_failed_poll :: "IoError \<Rightarrow> bool" where
  "may_kill_after_failed_poll e \<longleftrightarrow> io_os e \<noteq> Some ECHILD"

section \<open>The egress proxy as a sidecar\<close>

datatype Mitm = Intercept "rstr option" | Transparent

fun is_transparent :: "Mitm \<Rightarrow> bool" where
  "is_transparent Transparent = True"
| "is_transparent (Intercept ca) = False"

fun upstream_extra_ca :: "Mitm \<Rightarrow> rstr option" where
  "upstream_extra_ca (Intercept ca) = ca"
| "upstream_extra_ca Transparent = None"

record SidecarSpawn =
  ss_binary :: rstr
  ss_allowlist :: "rstr list"
  ss_scratch :: rstr
  ss_worker :: rstr
  ss_cert_pins_json :: "rstr option"
  ss_mitm :: Mitm
  ss_long_lived :: bool

definition ENV_UDS :: rstr where "ENV_UDS = ''KASTELLAN_EGRESS_PROXY_UDS''"
definition ENV_CA :: rstr where "ENV_CA = ''KASTELLAN_EGRESS_PROXY_CA''"
definition ENV_ALLOWLIST :: rstr where "ENV_ALLOWLIST = ''KASTELLAN_EGRESS_PROXY_ALLOWLIST''"
definition ENV_WORKER :: rstr where "ENV_WORKER = ''KASTELLAN_EGRESS_PROXY_WORKER''"
definition ENV_PINS :: rstr where "ENV_PINS = ''KASTELLAN_EGRESS_PROXY_PINS''"
definition ENV_DISABLE_MITM :: rstr where "ENV_DISABLE_MITM = ''KASTELLAN_EGRESS_PROXY_DISABLE_MITM''"
definition ENV_PROXY_EXTRA_CA :: rstr where "ENV_PROXY_EXTRA_CA = ''KASTELLAN_EGRESS_PROXY_UPSTREAM_EXTRA_CA''"
definition UDS_FILE_NAME :: rstr where "UDS_FILE_NAME = ''egress.sock''"
definition CA_FILE_NAME :: rstr where "CA_FILE_NAME = ''ca.pem''"
definition SHORT_LIVED_SIDECAR_CPU_MS :: nat where "SHORT_LIVED_SIDECAR_CPU_MS = 10000"

definition resolver_files :: "rstr list" where
  "resolver_files = [''/etc/resolv.conf'', ''/etc/hosts'', ''/etc/nsswitch.conf'']"

definition proxy_policy :: "(rstr list \<Rightarrow> rstr) \<Rightarrow> SidecarSpawn \<Rightarrow> SandboxPolicy" where
  "proxy_policy to_json spec =
     (let uds = path_join (ss_scratch spec) UDS_FILE_NAME;
          env = [(ENV_UDS, uds), (ENV_ALLOWLIST, to_json (ss_allowlist spec)), (ENV_WORKER, ss_worker spec)] @
                (case ss_cert_pins_json spec of
                   None \<Rightarrow> [] | Some pins \<Rightarrow> if trim pins = [] then [] else [(ENV_PINS, pins)]) @
                (if is_transparent (ss_mitm spec) then [(ENV_DISABLE_MITM, ''1'')] else []) @
                (case upstream_extra_ca (ss_mitm spec) of None \<Rightarrow> [] | Some ca \<Rightarrow> [(ENV_PROXY_EXTRA_CA, ca)])
      in \<lparr>fs_read = [ss_binary spec] @ resolver_files @
            (case upstream_extra_ca (ss_mitm spec) of None \<Rightarrow> [] | Some ca \<Rightarrow> [ca]),
          fs_write = [ss_scratch spec], sp_net = ProxyEgress,
          cpu_ms = (if ss_long_lived spec then 0 else SHORT_LIVED_SIDECAR_CPU_MS), mem_mb = 256,
          sp_profile = WorkerNetClient, cpu_quota_pct = None, tasks_max = None, sp_env = env,
          proxy_uds = None, broker_uds = None, persistent_store = None\<rparr>)"

definition check_upstream_extra_ca :: "(rstr \<Rightarrow> rstr) \<Rightarrow> Mitm \<Rightarrow> rstr + unit" where
  "check_upstream_extra_ca dbg mitm =
     (case upstream_extra_ca mitm of
        None \<Rightarrow> Ok ()
      | Some ca \<Rightarrow>
          if \<not> is_absolute ca
          then Err (''upstream extra CA path must be absolute (it is bound into the proxy jail via fs_read, which rejects relative paths): '' @ dbg ca)
          else Ok ())"

record SidecarHandle =
  sh_child :: Child
  sh_uds_path :: rstr
  sh_not_our_child :: bool

definition terminate :: "SidecarHandle \<Rightarrow> SpawnWorld \<Rightarrow> SpawnWorld" where
  "terminate sh w =
     note_event (RemovedFile (sh_uds_path sh)) (if sh_not_our_child sh then w else note_event (Killed (child_pid (sh_child sh))) w)"

definition spawn_sidecar :: "Host \<Rightarrow> backend \<Rightarrow> SidecarSpawn \<Rightarrow> SpawnWorld \<Rightarrow> (rstr + SidecarHandle) \<times> SpawnWorld" where
  "spawn_sidecar h backend spec w =
     (case check_upstream_extra_ca (h_dbg h) (ss_mitm spec) of
        Err e \<Rightarrow> (Err e, w)
      | Ok u \<Rightarrow>
          let uds_path = path_join (ss_scratch spec) UDS_FILE_NAME; ca_path = path_join (ss_scratch spec) CA_FILE_NAME in
          if h_exists h uds_path \<or> h_exists h ca_path
          then (Err (''egress sidecar scratch '' @ h_dbg h (ss_scratch spec) @ '' already holds '' @ UDS_FILE_NAME @
                     '' or '' @ CA_FILE_NAME @ '' before the proxy was spawned '' @ em_dash @ '' refusing to trust a pre-existing socket/CA''), w)
          else case backend (derive_lockdown_env (h_strings_json h) (proxy_policy (h_strings_json h) spec)) (ss_binary spec) [] of
                 Err e \<Rightarrow> (Err (''spawn egress-proxy sidecar: '' @ show_sandbox_error e), w)
               | Ok child \<Rightarrow>
                   let w = note_event (Launched child) w in
                   case wait_for_sidecar_ready READY_TIMEOUT (h_polls h child) of
                     SidecarUp \<Rightarrow> (Ok \<lparr>sh_child = child, sh_uds_path = uds_path, sh_not_our_child = False\<rparr>, w)
                   | SidecarExited status \<Rightarrow>
                       (Err (''egress-proxy sidecar exited before becoming ready ('' @ status @ ''); '' @ h_stderr h child), w)
                   | Unpollable e \<Rightarrow>
                       (Err (''could not poll the egress-proxy sidecar'' @ [CHR 0x27] @
                             ''s exit status while waiting for it to become ready ('' @ io_text e @ '') '' @ em_dash @
                             '' our waitpid failed, not the proxy'' @ [CHR 0x27] @ ''s bind; '' @ h_stderr h child),
                        if may_kill_after_failed_poll e then note_event (Killed (child_pid child)) w else w)
                   | SidecarTimedOut \<Rightarrow>
                       (Err (''egress-proxy sidecar did not bind '' @ h_dbg h uds_path @ '' + write '' @ h_dbg h ca_path @
                             '' within 5s; '' @ h_stderr h child),
                        terminate \<lparr>sh_child = child, sh_uds_path = uds_path, sh_not_our_child = False\<rparr>
                          (note_event (Killed (child_pid child)) w)))"

section \<open>A worker\<close>

record WorkerSpec =
  ws_policy :: SandboxPolicy
  ws_program :: rstr
  ws_args :: "rstr list"
  ws_wall_clock_ms :: "nat option"

record EgressSidecar =
  es_sidecar :: SidecarHandle
  es_scratch :: "rstr option"

record BrokerSidecar =
  br_child :: Child
  br_uds_path :: rstr
  br_scratch :: rstr

record SupervisedWorker =
  sw_child :: Child
  sw_watchdog :: "nat option"
  sw_program :: rstr
  sw_egress :: "EgressSidecar option"
  sw_broker :: "BrokerSidecar option"
  sw_scratch :: "rstr option"

definition spawn_worker :: "Host \<Rightarrow> backend \<Rightarrow> WorkerSpec \<Rightarrow> SpawnWorld \<Rightarrow> (ToolHostError + SupervisedWorker) \<times> SpawnWorld" where
  "spawn_worker h backend spec w =
     (case backend (derive_lockdown_env (h_strings_json h) (ws_policy spec)) (ws_program spec) (ws_args spec) of
        Err e \<Rightarrow> (Err (SandboxErr (show_sandbox_error e)), w)
      | Ok child \<Rightarrow>
          (case h_client h child of
             Err e \<Rightarrow> (Err (IoErr (io_text e)), note_event (Launched child) w)
           | Ok u \<Rightarrow>
               (Ok \<lparr>sw_child = child, sw_watchdog = ws_wall_clock_ms spec, sw_program = ws_program spec,
                    sw_egress = None, sw_broker = None, sw_scratch = None\<rparr>, note_event (Launched child) w)))"

section \<open>A worker behind the proxy\<close>

definition RESOLV_CONF :: rstr where "RESOLV_CONF = ''/etc/resolv.conf''"

definition rewrite_worker_policy :: "SandboxPolicy \<Rightarrow> rstr \<Rightarrow> rstr option \<Rightarrow> SandboxPolicy" where
  "rewrite_worker_policy policy uds ca =
     (let reads = filter (\<lambda>p. \<not> path_eq p RESOLV_CONF) (fs_read policy);
          env = filter (\<lambda>(k, v). k \<noteq> ENV_UDS \<and> k \<noteq> ENV_CA) (sp_env policy);
          reads = (case ca of
                     None \<Rightarrow> reads
                   | Some c \<Rightarrow> if list_ex (\<lambda>p. path_eq p c) reads then reads else reads @ [c]);
          env = env @ [(ENV_UDS, uds)] @ (case ca of None \<Rightarrow> [] | Some c \<Rightarrow> [(ENV_CA, c)])
      in policy\<lparr>proxy_uds := Some uds, fs_read := reads, sp_env := env\<rparr>)"

record NetWorkerSpawn =
  nw_backend :: backend
  nw_sidecar_backend :: backend
  nw_proxy_bin :: rstr
  nw_spec :: WorkerSpec
  nw_allowlist :: "rstr list"
  nw_worker_name :: rstr
  nw_cert_pins_json :: "rstr option"
  nw_mitm :: Mitm

definition net_sidecar_spec :: "NetWorkerSpawn \<Rightarrow> rstr \<Rightarrow> SidecarSpawn" where
  "net_sidecar_spec params scratch =
     \<lparr>ss_binary = nw_proxy_bin params, ss_allowlist = nw_allowlist params, ss_scratch = scratch,
      ss_worker = nw_worker_name params, ss_cert_pins_json = nw_cert_pins_json params, ss_mitm = nw_mitm params,
      ss_long_lived = False\<rparr>"

definition forced_spec :: "NetWorkerSpawn \<Rightarrow> rstr \<Rightarrow> WorkerSpec" where
  "forced_spec params uds =
     (let ca = (case path_parent uds of Some d \<Rightarrow> path_join d CA_FILE_NAME | None \<Rightarrow> CA_FILE_NAME);
          ca = (if is_transparent (nw_mitm params) then None else Some ca)
      in (nw_spec params)\<lparr>ws_policy := rewrite_worker_policy (ws_policy (nw_spec params)) uds ca\<rparr>)"

definition spawn_net_worker :: "Host \<Rightarrow> NetWorkerSpawn \<Rightarrow> rstr \<Rightarrow> SpawnWorld \<Rightarrow> (ToolHostError + SupervisedWorker) \<times> SpawnWorld" where
  "spawn_net_worker h params scratch w =
     (case spawn_sidecar h (nw_sidecar_backend params) (net_sidecar_spec params scratch) w of
        (Err e, w) \<Rightarrow> (Err (IoErr (''egress sidecar: '' @ e)), w)
      | (Ok sidecar, w) \<Rightarrow>
          let w = (case path_parent (sh_uds_path sidecar) of Some d \<Rightarrow> note_event (WroteSecretHashes d) w | None \<Rightarrow> w) in
          case spawn_worker h (nw_backend params) (forced_spec params (sh_uds_path sidecar)) w of
            (Err e, w) \<Rightarrow> (Err e, terminate sidecar w)
          | (Ok worker, w) \<Rightarrow>
              (Ok (worker\<lparr>sw_egress := Some \<lparr>es_sidecar = sidecar, es_scratch = None\<rparr>\<rparr>), w))"

definition SUN_PATH_MAX :: "bool \<Rightarrow> nat" where
  "SUN_PATH_MAX macos = (if macos then 104 else 108)"

definition make_worker_scratch_dir :: "Host \<Rightarrow> rstr \<Rightarrow> SpawnWorld \<Rightarrow> (ToolHostError + rstr) \<times> SpawnWorld" where
  "make_worker_scratch_dir h scratch_root w =
     (let dir = path_join scratch_root (''egress-'' @ show_nat (h_pid h) @ ''-'' @ show_nat (w_egress_seq w));
          w = w\<lparr>w_egress_seq := w_egress_seq w + 1\<rparr>;
          uds_len = length (path_join dir UDS_FILE_NAME) in
      if uds_len + 1 > SUN_PATH_MAX (h_macos h)
      then (Err (IoErr (''egress sidecar socket path is '' @ show_nat uds_len @ '' bytes (+NUL), over the '' @
                   show_nat (SUN_PATH_MAX (h_macos h)) @ ''-byte sockaddr_un.sun_path limit '' @ em_dash @
                   '' shorten KASTELLAN_EGRESS_SCRATCH_DIR (projected: '' @ path_join dir UDS_FILE_NAME @ '')'')), w)
      else case h_private_dir h dir of
             Err e \<Rightarrow> (Err (IoErr (io_text e)), w)
           | Ok u \<Rightarrow> (Ok dir, note_event (MadeDir dir) w))"

definition spawn_forced_net_worker ::
    "Host \<Rightarrow> NetWorkerSpawn \<Rightarrow> rstr \<Rightarrow> SpawnWorld \<Rightarrow> (ToolHostError + SupervisedWorker) \<times> SpawnWorld" where
  "spawn_forced_net_worker h params scratch_root w =
     (case make_worker_scratch_dir h scratch_root w of
        (Err e, w) \<Rightarrow> (Err e, w)
      | (Ok scratch, w) \<Rightarrow>
          (case spawn_net_worker h params scratch w of
             (Ok worker, w) \<Rightarrow>
               (Ok (worker\<lparr>sw_egress := map_option (\<lambda>e. e\<lparr>es_scratch := Some scratch\<rparr>) (sw_egress worker)\<rparr>), w)
           | (Err e, w) \<Rightarrow> (Err e, note_event (RemovedDir scratch) w)))"

section \<open>Force routing\<close>

record ForceRoutingConfig =
  fr_proxy_bin :: rstr
  fr_scratch_root :: rstr
  fr_cert_pins :: "CertPinMap option"
  fr_upstream_cas :: "UpstreamCaMap option"

definition pins_for_worker :: "Host \<Rightarrow> ForceRoutingConfig \<Rightarrow> rstr list \<Rightarrow> rstr option" where
  "pins_for_worker h cfg allowlist =
     (case fr_cert_pins cfg of None \<Rightarrow> None | Some m \<Rightarrow> select_pins_for_allowlist (h_pins_json h) m allowlist)"

definition upstream_ca_for :: "ForceRoutingConfig \<Rightarrow> rstr list \<Rightarrow> UpstreamCaSelectError + rstr option" where
  "upstream_ca_for cfg allowlist =
     (case fr_upstream_cas cfg of None \<Rightarrow> Ok None | Some m \<Rightarrow> select_ca_for_allowlist m allowlist)"

definition policy_net_is_force_routable :: "Net \<Rightarrow> bool" where
  "policy_net_is_force_routable net = (case net of NetAllowlist hosts \<Rightarrow> True | _ \<Rightarrow> False)"

definition BROWSER_DRIVER_TOOL :: rstr where "BROWSER_DRIVER_TOOL = ''browser-driver''"
definition MATRIX_TOOL :: rstr where "MATRIX_TOOL = ''matrix''"

definition disable_mitm_for :: "rstr \<Rightarrow> bool" where
  "disable_mitm_for worker_name \<longleftrightarrow> worker_name = BROWSER_DRIVER_TOOL \<or> worker_name = MATRIX_TOOL"

definition ENV_UPSTREAM_EXTRA_CA :: rstr where "ENV_UPSTREAM_EXTRA_CA = ''KASTELLAN_EGRESS_UPSTREAM_EXTRA_CA''"

definition mitm_for :: "(rstr \<Rightarrow> rstr) \<Rightarrow> rstr \<Rightarrow> rstr option \<Rightarrow> rstr + Mitm" where
  "mitm_for dbg worker_name extra_ca =
     (if disable_mitm_for worker_name
      then (if extra_ca \<noteq> None
            then Err (''worker '' @ dbg worker_name @ '': refusing to spawn '' @ em_dash @ '' '' @ ENV_UPSTREAM_EXTRA_CA @
              '' names an extra trust anchor for this worker'' @ [CHR 0x27] @ ''s origin, but this worker'' @ [CHR 0x27] @
              ''s sidecar runs in transparent-tunnel (no-MITM) mode and never re-originates TLS, so the anchor would be silently inert. Remove that entry.'')
            else Ok Transparent)
      else Ok (Intercept extra_ca))"

datatype ForceRouteAction = Sidecar | Direct

definition force_route_action :: "bool \<Rightarrow> bool \<Rightarrow> ForceRouteAction" where
  "force_route_action active routable = (if active \<and> routable then Sidecar else Direct)"

definition dbg_list :: "(rstr \<Rightarrow> rstr) \<Rightarrow> rstr list \<Rightarrow> rstr" where
  "dbg_list dbg xs = ''['' @ join_with '', '' (map dbg xs) @ '']''"

fun show_select_error :: "(rstr \<Rightarrow> rstr) \<Rightarrow> UpstreamCaSelectError \<Rightarrow> rstr" where
  "show_select_error dbg (MixedAllowlist host others) =
     ''worker allowlist mixes the extra-CA origin '' @ dbg host @ '' with other host(s) '' @ dbg_list dbg others @
     ''; an extra CA widens trust for EVERY host its sidecar can reach, so it is allowed only for a single-origin worker''"
| "show_select_error dbg (MultipleKeyedHosts hosts) =
     ''worker allowlist matches '' @ dbg_list dbg hosts @
     '' extra-CA origins; a sidecar takes at most one extra CA, and a single-origin worker is the only supported shape''"

definition spawn_worker_maybe_forced ::
    "Host \<Rightarrow> ForceRoutingConfig option \<Rightarrow> backend \<Rightarrow> backend \<Rightarrow> WorkerSpec \<Rightarrow> rstr \<Rightarrow> SpawnWorld \<Rightarrow>
     (ToolHostError + SupervisedWorker) \<times> SpawnWorld" where
  "spawn_worker_maybe_forced h force backend sidecar_backend spec worker_name w =
     (case (force_route_action (force \<noteq> None) (policy_net_is_force_routable (sp_net (ws_policy spec))), force,
            sp_net (ws_policy spec)) of
        (Sidecar, Some cfg, NetAllowlist allowlist) \<Rightarrow>
          (case upstream_ca_for cfg allowlist of
             Err e \<Rightarrow> (Err (IoErr (''worker '' @ h_dbg h worker_name @
                        '': refusing to spawn '' @ em_dash @ '' '' @ ENV_UPSTREAM_EXTRA_CA @ '': '' @ show_select_error (h_dbg h) e)), w)
           | Ok extra_ca \<Rightarrow>
               (case mitm_for (h_dbg h) worker_name extra_ca of
                  Err msg \<Rightarrow> (Err (IoErr msg), w)
                | Ok mitm \<Rightarrow>
                    spawn_forced_net_worker h
                      \<lparr>nw_backend = backend, nw_sidecar_backend = sidecar_backend, nw_proxy_bin = fr_proxy_bin cfg,
                       nw_spec = spec, nw_allowlist = allowlist, nw_worker_name = worker_name,
                       nw_cert_pins_json = pins_for_worker h cfg allowlist, nw_mitm = mitm\<rparr>
                      (fr_scratch_root cfg) w))
      | _ \<Rightarrow> spawn_worker h backend spec w)"

end
