(* ===== verification/Spawn_Gate.thy ===== *)
theory Spawn_Gate
  imports Worker_Spawn
begin

text \<open>
  The broker sidecar (\<^verbatim>\<open>core/src/broker\<close>), the chokepoint every worker is started through
  (\<^verbatim>\<open>spawn_worker_with_optional_broker\<close>), the spawn of a registry entry as the lifecycle managers do it
  (\<^verbatim>\<open>worker_lifecycle/manager.rs\<close>), and how force routing is configured at start-up.
\<close>

section \<open>The broker sidecar\<close>

fun uds_env :: "BrokerKind \<Rightarrow> rstr" where
  "uds_env Embed = ''KASTELLAN_EMBED_BROKER_UDS''"
| "uds_env Search = ''KASTELLAN_SEARCH_BROKER_UDS''"

fun endpoint_env :: "BrokerKind \<Rightarrow> rstr" where
  "endpoint_env Embed = ''KASTELLAN_EMBED_BROKER_ENDPOINT''"
| "endpoint_env Search = ''KASTELLAN_SEARCH_BROKER_ENDPOINT''"

fun uds_file :: "BrokerKind \<Rightarrow> rstr" where
  "uds_file Embed = ''embed.sock''"
| "uds_file Search = ''search.sock''"

fun scratch_prefix :: "BrokerKind \<Rightarrow> rstr" where
  "scratch_prefix Embed = ''embed-''"
| "scratch_prefix Search = ''search-''"

fun scratch_dir_env :: "BrokerKind \<Rightarrow> rstr" where
  "scratch_dir_env Embed = ''KASTELLAN_EMBED_BROKER_SCRATCH_DIR''"
| "scratch_dir_env Search = ''KASTELLAN_SEARCH_BROKER_SCRATCH_DIR''"

fun show_broker_kind :: "BrokerKind \<Rightarrow> rstr" where
  "show_broker_kind Embed = ''Embed''"
| "show_broker_kind Search = ''Search''"

definition BROKER_CPU_MS :: nat where "BROKER_CPU_MS = 10000"

record BrokerConfig =
  bc_kind :: BrokerKind
  bc_broker_bin :: rstr
  bc_scratch_root :: rstr

record BrokerConfigs =
  bcs_embed :: "BrokerConfig option"
  bcs_search :: "BrokerConfig option"

fun for_kind :: "BrokerConfigs \<Rightarrow> BrokerKind \<Rightarrow> BrokerConfig option" where
  "for_kind cs Embed = bcs_embed cs"
| "for_kind cs Search = bcs_search cs"

text \<open>The host and port of a URL, when it parses and has a host.\<close>

definition broker_allowlist_from_endpoint :: "Host \<Rightarrow> rstr \<Rightarrow> rstr list" where
  "broker_allowlist_from_endpoint h endpoint =
     (case h_url_hostport h endpoint of
        Some (host, port) \<Rightarrow> [host @ '':'' @ show_nat (case port of Some p \<Rightarrow> p | None \<Rightarrow> 443)]
      | None \<Rightarrow> [])"

definition broker_policy :: "Host \<Rightarrow> rstr \<Rightarrow> rstr \<Rightarrow> rstr \<Rightarrow> BrokerKind \<Rightarrow> SandboxPolicy" where
  "broker_policy h binary endpoint scratch kind =
     \<lparr>fs_read = [binary] @ resolver_files, fs_write = [scratch],
      sp_net = NetAllowlist (broker_allowlist_from_endpoint h endpoint), cpu_ms = BROKER_CPU_MS, mem_mb = 256,
      sp_profile = WorkerNetClient, cpu_quota_pct = None, tasks_max = None,
      sp_env = [(uds_env kind, path_join scratch (uds_file kind)), (endpoint_env kind, endpoint)],
      proxy_uds = None, broker_uds = None, persistent_store = None\<rparr>"

definition make_broker_scratch_dir :: "Host \<Rightarrow> rstr \<Rightarrow> BrokerKind \<Rightarrow> SpawnWorld \<Rightarrow> (ToolHostError + rstr) \<times> SpawnWorld" where
  "make_broker_scratch_dir h scratch_root kind w =
     (let dir = path_join scratch_root (scratch_prefix kind @ show_nat (h_pid h) @ ''-'' @ show_nat (w_broker_seq w));
          w = w\<lparr>w_broker_seq := w_broker_seq w + 1\<rparr>;
          uds = path_join dir (uds_file kind); uds_len = length uds in
      if uds_len + 1 > SUN_PATH_MAX (h_macos h)
      then (Err (IoErr (''broker socket path is '' @ show_nat uds_len @ '' bytes (+NUL), over the '' @
                   show_nat (SUN_PATH_MAX (h_macos h)) @ ''-byte sockaddr_un.sun_path limit '' @ em_dash @ '' shorten '' @
                   scratch_dir_env kind @ '' (projected: '' @ uds @ '')'')), w)
      else case h_private_dir h dir of
             Err e \<Rightarrow> (Err (IoErr (io_text e)), w)
           | Ok u \<Rightarrow> (Ok dir, note_event (MadeDir dir) w))"

definition spawn_broker_in ::
    "Host \<Rightarrow> BrokerConfig \<Rightarrow> BrokerSpec \<Rightarrow> backend \<Rightarrow> rstr \<Rightarrow> SpawnWorld \<Rightarrow> (ToolHostError + BrokerSidecar) \<times> SpawnWorld" where
  "spawn_broker_in h cfg spec backend scratch w =
     (let uds_path = path_join scratch (uds_file (bs_kind spec));
          w = note_event (RemovedFile uds_path) w;
          policy = broker_policy h (bc_broker_bin cfg) (bs_endpoint spec) scratch (bs_kind spec) in
      case backend (derive_lockdown_env (h_strings_json h) policy) (bc_broker_bin cfg) [] of
        Err e \<Rightarrow> (Err (SandboxErr (show_sandbox_error e)), w)
      | Ok child \<Rightarrow>
          let w = note_event (Launched child) w in
          case wait_for_sidecar_ready READY_TIMEOUT (h_polls h child) of
            SidecarUp \<Rightarrow> (Ok \<lparr>br_child = child, br_uds_path = uds_path, br_scratch = scratch\<rparr>, w)
          | SidecarExited status \<Rightarrow>
              (Err (IoErr (''broker exited before binding '' @ h_dbg h uds_path @ '' (status: '' @ status @ '')'')), w)
          | SidecarTimedOut \<Rightarrow>
              (Err (IoErr (''broker did not bind '' @ h_dbg h uds_path @ '' within 5s'')), note_event (Killed (child_pid child)) w)
          | Unpollable e \<Rightarrow>
              (Err (IoErr (''could not poll the broker'' @ [CHR 0x27] @ ''s exit status while waiting for '' @ h_dbg h uds_path @
                 '' ('' @ io_text e @ '') '' @ em_dash @ '' our waitpid failed, not the broker'' @ [CHR 0x27] @ ''s bind'')),
               if may_kill_after_failed_poll e then note_event (Killed (child_pid child)) w else w))"

definition spawn_broker ::
    "Host \<Rightarrow> BrokerConfig \<Rightarrow> BrokerSpec \<Rightarrow> backend \<Rightarrow> SpawnWorld \<Rightarrow> (ToolHostError + BrokerSidecar \<times> rstr) \<times> SpawnWorld" where
  "spawn_broker h cfg spec backend w =
     (if broker_allowlist_from_endpoint h (bs_endpoint spec) = []
      then (Err (IoErr (''broker endpoint '' @ h_dbg h (bs_endpoint spec) @ '' has no parseable host:port '' @ em_dash @
                        '' refusing to spawn'')), w)
      else case make_broker_scratch_dir h (bc_scratch_root cfg) (bs_kind spec) w of
             (Err e, w) \<Rightarrow> (Err e, w)
           | (Ok scratch, w) \<Rightarrow>
               (case spawn_broker_in h cfg spec backend scratch w of
                  (Ok sidecar, w) \<Rightarrow> (Ok (sidecar, br_uds_path sidecar), w)
                | (Err e, w) \<Rightarrow> (Err e, note_event (RemovedDir scratch) w)))"

text \<open>\<^verbatim>\<open>Drop\<close> of a broker sidecar.\<close>

definition drop_broker :: "BrokerSidecar \<Rightarrow> SpawnWorld \<Rightarrow> SpawnWorld" where
  "drop_broker b w =
     note_event (RemovedDir (br_scratch b)) (note_event (RemovedFile (br_uds_path b)) (note_event (Killed (child_pid (br_child b))) w))"

section \<open>The chokepoint\<close>

definition rewrite_policy_for_broker :: "SandboxPolicy \<Rightarrow> rstr \<Rightarrow> BrokerKind \<Rightarrow> SandboxPolicy" where
  "rewrite_policy_for_broker policy uds kind =
     policy\<lparr>broker_uds := Some uds,
            sp_env := filter (\<lambda>(k, v). k \<noteq> uds_env kind) (sp_env policy) @ [(uds_env kind, uds)]\<rparr>"

definition spawn_worker_with_optional_broker ::
    "Host \<Rightarrow> ForceRoutingConfig option \<Rightarrow> BrokerConfigs \<Rightarrow> backend \<Rightarrow> backend \<Rightarrow> WorkerSpec \<Rightarrow> BrokerSpec option \<Rightarrow>
     rstr \<Rightarrow> SpawnWorld \<Rightarrow> (ToolHostError + SupervisedWorker) \<times> SpawnWorld" where
  "spawn_worker_with_optional_broker h force configs backend sidecar_backend spec broker worker_name w =
     (case broker of
        None \<Rightarrow> spawn_worker_maybe_forced h force backend sidecar_backend spec worker_name w
      | Some broker_spec \<Rightarrow>
          (case for_kind configs (bs_kind broker_spec) of
             None \<Rightarrow> (Err (IoErr (''worker '' @ h_dbg h worker_name @ '' requests a '' @
                       show_broker_kind (bs_kind broker_spec) @
                       '' broker but the daemon has no matching broker config (binary not found); refusing to spawn '' @ em_dash @
                       '' the manifest already dropped the backend host from egress'')), w)
           | Some cfg \<Rightarrow>
               (case spawn_broker h cfg broker_spec sidecar_backend w of
                  (Err e, w) \<Rightarrow> (Err e, w)
                | (Ok (sidecar, uds), w) \<Rightarrow>
                    let brokered = spec\<lparr>ws_policy := rewrite_policy_for_broker (ws_policy spec) uds (bs_kind broker_spec)\<rparr> in
                    case spawn_worker_maybe_forced h force backend sidecar_backend brokered worker_name w of
                      (Err e, w) \<Rightarrow> (Err e, drop_broker sidecar w)
                    | (Ok worker, w) \<Rightarrow> (Ok (worker\<lparr>sw_broker := Some sidecar\<rparr>), w))))"

text \<open>The spawn of a registry entry: \<^verbatim>\<open>SingleUseLifecycle::acquire\<close> and the cold path of the idle-timeout
  manager. The backends are those \<open>resolve_backend\<close> gives for the entry, and for no choice at all.\<close>

definition entry_spec :: "ToolEntry \<Rightarrow> SandboxPolicy \<Rightarrow> WorkerSpec" where
  "entry_spec entry policy =
     (case build_program_and_args (te_binary entry) (te_lockdown_shim entry) [] of
        (program, args) \<Rightarrow>
          \<lparr>ws_policy = policy, ws_program = program, ws_args = args, ws_wall_clock_ms = te_wall_clock_ms entry\<rparr>)"

definition spawn_entry ::
    "Host \<Rightarrow> ForceRoutingConfig option \<Rightarrow> BrokerConfigs \<Rightarrow> (rstr \<Rightarrow> backend) \<Rightarrow> backend SandboxBackends \<Rightarrow> rstr \<Rightarrow>
     ToolEntry \<Rightarrow> SpawnWorld \<Rightarrow> (ToolHostError + SupervisedWorker) option \<times> SpawnWorld" where
  "spawn_entry h force configs container_of sandboxes tool_name entry w =
     (case prepare_ephemeral_scratch h (te_policy entry) (te_ephemeral_scratch entry) w of
        (Err e, w) \<Rightarrow> (Some (Err e), w)
      | (Ok (policy, scratch), w) \<Rightarrow>
          (case (resolve_backend container_of sandboxes (te_sandbox_backend entry) (te_container_image entry),
                 resolve_backend container_of sandboxes None None) of
             (Some backend, Some sidecar_backend) \<Rightarrow>
               (case spawn_worker_with_optional_broker h force configs backend sidecar_backend (entry_spec entry policy)
                       (te_broker entry) tool_name w of
                  (Err e, w) \<Rightarrow> (Some (Err e), (case scratch of None \<Rightarrow> w | Some d \<Rightarrow> note_event (RemovedDir d) w))
                | (Ok worker, w) \<Rightarrow> (Some (Ok (worker\<lparr>sw_scratch := scratch\<rparr>)), w))
           | _ \<Rightarrow> (None, w)))"

section \<open>Configuring force routing\<close>

datatype ForceRoutingError =
    ProxyBinaryNotFound | CertPins CertPinError | UpstreamCas UpstreamCaError | UpstreamCaFile UpstreamCaFileError

definition env_flag_enabled :: "rstr option \<Rightarrow> bool" where
  "env_flag_enabled v =
     (case v of None \<Rightarrow> False | Some s \<Rightarrow> to_ascii_lowercase (trim s) \<in> {''1'', ''true'', ''yes'', ''on''})"

definition parse_cert_pins_env ::
    "(rstr \<Rightarrow> rstr + (rstr \<times> rstr list) list) \<Rightarrow> rstr option \<Rightarrow> CertPinError + CertPinMap option" where
  "parse_cert_pins_env from_json v =
     (case v of
        None \<Rightarrow> Ok None
      | Some s \<Rightarrow>
          if trim s = [] then Ok None
          else and_then (parse_cert_pins from_json (trim s)) (\<lambda>m. Ok (if m = [] then None else Some m)))"

definition parse_upstream_cas_env ::
    "(rstr \<Rightarrow> rstr + (rstr \<times> rstr) list) \<Rightarrow> rstr option \<Rightarrow> UpstreamCaError + UpstreamCaMap option" where
  "parse_upstream_cas_env from_json v =
     (case v of
        None \<Rightarrow> Ok None
      | Some s \<Rightarrow>
          if trim s = [] then Ok None
          else and_then (parse_upstream_cas from_json (trim s)) (\<lambda>m. Ok (if m = [] then None else Some m)))"

definition validate_upstream_cas :: "(rstr \<Rightarrow> IoError + rstr) \<Rightarrow> UpstreamCaMap \<Rightarrow> UpstreamCaFileError + unit" where
  "validate_upstream_cas read_file m =
     try_fold (\<lambda>(host, path) _.
        case read_file path of
          Err e \<Rightarrow> Err (CaUnreadable host path (io_text e))
        | Ok contents \<Rightarrow> and_then (check_ca_pem_contents host path contents) (\<lambda>n. Ok ())) m ()"

definition resolve_force_routing ::
    "bool \<Rightarrow> rstr option \<Rightarrow> rstr \<Rightarrow> CertPinMap option \<Rightarrow> ForceRoutingError + ForceRoutingConfig option" where
  "resolve_force_routing enabled proxy_bin scratch_root cert_pins =
     (if \<not> enabled then Ok None
      else case proxy_bin of
             None \<Rightarrow> Err ProxyBinaryNotFound
           | Some bin \<Rightarrow> Ok (Some \<lparr>fr_proxy_bin = bin, fr_scratch_root = scratch_root, fr_cert_pins = cert_pins,
                                   fr_upstream_cas = None\<rparr>))"

definition discover_binary ::
    "(rstr \<Rightarrow> rstr option) \<Rightarrow> (rstr \<Rightarrow> bool) \<Rightarrow> (rstr \<Rightarrow> bool) \<Rightarrow> rstr option \<Rightarrow> rstr \<Rightarrow> rstr \<Rightarrow> rstr option" where
  "discover_binary get_env exists_at is_dir exe_dir override_env default_name =
     (case get_env override_env of
        Some raw \<Rightarrow> if exists_at raw \<and> \<not> is_dir raw then Some raw else None
      | None \<Rightarrow>
          (case exe_dir of
             None \<Rightarrow> None
           | Some dir \<Rightarrow>
               let p = path_join dir default_name in if exists_at p \<and> \<not> is_dir p then Some p else None))"

text \<open>\<^verbatim>\<open>from_env\<close>: \<open>env\<close> is the process environment, \<open>default_root\<close> the default scratch root of the system.\<close>

definition force_routing_from_env ::
    "(rstr \<Rightarrow> rstr option) \<Rightarrow> (rstr \<Rightarrow> rstr + (rstr \<times> rstr list) list) \<Rightarrow> (rstr \<Rightarrow> rstr + (rstr \<times> rstr) list) \<Rightarrow>
     (rstr \<Rightarrow> IoError + rstr) \<Rightarrow> (rstr \<Rightarrow> bool) \<Rightarrow> (rstr \<Rightarrow> bool) \<Rightarrow> rstr option \<Rightarrow> rstr \<Rightarrow>
     ForceRoutingError + ForceRoutingConfig option" where
  "force_routing_from_env env pins_json cas_json read_file exists_at is_dir exe_dir default_root =
     (if \<not> env_flag_enabled (env ''KASTELLAN_EGRESS_FORCE_ROUTING'') then Ok None
      else case parse_cert_pins_env pins_json (env ''KASTELLAN_EGRESS_CERT_PINS'') of
             Err e \<Rightarrow> Err (CertPins e)
           | Ok cert_pins \<Rightarrow>
               (case parse_upstream_cas_env cas_json (env ENV_UPSTREAM_EXTRA_CA) of
                  Err e \<Rightarrow> Err (UpstreamCas e)
                | Ok cas \<Rightarrow>
                    (case (case cas of None \<Rightarrow> Ok () | Some m \<Rightarrow> validate_upstream_cas read_file m) of
                       Err e \<Rightarrow> Err (UpstreamCaFile e)
                     | Ok u \<Rightarrow>
                         (let bin = discover_binary env exists_at is_dir exe_dir ''KASTELLAN_EGRESS_PROXY_BIN''
                                      ''kastellan-worker-egress-proxy'';
                              root = (case env ''KASTELLAN_EGRESS_SCRATCH_DIR'' of Some d \<Rightarrow> d | None \<Rightarrow> default_root)
                          in and_then (resolve_force_routing True bin root cert_pins)
                               (\<lambda>c. Ok (map_option (\<lambda>cfg. cfg\<lparr>fr_upstream_cas := cas\<rparr>) c))))))"

end
