(* ===== verification/Sandbox_Mac.thy ===== *)
theory Sandbox_Mac
  imports Sandbox
begin

text \<open>
  The macOS backends: the Seatbelt profile and its spawn (\<^verbatim>\<open>sandbox/src/macos_seatbelt.rs\<close>) and the Apple
  \<^verbatim>\<open>container\<close> command line (\<^verbatim>\<open>sandbox/src/macos_container.rs\<close>).
\<close>

section \<open>The Seatbelt profile\<close>

definition NL :: char where "NL = CHR 0x0A"
definition DQ :: rstr where "DQ = [CHR 0x22]"

definition WORKER_CWD :: rstr where "WORKER_CWD = ''/''"

definition profile_base :: "rstr list" where
  "profile_base =
    [''(version 1)'',
     ''(deny default)'',
     ''(allow process-fork)'',
     ''(allow process-exec*)'',
     ''(allow file-read* (literal '' @ DQ @ ''/'' @ DQ @ ''))'',
     ''(allow file-read* (subpath '' @ DQ @ ''/usr/lib'' @ DQ @ ''))'',
     ''(allow file-read* (subpath '' @ DQ @ ''/usr/libexec'' @ DQ @ ''))'',
     ''(allow file-read* (subpath '' @ DQ @ ''/System/Library'' @ DQ @ ''))'',
     ''(allow file-read-metadata (subpath '' @ DQ @ ''/'' @ DQ @ ''))'',
     ''(allow sysctl-read)'',
     ''(allow file-read* file-write* (literal '' @ DQ @ ''/dev/null'' @ DQ @ ''))'',
     ''(allow file-read* file-write* (literal '' @ DQ @ ''/dev/zero'' @ DQ @ ''))'',
     ''(allow file-read* (literal '' @ DQ @ ''/dev/random'' @ DQ @ ''))'',
     ''(allow file-read* (literal '' @ DQ @ ''/dev/urandom'' @ DQ @ ''))'',
     ''(allow file-read* file-write* (subpath '' @ DQ @ ''/dev/fd'' @ DQ @ ''))'',
     ''(allow file-read* file-write* (literal '' @ DQ @ ''/dev/dtracehelper'' @ DQ @ ''))'']"

definition read_rule :: "rstr \<Rightarrow> rstr" where
  "read_rule path = ''(allow file-read* (subpath '' @ DQ @ path @ DQ @ ''))''"

definition write_rule :: "rstr \<Rightarrow> rstr" where
  "write_rule path = ''(allow file-read* file-write* (subpath '' @ DQ @ path @ DQ @ ''))''"

definition uds_rule :: "(rstr \<Rightarrow> rstr) \<Rightarrow> rstr \<Rightarrow> rstr" where
  "uds_rule dbg uds = ''(allow network-outbound (remote unix-socket (path-literal '' @ dbg uds @ '')))''"

definition browser_rules :: "rstr list" where
  "browser_rules = [''(allow ipc-posix-shm*)'', ''(allow iokit-open)'', ''(allow iokit-get-properties)'',
     ''(allow mach-lookup)'', ''(allow mach-register)'', ''(allow sysctl-write)'', ''(allow system-socket)'']"

definition loopback_rules :: "rstr list" where
  "loopback_rules =
     [''(allow network-bind (local ip '' @ DQ @ ''localhost:*'' @ DQ @ ''))'',
      ''(allow network-inbound (local ip '' @ DQ @ ''localhost:*'' @ DQ @ ''))'',
      ''(allow network-outbound (remote ip '' @ DQ @ ''localhost:*'' @ DQ @ ''))'']"

definition network_rules :: "(rstr \<Rightarrow> rstr) \<Rightarrow> SandboxPolicy \<Rightarrow> rstr list" where
  "network_rules dbg p =
     (case (sp_net p, proxy_uds p) of
        (NetAllowlist hosts, Some uds) \<Rightarrow>
          [''(deny network-outbound)'', uds_rule dbg uds] @
          (if sp_profile p = WorkerBrowserClient then loopback_rules else [])
      | (NetAllowlist hosts, None) \<Rightarrow> [''(allow network*)'']
      | (ProxyEgress, _) \<Rightarrow> [''(allow network*)'']
      | (DenyNet, _) \<Rightarrow> [])"

text \<open>The lines of the profile, one rule each, and the profile as the text handed over.\<close>

definition profile_rules :: "(rstr \<Rightarrow> rstr) \<Rightarrow> SandboxPolicy \<Rightarrow> rstr list" where
  "profile_rules dbg p =
     profile_base @
     map read_rule (fs_read p) @
     map write_rule (fs_write p) @
     (case persistent_store p of None \<Rightarrow> [] | Some ps \<Rightarrow> [write_rule (pst_guest_mount ps)]) @
     (if sp_profile p = WorkerBrowserClient then browser_rules else []) @
     network_rules dbg p @
     (case broker_uds p of None \<Rightarrow> [] | Some uds \<Rightarrow> [uds_rule dbg uds])"

definition build_profile :: "(rstr \<Rightarrow> rstr) \<Rightarrow> SandboxPolicy \<Rightarrow> rstr" where
  "build_profile dbg p = concat (map (\<lambda>l. l @ [NL]) (profile_rules dbg p))"

section \<open>Spawning under Seatbelt\<close>

definition disallowed_char :: "char \<Rightarrow> bool" where
  "disallowed_char c \<longleftrightarrow>
     c \<in> {CHR 0x22, CHR 0x5C, CHR ''('', CHR '')'', CHR 0x0A, CHR 0x0D, CHR 0x00}"

definition check_policy_path :: "(rstr \<Rightarrow> rstr) \<Rightarrow> (char \<Rightarrow> rstr) \<Rightarrow> rstr \<Rightarrow> SandboxError + unit" where
  "check_policy_path dbg dbgc p =
     (if \<not> is_absolute p then Err (Backend (''policy paths must be absolute, got '' @ dbg p))
      else case find disallowed_char p of
             Some c \<Rightarrow> Err (Backend (''policy path contains disallowed character '' @ dbgc c @ '': '' @ dbg p))
           | None \<Rightarrow> Ok ())"

definition seatbelt_paths :: "SandboxPolicy \<Rightarrow> rstr list" where
  "seatbelt_paths p =
     fs_read p @ fs_write p @ (case proxy_uds p of None \<Rightarrow> [] | Some u \<Rightarrow> [u]) @
     (case broker_uds p of None \<Rightarrow> [] | Some u \<Rightarrow> [u]) @
     (case persistent_store p of None \<Rightarrow> [] | Some ps \<Rightarrow> [pst_host_backing ps, pst_guest_mount ps])"

fun canon_list :: "(rstr \<Rightarrow> rstr) \<Rightarrow> Fs \<Rightarrow> rstr list \<Rightarrow> SandboxError + rstr list" where
  "canon_list dbg fs [] = Ok []"
| "canon_list dbg fs (p # ps) =
     and_then (canonicalize_one dbg fs p) (\<lambda>q. and_then (canon_list dbg fs ps) (\<lambda>qs. Ok (q # qs)))"

fun canon_option :: "(rstr \<Rightarrow> rstr) \<Rightarrow> Fs \<Rightarrow> rstr option \<Rightarrow> SandboxError + rstr option" where
  "canon_option dbg fs None = Ok None"
| "canon_option dbg fs (Some p) = and_then (canonicalize_one dbg fs p) (\<lambda>q. Ok (Some q))"

fun canon_store :: "(rstr \<Rightarrow> rstr) \<Rightarrow> Fs \<Rightarrow> PersistentStore option \<Rightarrow> SandboxError + PersistentStore option" where
  "canon_store dbg fs None = Ok None"
| "canon_store dbg fs (Some ps) =
     and_then (canonicalize_one dbg fs (pst_host_backing ps)) (\<lambda>h.
     and_then (canonicalize_one dbg fs (pst_guest_mount ps)) (\<lambda>g.
     Ok (Some \<lparr>pst_host_backing = h, pst_guest_mount = g, pst_size_mib = pst_size_mib ps\<rparr>)))"

definition canonicalize_policy_paths :: "(rstr \<Rightarrow> rstr) \<Rightarrow> Fs \<Rightarrow> SandboxPolicy \<Rightarrow> SandboxError + SandboxPolicy" where
  "canonicalize_policy_paths dbg fs p =
     and_then (canon_list dbg fs (fs_read p)) (\<lambda>r.
     and_then (canon_list dbg fs (fs_write p)) (\<lambda>w.
     and_then (canon_option dbg fs (proxy_uds p)) (\<lambda>u.
     and_then (canon_option dbg fs (broker_uds p)) (\<lambda>b.
     and_then (canon_store dbg fs (persistent_store p)) (\<lambda>s.
     Ok (p\<lparr>fs_read := r, fs_write := w, proxy_uds := u, broker_uds := b, persistent_store := s\<rparr>))))))"

definition seatbelt_store :: "(rstr \<Rightarrow> rstr) \<Rightarrow> Fs \<Rightarrow> SandboxPolicy \<Rightarrow> SandboxError + unit" where
  "seatbelt_store dbg fs p =
     (case persistent_store p of
        None \<Rightarrow> Ok ()
      | Some ps \<Rightarrow>
          if \<not> path_eq (pst_host_backing ps) (pst_guest_mount ps)
          then Err (Backend (''persistent_store on macOS requires host_backing == guest_mount (no path remap under Seatbelt), got host_backing='' @
                 dbg (pst_host_backing ps) @ '' guest_mount='' @ dbg (pst_guest_mount ps)))
          else if is_file fs (pst_guest_mount ps)
          then Err (Backend (''persistent_store guest_mount '' @ dbg (pst_guest_mount ps) @
                 '' is a file, but the Seatbelt backend expects a directory (a file is the Firecracker ext4-image form)''))
          else case create_dir_all fs (pst_guest_mount ps) of
                 Err e \<Rightarrow> Err (Backend (''persistent_store guest_mount '' @ dbg (pst_guest_mount ps) @ '': '' @ io_text e))
               | Ok u \<Rightarrow> Ok ())"

definition seatbelt_spawn_under_policy ::
    "(rstr \<Rightarrow> rstr) \<Rightarrow> (char \<Rightarrow> rstr) \<Rightarrow> Fs \<Rightarrow> (Command \<Rightarrow> IoError + nat) \<Rightarrow> SandboxPolicy \<Rightarrow> rstr \<Rightarrow> rstr list \<Rightarrow>
     SandboxError + Child" where
  "seatbelt_spawn_under_policy dbg dbgc fs exec policy program args =
     and_then (try_fold (\<lambda>p _. check_policy_path dbg dbgc p) (seatbelt_paths policy) ()) (\<lambda>_.
     and_then (canonicalize_policy_paths dbg fs policy) (\<lambda>policy.
     and_then (seatbelt_store dbg fs policy) (\<lambda>_.
       let cmd = \<lparr>cmd_argv = [''sandbox-exec'', ''-p'', build_profile dbg policy, program] @ args,
                  cmd_env = ClearedEnv (sp_env policy), cmd_dir = Some WORKER_CWD, cmd_setsid = True\<rparr> in
       start_command exec ''sandbox-exec'' cmd)))"

section \<open>The Apple container backend\<close>

definition CONTAINER_MEM_MIN_MIB :: nat where "CONTAINER_MEM_MIN_MIB = 200"
definition DEFAULT_IMAGE :: rstr where "DEFAULT_IMAGE = ''alpine:3.20''"
definition LANDLOCK_PROFILE_ENV :: rstr where "LANDLOCK_PROFILE_ENV = ''KASTELLAN_LANDLOCK_PROFILE''"
definition LANDLOCK_PROFILE_NONE :: rstr where "LANDLOCK_PROFILE_NONE = ''none''"

record ClampedMemory =
  cl_mib :: nat
  cl_clamped :: bool

definition clamp_memory_to_minimum :: "nat \<Rightarrow> ClampedMemory" where
  "clamp_memory_to_minimum requested =
     (if requested < CONTAINER_MEM_MIN_MIB then \<lparr>cl_mib = CONTAINER_MEM_MIN_MIB, cl_clamped = True\<rparr>
      else \<lparr>cl_mib = requested, cl_clamped = False\<rparr>)"

text \<open>\<^verbatim>\<open>f64\<close> division of a 32-bit percentage by 100 and its shortest decimal rendering: at most two decimals,
  without trailing zeros.\<close>

definition show_hundredths :: "nat \<Rightarrow> rstr" where
  "show_hundredths pct =
     show_nat (pct div 100) @
     (if pct mod 100 = 0 then []
      else if pct mod 10 = 0 then ''.'' @ show_nat (pct mod 100 div 10)
      else ''.'' @ (if pct mod 100 < 10 then ''0'' else []) @ show_nat (pct mod 100))"

definition container_profile_flags :: "Profile \<Rightarrow> rstr list" where
  "container_profile_flags pr =
     (case pr of
        WorkerStrict \<Rightarrow> [''--read-only'', ''--cap-drop'', ''ALL'', ''--user'', ''nobody'', ''--tmpfs'', ''/tmp'']
      | WorkerMlClient \<Rightarrow> [''--read-only'', ''--cap-drop'', ''ALL'', ''--user'', ''nobody'', ''--tmpfs'', ''/tmp'']
      | _ \<Rightarrow> [''--cap-drop'', ''ALL'', ''--user'', ''nobody'', ''--tmpfs'', ''/tmp''])"

definition build_container_argv :: "SandboxPolicy \<Rightarrow> rstr \<Rightarrow> rstr \<Rightarrow> rstr list \<Rightarrow> rstr list" where
  "build_container_argv p img program args =
     [''container'', ''run'', ''--rm'', ''-i'', ''--init'', ''--progress'', ''none''] @
     (case sp_net p of DenyNet \<Rightarrow> [''--network'', ''none''] | _ \<Rightarrow> [''--network'', ''default'']) @
     container_profile_flags (sp_profile p) @
     (if mem_mb p > 0 then [''-m'', show_nat (cl_mib (clamp_memory_to_minimum (mem_mb p))) @ ''M''] else []) @
     (case cpu_quota_pct p of
        None \<Rightarrow> [] | Some pct \<Rightarrow> if pct > 0 then [''-c'', show_hundredths pct] else []) @
     (case tasks_max p of None \<Rightarrow> [] | Some n \<Rightarrow> [''--ulimit'', ''nproc='' @ show_nat n @ '':'' @ show_nat n]) @
     concat (map (\<lambda>s. [''--mount'', ''type=bind,source='' @ s @ '',target='' @ s @ '',readonly'']) (fs_read p)) @
     concat (map (\<lambda>s. [''--mount'', ''type=bind,source='' @ s @ '',target='' @ s]) (fs_write p)) @
     concat (map (\<lambda>(k, v). [''-e'', k @ ''='' @ v]) (sp_env p)) @
     (if list_ex (\<lambda>(k, v). k = LANDLOCK_PROFILE_ENV) (sp_env p) then []
      else [''-e'', LANDLOCK_PROFILE_ENV @ ''='' @ LANDLOCK_PROFILE_NONE]) @
     [img, program] @ args"

definition container_spawn_under_policy ::
    "(rstr \<Rightarrow> rstr) \<Rightarrow> (Command \<Rightarrow> IoError + nat) \<Rightarrow> rstr \<Rightarrow> SandboxPolicy \<Rightarrow> rstr \<Rightarrow> rstr list \<Rightarrow>
     SandboxError + Child" where
  "container_spawn_under_policy dbg exec img policy program args =
     and_then (try_fold (\<lambda>p _. if \<not> is_absolute p
                               then Err (Backend (''policy paths must be absolute, got '' @ dbg p)) else Ok ())
                 (fs_read policy @ fs_write policy) ()) (\<lambda>_.
       if proxy_uds policy \<noteq> None
       then Err (Backend ''MacosContainer cannot enforce force-routed egress (proxy_uds set); refuse rather than grant unrestricted NAT egress'')
       else let cmd = \<lparr>cmd_argv = build_container_argv policy img program args,
                       cmd_env = InheritEnv, cmd_dir = None, cmd_setsid = False\<rparr> in
            start_command exec ''container'' cmd)"

end
