(* ===== verification/Spawn_Facts.thy ===== *)
theory Spawn_Facts
  imports Spawn_Gate Sandbox_Mac
begin

text \<open>
  Facts about the spawn path: which policy reaches the backend, what a sidecar is started with, that a wait
  for a sidecar ends, and what a failed spawn has undone.
\<close>

section \<open>Lockdown variables\<close>

lemma has_var_append [simp]: "has_var k (a @ b) \<longleftrightarrow> has_var k a \<or> has_var k b"
  by (auto simp: has_var_def)

lemma has_var_Cons [simp]: "has_var k ((k', v) # es) \<longleftrightarrow> k' = k \<or> has_var k es"
  by (auto simp: has_var_def)

lemma has_var_Nil [simp]: "\<not> has_var k []"
  by (simp add: has_var_def)

lemma derive_same [simp]:
  "fs_read (derive_lockdown_env j p) = fs_read p" "fs_write (derive_lockdown_env j p) = fs_write p"
  "sp_net (derive_lockdown_env j p) = sp_net p" "proxy_uds (derive_lockdown_env j p) = proxy_uds p"
  "broker_uds (derive_lockdown_env j p) = broker_uds p" "persistent_store (derive_lockdown_env j p) = persistent_store p"
  "sp_profile (derive_lockdown_env j p) = sp_profile p" "cpu_ms (derive_lockdown_env j p) = cpu_ms p"
  by (simp_all add: derive_lockdown_env_def Let_def)

lemma net_private_derive [simp]: "net_private (derive_lockdown_env j p) = net_private p"
  by (simp add: net_private_def)

lemmas lockdown_names = ENV_LANDLOCK_RW_def ENV_LANDLOCK_RO_def ENV_SECCOMP_PROFILE_def ENV_CPU_MS_def

lemma derive_has:
  "has_var ENV_LANDLOCK_RW (sp_env (derive_lockdown_env j p))" "has_var ENV_LANDLOCK_RO (sp_env (derive_lockdown_env j p))"
  "has_var ENV_SECCOMP_PROFILE (sp_env (derive_lockdown_env j p))"
  "0 < cpu_ms p \<Longrightarrow> has_var ENV_CPU_MS (sp_env (derive_lockdown_env j p))"
  by (simp_all add: derive_lockdown_env_def Let_def)

section \<open>Waiting ends\<close>

definition quiet_poll :: "Poll \<Rightarrow> bool" where
  "quiet_poll p \<longleftrightarrow> \<not> po_ready p \<and> po_exited p = Ok None"

text \<open>What a wait concludes from the last poll it made.\<close>

definition concludes :: "Poll \<Rightarrow> SidecarReady \<Rightarrow> bool" where
  "concludes p r =
     (case r of
        SidecarUp \<Rightarrow> po_ready p
      | SidecarExited s \<Rightarrow> \<not> po_ready p \<and> po_exited p = Ok (Some s)
      | Unpollable e \<Rightarrow> \<not> po_ready p \<and> po_exited p = Err e
      | SidecarTimedOut \<Rightarrow> quiet_poll p)"

lemma wait_from_stop:
  "\<not> (quiet_poll (polls i) \<and> now < deadline) \<Longrightarrow> concludes (polls i) (wait_from polls deadline i now)"
  by (subst wait_from.simps) (auto simp: concludes_def quiet_poll_def split: sum.splits option.splits)

lemma wait_from_bound:
  assumes "deadline \<le> now + READY_POLL * n"
  shows "\<exists>j \<le> n. (\<forall>k < j. quiet_poll (polls (i + k))) \<and> concludes (polls (i + j)) (wait_from polls deadline i now)"
  using assms
proof (induction n arbitrary: i now)
  case 0
  then show ?case using wait_from_stop [of polls i now deadline] by simp
next
  case (Suc n)
  let ?now' = "now + READY_POLL + po_jitter (polls i)"
  show ?case
  proof (cases "quiet_poll (polls i) \<and> now < deadline")
    case True
    then have step: "wait_from polls deadline i now = wait_from polls deadline (Suc i) ?now'"
      by (subst wait_from.simps) (auto simp: quiet_poll_def)
    have "deadline \<le> ?now' + READY_POLL * n" using Suc.prems by simp
    from Suc.IH [OF this, of "Suc i"] obtain j where j: "j \<le> n" "\<forall>k < j. quiet_poll (polls (Suc i + k))"
      "concludes (polls (Suc i + j)) (wait_from polls deadline (Suc i) ?now')" by blast
    have "\<forall>k < Suc j. quiet_poll (polls (i + k))"
      using True j(2) by (auto simp: less_Suc_eq_0_disj)
    then show ?thesis using j step by (intro exI [of _ "Suc j"]) simp
  next
    case False
    then show ?thesis using wait_from_stop by (intro exI [of _ 0]) simp
  qed
qed

section \<open>What a spawn hands to the backend\<close>

lemma spawn_worker_Ok:
  assumes "spawn_worker h backend spec w = (Ok wk, w')"
  shows "backend (derive_lockdown_env (h_strings_json h) (ws_policy spec)) (ws_program spec) (ws_args spec) = Ok (sw_child wk)"
    and "w_events w' = w_events w @ [Launched (sw_child wk)]"
    and "sw_watchdog wk = ws_wall_clock_ms spec" "sw_egress wk = None" "sw_broker wk = None"
  using assms by (auto simp: spawn_worker_def note_event_def split: sum.splits)

lemma spawn_sidecar_Ok:
  assumes "spawn_sidecar h backend spec w = (Ok sh, w')"
  shows "backend (derive_lockdown_env (h_strings_json h) (proxy_policy (h_strings_json h) spec)) (ss_binary spec) [] =
           Ok (sh_child sh)"
    and "sh_uds_path sh = path_join (ss_scratch spec) UDS_FILE_NAME" "\<not> sh_not_our_child sh"
    and "\<not> h_exists h (sh_uds_path sh)" "\<not> h_exists h (path_join (ss_scratch spec) CA_FILE_NAME)"
    and "w_events w' = w_events w @ [Launched (sh_child sh)]"
    and "wait_for_sidecar_ready READY_TIMEOUT (h_polls h (sh_child sh)) = SidecarUp"
  using assms
  by (auto simp: spawn_sidecar_def Let_def note_event_def split: sum.splits if_splits SidecarReady.splits)

text \<open>A worker whose policy lists hosts, once force routing is configured: its policy gets the proxy's socket,
  and the proxy is a sidecar started with exactly those hosts.\<close>

record forced_parts =
  fpt_mitm :: Mitm
  fpt_scratch :: rstr

definition sidecar_spec :: "Host \<Rightarrow> ForceRoutingConfig \<Rightarrow> rstr list \<Rightarrow> rstr \<Rightarrow> forced_parts \<Rightarrow> SidecarSpawn" where
  "sidecar_spec h cfg hosts name parts =
     \<lparr>ss_binary = fr_proxy_bin cfg, ss_allowlist = hosts, ss_scratch = fpt_scratch parts, ss_worker = name,
      ss_cert_pins_json = pins_for_worker h cfg hosts, ss_mitm = fpt_mitm parts, ss_long_lived = False\<rparr>"

definition forced_policy :: "SandboxPolicy \<Rightarrow> forced_parts \<Rightarrow> SandboxPolicy" where
  "forced_policy p parts =
     (let uds = path_join (fpt_scratch parts) UDS_FILE_NAME;
          ca = (case path_parent uds of Some d \<Rightarrow> path_join d CA_FILE_NAME | None \<Rightarrow> CA_FILE_NAME)
      in rewrite_worker_policy p uds (if is_transparent (fpt_mitm parts) then None else Some ca))"

lemma rewrite_same [simp]:
  "sp_net (rewrite_worker_policy p u ca) = sp_net p" "proxy_uds (rewrite_worker_policy p u ca) = Some u"
  "fs_write (rewrite_worker_policy p u ca) = fs_write p" "broker_uds (rewrite_worker_policy p u ca) = broker_uds p"
  by (simp_all add: rewrite_worker_policy_def Let_def)

lemma forced_policy_same [simp]:
  "sp_net (forced_policy p parts) = sp_net p" "fs_write (forced_policy p parts) = fs_write p"
  "proxy_uds (forced_policy p parts) = Some (path_join (fpt_scratch parts) UDS_FILE_NAME)"
  by (simp_all add: forced_policy_def Let_def)

lemma spawn_net_worker_Ok:
  assumes "spawn_net_worker h params scratch w = (Ok wk, w')"
  obtains sh where "sw_egress wk = Some \<lparr>es_sidecar = sh, es_scratch = None\<rparr>" "sw_broker wk = None"
    "nw_sidecar_backend params (derive_lockdown_env (h_strings_json h)
        (proxy_policy (h_strings_json h) (net_sidecar_spec params scratch))) (nw_proxy_bin params) [] = Ok (sh_child sh)"
    "sh_uds_path sh = path_join scratch UDS_FILE_NAME"
    "nw_backend params (derive_lockdown_env (h_strings_json h)
        (ws_policy (forced_spec params (path_join scratch UDS_FILE_NAME)))) (ws_program (nw_spec params)) (ws_args (nw_spec params)) =
       Ok (sw_child wk)"
proof -
  obtain sh w1 where s: "spawn_sidecar h (nw_sidecar_backend params) (net_sidecar_spec params scratch) w = (Ok sh, w1)"
    using assms by (cases "spawn_sidecar h (nw_sidecar_backend params) (net_sidecar_spec params scratch) w")
      (auto simp: spawn_net_worker_def split: sum.splits)
  note sc = spawn_sidecar_Ok [OF s]
  obtain wk0 w2 w3 where k: "spawn_worker h (nw_backend params) (forced_spec params (sh_uds_path sh)) w2 = (Ok wk0, w3)"
    and wk: "wk = wk0\<lparr>sw_egress := Some \<lparr>es_sidecar = sh, es_scratch = None\<rparr>\<rparr>"
    using assms s by (auto simp: spawn_net_worker_def Let_def split: sum.splits prod.splits)
  note wo = spawn_worker_Ok [OF k]
  show thesis
    by (rule that [of sh]) (use sc wo wk in \<open>simp_all add: net_sidecar_spec_def forced_spec_def Let_def\<close>)
qed

lemma spawn_forced_Ok:
  assumes "spawn_forced_net_worker h params root w = (Ok wk, w')"
  obtains scratch sh where "sw_egress wk = Some \<lparr>es_sidecar = sh, es_scratch = Some scratch\<rparr>" "sw_broker wk = None"
    "nw_sidecar_backend params (derive_lockdown_env (h_strings_json h)
        (proxy_policy (h_strings_json h) (net_sidecar_spec params scratch))) (nw_proxy_bin params) [] = Ok (sh_child sh)"
    "sh_uds_path sh = path_join scratch UDS_FILE_NAME"
    "nw_backend params (derive_lockdown_env (h_strings_json h)
        (ws_policy (forced_spec params (path_join scratch UDS_FILE_NAME)))) (ws_program (nw_spec params)) (ws_args (nw_spec params)) =
       Ok (sw_child wk)"
    "length (path_join scratch UDS_FILE_NAME) < SUN_PATH_MAX (h_macos h)"
proof -
  obtain scratch w1 where m: "make_worker_scratch_dir h root w = (Ok scratch, w1)"
    using assms by (cases "make_worker_scratch_dir h root w") (auto simp: spawn_forced_net_worker_def split: sum.splits)
  obtain wk0 w2 where n: "spawn_net_worker h params scratch w1 = (Ok wk0, w2)"
    and wk: "wk = wk0\<lparr>sw_egress := map_option (\<lambda>e. e\<lparr>es_scratch := Some scratch\<rparr>) (sw_egress wk0)\<rparr>"
    using assms m by (auto simp: spawn_forced_net_worker_def split: sum.splits prod.splits)
  have "length (path_join scratch UDS_FILE_NAME) < SUN_PATH_MAX (h_macos h)"
    using m by (auto simp: make_worker_scratch_dir_def Let_def split: if_splits sum.splits)
  then show thesis using n wk by (elim spawn_net_worker_Ok) (auto intro: that)
qed

lemma maybe_forced_Ok:
  assumes "spawn_worker_maybe_forced h (Some cfg) backend sb spec name w = (Ok wk, w')"
    and "sp_net (ws_policy spec) = NetAllowlist hosts"
  obtains parts sh extra where
    "sw_egress wk = Some \<lparr>es_sidecar = sh, es_scratch = Some (fpt_scratch parts)\<rparr>"
    "upstream_ca_for cfg hosts = Ok extra" "mitm_for (h_dbg h) name extra = Ok (fpt_mitm parts)"
    "sh_uds_path sh = path_join (fpt_scratch parts) UDS_FILE_NAME"
    "sb (derive_lockdown_env (h_strings_json h) (proxy_policy (h_strings_json h) (sidecar_spec h cfg hosts name parts)))
        (fr_proxy_bin cfg) [] = Ok (sh_child sh)"
    "backend (derive_lockdown_env (h_strings_json h) (forced_policy (ws_policy spec) parts)) (ws_program spec) (ws_args spec) =
       Ok (sw_child wk)"
proof -
  obtain extra mitm where e: "upstream_ca_for cfg hosts = Ok extra" "mitm_for (h_dbg h) name extra = Ok mitm"
    and f: "spawn_forced_net_worker h
                      \<lparr>nw_backend = backend, nw_sidecar_backend = sb, nw_proxy_bin = fr_proxy_bin cfg,
                       nw_spec = spec, nw_allowlist = hosts, nw_worker_name = name,
                       nw_cert_pins_json = pins_for_worker h cfg hosts, nw_mitm = mitm\<rparr>
                      (fr_scratch_root cfg) w = (Ok wk, w')"
    using assms
    by (auto simp: spawn_worker_maybe_forced_def force_route_action_def policy_net_is_force_routable_def split: sum.splits)
  from f obtain scratch sh where s: "sw_egress wk = Some \<lparr>es_sidecar = sh, es_scratch = Some scratch\<rparr>"
    "sh_uds_path sh = path_join scratch UDS_FILE_NAME"
    "sb (derive_lockdown_env (h_strings_json h) (proxy_policy (h_strings_json h)
        (sidecar_spec h cfg hosts name \<lparr>fpt_mitm = mitm, fpt_scratch = scratch\<rparr>))) (fr_proxy_bin cfg) [] = Ok (sh_child sh)"
    "backend (derive_lockdown_env (h_strings_json h) (forced_policy (ws_policy spec) \<lparr>fpt_mitm = mitm, fpt_scratch = scratch\<rparr>))
        (ws_program spec) (ws_args spec) = Ok (sw_child wk)"
    by (elim spawn_forced_Ok)
       (simp add: net_sidecar_spec_def sidecar_spec_def forced_spec_def forced_policy_def Let_def)
  show thesis
    by (rule that [of sh "\<lparr>fpt_mitm = mitm, fpt_scratch = scratch\<rparr>" extra]) (use s e in simp_all)
qed

lemma maybe_forced_direct:
  assumes "\<And>hosts. sp_net (ws_policy spec) \<noteq> NetAllowlist hosts"
  shows "spawn_worker_maybe_forced h force backend sb spec name w = spawn_worker h backend spec w"
  using assms
  by (auto simp: spawn_worker_maybe_forced_def force_route_action_def policy_net_is_force_routable_def
      split: Net.splits option.splits ForceRouteAction.splits)

lemma rewrite_for_broker_same [simp]:
  "sp_net (rewrite_policy_for_broker p u k) = sp_net p" "proxy_uds (rewrite_policy_for_broker p u k) = proxy_uds p"
  "fs_read (rewrite_policy_for_broker p u k) = fs_read p" "fs_write (rewrite_policy_for_broker p u k) = fs_write p"
  "broker_uds (rewrite_policy_for_broker p u k) = Some u"
  by (simp_all add: rewrite_policy_for_broker_def)

text \<open>The chokepoint starts the worker through the force-routing step, with the policy as it is or with the
  broker's socket added.\<close>

definition broker_adds :: "SandboxPolicy \<Rightarrow> SandboxPolicy \<Rightarrow> bool" where
  "broker_adds p q \<longleftrightarrow> q = p \<or> (\<exists>u k. q = rewrite_policy_for_broker p u k)"

lemma optional_broker_Ok:
  assumes "spawn_worker_with_optional_broker h force configs backend sb spec broker name w = (Ok wk, w')"
  obtains q w1 w2 wk0 where "broker_adds (ws_policy spec) q"
    "spawn_worker_maybe_forced h force backend sb (spec\<lparr>ws_policy := q\<rparr>) name w1 = (Ok wk0, w2)"
    "sw_child wk = sw_child wk0" "sw_egress wk = sw_egress wk0"
proof (cases broker)
  case None
  then show thesis
    using assms that [of "ws_policy spec" w wk w'] by (simp add: spawn_worker_with_optional_broker_def broker_adds_def)
next
  case (Some b)
  obtain cfg sidecar uds w1 wk0 w2 where
    "spawn_worker_maybe_forced h force backend sb
       (spec\<lparr>ws_policy := rewrite_policy_for_broker (ws_policy spec) uds (bs_kind b)\<rparr>) name w1 = (Ok wk0, w2)"
    "wk = wk0\<lparr>sw_broker := Some sidecar\<rparr>"
    using assms Some
    by (auto simp: spawn_worker_with_optional_broker_def Let_def split: option.splits sum.splits prod.splits)
  then show thesis
    using that [of "rewrite_policy_for_broker (ws_policy spec) uds (bs_kind b)" w1 wk0 w2] by (auto simp: broker_adds_def)
qed

section \<open>What the worker and its proxy are told\<close>

lemmas egress_names = ENV_UDS_def ENV_CA_def ENV_ALLOWLIST_def ENV_WORKER_def ENV_PINS_def ENV_DISABLE_MITM_def
  ENV_PROXY_EXTRA_CA_def

lemma proxy_told_hosts:
  "map_of (sp_env (derive_lockdown_env j (proxy_policy j (sidecar_spec h cfg hosts name parts)))) ENV_ALLOWLIST = Some (j hosts)"
  "map_of (sp_env (derive_lockdown_env j (proxy_policy j (sidecar_spec h cfg hosts name parts)))) ENV_UDS =
     Some (path_join (fpt_scratch parts) UDS_FILE_NAME)"
  by (simp_all add: derive_lockdown_env_def proxy_policy_def sidecar_spec_def Let_def egress_names)

lemma forced_env_uds:
  "map snd (filter (\<lambda>(k, v). k = ENV_UDS) (sp_env (derive_lockdown_env j (forced_policy p parts)))) =
     [path_join (fpt_scratch parts) UDS_FILE_NAME]"
  by (auto simp: derive_lockdown_env_def forced_policy_def rewrite_worker_policy_def Let_def lockdown_names egress_names
      filter_empty_conv split: if_splits)

lemma components_ca: "components (path_join d CA_FILE_NAME) = components d @ [Normal CA_FILE_NAME]"
  by (rule components_path_join) (simp add: CA_FILE_NAME_def simple_name_def)

lemma not_resolver: "\<not> path_eq (path_join d CA_FILE_NAME) RESOLV_CONF" "\<not> path_eq CA_FILE_NAME RESOLV_CONF"
proof -
  have "components RESOLV_CONF = [RootDir, Normal ''etc''] @ [Normal ''resolv.conf'']" by code_simp
  moreover have "components CA_FILE_NAME = [] @ [Normal ''ca.pem'']" by code_simp
  ultimately show "\<not> path_eq (path_join d CA_FILE_NAME) RESOLV_CONF" "\<not> path_eq CA_FILE_NAME RESOLV_CONF"
    unfolding path_eq_def components_ca by (simp_all add: CA_FILE_NAME_def)
qed

lemma forced_reads_no_resolver:
  assumes "p \<in> set (fs_read (forced_policy q parts))" shows "\<not> path_eq p RESOLV_CONF"
  using assms not_resolver
  by (auto simp: forced_policy_def rewrite_worker_policy_def Let_def split: if_splits option.splits)

lemma base_not_resolver: "\<not> path_eq ''/usr'' RESOLV_CONF" "\<not> path_eq ''/etc/ld.so.cache'' RESOLV_CONF"
  by code_simp+

section \<open>Isolation of every worker behind the chokepoint\<close>

context jail_backend
begin

lemma gated_worker_isolated:
  assumes "spawn_worker_with_optional_broker h (Some cfg) configs spawn_under sb spec broker name w = (Ok wk, w')"
    and "sp_net (ws_policy spec) \<noteq> ProxyEgress"
  shows "isolated (child_cmd (sw_child wk))"
  using assms(1)
proof (rule optional_broker_Ok)
  fix q w1 w2 wk0
  assume q: "broker_adds (ws_policy spec) q" and c: "sw_child wk = sw_child wk0"
    and s: "spawn_worker_maybe_forced h (Some cfg) spawn_under sb (spec\<lparr>ws_policy := q\<rparr>) name w1 = (Ok wk0, w2)"
  have net: "sp_net q = sp_net (ws_policy spec)" using q by (auto simp: broker_adds_def)
  show ?thesis
  proof (cases "sp_net (ws_policy spec)")
    case DenyNet
    then have "spawn_worker h spawn_under (spec\<lparr>ws_policy := q\<rparr>) w1 = (Ok wk0, w2)"
      using s net by (simp add: maybe_forced_direct)
    from spawn_worker_Ok(1) [OF this] show ?thesis
      using denied_isolated net DenyNet c by simp
  next
    case (NetAllowlist hosts)
    with net have "sp_net (ws_policy (spec\<lparr>ws_policy := q\<rparr>)) = NetAllowlist hosts" by simp
    from s this show ?thesis
      by (rule maybe_forced_Ok) (use c NetAllowlist net in \<open>auto dest: forced_isolated\<close>)
  qed (use assms(2) in simp)
qed

end

text \<open>The container backend keeps the contract by refusing the policies it cannot enforce.\<close>

definition container_isolated :: "Command \<Rightarrow> bool" where
  "container_isolated cmd \<longleftrightarrow> take 2 (drop 7 (cmd_argv cmd)) = [''--network'', ''none'']"

interpretation container: jail_backend "container_spawn_under_policy dbg exec img" container_isolated for dbg exec img
proof
  fix policy program args c
  assume s: "container_spawn_under_policy dbg exec img policy program args = Ok c" and "net_private policy"
  moreover from s have "proxy_uds policy = None"
    and "child_cmd c = \<lparr>cmd_argv = build_container_argv policy img program args, cmd_env = InheritEnv,
           cmd_dir = None, cmd_setsid = False\<rparr>"
    by (auto simp: container_spawn_under_policy_def and_then_Ok_iff Let_def split: if_splits dest!: start_command_Ok)
  ultimately show "container_isolated (child_cmd c)"
    by (simp add: container_isolated_def build_container_argv_def net_private_def)
qed

section \<open>A failed spawn cleans up\<close>

text \<open>A process that was started is killed, or there is nothing left to kill: the wait for it found that it has exited, or
  that it is not this daemon's child.\<close>

definition gone :: "Host \<Rightarrow> Child \<Rightarrow> bool" where
  "gone h c \<longleftrightarrow>
     (\<exists>s. wait_for_sidecar_ready READY_TIMEOUT (h_polls h c) = SidecarExited s) \<or>
     (\<exists>e. wait_for_sidecar_ready READY_TIMEOUT (h_polls h c) = Unpollable e \<and> io_os e = Some ECHILD)"

text \<open>The one process a failed spawn may leave running: the worker itself, when it was launched and its pipes could not be
  taken (\<^verbatim>\<open>Client::from_child\<close>), which drops the child value without killing it.\<close>

definition stranded :: "Host \<Rightarrow> backend \<Rightarrow> WorkerSpec \<Rightarrow> Child \<Rightarrow> bool" where
  "stranded h backend spec c \<longleftrightarrow> (\<exists>q e. backend q (ws_program spec) (ws_args spec) = Ok c \<and> h_client h c = Err e)"

lemma stranded_policy [simp]: "stranded h backend (spec\<lparr>ws_policy := q\<rparr>) = stranded h backend spec"
  by (simp add: stranded_def fun_eq_iff)

lemma stranded_forced [simp]: "stranded h backend (forced_spec params uds) = stranded h backend (nw_spec params)"
  by (simp add: forced_spec_def Let_def)

definition settled :: "Host \<Rightarrow> (Child \<Rightarrow> bool) \<Rightarrow> SpawnEvent list \<Rightarrow> bool" where
  "settled h P evs \<longleftrightarrow>
     (\<forall>d. MadeDir d \<in> set evs \<longrightarrow> RemovedDir d \<in> set evs) \<and>
     (\<forall>c. Launched c \<in> set evs \<longrightarrow> Killed (child_pid c) \<in> set evs \<or> gone h c \<or> P c)"

definition settles :: "Host \<Rightarrow> (Child \<Rightarrow> bool) \<Rightarrow> SpawnWorld \<Rightarrow> SpawnWorld \<Rightarrow> bool" where
  "settles h P w w' \<longleftrightarrow> (\<exists>evs. w_events w' = w_events w @ evs \<and> settled h P evs)"

lemma settled_append: "settled h P a \<Longrightarrow> settled h P b \<Longrightarrow> settled h P (a @ b)"
  by (auto simp: settled_def)

lemma settles_refl [simp]: "settles h P w w"
  by (simp add: settles_def settled_def)

lemma settles_same_events: "w_events w' = w_events w \<Longrightarrow> settles h P w w'"
  by (simp add: settles_def settled_def)

lemma spawn_sidecar_Err:
  assumes "spawn_sidecar h backend spec w = (Err e, w')" shows "settles h P w w'"
  using assms
  by (auto simp: spawn_sidecar_def Let_def note_event_def terminate_def settles_def settled_def gone_def
      may_kill_after_failed_poll_def split: sum.splits if_splits SidecarReady.splits)

lemma spawn_worker_Err:
  assumes "spawn_worker h backend spec w = (Err e, w')" shows "settles h (stranded h backend spec) w w'"
  using assms by (auto simp: spawn_worker_def note_event_def settles_def settled_def stranded_def split: sum.splits)

lemma spawn_broker_in_events:
  assumes "spawn_broker_in h cfg spec backend scratch w = (r, w')"
  shows "(\<exists>b. r = Ok b \<and> br_scratch b = scratch \<and>
            w_events w' = w_events w @ [RemovedFile (br_uds_path b), Launched (br_child b)]) \<or> (\<exists>e. r = Err e \<and> settles h P w w')"
  using assms
  by (auto simp: spawn_broker_in_def Let_def note_event_def settles_def settled_def gone_def
      may_kill_after_failed_poll_def split: sum.splits if_splits SidecarReady.splits)

lemma spawn_net_worker_Err:
  assumes "spawn_net_worker h params scratch w = (Err e, w')" shows "settles h (stranded h (nw_backend params) (nw_spec params)) w w'"
proof (cases "spawn_sidecar h (nw_sidecar_backend params) (net_sidecar_spec params scratch) w")
  case (Pair r w1)
  show ?thesis
  proof (cases r)
    case (Inl e)
    then show ?thesis using assms Pair spawn_sidecar_Err by (auto simp: spawn_net_worker_def)
  next
    case (Inr sh)
    note sc = spawn_sidecar_Ok(3,6) [OF Pair [unfolded Inr]]
    let ?w2 = "case path_parent (sh_uds_path sh) of Some d \<Rightarrow> note_event (WroteSecretHashes d) w1 | None \<Rightarrow> w1"
    obtain e' w3 where k: "spawn_worker h (nw_backend params) (forced_spec params (sh_uds_path sh)) ?w2 = (Err e', w3)"
      and w': "w' = terminate sh w3"
      using assms Pair Inr by (auto simp: spawn_net_worker_def Let_def split: sum.splits prod.splits)
    from spawn_worker_Err [OF k] obtain evs where evs: "w_events w3 = w_events ?w2 @ evs" "settled h (stranded h (nw_backend params) (nw_spec params)) evs"
      by (auto simp: settles_def)
    show ?thesis
      unfolding settles_def
      by (rule exI [of _ "[Launched (sh_child sh)] @
             (case path_parent (sh_uds_path sh) of Some d \<Rightarrow> [WroteSecretHashes d] | None \<Rightarrow> []) @ evs @
             [Killed (child_pid (sh_child sh)), RemovedFile (sh_uds_path sh)]"])
         (use sc evs in \<open>auto simp: w' terminate_def note_event_def settled_def split: option.splits\<close>)
  qed
qed

lemma make_dir_events:
  assumes "make_worker_scratch_dir h root w = (r, w')"
  shows "(\<exists>d. r = Ok d \<and> w_events w' = w_events w @ [MadeDir d]) \<or> (\<exists>e. r = Err e \<and> w_events w' = w_events w)"
  using assms by (auto simp: make_worker_scratch_dir_def Let_def note_event_def split: if_splits sum.splits)

lemma make_broker_dir_events:
  assumes "make_broker_scratch_dir h root kind w = (r, w')"
  shows "(\<exists>d. r = Ok d \<and> w_events w' = w_events w @ [MadeDir d]) \<or> (\<exists>e. r = Err e \<and> w_events w' = w_events w)"
  using assms by (auto simp: make_broker_scratch_dir_def Let_def note_event_def split: if_splits sum.splits)

text \<open>A directory made, a part that settles, and the directory removed.\<close>

lemma settles_in_dir:
  assumes "w_events w1 = w_events w @ [MadeDir d]" and "settles h P w1 w2"
  shows "settles h P w (note_event (RemovedDir d) w2)"
proof -
  from assms(2) obtain evs where e: "w_events w2 = w_events w1 @ evs" "settled h P evs" by (auto simp: settles_def)
  show ?thesis unfolding settles_def
    by (rule exI [of _ "[MadeDir d] @ evs @ [RemovedDir d]"]) (use assms(1) e in \<open>auto simp: note_event_def settled_def\<close>)
qed

lemma spawn_forced_Err:
  assumes "spawn_forced_net_worker h params root w = (Err e, w')" shows "settles h (stranded h (nw_backend params) (nw_spec params)) w w'"
proof (cases "make_worker_scratch_dir h root w")
  case (Pair r w1)
  from make_dir_events [OF Pair] show ?thesis
  proof
    assume "\<exists>d. r = Ok d \<and> w_events w1 = w_events w @ [MadeDir d]"
    then obtain d where d: "r = Ok d" "w_events w1 = w_events w @ [MadeDir d]" by blast
    then obtain e' w2 where n: "spawn_net_worker h params d w1 = (Err e', w2)" and w': "w' = note_event (RemovedDir d) w2"
      using assms Pair by (auto simp: spawn_forced_net_worker_def split: sum.splits prod.splits)
    show ?thesis unfolding w' by (rule settles_in_dir [OF d(2) spawn_net_worker_Err [OF n]])
  next
    assume "\<exists>e. r = Err e \<and> w_events w1 = w_events w"
    then show ?thesis using assms Pair by (auto simp: spawn_forced_net_worker_def intro: settles_same_events)
  qed
qed

lemma maybe_forced_Err:
  assumes "spawn_worker_maybe_forced h force backend sb spec name w = (Err e, w')" shows "settles h (stranded h backend spec) w w'"
  using assms
  by (auto simp: spawn_worker_maybe_forced_def dest: spawn_forced_Err spawn_worker_Err
      split: ForceRouteAction.splits option.splits Net.splits sum.splits)

lemma spawn_broker_events:
  assumes "spawn_broker h cfg spec backend w = (r, w')"
  shows "(\<exists>b. r = Ok (b, br_uds_path b) \<and>
            w_events w' = w_events w @ [MadeDir (br_scratch b), RemovedFile (br_uds_path b), Launched (br_child b)]) \<or>
         (\<exists>e. r = Err e \<and> settles h P w w')"
proof (cases "broker_allowlist_from_endpoint h (bs_endpoint spec) = []")
  case True
  then show ?thesis using assms by (auto simp: spawn_broker_def)
next
  case False
  obtain r1 w1 where m: "make_broker_scratch_dir h (bc_scratch_root cfg) (bs_kind spec) w = (r1, w1)" by fastforce
  from make_broker_dir_events [OF m] show ?thesis
  proof
    assume "\<exists>d. r1 = Ok d \<and> w_events w1 = w_events w @ [MadeDir d]"
    then obtain d where d: "r1 = Ok d" "w_events w1 = w_events w @ [MadeDir d]" by blast
    obtain r2 w2 where b: "spawn_broker_in h cfg spec backend d w1 = (r2, w2)" by fastforce
    from spawn_broker_in_events [OF b, of P] show ?thesis
      using assms False m d b settles_in_dir [OF d(2)] by (auto simp: spawn_broker_def)
  next
    assume "\<exists>e. r1 = Err e \<and> w_events w1 = w_events w"
    then show ?thesis using assms False m by (auto simp: spawn_broker_def intro: settles_same_events)
  qed
qed

lemma optional_broker_Err:
  assumes "spawn_worker_with_optional_broker h force configs backend sb spec broker name w = (Err e, w')"
  shows "settles h (stranded h backend spec) w w'"
proof (cases broker)
  case None
  then show ?thesis using assms maybe_forced_Err by (auto simp: spawn_worker_with_optional_broker_def)
next
  case (Some b)
  show ?thesis
  proof (cases "for_kind configs (bs_kind b)")
    case None
    then show ?thesis using assms Some by (auto simp: spawn_worker_with_optional_broker_def)
  next
    case (Some cfg)
    obtain r w1 where s: "spawn_broker h cfg b sb w = (r, w1)" by fastforce
    from spawn_broker_events [OF s, of "stranded h backend spec"] show ?thesis
    proof
      assume "\<exists>x. r = Ok (x, br_uds_path x) \<and>
            w_events w1 = w_events w @ [MadeDir (br_scratch x), RemovedFile (br_uds_path x), Launched (br_child x)]"
      then obtain x where x: "r = Ok (x, br_uds_path x)"
        "w_events w1 = w_events w @ [MadeDir (br_scratch x), RemovedFile (br_uds_path x), Launched (br_child x)]" by blast
      obtain e' w2 where m: "spawn_worker_maybe_forced h force backend sb
          (spec\<lparr>ws_policy := rewrite_policy_for_broker (ws_policy spec) (br_uds_path x) (bs_kind b)\<rparr>) name w1 = (Err e', w2)"
        and w': "w' = drop_broker x w2"
        using assms \<open>broker = Some b\<close> Some s x
        by (auto simp: spawn_worker_with_optional_broker_def Let_def split: sum.splits prod.splits)
      from maybe_forced_Err [OF m] obtain evs where evs: "w_events w2 = w_events w1 @ evs" "settled h (stranded h backend spec) evs"
        by (auto simp: settles_def)
      show ?thesis unfolding settles_def
        by (rule exI [of _ "[MadeDir (br_scratch x), RemovedFile (br_uds_path x), Launched (br_child x)] @ evs @
              [Killed (child_pid (br_child x)), RemovedFile (br_uds_path x), RemovedDir (br_scratch x)]"])
           (use x evs in \<open>auto simp: w' drop_broker_def note_event_def settled_def\<close>)
    next
      assume "\<exists>e. r = Err e \<and> settles h (stranded h backend spec) w w1"
      then show ?thesis
        using assms \<open>broker = Some b\<close> Some s by (auto simp: spawn_worker_with_optional_broker_def)
    qed
  qed
qed

end
