(* ===== verification/Policy_Wf.thy ===== *)
theory Policy_Wf
  imports Spawn_Facts
begin

text \<open>
  Well-formed policies: those whose paths the Linux backend accepts. Every policy the daemon makes out of a
  well-formed one on the way to a spawn (with the proxy's socket and authority, with a broker's socket, for the
  proxy, for the broker) is well-formed again.
\<close>

section \<open>Good paths\<close>

definition good_path :: "rstr \<Rightarrow> bool" where
  "good_path p \<longleftrightarrow> is_absolute p \<and> ParentDir \<notin> set (components p)"

lemma validate_good: "validate_linux_bind_path dbg p kind = Ok u \<longleftrightarrow> good_path p"
  by (simp add: validate_Ok good_path_def)

lemma good_join: "good_path d \<Longrightarrow> simple_name q \<Longrightarrow> good_path (path_join d q)"
  by (simp add: good_path_def path_join_absolute components_path_join)

lemma parent_exists:
  assumes "good_path d" and "simple_name q" shows "path_parent (path_join d q) \<noteq> None"
proof -
  obtain ss where s: "split_char CHR ''/'' (path_join d q) = [] # ss"
    using good_join [OF assms] by (auto simp: good_path_def is_absolute_iff)
  have n: "Normal q \<in> set (components (path_join d q))" using assms(2) by (simp add: components_path_join)
  have "trim_segs ss \<noteq> []"
  proof
    assume "trim_segs ss = []"
    then have "list_all (\<lambda>s. s = [] \<or> s = ''.'') ss" by (auto simp: trim_segs_def list_all_iff dropWhile_eq_Nil_conv)
    then have "List.map_filter seg_component ss = []"
      by (induction ss) (auto simp: List.map_filter_simps seg_component_def)
    then show False using n s good_join [OF assms] by (simp add: components_def good_path_def)
  qed
  then show ?thesis using s by (simp add: path_parent_def Let_def)
qed

lemma good_sibling:
  assumes "good_path d" and "simple_name q" and "simple_name r"
  shows "good_path (case path_parent (path_join d q) of Some d \<Rightarrow> path_join d r | None \<Rightarrow> r)"
proof -
  obtain e where e: "path_parent (path_join d q) = Some e" using parent_exists [OF assms(1,2)] by blast
  have "good_path e" using path_parent_wf [OF _ _ e] good_join [OF assms(1,2)] by (simp add: good_path_def)
  then show ?thesis using e good_join assms(3) by simp
qed

section \<open>Policies the backend accepts\<close>

abbreviation accepts :: "(rstr \<Rightarrow> rstr) \<Rightarrow> Fs \<Rightarrow> SandboxPolicy \<Rightarrow> bool" where
  "accepts dbg fs p \<equiv> bwrap_validate dbg fs p = Ok ()"

lemma all_validate: "try_fold (\<lambda>p _. validate_linux_bind_path dbg p kind) ps u = Ok v \<longleftrightarrow> list_all good_path ps"
  by (induction ps) (auto simp: and_then_Ok_iff validate_good)

lemma accepts_iff:
  "accepts dbg fs p \<longleftrightarrow>
   list_all good_path (fs_read p @ fs_write p) \<and> pred_option good_path (proxy_uds p) \<and> pred_option good_path (broker_uds p) \<and>
   pred_option (\<lambda>s. good_path (pst_host_backing s) \<and> good_path (pst_guest_mount s) \<and> \<not> is_file fs (pst_host_backing s) \<and>
       create_dir_all fs (pst_host_backing s) = Ok ())
     (persistent_store p)"
proof -
  have o: "(case u of None \<Rightarrow> Ok () | Some x \<Rightarrow> validate_linux_bind_path dbg x k) = Ok v \<longleftrightarrow> pred_option good_path u" for u k v
    by (cases u) (simp_all add: validate_good)
  show ?thesis
    by (cases "persistent_store p")
       (auto simp: bwrap_validate_def and_then_Ok_iff all_validate o validate_good split: if_splits sum.splits)
qed

lemma accepts_derive [simp]: "accepts dbg fs (derive_lockdown_env j p) = accepts dbg fs p"
  by (simp add: accepts_iff)

lemma accepts_rewrite:
  assumes "accepts dbg fs p" and "good_path u" and "pred_option good_path ca"
  shows "accepts dbg fs (rewrite_worker_policy p u ca)"
  using assms by (cases ca) (auto simp: accepts_iff rewrite_worker_policy_def Let_def list_all_iff)

lemma accepts_broker_rewrite:
  "accepts dbg fs p \<Longrightarrow> good_path u \<Longrightarrow> accepts dbg fs (rewrite_policy_for_broker p u k)"
  by (simp add: accepts_iff rewrite_policy_for_broker_def)

lemma resolver_good: "list_all good_path resolver_files"
  by code_simp

lemma accepts_proxy:
  assumes "good_path (ss_binary spec)" and "good_path (ss_scratch spec)" and "pred_option good_path (upstream_extra_ca (ss_mitm spec))"
  shows "accepts dbg fs (proxy_policy j spec)"
  using assms resolver_good by (cases "upstream_extra_ca (ss_mitm spec)") (simp_all add: accepts_iff proxy_policy_def Let_def)

lemma accepts_broker: "good_path binary \<Longrightarrow> good_path scratch \<Longrightarrow> accepts dbg fs (broker_policy h binary endpoint scratch k)"
  using resolver_good by (simp add: accepts_iff broker_policy_def)

section \<open>A backend that looks again\<close>

text \<open>The backend with the path validation in front. A spawn that never hands it a refused policy does not notice
  the difference.\<close>

definition strict :: "(rstr \<Rightarrow> rstr) \<Rightarrow> Fs \<Rightarrow> backend \<Rightarrow> backend" where
  "strict dbg fs b policy program args = (case bwrap_validate dbg fs policy of Err e \<Rightarrow> Err e | Ok u \<Rightarrow> b policy program args)"

lemma strict_same: "accepts dbg fs p \<Longrightarrow> strict dbg fs b p program args = b p program args"
  by (simp add: strict_def)

definition wf_force :: "ForceRoutingConfig \<Rightarrow> bool" where
  "wf_force cfg \<longleftrightarrow> good_path (fr_proxy_bin cfg) \<and> good_path (fr_scratch_root cfg) \<and>
     pred_option (list_all (\<lambda>(host, path). good_path path)) (fr_upstream_cas cfg)"

definition wf_broker :: "BrokerConfig \<Rightarrow> bool" where
  "wf_broker cfg \<longleftrightarrow> good_path (bc_broker_bin cfg) \<and> good_path (bc_scratch_root cfg)"

lemma names_simple:
  "simple_name UDS_FILE_NAME" "simple_name CA_FILE_NAME" "simple_name (uds_file k)"
  by (simp_all add: simple_name_def UDS_FILE_NAME_def CA_FILE_NAME_def) (cases k; simp)

lemma slash_not_digit: "CHR ''/'' \<notin> set (show_nat n)"
proof
  assume "CHR ''/'' \<in> set (show_nat n)"
  with show_nat_digits [of n] have "is_ascii_digit CHR ''/''" by (auto simp: list_all_iff)
  then show False by (simp add: is_ascii_digit_def code_def)
qed

lemma scratch_simple:
  "simple_name (''egress-'' @ show_nat a @ ''-'' @ show_nat b)"
  "simple_name (scratch_prefix k @ show_nat a @ ''-'' @ show_nat b)"
  using slash_not_digit by (simp_all add: simple_name_def) (cases k; simp)+

lemma spawn_worker_strict:
  "accepts dbg fs (ws_policy spec) \<Longrightarrow> spawn_worker h (strict dbg fs b) spec w = spawn_worker h b spec w"
  by (simp add: spawn_worker_def strict_same)

lemma spawn_sidecar_strict:
  assumes "good_path (ss_binary spec)" and "good_path (ss_scratch spec)" and "pred_option good_path (upstream_extra_ca (ss_mitm spec))"
  shows "spawn_sidecar h (strict dbg fs b) spec w = spawn_sidecar h b spec w"
proof -
  have "strict dbg fs b (derive_lockdown_env j (proxy_policy j spec)) prog args = b (derive_lockdown_env j (proxy_policy j spec)) prog args"
    for j prog args by (simp add: strict_same accepts_proxy [OF assms])
  then show ?thesis by (simp only: spawn_sidecar_def)
qed

lemma forced_spec_accepts:
  assumes "accepts dbg fs (ws_policy (nw_spec params))" and "good_path scratch"
  shows "accepts dbg fs (ws_policy (forced_spec params (path_join scratch UDS_FILE_NAME)))"
  using assms good_sibling [OF assms(2) names_simple(1,2)] good_join [OF assms(2) names_simple(1)]
  by (auto simp: forced_spec_def Let_def intro!: accepts_rewrite)

lemma spawn_net_worker_strict:
  assumes "accepts dbg fs (ws_policy (nw_spec params))" and "good_path (nw_proxy_bin params)" and "good_path scratch"
    and "pred_option good_path (upstream_extra_ca (nw_mitm params))"
  shows "spawn_net_worker h (params\<lparr>nw_backend := strict dbg fs b, nw_sidecar_backend := strict dbg fs sb\<rparr>) scratch w =
         spawn_net_worker h (params\<lparr>nw_backend := b, nw_sidecar_backend := sb\<rparr>) scratch w"
proof -
  let ?s = "net_sidecar_spec params scratch"
  have s: "spawn_sidecar h (strict dbg fs sb) ?s w = spawn_sidecar h sb ?s w"
    by (rule spawn_sidecar_strict) (use assms in \<open>simp_all add: net_sidecar_spec_def\<close>)
  have u: "sh_uds_path sh = path_join scratch UDS_FILE_NAME" if "spawn_sidecar h sb ?s w = (Ok sh, w')" for sh w'
    using spawn_sidecar_Ok(2) [OF that] by (simp add: net_sidecar_spec_def)
  have k: "spawn_worker h (strict dbg fs b) (forced_spec params (path_join scratch UDS_FILE_NAME)) w' =
        spawn_worker h b (forced_spec params (path_join scratch UDS_FILE_NAME)) w'" for w'
    using forced_spec_accepts [OF assms(1,3)] by (rule spawn_worker_strict)
  have p: "net_sidecar_spec (params\<lparr>nw_backend := x, nw_sidecar_backend := y\<rparr>) scratch = ?s"
    "forced_spec (params\<lparr>nw_backend := x, nw_sidecar_backend := y\<rparr>) = forced_spec params" for x y
    by (simp_all add: net_sidecar_spec_def forced_spec_def fun_eq_iff)
  show ?thesis
    by (cases "spawn_sidecar h sb ?s w"; cases "fst (spawn_sidecar h sb ?s w)")
       (use u k in \<open>simp_all add: spawn_net_worker_def p s Let_def\<close>)
qed

lemma made_dir_good:
  assumes "make_worker_scratch_dir h root w = (Ok d, w')" and "good_path root" shows "good_path d"
  using assms good_join [OF assms(2) scratch_simple(1)]
  by (auto simp: make_worker_scratch_dir_def Let_def split: if_splits sum.splits)

lemma extra_ca_good:
  assumes "wf_force cfg" and "upstream_ca_for cfg hosts = Ok extra" and "mitm_for dbg name extra = Ok m"
  shows "pred_option good_path (upstream_extra_ca m)"
proof -
  have "\<exists>host. (host, path) \<in> set cas" if "select_ca_for_allowlist cas hosts = Ok (Some path)" for cas path
  proof -
    from that obtain host where "filter (\<lambda>(host, path). host \<in> set (btree_set_of (map canonical_allowlist_host hosts))) cas = [(host, path)]"
      by (auto simp: select_ca_for_allowlist_def Let_def split: list.splits prod.splits if_splits)
    then have "(host, path) \<in> set (filter (\<lambda>(host, path). host \<in> set (btree_set_of (map canonical_allowlist_host hosts))) cas)" by simp
    then show ?thesis by auto
  qed
  then have "pred_option good_path extra"
    using assms(1,2)
    by (cases extra) (auto simp: wf_force_def upstream_ca_for_def list_all_iff split: option.splits, blast)
  then show ?thesis using assms(3) by (auto simp: mitm_for_def split: if_splits)
qed

lemma maybe_forced_strict:
  assumes "accepts dbg fs (ws_policy spec)" and "pred_option wf_force force"
  shows "spawn_worker_maybe_forced h force (strict dbg fs b) (strict dbg fs sb) spec name w =
         spawn_worker_maybe_forced h force b sb spec name w"
proof (cases "\<exists>cfg hosts. force = Some cfg \<and> sp_net (ws_policy spec) = NetAllowlist hosts")
  case False
  then show ?thesis
    using spawn_worker_strict [OF assms(1)]
    by (auto simp: spawn_worker_maybe_forced_def force_route_action_def policy_net_is_force_routable_def
        split: Net.splits option.splits)
next
  case True
  then obtain cfg hosts where c: "force = Some cfg" "sp_net (ws_policy spec) = NetAllowlist hosts" by blast
  have wf: "wf_force cfg" using assms(2) c(1) by simp
  have "spawn_forced_net_worker h
          \<lparr>nw_backend = strict dbg fs b, nw_sidecar_backend = strict dbg fs sb, nw_proxy_bin = fr_proxy_bin cfg, nw_spec = spec,
           nw_allowlist = hosts, nw_worker_name = name, nw_cert_pins_json = pins_for_worker h cfg hosts, nw_mitm = m\<rparr>
          (fr_scratch_root cfg) w =
        spawn_forced_net_worker h
          \<lparr>nw_backend = b, nw_sidecar_backend = sb, nw_proxy_bin = fr_proxy_bin cfg, nw_spec = spec,
           nw_allowlist = hosts, nw_worker_name = name, nw_cert_pins_json = pins_for_worker h cfg hosts, nw_mitm = m\<rparr>
          (fr_scratch_root cfg) w"
    if m: "pred_option good_path (upstream_extra_ca m)" for m
  proof -
    let ?P = "\<lparr>nw_backend = b, nw_sidecar_backend = sb, nw_proxy_bin = fr_proxy_bin cfg, nw_spec = spec,
           nw_allowlist = hosts, nw_worker_name = name, nw_cert_pins_json = pins_for_worker h cfg hosts, nw_mitm = m\<rparr>"
    have "spawn_net_worker h (?P\<lparr>nw_backend := strict dbg fs b, nw_sidecar_backend := strict dbg fs sb\<rparr>) d w' =
          spawn_net_worker h ?P d w'" if "make_worker_scratch_dir h (fr_scratch_root cfg) w = (Ok d, w')" for d w'
      using spawn_net_worker_strict [where params = ?P and b = b and sb = sb] made_dir_good [OF that] wf assms(1) m
      by (simp add: wf_force_def)
    then show ?thesis
      by (cases "make_worker_scratch_dir h (fr_scratch_root cfg) w"; cases "fst (make_worker_scratch_dir h (fr_scratch_root cfg) w)")
         (simp_all add: spawn_forced_net_worker_def)
  qed
  then show ?thesis
    using c extra_ca_good [OF wf]
    by (auto simp: spawn_worker_maybe_forced_def force_route_action_def policy_net_is_force_routable_def split: sum.splits)
qed

lemma broker_strict:
  assumes "wf_broker cfg"
  shows "spawn_broker h cfg spec (strict dbg fs b) w = spawn_broker h cfg spec b w"
    and "spawn_broker h cfg spec b w = (Ok (sc, uds), w') \<Longrightarrow> good_path uds"
proof -
  have d: "good_path d" if "make_broker_scratch_dir h (bc_scratch_root cfg) k w = (Ok d, w')" for d w' k
    using that good_join [OF _ scratch_simple(2), of "bc_scratch_root cfg"] assms
    by (auto simp: wf_broker_def make_broker_scratch_dir_def Let_def split: if_splits sum.splits)
  have "spawn_broker_in h cfg spec (strict dbg fs b) d w' = spawn_broker_in h cfg spec b d w'" if "good_path d" for d w'
    using assms by (simp add: wf_broker_def spawn_broker_in_def strict_same accepts_broker [OF _ that])
  then show "spawn_broker h cfg spec (strict dbg fs b) w = spawn_broker h cfg spec b w"
    using d by (auto simp: spawn_broker_def split: sum.splits prod.splits)
  have "br_uds_path sc = path_join d (uds_file (bs_kind spec))" if "spawn_broker_in h cfg spec b d w' = (Ok sc, w'')" for d w' w'' sc
    using that by (auto simp: spawn_broker_in_def Let_def split: sum.splits SidecarReady.splits if_splits)
  then show "spawn_broker h cfg spec b w = (Ok (sc, uds), w') \<Longrightarrow> good_path uds"
    using d good_join [OF _ names_simple(3)]
    by (auto simp: spawn_broker_def split: sum.splits prod.splits if_splits)
qed

end
