(* ===== verification/Micro_Vm.thy ===== *)
theory Micro_Vm
  imports Jail_Reading Sandbox_Mac Data_Policy
begin

text \<open>
  The Firecracker backend: the launch plan (\<^verbatim>\<open>sandbox/src/linux_firecracker/plan.rs\<close>), the shares and their
  manifest (\<^verbatim>\<open>mounts.rs\<close>), the jail of the monitor (\<^verbatim>\<open>confine.rs\<close>) and the
  launcher's command line (\<^verbatim>\<open>linux_firecracker.rs\<close>); and what the guest's first process reads from its kernel
  command line (\<^verbatim>\<open>workers/microvm-init/src/cmdline.rs\<close>). Host and guest share the format of that line only by
  convention. The effective user id of the daemon is the parameter \<open>euid\<close>.
\<close>

section \<open>The plan's data\<close>

record FirecrackerImage =
  im_kernel_path :: rstr
  im_rootfs_path :: rstr

record RoShare =
  ro_sources :: "rstr list"
  ro_guest_dev :: rstr

record RwScratch =
  rw_mountpoint :: rstr
  rw_guest_dev :: rstr

record PersistentMount =
  pm_mountpoint :: rstr
  pm_guest_dev :: rstr

record FirecrackerLaunchPlan =
  fp_kernel_path :: rstr
  fp_rootfs_path :: rstr
  fp_vcpu_count :: nat
  fp_mem_size_mib :: nat
  fp_vsock_cid :: nat
  fp_vsock_uds :: rstr
  fp_vsock_port :: nat
  fp_boot_args :: rstr
  fp_env :: "(rstr \<times> rstr) list"
  fp_net_enabled :: bool
  fp_ro_share :: "RoShare option"
  fp_rw_scratch :: "RwScratch option"
  fp_ro_image_path :: "rstr option"
  fp_rw_image_path :: "rstr option"
  fp_egress_proxy_vsock_port :: "nat option"
  fp_egress_host_uds :: "rstr option"
  fp_broker_vsock_port :: "nat option"
  fp_broker_host_uds :: "rstr option"
  fp_persistent_store :: "PersistentStore option"
  fp_persistent_image_path :: "rstr option"
  fp_persistent_mount :: "PersistentMount option"

definition WORKER_GUEST_CID :: nat where "WORKER_GUEST_CID = 3"
definition WORKER_VSOCK_PORT :: nat where "WORKER_VSOCK_PORT = 1024"
definition EGRESS_VSOCK_PORT :: nat where "EGRESS_VSOCK_PORT = 1025"
definition BROKER_VSOCK_PORT :: nat where "BROKER_VSOCK_PORT = 1026"
definition GUEST_EGRESS_UDS :: rstr where "GUEST_EGRESS_UDS = ''/run/kastellan-egress.sock''"
definition GUEST_BROKER_UDS :: rstr where "GUEST_BROKER_UDS = ''/run/kastellan-broker.sock''"
definition BASE_BOOT_ARGS :: rstr where
  "BASE_BOOT_ARGS = ''console=ttyS0 reboot=k panic=1 pci=off i8042.noaux=1 i8042.nomux=1''"
definition ENV_CMDLINE_KEY :: rstr where "ENV_CMDLINE_KEY = ''kastellan.env''"
definition MOUNTS_CMDLINE_KEY :: rstr where "MOUNTS_CMDLINE_KEY = ''kastellan.mounts''"
definition WORKER_CMDLINE_KEY :: rstr where "WORKER_CMDLINE_KEY = ''kastellan.worker''"
definition WORKER_ARGS_CMDLINE_KEY :: rstr where "WORKER_ARGS_CMDLINE_KEY = ''kastellan.worker.args''"
definition GUEST_WORKER_UID_ENV :: rstr where "GUEST_WORKER_UID_ENV = ''KASTELLAN_MICROVM_WORKER_UID''"
definition MAX_CMDLINE_BYTES :: nat where "MAX_CMDLINE_BYTES = 1920"
definition TAB :: char where "TAB = CHR 0x09"

section \<open>Encoding for the kernel command line\<close>

definition HEX :: "rstr" where "HEX = ''0123456789abcdef''"

definition hex_encode :: "rstr \<Rightarrow> rstr" where
  "hex_encode bytes = concat (map (\<lambda>b. [HEX ! (code b div 16), HEX ! (code b mod 16)]) bytes)"

definition bad_env_pair :: "rstr \<times> rstr \<Rightarrow> bool" where
  "bad_env_pair kv \<longleftrightarrow> NL \<in> set (fst kv) \<or> NL \<in> set (snd kv) \<or> CHR ''='' \<in> set (fst kv)"

definition encode_env_cmdline :: "(rstr \<Rightarrow> rstr) \<Rightarrow> (rstr \<times> rstr) list \<Rightarrow> SandboxError + rstr option" where
  "encode_env_cmdline dbg env =
     (if env = [] then Ok None
      else case find bad_env_pair env of
             Some (k, v) \<Rightarrow> Err (Backend (''env var '' @ dbg k @
               '' cannot be forwarded via the kernel cmdline: keys may not contain '' @ quoted ''='' @
               '' and neither key nor value may contain a newline (the guest decoder'' @ [CHR 0x27] @ ''s pair/field separators)''))
           | None \<Rightarrow> Ok (Some ('' '' @ ENV_CMDLINE_KEY @ ''='' @
               hex_encode (join_with [NL] (map (\<lambda>(k, v). k @ ''='' @ v) env)))))"

definition encode_worker_args_cmdline :: "rstr list \<Rightarrow> rstr option" where
  "encode_worker_args_cmdline args =
     (if args = [] then None
      else Some ('' '' @ WORKER_ARGS_CMDLINE_KEY @ ''='' @ join_with '','' (map hex_encode args)))"

definition SHARE_ANCHORS :: "rstr list" where
  "SHARE_ANCHORS = [''opt'', ''data'', ''srv'', ''mnt'', ''work'', ''tmp'']"

definition non_anchor_top_level :: "rstr \<Rightarrow> rstr option" where
  "non_anchor_top_level path =
     (case find_map (\<lambda>c. case c of Normal s \<Rightarrow> Some s | _ \<Rightarrow> None) (components path) of
        None \<Rightarrow> None
      | Some first \<Rightarrow> if first \<in> set SHARE_ANCHORS then None else Some first)"

definition manifest_guard :: "(rstr \<Rightarrow> rstr) \<Rightarrow> rstr \<Rightarrow> SandboxError + unit" where
  "manifest_guard dbg s =
     guard_err (TAB \<in> set s \<or> NL \<in> set s)
       (Backend (''mount path '' @ dbg s @
          '' cannot be forwarded: it contains a tab or newline (the manifest'' @ [CHR 0x27] @ ''s field/line separators)''))"

definition ro_line :: "(rstr \<Rightarrow> rstr) \<Rightarrow> RoShare option \<Rightarrow> SandboxError + rstr list" where
  "ro_line dbg ro =
     (case ro of
        None \<Rightarrow> Ok []
      | Some r \<Rightarrow>
          and_then (try_fold (\<lambda>p _. manifest_guard dbg p) (ro_sources r) ())
            (\<lambda>_. Ok [join_with [TAB] ([''ro'', ro_guest_dev r] @ ro_sources r)]))"

definition rw_line :: "(rstr \<Rightarrow> rstr) \<Rightarrow> (rstr \<times> rstr) option \<Rightarrow> SandboxError + rstr list" where
  "rw_line dbg rw =
     (case rw of
        None \<Rightarrow> Ok []
      | Some (dev, mp) \<Rightarrow>
          and_then (manifest_guard dbg mp) (\<lambda>_. Ok [''rw'' @ [TAB] @ dev @ [TAB] @ mp]))"

definition encode_mount_manifest ::
    "(rstr \<Rightarrow> rstr) \<Rightarrow> RoShare option \<Rightarrow> RwScratch option \<Rightarrow> PersistentMount option \<Rightarrow> SandboxError + rstr option" where
  "encode_mount_manifest dbg ro rw persistent =
     (if ro = None \<and> rw = None \<and> persistent = None then Ok None
      else and_then (ro_line dbg ro) (\<lambda>a.
           and_then (rw_line dbg (map_option (\<lambda>r. (rw_guest_dev r, rw_mountpoint r)) rw)) (\<lambda>b.
           and_then (rw_line dbg (map_option (\<lambda>r. (pm_guest_dev r, pm_mountpoint r)) persistent)) (\<lambda>c.
           Ok (Some ('' '' @ MOUNTS_CMDLINE_KEY @ ''='' @ hex_encode (join_with [NL] (a @ b @ c))))))))"

section \<open>The launch plan\<close>

definition vcpus :: "nat option \<Rightarrow> nat" where
  "vcpus q = (case q of None \<Rightarrow> 1 | Some pct \<Rightarrow> min 8 (max 1 ((pct + 99) div 100)))"

text \<open>\<^verbatim>\<open>net_enabled\<close>, the vsock port and the host socket of the egress channel.\<close>

definition plan_net :: "SandboxPolicy \<Rightarrow> SandboxError + (bool \<times> nat option \<times> rstr option)" where
  "plan_net p =
     (case (sp_net p, proxy_uds p) of
        (DenyNet, _) \<Rightarrow> Ok (False, None, None)
      | (NetAllowlist hosts, Some uds) \<Rightarrow> Ok (False, Some EGRESS_VSOCK_PORT, Some uds)
      | (NetAllowlist hosts, None) \<Rightarrow>
          Err (Backend (''micro-VM net workers require force-routing: Net::Allowlist needs proxy_uds set (direct-net in a VM is unsupported '' @
                        em_dash @ '' no virtio-net device)''))
      | (ProxyEgress, _) \<Rightarrow> Ok (True, None, None))"

definition ANCHOR_HINT :: rstr where
  "ANCHOR_HINT = ''allowed share anchors: /opt /data /srv /mnt /work /tmp''"

definition not_an_anchor :: "rstr \<Rightarrow> rstr \<Rightarrow> rstr \<Rightarrow> rstr \<Rightarrow> SandboxError + unit" where
  "not_an_anchor what mounted placed path =
     (case non_anchor_top_level path of
        None \<Rightarrow> Ok ()
      | Some anchor \<Rightarrow> Err (Backend (what @ '' has top-level /'' @ anchor @ '', which is not a micro-VM share anchor ('' @
                         ANCHOR_HINT @ ''): the guest cannot mount '' @ mounted @ '' on the read-only rootfs '' @ em_dash @
                         '' place '' @ placed @ '' under one of those anchors'')))"

definition plan_checks :: "(rstr \<Rightarrow> rstr) \<Rightarrow> Fs \<Rightarrow> SandboxPolicy \<Rightarrow> SandboxError + unit" where
  "plan_checks dbg fs p =
     and_then (try_fold (\<lambda>q _. and_then (canonicalize_one dbg fs q)
                 (\<lambda>r. not_an_anchor (''fs_read path '' @ dbg q @ '' (resolves to '' @ dbg r @ '')'') ''it'' ''the shared dir'' r))
                 (fs_read p) ()) (\<lambda>_.
     and_then (guard_err (length (fs_write p) > 1)
                 (Backend (''micro-VM backend supports a single writable mountpoint per spawn, got '' @
                           show_nat (length (fs_write p)) @ '' fs_write paths''))) (\<lambda>_.
     and_then (case fs_write p of
                 [] \<Rightarrow> Ok () | mp # _ \<Rightarrow> not_an_anchor (''fs_write path '' @ dbg mp) ''the scratch drive'' ''the writable mountpoint'' mp) (\<lambda>_.
     (case persistent_store p of
        None \<Rightarrow> Ok ()
      | Some ps \<Rightarrow> not_an_anchor (''persistent_store guest_mount '' @ dbg (pst_guest_mount ps)) ''the persistent drive''
                     ''guest_mount'' (pst_guest_mount ps)))))"

definition plan_validate :: "(rstr \<Rightarrow> rstr) \<Rightarrow> SandboxPolicy \<Rightarrow> SandboxError + unit" where
  "plan_validate dbg p =
     and_then (try_fold (\<lambda>q _. validate_linux_bind_path dbg q ''policy'') (fs_read p @ fs_write p) ()) (\<lambda>_.
       case persistent_store p of
         None \<Rightarrow> Ok ()
       | Some ps \<Rightarrow> try_fold (\<lambda>q _. validate_linux_bind_path dbg q ''persistent_store'')
                      [pst_host_backing ps, pst_guest_mount ps] ())"

text \<open>The drive letters are handed out in the order read-only share, scratch, persistent store.\<close>

definition dev_name :: "nat \<Rightarrow> rstr" where
  "dev_name i = ''/dev/vd'' @ [char_of (code CHR ''b'' + i)]"

definition plan_drives :: "SandboxPolicy \<Rightarrow> RoShare option \<times> RwScratch option \<times> PersistentMount option" where
  "plan_drives p =
     (let ro = (if fs_read p = [] then None else Some \<lparr>ro_sources = fs_read p, ro_guest_dev = dev_name 0\<rparr>);
          n = (if fs_read p = [] then 0 else 1 :: nat);
          rw = (case fs_write p of [] \<Rightarrow> None | mp # _ \<Rightarrow> Some \<lparr>rw_mountpoint = mp, rw_guest_dev = dev_name n\<rparr>);
          m = (if fs_write p = [] then n else n + 1);
          pm = (case persistent_store p of
                  None \<Rightarrow> None | Some ps \<Rightarrow> Some \<lparr>pm_mountpoint = pst_guest_mount ps, pm_guest_dev = dev_name m\<rparr>)
      in (ro, rw, pm))"

definition ENV_EGRESS_UDS :: rstr where "ENV_EGRESS_UDS = ''KASTELLAN_EGRESS_PROXY_UDS''"

text \<open>\<^verbatim>\<open>env.iter_mut().find(|(k, _)| k == K)\<close>: the first pair with the key gets the value.\<close>

fun set_first :: "rstr \<Rightarrow> rstr \<Rightarrow> (rstr \<times> rstr) list \<Rightarrow> (rstr \<times> rstr) list option" where
  "set_first k v [] = None"
| "set_first k v ((k', v') # es) =
     (if k' = k then Some ((k', v) # es) else map_option (Cons (k', v')) (set_first k v es))"

definition plan_env :: "nat \<Rightarrow> SandboxPolicy \<Rightarrow> rstr option \<Rightarrow> (rstr \<times> rstr) list" where
  "plan_env euid p egress_host_uds =
     (let env = sp_env p;
          env = (case egress_host_uds of
                   None \<Rightarrow> env
                 | Some u \<Rightarrow> (case set_first ENV_EGRESS_UDS GUEST_EGRESS_UDS env of
                               Some e \<Rightarrow> e | None \<Rightarrow> env @ [(ENV_EGRESS_UDS, GUEST_EGRESS_UDS)]));
          env = (case broker_uds p of
                   None \<Rightarrow> env
                 | Some u \<Rightarrow> map (\<lambda>(k, v). (k, if v = u then GUEST_BROKER_UDS else v)) env);
          env = filter (\<lambda>(k, v). k \<noteq> ''KASTELLAN_MICROVM_DIR'' \<and> k \<noteq> ''KASTELLAN_MICROVM_ROOTFS'') env;
          env = (if list_ex (\<lambda>(k, v). k = LANDLOCK_PROFILE_ENV) env then env
                 else env @ [(LANDLOCK_PROFILE_ENV, LANDLOCK_PROFILE_NONE)])
      in if list_ex (\<lambda>(k, v). k = GUEST_WORKER_UID_ENV) env then env
         else env @ [(GUEST_WORKER_UID_ENV, show_nat euid)])"

definition opt_text :: "rstr option \<Rightarrow> rstr" where
  "opt_text o' = (case o' of None \<Rightarrow> [] | Some s \<Rightarrow> s)"

definition egress_tokens :: "SandboxPolicy \<Rightarrow> nat option \<Rightarrow> rstr" where
  "egress_tokens p egress_port =
     (if egress_port \<noteq> None
      then '' kastellan.egress=1'' @
           (if list_ex (\<lambda>(k, v). k = ''KASTELLAN_MICROVM_EGRESS_SELFTEST'' \<and> v = ''1'') (sp_env p)
            then '' kastellan.egress.selftest=1'' else [])
      else [])"

definition plan_boot_args ::
    "SandboxPolicy \<Rightarrow> nat option \<Rightarrow> rstr option \<Rightarrow> rstr option \<Rightarrow> rstr \<Rightarrow> rstr list \<Rightarrow> rstr" where
  "plan_boot_args p egress_port env_suffix mounts_suffix program args =
     BASE_BOOT_ARGS @ opt_text env_suffix @ opt_text mounts_suffix @ egress_tokens p egress_port @
     (if broker_uds p \<noteq> None then '' kastellan.broker=1'' else []) @
     '' '' @ WORKER_CMDLINE_KEY @ ''='' @ hex_encode program @ opt_text (encode_worker_args_cmdline args)"

definition rootfs_dir :: "FirecrackerImage \<Rightarrow> rstr" where
  "rootfs_dir im = (case path_parent (im_rootfs_path im) of None \<Rightarrow> ''/tmp'' | Some d \<Rightarrow> d)"

definition build_launch_plan ::
    "(rstr \<Rightarrow> rstr) \<Rightarrow> Fs \<Rightarrow> nat \<Rightarrow> SandboxPolicy \<Rightarrow> FirecrackerImage \<Rightarrow> rstr \<Rightarrow> rstr list \<Rightarrow>
     SandboxError + FirecrackerLaunchPlan" where
  "build_launch_plan dbg fs euid p im program args =
     and_then (plan_validate dbg p) (\<lambda>_.
     and_then (plan_net p) (\<lambda>(net_enabled, egress_port, egress_uds).
     and_then (plan_checks dbg fs p) (\<lambda>_.
     let (ro, rw, pm) = plan_drives p; env = plan_env euid p egress_uds in
     and_then (encode_env_cmdline dbg env) (\<lambda>env_suffix.
     and_then (encode_mount_manifest dbg ro rw pm) (\<lambda>mounts_suffix.
     let boot_args = plan_boot_args p egress_port env_suffix mounts_suffix program args in
     if length boot_args > MAX_CMDLINE_BYTES
     then Err (Backend (''kernel cmdline '' @ show_nat (length boot_args) @ '' bytes exceeds '' @
                        show_nat MAX_CMDLINE_BYTES @ ''-byte cap (worker env + mount manifest too large to forward)''))
     else Ok \<lparr>fp_kernel_path = im_kernel_path im, fp_rootfs_path = im_rootfs_path im,
              fp_vcpu_count = vcpus (cpu_quota_pct p), fp_mem_size_mib = max 1 (mem_mb p),
              fp_vsock_cid = WORKER_GUEST_CID, fp_vsock_uds = path_join (rootfs_dir im) ''worker-vsock.sock'',
              fp_vsock_port = WORKER_VSOCK_PORT, fp_boot_args = boot_args, fp_env = env,
              fp_net_enabled = net_enabled, fp_ro_share = ro, fp_rw_scratch = rw,
              fp_ro_image_path = map_option (\<lambda>_. path_join (rootfs_dir im) ''ro-share.ext4'') ro,
              fp_rw_image_path = map_option (\<lambda>_. path_join (rootfs_dir im) ''rw-scratch.ext4'') rw,
              fp_egress_proxy_vsock_port = egress_port, fp_egress_host_uds = egress_uds,
              fp_broker_vsock_port = map_option (\<lambda>_. BROKER_VSOCK_PORT) (broker_uds p),
              fp_broker_host_uds = broker_uds p, fp_persistent_store = persistent_store p,
              fp_persistent_image_path = None, fp_persistent_mount = pm\<rparr>)))))"

text \<open>A drive of the machine's configuration.\<close>

definition drive_json :: "rstr \<Rightarrow> rstr \<Rightarrow> bool \<Rightarrow> bool \<Rightarrow> json" where
  "drive_json drive path root ro =
     JObj [(''drive_id'', JStr drive), (''is_read_only'', JBool ro), (''is_root_device'', JBool root),
           (''path_on_host'', JStr path)]"

definition render_firecracker_config :: "FirecrackerLaunchPlan \<Rightarrow> json" where
  "render_firecracker_config plan =
     JObj ([(''boot-source'', JObj [(''boot_args'', JStr (fp_boot_args plan)),
                                    (''kernel_image_path'', JStr (fp_kernel_path plan))]),
            (''drives'', JArr ([drive_json ''rootfs'' (fp_rootfs_path plan) True True] @
               (case fp_ro_image_path plan of None \<Rightarrow> [] | Some i \<Rightarrow> [drive_json ''ro-share'' i False True]) @
               (case fp_rw_image_path plan of None \<Rightarrow> [] | Some i \<Rightarrow> [drive_json ''rw-scratch'' i False False]) @
               (case fp_persistent_image_path plan of
                  None \<Rightarrow> [] | Some i \<Rightarrow> [drive_json ''persistent-store'' i False False]))),
            (''machine-config'', JObj [(''mem_size_mib'', JInt (int (fp_mem_size_mib plan))),
                                       (''vcpu_count'', JInt (int (fp_vcpu_count plan)))])] @
           (if fp_net_enabled plan then [(''network-interfaces'', JArr [])] else []) @
           [(''vsock'', JObj [(''guest_cid'', JInt (int (fp_vsock_cid plan))), (''uds_path'', JStr (fp_vsock_uds plan))])])"

section \<open>The launcher and its jail\<close>

definition MICROVM_RUN_BIN :: rstr where "MICROVM_RUN_BIN = ''kastellan-microvm-run''"
definition DEFAULT_MICROVM_DIR :: rstr where "DEFAULT_MICROVM_DIR = ''/var/lib/kastellan/microvm''"
definition DEFAULT_ROOTFS_FILE :: rstr where "DEFAULT_ROOTFS_FILE = ''python-exec.ext4''"

definition env_value :: "(rstr \<times> rstr) list \<Rightarrow> rstr \<Rightarrow> rstr option" where
  "env_value env key =
     (case map_of env key of None \<Rightarrow> None | Some v \<Rightarrow> if trim v = [] then None else Some v)"

definition resolve_image :: "(rstr \<times> rstr) list \<Rightarrow> FirecrackerImage" where
  "resolve_image env =
     (let dir = (case env_value env ''KASTELLAN_MICROVM_DIR'' of None \<Rightarrow> DEFAULT_MICROVM_DIR | Some d \<Rightarrow> d);
          rootfs = (case env_value env ''KASTELLAN_MICROVM_ROOTFS'' of None \<Rightarrow> DEFAULT_ROOTFS_FILE | Some f \<Rightarrow> f)
      in \<lparr>im_kernel_path = path_join dir ''vmlinux'', im_rootfs_path = path_join dir rootfs\<rparr>)"

definition keep_run_dir_from_env :: "rstr option \<Rightarrow> bool" where
  "keep_run_dir_from_env flag =
     (case flag of
        None \<Rightarrow> False
      | Some s \<Rightarrow> to_ascii_lowercase (trim s) \<in> {''1'', ''true'', ''yes'', ''on''})"

record LauncherPaths =
  lp_config_path :: rstr
  lp_log_path :: rstr
  lp_run_dir :: rstr
  lp_keep_run_dir :: bool

definition launcher_argv :: "FirecrackerLaunchPlan \<Rightarrow> LauncherPaths \<Rightarrow> rstr list" where
  "launcher_argv plan paths =
     [MICROVM_RUN_BIN, ''--config-file'', lp_config_path paths, ''--vsock-uds'', fp_vsock_uds plan,
      ''--vsock-port'', show_nat (fp_vsock_port plan), ''--log'', lp_log_path paths, ''--run-dir'', lp_run_dir paths] @
     (case (fp_egress_host_uds plan, fp_egress_proxy_vsock_port plan) of
        (Some uds, Some port) \<Rightarrow> [''--egress-uds'', uds, ''--egress-vsock-port'', show_nat port]
      | _ \<Rightarrow> []) @
     (case (fp_broker_host_uds plan, fp_broker_vsock_port plan) of
        (Some uds, Some port) \<Rightarrow> [''--broker-uds'', uds, ''--broker-vsock-port'', show_nat port]
      | _ \<Rightarrow> []) @
     (case fp_persistent_image_path plan of None \<Rightarrow> [] | Some img \<Rightarrow> [''--persistent-image'', img]) @
     (if lp_keep_run_dir paths then [''--keep-run-dir''] else [])"

definition next_guest_cid :: "nat \<Rightarrow> nat \<Rightarrow> nat" where
  "next_guest_cid pid sq = 3 + ((pid * 64 + sq) mod 2 ^ 32) mod 0xfffffff0"

datatype VmmConfinement = NoConfinement | BwrapCgroup

definition confinement_from_env :: "rstr option \<Rightarrow> VmmConfinement" where
  "confinement_from_env flag =
     (case flag of
        None \<Rightarrow> BwrapCgroup
      | Some s \<Rightarrow> if to_ascii_lowercase (trim s) \<in> {''0'', ''false'', ''no'', ''off''}
                  then NoConfinement else BwrapCgroup)"

definition find_executable :: "(rstr \<Rightarrow> bool) \<Rightarrow> rstr \<Rightarrow> rstr option \<Rightarrow> rstr option" where
  "find_executable isfile name path_env =
     (case path_env of
        None \<Rightarrow> None
      | Some dirs \<Rightarrow>
          find isfile (map (\<lambda>dir. path_join dir name) (filter (\<lambda>d. d \<noteq> []) (split_char CHR '':'' dirs))))"

definition build_vmm_jail_argv ::
    "(rstr \<Rightarrow> rstr) \<Rightarrow> FirecrackerLaunchPlan \<Rightarrow> rstr \<Rightarrow> rstr \<Rightarrow> rstr \<Rightarrow> SandboxError + rstr list" where
  "build_vmm_jail_argv dbg plan run_dir firecracker_bin launcher_bin =
     (if \<not> is_absolute run_dir then Err (Backend (''vmm jail run_dir must be absolute, got '' @ dbg run_dir))
      else Ok ([''bwrap'', ''--unshare-all''] @ USERNS_LOCKDOWN_FLAGS @
               [''--die-with-parent'', ''--new-session'', ''--as-pid-1'', ''--clearenv''] @
               [''--proc'', ''/proc''] @ [''--dev'', ''/dev''] @
               [''--dev-bind'', ''/dev/kvm'', ''/dev/kvm''] @
               [''--dev-bind'', ''/dev/vhost-vsock'', ''/dev/vhost-vsock''] @ [''--tmpfs'', ''/tmp''] @
               [''--ro-bind'', ''/usr'', ''/usr''] @ [''--symlink'', ''usr/bin'', ''/bin''] @
               [''--symlink'', ''usr/sbin'', ''/sbin''] @ [''--symlink'', ''usr/lib'', ''/lib''] @
               [''--symlink'', ''usr/lib64'', ''/lib64''] @
               [''--ro-bind-try'', ''/etc/ld.so.cache'', ''/etc/ld.so.cache''] @
               concat (map (\<lambda>q. [''--ro-bind'', q, q])
                 [fp_kernel_path plan, fp_rootfs_path plan, firecracker_bin, launcher_bin]) @
               [''--bind'', run_dir, run_dir] @
               (case fp_egress_host_uds plan of None \<Rightarrow> [] | Some s \<Rightarrow> [''--bind'', s, s]) @
               (case fp_broker_host_uds plan of None \<Rightarrow> [] | Some s \<Rightarrow> [''--bind'', s, s]) @
               (case fp_persistent_image_path plan of None \<Rightarrow> [] | Some s \<Rightarrow> [''--bind'', s, s]) @
               [''--'']))"

definition build_confined_spawn_argv ::
    "(rstr \<Rightarrow> rstr) \<Rightarrow> SandboxPolicy \<Rightarrow> FirecrackerLaunchPlan \<Rightarrow> rstr \<Rightarrow> rstr \<Rightarrow> LauncherPaths \<Rightarrow>
     SandboxError + rstr list" where
  "build_confined_spawn_argv dbg p plan firecracker_bin launcher_bin paths =
     and_then (build_vmm_jail_argv dbg plan (lp_run_dir paths) firecracker_bin launcher_bin) (\<lambda>jail.
       Ok (build_systemd_run_argv p @ jail @
           launcher_bin # tl (launcher_argv plan paths) @ [''--firecracker-bin'', firecracker_bin]))"

end
