(* ===== verification/Guest_Init.thy ===== *)
theory Guest_Init
  imports Micro_Vm
begin

text \<open>
  \<^verbatim>\<open>workers/microvm-init/src/cmdline.rs\<close>: what the first process of a micro-VM guest reads from its kernel
  command line, and the paths it hands to the worker before it drops root. The second part shows that the
  guest reads back what \<open>build_launch_plan\<close> wrote.
\<close>

section \<open>Reading the command line\<close>

definition nibble :: "char \<Rightarrow> nat option" where
  "nibble b =
     (if code CHR ''0'' \<le> code b \<and> code b \<le> code CHR ''9'' then Some (code b - code CHR ''0'')
      else if code CHR ''a'' \<le> code b \<and> code b \<le> code CHR ''f'' then Some (code b - code CHR ''a'' + 10)
      else if code CHR ''A'' \<le> code b \<and> code b \<le> code CHR ''F'' then Some (code b - code CHR ''A'' + 10)
      else None)"

fun hex_pairs :: "rstr \<Rightarrow> rstr option" where
  "hex_pairs (a # b # r) =
     (case (nibble a, nibble b) of
        (Some h, Some l) \<Rightarrow> map_option (Cons (char_of (16 * h + l))) (hex_pairs r)
      | _ \<Rightarrow> None)"
| "hex_pairs _ = Some []"

definition hex_decode :: "rstr \<Rightarrow> rstr option" where
  "hex_decode s = (if length s mod 2 \<noteq> 0 then None else hex_pairs s)"

definition cmdline_token :: "rstr \<Rightarrow> rstr \<Rightarrow> rstr option" where
  "cmdline_token key cmdline = find_map (\<lambda>t. strip_prefix t (key @ ''='')) (split_whitespace cmdline)"

definition parse_env_cmdline :: "rstr \<Rightarrow> rstr + (rstr \<times> rstr) list" where
  "parse_env_cmdline cmdline =
     (case cmdline_token ENV_CMDLINE_KEY cmdline of
        None \<Rightarrow> Ok []
      | Some token \<Rightarrow>
          (case hex_decode token of
             None \<Rightarrow> Err (ENV_CMDLINE_KEY @ ''= token is not valid hex ('' @ show_nat (length token) @ '' chars)'')
           | Some block \<Rightarrow>
               if \<not> utf8_valid block then Err (ENV_CMDLINE_KEY @ ''= token is not valid UTF-8'')
               else Ok (List.map_filter (split_once CHR ''='') (split_char NL block))))"

definition parse_worker_cmdline :: "rstr \<Rightarrow> rstr option" where
  "parse_worker_cmdline cmdline =
     (case cmdline_token WORKER_CMDLINE_KEY cmdline of
        None \<Rightarrow> None
      | Some token \<Rightarrow>
          (case hex_decode token of
             None \<Rightarrow> None
           | Some s \<Rightarrow> if utf8_valid s \<and> s \<noteq> [] then Some s else None))"

fun decode_parts :: "rstr list \<Rightarrow> rstr list option" where
  "decode_parts [] = Some []"
| "decode_parts (p # ps) =
     (case hex_decode p of
        None \<Rightarrow> None
      | Some s \<Rightarrow> if utf8_valid s then map_option (Cons s) (decode_parts ps) else None)"

definition parse_worker_args_cmdline :: "rstr \<Rightarrow> rstr list" where
  "parse_worker_args_cmdline cmdline =
     (case cmdline_token WORKER_ARGS_CMDLINE_KEY cmdline of
        None \<Rightarrow> []
      | Some token \<Rightarrow>
          if token = [] then []
          else (case decode_parts (split_char CHR '','' token) of None \<Rightarrow> [] | Some out \<Rightarrow> out))"

record EgressConfig =
  ec_enabled :: bool
  ec_selftest :: bool

definition parse_egress_config :: "rstr \<Rightarrow> EgressConfig" where
  "parse_egress_config cmdline =
     \<lparr>ec_enabled = (''kastellan.egress=1'' \<in> set (split_whitespace cmdline)),
      ec_selftest = (''kastellan.egress.selftest=1'' \<in> set (split_whitespace cmdline))\<rparr>"

definition parse_broker_config :: "rstr \<Rightarrow> bool" where
  "parse_broker_config cmdline = (''kastellan.broker=1'' \<in> set (split_whitespace cmdline))"

record MountManifest =
  mm_ro :: "(rstr \<times> rstr list) option"
  mm_rw :: "(rstr \<times> rstr) list"

definition no_mounts :: MountManifest where "no_mounts = \<lparr>mm_ro = None, mm_rw = []\<rparr>"

definition manifest_line :: "rstr \<Rightarrow> MountManifest \<Rightarrow> MountManifest" where
  "manifest_line line m =
     (case split_char TAB line of
        kind # fs \<Rightarrow>
          if kind = ''ro'' then
            (case fs of
               dev # targets \<Rightarrow> if targets \<noteq> [] then m\<lparr>mm_ro := Some (dev, targets)\<rparr> else m
             | [] \<Rightarrow> m)
          else if kind = ''rw'' then
            (case fs of dev # mp # _ \<Rightarrow> m\<lparr>mm_rw := mm_rw m @ [(dev, mp)]\<rparr> | _ \<Rightarrow> m)
          else m
      | [] \<Rightarrow> m)"

definition parse_mount_manifest :: "rstr \<Rightarrow> MountManifest" where
  "parse_mount_manifest cmdline =
     (case cmdline_token MOUNTS_CMDLINE_KEY cmdline of
        None \<Rightarrow> no_mounts
      | Some token \<Rightarrow>
          (case hex_decode token of
             None \<Rightarrow> no_mounts
           | Some block \<Rightarrow>
               if utf8_valid block then fold manifest_line (split_char NL block) no_mounts else no_mounts))"

definition anchor_of :: "rstr \<Rightarrow> rstr option" where
  "anchor_of path =
     (let first = hd (split_char CHR ''/'' (dropWhile (\<lambda>c. c = CHR ''/'') path)) in
      if first = [] \<or> first = ''tmp'' then None else Some (''/'' @ first))"

datatype OwnedPathRole = WritablePath | RelaySocket

fun chown_failure_is_fatal :: "OwnedPathRole \<Rightarrow> bool" where
  "chown_failure_is_fatal WritablePath = False"
| "chown_failure_is_fatal RelaySocket = True"

definition worker_owned_paths :: "rstr \<Rightarrow> (rstr \<times> OwnedPathRole) list" where
  "worker_owned_paths cmdline =
     (let m = parse_mount_manifest cmdline in
      map (\<lambda>rw. (snd rw, WritablePath)) (mm_rw m) @ [(''/tmp'', WritablePath)] @
      List.map_filter (\<lambda>rw. map_option (\<lambda>a. (a, WritablePath)) (anchor_of (snd rw))) (mm_rw m) @
      (if ec_enabled (parse_egress_config cmdline) then [(GUEST_EGRESS_UDS, RelaySocket)] else []) @
      (if parse_broker_config cmdline then [(GUEST_BROKER_UDS, RelaySocket)] else []))"

datatype BindPrep = PrepDir | PrepFile | PrepSkip

definition bind_prep :: "bool \<Rightarrow> bool \<Rightarrow> BindPrep" where
  "bind_prep src_is_dir src_is_file = (if src_is_dir then PrepDir else if src_is_file then PrepFile else PrepSkip)"

section \<open>Hexadecimal round trip\<close>

lemma nibble_HEX: "n < 16 \<Longrightarrow> nibble (HEX ! n) = Some n"
proof -
  have "list_all (\<lambda>n. nibble (HEX ! n) = Some n) [0..<16]"
    by (simp add: HEX_def nibble_def code_def upt_rec)
  then show "n < 16 \<Longrightarrow> nibble (HEX ! n) = Some n" by (simp add: list_all_iff)
qed

lemma HEX_graph: "n < 16 \<Longrightarrow> graph_char (HEX ! n) \<and> HEX ! n \<noteq> CHR '',''"
proof -
  have "list_all (\<lambda>n. graph_char (HEX ! n) \<and> HEX ! n \<noteq> CHR '','') [0..<16]"
    by (simp add: HEX_def graph_char_def code_def upt_rec)
  then show "n < 16 \<Longrightarrow> graph_char (HEX ! n) \<and> HEX ! n \<noteq> CHR '',''" by (simp add: list_all_iff)
qed

lemma nibbles_bound: "code c div 16 < 16" "code c mod 16 < 16"
  using code_less_256 [of c] by (simp_all add: less_mult_imp_div_less)

lemma char_of_code: "char_of (code c) = c"
  by (simp add: code_def)

lemma hex_encode_Cons: "hex_encode (c # s) = HEX ! (code c div 16) # HEX ! (code c mod 16) # hex_encode s"
  by (simp add: hex_encode_def)

lemma hex_encode_Nil [simp]: "hex_encode [] = []"
  by (simp add: hex_encode_def)

lemma hex_pairs_encode: "hex_pairs (hex_encode s) = Some s"
  by (induction s) (simp_all add: hex_encode_Cons nibble_HEX nibbles_bound char_of_code)

lemma length_hex_encode: "length (hex_encode s) = 2 * length s"
  by (induction s) (simp_all add: hex_encode_Cons)

lemma hex_decode_encode [simp]: "hex_decode (hex_encode s) = Some s"
  by (simp add: hex_decode_def length_hex_encode hex_pairs_encode)

lemma hex_encode_chars: "c \<in> set (hex_encode s) \<Longrightarrow> graph_char c \<and> c \<noteq> CHR '',''"
  by (induction s) (auto simp: hex_encode_Cons HEX_graph nibbles_bound)

section \<open>The tokens of a launch plan\<close>

text \<open>A command line of \<open>key=value\<close> words with single spaces between them.\<close>

definition token_ok :: "rstr \<times> rstr \<Rightarrow> bool" where
  "token_ok kv \<longleftrightarrow> list_all graph_char (fst kv) \<and> list_all graph_char (snd kv) \<and> CHR ''='' \<notin> set (fst kv)"

definition word :: "rstr \<times> rstr \<Rightarrow> rstr" where
  "word kv = fst kv @ ''='' @ snd kv"

definition line_of :: "(rstr \<times> rstr) list \<Rightarrow> rstr" where
  "line_of kvs = word (hd kvs) @ concat (map (\<lambda>kv. CHR '' '' # word kv) (tl kvs))"

lemma split_line:
  assumes "kvs \<noteq> []" and "list_all token_ok kvs"
  shows "split_whitespace (line_of kvs) = map word kvs"
proof -
  have "list_all (\<lambda>w. w \<noteq> [] \<and> list_all graph_char w) (map word kvs)"
    using assms(2) by (auto simp: list_all_iff token_ok_def word_def graph_char_def code_def)
  then show ?thesis
    using assms(1) split_whitespace_words [of "word (hd kvs)" "map word (tl kvs)"]
    by (cases kvs) (auto simp: line_of_def comp_def)
qed

lemma strip_word:
  assumes "token_ok kv" and "CHR ''='' \<notin> set key"
  shows "strip_prefix (word kv) (key @ ''='') = (if fst kv = key then Some (snd kv) else None)"
proof (cases "strip_prefix (word kv) (key @ ''='')")
  case None
  then show ?thesis by (auto simp: strip_prefix_None_iff starts_with_iff word_def)
next
  case (Some v)
  then have "fst kv @ CHR ''='' # snd kv = key @ CHR ''='' # v" by (simp add: strip_prefix_Some_iff word_def)
  then have "fst kv = key \<and> snd kv = v"
    using assms by (auto simp: token_ok_def append_eq_append_conv2 Cons_eq_append_conv append_eq_Cons_conv)
  then show ?thesis using Some by simp
qed

lemma cmdline_token_line:
  assumes "kvs \<noteq> []" and "list_all token_ok kvs" and "CHR ''='' \<notin> set key"
  shows "cmdline_token key (line_of kvs) = map_of kvs key"
proof -
  have "find_map (\<lambda>t. strip_prefix t (key @ ''='')) (map word kvs) = map_of kvs key"
    using assms(2) by (induction kvs) (auto simp: strip_word [OF _ assms(3)])
  then show ?thesis by (simp add: cmdline_token_def split_line assms)
qed

lemma word_in_line:
  assumes "list_all token_ok kvs" and "CHR ''='' \<notin> set k"
  shows "k @ CHR ''='' # v \<in> set (map word kvs) \<longleftrightarrow> (k, v) \<in> set kvs"
proof
  assume "k @ CHR ''='' # v \<in> set (map word kvs)"
  then obtain kv where kv: "kv \<in> set kvs" "word kv = (k @ ''='') @ v" by auto
  have "strip_prefix (word kv) (k @ ''='') = Some v" using kv by (simp add: strip_prefix_Some_iff)
  then have "kv = (k, v)" using strip_word [OF _ assms(2), of kv] assms(1) kv(1)
    by (cases kv) (auto simp: list_all_iff split: if_splits)
  then show "(k, v) \<in> set kvs" using kv(1) by simp
next
  assume "(k, v) \<in> set kvs"
  then show "k @ CHR ''='' # v \<in> set (map word kvs)" by (force simp: word_def)
qed

text \<open>The words of the plan's command line, from the blocks it carries.\<close>

definition base_tokens :: "(rstr \<times> rstr) list" where
  "base_tokens = [(''console'', ''ttyS0''), (''reboot'', ''k''), (''panic'', ''1''), (''pci'', ''off''),
     (''i8042.noaux'', ''1''), (''i8042.nomux'', ''1'')]"

definition plan_tokens ::
    "rstr \<Rightarrow> rstr option \<Rightarrow> bool \<Rightarrow> bool \<Rightarrow> bool \<Rightarrow> rstr \<Rightarrow> rstr list \<Rightarrow> (rstr \<times> rstr) list" where
  "plan_tokens env_block mounts_block egress selftest broker program args =
     base_tokens @ [(ENV_CMDLINE_KEY, hex_encode env_block)] @
     (case mounts_block of None \<Rightarrow> [] | Some b \<Rightarrow> [(MOUNTS_CMDLINE_KEY, hex_encode b)]) @
     (if egress then [(''kastellan.egress'', ''1'')] else []) @
     (if egress \<and> selftest then [(''kastellan.egress.selftest'', ''1'')] else []) @
     (if broker then [(''kastellan.broker'', ''1'')] else []) @
     [(WORKER_CMDLINE_KEY, hex_encode program)] @
     (if args = [] then [] else [(WORKER_ARGS_CMDLINE_KEY, join_with '','' (map hex_encode args))])"

lemmas cmdline_keys = ENV_CMDLINE_KEY_def MOUNTS_CMDLINE_KEY_def WORKER_CMDLINE_KEY_def WORKER_ARGS_CMDLINE_KEY_def

lemma args_chars: "c \<in> set (join_with '','' (map hex_encode args)) \<Longrightarrow> graph_char c"
  using join_with_set [of c "'',''" "map hex_encode args"] hex_encode_chars
  by (auto simp: graph_char_def code_def)

lemma plan_tokens_ok: "list_all token_ok (plan_tokens e m eg st b program args)"
proof -
  have base: "list_all token_ok base_tokens"
    by (simp add: base_tokens_def token_ok_def graph_char_def code_def)
  have hex: "list_all graph_char (hex_encode s)" "list_all graph_char (join_with '','' (map hex_encode args))" for s
    using hex_encode_chars args_chars by (auto simp: list_all_iff)
  have key: "list_all graph_char k \<and> CHR ''='' \<notin> set k"
    if "k \<in> {ENV_CMDLINE_KEY, MOUNTS_CMDLINE_KEY, WORKER_CMDLINE_KEY, WORKER_ARGS_CMDLINE_KEY,
              ''kastellan.egress'', ''kastellan.egress.selftest'', ''kastellan.broker''}" for k
    using that by (auto simp: cmdline_keys graph_char_def code_def)
  show ?thesis
    using base key hex by (auto simp: plan_tokens_def token_ok_def graph_char_def code_def split: option.splits)
qed

lemma base_line: "BASE_BOOT_ARGS = line_of base_tokens"
  by (simp add: BASE_BOOT_ARGS_def line_of_def base_tokens_def word_def)

lemma line_of_append: "kvs \<noteq> [] \<Longrightarrow> line_of (kvs @ r) = line_of kvs @ concat (map (\<lambda>kv. CHR '' '' # word kv) r)"
  by (cases kvs) (auto simp: line_of_def)

section \<open>What a launch plan carries\<close>

definition env_block :: "(rstr \<times> rstr) list \<Rightarrow> rstr" where
  "env_block env = join_with [NL] (map (\<lambda>(k, v). k @ ''='' @ v) env)"

definition rw_fields :: "(rstr \<times> rstr) option \<Rightarrow> rstr list list" where
  "rw_fields rw = (case rw of None \<Rightarrow> [] | Some (dev, mp) \<Rightarrow> [[''rw'', dev, mp]])"

text \<open>The lines of the manifest, as their fields.\<close>

definition plan_lines :: "FirecrackerLaunchPlan \<Rightarrow> rstr list list" where
  "plan_lines plan =
     (case fp_ro_share plan of None \<Rightarrow> [] | Some r \<Rightarrow> [[''ro'', ro_guest_dev r] @ ro_sources r]) @
     rw_fields (map_option (\<lambda>r. (rw_guest_dev r, rw_mountpoint r)) (fp_rw_scratch plan)) @
     rw_fields (map_option (\<lambda>r. (pm_guest_dev r, pm_mountpoint r)) (fp_persistent_mount plan))"

definition mounts_block :: "FirecrackerLaunchPlan \<Rightarrow> rstr option" where
  "mounts_block plan =
     (if plan_lines plan = [] then None else Some (join_with [NL] (map (join_with [TAB]) (plan_lines plan))))"

lemma plan_env_nonempty: "plan_env euid p u \<noteq> []"
  by (auto simp: plan_env_def Let_def)

lemma encode_env_Ok:
  assumes "encode_env_cmdline dbg env = Ok token" and "env \<noteq> []"
  shows "token = Some (CHR '' '' # word (ENV_CMDLINE_KEY, hex_encode (env_block env)))"
    and "\<And>kv. kv \<in> set env \<Longrightarrow> \<not> bad_env_pair kv"
  using assms by (auto simp: encode_env_cmdline_def env_block_def word_def find_None_iff split: option.splits prod.splits)

lemma guard_Ok: "manifest_guard dbg s = Ok u \<longleftrightarrow> TAB \<notin> set s \<and> NL \<notin> set s"
  by (auto simp: manifest_guard_def)

lemma ro_line_Ok:
  "ro_line dbg ro = Ok a \<Longrightarrow>
   a = map (join_with [TAB]) (case ro of None \<Rightarrow> [] | Some r \<Rightarrow> [[''ro'', ro_guest_dev r] @ ro_sources r]) \<and>
   (\<forall>r s. ro = Some r \<longrightarrow> s \<in> set (ro_sources r) \<longrightarrow> TAB \<notin> set s \<and> NL \<notin> set s)"
  by (auto simp: ro_line_def and_then_Ok_iff guard_Ok dest: try_fold_checks split: option.splits)

lemma rw_line_Ok:
  "rw_line dbg rw = Ok b \<Longrightarrow>
   b = map (join_with [TAB]) (rw_fields rw) \<and>
   (\<forall>d m. rw = Some (d, m) \<longrightarrow> TAB \<notin> set m \<and> NL \<notin> set m)"
  by (auto simp: rw_line_def rw_fields_def and_then_Ok_iff guard_Ok split: option.splits prod.splits)

lemma dev_names: "dev_name 0 = ''/dev/vdb''" "dev_name (Suc 0) = ''/dev/vdc''" "dev_name (Suc (Suc 0)) = ''/dev/vdd''"
  by code_simp+

definition drive_devs :: "rstr set" where "drive_devs = {''/dev/vdb'', ''/dev/vdc'', ''/dev/vdd''}"

lemma drive_dev_chars: "d \<in> drive_devs \<Longrightarrow> TAB \<notin> set d \<and> NL \<notin> set d \<and> list_all is_ascii d"
  by (auto simp: drive_devs_def TAB_def NL_def is_ascii_def code_def)

lemma plan_drive_devs:
  assumes "plan_drives p = (ro, rw, pm)"
  shows "\<And>r. ro = Some r \<Longrightarrow> ro_guest_dev r \<in> drive_devs"
    and "\<And>r. rw = Some r \<Longrightarrow> rw_guest_dev r \<in> drive_devs"
    and "\<And>r. pm = Some r \<Longrightarrow> pm_guest_dev r \<in> drive_devs"
  using assms
  by (auto simp: plan_drives_def Let_def dev_names drive_devs_def split: list.splits option.splits if_splits)

lemma plan_cases:
  assumes "build_launch_plan dbg fs euid p im program args = Ok plan"
  obtains "plan_net p = Ok (fp_net_enabled plan, fp_egress_proxy_vsock_port plan, fp_egress_host_uds plan)"
    and "plan_validate dbg p = Ok ()" and "plan_checks dbg fs p = Ok ()"
    and "fp_env plan = plan_env euid p (fp_egress_host_uds plan)"
    and "plan_drives p = (fp_ro_share plan, fp_rw_scratch plan, fp_persistent_mount plan)"
    and "fp_broker_host_uds plan = broker_uds p"
    and "\<And>kv. kv \<in> set (fp_env plan) \<Longrightarrow> \<not> bad_env_pair kv"
    and "\<And>l s. l \<in> set (plan_lines plan) \<Longrightarrow> s \<in> set l \<Longrightarrow> TAB \<notin> set s \<and> NL \<notin> set s"
    and "fp_boot_args plan = line_of (plan_tokens (env_block (fp_env plan)) (mounts_block plan)
           (fp_egress_proxy_vsock_port plan \<noteq> None)
           (list_ex (\<lambda>(k, v). k = ''KASTELLAN_MICROVM_EGRESS_SELFTEST'' \<and> v = ''1'') (sp_env p))
           (broker_uds p \<noteq> None) program args)"
    and "length (fp_boot_args plan) \<le> MAX_CMDLINE_BYTES"
proof -
  obtain x where x: "plan_net p = Ok x" and v: "plan_validate dbg p = Ok ()" and c: "plan_checks dbg fs p = Ok ()"
    using assms by (auto simp: build_launch_plan_def and_then_Ok_iff)
  obtain ne ep eu where x': "x = (ne, ep, eu)" by (cases x)
  obtain ro rw pm where d': "plan_drives p = (ro, rw, pm)" by (cases "plan_drives p")
  from assms obtain env_suffix mounts_suffix where
    n: "plan_net p = Ok (fp_net_enabled plan, fp_egress_proxy_vsock_port plan, fp_egress_host_uds plan)"
    and e: "fp_env plan = plan_env euid p (fp_egress_host_uds plan)"
    and d: "plan_drives p = (fp_ro_share plan, fp_rw_scratch plan, fp_persistent_mount plan)"
    and b: "fp_broker_host_uds plan = broker_uds p"
    and es: "encode_env_cmdline dbg (fp_env plan) = Ok env_suffix"
    and ms: "encode_mount_manifest dbg (fp_ro_share plan) (fp_rw_scratch plan) (fp_persistent_mount plan) = Ok mounts_suffix"
    and ba: "fp_boot_args plan = plan_boot_args p (fp_egress_proxy_vsock_port plan) env_suffix mounts_suffix program args"
    and len: "length (fp_boot_args plan) \<le> MAX_CMDLINE_BYTES"
    unfolding build_launch_plan_def x x' v c and_then_simps prod.case Let_def d'
    by (auto simp: and_then_Ok_iff not_less split: if_splits)
  note env = encode_env_Ok [OF es]
  have ne: "fp_env plan \<noteq> []" using e plan_env_nonempty by simp
  obtain a b' c' where lines: "ro_line dbg (fp_ro_share plan) = Ok a"
    "rw_line dbg (map_option (\<lambda>r. (rw_guest_dev r, rw_mountpoint r)) (fp_rw_scratch plan)) = Ok b'"
    "rw_line dbg (map_option (\<lambda>r. (pm_guest_dev r, pm_mountpoint r)) (fp_persistent_mount plan)) = Ok c'"
    and mo: "plan_lines plan \<noteq> [] \<Longrightarrow>
         mounts_suffix = Some ('' '' @ MOUNTS_CMDLINE_KEY @ ''='' @ hex_encode (join_with [NL] (a @ b' @ c')))"
    and mn: "plan_lines plan = [] \<Longrightarrow> mounts_suffix = None"
  proof (cases "fp_ro_share plan = None \<and> fp_rw_scratch plan = None \<and> fp_persistent_mount plan = None")
    case True
    then show thesis using ms that [of "[]" "[]" "[]"]
      by (simp add: encode_mount_manifest_def ro_line_def rw_line_def plan_lines_def rw_fields_def)
  next
    case False
    then show thesis using ms that
      by (auto simp: encode_mount_manifest_def and_then_Ok_iff plan_lines_def rw_fields_def split: option.splits)
  qed
  note ro = ro_line_Ok [OF lines(1)] and rw = rw_line_Ok [OF lines(2)] and pm = rw_line_Ok [OF lines(3)]
  have abc: "a @ b' @ c' = map (join_with [TAB]) (plan_lines plan)"
    using ro rw pm by (simp add: plan_lines_def)
  have mt: "opt_text mounts_suffix =
      concat (map (\<lambda>kv. CHR '' '' # word kv) (case mounts_block plan of None \<Rightarrow> [] | Some b \<Rightarrow> [(MOUNTS_CMDLINE_KEY, hex_encode b)]))"
    using mo mn by (cases "plan_lines plan = []") (simp_all add: mounts_block_def opt_text_def word_def abc)
  have sep: "TAB \<notin> set s \<and> NL \<notin> set s" if "l \<in> set (plan_lines plan)" "s \<in> set l" for l s
    using that ro rw pm plan_drive_devs [OF d, THEN drive_dev_chars] unfolding plan_lines_def rw_fields_def
    by (auto simp: TAB_def NL_def split: option.splits)
  have "fp_boot_args plan = line_of (plan_tokens (env_block (fp_env plan)) (mounts_block plan)
           (fp_egress_proxy_vsock_port plan \<noteq> None)
           (list_ex (\<lambda>(k, v). k = ''KASTELLAN_MICROVM_EGRESS_SELFTEST'' \<and> v = ''1'') (sp_env p))
           (broker_uds p \<noteq> None) program args)"
    unfolding ba plan_boot_args_def base_line plan_tokens_def mt env(1) [OF ne]
    by (subst line_of_append) (simp_all add: base_tokens_def opt_text_def egress_tokens_def word_def
        encode_worker_args_cmdline_def)
  then show thesis by (intro that n v c e d b len) (use env(2) [OF ne] sep in blast)+
qed


section \<open>The guest reads back the plan\<close>

lemma utf8_join:
  "utf8_valid sep \<Longrightarrow> list_all utf8_valid ss \<Longrightarrow> utf8_valid (join_with sep ss)"
  by (induction sep ss rule: join_with.induct) (auto intro!: utf8_valid_append)

definition env_text_ok :: "(rstr \<times> rstr) list \<Rightarrow> bool" where
  "env_text_ok env = list_all (\<lambda>(k, v). utf8_valid k \<and> utf8_valid v) env"

lemma utf8_sep: "utf8_valid [NL]" "utf8_valid [TAB]" "utf8_valid ''=''"
  by (rule utf8_valid_ascii, simp add: NL_def TAB_def is_ascii_def code_def)+

lemma utf8_env_block:
  assumes "env_text_ok env" shows "utf8_valid (env_block env)"
proof -
  have "utf8_valid (k @ ''='' @ v)" if "(k, v) \<in> set env" for k v
    using assms that utf8_sep(3) by (intro utf8_valid_append) (auto simp: env_text_ok_def list_all_iff)
  then show ?thesis unfolding env_block_def by (intro utf8_join utf8_sep) (auto simp: list_all_iff)
qed

lemma read_env_block:
  assumes "env \<noteq> []" and "\<And>kv. kv \<in> set env \<Longrightarrow> \<not> bad_env_pair kv"
  shows "List.map_filter (split_once CHR ''='') (split_char NL (env_block env)) = env"
proof -
  have "split_char NL (env_block env) = map (\<lambda>(k, v). k @ ''='' @ v) env"
    unfolding env_block_def
    by (rule split_join) (use assms in \<open>auto simp: list_all_iff bad_env_pair_def NL_def\<close>)
  moreover have "split_once CHR ''='' (k @ ''='' @ v) = Some (k, v)" if "(k, v) \<in> set env" for k v
    using assms(2) [OF that] by (simp add: split_once_Some bad_env_pair_def)
  ultimately show ?thesis by (simp add: List.map_filter_def comp_def case_prod_unfold map_idI)
qed

definition plan_manifest :: "FirecrackerLaunchPlan \<Rightarrow> MountManifest" where
  "plan_manifest plan =
     \<lparr>mm_ro = map_option (\<lambda>r. (ro_guest_dev r, ro_sources r)) (fp_ro_share plan),
      mm_rw = (case fp_rw_scratch plan of None \<Rightarrow> [] | Some r \<Rightarrow> [(rw_guest_dev r, rw_mountpoint r)]) @
              (case fp_persistent_mount plan of None \<Rightarrow> [] | Some r \<Rightarrow> [(pm_guest_dev r, pm_mountpoint r)])\<rparr>"

definition line_fields :: "rstr list \<Rightarrow> MountManifest \<Rightarrow> MountManifest" where
  "line_fields fs m = manifest_line (join_with [TAB] fs) m"

lemma fold_manifest_lines:
  assumes "ls \<noteq> []" and "\<And>l s. l \<in> set ls \<Longrightarrow> s \<in> set l \<Longrightarrow> TAB \<notin> set s \<and> NL \<notin> set s"
  shows "fold manifest_line (split_char NL (join_with [NL] (map (join_with [TAB]) ls))) m = fold line_fields ls m"
proof -
  have "NL \<notin> set (join_with [TAB] l)" if "l \<in> set ls" for l
    using join_with_set [of NL "[TAB]" l] assms(2) [OF that] by (auto simp: TAB_def NL_def)
  then have "split_char NL (join_with [NL] (map (join_with [TAB]) ls)) = map (join_with [TAB]) ls"
    using assms(1) by (intro split_join) (auto simp: list_all_iff)
  then show ?thesis by (simp add: fold_map comp_def line_fields_def [abs_def])
qed

lemma manifest_line_fields:
  "l \<noteq> [] \<Longrightarrow> (\<And>s. s \<in> set l \<Longrightarrow> TAB \<notin> set s) \<Longrightarrow> split_char TAB (join_with [TAB] l) = l"
  by (intro split_join) (auto simp: list_all_iff)

lemma plan_drives_sources: "plan_drives p = (Some r, rw, pm) \<Longrightarrow> ro_sources r \<noteq> []"
  by (auto simp: plan_drives_def Let_def split: if_splits)

lemma read_plan_lines:
  assumes d: "plan_drives p = (fp_ro_share plan, fp_rw_scratch plan, fp_persistent_mount plan)"
    and sep: "\<And>l s. l \<in> set (plan_lines plan) \<Longrightarrow> s \<in> set l \<Longrightarrow> TAB \<notin> set s \<and> NL \<notin> set s"
  shows "fold line_fields (plan_lines plan) no_mounts = plan_manifest plan"
proof -
  have fields: "split_char TAB (join_with [TAB] l) = l" if "l \<in> set (plan_lines plan)" "l \<noteq> []" for l
    using that sep by (intro manifest_line_fields) auto
  have ro: "line_fields ([''ro'', ro_guest_dev r] @ ro_sources r) m = m\<lparr>mm_ro := Some (ro_guest_dev r, ro_sources r)\<rparr>"
    if "fp_ro_share plan = Some r" for r m
    using fields [of "[''ro'', ro_guest_dev r] @ ro_sources r"] that plan_drives_sources d
    by (auto simp: plan_lines_def line_fields_def manifest_line_def)
  have rw: "line_fields [''rw'', dev, mp] m = m\<lparr>mm_rw := mm_rw m @ [(dev, mp)]\<rparr>"
    if "[''rw'', dev, mp] \<in> set (plan_lines plan)" for dev mp m
    using fields [OF that] by (simp add: line_fields_def manifest_line_def)
  show ?thesis
    using ro rw
    by (cases "fp_ro_share plan"; cases "fp_rw_scratch plan"; cases "fp_persistent_mount plan")
       (simp_all add: plan_lines_def rw_fields_def plan_manifest_def no_mounts_def)
qed

section \<open>Looking up the tokens of a plan\<close>

lemma plan_tokens_lookup:
  "map_of (plan_tokens e m eg st b program args) ENV_CMDLINE_KEY = Some (hex_encode e)"
  "map_of (plan_tokens e m eg st b program args) MOUNTS_CMDLINE_KEY = map_option hex_encode m"
  "map_of (plan_tokens e m eg st b program args) WORKER_CMDLINE_KEY = Some (hex_encode program)"
  "map_of (plan_tokens e m eg st b program args) WORKER_ARGS_CMDLINE_KEY =
     (if args = [] then None else Some (join_with '','' (map hex_encode args)))"
  by (simp_all add: plan_tokens_def base_tokens_def cmdline_keys split: option.split)

lemma plan_tokens_flags:
  "(''kastellan.egress'', ''1'') \<in> set (plan_tokens e m eg st b program args) \<longleftrightarrow> eg"
  "(''kastellan.broker'', ''1'') \<in> set (plan_tokens e m eg st b program args) \<longleftrightarrow> b"
  by (auto simp: plan_tokens_def base_tokens_def cmdline_keys split: option.splits if_splits)

lemma plan_tokens_nonempty: "plan_tokens e m eg st b program args \<noteq> []"
  by (simp add: plan_tokens_def base_tokens_def)

lemma key_no_eq:
  "CHR ''='' \<notin> set ENV_CMDLINE_KEY" "CHR ''='' \<notin> set MOUNTS_CMDLINE_KEY" "CHR ''='' \<notin> set WORKER_CMDLINE_KEY"
  "CHR ''='' \<notin> set WORKER_ARGS_CMDLINE_KEY"
  by (simp_all add: cmdline_keys)

lemmas plan_token_lookup = cmdline_token_line [OF plan_tokens_nonempty plan_tokens_ok]

lemma decode_parts_encode: "list_all utf8_valid args \<Longrightarrow> decode_parts (map hex_encode args) = Some args"
  by (induction args) auto

lemma args_token:
  assumes "args \<noteq> []" and "args \<noteq> [[]]" and "list_all utf8_valid args"
  shows "join_with '','' (map hex_encode args) \<noteq> []"
    and "decode_parts (split_char CHR '','' (join_with '','' (map hex_encode args))) = Some args"
proof -
  show "join_with '','' (map hex_encode args) \<noteq> []"
  proof (cases args)
    case (Cons a as)
    then show ?thesis using assms(2) by (cases as; cases a) (simp_all add: hex_encode_Cons)
  qed (use assms(1) in simp)
  have "split_char CHR '','' (join_with '','' (map hex_encode args)) = map hex_encode args"
    using assms(1) hex_encode_chars by (intro split_join) (auto simp: list_all_iff)
  then show "decode_parts (split_char CHR '','' (join_with '','' (map hex_encode args))) = Some args"
    using decode_parts_encode [OF assms(3)] by simp
qed

lemma utf8_mounts_block:
  assumes "list_all (list_all utf8_valid) (plan_lines plan)" and "mounts_block plan = Some b"
  shows "utf8_valid b"
  using assms utf8_sep
  by (auto simp: mounts_block_def list_all_iff split: if_splits intro!: utf8_join)

lemma plan_net_uds:
  "plan_net p = Ok (ne, ep, eu) \<Longrightarrow> (ep \<noteq> None \<longleftrightarrow> eu \<noteq> None) \<and> (ne \<longleftrightarrow> sp_net p = ProxyEgress)"
  by (cases "proxy_uds p"; cases "sp_net p") (simp_all add: plan_net_def, metis option.distinct(1))

lemma plan_net_egress:
  "plan_net p = Ok (ne, ep, eu) \<Longrightarrow> sp_net p \<noteq> ProxyEgress \<Longrightarrow>
   eu = (if sp_net p = DenyNet then None else proxy_uds p) \<and> (sp_net p \<noteq> DenyNet \<longrightarrow> proxy_uds p \<noteq> None)"
  by (cases "proxy_uds p"; cases "sp_net p") (simp_all add: plan_net_def, metis option.distinct(1))

section \<open>The jail of the monitor\<close>

definition option_list :: "'a option \<Rightarrow> 'a list" where
  "option_list x = (case x of None \<Rightarrow> [] | Some y \<Rightarrow> [y])"

definition vmm_ops :: "FirecrackerLaunchPlan \<Rightarrow> rstr \<Rightarrow> rstr \<Rightarrow> rstr \<Rightarrow> JailOp list" where
  "vmm_ops plan run_dir fc launcher =
     map JFlag [''--unshare-all'', ''--unshare-user'', ''--disable-userns'', ''--die-with-parent'', ''--new-session'',
                ''--as-pid-1'', ''--clearenv''] @
     [JSpecial ''--proc'' ''/proc'', JSpecial ''--dev'' ''/dev'', JMount ''--dev-bind'' ''/dev/kvm'' ''/dev/kvm'',
      JMount ''--dev-bind'' ''/dev/vhost-vsock'' ''/dev/vhost-vsock'', JSpecial ''--tmpfs'' ''/tmp'',
      JMount ''--ro-bind'' ''/usr'' ''/usr'', JSymlink ''usr/bin'' ''/bin'', JSymlink ''usr/sbin'' ''/sbin'',
      JSymlink ''usr/lib'' ''/lib'', JSymlink ''usr/lib64'' ''/lib64'',
      JMount ''--ro-bind-try'' ''/etc/ld.so.cache'' ''/etc/ld.so.cache''] @
     map (\<lambda>q. JMount ''--ro-bind'' q q) [fp_kernel_path plan, fp_rootfs_path plan, fc, launcher] @
     map (\<lambda>q. JMount ''--bind'' q q)
       (run_dir # option_list (fp_egress_host_uds plan) @ option_list (fp_broker_host_uds plan) @
        option_list (fp_persistent_image_path plan))"

lemma vmm_argv_ops:
  assumes "build_vmm_jail_argv dbg plan run_dir fc launcher = Ok argv"
  shows "argv = ''bwrap'' # concat (map op_words (vmm_ops plan run_dir fc launcher)) @ [''--'']"
  using assms
  by (cases "fp_egress_host_uds plan"; cases "fp_broker_host_uds plan"; cases "fp_persistent_image_path plan")
     (auto simp: build_vmm_jail_argv_def vmm_ops_def option_list_def USERNS_LOCKDOWN_FLAGS_def split: if_splits)

lemma vmm_ops_ok: "list_all op_ok (vmm_ops plan run_dir fc launcher)"
  by (auto simp: vmm_ops_def list_all_iff jail_flags_def special_flags_def mount_flags_def)

definition vmm_mounts_of :: "FirecrackerLaunchPlan \<Rightarrow> rstr \<Rightarrow> rstr \<Rightarrow> rstr \<Rightarrow> Mount list" where
  "vmm_mounts_of plan run_dir fc launcher =
     [bind_of ReadWrite True ''/dev/kvm'' ''/dev/kvm'', bind_of ReadWrite True ''/dev/vhost-vsock'' ''/dev/vhost-vsock'',
      bind_of ReadOnly True ''/usr'' ''/usr'', bind_of ReadOnly False ''/etc/ld.so.cache'' ''/etc/ld.so.cache''] @
     map (\<lambda>q. bind_of ReadOnly True q q) [fp_kernel_path plan, fp_rootfs_path plan, fc, launcher] @
     map (\<lambda>q. bind_of ReadWrite True q q)
       (run_dir # option_list (fp_egress_host_uds plan) @ option_list (fp_broker_host_uds plan) @
        option_list (fp_persistent_image_path plan))"

lemma vmm_mounts: "List.map_filter op_mount (vmm_ops plan run_dir fc launcher) = vmm_mounts_of plan run_dir fc launcher"
  by (simp add: vmm_mounts_of_def vmm_ops_def map_filter_append List.map_filter_simps bind_of_def
      map_filter_map_Some [of op_mount _ "\<lambda>q. bind_of ReadWrite True q q"])

lemma confined_jail:
  assumes "build_confined_spawn_argv dbg p plan fc launcher paths = Ok argv"
  obtains c where "read_jail argv = Some (ops_jail (policy_limits p) (vmm_ops plan (lp_run_dir paths) fc launcher) c)"
proof -
  obtain jail where j: "build_vmm_jail_argv dbg plan (lp_run_dir paths) fc launcher = Ok jail"
    and a: "argv = build_systemd_run_argv p @ jail @ launcher # tl (launcher_argv plan paths) @ [''--firecracker-bin'', fc]"
    using assms by (auto simp: build_confined_spawn_argv_def and_then_Ok_iff)
  obtain ws where ws: "build_systemd_run_argv p = ''systemd-run'' # ws"
    by (simp add: build_systemd_run_argv_def)
  show thesis
    by (rule that [of "launcher # tl (launcher_argv plan paths) @ [''--firecracker-bin'', fc]"])
       (use read_limits_systemd [of p] in \<open>simp add: a ws vmm_argv_ops [OF j] read_jail_def read_ops_words vmm_ops_ok\<close>)
qed

lemma confined_jail_mounts:
  assumes "build_confined_spawn_argv dbg p plan fc launcher paths = Ok argv"
  shows "\<exists>j. read_jail argv = Some j \<and> jl_net_private j \<and> jl_userns_locked j \<and> jl_env_cleared j \<and>
    jl_mounts j = vmm_mounts_of plan (lp_run_dir paths) fc launcher"
  using assms
proof (rule confined_jail)
  fix c
  assume "read_jail argv = Some (ops_jail (policy_limits p) (vmm_ops plan (lp_run_dir paths) fc launcher) c)"
  then show ?thesis by (intro exI conjI) (assumption, simp_all add: ops_jail_def vmm_mounts, auto simp: vmm_ops_def)
qed

end
