(* ===== verification/Vm_Launch.thy ===== *)
theory Vm_Launch
  imports Guest_Init
begin

text \<open>
  Starting a micro-VM (\<^verbatim>\<open>LinuxFirecracker::spawn_under_policy\<close> in \<^verbatim>\<open>sandbox/src/linux_firecracker.rs\<close>): the sweep of
  orphaned run directories (\<^verbatim>\<open>cleanup.rs\<close>, \<^verbatim>\<open>sandbox/src/pid.rs\<close>), the pin of the guest kernel (\<^verbatim>\<open>guest_kernel_pin.rs\<close>),
  the private run directory (\<^verbatim>\<open>private_dir.rs\<close>), the images of the shares, the scratch and the store (\<^verbatim>\<open>images.rs\<close>), and
  the launcher's command with or without the jail of the monitor. The host answers each question from everything done
  so far, so that a file may appear, change or vanish between two steps; what is done is logged when it succeeds.
\<close>

section \<open>The host\<close>

datatype FileKind = RegularFile | Directory | Symlink | OtherFile

record Metadata =
  md_kind :: FileKind
  md_uid :: nat
  md_mode :: nat
  md_len :: nat

datatype VmEvent =
    VmMkdir rstr | VmChmod rstr nat | VmMkdirs rstr | VmCreate rstr | VmWrite rstr rstr | VmCopy rstr rstr
  | VmRemoveTree rstr | VmRun "rstr list"

record VmState =
  vs_log :: "VmEvent list"
  vs_spawn_seq :: nat
  vs_cid_seq :: nat

text \<open>\<open>vh_lstat\<close> does not follow a symbolic link, \<open>vh_stat\<close> does; \<open>vh_list\<close> are the names of the entries that could be read;
  \<open>vh_head\<close> is the first 64 bytes of a regular file opened without following a link; \<open>vh_bytes\<close> the bytes below a
  directory; \<open>vh_do\<close> whether a step succeeds; \<open>vh_status\<close> how a command that was started ended (\<^const>\<open>None\<close> is success);
  \<open>vh_signal\<close> what \<^verbatim>\<open>kill(pid, 0)\<close> answers.\<close>

record VmHost =
  vh_dbg :: "rstr \<Rightarrow> rstr"
  vh_print :: "json \<Rightarrow> rstr"
  vh_sha256 :: "rstr \<Rightarrow> rstr"
  vh_arch :: rstr
  vh_euid :: nat
  vh_pid :: nat
  vh_temp_dir :: rstr
  vh_var :: "rstr \<Rightarrow> rstr option"
  vh_fs :: Fs
  vh_lstat :: "VmEvent list \<Rightarrow> rstr \<Rightarrow> IoError + Metadata"
  vh_stat :: "VmEvent list \<Rightarrow> rstr \<Rightarrow> IoError + Metadata"
  vh_canon :: "VmEvent list \<Rightarrow> rstr \<Rightarrow> IoError + rstr"
  vh_list :: "VmEvent list \<Rightarrow> rstr \<Rightarrow> IoError + rstr list"
  vh_read :: "VmEvent list \<Rightarrow> rstr \<Rightarrow> IoError + rstr"
  vh_head :: "VmEvent list \<Rightarrow> rstr \<Rightarrow> rstr option"
  vh_bytes :: "VmEvent list \<Rightarrow> rstr \<Rightarrow> nat"
  vh_do :: "VmEvent list \<Rightarrow> VmEvent \<Rightarrow> IoError + unit"
  vh_status :: "VmEvent list \<Rightarrow> rstr list \<Rightarrow> IoError + rstr option"
  vh_signal :: "nat \<Rightarrow> IoError + unit"
  vh_exec :: "Command \<Rightarrow> IoError + nat"

type_synonym ('e, 'a) vm_result = "('e + 'a) \<times> VmState"

definition vm_then :: "('e, 'a) vm_result \<Rightarrow> ('a \<Rightarrow> VmState \<Rightarrow> ('e, 'b) vm_result) \<Rightarrow> ('e, 'b) vm_result" where
  "vm_then r f = (case r of (Err e, st) \<Rightarrow> (Err e, st) | (Ok x, st) \<Rightarrow> f x st)"

definition vm_log :: "VmEvent \<Rightarrow> VmState \<Rightarrow> VmState" where
  "vm_log e st = st\<lparr>vs_log := vs_log st @ [e]\<rparr>"

definition vm_attempt :: "VmHost \<Rightarrow> VmEvent \<Rightarrow> VmState \<Rightarrow> (IoError, unit) vm_result" where
  "vm_attempt h e st = (case vh_do h (vs_log st) e of Err err \<Rightarrow> (Err err, st) | Ok u \<Rightarrow> (Ok (), vm_log e st))"

definition blame :: "(IoError \<Rightarrow> rstr) \<Rightarrow> (IoError, 'a) vm_result \<Rightarrow> (SandboxError, 'a) vm_result" where
  "blame text r = (case r of (Err e, st) \<Rightarrow> (Err (Backend (text e)), st) | (Ok x, st) \<Rightarrow> (Ok x, st))"

section \<open>Private directories and files\<close>

fun show_octal :: "nat \<Rightarrow> rstr" where
  "show_octal n = (if n < 8 then show_nat n else show_octal (n div 8) @ show_nat (n mod 8))"

declare show_octal.simps [simp del]

definition verify_private_dir :: "VmHost \<Rightarrow> rstr \<Rightarrow> VmState \<Rightarrow> (IoError, unit) vm_result" where
  "verify_private_dir h dir st =
     (case vh_lstat h (vs_log st) dir of
        Err e \<Rightarrow> (Err e, st)
      | Ok md \<Rightarrow>
          if md_kind md = Symlink then (Err (io_other (dir @ '': is a symlink, refusing to use it'')), st)
          else if md_kind md \<noteq> Directory then (Err (io_other (dir @ '': exists but is not a directory'')), st)
          else if md_uid md \<noteq> vh_euid h
          then (Err (io_other (dir @ '': owned by uid '' @ show_nat (md_uid md) @ '', not this daemon'' @ [CHR 0x27] @ ''s uid '' @
                  show_nat (vh_euid h) @ '' '' @ em_dash @ '' refusing a directory another principal controls'')), st)
          else if md_mode md mod 64 \<noteq> 0
          then (Err (io_other (dir @ '': mode '' @ show_octal (md_mode md mod 512) @ '' grants group/other access; expected 0700'')), st)
          else (Ok (), st))"

definition create_private_dir :: "VmHost \<Rightarrow> rstr \<Rightarrow> VmState \<Rightarrow> (IoError, unit) vm_result" where
  "create_private_dir h dir st =
     (case vm_attempt h (VmMkdir dir) st of
        (Err e, st) \<Rightarrow>
          (Err (if io_kind e = IoAlreadyExists
                then io_other (dir @ '': already exists '' @ em_dash @ '' refusing to adopt a pre-existing per-spawn directory (another principal may have planted it)'')
                else e), st)
      | (Ok u, st) \<Rightarrow> vm_then (vm_attempt h (VmChmod dir 448) st) (\<lambda>_. verify_private_dir h dir))"

definition create_private_file :: "VmHost \<Rightarrow> rstr \<Rightarrow> VmState \<Rightarrow> (IoError, unit) vm_result" where
  "create_private_file h path st = vm_attempt h (VmCreate path) st"

definition harden_owned_file_mode :: "VmHost \<Rightarrow> rstr \<Rightarrow> VmState \<Rightarrow> (IoError, unit) vm_result" where
  "harden_owned_file_mode h path st =
     (case vh_lstat h (vs_log st) path of
        Err e \<Rightarrow> (Err e, st)
      | Ok md \<Rightarrow>
          if md_kind md \<noteq> RegularFile then (Err (io_other (path @ '': not a regular file'')), st)
          else if md_uid md \<noteq> vh_euid h
          then (Err (io_other (path @ '': owned by uid '' @ show_nat (md_uid md) @ '', not this daemon'' @ [CHR 0x27] @ ''s uid '' @
                  em_dash @ '' refusing to adopt it'')), st)
          else if md_mode md mod 64 \<noteq> 0 then vm_attempt h (VmChmod path 384) st
          else (Ok (), st))"

definition write_private_new :: "VmHost \<Rightarrow> rstr \<Rightarrow> rstr \<Rightarrow> VmState \<Rightarrow> (IoError, unit) vm_result" where
  "write_private_new h path bytes st = vm_then (create_private_file h path st) (\<lambda>_. vm_attempt h (VmWrite path bytes))"

section \<open>Orphaned run directories\<close>

definition LAUNCHER_PID_FILE :: rstr where "LAUNCHER_PID_FILE = ''launcher.pid''"
definition TEARDOWN_MARKER_FILE :: rstr where "TEARDOWN_MARKER_FILE = ''teardown.done''"
definition RUN_DIR_PREFIX :: rstr where "RUN_DIR_PREFIX = ''kastellan-microvm-''"
definition EPERM :: int where "EPERM = 1"

text \<open>A pid of at least \<open>2 ^ 31\<close> is negative as a \<^verbatim>\<open>pid_t\<close>.\<close>

definition pid_is_alive :: "VmHost \<Rightarrow> nat \<Rightarrow> bool" where
  "pid_is_alive h pid \<longleftrightarrow>
     \<not> (pid = 0 \<or> 2 ^ 31 \<le> pid) \<and> (case vh_signal h pid of Ok u \<Rightarrow> True | Err e \<Rightarrow> io_os e = Some EPERM)"

definition orphaned_run_dir_should_remove :: "bool \<Rightarrow> rstr option \<Rightarrow> (nat \<Rightarrow> bool) \<Rightarrow> bool" where
  "orphaned_run_dir_should_remove teardown_marker pidfile alive =
     (if teardown_marker then True
      else case Option.bind pidfile (\<lambda>s. parse_uint 32 (trim s)) of
             Some pid \<Rightarrow> \<not> alive pid
           | None \<Rightarrow> False)"

definition is_own_real_dir :: "VmHost \<Rightarrow> VmState \<Rightarrow> rstr \<Rightarrow> bool" where
  "is_own_real_dir h st path =
     (case vh_lstat h (vs_log st) path of Err e \<Rightarrow> False | Ok md \<Rightarrow> md_kind md = Directory \<and> md_uid md = vh_euid h)"

definition read_pidfile_nofollow :: "VmHost \<Rightarrow> VmState \<Rightarrow> rstr \<Rightarrow> rstr option" where
  "read_pidfile_nofollow h st path =
     (case vh_head h (vs_log st) path of Some s \<Rightarrow> if utf8_valid s then Some s else None | None \<Rightarrow> None)"

definition path_exists :: "VmHost \<Rightarrow> VmState \<Rightarrow> rstr \<Rightarrow> bool" where
  "path_exists h st path = (case vh_stat h (vs_log st) path of Ok md \<Rightarrow> True | Err e \<Rightarrow> False)"

definition path_is_dir :: "VmHost \<Rightarrow> VmState \<Rightarrow> rstr \<Rightarrow> bool" where
  "path_is_dir h st path = (case vh_stat h (vs_log st) path of Ok md \<Rightarrow> md_kind md = Directory | Err e \<Rightarrow> False)"

definition path_is_file :: "VmHost \<Rightarrow> VmState \<Rightarrow> rstr \<Rightarrow> bool" where
  "path_is_file h st path = (case vh_stat h (vs_log st) path of Ok md \<Rightarrow> md_kind md = RegularFile | Err e \<Rightarrow> False)"

fun sweep_entries :: "VmHost \<Rightarrow> rstr \<Rightarrow> rstr list \<Rightarrow> nat \<Rightarrow> VmState \<Rightarrow> nat \<times> VmState" where
  "sweep_entries h temp_dir [] removed st = (removed, st)"
| "sweep_entries h temp_dir (name # names) removed st =
     (let path = path_join temp_dir name in
      if \<not> (utf8_valid name \<and> starts_with name RUN_DIR_PREFIX) \<or> \<not> is_own_real_dir h st path
      then sweep_entries h temp_dir names removed st
      else if orphaned_run_dir_should_remove (path_exists h st (path_join path TEARDOWN_MARKER_FILE))
                (read_pidfile_nofollow h st (path_join path LAUNCHER_PID_FILE)) (pid_is_alive h)
      then (case vm_attempt h (VmRemoveTree path) st of
              (Ok u, st') \<Rightarrow> sweep_entries h temp_dir names (removed + 1) st'
            | (Err e, st') \<Rightarrow> sweep_entries h temp_dir names removed st')
      else sweep_entries h temp_dir names removed st)"

definition sweep_orphaned_run_dirs :: "VmHost \<Rightarrow> rstr \<Rightarrow> VmState \<Rightarrow> nat \<times> VmState" where
  "sweep_orphaned_run_dirs h temp_dir st =
     (case vh_list h (vs_log st) temp_dir of
        Err e \<Rightarrow> (0, st)
      | Ok names \<Rightarrow> sweep_entries h temp_dir names 0 st)"

section \<open>The pinned guest kernel\<close>

definition GUEST_KERNEL_SHA256_X86_64 :: rstr where
  "GUEST_KERNEL_SHA256_X86_64 = ''49ba99a5299444ac59dda2efc3569cc2d58a5d72ea6475a6bfc37aa0bf322e54''"

definition GUEST_KERNEL_SHA256_AARCH64 :: rstr where
  "GUEST_KERNEL_SHA256_AARCH64 = ''bb1f50912d63a8ca5e92d488984875e1177eb9283050ffa592a8cb455cada52d''"

datatype KernelPinError = UnknownArch rstr | KernelUnreadable rstr IoError | PinMismatch rstr rstr rstr

fun show_kernel_pin_error :: "KernelPinError \<Rightarrow> rstr" where
  "show_kernel_pin_error (UnknownArch arch) =
     ''no recorded guest-kernel sha256 for architecture '' @ [CHR 0x27] @ arch @ [CHR 0x27] @
     ''; refusing to boot a micro-VM on an unverified kernel''"
| "show_kernel_pin_error (KernelUnreadable path e) =
     ''cannot read the micro-VM guest kernel at '' @ path @ '': '' @ io_text e @
     '' (build it with scripts/workers/microvm/build-rootfs.sh, or run sudo scripts/linux/install-firecracker-vsock.sh)''"
| "show_kernel_pin_error (PinMismatch path expected actual) =
     ''the micro-VM guest kernel at '' @ path @ '' does not match the pinned sha256 '' @ em_dash @
     '' refusing to boot it.'' @ [NL] @ ''  expected: '' @ expected @ [NL] @ ''  actual:   '' @ actual @ [NL] @
     ''If the kernel version was intentionally changed, update GUEST_KERNEL_SHA256_* in sandbox/src/guest_kernel_pin.rs AND scripts/workers/microvm/lib/guest-kernel.sh together. If it was not, this file has been replaced since it was built '' @
     em_dash @ '' treat it as an incident.''"

definition expected_sha256 :: "rstr \<Rightarrow> rstr option" where
  "expected_sha256 arch =
     (if arch = ''x86_64'' then Some GUEST_KERNEL_SHA256_X86_64
      else if arch = ''aarch64'' then Some GUEST_KERNEL_SHA256_AARCH64
      else None)"

definition verify_kernel :: "VmHost \<Rightarrow> VmState \<Rightarrow> rstr \<Rightarrow> rstr \<Rightarrow> KernelPinError + unit" where
  "verify_kernel h st path expected =
     (case vh_read h (vs_log st) path of
        Err e \<Rightarrow> Err (KernelUnreadable path e)
      | Ok bytes \<Rightarrow>
          if vh_sha256 h bytes \<noteq> expected then Err (PinMismatch path expected (vh_sha256 h bytes)) else Ok ())"

definition verify_pinned_kernel :: "VmHost \<Rightarrow> VmState \<Rightarrow> rstr \<Rightarrow> KernelPinError + unit" where
  "verify_pinned_kernel h st path =
     (case expected_sha256 (vh_arch h) of
        None \<Rightarrow> Err (UnknownArch (vh_arch h))
      | Some expected \<Rightarrow> verify_kernel h st path expected)"

section \<open>Images\<close>

definition RW_SCRATCH_MIB_DEFAULT :: nat where "RW_SCRATCH_MIB_DEFAULT = 64"

definition rw_scratch_mib :: "(rstr \<times> rstr) list \<Rightarrow> nat" where
  "rw_scratch_mib env =
     (case Option.bind (map_of env ''KASTELLAN_MICROVM_SCRATCH_MIB'') (parse_uint 64) of
        Some n \<Rightarrow> if n > 0 then n else RW_SCRATCH_MIB_DEFAULT
      | None \<Rightarrow> RW_SCRATCH_MIB_DEFAULT)"

text \<open>\<^verbatim>\<open>strip_prefix("/")\<close> drops the root and every separator after it; the rest of the components are joined below.\<close>

definition staged_path :: "rstr \<Rightarrow> rstr \<Rightarrow> rstr" where
  "staged_path stage_root source =
     (if is_absolute source then path_join stage_root (dropWhile (\<lambda>c. c = CHR ''/'') source) else path_join stage_root source)"

definition mkfs_populate_argv :: "rstr \<Rightarrow> rstr \<Rightarrow> nat \<Rightarrow> rstr list" where
  "mkfs_populate_argv stage_dir out_img size_mib =
     [''mkfs.ext4'', ''-q'', ''-F'', ''-O'', ''^has_journal'', ''-d'', stage_dir, out_img, show_nat size_mib @ ''M'']"

definition mkfs_blank_argv :: "rstr \<Rightarrow> nat \<Rightarrow> rstr list" where
  "mkfs_blank_argv out_img size_mib = [''mkfs.ext4'', ''-q'', ''-F'', out_img, show_nat size_mib @ ''M'']"

definition ro_image_mib :: "VmHost \<Rightarrow> VmState \<Rightarrow> rstr \<Rightarrow> nat" where
  "ro_image_mib h st stage_root = max (vh_bytes h (vs_log st) stage_root div (1024 * 1024) + 16) 8"

definition run_command :: "VmHost \<Rightarrow> rstr list \<Rightarrow> VmState \<Rightarrow> (SandboxError, unit) vm_result" where
  "run_command h argv st =
     (case vh_status h (vs_log st) argv of
        Err e \<Rightarrow> (Err (Backend (''spawn '' @ hd argv @ '': '' @ io_text e)), st)
      | Ok None \<Rightarrow> (Ok (), vm_log (VmRun argv) st)
      | Ok (Some status) \<Rightarrow> (Err (Backend (hd argv @ '' failed: '' @ status)), vm_log (VmRun argv) st))"

definition precreate_private_image :: "VmHost \<Rightarrow> rstr \<Rightarrow> VmState \<Rightarrow> (SandboxError, unit) vm_result" where
  "precreate_private_image h path st =
     blame (\<lambda>e. ''pre-create image '' @ vh_dbg h path @ '': '' @ io_text e) (create_private_file h path st)"

definition path_starts_with :: "rstr \<Rightarrow> rstr \<Rightarrow> bool" where
  "path_starts_with p root \<longleftrightarrow> take (length (components root)) (components p) = components root"

text \<open>A symbolic link is left out when it leads to a directory or out of the root; one that leads nowhere is not.\<close>

definition link_left_out :: "VmHost \<Rightarrow> VmState \<Rightarrow> rstr \<Rightarrow> rstr \<Rightarrow> bool" where
  "link_left_out h st root src =
     (case vh_canon h (vs_log st) src of
        Err e \<Rightarrow> False
      | Ok target \<Rightarrow> path_is_dir h st target \<or> \<not> path_starts_with target root)"

fun stage_all :: "('a \<Rightarrow> VmState \<Rightarrow> (SandboxError, unit) vm_result option) \<Rightarrow> 'a list \<Rightarrow> VmState \<Rightarrow> (SandboxError, unit) vm_result option" where
  "stage_all f [] st = Some (Ok (), st)"
| "stage_all f (x # xs) st =
     (case f x st of
        None \<Rightarrow> None
      | Some (Err e, st') \<Rightarrow> Some (Err e, st')
      | Some (Ok u, st') \<Rightarrow> stage_all f xs st')"

text \<open>The fuel is the depth of the tree; \<^const>\<open>None\<close> when it runs out.\<close>

primrec copy_tree :: "nat \<Rightarrow> VmHost \<Rightarrow> rstr \<Rightarrow> rstr \<Rightarrow> rstr \<Rightarrow> VmState \<Rightarrow> (SandboxError, unit) vm_result option" where
  "copy_tree 0 h root src dest st = None"
| "copy_tree (Suc n) h root src dest st =
     (case vh_lstat h (vs_log st) src of
        Err e \<Rightarrow> Some (Err (Backend (''stat '' @ vh_dbg h src @ '': '' @ io_text e)), st)
      | Ok md \<Rightarrow>
          if md_kind md = Symlink \<and> link_left_out h st root src then Some (Ok (), st)
          else if md_kind md = Directory then
            (case vm_attempt h (VmMkdirs dest) st of
               (Err e, st) \<Rightarrow> Some (Err (Backend (''mkdir '' @ vh_dbg h dest @ '': '' @ io_text e)), st)
             | (Ok u, st) \<Rightarrow>
                 (case vh_list h (vs_log st) src of
                    Err e \<Rightarrow> Some (Err (Backend (''read_dir '' @ vh_dbg h src @ '': '' @ io_text e)), st)
                  | Ok names \<Rightarrow>
                      stage_all (\<lambda>name. copy_tree n h root (path_join src name) (path_join dest name)) names st))
          else Some (blame (\<lambda>e. ''copy '' @ vh_dbg h src @ ''->'' @ vh_dbg h dest @ '': '' @ io_text e) (vm_attempt h (VmCopy src dest) st)))"

definition STAGE_DEPTH :: nat where "STAGE_DEPTH = 4096"

definition stage_source :: "VmHost \<Rightarrow> rstr \<Rightarrow> rstr \<Rightarrow> VmState \<Rightarrow> (SandboxError, unit) vm_result option" where
  "stage_source h stage_root src st =
     (let dest = staged_path stage_root src in
      case (case path_parent dest of
              None \<Rightarrow> (Ok (), st)
            | Some parent \<Rightarrow> blame (\<lambda>e. ''stage mkdir '' @ vh_dbg h parent @ '': '' @ io_text e) (vm_attempt h (VmMkdirs parent) st)) of
        (Err e, st) \<Rightarrow> Some (Err e, st)
      | (Ok u, st) \<Rightarrow>
          (case vh_canon h (vs_log st) src of
             Err e \<Rightarrow> Some (Err (Backend (''canonicalize fs_read root '' @ vh_dbg h src @ '': '' @ io_text e)), st)
           | Ok root \<Rightarrow> copy_tree STAGE_DEPTH h root src dest st))"

definition build_ro_image :: "VmHost \<Rightarrow> FirecrackerLaunchPlan \<Rightarrow> rstr \<Rightarrow> VmState \<Rightarrow> (SandboxError, FirecrackerLaunchPlan) vm_result option" where
  "build_ro_image h plan run_dir st =
     (case fp_ro_share plan of
        None \<Rightarrow> Some (Ok plan, st)
      | Some ro \<Rightarrow>
          (let stage_root = path_join run_dir ''ro-stage''; out = path_join run_dir ''ro-share.ext4'' in
           case stage_all (stage_source h stage_root) (ro_sources ro) st of
             None \<Rightarrow> None
           | Some r \<Rightarrow>
               Some (vm_then r (\<lambda>_ st. vm_then (precreate_private_image h out st) (\<lambda>_ st.
                 vm_then (run_command h (mkfs_populate_argv stage_root out (ro_image_mib h st stage_root)) st)
                   (\<lambda>_ st. (Ok (plan\<lparr>fp_ro_image_path := Some out\<rparr>), st)))))))"

definition build_rw_image :: "VmHost \<Rightarrow> FirecrackerLaunchPlan \<Rightarrow> rstr \<Rightarrow> (rstr \<times> rstr) list \<Rightarrow> VmState \<Rightarrow> (SandboxError, FirecrackerLaunchPlan) vm_result" where
  "build_rw_image h plan run_dir env st =
     (case fp_rw_scratch plan of
        None \<Rightarrow> (Ok plan, st)
      | Some rw \<Rightarrow>
          (let out = path_join run_dir ''rw-scratch.ext4'' in
           vm_then (precreate_private_image h out st) (\<lambda>_ st.
           vm_then (run_command h (mkfs_blank_argv out (rw_scratch_mib env)) st)
             (\<lambda>_ st. (Ok (plan\<lparr>fp_rw_image_path := Some out\<rparr>), st)))))"

definition build_share_images ::
    "VmHost \<Rightarrow> FirecrackerLaunchPlan \<Rightarrow> rstr \<Rightarrow> (rstr \<times> rstr) list \<Rightarrow> VmState \<Rightarrow> (SandboxError, FirecrackerLaunchPlan) vm_result option" where
  "build_share_images h plan run_dir env st =
     (case build_ro_image h plan run_dir st of
        None \<Rightarrow> None
      | Some r \<Rightarrow> Some (vm_then r (\<lambda>plan. build_rw_image h plan run_dir env)))"

definition persistent_mkfs_decision :: "bool \<Rightarrow> rstr \<Rightarrow> nat \<Rightarrow> rstr list option" where
  "persistent_mkfs_decision host_backing_usable host_backing size_mib =
     (if host_backing_usable then None else Some (mkfs_blank_argv host_backing size_mib))"

definition persistent_image_is_usable :: "VmHost \<Rightarrow> VmState \<Rightarrow> rstr \<Rightarrow> bool" where
  "persistent_image_is_usable h st path =
     (case vh_stat h (vs_log st) path of Ok md \<Rightarrow> md_kind md = RegularFile \<and> md_len md > 0 | Err e \<Rightarrow> False)"

definition prepare_store :: "VmHost \<Rightarrow> PersistentStore \<Rightarrow> VmState \<Rightarrow> (SandboxError, unit) vm_result" where
  "prepare_store h ps st =
     (let path = pst_host_backing ps; usable = persistent_image_is_usable h st path in
      vm_then (if \<not> usable \<and> \<not> path_exists h st path then precreate_private_image h path st else (Ok (), st)) (\<lambda>_ st.
      vm_then (case persistent_mkfs_decision usable path (pst_size_mib ps) of
                 None \<Rightarrow> (Ok (), st) | Some argv \<Rightarrow> run_command h argv st) (\<lambda>_ st.
      blame (\<lambda>e. ''persistent store '' @ vh_dbg h path @ '' must be an owner-private regular file: '' @ io_text e)
        (harden_owned_file_mode h path st))))"

definition build_persistent_image :: "VmHost \<Rightarrow> FirecrackerLaunchPlan \<Rightarrow> VmState \<Rightarrow> (SandboxError, FirecrackerLaunchPlan) vm_result" where
  "build_persistent_image h plan st =
     (case fp_persistent_store plan of
        None \<Rightarrow> (Ok plan, st)
      | Some ps \<Rightarrow>
          if path_is_dir h st (pst_host_backing ps)
          then (Err (Backend (''persistent_store host_backing '' @ vh_dbg h (pst_host_backing ps) @
                  '' is a directory, but the Firecracker backend expects an ext4 image file (a directory is the bwrap/Seatbelt form)'')), st)
          else
            vm_then (case path_parent (pst_host_backing ps) of
                       None \<Rightarrow> (Ok (), st)
                     | Some parent \<Rightarrow>
                         blame (\<lambda>e. ''persistent store mkdir '' @ vh_dbg h parent @ '': '' @ io_text e) (vm_attempt h (VmMkdirs parent) st)) (\<lambda>_ st.
            vm_then (prepare_store h ps st) (\<lambda>_ st.
              (Ok (plan\<lparr>fp_persistent_image_path := Some (pst_host_backing ps)\<rparr>), st))))"

section \<open>The spawn\<close>

definition make_spawn_dir :: "VmHost \<Rightarrow> VmState \<Rightarrow> (SandboxError, rstr) vm_result" where
  "make_spawn_dir h st =
     (let dir = path_join (vh_temp_dir h) (RUN_DIR_PREFIX @ show_nat (vh_pid h) @ ''-'' @ show_nat (vs_spawn_seq st));
          st = st\<lparr>vs_spawn_seq := vs_spawn_seq st + 1\<rparr> in
      vm_then (blame (\<lambda>e. ''create per-spawn dir '' @ vh_dbg h dir @ '': '' @ io_text e) (create_private_dir h dir st))
        (\<lambda>_ st. (Ok dir, st)))"

definition ENV_CONFINE_VMM :: rstr where "ENV_CONFINE_VMM = ''KASTELLAN_MICROVM_CONFINE_VMM''"
definition KEEP_RUN_DIR_ENV :: rstr where "KEEP_RUN_DIR_ENV = ''KASTELLAN_MICROVM_KEEP_RUN_DIR''"

definition launcher_paths :: "VmHost \<Rightarrow> rstr \<Rightarrow> LauncherPaths" where
  "launcher_paths h run_dir =
     \<lparr>lp_config_path = path_join run_dir ''fc.json'', lp_log_path = path_join run_dir ''fc.log'', lp_run_dir = run_dir,
      lp_keep_run_dir = keep_run_dir_from_env (vh_var h KEEP_RUN_DIR_ENV)\<rparr>"

definition vm_command :: "VmHost \<Rightarrow> SandboxPolicy \<Rightarrow> FirecrackerLaunchPlan \<Rightarrow> rstr \<Rightarrow> VmState \<Rightarrow> SandboxError + rstr list" where
  "vm_command h p plan run_dir st =
     (case confinement_from_env (vh_var h ENV_CONFINE_VMM) of
        NoConfinement \<Rightarrow> Ok (launcher_argv plan (launcher_paths h run_dir))
      | BwrapCgroup \<Rightarrow>
          (case find_executable (path_is_file h st) ''firecracker'' (vh_var h ''PATH'') of
             None \<Rightarrow> Err (Backend ''VMM confinement on but firecracker not found on $PATH to bind into the jail (set KASTELLAN_MICROVM_CONFINE_VMM=0 to disable, or fix $PATH)'')
           | Some fc \<Rightarrow>
               (case find_executable (path_is_file h st) MICROVM_RUN_BIN (vh_var h ''PATH'') of
                  None \<Rightarrow> Err (Backend (''VMM confinement on but '' @ MICROVM_RUN_BIN @
                           '' not found on $PATH to bind into the jail (set KASTELLAN_MICROVM_CONFINE_VMM=0 to disable, or fix $PATH)''))
                | Some launcher \<Rightarrow> build_confined_spawn_argv (vh_dbg h) p plan fc launcher (launcher_paths h run_dir))))"

definition launch_vm :: "VmHost \<Rightarrow> SandboxPolicy \<Rightarrow> FirecrackerLaunchPlan \<Rightarrow> rstr \<Rightarrow> VmState \<Rightarrow> (SandboxError, Child) vm_result" where
  "launch_vm h p plan run_dir st =
     vm_then (blame (\<lambda>e. ''write fc config: '' @ io_text e)
                (write_private_new h (path_join run_dir ''fc.json'') (vh_print h (render_firecracker_config plan)) st)) (\<lambda>_ st.
       case and_then (vm_command h p plan run_dir st) (\<lambda>argv.
              start_command (vh_exec h) ''microvm-run'' \<lparr>cmd_argv = argv, cmd_env = InheritEnv, cmd_dir = None, cmd_setsid = False\<rparr>) of
         Err e \<Rightarrow> (Err e, st)
       | Ok child \<Rightarrow>
           (Ok child, snd (write_private_new h (path_join run_dir LAUNCHER_PID_FILE) (show_nat (child_pid child)) st)))"

text \<open>The plan as the spawn completes it, before the images.\<close>

definition prepare_plan ::
    "VmHost \<Rightarrow> SandboxPolicy \<Rightarrow> rstr \<Rightarrow> rstr list \<Rightarrow> VmState \<Rightarrow> (SandboxError, FirecrackerLaunchPlan \<times> rstr) vm_result" where
  "prepare_plan h p program args st =
     (let st = snd (sweep_orphaned_run_dirs h (vh_temp_dir h) st); image = resolve_image (sp_env p) in
      case verify_pinned_kernel h st (im_kernel_path image) of
        Err e \<Rightarrow> (Err (Backend (show_kernel_pin_error e)), st)
      | Ok u \<Rightarrow>
          (case build_launch_plan (vh_dbg h) (vh_fs h) (vh_euid h) p image program args of
             Err e \<Rightarrow> (Err e, st)
           | Ok plan \<Rightarrow>
               vm_then (make_spawn_dir h st) (\<lambda>run_dir st.
                 (Ok (plan\<lparr>fp_vsock_uds := path_join run_dir ''vsock.sock'', fp_vsock_cid := next_guest_cid (vh_pid h) (vs_cid_seq st)\<rparr>,
                      run_dir), st\<lparr>vs_cid_seq := vs_cid_seq st + 1\<rparr>))))"

definition firecracker_spawn ::
    "VmHost \<Rightarrow> SandboxPolicy \<Rightarrow> rstr \<Rightarrow> rstr list \<Rightarrow> VmState \<Rightarrow> (SandboxError, Child) vm_result option" where
  "firecracker_spawn h p program args st =
     (case prepare_plan h p program args st of
        (Err e, st) \<Rightarrow> Some (Err e, st)
      | (Ok (plan, run_dir), st) \<Rightarrow>
          (case build_share_images h plan run_dir (sp_env p) st of
             None \<Rightarrow> None
           | Some r \<Rightarrow>
               Some (vm_then r (\<lambda>plan st. vm_then (build_persistent_image h plan st) (\<lambda>plan. launch_vm h p plan run_dir)))))"

section \<open>What a spawn that succeeds has done\<close>

lemma vm_then_Ok: "vm_then r f = (Ok y, st') \<longleftrightarrow> (\<exists>x st. r = (Ok x, st) \<and> f x st = (Ok y, st'))"
  by (auto simp: vm_then_def split: prod.splits sum.splits)

lemma blame_Ok: "blame t r = (Ok x, st) \<longleftrightarrow> r = (Ok x, st)"
  by (auto simp: blame_def split: prod.splits sum.splits)

lemma vm_attempt_Ok: "vm_attempt h e st = (Ok u, st') \<longleftrightarrow> vh_do h (vs_log st) e = Ok () \<and> st' = vm_log e st"
  by (auto simp: vm_attempt_def split: sum.splits)

lemmas vm_Ok = vm_then_Ok blame_Ok vm_attempt_Ok

lemma vm_attempt_log: "prefix (vs_log st) (vs_log (snd (vm_attempt h e st)))"
  by (auto simp: vm_attempt_def vm_log_def split: sum.splits)

lemma write_log: "prefix (vs_log st) (vs_log (snd (write_private_new h path bytes st)))"
proof (cases "create_private_file h path st")
  case (Pair r st1)
  then have "prefix (vs_log st) (vs_log st1)"
    using vm_attempt_log [of st h "VmCreate path"] by (simp add: create_private_file_def)
  then show ?thesis using Pair vm_attempt_log [of st1 h "VmWrite path bytes"]
    by (auto simp: write_private_new_def vm_then_def split: sum.splits intro: prefix_order.trans)
qed

lemma build_ro_image_Ok:
  "build_ro_image h plan run_dir st = Some (Ok plan', st') \<Longrightarrow> \<exists>i. plan' = plan\<lparr>fp_ro_image_path := i\<rparr>"
  by (cases "fp_ro_share plan")
     (auto simp: build_ro_image_def vm_Ok Let_def split: option.splits intro: exI [of _ "fp_ro_image_path plan"])

lemma build_rw_image_Ok:
  "build_rw_image h plan run_dir env st = (Ok plan', st') \<Longrightarrow> \<exists>i. plan' = plan\<lparr>fp_rw_image_path := i\<rparr>"
  by (cases "fp_rw_scratch plan")
     (auto simp: build_rw_image_def vm_Ok Let_def intro: exI [of _ "fp_rw_image_path plan"])

lemma build_persistent_image_Ok:
  "build_persistent_image h plan st = (Ok plan', st') \<Longrightarrow>
   plan' = plan\<lparr>fp_persistent_image_path := (case fp_persistent_store plan of None \<Rightarrow> fp_persistent_image_path plan
                                             | Some ps \<Rightarrow> Some (pst_host_backing ps))\<rparr>"
  by (auto simp: build_persistent_image_def vm_Ok split: option.splits if_splits)

lemma verify_pinned_kernel_Ok:
  "verify_pinned_kernel h st path = Ok u \<Longrightarrow>
   \<exists>bytes. vh_read h (vs_log st) path = Ok bytes \<and> expected_sha256 (vh_arch h) = Some (vh_sha256 h bytes)"
  by (auto simp: verify_pinned_kernel_def verify_kernel_def split: option.splits sum.splits if_splits)

lemma build_launch_plan_fields:
  "build_launch_plan dbg fs euid p im program args = Ok plan \<Longrightarrow>
   fp_persistent_store plan = persistent_store p \<and> fp_persistent_image_path plan = None \<and>
   fp_kernel_path plan = im_kernel_path im \<and> fp_rootfs_path plan = im_rootfs_path im \<and>
   fp_ro_share plan = fst (plan_drives p) \<and> fp_broker_host_uds plan = broker_uds p \<and>
   plan_net p = Ok (fp_net_enabled plan, fp_egress_proxy_vsock_port plan, fp_egress_host_uds plan)"
  by (cases "plan_drives p") (auto simp: build_launch_plan_def and_then_Ok_iff Let_def split: if_splits)

lemma launch_vm_Ok:
  assumes "launch_vm h p plan run_dir st = (Ok child, st')"
  obtains st1 argv where "prefix (vs_log st1) (vs_log st')" "vm_command h p plan run_dir st1 = Ok argv" "cmd_argv (child_cmd child) = argv"
    "VmWrite (path_join run_dir ''fc.json'') (vh_print h (render_firecracker_config plan)) \<in> set (vs_log st')"
proof -
  let ?cfg = "VmWrite (path_join run_dir ''fc.json'') (vh_print h (render_firecracker_config plan))"
  obtain st1 where w: "write_private_new h (path_join run_dir ''fc.json'') (vh_print h (render_firecracker_config plan)) st = (Ok (), st1)"
    and r: "(case and_then (vm_command h p plan run_dir st1) (\<lambda>argv.
              start_command (vh_exec h) ''microvm-run'' \<lparr>cmd_argv = argv, cmd_env = InheritEnv, cmd_dir = None, cmd_setsid = False\<rparr>) of
         Err e \<Rightarrow> (Err e, st1)
       | Ok child \<Rightarrow> (Ok child, snd (write_private_new h (path_join run_dir LAUNCHER_PID_FILE) (show_nat (child_pid child)) st1))) = (Ok child, st')"
    using assms by (auto simp: launch_vm_def vm_then_Ok blame_Ok)
  have log: "?cfg \<in> set (vs_log st1)" using w by (auto simp: write_private_new_def vm_Ok vm_log_def)
  obtain argv where c: "vm_command h p plan run_dir st1 = Ok argv"
      "start_command (vh_exec h) ''microvm-run'' \<lparr>cmd_argv = argv, cmd_env = InheritEnv, cmd_dir = None, cmd_setsid = False\<rparr> = Ok child"
    and st': "st' = snd (write_private_new h (path_join run_dir LAUNCHER_PID_FILE) (show_nat (child_pid child)) st1)"
    using r by (auto simp: and_then_def split: sum.splits)
  have grown: "prefix (vs_log st1) (vs_log st')" unfolding st' by (rule write_log)
  then have "?cfg \<in> set (vs_log st')" using log set_mono_prefix by blast
  then show thesis using that grown c start_command_Ok [OF c(2)] by simp
qed

lemma prepare_plan_Ok:
  assumes "prepare_plan h p program args st = (Ok (plan, run_dir), st')"
  obtains plan0 cid bytes where
    "build_launch_plan (vh_dbg h) (vh_fs h) (vh_euid h) p (resolve_image (sp_env p)) program args = Ok plan0"
    "plan = plan0\<lparr>fp_vsock_uds := path_join run_dir ''vsock.sock'', fp_vsock_cid := cid\<rparr>"
    "vh_read h (vs_log (snd (sweep_orphaned_run_dirs h (vh_temp_dir h) st))) (im_kernel_path (resolve_image (sp_env p))) = Ok bytes" "expected_sha256 (vh_arch h) = Some (vh_sha256 h bytes)"
proof -
  let ?st = "snd (sweep_orphaned_run_dirs h (vh_temp_dir h) st)"
  obtain u where v: "verify_pinned_kernel h ?st (im_kernel_path (resolve_image (sp_env p))) = Ok u"
    using assms by (auto simp: prepare_plan_def Let_def split: sum.splits)
  from verify_pinned_kernel_Ok [OF v] show thesis
    using assms v that by (auto simp: prepare_plan_def Let_def vm_then_Ok split: sum.splits)
qed

lemma firecracker_spawn_Ok:
  assumes "firecracker_spawn h p program args st = Some (Ok child, st')"
  obtains plan0 plan run_dir cid ri wi bytes st1 argv where
    "build_launch_plan (vh_dbg h) (vh_fs h) (vh_euid h) p (resolve_image (sp_env p)) program args = Ok plan0"
    "plan = plan0\<lparr>fp_vsock_uds := path_join run_dir ''vsock.sock'', fp_vsock_cid := cid, fp_ro_image_path := ri, fp_rw_image_path := wi,
       fp_persistent_image_path := map_option pst_host_backing (persistent_store p)\<rparr>"
    "vh_read h (vs_log (snd (sweep_orphaned_run_dirs h (vh_temp_dir h) st))) (im_kernel_path (resolve_image (sp_env p))) = Ok bytes" "expected_sha256 (vh_arch h) = Some (vh_sha256 h bytes)"
    "prefix (vs_log st1) (vs_log st')" "vm_command h p plan run_dir st1 = Ok argv" "cmd_argv (child_cmd child) = argv"
    "VmWrite (path_join run_dir ''fc.json'') (vh_print h (render_firecracker_config plan)) \<in> set (vs_log st')"
proof -
  obtain plan1 run_dir sa where pp: "prepare_plan h p program args st = (Ok (plan1, run_dir), sa)"
    using assms by (auto simp: firecracker_spawn_def split: prod.splits sum.splits)
  then obtain plan0 cid bytes where a:
      "build_launch_plan (vh_dbg h) (vh_fs h) (vh_euid h) p (resolve_image (sp_env p)) program args = Ok plan0"
      "plan1 = plan0\<lparr>fp_vsock_uds := path_join run_dir ''vsock.sock'', fp_vsock_cid := cid\<rparr>"
      "vh_read h (vs_log (snd (sweep_orphaned_run_dirs h (vh_temp_dir h) st))) (im_kernel_path (resolve_image (sp_env p))) = Ok bytes" "expected_sha256 (vh_arch h) = Some (vh_sha256 h bytes)"
    by (rule prepare_plan_Ok)
  obtain plan2 sb plan sc where b: "build_share_images h plan1 run_dir (sp_env p) sa = Some (Ok plan2, sb)"
      "build_persistent_image h plan2 sb = (Ok plan, sc)" "launch_vm h p plan run_dir sc = (Ok child, st')"
    using assms pp by (auto simp: firecracker_spawn_def vm_then_Ok split: option.splits)
  obtain planr sr where r: "build_ro_image h plan1 run_dir sa = Some (Ok planr, sr)" "build_rw_image h planr run_dir (sp_env p) sr = (Ok plan2, sb)"
    using b(1) by (auto simp: build_share_images_def vm_then_Ok split: option.splits)
  obtain ri wi where i: "plan2 = plan1\<lparr>fp_ro_image_path := ri, fp_rw_image_path := wi\<rparr>"
    using build_ro_image_Ok [OF r(1)] build_rw_image_Ok [OF r(2)] by auto
  note s = build_launch_plan_fields [OF a(1)]
  have plan: "plan = plan0\<lparr>fp_vsock_uds := path_join run_dir ''vsock.sock'', fp_vsock_cid := cid, fp_ro_image_path := ri, fp_rw_image_path := wi,
       fp_persistent_image_path := map_option pst_host_backing (persistent_store p)\<rparr>"
    using build_persistent_image_Ok [OF b(2)] s by (cases "persistent_store p") (simp_all add: i a(2))
  from b(3) show thesis by (rule launch_vm_Ok) (rule that [OF a(1) plan a(3,4)]; assumption)
qed

section \<open>Staging ends\<close>

lemma stage_all_ends: "(\<And>x st. x \<in> set xs \<Longrightarrow> f x st \<noteq> None) \<Longrightarrow> stage_all f xs st \<noteq> None"
  by (induction xs arbitrary: st) (auto split: option.splits sum.splits)

text \<open>The kernel resolves no path of 4096 bytes or more, and a directory's entries have a name without a separator.\<close>

definition paths_bounded :: "VmHost \<Rightarrow> bool" where
  "paths_bounded h \<longleftrightarrow>
     (\<forall>log q md. vh_lstat h log q = Ok md \<longrightarrow> length q < 4096) \<and>
     (\<forall>log q names. vh_list h log q = Ok names \<longrightarrow> list_all (\<lambda>x. x \<noteq> [] \<and> CHR ''/'' \<notin> set x) names)"

lemma path_join_longer: "x \<noteq> [] \<Longrightarrow> CHR ''/'' \<notin> set x \<Longrightarrow> length p < length (path_join p x)"
  by (cases x) (auto simp: path_join_def is_absolute_iff)

lemma copy_tree_ends:
  assumes "paths_bounded h" and "4096 < length src + n" and "0 < n"
  shows "copy_tree n h root src dest st \<noteq> None"
  using assms(2,3)
proof (induction n arbitrary: src dest st)
  case (Suc n)
  have deeper: "copy_tree n h root (path_join src x) (path_join dest x) st' \<noteq> None"
    if "vh_lstat h (vs_log st) src = Ok md" "vh_list h log src = Ok names" "x \<in> set names" for md log names x st'
  proof (rule Suc.IH)
    have "length src < 4096" "x \<noteq> []" "CHR ''/'' \<notin> set x"
      using assms(1) that unfolding paths_bounded_def list_all_iff by blast+
    then show "4096 < length (path_join src x) + n" "0 < n" using Suc.prems(1) path_join_longer [of x src] by simp_all
  qed
  show ?case
  proof (cases "vh_lstat h (vs_log st) src")
    case (Inr md)
    obtain r st1 where a: "vm_attempt h (VmMkdirs dest) st = (r, st1)" by fastforce
    have "stage_all (\<lambda>name. copy_tree n h root (path_join src name) (path_join dest name)) names st2 \<noteq> None"
      if "vh_list h (vs_log st1) src = Ok names" for names st2
      by (rule stage_all_ends) (rule deeper [OF Inr that])
    then show ?thesis using Inr a by (auto split: sum.splits)
  qed simp
qed simp

text \<open>So staging a share ends: \<^const>\<open>STAGE_DEPTH\<close> is more than a path has levels.\<close>

lemma firecracker_spawn_ends:
  assumes "paths_bounded h" and "\<And>s. s \<in> set (fs_read p) \<Longrightarrow> s \<noteq> []"
  shows "firecracker_spawn h p program args st \<noteq> None"
proof -
  have src: "stage_source h root s st1 \<noteq> None" if "s \<noteq> []" for root s st1
  proof -
    have "copy_tree STAGE_DEPTH h r s dest st2 \<noteq> None" for r dest st2
      by (rule copy_tree_ends [OF assms(1)]) (use that in \<open>simp_all add: STAGE_DEPTH_def Suc_le_eq\<close>)
    then show ?thesis by (auto simp: stage_source_def Let_def split: prod.splits sum.splits)
  qed
  have "build_share_images h plan run_dir env st1 \<noteq> None" if "pred_option (\<lambda>ro. ro_sources ro = fs_read p) (fp_ro_share plan)" for plan run_dir env st1
    using that stage_all_ends [of "fs_read p" "stage_source h (path_join run_dir ''ro-stage'')" st1] src assms(2)
    by (auto simp: build_share_images_def build_ro_image_def Let_def split: option.splits)
  moreover have "pred_option (\<lambda>ro. ro_sources ro = fs_read p) (fp_ro_share plan)"
    if "prepare_plan h p program args st = (Ok (plan, run_dir), st1)" for plan run_dir st1
    using that by (rule prepare_plan_Ok) (drule build_launch_plan_fields, simp add: plan_drives_def Let_def)
  ultimately have "build_share_images h plan run_dir (sp_env p) st1 \<noteq> None"
    if "prepare_plan h p program args st = (Ok (plan, run_dir), st1)" for plan run_dir st1
    using that by blast
  then show ?thesis by (force simp: firecracker_spawn_def split: prod.splits sum.splits option.splits)
qed

end
