(* ===== verification/Sandbox_Spec.thy ===== *)
theory Sandbox_Spec
  imports Policy_Wf Vm_Launch
begin

text \<open>
  Properties of the sandbox and of the path that starts a worker: the jail a command line describes, the
  isolation of a worker behind the proxy, what a failed spawn leaves behind, and that a micro-VM guest reads
  what its host wrote.
\<close>

section \<open>The jail\<close>

text \<open>C11. When the Linux backend starts a worker, reading its command line word by word, each option with the
  number of arguments it documents, gives exactly the jail of the policy: its resource ceilings, a private
  network unless the policy is the proxy's own or lists hosts without a proxy, a cleared environment and then
  the policy's variables, the policy's mounts in order, and the program with its arguments. Every path bound
  from the host is absolute, free of \<open>..\<close>, and bound from what it canonicalises to.\<close>

theorem worker_jail_exact:
  assumes "bwrap_spawn_under_policy dbg fs exec policy program args = Ok c"
  shows "\<exists>canon. read_jail (cmd_argv (child_cmd c)) = Some (policy_jail canon policy program args) \<and>
           (\<forall>p \<in> set (host_sources policy). is_absolute p \<and> ParentDir \<notin> set (components p) \<and>
              (\<exists>q \<in> set (host_sources policy). path_eq q p \<and> canonicalize_one dbg fs q = Ok (canon p)))"
  using assms by (elim bwrap_spawn_Ok) blast

definition plain_fs :: Fs where
  "plain_fs = \<lparr>canonicalize = Ok, is_file = (\<lambda>p. False), create_dir_all = (\<lambda>p. Ok ())\<rparr>"

definition sly_policy :: SandboxPolicy where
  "sly_policy = SandboxPolicy_default\<lparr>fs_read := [''/opt/app''], sp_env := [(''A'', ''--share-net''), (''--bind'', ''/'')]\<rparr>"

definition sly_child :: Child where
  "sly_child =
     (case bwrap_spawn_under_policy (\<lambda>p. p) plain_fs (\<lambda>c. Ok 7) sly_policy ''--share-net'' [''--''] of
        Ok c \<Rightarrow> c
      | Err e \<Rightarrow> \<lparr>child_pid = 0, child_cmd = \<lparr>cmd_argv = [], cmd_env = InheritEnv, cmd_dir = None, cmd_setsid = False\<rparr>\<rparr>)"

lemma sly_spawn: "bwrap_spawn_under_policy (\<lambda>p. p) plain_fs (\<lambda>c. Ok 7) sly_policy ''--share-net'' [''--''] = Ok sly_child"
proof -
  have "\<exists>c. bwrap_spawn_under_policy (\<lambda>p. p) plain_fs (\<lambda>c. Ok 7) sly_policy ''--share-net'' [''--''] = Ok c"
    by (simp add: bwrap_spawn_under_policy_def bwrap_validate_def bwrap_resolved_def host_sources_def
        resolved_insert_def canonicalize_one_def start_command_def sly_policy_def SandboxPolicy_default_def plain_fs_def
        validate_linux_bind_path_def is_absolute_def components_def seg_component_def List.map_filter_def Let_def)
  then show ?thesis by (auto simp: sly_child_def)
qed

theorem worker_jail_exact_witness:
  "bwrap_spawn_under_policy (\<lambda>p. p) plain_fs (\<lambda>c. Ok 7) sly_policy ''--share-net'' [''--''] = Ok sly_child \<and>
   (\<exists>j. read_jail (cmd_argv (child_cmd sly_child)) = Some j \<and> jl_net_private j \<and> jl_command j = [''--share-net'', ''--''])"
  using worker_jail_exact [OF sly_spawn] sly_spawn
  by (auto simp: policy_jail_def net_private_def sly_policy_def SandboxPolicy_default_def)

section \<open>Behind the proxy\<close>

text \<open>C6. Once force routing is configured, every worker the daemon starts on Linux in a bubblewrap jail has no
  network of its own, whatever its policy allows, unless the policy is the proxy's: the spawn of a registry
  entry either fails or gives a process whose command line keeps the private network namespace, with or
  without a broker.\<close>

theorem forced_worker_isolated:
  assumes "spawn_entry h (Some cfg) configs container_of
             (OnLinux \<lparr>bk_bwrap = bwrap_spawn_under_policy dbg fs exec, bk_firecracker = vm\<rparr>) name entry w = (Some (Ok wk), w')"
    and "te_sandbox_backend entry = None \<or> te_sandbox_backend entry = Some Bwrap"
    and "sp_net (te_policy entry) \<noteq> ProxyEgress"
  shows "bwrap_isolated (child_cmd (sw_child wk))"
proof -
  obtain policy scratch w1 where p: "prepare_ephemeral_scratch h (te_policy entry) (te_ephemeral_scratch entry) w = (Ok (policy, scratch), w1)"
    using assms(1)
    by (cases "prepare_ephemeral_scratch h (te_policy entry) (te_ephemeral_scratch entry) w")
       (auto simp: spawn_entry_def split: sum.splits)
  have net: "sp_net policy = sp_net (te_policy entry)"
    using p by (auto simp: prepare_ephemeral_scratch_def apply_scratch_def Let_def split: if_splits sum.splits)
  obtain wk0 w2 where g: "spawn_worker_with_optional_broker h (Some cfg) configs (bwrap_spawn_under_policy dbg fs exec)
       (bwrap_spawn_under_policy dbg fs exec) (entry_spec entry policy) (te_broker entry) name w1 = (Ok wk0, w2)"
    and wk: "sw_child wk = sw_child wk0"
    using assms(1,2) p by (auto simp: spawn_entry_def split: sum.splits prod.splits)
  have "sp_net (ws_policy (entry_spec entry policy)) \<noteq> ProxyEgress"
    using net assms(3) by (simp add: entry_spec_def split: prod.split)
  from bwrap.gated_worker_isolated [OF g this] show ?thesis by (simp add: wk)
qed

text \<open>A daemon on which every call succeeds and every sidecar is ready at the first poll.\<close>

definition calm_host :: Host where
  "calm_host =
     \<lparr>h_dbg = (\<lambda>s. s), h_pid = 7, h_macos = False, h_temp_dir = ''/tmp'', h_private_dir = (\<lambda>d. Ok ()),
      h_create_dir = (\<lambda>d. Ok ()), h_exists = (\<lambda>p. False),
      h_polls = (\<lambda>c i. \<lparr>po_ready = True, po_exited = Ok None, po_jitter = 0\<rparr>), h_stderr = (\<lambda>c. []),
      h_client = (\<lambda>c. Ok ()), h_strings_json = (\<lambda>xs. join_with '','' xs), h_pins_json = (\<lambda>m. []),
      h_url_hostport = (\<lambda>u. None)\<rparr>"

definition calm_world :: SpawnWorld where
  "calm_world = \<lparr>w_events = [], w_egress_seq = 0, w_broker_seq = 0, w_scratch_seq = 0\<rparr>"

definition calm_cfg :: ForceRoutingConfig where
  "calm_cfg = \<lparr>fr_proxy_bin = ''/opt/proxy'', fr_scratch_root = ''/tmp'', fr_cert_pins = None, fr_upstream_cas = None\<rparr>"

definition fetch_policy :: SandboxPolicy where
  "fetch_policy = SandboxPolicy_default\<lparr>fs_read := [''/opt/fetch''], sp_net := NetAllowlist [''example.org:443'']\<rparr>"

definition fetch_entry :: ToolEntry where
  "fetch_entry =
     \<lparr>te_binary = ''/opt/fetch'', te_policy = fetch_policy, te_wall_clock_ms = None, te_lifecycle = SingleUse,
      te_sandbox_backend = None, te_container_image = None, te_lockdown_shim = None, te_ephemeral_scratch = False,
      te_broker = None\<rparr>"

definition no_brokers :: BrokerConfigs where
  "no_brokers = \<lparr>bcs_embed = None, bcs_search = None\<rparr>"

definition calm_bwrap :: "SandboxPolicy \<Rightarrow> rstr \<Rightarrow> rstr list \<Rightarrow> SandboxError + Child" where
  "calm_bwrap = bwrap_spawn_under_policy (\<lambda>p. p) plain_fs (\<lambda>c. Ok 7)"

definition fetch_run :: "(ToolHostError + SupervisedWorker) option \<times> SpawnWorld" where
  "fetch_run = spawn_entry calm_host (Some calm_cfg) no_brokers (\<lambda>img. calm_bwrap)
     (OnLinux \<lparr>bk_bwrap = calm_bwrap, bk_firecracker = calm_bwrap\<rparr>) ''web-fetch'' fetch_entry calm_world"

definition is_ok :: "('e + 'a) option \<Rightarrow> bool" where
  "is_ok r = (case r of Some (Ok x) \<Rightarrow> True | _ \<Rightarrow> False)"

lemma fetch_run_ok: "is_ok (fst fetch_run)"
  by code_simp

lemma fetch_run_cases: obtains wk w' where "fetch_run = (Some (Ok wk), w')"
proof -
  obtain wk where "fst fetch_run = Some (Ok wk)"
    using fetch_run_ok by (auto simp: is_ok_def split: option.splits sum.splits)
  then show thesis using that [of wk "snd fetch_run"] by (metis prod.collapse)
qed

theorem forced_worker_isolated_witness:
  "\<exists>wk w'. fetch_run = (Some (Ok wk), w') \<and> bwrap_isolated (child_cmd (sw_child wk))"
proof (rule fetch_run_cases)
  fix wk w' assume r: "fetch_run = (Some (Ok wk), w')"
  have "bwrap_isolated (child_cmd (sw_child wk))"
    by (rule forced_worker_isolated [OF r [unfolded fetch_run_def calm_bwrap_def]])
       (simp_all add: fetch_entry_def fetch_policy_def)
  with r show ?thesis by blast
qed

text \<open>C15. A worker whose policy lists hosts, once force routing is configured, is started together with a proxy of
  its own. Read off the two command lines: the proxy is told exactly the worker's hosts and listens on the
  socket that is bound into the worker's jail; the worker is told that socket and no other, its network is
  private, and no read-only mount of it is the host's resolver configuration.\<close>

theorem worker_and_proxy_agree:
  assumes "spawn_worker_with_optional_broker h (Some cfg) configs (bwrap_spawn_under_policy dbg fs exec)
             (bwrap_spawn_under_policy dbg fs exec) spec broker name w = (Ok wk, w')"
    and "sp_net (ws_policy spec) = NetAllowlist hosts"
  shows "\<exists>es j pj. sw_egress wk = Some es \<and>
           read_jail (cmd_argv (child_cmd (sw_child wk))) = Some j \<and>
           read_jail (cmd_argv (child_cmd (sh_child (es_sidecar es)))) = Some pj \<and>
           map_of (jl_env pj) ENV_ALLOWLIST = Some (h_strings_json h hosts) \<and>
           map_of (jl_env pj) ENV_UDS = Some (sh_uds_path (es_sidecar es)) \<and>
           jl_net_private j \<and>
           map snd (filter (\<lambda>(k, v). k = ENV_UDS) (jl_env j)) = [sh_uds_path (es_sidecar es)] \<and>
           (\<exists>src. bind_of ReadWrite True src (sh_uds_path (es_sidecar es)) \<in> set (jl_mounts j)) \<and>
           (\<forall>m \<in> set (jl_mounts j). m_access m = ReadOnly \<longrightarrow> \<not> path_eq (m_dst m) RESOLV_CONF)"
  using assms(1)
proof (rule optional_broker_Ok)
  fix q w1 w2 wk0
  assume q: "broker_adds (ws_policy spec) q" and c: "sw_child wk = sw_child wk0" "sw_egress wk = sw_egress wk0"
    and s: "spawn_worker_maybe_forced h (Some cfg) (bwrap_spawn_under_policy dbg fs exec)
              (bwrap_spawn_under_policy dbg fs exec) (spec\<lparr>ws_policy := q\<rparr>) name w1 = (Ok wk0, w2)"
  have net: "sp_net (ws_policy (spec\<lparr>ws_policy := q\<rparr>)) = NetAllowlist hosts"
    using q assms(2) by (auto simp: broker_adds_def)
  from s net show ?thesis
  proof (rule maybe_forced_Ok)
    fix parts sh extra
    assume e: "sw_egress wk0 = Some \<lparr>es_sidecar = sh, es_scratch = Some (fpt_scratch parts)\<rparr>"
      and u: "sh_uds_path sh = path_join (fpt_scratch parts) UDS_FILE_NAME"
      and p: "bwrap_spawn_under_policy dbg fs exec (derive_lockdown_env (h_strings_json h)
                (proxy_policy (h_strings_json h) (sidecar_spec h cfg hosts name parts))) (fr_proxy_bin cfg) [] = Ok (sh_child sh)"
      and k: "bwrap_spawn_under_policy dbg fs exec (derive_lockdown_env (h_strings_json h)
                (forced_policy (ws_policy (spec\<lparr>ws_policy := q\<rparr>)) parts)) (ws_program (spec\<lparr>ws_policy := q\<rparr>))
                (ws_args (spec\<lparr>ws_policy := q\<rparr>)) = Ok (sw_child wk0)"
    let ?P = "derive_lockdown_env (h_strings_json h) (forced_policy q parts)"
    obtain canon where j: "read_jail (cmd_argv (child_cmd (sw_child wk0))) =
        Some (policy_jail canon ?P (ws_program spec) (ws_args spec))"
      using k by (elim bwrap_spawn_Ok) simp
    obtain canon' where pj: "read_jail (cmd_argv (child_cmd (sh_child sh))) =
        Some (policy_jail canon' (derive_lockdown_env (h_strings_json h)
          (proxy_policy (h_strings_json h) (sidecar_spec h cfg hosts name parts))) (fr_proxy_bin cfg) [])"
      using p by (elim bwrap_spawn_Ok) simp
    have "bind_of ReadWrite True (canon (sh_uds_path sh)) (sh_uds_path sh) \<in> set (policy_mounts canon ?P)"
      by (simp add: policy_mounts_def u)
    moreover have "\<not> path_eq (m_dst m) RESOLV_CONF"
      if "m \<in> set (policy_mounts canon ?P)" "m_access m = ReadOnly" for m
      using that forced_reads_no_resolver [of _ q parts]
      by (auto simp: policy_mounts_def bind_of_def base_not_resolver split: option.splits)
    moreover have "net_private ?P" using net by (simp add: net_private_def)
    ultimately show ?thesis
      using proxy_told_hosts [of "h_strings_json h" h cfg hosts name parts]
        forced_env_uds [of "h_strings_json h" q parts]
      by (intro exI [of _ "\<lparr>es_sidecar = sh, es_scratch = Some (fpt_scratch parts)\<rparr>"]
            exI [of _ "policy_jail canon ?P (ws_program spec) (ws_args spec)"] exI conjI, use c e in simp)
         (use j pj c in \<open>auto simp: policy_jail_def u\<close>)
  qed
qed

definition fetch_spec :: WorkerSpec where
  "fetch_spec = entry_spec fetch_entry fetch_policy"

definition gate_run :: "(ToolHostError + SupervisedWorker) \<times> SpawnWorld" where
  "gate_run = spawn_worker_with_optional_broker calm_host (Some calm_cfg) no_brokers calm_bwrap calm_bwrap fetch_spec None
     ''web-fetch'' calm_world"

lemma gate_run_ok: "is_ok (Some (fst gate_run))"
  by code_simp

lemma gate_run_cases: obtains wk w' where "gate_run = (Ok wk, w')"
proof -
  obtain wk where "fst gate_run = Ok wk" using gate_run_ok by (auto simp: is_ok_def split: sum.splits)
  then show thesis using that [of wk "snd gate_run"] by (metis prod.collapse)
qed

theorem worker_and_proxy_agree_witness:
  "\<exists>wk w' es pj. gate_run = (Ok wk, w') \<and> sw_egress wk = Some es \<and>
     read_jail (cmd_argv (child_cmd (sh_child (es_sidecar es)))) = Some pj \<and>
     map_of (jl_env pj) ENV_ALLOWLIST = Some ''example.org:443''"
proof (rule gate_run_cases)
  fix wk w' assume r: "gate_run = (Ok wk, w')"
  have net: "sp_net (ws_policy fetch_spec) = NetAllowlist [''example.org:443'']"
    by (simp add: fetch_spec_def entry_spec_def fetch_policy_def split: prod.split)
  have j: "h_strings_json calm_host [''example.org:443''] = ''example.org:443''" by (simp add: calm_host_def)
  show ?thesis
    using worker_and_proxy_agree [OF r [unfolded gate_run_def calm_bwrap_def] net] r unfolding j by blast
qed

text \<open>C29. Well-formedness is kept on the way to a spawn. From a policy whose paths the Linux backend accepts, and a
  configuration with absolute paths free of \<open>..\<close>, every policy that is handed to a backend (for the broker, for the
  proxy, for the worker with both sockets and the proxy's authority added) is accepted too: a spawn through backends
  that check every policy again behaves, in its result and in every effect, like the spawn without.\<close>

theorem spawned_policies_well_formed:
  assumes "accepts dbg fs (ws_policy spec)" and "pred_option wf_force force"
    and "pred_option wf_broker (bcs_embed configs)" and "pred_option wf_broker (bcs_search configs)"
  shows "spawn_worker_with_optional_broker h force configs (strict dbg fs b) (strict dbg fs sb) spec broker name w =
         spawn_worker_with_optional_broker h force configs b sb spec broker name w"
proof (cases broker)
  case None
  then show ?thesis using maybe_forced_strict [OF assms(1,2)] by (simp add: spawn_worker_with_optional_broker_def)
next
  case (Some bs)
  have wf: "wf_broker cfg" if "for_kind configs (bs_kind bs) = Some cfg" for cfg
    using that assms(3,4) by (cases "bs_kind bs") auto
  have "spawn_worker_maybe_forced h force (strict dbg fs b) (strict dbg fs sb)
          (spec\<lparr>ws_policy := rewrite_policy_for_broker (ws_policy spec) u k\<rparr>) name w' =
        spawn_worker_maybe_forced h force b sb (spec\<lparr>ws_policy := rewrite_policy_for_broker (ws_policy spec) u k\<rparr>) name w'"
    if "good_path u" for u k w'
    by (rule maybe_forced_strict) (use that assms(1,2) accepts_broker_rewrite in simp_all)
  then show ?thesis
    using Some wf broker_strict(1) broker_strict(2) [OF wf]
    by (auto simp: spawn_worker_with_optional_broker_def Let_def split: option.splits sum.splits prod.splits)
qed

definition wary_run :: "(ToolHostError + SupervisedWorker) \<times> SpawnWorld" where
  "wary_run = spawn_worker_with_optional_broker calm_host (Some calm_cfg) no_brokers (strict (\<lambda>p. p) plain_fs calm_bwrap)
     (strict (\<lambda>p. p) plain_fs calm_bwrap) fetch_spec None ''web-fetch'' calm_world"

theorem spawned_policies_well_formed_witness: "wary_run = gate_run"
  unfolding wary_run_def gate_run_def
proof (rule spawned_policies_well_formed)
  show "accepts (\<lambda>p. p) plain_fs (ws_policy fetch_spec)" by code_simp
  have "good_path ''/opt/proxy''" "good_path ''/tmp''" by code_simp+
  then show "pred_option wf_force (Some calm_cfg)" by (simp add: wf_force_def calm_cfg_def)
qed (simp_all add: no_brokers_def)

section \<open>Waiting and cleaning up\<close>

text \<open>The wait for a sidecar always ends, after at most 201 polls: it reports what the first poll that shows
  anything shows (the socket is there, the process has exited, the poll failed), and a timeout only when every
  poll up to the last one was quiet.\<close>

theorem sidecar_wait_ends:
  "\<exists>j \<le> 200. (\<forall>k < j. quiet_poll (polls k)) \<and> concludes (polls j) (wait_for_sidecar_ready READY_TIMEOUT polls)"
  using wait_from_bound [of READY_TIMEOUT 0 200 polls 0]
  by (simp add: wait_for_sidecar_ready_def READY_TIMEOUT_def READY_POLL_def)

definition late_polls :: "nat \<Rightarrow> Poll" where
  "late_polls k = \<lparr>po_ready = (3 \<le> k), po_exited = Ok None, po_jitter = 0\<rparr>"

theorem sidecar_wait_ends_witness:
  "\<exists>j. j \<le> 3 \<and> concludes (late_polls j) (wait_for_sidecar_ready READY_TIMEOUT late_polls)"
proof -
  obtain j where j: "\<forall>k < j. quiet_poll (late_polls k)" "concludes (late_polls j) (wait_for_sidecar_ready READY_TIMEOUT late_polls)"
    using sidecar_wait_ends [of late_polls] by blast
  have "\<not> quiet_poll (late_polls 3)" by (simp add: quiet_poll_def late_polls_def)
  then have "j \<le> 3" using j(1) by (metis not_less)
  with j(2) show ?thesis by blast
qed

text \<open>C18. A spawn that fails removes every directory it made and kills every process it started (the proxy, the broker),
  unless the wait for that process found it exited or no child of the daemon. One process is excepted: a worker that was
  launched and whose pipes could not be taken, which is the only way a spawn fails once its worker runs, stays behind.\<close>

theorem failed_spawn_settles:
  assumes "spawn_worker_with_optional_broker h force configs backend sb spec broker name w = (Err e, w')"
  shows "\<exists>evs. w_events w' = w_events w @ evs \<and>
           (\<forall>d. MadeDir d \<in> set evs \<longrightarrow> RemovedDir d \<in> set evs) \<and>
           (\<forall>c. Launched c \<in> set evs \<longrightarrow> Killed (child_pid c) \<in> set evs \<or> gone h c \<or> stranded h backend spec c)"
  using optional_broker_Err [OF assms] by (simp add: settles_def settled_def)

text \<open>A daemon whose proxy never comes up.\<close>

definition stuck_host :: Host where
  "stuck_host = calm_host\<lparr>h_polls := (\<lambda>c i. \<lparr>po_ready = False, po_exited = Err (io_other ''EINTR''), po_jitter = 0\<rparr>)\<rparr>"

definition stuck_run :: "(ToolHostError + SupervisedWorker) \<times> SpawnWorld" where
  "stuck_run = spawn_worker_with_optional_broker stuck_host (Some calm_cfg) no_brokers calm_bwrap calm_bwrap fetch_spec None
     ''web-fetch'' calm_world"

lemma stuck_run_err: "\<not> is_ok (Some (fst stuck_run))" "Suc 0 < length (w_events (snd stuck_run))"
  by code_simp+

theorem failed_spawn_settles_witness:
  "\<exists>e w' evs. stuck_run = (Err e, w') \<and> w_events w' = evs \<and> 1 < length evs \<and>
     (\<forall>d. MadeDir d \<in> set evs \<longrightarrow> RemovedDir d \<in> set evs) \<and>
     (\<forall>c. Launched c \<in> set evs \<longrightarrow> Killed (child_pid c) \<in> set evs \<or> gone stuck_host c)"
proof -
  obtain e where "fst stuck_run = Err e" using stuck_run_err(1) by (auto simp: is_ok_def split: sum.splits)
  then have e: "stuck_run = (Err e, snd stuck_run)" by (metis prod.collapse)
  have w: "w_events calm_world = []" by (simp add: calm_world_def)
  have "\<not> stranded stuck_host calm_bwrap fetch_spec c" for c by (simp add: stranded_def stuck_host_def calm_host_def)
  then show ?thesis
    using failed_spawn_settles [OF e [unfolded stuck_run_def]] stuck_run_err(2) e unfolding stuck_run_def [symmetric] w
    by (metis One_nat_def append_Nil)
qed

text \<open>The exception is real: with no pipes, the worker is launched and nothing kills it.\<close>

definition pipeless_run :: "(ToolHostError + SupervisedWorker) \<times> SpawnWorld" where
  "pipeless_run = spawn_worker_with_optional_broker (calm_host\<lparr>h_client := (\<lambda>c. Err (io_other ''child stdin not piped''))\<rparr>) None
     no_brokers calm_bwrap calm_bwrap fetch_spec None ''web-fetch'' calm_world"

lemma pipeless_worker_left_running:
  "\<not> is_ok (Some (fst pipeless_run)) \<and> map (\<lambda>e. case e of Launched c \<Rightarrow> True | _ \<Rightarrow> False) (w_events (snd pipeless_run)) = [True]"
  by code_simp

section \<open>The micro-VM\<close>

text \<open>C26. What the host writes on the kernel command line of a micro-VM is what the guest's first process reads
  from it: the worker's environment with every variable in order, its program and arguments, the mounts with
  their devices, and whether to relay egress and the broker; except that a single empty argument is read as no
  argument at all. The texts are UTF-8, as Rust strings are, and the program is not empty.\<close>

theorem guest_reads_plan:
  assumes "build_launch_plan dbg fs euid p im program args = Ok plan"
    and "env_text_ok (fp_env plan)" and "list_all (list_all utf8_valid) (plan_lines plan)"
    and "utf8_valid program" and "program \<noteq> []" and "list_all utf8_valid args"
  shows "parse_env_cmdline (fp_boot_args plan) = Ok (fp_env plan) \<and>
         parse_worker_cmdline (fp_boot_args plan) = Some program \<and>
         parse_worker_args_cmdline (fp_boot_args plan) = (if args = [[]] then [] else args) \<and>
         parse_mount_manifest (fp_boot_args plan) = plan_manifest plan \<and>
         (ec_enabled (parse_egress_config (fp_boot_args plan)) \<longleftrightarrow> fp_egress_host_uds plan \<noteq> None) \<and>
         (parse_broker_config (fp_boot_args plan) \<longleftrightarrow> fp_broker_host_uds plan \<noteq> None)"
  using assms(1)
proof (rule plan_cases)
  let ?ts = "plan_tokens (env_block (fp_env plan)) (mounts_block plan) (fp_egress_proxy_vsock_port plan \<noteq> None)
     (list_ex (\<lambda>(k, v). k = ''KASTELLAN_MICROVM_EGRESS_SELFTEST'' \<and> v = ''1'') (sp_env p))
     (broker_uds p \<noteq> None) program args"
  assume net: "plan_net p = Ok (fp_net_enabled plan, fp_egress_proxy_vsock_port plan, fp_egress_host_uds plan)"
    and env: "fp_env plan = plan_env euid p (fp_egress_host_uds plan)" "\<And>kv. kv \<in> set (fp_env plan) \<Longrightarrow> \<not> bad_env_pair kv"
    and d: "plan_drives p = (fp_ro_share plan, fp_rw_scratch plan, fp_persistent_mount plan)"
    and b: "fp_broker_host_uds plan = broker_uds p"
    and sep: "\<And>l s. l \<in> set (plan_lines plan) \<Longrightarrow> s \<in> set l \<Longrightarrow> TAB \<notin> set s \<and> NL \<notin> set s"
    and ba: "fp_boot_args plan = line_of ?ts"
  have "fp_env plan \<noteq> []" by (simp add: env(1) plan_env_nonempty)
  then have 1: "parse_env_cmdline (fp_boot_args plan) = Ok (fp_env plan)"
    using utf8_env_block [OF assms(2)] read_env_block env(2)
    by (simp add: parse_env_cmdline_def ba plan_token_lookup key_no_eq plan_tokens_lookup)
  have 2: "parse_worker_cmdline (fp_boot_args plan) = Some program"
    using assms(4,5) by (simp add: parse_worker_cmdline_def ba plan_token_lookup key_no_eq plan_tokens_lookup)
  have 3: "parse_worker_args_cmdline (fp_boot_args plan) = (if args = [[]] then [] else args)"
    using args_token [OF _ _ assms(6)]
    by (cases "args = []"; cases "args = [[]]") (simp_all add: parse_worker_args_cmdline_def ba plan_token_lookup key_no_eq plan_tokens_lookup)
  have 4: "parse_mount_manifest (fp_boot_args plan) = plan_manifest plan"
  proof (cases "mounts_block plan")
    case None
    then have "plan_lines plan = []" by (simp add: mounts_block_def split: if_splits)
    then show ?thesis using read_plan_lines [OF d sep] None
      by (simp add: parse_mount_manifest_def ba plan_token_lookup key_no_eq plan_tokens_lookup)
  next
    case (Some blk)
    then have "plan_lines plan \<noteq> []" "blk = join_with [NL] (map (join_with [TAB]) (plan_lines plan))"
      by (auto simp: mounts_block_def split: if_splits)
    then show ?thesis
      using Some utf8_mounts_block [OF assms(3) Some] fold_manifest_lines [OF _ sep] read_plan_lines [OF d sep]
      by (simp add: parse_mount_manifest_def ba plan_token_lookup key_no_eq plan_tokens_lookup)
  qed
  have w: "set (split_whitespace (fp_boot_args plan)) = set (map word ?ts)"
    unfolding ba by (simp add: split_line plan_tokens_nonempty plan_tokens_ok)
  have 5: "ec_enabled (parse_egress_config (fp_boot_args plan)) \<longleftrightarrow> fp_egress_host_uds plan \<noteq> None"
    using word_in_line [OF plan_tokens_ok, of "''kastellan.egress''" "''1''"] plan_net_uds [OF net]
    by (simp add: parse_egress_config_def w plan_tokens_flags del: set_map)
  have 6: "parse_broker_config (fp_boot_args plan) \<longleftrightarrow> fp_broker_host_uds plan \<noteq> None"
    using word_in_line [OF plan_tokens_ok, of "''kastellan.broker''" "''1''"]
    by (simp add: parse_broker_config_def w plan_tokens_flags b del: set_map)
  from 1 2 3 4 5 6 show ?thesis by blast
qed

definition py_policy :: SandboxPolicy where
  "py_policy = SandboxPolicy_default\<lparr>fs_read := [''/opt/lib'', ''/srv/data''], fs_write := [''/work''],
     sp_net := NetAllowlist [''a:443''], proxy_uds := Some ''/tmp/e.sock'', sp_env := [(''A'', ''x=y'')]\<rparr>"

definition py_image :: FirecrackerImage where
  "py_image = \<lparr>im_kernel_path = ''/vm/vmlinux'', im_rootfs_path = ''/vm/py.ext4''\<rparr>"

definition py_plan :: "SandboxError + FirecrackerLaunchPlan" where
  "py_plan = build_launch_plan (\<lambda>s. s) plain_fs 1000 py_policy py_image ''/usr/bin/py'' [''-c'', []]"

definition plan_text_ok :: "SandboxError + FirecrackerLaunchPlan \<Rightarrow> bool" where
  "plan_text_ok r =
     (case r of Ok plan \<Rightarrow> env_text_ok (fp_env plan) \<and> list_all (list_all utf8_valid) (plan_lines plan) | Err e \<Rightarrow> False)"

lemma py_plan_ok: "plan_text_ok py_plan" "utf8_valid ''/usr/bin/py''" "list_all utf8_valid [''-c'', []]"
  by code_simp+

theorem guest_reads_plan_witness:
  "\<exists>plan. py_plan = Ok plan \<and> parse_env_cmdline (fp_boot_args plan) = Ok (fp_env plan) \<and>
     parse_worker_args_cmdline (fp_boot_args plan) = [''-c'', []]"
proof (cases py_plan)
  case (Inr plan)
  have ok: "env_text_ok (fp_env plan)" "list_all (list_all utf8_valid) (plan_lines plan)"
    using py_plan_ok(1) unfolding Inr plan_text_ok_def by simp_all
  from guest_reads_plan [OF Inr [unfolded py_plan_def] ok py_plan_ok(2) _ py_plan_ok(3)] Inr show ?thesis
    by (intro exI [of _ plan]) simp
next
  case (Inl e)
  then show ?thesis using py_plan_ok(1) unfolding Inl plan_text_ok_def by simp
qed


text \<open>A host on which everything works, with a store whose image does not exist yet.\<close>

definition vm_meta :: "FileKind \<Rightarrow> Metadata" where
  "vm_meta k = \<lparr>md_kind = k, md_uid = 1000, md_mode = 448, md_len = 0\<rparr>"

definition vm_host :: VmHost where
  "vm_host = \<lparr>vh_dbg = (\<lambda>s. s), vh_print = (\<lambda>v. ''{}''), vh_sha256 = (\<lambda>s. GUEST_KERNEL_SHA256_X86_64), vh_arch = ''x86_64'',
     vh_euid = 1000, vh_pid = 7, vh_temp_dir = ''/tmp'', vh_var = (\<lambda>k. if k = ''PATH'' then Some ''/usr/bin'' else None), vh_fs = plain_fs,
     vh_lstat = (\<lambda>log q. Ok (vm_meta (if ends_with q ''.ext4'' then RegularFile else Directory))),
     vh_stat = (\<lambda>log q. if starts_with q ''/usr'' then Ok (vm_meta RegularFile) else Err (io_other ''ENOENT'')),
     vh_canon = (\<lambda>log q. Ok q), vh_list = (\<lambda>log q. Ok []), vh_read = (\<lambda>log q. Ok ''ELF''), vh_head = (\<lambda>log q. None),
     vh_bytes = (\<lambda>log q. 0), vh_do = (\<lambda>log e. Ok ()), vh_status = (\<lambda>log argv. Ok None), vh_signal = (\<lambda>pid. Ok ()),
     vh_exec = (\<lambda>c. Ok 42)\<rparr>"

definition vm_policy :: SandboxPolicy where
  "vm_policy = SandboxPolicy_default\<lparr>fs_write := [''/work''], sp_net := NetAllowlist [''a:443''], proxy_uds := Some ''/tmp/e.sock'',
     persistent_store := Some \<lparr>pst_host_backing = ''/var/kv/store.ext4'', pst_guest_mount = ''/data/kv'', pst_size_mib = 64\<rparr>\<rparr>"

definition vm_run :: "(SandboxError, Child) vm_result option" where
  "vm_run = firecracker_spawn vm_host vm_policy ''/usr/bin/py'' [] \<lparr>vs_log = [], vs_spawn_seq = 0, vs_cid_seq = 0\<rparr>"

lemma vm_run_ok: "(case vm_run of Some (Ok child, st) \<Rightarrow> child_pid child = 42 | _ \<Rightarrow> False)"
  by code_simp


end
