(* ===== verification/Config_Spec.thy ===== *)
theory Config_Spec
  imports Spawn_Facts
begin

text \<open>
  Properties of the egress configuration a worker's proxy is given: its certificate pins and its extra trust
  anchor.
\<close>

section \<open>Pins\<close>

lemma selected_iff:
  "h \<in> fst ` set (selected_pins m allowlist) \<longleftrightarrow>
   h \<in> fst ` set m \<and> (\<exists>e \<in> set allowlist. allowlist_entry_admits (to_ascii_lowercase (host_of_endpoint e)) h)"
  by (force simp: selected_pins_def Let_def list_ex_iff)

lemma host_char_ascii: "list_all host_char s \<Longrightarrow> list_all graph_char s \<and> list_all is_ascii s"
  by (induction s) (simp_all add: host_char_def graph_char_def is_ascii_def)

lemma lowercase_dot:
  assumes "to_ascii_lowercase s = ''.''" shows "s = ''.''"
proof -
  have l: "length s = 1" using assms length_to_ascii_lowercase [of s] by simp
  have "CHR ''.'' \<in> set s"
    using assms to_ascii_lowercase_mem [of "CHR ''.''" s] by (simp add: is_ascii_upper_def is_ascii_lower_def code_def)
  with l show ?thesis by (cases s) auto
qed

lemma exists_port_iff:
  assumes "lower (trim h) = h"
  shows "(\<exists>port. is_allowed_endpoint lower (from_endpoints lower allowlist) h port) \<longleftrightarrow>
         (\<exists>e \<in> set allowlist. \<exists>r. endpoint_rule lower e = Some r \<and> host_matches (rule_matcher r) h)"
proof -
  have rs: "r \<in> set (rules (from_endpoints lower allowlist)) \<longleftrightarrow> (\<exists>e \<in> set allowlist. endpoint_rule lower e = Some r)" for r
    by (force simp: from_endpoints_def List.map_filter_def)
  have port: "\<exists>port. case rule_port r of None \<Rightarrow> True | Some p \<Rightarrow> p = port" for r
    by (cases "rule_port r") auto
  show ?thesis unfolding is_allowed_endpoint_def list_ex_iff assms using rs port by blast
qed

lemma entry_rule:
  assumes "endpoint_entry e" and "\<And>s. list_all is_ascii s \<Longrightarrow> lower s = to_ascii_lowercase s"
  obtains r where "endpoint_rule lower e = Some r" "rule_port r \<noteq> None"
    "\<And>h. host_matches (rule_matcher r) h \<longleftrightarrow> allowlist_entry_admits (to_ascii_lowercase (host_of_endpoint e)) h"
  using assms(1)
proof (rule endpoint_entry_cases)
  fix host port p
  assume h: "host \<noteq> []" "host \<noteq> ''.''" "list_all host_char host" "host_of_endpoint e = host"
    "split_host_port e = (host, Some p)"
  have g: "list_all graph_char host" "list_all is_ascii host"
    using host_char_ascii [OF h(3)] by auto
  have low: "lower (trim host) = to_ascii_lowercase host" using assms(2) g trim_graphs by simp
  have "to_ascii_lowercase host \<noteq> []" using h(1) by (metis length_0_conv length_to_ascii_lowercase)
  moreover have "to_ascii_lowercase host \<noteq> ''.''" using h(2) lowercase_dot by blast
  ultimately obtain m where m: "parse_host lower host = Some m" using parse_host_entry low by metis
  show thesis
    by (rule that [of "\<lparr>rule_matcher = m, rule_port = Some p\<rparr>"])
       (use h m admits_matches [OF m low] in \<open>simp_all add: endpoint_rule_def\<close>)
qed

text \<open>C30. A worker's proxy is given the pins of a pinned host exactly when its allowlist lets it connect to that
  host on some port, for allowlist entries of the documented \<open>host:port\<close> shape: no pin is lost on the way and
  none is handed to a worker that cannot use it. \<open>lower\<close> is the proxy's Unicode lowercasing, which agrees with
  ASCII lowercasing on ASCII text.\<close>

theorem pins_selected_iff_reachable:
  assumes "list_all endpoint_entry allowlist" and "h \<in> fst ` set m"
    and "\<And>s. list_all is_ascii s \<Longrightarrow> lower s = to_ascii_lowercase s" and "lower (trim h) = h"
  shows "h \<in> fst ` set (selected_pins m allowlist) \<longleftrightarrow>
         (\<exists>port. is_allowed_endpoint lower (from_endpoints lower allowlist) h port)"
proof -
  have "(\<exists>port. is_allowed_endpoint lower (from_endpoints lower allowlist) h port) \<longleftrightarrow>
         (\<exists>e \<in> set allowlist. \<exists>r. endpoint_rule lower e = Some r \<and> host_matches (rule_matcher r) h)"
    using assms(4) by (rule exists_port_iff)
  moreover have "(\<exists>r. endpoint_rule lower e = Some r \<and> host_matches (rule_matcher r) h) \<longleftrightarrow>
        allowlist_entry_admits (to_ascii_lowercase (host_of_endpoint e)) h" if "e \<in> set allowlist" for e
    using assms(1) that by (auto simp: list_all_iff elim!: entry_rule [OF _ assms(3)])
  ultimately show ?thesis using assms(2) by (simp add: selected_iff)
qed

theorem pins_selected_iff_reachable_witness:
  "''api.example.com'' \<in> fst ` set (selected_pins [(''api.example.com'', [''sha256/AAAA''])] [''.example.com:443'']) \<longleftrightarrow>
   (\<exists>port. is_allowed_endpoint to_ascii_lowercase (from_endpoints to_ascii_lowercase [''.example.com:443''])
           ''api.example.com'' port)"
proof (rule pins_selected_iff_reachable)
  show "list_all endpoint_entry [''.example.com:443'']" by code_simp
  show "to_ascii_lowercase (trim ''api.example.com'') = ''api.example.com''" by code_simp
qed simp_all

text \<open>The comment at the selection says a pinned host is selected exactly when the proxy would let the worker
  connect to it. The proxy trims an entry before it reads it and the selection does not, so an entry written with
  a space in front opens the host and drops its pins: the worker talks to the pinned host unpinned.\<close>

theorem padded_entry_drops_pin:
  "is_allowed_endpoint to_ascii_lowercase (from_endpoints to_ascii_lowercase ['' example.com:443'']) ''example.com'' 443 \<and>
   selected_pins [(''example.com'', [''sha256/AAAA''])] ['' example.com:443''] = []"
  by code_simp

section \<open>Trust anchors\<close>

definition anchor_ok :: "rstr \<times> rstr \<Rightarrow> bool" where
  "anchor_ok e \<longleftrightarrow> is_absolute (snd e) \<and> (\<exists>ip. is_denied_range ip \<and> fst e = show_ip ip)"

lemma upstream_ca_entry_ok:
  assumes "upstream_ca_entry e out = Ok out'" and "list_all anchor_ok out"
  shows "list_all anchor_ok out'"
proof -
  obtain host path where e: "e = (host, path)" by (cases e)
  from assms(1) obtain key where k: "private_literal_key (trim host) = Some key" and a: "is_absolute (trim path)"
    and o: "out' = btree_insert key (trim path) out"
    by (auto simp: e upstream_ca_entry_def Let_def split: if_splits option.splits)
  have "anchor_ok (key, trim path)"
    using k a by (auto simp: anchor_ok_def private_literal_key_def split: option.splits if_splits)
  with assms(2) set_btree_insert [of key "trim path" out] show ?thesis by (auto simp: o list_all_iff)
qed

lemma parse_upstream_cas_ok:
  assumes "parse_upstream_cas from_json json = Ok m" shows "list_all anchor_ok m"
proof -
  have "list_all anchor_ok out'" if "try_fold upstream_ca_entry raw out = Ok out'" "list_all anchor_ok out" for raw out out'
    using that by (induction raw arbitrary: out) (auto simp: and_then_Ok_iff dest: upstream_ca_entry_ok split: sum.splits)
  then show ?thesis using assms by (auto simp: parse_upstream_cas_def split: sum.splits)
qed

lemma select_ca_cases:
  assumes "select_ca_for_allowlist m allowlist = Ok (Some path)"
  obtains host where "(host, path) \<in> set m" "host \<in> set (map canonical_allowlist_host allowlist)"
    "\<And>e. e \<in> set allowlist \<Longrightarrow> canonical_allowlist_host e = host"
proof -
  define hosts where "hosts = btree_set_of (map canonical_allowlist_host allowlist)"
  from assms obtain host where f: "filter (\<lambda>(host, path). host \<in> set hosts) m = [(host, path)]"
    and o: "filter (\<lambda>h. h \<noteq> host) hosts = []"
    by (auto simp: select_ca_for_allowlist_def hosts_def Let_def split: list.splits prod.splits if_splits)
  have "(host, path) \<in> set (filter (\<lambda>(host, path). host \<in> set hosts) m)" by (simp add: f)
  then have "(host, path) \<in> set m" "host \<in> set hosts" by auto
  moreover have "\<forall>h \<in> set hosts. h = host" using o by (auto simp: filter_empty_conv)
  ultimately show thesis using that [of host] by (auto simp: hosts_def)
qed

text \<open>C34. An extra trust anchor reaches a worker's proxy only when every entry of the worker's allowlist names one
  single address, that address is in a denied (private) range, and the anchor is the absolute path the operator
  keyed on it: no public host is ever verified against the operator's own authority.\<close>

theorem extra_ca_single_private_origin:
  assumes "parse_upstream_cas from_json json = Ok m" and "select_ca_for_allowlist m allowlist = Ok (Some path)"
  shows "\<exists>ip. is_denied_range ip \<and> (show_ip ip, path) \<in> set m \<and> is_absolute path \<and>
              allowlist \<noteq> [] \<and> list_all (\<lambda>e. canonical_allowlist_host e = show_ip ip) allowlist"
  using assms(2)
proof (rule select_ca_cases)
  fix host
  assume h: "(host, path) \<in> set m" "host \<in> set (map canonical_allowlist_host allowlist)"
    "\<And>e. e \<in> set allowlist \<Longrightarrow> canonical_allowlist_host e = host"
  have "anchor_ok (host, path)" using parse_upstream_cas_ok [OF assms(1)] h(1) by (auto simp: list_all_iff)
  then show ?thesis using h by (auto simp: anchor_ok_def list_all_iff)
qed

theorem extra_ca_single_private_origin_witness:
  "\<exists>ip. is_denied_range ip \<and> (show_ip ip, ''/etc/ca.pem'') \<in> set [(''192.168.0.7'', ''/etc/ca.pem'')] \<and>
        is_absolute ''/etc/ca.pem'' \<and> [''192.168.0.7:443''] \<noteq> [] \<and>
        list_all (\<lambda>e. canonical_allowlist_host e = show_ip ip) [''192.168.0.7:443'']"
proof (rule extra_ca_single_private_origin)
  show "parse_upstream_cas (\<lambda>_. Ok [('' 192.168.0.7'', ''/etc/ca.pem'')]) [] = Ok [(''192.168.0.7'', ''/etc/ca.pem'')]"
    by code_simp
  show "select_ca_for_allowlist [(''192.168.0.7'', ''/etc/ca.pem'')] [''192.168.0.7:443''] = Ok (Some ''/etc/ca.pem'')"
    by code_simp
qed

end
