(* ===== verification/Profile_Reading.thy ===== *)
theory Profile_Reading
  imports Sandbox_Mac Jail_Reading
begin

text \<open>
  A reference reading of a Seatbelt profile: a profile is a sequence of parenthesised rules, in which a
  string literal runs from a quote to the next quote that no backslash escapes. With clean paths the text
  \<open>build_profile\<close> gives reads back as one rule per line, and each rule as a clause: allow or deny, the operations and
  the target. What the clauses grant is compared with what the policy asks for, which is written down on its own,
  without the text of any rule. The spawn checks the characters of the paths of the policy, but the profile is built
  from the canonicalised ones.
\<close>

section \<open>Reading a profile\<close>

text \<open>The reader keeps the depth of open parentheses, whether it is inside a literal or just after a
  backslash there, and the characters of the rule so far, last first.\<close>

datatype lex = Outside | InLit | Escaped

fun lex_step :: "nat \<times> lex \<times> rstr \<Rightarrow> char \<Rightarrow> ((nat \<times> lex \<times> rstr) \<times> rstr option) option" where
  "lex_step (d, InLit, acc) c =
     Some ((d, (if c = CHR 0x22 then Outside else if c = CHR 0x5C then Escaped else InLit), c # acc), None)"
| "lex_step (d, Escaped, acc) c = Some ((d, InLit, c # acc), None)"
| "lex_step (d, Outside, acc) c =
     (if c = CHR ''('' then Some ((d + 1, Outside, c # acc), None)
      else if d = 0 then (if c = CHR 0x0A then Some ((0, Outside, acc), None) else None)
      else if c = CHR '')'' then
        (if d = 1 then Some ((0, Outside, []), Some (rev (c # acc))) else Some ((d - 1, Outside, c # acc), None))
      else if c = CHR 0x22 then Some ((d, InLit, c # acc), None)
      else Some ((d, Outside, c # acc), None))"

fun lex_run :: "nat \<times> lex \<times> rstr \<Rightarrow> rstr \<Rightarrow> ((nat \<times> lex \<times> rstr) \<times> rstr list) option" where
  "lex_run st [] = Some (st, [])"
| "lex_run st (c # cs) =
     (case lex_step st c of
        None \<Rightarrow> None
      | Some (st', out) \<Rightarrow>
          (case lex_run st' cs of
             None \<Rightarrow> None
           | Some (st'', outs) \<Rightarrow> Some (st'', (case out of None \<Rightarrow> outs | Some r \<Rightarrow> r # outs))))"

definition start :: "nat \<times> lex \<times> rstr" where "start = (0, Outside, [])"

definition read_profile :: "rstr \<Rightarrow> rstr list option" where
  "read_profile s = (case lex_run start s of Some (st, rs) \<Rightarrow> if st = start then Some rs else None | None \<Rightarrow> None)"

lemma lex_run_append:
  "lex_run st (a @ b) =
   (case lex_run st a of
      None \<Rightarrow> None
    | Some (st', rs) \<Rightarrow> (case lex_run st' b of None \<Rightarrow> None | Some (st'', rs') \<Rightarrow> Some (st'', rs @ rs')))"
  by (induction a arbitrary: st) (auto split: option.splits)

lemma lex_run_literal:
  assumes "CHR 0x22 \<notin> set p" and "CHR 0x5C \<notin> set p"
  shows "lex_run (d, InLit, acc) p = Some ((d, InLit, rev p @ acc), [])"
  using assms by (induction p arbitrary: acc) auto

text \<open>A line that the reader takes for exactly one rule.\<close>

definition one_rule :: "rstr \<Rightarrow> bool" where
  "one_rule l \<longleftrightarrow> lex_run start l = Some (start, [l])"

lemma read_lines:
  assumes "list_all one_rule ls"
  shows "read_profile (concat (map (\<lambda>l. l @ [NL]) ls)) = Some ls"
proof -
  have "lex_run start (concat (map (\<lambda>l. l @ [NL]) ls)) = Some (start, ls)"
    using assms
    by (induction ls) (auto simp: one_rule_def lex_run_append, simp_all add: start_def NL_def)
  then show ?thesis by (simp add: read_profile_def)
qed

definition literal_ok :: "rstr \<Rightarrow> bool" where
  "literal_ok p \<longleftrightarrow> CHR 0x22 \<notin> set p \<and> CHR 0x5C \<notin> set p"

lemma one_rule_around_literal:
  assumes "literal_ok p" and "lex_run start a = Some ((d, InLit, rev a), [])"
    and "\<And>acc. lex_run (d, InLit, acc) b = Some (start, [rev acc @ b])"
  shows "one_rule (a @ p @ b)"
  using assms by (simp add: one_rule_def lex_run_append lex_run_literal literal_ok_def)

lemma one_rule_read: "literal_ok p \<Longrightarrow> one_rule (read_rule p)"
  using one_rule_around_literal [of p "''(allow file-read* (subpath '' @ DQ" 2 "DQ @ ''))''"]
  by (simp add: read_rule_def start_def DQ_def)

lemma one_rule_write: "literal_ok p \<Longrightarrow> one_rule (write_rule p)"
  using one_rule_around_literal [of p "''(allow file-read* file-write* (subpath '' @ DQ" 2 "DQ @ ''))''"]
  by (simp add: write_rule_def start_def DQ_def)

text \<open>\<open>dbg\<close> prints a path as a quoted literal: between the quotes no quote or backslash stays unescaped.
  For a path without characters that need escaping this is the path between quotes.\<close>

lemma one_rule_uds:
  "literal_ok p \<Longrightarrow> dbg p = DQ @ p @ DQ \<Longrightarrow> one_rule (uds_rule dbg p)"
  using one_rule_around_literal [of p "''(allow network-outbound (remote unix-socket (path-literal '' @ DQ" 3 "DQ @ '')))''"]
  by (simp add: uds_rule_def start_def DQ_def)

lemma fixed_rules:
  "list_all one_rule profile_base" "list_all one_rule browser_rules" "list_all one_rule loopback_rules"
  "one_rule ''(deny network-outbound)''" "one_rule ''(allow network*)''"
  by (simp_all add: one_rule_def profile_base_def browser_rules_def loopback_rules_def start_def DQ_def)

definition clean_policy :: "(rstr \<Rightarrow> rstr) \<Rightarrow> SandboxPolicy \<Rightarrow> bool" where
  "clean_policy dbg p \<longleftrightarrow>
     list_all literal_ok (seatbelt_paths p) \<and>
     list_all (\<lambda>u. dbg u = DQ @ u @ DQ)
       ((case proxy_uds p of None \<Rightarrow> [] | Some u \<Rightarrow> [u]) @ (case broker_uds p of None \<Rightarrow> [] | Some u \<Rightarrow> [u]))"

lemma clean_rules:
  assumes "clean_policy dbg p" shows "list_all one_rule (profile_rules dbg p)"
proof -
  have "list_all one_rule (network_rules dbg p)"
    using assms
    by (cases "proxy_uds p"; cases "sp_net p")
       (simp_all add: network_rules_def clean_policy_def seatbelt_paths_def fixed_rules one_rule_uds)
  moreover have "list_all (\<lambda>q. one_rule (read_rule q)) (fs_read p)" "list_all (\<lambda>q. one_rule (write_rule q)) (fs_write p)"
    using assms one_rule_read one_rule_write by (auto simp: clean_policy_def seatbelt_paths_def list_all_iff)
  ultimately show ?thesis
    using assms
    by (cases "broker_uds p"; cases "persistent_store p")
       (simp_all add: profile_rules_def clean_policy_def seatbelt_paths_def fixed_rules list.pred_map comp_def
        one_rule_write one_rule_uds)
qed

lemma profile_reads_back:
  "clean_policy dbg p \<Longrightarrow> read_profile (build_profile dbg p) = Some (profile_rules dbg p)"
  unfolding build_profile_def by (rule read_lines) (rule clean_rules)

text \<open>The one rule that opens the network.\<close>

definition open_network :: rstr where "open_network = ''(allow network*)''"

section \<open>Clauses\<close>

datatype SbTarget = Everything | PathIs rstr | PathBelow rstr | UnixSocket rstr | LocalIp rstr | RemoteIp rstr

type_synonym clause = "bool \<times> rstr list \<times> SbTarget"

definition rule_words :: "rstr \<Rightarrow> rstr list" where
  "rule_words s = filter (\<lambda>w. w \<noteq> []) (split_char CHR '' '' s)"

definition read_head :: "rstr \<Rightarrow> (bool \<times> rstr list) option" where
  "read_head s =
     (case rule_words s of
        [] \<Rightarrow> None
      | w # ops \<Rightarrow> if w = ''allow'' then Some (True, ops) else if w = ''deny'' then Some (False, ops) else None)"

definition read_target :: "rstr list list \<Rightarrow> rstr \<Rightarrow> SbTarget option" where
  "read_target kinds lit =
     (if kinds = [[''subpath'']] then Some (PathBelow lit)
      else if kinds = [[''literal'']] then Some (PathIs lit)
      else if kinds = [[''remote'', ''unix-socket''], [''path-literal'']] then Some (UnixSocket lit)
      else if kinds = [[''local'', ''ip'']] then Some (LocalIp lit)
      else if kinds = [[''remote'', ''ip'']] then Some (RemoteIp lit)
      else None)"

text \<open>A rule has no literal, or one literal inside the innermost parentheses: the text around it.\<close>

definition literal_shape :: "rstr \<Rightarrow> rstr \<Rightarrow> ((bool \<times> rstr list) \<times> rstr list list) option" where
  "literal_shape a b =
     (case split_char CHR ''('' a of
        e # w # kinds \<Rightarrow>
          if e = [] \<and> b = replicate (length kinds + 1) CHR '')''
          then map_option (\<lambda>h. (h, map rule_words kinds)) (read_head w) else None
      | _ \<Rightarrow> None)"

definition read_clause :: "rstr \<Rightarrow> clause option" where
  "read_clause l =
     (case split_char CHR 0x22 l of
        [w] \<Rightarrow>
          if starts_with w ''('' \<and> ends_with w '')''
          then map_option (\<lambda>(a, ops). (a, ops, Everything)) (read_head (butlast (tl w))) else None
      | [a, lit, b] \<Rightarrow>
          Option.bind (literal_shape a b) (\<lambda>((x, ops), kinds). map_option (\<lambda>t. (x, ops, t)) (read_target kinds lit))
      | _ \<Rightarrow> None)"

text \<open>What the clauses grant: the paths that may be read, those that may be read and written, those whose metadata may be
  read, the clauses about the network in their order (the last one that fits decides), and every other clause.\<close>

record SeatbeltGrants =
  sb_readable :: "SbTarget list"
  sb_writable :: "SbTarget list"
  sb_metadata :: "SbTarget list"
  sb_network :: "clause list"
  sb_other :: "clause list"

definition grants_of :: "rstr list \<Rightarrow> clause list \<Rightarrow> SbTarget list" where
  "grants_of ops cs = List.map_filter (\<lambda>(a, os, t). if a \<and> os = ops then Some t else None) cs"

definition about_network :: "clause \<Rightarrow> bool" where
  "about_network c = (case c of (a, ops, t) \<Rightarrow> list_ex (\<lambda>w. starts_with w ''network'') ops)"

definition about_files :: "clause \<Rightarrow> bool" where
  "about_files c = (case c of (a, ops, t) \<Rightarrow> a \<and> ops \<in> {[''file-read*''], [''file-read*'', ''file-write*''], [''file-read-metadata'']})"

definition seatbelt_of :: "clause list \<Rightarrow> SeatbeltGrants" where
  "seatbelt_of cs =
     \<lparr>sb_readable = grants_of [''file-read*''] cs, sb_writable = grants_of [''file-read*'', ''file-write*''] cs,
      sb_metadata = grants_of [''file-read-metadata''] cs, sb_network = filter about_network cs,
      sb_other = filter (\<lambda>c. \<not> about_network c \<and> \<not> about_files c) cs\<rparr>"

fun read_clauses :: "rstr list \<Rightarrow> clause list option" where
  "read_clauses [] = Some []"
| "read_clauses (l # ls) =
     (case (read_clause l, read_clauses ls) of (Some c, Some cs) \<Rightarrow> Some (c # cs) | _ \<Rightarrow> None)"

definition read_seatbelt :: "rstr \<Rightarrow> SeatbeltGrants option" where
  "read_seatbelt s =
     (case read_profile s of
        Some (v # ls) \<Rightarrow> if v = ''(version 1)'' then map_option seatbelt_of (read_clauses ls) else None
      | _ \<Rightarrow> None)"

section \<open>What a policy asks for\<close>

definition BROWSER_OPERATIONS :: "rstr list" where
  "BROWSER_OPERATIONS = [''ipc-posix-shm*'', ''iokit-open'', ''iokit-get-properties'', ''mach-lookup'', ''mach-register'',
     ''sysctl-write'', ''system-socket'']"

definition policy_network :: "(rstr \<Rightarrow> rstr) \<Rightarrow> SandboxPolicy \<Rightarrow> clause list" where
  "policy_network canon p =
     (if \<not> net_private p then [(True, [''network*''], Everything)]
      else if sp_net p = DenyNet then []
      else [(False, [''network-outbound''], Everything)] @
           (case proxy_uds p of None \<Rightarrow> [] | Some u \<Rightarrow> [(True, [''network-outbound''], UnixSocket (canon u))]) @
           (if sp_profile p = WorkerBrowserClient
            then [(True, [''network-bind''], LocalIp ''localhost:*''), (True, [''network-inbound''], LocalIp ''localhost:*''),
                  (True, [''network-outbound''], RemoteIp ''localhost:*'')] else [])) @
     (case broker_uds p of None \<Rightarrow> [] | Some u \<Rightarrow> [(True, [''network-outbound''], UnixSocket (canon u))])"

definition policy_seatbelt :: "(rstr \<Rightarrow> rstr) \<Rightarrow> SandboxPolicy \<Rightarrow> SeatbeltGrants" where
  "policy_seatbelt canon p =
     \<lparr>sb_readable = [PathIs ''/'', PathBelow ''/usr/lib'', PathBelow ''/usr/libexec'', PathBelow ''/System/Library'',
        PathIs ''/dev/random'', PathIs ''/dev/urandom''] @ map (\<lambda>q. PathBelow (canon q)) (fs_read p),
      sb_writable = [PathIs ''/dev/null'', PathIs ''/dev/zero'', PathBelow ''/dev/fd'', PathIs ''/dev/dtracehelper''] @
        map (\<lambda>q. PathBelow (canon q)) (fs_write p @ (case persistent_store p of None \<Rightarrow> [] | Some ps \<Rightarrow> [pst_guest_mount ps])),
      sb_metadata = [PathBelow ''/''],
      sb_network = policy_network canon p,
      sb_other = (False, [''default''], Everything) #
        map (\<lambda>w. (True, [w], Everything)) ([''process-fork'', ''process-exec*'', ''sysctl-read''] @
          (if sp_profile p = WorkerBrowserClient then BROWSER_OPERATIONS else []))\<rparr>"

section \<open>The profile refines the policy\<close>

lemma split_literal:
  "CHR 0x22 \<notin> set a \<Longrightarrow> literal_ok q \<Longrightarrow> CHR 0x22 \<notin> set b \<Longrightarrow> split_char CHR 0x22 (a @ DQ @ q @ DQ @ b) = [a, q, b]"
  using split_join [of "[a, q, b]" "CHR 0x22"] by (simp add: literal_ok_def DQ_def)

lemma read_clause_literal:
  assumes "literal_shape a b = Some ((x, ops), kinds)" "literal_ok q" "CHR 0x22 \<notin> set a" "CHR 0x22 \<notin> set b"
  shows "read_clause (a @ DQ @ q @ DQ @ b) = map_option (\<lambda>t. (x, ops, t)) (read_target kinds q)"
  unfolding read_clause_def split_literal [OF assms(3,2,4)] using assms(1) by simp

lemma literal_shapes:
  "literal_shape ''(allow file-read* (subpath '' ''))'' = Some ((True, [''file-read*'']), [[''subpath'']])"
  "literal_shape ''(allow file-read* file-write* (subpath '' ''))'' = Some ((True, [''file-read*'', ''file-write*'']), [[''subpath'']])"
  "literal_shape ''(allow network-outbound (remote unix-socket (path-literal '' '')))'' =
     Some ((True, [''network-outbound'']), [[''remote'', ''unix-socket''], [''path-literal'']])"
  by code_simp+

lemma read_clause_paths:
  assumes "literal_ok q"
  shows "read_clause (read_rule q) = Some (True, [''file-read*''], PathBelow q)"
    and "read_clause (write_rule q) = Some (True, [''file-read*'', ''file-write*''], PathBelow q)"
  unfolding read_rule_def write_rule_def
  by (subst read_clause_literal [OF literal_shapes(1) assms] read_clause_literal [OF literal_shapes(2) assms];
      simp add: read_target_def)+

lemma read_clause_uds:
  assumes "literal_ok q" "dbg q = DQ @ q @ DQ"
  shows "read_clause (uds_rule dbg q) = Some (True, [''network-outbound''], UnixSocket q)"
  unfolding uds_rule_def assms(2) append_assoc
  by (subst read_clause_literal [OF literal_shapes(3) assms(1)]; simp add: read_target_def)

lemma read_clauses_append:
  "read_clauses (a @ b) = (case (read_clauses a, read_clauses b) of (Some cs, Some ds) \<Rightarrow> Some (cs @ ds) | _ \<Rightarrow> None)"
  by (induction a) (auto split: option.splits)

lemma read_clauses_map: "(\<And>x. x \<in> set xs \<Longrightarrow> read_clause (f x) = Some (g x)) \<Longrightarrow> read_clauses (map f xs) = Some (map g xs)"
  by (induction xs) auto

definition base_clauses :: "clause list" where
  "base_clauses =
     [(False, [''default''], Everything), (True, [''process-fork''], Everything), (True, [''process-exec*''], Everything),
      (True, [''file-read*''], PathIs ''/''), (True, [''file-read*''], PathBelow ''/usr/lib''),
      (True, [''file-read*''], PathBelow ''/usr/libexec''), (True, [''file-read*''], PathBelow ''/System/Library''),
      (True, [''file-read-metadata''], PathBelow ''/''), (True, [''sysctl-read''], Everything),
      (True, [''file-read*'', ''file-write*''], PathIs ''/dev/null''), (True, [''file-read*'', ''file-write*''], PathIs ''/dev/zero''),
      (True, [''file-read*''], PathIs ''/dev/random''), (True, [''file-read*''], PathIs ''/dev/urandom''),
      (True, [''file-read*'', ''file-write*''], PathBelow ''/dev/fd''), (True, [''file-read*'', ''file-write*''], PathIs ''/dev/dtracehelper'')]"

lemma fixed_clauses:
  "read_clauses (tl profile_base) = Some base_clauses"
  "read_clauses browser_rules = Some (map (\<lambda>w. (True, [w], Everything)) BROWSER_OPERATIONS)"
  "read_clauses loopback_rules = Some [(True, [''network-bind''], LocalIp ''localhost:*''),
     (True, [''network-inbound''], LocalIp ''localhost:*''), (True, [''network-outbound''], RemoteIp ''localhost:*'')]"
  "read_clause ''(deny network-outbound)'' = Some (False, [''network-outbound''], Everything)"
  "read_clause ''(allow network*)'' = Some (True, [''network*''], Everything)"
  by code_simp+

lemma network_clauses:
  assumes "clean_policy dbg p"
  shows "read_clauses (network_rules dbg p @ (case broker_uds p of None \<Rightarrow> [] | Some uds \<Rightarrow> [uds_rule dbg uds])) = Some (policy_network (\<lambda>q. q) p)"
  using assms
  by (cases "proxy_uds p"; cases "sp_net p"; cases "broker_uds p")
     (simp_all add: network_rules_def policy_network_def net_private_def clean_policy_def seatbelt_paths_def fixed_clauses
      read_clause_uds read_clauses_append)

definition path_clauses :: "SandboxPolicy \<Rightarrow> clause list" where
  "path_clauses p =
     map (\<lambda>q. (True, [''file-read*''], PathBelow q)) (fs_read p) @
     map (\<lambda>q. (True, [''file-read*'', ''file-write*''], PathBelow q))
       (fs_write p @ (case persistent_store p of None \<Rightarrow> [] | Some ps \<Rightarrow> [pst_guest_mount ps]))"

lemma profile_clauses:
  assumes "clean_policy dbg p"
  shows "read_clauses (tl (profile_rules dbg p)) =
    Some (base_clauses @ path_clauses p @
      (if sp_profile p = WorkerBrowserClient then map (\<lambda>w. (True, [w], Everything)) BROWSER_OPERATIONS else []) @
      policy_network (\<lambda>q. q) p)"
proof -
  have tl: "tl (profile_rules dbg p) = tl profile_base @ map read_rule (fs_read p) @
      map write_rule (fs_write p @ (case persistent_store p of None \<Rightarrow> [] | Some ps \<Rightarrow> [pst_guest_mount ps])) @
      (if sp_profile p = WorkerBrowserClient then browser_rules else []) @
      (network_rules dbg p @ (case broker_uds p of None \<Rightarrow> [] | Some uds \<Rightarrow> [uds_rule dbg uds]))"
    by (simp add: profile_rules_def profile_base_def split: option.split)
  have ok: "literal_ok q" if "q \<in> set (fs_read p) \<or> q \<in> set (fs_write p @ (case persistent_store p of None \<Rightarrow> [] | Some ps \<Rightarrow> [pst_guest_mount ps]))" for q
    using assms that by (auto simp: clean_policy_def seatbelt_paths_def list_all_iff split: option.splits)
  have r: "read_clauses (map read_rule (fs_read p)) = Some (map (\<lambda>q. (True, [''file-read*''], PathBelow q)) (fs_read p))"
    by (rule read_clauses_map) (simp add: read_clause_paths ok)
  have w: "read_clauses (map write_rule (fs_write p @ (case persistent_store p of None \<Rightarrow> [] | Some ps \<Rightarrow> [pst_guest_mount ps]))) =
      Some (map (\<lambda>q. (True, [''file-read*'', ''file-write*''], PathBelow q))
        (fs_write p @ (case persistent_store p of None \<Rightarrow> [] | Some ps \<Rightarrow> [pst_guest_mount ps])))"
    by (rule read_clauses_map) (rule read_clause_paths(2) [OF ok], blast)
  have b: "read_clauses (if sp_profile p = WorkerBrowserClient then browser_rules else []) =
      Some (if sp_profile p = WorkerBrowserClient then map (\<lambda>w. (True, [w], Everything)) BROWSER_OPERATIONS else [])"
    by (simp add: fixed_clauses)
  show ?thesis
    unfolding tl read_clauses_append [of "tl profile_base"] read_clauses_append [of "map read_rule (fs_read p)"]
      read_clauses_append [of "map write_rule (fs_write p @ (case persistent_store p of None \<Rightarrow> [] | Some ps \<Rightarrow> [pst_guest_mount ps]))"]
      read_clauses_append [of "if sp_profile p = WorkerBrowserClient then browser_rules else []"]
      fixed_clauses r w b network_clauses [OF assms]
    by (simp add: path_clauses_def)
qed

lemma grants_append: "grants_of ops (a @ b) = grants_of ops a @ grants_of ops b"
  by (simp add: grants_of_def map_filter_append)

lemma network_is_about: "list_all about_network (policy_network canon p)"
  by (auto simp: policy_network_def about_network_def split: option.splits)

lemma network_grants:
  "grants_of [''file-read*''] (policy_network canon p) = []" "grants_of [''file-read*'', ''file-write*''] (policy_network canon p) = []"
  "grants_of [''file-read-metadata''] (policy_network canon p) = []"
  by (auto simp: policy_network_def grants_of_def List.map_filter_simps split: option.splits)

lemma path_grants:
  "grants_of [''file-read*''] (path_clauses p) = map PathBelow (fs_read p)"
  "grants_of [''file-read*'', ''file-write*''] (path_clauses p) =
     map PathBelow (fs_write p @ (case persistent_store p of None \<Rightarrow> [] | Some ps \<Rightarrow> [pst_guest_mount ps]))"
  "grants_of [''file-read-metadata''] (path_clauses p) = []"
  unfolding path_clauses_def grants_append
  by (simp_all add: grants_of_def map_filter_map_Some [where h = PathBelow] map_filter_map_None map_filter_append
      List.map_filter_simps split: option.split)

lemma path_about: "c \<in> set (path_clauses p) \<Longrightarrow> about_files c \<and> \<not> about_network c"
  by (auto simp: path_clauses_def about_files_def about_network_def)

lemma operation_clauses:
  defines "cs \<equiv> map (\<lambda>w. (True, [w], Everything)) BROWSER_OPERATIONS"
  shows "grants_of [''file-read*''] cs = []" "grants_of [''file-read*'', ''file-write*''] cs = []" "grants_of [''file-read-metadata''] cs = []"
    "filter about_network cs = []" "filter (\<lambda>c. \<not> about_network c \<and> \<not> about_files c) cs = cs"
  unfolding cs_def by code_simp+

lemma base_grants:
  "grants_of [''file-read*''] base_clauses = [PathIs ''/'', PathBelow ''/usr/lib'', PathBelow ''/usr/libexec'', PathBelow ''/System/Library'',
     PathIs ''/dev/random'', PathIs ''/dev/urandom'']"
  "grants_of [''file-read*'', ''file-write*''] base_clauses = [PathIs ''/dev/null'', PathIs ''/dev/zero'', PathBelow ''/dev/fd'', PathIs ''/dev/dtracehelper'']"
  "grants_of [''file-read-metadata''] base_clauses = [PathBelow ''/'']"
  "filter about_network base_clauses = []"
  "filter (\<lambda>c. \<not> about_network c \<and> \<not> about_files c) base_clauses =
     [(False, [''default''], Everything), (True, [''process-fork''], Everything), (True, [''process-exec*''], Everything),
      (True, [''sysctl-read''], Everything)]"
  by code_simp+

lemma seatbelt_of_profile:
  "seatbelt_of (base_clauses @ path_clauses p @
      (if sp_profile p = WorkerBrowserClient then map (\<lambda>w. (True, [w], Everything)) BROWSER_OPERATIONS else []) @
      policy_network (\<lambda>q. q) p) = policy_seatbelt (\<lambda>q. q) p"
proof -
  have f: "filter about_network (path_clauses p) = []" "filter (\<lambda>c. \<not> about_network c \<and> \<not> about_files c) (path_clauses p) = []"
    using path_about by (auto simp: filter_empty_conv)
  have n: "filter about_network (policy_network (\<lambda>q. q) p) = policy_network (\<lambda>q. q) p"
      "filter (\<lambda>c. \<not> about_network c \<and> \<not> about_files c) (policy_network (\<lambda>q. q) p) = []"
    using network_is_about [of "\<lambda>q. q" p] by (auto simp: list_all_iff filter_empty_conv filter_id_conv)
  have e: "grants_of ops [] = []" for ops by (simp add: grants_of_def List.map_filter_simps)
  show ?thesis
    by (cases "sp_profile p = WorkerBrowserClient")
       (simp_all add: seatbelt_of_def policy_seatbelt_def grants_append path_grants base_grants operation_clauses network_grants f n e)
qed

lemma profile_grants:
  assumes "clean_policy dbg p" shows "read_seatbelt (build_profile dbg p) = Some (policy_seatbelt (\<lambda>q. q) p)"
proof -
  obtain rs where rs: "profile_rules dbg p = ''(version 1)'' # rs" by (simp add: profile_rules_def profile_base_def)
  have "read_clauses rs = read_clauses (tl (profile_rules dbg p))" unfolding rs by simp
  then show ?thesis
    using profile_reads_back [OF assms] profile_clauses [OF assms] seatbelt_of_profile [of p]
    unfolding rs by (simp add: read_seatbelt_def)
qed

end
