(* ===== verification/Mac_Spec.thy ===== *)
theory Mac_Spec
  imports Profile_Reading Guest_Init
begin

text \<open>
  Properties of the macOS backends, and the inputs on which a backend does not do what its comments say.
\<close>

section \<open>Seatbelt\<close>

lemma canon_list_Ok:
  "canon_list dbg fs ps = Ok qs \<Longrightarrow> q \<in> set qs \<Longrightarrow> \<exists>p \<in> set ps. canonicalize_one dbg fs p = Ok q"
  by (induction ps arbitrary: qs) (auto simp: and_then_Ok_iff)

lemma canon_option_Ok:
  "canon_option dbg fs u = Ok v \<longleftrightarrow>
   (case u of None \<Rightarrow> v = None | Some p \<Rightarrow> (\<exists>q. canonicalize_one dbg fs p = Ok q \<and> v = Some q))"
  by (cases u) (auto simp: and_then_Ok_iff)

lemma canon_store_Ok:
  "canon_store dbg fs u = Ok v \<Longrightarrow>
   (case u of None \<Rightarrow> v = None
    | Some s \<Rightarrow> (\<exists>h g. canonicalize_one dbg fs (pst_host_backing s) = Ok h \<and> canonicalize_one dbg fs (pst_guest_mount s) = Ok g \<and>
                 v = Some \<lparr>pst_host_backing = h, pst_guest_mount = g, pst_size_mib = pst_size_mib s\<rparr>))"
  by (cases u) (auto simp: and_then_Ok_iff)

lemma canonicalize_policy_paths_Ok:
  assumes "canonicalize_policy_paths dbg fs p = Ok p'"
  shows "\<And>q. q \<in> set (seatbelt_paths p') \<Longrightarrow> \<exists>r \<in> set (seatbelt_paths p). canonicalize_one dbg fs r = Ok q"
    and "sp_net p' = sp_net p" and "(proxy_uds p' = None) = (proxy_uds p = None)" and "sp_env p' = sp_env p"
    and "sp_profile p' = sp_profile p"
proof -
  obtain r w u b s where c: "canon_list dbg fs (fs_read p) = Ok r" "canon_list dbg fs (fs_write p) = Ok w"
    "canon_option dbg fs (proxy_uds p) = Ok u" "canon_option dbg fs (broker_uds p) = Ok b"
    "canon_store dbg fs (persistent_store p) = Ok s"
    and p': "p' = p\<lparr>fs_read := r, fs_write := w, proxy_uds := u, broker_uds := b, persistent_store := s\<rparr>"
    using assms unfolding canonicalize_policy_paths_def by (auto simp: and_then_Ok_iff)
  show "sp_net p' = sp_net p" "sp_env p' = sp_env p" "sp_profile p' = sp_profile p" by (simp_all add: p')
  show "(proxy_uds p' = None) = (proxy_uds p = None)" using c(3) by (auto simp: p' canon_option_Ok split: option.splits)
  show "\<exists>r \<in> set (seatbelt_paths p). canonicalize_one dbg fs r = Ok q" if "q \<in> set (seatbelt_paths p')" for q
    using that canon_list_Ok [OF c(1)] canon_list_Ok [OF c(2)] c(3,4) canon_store_Ok [OF c(5)]
    by (auto simp: seatbelt_paths_def p' canon_option_Ok split: option.splits; blast)
qed

text \<open>The paths of the policy the profile is made from.\<close>

definition canon_of :: "(rstr \<Rightarrow> rstr) \<Rightarrow> Fs \<Rightarrow> rstr \<Rightarrow> rstr" where
  "canon_of dbg fs q = (case canonicalize_one dbg fs q of Ok r \<Rightarrow> r | Err e \<Rightarrow> q)"

lemma canon_list_map: "canon_list dbg fs ps = Ok qs \<Longrightarrow> qs = map (canon_of dbg fs) ps"
  by (induction ps arbitrary: qs) (auto simp: and_then_Ok_iff canon_of_def)

lemma canon_option_map: "canon_option dbg fs u = Ok v \<Longrightarrow> v = map_option (canon_of dbg fs) u"
  by (cases u) (auto simp: and_then_Ok_iff canon_of_def)

lemma canon_store_map:
  "canon_store dbg fs u = Ok v \<Longrightarrow> map_option pst_guest_mount v = map_option (\<lambda>s. canon_of dbg fs (pst_guest_mount s)) u"
  by (cases u) (auto simp: and_then_Ok_iff canon_of_def)

lemma policy_seatbelt_canon:
  assumes "canonicalize_policy_paths dbg fs p = Ok p'"
  shows "policy_seatbelt (\<lambda>q. q) p' = policy_seatbelt (canon_of dbg fs) p"
proof -
  obtain r w u b s where c: "canon_list dbg fs (fs_read p) = Ok r" "canon_list dbg fs (fs_write p) = Ok w"
    "canon_option dbg fs (proxy_uds p) = Ok u" "canon_option dbg fs (broker_uds p) = Ok b"
    "canon_store dbg fs (persistent_store p) = Ok s"
    and p': "p' = p\<lparr>fs_read := r, fs_write := w, proxy_uds := u, broker_uds := b, persistent_store := s\<rparr>"
    using assms unfolding canonicalize_policy_paths_def by (auto simp: and_then_Ok_iff)
  have same: "net_private p' = net_private p" using canon_option_map [OF c(3)] by (simp add: p' net_private_def)
  have store: "map (canon_of dbg fs) (case persistent_store p of None \<Rightarrow> [] | Some ps \<Rightarrow> [pst_guest_mount ps]) =
      (case s of None \<Rightarrow> [] | Some ps \<Rightarrow> [pst_guest_mount ps])"
    using canon_store_map [OF c(5)] by (cases s; cases "persistent_store p") auto
  have net: "policy_network (\<lambda>q. q) p' = policy_network (canon_of dbg fs) p"
    unfolding policy_network_def same
    by (simp add: p' canon_option_map [OF c(3)] canon_option_map [OF c(4)] split: option.split)
  show ?thesis
    unfolding policy_seatbelt_def net
    using store by (cases s; cases "persistent_store p") (simp_all add: p' canon_list_map [OF c(1)] canon_list_map [OF c(2)] comp_def)
qed

text \<open>C33. When the Seatbelt backend starts a worker and no path of its policy resolves to one with a quote or a
  backslash, the profile it passes to \<^verbatim>\<open>sandbox-exec\<close>, read by a reader of its own, grants exactly what the policy asks for:
  reading the system libraries and, below their canonical paths, the policy's readable directories; writing the harmless
  devices, the policy's writable directories and its store; the browser's operations for a browser; no network, the whole
  network, or the proxy's socket after a denial, as the policy says; the broker's socket; and nothing else. The network is
  open exactly when the policy is the proxy's own or lists hosts without a proxy. The worker starts in the root directory,
  in its own session, with the policy's variables as its whole environment. \<open>dbg\<close> is Rust's debug printer, which only
  quotes such a path.\<close>

theorem seatbelt_profile_exact:
  assumes "seatbelt_spawn_under_policy dbg dbgc fs exec policy program args = Ok c"
    and "\<And>p q. p \<in> set (seatbelt_paths policy) \<Longrightarrow> canonicalize_one dbg fs p = Ok q \<Longrightarrow> literal_ok q \<and> dbg q = DQ @ q @ DQ"
  shows "\<exists>profile. cmd_argv (child_cmd c) = [''sandbox-exec'', ''-p'', profile, program] @ args \<and>
           read_seatbelt profile = Some (policy_seatbelt (canon_of dbg fs) policy) \<and>
           ((True, [''network*''], Everything) \<in> set (sb_network (policy_seatbelt (canon_of dbg fs) policy)) \<longleftrightarrow> \<not> net_private policy) \<and>
           cmd_env (child_cmd c) = ClearedEnv (sp_env policy) \<and> cmd_dir (child_cmd c) = Some WORKER_CWD \<and>
           cmd_setsid (child_cmd c)"
proof -
  obtain p' where p': "canonicalize_policy_paths dbg fs policy = Ok p'"
    and c: "child_cmd c = \<lparr>cmd_argv = [''sandbox-exec'', ''-p'', build_profile dbg p', program] @ args,
              cmd_env = ClearedEnv (sp_env p'), cmd_dir = Some WORKER_CWD, cmd_setsid = True\<rparr>"
    using assms(1) by (auto simp: seatbelt_spawn_under_policy_def and_then_Ok_iff Let_def dest!: start_command_Ok)
  note same = canonicalize_policy_paths_Ok [OF p']
  have ok: "literal_ok q \<and> dbg q = DQ @ q @ DQ" if "q \<in> set (seatbelt_paths p')" for q
    using same(1) [OF that] assms(2) by blast
  then have "clean_policy dbg p'"
    by (auto simp: clean_policy_def list_all_iff seatbelt_paths_def split: option.split)
  then have "read_seatbelt (build_profile dbg p') = Some (policy_seatbelt (canon_of dbg fs) policy)"
    using profile_grants policy_seatbelt_canon [OF p'] by simp
  moreover have "(True, [''network*''], Everything) \<in> set (sb_network (policy_seatbelt (canon_of dbg fs) policy)) \<longleftrightarrow> \<not> net_private policy"
    by (auto simp: policy_seatbelt_def policy_network_def split: option.split)
  ultimately show ?thesis using c same(4) by simp
qed

definition mac_policy :: SandboxPolicy where
  "mac_policy = SandboxPolicy_default\<lparr>fs_read := [''/tmp/a''], sp_net := NetAllowlist [''a:443''], proxy_uds := Some ''/tmp/e.sock''\<rparr>"

text \<open>A file system in which \<^verbatim>\<open>/tmp\<close> is a link to \<^verbatim>\<open>/private/tmp\<close>, and one in which the directory a policy names is a
  link to a directory whose name is made of rules.\<close>

definition mac_fs :: Fs where
  "mac_fs = \<lparr>canonicalize = (\<lambda>p. Ok (if starts_with p ''/tmp'' then ''/private'' @ p else p)),
             is_file = (\<lambda>p. False), create_dir_all = (\<lambda>p. Ok ())\<rparr>"

definition evil_name :: rstr where
  "evil_name = ''/x'' @ DQ @ ''))'' @ [NL] @ ''(allow network*)'' @ [NL] @ ''(allow file-read* (subpath '' @ DQ @ ''y''"

definition linked_fs :: Fs where
  "linked_fs = mac_fs\<lparr>canonicalize := (\<lambda>p. Ok (if p = ''/data'' then evil_name else p))\<rparr>"

definition in_quotes :: "rstr \<Rightarrow> rstr" where "in_quotes s = DQ @ s @ DQ"

definition mac_run :: "SandboxError + Child" where
  "mac_run = seatbelt_spawn_under_policy in_quotes (\<lambda>c. [c]) mac_fs (\<lambda>c. Ok 7) mac_policy ''/bin/w'' [''-v'']"

lemma mac_run_ok: "\<not> isl mac_run"
  by code_simp

lemma mac_paths: "seatbelt_paths mac_policy = [''/tmp/a'', ''/tmp/e.sock'']"
  by code_simp

lemma mac_canon:
  "canonicalize_one in_quotes mac_fs ''/tmp/a'' = Ok ''/private/tmp/a''"
  "canonicalize_one in_quotes mac_fs ''/tmp/e.sock'' = Ok ''/private/tmp/e.sock''"
  by code_simp+

theorem seatbelt_profile_exact_witness:
  "\<exists>c profile sb. mac_run = Ok c \<and> cmd_argv (child_cmd c) = [''sandbox-exec'', ''-p'', profile, ''/bin/w''] @ [''-v''] \<and>
     read_seatbelt profile = Some sb \<and> PathBelow ''/private/tmp/a'' \<in> set (sb_readable sb) \<and>
     (True, [''network*''], Everything) \<notin> set (sb_network sb)"
proof (cases mac_run)
  case (Inr c)
  have "net_private mac_policy" by (simp add: net_private_def mac_policy_def)
  moreover have "literal_ok q \<and> in_quotes q = DQ @ q @ DQ"
    if "p \<in> set (seatbelt_paths mac_policy)" "canonicalize_one in_quotes mac_fs p = Ok q" for p q
    using that by (auto simp: mac_paths mac_canon literal_ok_def in_quotes_def)
  moreover have "PathBelow ''/private/tmp/a'' \<in> set (sb_readable (policy_seatbelt (canon_of in_quotes mac_fs) mac_policy))"
    using mac_canon(1) by (simp add: policy_seatbelt_def mac_policy_def canon_of_def)
  ultimately show ?thesis
    using seatbelt_profile_exact [OF Inr [unfolded mac_run_def]] Inr by blast
next
  case (Inl e)
  with mac_run_ok have False by (metis sum.disc(1))
  then show ?thesis ..
qed

text \<open>The characters of a path are checked before symbolic links are resolved, and the profile is made from the
  resolved path. A policy without network that names a plain directory gets the rule that opens the network when
  that directory is a link to one whose name holds it.\<close>

definition profile_of :: "SandboxError + Child \<Rightarrow> rstr" where
  "profile_of r = (case r of Ok c \<Rightarrow> cmd_argv (child_cmd c) ! 2 | Err e \<Rightarrow> [])"

theorem symlink_injects_rule:
  "sp_net (SandboxPolicy_default\<lparr>fs_read := [''/data'']\<rparr>) = DenyNet \<and>
   open_network \<in> set (the (read_profile (profile_of
     (seatbelt_spawn_under_policy in_quotes (\<lambda>c. [c]) linked_fs (\<lambda>c. Ok 7)
        (SandboxPolicy_default\<lparr>fs_read := [''/data'']\<rparr>) ''/bin/w'' []))))"
  by code_simp

section \<open>Containers and micro-VMs\<close>

text \<open>A comment says the container backend refuses a path that leaves the shared directory through \<open>..\<close> because it
  canonicalises. It binds the path as it is.\<close>

theorem container_binds_parent:
  "\<exists>c. container_spawn_under_policy in_quotes (\<lambda>c. Ok 7) DEFAULT_IMAGE
         (SandboxPolicy_default\<lparr>fs_read := [''/scratch/../etc'']\<rparr>) ''/bin/w'' [] = Ok c \<and>
       ''type=bind,source=/scratch/../etc,target=/scratch/../etc,readonly'' \<in> set (cmd_argv (child_cmd c))"
  by (simp add: container_spawn_under_policy_def is_absolute_def SandboxPolicy_default_def start_command_def
      build_container_argv_def)

text \<open>A worker started in a micro-VM with one empty argument gets none.\<close>

theorem empty_argument_lost:
  "map_option parse_worker_args_cmdline (encode_worker_args_cmdline [[]]) = Some []"
  by code_simp

text \<open>The shares of a micro-VM are limited to an allowlist of top-level directories, but the root directory itself is
  not refused.\<close>

theorem root_share_accepted: "non_anchor_top_level ''/'' = None"
  by code_simp

end
