(* ===== verification/Channel_Gate.thy ===== *)
theory Channel_Gate
  imports Utf8 Leak_Fingerprint
begin

unbundle bit_operations_syntax

text \<open>
  Who may speak to the daemon: the gate of the mail channel (\<^verbatim>\<open>core/src/channel/email/gate.rs\<close> and
  \<^verbatim>\<open>authres_parse.rs\<close>), which reads the mail server's verdict and the shared token off a message, and the
  decision on a peer (\<^verbatim>\<open>core/src/channel/auth.rs\<close>). The pairing lookup and SHA-256 are arguments.
\<close>

section \<open>The header's segments\<close>

definition BACKSLASH :: rstr where "BACKSLASH = [CHR 0x5C]"
definition QUOTE :: rstr where "QUOTE = [CHR 0x22]"

text \<open>The scan keeps whether it is inside a quoted string, the depth of open comments, and the text of the
  segment so far. \<^verbatim>\<open>chars.next()\<close> after a backslash skips the next code point, if there is one.\<close>

function segments_from :: "bool \<Rightarrow> nat \<Rightarrow> rstr \<Rightarrow> rstr list \<Rightarrow> rstr list option" where
  "segments_from in_quotes depth cur [] = (if in_quotes \<or> depth > 0 then None else Some [cur])"
| "segments_from in_quotes depth cur (c # cs) =
     (if in_quotes then
        (if c = BACKSLASH then segments_from in_quotes depth (cur @ c @ concat (take 1 cs)) (drop 1 cs)
         else segments_from (c \<noteq> QUOTE) depth (cur @ c) cs)
      else if depth > 0 then
        (if c = BACKSLASH then segments_from in_quotes depth (cur @ c @ concat (take 1 cs)) (drop 1 cs)
         else segments_from in_quotes (if c = ''('' then depth + 1 else if c = '')'' then depth - 1 else depth) (cur @ c) cs)
      else if c = QUOTE then segments_from True depth (cur @ c) cs
      else if c = ''('' then segments_from in_quotes (depth + 1) (cur @ c) cs
      else if c = '';'' then map_option ((#) cur) (segments_from in_quotes depth [] cs)
      else segments_from in_quotes depth (cur @ c) cs)"
  by pat_completeness auto
termination by (relation "measure (\<lambda>(q, d, cur, cs). length cs)") auto

definition top_level_segments :: "rstr \<Rightarrow> rstr list option" where
  "top_level_segments value = segments_from False 0 [] (chars value)"

function strip_from :: "bool \<Rightarrow> nat \<Rightarrow> rstr list \<Rightarrow> rstr" where
  "strip_from in_quotes depth [] = []"
| "strip_from in_quotes depth (c # cs) =
     (if in_quotes then
        (if c = BACKSLASH then strip_from in_quotes depth (drop 1 cs)
         else if c = QUOTE then '' '' @ strip_from False depth cs
         else strip_from in_quotes depth cs)
      else if depth > 0 then
        (if c = BACKSLASH then strip_from in_quotes depth (drop 1 cs)
         else if c = ''('' then strip_from in_quotes (depth + 1) cs
         else if c = '')'' then (if depth = 1 then '' '' else []) @ strip_from in_quotes (depth - 1) cs
         else strip_from in_quotes depth cs)
      else if c = QUOTE then strip_from True depth cs
      else if c = ''('' then strip_from in_quotes (depth + 1) cs
      else c @ strip_from in_quotes depth cs)"
  by pat_completeness auto
termination by (relation "measure (\<lambda>(q, d, cs). length cs)") auto

definition strip_quotes_and_comments :: "rstr \<Rightarrow> rstr" where
  "strip_quotes_and_comments segment = strip_from False 0 (chars segment)"

section \<open>The server's name and its verdict\<close>

definition first_word :: "rstr \<Rightarrow> rstr" where
  "first_word s = (case split_whitespace s of [] \<Rightarrow> [] | w # ws \<Rightarrow> w)"

definition authserv_id_of :: "rstr \<Rightarrow> rstr" where
  "authserv_id_of id_segment = to_ascii_lowercase (first_word (strip_quotes_and_comments id_segment))"

text \<open>\<^verbatim>\<open>str::find\<close> with a predicate on code points: the byte index of the first one that satisfies it.\<close>

definition find_chr :: "(rstr \<Rightarrow> bool) \<Rightarrow> rstr \<Rightarrow> nat option" where
  "find_chr P s =
     (let before = takeWhile (\<lambda>c. \<not> P c) (chars s) in
      if before = chars s then None else Some (length (concat before)))"

definition is_whitespace :: "rstr \<Rightarrow> bool" where
  "is_whitespace c \<longleftrightarrow> c \<in> set ws_seqs"

definition skip_version :: "rstr \<Rightarrow> rstr option" where
  "skip_version rest =
     (case strip_prefix rest ''/'' of
        None \<Rightarrow> Some rest
      | Some after_slash \<Rightarrow>
          (let digits = trim_start after_slash;
               digits_end = (case find_chr (\<lambda>c. \<not> list_all is_ascii_digit c) digits of Some e \<Rightarrow> e | None \<Rightarrow> length digits) in
           if digits_end = 0 then None else Some (trim_start (drop digits_end digits))))"

definition methodspec_of :: "rstr \<Rightarrow> (rstr \<times> rstr) option" where
  "methodspec_of stripped =
     (let rest = trim_start stripped in
      case find_chr (\<lambda>c. is_whitespace c \<or> c = ''='' \<or> c = ''/'') rest of
        None \<Rightarrow> None
      | Some method_end \<Rightarrow>
          if take method_end rest = [] then None
          else case skip_version (trim_start (drop method_end rest)) of
                 None \<Rightarrow> None
               | Some rest' \<Rightarrow>
                   (case strip_prefix rest' ''='' of
                      None \<Rightarrow> None
                    | Some r \<Rightarrow>
                        (let r = trim_start r;
                             result = take (case find_chr is_whitespace r of Some e \<Rightarrow> e | None \<Rightarrow> length r) r in
                         if result = [] then None
                         else Some (to_ascii_lowercase (take method_end rest), to_ascii_lowercase result))))"

definition method_result_of :: "rstr \<Rightarrow> (rstr \<times> rstr) option" where
  "method_result_of segment = methodspec_of (strip_quotes_and_comments segment)"

fun verdict_step :: "bool option \<times> nat \<Rightarrow> rstr \<Rightarrow> bool option \<times> nat" where
  "verdict_step (verdict, count) segment =
     (case method_result_of segment of
        Some (method, result) \<Rightarrow>
          if method = ''dmarc'' then ((if verdict = None then Some (result = ''pass'') else verdict), count + 1)
          else (verdict, count)
      | None \<Rightarrow> (verdict, count))"

definition dmarc_verdict :: "rstr list \<Rightarrow> bool option" where
  "dmarc_verdict segments =
     (case foldl verdict_step (None, 0) segments of (verdict, count) \<Rightarrow> if count > 1 then None else verdict)"

definition AUTH_RESULTS :: rstr where "AUTH_RESULTS = ''authentication-results''"

definition is_auth_results :: "rstr \<times> rstr \<Rightarrow> bool" where
  "is_auth_results h \<longleftrightarrow> to_ascii_lowercase (trim (fst h)) = AUTH_RESULTS"

definition trusted_dmarc_pass :: "(rstr \<times> rstr) list \<Rightarrow> rstr \<Rightarrow> bool" where
  "trusted_dmarc_pass headers authserv_id =
     (let want = to_ascii_lowercase (trim authserv_id) in
      if want = [] then False
      else case find is_auth_results headers of
             None \<Rightarrow> False
           | Some (name, value) \<Rightarrow>
               (case top_level_segments value of
                  None \<Rightarrow> False
                | Some segments \<Rightarrow>
                    if authserv_id_of (segments ! 0) \<noteq> want then False
                    else (case dmarc_verdict (drop 1 segments) of Some v \<Rightarrow> v | None \<Rightarrow> False)))"

section \<open>The token in a body\<close>

definition TOKEN_PREFIX :: rstr where "TOKEN_PREFIX = ''kastellan-token:''"
definition BOM :: rstr where "BOM = [CHR 0xEF, CHR 0xBB, CHR 0xBF]"
definition LF :: char where "LF = CHR 0x0A"

definition prefix_at :: "rstr \<Rightarrow> bool" where
  "prefix_at s \<longleftrightarrow> to_ascii_lowercase (take (length TOKEN_PREFIX) s) = TOKEN_PREFIX"

definition line_len :: "rstr \<Rightarrow> nat" where
  "line_len s = (case find_char LF s of Some off \<Rightarrow> off | None \<Rightarrow> length s)"

lemma line_len_prefix:
  assumes "prefix_at s" shows "length TOKEN_PREFIX \<le> line_len s"
proof -
  have l: "length TOKEN_PREFIX \<le> length s"
    using assms length_to_ascii_lowercase [of "take (length TOKEN_PREFIX) s"] by (simp add: prefix_at_def)
  have n: "LF \<notin> set (take (length TOKEN_PREFIX) s)"
  proof
    assume "LF \<in> set (take (length TOKEN_PREFIX) s)"
    then have "ascii_lower LF \<in> set (to_ascii_lowercase (take (length TOKEN_PREFIX) s))" by (simp add: to_ascii_lowercase_def)
    then show False using assms by (simp add: prefix_at_def TOKEN_PREFIX_def LF_def ascii_lower_def is_ascii_upper_def code_def)
  qed
  have "length TOKEN_PREFIX \<le> off" if f: "find_char LF s = Some off" for off
  proof (rule ccontr)
    assume "\<not> length TOKEN_PREFIX \<le> off"
    then have "LF \<in> set (take (length TOKEN_PREFIX) s)"
      using find_char_Some [OF f] by (auto simp: in_set_conv_nth intro!: exI [of _ off])
    with n show False ..
  qed
  then show ?thesis using l by (auto simp: line_len_def split: option.splits)
qed

text \<open>One round of the loop at byte \<open>i\<close>: an occurrence of the prefix is removed up to the end of its line, and the
  first one with a value gives the token. The state is the token and the removed ranges.\<close>

function token_scan :: "rstr \<Rightarrow> nat \<Rightarrow> rstr option \<Rightarrow> (nat \<times> nat) list \<Rightarrow> rstr option \<times> (nat \<times> nat) list" where
  "token_scan body i token removed =
     (if \<not> i + length TOKEN_PREFIX \<le> length body then (token, removed)
      else if prefix_at (drop i body) then
        (let line_end = i + line_len (drop i body);
             value = trim (take (line_end - (i + length TOKEN_PREFIX)) (drop (i + length TOKEN_PREFIX) body));
             token' = (if token = None \<and> value \<noteq> [] then Some value else token) in
         token_scan body line_end token' (removed @ [(i, line_end)]))
      else token_scan body (i + 1) token removed)"
  by pat_completeness auto
termination
proof (relation "measure (\<lambda>(body, i, token, removed). length body - i)", goal_cases)
  case (2 body i token removed line_end v token')
  then show ?case using line_len_prefix [of "drop i body"] by (auto simp: TOKEN_PREFIX_def)
qed (auto simp: TOKEN_PREFIX_def)

declare token_scan.simps [simp del]

fun kept_from :: "rstr \<Rightarrow> nat \<Rightarrow> (nat \<times> nat) list \<Rightarrow> rstr" where
  "kept_from body cursor [] = drop cursor body"
| "kept_from body cursor ((start, stop) # removed) =
     take (start - cursor) (drop cursor body) @ kept_from body stop removed"

definition extract_token :: "rstr \<Rightarrow> rstr option \<times> rstr" where
  "extract_token body =
     (let body = (case strip_prefix body BOM of Some b \<Rightarrow> b | None \<Rightarrow> body) in
      case token_scan body 0 None [] of (token, removed) \<Rightarrow> (token, trim (kept_from body 0 removed)))"

section \<open>The decision on a peer\<close>

record PeerEvidence =
  pe_dmarc_pass :: bool
  pe_presented_token :: "rstr option"

datatype UnauthenticReason = PairingHasNoToken | NoEvidence | DmarcFail | NoToken | TokenMismatch

fun unauthentic_str :: "UnauthenticReason \<Rightarrow> rstr" where
  "unauthentic_str PairingHasNoToken = ''pairing_has_no_token''"
| "unauthentic_str NoEvidence = ''no_evidence''"
| "unauthentic_str DmarcFail = ''dmarc_fail''"
| "unauthentic_str NoToken = ''no_token''"
| "unauthentic_str TokenMismatch = ''token_mismatch''"

datatype AuthDecision = Recognised | RejectedPeer | RejectedUnauthentic UnauthenticReason | RejectedUnverifiable

definition as_bytes :: "rstr \<Rightarrow> u8 list" where
  "as_bytes s = map (\<lambda>c. word_of_nat (code c)) s"

definition constant_time_eq :: "u8 list \<Rightarrow> u8 list \<Rightarrow> bool" where
  "constant_time_eq a b =
     (if length a \<noteq> length b then False else foldl (\<lambda>acc (x, y). acc OR (x XOR y)) 0 (zip a b) = 0)"

text \<open>The lookup answers with an error, no active pairing, a pairing without a token, or one with the digest of
  its token.\<close>

definition db_authorize ::
    "(rstr \<Rightarrow> rstr) \<Rightarrow> (rstr \<Rightarrow> rstr \<Rightarrow> rstr + rstr option option) \<Rightarrow> rstr \<Rightarrow> rstr \<Rightarrow> PeerEvidence option \<Rightarrow> AuthDecision" where
  "db_authorize sha_hex token_hash_for channel peer evidence =
     (case token_hash_for channel peer of
        Err e \<Rightarrow> RejectedUnverifiable
      | Ok None \<Rightarrow> RejectedPeer
      | Ok (Some None) \<Rightarrow>
          if evidence \<noteq> None then RejectedUnauthentic PairingHasNoToken else Recognised
      | Ok (Some (Some expected)) \<Rightarrow>
          (case evidence of
             None \<Rightarrow> RejectedUnauthentic NoEvidence
           | Some ev \<Rightarrow>
               if \<not> pe_dmarc_pass ev then RejectedUnauthentic DmarcFail
               else case pe_presented_token ev of
                      None \<Rightarrow> RejectedUnauthentic NoToken
                    | Some t \<Rightarrow>
                        if constant_time_eq (as_bytes (sha_hex t)) (as_bytes expected) then Recognised
                        else RejectedUnauthentic TokenMismatch))"

definition static_authorize :: "rstr set \<Rightarrow> rstr \<Rightarrow> rstr \<Rightarrow> PeerEvidence option \<Rightarrow> AuthDecision" where
  "static_authorize recognised channel peer evidence = (if peer \<in> recognised then Recognised else RejectedPeer)"

section \<open>Comparing in constant time\<close>

lemma or_zero_iff: "(a :: 'a :: len word) OR b = 0 \<longleftrightarrow> a = 0 \<and> b = 0"
  by (auto simp: bit_eq_iff bit_simps)

lemma xor_zero_iff: "(a :: 'a :: len word) XOR b = 0 \<longleftrightarrow> a = b"
proof
  assume z: "a XOR b = 0"
  have "a = (a XOR b) XOR b" by (simp only: xor.assoc xor_self_eq xor.right_neutral)
  with z show "a = b" by simp
qed simp

lemma fold_or_xor:
  "foldl (\<lambda>acc (x, y). acc OR (x XOR y)) (acc :: u8) ps = 0 \<longleftrightarrow> acc = 0 \<and> list_all (\<lambda>(x, y). x = y) ps"
proof (induction ps arbitrary: acc)
  case (Cons p ps)
  obtain x y where p: "p = (x, y)" by (cases p)
  show ?case unfolding p foldl.simps prod.case Cons.IH or_zero_iff xor_zero_iff by simp
qed simp

lemma constant_time_eq_iff: "constant_time_eq a b \<longleftrightarrow> a = b"
proof (cases "length a = length b")
  case True
  then show ?thesis
    by (induction a b rule: list_induct2) (simp_all add: constant_time_eq_def fold_or_xor xor_zero_iff)
next
  case False
  then show ?thesis by (auto simp: constant_time_eq_def)
qed

lemma as_bytes_inject [simp]: "as_bytes a = as_bytes b \<longleftrightarrow> a = b"
proof -
  have "inj (\<lambda>c. word_of_nat (code c) :: u8)"
  proof (rule injI)
    fix c d assume "word_of_nat (code c) = (word_of_nat (code d) :: u8)"
    then have "unat (word_of_nat (code c) :: u8) = unat (word_of_nat (code d) :: u8)" by simp
    then have "code c = code d" using code_less_256 [of c] code_less_256 [of d] by (simp add: unat_of_nat take_bit_nat_eq_self)
    then show "c = d" by (simp add: code_def)
  qed
  then show ?thesis unfolding as_bytes_def by (simp add: inj_map_eq_map)
qed

lemma db_recognised_iff:
  "db_authorize sha_hex token_hash_for channel peer evidence = Recognised \<longleftrightarrow>
   (token_hash_for channel peer = Ok (Some None) \<and> evidence = None) \<or>
   (\<exists>ev t. evidence = Some ev \<and> pe_dmarc_pass ev \<and> pe_presented_token ev = Some t \<and>
      token_hash_for channel peer = Ok (Some (Some (sha_hex t))))"
  by (auto simp: db_authorize_def constant_time_eq_iff split: sum.splits option.splits if_splits)

section \<open>Splitting and stripping agree\<close>

text \<open>The code points of a valid string: only a one-byte one holds an ASCII byte.\<close>

definition scalar_text :: "rstr \<Rightarrow> bool" where
  "scalar_text c \<longleftrightarrow> c \<noteq> [] \<and> length c = char_len (hd c) \<and> (length c = 1 \<or> list_all (\<lambda>b. \<not> is_ascii b) c)"

lemma chars_concat:
  "list_all scalar_text cs \<Longrightarrow> chars (concat cs) = cs"
proof (induction cs)
  case (Cons c cs)
  then obtain b bs where c: "c = b # bs" "length (b # bs) = char_len b" by (cases c) (auto simp: scalar_text_def)
  have "take (char_len b) (c @ concat cs) = c" "drop (char_len b) (c @ concat cs) = concat cs"
    using c by (auto simp flip: c(2))
  then show ?case using Cons c by (simp add: chars.simps(2))
qed simp

lemma scalar_text_ascii: "scalar_text c \<Longrightarrow> is_ascii b \<Longrightarrow> b \<in> set c \<longleftrightarrow> c = [b]"
  by (auto simp: scalar_text_def list_all_iff length_Suc_conv)

lemma chars_code_points: "utf8_valid s \<Longrightarrow> list_all scalar_text (chars s)"
proof (induction s rule: chars.induct)
  case (2 c cs)
  note v = utf8_valid_head [OF 2(2)] utf8_valid_Cons [THEN iffD1, OF 2(2)]
  let ?h = "take (char_len c) (c # cs)"
  have l: "length ?h = char_len c" using v(1) by simp
  have "\<not> is_ascii b" if n: "char_len c \<noteq> 1" and b: "b \<in> set ?h" for b
  proof -
    obtain i where i: "i < char_len c" "b = (c # cs) ! i" using b l by (metis in_set_conv_nth nth_take)
    show ?thesis
    proof (cases i)
      case 0
      then show ?thesis using i n by (auto simp: is_ascii_def char_len_def split: if_splits)
    next
      case (Suc k)
      then show ?thesis using v(2) [of i] i by (simp add: is_cont_def is_ascii_def)
    qed
  qed
  then have "scalar_text ?h" using l char_len_pos [of c] by (cases "char_len c = 1") (auto simp: scalar_text_def list_all_iff)
  then show ?case using 2(1) v(4) by (simp add: chars.simps(2))
qed simp

end
