(* ===== verification/Gate_Facts.thy ===== *)
theory Gate_Facts
  imports Channel_Gate
begin

text \<open>
  Facts about the mail gate: splitting a header value and blanking its quoted strings and comments commute, so
  hidden text decides nothing; and removing token lines leaves no occurrence of the prefix.
\<close>

section \<open>Segments\<close>

lemma split_no_sep: "x \<notin> set s \<Longrightarrow> split_char x s = [s]"
  by (induction s) auto

lemma split_sep: "x \<notin> set a \<Longrightarrow> split_char x (a @ x # b) = a # split_char x b"
  by (induction a) auto

lemma semicolon_code_point: "scalar_text c \<Longrightarrow> c \<noteq> '';'' \<Longrightarrow> CHR '';'' \<notin> set c"
  using scalar_text_ascii [of c "CHR '';''"] by (auto simp: is_ascii_def code_def)

text \<open>One code point: it is an escape inside quotes or a comment, a separator outside, or it moves both scans to the
  same state.\<close>

lemma step_cases:
  assumes "scalar_text c"
  obtains (escape) "q \<or> 0 < d" "c = BACKSLASH" | (split) "\<not> q" "d = 0" "c = '';''"
  | (plain) q' d' add where "\<And>cur cs. segments_from q d cur (c # cs) = segments_from q' d' (cur @ c) cs"
      "\<And>cs. strip_from q d (c # cs) = add @ strip_from q' d' cs" "CHR '';'' \<notin> set add"
proof (cases "(q \<or> 0 < d) \<and> c = BACKSLASH \<or> \<not> q \<and> d = 0 \<and> c = '';''")
  case True
  then show thesis using escape split by blast
next
  case False
  have s: "c \<noteq> '';'' \<Longrightarrow> CHR '';'' \<notin> set c" using assms by (rule semicolon_code_point)
  consider "q" | "\<not> q" "0 < d" | "\<not> q" "d = 0" by blast
  then show thesis
  proof cases
    case 1
    then show thesis using False by (intro plain [of "c \<noteq> QUOTE" d "if c = QUOTE then '' '' else []"]) auto
  next
    case 2
    let ?d = "if c = ''('' then d + 1 else if c = '')'' then d - 1 else d"
    show thesis
      using 2 False by (intro plain [of False ?d "if c = '')'' \<and> d = 1 then '' '' else []"]) auto
  next
    case 3
    then show thesis
      using False s
      by (intro plain [of "c = QUOTE" "if c = ''('' then 1 else 0" "if c = QUOTE \<or> c = ''('' then [] else c"])
         (auto simp: QUOTE_def)
  qed
qed

text \<open>\<open>pre\<close> are the code points of the segment so far, \<open>out\<close> what stripping makes of them when it has come to the
  same state.\<close>

lemma segments_strip:
  assumes "segments_from q d cur cs = Some segs" and "cur = concat pre" and "list_all scalar_text (pre @ cs)"
    and "\<And>rest. strip_from False 0 (pre @ rest) = out @ strip_from q d rest" and "CHR '';'' \<notin> set out"
  shows "map strip_quotes_and_comments segs = split_char CHR '';'' (out @ strip_from q d cs)"
  using assms
proof (induction "length cs" arbitrary: q d cur cs pre out segs rule: less_induct)
  case less
  show ?case
  proof (cases cs)
    case Nil
    then have qd: "\<not> q" "d = 0" "segs = [cur]" using less.prems(1) by (auto split: if_splits)
    have "strip_quotes_and_comments cur = out"
      using less.prems(2,3) less.prems(4) [of "[]"] Nil by (simp add: strip_quotes_and_comments_def chars_concat)
    then show ?thesis using less.prems(5) qd Nil by (simp add: split_no_sep)
  next
    case (Cons c cs')
    have cp: "scalar_text c" using less.prems(3) Cons by simp
    show ?thesis
    proof (rule step_cases [OF cp, of q d])
      assume e: "q \<or> 0 < d" "c = BACKSLASH"
      then obtain b cs'' where cs': "cs' = b # cs''" using less.prems(1) Cons by (cases cs') (auto split: if_splits)
      have "segments_from q d (concat (pre @ [c, b])) cs'' = Some segs" using less.prems(1,2) e Cons cs' by (auto split: if_splits)
      moreover have "strip_from False 0 ((pre @ [c, b]) @ rest) = out @ strip_from q d rest" for rest
        using less.prems(4) [of "c # b # rest"] e by auto
      ultimately have "map strip_quotes_and_comments segs = split_char CHR '';'' (out @ strip_from q d cs'')"
        using less.prems(3,5) Cons cs' by (intro less.hyps [of cs'' q d _ segs "pre @ [c, b]"]) auto
      then show ?thesis using e Cons cs' by auto
    next
      assume t: "\<not> q" "d = 0" "c = '';''"
      then obtain segs' where segs: "segs = cur # segs'" "segments_from False 0 [] cs' = Some segs'"
        using less.prems(1) Cons by (auto simp: QUOTE_def)
      have "map strip_quotes_and_comments segs' = split_char CHR '';'' ([] @ strip_from False 0 cs')"
        using segs(2) less.prems(3) Cons by (intro less.hyps [of cs' False 0 "[]" segs' "[]" "[]"]) auto
      moreover have "strip_quotes_and_comments cur = out"
        using less.prems(2,3) less.prems(4) [of "[]"] by (simp add: strip_quotes_and_comments_def chars_concat)
      ultimately show ?thesis using segs(1) t Cons less.prems(5) by (simp add: QUOTE_def split_sep)
    next
      fix q' d' add
      assume p: "\<And>cur cs. segments_from q d cur (c # cs) = segments_from q' d' (cur @ c) cs"
        "\<And>cs. strip_from q d (c # cs) = add @ strip_from q' d' cs" "CHR '';'' \<notin> set add"
      have "map strip_quotes_and_comments segs = split_char CHR '';'' ((out @ add) @ strip_from q' d' cs')"
        by (rule less.hyps [of cs' q' d' "cur @ c" segs "pre @ [c]"])
           (use less.prems p Cons in \<open>simp_all del: segments_from.simps strip_from.simps\<close>)
      then show ?thesis using p(2) Cons by simp
    qed
  qed
qed

lemma segments_visible:
  assumes "top_level_segments v = Some segs" and "utf8_valid v"
  shows "map strip_quotes_and_comments segs = split_char CHR '';'' (strip_quotes_and_comments v)"
  using segments_strip [of False 0 "[]" "chars v" segs "[]" "[]"] assms chars_code_points
  by (simp add: top_level_segments_def strip_quotes_and_comments_def)

section \<open>The verdict\<close>

text \<open>The results of the \<open>dmarc\<close> method among the visible parts, in order.\<close>

definition dmarc_results :: "rstr list \<Rightarrow> rstr list" where
  "dmarc_results parts = map snd (filter (\<lambda>(m, r). m = ''dmarc'') (List.map_filter methodspec_of parts))"

lemma verdict_fold:
  "foldl verdict_step (v, n) segs =
   (let rs = dmarc_results (map strip_quotes_and_comments segs) in
    (if v = None then (case rs of [] \<Rightarrow> None | r # _ \<Rightarrow> Some (r = ''pass'')) else v, n + length rs))"
proof (induction segs arbitrary: v n)
  case Nil
  show ?case by (cases v) (simp_all add: dmarc_results_def List.map_filter_def)
next
  case (Cons g segs)
  show ?case
    by (cases "methodspec_of (strip_quotes_and_comments g)"; cases v)
       (auto simp: Cons dmarc_results_def List.map_filter_simps method_result_of_def Let_def)
qed

lemma dmarc_verdict_iff:
  "dmarc_verdict segs = Some True \<longleftrightarrow> dmarc_results (map strip_quotes_and_comments segs) = [''pass'']"
proof -
  obtain rs where rs: "dmarc_results (map strip_quotes_and_comments segs) = rs" by simp
  show ?thesis unfolding dmarc_verdict_def verdict_fold Let_def rs
    by (cases rs rule: list.exhaust [case_product list.exhaust]) (auto split: list.splits)
qed

section \<open>Token lines\<close>

text \<open>The body without its token lines, read from the left.\<close>

function without_tokens :: "rstr \<Rightarrow> rstr" where
  "without_tokens s =
     (if length s < length TOKEN_PREFIX then s
      else if prefix_at s then without_tokens (drop (line_len s) s)
      else hd s # without_tokens (tl s))"
  by pat_completeness auto
termination
proof (relation "measure length", goal_cases)
  case (2 s)
  then show ?case using line_len_prefix [of s] by (auto simp: TOKEN_PREFIX_def)
qed (auto simp: TOKEN_PREFIX_def)

declare without_tokens.simps [simp del]

lemma token_scan_keeps:
  "\<exists>R. snd (token_scan body i t rem) = rem @ R \<and>
       (\<forall>cur \<le> i. i \<le> length body \<longrightarrow> kept_from body cur R = take (i - cur) (drop cur body) @ without_tokens (drop i body))"
proof (induction body i t rem rule: token_scan.induct)
  case (1 body i t rem)
  have glue: "take (i - cur) (drop cur body) @ drop i body = drop cur body" if "cur \<le> i" for cur
    using that by (metis add.commute append_take_drop_id drop_drop le_add_diff_inverse)
  consider "\<not> i + length TOKEN_PREFIX \<le> length body" | "i + length TOKEN_PREFIX \<le> length body" "prefix_at (drop i body)"
    | "i + length TOKEN_PREFIX \<le> length body" "\<not> prefix_at (drop i body)" by blast
  then show ?case
  proof cases
    case 1
    then have "length (drop i body) < length TOKEN_PREFIX" by (auto simp: TOKEN_PREFIX_def)
    then have "without_tokens (drop i body) = drop i body" by (subst without_tokens.simps) simp
    then show ?thesis using 1 glue by (intro exI [of _ "[]"]) (simp add: token_scan.simps)
  next
    case 2
    let ?e = "i + line_len (drop i body)"
    have le: "?e \<le> length body"
      using 2(1) find_char_Some [of LF "drop i body"] by (auto simp: line_len_def split: option.splits)
    let ?v = "trim (take (?e - (i + length TOKEN_PREFIX)) (drop (i + length TOKEN_PREFIX) body))"
    have step: "token_scan body i t rem =
        token_scan body ?e (if t = None \<and> ?v \<noteq> [] then Some ?v else t) (rem @ [(i, ?e)])"
      using 2 by (subst token_scan.simps) (simp add: Let_def)
    obtain R where R: "snd (token_scan body i t rem) = (rem @ [(i, ?e)]) @ R"
      "\<forall>cur \<le> ?e. ?e \<le> length body \<longrightarrow> kept_from body cur R = take (?e - cur) (drop cur body) @ without_tokens (drop ?e body)"
      using 1(1) [OF _ 2(2) refl refl refl] 2(1) unfolding step by auto
    have "without_tokens (drop i body) = without_tokens (drop ?e body)"
      using 2 by (subst without_tokens.simps) (auto simp: add.commute TOKEN_PREFIX_def)
    then show ?thesis using R le by (intro exI [of _ "(i, ?e) # R"]) simp
  next
    case 3
    have step: "token_scan body i t rem = token_scan body (i + 1) t rem" using 3 by (subst token_scan.simps) simp
    obtain R where R: "snd (token_scan body i t rem) = rem @ R"
      "\<forall>cur \<le> i + 1. i + 1 \<le> length body \<longrightarrow> kept_from body cur R = take (i + 1 - cur) (drop cur body) @ without_tokens (drop (i + 1) body)"
      using 1(2) 3 unfolding step by auto
    have i: "i < length body" using 3(1) by (simp add: TOKEN_PREFIX_def)
    then have "without_tokens (drop i body) = body ! i # without_tokens (drop (i + 1) body)"
      using 3 by (subst without_tokens.simps) (simp add: hd_drop_conv_nth tl_drop drop_Suc)
    moreover have "take (i + 1 - cur) (drop cur body) = take (i - cur) (drop cur body) @ [body ! i]" if "cur \<le> i" for cur
      using that i by (simp add: Suc_diff_le take_Suc_conv_app_nth)
    ultimately show ?thesis using R i by (intro exI [of _ R]) auto
  qed
qed

text \<open>What is kept follows the body up to the first token line and goes on at a line break.\<close>

lemma without_tokens_start:
  "\<exists>p q r. without_tokens s = p @ q \<and> s = p @ r \<and> (q = [] \<or> hd q = LF)"
proof (induction s rule: without_tokens.induct)
  case (1 s)
  consider "length s < length TOKEN_PREFIX" | "\<not> length s < length TOKEN_PREFIX" "prefix_at s"
    | "\<not> length s < length TOKEN_PREFIX" "\<not> prefix_at s" by blast
  then show ?case
  proof cases
    case 1
    then show ?thesis by (intro exI [of _ s] exI [of _ "[]"]) (subst without_tokens.simps, simp)
  next
    case 2
    have w: "without_tokens s = without_tokens (drop (line_len s) s)" using 2 by (subst without_tokens.simps) simp
    show ?thesis
    proof (cases "drop (line_len s) s")
      case Nil
      have "without_tokens [] = []" by (subst without_tokens.simps) (simp add: TOKEN_PREFIX_def)
      then show ?thesis using w Nil by (metis append_Nil)
    next
      case (Cons c t)
      have f: "find_char LF s = Some (line_len s)" using Cons by (auto simp: line_len_def split: option.splits)
      have "c = LF" using find_char_Some [OF f] Cons by (metis Cons_nth_drop_Suc list.inject)
      moreover have "\<not> prefix_at (LF # t)" by (simp add: prefix_at_def TOKEN_PREFIX_def LF_def to_ascii_lowercase_def ascii_lower_def is_ascii_upper_def code_def)
      ultimately have "without_tokens s = [] \<or> hd (without_tokens s) = LF"
        using w Cons by (subst (asm) without_tokens.simps) (auto split: if_splits)
      then show ?thesis by (metis append_Nil)
    qed
  next
    case 3
    then have n: "s \<noteq> []" by (auto simp: TOKEN_PREFIX_def)
    from 1(2) [OF 3] obtain p q r where "without_tokens (tl s) = p @ q" "tl s = p @ r" "q = [] \<or> hd q = LF" by blast
    moreover have "without_tokens s = hd s # without_tokens (tl s)" using 3 by (subst without_tokens.simps) simp
    ultimately show ?thesis using n by (metis append_Cons list.collapse)
  qed
qed

lemma prefix_at_long: "prefix_at s \<Longrightarrow> length TOKEN_PREFIX \<le> length s"
  using length_to_ascii_lowercase [of "take (length TOKEN_PREFIX) s"] by (simp add: prefix_at_def)

lemma prefix_at_append: "length TOKEN_PREFIX \<le> length s \<Longrightarrow> prefix_at (s @ t) = prefix_at s"
  by (simp add: prefix_at_def)

lemma prefix_at_no_newline: "prefix_at s \<Longrightarrow> LF \<notin> set (take (length TOKEN_PREFIX) s)"
proof
  assume p: "prefix_at s" and "LF \<in> set (take (length TOKEN_PREFIX) s)"
  then have "ascii_lower LF \<in> set (to_ascii_lowercase (take (length TOKEN_PREFIX) s))" by (simp add: to_ascii_lowercase_def)
  then show False using p by (simp add: prefix_at_def TOKEN_PREFIX_def LF_def ascii_lower_def is_ascii_upper_def code_def)
qed

lemma without_tokens_new: "prefix_at (without_tokens s) \<Longrightarrow> prefix_at s"
proof -
  assume a: "prefix_at (without_tokens s)"
  obtain p q r where w: "without_tokens s = p @ q" "s = p @ r" "q = [] \<or> hd q = LF" using without_tokens_start by blast
  have "length TOKEN_PREFIX \<le> length p"
  proof (rule ccontr)
    assume n: "\<not> length TOKEN_PREFIX \<le> length p"
    then have "q \<noteq> []" using prefix_at_long [OF a] w(1) by auto
    then have "LF \<in> set (take (length TOKEN_PREFIX) (without_tokens s))" using w(1,3) n by (cases q) (auto simp: take_Cons')
    then show False using prefix_at_no_newline [OF a] by blast
  qed
  then show ?thesis using a w(1,2) prefix_at_append by metis
qed

lemma without_tokens_clean: "\<not> prefix_at (drop i (without_tokens s))"
proof (induction s arbitrary: i rule: without_tokens.induct)
  case (1 s)
  consider "length s < length TOKEN_PREFIX" | "\<not> length s < length TOKEN_PREFIX" "prefix_at s"
    | "\<not> length s < length TOKEN_PREFIX" "\<not> prefix_at s" by blast
  then show ?case
  proof cases
    case 1
    then show ?thesis using prefix_at_long [of "drop i s"] by (subst without_tokens.simps) auto
  next
    case 2
    then show ?thesis using 1(1) [OF 2] by (subst without_tokens.simps) simp
  next
    case 3
    have w: "without_tokens s = hd s # without_tokens (tl s)" using 3 by (subst without_tokens.simps) simp
    show ?thesis
    proof (cases i)
      case 0
      then show ?thesis using without_tokens_new 3(2) by auto
    next
      case (Suc k)
      then show ?thesis using 1(2) [OF 3] w by simp
    qed
  qed
qed

lemma prefix_at_part: "\<not> prefix_at (drop (length u + i) (u @ s @ v)) \<Longrightarrow> \<not> prefix_at (drop i s)"
  using prefix_at_append [of "drop i s" v] prefix_at_long [of "drop i s"] by (cases "i \<le> length s") (auto simp: TOKEN_PREFIX_def)

lemma extract_token_clean:
  assumes "extract_token body = (t, kept)" shows "\<not> prefix_at (drop i kept)"
proof -
  obtain b token removed where b: "token_scan b 0 None [] = (token, removed)" "kept = trim (kept_from b 0 removed)"
    using assms by (auto simp: extract_token_def Let_def split: prod.splits)
  have "kept_from b 0 removed = without_tokens b"
    using token_scan_keeps [of b 0 None "[]"] b(1) by auto
  moreover obtain u v where "kept_from b 0 removed = u @ trim (kept_from b 0 removed) @ v" using trim_sub by metis
  ultimately show ?thesis using without_tokens_clean prefix_at_part [of u i kept v] b(2) by metis
qed

end
