(* ===== verification/Channel_Inbound.thy ===== *)
theory Channel_Inbound
  imports Gate_Facts Tool_Dispatch Asks Data_Policy
begin

text \<open>
  From a message of a channel to a task: the screen for NUL bytes (\<^verbatim>\<open>core/src/channel/inbound_nul.rs\<close>,
  \<^verbatim>\<open>db/src/nul.rs\<close>), the ask commands (\<^verbatim>\<open>ask_message.rs\<close>), the classification of a body (\<^verbatim>\<open>ingest.rs\<close>), pairing
  (\<^verbatim>\<open>pairing.rs\<close>) and the handler that composes them (\<^verbatim>\<open>bus_inbound.rs\<close>). What it does outside is a list of
  events: audit rows, calls that enqueue a task, resolve an ask or bind a peer. The database's answers are
  arguments.
\<close>

section \<open>Messages\<close>

record IncomingMessage =
  im_channel :: rstr
  im_peer :: rstr
  im_conversation :: rstr
  im_body :: rstr
  im_evidence :: "PeerEvidence option"

record OutgoingMessage =
  om_channel :: rstr
  om_peer :: rstr
  om_conversation :: rstr
  om_body :: rstr

datatype ChannelEvent =
    AuditRow rstr json
  | EnqueueCall json
  | ResolveCall rstr rstr "rstr \<times> rstr"
  | BoundPeer rstr rstr

definition REJECTED_MALFORMED :: rstr where "REJECTED_MALFORMED = ''channel.rejected_malformed''"
definition REJECTED_UNAUTHENTIC :: rstr where "REJECTED_UNAUTHENTIC = ''channel.rejected_unauthentic''"
definition REJECTED_UNVERIFIABLE :: rstr where "REJECTED_UNVERIFIABLE = ''channel.rejected_unverifiable''"
definition REJECTED_UNPAIRED :: rstr where "REJECTED_UNPAIRED = ''channel.rejected_unpaired''"
definition PAIRED :: rstr where "PAIRED = ''channel.paired''"
definition RECEIVED :: rstr where "RECEIVED = ''channel.received''"
definition ENQUEUE_FAILED :: rstr where "ENQUEUE_FAILED = ''channel.enqueue_failed''"
definition INJECTION_BLOCKED :: rstr where "INJECTION_BLOCKED = ''channel.injection_blocked''"
definition ASK_ANSWER_REJECTED :: rstr where "ASK_ANSWER_REJECTED = ''channel.ask_answer_rejected''"
definition ACTION_ASK_RESOLVED :: rstr where "ACTION_ASK_RESOLVED = ''ask.resolved''"
definition ASK_REASON_UNRESOLVABLE :: rstr where "ASK_REASON_UNRESOLVABLE = ''unresolvable''"
definition ASK_REASON_CARRIES_LIVE_TOKEN :: rstr where "ASK_REASON_CARRIES_LIVE_TOKEN = ''carries_live_token''"
definition ASK_REASON_UNSCANNABLE :: rstr where "ASK_REASON_UNSCANNABLE = ''unscannable''"
definition ASK_REASON_MALFORMED :: rstr where "ASK_REASON_MALFORMED = ''malformed''"

definition CHECK_MARK :: rstr where "CHECK_MARK = [CHR 0xE2, CHR 0x9C, CHR 0x93]"
definition BALLOT_X :: rstr where "BALLOT_X = [CHR 0xE2, CHR 0x9C, CHR 0x97]"

definition PAIRED_ACK_BODY :: rstr where
  "PAIRED_ACK_BODY = CHECK_MARK @ '' Paired '' @ em_dash @ '' you can now message me.''"

section \<open>NUL bytes\<close>

definition NUL :: char where "NUL = CHR 0x00"
definition NUL_ESCAPE_STR :: rstr where "NUL_ESCAPE_STR = [CHR 0xE2, CHR 0x90, CHR 0x80]"

definition count_nuls :: "rstr \<Rightarrow> nat" where
  "count_nuls s = length (filter (\<lambda>b. b = NUL) s)"

definition escape_str :: "rstr \<Rightarrow> rstr \<times> nat" where
  "escape_str s =
     (let count = count_nuls s in
      if count = 0 then (s, 0) else (concat (map (\<lambda>b. if b = NUL then NUL_ESCAPE_STR else [b]) s), count))"

datatype MalformedField = ChannelField | PeerField | ConversationField

fun malformed_field_str :: "MalformedField \<Rightarrow> rstr" where
  "malformed_field_str ChannelField = ''channel''"
| "malformed_field_str PeerField = ''peer''"
| "malformed_field_str ConversationField = ''conversation''"

datatype NulScreen = CleanMsg | BodyEscaped IncomingMessage nat | MalformedMsg MalformedField

definition nul_screen :: "IncomingMessage \<Rightarrow> NulScreen" where
  "nul_screen msg =
     (case find (\<lambda>(field, i). NUL \<in> set i)
             [(ChannelField, im_channel msg), (PeerField, im_peer msg), (ConversationField, im_conversation msg)] of
        Some (field, i) \<Rightarrow> MalformedMsg field
      | None \<Rightarrow>
          (case escape_str (im_body msg) of
             (escaped, nuls) \<Rightarrow> if nuls = 0 then CleanMsg else BodyEscaped (msg\<lparr>im_body := escaped\<rparr>) nuls))"

definition NUL_ESCAPED_BODY_KEY :: rstr where "NUL_ESCAPED_BODY_KEY = ''nul_escaped_body''"
definition REASON_NUL :: rstr where "REASON_NUL = ''nul''"

text \<open>\<^verbatim>\<open>admit\<close> gives the message to go on with and the number of its escaped bytes, or the row of the refusal.\<close>

definition admit :: "IncomingMessage \<Rightarrow> ChannelEvent + IncomingMessage \<times> nat" where
  "admit msg =
     (case nul_screen msg of
        CleanMsg \<Rightarrow> Ok (msg, 0)
      | BodyEscaped m nuls \<Rightarrow> Ok (m, nuls)
      | MalformedMsg field \<Rightarrow>
          Err (AuditRow REJECTED_MALFORMED
            (jobj [(''channel'', JStr (im_channel msg)), (''peer'', JStr (im_peer msg)),
                   (''field'', JStr (malformed_field_str field)), (''reason'', JStr REASON_NUL)])))"

definition mark :: "nat \<Rightarrow> (rstr \<times> json) list \<Rightarrow> json" where
  "mark body_nuls kvs = jobj (kvs @ (if body_nuls > 0 then [(NUL_ESCAPED_BODY_KEY, JInt (int body_nuls))] else []))"

section \<open>Ask commands in a body\<close>

definition CANDIDATE_BYTE_CAP :: nat where "CANDIDATE_BYTE_CAP = 65536"
definition CANDIDATE_TOKEN_CAP :: nat where "CANDIDATE_TOKEN_CAP = 1024"

text \<open>\<^verbatim>\<open>trim_matches\<close> with a predicate on code points; \<open>alnum\<close> is \<^verbatim>\<open>char::is_alphanumeric\<close>.\<close>

definition trim_matches :: "(rstr \<Rightarrow> bool) \<Rightarrow> rstr \<Rightarrow> rstr" where
  "trim_matches P s = concat (rev (dropWhile P (rev (dropWhile P (chars s)))))"

fun add_candidates :: "rstr list \<Rightarrow> rstr list \<Rightarrow> rstr list option" where
  "add_candidates [] out = Some out"
| "add_candidates (tok # toks) out =
     (if tok = [] \<or> tok \<in> set out then add_candidates toks out
      else if length out = CANDIDATE_TOKEN_CAP then None
      else add_candidates toks (out @ [tok]))"

definition candidate_tokens :: "(rstr \<Rightarrow> bool) \<Rightarrow> rstr \<Rightarrow> rstr list option" where
  "candidate_tokens alnum body =
     (if length body > CANDIDATE_BYTE_CAP then None
      else add_candidates (concat (map (\<lambda>raw. [raw, trim_matches (\<lambda>c. \<not> alnum c) raw]) (split_whitespace body))) [])"

definition is_command_shaped :: "rstr \<Rightarrow> bool" where
  "is_command_shaped body =
     (case split_whitespace body of
        [] \<Rightarrow> False
      | first # rest \<Rightarrow> to_ascii_lowercase first = ''/approve'' \<or> to_ascii_lowercase first = ''/deny'')"

definition ACK_NOT_ANSWERABLE :: rstr where
  "ACK_NOT_ANSWERABLE = BALLOT_X @ '' That approval token isn'' @ [CHR 0x27] @
     ''t answerable. It may be mistyped, or the question may no longer be open.''"

definition ACK_MALFORMED_COMMAND :: rstr where
  "ACK_MALFORMED_COMMAND = ''Usage: /approve TOKEN or /deny TOKEN '' @ em_dash @ '' exactly the verb and the token, nothing else.''"

fun ack_resolved :: "Choice \<Rightarrow> int \<Rightarrow> rstr" where
  "ack_resolved ChoiceApprove task_id = CHECK_MARK @ '' Approved '' @ em_dash @ '' task '' @ show_int task_id @ '' is resuming.''"
| "ack_resolved ChoiceDeny task_id = CHECK_MARK @ '' Denied '' @ em_dash @ '' task '' @ show_int task_id @ '' will not proceed.''"

section \<open>Screening and classification\<close>

definition INGEST_SCAN_BYTE_CAP :: nat where "INGEST_SCAN_BYTE_CAP = 64 * 1024"

datatype InboundDecision = EnqueueTask json | InjectionBlockedMsg rstr "rstr list" nat

definition build_channel_task_payload :: "IncomingMessage \<Rightarrow> json" where
  "build_channel_task_payload msg =
     jobj [(''kind'', JStr ''channel''), (''instruction'', JStr (im_body msg)), (''classification_floor'', JStr ''Public''),
           (''classification_floor_source'', JStr ''default''), (''channel'', JStr (im_channel msg)),
           (''peer'', JStr (im_peer msg)), (''conversation'', JStr (im_conversation msg))]"

definition body_verdict :: "(rstr \<Rightarrow> rstr) \<Rightarrow> rstr \<Rightarrow> InjectionVerdict" where
  "body_verdict lower body =
     screen_with_profile lower (fst (extract_scannable_text (JStr body) INGEST_SCAN_BYTE_CAP)) Strict"

definition screen_and_classify :: "(rstr \<Rightarrow> rstr) \<Rightarrow> (rstr \<Rightarrow> rstr) \<Rightarrow> IncomingMessage \<Rightarrow> InboundDecision" where
  "screen_and_classify lower sha_hex msg =
     (let v = body_verdict lower (im_body msg) in
      if iv_decision v = BlockOutput
      then InjectionBlockedMsg (sha_hex (im_body msg)) (iv_reason_codes v) (iv_score v)
      else EnqueueTask (build_channel_task_payload msg))"

section \<open>Pairing\<close>

record PairingDb =
  pd_any_active_code :: "rstr + bool"
  pd_begin :: "rstr + unit"
  pd_claim_code :: "rstr \<Rightarrow> rstr \<Rightarrow> rstr + bool"
  pd_rollback :: "rstr + unit"
  pd_insert_pairing :: "rstr \<Rightarrow> rstr \<Rightarrow> rstr + unit"
  pd_commit :: "rstr + unit"

datatype PairingOutcome = PairedPeer | NotAPairingAttempt

definition claim_and_bind :: "PairingDb \<Rightarrow> rstr \<Rightarrow> rstr \<Rightarrow> rstr \<Rightarrow> rstr \<Rightarrow> rstr + bool" where
  "claim_and_bind db hash by_whom channel peer =
     and_then (pd_begin db) (\<lambda>_.
     and_then (pd_claim_code db hash by_whom) (\<lambda>claimed.
     if \<not> claimed then and_then (pd_rollback db) (\<lambda>_. Ok False)
     else and_then (pd_insert_pairing db channel peer) (\<lambda>_. and_then (pd_commit db) (\<lambda>_. Ok True))))"

definition try_pair :: "(rstr \<Rightarrow> rstr) \<Rightarrow> PairingDb \<Rightarrow> rstr \<Rightarrow> rstr \<Rightarrow> rstr \<Rightarrow> PairingOutcome" where
  "try_pair sha_hex db channel peer body =
     (case pd_any_active_code db of
        Ok True \<Rightarrow>
          (case claim_and_bind db (sha_hex (trim body)) (channel @ ''/'' @ peer) channel peer of
             Ok True \<Rightarrow> PairedPeer
           | _ \<Rightarrow> NotAPairingAttempt)
      | _ \<Rightarrow> NotAPairingAttempt)"

section \<open>The handler\<close>

record AskResolver =
  ar_resolve :: "rstr \<Rightarrow> rstr \<Rightarrow> rstr \<times> rstr \<Rightarrow> rstr + (int \<times> int) option"
  ar_any_live_nonce :: "rstr list \<Rightarrow> rstr \<times> rstr \<Rightarrow> rstr + bool"

record InboundEnv =
  ie_authorize :: "rstr \<Rightarrow> rstr \<Rightarrow> PeerEvidence option \<Rightarrow> AuthDecision"
  ie_pairing :: "PairingDb option"
  ie_asks :: "AskResolver option"
  ie_enqueue :: "json \<Rightarrow> rstr + int"
  ie_lower :: "rstr \<Rightarrow> rstr"
  ie_sha_hex :: "rstr \<Rightarrow> rstr"
  ie_alnum :: "rstr \<Rightarrow> bool"
  ie_score :: "nat \<Rightarrow> json"

definition reply_to :: "IncomingMessage \<Rightarrow> rstr \<Rightarrow> OutgoingMessage" where
  "reply_to msg body =
     \<lparr>om_channel = im_channel msg, om_peer = im_peer msg, om_conversation = im_conversation msg, om_body = body\<rparr>"

definition peer_row :: "IncomingMessage \<Rightarrow> (rstr \<times> json) list" where
  "peer_row msg = [(''channel'', JStr (im_channel msg)), (''peer'', JStr (im_peer msg))]"

definition containment_refusal :: "InboundEnv \<Rightarrow> IncomingMessage \<Rightarrow> rstr option" where
  "containment_refusal env msg =
     (if \<not> looks_like_ask_command (im_body msg) then None
      else case ie_asks env of
             None \<Rightarrow> Some ASK_REASON_UNSCANNABLE
           | Some resolver \<Rightarrow>
               (case candidate_tokens (ie_alnum env) (im_body msg) of
                  None \<Rightarrow> Some ASK_REASON_UNSCANNABLE
                | Some tokens \<Rightarrow>
                    (case ar_any_live_nonce resolver tokens (im_channel msg, im_peer msg) of
                       Ok True \<Rightarrow> Some ASK_REASON_CARRIES_LIVE_TOKEN
                     | Ok False \<Rightarrow> None
                     | Err e \<Rightarrow> Some ASK_REASON_UNSCANNABLE)))"

definition answer_ask :: "AskResolver \<Rightarrow> IncomingMessage \<Rightarrow> AskCommand \<Rightarrow> OutgoingMessage \<times> ChannelEvent list" where
  "answer_ask resolver msg cmd =
     (let claimant = (im_channel msg, im_peer msg); choice = ask_choice_str (cmd_choice cmd) in
      case ar_resolve resolver (cmd_token cmd) choice claimant of
        Ok (Some (ask, task)) \<Rightarrow>
          (reply_to msg (ack_resolved (cmd_choice cmd) task),
           [ResolveCall (cmd_token cmd) choice claimant,
            AuditRow ACTION_ASK_RESOLVED
              (jobj [(''ask_id'', JInt ask), (''task_id'', JInt task), (''choice'', JStr choice),
                     (''resolved_by'', JStr (im_channel msg @ ''/'' @ im_peer msg)), (''via'', JStr ''channel'')])])
      | _ \<Rightarrow>
          (reply_to msg ACK_NOT_ANSWERABLE,
           [ResolveCall (cmd_token cmd) choice claimant,
            AuditRow ASK_ANSWER_REJECTED (jobj (peer_row msg @ [(''reason'', JStr ASK_REASON_UNRESOLVABLE)]))]))"

definition refuse_unpaired :: "InboundEnv \<Rightarrow> IncomingMessage \<Rightarrow> OutgoingMessage option \<times> ChannelEvent list" where
  "refuse_unpaired env msg =
     (case (if im_evidence msg = None then ie_pairing env else None) of
        Some db \<Rightarrow>
          if try_pair (ie_sha_hex env) db (im_channel msg) (im_peer msg) (im_body msg) = PairedPeer
          then (Some (reply_to msg PAIRED_ACK_BODY),
                [BoundPeer (im_channel msg) (im_peer msg), AuditRow PAIRED (jobj (peer_row msg))])
          else (None, [AuditRow REJECTED_UNPAIRED (jobj (peer_row msg))])
      | None \<Rightarrow> (None, [AuditRow REJECTED_UNPAIRED (jobj (peer_row msg))]))"

definition enqueue_message :: "InboundEnv \<Rightarrow> IncomingMessage \<Rightarrow> nat \<Rightarrow> ChannelEvent list" where
  "enqueue_message env msg nuls =
     (case screen_and_classify (ie_lower env) (ie_sha_hex env) msg of
        EnqueueTask payload \<Rightarrow>
          (case ie_enqueue env payload of
             Ok i \<Rightarrow>
               [EnqueueCall payload,
                AuditRow RECEIVED (mark nuls ([(''task_id'', JInt i)] @ peer_row msg @
                                              [(''conversation'', JStr (im_conversation msg))]))]
           | Err e \<Rightarrow>
               [EnqueueCall payload,
                AuditRow ENQUEUE_FAILED (jobj (peer_row msg @ [(''conversation'', JStr (im_conversation msg))]))])
      | InjectionBlockedMsg sha codes score \<Rightarrow>
          [AuditRow INJECTION_BLOCKED (mark nuls (peer_row msg @
             [(''sha256'', JStr sha), (''reason_codes'', JArr (map JStr codes)), (''score'', ie_score env score)]))])"

definition handle_recognised :: "InboundEnv \<Rightarrow> IncomingMessage \<Rightarrow> nat \<Rightarrow> OutgoingMessage option \<times> ChannelEvent list" where
  "handle_recognised env msg nuls =
     (case (case ie_asks env of
              None \<Rightarrow> None
            | Some resolver \<Rightarrow> map_option (Pair resolver) (parse_ask_command (im_body msg))) of
        Some (resolver, cmd) \<Rightarrow> (case answer_ask resolver msg cmd of (ack, evs) \<Rightarrow> (Some ack, evs))
      | None \<Rightarrow>
          (case (case containment_refusal env msg of
                   Some reason \<Rightarrow> Some reason
                 | None \<Rightarrow> if is_command_shaped (im_body msg) then Some ASK_REASON_MALFORMED else None) of
             Some reason \<Rightarrow>
               (Some (reply_to msg ACK_MALFORMED_COMMAND),
                [AuditRow ASK_ANSWER_REJECTED (jobj (peer_row msg @ [(''reason'', JStr reason)]))])
           | None \<Rightarrow> (None, enqueue_message env msg nuls)))"

definition handle_inbound :: "InboundEnv \<Rightarrow> IncomingMessage \<Rightarrow> OutgoingMessage option \<times> ChannelEvent list" where
  "handle_inbound env msg0 =
     (case admit msg0 of
        Err row \<Rightarrow> (None, [row])
      | Ok (msg, nuls) \<Rightarrow>
          (case ie_authorize env (im_channel msg) (im_peer msg) (im_evidence msg) of
             RejectedUnauthentic reason \<Rightarrow>
               (None, [AuditRow REJECTED_UNAUTHENTIC (jobj (peer_row msg @ [(''reason'', JStr (unauthentic_str reason))]))])
           | RejectedUnverifiable \<Rightarrow> (None, [AuditRow REJECTED_UNVERIFIABLE (jobj (peer_row msg))])
           | RejectedPeer \<Rightarrow> refuse_unpaired env msg
           | Recognised \<Rightarrow> handle_recognised env msg nuls))"

end
