(* ===== verification/Mail_Wire.thy ===== *)
theory Mail_Wire
  imports Channel_Inbound
begin

text \<open>
  What the mail worker's answers become (\<^verbatim>\<open>core/src/channel/email/wire.rs\<close>): the events of a poll, each with the
  evidence the gate read off it, and the messages the worker skipped. A polled event becomes a message of the
  channel in \<^verbatim>\<open>core/src/channel/polled_driver.rs\<close>.
\<close>

record PolledEvent =
  ev_peer :: rstr
  ev_conversation :: rstr
  ev_body :: rstr
  ev_evidence :: "PeerEvidence option"
  ev_ack_token :: "rstr option"

fun json_as_bool :: "json \<Rightarrow> bool option" where
  "json_as_bool (JBool b) = Some b"
| "json_as_bool _ = None"

definition wire_str_field :: "json \<Rightarrow> rstr \<Rightarrow> rstr + rstr" where
  "wire_str_field v key =
     (case Option.bind (json_get v key) json_as_str of
        Some s \<Rightarrow> Ok s
      | None \<Rightarrow> Err (''poll event missing '' @ [CHR 0x27] @ key @ [CHR 0x27]))"

definition auth_headers :: "json \<Rightarrow> (rstr \<times> rstr) list" where
  "auth_headers e =
     (case Option.bind (json_get e ''auth_results'') json_as_array of
        Some a \<Rightarrow> map (Pair ''Authentication-Results'') (List.map_filter json_as_str a)
      | None \<Rightarrow> [])"

definition order_known :: "json \<Rightarrow> bool" where
  "order_known e = (case Option.bind (json_get e ''auth_results_order_known'') json_as_bool of Some b \<Rightarrow> b | None \<Rightarrow> False)"

definition parse_email_event :: "rstr \<Rightarrow> json \<Rightarrow> rstr + PolledEvent" where
  "parse_email_event authserv_id e =
     and_then (wire_str_field e ''peer'') (\<lambda>peer.
     and_then (wire_str_field e ''conversation'') (\<lambda>conversation.
     and_then (wire_str_field e ''body'') (\<lambda>raw_body.
     case extract_token raw_body of
       (presented_token, body) \<Rightarrow>
         Ok \<lparr>ev_peer = to_ascii_lowercase peer, ev_conversation = conversation, ev_body = body,
             ev_evidence = Some \<lparr>pe_dmarc_pass = (order_known e \<and> trusted_dmarc_pass (auth_headers e) authserv_id),
                                 pe_presented_token = presented_token\<rparr>,
             ev_ack_token = Option.bind (json_get e ''ack_token'') json_as_str\<rparr>)))"

fun parse_email_events :: "rstr \<Rightarrow> json list \<Rightarrow> rstr + PolledEvent list" where
  "parse_email_events authserv_id [] = Ok []"
| "parse_email_events authserv_id (e # es) =
     and_then (parse_email_event authserv_id e) (\<lambda>ev.
     and_then (parse_email_events authserv_id es) (\<lambda>evs. Ok (ev # evs)))"

definition parse_email_poll_with :: "json \<Rightarrow> rstr \<Rightarrow> rstr + PolledEvent list" where
  "parse_email_poll_with v authserv_id =
     (case Option.bind (json_get v ''events'') json_as_array of
        None \<Rightarrow> Err (''poll result missing '' @ [CHR 0x27] @ ''events'' @ [CHR 0x27] @ '' array'')
      | Some es \<Rightarrow> parse_email_events authserv_id es)"

definition skipped_entry :: "json \<Rightarrow> (rstr \<times> rstr) option" where
  "skipped_entry entry =
     map_option (\<lambda>i. (i, case Option.bind (json_get entry ''reason'') json_as_str of Some r \<Rightarrow> r | None \<Rightarrow> ''(no reason given)''))
       (Option.bind (json_get entry ''message_id'') json_as_str)"

definition parse_email_skipped :: "json \<Rightarrow> (rstr \<times> rstr) list" where
  "parse_email_skipped v =
     (case Option.bind (json_get v ''skipped'') json_as_array of
        Some a \<Rightarrow> List.map_filter skipped_entry a
      | None \<Rightarrow> [])"

definition event_message :: "rstr \<Rightarrow> PolledEvent \<Rightarrow> IncomingMessage" where
  "event_message cid ev =
     \<lparr>im_channel = cid, im_peer = ev_peer ev, im_conversation = ev_conversation ev, im_body = ev_body ev,
      im_evidence = ev_evidence ev\<rparr>"

section \<open>Reading a batch\<close>

lemma parse_email_events_nth:
  "parse_email_events a es = Ok evs \<Longrightarrow> ev \<in> set evs \<Longrightarrow> \<exists>e \<in> set es. parse_email_event a e = Ok ev"
  by (induction es arbitrary: evs) (auto simp: and_then_def split: sum.splits)

lemma parse_email_event_evidence:
  assumes "parse_email_event a e = Ok ev"
  obtains raw t body p where "wire_str_field e ''body'' = Ok raw" "extract_token raw = (t, body)" "ev_body ev = body"
    "ev_evidence ev = Some \<lparr>pe_dmarc_pass = (order_known e \<and> trusted_dmarc_pass (auth_headers e) a), pe_presented_token = t\<rparr>"
    "wire_str_field e ''peer'' = Ok p" "ev_peer ev = to_ascii_lowercase p"
  using assms by (auto simp: parse_email_event_def and_then_def split: sum.splits prod.splits)

end
