(* ===== verification/Channel_Spec.thy ===== *)
theory Channel_Spec
  imports Mail_Wire
begin

text \<open>
  The properties of the channels' inbound side. A message acts (enqueues a task, answers an ask) only for a peer the
  authorizer vouches for; for mail that means the verdict of the configured server and the token of the pairing.
\<close>

section \<open>NUL bytes are gone\<close>

lemma escape_no_nul: "NUL \<notin> set (fst (escape_str s))"
  by (auto simp: escape_str_def count_nuls_def Let_def NUL_def NUL_ESCAPE_STR_def filter_empty_conv split: if_splits)

lemma escape_clean: "NUL \<notin> set s \<Longrightarrow> fst (escape_str s) = s"
  by (auto simp: escape_str_def count_nuls_def Let_def filter_empty_conv)

lemma admit_Ok:
  assumes "admit msg = Ok (m, nuls)"
  shows "m = msg\<lparr>im_body := fst (escape_str (im_body msg))\<rparr>"
    and "NUL \<notin> set (im_channel msg)" "NUL \<notin> set (im_peer msg)" "NUL \<notin> set (im_conversation msg)"
proof -
  have z: "snd (escape_str s) = 0 \<Longrightarrow> fst (escape_str s) = s" for s by (auto simp: escape_str_def Let_def)
  show "m = msg\<lparr>im_body := fst (escape_str (im_body msg))\<rparr>"
    using assms z [of "im_body msg"] by (auto simp: admit_def nul_screen_def split: option.splits prod.splits if_splits)
  show "NUL \<notin> set (im_channel msg)" "NUL \<notin> set (im_peer msg)" "NUL \<notin> set (im_conversation msg)"
    using assms by (auto simp: admit_def nul_screen_def split: option.splits prod.splits if_splits)
qed

section \<open>What each stage does\<close>

fun is_audit_row :: "ChannelEvent \<Rightarrow> bool" where
  "is_audit_row (AuditRow a p) = True"
| "is_audit_row e = False"

text \<open>The text a peer sent as the handler reads it, and the message with it.\<close>

definition read_body :: "IncomingMessage \<Rightarrow> rstr" where
  "read_body msg = fst (escape_str (im_body msg))"

definition read_message :: "IncomingMessage \<Rightarrow> IncomingMessage" where
  "read_message msg = msg\<lparr>im_body := read_body msg\<rparr>"

lemma read_message_simps [simp]:
  "im_channel (read_message msg) = im_channel msg" "im_peer (read_message msg) = im_peer msg"
  "im_conversation (read_message msg) = im_conversation msg" "im_evidence (read_message msg) = im_evidence msg"
  "im_body (read_message msg) = read_body msg"
  by (simp_all add: read_message_def)

lemma handle_inbound_cases:
  assumes "handle_inbound env msg = (reply, evs)"
  obtains (malformed) a p where "reply = None" "evs = [AuditRow a p]"
  | (refused) a p where "reply = None" "evs = [AuditRow a p]"
  | (unpaired) "ie_authorize env (im_channel msg) (im_peer msg) (im_evidence msg) = RejectedPeer"
      "refuse_unpaired env (read_message msg) = (reply, evs)"
  | (recognised) nuls where "ie_authorize env (im_channel msg) (im_peer msg) (im_evidence msg) = Recognised"
      "handle_recognised env (read_message msg) nuls = (reply, evs)"
proof (cases "admit msg")
  case (Inl row)
  then have "\<exists>a p. row = AuditRow a p" by (auto simp: admit_def split: NulScreen.splits)
  then show thesis using assms Inl malformed by (auto simp: handle_inbound_def)
next
  case (Inr r)
  obtain m nuls where r: "r = (m, nuls)" by (cases r)
  have m: "m = read_message msg" using admit_Ok(1) Inr r by (auto simp: read_message_def read_body_def)
  show thesis
    using assms Inr r m refused unpaired recognised by (auto simp: handle_inbound_def split: AuthDecision.splits)
qed

lemma refuse_unpaired_events:
  assumes "refuse_unpaired env msg = (reply, evs)"
  shows "(\<exists>a p. evs = [AuditRow a p]) \<or>
    (\<exists>a p db. evs = [BoundPeer (im_channel msg) (im_peer msg), AuditRow a p] \<and> im_evidence msg = None \<and> ie_pairing env = Some db \<and>
       try_pair (ie_sha_hex env) db (im_channel msg) (im_peer msg) (im_body msg) = PairedPeer)"
  using assms by (auto simp: refuse_unpaired_def split: option.splits if_splits)

lemma handle_recognised_events:
  assumes "handle_recognised env msg nuls = (reply, evs)"
  shows "(\<exists>a p. evs = [AuditRow a p]) \<or>
    (\<exists>a p r cmd. evs = [ResolveCall (cmd_token cmd) (ask_choice_str (cmd_choice cmd)) (im_channel msg, im_peer msg), AuditRow a p] \<and>
       ie_asks env = Some r \<and> parse_ask_command (im_body msg) = Some cmd) \<or>
    (\<exists>a p. evs = [EnqueueCall (build_channel_task_payload msg), AuditRow a p] \<and>
       iv_decision (body_verdict (ie_lower env) (im_body msg)) \<noteq> BlockOutput \<and>
       containment_refusal env msg = None \<and> \<not> is_command_shaped (im_body msg))"
proof (cases "\<exists>r cmd. ie_asks env = Some r \<and> parse_ask_command (im_body msg) = Some cmd")
  case True
  then show ?thesis using assms by (auto simp: handle_recognised_def answer_ask_def Let_def split: sum.splits option.splits prod.splits)
next
  case False
  then have n: "(case ie_asks env of None \<Rightarrow> None | Some resolver \<Rightarrow> map_option (Pair resolver) (parse_ask_command (im_body msg))) = None"
    by (auto split: option.splits)
  show ?thesis
    using assms unfolding handle_recognised_def n
    by (auto simp: enqueue_message_def screen_and_classify_def Let_def split: option.splits if_splits sum.splits InboundDecision.splits)
qed

lemma containment_passed:
  assumes "containment_refusal env msg = None" and "looks_like_ask_command (im_body msg)"
  shows "\<exists>r toks. ie_asks env = Some r \<and> candidate_tokens (ie_alnum env) (im_body msg) = Some toks \<and>
           ar_any_live_nonce r toks (im_channel msg, im_peer msg) = Ok False"
  using assms by (auto simp: containment_refusal_def split: option.splits sum.splits bool.splits)

lemma try_pair_iff:
  "try_pair sha db channel peer body = PairedPeer \<longleftrightarrow>
   pd_any_active_code db = Ok True \<and> pd_begin db = Ok () \<and> pd_claim_code db (sha (trim body)) (channel @ ''/'' @ peer) = Ok True \<and>
   pd_insert_pairing db channel peer = Ok () \<and> pd_commit db = Ok ()"
  by (auto simp: try_pair_def claim_and_bind_def and_then_def split: sum.splits bool.splits if_splits)

section \<open>The authorizer's contract\<close>

locale peer_authorizer =
  fixes authorize :: "rstr \<Rightarrow> rstr \<Rightarrow> PeerEvidence option \<Rightarrow> AuthDecision"
    and vouched :: "rstr \<Rightarrow> rstr \<Rightarrow> PeerEvidence option \<Rightarrow> bool"
    and unknown :: "rstr \<Rightarrow> rstr \<Rightarrow> bool"
  assumes recognised: "authorize c p ev = Recognised \<Longrightarrow> vouched c p ev"
    and rejected: "authorize c p ev = RejectedPeer \<Longrightarrow> unknown c p"
begin

lemma enqueue_vouched:
  assumes "ie_authorize env = authorize" and "handle_inbound env msg = (reply, evs)" and "EnqueueCall payload \<in> set evs"
  shows "vouched (im_channel msg) (im_peer msg) (im_evidence msg) \<and> payload = build_channel_task_payload (read_message msg) \<and>
    iv_decision (body_verdict (ie_lower env) (read_body msg)) \<noteq> BlockOutput \<and> \<not> is_command_shaped (read_body msg) \<and>
    containment_refusal env (read_message msg) = None"
  using assms(2)
proof (cases rule: handle_inbound_cases)
  case unpaired
  then show ?thesis using refuse_unpaired_events assms(3) by fastforce
next
  case (recognised nuls)
  then show ?thesis using handle_recognised_events [OF recognised(2)] assms(1,3) peer_authorizer.recognised [OF peer_authorizer_axioms] by auto
qed (use assms(3) in auto)

lemma resolve_vouched:
  assumes "ie_authorize env = authorize" and "handle_inbound env msg = (reply, evs)" and "ResolveCall t c who \<in> set evs"
  shows "vouched (im_channel msg) (im_peer msg) (im_evidence msg) \<and> who = (im_channel msg, im_peer msg) \<and>
    (\<exists>cmd. parse_ask_command (read_body msg) = Some cmd \<and> t = cmd_token cmd \<and> c = ask_choice_str (cmd_choice cmd))"
  using assms(2)
proof (cases rule: handle_inbound_cases)
  case unpaired
  then show ?thesis using refuse_unpaired_events assms(3) by fastforce
next
  case (recognised nuls)
  then show ?thesis using handle_recognised_events [OF recognised(2)] assms(1,3) peer_authorizer.recognised [OF peer_authorizer_axioms] by auto
qed (use assms(3) in auto)

lemma bound_unknown:
  assumes "ie_authorize env = authorize" and "handle_inbound env msg = (reply, evs)" and "BoundPeer c p \<in> set evs"
  shows "c = im_channel msg \<and> p = im_peer msg \<and> im_evidence msg = None \<and> unknown c p \<and>
    (\<exists>db. ie_pairing env = Some db \<and> try_pair (ie_sha_hex env) db c p (read_body msg) = PairedPeer)"
  using assms(2)
proof (cases rule: handle_inbound_cases)
  case unpaired
  then show ?thesis
    using refuse_unpaired_events [OF unpaired(2)] assms(1,3) rejected [of "im_channel msg" "im_peer msg" "im_evidence msg"] by auto
next
  case (recognised nuls)
  then show ?thesis using handle_recognised_events [OF recognised(2)] assms(3) by auto
qed (use assms(3) in auto)

end

lemma inbound_one_row:
  assumes "handle_inbound env msg = (reply, evs)"
  shows "length evs \<le> 2 \<and> (\<exists>a p. last evs = AuditRow a p) \<and> length (filter is_audit_row evs) = 1"
  using assms
proof (cases rule: handle_inbound_cases)
  case unpaired
  then show ?thesis using refuse_unpaired_events [OF unpaired(2)] by auto
next
  case (recognised nuls)
  then show ?thesis using handle_recognised_events [OF recognised(2)] by auto
qed auto

text \<open>The database's authorizer vouches for a peer whose pairing has no token and who comes with no evidence, or whose
  mail passed DMARC and carries the token of the pairing.\<close>

definition db_vouched ::
    "(rstr \<Rightarrow> rstr) \<Rightarrow> (rstr \<Rightarrow> rstr \<Rightarrow> rstr + rstr option option) \<Rightarrow> rstr \<Rightarrow> rstr \<Rightarrow> PeerEvidence option \<Rightarrow> bool" where
  "db_vouched sha_hex hashes channel peer evidence \<longleftrightarrow>
     (case evidence of
        None \<Rightarrow> hashes channel peer = Ok (Some None)
      | Some ev \<Rightarrow> pe_dmarc_pass ev \<and>
          (case pe_presented_token ev of None \<Rightarrow> False | Some t \<Rightarrow> hashes channel peer = Ok (Some (Some (sha_hex t)))))"

interpretation db: peer_authorizer "db_authorize sha_hex hashes" "db_vouched sha_hex hashes" "\<lambda>c p. hashes c p = Ok None" for sha_hex hashes
  by unfold_locales
     (auto simp: db_recognised_iff db_vouched_def, auto simp: db_authorize_def split: sum.splits option.splits if_splits)

interpretation static: peer_authorizer "static_authorize peers" "\<lambda>c p ev. p \<in> peers" "\<lambda>c p. p \<notin> peers" for peers
  by unfold_locales (auto simp: static_authorize_def split: if_splits)

section \<open>A concrete mail\<close>

definition demo_hashes :: "rstr \<Rightarrow> rstr \<Rightarrow> rstr + rstr option option" where
  "demo_hashes channel peer = (if channel = ''email'' \<and> peer = ''ann@x.org'' then Ok (Some (Some ''7k'')) else Ok None)"

definition demo_inbound :: InboundEnv where
  "demo_inbound =
     \<lparr>ie_authorize = db_authorize rev demo_hashes, ie_pairing = None, ie_asks = None, ie_enqueue = (\<lambda>payload. Ok 5),
      ie_lower = to_ascii_lowercase, ie_sha_hex = rev, ie_alnum = list_all is_ascii_alphanumeric, ie_score = (\<lambda>n. JInt (int n))\<rparr>"

definition demo_poll :: json where
  "demo_poll = JObj [(''events'', JArr [JObj
     [(''peer'', JStr ''Ann@x.org''), (''conversation'', JStr ''c1''), (''body'', JStr (''Hello'' @ [LF] @ ''Kastellan-Token: k7'')),
      (''auth_results'', JArr [JStr ''mx.example (dmarc=fail); dmarc=pass'']), (''auth_results_order_known'', JBool True)]])]"

definition demo_event :: PolledEvent where
  "demo_event = \<lparr>ev_peer = ''ann@x.org'', ev_conversation = ''c1'', ev_body = ''Hello'',
     ev_evidence = Some \<lparr>pe_dmarc_pass = True, pe_presented_token = Some ''k7''\<rparr>, ev_ack_token = None\<rparr>"

definition demo_task :: json where
  "demo_task = build_channel_task_payload (event_message ''email'' demo_event)"

definition demo_events :: "ChannelEvent list" where
  "demo_events = [EnqueueCall demo_task, AuditRow RECEIVED (jobj [(''task_id'', JInt 5), (''channel'', JStr ''email''),
     (''peer'', JStr ''ann@x.org''), (''conversation'', JStr ''c1'')])]"

lemma demo_authorizer: "ie_authorize demo_inbound = db_authorize (ie_sha_hex demo_inbound) demo_hashes"
  by (simp add: demo_inbound_def)

lemma demo_parsed: "parse_email_poll_with demo_poll ''mx.example'' = Ok [demo_event]"
  by code_simp

lemma demo_handled: "handle_inbound demo_inbound (event_message ''email'' demo_event) = (None, demo_events)"
  by code_simp

lemma demo_read: "read_message (event_message ''email'' demo_event) = event_message ''email'' demo_event"
  by code_simp

section \<open>Inbound messages\<close>

text \<open>C7. What a message does under the production authorizer. It becomes a task only if its
  peer is paired without a token and comes with no evidence, or its mail passed DMARC and carries a token whose digest is
  the pairing's; the task's text has no NUL byte, the strict injection screen let it pass, it is no command, and if it
  speaks of a command, the resolver found none of its words to be a live approval token. An approval is answered only in
  the name of such a peer, as the text says. A peer is bound only when the lookup knew of no pairing, without evidence,
  by a transaction that claimed the digest of the text and committed. Every message leaves exactly one audit row, last,
  and does at most one other thing.\<close>

theorem inbound_acts_only_for_vouched_peers:
  assumes "ie_authorize env = db_authorize (ie_sha_hex env) hashes" and "handle_inbound env msg = (reply, evs)"
  shows "(\<forall>payload. EnqueueCall payload \<in> set evs \<longrightarrow>
            db_vouched (ie_sha_hex env) hashes (im_channel msg) (im_peer msg) (im_evidence msg) \<and>
            payload = build_channel_task_payload (read_message msg) \<and> NUL \<notin> set (read_body msg) \<and>
            iv_decision (body_verdict (ie_lower env) (read_body msg)) \<noteq> BlockOutput \<and> \<not> is_command_shaped (read_body msg) \<and>
            (looks_like_ask_command (read_body msg) \<longrightarrow>
               (\<exists>r toks. ie_asks env = Some r \<and> candidate_tokens (ie_alnum env) (read_body msg) = Some toks \<and>
                  ar_any_live_nonce r toks (im_channel msg, im_peer msg) = Ok False))) \<and>
         (\<forall>t c who. ResolveCall t c who \<in> set evs \<longrightarrow>
            db_vouched (ie_sha_hex env) hashes (im_channel msg) (im_peer msg) (im_evidence msg) \<and> who = (im_channel msg, im_peer msg) \<and>
            (\<exists>cmd. parse_ask_command (read_body msg) = Some cmd \<and> t = cmd_token cmd \<and> c = ask_choice_str (cmd_choice cmd))) \<and>
         (\<forall>c p. BoundPeer c p \<in> set evs \<longrightarrow>
            c = im_channel msg \<and> p = im_peer msg \<and> im_evidence msg = None \<and> hashes c p = Ok None \<and>
            (\<exists>db. ie_pairing env = Some db \<and> pd_any_active_code db = Ok True \<and>
               pd_claim_code db (ie_sha_hex env (trim (read_body msg))) (c @ ''/'' @ p) = Ok True \<and> pd_commit db = Ok ())) \<and>
         length evs \<le> 2 \<and> (\<exists>a p. last evs = AuditRow a p) \<and> length (filter is_audit_row evs) = 1"
proof (intro conjI allI impI)
  fix payload
  assume "EnqueueCall payload \<in> set evs"
  note e = db.enqueue_vouched [OF assms this]
  show "db_vouched (ie_sha_hex env) hashes (im_channel msg) (im_peer msg) (im_evidence msg)"
    "payload = build_channel_task_payload (read_message msg)" "\<not> is_command_shaped (read_body msg)"
    "iv_decision (body_verdict (ie_lower env) (read_body msg)) \<noteq> BlockOutput" using e by blast+
  show "NUL \<notin> set (read_body msg)" unfolding read_body_def by (rule escape_no_nul)
  show "\<exists>r toks. ie_asks env = Some r \<and> candidate_tokens (ie_alnum env) (read_body msg) = Some toks \<and>
      ar_any_live_nonce r toks (im_channel msg, im_peer msg) = Ok False" if "looks_like_ask_command (read_body msg)"
    using containment_passed [of env "read_message msg"] e that by simp
next
  fix c p assume "BoundPeer c p \<in> set evs"
  note b = db.bound_unknown [OF assms this]
  show "c = im_channel msg" "p = im_peer msg" "im_evidence msg = None" "hashes c p = Ok None" using b by blast+
  show "\<exists>db. ie_pairing env = Some db \<and> pd_any_active_code db = Ok True \<and>
      pd_claim_code db (ie_sha_hex env (trim (read_body msg))) (c @ ''/'' @ p) = Ok True \<and> pd_commit db = Ok ()"
    using b unfolding try_pair_iff by blast
qed (use db.resolve_vouched [OF assms] inbound_one_row [OF assms(2)] in blast)+

text \<open>The mail of the demonstration becomes a task for the vouched-for sender.\<close>

lemma inbound_acts_only_for_vouched_peers_witness:
  "db_vouched rev demo_hashes ''email'' ''ann@x.org'' (Some \<lparr>pe_dmarc_pass = True, pe_presented_token = Some ''k7''\<rparr>) \<and>
   iv_decision (body_verdict to_ascii_lowercase ''Hello'') \<noteq> BlockOutput \<and> length (filter is_audit_row demo_events) = 1"
proof -
  have e: "EnqueueCall demo_task \<in> set demo_events" by (simp add: demo_events_def)
  have b: "read_body (event_message ''email'' demo_event) = ''Hello''" by code_simp
  show ?thesis
    using inbound_acts_only_for_vouched_peers [OF demo_authorizer demo_handled] e unfolding b
    by (auto simp: demo_inbound_def event_message_def demo_event_def)
qed

text \<open>C12. What a mail may do. An event of a batch of the mail worker becomes a task or an approval only if the worker knew
  the order of its headers, the first Authentication-Results header names the configured server and holds exactly one
  DMARC verdict, a pass, outside quoted strings and comments, and a line of the mail carries the token whose digest is the
  pairing's of the (lowercased) sender. What is acted on holds no token line any more.\<close>

theorem mail_acts_only_when_authentic:
  assumes "ie_authorize env = db_authorize (ie_sha_hex env) hashes"
    and "parse_email_poll_with v authserv_id = Ok evs" and "ev \<in> set evs"
    and "handle_inbound env (event_message cid ev) = (reply, out)"
    and "EnqueueCall payload \<in> set out \<or> ResolveCall t c who \<in> set out"
  shows "\<exists>es e sender raw tok. json_get v ''events'' = Some (JArr es) \<and> e \<in> set es \<and> order_known e \<and>
           trusted_dmarc_pass (auth_headers e) authserv_id \<and> wire_str_field e ''peer'' = Ok sender \<and> ev_peer ev = to_ascii_lowercase sender \<and>
           wire_str_field e ''body'' = Ok raw \<and> extract_token raw = (Some tok, ev_body ev) \<and>
           hashes cid (ev_peer ev) = Ok (Some (Some (ie_sha_hex env tok))) \<and> \<not> prefix_at (drop i (ev_body ev))"
proof -
  obtain es where es: "json_get v ''events'' = Some (JArr es)" "parse_email_events authserv_id es = Ok evs"
    using assms(2) by (auto simp: parse_email_poll_with_def bind_eq_Some_conv split: option.splits elim!: json_as_array.elims)
  obtain e where e: "e \<in> set es" "parse_email_event authserv_id e = Ok ev"
    using parse_email_events_nth [OF es(2) assms(3)] by blast
  obtain raw tok body p where w: "wire_str_field e ''body'' = Ok raw" "extract_token raw = (tok, body)" "ev_body ev = body"
      "ev_evidence ev = Some \<lparr>pe_dmarc_pass = (order_known e \<and> trusted_dmarc_pass (auth_headers e) authserv_id), pe_presented_token = tok\<rparr>"
      "wire_str_field e ''peer'' = Ok p" "ev_peer ev = to_ascii_lowercase p"
    using e(2) by (rule parse_email_event_evidence)
  have "db_vouched (ie_sha_hex env) hashes (im_channel (event_message cid ev)) (im_peer (event_message cid ev))
      (im_evidence (event_message cid ev))"
    using assms(5) db.enqueue_vouched [OF assms(1,4)] db.resolve_vouched [OF assms(1,4)] by blast
  then have "db_vouched (ie_sha_hex env) hashes cid (ev_peer ev) (ev_evidence ev)" by (simp add: event_message_def)
  then obtain t where "order_known e" "trusted_dmarc_pass (auth_headers e) authserv_id" "tok = Some t"
      "hashes cid (ev_peer ev) = Ok (Some (Some (ie_sha_hex env t)))"
    using w(4) by (auto simp: db_vouched_def split: option.splits)
  moreover have "\<not> prefix_at (drop i (ev_body ev))" using extract_token_clean [OF w(2)] w(3) by simp
  ultimately show ?thesis using es(1) e(1) w by blast
qed

lemma mail_acts_only_when_authentic_witness:
  "\<exists>es e sender raw tok. json_get demo_poll ''events'' = Some (JArr es) \<and> e \<in> set es \<and> order_known e \<and>
     trusted_dmarc_pass (auth_headers e) ''mx.example'' \<and> wire_str_field e ''peer'' = Ok sender \<and>
     ev_peer demo_event = to_ascii_lowercase sender \<and>
     wire_str_field e ''body'' = Ok raw \<and> extract_token raw = (Some tok, ev_body demo_event) \<and>
     demo_hashes ''email'' (ev_peer demo_event) = Ok (Some (Some (ie_sha_hex demo_inbound tok))) \<and>
     \<not> prefix_at (drop 3 (ev_body demo_event))"
  by (rule mail_acts_only_when_authentic [OF demo_authorizer demo_parsed _ demo_handled, where payload = demo_task])
     (simp_all add: demo_events_def)

section \<open>The verdict of the mail server\<close>

text \<open>C22. The gate admits a message exactly when a server is configured, the first Authentication-Results header has no
  quoted string and no comment left open, and its visible text (every quoted string and comment blanked, then split at
  semicolons) starts with the configured server's name and has exactly one DMARC verdict among the rest, a pass. So text
  hidden in quotes or comments, later headers and a second verdict decide nothing in favour.\<close>

theorem dmarc_gate_exact:
  assumes "list_all (\<lambda>(name, v). utf8_valid v) headers"
  shows "trusted_dmarc_pass headers authserv_id \<longleftrightarrow>
    to_ascii_lowercase (trim authserv_id) \<noteq> [] \<and>
    (\<exists>name v parts. find is_auth_results headers = Some (name, v) \<and> top_level_segments v \<noteq> None \<and>
       split_char CHR '';'' (strip_quotes_and_comments v) = parts \<and>
       to_ascii_lowercase (first_word (hd parts)) = to_ascii_lowercase (trim authserv_id) \<and>
       dmarc_results (tl parts) = [''pass''])"
proof (cases "find is_auth_results headers")
  case None
  then show ?thesis by (simp add: trusted_dmarc_pass_def Let_def)
next
  case (Some h)
  obtain name v where h: "h = (name, v)" by (cases h)
  have u: "utf8_valid v" using assms Some h by (auto simp: find_Some_iff list_all_iff dest!: nth_mem)
  show ?thesis
  proof (cases "top_level_segments v")
    case None
    then show ?thesis using Some h by (simp add: trusted_dmarc_pass_def Let_def)
  next
    case (Some segs)
    note m = segments_visible [OF Some u]
    then have ne: "segs \<noteq> []" by (metis list.simps(8) split_char_nonempty)
    have hd: "strip_quotes_and_comments (segs ! 0) = hd (split_char CHR '';'' (strip_quotes_and_comments v))"
      using ne by (simp flip: m add: hd_conv_nth)
    have tl: "map strip_quotes_and_comments (drop 1 segs) = tl (split_char CHR '';'' (strip_quotes_and_comments v))"
      by (simp flip: m add: drop_Suc map_tl)
    have "(case dmarc_verdict (drop 1 segs) of Some b \<Rightarrow> b | None \<Rightarrow> False) \<longleftrightarrow> dmarc_verdict (drop 1 segs) = Some True"
      by (auto split: option.splits)
    then show ?thesis
      using \<open>find is_auth_results headers = Some h\<close> h Some hd tl
      by (simp add: trusted_dmarc_pass_def Let_def authserv_id_of_def dmarc_verdict_iff)
  qed
qed

lemma dmarc_gate_exact_witness:
  "trusted_dmarc_pass [(''Authentication-Results'', ''mx.example (dmarc=fail); dmarc=pass'')] ''mx.example'' \<and>
   (\<exists>name v parts. find is_auth_results [(''Authentication-Results'', ''mx.example (dmarc=fail); dmarc=pass'')] = Some (name, v) \<and>
      split_char CHR '';'' (strip_quotes_and_comments v) = parts \<and> dmarc_results (tl parts) = [''pass''])"
proof -
  let ?hs = "[(''Authentication-Results'', ''mx.example (dmarc=fail); dmarc=pass'')]"
  have u: "list_all (\<lambda>(name, v). utf8_valid v) ?hs" by code_simp
  have t: "trusted_dmarc_pass ?hs ''mx.example''" by code_simp
  with dmarc_gate_exact [OF u, of "''mx.example''"] show ?thesis by blast
qed

end
