(* ===== verification/Channel_Outbound.thy ===== *)
theory Channel_Outbound
  imports Channel_Inbound Worker_Lifecycle
begin

text \<open>
  From a finished task to a reply: what the reply says (\<^verbatim>\<open>core/src/channel/route.rs\<close>), the note on a late one and the
  streaks of failures (\<^verbatim>\<open>catch_up.rs\<close>), routing and the catch-up sweep (\<^verbatim>\<open>bus_outbound.rs\<close>), claiming and sending
  (\<^verbatim>\<open>bus_deliver.rs\<close>), the rows for a reply that did not go out (\<^verbatim>\<open>undelivered.rs\<close>), the lines for lost work
  (\<^verbatim>\<open>bus_guards.rs\<close>), and the statements on the task table behind them (\<^verbatim>\<open>db/src/tasks/reply_claim.rs\<close>). A statement
  may fail before it takes effect, or take effect and have its answer lost.
\<close>

section \<open>What a reply says\<close>

record AskDestination =
  ad_channel :: rstr
  ad_peer :: rstr
  ad_conversation :: rstr

definition payload_str :: "json \<Rightarrow> rstr \<Rightarrow> rstr option" where
  "payload_str v key = Option.bind (json_get v key) json_as_str"

definition destination_from_task_payload :: "json \<Rightarrow> AskDestination option" where
  "destination_from_task_payload payload =
     (if payload_str payload ''kind'' \<noteq> Some ''channel'' then None
      else case (payload_str payload ''channel'', payload_str payload ''peer'', payload_str payload ''conversation'') of
             (Some channel, Some peer, Some conversation) \<Rightarrow>
               Some \<lparr>ad_channel = channel, ad_peer = peer, ad_conversation = conversation\<rparr>
           | _ \<Rightarrow> None)"

definition ASK_TIMEOUT_DETAIL :: rstr where "ASK_TIMEOUT_DETAIL = ''ask_timeout''"
definition CRASHED_DETAIL :: rstr where "CRASHED_DETAIL = ''crashed''"

definition route_str_field :: "json \<Rightarrow> rstr \<Rightarrow> rstr option" where
  "route_str_field v key =
     (case payload_str v key of
        Some s \<Rightarrow> if trim s \<noteq> [] then Some s else None
      | None \<Rightarrow> None)"

text \<open>\<open>print\<close> is \<^verbatim>\<open>serde_json::to_string\<close>, which succeeds on every value.\<close>

definition completion_body :: "(json \<Rightarrow> rstr) \<Rightarrow> json \<Rightarrow> rstr" where
  "completion_body print result =
     (case route_str_field result ''body'' of
        Some b \<Rightarrow> b
      | None \<Rightarrow> (case route_str_field result ''message'' of Some m \<Rightarrow> m | None \<Rightarrow> print result))"

definition or_str :: "rstr option \<Rightarrow> rstr \<Rightarrow> rstr" where
  "or_str x d = (case x of Some s \<Rightarrow> s | None \<Rightarrow> d)"

definition reply_body :: "(json \<Rightarrow> rstr) \<Rightarrow> json option \<Rightarrow> rstr" where
  "reply_body print result =
     (case result of
        None \<Rightarrow> ''Task finished, but produced no result.''
      | Some result \<Rightarrow>
          (let kind = payload_str result ''kind''; detail = payload_str result ''detail'' in
           if kind = Some ''error'' \<and> detail = Some ASK_TIMEOUT_DETAIL then
             ''I needed an operator to approve something before continuing, and nobody answered in time, so I stopped.''
           else if kind = Some ''error'' \<and> detail = Some CRASHED_DETAIL then
             ''Sorry '' @ em_dash @ '' I was restarted while working on that, so it never finished. Please ask again.''
           else if kind = Some ''error'' then
             ''Sorry '' @ em_dash @ '' that failed: '' @ or_str detail ''unknown error''
           else if kind = Some ''blocked'' then
             ''I can'' @ [CHR 0x27] @ ''t do that (policy: '' @ or_str (payload_str result ''principle'') ''blocked'' @ '').''
           else if kind = Some ''refused'' then
             or_str (route_str_field result ''body'') ''I have to decline that request.''
           else if kind = Some ''denied'' then
             (case route_str_field result ''reason'' of
                Some reason \<Rightarrow> ''An operator declined that: '' @ reason @ ''.''
              | None \<Rightarrow> ''An operator declined that request.'')
           else completion_body print result))"

definition reply_for_completed_task :: "(json \<Rightarrow> rstr) \<Rightarrow> json \<Rightarrow> json option \<Rightarrow> OutgoingMessage option" where
  "reply_for_completed_task print payload result =
     (case destination_from_task_payload payload of
        None \<Rightarrow> None
      | Some dest \<Rightarrow>
          Some \<lparr>om_channel = ad_channel dest, om_peer = ad_peer dest, om_conversation = ad_conversation dest,
                om_body = reply_body print result\<rparr>)"

section \<open>Late replies and streaks of failures\<close>

datatype Via = Notify | CatchUp

fun via_str :: "Via \<Rightarrow> rstr" where
  "via_str Notify = ''notify''"
| "via_str CatchUp = ''catch_up''"

text \<open>Points in time and durations are nanoseconds.\<close>

definition NANOS :: int where "NANOS = 1000000000"
definition LATE_AFTER :: int where "LATE_AFTER = 5 * 60 * NANOS"
definition SWEEP_PAGE :: int where "SWEEP_PAGE = 100"
definition SWEEP_FAILURES_LOUD :: nat where "SWEEP_FAILURES_LOUD = 3"
definition CLAIM_FAILURES_LOUD :: nat where "CLAIM_FAILURES_LOUD = 3"
definition CLAIM_FAILURES_LOUD_AFTER :: nat where "CLAIM_FAILURES_LOUD_AFTER = 60 * 1000000000"


record ClaimedReply =
  cr_created_at :: int
  cr_finished_at :: "int option"

definition lateness :: "int \<Rightarrow> int option \<Rightarrow> int \<Rightarrow> int option" where
  "lateness created_at finished_at now =
     (let late_by = now - (case finished_at of Some f \<Rightarrow> f | None \<Rightarrow> created_at) in
      if late_by > LATE_AFTER then Some late_by else None)"

text \<open>\<^verbatim>\<open>whole_minutes\<close> rounds towards zero; below one minute the maximum is one either way.\<close>

definition humanize :: "int \<Rightarrow> rstr" where
  "humanize d =
     (let mins = max (d div (60 * NANOS)) 1;
          days = mins div (24 * 60); hours = mins mod (24 * 60) div 60; m = mins mod 60;
          day_word = (if days = 1 then ''day'' else ''days'') in
      if days = 0 \<and> hours = 0 then show_int m @ '' min''
      else if days = 0 \<and> m = 0 then show_int hours @ '' h''
      else if days = 0 then show_int hours @ '' h '' @ show_int m @ '' min''
      else if hours = 0 then show_int days @ '' '' @ day_word
      else show_int days @ '' '' @ day_word @ '' '' @ show_int hours @ '' h'')"

definition late_reply :: "ClaimedReply \<Rightarrow> int \<Rightarrow> (int \<times> rstr) option" where
  "late_reply claim now =
     (case lateness (cr_created_at claim) (cr_finished_at claim) now of
        None \<Rightarrow> None
      | Some late_by \<Rightarrow>
          Some (late_by, ''(Delayed reply '' @ em_dash @ '' you sent this '' @ humanize (now - cr_created_at claim) @ '' ago.)''))"

record SweepReport =
  sr_read_failed :: bool
  sr_queued :: nat
  sr_unserved :: nat
  sr_load_failed :: nat
  sr_claim_failed :: nat

definition SweepReport_default :: SweepReport where
  "SweepReport_default = \<lparr>sr_read_failed = False, sr_queued = 0, sr_unserved = 0, sr_load_failed = 0, sr_claim_failed = 0\<rparr>"

definition is_failure :: "SweepReport \<Rightarrow> bool" where
  "is_failure r \<longleftrightarrow> sr_read_failed r \<or> sr_claim_failed r > 0 \<and> sr_queued r = 0"

definition cap_u32 :: "nat \<Rightarrow> nat" where
  "cap_u32 n = min n U32_MAX"

definition streak_record :: "nat \<Rightarrow> bool \<Rightarrow> nat \<times> nat option" where
  "streak_record n failed =
     (if \<not> failed then (0, None)
      else let n' = cap_u32 (n + 1) in (n', if n' \<ge> SWEEP_FAILURES_LOUD then Some n' else None))"

record ClaimStreak =
  cs_failed :: nat
  cs_since :: "nat option"
  cs_said :: "nat option"

definition ClaimStreak_default :: ClaimStreak where
  "ClaimStreak_default = \<lparr>cs_failed = 0, cs_since = None, cs_said = None\<rparr>"

text \<open>Here \<open>now\<close> is a reading of the monotonic clock; \<^verbatim>\<open>duration_since\<close> saturates at zero.\<close>

definition claim_record :: "ClaimStreak \<Rightarrow> bool \<Rightarrow> nat \<Rightarrow> ClaimStreak \<times> nat option" where
  "claim_record cs failed now =
     (if \<not> failed then (ClaimStreak_default, None)
      else
        let n = cap_u32 (cs_failed cs + 1);
            since = (case cs_since cs of Some t \<Rightarrow> t | None \<Rightarrow> now);
            cs' = cs\<lparr>cs_failed := n, cs_since := Some since\<rparr> in
        if n < CLAIM_FAILURES_LOUD \<or> now - since < CLAIM_FAILURES_LOUD_AFTER then (cs', None)
        else case cs_said cs of
               Some said \<Rightarrow> if n < cap_u32 (said * 2) then (cs', None) else (cs'\<lparr>cs_said := Some n\<rparr>, Some n)
             | None \<Rightarrow> (cs'\<lparr>cs_said := Some n\<rparr>, Some n))"

section \<open>The task table\<close>

datatype ReplyDisposition = Routed | Unroutable

record TaskRow =
  tr_id :: int
  tr_state :: rstr
  tr_payload :: json
  tr_result :: "json option"
  tr_created_at :: int
  tr_finished_at :: "int option"
  tr_settled :: "ReplyDisposition option"

definition REPLIED_STATES :: "rstr list" where
  "REPLIED_STATES = [''completed'', ''failed'', ''cancelled'', ''blocked'', ''timed_out'', ''crashed'', ''refused'']"

definition find_task :: "TaskRow list \<Rightarrow> int \<Rightarrow> TaskRow option" where
  "find_task tasks i = find (\<lambda>r. tr_id r = i) tasks"

definition claimable :: "TaskRow \<Rightarrow> bool" where
  "claimable r \<longleftrightarrow> tr_settled r = None \<and> tr_state r \<in> set REPLIED_STATES"

text \<open>The \<^verbatim>\<open>UPDATE\<close> of \<^verbatim>\<open>claim_reply\<close> and the row it returns; the \<^verbatim>\<open>SELECT\<close>s of \<^verbatim>\<open>reply_settled\<close> and
  \<^verbatim>\<open>unsettled_channel_replies\<close>.\<close>

definition claim_rows :: "TaskRow list \<Rightarrow> int \<Rightarrow> ReplyDisposition \<Rightarrow> TaskRow list" where
  "claim_rows tasks i d = map (\<lambda>r. if tr_id r = i \<and> claimable r then r\<lparr>tr_settled := Some d\<rparr> else r) tasks"

definition claimed_row :: "TaskRow list \<Rightarrow> int \<Rightarrow> ClaimedReply option" where
  "claimed_row tasks i =
     map_option (\<lambda>r. \<lparr>cr_created_at = tr_created_at r, cr_finished_at = tr_finished_at r\<rparr>)
       (find (\<lambda>r. tr_id r = i \<and> claimable r) tasks)"

definition reply_settled :: "TaskRow list \<Rightarrow> int \<Rightarrow> bool" where
  "reply_settled tasks i = (case find_task tasks i of Some r \<Rightarrow> tr_settled r \<noteq> None | None \<Rightarrow> False)"

definition unsettled_channel_replies :: "TaskRow list \<Rightarrow> int \<Rightarrow> int \<Rightarrow> int list" where
  "unsettled_channel_replies tasks after_id limit =
     take (nat (max limit 0))
       (sort (map tr_id (filter (\<lambda>r. claimable r \<and> payload_str (tr_payload r) ''kind'' = Some ''channel'' \<and> tr_id r > after_id) tasks)))"

section \<open>Effects\<close>

datatype Queued = ReplyItem int Via OutgoingMessage | AskItem int OutgoingMessage

fun queued_message :: "Queued \<Rightarrow> OutgoingMessage" where
  "queued_message (ReplyItem task_id via out) = out"
| "queued_message (AskItem task_id out) = out"

text \<open>The log: audit rows, calls of \<^verbatim>\<open>Channel::send\<close> (with the task whose reply it is, or as another message) and
  lines about lost work.\<close>

datatype OutEvent = OutRow rstr json | SendReply int OutgoingMessage | SendOther OutgoingMessage | LostLine rstr

datatype Fault = Fine | LostBefore rstr | LostAfter rstr

text \<open>The answers of the outside world, each by the number of the call: what becomes of a statement, the clock, and
  whether a send succeeds; and printing.\<close>

record OutEnv =
  oe_fault :: "nat \<Rightarrow> Fault"
  oe_now :: "nat \<Rightarrow> int"
  oe_sent :: "nat \<Rightarrow> bool"
  oe_time_json :: "int \<Rightarrow> json"
  oe_print :: "json \<Rightarrow> rstr"
  oe_dbg :: "rstr \<Rightarrow> rstr"

text \<open>A queue is absent when its pump has ended (or there is none).\<close>

record Outbound =
  ob_tasks :: "TaskRow list"
  ob_queue :: "rstr \<Rightarrow> Queued list option"
  ob_clock :: nat
  ob_events :: "OutEvent list"

definition next_call :: "Outbound \<Rightarrow> Outbound" where
  "next_call s = s\<lparr>ob_clock := Suc (ob_clock s)\<rparr>"

definition log_out :: "OutEvent \<Rightarrow> Outbound \<Rightarrow> Outbound" where
  "log_out e s = s\<lparr>ob_events := ob_events s @ [e]\<rparr>"

definition db_load :: "OutEnv \<Rightarrow> Outbound \<Rightarrow> int \<Rightarrow> Outbound \<times> (rstr + (json \<times> json option) option)" where
  "db_load env s i =
     (next_call s,
      case oe_fault env (ob_clock s) of
        Fine \<Rightarrow> Ok (map_option (\<lambda>r. (tr_payload r, tr_result r)) (find_task (ob_tasks s) i))
      | LostBefore e \<Rightarrow> Err e
      | LostAfter e \<Rightarrow> Err e)"

definition db_claim :: "OutEnv \<Rightarrow> Outbound \<Rightarrow> int \<Rightarrow> ReplyDisposition \<Rightarrow> Outbound \<times> (rstr + ClaimedReply option)" where
  "db_claim env s i d =
     (let done = (next_call s)\<lparr>ob_tasks := claim_rows (ob_tasks s) i d\<rparr> in
      case oe_fault env (ob_clock s) of
        Fine \<Rightarrow> (done, Ok (claimed_row (ob_tasks s) i))
      | LostBefore e \<Rightarrow> (next_call s, Err e)
      | LostAfter e \<Rightarrow> (done, Err e))"

definition db_settled :: "OutEnv \<Rightarrow> Outbound \<Rightarrow> int \<Rightarrow> Outbound \<times> (rstr + bool)" where
  "db_settled env s i =
     (next_call s,
      case oe_fault env (ob_clock s) of
        Fine \<Rightarrow> Ok (reply_settled (ob_tasks s) i)
      | LostBefore e \<Rightarrow> Err e
      | LostAfter e \<Rightarrow> Err e)"

definition db_unsettled :: "OutEnv \<Rightarrow> Outbound \<Rightarrow> int \<Rightarrow> int \<Rightarrow> Outbound \<times> (rstr + int list)" where
  "db_unsettled env s after_id limit =
     (next_call s,
      case oe_fault env (ob_clock s) of
        Fine \<Rightarrow> Ok (unsettled_channel_replies (ob_tasks s) after_id limit)
      | LostBefore e \<Rightarrow> Err e
      | LostAfter e \<Rightarrow> Err e)"

section \<open>Rows and lines\<close>

definition REPLIED :: rstr where "REPLIED = ''channel.replied''"
definition REPLY_UNDELIVERED :: rstr where "REPLY_UNDELIVERED = ''channel.reply_undelivered''"
definition REPLY_UNROUTABLE :: rstr where "REPLY_UNROUTABLE = ''channel.reply_unroutable''"

datatype UndeliveredReason = SendFailed | QueueClosed | ClaimUnknown | GaveUp | QueueFull | DriverExit

fun undelivered_str :: "UndeliveredReason \<Rightarrow> rstr" where
  "undelivered_str SendFailed = ''send_failed''"
| "undelivered_str QueueClosed = ''queue_closed''"
| "undelivered_str ClaimUnknown = ''claim_unknown''"
| "undelivered_str GaveUp = ''gave_up''"
| "undelivered_str QueueFull = ''queue_full''"
| "undelivered_str DriverExit = ''driver_exit''"

definition undelivered_payload :: "OutEnv \<Rightarrow> rstr \<Rightarrow> rstr \<Rightarrow> UndeliveredReason \<Rightarrow> int \<Rightarrow> json" where
  "undelivered_payload env channel peer reason observed_at =
     jobj [(''channel'', JStr channel), (''peer'', JStr peer), (''reason'', JStr (undelivered_str reason)),
           (''observed_at'', oe_time_json env observed_at)]"

definition TRUNCATION_MARKER :: rstr where "TRUNCATION_MARKER = ''...(truncated)''"
definition QUOTED_ID_CAP_CHARS :: nat where "QUOTED_ID_CAP_CHARS = 128"

definition cap_chars :: "rstr \<Rightarrow> nat \<Rightarrow> rstr" where
  "cap_chars text cap =
     (if length (chars text) \<le> cap then text else concat (take cap (chars text)) @ TRUNCATION_MARKER)"

definition quoted_id :: "OutEnv \<Rightarrow> rstr \<Rightarrow> rstr" where
  "quoted_id env i = oe_dbg env (cap_chars i QUOTED_ID_CAP_CHARS)"

definition describe_about :: "OutEnv \<Rightarrow> rstr option \<Rightarrow> rstr option \<Rightarrow> rstr" where
  "describe_about env channel peer =
     (let parts = List.map_filter (\<lambda>(key, v). map_option (\<lambda>v. key @ '' '' @ quoted_id env v) v)
                    [(''channel'', channel), (''peer'', peer)] in
      case parts of
        [] \<Rightarrow> []
      | p # ps \<Rightarrow> '' for '' @ p @ concat (map (\<lambda>q. '', '' @ q) ps))"

definition format_claim_unknowable :: "OutEnv \<Rightarrow> int \<Rightarrow> rstr \<Rightarrow> rstr \<Rightarrow> rstr" where
  "format_claim_unknowable env task_id channel peer =
     ''task '' @ show_int task_id @ [CHR 0x27] @ ''s reply'' @ describe_about env (Some channel) (Some peer) @
     '' may have been settled without being sent: its claim failed, and so did the re-read that would have told''"

datatype InFlight = InFlightInbound | InFlightReply int | InFlightUnroutable int | InFlightAsk int

fun format_abandoned :: "InFlight \<Rightarrow> rstr \<Rightarrow> bool \<Rightarrow> rstr" where
  "format_abandoned what about panicked =
     (let cause = (if panicked then ''its handling panicked'' else ''the bus stopped while it was in flight'');
          s = [CHR 0x27] @ ''s '' in
      case what of
        InFlightInbound \<Rightarrow> ''a message'' @ about @ '' was abandoned mid-handling: '' @ cause @ ''; it may not have been enqueued or recorded''
      | InFlightReply task_id \<Rightarrow> ''task '' @ show_int task_id @ s @ ''reply'' @ about @ '' may not have been sent: '' @ cause
      | InFlightAsk task_id \<Rightarrow> ''task '' @ show_int task_id @ s @ ''ask message'' @ about @ '' may not have been sent: '' @ cause
      | InFlightUnroutable task_id \<Rightarrow>
          ''task '' @ show_int task_id @ s @ ''unroutable reply may have been settled without its channel.reply_unroutable row: '' @ cause)"

section \<open>Delivering one item\<close>

text \<open>\<open>call\<close> is the event of the send.\<close>

definition send_or_record :: "OutEnv \<Rightarrow> (OutgoingMessage \<Rightarrow> OutEvent) \<Rightarrow> rstr \<Rightarrow> OutgoingMessage \<Rightarrow> Outbound \<Rightarrow> Outbound" where
  "send_or_record env call channel out s =
     (let s' = log_out (call out) (next_call s) in
      if oe_sent env (ob_clock s) then s'
      else log_out (OutRow REPLY_UNDELIVERED
             (undelivered_payload env channel (om_peer out) SendFailed (oe_now env (ob_clock s')))) (next_call s'))"

datatype Delivery = DeliverySent | DeliveryAskSent | DeliveryNotClaimed | DeliveryClaimFailed

fun delivery_claim_failed :: "Delivery \<Rightarrow> bool option" where
  "delivery_claim_failed DeliveryClaimFailed = Some True"
| "delivery_claim_failed DeliverySent = Some False"
| "delivery_claim_failed DeliveryNotClaimed = Some False"
| "delivery_claim_failed DeliveryAskSent = None"

definition note_claim :: "ClaimStreak \<Rightarrow> Delivery \<Rightarrow> nat \<Rightarrow> ClaimStreak \<times> nat option" where
  "note_claim streak d now =
     (case delivery_claim_failed d of None \<Rightarrow> (streak, None) | Some failed \<Rightarrow> claim_record streak failed now)"

text \<open>What a failed claim turned out to be: settled or not, or unknown when the re-read fails too.\<close>

definition claim_outcome :: "OutEnv \<Rightarrow> Outbound \<Rightarrow> int \<Rightarrow> Outbound \<times> bool option" where
  "claim_outcome env s i =
     (case db_settled env s i of
        (s', Ok b) \<Rightarrow> (s', Some b)
      | (s', Err e) \<Rightarrow> (s', None))"

definition after_failed_claim :: "OutEnv \<Rightarrow> Outbound \<Rightarrow> int \<Rightarrow> OutgoingMessage \<Rightarrow> Outbound \<times> Delivery" where
  "after_failed_claim env s task_id out =
     (case claim_outcome env s task_id of
        (s', Some False) \<Rightarrow> (s', DeliveryClaimFailed)
      | (s', None) \<Rightarrow> (log_out (LostLine (format_claim_unknowable env task_id (om_channel out) (om_peer out))) s', DeliveryClaimFailed)
      | (s', Some True) \<Rightarrow>
          (log_out (OutRow REPLY_UNDELIVERED
             (undelivered_payload env (om_channel out) (om_peer out) ClaimUnknown (oe_now env (ob_clock s')))) (next_call s'),
           DeliveryClaimFailed))"

definition noted :: "(int \<times> rstr) option \<Rightarrow> OutgoingMessage \<Rightarrow> OutgoingMessage" where
  "noted late out =
     (case late of None \<Rightarrow> out | Some (late_by, note) \<Rightarrow> out\<lparr>om_body := note @ [LF, LF] @ om_body out\<rparr>)"

definition send_claimed ::
    "OutEnv \<Rightarrow> Outbound \<Rightarrow> rstr \<Rightarrow> int \<Rightarrow> Via \<Rightarrow> OutgoingMessage \<Rightarrow> ClaimedReply \<Rightarrow> Outbound \<times> Delivery" where
  "send_claimed env s channel task_id via out claimed =
     (let late = late_reply claimed (oe_now env (ob_clock s));
          row = [(''task_id'', JInt task_id), (''channel'', JStr (om_channel out)), (''peer'', JStr (om_peer out)),
                 (''via'', JStr (via_str via))] @
                (case late of None \<Rightarrow> [] | Some (late_by, note) \<Rightarrow> [(''delayed_secs'', JInt (late_by div NANOS))]) in
      (send_or_record env (SendReply task_id) channel (noted late out) (log_out (OutRow REPLIED (jobj row)) (next_call s)), DeliverySent))"

definition deliver_reply ::
    "OutEnv \<Rightarrow> Outbound \<Rightarrow> rstr \<Rightarrow> int \<Rightarrow> Via \<Rightarrow> OutgoingMessage \<Rightarrow> Outbound \<times> Delivery" where
  "deliver_reply env s channel task_id via out =
     (case db_claim env s task_id Routed of
        (s', Ok (Some claimed)) \<Rightarrow> send_claimed env s' channel task_id via out claimed
      | (s', Ok None) \<Rightarrow> (s', DeliveryNotClaimed)
      | (s', Err e) \<Rightarrow> after_failed_claim env s' task_id out)"

fun deliver :: "OutEnv \<Rightarrow> Outbound \<Rightarrow> rstr \<Rightarrow> Queued \<Rightarrow> Outbound \<times> Delivery" where
  "deliver env s channel (AskItem task_id out) = (send_or_record env SendOther channel out s, DeliveryAskSent)"
| "deliver env s channel (ReplyItem task_id via out) = deliver_reply env s channel task_id via out"

section \<open>The outbox of asks\<close>

datatype OutboxError = NoSuchChannel | OutboxFull | OutboxClosed

fun outbox_error_str :: "OutboxError \<Rightarrow> rstr" where
  "outbox_error_str NoSuchChannel = ''no_such_channel''"
| "outbox_error_str OutboxFull = ''queue_full''"
| "outbox_error_str OutboxClosed = ''queue_closed''"

definition QUEUE_CAP :: nat where "QUEUE_CAP = 32"

text \<open>\<open>registered\<close> are the channels whose pump put its queue into the outbox.\<close>

definition try_deliver :: "rstr list \<Rightarrow> Outbound \<Rightarrow> int \<Rightarrow> OutgoingMessage \<Rightarrow> OutboxError + Outbound" where
  "try_deliver registered s task_id msg =
     (if om_channel msg \<notin> set registered then Err NoSuchChannel
      else case ob_queue s (om_channel msg) of
             None \<Rightarrow> Err OutboxClosed
           | Some items \<Rightarrow>
               if length items < QUEUE_CAP
               then Ok (s\<lparr>ob_queue := (ob_queue s)(om_channel msg \<mapsto> items @ [AskItem task_id msg])\<rparr>)
               else Err OutboxFull)"

section \<open>Routing\<close>

text \<open>\<open>RouteParked\<close> is no value of the source: it is the point where \<^verbatim>\<open>tx.send(item).await\<close> has not returned because the
  queue of the item's channel is full.\<close>

datatype RouteResult = RouteQueued Queued | RouteSkipped | RouteUnserved | RouteLoadFailed | RouteClaimFailed | RouteParked Queued

definition settle_unroutable :: "OutEnv \<Rightarrow> Outbound \<Rightarrow> int \<Rightarrow> Outbound \<times> RouteResult" where
  "settle_unroutable env s i =
     (case db_claim env s i Unroutable of
        (s', Ok (Some c)) \<Rightarrow>
          (log_out (OutRow REPLY_UNROUTABLE
             (jobj [(''task_id'', JInt i), (''observed_at'', oe_time_json env (oe_now env (ob_clock s')))])) (next_call s'),
           RouteSkipped)
      | (s', Ok None) \<Rightarrow> (s', RouteSkipped)
      | (s', Err e) \<Rightarrow>
          (case claim_outcome env s' i of
             (s'', Some True) \<Rightarrow>
               (log_out (OutRow REPLY_UNROUTABLE
                  (jobj [(''task_id'', JInt i), (''observed_at'', oe_time_json env (oe_now env (ob_clock s''))),
                         (''claim_uncertain'', JBool True)])) (next_call s''), RouteClaimFailed)
           | (s'', _) \<Rightarrow> (s'', RouteClaimFailed)))"

text \<open>\<open>served\<close> are the channels of this bus. A send on a queue whose pump has ended fails; one on a full queue waits.\<close>

definition route_one :: "OutEnv \<Rightarrow> rstr list \<Rightarrow> Outbound \<Rightarrow> int \<Rightarrow> Via \<Rightarrow> Outbound \<times> RouteResult" where
  "route_one env served s i via =
     (case db_load env s i of
        (s', Err e) \<Rightarrow> (s', RouteLoadFailed)
      | (s', Ok None) \<Rightarrow> (s', RouteSkipped)
      | (s', Ok (Some (payload, result))) \<Rightarrow>
          (case reply_for_completed_task (oe_print env) payload result of
             None \<Rightarrow>
               if payload_str payload ''kind'' = Some ''channel'' then settle_unroutable env s' i else (s', RouteSkipped)
           | Some out \<Rightarrow>
               if om_channel out \<notin> set served then (s', RouteUnserved)
               else case ob_queue s' (om_channel out) of
                      None \<Rightarrow> (s', RouteSkipped)
                    | Some items \<Rightarrow>
                        if length items < QUEUE_CAP
                        then (s'\<lparr>ob_queue := (ob_queue s')(om_channel out \<mapsto> items @ [ReplyItem i via out])\<rparr>,
                              RouteQueued (ReplyItem i via out))
                        else (s', RouteParked (ReplyItem i via out))))"

text \<open>\<open>Err\<close> of the item it waits with, while the queue is full.\<close>

definition handle_completed :: "OutEnv \<Rightarrow> rstr list \<Rightarrow> Outbound \<Rightarrow> int \<Rightarrow> Via \<Rightarrow> Outbound \<times> (Queued + Queued option)" where
  "handle_completed env served s i via =
     (case route_one env served s i via of
        (s', RouteQueued item) \<Rightarrow> (s', Ok (Some item))
      | (s', RouteParked item) \<Rightarrow> (s', Err item)
      | (s', _) \<Rightarrow> (s', Ok None))"

text \<open>The end of a wait: the queue took the item, or its pump has ended and the reply is left for a later sweep;
  \<^const>\<open>None\<close> while the queue is still full.\<close>

definition unpark :: "Outbound \<Rightarrow> Queued \<Rightarrow> (Outbound \<times> RouteResult) option" where
  "unpark s item =
     (let c = om_channel (queued_message item) in
      case ob_queue s c of
        None \<Rightarrow> Some (s, RouteSkipped)
      | Some items \<Rightarrow>
          if length items < QUEUE_CAP
          then Some (s\<lparr>ob_queue := (ob_queue s)(c \<mapsto> items @ [item])\<rparr>, RouteQueued item)
          else None)"

fun count_route :: "RouteResult \<Rightarrow> SweepReport \<Rightarrow> SweepReport" where
  "count_route (RouteQueued item) r = r\<lparr>sr_queued := sr_queued r + 1\<rparr>"
| "count_route RouteUnserved r = r\<lparr>sr_unserved := sr_unserved r + 1\<rparr>"
| "count_route RouteLoadFailed r = r\<lparr>sr_load_failed := sr_load_failed r + 1\<rparr>"
| "count_route RouteClaimFailed r = r\<lparr>sr_claim_failed := sr_claim_failed r + 1\<rparr>"
| "count_route RouteSkipped r = r"
| "count_route (RouteParked item) r = r"

text \<open>A sweep ends with its report, or waits at a reply whose channel has a full queue.\<close>

datatype SweepResult = SweepDone Outbound SweepReport | SweepParked Outbound SweepReport Queued

fun sweep_state :: "SweepResult \<Rightarrow> Outbound" where
  "sweep_state (SweepDone s r) = s"
| "sweep_state (SweepParked s r item) = s"

fun route_page :: "OutEnv \<Rightarrow> rstr list \<Rightarrow> int list \<Rightarrow> Outbound \<Rightarrow> SweepReport \<Rightarrow> SweepResult" where
  "route_page env served [] s r = SweepDone s r"
| "route_page env served (i # is) s r =
     (case route_one env served s i CatchUp of
        (s', RouteParked item) \<Rightarrow> SweepParked s' r item
      | (s', res) \<Rightarrow> route_page env served is s' (count_route res r))"

text \<open>The loop of the sweep, up to the first wait; a sweep that neither ended nor waited would be \<^const>\<open>None\<close>.\<close>

partial_function (option) sweep_from :: "OutEnv \<Rightarrow> rstr list \<Rightarrow> int \<Rightarrow> Outbound \<Rightarrow> SweepReport \<Rightarrow> SweepResult option" where
  "sweep_from env served after s r =
     (case db_unsettled env s after SWEEP_PAGE of
        (s', Err e) \<Rightarrow> Some (SweepDone s' (r\<lparr>sr_read_failed := True\<rparr>))
      | (s', Ok page) \<Rightarrow>
          if page = [] then Some (SweepDone s' r)
          else case route_page env served page s' r of
                 SweepParked s'' r' item \<Rightarrow> Some (SweepParked s'' r' item)
               | SweepDone s'' r' \<Rightarrow>
                   if int (length page) < SWEEP_PAGE then Some (SweepDone s'' r')
                   else if Max (set page) \<le> after then Some (SweepDone s'' (r'\<lparr>sr_read_failed := True\<rparr>))
                   else sweep_from env served (Max (set page)) s'' r')"

definition sweep :: "OutEnv \<Rightarrow> rstr list \<Rightarrow> Outbound \<Rightarrow> SweepResult option" where
  "sweep env served s = sweep_from env served 0 s SweepReport_default"

end
