(* ===== verification/Delivery_Spec.thy ===== *)
theory Delivery_Spec
  imports Channel_Outbound
begin

text \<open>
  The reply of a task is sent at most once. The outbound side is a system of interleaved steps: the router (woken by a
  notification or by the sweep), which waits with its item while a queue is full, one pump per channel that claims, asks again after a failed claim and sends, other
  processes on the same table, and restarts that forget every queue and every delivery under way. The pump's steps are
  the parts of \<^const>\<open>deliver_reply\<close> between two points where another process can act.
\<close>

section \<open>Steps\<close>

datatype Pump = PumpIdle | PumpRereads int OutgoingMessage | PumpSends int Via OutgoingMessage ClaimedReply

text \<open>\<open>bus_waits\<close> are the items whose send has not returned because their queue was full.\<close>

record Bus =
  bus_out :: Outbound
  bus_pumps :: "rstr \<Rightarrow> Pump"
  bus_waits :: "Queued list"

fun parked_items :: "RouteResult \<Rightarrow> Queued list" where
  "parked_items (RouteParked item) = [item]"
| "parked_items res = []"

text \<open>The first part of a delivery: what the pump does next, once the claim is answered.\<close>

fun begin_delivery :: "OutEnv \<Rightarrow> Outbound \<Rightarrow> rstr \<Rightarrow> Queued \<Rightarrow> Outbound \<times> Pump" where
  "begin_delivery env s channel (AskItem task_id out) = (send_or_record env SendOther channel out s, PumpIdle)"
| "begin_delivery env s channel (ReplyItem task_id via out) =
     (case db_claim env s task_id Routed of
        (s', Ok (Some claimed)) \<Rightarrow> (s', PumpSends task_id via out claimed)
      | (s', Ok None) \<Rightarrow> (s', PumpIdle)
      | (s', Err e) \<Rightarrow> (s', PumpRereads task_id out))"

fun end_delivery :: "OutEnv \<Rightarrow> Outbound \<Rightarrow> rstr \<Rightarrow> Pump \<Rightarrow> Outbound" where
  "end_delivery env s channel PumpIdle = s"
| "end_delivery env s channel (PumpRereads task_id out) = fst (after_failed_claim env s task_id out)"
| "end_delivery env s channel (PumpSends task_id via out claimed) = fst (send_claimed env s channel task_id via out claimed)"

lemma deliver_in_two_steps:
  "fst (deliver env s channel item) = (case begin_delivery env s channel item of (s', pump) \<Rightarrow> end_delivery env s' channel pump)"
  by (cases item) (auto simp: deliver_reply_def split: prod.splits sum.splits option.splits)

text \<open>Another process may add tasks, move them on and settle them; it does not take a settled mark back and does not
  change what a task was asked.\<close>

definition table_moves :: "TaskRow list \<Rightarrow> TaskRow list \<Rightarrow> bool" where
  "table_moves t t' \<longleftrightarrow> distinct (map tr_id t') \<and>
     (\<forall>r \<in> set t. \<exists>r' \<in> set t'. tr_id r' = tr_id r \<and> tr_payload r' = tr_payload r \<and> (tr_settled r \<noteq> None \<longrightarrow> tr_settled r' \<noteq> None))"

text \<open>A router that finds a queue full waits there with its item, while every other part goes on; it is woken when there is
  room or when the pump has ended.\<close>

inductive bus_step :: "rstr list \<Rightarrow> Bus \<Rightarrow> Bus \<Rightarrow> bool" for served where
  route: "route_one env served (bus_out b) i via = (s', res) \<Longrightarrow>
    bus_step served b (b\<lparr>bus_out := s', bus_waits := bus_waits b @ parked_items res\<rparr>)"
| wake: "bus_waits b = ws @ item # ws' \<Longrightarrow> unpark (bus_out b) item = Some (s', res) \<Longrightarrow>
    bus_step served b (b\<lparr>bus_out := s', bus_waits := ws @ ws'\<rparr>)"
| ask: "try_deliver served (bus_out b) i out = Ok s' \<Longrightarrow> bus_step served b (b\<lparr>bus_out := s'\<rparr>)"
| take: "bus_pumps b c = PumpIdle \<Longrightarrow> ob_queue (bus_out b) c = Some (item # items) \<Longrightarrow>
    begin_delivery env ((bus_out b)\<lparr>ob_queue := (ob_queue (bus_out b))(c \<mapsto> items)\<rparr>) c item = (s', pump) \<Longrightarrow>
    bus_step served b (b\<lparr>bus_out := s', bus_pumps := (bus_pumps b)(c := pump)\<rparr>)"
| finish: "end_delivery env (bus_out b) c (bus_pumps b c) = s' \<Longrightarrow>
    bus_step served b (b\<lparr>bus_out := s', bus_pumps := (bus_pumps b)(c := PumpIdle)\<rparr>)"
| others: "table_moves (ob_tasks (bus_out b)) t' \<Longrightarrow> bus_step served b (b\<lparr>bus_out := (bus_out b)\<lparr>ob_tasks := t'\<rparr>\<rparr>)"
| restart: "bus_step served b \<lparr>bus_out = (bus_out b)\<lparr>ob_queue := (\<lambda>c. if c \<in> set served then Some [] else None)\<rparr>,
    bus_pumps = (\<lambda>c. PumpIdle), bus_waits = []\<rparr>"

definition bus_start :: "rstr list \<Rightarrow> TaskRow list \<Rightarrow> Bus" where
  "bus_start served tasks =
     \<lparr>bus_out = \<lparr>ob_tasks = tasks, ob_queue = (\<lambda>c. if c \<in> set served then Some [] else None), ob_clock = 0, ob_events = []\<rparr>,
      bus_pumps = (\<lambda>c. PumpIdle), bus_waits = []\<rparr>"

inductive bus_reach :: "rstr list \<Rightarrow> TaskRow list \<Rightarrow> Bus \<Rightarrow> bool" for served tasks where
  start: "bus_reach served tasks (bus_start served tasks)"
| step: "bus_reach served tasks b \<Longrightarrow> bus_step served b b' \<Longrightarrow> bus_reach served tasks b'"

inductive_cases bus_stepE: "bus_step served b b'"

section \<open>The invariant\<close>

text \<open>The message of a delivery goes where the task came from.\<close>

definition goes_home :: "TaskRow list \<Rightarrow> int \<Rightarrow> OutgoingMessage \<Rightarrow> bool" where
  "goes_home tasks i out \<longleftrightarrow>
     (\<exists>r \<in> set tasks. tr_id r = i \<and> destination_from_task_payload (tr_payload r) =
        Some \<lparr>ad_channel = om_channel out, ad_peer = om_peer out, ad_conversation = om_conversation out\<rparr>)"

definition is_settled :: "TaskRow list \<Rightarrow> int \<Rightarrow> bool" where
  "is_settled tasks i \<longleftrightarrow> (\<exists>r \<in> set tasks. tr_id r = i \<and> tr_settled r \<noteq> None)"

fun sent_ids :: "OutEvent list \<Rightarrow> int list" where
  "sent_ids [] = []"
| "sent_ids (SendReply i out # es) = i # sent_ids es"
| "sent_ids (e # es) = sent_ids es"

definition item_ok :: "TaskRow list \<Rightarrow> rstr \<Rightarrow> Queued \<Rightarrow> bool" where
  "item_ok tasks c item \<longleftrightarrow> (case item of ReplyItem i via out \<Rightarrow> goes_home tasks i out \<and> om_channel out = c | AskItem i out \<Rightarrow> True)"

fun bus_pump_ok :: "TaskRow list \<Rightarrow> int list \<Rightarrow> rstr \<Rightarrow> Pump \<Rightarrow> bool" where
  "bus_pump_ok tasks sent c (PumpSends i via out claimed) \<longleftrightarrow> is_settled tasks i \<and> i \<notin> set sent \<and> goes_home tasks i out \<and> om_channel out = c"
| "bus_pump_ok tasks sent c p \<longleftrightarrow> True"

fun sends_id :: "Pump \<Rightarrow> int option" where
  "sends_id (PumpSends i via out claimed) = Some i"
| "sends_id p = None"

abbreviation waits_ok :: "TaskRow list \<Rightarrow> Queued list \<Rightarrow> bool" where
  "waits_ok tasks \<equiv> list_all (\<lambda>item. item_ok tasks (om_channel (queued_message item)) item)"

definition bus_inv :: "Bus \<Rightarrow> bool" where
  "bus_inv b \<longleftrightarrow>
     distinct (map tr_id (ob_tasks (bus_out b))) \<and>
     distinct (sent_ids (ob_events (bus_out b))) \<and>
     (\<forall>i \<in> set (sent_ids (ob_events (bus_out b))). is_settled (ob_tasks (bus_out b)) i) \<and>
     (\<forall>i out. SendReply i out \<in> set (ob_events (bus_out b)) \<longrightarrow> goes_home (ob_tasks (bus_out b)) i out) \<and>
     (\<forall>c items. ob_queue (bus_out b) c = Some items \<longrightarrow>
        list_all (item_ok (ob_tasks (bus_out b)) c) items \<and> length items \<le> QUEUE_CAP) \<and>
     waits_ok (ob_tasks (bus_out b)) (bus_waits b) \<and>
     (\<forall>c. bus_pump_ok (ob_tasks (bus_out b)) (sent_ids (ob_events (bus_out b))) c (bus_pumps b c)) \<and>
     (\<forall>c d i. sends_id (bus_pumps b c) = Some i \<and> sends_id (bus_pumps b d) = Some i \<longrightarrow> c = d)"

section \<open>Preservation\<close>

definition table_grows :: "TaskRow list \<Rightarrow> TaskRow list \<Rightarrow> bool" where
  "table_grows t t' \<longleftrightarrow>
     (\<forall>r \<in> set t. \<exists>r' \<in> set t'. tr_id r' = tr_id r \<and> tr_payload r' = tr_payload r \<and> (tr_settled r \<noteq> None \<longrightarrow> tr_settled r' \<noteq> None))"

lemma table_grows_refl [simp]: "table_grows t t"
  by (auto simp: table_grows_def)

lemma goes_home_grows: "table_grows t t' \<Longrightarrow> goes_home t i out \<Longrightarrow> goes_home t' i out"
  unfolding table_grows_def goes_home_def by metis

lemma is_settled_grows: "table_grows t t' \<Longrightarrow> is_settled t i \<Longrightarrow> is_settled t' i"
  unfolding table_grows_def is_settled_def by metis

lemma bus_pump_ok_grows: "table_grows t t' \<Longrightarrow> bus_pump_ok t sent c p \<Longrightarrow> bus_pump_ok t' sent c p"
  by (cases p) (auto intro: goes_home_grows is_settled_grows)

lemma item_ok_grows: "table_grows t t' \<Longrightarrow> item_ok t c item \<Longrightarrow> item_ok t' c item"
  by (auto simp: item_ok_def intro: goes_home_grows split: Queued.splits)

definition claim_one :: "int \<Rightarrow> ReplyDisposition \<Rightarrow> TaskRow \<Rightarrow> TaskRow" where
  "claim_one i d r = (if tr_id r = i \<and> claimable r then r\<lparr>tr_settled := Some d\<rparr> else r)"

lemma claim_one_simps [simp]:
  "tr_id (claim_one i d r) = tr_id r" "tr_payload (claim_one i d r) = tr_payload r"
  "tr_settled r \<noteq> None \<Longrightarrow> tr_settled (claim_one i d r) = tr_settled r"
  "tr_id r = i \<Longrightarrow> claimable r \<Longrightarrow> tr_settled (claim_one i d r) = Some d"
  by (auto simp: claim_one_def claimable_def)

lemma claim_rows_one: "claim_rows t i d = map (claim_one i d) t"
  by (simp add: claim_rows_def claim_one_def)

lemma claim_grows: "table_grows t (claim_rows t i d)" "map tr_id (claim_rows t i d) = map tr_id t"
  by (auto simp: table_grows_def claim_rows_one)

lemma claimed_find: "claimed_row t i = Some c \<Longrightarrow> \<exists>r \<in> set t. tr_id r = i \<and> claimable r"
  by (auto simp: claimed_row_def find_Some_iff intro!: nth_mem)

lemma claimed_settles: "claimed_row t i = Some c \<Longrightarrow> is_settled (claim_rows t i d) i"
  by (auto simp: is_settled_def claim_rows_one dest!: claimed_find)

lemma claimed_was_open: "distinct (map tr_id t) \<Longrightarrow> claimed_row t i = Some c \<Longrightarrow> \<not> is_settled t i"
  using claimed_find [of t i c] by (auto simp: is_settled_def claimable_def distinct_map inj_on_def)

lemma sent_ids_append [simp]: "sent_ids (es @ fs) = sent_ids es @ sent_ids fs"
  by (induction es rule: sent_ids.induct) auto

lemma sent_ids_iff: "i \<in> set (sent_ids es) \<longleftrightarrow> (\<exists>out. SendReply i out \<in> set es)"
  by (induction es rule: sent_ids.induct) auto

text \<open>A step that sends no reply and leaves the queues alone.\<close>

definition sendless :: "Outbound \<Rightarrow> Outbound \<Rightarrow> bool" where
  "sendless s s' \<longleftrightarrow> ob_queue s' = ob_queue s \<and> table_grows (ob_tasks s) (ob_tasks s') \<and>
     map tr_id (ob_tasks s') = map tr_id (ob_tasks s) \<and> (\<exists>es. ob_events s' = ob_events s @ es \<and> sent_ids es = [])"

lemma sendless_refl [simp]: "sendless s s"
  by (simp add: sendless_def)

lemma table_grows_trans: "table_grows t u \<Longrightarrow> table_grows u v \<Longrightarrow> table_grows t v"
  unfolding table_grows_def by metis

lemma sendless_trans: "sendless s t \<Longrightarrow> sendless t u \<Longrightarrow> sendless s u"
  unfolding sendless_def by (auto intro: table_grows_trans)

lemma sendless_next [simp]: "sendless s (next_call s)"
  by (simp add: sendless_def next_call_def)

lemma sendless_emit: "sent_ids [e] = [] \<Longrightarrow> sendless s (log_out e s)"
  by (simp add: sendless_def log_out_def)

lemma sendless_row:
  assumes "sendless s s'" shows "sendless s (log_out (OutRow a p) (next_call s'))"
  by (rule sendless_trans [OF sendless_trans [OF assms sendless_next]], rule sendless_emit) simp

lemma sendless_claim: "sendless s (fst (db_claim env s i d))"
  by (auto simp: db_claim_def sendless_def next_call_def claim_grows Let_def split: Fault.splits)

lemma sendless_outcome: "sendless s (fst (claim_outcome env s i))"
  by (auto simp: claim_outcome_def db_settled_def split: Fault.splits sum.splits)

lemma sendless_failed_claim: "sendless s (fst (after_failed_claim env s i out))"
proof -
  obtain s' o' where c: "claim_outcome env s i = (s', o')" by (cases "claim_outcome env s i")
  then have q: "sendless s s'" using sendless_outcome [of s env i] by simp
  have "sendless s (log_out (LostLine l) s')" for l using sendless_trans [OF q sendless_emit] by simp
  then show ?thesis using c q sendless_row [OF q] by (auto simp: after_failed_claim_def split: option.splits bool.splits)
qed

lemma sendless_unroutable: "sendless s (fst (settle_unroutable env s i))"
proof -
  obtain s' a where c: "db_claim env s i Unroutable = (s', a)" by (cases "db_claim env s i Unroutable")
  then have q: "sendless s s'" using sendless_claim [of s env i Unroutable] by simp
  obtain s'' o' where d: "claim_outcome env s' i = (s'', o')" by (cases "claim_outcome env s' i")
  then have q': "sendless s s''" using sendless_trans [OF q] sendless_outcome [of s' env i] by simp
  show ?thesis using c d q q' sendless_row [OF q] sendless_row [OF q']
    by (auto simp: settle_unroutable_def split: sum.splits option.splits bool.splits)
qed

lemma unroutable_waits_not: "parked_items (snd (settle_unroutable env s i)) = []"
  by (auto simp: settle_unroutable_def split: prod.splits sum.splits option.splits bool.splits)

lemma sendless_other_send: "sendless s (send_or_record env SendOther c out s)"
proof -
  have "sendless s (log_out (SendOther out) (next_call s))" 
    by (rule sendless_trans [OF sendless_next], rule sendless_emit) simp
  then show ?thesis using sendless_row by (auto simp: send_or_record_def Let_def)
qed

lemmas bus_invD = bus_inv_def [THEN iffD1]

lemma bus_pump_ok_no_send: "sends_id p = None \<Longrightarrow> bus_pump_ok t sent c p"
  by (cases p) auto

lemma inv_quiet:
  assumes inv: "bus_inv b" and q: "sendless (bus_out b) s'" and P: "\<And>c. P c = bus_pumps b c \<or> sends_id (P c) = None"
  shows "bus_inv (b\<lparr>bus_out := s', bus_pumps := P\<rparr>)"
proof -
  note i = bus_invD [OF inv]
  obtain es where es: "ob_events s' = ob_events (bus_out b) @ es" "sent_ids es = []" and g: "table_grows (ob_tasks (bus_out b)) (ob_tasks s')"
    and m: "map tr_id (ob_tasks s') = map tr_id (ob_tasks (bus_out b))" and qu: "ob_queue s' = ob_queue (bus_out b)"
    using q unfolding sendless_def by blast
  have n: "SendReply j out \<notin> set es" for j out using es(2) sent_ids_iff [of j es] by auto
  have pump: "bus_pump_ok (ob_tasks s') (sent_ids (ob_events s')) c (P c)" for c
    using P [of c] i bus_pump_ok_grows [OF g] es bus_pump_ok_no_send by (metis append_Nil2 sent_ids_append)
  have one: "c = d" if "sends_id (P c) = Some k" "sends_id (P d) = Some k" for c d k
    using P [of c] P [of d] i that by auto
  have items: "list_all (item_ok (ob_tasks s') c) items \<and> length items \<le> QUEUE_CAP" if "ob_queue s' c = Some items" for c items
    using i item_ok_grows [OF g] that qu by (auto simp: list_all_iff)
  have waits: "waits_ok (ob_tasks s') (bus_waits b)"
    using i item_ok_grows [OF g] by (auto simp: list_all_iff)
  show ?thesis
    unfolding bus_inv_def using i es m n pump one items waits is_settled_grows [OF g] goes_home_grows [OF g] by auto
qed

lemma inv_queue:
  assumes inv: "bus_inv b" and "\<And>c items. Q c = Some items \<Longrightarrow> list_all (item_ok (ob_tasks (bus_out b)) c) items \<and> length items \<le> QUEUE_CAP"
  shows "bus_inv (b\<lparr>bus_out := (bus_out b)\<lparr>ob_queue := Q\<rparr>\<rparr>)"
  using assms unfolding bus_inv_def by simp

lemma inv_enqueue:
  assumes "bus_inv b" "ob_queue (bus_out b) c = Some items" "length items < QUEUE_CAP" "item_ok (ob_tasks (bus_out b)) c item"
  shows "bus_inv (b\<lparr>bus_out := (bus_out b)\<lparr>ob_queue := (ob_queue (bus_out b))(c \<mapsto> items @ [item])\<rparr>\<rparr>)"
  by (rule inv_queue [OF assms(1)]) (use assms bus_invD [OF assms(1)] in \<open>auto split: if_splits\<close>)

lemma inv_waits: "bus_inv b \<Longrightarrow> waits_ok (ob_tasks (bus_out b)) ws \<Longrightarrow> bus_inv (b\<lparr>bus_waits := ws\<rparr>)"
  unfolding bus_inv_def by simp

lemma inv_table:
  assumes inv: "bus_inv b" and "table_moves (ob_tasks (bus_out b)) t'"
  shows "bus_inv (b\<lparr>bus_out := (bus_out b)\<lparr>ob_tasks := t'\<rparr>\<rparr>)"
proof -
  have g: "table_grows (ob_tasks (bus_out b)) t'" "distinct (map tr_id t')"
    using assms(2) by (auto simp: table_moves_def table_grows_def)
  note i = bus_invD [OF inv]
  have items: "list_all (item_ok t' c) items \<and> length items \<le> QUEUE_CAP" if "ob_queue (bus_out b) c = Some items" for c items
    using i item_ok_grows [OF g(1)] that by (auto simp: list_all_iff)
  have waits: "waits_ok t' (bus_waits b)"
    using i item_ok_grows [OF g(1)] by (auto simp: list_all_iff)
  show ?thesis
    unfolding bus_inv_def
    using i g(2) items waits bus_pump_ok_grows [OF g(1)] is_settled_grows [OF g(1)] goes_home_grows [OF g(1)] by simp
qed

lemma inv_claimed:
  assumes inv: "bus_inv b" and item: "item_ok (ob_tasks (bus_out b)) c (ReplyItem k via out)" and idle: "bus_pumps b c = PumpIdle"
    and cl: "db_claim env (bus_out b) k Routed = (s', Ok (Some claimed))"
  shows "bus_inv (b\<lparr>bus_out := s', bus_pumps := (bus_pumps b)(c := PumpSends k via out claimed)\<rparr>)"
proof -
  note i = bus_invD [OF inv]
  let ?t = "ob_tasks (bus_out b)"
  have s': "s' = (next_call (bus_out b))\<lparr>ob_tasks := claim_rows ?t k Routed\<rparr>" and row: "claimed_row ?t k = Some claimed"
    using cl by (auto simp: db_claim_def Let_def split: Fault.splits)
  have "sendless (bus_out b) s'" using sendless_claim [of "bus_out b" env k Routed] cl by simp
  then have inv': "bus_inv (b\<lparr>bus_out := s', bus_pumps := bus_pumps b\<rparr>)" using inv_quiet [OF inv] by blast
  have t: "ob_tasks s' = claim_rows ?t k Routed" "ob_events s' = ob_events (bus_out b)" using s' by (simp_all add: next_call_def)
  have open_k: "\<not> is_settled ?t k" using claimed_was_open row i by blast
  then have fresh: "k \<notin> set (sent_ids (ob_events (bus_out b)))" using i by blast
  have alone: "sends_id (bus_pumps b d) \<noteq> Some k" for d
  proof
    assume "sends_id (bus_pumps b d) = Some k"
    then have "is_settled ?t k" using i by (cases "bus_pumps b d") (auto dest: spec [of _ d])
    with open_k show False ..
  qed
  have ok: "bus_pump_ok (ob_tasks s') (sent_ids (ob_events s')) c (PumpSends k via out claimed)"
    using item fresh claimed_settles [OF row] goes_home_grows [OF claim_grows(1)] t by (simp add: item_ok_def)
  show ?thesis
    using bus_invD [OF inv'] ok alone unfolding bus_inv_def by (auto split: if_splits)
qed

lemma noted_dest [simp]:
  "om_channel (noted l out) = om_channel out" "om_peer (noted l out) = om_peer out" "om_conversation (noted l out) = om_conversation out"
  by (auto simp: noted_def split: option.splits)

lemma send_claimed_effect:
  "\<exists>s' l es. fst (send_claimed env s c k via out claimed) = s' \<and> ob_tasks s' = ob_tasks s \<and> ob_queue s' = ob_queue s \<and>
     ob_events s' = ob_events s @ es \<and> sent_ids es = [k] \<and> (\<forall>j m. SendReply j m \<in> set es \<longrightarrow> j = k \<and> m = noted l out)"
  by (auto simp: send_claimed_def send_or_record_def log_out_def next_call_def Let_def)

lemma inv_sent:
  assumes inv: "bus_inv b" and p: "bus_pumps b c = PumpSends k via out claimed"
    and s': "fst (send_claimed env (bus_out b) c k via out claimed) = s'"
  shows "bus_inv (b\<lparr>bus_out := s', bus_pumps := (bus_pumps b)(c := PumpIdle)\<rparr>)"
proof -
  note i = bus_invD [OF inv]
  obtain l es where s: "ob_tasks s' = ob_tasks (bus_out b)" "ob_queue s' = ob_queue (bus_out b)" "ob_events s' = ob_events (bus_out b) @ es"
      "sent_ids es = [k]" "\<forall>j m. SendReply j m \<in> set es \<longrightarrow> j = k \<and> m = noted l out"
    using send_claimed_effect [of env "bus_out b" c k via out claimed] s' by blast
  have k: "is_settled (ob_tasks (bus_out b)) k" "k \<notin> set (sent_ids (ob_events (bus_out b)))" "goes_home (ob_tasks (bus_out b)) k out"
    using i p by (metis bus_pump_ok.simps(1))+
  have home: "goes_home (ob_tasks (bus_out b)) k (noted l out)" using k(3) by (simp add: goes_home_def)
  have others: "bus_pump_ok (ob_tasks s') (sent_ids (ob_events s')) d (bus_pumps b d)" if "d \<noteq> c" for d
  proof (cases "bus_pumps b d")
    case (PumpSends j v o' cl)
    then have "j \<noteq> k" using i p that by (metis sends_id.simps(1))
    moreover have "bus_pump_ok (ob_tasks (bus_out b)) (sent_ids (ob_events (bus_out b))) d (bus_pumps b d)" using i by blast
    ultimately show ?thesis using PumpSends s by simp
  qed auto
  show ?thesis
    unfolding bus_inv_def using i s k home others by (auto simp: fun_upd_apply)
qed

lemma find_task_home:
  assumes "find_task t i = Some r" and "reply_for_completed_task print (tr_payload r) res = Some out"
  shows "goes_home t i out"
proof -
  have "r \<in> set t" "tr_id r = i" using assms(1) by (auto simp: find_task_def find_Some_iff intro: nth_mem)
  then show ?thesis
    using assms(2) by (auto simp: goes_home_def reply_for_completed_task_def split: option.splits intro!: bexI [of _ r])
qed

lemma route_one_effect:
  assumes "route_one env served s i via = (s', res)"
  obtains "sendless s s'" "parked_items res = []"
  | out where "sendless s s'" "goes_home (ob_tasks s) i out" "parked_items res = [ReplyItem i via out]"
  | out items where "goes_home (ob_tasks s) i out" "ob_queue s (om_channel out) = Some items" "length items < QUEUE_CAP"
      "s' = (next_call s)\<lparr>ob_queue := (ob_queue s)(om_channel out \<mapsto> items @ [ReplyItem i via out])\<rparr>" "parked_items res = []"
proof (cases "snd (db_load env s i)")
  case (Inl e)
  then show ?thesis using assms that(1) by (auto simp: route_one_def db_load_def)
next
  case (Inr o')
  show ?thesis
  proof (cases o')
    case None
    then show ?thesis using assms Inr that(1) by (auto simp: route_one_def db_load_def)
  next
    case (Some pr)
    obtain payload result where pr: "pr = (payload, result)" by (cases pr)
    have l: "db_load env s i = (next_call s, Ok (Some (payload, result)))" using Inr Some pr by (simp add: db_load_def)
    then obtain r where r: "find_task (ob_tasks s) i = Some r" "tr_payload r = payload" by (auto simp: db_load_def split: Fault.splits)
    show ?thesis
    proof (cases "reply_for_completed_task (oe_print env) payload result")
      case None
      have "sendless s s'" using assms None l sendless_trans [OF sendless_next sendless_unroutable, of s env i]
        by (auto simp: route_one_def split: if_splits)
      moreover have "parked_items res = []" using assms None l unroutable_waits_not [of env "next_call s" i]
        by (auto simp: route_one_def split: if_splits)
      ultimately show ?thesis by (rule that(1))
    next
      case (Some out)
      have "goes_home (ob_tasks s) i out" using find_task_home [OF r(1)] r(2) Some by simp
      then show ?thesis using assms l Some that
        by (auto simp: route_one_def next_call_def sendless_def split: option.splits if_splits)
    qed
  qed
qed

lemma inv_route:
  assumes inv: "bus_inv b" and r: "route_one env served (bus_out b) i via = (s', res)"
  shows "bus_inv (b\<lparr>bus_out := s', bus_waits := bus_waits b @ parked_items res\<rparr>)"
proof -
  have quiet: "bus_inv (b\<lparr>bus_out := s\<rparr>)" if "sendless (bus_out b) s" for s
    using inv_quiet [OF inv that, of "bus_pumps b"] by simp
  have waits: "waits_ok (ob_tasks (bus_out b)) (bus_waits b)" using bus_invD [OF inv] by blast
  show ?thesis
  proof (cases rule: route_one_effect [OF r])
    case 1
    then show ?thesis using quiet by simp
  next
    case (2 out)
    have "waits_ok (ob_tasks s') (bus_waits b @ [ReplyItem i via out])"
      using waits 2(1,2) item_ok_grows goes_home_grows unfolding sendless_def by (auto simp: list_all_iff item_ok_def)
    then show ?thesis using inv_waits [OF quiet [OF 2(1)]] 2(3) by simp
  next
    case (3 out items)
    then show ?thesis
      using inv_enqueue [OF quiet [OF sendless_next], of "om_channel out" items "ReplyItem i via out"]
      by (simp add: next_call_def item_ok_def)
  qed
qed

lemma inv_wake:
  assumes inv: "bus_inv b" and w: "bus_waits b = ws @ item # ws'" and u: "unpark (bus_out b) item = Some (s', res)"
  shows "bus_inv (b\<lparr>bus_out := s', bus_waits := ws @ ws'\<rparr>)"
proof -
  have ok: "waits_ok (ob_tasks (bus_out b)) (bus_waits b)" using bus_invD [OF inv] by blast
  then have rest: "waits_ok (ob_tasks (bus_out b)) (ws @ ws')" and item: "item_ok (ob_tasks (bus_out b)) (om_channel (queued_message item)) item"
    using w by simp_all
  show ?thesis
  proof (cases "ob_queue (bus_out b) (om_channel (queued_message item))")
    case None
    then have "s' = bus_out b" using u by (simp add: unpark_def)
    then show ?thesis using inv_waits [OF inv rest] by simp
  next
    case (Some items)
    then have "s' = (bus_out b)\<lparr>ob_queue := (ob_queue (bus_out b))(om_channel (queued_message item) \<mapsto> items @ [item])\<rparr>"
        "length items < QUEUE_CAP"
      using u by (auto simp: unpark_def split: if_splits)
    then show ?thesis using inv_waits [OF inv_enqueue [OF inv Some _ item], of "ws @ ws'"] rest by simp
  qed
qed

lemma inv_take:
  assumes inv: "bus_inv b" and idle: "bus_pumps b c = PumpIdle" and q: "ob_queue (bus_out b) c = Some (item # items)"
    and bd: "begin_delivery env ((bus_out b)\<lparr>ob_queue := (ob_queue (bus_out b))(c \<mapsto> items)\<rparr>) c item = (s', pump)"
  shows "bus_inv (b\<lparr>bus_out := s', bus_pumps := (bus_pumps b)(c := pump)\<rparr>)"
proof -
  let ?s = "(bus_out b)\<lparr>ob_queue := (ob_queue (bus_out b))(c \<mapsto> items)\<rparr>"
  have all: "list_all (item_ok (ob_tasks (bus_out b)) c) (item # items)" "length (item # items) \<le> QUEUE_CAP"
    using bus_invD [OF inv] q by blast+
  then have inv': "bus_inv (b\<lparr>bus_out := ?s\<rparr>)" using bus_invD [OF inv] by (intro inv_queue [OF inv]) (auto split: if_splits)
  have still: "bus_inv (b\<lparr>bus_out := s', bus_pumps := (bus_pumps b)(c := pump)\<rparr>)" if "sendless ?s s'" "sends_id pump = None"
    using inv_quiet [OF inv', of s' "(bus_pumps b)(c := pump)"] that by auto
  show ?thesis
  proof (cases item)
    case (AskItem i out)
    then show ?thesis using bd still sendless_other_send [of ?s env c out] by auto
  next
    case (ReplyItem k via out)
    note qc = sendless_claim [of ?s env k Routed]
    show ?thesis
    proof (cases pump)
      case (PumpSends j v o' claimed)
      then have "db_claim env ?s k Routed = (s', Ok (Some claimed))" "j = k" "v = via" "o' = out"
        using bd ReplyItem by (auto split: prod.splits sum.splits option.splits)
      then show ?thesis using inv_claimed [OF inv', of c k via out env s' claimed] all ReplyItem idle PumpSends by simp
    qed (use bd ReplyItem still qc in \<open>auto split: prod.splits sum.splits option.splits\<close>)
  qed
qed

lemma inv_finish:
  assumes inv: "bus_inv b"
  shows "bus_inv (b\<lparr>bus_out := end_delivery env (bus_out b) c (bus_pumps b c), bus_pumps := (bus_pumps b)(c := PumpIdle)\<rparr>)"
proof (cases "bus_pumps b c")
  case PumpIdle
  then show ?thesis using inv_quiet [OF inv sendless_refl] by auto
next
  case (PumpRereads k out)
  then show ?thesis using inv_quiet [OF inv sendless_failed_claim] by auto
next
  case (PumpSends k via out claimed)
  then show ?thesis using inv_sent [OF inv PumpSends] by simp
qed

lemma inv_step:
  assumes "bus_step served b b'" and "bus_inv b" shows "bus_inv b'"
  using assms(1)
proof cases
  case (route env i via s' res)
  then show ?thesis using inv_route [OF assms(2)] by simp
next
  case (wake ws item ws' s' res)
  then show ?thesis using inv_wake [OF assms(2)] by simp
next
  case (ask i out s')
  then obtain items where q: "s' = (bus_out b)\<lparr>ob_queue := (ob_queue (bus_out b))(om_channel out \<mapsto> items @ [AskItem i out])\<rparr>"
      "ob_queue (bus_out b) (om_channel out) = Some items" "length items < QUEUE_CAP"
    by (auto simp: try_deliver_def split: option.splits if_splits)
  have "item_ok (ob_tasks (bus_out b)) (om_channel out) (AskItem i out)" by (simp add: item_ok_def)
  then show ?thesis using inv_enqueue [OF assms(2) q(2,3)] ask(1) q(1) by simp
next
  case (take c item items env s' pump)
  then show ?thesis using inv_take [OF assms(2)] by blast
next
  case (finish env c s')
  then show ?thesis using inv_finish [OF assms(2), of c env] by simp
next
  case (others t')
  then show ?thesis using inv_table [OF assms(2)] by blast
next
  case restart
  have "bus_inv (b\<lparr>bus_out := (bus_out b)\<lparr>ob_queue := (\<lambda>c. if c \<in> set served then Some [] else None)\<rparr>\<rparr>)"
    by (rule inv_queue [OF assms(2)]) (auto split: if_splits)
  from inv_quiet [OF this sendless_refl, of "\<lambda>c. PumpIdle"] have "bus_inv (b\<lparr>bus_out := (bus_out b)\<lparr>ob_queue := (\<lambda>c. if c \<in> set served then Some [] else None)\<rparr>,
      bus_pumps := \<lambda>c. PumpIdle\<rparr>)" by simp
  from inv_waits [OF this, of "[]"] show ?thesis using restart by (cases b) simp
qed

lemma reach_inv: "bus_reach served tasks b \<Longrightarrow> distinct (map tr_id tasks) \<Longrightarrow> bus_inv b"
proof (induction rule: bus_reach.induct)
  case start
  then show ?case by (auto simp: bus_inv_def bus_start_def split: if_splits)
next
  case (step b b')
  then show ?case using inv_step by blast
qed

end
