(* ===== verification/Sweep_Facts.thy ===== *)
theory Sweep_Facts
  imports Delivery_Spec
begin

text \<open>
  The catch-up sweep against its specification: without faults the pages it reads are consecutive chunks of the list of
  finished, unsettled channel tasks, and routing them one by one does to the table and the queues what the pure
  \<open>route_pure\<close> does, up to the end or to the first reply whose queue is full; with faults it still ends or waits there.
\<close>

section \<open>Pages\<close>

definition pending :: "TaskRow \<Rightarrow> bool" where
  "pending r \<longleftrightarrow> claimable r \<and> payload_str (tr_payload r) ''kind'' = Some ''channel''"

definition unsettled_after :: "TaskRow list \<Rightarrow> int \<Rightarrow> int list" where
  "unsettled_after t a = sort (map tr_id (filter (\<lambda>r. pending r \<and> tr_id r > a) t))"

lemma page_is_chunk: "unsettled_channel_replies t a limit = take (nat (max limit 0)) (unsettled_after t a)"
  by (simp add: unsettled_channel_replies_def unsettled_after_def pending_def conj_ac)

lemma set_unsettled_after: "set (unsettled_after t a) = {i. \<exists>r \<in> set t. tr_id r = i \<and> pending r \<and> a < i}"
  by (auto simp: unsettled_after_def)

lemma unsettled_after_sorted: "sorted (unsettled_after t a)" "distinct (map tr_id t) \<Longrightarrow> distinct (unsettled_after t a)"
  by (auto simp: unsettled_after_def distinct_map_filter)

lemma unsettled_after_later: "a \<le> a' \<Longrightarrow> unsettled_after t a' = filter (\<lambda>i. a' < i) (unsettled_after t a)"
proof -
  assume "a \<le> a'"
  then have "filter (\<lambda>r. pending r \<and> tr_id r > a') t = filter (\<lambda>r. a' < tr_id r) (filter (\<lambda>r. pending r \<and> tr_id r > a) t)"
    by (auto intro!: filter_cong)
  then show ?thesis unfolding unsettled_after_def filter_sort by (simp add: filter_map comp_def)
qed

lemma filter_beyond_chunk:
  fixes L :: "int list"
  assumes "sorted L" "distinct L" "n \<le> length L" "0 < n"
  shows "filter (\<lambda>i. Max (set (take n L)) < i) L = drop n L"
proof -
  have split: "L = take n L @ drop n L" by simp
  have lt: "x < y" if "x \<in> set (take n L)" "y \<in> set (drop n L)" for x y
    using that assms(1,2) split by (metis append_take_drop_id distinct_append disjoint_iff order_le_less sorted_append)
  have ne: "take n L \<noteq> []" using assms(3,4) by auto
  have "filter (\<lambda>i. Max (set (take n L)) < i) (take n L) = []" by (auto simp: filter_empty_conv not_less)
  moreover have "filter (\<lambda>i. Max (set (take n L)) < i) (drop n L) = drop n L"
    using lt [OF Max_in] ne by (auto simp: filter_id_conv)
  ultimately show ?thesis using split by (metis append_Nil filter_append)
qed

section \<open>Routing without faults\<close>

definition reply_of :: "OutEnv \<Rightarrow> TaskRow list \<Rightarrow> int \<Rightarrow> OutgoingMessage option" where
  "reply_of env t i = Option.bind (find_task t i) (\<lambda>r. reply_for_completed_task (oe_print env) (tr_payload r) (tr_result r))"

definition is_channel_task :: "TaskRow list \<Rightarrow> int \<Rightarrow> bool" where
  "is_channel_task t i = (case find_task t i of Some r \<Rightarrow> payload_str (tr_payload r) ''kind'' = Some ''channel'' | None \<Rightarrow> False)"

type_synonym tables = "TaskRow list \<times> (rstr \<Rightarrow> Queued list option)"

definition route_pure :: "OutEnv \<Rightarrow> rstr list \<Rightarrow> int \<Rightarrow> tables \<Rightarrow> tables" where
  "route_pure env served i tq =
     (case tq of (t, q) \<Rightarrow>
        case reply_of env t i of
          None \<Rightarrow> if is_channel_task t i then (claim_rows t i Unroutable, q) else (t, q)
        | Some out \<Rightarrow>
            if om_channel out \<in> set served
            then (t, q (om_channel out := map_option (\<lambda>items. items @ [ReplyItem i CatchUp out]) (q (om_channel out))))
            else (t, q))"

definition view :: "Outbound \<Rightarrow> tables" where
  "view s = (ob_tasks s, ob_queue s)"

lemma view_simps [simp]: "view (next_call s) = view s" "view (log_out e s) = view s"
  by (simp_all add: view_def next_call_def log_out_def)

lemma view_settle_unroutable:
  assumes "\<And>n. oe_fault env n = Fine"
  shows "view (fst (settle_unroutable env s i)) = (claim_rows (ob_tasks s) i Unroutable, ob_queue s)"
    and "snd (settle_unroutable env s i) = RouteSkipped"
  using assms by (auto simp: settle_unroutable_def db_claim_def Let_def view_def next_call_def log_out_def split: option.splits)

lemma view_route_one:
  assumes fine: "\<And>n. oe_fault env n = Fine" and r: "route_one env served s i CatchUp = (s', res)"
  shows "parked_items res = [] \<Longrightarrow> view s' = route_pure env served i (view s)"
    and "res \<notin> {RouteLoadFailed, RouteClaimFailed}"
    and "res = RouteParked item \<Longrightarrow> view s' = view s \<and> (\<exists>out. reply_of env (ob_tasks s) i = Some out \<and> item = ReplyItem i CatchUp out)"
proof -
  have l: "db_load env s i = (next_call s, Ok (map_option (\<lambda>r. (tr_payload r, tr_result r)) (find_task (ob_tasks s) i)))"
    using fine by (simp add: db_load_def)
  have t: "ob_tasks (next_call s) = ob_tasks s" "ob_queue (next_call s) = ob_queue s" by (simp_all add: next_call_def)
  note u = view_settle_unroutable [where env = env and i = i and s = "next_call s", OF fine, unfolded t]
  show "parked_items res = [] \<Longrightarrow> view s' = route_pure env served i (view s)"
    using u r unfolding route_one_def l
    by (auto simp: route_pure_def view_def reply_of_def is_channel_task_def t fun_upd_idem split: option.splits if_splits)
  show "res \<notin> {RouteLoadFailed, RouteClaimFailed}"
    using u r unfolding route_one_def l by (auto split: option.splits if_splits)
  show "res = RouteParked item \<Longrightarrow> view s' = view s \<and> (\<exists>out. reply_of env (ob_tasks s) i = Some out \<and> item = ReplyItem i CatchUp out)"
    using u r unfolding route_one_def l by (auto simp: view_def reply_of_def t split: option.splits if_splits)
qed

text \<open>A wait is one on a full queue of a served channel.\<close>

definition waits_full :: "rstr list \<Rightarrow> SweepResult \<Rightarrow> bool" where
  "waits_full served res =
     (case res of
        SweepDone s r \<Rightarrow> True
      | SweepParked s r item \<Rightarrow>
          om_channel (queued_message item) \<in> set served \<and>
          (\<exists>items. ob_queue s (om_channel (queued_message item)) = Some items \<and> QUEUE_CAP \<le> length items))"

lemma route_one_waits_full: "route_one env served s i via = (s', RouteParked item) \<Longrightarrow> waits_full served (SweepParked s' r item)"
  using unroutable_waits_not [of env "next_call s" i]
  by (auto simp: route_one_def db_load_def waits_full_def split: Fault.splits option.splits if_splits)

lemma route_page_waits_full: "waits_full served (route_page env served page s r)"
proof (induction page arbitrary: s r)
  case (Cons i page)
  obtain s1 res where o: "route_one env served s i CatchUp = (s1, res)" by (cases "route_one env served s i CatchUp")
  show ?case using o Cons.IH route_one_waits_full [of env served s i CatchUp s1] by (cases res) auto
qed (simp add: waits_full_def)

text \<open>How far a routed list got: all of it, or up to the reply it waits with.\<close>

definition got :: "OutEnv \<Rightarrow> rstr list \<Rightarrow> int list \<Rightarrow> Outbound \<Rightarrow> SweepReport \<Rightarrow> SweepResult \<Rightarrow> bool" where
  "got env served L s r res =
     (case res of
        SweepDone s' r' \<Rightarrow>
          view s' = fold (route_pure env served) L (view s) \<and> sr_read_failed r' = sr_read_failed r \<and>
          sr_load_failed r' = sr_load_failed r \<and> sr_claim_failed r' = sr_claim_failed r
      | SweepParked s' r' item \<Rightarrow>
          (\<exists>as i bs out. L = as @ i # bs \<and> view s' = fold (route_pure env served) as (view s) \<and>
             reply_of env (ob_tasks s') i = Some out \<and> item = ReplyItem i CatchUp out))"

lemma got_further:
  assumes "got env served L s r (SweepDone s1 r1)" and "got env served M s1 r1 res"
  shows "got env served (L @ M) s r res"
proof (cases res)
  case (SweepDone s' r')
  then show ?thesis using assms by (simp add: got_def)
next
  case (SweepParked s' r' item)
  then obtain as i bs out where p: "M = as @ i # bs" "view s' = fold (route_pure env served) as (view s1)"
      "reply_of env (ob_tasks s') i = Some out" "item = ReplyItem i CatchUp out"
    using assms(2) by (auto simp: got_def)
  have "L @ M = (L @ as) @ i # bs \<and> view s' = fold (route_pure env served) (L @ as) (view s)"
    using assms(1) p(1,2) by (simp add: got_def)
  then show ?thesis using p(3,4) unfolding got_def SweepParked SweepResult.case by blast
qed

lemma got_parked: "got env served L s r (SweepParked s' r' item) \<Longrightarrow> got env served (L @ M) s r (SweepParked s' r' item)"
  by (force simp: got_def)

lemma got_next_call [simp]: "got env served L (next_call s) r res = got env served L s r res"
  unfolding got_def view_simps by (rule refl)

lemma view_route_page:
  assumes fine: "\<And>n. oe_fault env n = Fine"
  shows "got env served page s r (route_page env served page s r)"
proof (induction page arbitrary: s r)
  case Nil
  show ?case by (simp add: got_def)
next
  case (Cons i page)
  obtain s1 res where o: "route_one env served s i CatchUp = (s1, res)" by (cases "route_one env served s i CatchUp")
  note v = view_route_one [OF fine o]
  show ?case
  proof (cases "parked_items res")
    case Nil
    have "got env served [i] s r (SweepDone s1 (count_route res r))"
      using v(1,2) Nil by (cases res) (auto simp: got_def)
    from got_further [OF this Cons.IH] show ?thesis using o Nil by (cases res) auto
  next
    case (Cons item' rest)
    then obtain item where res: "res = RouteParked item" by (cases res) auto
    then have "ob_tasks s1 = ob_tasks s" using v(3) by (metis fst_conv view_def)
    then show ?thesis using o res v(3) by (auto simp: got_def intro!: exI [of _ "[]"])
  qed
qed

section \<open>Claims on earlier tasks do not change later pages\<close>

lemma unsettled_after_claim: "i \<le> a \<Longrightarrow> unsettled_after (claim_rows t i d) a = unsettled_after t a"
proof -
  assume i: "i \<le> a"
  have "map tr_id (filter (\<lambda>r. pending r \<and> tr_id r > a) (map (claim_one i d) t)) = map tr_id (filter (\<lambda>r. pending r \<and> tr_id r > a) t)"
    using i by (induction t) (auto simp: claim_one_def)
  then show ?thesis by (simp add: unsettled_after_def claim_rows_one)
qed

lemma unsettled_after_fold:
  "list_all (\<lambda>i. i \<le> a) page \<Longrightarrow> unsettled_after (fst (fold (route_pure env served) page tq)) a = unsettled_after (fst tq) a"
proof (induction page arbitrary: tq)
  case (Cons i page)
  have "unsettled_after (fst (route_pure env served i tq)) a = unsettled_after (fst tq) a"
    using Cons.prems by (auto simp: route_pure_def unsettled_after_claim split: prod.splits option.splits if_splits)
  then show ?case using Cons by simp
qed simp

lemma fold_ids: "map tr_id (fst (fold (route_pure env served) page tq)) = map tr_id (fst tq)"
proof (induction page arbitrary: tq)
  case (Cons i page)
  have "map tr_id (fst (route_pure env served i tq)) = map tr_id (fst tq)"
    by (auto simp: route_pure_def claim_grows split: prod.splits option.splits if_splits)
  then show ?case using Cons by simp
qed simp

section \<open>The loop\<close>

lemma next_page:
  assumes t1: "t = fst (fold (route_pure env served) (take 100 (unsettled_after (ob_tasks s) after)) (view s))"
    and d: "distinct (map tr_id (ob_tasks s))" and full: "100 \<le> length (unsettled_after (ob_tasks s) after)"
  shows "unsettled_after t (Max (set (take 100 (unsettled_after (ob_tasks s) after)))) = drop 100 (unsettled_after (ob_tasks s) after)"
proof -
  let ?L = "unsettled_after (ob_tasks s) after"
  let ?m = "Max (set (take 100 ?L))"
  have "?m \<in> set (take 100 ?L)" using full by (intro Max_in) auto
  then have gt: "after \<le> ?m" using set_unsettled_after [of "ob_tasks s" after] by (auto dest!: in_set_takeD)
  have "unsettled_after t ?m = unsettled_after (ob_tasks s) ?m"
    unfolding t1 by (subst unsettled_after_fold) (auto simp: list_all_iff view_def)
  also have "\<dots> = drop 100 ?L"
    using unsettled_after_later [OF gt] filter_beyond_chunk [of ?L 100] unsettled_after_sorted d full by simp
  finally show ?thesis .
qed

lemma sweep_step:
  assumes u: "oe_fault env (ob_clock s) = Fine" and p: "page = take 100 (unsettled_after (ob_tasks s) after)" "page \<noteq> []"
  shows "sweep_from env served after s r =
    (case route_page env served page (next_call s) r of
       SweepParked s' r' item \<Rightarrow> Some (SweepParked s' r' item)
     | SweepDone s' r' \<Rightarrow> if length page < 100 then Some (SweepDone s' r') else sweep_from env served (Max (set page)) s' r')"
proof -
  have pg: "db_unsettled env s after SWEEP_PAGE = (next_call s, Ok page)"
    using u p by (simp add: db_unsettled_def page_is_chunk SWEEP_PAGE_def)
  have "after < i" if "i \<in> set page" for i using that p set_unsettled_after [of "ob_tasks s" after] by (auto dest: in_set_takeD)
  moreover have "Max (set page) \<in> set page" using p(2) by (intro Max_in) auto
  ultimately have "\<not> Max (set page) \<le> after" by (simp add: not_le)
  moreover have "(int (length page) < SWEEP_PAGE) = (length page < 100)" by (simp add: SWEEP_PAGE_def)
  ultimately show ?thesis using pg p(2)
    by (subst sweep_from.simps) (simp del: Max_le_iff split: SweepResult.split)
qed

lemma sweep_from_fine:
  assumes fine: "\<And>n. oe_fault env n = Fine" and "distinct (map tr_id (ob_tasks s))"
  shows "\<exists>res. sweep_from env served after s r = Some res \<and> got env served (unsettled_after (ob_tasks s) after) s r res"
  using assms(2)
proof (induction "length (unsettled_after (ob_tasks s) after)" arbitrary: after s r rule: less_induct)
  case less
  let ?L = "unsettled_after (ob_tasks s) after"
  let ?page = "take 100 ?L"
  show ?case
  proof (cases "?L = []")
    case True
    then have "db_unsettled env s after SWEEP_PAGE = (next_call s, Ok [])" using fine by (simp add: db_unsettled_def page_is_chunk)
    then have "sweep_from env served after s r = Some (SweepDone (next_call s) r)" by (subst sweep_from.simps) simp
    then show ?thesis using True by (simp add: got_def)
  next
    case False
    note v = view_route_page [OF fine, of served ?page "next_call s" r, simplified]
    have L: "?L = ?page @ drop 100 ?L" by simp
    note step = sweep_step [OF fine refl, of s after served r]
    show ?thesis
    proof (cases "route_page env served ?page (next_call s) r")
      case (SweepParked s1 r1 item)
      then show ?thesis using step False v got_parked [of env served ?page s r s1 r1 item "drop 100 ?L"] by simp
    next
      case rp: (SweepDone s1 r1)
      show ?thesis
      proof (cases "length ?page < 100")
        case True
        then have "?page = ?L" by simp
        then show ?thesis using step True False v rp by auto
      next
        case ge: False
        have t1: "ob_tasks s1 = fst (fold (route_pure env served) ?page (view s))" using v rp by (simp add: got_def) (metis fst_conv view_def)
        have rest: "unsettled_after (ob_tasks s1) (Max (set ?page)) = drop 100 ?L"
          by (rule next_page [OF t1 less.prems]) (use ge in simp)
        have d1: "distinct (map tr_id (ob_tasks s1))" unfolding t1 fold_ids using less.prems by (simp add: view_def)
        have "length (unsettled_after (ob_tasks s1) (Max (set ?page))) < length ?L" using rest False by simp
        from less.hyps [OF this d1, of r1] obtain res where i: "sweep_from env served (Max (set ?page)) s1 r1 = Some res"
            "got env served (drop 100 ?L) s1 r1 res"
          unfolding rest by blast
        show ?thesis using step ge False rp i got_further [OF v [unfolded rp] i(2)] by simp
      qed
    qed
  qed
qed

text \<open>Faults or not: a routed task changes at most its own row.\<close>

lemma claim_tasks: "ob_tasks (fst (db_claim env s i d)) \<in> {ob_tasks s, claim_rows (ob_tasks s) i d}"
  by (auto simp: db_claim_def next_call_def Let_def split: Fault.splits)

lemma outcome_tasks: "ob_tasks (fst (claim_outcome env s i)) = ob_tasks s"
  by (auto simp: claim_outcome_def db_settled_def next_call_def split: sum.splits Fault.splits)

lemma unroutable_tasks: "ob_tasks (fst (settle_unroutable env s i)) \<in> {ob_tasks s, claim_rows (ob_tasks s) i Unroutable}"
proof -
  obtain s' a where c: "db_claim env s i Unroutable = (s', a)" by (cases "db_claim env s i Unroutable")
  then have q: "ob_tasks s' \<in> {ob_tasks s, claim_rows (ob_tasks s) i Unroutable}" using claim_tasks [of env s i Unroutable] by simp
  obtain s'' o' where d: "claim_outcome env s' i = (s'', o')" by (cases "claim_outcome env s' i")
  then have "ob_tasks s'' = ob_tasks s'" using outcome_tasks [of env s' i] by simp
  then show ?thesis using c d q by (auto simp: settle_unroutable_def log_out_def next_call_def split: sum.splits option.splits bool.splits)
qed

lemma route_one_tasks: "ob_tasks (fst (route_one env served s i via)) \<in> {ob_tasks s, claim_rows (ob_tasks s) i Unroutable}"
  using unroutable_tasks [of env "next_call s" i]
  by (auto simp: route_one_def db_load_def next_call_def split: Fault.splits option.splits if_splits)

lemma route_page_tasks:
  "list_all (\<lambda>i. i \<le> a) page \<Longrightarrow> unsettled_after (ob_tasks (sweep_state (route_page env served page s r))) a = unsettled_after (ob_tasks s) a"
proof (induction page arbitrary: s r)
  case (Cons i page)
  obtain s1 res where o: "route_one env served s i CatchUp = (s1, res)" by (cases "route_one env served s i CatchUp")
  then have "unsettled_after (ob_tasks s1) a = unsettled_after (ob_tasks s) a"
    using route_one_tasks [of env served s i CatchUp] unsettled_after_claim Cons.prems(1) by auto
  then show ?case using Cons o by (cases res) auto
qed simp

lemma sweep_from_ends: "\<exists>res. sweep_from env served after s r = Some res \<and> waits_full served res"
proof (induction "length (unsettled_after (ob_tasks s) after)" arbitrary: after s r rule: less_induct)
  case less
  let ?L = "unsettled_after (ob_tasks s) after"
  let ?page = "take 100 ?L"
  show ?case
  proof (cases "oe_fault env (ob_clock s) = Fine \<and> ?L \<noteq> []")
    case False
    then show ?thesis
      by (subst sweep_from.simps) (auto simp: db_unsettled_def page_is_chunk waits_full_def split: Fault.splits)
  next
    case True
    note step = sweep_step [OF conjunct1 [OF True] refl, of after served r]
    note wf = route_page_waits_full [of served env ?page "next_call s" r]
    let ?m = "Max (set ?page)"
    have ne: "?page \<noteq> []" using True by simp
    have mem: "?m \<in> set ?page" using ne by (intro Max_in) auto
    then have m: "?m \<in> set ?L" "after < ?m" using set_unsettled_after [of "ob_tasks s" after] by (auto dest: in_set_takeD)
    show ?thesis
    proof (cases "route_page env served ?page (next_call s) r")
      case (SweepParked s1 r1 item)
      then show ?thesis using step ne wf by simp
    next
      case (SweepDone s1 r1)
      have "unsettled_after (ob_tasks s1) ?m = filter (\<lambda>i. ?m < i) ?L"
        using route_page_tasks [of ?m ?page env served "next_call s" r] SweepDone unsettled_after_later [of after ?m "ob_tasks s"] m
        by (simp add: list_all_iff next_call_def)
      moreover have "length (filter (\<lambda>i. ?m < i) ?L) < length ?L" using m(1) by (intro length_filter_less) auto
      ultimately have "length (unsettled_after (ob_tasks s1) ?m) < length ?L" by simp
      from less.hyps [OF this, of r1] show ?thesis using step ne wf SweepDone by (simp split: if_splits)
    qed
  qed
qed

end
