(* ===== verification/Reply_Spec.thy ===== *)
theory Reply_Spec
  imports Sweep_Facts
begin

text \<open>
  The properties of the outbound side: a reply is sent at most once and where its task came from, whatever the
  interleaving, and the sweep finds exactly the replies that are still owed.
\<close>

section \<open>What a sweep leaves in the queues\<close>

definition reply_item :: "OutEnv \<Rightarrow> TaskRow list \<Rightarrow> rstr \<Rightarrow> int \<Rightarrow> Queued option" where
  "reply_item env t c i =
     (case reply_of env t i of
        Some out \<Rightarrow> if om_channel out = c then Some (ReplyItem i CatchUp out) else None
      | None \<Rightarrow> None)"

definition owed_replies :: "OutEnv \<Rightarrow> TaskRow list \<Rightarrow> rstr \<Rightarrow> Queued list" where
  "owed_replies env t c = List.map_filter (reply_item env t c) (unsettled_after t 0)"

lemma find_task_claim: "find_task (claim_rows t i d) j = map_option (claim_one i d) (find_task t j)"
  unfolding find_task_def claim_rows_one by (induction t) auto

lemma claim_one_result [simp]: "tr_result (claim_one i d r) = tr_result r"
  by (simp add: claim_one_def)

lemma reply_of_claim [simp]: "reply_of env (claim_rows t i d) j = reply_of env t j"
  by (cases "find_task t j") (simp_all add: reply_of_def find_task_claim)

lemma is_channel_claim [simp]: "is_channel_task (claim_rows t i d) j = is_channel_task t j"
  by (cases "find_task t j") (simp_all add: is_channel_task_def find_task_claim)

lemma reply_item_claim [simp]: "reply_item env (claim_rows t i d) c = reply_item env t c"
  by (rule ext) (simp add: reply_item_def)

lemma route_pure_none:
  "reply_of env t i = None \<Longrightarrow> route_pure env served i (t, q) = (if is_channel_task t i then claim_rows t i Unroutable else t, q)"
  by (simp add: route_pure_def)

lemma route_pure_some:
  "reply_of env t i = Some out \<Longrightarrow> route_pure env served i (t, q) =
     (t, if om_channel out \<in> set served
         then q(om_channel out := map_option (\<lambda>items. items @ [ReplyItem i CatchUp out]) (q (om_channel out))) else q)"
  by (simp add: route_pure_def)

lemma fold_queue:
  "snd (fold (route_pure env served) L (t, q)) c =
   (if c \<in> set served then map_option (\<lambda>items. items @ List.map_filter (reply_item env t c) L) (q c) else q c)"
proof (induction L arbitrary: t q)
  case Nil
  show ?case by (cases "q c") (simp_all add: List.map_filter_simps)
next
  case (Cons i L)
  show ?case
  proof (cases "reply_of env t i")
    case None
    then have n: "reply_item env t c i = None" by (simp add: reply_item_def)
    show ?thesis using n by (simp add: route_pure_none [OF None] Cons.IH List.map_filter_simps)
  next
    case (Some out)
    then show ?thesis
      by (cases "q (om_channel out)"; cases "om_channel out = c")
         (auto simp: route_pure_some [OF Some] Cons.IH reply_item_def List.map_filter_simps)
  qed
qed

lemma find_task_row:
  assumes "distinct (map tr_id t)" "r \<in> set t" shows "find_task t (tr_id r) = Some r"
proof (cases "find_task t (tr_id r)")
  case None
  then show ?thesis using assms(2) by (auto simp: find_task_def find_None_iff)
next
  case (Some r')
  then have "r' \<in> set t" "tr_id r' = tr_id r" by (auto simp: find_task_def find_Some_iff intro: nth_mem)
  then show ?thesis using assms Some by (metis distinct_map inj_onD)
qed

lemma fold_grows: "table_grows (fst tq) (fst (fold (route_pure env served) L tq))"
proof (induction L arbitrary: tq)
  case (Cons i L)
  have "table_grows (fst tq) (fst (route_pure env served i tq))"
    by (auto simp: route_pure_def claim_grows split: prod.splits option.splits)
  from table_grows_trans [OF this Cons.IH] show ?case by simp
qed simp

lemma fold_settles:
  assumes "distinct (map tr_id t)" "r \<in> set t" "pending r" "reply_of env t (tr_id r) = None" "tr_id r \<in> set L"
  shows "is_settled (fst (fold (route_pure env served) L (t, q))) (tr_id r)"
  using assms
proof (induction L arbitrary: t q r)
  case (Cons i L)
  show ?case
  proof (cases "i = tr_id r")
    case True
    have ch: "is_channel_task t i" using find_task_row [OF Cons.prems(1,2)] Cons.prems(3) True by (simp add: is_channel_task_def pending_def)
    then have "route_pure env served i (t, q) = (claim_rows t i Unroutable, q)" using Cons.prems(4) True by (simp add: route_pure_def)
    moreover have "is_settled (claim_rows t i Unroutable) i"
      using Cons.prems(2,3) True by (auto simp: is_settled_def claim_rows_one pending_def)
    ultimately show ?thesis using is_settled_grows [OF fold_grows] True by (metis fold_simps(2) fst_conv)
  next
    case False
    then have L: "tr_id r \<in> set L" using Cons.prems(5) by simp
    consider q' where "route_pure env served i (t, q) = (t, q')" | "route_pure env served i (t, q) = (claim_rows t i Unroutable, q)"
      by (cases "reply_of env t i"; cases "is_channel_task t i") (auto simp: route_pure_none route_pure_some)
    then show ?thesis
    proof cases
      case 1
      then show ?thesis using Cons.IH [OF Cons.prems(1-4) L] by simp
    next
      case 2
      have "r \<in> set (claim_rows t i Unroutable)"
        using Cons.prems(2) False by (auto simp: claim_rows_def intro!: image_eqI [of _ _ r])
      then show ?thesis using Cons.IH [of "claim_rows t i Unroutable" r q] 2 Cons.prems L claim_grows by simp
    qed
  qed
qed simp

section \<open>A concrete table\<close>

definition demo_row :: "int \<Rightarrow> (rstr \<times> json) list \<Rightarrow> TaskRow" where
  "demo_row i kvs = \<lparr>tr_id = i, tr_state = ''completed'', tr_payload = JObj ((''kind'', JStr ''channel'') # kvs),
     tr_result = Some (JObj [(''body'', JStr ''Done'')]), tr_created_at = 0, tr_finished_at = Some 0, tr_settled = None\<rparr>"

definition demo_rows :: "TaskRow list" where
  "demo_rows = [demo_row 9 [], demo_row 7 [(''channel'', JStr ''matrix''), (''peer'', JStr ''@a:b''), (''conversation'', JStr ''!r'')]]"

definition demo_out_env :: OutEnv where
  "demo_out_env = \<lparr>oe_fault = (\<lambda>n. Fine), oe_now = (\<lambda>n. 7 * 60 * NANOS), oe_sent = (\<lambda>n. True),
     oe_time_json = JInt, oe_print = (\<lambda>v. ''{}''), oe_dbg = (\<lambda>s. s)\<rparr>"

definition demo_reply :: OutgoingMessage where
  "demo_reply = \<lparr>om_channel = ''matrix'', om_peer = ''@a:b'', om_conversation = ''!r'', om_body = ''Done''\<rparr>"

definition demo_late :: OutgoingMessage where
  "demo_late = demo_reply\<lparr>om_body := ''(Delayed reply '' @ em_dash @ '' you sent this 7 min ago.)'' @ [LF, LF] @ ''Done''\<rparr>"

definition demo_claimed :: ClaimedReply where
  "demo_claimed = \<lparr>cr_created_at = 0, cr_finished_at = Some 0\<rparr>"

abbreviation demo_bus :: Bus where
  "demo_bus \<equiv> bus_start [''matrix''] demo_rows"

section \<open>The sweep\<close>

text \<open>A queue has room for the replies owed to its channel.\<close>

definition has_room :: "OutEnv \<Rightarrow> rstr list \<Rightarrow> Outbound \<Rightarrow> bool" where
  "has_room env served s \<longleftrightarrow>
     (\<forall>c \<in> set served. \<forall>items. ob_queue s c = Some items \<longrightarrow> length items + length (owed_replies env (ob_tasks s) c) \<le> QUEUE_CAP)"

lemma reply_of_fold: "reply_of env (fst (fold (route_pure env served) L (t, q))) i = reply_of env t i"
proof (induction L arbitrary: t q)
  case (Cons j L)
  show ?case by (cases "reply_of env t j"; cases "is_channel_task t j") (simp_all add: route_pure_none route_pure_some Cons.IH)
qed simp

lemma map_filter_app: "List.map_filter f (xs @ ys) = List.map_filter f xs @ List.map_filter f ys"
  by (simp add: List.map_filter_def)

text \<open>Where a sweep waits, the queues hold the first of the replies owed; the one it waits with is not yet among them.\<close>

lemma got_queues:
  assumes g: "got env served (unsettled_after (ob_tasks s) 0) s r res"
  obtains n where "\<And>c. ob_queue (sweep_state res) c =
      (if c \<in> set served then map_option (\<lambda>items. items @ take (n c) (owed_replies env (ob_tasks s) c)) (ob_queue s c) else ob_queue s c)"
    and "\<And>s' r' c. res = SweepDone s' r' \<Longrightarrow> n c = length (owed_replies env (ob_tasks s) c)"
    and "\<And>s' r' item. res = SweepParked s' r' item \<Longrightarrow>
      n (om_channel (queued_message item)) < length (owed_replies env (ob_tasks s) (om_channel (queued_message item)))"
proof (cases res)
  case (SweepDone s' r')
  then have "ob_queue s' = snd (fold (route_pure env served) (unsettled_after (ob_tasks s) 0) (ob_tasks s, ob_queue s))"
    using g by (simp add: got_def) (metis snd_conv view_def)
  then show ?thesis using SweepDone
    by (intro that [of "\<lambda>c. length (owed_replies env (ob_tasks s) c)"]) (simp_all add: fold_queue owed_replies_def)
next
  case (SweepParked s' r' item)
  then obtain as i bs out where p: "unsettled_after (ob_tasks s) 0 = as @ i # bs" "view s' = fold (route_pure env served) as (view s)"
      "reply_of env (ob_tasks s') i = Some out" "item = ReplyItem i CatchUp out"
    using g by (auto simp: got_def)
  have q: "ob_queue s' = snd (fold (route_pure env served) as (ob_tasks s, ob_queue s))"
    and t: "ob_tasks s' = fst (fold (route_pure env served) as (ob_tasks s, ob_queue s))"
    using p(2) by (metis fst_conv snd_conv view_def)+
  define n where "n c = length (List.map_filter (reply_item env (ob_tasks s) c) as)" for c
  have owed: "owed_replies env (ob_tasks s) c =
      List.map_filter (reply_item env (ob_tasks s) c) as @ List.map_filter (reply_item env (ob_tasks s) c) (i # bs)" for c
    by (simp add: owed_replies_def p(1) map_filter_app)
  have "reply_item env (ob_tasks s) (om_channel out) i = Some item"
    using p(3,4) unfolding t by (simp add: reply_item_def reply_of_fold)
  then have "n (om_channel out) < length (owed_replies env (ob_tasks s) (om_channel out))"
    by (simp add: owed n_def List.map_filter_simps)
  then show ?thesis using SweepParked p(4) by (intro that [of n]) (auto simp: q fold_queue owed n_def)
qed

lemma done_settles:
  assumes "got env served (unsettled_after (ob_tasks s) 0) s r (SweepDone s' r')" and "distinct (map tr_id (ob_tasks s))"
    and "row \<in> set (ob_tasks s)" "pending row" "0 < tr_id row" "reply_of env (ob_tasks s) (tr_id row) = None"
  shows "is_settled (ob_tasks s') (tr_id row)"
proof -
  have t: "ob_tasks s' = fst (fold (route_pure env served) (unsettled_after (ob_tasks s) 0) (ob_tasks s, ob_queue s))"
    using assms(1) by (simp add: got_def) (metis fst_conv view_def)
  show ?thesis
    unfolding t by (rule fold_settles [OF assms(2,3,4,6)]) (use assms set_unsettled_after [of "ob_tasks s" 0] in auto)
qed

lemma room_ends:
  assumes g: "got env served (unsettled_after (ob_tasks s) 0) s r res" and w: "waits_full served res" and room: "has_room env served s"
  shows "\<exists>s' r'. res = SweepDone s' r'"
proof (cases res)
  case (SweepParked s' r' item)
  let ?c = "om_channel (queued_message item)"
  obtain items' where full: "?c \<in> set served" "ob_queue s' ?c = Some items'" "QUEUE_CAP \<le> length items'"
    using w SweepParked by (auto simp: waits_full_def)
  obtain n where q: "ob_queue s' ?c = map_option (\<lambda>items. items @ take (n ?c) (owed_replies env (ob_tasks s) ?c)) (ob_queue s ?c)"
      and n: "n ?c < length (owed_replies env (ob_tasks s) ?c)"
    using got_queues [OF g] SweepParked full(1) by (metis sweep_state.simps(2))
  then obtain items where "ob_queue s ?c = Some items" "items' = items @ take (n ?c) (owed_replies env (ob_tasks s) ?c)"
    using full(2) by (cases "ob_queue s ?c") auto
  then have False using room full(1,3) n by (force simp: has_room_def)
  then show ?thesis ..
qed simp

text \<open>C17. A catch-up sweep ends or waits, whatever statements fail, and it waits only with a reply for a served channel
  whose queue holds 32 items already. When no statement fails, it appends to the queue of every served channel whose pump
  runs the replies still owed to it, in the order of the task ids, across page boundaries: all of them when it ends, the
  first of them where it waits. When it ends it has settled every finished channel task whose payload names no destination,
  and its report has no failure. It does end when every queue has room for what is owed to its channel.\<close>

theorem sweep_catches_up:
  "\<exists>res. sweep env served s = Some res \<and> waits_full served res \<and>
    ((\<forall>n. oe_fault env n = Fine) \<and> distinct (map tr_id (ob_tasks s)) \<longrightarrow>
       (\<exists>n. (\<forall>c. ob_queue (sweep_state res) c =
                 (if c \<in> set served then map_option (\<lambda>items. items @ take (n c) (owed_replies env (ob_tasks s) c)) (ob_queue s c)
                  else ob_queue s c)) \<and>
            (\<forall>s' r. res = SweepDone s' r \<longrightarrow>
               (\<forall>c. n c = length (owed_replies env (ob_tasks s) c)) \<and>
               (\<forall>row \<in> set (ob_tasks s). pending row \<and> 0 < tr_id row \<and> reply_of env (ob_tasks s) (tr_id row) = None \<longrightarrow>
                  is_settled (ob_tasks s') (tr_id row)) \<and>
               \<not> is_failure r \<and> sr_load_failed r = 0)) \<and>
       (has_room env served s \<longrightarrow> (\<exists>s' r. res = SweepDone s' r)))"
proof -
  obtain res where sw: "sweep env served s = Some res" and wf: "waits_full served res"
    using sweep_from_ends [of env served 0 s SweepReport_default] by (auto simp: sweep_def)
  show ?thesis
  proof (rule exI [of _ res], intro conjI impI)
    assume "(\<forall>n. oe_fault env n = Fine) \<and> distinct (map tr_id (ob_tasks s))"
    then have d: "distinct (map tr_id (ob_tasks s))" and g: "got env served (unsettled_after (ob_tasks s) 0) s SweepReport_default res"
      using sweep_from_fine [of env s served 0 SweepReport_default] sw by (auto simp: sweep_def)
    have rep: "\<not> is_failure r \<and> sr_load_failed r = 0" if "res = SweepDone s' r" for s' r
      using g that by (simp add: got_def is_failure_def SweepReport_default_def)
    obtain n where n: "\<And>c. ob_queue (sweep_state res) c = (if c \<in> set served
          then map_option (\<lambda>items. items @ take (n c) (owed_replies env (ob_tasks s) c)) (ob_queue s c) else ob_queue s c)"
        "\<And>s' r' c. res = SweepDone s' r' \<Longrightarrow> n c = length (owed_replies env (ob_tasks s) c)"
      using got_queues [OF g] by metis
    show "\<exists>n. (\<forall>c. ob_queue (sweep_state res) c =
                 (if c \<in> set served then map_option (\<lambda>items. items @ take (n c) (owed_replies env (ob_tasks s) c)) (ob_queue s c)
                  else ob_queue s c)) \<and>
            (\<forall>s' r. res = SweepDone s' r \<longrightarrow>
               (\<forall>c. n c = length (owed_replies env (ob_tasks s) c)) \<and>
               (\<forall>row \<in> set (ob_tasks s). pending row \<and> 0 < tr_id row \<and> reply_of env (ob_tasks s) (tr_id row) = None \<longrightarrow>
                  is_settled (ob_tasks s') (tr_id row)) \<and>
               \<not> is_failure r \<and> sr_load_failed r = 0)"
      by (rule exI [of _ n]) (use n rep done_settles [OF _ d] g in blast)
    show "\<exists>s' r. res = SweepDone s' r" if "has_room env served s" by (rule room_ends [OF g wf that])
  qed (fact sw wf)+
qed

lemma sweep_catches_up_witness:
  "\<exists>s' r. sweep demo_out_env [''matrix''] (bus_out demo_bus) = Some (SweepDone s' r) \<and>
     ob_queue s' ''matrix'' = Some [ReplyItem 7 CatchUp demo_reply] \<and> is_settled (ob_tasks s') 9 \<and> \<not> is_failure r"
proof -
  have d: "(\<forall>n. oe_fault demo_out_env n = Fine) \<and> distinct (map tr_id (ob_tasks (bus_out demo_bus)))"
    by (simp add: demo_out_env_def demo_rows_def demo_row_def bus_start_def)
  have o: "owed_replies demo_out_env demo_rows ''matrix'' = [ReplyItem 7 CatchUp demo_reply]" by code_simp
  have r: "demo_row 9 [] \<in> set demo_rows" "pending (demo_row 9 [])" "reply_of demo_out_env demo_rows 9 = None" "tr_id (demo_row 9 []) = 9"
    by (simp add: demo_rows_def, code_simp+)
  have t: "ob_tasks (bus_out demo_bus) = demo_rows" "ob_queue (bus_out demo_bus) ''matrix'' = Some []" by (simp_all add: bus_start_def)
  have room: "has_room demo_out_env [''matrix''] (bus_out demo_bus)" using t o by (simp add: has_room_def QUEUE_CAP_def)
  obtain s' res n where s: "sweep demo_out_env [''matrix''] (bus_out demo_bus) = Some (SweepDone s' res)"
      "ob_queue s' ''matrix'' = Some (take (n ''matrix'') (owed_replies demo_out_env demo_rows ''matrix''))"
      "n ''matrix'' = length (owed_replies demo_out_env demo_rows ''matrix'')"
      "\<forall>row \<in> set demo_rows. pending row \<and> 0 < tr_id row \<and> reply_of demo_out_env demo_rows (tr_id row) = None \<longrightarrow>
         is_settled (ob_tasks s') (tr_id row)" "\<not> is_failure res"
    using sweep_catches_up [of demo_out_env "[''matrix'']" "bus_out demo_bus"] d t room by auto
  have "is_settled (ob_tasks s') 9" using s(4) r by (metis zero_less_numeral)
  then show ?thesis using s o by simp
qed

section \<open>Replies go out once\<close>

text \<open>C8. Whatever the interleaving of notifications, sweeps, pumps, other processes on the table and restarts, and whatever
  statements fail or lose their answer: the reply of a task is handed to a channel at most once, only after the task's
  mark was set by a claim, and it is addressed to the channel, peer and conversation the task came from.\<close>

theorem reply_sent_at_most_once:
  assumes "bus_reach served tasks b" and "distinct (map tr_id tasks)"
  shows "distinct (sent_ids (ob_events (bus_out b))) \<and>
    (\<forall>i out. SendReply i out \<in> set (ob_events (bus_out b)) \<longrightarrow>
       (\<exists>r \<in> set (ob_tasks (bus_out b)). tr_id r = i \<and> tr_settled r \<noteq> None) \<and>
       (\<exists>r \<in> set (ob_tasks (bus_out b)). tr_id r = i \<and> destination_from_task_payload (tr_payload r) =
          Some \<lparr>ad_channel = om_channel out, ad_peer = om_peer out, ad_conversation = om_conversation out\<rparr>))"
proof -
  note i = bus_invD [OF reach_inv [OF assms]]
  have "is_settled (ob_tasks (bus_out b)) k" if "SendReply k out \<in> set (ob_events (bus_out b))" for k out
    using i that sent_ids_iff [of k] by blast
  then show ?thesis using i unfolding is_settled_def goes_home_def by blast
qed

text \<open>A run in which the reply of task 7 is routed, claimed and sent, with the note of a late one.\<close>

lemma reply_sent_at_most_once_witness:
  "\<exists>b. bus_reach [''matrix''] demo_rows b \<and> sent_ids (ob_events (bus_out b)) = [7] \<and> distinct (sent_ids (ob_events (bus_out b))) \<and>
     SendReply 7 demo_late \<in> set (ob_events (bus_out b)) \<and> is_settled (ob_tasks (bus_out b)) 7"
proof -
  define s1 where "s1 = fst (route_one demo_out_env [''matrix''] (bus_out demo_bus) 7 Notify)"
  define b1 where "b1 = demo_bus\<lparr>bus_out := s1, bus_waits := bus_waits demo_bus @ parked_items (RouteQueued (ReplyItem 7 Notify demo_reply))\<rparr>"
  define s2 where "s2 = fst (begin_delivery demo_out_env (s1\<lparr>ob_queue := (ob_queue s1)(''matrix'' \<mapsto> [])\<rparr>) ''matrix'' (ReplyItem 7 Notify demo_reply))"
  define b2 where "b2 = b1\<lparr>bus_out := s2, bus_pumps := (bus_pumps b1)(''matrix'' := PumpSends 7 Notify demo_reply demo_claimed)\<rparr>"
  define s3 where "s3 = end_delivery demo_out_env s2 ''matrix'' (PumpSends 7 Notify demo_reply demo_claimed)"
  define b3 where "b3 = b2\<lparr>bus_out := s3, bus_pumps := (bus_pumps b2)(''matrix'' := PumpIdle)\<rparr>"
  have q: "ob_queue s1 ''matrix'' = Some [ReplyItem 7 Notify demo_reply]" unfolding s1_def by code_simp
  have c: "begin_delivery demo_out_env (s1\<lparr>ob_queue := (ob_queue s1)(''matrix'' \<mapsto> [])\<rparr>) ''matrix'' (ReplyItem 7 Notify demo_reply) =
      (s2, PumpSends 7 Notify demo_reply demo_claimed)"
  proof (rule prod_eqI)
    show "snd (begin_delivery demo_out_env (s1\<lparr>ob_queue := (ob_queue s1)(''matrix'' \<mapsto> [])\<rparr>) ''matrix'' (ReplyItem 7 Notify demo_reply)) =
        snd (s2, PumpSends 7 Notify demo_reply demo_claimed)" unfolding s1_def snd_conv by code_simp
  qed (simp add: s2_def)
  have p: "bus_pumps b1 ''matrix'' = PumpIdle" "bus_out b1 = s1" "bus_out b2 = s2"
      "bus_pumps b2 ''matrix'' = PumpSends 7 Notify demo_reply demo_claimed" "bus_out b3 = s3"
    by (simp_all add: b1_def b2_def b3_def bus_start_def)
  have "snd (route_one demo_out_env [''matrix''] (bus_out demo_bus) 7 Notify) = RouteQueued (ReplyItem 7 Notify demo_reply)" by code_simp
  then have r0: "route_one demo_out_env [''matrix''] (bus_out demo_bus) 7 Notify = (s1, RouteQueued (ReplyItem 7 Notify demo_reply))"
    by (simp add: s1_def prod_eq_iff)
  have r1: "bus_reach [''matrix''] demo_rows b1"
    unfolding b1_def by (rule bus_reach.step [OF bus_reach.start], rule bus_step.route [OF r0])
  have "bus_step [''matrix''] b1 b2"
    unfolding b2_def by (rule bus_step.take [where env = demo_out_env, OF p(1)], simp only: p(2), rule q) (simp only: p(2), rule c)
  then have r2: "bus_reach [''matrix''] demo_rows b2" by (rule bus_reach.step [OF r1])
  have "bus_step [''matrix''] b2 b3"
    unfolding b3_def by (rule bus_step.finish [where env = demo_out_env]) (simp only: p(3,4) s3_def)
  then have reach: "bus_reach [''matrix''] demo_rows b3" by (rule bus_reach.step [OF r2])
  have ev: "find (\<lambda>e. e = SendReply 7 demo_late) (ob_events s3) = Some (SendReply 7 demo_late)"
    unfolding s3_def s2_def s1_def by code_simp
  then have sent: "SendReply 7 demo_late \<in> set (ob_events (bus_out b3))" by (simp add: b3_def find_Some_iff) (metis nth_mem)
  have ids: "sent_ids (ob_events (bus_out b3)) = [7]" unfolding p(5) unfolding s3_def s2_def s1_def by code_simp
  have "distinct (map tr_id demo_rows)" by (simp add: demo_rows_def demo_row_def)
  from reply_sent_at_most_once [OF reach this] sent ids reach show ?thesis unfolding is_settled_def by blast
qed

end
