(* ===== verification/Reply_Queues.thy ===== *)
theory Reply_Queues
  imports Channel_Outbound Mail_Wire "HOL-Library.Multiset"
begin

text \<open>
  The replies of a polled channel on their way to its worker (\<^verbatim>\<open>core/src/channel/polled_driver/\<close>): the pacing of refused
  calls (\<^verbatim>\<open>refusal.rs\<close>), the record of outages (\<^verbatim>\<open>outage.rs\<close>), and the queues per conversation with their flush
  (\<^verbatim>\<open>replies.rs\<close>). How a call failed is \<^verbatim>\<open>worker_lifecycle/persistent/call_failure.rs\<close>. Instants and durations are
  nanoseconds. A driver's effects are a list of events; the answers of the worker and the clock are arguments, by the
  number of the question.
\<close>

section \<open>How a call failed\<close>

text \<open>An error is the worker's own answer, with its code, or anything else.\<close>

datatype CallError = RpcRefusal int rstr | OtherFailure rstr

fun call_error_text :: "CallError \<Rightarrow> rstr" where
  "call_error_text (RpcRefusal cd text) = text"
| "call_error_text (OtherFailure text) = text"

datatype CallFailure = Gone | CallRefused | CredentialRefused | Unavailable

definition UPSTREAM_AUTH_FAILED :: int where "UPSTREAM_AUTH_FAILED = -32004"
definition UPSTREAM_UNAVAILABLE :: int where "UPSTREAM_UNAVAILABLE = -32005"

fun classify_call_error :: "CallError \<Rightarrow> CallFailure" where
  "classify_call_error (OtherFailure text) = Gone"
| "classify_call_error (RpcRefusal cd text) =
     (if cd = UPSTREAM_AUTH_FAILED then CredentialRefused
      else if cd = UPSTREAM_UNAVAILABLE then Unavailable else CallRefused)"

definition is_refusal :: "CallError \<Rightarrow> bool" where
  "is_refusal e \<longleftrightarrow> classify_call_error e \<noteq> Gone"

fun refusal_code :: "CallError \<Rightarrow> int" where
  "refusal_code (RpcRefusal cd text) = cd"
| "refusal_code (OtherFailure text) = 0"

section \<open>Runs of refusals\<close>

definition REFUSAL_REPEAT :: nat where "REFUSAL_REPEAT = secs (15 * 60)"
definition MAX_REFUSAL_DELAY :: nat where "MAX_REFUSAL_DELAY = secs (60 * 60)"

definition REFUSAL_BACKOFF :: RestartBackoff where
  "REFUSAL_BACKOFF = \<lparr>rb_base = secs 1, rb_factor_num = 2, rb_factor_den = 1, rb_cap = secs 60\<rparr>"

definition check_refusal_backoff :: "RestartBackoff \<Rightarrow> bool" where
  "check_refusal_backoff b \<longleftrightarrow>
     rb_base b \<noteq> 0 \<and> max (rb_factor_num b) 1 \<ge> max (rb_factor_den b) 1 \<and> rb_cap b \<ge> rb_base b \<and> rb_cap b \<le> MAX_REFUSAL_DELAY"

record RefusedCall =
  rc_delay :: nat
  rc_report :: bool

record RefusalRun =
  rr_consecutive :: nat
  rr_retry_at :: "nat option"
  rr_reported_at :: "nat option"
  rr_reported_code :: "int option"
  rr_since :: "nat option"

definition RefusalRun_default :: RefusalRun where
  "RefusalRun_default = \<lparr>rr_consecutive = 0, rr_retry_at = None, rr_reported_at = None, rr_reported_code = None, rr_since = None\<rparr>"

definition run_ready :: "RefusalRun \<Rightarrow> nat \<Rightarrow> bool" where
  "run_ready run now = (case rr_retry_at run of None \<Rightarrow> True | Some at \<Rightarrow> now \<ge> at)"

text \<open>Instants do not overflow here, so the addition of the delay succeeds.\<close>

definition on_refusal :: "RefusalRun \<Rightarrow> nat \<Rightarrow> RestartBackoff \<Rightarrow> int \<Rightarrow> RefusalRun \<times> RefusedCall" where
  "on_refusal run now backoff cd =
     (let consecutive = cap_u32 (rr_consecutive run + 1);
          since = (case rr_since run of Some t \<Rightarrow> t | None \<Rightarrow> now);
          delay = next_delay backoff (consecutive - 1);
          report = (rr_reported_code run \<noteq> Some cd \<or>
                    (case rr_reported_at run of None \<Rightarrow> True | Some at \<Rightarrow> now - at \<ge> REFUSAL_REPEAT)) in
      (run\<lparr>rr_consecutive := consecutive, rr_since := Some since, rr_retry_at := Some (now + delay),
           rr_reported_at := (if report then Some now else rr_reported_at run),
           rr_reported_code := (if report then Some cd else rr_reported_code run)\<rparr>,
       \<lparr>rc_delay = delay, rc_report = report\<rparr>))"

definition restart_clock :: "RefusalRun \<Rightarrow> RefusalRun" where
  "restart_clock run = run\<lparr>rr_since := None\<rparr>"

definition rearm_report :: "RefusalRun \<Rightarrow> RefusalRun" where
  "rearm_report run = run\<lparr>rr_reported_at := None\<rparr>"

datatype RefusalLine = LineSilent | LineWarn | LineCredentialError

definition refusal_line :: "CallError \<Rightarrow> RefusedCall \<Rightarrow> RefusalLine" where
  "refusal_line e r =
     (if \<not> rc_report r then LineSilent
      else if classify_call_error e = CredentialRefused then LineCredentialError else LineWarn)"

definition what_method :: "rstr \<Rightarrow> rstr option \<Rightarrow> rstr" where
  "what_method method conversation = (case conversation of Some c \<Rightarrow> method @ '' for conversation '' @ c | None \<Rightarrow> method)"

definition show_count :: "nat \<Rightarrow> rstr" where
  "show_count n = show_int (int n)"

definition format_accepted_report :: "rstr \<Rightarrow> rstr option \<Rightarrow> nat \<Rightarrow> rstr option" where
  "format_accepted_report method conversation refusals =
     (if refusals = 0 then None
      else Some (''the worker accepted '' @ what_method method conversation @ '' again after '' @ show_count refusals @ '' refusal'' @
                 (if refusals = 1 then [] else ''s'') @ ''; that refusal has ended''))"

definition format_refusal_report :: "RefusalLine \<Rightarrow> rstr \<Rightarrow> rstr option \<Rightarrow> rstr \<Rightarrow> nat \<Rightarrow> rstr option" where
  "format_refusal_report line method conversation error retry_in =
     (let what = what_method method conversation; ms = show_count (retry_in div 1000000) in
      case line of
        LineSilent \<Rightarrow> None
      | LineCredentialError \<Rightarrow>
          Some (''operator action needed: the channel'' @ [CHR 0x27] @ ''s upstream refused its credential (invalid, expired, revoked, or missing a grant); nothing arrives until it is renewed. The worker is restarted at each retry, so it reads a renewed credential by the next one. '' @
                what @ '' was refused: '' @ error @ ''; retrying in '' @ ms @ '' ms. Repeated every 15 min while it lasts'')
      | LineWarn \<Rightarrow>
          Some (''the worker refused '' @ what @ '' (it is alive and was kept): '' @ error @ ''; retrying in '' @ ms @
                '' ms with backoff. Repeated every 15 min while it lasts''))"

datatype RefusalSeverity = SevWarn | SevError | SevRecovered

definition refusal_report :: "rstr \<Rightarrow> rstr option \<Rightarrow> CallError \<Rightarrow> RefusedCall \<Rightarrow> (rstr \<times> RefusalSeverity) option" where
  "refusal_report method conversation e r =
     (let line = refusal_line e r in
      map_option (\<lambda>report. (report, if line = LineCredentialError then SevError else SevWarn))
        (format_refusal_report line method conversation (call_error_text e) (rc_delay r)))"

section \<open>Outages\<close>

record OutageLog =
  ol_down :: bool
  ol_ended :: nat

definition on_down :: "OutageLog \<Rightarrow> OutageLog \<times> bool" where
  "on_down o' = (o'\<lparr>ol_down := True\<rparr>, \<not> ol_down o')"

definition on_answer :: "OutageLog \<Rightarrow> OutageLog \<times> bool" where
  "on_answer o' = (o'\<lparr>ol_down := False, ol_ended := ol_ended o' + (if ol_down o' then 1 else 0)\<rparr>, ol_down o')"

section \<open>The driver's state and effects\<close>

record ReplyGiveUp =
  gu_after :: nat
  gu_min_refusals :: nat

definition REPLY_GIVE_UP :: ReplyGiveUp where
  "REPLY_GIVE_UP = \<lparr>gu_after = secs (60 * 60), gu_min_refusals = 3\<rparr>"

definition MAX_QUEUED_PER_CONVERSATION :: nat where "MAX_QUEUED_PER_CONVERSATION = 256"

definition check_reply_give_up :: "ReplyGiveUp \<Rightarrow> bool" where
  "check_reply_give_up g \<longleftrightarrow> gu_min_refusals g \<ge> 2"

record ConversationQueue =
  cq_conversation :: rstr
  cq_replies :: "OutgoingMessage list"
  cq_run :: RefusalRun
  cq_front_refusals :: nat

record ReplyQueues =
  rq_queues :: "ConversationQueue list"
  rq_hold :: RefusalRun
  rq_cap :: nat

text \<open>What the driver does outside: a call of the worker with its answer, a reply taken from the
  outbound channel, a line of a report, a row of an audit hook. A reply that is dropped has a \<open>LostReply\<close> event whether or not the channel has a hook for it; the flag says if it has. A call
  that acknowledges an id also has an \<open>AckCall\<close> event, which says how the call failed, if it did.\<close>

datatype DropStage = StagePolled | StageBuffered | StageWorker

datatype UndecodablePart = PartBatch | PartEvents nat | PartDrain

datatype DriverEvent =
    WorkerCall rstr json "CallError + json"
  | ReplyTaken OutgoingMessage
  | AcceptedReply OutgoingMessage
  | LostReply OutgoingMessage UndeliveredReason bool
  | HandedOver IncomingMessage
  | AckCall rstr "CallFailure option"
  | SkippedRow rstr rstr
  | DroppedRow DropStage nat
  | UndecodableRow UndecodablePart
  | ReportLine RefusalSeverity rstr

record PolledSpec =
  ps_label :: rstr
  ps_init_method :: rstr
  ps_poll_method :: rstr
  ps_send_method :: rstr
  ps_ack_method :: "rstr option"
  ps_poll_timeout_ms :: nat
  ps_refusal_backoff :: RestartBackoff
  ps_reply_give_up :: ReplyGiveUp

text \<open>The answers from outside by the number of the question (the worker, the clock, the messages waiting in the outbound
  channel and whether its sender is gone, whether the bus has closed the inbound channel, whether it takes a message),
  the channel's codecs, and the hooks it has. A decode error has a text and a root cause.\<close>

record DriverEnv =
  de_call :: "nat \<Rightarrow> rstr \<Rightarrow> json \<Rightarrow> CallError + json"
  de_now :: "nat \<Rightarrow> nat"
  de_arrivals :: "nat \<Rightarrow> OutgoingMessage list"
  de_hung_up :: "nat \<Rightarrow> bool"
  de_closed :: "nat \<Rightarrow> bool"
  de_takes :: "nat \<Rightarrow> bool"
  de_encode_send :: "OutgoingMessage \<Rightarrow> json"
  de_parse_poll :: "json \<Rightarrow> (rstr \<times> rstr) + PolledEvent list \<times> (nat \<times> rstr) option"
  de_parse_ack_only :: "json \<Rightarrow> (rstr \<times> rstr) list"
  de_encode_ack :: "(rstr \<Rightarrow> json) option"
  de_drain :: "(rstr \<times> (json \<Rightarrow> rstr + nat \<times> bool)) option"
  de_error_code :: "rstr \<Rightarrow> int"
  de_reply_hook :: bool
  de_skip_hook :: bool
  de_drop_hook :: bool
  de_undecodable_hook :: bool

record Flushing =
  fl_hold :: RefusalRun
  fl_outage :: OutageLog
  fl_n :: nat
  fl_log :: "DriverEvent list"

definition fl_emit :: "DriverEvent list \<Rightarrow> Flushing \<Rightarrow> Flushing" where
  "fl_emit es f = f\<lparr>fl_log := fl_log f @ es\<rparr>"

definition fl_next :: "Flushing \<Rightarrow> Flushing" where
  "fl_next f = f\<lparr>fl_n := fl_n f + 1\<rparr>"

definition report_lines :: "(rstr \<times> RefusalSeverity) option \<Rightarrow> DriverEvent list" where
  "report_lines r = (case r of Some (text, sev) \<Rightarrow> [ReportLine sev text] | None \<Rightarrow> [])"

text \<open>\<^verbatim>\<open>accepted\<close> and \<^verbatim>\<open>refused\<close> on a run, which they give back.\<close>

definition accepted :: "RefusalRun \<Rightarrow> rstr \<Rightarrow> rstr option \<Rightarrow> Flushing \<Rightarrow> RefusalRun \<times> Flushing" where
  "accepted run method conversation f =
     (RefusalRun_default,
      fl_emit (report_lines (map_option (\<lambda>t. (t, SevRecovered)) (format_accepted_report method conversation (rr_consecutive run))))
        (f\<lparr>fl_outage := fst (on_answer (fl_outage f))\<rparr>))"

definition refused :: "DriverEnv \<Rightarrow> RefusalRun \<Rightarrow> PolledSpec \<Rightarrow> rstr \<Rightarrow> rstr option \<Rightarrow> CallError \<Rightarrow> Flushing \<Rightarrow> RefusalRun \<times> Flushing" where
  "refused env run spec method conversation e f =
     (let run' = (if snd (on_answer (fl_outage f)) then rearm_report run else run);
          f' = f\<lparr>fl_outage := fst (on_answer (fl_outage f))\<rparr> in
      case on_refusal run' (de_now env (fl_n f)) (ps_refusal_backoff spec) (refusal_code e) of
        (run'', r) \<Rightarrow> (run'', fl_emit (report_lines (refusal_report method conversation e r)) (fl_next f')))"

section \<open>The queues\<close>

definition ReplyQueues_new :: "nat \<Rightarrow> ReplyQueues" where
  "ReplyQueues_new cap = \<lparr>rq_queues = [], rq_hold = RefusalRun_default, rq_cap = cap\<rparr>"

definition ConversationQueue_new :: "OutgoingMessage \<Rightarrow> ConversationQueue" where
  "ConversationQueue_new out =
     \<lparr>cq_conversation = om_conversation out, cq_replies = [out], cq_run = RefusalRun_default, cq_front_refusals = 0\<rparr>"

text \<open>\<^verbatim>\<open>find\<close> on the queues and the change of the one it finds.\<close>

fun update_queue :: "rstr \<Rightarrow> (ConversationQueue \<Rightarrow> ConversationQueue) \<Rightarrow> ConversationQueue list \<Rightarrow> ConversationQueue list" where
  "update_queue c g [] = []"
| "update_queue c g (q # qs) = (if cq_conversation q = c then g q # qs else q # update_queue c g qs)"

definition rq_push :: "ReplyQueues \<Rightarrow> OutgoingMessage \<Rightarrow> OutgoingMessage + ReplyQueues" where
  "rq_push queues out =
     (case find (\<lambda>q. cq_conversation q = om_conversation out) (rq_queues queues) of
        Some q \<Rightarrow>
          if length (cq_replies q) \<ge> rq_cap queues then Err out
          else Ok (queues\<lparr>rq_queues := update_queue (om_conversation out) (\<lambda>q. q\<lparr>cq_replies := cq_replies q @ [out]\<rparr>) (rq_queues queues)\<rparr>)
      | None \<Rightarrow> Ok (queues\<lparr>rq_queues := rq_queues queues @ [ConversationQueue_new out]\<rparr>))"

definition restart_give_up_clocks :: "ReplyQueues \<Rightarrow> ReplyQueues" where
  "restart_give_up_clocks queues =
     queues\<lparr>rq_queues := map (\<lambda>q. q\<lparr>cq_run := restart_clock (cq_run q)\<rparr>) (rq_queues queues)\<rparr>"

definition rq_prune :: "ReplyQueues \<Rightarrow> ReplyQueues" where
  "rq_prune queues = queues\<lparr>rq_queues := filter (\<lambda>q. cq_replies q \<noteq> []) (rq_queues queues)\<rparr>"

definition rq_drain :: "ReplyQueues \<Rightarrow> ReplyQueues \<times> (rstr \<times> OutgoingMessage list) list" where
  "rq_drain queues = (queues\<lparr>rq_queues := []\<rparr>, map (\<lambda>q. (cq_conversation q, cq_replies q)) (rq_queues queues))"

definition audit_clause :: "bool \<Rightarrow> rstr" where
  "audit_clause sink =
     (if sink then ''recording it as channel.reply_undelivered''
      else ''NOT recorded as channel.reply_undelivered: this channel has no audit sink'')"

definition format_gave_up_report :: "rstr \<Rightarrow> rstr \<Rightarrow> nat \<Rightarrow> nat \<Rightarrow> rstr \<Rightarrow> bool \<Rightarrow> rstr" where
  "format_gave_up_report method conversation refusals refusing_for error sink =
     ''gave up on a reply to conversation '' @ conversation @ '' after '' @ show_count refusals @ '' refusals of '' @ method @
     '' (the conversation has been refusing for '' @ show_count (refusing_for div 1000000000) @ '' s); '' @ audit_clause sink @
     ''. Last refusal: '' @ error"

definition format_overflow_report :: "rstr \<Rightarrow> nat \<Rightarrow> bool \<Rightarrow> rstr" where
  "format_overflow_report conversation cap sink =
     ''dropped a new reply to conversation '' @ conversation @ '': '' @ show_count cap @
     '' replies are already queued behind a refused one; '' @ audit_clause sink"

definition format_exit_report :: "rstr \<Rightarrow> nat \<Rightarrow> bool \<Rightarrow> rstr" where
  "format_exit_report conversation n sink =
     ''discarded '' @ show_count n @ '' queued repl'' @ (if n = 1 then ''y'' else ''ies'') @ '' to conversation '' @ conversation @
     '': the driver is exiting (the channel was restarted or shut down); '' @
     (if sink then ''recording each as channel.reply_undelivered''
      else ''NOT recorded as channel.reply_undelivered: this channel has no audit sink'')"

definition enqueue_reply :: "DriverEnv \<Rightarrow> ReplyQueues \<Rightarrow> OutgoingMessage \<Rightarrow> ReplyQueues \<times> DriverEvent list" where
  "enqueue_reply env queues out =
     (case rq_push queues out of
        Ok queues' \<Rightarrow> (queues', [])
      | Err dropped \<Rightarrow>
          (queues, [ReportLine SevWarn (format_overflow_report (om_conversation dropped) (rq_cap queues) (de_reply_hook env)),
                    LostReply dropped QueueFull (de_reply_hook env)]))"

fun add_late :: "(rstr \<times> OutgoingMessage list) list \<Rightarrow> OutgoingMessage \<Rightarrow> (rstr \<times> OutgoingMessage list) list" where
  "add_late [] out = [(om_conversation out, [out])]"
| "add_late ((c, replies) # groups) out =
     (if c = om_conversation out then (c, replies @ [out]) # groups else (c, replies) # add_late groups out)"

definition discard_on_exit :: "DriverEnv \<Rightarrow> ReplyQueues \<Rightarrow> OutgoingMessage list \<Rightarrow> ReplyQueues \<times> DriverEvent list" where
  "discard_on_exit env queues late =
     (case rq_drain queues of
        (queues', groups) \<Rightarrow>
          (queues', concat (map (\<lambda>(conversation, replies).
             ReportLine SevWarn (format_exit_report conversation (length replies) (de_reply_hook env)) #
             map (\<lambda>out. LostReply out DriverExit (de_reply_hook env)) replies) (foldl add_late groups late))))"

section \<open>The flush\<close>

definition give_up_due :: "nat \<Rightarrow> nat \<Rightarrow> nat \<Rightarrow> ReplyGiveUp \<Rightarrow> bool" where
  "give_up_due refusals refusing_since now g \<longleftrightarrow> refusals \<ge> gu_min_refusals g \<and> now - refusing_since \<ge> gu_after g"

datatype OnRefused = RetryRefused RefusedCall | GaveUpOn OutgoingMessage nat nat

definition on_front_refused ::
    "ConversationQueue \<Rightarrow> nat \<Rightarrow> ReplyGiveUp \<Rightarrow> RestartBackoff \<Rightarrow> int \<Rightarrow> ConversationQueue \<times> OnRefused" where
  "on_front_refused q now give_up backoff cd =
     (case on_refusal (cq_run q) now backoff cd of
        (run, r) \<Rightarrow>
          let refusals = cap_u32 (cq_front_refusals q + 1);
              since = (case rr_since run of Some t \<Rightarrow> t | None \<Rightarrow> now);
              q' = q\<lparr>cq_run := run, cq_front_refusals := refusals\<rparr> in
          if \<not> give_up_due refusals since now give_up then (q', RetryRefused r)
          else case cq_replies q of
                 [] \<Rightarrow> (q', RetryRefused r)
               | reply # rest \<Rightarrow> (q'\<lparr>cq_replies := rest, cq_front_refusals := 0\<rparr>, GaveUpOn reply refusals (now - since)))"

definition on_reply_refused ::
    "DriverEnv \<Rightarrow> ConversationQueue \<Rightarrow> PolledSpec \<Rightarrow> CallError \<Rightarrow> Flushing \<Rightarrow> ConversationQueue \<times> Flushing" where
  "on_reply_refused env q spec e f =
     (let q' = (if snd (on_answer (fl_outage f)) then q\<lparr>cq_run := rearm_report (cq_run q)\<rparr> else q);
          f' = f\<lparr>fl_outage := fst (on_answer (fl_outage f))\<rparr> in
      case on_front_refused q' (de_now env (fl_n f)) (ps_reply_give_up spec) (ps_refusal_backoff spec) (refusal_code e) of
        (q'', RetryRefused r) \<Rightarrow>
          (q'', fl_emit (report_lines (refusal_report (ps_send_method spec) (Some (cq_conversation q)) e r)) (fl_next f'))
      | (q'', GaveUpOn reply refusals refusing_for) \<Rightarrow>
          (q'', fl_emit [ReportLine SevWarn (format_gave_up_report (ps_send_method spec) (cq_conversation q) refusals refusing_for
                           (call_error_text e) (de_reply_hook env)),
                         LostReply reply GaveUp (de_reply_hook env)] (fl_next f')))"

datatype FlushEnd = FlushNext | FlushChannelWide | FlushDown

text \<open>The inner loop of the flush: the replies of one conversation, front first, while they are accepted.\<close>

function flush_queue ::
    "DriverEnv \<Rightarrow> PolledSpec \<Rightarrow> ConversationQueue \<Rightarrow> Flushing \<Rightarrow> ConversationQueue \<times> Flushing \<times> FlushEnd" where
  "flush_queue env spec q f =
     (case cq_replies q of
        [] \<Rightarrow> (q, f, FlushNext)
      | out # rest \<Rightarrow>
          (let method = ps_send_method spec; params = de_encode_send env out; answer = de_call env (fl_n f) method params;
               f1 = fl_emit [WorkerCall method params answer] (fl_next f) in
           case answer of
             Ok v \<Rightarrow>
               (case accepted (fl_hold f1) method None f1 of
                  (hold, f2) \<Rightarrow>
                    (case accepted (cq_run q) method (Some (cq_conversation q)) (f2\<lparr>fl_hold := hold\<rparr>) of
                       (run, f3) \<Rightarrow>
                         flush_queue env spec (q\<lparr>cq_run := run, cq_replies := rest, cq_front_refusals := 0\<rparr>)
                           (fl_emit [AcceptedReply out] f3)))
           | Err e \<Rightarrow>
               (case classify_call_error e of
                  CallRefused \<Rightarrow> (case on_reply_refused env q spec e f1 of (q', f2) \<Rightarrow> (q', f2, FlushNext))
                | Gone \<Rightarrow> (q, f1\<lparr>fl_outage := fst (on_down (fl_outage f1))\<rparr>, FlushDown)
                | _ \<Rightarrow> (case refused env (fl_hold f1) spec method None e f1 of
                          (hold, f2) \<Rightarrow> (q, f2\<lparr>fl_hold := hold\<rparr>, FlushChannelWide)))))"
  by pat_completeness auto
termination by (relation "measure (\<lambda>(env, spec, q, f). length (cq_replies q))") auto

declare flush_queue.simps [simp del]

fun flush_all ::
    "DriverEnv \<Rightarrow> PolledSpec \<Rightarrow> ConversationQueue list \<Rightarrow> Flushing \<Rightarrow> ConversationQueue list \<times> Flushing \<times> FlushEnd" where
  "flush_all env spec [] f = ([], f, FlushNext)"
| "flush_all env spec (q # qs) f =
     (if \<not> run_ready (cq_run q) (de_now env (fl_n f))
      then (case flush_all env spec qs (fl_next f) of (qs', f', e) \<Rightarrow> (q # qs', f', e))
      else case flush_queue env spec q (fl_next f) of
             (q', f', FlushNext) \<Rightarrow> (case flush_all env spec qs f' of (qs', f'', e) \<Rightarrow> (q' # qs', f'', e))
           | (q', f', e) \<Rightarrow> (q' # qs, f', e))"

text \<open>The flush gives back whether the worker went down.\<close>

definition flush_replies ::
    "DriverEnv \<Rightarrow> PolledSpec \<Rightarrow> ReplyQueues \<Rightarrow> Flushing \<Rightarrow> ReplyQueues \<times> Flushing \<times> bool" where
  "flush_replies env spec queues f0 =
     (let f = (fl_next f0)\<lparr>fl_hold := rq_hold queues\<rparr>;
          (qs, f', e) = (if run_ready (rq_hold queues) (de_now env (fl_n f0)) then flush_all env spec (rq_queues queues) f
                         else (rq_queues queues, f, FlushNext));
          queues' = queues\<lparr>rq_queues := qs, rq_hold := fl_hold f'\<rparr> in
      (rq_prune (if e \<noteq> FlushNext then restart_give_up_clocks queues' else queues'), f', e = FlushDown))"

end
