(* ===== verification/Polled_Driver.thy ===== *)
theory Polled_Driver
  imports Reply_Queues
begin

text \<open>
  The driver of a polled channel (\<^verbatim>\<open>core/src/channel/polled_driver.rs\<close> and its modules \<^verbatim>\<open>ack.rs\<close>, \<^verbatim>\<open>undecodable.rs\<close>,
  \<^verbatim>\<open>inbound_drop.rs\<close>, \<^verbatim>\<open>worker_drain.rs\<close>): each round takes the replies that wait, flushes them, polls the worker, hands
  the events to the bus and acknowledges them, until the bus or the outbound sender is gone.
\<close>

section \<open>Acknowledging\<close>

text \<open>The answer says whether to go on acknowledging; an error is the text of a call the worker did not answer.\<close>

definition ack ::
    "DriverEnv \<Rightarrow> PolledSpec \<Rightarrow> rstr \<Rightarrow> rstr \<Rightarrow> json \<Rightarrow> RefusalRun \<Rightarrow> Flushing \<Rightarrow> RefusalRun \<times> Flushing \<times> (rstr + bool)" where
  "ack env spec method token params run f =
     (let answer = de_call env (fl_n f) method params;
          f1 = fl_emit [WorkerCall method params answer, AckCall token (case answer of Ok v \<Rightarrow> None | Err e \<Rightarrow> Some (classify_call_error e))] (fl_next f) in
      case answer of
        Ok v \<Rightarrow> (case accepted run method None f1 of (run', f2) \<Rightarrow> (run', f2, Ok True))
      | Err e \<Rightarrow>
          if is_refusal e then (case refused env run spec method None e f1 of (run', f2) \<Rightarrow> (run', f2, Ok False))
          else (run, f1, Err (call_error_text e)))"

fun ack_skipped_from ::
    "DriverEnv \<Rightarrow> PolledSpec \<Rightarrow> rstr \<Rightarrow> (rstr \<Rightarrow> json) \<Rightarrow> (rstr \<times> rstr) list \<Rightarrow> RefusalRun \<Rightarrow> Flushing \<Rightarrow> RefusalRun \<times> Flushing" where
  "ack_skipped_from env spec method enc [] run f = (run, f)"
| "ack_skipped_from env spec method enc ((i, reason) # ids) run f =
     (let f1 = (if de_skip_hook env then fl_emit [SkippedRow i reason] f else f) in
      case ack env spec method i (enc i) run f1 of
        (run', f2, Ok False) \<Rightarrow> (run', f2)
      | (run', f2, _) \<Rightarrow> ack_skipped_from env spec method enc ids run' f2)"

definition ack_skipped ::
    "DriverEnv \<Rightarrow> PolledSpec \<Rightarrow> (rstr \<Rightarrow> json) \<Rightarrow> (rstr \<times> rstr) list \<Rightarrow> RefusalRun \<Rightarrow> Flushing \<Rightarrow> RefusalRun \<times> Flushing" where
  "ack_skipped env spec enc ids run f =
     (case ps_ack_method spec of None \<Rightarrow> (run, f) | Some method \<Rightarrow> ack_skipped_from env spec method enc ids run f)"

section \<open>Batches that do not decode\<close>

definition DECODE_ERROR_CAP_CHARS :: nat where "DECODE_ERROR_CAP_CHARS = 256"
definition INBOUND_DROPPED :: rstr where "INBOUND_DROPPED = ''channel.inbound_dropped''"
definition INBOUND_UNDECODABLE :: rstr where "INBOUND_UNDECODABLE = ''channel.inbound_undecodable''"

definition WHY_UNDECODABLE :: rstr where
  "WHY_UNDECODABLE = ''The worker sent output the core cannot read: a worker bug, or a compromised worker.''"

record UndecodableRun =
  ur_run :: RefusalRun
  ur_outages_ended :: nat

definition on_undecodable ::
    "DriverEnv \<Rightarrow> UndecodableRun \<Rightarrow> rstr \<Rightarrow> PolledSpec \<Rightarrow> Flushing \<Rightarrow> UndecodableRun \<times> nat \<times> bool \<times> Flushing" where
  "on_undecodable env u error spec f =
     (let ended = ol_ended (fl_outage f);
          run = (if ur_outages_ended u \<noteq> ended then rearm_report (ur_run u) else ur_run u) in
      case on_refusal run (de_now env (fl_n f)) (ps_refusal_backoff spec) (de_error_code env error) of
        (run', r) \<Rightarrow> (\<lparr>ur_run = run', ur_outages_ended = ended\<rparr>, rc_delay r, rc_report r, fl_next f))"

datatype LostPart = LostBatch | LostEvents nat nat

fun row_part :: "LostPart \<Rightarrow> UndecodablePart" where
  "row_part LostBatch = PartBatch"
| "row_part (LostEvents lost decoded) = PartEvents lost"

datatype Fate = Redelivered nat nat | LostFate LostPart "nat option" bool

definition recorded_as :: "bool \<Rightarrow> rstr" where
  "recorded_as recorded =
     (if recorded then ''recording it as '' @ INBOUND_UNDECODABLE
      else ''NOT recorded as '' @ INBOUND_UNDECODABLE @ '': this channel has no audit sink'')"

definition lost_text :: "rstr \<Rightarrow> LostPart \<Rightarrow> rstr" where
  "lost_text error part =
     (case part of
        LostBatch \<Rightarrow>
          ''a poll result did not decode ('' @ error @ ''), so its batch is lost: this channel does not redeliver, and how many messages it held is unknown.''
      | LostEvents lost decoded \<Rightarrow>
          show_count lost @ '' of the '' @ show_count (lost + decoded) @ '' events in a poll result did not decode (first: '' @ error @ ''), so '' @
          (if lost = 1 then ''it is'' else ''they are'') @ '' lost: this channel does not redeliver.'' @
          (if decoded = 0 then [] else if decoded = 1 then '' The other one decoded.''
           else '' The other '' @ show_count decoded @ '' decoded.''))"

definition format_undecodable_report :: "rstr \<Rightarrow> Fate \<Rightarrow> rstr" where
  "format_undecodable_report error0 fate =
     (let error = cap_chars error0 DECODE_ERROR_CAP_CHARS in
      case fate of
        Redelivered retry_in in_a_row \<Rightarrow>
          ''a poll result did not decode ('' @ error @ ''), so its batch was not acked, so the worker redelivers it, and nothing after it arrives until it decodes. '' @
          WHY_UNDECODABLE @ '' Polling again in '' @ show_count (retry_in div 1000000) @ '' ms with backoff ('' @ show_count in_a_row @
          '' in a row so far). Repeated every '' @ show_count (REFUSAL_REPEAT div 1000000000 div 60) @ '' min while it lasts''
      | LostFate part retry_in recorded \<Rightarrow>
          lost_text error part @ '' '' @ WHY_UNDECODABLE @
          (case retry_in of Some d \<Rightarrow> '' Polling again in '' @ show_count (d div 1000000) @ '' ms;'' | None \<Rightarrow> []) @ '' '' @ recorded_as recorded)"

definition report_lost_undecodable :: "DriverEnv \<Rightarrow> rstr \<Rightarrow> LostPart \<Rightarrow> nat option \<Rightarrow> Flushing \<Rightarrow> Flushing" where
  "report_lost_undecodable env error part retry_in f =
     fl_emit (ReportLine SevError (format_undecodable_report error (LostFate part retry_in (de_undecodable_hook env))) #
              (if de_undecodable_hook env then [UndecodableRow (row_part part)] else [])) f"

definition whole_batch_on_ack_channel ::
    "PolledEvent list \<times> (nat \<times> rstr) option \<Rightarrow> bool \<Rightarrow> (rstr \<times> rstr) + PolledEvent list \<times> (nat \<times> rstr) option" where
  "whole_batch_on_ack_channel batch acks =
     (case batch of
        (evs, Some (lost_n, first_error)) \<Rightarrow>
          if acks then Err (show_count lost_n @ '' of the batch'' @ [CHR 0x27] @ ''s '' @ show_count (lost_n + length evs) @
                            '' events did not decode: '' @ first_error, first_error)
          else Ok batch
      | _ \<Rightarrow> Ok batch)"

definition on_undecodable_batch ::
    "DriverEnv \<Rightarrow> PolledSpec \<Rightarrow> rstr \<times> rstr \<Rightarrow> UndecodableRun \<Rightarrow> Flushing \<Rightarrow> UndecodableRun \<times> Flushing" where
  "on_undecodable_batch env spec e u f =
     (case e of (error, root) \<Rightarrow>
        case on_undecodable env u root spec f of
          (u', delay, report, f') \<Rightarrow>
            if ps_ack_method spec = None then (u', report_lost_undecodable env error LostBatch (Some delay) f')
            else if report then
              (u', fl_emit [ReportLine SevError
                 (format_undecodable_report error (Redelivered delay (rr_consecutive (ur_run u'))))] f')
            else (u', f'))"

definition format_decodes_again_report :: "nat \<Rightarrow> rstr option" where
  "format_decodes_again_report n =
     (if n > 0 then Some (''poll results decode whole again after '' @ show_count n @ '' that did not; that run has ended'') else None)"

definition on_decoded_batch ::
    "DriverEnv \<Rightarrow> PolledSpec \<Rightarrow> PolledEvent list \<times> (nat \<times> rstr) option \<Rightarrow> UndecodableRun \<Rightarrow> Flushing \<Rightarrow>
       PolledEvent list \<times> UndecodableRun \<times> Flushing" where
  "on_decoded_batch env spec batch u f =
     (case batch of
        (evs, Some (lost_n, first_error)) \<Rightarrow>
          (case on_undecodable env u first_error spec f of
             (u', delay, report, f') \<Rightarrow>
               (evs, u', report_lost_undecodable env first_error (LostEvents lost_n (length evs)) (Some delay) f'))
      | (evs, None) \<Rightarrow>
          (evs, u\<lparr>ur_run := RefusalRun_default\<rparr>,
           fl_emit (report_lines (map_option (\<lambda>t. (t, SevRecovered)) (format_decodes_again_report (rr_consecutive (ur_run u))))) f))"

section \<open>Messages dropped on the way in\<close>

definition recorded_drop :: "bool \<Rightarrow> rstr" where
  "recorded_drop sink =
     (if sink then ''recording it as '' @ INBOUND_DROPPED
      else ''NOT recorded as '' @ INBOUND_DROPPED @ '': this channel has no audit sink'')"

definition format_inbound_drop_report :: "nat \<Rightarrow> bool \<Rightarrow> rstr" where
  "format_inbound_drop_report n sink =
     ''dropped '' @ show_count n @ '' inbound message'' @ (if n = 1 then [] else ''s'') @
     '': the bus closed (the channel was restarted or shut down) after the worker had passed '' @
     (if n = 1 then ''it'' else ''them'') @ '', and this channel does not redeliver; '' @ recorded_drop sink"

definition format_worker_drop_report :: "nat \<Rightarrow> bool \<Rightarrow> rstr" where
  "format_worker_drop_report n sink =
     ''dropped '' @ show_count n @ '' inbound message'' @ (if n = 1 then [] else ''s'') @
     '': the channel stopped while the worker still held '' @ (if n = 1 then ''it'' else ''them'') @
     '', received but not yet polled, and this channel does not redeliver; '' @ recorded_drop sink"

definition format_unread_drop_report :: "nat \<Rightarrow> bool \<Rightarrow> bool \<Rightarrow> rstr" where
  "format_unread_drop_report n acks sink =
     (let one = (n = 1); them = (if one then ''it'' else ''them'');
          why = (if acks then
                   ''this channel acked '' @ them @ '' when '' @ (if one then ''it was'' else ''they were'') @ '' handed to the bus, so '' @
                   (if one then ''it is'' else ''they are'') @
                   '' not redelivered (any held back by a refused ack earlier in its batch, or whose own ack failed, may be redelivered, and is counted here anyway)''
                 else ''this channel does not redeliver'') in
      ''dropped '' @ show_count n @ '' inbound message'' @ (if one then [] else ''s'') @
      '': the bus stopped (the channel was restarted or shut down) before reading '' @ them @ '' from its inbound buffer, and '' @ why @ ''; '' @
      recorded_drop sink)"

definition report_inbound_dropped :: "bool \<Rightarrow> DropStage \<Rightarrow> nat \<Rightarrow> bool \<Rightarrow> DriverEvent list" where
  "report_inbound_dropped hook stage n acks =
     (if n = 0 then []
      else ReportLine SevWarn
             (case stage of
                StagePolled \<Rightarrow> format_inbound_drop_report n hook
              | StageBuffered \<Rightarrow> format_unread_drop_report n acks hook
              | StageWorker \<Rightarrow> format_worker_drop_report n hook) #
           (if hook then [DroppedRow stage n] else []))"

definition on_bus_closed_during_poll :: "DriverEnv \<Rightarrow> PolledSpec \<Rightarrow> json \<Rightarrow> Flushing \<Rightarrow> Flushing" where
  "on_bus_closed_during_poll env spec v f =
     (if ps_ack_method spec \<noteq> None then f
      else case de_parse_poll env v of
             Ok (evs, undecodable) \<Rightarrow>
               (let f1 = fl_emit (report_inbound_dropped (de_drop_hook env) StagePolled (length evs) False) f in
                case undecodable of
                  Some (lost_n, first_error) \<Rightarrow> report_lost_undecodable env first_error (LostEvents lost_n (length evs)) None f1
                | None \<Rightarrow> f1)
           | Err (error, root) \<Rightarrow> report_lost_undecodable env error LostBatch None f)"

definition on_bus_closed_mid_batch :: "DriverEnv \<Rightarrow> PolledSpec \<Rightarrow> nat \<Rightarrow> Flushing \<Rightarrow> Flushing" where
  "on_bus_closed_mid_batch env spec unsent f =
     (if ps_ack_method spec \<noteq> None then f
      else fl_emit (report_inbound_dropped (de_drop_hook env) StagePolled unsent False) f)"

definition format_interrupted_report :: rstr where
  "format_interrupted_report =
     ''the worker'' @ [CHR 0x27] @ ''s stop may have cut short a batch it was taking in from its upstream, or could not be confirmed: an unknown number of inbound messages, possibly none, are lost and not counted; NOT recorded as '' @
     INBOUND_DROPPED @ '': there is no lost_n to record''"

definition format_drain_skipped_down_report :: "rstr \<Rightarrow> rstr" where
  "format_drain_skipped_down_report method =
     ''did not ask the worker how many inbound messages it still held ('' @ method @ ''): it was down at the driver'' @ [CHR 0x27] @
     ''s last call, so any it held died with it, and a respawned one is not asked; any it held, received but not yet polled, are lost uncounted; NOT recorded as '' @
     INBOUND_DROPPED @ '': there is no lost_n to record''"

definition format_drain_failed_report :: "rstr \<Rightarrow> rstr \<Rightarrow> rstr" where
  "format_drain_failed_report method error =
     ''could not ask the worker how many inbound messages it still held ('' @ method @ '': '' @ error @
     ''); any it held, received but not yet polled, are lost uncounted; NOT recorded as '' @ INBOUND_DROPPED @ '': there is no lost_n to record''"

definition format_drain_undecodable_report :: "rstr \<Rightarrow> rstr \<Rightarrow> bool \<Rightarrow> rstr" where
  "format_drain_undecodable_report method error recorded =
     ''the worker'' @ [CHR 0x27] @ ''s answer to '' @ method @ '' did not decode ('' @ cap_chars error DECODE_ERROR_CAP_CHARS @
     ''), so how many inbound messages it still held is unknown; any it held, received but not yet polled, are lost uncounted. '' @
     WHY_UNDECODABLE @ '' '' @ recorded_as recorded"

definition check_drain :: "PolledSpec \<Rightarrow> DriverEnv \<Rightarrow> bool" where
  "check_drain spec env \<longleftrightarrow> de_drain env = None \<or> ps_ack_method spec = None"

definition check_undecodable_audit :: "PolledSpec \<Rightarrow> DriverEnv \<Rightarrow> bool" where
  "check_undecodable_audit spec env \<longleftrightarrow> \<not> de_undecodable_hook env \<or> ps_ack_method spec = None"

definition drain_worker_on_exit :: "DriverEnv \<Rightarrow> Flushing \<Rightarrow> Flushing" where
  "drain_worker_on_exit env f =
     (case de_drain env of
        None \<Rightarrow> f
      | Some (method, parse) \<Rightarrow>
          if ol_down (fl_outage f) then fl_emit [ReportLine SevWarn (format_drain_skipped_down_report method)] f
          else
            let answer = de_call env (fl_n f) method (JObj []);
                f1 = fl_emit [WorkerCall method (JObj []) answer] (fl_next f) in
            case answer of
              Err e \<Rightarrow> fl_emit [ReportLine SevWarn (format_drain_failed_report method (call_error_text e))] f1
            | Ok v \<Rightarrow>
                (case parse v of
                   Err e \<Rightarrow>
                     fl_emit (ReportLine SevError (format_drain_undecodable_report method e (de_undecodable_hook env)) #
                              (if de_undecodable_hook env then [UndecodableRow PartDrain] else [])) f1
                 | Ok (discarded, interrupted) \<Rightarrow>
                     fl_emit (report_inbound_dropped (de_drop_hook env) StageWorker discarded False @
                              (if interrupted then [ReportLine SevWarn format_interrupted_report] else [])) f1))"

section \<open>The loop\<close>

record Driver =
  dr_replies :: ReplyQueues
  dr_poll :: RefusalRun
  dr_ack :: RefusalRun
  dr_undecodable :: UndecodableRun
  dr_f :: Flushing

definition driver_start :: Driver where
  "driver_start =
     \<lparr>dr_replies = ReplyQueues_new MAX_QUEUED_PER_CONVERSATION, dr_poll = RefusalRun_default, dr_ack = RefusalRun_default,
      dr_undecodable = \<lparr>ur_run = RefusalRun_default, ur_outages_ended = 0\<rparr>,
      dr_f = \<lparr>fl_hold = RefusalRun_default, fl_outage = \<lparr>ol_down = False, ol_ended = 0\<rparr>, fl_n = 0, fl_log = []\<rparr>\<rparr>"

fun take_replies :: "DriverEnv \<Rightarrow> OutgoingMessage list \<Rightarrow> ReplyQueues \<times> Flushing \<Rightarrow> ReplyQueues \<times> Flushing" where
  "take_replies env [] qf = qf"
| "take_replies env (out # outs) (queues, f) =
     (case enqueue_reply env queues out of (queues', es) \<Rightarrow> take_replies env outs (queues', fl_emit (ReplyTaken out # es) f))"

text \<open>The events of a batch, in order: each is handed to the bus and then, if its token asks for it and no acknowledgement of
  the batch was refused, acknowledged. The last component is whether the bus still takes messages.\<close>

fun hand_over ::
    "DriverEnv \<Rightarrow> PolledSpec \<Rightarrow> rstr \<Rightarrow> PolledEvent list \<Rightarrow> bool \<Rightarrow> RefusalRun \<Rightarrow> Flushing \<Rightarrow> RefusalRun \<times> Flushing \<times> bool \<times> bool" where
  "hand_over env spec cid [] acking run f = (run, f, acking, True)"
| "hand_over env spec cid (ev # evs) acking run f =
     (if \<not> de_takes env (fl_n f) then (run, on_bus_closed_mid_batch env spec (1 + length evs) (fl_next f), acking, False)
      else
        let f1 = fl_emit [HandedOver (event_message cid ev)] (fl_next f) in
        case (acking, ps_ack_method spec, de_encode_ack env, ev_ack_token ev) of
          (True, Some method, Some enc, Some tok) \<Rightarrow>
            (case ack env spec method tok (enc tok) run f1 of
               (run', f2, Ok keep) \<Rightarrow> hand_over env spec cid evs keep run' f2
             | (run', f2, Err e) \<Rightarrow> hand_over env spec cid evs acking run' f2)
        | _ \<Rightarrow> hand_over env spec cid evs acking run f1)"

definition poll_params :: "PolledSpec \<Rightarrow> json" where
  "poll_params spec = jobj [(''timeout_ms'', JInt (int (ps_poll_timeout_ms spec)))]"

text \<open>What follows a poll the worker answered; \<^const>\<open>False\<close> when the bus closed while the batch was handed over.\<close>

definition on_polled :: "DriverEnv \<Rightarrow> PolledSpec \<Rightarrow> rstr \<Rightarrow> json \<Rightarrow> Driver \<Rightarrow> Driver \<times> bool" where
  "on_polled env spec cid v d =
     (case accepted (dr_poll d) (ps_poll_method spec) None (dr_f d) of
        (poll, f1) \<Rightarrow>
          case and_then (de_parse_poll env v) (\<lambda>b. whole_batch_on_ack_channel b (ps_ack_method spec \<noteq> None)) of
            Err e \<Rightarrow>
              (case on_undecodable_batch env spec e (dr_undecodable d) f1 of
                 (u, f2) \<Rightarrow> (d\<lparr>dr_poll := poll, dr_undecodable := u, dr_f := f2\<rparr>, True))
          | Ok batch \<Rightarrow>
              (case on_decoded_batch env spec batch (dr_undecodable d) f1 of
                 (evs, u, f2) \<Rightarrow>
                   (case hand_over env spec cid evs True (dr_ack d) f2 of
                      (run, f3, acking, going) \<Rightarrow>
                        if \<not> going then (d\<lparr>dr_poll := poll, dr_undecodable := u, dr_ack := run, dr_f := f3\<rparr>, False)
                        else case (acking, de_encode_ack env) of
                               (True, Some enc) \<Rightarrow>
                                 (case ack_skipped env spec enc (de_parse_ack_only env v) run f3 of
                                    (run', f4) \<Rightarrow> (d\<lparr>dr_poll := poll, dr_undecodable := u, dr_ack := run', dr_f := f4\<rparr>, True))
                             | _ \<Rightarrow> (d\<lparr>dr_poll := poll, dr_undecodable := u, dr_ack := run, dr_f := f3\<rparr>, True))))"

text \<open>The end of the driver: what is queued and what still waits is discarded, then the worker is asked what it holds.\<close>

definition exit_driver :: "DriverEnv \<Rightarrow> OutgoingMessage list \<Rightarrow> Driver \<Rightarrow> Driver" where
  "exit_driver env late d =
     (case discard_on_exit env (dr_replies d) late of
        (queues, es) \<Rightarrow> d\<lparr>dr_replies := queues, dr_f := drain_worker_on_exit env (fl_emit (map ReplyTaken late @ es) (dr_f d))\<rparr>)"

definition clocks_restarted :: "Driver \<Rightarrow> Driver" where
  "clocks_restarted d = d\<lparr>dr_replies := restart_give_up_clocks (dr_replies d)\<rparr>"

definition tick_driver :: "Driver \<Rightarrow> Driver" where
  "tick_driver d = d\<lparr>dr_f := fl_next (dr_f d)\<rparr>"

text \<open>The exit takes what is waiting in the outbound channel at that moment.\<close>

definition exit_now :: "DriverEnv \<Rightarrow> Driver \<Rightarrow> Driver" where
  "exit_now env d = exit_driver env (de_arrivals env (fl_n (dr_f d))) (tick_driver d)"

definition when_not_polled :: "DriverEnv \<Rightarrow> Driver \<Rightarrow> Driver \<times> bool" where
  "when_not_polled env d =
     (let d' = tick_driver d in
      if de_closed env (fl_n (dr_f d)) then (exit_now env d', False) else (d', True))"

definition poll_once :: "DriverEnv \<Rightarrow> PolledSpec \<Rightarrow> rstr \<Rightarrow> Driver \<Rightarrow> Driver \<times> bool" where
  "poll_once env spec cid d =
     (let answer = de_call env (fl_n (dr_f d)) (ps_poll_method spec) (poll_params spec);
          f1 = fl_emit [WorkerCall (ps_poll_method spec) (poll_params spec) answer] (fl_next (dr_f d));
          d1 = d\<lparr>dr_f := f1\<rparr> in
      case answer of
        Ok v \<Rightarrow>
          if de_closed env (fl_n f1)
          then (exit_now env (d1\<lparr>dr_f := on_bus_closed_during_poll env spec v (fl_next f1)\<rparr>), False)
          else (case on_polled env spec cid v (tick_driver d1) of
                  (d2, True) \<Rightarrow> (d2, True)
                | (d2, False) \<Rightarrow> (exit_now env d2, False))
      | Err e \<Rightarrow>
          if is_refusal e
          then (case refused env (dr_poll d1) spec (ps_poll_method spec) None e f1 of
                  (run, f2) \<Rightarrow> when_not_polled env (clocks_restarted (d1\<lparr>dr_poll := run, dr_f := f2\<rparr>)))
          else when_not_polled env
                 (clocks_restarted (d1\<lparr>dr_f := f1\<lparr>fl_outage := fst (on_down (fl_outage f1))\<rparr>\<rparr>)))"

text \<open>One round of the loop; \<^const>\<open>False\<close> when the driver has ended.\<close>

definition driver_round :: "DriverEnv \<Rightarrow> PolledSpec \<Rightarrow> rstr \<Rightarrow> Driver \<Rightarrow> Driver \<times> bool" where
  "driver_round env spec cid d =
     (let n = fl_n (dr_f d) in
      case take_replies env (de_arrivals env n) (dr_replies d, fl_next (dr_f d)) of
        (queues, f) \<Rightarrow>
          if de_hung_up env n then (exit_driver env [] (d\<lparr>dr_replies := queues, dr_f := f\<rparr>), False)
          else case flush_replies env spec queues f of
                 (queues', f', down) \<Rightarrow>
                   let d' = d\<lparr>dr_replies := queues', dr_f := fl_next f'\<rparr>; now = de_now env (fl_n f') in
                   if \<not> down \<and> run_ready (dr_poll d') now \<and> run_ready (dr_ack d') now \<and> run_ready (ur_run (dr_undecodable d')) now
                   then poll_once env spec cid d'
                   else when_not_polled env d')"

text \<open>The driver after at most so many rounds: it may poll for ever.\<close>

fun run_driver :: "DriverEnv \<Rightarrow> PolledSpec \<Rightarrow> rstr \<Rightarrow> nat \<Rightarrow> Driver \<Rightarrow> Driver \<times> bool" where
  "run_driver env spec cid 0 d = (d, True)"
| "run_driver env spec cid (Suc k) d =
     (case driver_round env spec cid d of
        (d', False) \<Rightarrow> (d', False)
      | (d', True) \<Rightarrow> run_driver env spec cid k d')"

end
