(* ===== verification/Driver_Facts.thy ===== *)
theory Driver_Facts
  imports Polled_Driver "HOL-Library.Sublist"
begin

text \<open>
  The driver of a polled channel against an abstract queue: replaying its log on one plain queue per conversation never
  gets stuck and ends with what the driver holds. So a reply that was taken is accepted by the worker, dropped with a
  report, or still queued, in order.
\<close>

section \<open>The abstract queue\<close>

fun fifo_step :: "rstr \<Rightarrow> DriverEvent \<Rightarrow> OutgoingMessage list \<Rightarrow> OutgoingMessage list option" where
  "fifo_step c (ReplyTaken m) xs = Some (if om_conversation m = c then xs @ [m] else xs)"
| "fifo_step c (LostReply m QueueFull h) xs =
     (if om_conversation m \<noteq> c then Some xs else if xs \<noteq> [] \<and> last xs = m then Some (butlast xs) else None)"
| "fifo_step c (LostReply m r h) xs =
     (if om_conversation m \<noteq> c then Some xs else if xs \<noteq> [] \<and> hd xs = m then Some (tl xs) else None)"
| "fifo_step c (AcceptedReply m) xs =
     (if om_conversation m \<noteq> c then Some xs else if xs \<noteq> [] \<and> hd xs = m then Some (tl xs) else None)"
| "fifo_step c e xs = Some xs"

fun fifo_run :: "rstr \<Rightarrow> DriverEvent list \<Rightarrow> OutgoingMessage list \<Rightarrow> OutgoingMessage list option" where
  "fifo_run c [] xs = Some xs"
| "fifo_run c (e # es) xs = Option.bind (fifo_step c e xs) (fifo_run c es)"

lemma fifo_run_append: "fifo_run c (es @ fs) xs = Option.bind (fifo_run c es xs) (fifo_run c fs)"
  by (induction es arbitrary: xs) (auto split: Option.bind_splits)

text \<open>Events that do not concern replies.\<close>

fun reply_event :: "DriverEvent \<Rightarrow> bool" where
  "reply_event (ReplyTaken m) = True"
| "reply_event (LostReply m r h) = True"
| "reply_event (AcceptedReply m) = True"
| "reply_event e = False"

lemma fifo_step_other: "\<not> reply_event e \<Longrightarrow> fifo_step c e xs = Some xs"
  by (cases e) auto

lemma fifo_run_other: "list_all (\<lambda>e. \<not> reply_event e) es \<Longrightarrow> fifo_run c es xs = Some xs"
  by (induction es) (simp_all add: fifo_step_other)

section \<open>Steps that only report\<close>

definition only_reports :: "Flushing \<Rightarrow> Flushing \<Rightarrow> bool" where
  "only_reports f f' \<longleftrightarrow> (\<exists>es. fl_log f' = fl_log f @ es \<and> list_all (\<lambda>e. \<not> reply_event e) es)"

lemma only_reports_refl [simp, intro]: "only_reports f f"
  by (auto simp: only_reports_def)

lemma only_reports_trans [trans]: "only_reports f g \<Longrightarrow> only_reports g h \<Longrightarrow> only_reports f h"
  unfolding only_reports_def by force

lemma only_reports_emit: "only_reports f g \<Longrightarrow> list_all (\<lambda>e. \<not> reply_event e) es \<Longrightarrow> only_reports f (fl_emit es g)"
  unfolding only_reports_def fl_emit_def by auto

lemma only_reports_same_log: "fl_log f' = fl_log f \<Longrightarrow> only_reports g f' \<longleftrightarrow> only_reports g f"
  unfolding only_reports_def by simp

lemma only_reports_simps [simp]:
  "only_reports g (fl_next f) \<longleftrightarrow> only_reports g f" "only_reports g (f\<lparr>fl_outage := o'\<rparr>) \<longleftrightarrow> only_reports g f"
  "only_reports g (f\<lparr>fl_hold := h\<rparr>) \<longleftrightarrow> only_reports g f" "only_reports g (f\<lparr>fl_n := n\<rparr>) \<longleftrightarrow> only_reports g f"
  "only_reports (fl_next f) g \<longleftrightarrow> only_reports f g" "only_reports (f\<lparr>fl_hold := h\<rparr>) g \<longleftrightarrow> only_reports f g"
  by (simp_all add: only_reports_def fl_next_def)

lemma report_lines_other [simp]: "list_all (\<lambda>e. \<not> reply_event e) (report_lines r)"
  by (auto simp: report_lines_def split: option.splits)

lemma only_reports_accepted: "accepted run m conv f = (run', f') \<Longrightarrow> only_reports f f'"
  by (auto simp: accepted_def intro!: only_reports_emit)

lemma only_reports_refused: "refused env run spec m conv e f = (run', f') \<Longrightarrow> only_reports f f'"
  by (auto simp: refused_def Let_def split: prod.splits intro!: only_reports_emit)

lemma only_reports_run: "only_reports f f' \<Longrightarrow> \<exists>es. fl_log f' = fl_log f @ es \<and> fifo_run c es xs = Some xs"
  unfolding only_reports_def using fifo_run_other by blast

section \<open>Queues\<close>

definition queue_ok :: "ConversationQueue \<Rightarrow> bool" where
  "queue_ok q \<longleftrightarrow> list_all (\<lambda>m. om_conversation m = cq_conversation q) (cq_replies q)"

definition queues_ok :: "ConversationQueue list \<Rightarrow> bool" where
  "queues_ok qs \<longleftrightarrow> distinct (map cq_conversation qs) \<and> list_all queue_ok qs"

definition queued_in :: "rstr \<Rightarrow> ConversationQueue list \<Rightarrow> OutgoingMessage list" where
  "queued_in c qs = concat (map cq_replies (filter (\<lambda>q. cq_conversation q = c) qs))"

lemma queued_in_Cons: "queued_in c (q # qs) = (if cq_conversation q = c then cq_replies q else []) @ queued_in c qs"
  by (simp add: queued_in_def)

lemma queued_in_absent: "c \<notin> cq_conversation ` set qs \<Longrightarrow> queued_in c qs = []"
  unfolding queued_in_def by (metis (mono_tags, lifting) concat.simps(1) filter_False image_eqI list.simps(8))

text \<open>From one state of the log to another the replay goes from \<open>xs\<close> to \<open>ys\<close>.\<close>

definition replays :: "rstr \<Rightarrow> Flushing \<Rightarrow> OutgoingMessage list \<Rightarrow> Flushing \<Rightarrow> OutgoingMessage list \<Rightarrow> bool" where
  "replays c f xs f' ys \<longleftrightarrow> (\<exists>es. fl_log f' = fl_log f @ es \<and> fifo_run c es xs = Some ys)"

lemma replays_refl [simp, intro]: "replays c f xs f xs"
  by (auto simp: replays_def)

lemma replays_trans [trans]: "replays c f xs g ys \<Longrightarrow> replays c g ys h zs \<Longrightarrow> replays c f xs h zs"
  unfolding replays_def by (auto simp: fifo_run_append)

lemma replays_only_reports: "replays c f xs g ys \<Longrightarrow> only_reports g h \<Longrightarrow> replays c f xs h ys"
  using only_reports_run [of g h c ys] unfolding replays_def by (auto simp: fifo_run_append)

lemma replays_simps [simp]:
  "replays c f xs (fl_next g) ys \<longleftrightarrow> replays c f xs g ys" "replays c f xs (g\<lparr>fl_hold := h\<rparr>) ys \<longleftrightarrow> replays c f xs g ys"
  "replays c f xs (g\<lparr>fl_outage := o'\<rparr>) ys \<longleftrightarrow> replays c f xs g ys"
  "replays c (fl_next f) xs g ys \<longleftrightarrow> replays c f xs g ys" "replays c (f\<lparr>fl_hold := h\<rparr>) xs g ys \<longleftrightarrow> replays c f xs g ys"
  by (simp_all add: replays_def fl_next_def)

lemma replays_emit: "replays c f xs g ys \<Longrightarrow> fifo_run c es ys = Some zs \<Longrightarrow> replays c f xs (fl_emit es g) zs"
  unfolding replays_def fl_emit_def by (auto simp: fifo_run_append)

text \<open>One conversation: its own queue shrinks from the front, another conversation sees nothing.\<close>

definition own :: "rstr \<Rightarrow> ConversationQueue \<Rightarrow> OutgoingMessage list" where
  "own c q = (if cq_conversation q = c then cq_replies q else [])"

lemma on_front_refused_cases:
  assumes "on_front_refused q now g b cd = (q', r)"
  obtains (retry) x where "r = RetryRefused x" "cq_replies q' = cq_replies q" "cq_conversation q' = cq_conversation q"
  | (gave) m n t rest where "r = GaveUpOn m n t" "cq_replies q = m # rest" "cq_replies q' = rest" "cq_conversation q' = cq_conversation q"
  using assms by (auto simp: on_front_refused_def Let_def split: prod.splits if_splits list.splits)

lemma replays_reply_refused:
  assumes "on_reply_refused env q spec e f = (q', f')" and "queue_ok q"
  shows "cq_conversation q' = cq_conversation q \<and> queue_ok q' \<and> length (cq_replies q') \<le> length (cq_replies q) \<and> replays c f (own c q @ ys) f' (own c q' @ ys)"
proof -
  let ?q = "if snd (on_answer (fl_outage f)) then q\<lparr>cq_run := rearm_report (cq_run q)\<rparr> else q"
  have same: "cq_replies ?q = cq_replies q" "cq_conversation ?q = cq_conversation q" by auto
  obtain q1 r where r: "on_front_refused ?q (de_now env (fl_n f)) (ps_reply_give_up spec) (ps_refusal_backoff spec) (refusal_code e) = (q1, r)"
    by (metis surj_pair)
  from r show ?thesis
  proof (cases rule: on_front_refused_cases)
    case (retry x)
    then have "q' = q1" "only_reports f f'" using assms(1) r by (auto simp: on_reply_refused_def Let_def intro!: only_reports_emit)
    then show ?thesis using retry same assms(2) replays_only_reports [OF replays_refl] by (simp add: own_def queue_ok_def)
  next
    case (gave m n t rest)
    then obtain l where q': "q' = q1" and f': "f' = fl_emit [ReportLine SevWarn l, LostReply m GaveUp (de_reply_hook env)] (fl_next (f\<lparr>fl_outage := fst (on_answer (fl_outage f))\<rparr>))"
      using assms(1) r by (auto simp: on_reply_refused_def Let_def)
    have m: "om_conversation m = cq_conversation q" using gave same assms(2) by (simp add: queue_ok_def)
    have "fifo_run c [ReportLine SevWarn l, LostReply m GaveUp (de_reply_hook env)] (own c q @ ys) = Some (own c q1 @ ys)"
      using gave same m by (simp add: own_def)
    then have "replays c f (own c q @ ys) f' (own c q1 @ ys)" unfolding f' by (intro replays_emit) simp_all
    then show ?thesis using q' gave same assms(2) by (simp add: queue_ok_def)
  qed
qed

lemma replays_flush_queue:
  assumes "flush_queue env spec q f = (q', f', e)" and "queue_ok q"
  shows "cq_conversation q' = cq_conversation q \<and> queue_ok q' \<and> length (cq_replies q') \<le> length (cq_replies q) \<and> replays c f (own c q @ ys) f' (own c q' @ ys)"
  using assms
proof (induction "length (cq_replies q)" arbitrary: q f q' f' e rule: less_induct)
  case less
  show ?case
  proof (cases "cq_replies q")
    case Nil
    then show ?thesis using less.prems by (subst (asm) flush_queue.simps) auto
  next
    case (Cons out rest)
    let ?m = "ps_send_method spec" and ?p = "de_encode_send env out"
    let ?a = "de_call env (fl_n f) ?m ?p"
    let ?f1 = "fl_emit [WorkerCall ?m ?p ?a] (fl_next f)"
    have r1: "only_reports f ?f1" by (auto intro!: only_reports_emit)
    show ?thesis
    proof (cases ?a)
      case (Inr v)
      obtain hold f2 where a1: "accepted (fl_hold ?f1) ?m None ?f1 = (hold, f2)" by (metis surj_pair)
      obtain run f3 where a2: "accepted (cq_run q) ?m (Some (cq_conversation q)) (f2\<lparr>fl_hold := hold\<rparr>) = (run, f3)" by (metis surj_pair)
      let ?q = "q\<lparr>cq_run := run, cq_replies := rest, cq_front_refusals := 0\<rparr>"
      have step: "flush_queue env spec q f = flush_queue env spec ?q (fl_emit [AcceptedReply out] f3)"
        using Cons Inr a1 a2 by (subst flush_queue.simps) (simp add: Let_def)
      have "only_reports f f3" using only_reports_trans [OF r1 only_reports_accepted [OF a1]] only_reports_accepted [OF a2] only_reports_trans by simp
      then have "replays c f (own c q @ ys) f3 (own c q @ ys)" using replays_only_reports [OF replays_refl] by blast
      moreover have "fifo_run c [AcceptedReply out] (own c q @ ys) = Some (own c ?q @ ys)"
        using Cons less.prems(2) by (simp add: own_def queue_ok_def)
      ultimately have now: "replays c f (own c q @ ys) (fl_emit [AcceptedReply out] f3) (own c ?q @ ys)" by (rule replays_emit)
      have "queue_ok ?q" using less.prems(2) Cons by (simp add: queue_ok_def)
      with less.hyps [of ?q "fl_emit [AcceptedReply out] f3" q' f' e] less.prems(1) Cons show ?thesis
        unfolding step using replays_trans [OF now] by simp
    next
      case (Inl err)
      note fq = less.prems(1) [unfolded flush_queue.simps [of env spec q f] Let_def, simplified Cons Inl, simplified]
      have r0: "replays c f (own c q @ ys) ?f1 (own c q @ ys)" using replays_only_reports [OF replays_refl r1] .
      show ?thesis
      proof (cases "classify_call_error err")
        case CallRefused
        obtain q1 f2 where o: "on_reply_refused env q spec err ?f1 = (q1, f2)" by (metis surj_pair)
        then have "q' = q1" "f' = f2" using fq CallRefused Inl by simp_all
        then show ?thesis using replays_reply_refused [OF o less.prems(2)] replays_trans [OF r0] by blast
      next
        case Gone
        then have "q' = q" "f' = ?f1\<lparr>fl_outage := fst (on_down (fl_outage ?f1))\<rparr>" using fq Inl by auto
        then show ?thesis using r0 less.prems(2) by simp
      next
        case CredentialRefused
        obtain h f2 where o: "refused env (fl_hold ?f1) spec ?m None err ?f1 = (h, f2)" by (metis surj_pair)
        then have "q' = q" "f' = f2\<lparr>fl_hold := h\<rparr>" using fq CredentialRefused Inl by auto
        then show ?thesis using replays_only_reports [OF r0 only_reports_refused [OF o]] less.prems(2) by simp
      next
        case Unavailable
        obtain h f2 where o: "refused env (fl_hold ?f1) spec ?m None err ?f1 = (h, f2)" by (metis surj_pair)
        then have "q' = q" "f' = f2\<lparr>fl_hold := h\<rparr>" using fq Unavailable Inl by auto
        then show ?thesis using replays_only_reports [OF r0 only_reports_refused [OF o]] less.prems(2) by simp
      qed
    qed
  qed
qed

lemma flush_all_Cons:
  assumes "flush_all env spec (q # qs) f = (qs', f', e)"
  obtains (later) qs1 where "flush_all env spec qs (fl_next f) = (qs1, f', e)" "qs' = q # qs1"
  | (next_one) q1 f1 qs1 where "flush_queue env spec q (fl_next f) = (q1, f1, FlushNext)" "flush_all env spec qs f1 = (qs1, f', e)" "qs' = q1 # qs1"
  | (stop) q1 where "flush_queue env spec q (fl_next f) = (q1, f', e)" "qs' = q1 # qs"
  using assms by (auto split: if_splits prod.splits FlushEnd.splits)

definition bounded :: "nat \<Rightarrow> ConversationQueue list \<Rightarrow> bool" where
  "bounded cap qs \<longleftrightarrow> list_all (\<lambda>q. length (cq_replies q) \<le> cap) qs"

lemma flush_all_keeps:
  assumes "flush_all env spec qs f = (qs', f', e)" and "list_all queue_ok qs"
  shows "map cq_conversation qs' = map cq_conversation qs \<and> list_all queue_ok qs' \<and> (bounded cap qs \<longrightarrow> bounded cap qs')"
  using assms
proof (induction qs arbitrary: f qs' f' e)
  case (Cons q qs)
  have ok: "queue_ok q" "list_all queue_ok qs" using Cons.prems(2) by auto
  from Cons.prems(1) show ?case
  proof (cases rule: flush_all_Cons)
    case (later qs1)
    then show ?thesis using Cons.IH [OF later(1) ok(2)] ok(1) by (auto simp: bounded_def)
  next
    case (next_one q1 f1 qs1)
    then show ?thesis using Cons.IH [OF next_one(2) ok(2)] replays_flush_queue [OF next_one(1) ok(1), of "[]" "[]"] by (auto simp: bounded_def)
  next
    case (stop q1)
    then show ?thesis using ok replays_flush_queue [OF stop(1) ok(1), of "[]" "[]"] by (auto simp: bounded_def)
  qed
qed (simp add: bounded_def)

lemma flush_all_other:
  assumes "flush_all env spec qs f = (qs', f', e)" and "list_all queue_ok qs" and "c \<notin> cq_conversation ` set qs"
  shows "replays c f xs f' xs"
  using assms
proof (induction qs arbitrary: f qs' f' e)
  case (Cons q qs)
  have ok: "queue_ok q" "list_all queue_ok qs" "own c q = []" "c \<notin> cq_conversation ` set qs" using Cons.prems by (auto simp: own_def)
  have o: "replays c f xs g xs" if "flush_queue env spec q (fl_next f) = (q1, g, e')" for q1 g e'
    using replays_flush_queue [OF that ok(1), of c xs] ok(3) Cons.prems(3) by (auto simp: own_def split: if_splits)
  from Cons.prems(1) show ?case
  proof (cases rule: flush_all_Cons)
    case (later qs1)
    then show ?thesis using Cons.IH ok by fastforce
  next
    case (next_one q1 f1 qs1)
    then show ?thesis using Cons.IH [OF next_one(2) ok(2,4)] o replays_trans by blast
  next
    case (stop q1)
    then show ?thesis using o by blast
  qed
qed simp

lemma replays_flush_all:
  assumes "flush_all env spec qs f = (qs', f', e)" and "queues_ok qs"
  shows "replays c f (queued_in c qs) f' (queued_in c qs')"
  using assms
proof (induction qs arbitrary: f qs' f' e)
  case (Cons q qs)
  have ok: "queue_ok q" "list_all queue_ok qs" "queues_ok qs" "cq_conversation q \<notin> cq_conversation ` set qs"
    using Cons.prems(2) by (auto simp: queues_ok_def)
  have whole: "queued_in c (p # ps) = own c p @ queued_in c ps" for p ps by (simp add: queued_in_Cons own_def)
  have rest: "replays c g (own c p @ queued_in c qs) f' (own c p @ queued_in c qs1)"
    if fa: "flush_all env spec qs g = (qs1, f', e)" and p: "cq_conversation p = cq_conversation q" for g p qs1
  proof (cases "cq_conversation q = c")
    case True
    have "c \<notin> cq_conversation ` set qs1" using flush_all_keeps [OF fa ok(2)] True ok(4) by (metis list.set_map)
    then show ?thesis using flush_all_other [OF fa ok(2)] True ok(4) queued_in_absent by simp
  next
    case False
    then show ?thesis using Cons.IH [OF fa ok(3)] p by (simp add: own_def)
  qed
  from Cons.prems(1) show ?case
  proof (cases rule: flush_all_Cons)
    case (later qs1)
    then show ?thesis using rest [OF later(1) refl] whole by simp
  next
    case (next_one q1 f1 qs1)
    note q = replays_flush_queue [OF next_one(1) ok(1), of c "queued_in c qs"]
    then show ?thesis using rest [OF next_one(2), of q1] replays_trans next_one(3) whole by auto
  next
    case (stop q1)
    then show ?thesis using replays_flush_queue [OF stop(1) ok(1), of c "queued_in c qs"] whole by simp
  qed
qed simp

lemma queued_in_map: "(\<And>q. cq_conversation (g q) = cq_conversation q \<and> cq_replies (g q) = cq_replies q) \<Longrightarrow> queued_in c (map g qs) = queued_in c qs"
  by (induction qs) (auto simp: queued_in_Cons)

lemma queued_in_prune: "queued_in c (filter (\<lambda>q. cq_replies q \<noteq> []) qs) = queued_in c qs"
  by (induction qs) (auto simp: queued_in_Cons)

lemma queues_ok_map: "(\<And>q. cq_conversation (g q) = cq_conversation q \<and> cq_replies (g q) = cq_replies q) \<Longrightarrow> queues_ok (map g qs) = queues_ok qs"
  by (auto simp: queues_ok_def queue_ok_def list_all_iff comp_def)

lemma queues_ok_filter: "queues_ok qs \<Longrightarrow> queues_ok (filter P qs)"
  by (auto simp: queues_ok_def list_all_iff distinct_map_filter)

text \<open>The state of the replies: well-formed queues of bounded length.\<close>

definition replies_ok :: "ReplyQueues \<Rightarrow> bool" where
  "replies_ok rq \<longleftrightarrow> queues_ok (rq_queues rq) \<and> bounded (rq_cap rq) (rq_queues rq)"

abbreviation queued_for :: "rstr \<Rightarrow> ReplyQueues \<Rightarrow> OutgoingMessage list" where
  "queued_for c rq \<equiv> queued_in c (rq_queues rq)"

lemma restart_clocks_same [simp]:
  "queued_for c (restart_give_up_clocks rq) = queued_for c rq" "replies_ok (restart_give_up_clocks rq) = replies_ok rq"
  by (simp_all add: restart_give_up_clocks_def replies_ok_def queued_in_map queues_ok_map bounded_def list.pred_map comp_def)

lemma flush_replies_replays:
  assumes "flush_replies env spec rq f = (rq', f', down)" and "replies_ok rq"
  shows "replies_ok rq' \<and> rq_cap rq' = rq_cap rq \<and> replays c f (queued_for c rq) f' (queued_for c rq')"
proof -
  let ?f = "(fl_next f)\<lparr>fl_hold := rq_hold rq\<rparr>"
  obtain qs g e where g: "(if run_ready (rq_hold rq) (de_now env (fl_n f)) then flush_all env spec (rq_queues rq) ?f else (rq_queues rq, ?f, FlushNext)) = (qs, g, e)"
    by (metis surj_pair)
  have r: "queues_ok qs" "bounded (rq_cap rq) qs" "replays c f (queued_for c rq) g (queued_in c qs)"
  proof -
    show "queues_ok qs" "bounded (rq_cap rq) qs"
      using g assms(2) flush_all_keeps [of env spec "rq_queues rq" ?f qs g e "rq_cap rq"] by (auto simp: replies_ok_def queues_ok_def split: if_splits)
    show "replays c f (queued_for c rq) g (queued_in c qs)"
      using g assms(2) replays_flush_all [of env spec "rq_queues rq" ?f qs g e c] by (auto simp: replies_ok_def split: if_splits)
  qed
  let ?rq = "rq\<lparr>rq_queues := qs, rq_hold := fl_hold g\<rparr>"
  let ?rq1 = "if e \<noteq> FlushNext then restart_give_up_clocks ?rq else ?rq"
  have rq': "rq' = rq_prune ?rq1" "f' = g" using assms(1) unfolding flush_replies_def g Let_def by auto
  have ok: "replies_ok ?rq1" "queued_for c ?rq1 = queued_in c qs" "rq_cap ?rq1 = rq_cap rq"
    using r by (auto simp: replies_ok_def) (simp_all add: restart_give_up_clocks_def queues_ok_map bounded_def list.pred_map comp_def)
  then have "replies_ok rq'" unfolding rq' rq_prune_def replies_ok_def by (auto simp: queues_ok_filter bounded_def list_all_iff)
  moreover have "queued_for c rq' = queued_in c qs" unfolding rq' rq_prune_def using ok(2) by (simp add: queued_in_prune)
  moreover have "rq_cap rq' = rq_cap rq" unfolding rq' rq_prune_def using ok(3) by simp
  ultimately show ?thesis using r rq' by simp
qed

section \<open>Taking replies\<close>

lemma update_queue_facts:
  assumes "find (\<lambda>q. cq_conversation q = c) qs = Some q0" and "distinct (map cq_conversation qs)" and "cq_conversation (g q0) = c"
  shows "map cq_conversation (update_queue c g qs) = map cq_conversation qs"
    and "queued_in d (update_queue c g qs) = (if d = c then cq_replies (g q0) else queued_in d qs)"
    and "list_all P qs \<Longrightarrow> P (g q0) \<Longrightarrow> list_all P (update_queue c g qs)"
    and "queued_in c qs = cq_replies q0"
  using assms by (induction qs) (auto simp: queued_in_Cons queued_in_absent split: if_splits)

lemma push_Ok:
  assumes "rq_push rq out = Ok rq'" and "replies_ok rq" and "0 < rq_cap rq"
  shows "replies_ok rq' \<and> rq_cap rq' = rq_cap rq \<and>
    queued_for c rq' = (if om_conversation out = c then queued_for c rq @ [out] else queued_for c rq)"
proof (cases "find (\<lambda>q. cq_conversation q = om_conversation out) (rq_queues rq)")
  case None
  then have "om_conversation out \<notin> cq_conversation ` set (rq_queues rq)" by (auto simp: find_None_iff)
  then show ?thesis
    using assms None queued_in_absent
    by (auto simp: rq_push_def replies_ok_def queues_ok_def queue_ok_def bounded_def ConversationQueue_new_def queued_in_def)
next
  case (Some q)
  let ?g = "\<lambda>q. q\<lparr>cq_replies := cq_replies q @ [out]\<rparr>"
  have q: "q \<in> set (rq_queues rq)" "cq_conversation q = om_conversation out" using Some by (auto simp: find_Some_iff intro: nth_mem)
  have d: "distinct (map cq_conversation (rq_queues rq))" using assms(2) by (simp add: replies_ok_def queues_ok_def)
  have rq': "rq' = rq\<lparr>rq_queues := update_queue (om_conversation out) ?g (rq_queues rq)\<rparr>" "length (cq_replies q) < rq_cap rq"
    using assms(1) Some by (auto simp: rq_push_def split: if_splits)
  note u = update_queue_facts [OF Some d, of ?g]
  have ok: "list_all queue_ok (rq_queues rq)" "bounded (rq_cap rq) (rq_queues rq)" "queue_ok q"
    using assms(2) q(1) by (auto simp: replies_ok_def queues_ok_def list_all_iff)
  have "replies_ok rq'"
    unfolding rq'(1) replies_ok_def queues_ok_def bounded_def
    using u(1,3) q(2) d ok rq'(2) by (simp add: bounded_def queue_ok_def)
  then show ?thesis using u(2,4) q(2) rq'(1) by auto
qed

lemma replays_enqueue:
  assumes "enqueue_reply env rq out = (rq', es)" and "replies_ok rq" and "0 < rq_cap rq"
  shows "replies_ok rq' \<and> rq_cap rq' = rq_cap rq \<and> fifo_run c (ReplyTaken out # es) (queued_for c rq) = Some (queued_for c rq')"
proof (cases "rq_push rq out")
  case (Inl m)
  then have "m = out" by (auto simp: rq_push_def split: option.splits if_splits)
  then show ?thesis using assms Inl by (auto simp: enqueue_reply_def)
next
  case (Inr r)
  then show ?thesis using assms push_Ok [OF Inr assms(2,3)] by (auto simp: enqueue_reply_def)
qed

lemma replays_take:
  assumes "take_replies env outs (rq, f) = (rq', f')" and "replies_ok rq" and "0 < rq_cap rq"
  shows "replies_ok rq' \<and> rq_cap rq' = rq_cap rq \<and> replays c f (queued_for c rq) f' (queued_for c rq')"
  using assms
proof (induction outs arbitrary: rq f)
  case (Cons out outs)
  obtain rq1 es where e: "enqueue_reply env rq out = (rq1, es)" by (metis surj_pair)
  note o = replays_enqueue [OF e Cons.prems(2,3), of c]
  have t: "take_replies env outs (rq1, fl_emit (ReplyTaken out # es) f) = (rq', f')" using Cons.prems(1) e by simp
  have "replays c f (queued_for c rq) (fl_emit (ReplyTaken out # es) f) (queued_for c rq1)"
    using o by (intro replays_emit [OF replays_refl]) simp
  then show ?case using Cons.IH [OF t] o Cons.prems(3) replays_trans by simp
qed simp

section \<open>The end\<close>

fun flat :: "(rstr \<times> OutgoingMessage list) list \<Rightarrow> rstr \<Rightarrow> OutgoingMessage list" where
  "flat gs c = concat (map snd (filter (\<lambda>(d, ms). d = c) gs))"

definition groups_ok :: "(rstr \<times> OutgoingMessage list) list \<Rightarrow> bool" where
  "groups_ok gs \<longleftrightarrow> distinct (map fst gs) \<and> list_all (\<lambda>(c, ms). list_all (\<lambda>m. om_conversation m = c) ms) gs"

lemma add_late_keys: "set (map fst (add_late gs out)) = insert (om_conversation out) (set (map fst gs))"
  by (induction gs out rule: add_late.induct) auto

lemma add_late_ok: "groups_ok gs \<Longrightarrow> groups_ok (add_late gs out)"
proof (induction gs out rule: add_late.induct)
  case (2 c ms gs out)
  then show ?case using add_late_keys [of gs out] by (auto simp: groups_ok_def)
qed (simp add: groups_ok_def)

lemma flat_absent: "c \<notin> set (map fst gs) \<Longrightarrow> flat gs c = []"
  by (induction gs) auto

lemma flat_add_late: "distinct (map fst gs) \<Longrightarrow> flat (add_late gs out) c = flat gs c @ (if om_conversation out = c then [out] else [])"
proof (induction gs out rule: add_late.induct)
  case (2 d ms gs out)
  have "flat ((d, ms') # gs') c = (if d = c then ms' else []) @ flat gs' c" for ms' gs' by simp
  then show ?case using 2 flat_absent [of d gs] by (auto simp del: flat.simps)
qed auto

lemma foldl_late:
  "groups_ok gs \<Longrightarrow> groups_ok (foldl add_late gs late) \<and>
     flat (foldl add_late gs late) c = flat gs c @ filter (\<lambda>m. om_conversation m = c) late"
proof (induction late arbitrary: gs)
  case (Cons out late)
  then show ?case using Cons.IH [OF add_late_ok [OF Cons.prems]] flat_add_late [of gs out c]
    by (simp add: groups_ok_def del: flat.simps)
qed simp

lemma fifo_taken: "fifo_run c (map ReplyTaken late) xs = Some (xs @ filter (\<lambda>m. om_conversation m = c) late)"
  by (induction late arbitrary: xs) auto

lemma fifo_exit_group:
  "list_all (\<lambda>m. om_conversation m = d) ms \<Longrightarrow>
   fifo_run c (map (\<lambda>m. LostReply m DriverExit h) ms) ((if d = c then ms else []) @ ys) = Some ys"
  by (induction ms) auto

lemma fifo_exit_groups:
  "groups_ok gs \<Longrightarrow>
   fifo_run c (concat (map (\<lambda>(d, ms). ReportLine SevWarn (r d ms) # map (\<lambda>m. LostReply m DriverExit h) ms) gs)) (flat gs c) = Some []"
proof (induction gs)
  case (Cons g gs)
  obtain d ms where g: "g = (d, ms)" by (cases g)
  have "flat (g # gs) c = (if d = c then ms else []) @ flat gs c" using g by simp
  then show ?case
    using Cons g fifo_exit_group [of d ms c h "flat gs c"] by (simp add: groups_ok_def fifo_run_append del: flat.simps)
qed simp

lemma replays_discard:
  assumes "discard_on_exit env rq late = (rq', es)" and "replies_ok rq"
  shows "fifo_run c (map ReplyTaken late @ es) (queued_for c rq) = Some [] \<and> rq_queues rq' = []"
proof -
  let ?gs = "map (\<lambda>q. (cq_conversation q, cq_replies q)) (rq_queues rq)"
  have g: "groups_ok ?gs" using assms(2) by (auto simp: replies_ok_def queues_ok_def queue_ok_def groups_ok_def list_all_iff comp_def)
  have f: "flat ?gs c = queued_for c rq" by (induction "rq_queues rq") (auto simp: queued_in_def filter_map comp_def)
  note l = foldl_late [OF g, of late c]
  have "fifo_run c es (flat (foldl add_late ?gs late) c) = Some []"
    using assms(1) fifo_exit_groups [OF conjunct1 [OF l], of c "\<lambda>d ms. format_exit_report d (length ms) (de_reply_hook env)" "de_reply_hook env"]
    by (auto simp: discard_on_exit_def rq_drain_def simp del: flat.simps)
  then show ?thesis using assms(1) l f by (auto simp: discard_on_exit_def rq_drain_def fifo_run_append fifo_taken simp del: flat.simps)
qed

section \<open>The inbound side touches no reply\<close>

lemma only_reports_ack: "ack env spec m tok p run f = (run', f', r) \<Longrightarrow> only_reports f f'"
proof -
  assume a: "ack env spec m tok p run f = (run', f', r)"
  let ?es = "[WorkerCall m p (de_call env (fl_n f) m p), AckCall tok (case de_call env (fl_n f) m p of Ok v \<Rightarrow> None | Err e \<Rightarrow> Some (classify_call_error e))]"
  have f1: "only_reports f (fl_emit ?es (fl_next f))" by (rule only_reports_emit) simp_all
  show ?thesis
    using a f1 only_reports_trans [OF f1 only_reports_accepted] only_reports_trans [OF f1 only_reports_refused]
    by (auto simp: ack_def Let_def split: sum.splits prod.splits if_splits)
qed

lemma only_reports_ack_skipped_from: "ack_skipped_from env spec m enc ids run f = (run', f') \<Longrightarrow> only_reports f f'"
proof (induction ids arbitrary: run f)
  case (Cons x ids)
  obtain i reason where x: "x = (i, reason)" by (cases x)
  let ?f = "if de_skip_hook env then fl_emit [SkippedRow i reason] f else f"
  obtain r1 f1 a where k: "ack env spec m i (enc i) run ?f = (r1, f1, a)" by (metis surj_pair)
  have "only_reports f ?f" by (auto intro!: only_reports_emit)
  then have r: "only_reports f f1" using only_reports_ack [OF k] only_reports_trans by blast
  show ?case
  proof (cases "a = Ok False")
    case True
    then show ?thesis using Cons.prems x k r by (simp add: Let_def)
  next
    case False
    then have "ack_skipped_from env spec m enc ids r1 f1 = (run', f')" using Cons.prems x k by (auto simp: Let_def split: sum.splits bool.splits)
    then have "only_reports f1 f'" by (rule Cons.IH)
    then show ?thesis using r only_reports_trans by blast
  qed
qed simp

lemma only_reports_ack_skipped: "ack_skipped env spec enc ids run f = (run', f') \<Longrightarrow> only_reports f f'"
  using only_reports_ack_skipped_from by (auto simp: ack_skipped_def split: option.splits)

lemma only_reports_lost_undecodable: "only_reports f (report_lost_undecodable env e part d f)"
  unfolding report_lost_undecodable_def by (rule only_reports_emit) simp_all

lemma dropped_other [simp]: "list_all (\<lambda>e. \<not> reply_event e) (report_inbound_dropped h st n a)"
  by (simp add: report_inbound_dropped_def)

lemma reports_mid_batch: "only_reports f (on_bus_closed_mid_batch env spec n f)"
  by (auto simp: on_bus_closed_mid_batch_def intro: only_reports_emit)

lemma reports_during_poll: "only_reports f (on_bus_closed_during_poll env spec v f)"
proof -
  have d: "only_reports f (fl_emit (report_inbound_dropped (de_drop_hook env) StagePolled n False) f)" for n by (rule only_reports_emit) simp_all
  show ?thesis
    using d only_reports_trans [OF d only_reports_lost_undecodable] only_reports_lost_undecodable
    by (auto simp: on_bus_closed_during_poll_def Let_def split: sum.splits option.splits)
qed

lemma undecodable_next: "\<exists>u1 d r. on_undecodable env u e spec f = (u1, d, r, fl_next f)"
  by (simp add: on_undecodable_def Let_def split_beta)

lemma reports_undecodable: "on_undecodable_batch env spec e u f = (u', f') \<Longrightarrow> only_reports f f'"
proof -
  assume a: "on_undecodable_batch env spec e u f = (u', f')"
  obtain error root where e: "e = (error, root)" by (cases e)
  obtain u1 d r where o: "on_undecodable env u root spec f = (u1, d, r, fl_next f)"
    using undecodable_next by blast
  have "only_reports f (report_lost_undecodable env error LostBatch (Some d) (fl_next f))"
    using only_reports_lost_undecodable [of "fl_next f"] by simp
  then show ?thesis using a by (auto simp: on_undecodable_batch_def e o split: if_splits intro!: only_reports_emit)
qed

lemma reports_decoded: "on_decoded_batch env spec b u f = (evs, u', f') \<Longrightarrow> only_reports f f'"
proof -
  assume a: "on_decoded_batch env spec b u f = (evs, u', f')"
  obtain es un where b: "b = (es, un)" by (cases b)
  show ?thesis
  proof (cases un)
    case None
    then show ?thesis using a b by (auto simp: on_decoded_batch_def intro!: only_reports_emit)
  next
    case (Some x)
    obtain n err where x: "x = (n, err)" by (cases x)
    obtain u1 d r where o: "on_undecodable env u err spec f = (u1, d, r, fl_next f)"
      using undecodable_next by blast
    have "only_reports f (report_lost_undecodable env err (LostEvents n (length es)) (Some d) (fl_next f))"
      using only_reports_lost_undecodable [of "fl_next f"] by simp
    then show ?thesis using a b Some x o by (auto simp: on_decoded_batch_def)
  qed
qed

text \<open>One event of a batch: the bus takes it, then it is acknowledged, or it is not.\<close>

lemma hand_over_Cons:
  assumes "hand_over env spec cid (ev # evs) acking run f = (run', f', ack', going)"
  obtains (closed) "f' = on_bus_closed_mid_batch env spec (Suc (length evs)) (fl_next f)" "\<not> going" "run' = run" "ack' = acking"
  | (acked) m enc tok run1 f1 r where "acking" "ps_ack_method spec = Some m" "ev_ack_token ev = Some tok"
      "ack env spec m tok (enc tok) run (fl_emit [HandedOver (event_message cid ev)] (fl_next f)) = (run1, f1, r)"
      "hand_over env spec cid evs (case r of Ok keep \<Rightarrow> keep | Err e \<Rightarrow> acking) run1 f1 = (run', f', ack', going)"
  | (silent) "hand_over env spec cid evs acking run (fl_emit [HandedOver (event_message cid ev)] (fl_next f)) = (run', f', ack', going)"
  using assms by (auto simp: Let_def split: if_splits option.splits bool.splits prod.splits sum.splits)

lemma reports_hand_over: "hand_over env spec cid evs acking run f = (run', f', ack', going) \<Longrightarrow> only_reports f f'"
proof (induction evs arbitrary: acking run f)
  case (Cons ev evs)
  have h: "only_reports f (fl_emit [HandedOver (event_message cid ev)] (fl_next f))" by (rule only_reports_emit) simp_all
  from Cons.prems show ?case
  proof (cases rule: hand_over_Cons)
    case closed
    then show ?thesis using reports_mid_batch [of "fl_next f"] by simp
  next
    case (acked m enc tok run1 f1 r)
    show ?thesis using only_reports_trans [OF h only_reports_trans [OF only_reports_ack [OF acked(4)] Cons.IH [OF acked(5)]]] .
  next
    case silent
    show ?thesis using only_reports_trans [OF h Cons.IH [OF silent]] .
  qed
qed simp

lemma reports_drain: "only_reports f (drain_worker_on_exit env f)"
proof (cases "de_drain env")
  case (Some mp)
  obtain m parse where mp: "mp = (m, parse)" by (cases mp)
  have h: "only_reports f (fl_emit [WorkerCall m (JObj []) (de_call env (fl_n f) m (JObj []))] (fl_next f))" by (rule only_reports_emit) simp_all
  show ?thesis
    using Some mp h by (auto simp: drain_worker_on_exit_def Let_def split: sum.splits intro!: only_reports_emit)
qed (simp add: drain_worker_on_exit_def)

section \<open>Rounds\<close>

definition driver_ok :: "Driver \<Rightarrow> bool" where
  "driver_ok d \<longleftrightarrow> replies_ok (dr_replies d) \<and> rq_cap (dr_replies d) = MAX_QUEUED_PER_CONVERSATION"

definition moves :: "rstr \<Rightarrow> Driver \<Rightarrow> Driver \<Rightarrow> bool" where
  "moves c d d' \<longleftrightarrow> (driver_ok d \<longrightarrow> driver_ok d' \<and> replays c (dr_f d) (queued_for c (dr_replies d)) (dr_f d') (queued_for c (dr_replies d')))"

lemma moves_trans [trans]: "moves c d e \<Longrightarrow> moves c e g \<Longrightarrow> moves c d g"
  unfolding moves_def using replays_trans by blast

lemma moves_reports: "dr_replies d' = dr_replies d \<Longrightarrow> only_reports (dr_f d) (dr_f d') \<Longrightarrow> moves c d d'"
  unfolding moves_def driver_ok_def using replays_only_reports [OF replays_refl] by simp

lemma moves_tick: "moves c d (tick_driver d)"
  by (rule moves_reports) (simp_all add: tick_driver_def)

lemma moves_clocks: "moves c d (clocks_restarted d)"
  by (simp add: moves_def driver_ok_def clocks_restarted_def) (simp add: restart_give_up_clocks_def)

lemma moves_on_polled:
  assumes "on_polled env spec cid v d = (d', b)" shows "moves c d d'"
proof -
  obtain poll f1 where a: "accepted (dr_poll d) (ps_poll_method spec) None (dr_f d) = (poll, f1)" by (metis surj_pair)
  note r1 = only_reports_accepted [OF a]
  show ?thesis
  proof (cases "and_then (de_parse_poll env v) (\<lambda>b. whole_batch_on_ack_channel b (ps_ack_method spec \<noteq> None))")
    case (Inl e)
    obtain u f2 where o: "on_undecodable_batch env spec e (dr_undecodable d) f1 = (u, f2)" by (metis surj_pair)
    have "d' = d\<lparr>dr_poll := poll, dr_undecodable := u, dr_f := f2\<rparr>" using assms a Inl o by (simp add: on_polled_def)
    then show ?thesis using only_reports_trans [OF r1 reports_undecodable [OF o]] by (intro moves_reports) simp_all
  next
    case (Inr batch)
    obtain evs u f2 where o: "on_decoded_batch env spec batch (dr_undecodable d) f1 = (evs, u, f2)" by (metis surj_pair)
    obtain run f3 acking going where h: "hand_over env spec cid evs True (dr_ack d) f2 = (run, f3, acking, going)" by (metis surj_pair)
    note r3 = only_reports_trans [OF only_reports_trans [OF r1 reports_decoded [OF o]] reports_hand_over [OF h]]
    have "dr_replies d' = dr_replies d \<and> only_reports (dr_f d) (dr_f d')"
      using assms a Inr o h r3 only_reports_trans [OF r3 only_reports_ack_skipped]
      by (auto simp: on_polled_def split: if_splits bool.splits option.splits prod.splits)
    then show ?thesis by (intro moves_reports) simp_all
  qed
qed

lemma moves_exit:
  "moves c d (exit_driver env late d)" "driver_ok d \<Longrightarrow> queued_for c (dr_replies (exit_driver env late d)) = []"
proof -
  obtain rq es where e: "discard_on_exit env (dr_replies d) late = (rq, es)" by (metis surj_pair)
  have x: "exit_driver env late d = d\<lparr>dr_replies := rq, dr_f := drain_worker_on_exit env (fl_emit (map ReplyTaken late @ es) (dr_f d))\<rparr>"
    using e by (simp add: exit_driver_def)
  have k: "fifo_run c (map ReplyTaken late @ es) (queued_for c (dr_replies d)) = Some [] \<and> rq_queues rq = []" "rq_cap rq = rq_cap (dr_replies d)"
    if "driver_ok d"
    using that replays_discard [OF e] e by (auto simp: driver_ok_def discard_on_exit_def rq_drain_def)
  show "moves c d (exit_driver env late d)"
    unfolding moves_def
  proof
    assume d: "driver_ok d"
    have "replays c (dr_f d) (queued_for c (dr_replies d)) (fl_emit (map ReplyTaken late @ es) (dr_f d)) []"
      using k(1) [OF d] by (intro replays_emit [OF replays_refl]) simp
    then have "replays c (dr_f d) (queued_for c (dr_replies d)) (dr_f (exit_driver env late d)) []"
      unfolding x using replays_only_reports [OF _ reports_drain] by simp
    then show "driver_ok (exit_driver env late d) \<and>
        replays c (dr_f d) (queued_for c (dr_replies d)) (dr_f (exit_driver env late d)) (queued_for c (dr_replies (exit_driver env late d)))"
      using k [OF d] d unfolding x by (simp add: driver_ok_def replies_ok_def queues_ok_def bounded_def queued_in_def)
  qed
  show "driver_ok d \<Longrightarrow> queued_for c (dr_replies (exit_driver env late d)) = []"
    unfolding x using k(1) by (simp add: queued_in_def)
qed

text \<open>A step of the loop: it moves, and when the driver has ended nothing is queued.\<close>

definition steps_to :: "rstr \<Rightarrow> Driver \<Rightarrow> Driver \<times> bool \<Rightarrow> bool" where
  "steps_to c d r \<longleftrightarrow> moves c d (fst r) \<and> (driver_ok d \<and> \<not> snd r \<longrightarrow> queued_for c (dr_replies (fst r)) = [])"

lemma steps_to_after: "moves c d e \<Longrightarrow> steps_to c e r \<Longrightarrow> steps_to c d r"
  unfolding steps_to_def using moves_trans moves_def by blast

lemma steps_to_going: "moves c d e \<Longrightarrow> steps_to c d (e, True)"
  by (simp add: steps_to_def)

lemma steps_to_exit: "steps_to c d (exit_driver env late d, False)"
  using moves_exit by (simp add: steps_to_def)

lemma steps_to_exit_now: "steps_to c d (exit_now env d, False)"
  unfolding exit_now_def using steps_to_after [OF moves_tick steps_to_exit] .

lemma steps_to_not_polled: "steps_to c d (when_not_polled env d)"
  using steps_to_after [OF moves_tick steps_to_exit_now] steps_to_going [OF moves_tick] by (simp add: when_not_polled_def Let_def)

lemma moves_log: "only_reports (dr_f d) f \<Longrightarrow> moves c d (d\<lparr>dr_f := f\<rparr>)"
  by (rule moves_reports) simp_all

lemma steps_to_poll: "steps_to c d (poll_once env spec cid d)"
proof -
  let ?p = "ps_poll_method spec" and ?v = "poll_params spec"
  let ?a = "de_call env (fl_n (dr_f d)) ?p ?v"
  let ?f1 = "fl_emit [WorkerCall ?p ?v ?a] (fl_next (dr_f d))"
  let ?d1 = "d\<lparr>dr_f := ?f1\<rparr>"
  have f1: "only_reports (dr_f d) ?f1" by (rule only_reports_emit) simp_all
  then have m1: "moves c d ?d1" by (rule moves_log)
  show ?thesis
  proof (cases ?a)
    case (Inr v)
    have closed: "steps_to c d (exit_now env (?d1\<lparr>dr_f := on_bus_closed_during_poll env spec v (fl_next ?f1)\<rparr>), False)"
      using steps_to_after [OF moves_trans [OF m1 moves_log] steps_to_exit_now] reports_during_poll [of "fl_next ?f1"] by simp
    obtain d2 b where o: "on_polled env spec cid v (tick_driver ?d1) = (d2, b)" by (metis surj_pair)
    have m2: "moves c d d2" using moves_trans [OF m1 moves_trans [OF moves_tick moves_on_polled [OF o]]] .
    show ?thesis
      using Inr closed o steps_to_going [OF m2] steps_to_after [OF m2 steps_to_exit_now]
      by (auto simp: poll_once_def Let_def split: bool.splits)
  next
    case (Inl e)
    obtain run f2 where r: "refused env (dr_poll ?d1) spec ?p None e ?f1 = (run, f2)" by (metis surj_pair)
    have m2: "moves c d (?d1\<lparr>dr_poll := run, dr_f := f2\<rparr>)"
      using only_reports_trans [OF f1 only_reports_refused [OF r]] by (intro moves_reports) simp_all
    have m3: "moves c d (?d1\<lparr>dr_f := ?f1\<lparr>fl_outage := fst (on_down (fl_outage ?f1))\<rparr>\<rparr>)" using f1 by (intro moves_reports) simp_all
    show ?thesis
      using Inl r steps_to_after [OF moves_trans [OF m2 moves_clocks] steps_to_not_polled]
        steps_to_after [OF moves_trans [OF m3 moves_clocks] steps_to_not_polled]
      by (simp add: poll_once_def Let_def)
  qed
qed

lemma steps_to_round: "steps_to c d (driver_round env spec cid d)"
proof (cases "driver_ok d")
  case False
  then show ?thesis by (simp add: steps_to_def moves_def)
next
  case True
  let ?n = "fl_n (dr_f d)"
  have ok: "replies_ok (dr_replies d)" "0 < rq_cap (dr_replies d)" using True by (simp_all add: driver_ok_def MAX_QUEUED_PER_CONVERSATION_def)
  obtain rq f where t: "take_replies env (de_arrivals env ?n) (dr_replies d, fl_next (dr_f d)) = (rq, f)" by (metis surj_pair)
  have k: "replies_ok rq" "rq_cap rq = rq_cap (dr_replies d)" "replays c (dr_f d) (queued_for c (dr_replies d)) f (queued_for c rq)"
    using replays_take [OF t ok] by auto
  have m1: "moves c d (d\<lparr>dr_replies := rq, dr_f := f\<rparr>)" using True k by (simp add: moves_def driver_ok_def)
  obtain rq' f' down where fl: "flush_replies env spec rq f = (rq', f', down)" by (metis surj_pair)
  note g = flush_replies_replays [OF fl k(1), of c]
  have m2: "moves c d (d\<lparr>dr_replies := rq', dr_f := fl_next f'\<rparr>)"
    using True g k replays_trans [OF k(3)] by (simp add: moves_def driver_ok_def)
  show ?thesis
    using t fl steps_to_after [OF m1 steps_to_exit] steps_to_after [OF m2 steps_to_poll] steps_to_after [OF m2 steps_to_not_polled]
    by (simp add: driver_round_def Let_def)
qed

lemma steps_to_run: "steps_to c d (run_driver env spec cid k d)"
proof (induction k arbitrary: d)
  case 0
  then show ?case by (simp add: steps_to_def moves_def)
next
  case (Suc k)
  obtain d' b where r: "driver_round env spec cid d = (d', b)" by (metis surj_pair)
  have s: "steps_to c d (d', b)" using steps_to_round [of c d env spec cid] r by simp
  then show ?case using r steps_to_after [OF _ Suc.IH] by (cases b) (auto simp: steps_to_def)
qed

end
