(* ===== verification/Driver_Spec.thy ===== *)
theory Driver_Spec
  imports Driver_Facts
begin

text \<open>
  The properties of the driver of a polled channel: replies are conserved and keep their order per conversation, and the
  events of a batch are handed over in order and acknowledged only then.
\<close>

section \<open>Replies\<close>

lemma queued_bounded:
  assumes "replies_ok rq" shows "length (queued_for c rq) \<le> rq_cap rq"
proof -
  have "distinct (map cq_conversation qs) \<Longrightarrow> bounded cap qs \<Longrightarrow> length (queued_in c qs) \<le> cap" for qs cap
    by (induction qs) (auto simp: queued_in_Cons bounded_def queued_in_absent)
  then show ?thesis using assms by (simp add: replies_ok_def queues_ok_def)
qed

lemma driver_start_ok: "driver_ok driver_start"
  by (simp add: driver_ok_def driver_start_def ReplyQueues_new_def replies_ok_def queues_ok_def bounded_def)

text \<open>C16. Whatever the worker answers, refuses or fails to answer and whenever the bus closes: after any number of rounds the
  log of the driver, replayed on one plain first-in-first-out queue per conversation, never gets stuck and ends with what
  the driver holds. So every reply the driver took was, in the order of its conversation, accepted by the worker, or given
  up or discarded at the end with a report, or dropped at once because its queue was full, or it is still queued; at most
  256 are queued per conversation, and none once the driver has ended.\<close>

theorem replies_conserved_in_order:
  "case run_driver env spec cid k driver_start of (d, going) \<Rightarrow>
     fifo_run c (fl_log (dr_f d)) [] = Some (queued_in c (rq_queues (dr_replies d))) \<and>
     length (queued_in c (rq_queues (dr_replies d))) \<le> 256 \<and> (going \<or> queued_in c (rq_queues (dr_replies d)) = [])"
proof -
  obtain d going where r: "run_driver env spec cid k driver_start = (d, going)" by (metis surj_pair)
  have s: "moves c driver_start d" "going \<or> queued_for c (dr_replies d) = []"
    using steps_to_run [of c driver_start env spec cid k] r driver_start_ok by (auto simp: steps_to_def)
  have d: "driver_ok d" "replays c (dr_f driver_start) (queued_for c (dr_replies driver_start)) (dr_f d) (queued_for c (dr_replies d))"
    using s(1) driver_start_ok by (auto simp: moves_def)
  have z: "fl_log (dr_f driver_start) = []" "queued_for c (dr_replies driver_start) = []"
    by (simp_all add: driver_start_def ReplyQueues_new_def queued_in_def)
  show ?thesis
    using r d s(2) z queued_bounded [of "dr_replies d" c]
    by (auto simp: replays_def driver_ok_def MAX_QUEUED_PER_CONVERSATION_def)
qed

section \<open>A concrete channel\<close>

definition demo_spec :: PolledSpec where
  "demo_spec = \<lparr>ps_label = ''email'', ps_init_method = ''email.init'', ps_poll_method = ''email.poll'', ps_send_method = ''email.send'',
     ps_ack_method = Some ''email.ack'', ps_poll_timeout_ms = 15000, ps_refusal_backoff = REFUSAL_BACKOFF, ps_reply_give_up = REPLY_GIVE_UP\<rparr>"

text \<open>The worker refuses the second acknowledgement of the batch.\<close>

definition demo_driver :: DriverEnv where
  "demo_driver =
     \<lparr>de_call = (\<lambda>n m p. if m = ''email.ack'' \<and> p = JStr ''t2'' then Err (RpcRefusal 5 ''busy'') else Ok JNull),
      de_now = secs, de_arrivals = (\<lambda>n. []), de_hung_up = (\<lambda>n. False), de_closed = (\<lambda>n. False), de_takes = (\<lambda>n. True),
      de_encode_send = (\<lambda>m. JStr (om_body m)), de_parse_poll = (\<lambda>v. Ok ([], None)), de_parse_ack_only = (\<lambda>v. []),
      de_encode_ack = Some JStr, de_drain = None, de_error_code = (\<lambda>e. 0), de_reply_hook = True, de_skip_hook = True,
      de_drop_hook = True, de_undecodable_hook = False\<rparr>"

definition demo_mail :: "rstr \<Rightarrow> PolledEvent" where
  "demo_mail t = \<lparr>ev_peer = ''ann@x.org'', ev_conversation = ''c1'', ev_body = ''Hello'', ev_evidence = None, ev_ack_token = Some t\<rparr>"

section \<open>Events\<close>

definition handed :: "DriverEvent list \<Rightarrow> IncomingMessage list" where
  "handed es = List.map_filter (\<lambda>e. case e of HandedOver m \<Rightarrow> Some m | _ \<Rightarrow> None) es"

definition acks_in :: "DriverEvent list \<Rightarrow> (rstr \<times> CallFailure option) list" where
  "acks_in es = List.map_filter (\<lambda>e. case e of AckCall t r \<Rightarrow> Some (t, r) | _ \<Rightarrow> None) es"

declare map_filter_append [simp]

lemma handed_simps [simp]: "handed [] = []" "handed (xs @ ys) = handed xs @ handed ys"
  by (simp_all add: handed_def List.map_filter_simps)

lemma acks_in_simps [simp]: "acks_in [] = []" "acks_in (xs @ ys) = acks_in xs @ acks_in ys"
  by (simp_all add: acks_in_def List.map_filter_simps)

lemma lines_hand_nothing [simp]: "handed (report_lines r) = []" "acks_in (report_lines r) = []"
  by (auto simp: report_lines_def handed_def acks_in_def List.map_filter_simps split: option.splits)

lemma accepted_log: "accepted run m conv f = (run', f') \<Longrightarrow> \<exists>es. fl_log f' = fl_log f @ es \<and> handed es = [] \<and> acks_in es = []"
  by (auto simp: accepted_def fl_emit_def)

lemma refused_log: "refused env run spec m conv e f = (run', f') \<Longrightarrow> \<exists>es. fl_log f' = fl_log f @ es \<and> handed es = [] \<and> acks_in es = []"
  by (auto simp: refused_def Let_def fl_emit_def fl_next_def split: prod.splits)

lemma ack_log:
  assumes "ack env spec m tok p run f = (run', f', r)"
  shows "\<exists>es fail. fl_log f' = fl_log f @ es \<and> handed es = [] \<and> acks_in es = [(tok, fail)] \<and>
    (r = Ok False \<longleftrightarrow> (\<exists>x. fail = Some x \<and> x \<noteq> Gone))"
proof -
  let ?a = "de_call env (fl_n f) m p"
  let ?fail = "case ?a of Ok v \<Rightarrow> None | Err e \<Rightarrow> Some (classify_call_error e)"
  let ?f1 = "fl_emit [WorkerCall m p ?a, AckCall tok ?fail] (fl_next f)"
  have f1: "fl_log ?f1 = fl_log f @ [WorkerCall m p ?a, AckCall tok ?fail]" by (simp add: fl_emit_def fl_next_def)
  have s: "handed [WorkerCall m p ?a, AckCall tok ?fail] = []" "acks_in [WorkerCall m p ?a, AckCall tok ?fail] = [(tok, ?fail)]"
    by (simp_all add: handed_def acks_in_def List.map_filter_simps)
  have tail: ?thesis if "fl_log f' = fl_log ?f1 @ es" "handed es = []" "acks_in es = []" "r = Ok False \<longleftrightarrow> (\<exists>x. ?fail = Some x \<and> x \<noteq> Gone)" for es
    using that s f1 by (intro exI [of _ "[WorkerCall m p ?a, AckCall tok ?fail] @ es"] exI [of _ ?fail]) (simp del: append_Cons)
  show ?thesis
  proof (cases ?a)
    case (Inr v)
    obtain run1 f2 where a: "accepted run m None ?f1 = (run1, f2)" by (metis surj_pair)
    then have "f' = f2" "r = Ok True" using assms Inr by (auto simp: ack_def Let_def)
    then show ?thesis using accepted_log [OF a] tail Inr by auto
  next
    case (Inl e)
    show ?thesis
    proof (cases "is_refusal e")
      case True
      obtain run1 f2 where a: "refused env run spec m None e ?f1 = (run1, f2)" by (metis surj_pair)
      then have "f' = f2" "r = Ok False" using assms Inl True by (auto simp: ack_def Let_def)
      then show ?thesis using refused_log [OF a] tail Inl True by (auto simp: is_refusal_def)
    next
      case False
      then have "f' = ?f1" "r = Err (call_error_text e)" using assms Inl by (auto simp: ack_def Let_def)
      then show ?thesis using tail [of "[]"] Inl False by (auto simp: is_refusal_def)
    qed
  qed
qed

text \<open>Acknowledgements up to the first refused one.\<close>

definition stops_at_refusal :: "(rstr \<times> CallFailure option) list \<Rightarrow> bool" where
  "stops_at_refusal as \<longleftrightarrow> list_all (\<lambda>(t, fail). fail = None \<or> fail = Some Gone) (butlast as)"

lemma stops_Cons: "stops_at_refusal (a # as) \<longleftrightarrow> as = [] \<or> (snd a = None \<or> snd a = Some Gone) \<and> stops_at_refusal as"
  by (cases a) (simp add: stops_at_refusal_def)

definition tokens :: "PolledEvent list \<Rightarrow> rstr list" where
  "tokens evs = List.map_filter ev_ack_token evs"

lemma dropped_log: "handed (report_inbound_dropped h st n a) = []" "acks_in (report_inbound_dropped h st n a) = []"
  by (auto simp: report_inbound_dropped_def handed_def acks_in_def List.map_filter_simps)

lemma mid_batch_log:
  "\<exists>es. fl_log (on_bus_closed_mid_batch env spec n f) = fl_log f @ es \<and> handed es = [] \<and> acks_in es = [] \<and>
     (ps_ack_method spec = None \<and> de_drop_hook env \<and> 0 < n \<longrightarrow> DroppedRow StagePolled n \<in> set es)"
  by (auto simp: on_bus_closed_mid_batch_def fl_emit_def dropped_log) (simp add: report_inbound_dropped_def)

text \<open>C20. The events of a batch reach the bus in order, without a gap. Acknowledgements are only of events the bus has taken,
  each at most once and in order, and end at the first one the worker refuses, so a cursor never moves past a message whose
  acknowledgement was refused. If the bus closes in the middle, the rest is not acknowledged, and a channel without
  acknowledgements counts exactly the rest in its row of dropped messages.\<close>

theorem batch_handed_then_acked:
  assumes "hand_over env spec cid evs acking run f = (run', f', acking', going)"
  shows "\<exists>es k. fl_log f' = fl_log f @ es \<and> k \<le> length evs \<and> handed es = map (event_message cid) (take k evs) \<and>
    (going \<longleftrightarrow> k = length evs) \<and> subseq (map fst (acks_in es)) (tokens (take k evs)) \<and> stops_at_refusal (acks_in es) \<and>
    (\<not> going \<and> ps_ack_method spec = None \<and> de_drop_hook env \<longrightarrow> DroppedRow StagePolled (length evs - k) \<in> set es) \<and>
    (\<not> acking \<longrightarrow> acks_in es = [])"
  using assms
proof (induction evs arbitrary: acking run f)
  case Nil
  then show ?case by (intro exI [of _ "[]"] exI [of _ 0]) (simp add: tokens_def stops_at_refusal_def List.map_filter_simps)
next
  case (Cons ev evs)
  let ?h = "HandedOver (event_message cid ev)"
  have fh: "fl_log (fl_emit [?h] (fl_next f)) = fl_log f @ [?h]" by (simp add: fl_emit_def fl_next_def)
  have h: "handed (?h # es) = event_message cid ev # handed es" "acks_in (?h # es) = acks_in es" for es
    by (simp_all add: handed_def acks_in_def List.map_filter_simps)
  have tok: "tokens (ev # es) = (case ev_ack_token ev of None \<Rightarrow> tokens es | Some t \<Rightarrow> t # tokens es)" for es
    by (simp add: tokens_def List.map_filter_simps split: option.splits)
  from Cons.prems show ?case
  proof (cases rule: hand_over_Cons)
    case closed
    obtain es where "fl_log f' = fl_log f @ es \<and> handed es = [] \<and> acks_in es = [] \<and>
        (ps_ack_method spec = None \<and> de_drop_hook env \<longrightarrow> DroppedRow StagePolled (Suc (length evs)) \<in> set es)"
      using mid_batch_log [of env spec "Suc (length evs)" "fl_next f"] closed(1) by (auto simp: fl_next_def)
    then show ?thesis using closed(2) by (intro exI [of _ es] exI [of _ 0]) (simp add: tokens_def stops_at_refusal_def List.map_filter_simps)
  next
    case silent
    obtain es k where i: "fl_log f' = (fl_log f @ [?h]) @ es" "k \<le> length evs" "handed es = map (event_message cid) (take k evs)"
        "going \<longleftrightarrow> k = length evs" "subseq (map fst (acks_in es)) (tokens (take k evs))" "stops_at_refusal (acks_in es)"
        "\<not> going \<and> ps_ack_method spec = None \<and> de_drop_hook env \<longrightarrow> DroppedRow StagePolled (length evs - k) \<in> set es"
        "\<not> acking \<longrightarrow> acks_in es = []"
      using Cons.IH [OF silent] unfolding fh by blast
    have "subseq (map fst (acks_in (?h # es))) (tokens (take (Suc k) (ev # evs)))"
      using i(5) by (auto simp: h tok split: option.splits)
    then show ?thesis using i by (intro exI [of _ "?h # es"] exI [of _ "Suc k"]) (simp add: h)
  next
    case (acked m enc t run1 f1 r)
    obtain as fail where a: "fl_log f1 = (fl_log f @ [?h]) @ as" "handed as = []" "acks_in as = [(t, fail)]"
        "r = Ok False \<longleftrightarrow> (\<exists>x. fail = Some x \<and> x \<noteq> Gone)"
      using ack_log [OF acked(4)] unfolding fh by blast
    obtain es k where i: "fl_log f' = fl_log f1 @ es" "k \<le> length evs" "handed es = map (event_message cid) (take k evs)"
        "going \<longleftrightarrow> k = length evs" "subseq (map fst (acks_in es)) (tokens (take k evs))" "stops_at_refusal (acks_in es)"
        "\<not> going \<and> ps_ack_method spec = None \<and> de_drop_hook env \<longrightarrow> DroppedRow StagePolled (length evs - k) \<in> set es"
        "\<not> (case r of Ok keep \<Rightarrow> keep | Err e \<Rightarrow> acking) \<longrightarrow> acks_in es = []"
      using Cons.IH [OF acked(5)] by blast
    have log: "fl_log f' = fl_log f @ (?h # as @ es)" using i(1) a(1) by simp
    have hs: "handed (?h # as @ es) = map (event_message cid) (take (Suc k) (ev # evs))" "acks_in (?h # as @ es) = (t, fail) # acks_in es"
      using a i(3) by (simp_all add: h)
    have "subseq (map fst (acks_in (?h # as @ es))) (tokens (take (Suc k) (ev # evs)))"
      unfolding hs using i(5) acked(3) by (simp add: tok)
    moreover have "stops_at_refusal (acks_in (?h # as @ es))"
      unfolding hs stops_Cons using i(6,8) a(4) by (cases fail) auto
    ultimately show ?thesis using log hs(1) i acked(1,2) by (intro exI [of _ "?h # as @ es"] exI [of _ "Suc k"]) simp
  qed
qed

lemma batch_handed_then_acked_witness:
  "\<exists>es. handed es = map (event_message ''email'') [demo_mail ''t1'', demo_mail ''t2'', demo_mail ''t3''] \<and>
     acks_in es = [(''t1'', None), (''t2'', Some CallRefused)] \<and> stops_at_refusal (acks_in es)"
proof -
  let ?evs = "[demo_mail ''t1'', demo_mail ''t2'', demo_mail ''t3'']"
  obtain run' f' acking' going where r: "hand_over demo_driver demo_spec ''email'' ?evs True RefusalRun_default (dr_f driver_start) = (run', f', acking', going)"
    by (metis surj_pair)
  have f': "f' = fst (snd (hand_over demo_driver demo_spec ''email'' ?evs True RefusalRun_default (dr_f driver_start)))"
    "going = snd (snd (snd (hand_over demo_driver demo_spec ''email'' ?evs True RefusalRun_default (dr_f driver_start))))"
    using r by simp_all
  note defs = demo_driver_def demo_spec_def demo_mail_def driver_start_def ack_def accepted_def refused_def fl_emit_def fl_next_def
    is_refusal_def UPSTREAM_AUTH_FAILED_def UPSTREAM_UNAVAILABLE_def Let_def split_beta
  have g: "going" unfolding f' by (simp add: defs)
  have a: "acks_in (fl_log f') = [(''t1'', None), (''t2'', Some CallRefused)]"
    unfolding f' by (simp add: defs) (simp add: acks_in_def List.map_filter_simps report_lines_def split: option.splits)
  have "fl_log (dr_f driver_start) = []" by (simp add: driver_start_def)
  with batch_handed_then_acked [OF r] g obtain es k where "fl_log f' = es" "handed es = map (event_message ''email'') (take k ?evs)"
      "k = length ?evs" "stops_at_refusal (acks_in es)" by auto
  then show ?thesis using a by (intro exI [of _ es]) simp
qed

end
