(* ===== verification/Stored_Json.thy ===== *)
theory Stored_Json
  imports Channel_Outbound
begin

text \<open>
  What the database cannot store: \<^verbatim>\<open>db/src/nul.rs\<close>. PostgreSQL refuses a NUL in \<^verbatim>\<open>text\<close> and \<^verbatim>\<open>jsonb\<close>, so every column
  either escapes it (the symbol for NUL, U+2400) or refuses the value. The results: nothing that is escaped holds a NUL,
  a clean value is stored as it is, and no key of an object is lost when two keys become equal.
\<close>

section \<open>Escaping\<close>

text \<open>An object is a sorted list of distinct keys. \<open>fresh_key\<close> is the loop that makes an escaped key free.\<close>

function fresh_key :: "rstr list \<Rightarrow> rstr \<Rightarrow> rstr" where
  "fresh_key keys k = (if k \<in> set keys then fresh_key keys (k @ NUL_ESCAPE_STR) else k)"
  by pat_completeness auto
termination
proof (relation "measure (\<lambda>(keys, k). card {x \<in> set keys. length k \<le> length x})", goal_cases)
  case (2 keys k)
  have "{x \<in> set keys. length (k @ NUL_ESCAPE_STR) \<le> length x} \<subset> {x \<in> set keys. length k \<le> length x}"
    (is "?A \<subset> ?B")
  proof (rule psubsetI)
    show "?A \<subseteq> ?B" by auto
    have "k \<in> ?B" "k \<notin> ?A" using 2 by (auto simp: NUL_ESCAPE_STR_def)
    then show "?A \<noteq> ?B" by blast
  qed
  then show ?case by (simp add: psubset_card_mono)
qed simp

declare fresh_key.simps [simp del]

text \<open>The key is one the loop has just listed, so the lookup finds it.\<close>

definition escape_key :: "rstr \<Rightarrow> (rstr \<times> json) list \<times> nat \<Rightarrow> (rstr \<times> json) list \<times> nat" where
  "escape_key key st =
     (case map_of (fst st) key of
        None \<Rightarrow> st
      | Some v \<Rightarrow>
          let kvs = obj_remove key (fst st); (escaped, n) = escape_str key in
          (obj_insert (fresh_key (map fst kvs) escaped) v kvs, snd st + n))"

definition has_nul :: "rstr \<Rightarrow> bool" where
  "has_nul s \<longleftrightarrow> NUL \<in> set s"

definition escape_keys :: "(rstr \<times> json) list \<Rightarrow> nat \<Rightarrow> (rstr \<times> json) list \<times> nat" where
  "escape_keys kvs n = fold escape_key (filter has_nul (map fst kvs)) (kvs, n)"

fun escape_value :: "json \<Rightarrow> json \<times> nat" where
  "escape_value (JStr s) = (case escape_str s of (t, n) \<Rightarrow> (JStr t, n))"
| "escape_value (JArr items) =
     (let rs = map escape_value items in (JArr (map fst rs), sum_list (map snd rs)))"
| "escape_value (JObj kvs) =
     (let rs = map (\<lambda>(k, v). (k, escape_value v)) kvs;
          (kvs', n) = escape_keys (map (\<lambda>(k, r). (k, fst r)) rs) (sum_list (map (\<lambda>(k, r). snd r) rs)) in
      (JObj kvs', n))"
| "escape_value v = (v, 0)"

definition escape_json :: "json \<Rightarrow> json \<times> nat" where
  "escape_json v = escape_value v"

definition escape_opt_json :: "json option \<Rightarrow> json option \<times> nat" where
  "escape_opt_json v = (case v of None \<Rightarrow> (None, 0) | Some v \<Rightarrow> (case escape_json v of (w, n) \<Rightarrow> (Some w, n)))"

section \<open>Refusing\<close>

fun json_contains_nul :: "json \<Rightarrow> bool" where
  "json_contains_nul (JStr s) \<longleftrightarrow> has_nul s"
| "json_contains_nul (JArr items) \<longleftrightarrow> list_ex json_contains_nul items"
| "json_contains_nul (JObj kvs) \<longleftrightarrow> list_ex (\<lambda>(k, v). has_nul k \<or> json_contains_nul v) kvs"
| "json_contains_nul _ \<longleftrightarrow> False"

datatype DbError = QueryErr rstr | OtherErr rstr | NulRefused rstr

definition refuse_nul_in_text :: "rstr \<Rightarrow> rstr \<Rightarrow> DbError + unit" where
  "refuse_nul_in_text column s = (if has_nul s then Err (NulRefused column) else Ok ())"

definition refuse_nul_in_json :: "rstr \<Rightarrow> json \<Rightarrow> DbError + unit" where
  "refuse_nul_in_json column v = (if json_contains_nul v then Err (NulRefused column) else Ok ())"

section \<open>Facts\<close>

lemma escape_str_clean [simp]: "\<not> has_nul (fst (escape_str s))"
  by (auto simp: escape_str_def Let_def has_nul_def NUL_ESCAPE_STR_def NUL_def count_nuls_def filter_empty_conv split: if_splits)

lemma escape_str_same: "\<not> has_nul s \<Longrightarrow> escape_str s = (s, 0)"
  by (auto simp: escape_str_def has_nul_def count_nuls_def filter_empty_conv)

lemma count_nuls_pos: "0 < count_nuls s \<longleftrightarrow> has_nul s"
  by (auto simp: count_nuls_def has_nul_def filter_empty_conv)

lemma fresh_key_fresh [simp]: "fresh_key keys k \<notin> set keys"
  by (induction keys k rule: fresh_key.induct) (subst fresh_key.simps, simp)

lemma has_nul_append [simp]: "has_nul (a @ b) \<longleftrightarrow> has_nul a \<or> has_nul b"
  by (auto simp: has_nul_def)

lemma escape_str_text [simp]: "\<not> has_nul NUL_ESCAPE_STR"
  by (simp add: has_nul_def NUL_ESCAPE_STR_def NUL_def)

lemma fresh_key_clean: "has_nul (fresh_key keys k) \<longleftrightarrow> has_nul k"
proof (induction keys k rule: fresh_key.induct)
  case (1 keys k)
  then show ?case by (cases "k \<in> set keys") (simp_all add: fresh_key.simps [of keys k])
qed

lemma set_obj_insert: "k \<notin> fst ` set kvs \<Longrightarrow> set (obj_insert k v kvs) = insert (k, v) (set kvs)"
  by (induction k v kvs rule: obj_insert.induct) auto

lemma length_obj_insert: "k \<notin> fst ` set kvs \<Longrightarrow> length (obj_insert k v kvs) = Suc (length kvs)"
  by (induction k v kvs rule: obj_insert.induct) auto

lemma distinct_obj_insert:
  "distinct (map fst kvs) \<Longrightarrow> k \<notin> fst ` set kvs \<Longrightarrow> distinct (map fst (obj_insert k v kvs))"
proof (induction k v kvs rule: obj_insert.induct)
  case (2 k v k' v' kvs)
  then show ?case by (auto simp: set_obj_insert)
qed simp

text \<open>One round of the loop over the keys: the key is gone, the value is under a clean key nobody had, all else stays.\<close>

lemma escape_key_step:
  assumes "map_of kvs key = Some v" "distinct (map fst kvs)" "has_nul key"
  obtains k' n where "escape_key key (kvs, c) = (obj_insert k' v (obj_remove key kvs), c + n)" "\<not> has_nul k'"
    "k' \<notin> fst ` set (obj_remove key kvs)"
proof
  let ?e = "escape_str key"
  show "escape_key key (kvs, c) = (obj_insert (fresh_key (map fst (obj_remove key kvs)) (fst ?e)) v (obj_remove key kvs), c + snd ?e)"
    using assms(1) by (simp add: escape_key_def Let_def split: prod.splits)
  show "\<not> has_nul (fresh_key (map fst (obj_remove key kvs)) (fst ?e))" by (simp add: fresh_key_clean)
  show "fresh_key (map fst (obj_remove key kvs)) (fst ?e) \<notin> fst ` set (obj_remove key kvs)"
    using fresh_key_fresh [of "map fst (obj_remove key kvs)"] by simp
qed

lemma keys_obj_remove: "fst ` set (obj_remove k kvs) = fst ` set kvs - {k}"
  by (auto simp: obj_remove_def)

lemma distinct_obj_remove: "distinct (map fst kvs) \<Longrightarrow> distinct (map fst (obj_remove k kvs))"
  by (induction kvs) (auto simp: obj_remove_def)

lemma length_obj_remove:
  "distinct (map fst kvs) \<Longrightarrow> k \<in> fst ` set kvs \<Longrightarrow> Suc (length (obj_remove k kvs)) = length kvs"
proof (induction kvs)
  case (Cons kv kvs)
  then show ?case
  proof (cases "fst kv = k")
    case True
    then have "obj_remove k kvs = kvs" using Cons.prems(1) unfolding obj_remove_def
      by (intro filter_True) (metis distinct.simps(2) image_eqI list.simps(9) list.set_map)
    then show ?thesis using True by (simp add: obj_remove_def)
  qed (auto simp: obj_remove_def)
qed simp

definition escaped_obj :: "(rstr \<times> json) list \<Rightarrow> rstr list \<Rightarrow> (rstr \<times> json) list \<Rightarrow> bool" where
  "escaped_obj kvs ks kvs' \<longleftrightarrow> distinct (map fst kvs') \<and> length kvs' = length kvs \<and>
     snd ` set kvs' = snd ` set kvs \<and> filter has_nul (map fst kvs') = [] \<and> (\<forall>k v. (k, v) \<in> set kvs \<and> k \<notin> set ks \<longrightarrow> (k, v) \<in> set kvs')"

lemma escape_keys_fold:
  assumes "distinct (map fst kvs)" "distinct ks" "set ks = {k \<in> fst ` set kvs. has_nul k}"
  shows "escaped_obj kvs ks (fst (fold escape_key ks (kvs, c)))"
  using assms
proof (induction ks arbitrary: kvs c)
  case Nil
  then show ?case by (auto simp: escaped_obj_def filter_empty_conv)
next
  case (Cons k ks)
  then obtain v where v: "map_of kvs k = Some v" by (metis (mono_tags, lifting) insertI1 list.set(2) map_of_eq_None_iff mem_Collect_eq option.exhaust)
  have k: "has_nul k" "k \<in> fst ` set kvs" using Cons.prems(3) by auto
  obtain k' n where s: "escape_key k (kvs, c) = (obj_insert k' v (obj_remove k kvs), c + n)" "\<not> has_nul k'"
    "k' \<notin> fst ` set (obj_remove k kvs)" using escape_key_step [OF v Cons.prems(1) k(1)] by metis
  let ?kvs = "obj_insert k' v (obj_remove k kvs)"
  have set: "set ?kvs = insert (k', v) (set (obj_remove k kvs))" using s(3) by (rule set_obj_insert)
  have d: "distinct (map fst ?kvs)" using distinct_obj_insert [OF distinct_obj_remove [OF Cons.prems(1)] s(3)] .
  have l: "length ?kvs = length kvs" using length_obj_insert [OF s(3)] length_obj_remove [OF Cons.prems(1) k(2)] by simp
  have "fst ` set ?kvs = insert k' (fst ` set kvs - {k})" using set by (simp add: keys_obj_remove)
  then have ks: "set ks = {x \<in> fst ` set ?kvs. has_nul x}" using Cons.prems(2,3) s(2) by auto
  have vals: "snd ` set ?kvs = snd ` set kvs"
  proof -
    have "(k, v) \<in> set kvs" using v by (rule map_of_SomeD)
    moreover have "w = v" if "(k, w) \<in> set kvs" for w
      using v that Cons.prems(1) by (metis map_of_eq_Some_iff option.inject)
    ultimately have "set kvs = insert (k, v) (set (obj_remove k kvs))"
      unfolding obj_remove_def set_filter by (intro set_eqI) (metis (lifting) insert_iff mem_Collect_eq prod.collapse)
    then show ?thesis using set by simp
  qed
  have "escaped_obj ?kvs ks (fst (fold escape_key ks (?kvs, c + n)))" by (rule Cons.IH [OF d _ ks]) (use Cons.prems(2) in simp)
  then show ?case using l vals set by (auto simp: s(1) escaped_obj_def obj_remove_def)
qed

lemma escape_keys_ok:
  "distinct (map fst kvs) \<Longrightarrow> escaped_obj kvs (filter has_nul (map fst kvs)) (fst (escape_keys kvs n))"
  unfolding escape_keys_def by (rule escape_keys_fold) auto

lemma escaped_objD:
  assumes "escaped_obj kvs ks kvs'" "(k, w) \<in> set kvs'"
  shows "\<not> has_nul k" "w \<in> snd ` set kvs"
  using assms unfolding escaped_obj_def filter_empty_conv by (metis image_eqI list.set_map fst_conv, metis image_eqI snd_conv)

text \<open>Objects hold each key once, all the way down.\<close>

fun json_wf :: "json \<Rightarrow> bool" where
  "json_wf (JArr items) \<longleftrightarrow> list_all json_wf items"
| "json_wf (JObj kvs) \<longleftrightarrow> distinct (map fst kvs) \<and> list_all (\<lambda>(k, v). json_wf v) kvs"
| "json_wf _ \<longleftrightarrow> True"

lemma escape_value_clean: "json_wf v \<Longrightarrow> \<not> json_contains_nul (fst (escape_value v)) \<and> json_wf (fst (escape_value v))"
proof (induction v rule: escape_value.induct)
  case (1 s)
  then show ?case by (simp split: prod.splits) (metis escape_str_clean fst_conv)
next
  case (2 items)
  then show ?case by (auto simp: Let_def list_ex_iff list_all_iff)
next
  case (3 kvs)
  let ?kvs = "map (\<lambda>(k, v). (k, fst (escape_value v))) kvs"
  let ?n = "sum_list (map (\<lambda>(k, v). snd (escape_value v)) kvs)"
  have r: "fst (escape_value (JObj kvs)) = JObj (fst (escape_keys ?kvs ?n))"
    by (simp add: Let_def comp_def case_prod_unfold)
  have d: "distinct (map fst ?kvs)" using 3(2) by (simp add: comp_def case_prod_beta)
  note e = escape_keys_ok [OF d, of ?n]
  have v: "\<not> json_contains_nul w \<and> json_wf w" if "w \<in> snd ` set ?kvs" for w
    using that 3 by (auto simp: list_all_iff)
  have "\<not> has_nul k \<and> \<not> json_contains_nul w \<and> json_wf w" if "(k, w) \<in> set (fst (escape_keys ?kvs ?n))" for k w
    using escaped_objD [OF e that] v by blast
  moreover have "distinct (map fst (fst (escape_keys ?kvs ?n)))" using e unfolding escaped_obj_def by blast
  ultimately show ?case unfolding r json_contains_nul.simps json_wf.simps list_ex_iff list_all_iff by blast
qed simp_all

lemma escape_value_same: "\<not> json_contains_nul v \<Longrightarrow> escape_value v = (v, 0)"
proof (induction v rule: escape_value.induct)
  case (2 items)
  then have "map escape_value items = map (\<lambda>v. (v, 0)) items" by (auto simp: list_ex_iff)
  then show ?case unfolding escape_value.simps Let_def by (simp only: map_map) (simp add: comp_def)
next
  case (3 kvs)
  then have m: "map (\<lambda>(k, v). (k, escape_value v)) kvs = map (\<lambda>(k, v). (k, (v, 0))) kvs" by (auto simp: list_ex_iff)
  have n: "filter has_nul (map fst kvs) = []" using 3(2) by (auto simp: list_ex_iff filter_empty_conv)
  show ?case by (simp add: m Let_def comp_def case_prod_beta escape_keys_def n)
qed (simp_all add: escape_str_same)

end
