(* ===== verification/Task_Table.thy ===== *)
theory Task_Table
  imports Stored_Json
begin

text \<open>
  The tables of tasks and asks, and the operations on tasks: \<^verbatim>\<open>db/src/tasks.rs\<close>. A transaction is a function on the
  tables that commits, rolls back or fails; the tables it leaves depend also on what becomes of the connection. A
  transaction is one step: two of them do not interleave. What PostgreSQL decides freely (the value of \<^verbatim>\<open>now()\<close>, which
  rows another transaction has locked, values of a sequence lost to rolled-back inserts) is an argument.
\<close>

section \<open>Tables\<close>

datatype Lane = FastLane | LongLane

fun lane_as_sql :: "Lane \<Rightarrow> rstr" where
  "lane_as_sql FastLane = ''fast''"
| "lane_as_sql LongLane = ''long''"

definition lane_from_sql :: "rstr \<Rightarrow> DbError + Lane" where
  "lane_from_sql s =
     (if s = ''fast'' then Ok FastLane else if s = ''long'' then Ok LongLane
      else Err (OtherErr (''unknown lane: '' @ s)))"

lemma lane_round_trip: "lane_from_sql (lane_as_sql l) = Ok l"
  by (cases l) (simp_all add: lane_from_sql_def)

definition DEFAULT_DEADLINE_FAST_S :: int where "DEFAULT_DEADLINE_FAST_S = 60"
definition DEFAULT_DEADLINE_LONG_S :: int where "DEFAULT_DEADLINE_LONG_S = 30 * 60"
definition DEFAULT_MAX_PLANS_FAST :: nat where "DEFAULT_MAX_PLANS_FAST = 20"
definition DEFAULT_MAX_PLANS_LONG :: nat where "DEFAULT_MAX_PLANS_LONG = 25"
definition DEFAULT_TIME_CEILING_FAST_S :: nat where "DEFAULT_TIME_CEILING_FAST_S = 15 * 60"

text \<open>A lane in the table is one of the two by a check of its own, so reading a row back cannot fail on it.\<close>

record Task =
  tk_id :: int
  tk_state :: rstr
  tk_lane :: Lane
  tk_created_at :: int
  tk_updated_at :: int
  tk_started_at :: "int option"
  tk_finished_at :: "int option"
  tk_lease :: "int option"
  tk_plan_count :: int
  tk_payload :: json
  tk_result :: "json option"
  tk_turn_record :: "json option"

record AskRow = Ask +
  ak_nonce_sha256 :: rstr
  ak_created_at :: int
  ak_deadline_at :: int
  ak_resolved_at :: "int option"
  ak_resolved_by :: "rstr option"

record Tables =
  tb_tasks :: "Task list"
  tb_asks :: "AskRow list"
  tb_next_task :: int
  tb_next_ask :: int

text \<open>The values of \<^verbatim>\<open>tasks_state_check\<close> (migration 0023).\<close>

definition TASK_STATES :: "rstr list" where
  "TASK_STATES = [''pending'', ''running'', ''completed'', ''failed'', ''cancelled'', ''blocked'', ''timed_out'', ''crashed'',
     ''refused'', ''awaiting_operator'']"

definition find_row :: "Tables \<Rightarrow> int \<Rightarrow> Task option" where
  "find_row db i = find (\<lambda>t. tk_id t = i) (tb_tasks db)"

definition update_where :: "('a \<Rightarrow> bool) \<Rightarrow> ('a \<Rightarrow> 'a) \<Rightarrow> 'a list \<Rightarrow> 'a list" where
  "update_where p f rows = map (\<lambda>r. if p r then f r else r) rows"

section \<open>Transactions\<close>

datatype 'a TxOutcome = Commit 'a Tables | Rollback 'a | Abort DbError

type_synonym 'a tx = "Tables \<Rightarrow> 'a TxOutcome"

text \<open>What the connection does: nothing, a statement (or the commit) fails and nothing is changed, or the commit takes
  effect and its answer is lost.\<close>

datatype TxFault = TxFine | TxLost rstr | TxAnswerLost rstr

fun run_tx :: "TxFault \<Rightarrow> 'a tx \<Rightarrow> Tables \<Rightarrow> (DbError + 'a) \<times> Tables" where
  "run_tx TxFine f db = (case f db of Commit x db' \<Rightarrow> (Ok x, db') | Rollback x \<Rightarrow> (Ok x, db) | Abort e \<Rightarrow> (Err e, db))"
| "run_tx (TxLost e) f db = (Err (QueryErr e), db)"
| "run_tx (TxAnswerLost e) f db =
     (case f db of Commit x db' \<Rightarrow> (Err (QueryErr e), db') | Rollback x \<Rightarrow> (Ok x, db) | Abort e' \<Rightarrow> (Err e', db))"

section \<open>Statements on tasks\<close>

definition update_tasks :: "(Task \<Rightarrow> bool) \<Rightarrow> (Task \<Rightarrow> Task) \<Rightarrow> Tables \<Rightarrow> Tables" where
  "update_tasks p f db = db\<lparr>tb_tasks := update_where p f (tb_tasks db)\<rparr>"

definition insert_pending :: "int \<Rightarrow> Lane \<Rightarrow> json \<Rightarrow> int tx" where
  "insert_pending now lane payload db =
     (case refuse_nul_in_json ''tasks.payload'' payload of
        Err e \<Rightarrow> Abort e
      | Ok _ \<Rightarrow>
          let i = tb_next_task db;
              row = \<lparr>tk_id = i, tk_state = ''pending'', tk_lane = lane, tk_created_at = now, tk_updated_at = now,
                     tk_started_at = None, tk_finished_at = None, tk_lease = None, tk_plan_count = 0, tk_payload = payload,
                     tk_result = None, tk_turn_record = None\<rparr> in
          Commit i (db\<lparr>tb_tasks := tb_tasks db @ [row], tb_next_task := i + 1\<rparr>))"

text \<open>\<open>local_now\<close> is the daemon's clock, \<open>now\<close> the database's; \<open>locked\<close> tells the rows \<^verbatim>\<open>SKIP LOCKED\<close> passes over.\<close>

definition claim_one_task :: "(int \<Rightarrow> bool) \<Rightarrow> int \<Rightarrow> int \<Rightarrow> Lane \<Rightarrow> int \<Rightarrow> Task option tx" where
  "claim_one_task locked local_now now lane deadline_seconds db =
     (case sort_key tk_created_at
             (filter (\<lambda>t. tk_lane t = lane \<and> tk_state t = ''pending'' \<and> \<not> locked (tk_id t)) (tb_tasks db)) of
        [] \<Rightarrow> Rollback None
      | t # _ \<Rightarrow>
          let f = (\<lambda>t. t\<lparr>tk_state := ''running'', tk_started_at := Some now, tk_updated_at := now,
                         tk_lease := Some (local_now + deadline_seconds)\<rparr>) in
          Commit (Some (f t)) (update_tasks (\<lambda>r. tk_id r = tk_id t) f db))"

text \<open>A row that is updated to a state outside the check fails the statement.\<close>

definition finalize_task :: "int \<Rightarrow> int \<Rightarrow> rstr \<Rightarrow> json option \<Rightarrow> json option \<Rightarrow> unit tx" where
  "finalize_task now i state result turn_record db =
     (let result' = fst (escape_opt_json result); turn_record' = fst (escape_opt_json turn_record);
          p = (\<lambda>t. tk_id t = i \<and> tk_state t = ''running'') in
      if list_ex p (tb_tasks db) \<and> state \<notin> set TASK_STATES then Abort (QueryErr ''tasks finalize: tasks_state_check'')
      else Commit ()
        (update_tasks p (\<lambda>t. t\<lparr>tk_state := state, tk_result := result', tk_turn_record := turn_record',
                              tk_finished_at := Some now, tk_updated_at := now\<rparr>) db))"

definition observe_state :: "int \<Rightarrow> rstr tx" where
  "observe_state i db =
     (case find_row db i of
        Some t \<Rightarrow> Rollback (tk_state t)
      | None \<Rightarrow> Abort (QueryErr ''tasks observe_state: no row''))"

definition mark_cancelled_if_pending :: "int \<Rightarrow> int \<Rightarrow> Task option tx" where
  "mark_cancelled_if_pending now i db =
     (let f = (\<lambda>t. t\<lparr>tk_state := ''cancelled'', tk_finished_at := Some now, tk_updated_at := now\<rparr>) in
      case find (\<lambda>t. tk_id t = i \<and> tk_state t = ''pending'') (tb_tasks db) of
        None \<Rightarrow> Rollback None
      | Some t \<Rightarrow> Commit (Some (f t)) (update_tasks (\<lambda>t. tk_id t = i \<and> tk_state t = ''pending'') f db))"

definition lease_after :: "int \<Rightarrow> Task \<Rightarrow> bool" where
  "lease_after now t \<longleftrightarrow> (case tk_lease t of Some l \<Rightarrow> l > now | None \<Rightarrow> False)"

definition lease_before :: "int \<Rightarrow> Task \<Rightarrow> bool" where
  "lease_before now t \<longleftrightarrow> (case tk_lease t of Some l \<Rightarrow> l < now | None \<Rightarrow> False)"

definition any_live_worker :: "int \<Rightarrow> bool tx" where
  "any_live_worker now db = Rollback (list_ex (\<lambda>t. tk_state t = ''running'' \<and> lease_after now t) (tb_tasks db))"

definition mark_failed_running :: "int \<Rightarrow> int \<Rightarrow> bool tx" where
  "mark_failed_running now i db =
     (let p = (\<lambda>t. tk_id t = i \<and> tk_state t = ''running'' \<and> lease_after now t) in
      Commit (length (filter p (tb_tasks db)) = 1)
        (update_tasks p (\<lambda>t. t\<lparr>tk_state := ''crashed'', tk_finished_at := Some now, tk_updated_at := now\<rparr>) db))"

definition error_result :: "rstr \<Rightarrow> json" where
  "error_result detail = jobj [(''kind'', JStr ''error''), (''detail'', JStr detail)]"

definition sweep_crashed :: "int \<Rightarrow> Task list tx" where
  "sweep_crashed now db =
     (let p = (\<lambda>t. tk_state t = ''running'' \<and> lease_before now t);
          f = (\<lambda>t. t\<lparr>tk_state := ''crashed'', tk_result := Some (error_result CRASHED_DETAIL), tk_finished_at := Some now,
                     tk_updated_at := now\<rparr>) in
      Commit (map f (filter p (tb_tasks db))) (update_tasks p f db))"

definition increment_plan_count :: "int \<Rightarrow> int \<Rightarrow> int \<Rightarrow> unit tx" where
  "increment_plan_count now i n db =
     Commit () (update_tasks (\<lambda>t. tk_id t = i \<and> tk_state t = ''running'') (\<lambda>t. t\<lparr>tk_plan_count := n, tk_updated_at := now\<rparr>) db)"

definition get_task :: "int \<Rightarrow> Task option tx" where
  "get_task i db = Rollback (find_row db i)"

definition list_tasks :: "Lane option \<Rightarrow> rstr option \<Rightarrow> int \<Rightarrow> Task list tx" where
  "list_tasks lane state limit db =
     Rollback (take (nat (max limit 0))
       (sort_key (\<lambda>t. - tk_created_at t)
          (filter (\<lambda>t. (case lane of None \<Rightarrow> True | Some l \<Rightarrow> tk_lane t = l) \<and>
                       (case state of None \<Rightarrow> True | Some s \<Rightarrow> tk_state t = s)) (tb_tasks db))))"

section \<open>Inside a transaction\<close>

text \<open>These run in the transaction of an operation on asks: they give the number of rows or the flag, and the tables.\<close>

definition suspend_for_ask :: "int \<Rightarrow> int \<Rightarrow> Tables \<Rightarrow> bool \<times> Tables" where
  "suspend_for_ask now i db =
     (let p = (\<lambda>t. tk_id t = i \<and> tk_state t = ''running'') in
      (length (filter p (tb_tasks db)) = 1,
       update_tasks p (\<lambda>t. t\<lparr>tk_state := ''awaiting_operator'', tk_lease := None, tk_updated_at := now\<rparr>) db))"

definition resume_from_ask :: "int \<Rightarrow> int \<Rightarrow> Tables \<Rightarrow> bool \<times> Tables" where
  "resume_from_ask now i db =
     (let p = (\<lambda>t. tk_id t = i \<and> tk_state t = ''awaiting_operator'') in
      (length (filter p (tb_tasks db)) = 1,
       update_tasks p (\<lambda>t. t\<lparr>tk_state := ''pending'', tk_updated_at := now\<rparr>) db))"

definition fail_awaiting_operator :: "int \<Rightarrow> int \<Rightarrow> rstr \<Rightarrow> Tables \<Rightarrow> bool \<times> Tables" where
  "fail_awaiting_operator now i detail db =
     (let p = (\<lambda>t. tk_id t = i \<and> tk_state t = ''awaiting_operator'') in
      (length (filter p (tb_tasks db)) = 1,
       update_tasks p (\<lambda>t. t\<lparr>tk_state := ''failed'', tk_result := Some (error_result detail), tk_finished_at := Some now,
                             tk_updated_at := now\<rparr>) db))"

definition state_in_tx :: "int \<Rightarrow> Tables \<Rightarrow> rstr option" where
  "state_in_tx i db = map_option tk_state (find_row db i)"

definition cancel_for_task :: "int \<Rightarrow> Tables \<Rightarrow> nat \<times> Tables" where
  "cancel_for_task i db =
     (let p = (\<lambda>a. ask_task_id a = i \<and> ask_state a = ''pending'') in
      (length (filter p (tb_asks db)), db\<lparr>tb_asks := update_where p (\<lambda>a. a\<lparr>ask_state := ''cancelled''\<rparr>) (tb_asks db)\<rparr>))"

record Cancellation =
  cn_task :: Task
  cn_previous_state :: rstr
  cn_asks_cancelled :: nat

definition mark_cancelled :: "int \<Rightarrow> int \<Rightarrow> Cancellation option tx" where
  "mark_cancelled now i db =
     (let (n1, db1) = cancel_for_task i db;
          previous_state = state_in_tx i db1;
          p = (\<lambda>t. tk_id t = i \<and> tk_state t \<in> {''pending'', ''running'', ''awaiting_operator''});
          f = (\<lambda>t. t\<lparr>tk_state := ''cancelled'', tk_finished_at := Some now, tk_updated_at := now\<rparr>) in
      case find p (tb_tasks db1) of
        None \<Rightarrow> Rollback None
      | Some t \<Rightarrow>
          let (n2, db3) = cancel_for_task i (update_tasks p f db1) in
          Commit (Some \<lparr>cn_task = f t, cn_previous_state = (case previous_state of Some s \<Rightarrow> s | None \<Rightarrow> []),
                        cn_asks_cancelled = n1 + n2\<rparr>) db3)"

end
