(* ===== verification/Ask_Table.thy ===== *)
theory Ask_Table
  imports Task_Table Micro_Vm
begin

text \<open>
  The operations on asks: \<^verbatim>\<open>db/src/asks.rs\<close>. Each is one transaction on both tables: an ask is raised together with the
  suspension of its task and answered together with its resumption. SHA-256 (\<open>sha_hex\<close>), the random bytes of a token, the
  JSON text of a value (\<open>print\<close>) and \<^verbatim>\<open>Debug\<close> printing (\<open>dbg\<close>) are arguments; the checks and unique indices are those of
  the migrations 0023 and 0024.
\<close>

section \<open>Tokens and claimants\<close>

definition NONCE_BYTES :: nat where "NONCE_BYTES = 5"

text \<open>\<open>bytes\<close> is what the random source fills in.\<close>

definition generate_nonce :: "rstr \<Rightarrow> rstr" where
  "generate_nonce bytes = hex_encode bytes"

record Claimant =
  cl_channel :: rstr
  cl_peer :: rstr

definition attribution :: "Claimant \<Rightarrow> rstr" where
  "attribution c = cl_channel c @ ''/'' @ cl_peer c"

record RaisedAsk =
  ra_ask_id :: int
  ra_nonce :: rstr

text \<open>The struct \<^verbatim>\<open>Ask\<close> of a row: all columns but the hash of the token.\<close>

definition decode_ask_row :: "AskRow \<Rightarrow> Ask" where
  "decode_ask_row row = Ask.truncate row"

definition ASK_KINDS :: "rstr list" where "ASK_KINDS = [''plan_approval'']"

section \<open>Raising\<close>

text \<open>What the \<^verbatim>\<open>INSERT\<close> requires of the new row: the reference to the task, the checks and the two unique indices, and
  that no bound text holds a NUL.\<close>

definition ask_insertable :: "Tables \<Rightarrow> AskRow \<Rightarrow> bool" where
  "ask_insertable db row \<longleftrightarrow>
     find_row db (ask_task_id row) \<noteq> None \<and> ask_kind row \<in> set ASK_KINDS \<and>
     (case ask_options row of JArr opts \<Rightarrow> opts \<noteq> [] | _ \<Rightarrow> False) \<and>
     ak_deadline_at row > ak_created_at row \<and>
     \<not> list_ex (\<lambda>a. ak_nonce_sha256 a = ak_nonce_sha256 row) (tb_asks db) \<and>
     \<not> list_ex (\<lambda>a. ask_task_id a = ask_task_id row \<and> ask_state a = ''pending'') (tb_asks db) \<and>
     \<not> has_nul (ask_body row) \<and> \<not> json_contains_nul (ask_options row) \<and>
     \<not> (case ask_plan_digest row of Some d \<Rightarrow> has_nul d | None \<Rightarrow> False) \<and>
     \<not> (case ask_resume_state row of Some r \<Rightarrow> json_contains_nul r | None \<Rightarrow> False)"

definition cannot_suspend :: "int \<Rightarrow> rstr \<Rightarrow> rstr" where
  "cannot_suspend i state = ''asks raise: task '' @ show_int i @ '' is in state '' @ [CHR 0x27] @ state @ [CHR 0x27] @ '', not '' @ [CHR 0x27] @ ''running'' @ [CHR 0x27] @
     '', so it cannot be suspended for an ask (already suspended on another ask, terminal, cancelled, or never claimed)''"

definition raise_ask ::
    "(rstr \<Rightarrow> rstr) \<Rightarrow> rstr \<Rightarrow> int \<Rightarrow> int \<Rightarrow> rstr \<Rightarrow> rstr \<Rightarrow> json \<Rightarrow> rstr option \<Rightarrow> int \<Rightarrow> json option \<Rightarrow> RaisedAsk tx" where
  "raise_ask sha_hex bytes now i kind body options digest deadline_at resume_state db =
     (let body' = fst (escape_str body);
          escaped_resume = (case resume_state of
                              Some v \<Rightarrow> if json_contains_nul v then fst (escape_opt_json (Some v)) else None
                            | None \<Rightarrow> None);
          resume' = (case escaped_resume of Some v \<Rightarrow> Some v | None \<Rightarrow> resume_state);
          nonce = generate_nonce bytes;
          (suspended, db1) = suspend_for_ask now i db in
      if \<not> suspended
      then Abort (OtherErr (cannot_suspend i (case state_in_tx i db1 of Some s \<Rightarrow> s | None \<Rightarrow> ''<no such task>'')))
      else
        let row = \<lparr>ask_id = tb_next_ask db1, ask_task_id = i, ask_kind = kind, ask_body = body', ask_options = options,
                   ask_plan_digest = digest, ask_state = ''pending'', ask_resolution = None, ask_resume_state = resume',
                   ak_nonce_sha256 = sha_hex nonce, ak_created_at = now, ak_deadline_at = deadline_at,
                   ak_resolved_at = None, ak_resolved_by = None\<rparr> in
        if \<not> ask_insertable db1 row then Abort (QueryErr ''asks raise insert: constraint'')
        else Commit \<lparr>ra_ask_id = tb_next_ask db1, ra_nonce = nonce\<rparr>
               (db1\<lparr>tb_asks := tb_asks db1 @ [row], tb_next_ask := tb_next_ask db1 + 1\<rparr>))"

section \<open>Answering\<close>

definition RESOLUTION_FREE_TEXT_KEY :: rstr where "RESOLUTION_FREE_TEXT_KEY = ''free_text''"

definition resolution :: "rstr \<Rightarrow> rstr option \<Rightarrow> json" where
  "resolution choice free_text =
     (case free_text of
        Some t \<Rightarrow> jobj [(RESOLUTION_CHOICE_KEY, JStr choice), (RESOLUTION_FREE_TEXT_KEY, JStr t)]
      | None \<Rightarrow> jobj [(RESOLUTION_CHOICE_KEY, JStr choice)])"

definition reject_choice_outside_options :: "(rstr \<Rightarrow> rstr) \<Rightarrow> AskRow \<Rightarrow> json \<Rightarrow> DbError + unit" where
  "reject_choice_outside_options dbg row res =
     (let head = ''asks resolve: ask '' @ show_int (ask_id row) in
      case Option.bind (json_get res RESOLUTION_CHOICE_KEY) json_as_str of
        None \<Rightarrow> Err (OtherErr (head @ '' resolution must be an object with a string `choice`; refusing to store a decision that names no option''))
      | Some choice \<Rightarrow>
          (case json_as_array (ask_options row) of
             None \<Rightarrow> Err (OtherErr (head @ '' has a non-array `options`, so no choice can be validated against it''))
           | Some offered \<Rightarrow>
               if \<not> list_ex (\<lambda>o'. json_as_str o' = Some choice) offered
               then Err (OtherErr (head @ '' choice '' @ dbg choice @ '' is not one of the '' @ show_nat (length offered) @
                      '' options it offered '' @ em_dash @ '' refusing to record a decision the operator was never given''))
               else Ok ()))"

text \<open>\<^verbatim>\<open>finish_resolve\<close>: the task resumes in the same transaction, or nothing happens.\<close>

definition finish_resolve :: "int \<Rightarrow> int \<Rightarrow> int \<Rightarrow> 'a \<Rightarrow> 'a tx" where
  "finish_resolve now ask i answer db =
     (case resume_from_ask now i db of
        (False, _) \<Rightarrow>
          Abort (OtherErr (''asks resolve: ask '' @ show_int ask @ '' was pending but task '' @ show_int i @
            '' is not awaiting_operator '' @ em_dash @ '' refusing to resolve an ask whose task cannot resume''))
      | (True, db') \<Rightarrow> Commit answer db')"

text \<open>The \<^verbatim>\<open>UPDATE\<close> of both answers, for the rows \<open>p\<close>; at most one row has the id or the hash.\<close>

definition set_resolved :: "int \<Rightarrow> rstr \<Rightarrow> json \<Rightarrow> AskRow \<Rightarrow> AskRow" where
  "set_resolved now who res a = a\<lparr>ask_state := ''resolved'', ak_resolved_at := Some now, ak_resolved_by := Some who, ask_resolution := Some res\<rparr>"

definition resolve_rows ::
    "(rstr \<Rightarrow> rstr) \<Rightarrow> int \<Rightarrow> (AskRow \<Rightarrow> bool) \<Rightarrow> rstr \<Rightarrow> json \<Rightarrow> 'a \<Rightarrow> (AskRow \<Rightarrow> 'a) \<Rightarrow> 'a tx" where
  "resolve_rows dbg now p who res none answer db =
     (if has_nul who \<or> json_contains_nul res then Abort (QueryErr ''asks resolve: NUL'')
      else case find p (tb_asks db) of
             None \<Rightarrow> Rollback none
           | Some row \<Rightarrow>
               (case reject_choice_outside_options dbg row res of
                  Err e \<Rightarrow> Abort e
                | Ok _ \<Rightarrow>
                    finish_resolve now (ask_id row) (ask_task_id row) (answer row)
                      (db\<lparr>tb_asks := update_where p (set_resolved now who res) (tb_asks db)\<rparr>)))"

definition live_ask :: "int \<Rightarrow> AskRow \<Rightarrow> bool" where
  "live_ask now a \<longleftrightarrow> ask_state a = ''pending'' \<and> ak_deadline_at a > now"

text \<open>\<^verbatim>\<open>asks::resolve\<close>, by number: the operator's own command.\<close>

definition resolve_ask :: "(rstr \<Rightarrow> rstr) \<Rightarrow> int \<Rightarrow> int \<Rightarrow> rstr \<Rightarrow> json \<Rightarrow> bool tx" where
  "resolve_ask dbg now ask resolved_by res db =
     resolve_rows dbg now (\<lambda>a. ask_id a = ask \<and> live_ask now a) resolved_by res False (\<lambda>_. True) db"

text \<open>The operator \<^verbatim>\<open>->>\<close> of \<^verbatim>\<open>jsonb\<close>: the text of a member; \<open>print\<close> is the text of a value that is no string.\<close>

definition member_text :: "(json \<Rightarrow> rstr) \<Rightarrow> json \<Rightarrow> rstr \<Rightarrow> rstr option" where
  "member_text print v key =
     (case json_get v key of
        None \<Rightarrow> None
      | Some JNull \<Rightarrow> None
      | Some (JStr s) \<Rightarrow> Some s
      | Some w \<Rightarrow> Some (print w))"

definition belongs_to :: "(json \<Rightarrow> rstr) \<Rightarrow> Claimant \<Rightarrow> json \<Rightarrow> bool" where
  "belongs_to print c payload \<longleftrightarrow>
     member_text print payload ''kind'' = Some ''channel'' \<and>
     member_text print payload ''channel'' = Some (cl_channel c) \<and>
     member_text print payload ''peer'' = Some (cl_peer c)"

definition live_ask_for_claimant :: "(json \<Rightarrow> rstr) \<Rightarrow> int \<Rightarrow> Claimant \<Rightarrow> Tables \<Rightarrow> AskRow \<Rightarrow> bool" where
  "live_ask_for_claimant print now c db a \<longleftrightarrow>
     live_ask now a \<and> list_ex (\<lambda>t. tk_id t = ask_task_id a \<and> belongs_to print c (tk_payload t)) (tb_tasks db)"

definition any_live_nonce_for_claimant ::
    "(rstr \<Rightarrow> rstr) \<Rightarrow> (json \<Rightarrow> rstr) \<Rightarrow> int \<Rightarrow> rstr list \<Rightarrow> Claimant \<Rightarrow> bool tx" where
  "any_live_nonce_for_claimant sha_hex print now nonces c db =
     (if nonces = [] then Rollback False
      else if has_nul (cl_channel c) \<or> has_nul (cl_peer c) then Abort (QueryErr ''asks any_live_nonce_for_claimant: NUL'')
      else Rollback (list_ex (\<lambda>a. ak_nonce_sha256 a \<in> set (map sha_hex nonces) \<and> live_ask_for_claimant print now c db a) (tb_asks db)))"

definition resolve_with_nonce ::
    "(rstr \<Rightarrow> rstr) \<Rightarrow> (json \<Rightarrow> rstr) \<Rightarrow> (rstr \<Rightarrow> rstr) \<Rightarrow> int \<Rightarrow> rstr \<Rightarrow> Claimant \<Rightarrow> json \<Rightarrow> (int \<times> int) option tx" where
  "resolve_with_nonce sha_hex print dbg now nonce c res db =
     resolve_rows dbg now (\<lambda>a. ak_nonce_sha256 a = sha_hex nonce \<and> live_ask_for_claimant print now c db a)
       (attribution c) res None (\<lambda>a. Some (ask_id a, ask_task_id a)) db"

section \<open>Expiry\<close>

fun expire_rows :: "int \<Rightarrow> AskRow list \<Rightarrow> Tables \<Rightarrow> (int \<times> int) list \<times> Tables" where
  "expire_rows now [] db = ([], db)"
| "expire_rows now (a # as) db =
     (case fail_awaiting_operator now (ask_task_id a) ASK_TIMEOUT_DETAIL db of
        (failed, db1) \<Rightarrow>
          (case expire_rows now as db1 of
             (out, db2) \<Rightarrow> (if failed then (ask_id a, ask_task_id a) # out else out, db2)))"

definition overdue :: "int \<Rightarrow> AskRow \<Rightarrow> bool" where
  "overdue now a \<longleftrightarrow> ask_state a = ''pending'' \<and> ak_deadline_at a < now"

definition expire_due :: "int \<Rightarrow> (int \<times> int) list tx" where
  "expire_due now db =
     (let db1 = db\<lparr>tb_asks := update_where (overdue now) (\<lambda>a. a\<lparr>ask_state := ''expired''\<rparr>) (tb_asks db)\<rparr> in
      case expire_rows now (filter (overdue now) (tb_asks db)) db1 of
        (out, db2) \<Rightarrow> Commit out db2)"

section \<open>Reading\<close>

definition list_pending :: "int \<Rightarrow> Ask list tx" where
  "list_pending limit db =
     Rollback (map decode_ask_row (take (nat (max limit 0))
       (sort_key ak_created_at (sort_key ask_id (filter (\<lambda>a. ask_state a = ''pending'') (tb_asks db))))))"

text \<open>The newest answer first; a resolved row has its time by a check of the table.\<close>

definition resolved_for_task :: "int \<Rightarrow> Ask list tx" where
  "resolved_for_task i db =
     Rollback (map decode_ask_row
       (sort_key (\<lambda>a. case ak_resolved_at a of Some t \<Rightarrow> - t | None \<Rightarrow> 0)
          (sort_key (\<lambda>a. - ask_id a) (filter (\<lambda>a. ask_task_id a = i \<and> ask_state a = ''resolved'') (tb_asks db)))))"

definition get_ask :: "int \<Rightarrow> Ask option tx" where
  "get_ask ask db = Rollback (map_option decode_ask_row (find (\<lambda>a. ask_id a = ask) (tb_asks db)))"

section \<open>The resolver of the channels\<close>

fun show_db_error :: "DbError \<Rightarrow> rstr" where
  "show_db_error (QueryErr e) = ''postgres query failed: '' @ e"
| "show_db_error (OtherErr e) = e"
| "show_db_error (NulRefused column) = ''refusing to store a NUL (U+0000) in '' @ column"

text \<open>\<^verbatim>\<open>PgAskResolver\<close> (\<^verbatim>\<open>core/src/channel/bus.rs\<close>) on given tables; \<open>fault\<close> is what becomes of its one transaction.\<close>

definition pg_ask_resolver ::
    "(rstr \<Rightarrow> rstr) \<Rightarrow> (json \<Rightarrow> rstr) \<Rightarrow> (rstr \<Rightarrow> rstr) \<Rightarrow> int \<Rightarrow> TxFault \<Rightarrow> Tables \<Rightarrow> AskResolver" where
  "pg_ask_resolver sha_hex print dbg now fault db =
     \<lparr>ar_resolve = (\<lambda>token choice who.
         case fst (run_tx fault (resolve_with_nonce sha_hex print dbg now token \<lparr>cl_channel = fst who, cl_peer = snd who\<rparr>
                     (resolution choice None)) db) of
           Ok r \<Rightarrow> Ok r | Err e \<Rightarrow> Err (show_db_error e)),
      ar_any_live_nonce = (\<lambda>tokens who.
         case fst (run_tx fault (any_live_nonce_for_claimant sha_hex print now tokens \<lparr>cl_channel = fst who, cl_peer = snd who\<rparr>) db) of
           Ok r \<Rightarrow> Ok r | Err e \<Rightarrow> Err (show_db_error e))\<rparr>"

end
