(* ===== verification/Ask_Facts.thy ===== *)
theory Ask_Facts
  imports Ask_Table
begin

text \<open>
  The two tables under every sequence of transactions: a step relation with one rule per operation, its invariant, and
  what no step changes. The invariant ties the tables together: a task waits for the operator exactly when one ask of it
  is pending.
\<close>

section \<open>The step relation\<close>

text \<open>What \<^verbatim>\<open>Outcome::final_state\<close> hands to \<^verbatim>\<open>finalize\<close>.\<close>

definition FINAL_STATES :: "rstr list" where
  "FINAL_STATES = [''completed'', ''failed'', ''cancelled'', ''blocked'', ''timed_out'', ''refused'']"

text \<open>\<open>operators\<close> are the names under which the command line answers asks by number.\<close>

inductive tables_step ::
    "rstr set \<Rightarrow> (rstr \<Rightarrow> rstr) \<Rightarrow> (json \<Rightarrow> rstr) \<Rightarrow> (rstr \<Rightarrow> rstr) \<Rightarrow> Tables \<Rightarrow> Tables \<Rightarrow> bool"
  for operators sha_hex print dbg where
  step_insert: "tables_step operators sha_hex print dbg db (snd (run_tx fault (insert_pending now lane payload) db))"
| step_claim: "tables_step operators sha_hex print dbg db (snd (run_tx fault (claim_one_task locked local_now now lane secs') db))"
| step_finalize: "state \<in> set FINAL_STATES \<Longrightarrow>
    tables_step operators sha_hex print dbg db (snd (run_tx fault (finalize_task now i state result turn) db))"
| step_cancel: "tables_step operators sha_hex print dbg db (snd (run_tx fault (mark_cancelled now i) db))"
| step_cancel_pending: "tables_step operators sha_hex print dbg db (snd (run_tx fault (mark_cancelled_if_pending now i) db))"
| step_mark_failed: "tables_step operators sha_hex print dbg db (snd (run_tx fault (mark_failed_running now i) db))"
| step_sweep_crashed: "tables_step operators sha_hex print dbg db (snd (run_tx fault (sweep_crashed now) db))"
| step_count: "tables_step operators sha_hex print dbg db (snd (run_tx fault (increment_plan_count now i n) db))"
| step_raise: "tables_step operators sha_hex print dbg db
    (snd (run_tx fault (raise_ask sha_hex bytes now i kind body options digest deadline_at resume) db))"
| step_resolve: "who \<in> operators \<Longrightarrow>
    tables_step operators sha_hex print dbg db (snd (run_tx fault (resolve_ask dbg now ask who res) db))"
| step_resolve_nonce: "tables_step operators sha_hex print dbg db
    (snd (run_tx fault (resolve_with_nonce sha_hex print dbg now nonce c res) db))"
| step_expire: "tables_step operators sha_hex print dbg db (snd (run_tx fault (expire_due now) db))"
| step_sequence: "tb_next_task db \<le> m \<Longrightarrow> tb_next_ask db \<le> n \<Longrightarrow>
    tables_step operators sha_hex print dbg db (db\<lparr>tb_next_task := m, tb_next_ask := n\<rparr>)"

definition empty_tables :: Tables where
  "empty_tables = \<lparr>tb_tasks = [], tb_asks = [], tb_next_task = 1, tb_next_ask = 1\<rparr>"

definition tables_reach :: "rstr set \<Rightarrow> (rstr \<Rightarrow> rstr) \<Rightarrow> (json \<Rightarrow> rstr) \<Rightarrow> (rstr \<Rightarrow> rstr) \<Rightarrow> Tables \<Rightarrow> bool" where
  "tables_reach operators sha_hex print dbg db \<longleftrightarrow> (tables_step operators sha_hex print dbg)\<^sup>*\<^sup>* empty_tables db"

lemma tx_keeps: "(\<And>x db'. f db = Commit x db' \<Longrightarrow> P db') \<Longrightarrow> P db \<Longrightarrow> P (snd (run_tx fault f db))"
  by (cases fault; cases "f db") auto

section \<open>Rows\<close>

definition open_state :: "rstr \<Rightarrow> bool" where
  "open_state s \<longleftrightarrow> s \<in> {''pending'', ''running'', ''awaiting_operator''}"

definition task_row_ok :: "Task \<Rightarrow> bool" where
  "task_row_ok t \<longleftrightarrow> tk_state t \<in> set TASK_STATES \<and> (tk_finished_at t = None \<longleftrightarrow> open_state (tk_state t)) \<and>
     (tk_state t = ''running'' \<longrightarrow> tk_lease t \<noteq> None) \<and> (tk_state t = ''awaiting_operator'' \<longrightarrow> tk_lease t = None)"

definition ask_row_ok :: "AskRow \<Rightarrow> bool" where
  "ask_row_ok a \<longleftrightarrow> ask_state a \<in> {''pending'', ''resolved'', ''expired'', ''cancelled''} \<and>
     (ask_state a = ''resolved'' \<longleftrightarrow> ak_resolved_at a \<noteq> None) \<and> (ask_state a = ''resolved'' \<longleftrightarrow> ak_resolved_by a \<noteq> None) \<and>
     (ask_state a = ''resolved'' \<longleftrightarrow> ask_resolution a \<noteq> None) \<and>
     (\<forall>t. ak_resolved_at a = Some t \<longrightarrow> t < ak_deadline_at a) \<and>
     (\<forall>res. ask_resolution a = Some res \<longrightarrow> (\<exists>offered choice. ask_options a = JArr offered \<and> json_get res RESOLUTION_CHOICE_KEY = Some (JStr choice) \<and> JStr choice \<in> set offered))"

definition answered_by :: "rstr set \<Rightarrow> (json \<Rightarrow> rstr) \<Rightarrow> Task list \<Rightarrow> AskRow \<Rightarrow> bool" where
  "answered_by operators print tasks a \<longleftrightarrow>
     (\<forall>who. ak_resolved_by a = Some who \<longrightarrow>
        who \<in> operators \<or> (\<exists>t \<in> set tasks. tk_id t = ask_task_id a \<and> (\<exists>c. who = attribution c \<and> belongs_to print c (tk_payload t))))"

definition pending_of :: "int \<Rightarrow> AskRow \<Rightarrow> bool" where
  "pending_of i a \<longleftrightarrow> ask_task_id a = i \<and> ask_state a = ''pending''"

definition awaits :: "Tables \<Rightarrow> Task \<Rightarrow> bool" where
  "awaits db t \<longleftrightarrow> length (filter (pending_of (tk_id t)) (tb_asks db)) = (if tk_state t = ''awaiting_operator'' then 1 else 0)"

definition tables_inv :: "rstr set \<Rightarrow> (json \<Rightarrow> rstr) \<Rightarrow> Tables \<Rightarrow> bool" where
  "tables_inv operators print db \<longleftrightarrow>
     distinct (map tk_id (tb_tasks db)) \<and> (\<forall>t \<in> set (tb_tasks db). tk_id t < tb_next_task db) \<and>
     distinct (map ask_id (tb_asks db)) \<and> (\<forall>a \<in> set (tb_asks db). ask_id a < tb_next_ask db) \<and>
     distinct (map ak_nonce_sha256 (tb_asks db)) \<and>
     (\<forall>a \<in> set (tb_asks db). ask_row_ok a \<and> answered_by operators print (tb_tasks db) a \<and> (\<exists>t \<in> set (tb_tasks db). tk_id t = ask_task_id a)) \<and>
     (\<forall>t \<in> set (tb_tasks db). task_row_ok t \<and> awaits db t)"

lemma update_where_simps [simp]:
  "update_where p f [] = []" "update_where p f (x # xs) = (if p x then f x else x) # update_where p f xs"
  "length (update_where p f xs) = length xs"
  by (simp_all add: update_where_def)

lemma set_update_where: "set (update_where p f xs) = (\<lambda>x. if p x then f x else x) ` set xs"
  by (simp add: update_where_def)

lemma map_update_where: "(\<And>x. p x \<Longrightarrow> g (f x) = g x) \<Longrightarrow> map g (update_where p f xs) = map g xs"
  by (auto simp: update_where_def)

text \<open>A change of tasks alone, row by row.\<close>

lemma answered_by_update:
  assumes "\<And>t. p t \<Longrightarrow> tk_id (f t) = tk_id t \<and> tk_payload (f t) = tk_payload t" and "answered_by operators print tasks a"
  shows "answered_by operators print (update_where p f tasks) a"
  unfolding answered_by_def
proof (intro allI impI)
  fix who assume "ak_resolved_by a = Some who"
  then consider "who \<in> operators" | t where "t \<in> set tasks" "tk_id t = ask_task_id a" "\<exists>c. who = attribution c \<and> belongs_to print c (tk_payload t)"
    using assms(2) unfolding answered_by_def by blast
  then show "who \<in> operators \<or> (\<exists>t \<in> set (update_where p f tasks). tk_id t = ask_task_id a \<and> (\<exists>c. who = attribution c \<and> belongs_to print c (tk_payload t)))"
  proof cases
    case (2 t)
    let ?t = "if p t then f t else t"
    have "?t \<in> set (update_where p f tasks)" using 2(1) by (auto simp: set_update_where)
    moreover have "tk_id ?t = tk_id t" "tk_payload ?t = tk_payload t" using assms(1) by auto
    ultimately show ?thesis using 2(2,3) by metis
  qed simp
qed

lemma inv_update_tasks:
  assumes inv: "tables_inv operators print db"
    and f: "\<And>t. p t \<Longrightarrow> tk_id (f t) = tk_id t \<and> tk_payload (f t) = tk_payload t"
    and ok: "\<And>t. t \<in> set (tb_tasks db) \<Longrightarrow> p t \<Longrightarrow> task_row_ok t \<Longrightarrow> task_row_ok (f t) \<and> tk_state t \<noteq> ''awaiting_operator'' \<and> tk_state (f t) \<noteq> ''awaiting_operator''"
  shows "tables_inv operators print (update_tasks p f db)"
proof -
  have m: "map tk_id (update_where p f (tb_tasks db)) = map tk_id (tb_tasks db)" using f by (simp add: map_update_where)
  have t: "task_row_ok t' \<and> awaits db t' \<and> tk_id t' < tb_next_task db" if m': "t' \<in> set (update_where p f (tb_tasks db))" for t'
  proof -
    obtain t where t: "t \<in> set (tb_tasks db)" "t' = (if p t then f t else t)" using m' unfolding set_update_where by blast
    then have "task_row_ok t" "awaits db t" "tk_id t < tb_next_task db" using inv by (auto simp: tables_inv_def)
    then show ?thesis using t(2) f ok [OF t(1)] by (auto simp: awaits_def)
  qed
  have a: "answered_by operators print (update_where p f (tb_tasks db)) a" if "a \<in> set (tb_asks db)" for a
    using inv that f by (intro answered_by_update) (auto simp: tables_inv_def)
  have e: "\<exists>t \<in> set (update_where p f (tb_tasks db)). tk_id t = ask_task_id a" if "a \<in> set (tb_asks db)" for a
  proof -
    have "ask_task_id a \<in> tk_id ` set (tb_tasks db)" using inv that by (force simp: tables_inv_def)
    then have "ask_task_id a \<in> tk_id ` set (update_where p f (tb_tasks db))" using arg_cong [OF m, of set] by simp
    then show ?thesis by auto
  qed
  show ?thesis using inv m t a e unfolding tables_inv_def update_tasks_def by (simp add: awaits_def)
qed

lemma step_insert_inv:
  assumes "tables_inv operators print db" "insert_pending now lane payload db = Commit x db'"
  shows "tables_inv operators print db'"
proof -
  obtain row where db': "db' = db\<lparr>tb_tasks := tb_tasks db @ [row], tb_next_task := tb_next_task db + 1\<rparr>"
    and row: "tk_id row = tb_next_task db" "task_row_ok row" "tk_state row = ''pending''"
    using assms(2) by (auto simp: insert_pending_def Let_def task_row_ok_def open_state_def TASK_STATES_def split: sum.splits)
  have none: "filter (pending_of (tb_next_task db)) (tb_asks db) = []"
    using assms(1) unfolding tables_inv_def pending_of_def filter_empty_conv by (metis order_less_irrefl)
  have "answered_by operators print (tb_tasks db @ [row]) a" if "answered_by operators print (tb_tasks db) a" for a
    using that by (auto simp: answered_by_def)
  moreover have "awaits db' t" if "t \<in> set (tb_tasks db)" for t using assms(1) that by (auto simp: tables_inv_def awaits_def db')
  moreover have "awaits db' row" using none row by (simp add: awaits_def db')
  ultimately show ?thesis using assms(1) row unfolding tables_inv_def db' by force
qed

lemmas task_update_defs = task_row_ok_def open_state_def TASK_STATES_def FINAL_STATES_def

lemma step_claim_inv:
  assumes "tables_inv operators print db" "claim_one_task locked local_now now lane n db = Commit x db'"
  shows "tables_inv operators print db'"
proof -
  let ?c = "filter (\<lambda>t. tk_lane t = lane \<and> tk_state t = ''pending'' \<and> \<not> locked (tk_id t)) (tb_tasks db)"
  let ?f = "\<lambda>t. t\<lparr>tk_state := ''running'', tk_started_at := Some now, tk_updated_at := now, tk_lease := Some (local_now + n)\<rparr>"
  obtain t ts where s: "sort_key tk_created_at ?c = t # ts" and db': "db' = update_tasks (\<lambda>r. tk_id r = tk_id t) ?f db"
    using assms(2) by (auto simp: claim_one_task_def Let_def split: list.splits)
  have "t \<in> set ?c" using arg_cong [OF s, of set] by auto
  then have t: "t \<in> set (tb_tasks db)" "tk_state t = ''pending''" by auto
  have u: "r = t" if "r \<in> set (tb_tasks db)" "tk_id r = tk_id t" for r
    using assms(1) that t(1) by (auto simp: tables_inv_def distinct_map inj_on_def)
  show ?thesis unfolding db' by (rule inv_update_tasks [OF assms(1)]) (auto simp: task_update_defs dest!: u simp: t(2))
qed

lemma step_finalize_inv:
  assumes "tables_inv operators print db" "state \<in> set FINAL_STATES" "finalize_task now i state result turn db = Commit x db'"
  shows "tables_inv operators print db'"
proof -
  have "db' = update_tasks (\<lambda>t. tk_id t = i \<and> tk_state t = ''running'') (\<lambda>t. t\<lparr>tk_state := state, tk_result := fst (escape_opt_json result), tk_turn_record := fst (escape_opt_json turn),
                              tk_finished_at := Some now, tk_updated_at := now\<rparr>) db"
    using assms(3) by (auto simp: finalize_task_def Let_def split: if_splits)
  then show ?thesis using assms(2) by (auto intro!: inv_update_tasks [OF assms(1)] simp: task_update_defs)
qed

lemma step_cancel_pending_inv:
  assumes "tables_inv operators print db" "mark_cancelled_if_pending now i db = Commit x db'"
  shows "tables_inv operators print db'"
  using assms(2) by (auto simp: mark_cancelled_if_pending_def Let_def task_update_defs split: option.splits intro!: inv_update_tasks [OF assms(1)])

lemma step_mark_failed_inv:
  assumes "tables_inv operators print db" "mark_failed_running now i db = Commit x db'"
  shows "tables_inv operators print db'"
  using assms(2) by (auto simp: mark_failed_running_def Let_def task_update_defs intro!: inv_update_tasks [OF assms(1)])

lemma step_sweep_crashed_inv:
  assumes "tables_inv operators print db" "sweep_crashed now db = Commit x db'"
  shows "tables_inv operators print db'"
  using assms(2) by (auto simp: sweep_crashed_def Let_def task_update_defs intro!: inv_update_tasks [OF assms(1)])

lemma step_count_inv:
  assumes "tables_inv operators print db" "increment_plan_count now i n db = Commit x db'"
  shows "tables_inv operators print db'"
  using assms(2) by (auto simp: increment_plan_count_def Let_def task_update_defs intro!: inv_update_tasks [OF assms(1)])

text \<open>A change of rows of both tables: what is left to show is how the pending asks of each task are counted.\<close>

lemma inv_update_rows:
  assumes inv: "tables_inv operators print db"
    and f: "\<And>t. p t \<Longrightarrow> tk_id (f t) = tk_id t \<and> tk_payload (f t) = tk_payload t"
    and okf: "\<And>t. t \<in> set (tb_tasks db) \<Longrightarrow> p t \<Longrightarrow> task_row_ok t \<Longrightarrow> task_row_ok (f t)"
    and g: "\<And>a. q a \<Longrightarrow> ask_id (g a) = ask_id a \<and> ask_task_id (g a) = ask_task_id a \<and> ak_nonce_sha256 (g a) = ak_nonce_sha256 a"
    and okg: "\<And>a. a \<in> set (tb_asks db) \<Longrightarrow> q a \<Longrightarrow> ask_row_ok a \<Longrightarrow> ask_row_ok (g a) \<and> answered_by operators print (tb_tasks db) (g a)"
    and db': "db' = db\<lparr>tb_tasks := update_where p f (tb_tasks db), tb_asks := update_where q g (tb_asks db)\<rparr>"
    and aw: "\<And>t. t \<in> set (tb_tasks db) \<Longrightarrow> awaits db t \<Longrightarrow> awaits db' (if p t then f t else t)"
  shows "tables_inv operators print db'"
proof -
  have m: "map tk_id (update_where p f (tb_tasks db)) = map tk_id (tb_tasks db)"
    "map ask_id (update_where q g (tb_asks db)) = map ask_id (tb_asks db)"
    "map ak_nonce_sha256 (update_where q g (tb_asks db)) = map ak_nonce_sha256 (tb_asks db)"
    using f g by (simp_all add: map_update_where)
  have t: "task_row_ok t' \<and> awaits db' t' \<and> tk_id t' < tb_next_task db" if m': "t' \<in> set (update_where p f (tb_tasks db))" for t'
  proof -
    obtain t where t: "t \<in> set (tb_tasks db)" "t' = (if p t then f t else t)" using m' unfolding set_update_where by blast
    then have "task_row_ok t" "awaits db t" "tk_id t < tb_next_task db" using inv by (auto simp: tables_inv_def)
    then show ?thesis using t(2) f okf [OF t(1)] aw [OF t(1)] by auto
  qed
  have a: "ask_row_ok a' \<and> answered_by operators print (update_where p f (tb_tasks db)) a' \<and> ask_id a' < tb_next_ask db \<and>
      ask_task_id a' \<in> tk_id ` set (update_where p f (tb_tasks db))"
    if m': "a' \<in> set (update_where q g (tb_asks db))" for a'
  proof -
    obtain a where a: "a \<in> set (tb_asks db)" "a' = (if q a then g a else a)" using m' unfolding set_update_where by blast
    then have o: "ask_row_ok a" "answered_by operators print (tb_tasks db) a" "ask_id a < tb_next_ask db" "ask_task_id a \<in> tk_id ` set (tb_tasks db)"
      using inv unfolding tables_inv_def by (blast, blast, blast, force)
    have "answered_by operators print (tb_tasks db) a'" using o(1,2) okg [OF a(1)] a(2) by auto
    then have "answered_by operators print (update_where p f (tb_tasks db)) a'" using f by (intro answered_by_update)
    moreover have "ask_task_id a' \<in> tk_id ` set (update_where p f (tb_tasks db))"
      using o(4) g a(2) arg_cong [OF m(1), of set] by auto
    ultimately show ?thesis using o g okg [OF a(1)] a(2) by auto
  qed
  have "\<exists>t \<in> set (update_where p f (tb_tasks db)). tk_id t = ask_task_id a'" if "a' \<in> set (update_where q g (tb_asks db))" for a'
    using a [OF that] by auto
  then show ?thesis using inv m t a unfolding tables_inv_def db' by simp
qed

lemma pending_update:
  assumes "\<And>a. q a \<Longrightarrow> ask_task_id (g a) = ask_task_id a \<and> ask_state (g a) \<noteq> ''pending''"
  shows "length (filter (pending_of i) (update_where q g asks)) = length (filter (\<lambda>a. pending_of i a \<and> \<not> q a) asks)"
  using assms by (induction asks) (auto simp: pending_of_def)

lemma filter_none_length: "(\<And>a. a \<in> set xs \<Longrightarrow> p a \<Longrightarrow> q a) \<Longrightarrow> length (filter (\<lambda>a. p a \<and> \<not> q a) xs) = 0"
  by (auto simp: filter_empty_conv)

lemma filter_same_length: "(\<And>a. a \<in> set xs \<Longrightarrow> p a \<Longrightarrow> \<not> q a) \<Longrightarrow> length (filter (\<lambda>a. p a \<and> \<not> q a) xs) = length (filter p xs)"
  by (metis (mono_tags, lifting) filter_cong)

text \<open>An ask row that leaves the state pending without an answer stays well-formed.\<close>

lemma closed_row_ok:
  assumes "ask_row_ok a" "ask_state a = ''pending''" "s \<in> {''expired'', ''cancelled''}"
  shows "ask_row_ok (a\<lparr>ask_state := s\<rparr>)" "answered_by operators print tasks (a\<lparr>ask_state := s\<rparr>)"
  using assms by (auto simp: ask_row_ok_def answered_by_def)

lemma one_pending:
  assumes "tables_inv operators print db" "a \<in> set (tb_asks db)" "ask_state a = ''pending''"
  obtains t where "t \<in> set (tb_tasks db)" "tk_id t = ask_task_id a" "tk_state t = ''awaiting_operator''"
    "filter (pending_of (tk_id t)) (tb_asks db) = [a]"
proof -
  obtain t where t: "t \<in> set (tb_tasks db)" "tk_id t = ask_task_id a" "awaits db t"
    using assms(1,2) unfolding tables_inv_def by blast
  have a: "a \<in> set (filter (pending_of (tk_id t)) (tb_asks db))" using assms(2,3) t(2) by (simp add: pending_of_def)
  then have "length (filter (pending_of (tk_id t)) (tb_asks db)) \<noteq> 0" by (rule length_pos_if_in_set [THEN less_imp_neq, THEN not_sym])
  then have "tk_state t = ''awaiting_operator''" "length (filter (pending_of (tk_id t)) (tb_asks db)) = 1"
    using t(3) by (auto simp: awaits_def split: if_splits)
  moreover from this(2) obtain b where b: "filter (pending_of (tk_id t)) (tb_asks db) = [b]" by (auto simp: length_Suc_conv)
  moreover have "b = a" using a b by simp
  ultimately show thesis using that [OF t(1,2)] by blast
qed

section \<open>Operations on both tables\<close>

lemma cancel_for_task_eq:
  "cancel_for_task i db =
     (length (filter (pending_of i) (tb_asks db)), db\<lparr>tb_asks := update_where (pending_of i) (\<lambda>a. a\<lparr>ask_state := ''cancelled''\<rparr>) (tb_asks db)\<rparr>)"
  by (simp add: cancel_for_task_def Let_def pending_of_def [abs_def])

lemma cancel_twice:
  "update_where (pending_of i) (\<lambda>a. a\<lparr>ask_state := ''cancelled''\<rparr>) (update_where (pending_of i) (\<lambda>a. a\<lparr>ask_state := ''cancelled''\<rparr>) as) =
   update_where (pending_of i) (\<lambda>a. a\<lparr>ask_state := ''cancelled''\<rparr>) as"
  by (auto simp: update_where_def pending_of_def)

lemma step_cancel_inv:
  assumes inv: "tables_inv operators print db" and c: "mark_cancelled now i db = Commit x db'"
  shows "tables_inv operators print db'"
proof -
  let ?p = "\<lambda>t. tk_id t = i \<and> tk_state t \<in> {''pending'', ''running'', ''awaiting_operator''}"
  let ?f = "\<lambda>t. t\<lparr>tk_state := ''cancelled'', tk_finished_at := Some now, tk_updated_at := now\<rparr>"
  let ?g = "\<lambda>a. a\<lparr>ask_state := ''cancelled''\<rparr>"
  obtain t where "find ?p (tb_tasks db) = Some t"
    and db': "db' = db\<lparr>tb_tasks := update_where ?p ?f (tb_tasks db), tb_asks := update_where (pending_of i) ?g (tb_asks db)\<rparr>"
    using c by (auto simp: mark_cancelled_def cancel_for_task_eq cancel_twice update_tasks_def Let_def simp del: insert_iff split: option.splits)
  then have t: "t \<in> set (tb_tasks db)" "tk_id t = i" "open_state (tk_state t)" by (auto simp: find_Some_iff open_state_def)
  have all: "r = t" if "r \<in> set (tb_tasks db)" "tk_id r = i" for r
    using inv that t by (auto simp: tables_inv_def distinct_map inj_on_def)
  show ?thesis
  proof (rule inv_update_rows [OF inv _ _ _ _ db'])
    fix r assume r: "r \<in> set (tb_tasks db)" "awaits db r"
    have n: "length (filter (pending_of (tk_id r)) (tb_asks db')) = length (filter (\<lambda>a. pending_of (tk_id r) a \<and> \<not> pending_of i a) (tb_asks db))"
      by (simp add: db' pending_update)
    show "awaits db' (if ?p r then ?f r else r)"
    proof (cases "tk_id r = i")
      case True
      then have "?p r" using all [OF r(1)] t(3) by (auto simp: open_state_def)
      then show ?thesis using n True by (simp add: awaits_def)
    next
      case False
      have "length (filter (\<lambda>a. pending_of (tk_id r) a \<and> \<not> pending_of i a) (tb_asks db)) = length (filter (pending_of (tk_id r)) (tb_asks db))"
        by (rule filter_same_length) (use False in \<open>simp add: pending_of_def\<close>)
      then show ?thesis using n False r(2) by (simp add: awaits_def)
    qed
  qed (auto simp: task_update_defs pending_of_def closed_row_ok)
qed

lemma find_unique:
  assumes "find p xs = Some x" "distinct (map k xs)" "\<And>y. p y \<Longrightarrow> k y = c" "y \<in> set xs" "p y"
  shows "y = x"
proof -
  have "x \<in> set xs" "p x" using assms(1) by (auto simp: find_Some_iff)
  then show ?thesis using assms by (metis (no_types, lifting) distinct_map inj_on_def)
qed

lemma choice_accepted:
  assumes "reject_choice_outside_options dbg row res = Ok u"
  shows "\<exists>offered choice. ask_options row = JArr offered \<and> json_get res RESOLUTION_CHOICE_KEY = Some (JStr choice) \<and> JStr choice \<in> set offered"
proof -
  have s: "json_as_str v = Some w \<longleftrightarrow> v = JStr w" for v w by (cases v) auto
  have r: "json_as_array v = Some w \<longleftrightarrow> v = JArr w" for v w by (cases v) auto
  from assms show ?thesis
    by (auto simp: reject_choice_outside_options_def Let_def s r list_ex_iff split: option.splits if_splits bind_splits)
qed

text \<open>What an answer that commits has done, for a condition that picks rows by a key.\<close>

lemma resolve_rowsE:
  assumes "resolve_rows dbg now p who res none answer db = Commit x db'"
  obtains row where "find p (tb_asks db) = Some row" "x = answer row" "reject_choice_outside_options dbg row res = Ok ()"
    "length (filter (\<lambda>t. tk_id t = ask_task_id row \<and> tk_state t = ''awaiting_operator'') (tb_tasks db)) = 1"
    "db' = db\<lparr>tb_tasks := update_where (\<lambda>t. tk_id t = ask_task_id row \<and> tk_state t = ''awaiting_operator'')
                 (\<lambda>t. t\<lparr>tk_state := ''pending'', tk_updated_at := now\<rparr>) (tb_tasks db),
               tb_asks := update_where p (set_resolved now who res) (tb_asks db)\<rparr>"
  using assms
  by (auto simp: resolve_rows_def finish_resolve_def resume_from_ask_def update_tasks_def Let_def
      split: if_splits option.splits sum.splits prod.splits bool.splits)

lemma resolve_rows_inv:
  assumes inv: "tables_inv operators print db" and r: "resolve_rows dbg now p who res none answer db = Commit x db'"
    and live: "\<And>a. p a \<Longrightarrow> live_ask now a"
    and uniq: "\<And>a b. a \<in> set (tb_asks db) \<Longrightarrow> b \<in> set (tb_asks db) \<Longrightarrow> p a \<Longrightarrow> p b \<Longrightarrow> a = b"
    and by': "\<And>a. a \<in> set (tb_asks db) \<Longrightarrow> p a \<Longrightarrow> answered_by operators print (tb_tasks db) (set_resolved now who res a)"
  shows "tables_inv operators print db'"
proof -
  from r obtain row where row: "find p (tb_asks db) = Some row" and c: "reject_choice_outside_options dbg row res = Ok ()"
    and db': "db' = db\<lparr>tb_tasks := update_where (\<lambda>t. tk_id t = ask_task_id row \<and> tk_state t = ''awaiting_operator'')
                 (\<lambda>t. t\<lparr>tk_state := ''pending'', tk_updated_at := now\<rparr>) (tb_tasks db),
               tb_asks := update_where p (set_resolved now who res) (tb_asks db)\<rparr>" by (rule resolve_rowsE)
  have m: "row \<in> set (tb_asks db)" "p row" using row by (auto simp: find_Some_iff)
  have pend: "ask_state row = ''pending''" using live [OF m(2)] by (simp add: live_ask_def)
  obtain t where t: "t \<in> set (tb_tasks db)" "tk_id t = ask_task_id row" "tk_state t = ''awaiting_operator''"
    "filter (pending_of (tk_id t)) (tb_asks db) = [row]" using one_pending [OF inv m(1) pend] .
  have only: "a = row" if "a \<in> set (tb_asks db)" "pending_of (tk_id t) a" for a
  proof -
    have "a \<in> set (filter (pending_of (tk_id t)) (tb_asks db))" using that by simp
    then show ?thesis using t(4) by simp
  qed
  have task: "r = t" if "r \<in> set (tb_tasks db)" "tk_id r = ask_task_id row" for r
    using inv that t(1,2) by (auto simp: tables_inv_def distinct_map inj_on_def)
  have res: "ask_row_ok (set_resolved now who res a)" if "a \<in> set (tb_asks db)" "p a" "ask_row_ok a" for a
    using that uniq [OF that(1) m(1) that(2) m(2)] choice_accepted [OF c] live [OF that(2)]
    by (auto simp: ask_row_ok_def set_resolved_def live_ask_def)
  show ?thesis
  proof (rule inv_update_rows [OF inv _ _ _ _ db'])
    fix r assume r: "r \<in> set (tb_tasks db)" "awaits db r"
    let ?r = "if tk_id r = ask_task_id row \<and> tk_state r = ''awaiting_operator'' then r\<lparr>tk_state := ''pending'', tk_updated_at := now\<rparr> else r"
    have n: "length (filter (pending_of (tk_id r)) (tb_asks db')) = length (filter (\<lambda>a. pending_of (tk_id r) a \<and> \<not> p a) (tb_asks db))"
      by (simp add: db' pending_update set_resolved_def)
    show "awaits db' ?r"
    proof (cases "tk_id r = ask_task_id row")
      case True
      then have "r = t" using task r(1) by blast
      moreover have "length (filter (\<lambda>a. pending_of (tk_id t) a \<and> \<not> p a) (tb_asks db)) = 0"
        by (rule filter_none_length) (use only m(2) in blast)
      ultimately show ?thesis using n t(2,3) by (simp add: awaits_def)
    next
      case False
      have "length (filter (\<lambda>a. pending_of (tk_id r) a \<and> \<not> p a) (tb_asks db)) = length (filter (pending_of (tk_id r)) (tb_asks db))"
        by (rule filter_same_length) (use uniq m False in \<open>metis pending_of_def\<close>)
      then show ?thesis using n False r(2) by (simp add: awaits_def)
    qed
  qed (use res by' in \<open>auto simp: task_update_defs set_resolved_def\<close>)
qed

lemma step_resolve_inv:
  assumes "tables_inv operators print db" "who \<in> operators" "resolve_ask dbg now ask who res db = Commit x db'"
  shows "tables_inv operators print db'"
proof (rule resolve_rows_inv [OF assms(1) assms(3) [unfolded resolve_ask_def]])
  show "a = b" if "a \<in> set (tb_asks db)" "b \<in> set (tb_asks db)" "ask_id a = ask \<and> live_ask now a" "ask_id b = ask \<and> live_ask now b" for a b
    using assms(1) that by (auto simp: tables_inv_def distinct_map inj_on_def)
qed (use assms(2) in \<open>auto simp: answered_by_def set_resolved_def\<close>)

lemma step_resolve_nonce_inv:
  assumes "tables_inv operators print db" "resolve_with_nonce sha_hex print dbg now nonce c res db = Commit x db'"
  shows "tables_inv operators print db'"
proof (rule resolve_rows_inv [OF assms(1) assms(2) [unfolded resolve_with_nonce_def]])
  show "a = b" if "a \<in> set (tb_asks db)" "b \<in> set (tb_asks db)" "ak_nonce_sha256 a = sha_hex nonce \<and> live_ask_for_claimant print now c db a"
    "ak_nonce_sha256 b = sha_hex nonce \<and> live_ask_for_claimant print now c db b" for a b
    using assms(1) that by (auto simp: tables_inv_def distinct_map inj_on_def)
  show "answered_by operators print (tb_tasks db) (set_resolved now (attribution c) res a)"
    if "ak_nonce_sha256 a = sha_hex nonce \<and> live_ask_for_claimant print now c db a" for a
    using that by (auto simp: answered_by_def set_resolved_def live_ask_for_claimant_def list_ex_iff)
qed (simp add: live_ask_for_claimant_def)

text \<open>Expiry fails exactly the waiting tasks of the rows it closed.\<close>

definition failed_for :: "int \<Rightarrow> int set \<Rightarrow> Task list \<Rightarrow> Task list" where
  "failed_for now ids tasks =
     update_where (\<lambda>t. tk_id t \<in> ids \<and> tk_state t = ''awaiting_operator'')
       (\<lambda>t. t\<lparr>tk_state := ''failed'', tk_result := Some (error_result ASK_TIMEOUT_DETAIL), tk_finished_at := Some now, tk_updated_at := now\<rparr>) tasks"

lemma failed_for_step:
  "snd (fail_awaiting_operator now i ASK_TIMEOUT_DETAIL db) = db\<lparr>tb_tasks := failed_for now {i} (tb_tasks db)\<rparr>"
  by (simp add: fail_awaiting_operator_def update_tasks_def failed_for_def Let_def)

lemma failed_for_twice: "failed_for now B (failed_for now A tasks) = failed_for now (A \<union> B) tasks"
  by (auto simp: failed_for_def update_where_def)

lemma expire_rows_tables:
  "snd (expire_rows now as db) = db\<lparr>tb_tasks := failed_for now (ask_task_id ` set as) (tb_tasks db)\<rparr>"
proof (induction as arbitrary: db)
  case Nil
  then show ?case by (simp add: failed_for_def update_where_def)
next
  case (Cons a as)
  show ?case
    using Cons.IH [of "snd (fail_awaiting_operator now (ask_task_id a) ASK_TIMEOUT_DETAIL db)"]
    by (simp add: failed_for_step failed_for_twice case_prod_unfold)
qed

lemma expire_due_tables:
  assumes "expire_due now db = Commit x db'"
  shows "db' = db\<lparr>tb_tasks := failed_for now (ask_task_id ` {a \<in> set (tb_asks db). overdue now a}) (tb_tasks db),
                 tb_asks := update_where (overdue now) (\<lambda>a. a\<lparr>ask_state := ''expired''\<rparr>) (tb_asks db)\<rparr>"
proof -
  let ?db = "db\<lparr>tb_asks := update_where (overdue now) (\<lambda>a. a\<lparr>ask_state := ''expired''\<rparr>) (tb_asks db)\<rparr>"
  have "db' = snd (expire_rows now (filter (overdue now) (tb_asks db)) ?db)"
    using assms by (auto simp: expire_due_def Let_def split: prod.splits)
  then show ?thesis by (simp add: expire_rows_tables)
qed

lemma step_expire_inv:
  assumes inv: "tables_inv operators print db" and e: "expire_due now db = Commit x db'"
  shows "tables_inv operators print db'"
proof (rule inv_update_rows [OF inv _ _ _ _ expire_due_tables [OF e, unfolded failed_for_def]])
  fix r assume r: "r \<in> set (tb_tasks db)" "awaits db r"
  let ?I = "ask_task_id ` {a \<in> set (tb_asks db). overdue now a}"
  have n: "length (filter (pending_of i) (tb_asks db')) = length (filter (\<lambda>a. pending_of i a \<and> \<not> overdue now a) (tb_asks db))" for i
    by (simp add: expire_due_tables [OF e] pending_update)
  show "awaits db' (if tk_id r \<in> ?I \<and> tk_state r = ''awaiting_operator''
    then r\<lparr>tk_state := ''failed'', tk_result := Some (error_result ASK_TIMEOUT_DETAIL), tk_finished_at := Some now, tk_updated_at := now\<rparr> else r)"
  proof (cases "tk_id r \<in> ?I")
    case True
    then obtain a where a: "a \<in> set (tb_asks db)" "overdue now a" "ask_task_id a = tk_id r" by auto
    obtain t where t: "t \<in> set (tb_tasks db)" "tk_id t = ask_task_id a" "tk_state t = ''awaiting_operator''"
      "filter (pending_of (tk_id t)) (tb_asks db) = [a]" using one_pending [OF inv a(1)] a(2) by (auto simp: overdue_def)
    have "r = t" using inv r(1) t(1,2) a(3) by (auto simp: tables_inv_def distinct_map inj_on_def)
    moreover have "length (filter (\<lambda>b. pending_of (tk_id t) b \<and> \<not> overdue now b) (tb_asks db)) = 0"
    proof (rule filter_none_length)
      fix b assume "b \<in> set (tb_asks db)" "pending_of (tk_id t) b"
      then have "b \<in> set (filter (pending_of (tk_id t)) (tb_asks db))" by simp
      then show "overdue now b" using t(4) a(2) by simp
    qed
    ultimately show ?thesis using n True t(3) by (simp add: awaits_def)
  next
    case False
    have "length (filter (\<lambda>a. pending_of (tk_id r) a \<and> \<not> overdue now a) (tb_asks db)) = length (filter (pending_of (tk_id r)) (tb_asks db))"
      by (rule filter_same_length) (use False in \<open>metis (mono_tags, lifting) image_eqI mem_Collect_eq pending_of_def\<close>)
    then show ?thesis using n False r(2) by (simp add: awaits_def)
  qed
qed (auto simp: task_update_defs overdue_def closed_row_ok)

text \<open>What raising an ask has done when it commits.\<close>

lemma raise_askE:
  assumes "raise_ask sha_hex bytes now i kind body options digest deadline_at resume db = Commit x db'"
  obtains row where "ask_insertable (snd (suspend_for_ask now i db)) row" "fst (suspend_for_ask now i db)"
    "ask_id row = tb_next_ask db" "ask_task_id row = i" "ask_state row = ''pending''" "ask_row_ok row" "ak_resolved_by row = None"
    "ask_plan_digest row = digest" "ask_options row = options" "ak_deadline_at row = deadline_at" "ak_nonce_sha256 row = sha_hex (generate_nonce bytes)"
    "x = \<lparr>ra_ask_id = tb_next_ask db, ra_nonce = generate_nonce bytes\<rparr>"
    "db' = db\<lparr>tb_tasks := update_where (\<lambda>t. tk_id t = i \<and> tk_state t = ''running'')
                 (\<lambda>t. t\<lparr>tk_state := ''awaiting_operator'', tk_lease := None, tk_updated_at := now\<rparr>) (tb_tasks db),
               tb_asks := tb_asks db @ [row], tb_next_ask := tb_next_ask db + 1\<rparr>"
proof -
  let ?row = "\<lparr>ask_id = tb_next_ask db, ask_task_id = i, ask_kind = kind, ask_body = fst (escape_str body), ask_options = options,
     ask_plan_digest = digest, ask_state = ''pending'', ask_resolution = None,
     ask_resume_state = (case (case resume of Some v \<Rightarrow> if json_contains_nul v then fst (escape_opt_json (Some v)) else None | None \<Rightarrow> None)
                           of Some v \<Rightarrow> Some v | None \<Rightarrow> resume),
     ak_nonce_sha256 = sha_hex (generate_nonce bytes), ak_created_at = now, ak_deadline_at = deadline_at,
     ak_resolved_at = None, ak_resolved_by = None\<rparr>"
  have next': "tb_next_ask (snd (suspend_for_ask now i db)) = tb_next_ask db" by (simp add: suspend_for_ask_def update_tasks_def Let_def)
  have s: "fst (suspend_for_ask now i db)" "ask_insertable (snd (suspend_for_ask now i db)) ?row"
    "x = \<lparr>ra_ask_id = tb_next_ask db, ra_nonce = generate_nonce bytes\<rparr>"
    "db' = (snd (suspend_for_ask now i db))\<lparr>tb_asks := tb_asks (snd (suspend_for_ask now i db)) @ [?row], tb_next_ask := tb_next_ask db + 1\<rparr>"
    using assms unfolding raise_ask_def Let_def by (auto simp: case_prod_unfold next' split: if_splits)
  show thesis
    by (rule that [of ?row]) (use s in \<open>simp_all add: ask_row_ok_def suspend_for_ask_def update_tasks_def Let_def\<close>)
qed

lemma step_raise_inv:
  assumes inv: "tables_inv operators print db"
    and c: "raise_ask sha_hex bytes now i kind body options digest deadline_at resume db = Commit x db'"
  shows "tables_inv operators print db'"
proof -
  let ?p = "\<lambda>t. tk_id t = i \<and> tk_state t = ''running''"
  let ?f = "\<lambda>t. t\<lparr>tk_state := ''awaiting_operator'', tk_lease := None, tk_updated_at := now\<rparr>"
  obtain row where row: "ask_insertable (snd (suspend_for_ask now i db)) row" "fst (suspend_for_ask now i db)"
    "ask_id row = tb_next_ask db" "ask_task_id row = i" "ask_state row = ''pending''" "ask_row_ok row" "ak_resolved_by row = None"
    and db': "db' = db\<lparr>tb_tasks := update_where ?p ?f (tb_tasks db), tb_asks := tb_asks db @ [row], tb_next_ask := tb_next_ask db + 1\<rparr>"
    by (rule raise_askE [OF c]) (rule that; assumption)
  have asks: "tb_asks (snd (suspend_for_ask now i db)) = tb_asks db" by (simp add: suspend_for_ask_def update_tasks_def Let_def)
  have fresh: "ak_nonce_sha256 row \<notin> ak_nonce_sha256 ` set (tb_asks db)" using row(1) by (auto simp: ask_insertable_def asks list_ex_iff)
  have none: "filter (pending_of i) (tb_asks db) = []"
    using row(1,4) by (auto simp: ask_insertable_def asks list_ex_iff filter_empty_conv pending_of_def)
  obtain t where t: "t \<in> set (tb_tasks db)" "tk_id t = i" "tk_state t = ''running''"
  proof -
    have "filter ?p (tb_tasks db) \<noteq> []" using row(2) by (auto simp: suspend_for_ask_def Let_def)
    then show thesis using that by (auto simp: filter_empty_conv)
  qed
  have all: "r = t" if "r \<in> set (tb_tasks db)" "tk_id r = i" for r
    using inv that t by (auto simp: tables_inv_def distinct_map inj_on_def)
  have m: "map tk_id (update_where ?p ?f (tb_tasks db)) = map tk_id (tb_tasks db)" by (simp add: map_update_where)
  have rows: "task_row_ok t' \<and> awaits db' t' \<and> tk_id t' < tb_next_task db" if m': "t' \<in> set (update_where ?p ?f (tb_tasks db))" for t'
  proof -
    obtain r where r: "r \<in> set (tb_tasks db)" "t' = (if ?p r then ?f r else r)" using m' unfolding set_update_where by blast
    then have i: "task_row_ok r" "awaits db r" "tk_id r < tb_next_task db" using inv by (auto simp: tables_inv_def)
    have "awaits db' t'"
    proof (cases "tk_id r = i")
      case True
      then have "?p r" using all [OF r(1)] t(3) by simp
      then show ?thesis using r(2) none row(4,5) True by (simp add: awaits_def db' pending_of_def [of i row])
    next
      case False
      then show ?thesis using r(2) i(2) row(4) by (simp add: awaits_def db' pending_of_def [of _ row])
    qed
    then show ?thesis using i r(2) by (auto simp: task_update_defs)
  qed
  have in': "ask_task_id a \<in> tk_id ` set (update_where ?p ?f (tb_tasks db))" if "a \<in> set (tb_asks db) \<or> a = row" for a
  proof -
    have "ask_task_id a \<in> tk_id ` set (tb_tasks db)" using that inv t row(4) unfolding tables_inv_def by (metis image_eqI)
    then show ?thesis using arg_cong [OF m, of set] by simp
  qed
  have ans: "answered_by operators print (update_where ?p ?f (tb_tasks db)) a" if "a \<in> set (tb_asks db) \<or> a = row" for a
    using that inv row(7) by (intro answered_by_update) (auto simp: tables_inv_def answered_by_def)
  have ask: "ask_row_ok a \<and> ask_id a < tb_next_ask db + 1" if "a \<in> set (tb_asks db) \<or> a = row" for a
    using that inv row(3,6) unfolding tables_inv_def by (smt (verit, best))
  have d: "distinct (map ask_id (tb_asks db @ [row]))" "distinct (map ak_nonce_sha256 (tb_asks db @ [row]))"
    using inv row(3) fresh unfolding tables_inv_def by (auto dest: bspec)
  have "\<exists>t \<in> set (update_where ?p ?f (tb_tasks db)). tk_id t = ask_task_id a" if "a \<in> set (tb_asks db) \<or> a = row" for a
    using in' [OF that] by auto
  then show ?thesis using inv m rows ans ask d unfolding tables_inv_def db' by simp
qed

lemmas tables_tx_inv = step_insert_inv step_claim_inv step_finalize_inv step_cancel_inv step_cancel_pending_inv step_mark_failed_inv
  step_sweep_crashed_inv step_count_inv step_raise_inv step_resolve_inv step_resolve_nonce_inv step_expire_inv

lemma tables_step_inv:
  assumes "tables_step operators sha_hex print dbg db db'" "tables_inv operators print db"
  shows "tables_inv operators print db'"
  using assms
proof (induction rule: tables_step.induct)
  case (step_sequence db m n)
  then show ?case by (auto simp: tables_inv_def awaits_def)
qed (rule tx_keeps, (rule tables_tx_inv; assumption), assumption)+

lemma tables_reach_inv: "tables_reach operators sha_hex print dbg db \<Longrightarrow> tables_inv operators print db"
  unfolding tables_reach_def
proof (induction rule: rtranclp_induct)
  case base
  then show ?case by (simp add: tables_inv_def empty_tables_def)
next
  case (step db db')
  then show ?case using tables_step_inv by blast
qed

end
