(* ===== verification/Ask_Spec.thy ===== *)
theory Ask_Spec
  imports Ask_Facts
begin

text \<open>
  What the tables promise the scheduler, the operator and the channels: waiting tasks and pending asks match, answers are
  final, a token answers once and only for the peer it was sent to, and overdue asks fail their tasks.
\<close>

section \<open>Closed rows\<close>

definition keeps_closed :: "Tables \<Rightarrow> Tables \<Rightarrow> bool" where
  "keeps_closed db db' \<longleftrightarrow> (\<forall>a \<in> set (tb_asks db). ask_state a \<noteq> ''pending'' \<longrightarrow> a \<in> set (tb_asks db')) \<and>
     (\<forall>t \<in> set (tb_tasks db). \<not> open_state (tk_state t) \<longrightarrow> t \<in> set (tb_tasks db'))"

lemma keeps_closed_refl [simp]: "keeps_closed db db"
  by (simp add: keeps_closed_def)

lemma in_update_where: "x \<in> set xs \<Longrightarrow> \<not> p x \<Longrightarrow> x \<in> set (update_where p f xs)"
  by (force simp: set_update_where)

lemma upd_in_update_where: "x \<in> set xs \<Longrightarrow> p x \<Longrightarrow> f x \<in> set (update_where p f xs)"
  by (force simp: set_update_where)

lemma keeps_closed_rows:
  assumes "\<And>t. t \<in> set (tb_tasks db) \<Longrightarrow> p t \<Longrightarrow> open_state (tk_state t)" "\<And>a. a \<in> set (tb_asks db) \<Longrightarrow> q a \<Longrightarrow> ask_state a = ''pending''"
  shows "keeps_closed db (db\<lparr>tb_tasks := update_where p f (tb_tasks db), tb_asks := update_where q g (tb_asks db)\<rparr>)"
  using assms by (auto simp: keeps_closed_def intro!: in_update_where)

lemma keeps_closed_tasks:
  assumes "\<And>t. t \<in> set (tb_tasks db) \<Longrightarrow> p t \<Longrightarrow> open_state (tk_state t)"
  shows "keeps_closed db (update_tasks p f db)"
  using assms by (auto simp: keeps_closed_def update_tasks_def intro!: in_update_where)

lemma insert_keeps: "insert_pending now lane payload db = Commit x db' \<Longrightarrow> keeps_closed db db'"
  by (auto simp: insert_pending_def Let_def keeps_closed_def split: sum.splits)

lemma claim_keeps:
  assumes "tables_inv operators print db" "claim_one_task locked local_now now lane n db = Commit x db'"
  shows "keeps_closed db db'"
proof -
  let ?c = "filter (\<lambda>t. tk_lane t = lane \<and> tk_state t = ''pending'' \<and> \<not> locked (tk_id t)) (tb_tasks db)"
  obtain t ts f where s: "sort_key tk_created_at ?c = t # ts" and db': "db' = update_tasks (\<lambda>r. tk_id r = tk_id t) f db"
    using assms(2) by (auto simp: claim_one_task_def Let_def split: list.splits)
  have "t \<in> set ?c" using arg_cong [OF s, of set] by auto
  then have t: "t \<in> set (tb_tasks db)" "tk_state t = ''pending''" by auto
  have "r = t" if "r \<in> set (tb_tasks db)" "tk_id r = tk_id t" for r
    using assms(1) that t(1) by (auto simp: tables_inv_def distinct_map inj_on_def)
  then show ?thesis unfolding db' using t(2) by (intro keeps_closed_tasks) (auto simp: open_state_def)
qed

lemma finalize_keeps: "finalize_task now i state result turn db = Commit x db' \<Longrightarrow> keeps_closed db db'"
  by (auto simp: finalize_task_def Let_def open_state_def split: if_splits intro!: keeps_closed_tasks)

lemma cancel_pending_keeps: "mark_cancelled_if_pending now i db = Commit x db' \<Longrightarrow> keeps_closed db db'"
  by (auto simp: mark_cancelled_if_pending_def Let_def open_state_def split: option.splits intro!: keeps_closed_tasks)

lemma mark_failed_keeps: "mark_failed_running now i db = Commit x db' \<Longrightarrow> keeps_closed db db'"
  by (auto simp: mark_failed_running_def Let_def open_state_def intro!: keeps_closed_tasks)

lemma sweep_crashed_keeps: "sweep_crashed now db = Commit x db' \<Longrightarrow> keeps_closed db db'"
  by (auto simp: sweep_crashed_def Let_def open_state_def intro!: keeps_closed_tasks)

lemma count_keeps: "increment_plan_count now i n db = Commit x db' \<Longrightarrow> keeps_closed db db'"
  by (auto simp: increment_plan_count_def open_state_def intro!: keeps_closed_tasks)

lemma cancel_keeps:
  assumes "mark_cancelled now i db = Commit x db'"
  shows "keeps_closed db db'"
proof -
  let ?p = "\<lambda>t. tk_id t = i \<and> tk_state t \<in> {''pending'', ''running'', ''awaiting_operator''}"
  let ?f = "\<lambda>t. t\<lparr>tk_state := ''cancelled'', tk_finished_at := Some now, tk_updated_at := now\<rparr>"
  have "db' = db\<lparr>tb_tasks := update_where ?p ?f (tb_tasks db),
                tb_asks := update_where (pending_of i) (\<lambda>a. a\<lparr>ask_state := ''cancelled''\<rparr>) (tb_asks db)\<rparr>"
    using assms by (auto simp: mark_cancelled_def cancel_for_task_eq cancel_twice update_tasks_def Let_def simp del: insert_iff split: option.splits)
  then show ?thesis by (simp only:) (rule keeps_closed_rows, auto simp: open_state_def pending_of_def)
qed

lemma raise_keeps:
  assumes "raise_ask sha_hex bytes now i kind body options digest deadline_at resume db = Commit x db'"
  shows "keeps_closed db db'"
  by (rule raise_askE [OF assms]) (auto simp: keeps_closed_def open_state_def intro!: in_update_where)

lemma resolve_rows_keeps:
  assumes "resolve_rows dbg now p who res none answer db = Commit x db'" "\<And>a. p a \<Longrightarrow> live_ask now a"
  shows "keeps_closed db db'"
  by (rule resolve_rowsE [OF assms(1)]) (use assms(2) in \<open>auto simp: open_state_def live_ask_def intro!: keeps_closed_rows\<close>)

lemma resolve_keeps: "resolve_ask dbg now ask who res db = Commit x db' \<Longrightarrow> keeps_closed db db'"
  unfolding resolve_ask_def by (erule resolve_rows_keeps) simp

lemma resolve_nonce_keeps: "resolve_with_nonce sha_hex print dbg now nonce c res db = Commit x db' \<Longrightarrow> keeps_closed db db'"
  unfolding resolve_with_nonce_def by (erule resolve_rows_keeps) (simp add: live_ask_for_claimant_def)

lemma expire_keeps:
  assumes "expire_due now db = Commit x db'"
  shows "keeps_closed db db'"
  unfolding expire_due_tables [OF assms] failed_for_def by (rule keeps_closed_rows) (auto simp: open_state_def overdue_def)

lemmas tables_tx_keeps = insert_keeps claim_keeps finalize_keeps cancel_keeps cancel_pending_keeps mark_failed_keeps
  sweep_crashed_keeps count_keeps raise_keeps resolve_keeps resolve_nonce_keeps expire_keeps

lemma tables_step_keeps:
  assumes "tables_step operators sha_hex print dbg db db'" "tables_inv operators print db"
  shows "keeps_closed db db'"
  using assms
proof (induction rule: tables_step.induct)
  case (step_sequence db m n)
  then show ?case by (simp add: keeps_closed_def)
qed (rule tx_keeps, (rule tables_tx_keeps; assumption), rule keeps_closed_refl)+

lemma tables_steps_keep:
  assumes "(tables_step operators sha_hex print dbg)\<^sup>*\<^sup>* db db'" "tables_inv operators print db"
  shows "keeps_closed db db' \<and> tables_inv operators print db'"
  using assms(1)
proof (induction rule: rtranclp_induct)
  case (step d d')
  then have "keeps_closed d d'" "tables_inv operators print d'" using tables_step_keeps tables_step_inv by blast+
  then show ?case using step.IH unfolding keeps_closed_def by blast
qed (use assms(2) in simp)

section \<open>The operator and the tables\<close>


text \<open>A task from a channel is claimed, suspended on an ask, and approved by its peer.\<close>

definition demo_payload :: json where
  "demo_payload = jobj [(''kind'', JStr ''channel''), (''channel'', JStr ''email''), (''peer'', JStr ''ann''), (''conversation'', JStr ''c1'')]"

definition demo_asked :: Tables where
  "demo_asked =
     snd (run_tx TxFine (raise_ask rev ''abcde'' 2 1 ''plan_approval'' ''delete?'' (JArr [JStr ''approve'', JStr ''deny'']) (Some ''d1'') 9 None)
       (snd (run_tx TxFine (claim_one_task (\<lambda>_. False) 1 1 FastLane 60)
         (snd (run_tx TxFine (insert_pending 0 FastLane demo_payload) empty_tables)))))"

definition demo_answered :: Tables where
  "demo_answered =
     snd (run_tx TxFine (resolve_with_nonce rev (\<lambda>_. []) id 5 (generate_nonce ''abcde'') \<lparr>cl_channel = ''email'', cl_peer = ''ann''\<rparr>
       (resolution ''approve'' None)) demo_asked)"

lemma demo_asked_reach: "tables_reach {} rev (\<lambda>_. []) id demo_asked"
  unfolding tables_reach_def demo_asked_def
  by (rule rtranclp.rtrancl_into_rtrancl, rule rtranclp.rtrancl_into_rtrancl, rule rtranclp.rtrancl_into_rtrancl,
      rule rtranclp.rtrancl_refl, rule step_insert, rule step_claim, rule step_raise)

lemma demo_answered_reach: "tables_reach {} rev (\<lambda>_. []) id demo_answered"
  using demo_asked_reach unfolding tables_reach_def demo_answered_def
  by (rule rtranclp.rtrancl_into_rtrancl) (rule step_resolve_nonce)

lemma demo_asked_rows:
  "map (\<lambda>t. (tk_id t, tk_state t, tk_lease t)) (tb_tasks demo_asked) = [(1, ''awaiting_operator'', None)]"
  "map (\<lambda>a. (ask_id a, ask_task_id a, ask_state a)) (tb_asks demo_asked) = [(1, 1, ''pending'')]"
  "map ak_nonce_sha256 (tb_asks demo_asked) = [rev (generate_nonce ''abcde'')]" "map ak_deadline_at (tb_asks demo_asked) = [9]"
  by code_simp+

lemma demo_answered_rows:
  "map (\<lambda>t. (tk_id t, tk_state t, tk_payload t)) (tb_tasks demo_answered) = [(1, ''pending'', demo_payload)]"
  "map (\<lambda>a. (ask_id a, ask_task_id a, ask_state a, ak_resolved_by a)) (tb_asks demo_answered) = [(1, 1, ''resolved'', Some ''email/ann'')]"
  by code_simp+


text \<open>An ask that was answered, has expired or was cancelled, and a task that has ended, stay as they are, whatever happens
  later: no transaction, failed or not, changes a column of such a row.\<close>

theorem closed_rows_are_final:
  assumes "tables_reach operators sha_hex print dbg db" and "(tables_step operators sha_hex print dbg)\<^sup>*\<^sup>* db db'"
  shows "(\<forall>a \<in> set (tb_asks db). ask_state a \<noteq> ''pending'' \<longrightarrow> a \<in> set (tb_asks db')) \<and>
    (\<forall>t \<in> set (tb_tasks db). \<not> open_state (tk_state t) \<longrightarrow> t \<in> set (tb_tasks db'))"
  using tables_steps_keep [OF assms(2) tables_reach_inv [OF assms(1)]] unfolding keeps_closed_def by blast

lemma closed_rows_are_final_witness:
  "\<exists>a \<in> set (tb_asks demo_answered). ask_state a = ''resolved'' \<and>
     a \<in> set (tb_asks (snd (run_tx TxFine (mark_cancelled 6 1) demo_answered)))"
proof -
  obtain a where "a \<in> set (tb_asks demo_answered)" "ask_state a = ''resolved''" using demo_answered_rows(2) by auto
  moreover have "(tables_step {} rev (\<lambda>_. []) id)\<^sup>*\<^sup>* demo_answered (snd (run_tx TxFine (mark_cancelled 6 1) demo_answered))"
    by (rule r_into_rtranclp) (rule step_cancel)
  ultimately show ?thesis using closed_rows_are_final [OF demo_answered_reach] by fastforce
qed

section \<open>A token answers once\<close>

definition resolvable :: "(rstr \<Rightarrow> rstr) \<Rightarrow> (json \<Rightarrow> rstr) \<Rightarrow> int \<Rightarrow> rstr \<Rightarrow> Claimant \<Rightarrow> rstr \<Rightarrow> Tables \<Rightarrow> AskRow \<Rightarrow> bool" where
  "resolvable sha_hex print now nonce c choice db a \<longleftrightarrow> a \<in> set (tb_asks db) \<and> ak_nonce_sha256 a = sha_hex nonce \<and>
     live_ask_for_claimant print now c db a \<and> (\<exists>offered. ask_options a = JArr offered \<and> JStr choice \<in> set offered)"

lemma reject_choice_iff:
  "reject_choice_outside_options dbg a (resolution choice None) = Ok () \<longleftrightarrow> (\<exists>offered. ask_options a = JArr offered \<and> JStr choice \<in> set offered)"
proof -
  have s: "json_as_str v = Some w \<longleftrightarrow> v = JStr w" for v w by (cases v) auto
  have g: "json_get (resolution choice None) RESOLUTION_CHOICE_KEY = Some (JStr choice)" by (simp add: resolution_def json_get_jobj)
  show ?thesis by (cases "ask_options a") (auto simp: reject_choice_outside_options_def Let_def g s list_ex_iff)
qed

lemma resolution_clean [simp]: "json_contains_nul (resolution choice None) \<longleftrightarrow> has_nul choice"
  by (simp add: resolution_def jobj_def has_nul_def RESOLUTION_CHOICE_KEY_def NUL_def)

lemma attribution_clean [simp]: "has_nul (attribution c) \<longleftrightarrow> has_nul (cl_channel c) \<or> has_nul (cl_peer c)"
  by (auto simp: attribution_def has_nul_def NUL_def)

lemma token_unique:
  assumes "tables_inv operators print db" "a \<in> set (tb_asks db)" "b \<in> set (tb_asks db)" "ak_nonce_sha256 a = ak_nonce_sha256 b"
  shows "a = b"
  using assms by (auto simp: tables_inv_def distinct_map inj_on_def)

lemma filter_one_id:
  assumes "distinct (map tk_id ts)" "t \<in> set ts" "tk_id t = i" "tk_state t = s"
  shows "length (filter (\<lambda>t. tk_id t = i \<and> tk_state t = s) ts) = 1"
  using assms
proof (induction ts)
  case (Cons x ts)
  then show ?case
  proof (cases "tk_id x = i")
    case True
    then have "\<forall>y \<in> set ts. tk_id y \<noteq> i" using Cons.prems(1) by (metis distinct.simps(2) image_eqI list.simps(9) list.set_map)
    then show ?thesis using Cons.prems True by (auto simp: filter_empty_conv)
  qed auto
qed simp

lemma resolve_with_nonce_some:
  assumes inv: "tables_inv operators print db" and a: "resolvable sha_hex print now nonce c choice db a"
    and clean: "\<not> has_nul (cl_channel c)" "\<not> has_nul (cl_peer c)" "\<not> has_nul choice"
  shows "resolve_with_nonce sha_hex print dbg now nonce c (resolution choice None) db =
    Commit (Some (ask_id a, ask_task_id a))
      (db\<lparr>tb_tasks := update_where (\<lambda>t. tk_id t = ask_task_id a \<and> tk_state t = ''awaiting_operator'')
             (\<lambda>t. t\<lparr>tk_state := ''pending'', tk_updated_at := now\<rparr>) (tb_tasks db),
          tb_asks := update_where (\<lambda>a. ak_nonce_sha256 a = sha_hex nonce \<and> live_ask_for_claimant print now c db a)
             (set_resolved now (attribution c) (resolution choice None)) (tb_asks db)\<rparr>)"
proof -
  let ?p = "\<lambda>a. ak_nonce_sha256 a = sha_hex nonce \<and> live_ask_for_claimant print now c db a"
  have m: "a \<in> set (tb_asks db)" "?p a" using a by (auto simp: resolvable_def)
  obtain row where row: "find ?p (tb_asks db) = Some row" using m by (cases "find ?p (tb_asks db)") (auto simp: find_None_iff)
  have "row = a" using row m token_unique [OF inv] by (auto simp: find_Some_iff)
  moreover have "reject_choice_outside_options dbg a (resolution choice None) = Ok ()"
    using a by (simp add: reject_choice_iff resolvable_def)
  moreover have "length (filter (\<lambda>t. tk_id t = ask_task_id a \<and> tk_state t = ''awaiting_operator'') (tb_tasks db)) = 1"
  proof -
    have "ask_state a = ''pending''" using m(2) by (simp add: live_ask_for_claimant_def live_ask_def)
    then obtain t where t: "t \<in> set (tb_tasks db)" "tk_id t = ask_task_id a" "tk_state t = ''awaiting_operator''"
      using one_pending [OF inv m(1)] by blast
    have "distinct (map tk_id (tb_tasks db))" using inv by (simp add: tables_inv_def)
    then show ?thesis using t by (rule filter_one_id)
  qed
  ultimately show ?thesis
    using row clean by (simp add: resolve_with_nonce_def resolve_rows_def finish_resolve_def resume_from_ask_def update_tasks_def Let_def)
qed

lemma resolve_with_nonce_someD:
  assumes "resolve_with_nonce sha_hex print dbg now nonce c (resolution choice None) db = Commit (Some x) db'"
  shows "\<exists>a. resolvable sha_hex print now nonce c choice db a \<and> x = (ask_id a, ask_task_id a)"
proof -
  let ?p = "\<lambda>a. ak_nonce_sha256 a = sha_hex nonce \<and> live_ask_for_claimant print now c db a"
  obtain a where a: "find ?p (tb_asks db) = Some a" "Some x = Some (ask_id a, ask_task_id a)"
    "reject_choice_outside_options dbg a (resolution choice None) = Ok ()"
    by (rule resolve_rowsE [OF assms [unfolded resolve_with_nonce_def]]) (rule that; assumption)
  then have "a \<in> set (tb_asks db)" "?p a" by (auto simp: find_Some_iff)
  then show ?thesis using a(2,3) by (auto simp: resolvable_def reject_choice_iff)
qed

lemma resolve_with_nonce_none:
  assumes "\<And>a. a \<in> set (tb_asks db) \<Longrightarrow> ak_nonce_sha256 a = sha_hex nonce \<Longrightarrow> ask_state a \<noteq> ''pending''"
  shows "fst (run_tx fault (resolve_with_nonce sha_hex print dbg now nonce c res) db) \<noteq> Ok (Some x)"
proof -
  have "find (\<lambda>a. ak_nonce_sha256 a = sha_hex nonce \<and> live_ask_for_claimant print now c db a) (tb_asks db) = None"
    using assms by (auto simp: find_None_iff live_ask_for_claimant_def live_ask_def)
  then show ?thesis by (cases fault) (auto simp: resolve_with_nonce_def resolve_rows_def)
qed

lemma token_given:
  assumes inv: "tables_inv operators print db" and a: "resolvable sha_hex print now nonce c choice db a"
    and clean: "\<not> has_nul (cl_channel c)" "\<not> has_nul (cl_peer c)" "\<not> has_nul choice"
    and run: "run_tx TxFine (resolve_with_nonce sha_hex print dbg now nonce c (resolution choice None)) db = (r, db')"
  shows "r = Ok (Some (ask_id a, ask_task_id a)) \<and> (\<exists>a' \<in> set (tb_asks db'). a' = set_resolved now (attribution c) (resolution choice None) a) \<and>
      (\<exists>k \<in> set (tb_tasks db'). tk_id k = ask_task_id a \<and> tk_state k = ''pending'')"
proof -
  note e = resolve_with_nonce_some [OF inv a clean, of dbg]
  have m: "a \<in> set (tb_asks db)" "ak_nonce_sha256 a = sha_hex nonce" "live_ask_for_claimant print now c db a" using a by (auto simp: resolvable_def)
  have "ask_state a = ''pending''" using m(3) by (simp add: live_ask_for_claimant_def live_ask_def)
  then obtain k where k: "k \<in> set (tb_tasks db)" "tk_id k = ask_task_id a \<and> tk_state k = ''awaiting_operator''"
    using one_pending [OF inv m(1)] by blast
  have "r = Ok (Some (ask_id a, ask_task_id a))" using run by (simp add: e)
  moreover have "set_resolved now (attribution c) (resolution choice None) a \<in> set (tb_asks db')"
    using run upd_in_update_where [of a "tb_asks db" "\<lambda>a. ak_nonce_sha256 a = sha_hex nonce \<and> live_ask_for_claimant print now c db a"] m
    by (auto simp: e)
  moreover have "k\<lparr>tk_state := ''pending'', tk_updated_at := now\<rparr> \<in> set (tb_tasks db')"
    using run upd_in_update_where [of k "tb_tasks db" "\<lambda>t. tk_id t = ask_task_id a \<and> tk_state t = ''awaiting_operator''", OF k, of "\<lambda>t. t\<lparr>tk_state := ''pending'', tk_updated_at := now\<rparr>"] by (auto simp: e)
  moreover have "tk_id (k\<lparr>tk_state := ''pending'', tk_updated_at := now\<rparr>) = ask_task_id a \<and> tk_state (k\<lparr>tk_state := ''pending'', tk_updated_at := now\<rparr>) = ''pending''"
    using k(2) by simp
  ultimately show ?thesis by blast
qed

lemma token_used_up:
  assumes inv: "tables_inv operators print db" and a: "resolvable sha_hex print now nonce c choice db a"
    and clean: "\<not> has_nul (cl_channel c)" "\<not> has_nul (cl_peer c)" "\<not> has_nul choice"
    and run: "run_tx TxFine (resolve_with_nonce sha_hex print dbg now nonce c (resolution choice None)) db = (r, db')"
    and l: "(tables_step operators sha_hex print dbg)\<^sup>*\<^sup>* db' later"
  shows "fst (run_tx fault (resolve_with_nonce sha_hex print dbg now' nonce c' res) later) \<noteq> Ok (Some x)"
proof -
  let ?a = "set_resolved now (attribution c) (resolution choice None) a"
  have db': "db' = snd (run_tx TxFine (resolve_with_nonce sha_hex print dbg now nonce c (resolution choice None)) db)" using run by simp
  have i': "tables_inv operators print db'" unfolding db' using tables_step_inv [OF step_resolve_nonce inv] .
  have "?a \<in> set (tb_asks db')" "ask_state ?a \<noteq> ''pending''" using token_given [OF inv a clean run] by (auto simp: set_resolved_def)
  then have k: "?a \<in> set (tb_asks later)" "tables_inv operators print later"
    using tables_steps_keep [OF l i'] by (auto simp: keeps_closed_def)
  show ?thesis
  proof (rule resolve_with_nonce_none)
    fix b assume "b \<in> set (tb_asks later)" "ak_nonce_sha256 b = sha_hex nonce"
    then have "b = ?a" using token_unique [OF k(2) _ k(1)] a by (simp add: set_resolved_def resolvable_def)
    then show "ask_state b \<noteq> ''pending''" by (simp add: set_resolved_def)
  qed
qed

text \<open>The token of an ask answers it exactly when the ask is pending and before its deadline, its task came from the
  claimant's own channel and peer, and the choice is one of those offered; no other table state makes the answer fail, so
  a live ask is never stuck. The answer then stands in the claimant's name and the task runs again. The token is used up:
  whatever happens afterwards, no later answer with it succeeds, whoever sends it.\<close>

theorem token_answers_once:
  assumes "tables_reach operators sha_hex print dbg db"
    and "\<not> has_nul (cl_channel c)" "\<not> has_nul (cl_peer c)" "\<not> has_nul choice"
    and "run_tx TxFine (resolve_with_nonce sha_hex print dbg now nonce c (resolution choice None)) db = (r, db')"
  shows "(r = Ok (Some (i, t)) \<longleftrightarrow> (\<exists>a. resolvable sha_hex print now nonce c choice db a \<and> ask_id a = i \<and> ask_task_id a = t)) \<and>
    (r = Ok (Some (i, t)) \<longrightarrow>
       (\<exists>a \<in> set (tb_asks db'). ask_id a = i \<and> ask_state a = ''resolved'' \<and> ak_resolved_by a = Some (attribution c) \<and>
          ask_resolution a = Some (resolution choice None)) \<and>
       (\<exists>k \<in> set (tb_tasks db'). tk_id k = t \<and> tk_state k = ''pending'') \<and>
       (\<forall>later fault now' c' res x. (tables_step operators sha_hex print dbg)\<^sup>*\<^sup>* db' later \<longrightarrow>
          fst (run_tx fault (resolve_with_nonce sha_hex print dbg now' nonce c' res) later) \<noteq> Ok (Some x)))"
proof -
  note inv = tables_reach_inv [OF assms(1)]
  have only: "\<exists>a. resolvable sha_hex print now nonce c choice db a \<and> ask_id a = i \<and> ask_task_id a = t" if ok: "r = Ok (Some (i, t))"
  proof -
    obtain d where "resolve_with_nonce sha_hex print dbg now nonce c (resolution choice None) db = Commit (Some (i, t)) d \<or>
        resolve_with_nonce sha_hex print dbg now nonce c (resolution choice None) db = Rollback (Some (i, t))"
      using assms(5) ok by (auto split: TxOutcome.splits)
    moreover have "resolve_with_nonce sha_hex print dbg now nonce c (resolution choice None) db \<noteq> Rollback (Some (i, t))"
      by (auto simp: resolve_with_nonce_def resolve_rows_def finish_resolve_def split: if_splits option.splits sum.splits prod.splits bool.splits)
    ultimately show ?thesis using resolve_with_nonce_someD by fastforce
  qed
  note given = token_given [OF inv _ assms(2-5)] and used = token_used_up [OF inv _ assms(2-5)]
  show ?thesis
  proof (cases "\<exists>a. resolvable sha_hex print now nonce c choice db a \<and> ask_id a = i \<and> ask_task_id a = t")
    case True
    then obtain a where a: "resolvable sha_hex print now nonce c choice db a" "ask_id a = i" "ask_task_id a = t" by blast
    let ?a = "set_resolved now (attribution c) (resolution choice None) a"
    have "?a \<in> set (tb_asks db')" using given [OF a(1)] by blast
    moreover have "ask_id ?a = i \<and> ask_state ?a = ''resolved'' \<and> ak_resolved_by ?a = Some (attribution c) \<and> ask_resolution ?a = Some (resolution choice None)"
      using a(2) by (simp add: set_resolved_def)
    ultimately have row: "\<exists>a \<in> set (tb_asks db'). ask_id a = i \<and> ask_state a = ''resolved'' \<and> ak_resolved_by a = Some (attribution c) \<and>
        ask_resolution a = Some (resolution choice None)" by blast
    have "r = Ok (Some (i, t))" "\<exists>k \<in> set (tb_tasks db'). tk_id k = t \<and> tk_state k = ''pending''" using given [OF a(1)] a(2,3) by simp_all
    then show ?thesis using row used [OF a(1)] True by blast
  next
    case False
    then show ?thesis using only by blast
  qed
qed

lemma token_demo:
  "fst (run_tx TxFine (resolve_with_nonce rev (\<lambda>_. []) id 5 (generate_nonce ''abcde'') \<lparr>cl_channel = ''email'', cl_peer = ''ann''\<rparr>
     (resolution ''approve'' None)) demo_asked) = Ok (Some (1, 1))"
  by code_simp

lemma token_answers_once_witness:
  "(\<exists>a. resolvable rev (\<lambda>_. []) 5 (generate_nonce ''abcde'') \<lparr>cl_channel = ''email'', cl_peer = ''ann''\<rparr> ''approve'' demo_asked a \<and> ask_id a = 1) \<and>
   fst (run_tx TxFine (resolve_with_nonce rev (\<lambda>_. []) id 6 (generate_nonce ''abcde'') \<lparr>cl_channel = ''email'', cl_peer = ''ann''\<rparr>
     (resolution ''deny'' None)) demo_answered) \<noteq> Ok (Some (1, 1))"
proof -
  let ?c = "\<lparr>cl_channel = ''email'', cl_peer = ''ann''\<rparr>"
  have "run_tx TxFine (resolve_with_nonce rev (\<lambda>_. []) id 5 (generate_nonce ''abcde'') ?c (resolution ''approve'' None)) demo_asked =
      (Ok (Some (1, 1)), demo_answered)"
    using token_demo unfolding demo_answered_def by (metis prod.collapse)
  then show ?thesis
    using token_answers_once [OF demo_asked_reach, where c = ?c and choice = "''approve''" and i = 1 and t = 1]
    by (fastforce simp: has_nul_def NUL_def)
qed

section \<open>Overdue asks\<close>

lemma expire_rows_out:
  assumes "distinct (map tk_id (tb_tasks db))" "distinct (map ask_task_id as)"
    and "\<And>a. a \<in> set as \<Longrightarrow> \<exists>t \<in> set (tb_tasks db). tk_id t = ask_task_id a \<and> tk_state t = ''awaiting_operator''"
  shows "fst (expire_rows now as db) = map (\<lambda>a. (ask_id a, ask_task_id a)) as"
  using assms
proof (induction as arbitrary: db)
  case (Cons a as)
  let ?f = "fail_awaiting_operator now (ask_task_id a) ASK_TIMEOUT_DETAIL db"
  obtain t where "t \<in> set (tb_tasks db)" "tk_id t = ask_task_id a" "tk_state t = ''awaiting_operator''" using Cons.prems(3) by force
  then have failed: "fst ?f" using filter_one_id [OF Cons.prems(1)] by (simp add: fail_awaiting_operator_def Let_def)
  have tasks: "tb_tasks (snd ?f) = failed_for now {ask_task_id a} (tb_tasks db)" by (simp add: failed_for_step)
  have "fst (expire_rows now as (snd ?f)) = map (\<lambda>a. (ask_id a, ask_task_id a)) as"
  proof (rule Cons.IH)
    show "distinct (map tk_id (tb_tasks (snd ?f)))" using Cons.prems(1) by (simp add: tasks failed_for_def map_update_where)
    show "distinct (map ask_task_id as)" using Cons.prems(2) by simp
    fix b assume b: "b \<in> set as"
    then obtain k where k: "k \<in> set (tb_tasks db)" "tk_id k = ask_task_id b" "tk_state k = ''awaiting_operator''" using Cons.prems(3) by force
    have "ask_task_id b \<noteq> ask_task_id a" using b Cons.prems(2) by (metis distinct.simps(2) image_eqI list.simps(9) list.set_map)
    then have "k \<in> set (tb_tasks (snd ?f))" using k unfolding tasks failed_for_def by (intro in_update_where) auto
    then show "\<exists>t \<in> set (tb_tasks (snd ?f)). tk_id t = ask_task_id b \<and> tk_state t = ''awaiting_operator''" using k by blast
  qed
  then show ?case using failed by (simp add: case_prod_unfold)
qed simp

lemma distinct_pending_tasks:
  assumes "tables_inv operators print db" "\<And>a. p a \<Longrightarrow> ask_state a = ''pending''"
  shows "distinct (map ask_task_id (filter p (tb_asks db)))"
proof -
  have "distinct (map ask_id (tb_asks db))" using assms(1) by (simp add: tables_inv_def)
  then have "distinct (filter p (tb_asks db))" by (simp add: distinct_map)
  moreover have "a = b" if ab: "a \<in> set (tb_asks db)" "p a" "b \<in> set (tb_asks db)" "p b" "ask_task_id a = ask_task_id b" for a b
  proof -
    obtain t where t: "t \<in> set (tb_tasks db)" "tk_id t = ask_task_id a" "tk_state t = ''awaiting_operator''"
      "filter (pending_of (tk_id t)) (tb_asks db) = [a]" using one_pending [OF assms(1) ab(1) assms(2) [OF ab(2)]] .
    have "b \<in> set (filter (pending_of (tk_id t)) (tb_asks db))" using ab t(2) assms(2) by (simp add: pending_of_def)
    then show ?thesis using t(4) by simp
  qed
  ultimately show ?thesis unfolding distinct_map inj_on_def by simp
qed

text \<open>The expiry sweep fails closed. It reports exactly the asks whose deadline has passed, with their tasks; afterwards
  each of these asks is expired, its task has failed with the timeout as its result, and no pending ask is overdue.\<close>

theorem overdue_asks_fail_their_tasks:
  assumes "tables_reach operators sha_hex print dbg db"
  shows "\<exists>db'. run_tx TxFine (expire_due now) db =
      (Ok (map (\<lambda>a. (ask_id a, ask_task_id a)) (filter (overdue now) (tb_asks db))), db') \<and>
    (\<forall>a \<in> set (tb_asks db). overdue now a \<longrightarrow> a\<lparr>ask_state := ''expired''\<rparr> \<in> set (tb_asks db') \<and>
       (\<exists>t \<in> set (tb_tasks db'). tk_id t = ask_task_id a \<and> tk_state t = ''failed'' \<and>
          tk_result t = Some (jobj [(''kind'', JStr ''error''), (''detail'', JStr ''ask_timeout'')]))) \<and>
    \<not> list_ex (overdue now) (tb_asks db')"
proof -
  note inv = tables_reach_inv [OF assms]
  let ?as = "filter (overdue now) (tb_asks db)"
  let ?db = "db\<lparr>tb_asks := update_where (overdue now) (\<lambda>a. a\<lparr>ask_state := ''expired''\<rparr>) (tb_asks db)\<rparr>"
  let ?f = "\<lambda>t. t\<lparr>tk_state := ''failed'', tk_result := Some (error_result ASK_TIMEOUT_DETAIL), tk_finished_at := Some now, tk_updated_at := now\<rparr>"
  have w: "\<exists>t \<in> set (tb_tasks db). tk_id t = ask_task_id a \<and> tk_state t = ''awaiting_operator''" if "a \<in> set ?as" for a
    using that one_pending [OF inv, of a] by (auto simp: overdue_def)
  have out: "fst (expire_rows now ?as ?db) = map (\<lambda>a. (ask_id a, ask_task_id a)) ?as"
  proof (rule expire_rows_out)
    show "distinct (map tk_id (tb_tasks ?db))" using inv by (simp add: tables_inv_def)
    show "distinct (map ask_task_id ?as)" by (rule distinct_pending_tasks [OF inv]) (simp add: overdue_def)
    show "\<exists>t \<in> set (tb_tasks ?db). tk_id t = ask_task_id a \<and> tk_state t = ''awaiting_operator''" if "a \<in> set ?as" for a
      using w [OF that] by simp
  qed
  obtain db' where e: "expire_due now db = Commit (map (\<lambda>a. (ask_id a, ask_task_id a)) ?as) db'"
    using out by (auto simp: expire_due_def Let_def case_prod_unfold)
  note db' = expire_due_tables [OF e]
  have "a\<lparr>ask_state := ''expired''\<rparr> \<in> set (tb_asks db')" if "a \<in> set (tb_asks db)" "overdue now a" for a
    using upd_in_update_where [of a "tb_asks db" "overdue now", OF that, of "\<lambda>a. a\<lparr>ask_state := ''expired''\<rparr>"] by (simp add: db')
  moreover have "\<exists>t \<in> set (tb_tasks db'). tk_id t = ask_task_id a \<and> tk_state t = ''failed'' \<and>
      tk_result t = Some (jobj [(''kind'', JStr ''error''), (''detail'', JStr ''ask_timeout'')])"
    if a: "a \<in> set (tb_asks db)" "overdue now a" for a
  proof -
    obtain t where t: "t \<in> set (tb_tasks db)" "tk_id t = ask_task_id a" "tk_state t = ''awaiting_operator''" using w a by auto
    then have "?f t \<in> set (tb_tasks db')" using a upd_in_update_where [of t "tb_tasks db" "\<lambda>t. tk_id t \<in> ask_task_id ` {a \<in> set (tb_asks db). overdue now a} \<and> tk_state t = ''awaiting_operator''" ?f]
      unfolding db' failed_for_def by simp
    then show ?thesis using t by (intro bexI [of _ "?f t"]) (auto simp: error_result_def ASK_TIMEOUT_DETAIL_def)
  qed
  moreover have "\<not> list_ex (overdue now) (tb_asks db')" by (auto simp: db' set_update_where list_ex_iff overdue_def)
  ultimately show ?thesis using e by auto
qed

lemma overdue_asks_fail_their_tasks_witness:
  "fst (run_tx TxFine (expire_due 10) demo_asked) = Ok [(1, 1)]"
proof -
  have "map (\<lambda>a. (ask_id a, ask_task_id a)) (filter (overdue 10) (tb_asks demo_asked)) = [(1, 1)]" by code_simp
  then show ?thesis using overdue_asks_fail_their_tasks [OF demo_asked_reach, of 10] by (metis fst_conv)
qed

end
