(* ===== verification/Answer_Spec.thy ===== *)
theory Answer_Spec
  imports Ask_Spec Channel_Spec
begin

text \<open>
  The operator's answer end to end: from a message on a channel, through the resolver the channels use, to the tables, and
  from the tables to the decision on the plan that waits for it.
\<close>

section \<open>The resolver's contract\<close>

text \<open>What the channels rely on in a resolver: it resolves only tokens that are live for the claimant, and its scan for
  live tokens answers truly when it answers.\<close>

locale ask_resolver =
  fixes resolver :: AskResolver and live_token :: "rstr \<Rightarrow> rstr \<times> rstr \<Rightarrow> bool"
  assumes resolves_live: "ar_resolve resolver t c who = Ok (Some x) \<Longrightarrow> live_token t who"
    and scan_exact: "ar_any_live_nonce resolver ts who = Ok b \<Longrightarrow> b \<longleftrightarrow> list_ex (\<lambda>t. live_token t who) ts"
begin

lemma answer_confirmed:
  assumes "answer_ask resolver msg cmd = (ack, evs)" and "AuditRow ACTION_ASK_RESOLVED row \<in> set evs"
  shows "live_token (cmd_token cmd) (im_channel msg, im_peer msg) \<and>
    (\<exists>i t. ar_resolve resolver (cmd_token cmd) (ask_choice_str (cmd_choice cmd)) (im_channel msg, im_peer msg) = Ok (Some (i, t)))"
proof -
  have "ACTION_ASK_RESOLVED \<noteq> ASK_ANSWER_REJECTED" by (simp add: ACTION_ASK_RESOLVED_def ASK_ANSWER_REJECTED_def)
  then have "\<exists>i t. ar_resolve resolver (cmd_token cmd) (ask_choice_str (cmd_choice cmd)) (im_channel msg, im_peer msg) = Ok (Some (i, t))"
    using assms by (auto simp: answer_ask_def Let_def split: sum.splits option.splits)
  then show ?thesis using resolves_live by blast
qed

lemma contained_holds_no_token:
  assumes "containment_refusal env msg = None" "ie_asks env = Some resolver" "looks_like_ask_command (im_body msg)"
    and "candidate_tokens (ie_alnum env) (im_body msg) = Some toks" "t \<in> set toks"
  shows "\<not> live_token t (im_channel msg, im_peer msg)"
proof -
  have "ar_any_live_nonce resolver toks (im_channel msg, im_peer msg) = Ok False"
    using containment_passed [OF assms(1,3)] assms(2,4) by auto
  then show ?thesis using scan_exact assms(5) by (fastforce simp: list_ex_iff)
qed

end

definition token_live :: "(rstr \<Rightarrow> rstr) \<Rightarrow> (json \<Rightarrow> rstr) \<Rightarrow> int \<Rightarrow> Tables \<Rightarrow> rstr \<Rightarrow> rstr \<times> rstr \<Rightarrow> bool" where
  "token_live sha_hex print now db t who \<longleftrightarrow>
     list_ex (\<lambda>a. ak_nonce_sha256 a = sha_hex t \<and> live_ask_for_claimant print now \<lparr>cl_channel = fst who, cl_peer = snd who\<rparr> db a) (tb_asks db)"

lemma run_tx_ok:
  assumes "fst (run_tx fault f db) = Ok x"
  shows "(\<exists>db'. f db = Commit x db') \<or> f db = Rollback x"
  using assms by (cases fault; cases "f db") auto

lemma resolve_with_nonce_ok:
  assumes "fst (run_tx fault (resolve_with_nonce sha_hex print dbg now nonce c (resolution choice None)) db) = Ok (Some x)"
  shows "\<exists>a db'. resolvable sha_hex print now nonce c choice db a \<and> x = (ask_id a, ask_task_id a) \<and>
    resolve_with_nonce sha_hex print dbg now nonce c (resolution choice None) db = Commit (Some x) db'"
proof -
  have "resolve_with_nonce sha_hex print dbg now nonce c (resolution choice None) db \<noteq> Rollback (Some x)"
    by (auto simp: resolve_with_nonce_def resolve_rows_def finish_resolve_def split: if_splits option.splits sum.splits prod.splits bool.splits)
  then show ?thesis using run_tx_ok [OF assms] resolve_with_nonce_someD by blast
qed

interpretation pg: ask_resolver "pg_ask_resolver sha_hex print dbg now fault db" "token_live sha_hex print now db"
  for sha_hex print dbg now fault db
proof
  fix t c who x
  assume "ar_resolve (pg_ask_resolver sha_hex print dbg now fault db) t c who = Ok (Some x)"
  then show "token_live sha_hex print now db t who"
    using resolve_with_nonce_ok by (fastforce simp: pg_ask_resolver_def token_live_def resolvable_def list_ex_iff split: sum.splits)
next
  fix ts who b
  assume "ar_any_live_nonce (pg_ask_resolver sha_hex print dbg now fault db) ts who = Ok b"
  then have "fst (run_tx fault (any_live_nonce_for_claimant sha_hex print now ts \<lparr>cl_channel = fst who, cl_peer = snd who\<rparr>) db) = Ok b"
    by (auto simp: pg_ask_resolver_def split: sum.splits)
  then show "b \<longleftrightarrow> list_ex (\<lambda>t. token_live sha_hex print now db t who) ts"
    by (fastforce dest!: run_tx_ok simp: any_live_nonce_for_claimant_def token_live_def list_ex_iff split: if_splits)
qed

section \<open>Answers over a channel\<close>

lemmas action_names = ACTION_ASK_RESOLVED_def ASK_ANSWER_REJECTED_def RECEIVED_def ENQUEUE_FAILED_def INJECTION_BLOCKED_def PAIRED_def
  REJECTED_UNPAIRED_def REJECTED_UNAUTHENTIC_def REJECTED_UNVERIFIABLE_def REJECTED_MALFORMED_def

lemma other_rows:
  "refuse_unpaired env m = (reply, evs) \<Longrightarrow> AuditRow ACTION_ASK_RESOLVED row \<notin> set evs"
  "AuditRow ACTION_ASK_RESOLVED row \<notin> set (enqueue_message env m nuls)"
  by (auto simp: refuse_unpaired_def enqueue_message_def action_names split: option.splits if_splits sum.splits InboundDecision.splits)

lemma resolved_row_recognised:
  assumes "handle_recognised env m nuls = (reply, evs)" "AuditRow ACTION_ASK_RESOLVED row \<in> set evs"
  shows "\<exists>r cmd ack. ie_asks env = Some r \<and> parse_ask_command (im_body m) = Some cmd \<and> answer_ask r m cmd = (ack, evs)"
proof (cases "\<exists>r cmd. ie_asks env = Some r \<and> parse_ask_command (im_body m) = Some cmd")
  case True
  then show ?thesis using assms(1) by (auto simp: handle_recognised_def split: prod.splits)
next
  case False
  then have n: "(case ie_asks env of None \<Rightarrow> None | Some resolver \<Rightarrow> map_option (Pair resolver) (parse_ask_command (im_body m))) = None"
    by (auto split: option.splits)
  have "AuditRow ACTION_ASK_RESOLVED row \<notin> set evs"
    using assms(1) other_rows(2) unfolding handle_recognised_def n
    by (auto simp: ACTION_ASK_RESOLVED_def ASK_ANSWER_REJECTED_def split: option.splits if_splits)
  then show ?thesis using assms(2) by blast
qed

lemma resolved_row_origin:
  assumes "handle_inbound env msg = (reply, evs)" "AuditRow ACTION_ASK_RESOLVED row \<in> set evs"
  shows "ie_authorize env (im_channel msg) (im_peer msg) (im_evidence msg) = Recognised \<and>
    (\<exists>r cmd ack. ie_asks env = Some r \<and> parse_ask_command (read_body msg) = Some cmd \<and> answer_ask r (read_message msg) cmd = (ack, evs)) \<and>
    \<not> has_nul (im_channel msg) \<and> \<not> has_nul (im_peer msg)"
proof (cases "admit msg")
  case (Inl row')
  then show ?thesis using assms by (auto simp: handle_inbound_def admit_def action_names split: NulScreen.splits)
next
  case (Inr ok)
  obtain m nuls where ok: "ok = (m, nuls)" by (cases ok)
  have m: "m = read_message msg" "\<not> has_nul (im_channel msg)" "\<not> has_nul (im_peer msg)"
    using admit_Ok [of msg m nuls] Inr ok by (auto simp: read_message_def read_body_def has_nul_def)
  have r: "ie_authorize env (im_channel msg) (im_peer msg) (im_evidence msg) = Recognised" "handle_recognised env m nuls = (reply, evs)"
    using assms Inr ok m(1) other_rows(1)
    by (auto simp: handle_inbound_def action_names split: AuthDecision.splits)
  then show ?thesis using resolved_row_recognised [OF r(2) assms(2)] m by simp
qed

lemma add_candidates_covers: "add_candidates ts out = Some r \<Longrightarrow> set out \<union> {t \<in> set ts. t \<noteq> []} \<subseteq> set r"
  by (induction ts out rule: add_candidates.induct) (auto split: if_splits)

lemma candidate_tokens_cover:
  assumes "candidate_tokens alnum body = Some toks" "w \<in> set (split_whitespace body)"
  shows "w \<noteq> [] \<Longrightarrow> w \<in> set toks" "trim_matches (\<lambda>c. \<not> alnum c) w \<noteq> [] \<Longrightarrow> trim_matches (\<lambda>c. \<not> alnum c) w \<in> set toks"
  using assms add_candidates_covers unfolding candidate_tokens_def by (fastforce split: if_splits)+

text \<open>What the calls of a message do to the tables.\<close>

fun resolve_effects ::
    "(rstr \<Rightarrow> rstr) \<Rightarrow> (json \<Rightarrow> rstr) \<Rightarrow> (rstr \<Rightarrow> rstr) \<Rightarrow> int \<Rightarrow> TxFault \<Rightarrow> ChannelEvent list \<Rightarrow> Tables \<Rightarrow> Tables" where
  "resolve_effects sha_hex print dbg now fault [] db = db"
| "resolve_effects sha_hex print dbg now fault (ResolveCall t c who # evs) db =
     resolve_effects sha_hex print dbg now fault evs
       (snd (run_tx fault (resolve_with_nonce sha_hex print dbg now t \<lparr>cl_channel = fst who, cl_peer = snd who\<rparr> (resolution c None)) db))"
| "resolve_effects sha_hex print dbg now fault (_ # evs) db = resolve_effects sha_hex print dbg now fault evs db"

lemma committed_answer:
  assumes inv: "tables_inv operators print db"
    and ok: "fst (run_tx fault (resolve_with_nonce sha_hex print dbg now nonce c (resolution choice None)) db) = Ok (Some x)"
  shows "\<exists>a. resolvable sha_hex print now nonce c choice db a \<and> x = (ask_id a, ask_task_id a) \<and>
    set_resolved now (attribution c) (resolution choice None) a
      \<in> set (tb_asks (snd (run_tx fault (resolve_with_nonce sha_hex print dbg now nonce c (resolution choice None)) db)))"
proof -
  obtain a db' where a: "resolvable sha_hex print now nonce c choice db a" "x = (ask_id a, ask_task_id a)"
    and c: "resolve_with_nonce sha_hex print dbg now nonce c (resolution choice None) db = Commit (Some x) db'"
    using resolve_with_nonce_ok [OF ok] by blast
  have fine: "fault = TxFine" using ok c by (cases fault) auto
  have clean: "\<not> has_nul (cl_channel c)" "\<not> has_nul (cl_peer c)" "\<not> has_nul choice"
    using c by (auto simp: resolve_with_nonce_def resolve_rows_def split: if_splits)
  show ?thesis using a token_given [OF inv a(1) clean, of dbg "Ok (Some x)" db'] c fine by auto
qed

lemma channel_answer_stored:
  assumes "ie_asks env = Some (pg_ask_resolver (ie_sha_hex env) print dbg now fault db)"
    and "tables_reach operators (ie_sha_hex env) print dbg db" and "handle_inbound env msg = (reply, evs)"
    and "c = \<lparr>cl_channel = im_channel msg, cl_peer = im_peer msg\<rparr>" and "AuditRow ACTION_ASK_RESOLVED row \<in> set evs"
  shows "\<exists>cmd a. parse_ask_command (read_body msg) = Some cmd \<and>
      resolvable (ie_sha_hex env) print now (cmd_token cmd) c (ask_choice_str (cmd_choice cmd)) db a \<and>
      (\<exists>t \<in> set (tb_tasks db). tk_id t = ask_task_id a \<and> belongs_to print c (tk_payload t)) \<and>
      (\<exists>a' \<in> set (tb_asks (resolve_effects (ie_sha_hex env) print dbg now fault evs db)). ask_id a' = ask_id a \<and> ask_state a' = ''resolved'' \<and>
         ak_resolved_by a' = Some (attribution c) \<and> ask_resolution a' = Some (resolution (ask_choice_str (cmd_choice cmd)) None))"
proof -
  obtain cmd ack where cmd: "parse_ask_command (read_body msg) = Some cmd"
    "answer_ask (pg_ask_resolver (ie_sha_hex env) print dbg now fault db) (read_message msg) cmd = (ack, evs)" using resolved_row_origin [OF assms(3,5)] assms(1) by auto
  let ?choice = "ask_choice_str (cmd_choice cmd)"
  let ?tx = "resolve_with_nonce (ie_sha_hex env) print dbg now (cmd_token cmd) c (resolution ?choice None)"
  obtain i t where "ar_resolve (pg_ask_resolver (ie_sha_hex env) print dbg now fault db) (cmd_token cmd) ?choice (im_channel msg, im_peer msg) = Ok (Some (i, t))"
    using pg.answer_confirmed [OF cmd(2) assms(5)] by auto
  then have ok: "fst (run_tx fault ?tx db) = Ok (Some (i, t))" using assms(4) by (auto simp: pg_ask_resolver_def split: sum.splits)
  obtain a where a: "resolvable (ie_sha_hex env) print now (cmd_token cmd) c ?choice db a"
    "set_resolved now (attribution c) (resolution ?choice None) a \<in> set (tb_asks (snd (run_tx fault ?tx db)))"
    using committed_answer [OF tables_reach_inv [OF assms(2)] ok] by blast
  have "tb_asks (resolve_effects (ie_sha_hex env) print dbg now fault evs db) = tb_asks (snd (run_tx fault ?tx db))"
    using cmd(2) assms(4) by (auto simp: answer_ask_def Let_def split: sum.splits option.splits prod.splits)
  then have "\<exists>a' \<in> set (tb_asks (resolve_effects (ie_sha_hex env) print dbg now fault evs db)). ask_id a' = ask_id a \<and> ask_state a' = ''resolved'' \<and>
      ak_resolved_by a' = Some (attribution c) \<and> ask_resolution a' = Some (resolution ?choice None)"
    using a(2) by (intro bexI [of _ "set_resolved now (attribution c) (resolution ?choice None) a"]) (simp_all add: set_resolved_def)
  moreover have "\<exists>t \<in> set (tb_tasks db). tk_id t = ask_task_id a \<and> belongs_to print c (tk_payload t)"
    using a(1) by (auto simp: resolvable_def live_ask_for_claimant_def list_ex_iff)
  ultimately show ?thesis
    using cmd(1) a(1) by blast
qed

text \<open>An answer over a channel. The log says that an ask was resolved only if the peer is vouched for and its message is a
  command with a token that is live for that very peer: the ask is pending and before its deadline, its task came from this
  channel and this peer, and the choice was offered; the tables then hold the answer in the peer's name. A text that speaks
  of a command and still becomes a task carries no live token of the peer, as a word or as a word without the punctuation
  around it.\<close>

theorem channel_answer_is_the_owners:
  assumes "ie_authorize env = db_authorize (ie_sha_hex env) hashes"
    and "ie_asks env = Some (pg_ask_resolver (ie_sha_hex env) print dbg now fault db)"
    and "tables_reach operators (ie_sha_hex env) print dbg db" and "handle_inbound env msg = (reply, evs)"
    and "c = \<lparr>cl_channel = im_channel msg, cl_peer = im_peer msg\<rparr>"
  shows "(\<forall>row. AuditRow ACTION_ASK_RESOLVED row \<in> set evs \<longrightarrow>
      db_vouched (ie_sha_hex env) hashes (im_channel msg) (im_peer msg) (im_evidence msg) \<and>
      (\<exists>cmd a. parse_ask_command (read_body msg) = Some cmd \<and>
         resolvable (ie_sha_hex env) print now (cmd_token cmd) c (ask_choice_str (cmd_choice cmd)) db a \<and>
         (\<exists>t \<in> set (tb_tasks db). tk_id t = ask_task_id a \<and> belongs_to print c (tk_payload t)) \<and>
         (\<exists>a' \<in> set (tb_asks (resolve_effects (ie_sha_hex env) print dbg now fault evs db)). ask_id a' = ask_id a \<and> ask_state a' = ''resolved'' \<and>
            ak_resolved_by a' = Some (attribution c) \<and> ask_resolution a' = Some (resolution (ask_choice_str (cmd_choice cmd)) None)))) \<and>
    (\<forall>payload w. EnqueueCall payload \<in> set evs \<and> looks_like_ask_command (read_body msg) \<and> w \<in> set (split_whitespace (read_body msg)) \<longrightarrow>
       (w \<noteq> [] \<longrightarrow> \<not> token_live (ie_sha_hex env) print now db w (im_channel msg, im_peer msg)) \<and>
       (trim_matches (\<lambda>c. \<not> ie_alnum env c) w \<noteq> [] \<longrightarrow>
          \<not> token_live (ie_sha_hex env) print now db (trim_matches (\<lambda>c. \<not> ie_alnum env c) w) (im_channel msg, im_peer msg)))"
proof (intro conjI allI impI)
  fix row assume row: "AuditRow ACTION_ASK_RESOLVED row \<in> set evs"
  show "db_vouched (ie_sha_hex env) hashes (im_channel msg) (im_peer msg) (im_evidence msg)"
    using resolved_row_origin [OF assms(4) row] assms(1) db.recognised by simp
  show "\<exists>cmd a. parse_ask_command (read_body msg) = Some cmd \<and>
      resolvable (ie_sha_hex env) print now (cmd_token cmd) c (ask_choice_str (cmd_choice cmd)) db a \<and>
      (\<exists>t \<in> set (tb_tasks db). tk_id t = ask_task_id a \<and> belongs_to print c (tk_payload t)) \<and>
      (\<exists>a' \<in> set (tb_asks (resolve_effects (ie_sha_hex env) print dbg now fault evs db)). ask_id a' = ask_id a \<and> ask_state a' = ''resolved'' \<and>
         ak_resolved_by a' = Some (attribution c) \<and> ask_resolution a' = Some (resolution (ask_choice_str (cmd_choice cmd)) None))"
    by (rule channel_answer_stored [OF assms(2,3,4,5) row])
next
  fix payload w
  assume "EnqueueCall payload \<in> set evs \<and> looks_like_ask_command (read_body msg) \<and> w \<in> set (split_whitespace (read_body msg))"
  then have l: "looks_like_ask_command (im_body (read_message msg))" and w: "w \<in> set (split_whitespace (read_body msg))"
    and c: "containment_refusal env (read_message msg) = None" using db.enqueue_vouched [OF assms(1,4)] by auto
  obtain toks where toks: "candidate_tokens (ie_alnum env) (im_body (read_message msg)) = Some toks" using containment_passed [OF c l] by blast
  have none: "\<not> token_live (ie_sha_hex env) print now db t (im_channel msg, im_peer msg)" if "t \<in> set toks" for t
    using pg.contained_holds_no_token [OF c assms(2) l toks that] by simp
  note cover = candidate_tokens_cover [OF toks [simplified] w]
  show "\<not> token_live (ie_sha_hex env) print now db w (im_channel msg, im_peer msg)" if "w \<noteq> []" using none cover(1) that by blast
  show "\<not> token_live (ie_sha_hex env) print now db (trim_matches (\<lambda>c. \<not> ie_alnum env c) w) (im_channel msg, im_peer msg)"
    if "trim_matches (\<lambda>c. \<not> ie_alnum env c) w \<noteq> []" using none cover(2) that by blast
qed

definition answer_env :: InboundEnv where
  "answer_env =
     \<lparr>ie_authorize = db_authorize rev (\<lambda>c p. Ok (Some None)), ie_pairing = None,
      ie_asks = Some (pg_ask_resolver rev (\<lambda>_. []) id 5 TxFine demo_asked), ie_enqueue = (\<lambda>payload. Ok 5),
      ie_lower = to_ascii_lowercase, ie_sha_hex = rev, ie_alnum = list_all is_ascii_alphanumeric, ie_score = (\<lambda>n. JInt (int n))\<rparr>"

definition answer_msg :: IncomingMessage where
  "answer_msg = \<lparr>im_channel = ''email'', im_peer = ''ann'', im_conversation = ''c1'', im_body = ''/approve 6162636465'', im_evidence = None\<rparr>"

lemma answer_handled: "list_ex (\<lambda>e. case e of AuditRow a row \<Rightarrow> a = ACTION_ASK_RESOLVED | _ \<Rightarrow> False) (snd (handle_inbound answer_env answer_msg))"
  by code_simp

lemma channel_answer_is_the_owners_witness:
  "\<exists>cmd a. parse_ask_command ''/approve 6162636465'' = Some cmd \<and> ask_id a = 1 \<and>
     resolvable rev (\<lambda>_. []) 5 (cmd_token cmd) \<lparr>cl_channel = ''email'', cl_peer = ''ann''\<rparr> (ask_choice_str (cmd_choice cmd)) demo_asked a"
proof -
  obtain reply evs where h: "handle_inbound answer_env answer_msg = (reply, evs)" by (metis surj_pair)
  then obtain e where "e \<in> set evs" "case e of AuditRow a row \<Rightarrow> a = ACTION_ASK_RESOLVED | _ \<Rightarrow> False"
    using answer_handled by (auto simp: list_ex_iff)
  then obtain row where row: "AuditRow ACTION_ASK_RESOLVED row \<in> set evs" by (auto split: ChannelEvent.splits)
  have b: "read_body answer_msg = ''/approve 6162636465''" by code_simp
  have e: "ie_authorize answer_env = db_authorize (ie_sha_hex answer_env) (\<lambda>c p. Ok (Some None))"
    "ie_asks answer_env = Some (pg_ask_resolver (ie_sha_hex answer_env) (\<lambda>_. []) id 5 TxFine demo_asked)"
    "tables_reach {} (ie_sha_hex answer_env) (\<lambda>_. []) id demo_asked" "ie_sha_hex answer_env = rev"
    "im_channel answer_msg = ''email''" "im_peer answer_msg = ''ann''"
    using demo_asked_reach by (simp_all add: answer_env_def answer_msg_def)
  have "ask_id a = 1" if "a \<in> set (tb_asks demo_asked)" for a using demo_asked_rows(2) that by auto
  then show ?thesis
    using channel_answer_is_the_owners [OF e(1-3) h refl] row unfolding b e(4-6) resolvable_def by blast
qed

section \<open>Approvals\<close>

text \<open>An approval the scheduler acts on was given. If the decision on a plan is that it was approved, by one of the asks
  the scheduler reads for the task, then an ask of this very task was raised for a plan of this digest and resolved before
  its deadline, the answer stored with it is an approval it had offered, and it was given by an operator at the command line
  or in the name of the peer and channel the task came from.\<close>

theorem approval_was_given:
  assumes "tables_reach operators sha_hex print dbg db" and "resolved_for_task i db = Rollback asks"
    and "ask \<in> set asks" and "ask_decide ask digest = AskApproved"
  shows "\<exists>a \<in> set (tb_asks db). ask = decode_ask_row a \<and> ask_task_id a = i \<and> ask_plan_digest a = Some digest \<and>
    (\<exists>at who res offered. ak_resolved_at a = Some at \<and> at < ak_deadline_at a \<and> ak_resolved_by a = Some who \<and> ask_resolution a = Some res \<and>
       json_get res ''choice'' = Some (JStr ''approve'') \<and> ask_options a = JArr offered \<and> JStr ''approve'' \<in> set offered \<and>
       (who \<in> operators \<or> (\<exists>t \<in> set (tb_tasks db). tk_id t = i \<and> (\<exists>c. who = attribution c \<and> belongs_to print c (tk_payload t)))))"
proof -
  note inv = tables_reach_inv [OF assms(1)]
  obtain a where a: "a \<in> set (tb_asks db)" "ask = decode_ask_row a" "ask_task_id a = i" "ask_state a = ''resolved''"
    using assms(2,3) by (auto simp: resolved_for_task_def)
  have same: "ask_plan_digest ask = ask_plan_digest a" "ask_resolution ask = ask_resolution a" "ask_options ask = ask_options a"
    by (simp_all add: a(2) decode_ask_row_def Ask.defs)
  have ok: "ask_row_ok a" "answered_by operators print (tb_tasks db) a" using inv a(1) by (auto simp: tables_inv_def)
  obtain at who res where r: "ak_resolved_at a = Some at" "ak_resolved_by a = Some who" "ask_resolution a = Some res"
    using ok(1) a(4) by (auto simp: ask_row_ok_def)
  have approve: "resolution_choice ask = Some ChoiceApprove" "ask_plan_digest a = Some digest"
    using assms(4) same(1) by (auto simp: ask_decide_def split: option.splits Choice.splits if_splits)
  obtain offered where o: "json_get res ''choice'' = Some (JStr ''approve'')" "ask_options a = JArr offered" "JStr ''approve'' \<in> set offered"
  proof -
    have s: "json_as_str v = Some w \<longleftrightarrow> v = JStr w" for v w by (cases v) auto
    have y: "json_as_array v = Some w \<longleftrightarrow> v = JArr w" for v w by (cases v) auto
    show thesis using that approve(1) r(3) same
      by (auto simp: resolution_choice_def RESOLUTION_CHOICE_KEY_def s y list_ex_iff split: option.splits if_splits)
  qed
  have "at < ak_deadline_at a" using ok(1) r(1) by (simp add: ask_row_ok_def)
  moreover have "who \<in> operators \<or> (\<exists>t \<in> set (tb_tasks db). tk_id t = i \<and> (\<exists>c. who = attribution c \<and> belongs_to print c (tk_payload t)))"
    using ok(2) r(2) a(3) by (simp add: answered_by_def)
  ultimately show ?thesis using a r o approve(2) by blast
qed

lemma approval_was_given_witness:
  "\<exists>a \<in> set (tb_asks demo_answered). ask_plan_digest a = Some ''d1'' \<and> (\<exists>at. ak_resolved_at a = Some at \<and> at < ak_deadline_at a)"
proof -
  let ?asks = "case resolved_for_task 1 demo_answered of Rollback asks \<Rightarrow> asks | _ \<Rightarrow> []"
  have r: "resolved_for_task 1 demo_answered = Rollback ?asks" by (simp add: resolved_for_task_def)
  have "list_ex (\<lambda>ask. ask_decide ask ''d1'' = AskApproved) ?asks" by code_simp
  then obtain ask where "ask \<in> set ?asks" "ask_decide ask ''d1'' = AskApproved" by (auto simp: list_ex_iff)
  then show ?thesis using approval_was_given [OF demo_answered_reach r] by blast
qed

end
