(* ===== verification/Spec2Isabelle.thy ===== *)
theory Spec2Isabelle
  imports Egress_Spec Loop_Spec Skill_Spec Dispatch_Spec Output_Spec Sandbox_Spec Config_Spec Mac_Spec Channel_Spec Reply_Spec Driver_Spec Answer_Spec
begin

text \<open>
  \<^bold>\<open>Kastellan\<close> is an agent daemon. A scheduler takes a task, asks a language model for a plan, has a review chain judge
  the plan, dispatches the approved steps to sandboxed workers, shows the model what came back, and goes on until the
  task ends. Whatever a worker sends over the network goes through an egress proxy. This development models the core of
  that loop and its safeguards, from the source under \<^verbatim>\<open>src/\<close>, and proves what makes them correct.

  \<^bold>\<open>Conventions.\<close> A Rust string is the list of its UTF-8 bytes (\<open>rstr\<close>), \<^verbatim>\<open>Result\<close> is a sum with \<open>Err\<close> on the left,
  machine integers are words where they wrap and naturals with the saturation written out where the code saturates. State
  is passed explicitly. Code that is not in the repository is an argument: SHA-256, the JSON printer and parser, Unicode
  lower-casing, the clock (a function from the number of readings made so far), the random source, the model servers, the
  database, DNS, TLS and the sockets. The records \<open>World\<close> (a task), \<open>DispatchEnv\<close> and \<open>StepEnv\<close> (a step) and the arguments of
  \<open>handle_conn\<close> (a connection) collect them; where a theorem relies on one of them the hypothesis is in its statement.

  \<^bold>\<open>Shared.\<close>
  \<^item> \<^verbatim>\<open>Prelude\<close>: bytes, strings, numbers, UTF-8 validity, \<open>find_map\<close>, fallible folds, and the rule collections.
  \<^item> \<^verbatim>\<open>Utf8\<close>: \<^verbatim>\<open>chars\<close>, character boundaries, the two ways the code cuts a string, lossy decoding.
  \<^item> \<^verbatim>\<open>Plan_Types\<close>: JSON, data classes, plans and steps (\<^verbatim>\<open>core/src/cassandra/types.rs\<close>).

  \<^bold>\<open>Review of plans\<close> (\<^verbatim>\<open>core/src/cassandra\<close>, \<^verbatim>\<open>core/src/classification_inference.rs\<close>).
  \<^item> \<^verbatim>\<open>Data_Policy\<close>: the classification policy and the chain of reviewers.
  \<^item> \<^verbatim>\<open>Constitutional\<close>: the constitutional guard and its patterns.
  \<^item> \<^verbatim>\<open>Floor_Policy\<close>: the floor inferred from a text and how it is raised.

  \<^bold>\<open>Skills and asks\<close> (\<^verbatim>\<open>core/src/memory\<close>, \<^verbatim>\<open>core/src/scheduler/asks\<close>).
  \<^item> \<^verbatim>\<open>Skill_Template\<close>, \<^verbatim>\<open>Skill_Invoke\<close>: validation, approval and expansion of skills, Python skills included.
  \<^item> \<^verbatim>\<open>Asks\<close>: the digest that binds an approval to a plan, the decision of an ask, and the suspended run.
  \<^item> \<^verbatim>\<open>Skill_Spec\<close>: expansions are pinned, approved and bounded; digests bind plans; suspension round-trips.

  \<^bold>\<open>The task loop\<close> (\<^verbatim>\<open>core/src/scheduler/inner_loop*\<close>).
  \<^item> \<^verbatim>\<open>Llm_Failure\<close>: the planning call with its retries and ceilings.
  \<^item> \<^verbatim>\<open>Inner_Loop\<close>: one reviewed plan: floor raise, skill expansion, verdict, suspension, dispatch, record.
  \<^item> \<^verbatim>\<open>Task_Loop\<close>: the loop. It is one function, total by the measure of plans left. The locales \<open>run_invariant\<close> and
    \<open>run_outcome\<close> carry an invariant of a round to the run; their interpretations give the properties below.
  \<^item> \<^verbatim>\<open>Loop_Spec\<close>: nothing runs unreviewed or below the floor, every task ends within its bounds.

  \<^bold>\<open>A dispatched step\<close> (\<^verbatim>\<open>core/src/{secrets,handoff,tool_host,worker_lifecycle,scheduler/tool_dispatch}\<close>).
  \<^item> \<^verbatim>\<open>Vault\<close>: the secret vault and the substitution of references. The locale \<open>redeem_from_vault\<close> is the contract of the trait
    \<^verbatim>\<open>RedeemFromVault\<close>; \<open>live_redeemer\<close> extends it with what makes a walk succeed; both are interpreted on the real vault.
  \<^item> \<^verbatim>\<open>Handoff\<close>: the cache of oversized results. The locale \<open>paged_store\<close> is the contract of a store read page by page,
    interpreted on the cache.
  \<^item> \<^verbatim>\<open>Tool_Dispatch\<close>: redeem, provision the leak scanner, call, scrub, screen, log.
  \<^item> \<^verbatim>\<open>Worker_Lifecycle\<close>: the warm slot of a tool as a step relation over acquisitions, crashes, releases, timers and the clock.
  \<^item> \<^verbatim>\<open>Step_Dispatch\<close>: the dispatcher the loop calls, composing the four theories above.
  \<^item> \<^verbatim>\<open>Dispatch_Spec\<close>: when a worker is called and with what, what comes back, and the invariants of vault, cache and slot.

  \<^bold>\<open>What the planner reads\<close> (\<^verbatim>\<open>core/src/cassandra/{injection_guard,guard_model}\<close>, \<^verbatim>\<open>inner_loop/{result_view,summary}\<close>).
  \<^item> \<^verbatim>\<open>Injection_Guard\<close>: the catalogue screen, the text it reads, and the decisions of the guard model.
  \<^item> \<^verbatim>\<open>Result_View\<close>, \<^verbatim>\<open>Screened_Head\<close>: pruning a value to a budget; the head of an oversized one. The two narrowing loops of
    \<open>render\<close> carry as fuel the limits they decrease; \<open>narrow_items_exhausts\<close> and \<open>narrow_keys_exhausts\<close> say it suffices.
  \<^item> \<^verbatim>\<open>Summary\<close>, \<^verbatim>\<open>Summary_Budget\<close>, \<^verbatim>\<open>Summary_Screen\<close>: the digest of earlier steps, its budget and its screens.
  \<^item> \<^verbatim>\<open>Output_Spec\<close>: what is shown is screened and fits.

  \<^bold>\<open>Egress\<close> (\<^verbatim>\<open>leak-scan\<close>, \<^verbatim>\<open>net-classify\<close>, \<^verbatim>\<open>workers/{egress-proxy,web-common}\<close>).
  \<^item> \<^verbatim>\<open>Net_Classify\<close>, \<^verbatim>\<open>Ip_Text\<close>, \<^verbatim>\<open>Egress_Allowlist\<close>: denied address ranges, address text, the allowlist and the request line.
  \<^item> \<^verbatim>\<open>Leak_Fingerprint\<close>, \<^verbatim>\<open>Leak_Matcher\<close>, \<^verbatim>\<open>Leak_Redact\<close>, \<^verbatim>\<open>Leak_Wire\<close>: fingerprints, the streaming matcher, redaction, the file.
  \<^item> \<^verbatim>\<open>Egress_Relay\<close>, \<^verbatim>\<open>Egress_Pins\<close>, \<^verbatim>\<open>Egress_Proxy\<close>: the scanning relay (the locale \<open>stream_scanner\<close> is interpreted on the
    matcher), certificate pins and the leaf cache, and a connection from its first line to its end.
  \<^item> \<^verbatim>\<open>Egress_Spec\<close>: no denied address is dialled, no secret is relayed, matcher and redaction are exact.

  \<^bold>\<open>Starting a worker\<close> (\<^verbatim>\<open>sandbox/src\<close>, \<^verbatim>\<open>core/src/{tool_host,egress,broker,worker_lifecycle/force_route.rs}\<close>, \<^verbatim>\<open>workers/microvm-init\<close>).
  \<^item> \<^verbatim>\<open>Unix_Path\<close>: what the code uses of \<^verbatim>\<open>std::path\<close>.
  \<^item> \<^verbatim>\<open>Sandbox\<close>, \<^verbatim>\<open>Sandbox_Mac\<close>: the bubblewrap, Seatbelt and container backends: checks, command lines, profiles, spawns.
  \<^item> \<^verbatim>\<open>Jail_Reading\<close>, \<^verbatim>\<open>Profile_Reading\<close>: reference readings, of a bubblewrap command line as a jail and of a Seatbelt profile as
    what its clauses grant, compared with a jail and grants written down from the policy alone. The locale \<open>jail_backend\<close> is what the daemon relies on in a backend; it
    is interpreted on the bubblewrap and the container backend.
  \<^item> \<^verbatim>\<open>Micro_Vm\<close>, \<^verbatim>\<open>Guest_Init\<close>: the launch plan of a micro-VM, and what the guest's first process reads from its command line.
  \<^item> \<^verbatim>\<open>Vm_Launch\<close>: the start of a micro-VM: orphaned run directories, the kernel pin, private files, images, the launcher.
    Copying a share carries the depth as fuel; \<open>firecracker_spawn_ends\<close> says 4096 levels suffice, since no path is longer.
  \<^item> \<^verbatim>\<open>Egress_Config\<close>: the operator's certificate pins and trust anchors, and what of them a worker's proxy is given.
  \<^item> \<^verbatim>\<open>Worker_Spawn\<close>, \<^verbatim>\<open>Spawn_Gate\<close>: from a registry entry to running processes: scratch directories, lockdown variables, the
    proxy and broker sidecars, force routing. What happens outside (directories made and removed, processes launched and
    killed) is a list of events in the state \<open>SpawnWorld\<close>; \<open>Host\<close> collects the answers of the operating system. The wait for a
    sidecar is a total function of the polls, whose clock moves by at least the polling interval.
  \<^item> \<^verbatim>\<open>Spawn_Facts\<close>, \<^verbatim>\<open>Policy_Wf\<close>: what reaches a backend, what a failed spawn undoes, and that policies stay well-formed.
  \<^item> \<^verbatim>\<open>Sandbox_Spec\<close>, \<^verbatim>\<open>Config_Spec\<close>, \<^verbatim>\<open>Mac_Spec\<close>: the jail is the policy, a routed worker has no network of its own and agrees with
    its proxy, a failed spawn cleans up (but for a worker without pipes), the guest reads what the host wrote, pins and anchors go where they should.

  \<^bold>\<open>Channels, inbound\<close> (\<^verbatim>\<open>core/src/channel/{email,auth.rs,ingest.rs,pairing.rs,bus_inbound.rs,inbound_nul.rs,ask_message.rs}\<close>).
  \<^item> \<^verbatim>\<open>Channel_Gate\<close>, \<^verbatim>\<open>Gate_Facts\<close>: the DMARC verdict of a mail, the token lines of a body, and the authorizers.
  \<^item> \<^verbatim>\<open>Channel_Inbound\<close>: a message from its arrival to a task, an answer to an approval, a pairing or a refusal. Database and clock
    are fields of \<open>InboundEnv\<close>; what the handler does is a list of events.
  \<^item> \<^verbatim>\<open>Mail_Wire\<close>: what the mail worker's answers are read as.
  \<^item> \<^verbatim>\<open>Channel_Spec\<close>: the locale \<open>peer_authorizer\<close> is the contract of the trait \<^verbatim>\<open>PeerAuthorizer\<close>, interpreted on the database and
    the static authorizer; nothing acts for a peer that is not vouched for.

  \<^bold>\<open>Channels, outbound\<close> (\<^verbatim>\<open>core/src/channel/{route,catch_up,bus_outbound,bus_deliver,bus_guards,undelivered,outbox}.rs\<close>, \<^verbatim>\<open>db/src/reply_claim.rs\<close>).
  \<^item> \<^verbatim>\<open>Channel_Outbound\<close>: the reply of a finished task, its claim in the task table, its delivery, the catch-up sweep. Every
    statement may fail before or after it took effect (\<open>oe_fault\<close>). A queue holds 32 items; a router waits at a full one.
  \<^item> \<^verbatim>\<open>Delivery_Spec\<close>, \<^verbatim>\<open>Sweep_Facts\<close>: the bus as a step relation over notifications, sweeps, waiting routers, pumps, other
    processes and restarts, and its invariant; the pages of a sweep, which ends or waits since every page moves the last id up.
  \<^item> \<^verbatim>\<open>Reply_Spec\<close>: a reply is sent at most once; a sweep queues exactly what is owed, as far as the queues have room.

  \<^bold>\<open>The polled driver\<close> (\<^verbatim>\<open>core/src/channel/polled_driver\<close>).
  \<^item> \<^verbatim>\<open>Reply_Queues\<close>: the queues of replies per conversation, refusals, give-up clocks and outages.
  \<^item> \<^verbatim>\<open>Polled_Driver\<close>: the loop of a channel worker: flush, poll, hand over, acknowledge, drain on exit; it runs for a given
    number of rounds, and every theorem is about any number of them.
  \<^item> \<^verbatim>\<open>Driver_Facts\<close>, \<^verbatim>\<open>Driver_Spec\<close>: the log of the driver replays on one plain queue per conversation; batches are handed over in
    order and acknowledged only after that.

  \<^bold>\<open>Task and ask tables\<close> (\<^verbatim>\<open>db/src/{tasks.rs,asks.rs,nul.rs}\<close> and their migrations).
  \<^item> \<^verbatim>\<open>Stored_Json\<close>: what a JSON column stores of a value with NUL characters.
  \<^item> \<^verbatim>\<open>Task_Table\<close>, \<^verbatim>\<open>Ask_Table\<close>: every statement and transaction on the two tables, with the checks and unique indices of the
    migrations. A transaction is one step; it, or its commit, may fail or lose its answer. Sequences, clocks and the rows a
    claim skips are free.
  \<^item> \<^verbatim>\<open>Ask_Facts\<close>, \<^verbatim>\<open>Ask_Spec\<close>: the reachable tables; a waiting task has one pending ask, closed rows stay as they are, a token
    answers once, an overdue ask fails its task.
  \<^item> \<^verbatim>\<open>Answer_Spec\<close>: the locale \<open>ask_resolver\<close> is the contract of the trait the inbound side calls, interpreted on the tables;
    an answer over a channel is its owner's, and an approval the scheduler acts on was given.

  \<^bold>\<open>Order of time.\<close> A task, a step, a spawn and a connection are sequential programs. Concurrency is modelled where the code
  handles it: the two directions of a relay under every schedule, the operations on a warm slot, the bus of the
  channels (notifications, sweeps, pumps, restarts) and the transactions on the tables under every interleaving. Rows of the audit log are recorded in the order their inserts are attempted.

  \<^bold>\<open>Not modelled.\<close> The prompt text and the HTTP client of the model; SQL beyond the statements on tasks, asks and replies; starting
  and restarting a channel, and the Matrix transport; the probes of the backends and the system calls of the guest; the
  calibration tools of the guard model; installation; the command line. \<open>seed_known_ref_for_test\<close>, which exists in debug builds
  only and binds without an audit row, is defined but is not one of the steps of the vault. The matcher counts the bytes fed as a natural number where the code has 64 bits.
\<close>

end
